(* ===== verification/Prelude.thy ===== *)
theory Prelude
  imports Complex_Main "HOL-Library.Char_ord" "HOL-Library.List_Lexorder"
begin

text \<open>Shared notions of the development: Go strings and byte order, fallible results as
  sums, and the generic lemmas on lists and byte-wise comparison that the components use.

  A Go \<^theory_text>\<open>string\<close> is its list of bytes (a \<^theory_text>\<open>string\<close> of HOL), compared byte by byte as
  Go's \<^theory_text>\<open><\<close> does; a Go function that returns \<^theory_text>\<open>(T, error)\<close> returns \<^theory_text>\<open>'e + 'a\<close>, with \<^theory_text>\<open>Inl\<close>
  for the error and \<^theory_text>\<open>Inr\<close> for the value.\<close>

type_synonym str = string

type_synonym ('e, 'a) result = "'e + 'a"

named_theorems sum_cases "case rules of the fallible operations"

section \<open>Fallible results\<close>

definition bindR :: "('e, 'a) result \<Rightarrow> ('a \<Rightarrow> ('e, 'b) result) \<Rightarrow> ('e, 'b) result" where
  "bindR r f = (case r of Inl e \<Rightarrow> Inl e | Inr x \<Rightarrow> f x)"

definition isOk :: "('e, 'a) result \<Rightarrow> bool" where
  "isOk r = (case r of Inl _ \<Rightarrow> False | Inr _ \<Rightarrow> True)"

definition requireR :: "bool \<Rightarrow> 'e \<Rightarrow> ('e, unit) result" where
  "requireR b e = (if b then Inr () else Inl e)"

lemma bindR_simps [simp]:
  "bindR (Inl e) f = Inl e"
  "bindR (Inr x) f = f x"
  by (simp_all add: bindR_def)

lemma bindR_eq_Inr [sum_cases]:
  "bindR r f = Inr y \<longleftrightarrow> (\<exists>x. r = Inr x \<and> f x = Inr y)"
  by (cases r) auto

lemma bindR_eq_Inl [sum_cases]:
  "bindR r f = Inl e \<longleftrightarrow> r = Inl e \<or> (\<exists>x. r = Inr x \<and> f x = Inl e)"
  by (cases r) auto

lemma isOk_simps [simp]: "isOk (Inr x)" "\<not> isOk (Inl e)"
  by (simp_all add: isOk_def)

lemma isOkE: "isOk r \<Longrightarrow> (\<And>x. r = Inr x \<Longrightarrow> P) \<Longrightarrow> P"
  by (cases r) auto

lemma requireR_eq [simp]:
  "requireR b e = Inr u \<longleftrightarrow> b"
  "requireR b e = Inl e' \<longleftrightarrow> \<not> b \<and> e' = e"
  by (auto simp: requireR_def)

lemma butlast_replicate_Suc: "butlast (replicate n x) = replicate (n - 1) x"
  by (cases n) (simp_all add: butlast_append flip: replicate_append_same)

lemma strict_sorted_remdups_adj: "sorted xs \<Longrightarrow> sorted_wrt (<) (remdups_adj xs)"
proof (induction xs rule: remdups_adj.induct)
  case (3 x y xs)
  then show ?case by (auto simp: less_le)
qed simp_all

section \<open>Byte-wise comparison\<close>

lemma less_append_prefix [simp]: "(p @ x < p @ (y :: 'a :: order list)) \<longleftrightarrow> x < y"
  by (induction p) auto

lemma less_prefix_nonempty [simp]: "(p < p @ (y :: 'a :: order list)) \<longleftrightarrow> y \<noteq> []"
  by (induction p) (cases y; simp)+

lemma less_append_same_length:
  assumes "length x = length y" "x < (y :: 'a :: order list)"
  shows "x @ u < y @ v"
  using assms by (induction x y rule: list_induct2) auto

lemma less_append_same_length_iff:
  assumes "length x = length y"
  shows "(x @ u < y @ v) \<longleftrightarrow> x < y \<or> x = y \<and> u < (v :: 'a :: order list)"
  using assms by (induction x y rule: list_induct2) auto

lemma less_appendR: "x < (y :: 'a :: order list) \<Longrightarrow> x < y @ v"
proof (induction x arbitrary: y)
  case Nil then show ?case by (cases y) auto
next
  case (Cons a x) then show ?case by (cases y) auto
qed

lemma sorted_wrt_less_append:
  "sorted_wrt (<) (xs @ c # ys) \<longleftrightarrow>
     sorted_wrt (<) xs \<and> sorted_wrt (<) ys \<and> (\<forall>x \<in> set xs. x < c) \<and> (\<forall>y \<in> set ys. c < (y :: 'a :: order))"
  by (auto simp: sorted_wrt_append intro: order.strict_trans)

end
