(* ===== verification/Fracdex.thy ===== *)
theory Fracdex
  imports Prelude
begin

text \<open>The order keys of the package \<^theory_text>\<open>fracdex\<close> (src/pkg/fracdex/fracdex.go): the base-62
  alphabet, the variable-length integer part, the midpoint of two fractions, the generator
  \<^theory_text>\<open>KeyBetween\<close> and its bulk form \<^theory_text>\<open>NKeysBetween\<close>, and the lemmas that show that a generated key
  lies strictly between its bounds in byte order.\<close>

section \<open>Digits and errors\<close>

text \<open>The three sentinel errors, with \<^theory_text>\<open>FracNegativeCount\<close> for the unnamed error of a negative
  count and \<^theory_text>\<open>FracPanic\<close> for the index panic of \<^theory_text>\<open>validateInteger("")\<close>.\<close>

datatype frac_error = ErrInvalidKey | ErrOutOfOrder | ErrExhausted | FracNegativeCount | FracPanic

definition Digits :: str where
  "Digits = ''0123456789ABCDEFGHIJKLMNOPQRSTUVWXYZabcdefghijklmnopqrstuvwxyz''"

definition zeroDigit :: char where
  "zeroDigit = CHR ''0''"

definition smallestInteger :: str where
  "smallestInteger = CHR ''A'' # replicate 26 zeroDigit"

definition First :: str where
  "First = [CHR ''a'', zeroDigit]"

definition digitIndex :: "char \<Rightarrow> int" where
  "digitIndex c =
     (if CHR ''0'' \<le> c \<and> c \<le> CHR ''9'' then int (of_char c) - int (of_char CHR ''0'')
      else if CHR ''A'' \<le> c \<and> c \<le> CHR ''Z'' then int (of_char c) - int (of_char CHR ''A'') + 10
      else if CHR ''a'' \<le> c \<and> c \<le> CHR ''z'' then int (of_char c) - int (of_char CHR ''a'') + 36
      else -1)"

definition digitAt :: "int \<Rightarrow> char" where
  "digitAt i = Digits ! nat i"

section \<open>The integer part\<close>

definition integerLength :: "char \<Rightarrow> (frac_error, nat) result" where
  "integerLength head =
     (if CHR ''a'' \<le> head \<and> head \<le> CHR ''z'' then Inr (of_char head - of_char CHR ''a'' + 2)
      else if CHR ''A'' \<le> head \<and> head \<le> CHR ''Z'' then Inr (of_char CHR ''Z'' - of_char head + 2)
      else Inl ErrInvalidKey)"

definition integerPart :: "str \<Rightarrow> (frac_error, str) result" where
  "integerPart key =
     (case key of
        [] \<Rightarrow> Inl ErrInvalidKey
      | c # _ \<Rightarrow>
          bindR (integerLength c) (\<lambda>n.
            if n > length key then Inl ErrInvalidKey else Inr (take n key)))"

definition validateInteger :: "str \<Rightarrow> (frac_error, unit) result" where
  "validateInteger i =
     (case i of
        [] \<Rightarrow> Inl FracPanic
      | c # ds \<Rightarrow>
          bindR (integerLength c) (\<lambda>n.
            if length i \<noteq> n then Inl ErrInvalidKey
            else if list_ex (\<lambda>d. digitIndex d < 0) ds then Inl ErrInvalidKey
            else Inr ()))"

definition validateOrderKey :: "str \<Rightarrow> (frac_error, unit) result" where
  "validateOrderKey key =
     (if key = smallestInteger then Inl ErrInvalidKey
      else bindR (integerPart key) (\<lambda>i.
           bindR (validateInteger i) (\<lambda>_.
             let f = drop (length i) key in
             if f \<noteq> [] \<and> last f = zeroDigit then Inl ErrInvalidKey
             else if list_ex (\<lambda>d. digitIndex d < 0) f then Inl ErrInvalidKey
             else Inr ())))"

text \<open>The loops of \<^theory_text>\<open>incrementInteger\<close> and \<^theory_text>\<open>decrementInteger\<close> run from the last digit to the
  first while the carry (borrow) is set: each returns the digits and the final carry.\<close>

fun incDigits :: "str \<Rightarrow> str \<times> bool" where
  "incDigits [] = ([], True)"
| "incDigits (c # ds) =
     (case incDigits ds of (ds', carry) \<Rightarrow>
        if carry then
          (let d = digitIndex c + 1 in
           if d = int (length Digits) then (digitAt 0 # ds', True) else (digitAt d # ds', False))
        else (c # ds', False))"

fun decDigits :: "str \<Rightarrow> str \<times> bool" where
  "decDigits [] = ([], True)"
| "decDigits (c # ds) =
     (case decDigits ds of (ds', borrow) \<Rightarrow>
        if borrow then
          (let d = digitIndex c - 1 in
           if d < 0 then (last Digits # ds', True) else (digitAt d # ds', False))
        else (c # ds', False))"

definition nextByte :: "char \<Rightarrow> char" where
  "nextByte c = char_of (of_char c + 1 :: nat)"

definition prevByte :: "char \<Rightarrow> char" where
  "prevByte c = char_of (of_char c - 1 :: nat)"

definition incrementInteger :: "str \<Rightarrow> (frac_error, str) result" where
  "incrementInteger x =
     bindR (validateInteger x) (\<lambda>_.
       let head = hd x; (digs, carry) = incDigits (tl x) in
       if \<not> carry then Inr (head # digs)
       else if head = CHR ''Z'' then Inr [CHR ''a'', digitAt 0]
       else if head = CHR ''z'' then Inl ErrExhausted
       else let h = nextByte head in
            Inr (h # (if h > CHR ''a'' then digs @ [digitAt 0] else butlast digs)))"

definition decrementInteger :: "str \<Rightarrow> (frac_error, str) result" where
  "decrementInteger x =
     bindR (validateInteger x) (\<lambda>_.
       let head = hd x; (digs, borrow) = decDigits (tl x) in
       if \<not> borrow then Inr (head # digs)
       else if head = CHR ''a'' then Inr [CHR ''Z'', last Digits]
       else if head = CHR ''A'' then Inl ErrExhausted
       else let h = prevByte head in
            Inr (h # (if h < CHR ''Z'' then digs @ [last Digits] else butlast digs)))"

section \<open>The midpoint of two fractions\<close>

text \<open>The length of the common prefix of \<^theory_text>\<open>b\<close> and \<^theory_text>\<open>a\<close> padded with zeros: the inner loop of
  \<^theory_text>\<open>midpoint\<close>.\<close>

fun commonPrefix :: "str \<Rightarrow> str \<Rightarrow> nat" where
  "commonPrefix a [] = 0"
| "commonPrefix a (c # b) =
     (let ca = (case a of [] \<Rightarrow> zeroDigit | x # _ \<Rightarrow> x) in
      if ca \<noteq> c then 0 else Suc (commonPrefix (tl a) b))"

lemma commonPrefix_le: "commonPrefix a b \<le> length b"
  by (induction a b rule: commonPrefix.induct) (auto simp: Let_def)

lemma commonPrefix_decreases:
  "0 < commonPrefix a b \<Longrightarrow>
     length a - commonPrefix a b + (length b - commonPrefix a b) < length a + length b"
  using commonPrefix_le [of a b] by (cases b) auto

lemma length_Digits [simp]: "length Digits = 62"
  by (simp add: Digits_def)

function midpoint :: "str \<Rightarrow> str \<Rightarrow> (frac_error, str) result" where
  "midpoint a b =
     (if b \<noteq> [] \<and> a \<ge> b then Inl ErrOutOfOrder
      else if (a \<noteq> [] \<and> last a = zeroDigit) \<or> (b \<noteq> [] \<and> last b = zeroDigit) then Inl ErrInvalidKey
      else let n = commonPrefix a b in
        if n > 0 then
          bindR (midpoint (drop n a) (drop n b)) (\<lambda>rest. Inr (take n b @ rest))
        else
          (let digitA = (if a = [] then 0 else digitIndex (hd a));
               digitB = (if b = [] then int (length Digits) else digitIndex (hd b)) in
           if digitA < 0 \<or> digitB < 0 then Inl ErrInvalidKey
           else if digitB - digitA > 1 then Inr [digitAt ((digitA + digitB + 1) div 2)]
           else if length b > 1 then Inr (take 1 b)
           else bindR (midpoint (drop 1 a) []) (\<lambda>rest. Inr (digitAt digitA # rest))))"
  by pat_completeness auto
termination
  by (relation "measure (\<lambda>(a, b). length a + length b)")
     (auto simp: length_Digits neq_Nil_conv dest: commonPrefix_decreases split: if_splits)

declare midpoint.simps [simp del]

section \<open>Key generation\<close>

definition KeyBetween :: "str \<Rightarrow> str \<Rightarrow> (frac_error, str) result" where
  "KeyBetween a b =
     bindR (if a \<noteq> [] then validateOrderKey a else Inr ()) (\<lambda>_.
     bindR (if b \<noteq> [] then validateOrderKey b else Inr ()) (\<lambda>_.
       if a \<noteq> [] \<and> b \<noteq> [] \<and> a \<ge> b then Inl ErrOutOfOrder
       else if a = [] \<and> b = [] then Inr First
       else if a = [] then
         bindR (integerPart b) (\<lambda>ib.
           let fb = drop (length ib) b in
           if ib = smallestInteger then bindR (midpoint [] fb) (\<lambda>m. Inr (ib @ m))
           else if ib < b then Inr ib
           else decrementInteger ib)
       else if b = [] then
         bindR (integerPart a) (\<lambda>ia.
           case incrementInteger ia of
             Inl e \<Rightarrow>
               if e = ErrExhausted
               then bindR (midpoint (drop (length ia) a) []) (\<lambda>m. Inr (ia @ m))
               else Inl e
           | Inr i \<Rightarrow> Inr i)
       else
         bindR (integerPart a) (\<lambda>ia.
         bindR (integerPart b) (\<lambda>ib.
           let fa = drop (length ia) a; fb = drop (length ib) b in
           if ia = ib then bindR (midpoint fa fb) (\<lambda>m. Inr (ia @ m))
           else bindR (incrementInteger ia) (\<lambda>i.
             if i < b then Inr i
             else bindR (midpoint fa []) (\<lambda>m. Inr (ia @ m)))))))"

text \<open>The two append loops of \<^theory_text>\<open>NKeysBetween\<close>, \<^theory_text>\<open>k\<close> steps from \<^theory_text>\<open>c\<close>: the ascending one of an
  unbounded upper end and the descending one of an unbounded lower end.\<close>

fun keysAfter :: "nat \<Rightarrow> str \<Rightarrow> (frac_error, str list) result" where
  "keysAfter 0 c = Inr []"
| "keysAfter (Suc k) c =
     bindR (KeyBetween c []) (\<lambda>d. bindR (keysAfter k d) (\<lambda>ds. Inr (d # ds)))"

fun keysBefore :: "nat \<Rightarrow> str \<Rightarrow> (frac_error, str list) result" where
  "keysBefore 0 c = Inr []"
| "keysBefore (Suc k) c =
     bindR (KeyBetween [] c) (\<lambda>d. bindR (keysBefore k d) (\<lambda>ds. Inr (d # ds)))"

function NKeysBetween :: "str \<Rightarrow> str \<Rightarrow> int \<Rightarrow> (frac_error, str list) result" where
  "NKeysBetween a b n =
     (if n < 0 then Inl FracNegativeCount
      else if n = 0 then Inr []
      else if n = 1 then bindR (KeyBetween a b) (\<lambda>k. Inr [k])
      else if b = [] then
        bindR (KeyBetween a b) (\<lambda>c. bindR (keysAfter (nat (n - 1)) c) (\<lambda>ds. Inr (c # ds)))
      else if a = [] then
        bindR (KeyBetween a b) (\<lambda>c. bindR (keysBefore (nat (n - 1)) c) (\<lambda>ds. Inr (rev (c # ds))))
      else
        (let mid = n div 2 in
         bindR (KeyBetween a b) (\<lambda>c.
         bindR (NKeysBetween a c mid) (\<lambda>left.
         bindR (NKeysBetween c b (n - mid - 1)) (\<lambda>right.
           Inr (left @ [c] @ right))))))"
  by pat_completeness auto
termination
  by (relation "measure (\<lambda>(a, b, n). nat n)") auto

declare NKeysBetween.simps [simp del]

section \<open>Digits in byte order\<close>

abbreviation isDigit :: "char \<Rightarrow> bool" where
  "isDigit c \<equiv> 0 \<le> digitIndex c"

lemma digitIndex_bounds: "-1 \<le> digitIndex c" "digitIndex c < 62"
  by (auto simp: digitIndex_def less_eq_char_def)

lemma digitIndex_less_iff:
  "isDigit c \<Longrightarrow> isDigit d \<Longrightarrow> digitIndex c < digitIndex d \<longleftrightarrow> c < d"
  by (auto simp: digitIndex_def less_eq_char_def less_char_def split: if_splits)

lemma digitIndex_eq_iff:
  "isDigit c \<Longrightarrow> isDigit d \<Longrightarrow> digitIndex c = digitIndex d \<longleftrightarrow> c = d"
  using digitIndex_less_iff [of c d] digitIndex_less_iff [of d c] by fastforce

lemma digitIndex_all_digits: "\<forall>n \<in> set [0..<62]. digitIndex (Digits ! n) = int n"
  by code_simp

lemma digitIndex_digitAt [simp]:
  "0 \<le> i \<Longrightarrow> i < 62 \<Longrightarrow> digitIndex (digitAt i) = i"
  using digitIndex_all_digits by (auto simp: digitAt_def)

lemma digitAt_digitIndex [simp]: "isDigit c \<Longrightarrow> digitAt (digitIndex c) = c"
  by (subst digitIndex_eq_iff [symmetric]) (simp_all add: digitIndex_bounds)

lemma digitIndex_zeroDigit [simp]: "digitIndex zeroDigit = 0"
  by (simp add: digitIndex_def zeroDigit_def)

lemma digitAt_0 [simp]: "digitAt 0 = zeroDigit"
  by (simp add: digitAt_def Digits_def zeroDigit_def)

lemma last_Digits: "last Digits = digitAt 61"
  by (simp add: digitAt_def Digits_def)

lemma zeroDigit_least: "isDigit c \<Longrightarrow> c \<noteq> zeroDigit \<Longrightarrow> zeroDigit < c"
  using digitIndex_less_iff [of zeroDigit c] digitIndex_eq_iff [of zeroDigit c] by fastforce

lemma digitIndex_pos: "isDigit c \<Longrightarrow> c \<noteq> zeroDigit \<Longrightarrow> 0 < digitIndex c"
  using digitIndex_eq_iff [of zeroDigit c] by fastforce

section \<open>The midpoint lies strictly between\<close>

definition validFrac :: "str \<Rightarrow> bool" where
  "validFrac f \<longleftrightarrow> list_all isDigit f \<and> (f \<noteq> [] \<longrightarrow> last f \<noteq> zeroDigit)"

lemma validFrac_Nil [simp]: "validFrac []"
  by (simp add: validFrac_def)

lemma validFrac_drop: "validFrac f \<Longrightarrow> validFrac (drop n f)"
  by (auto simp: validFrac_def list_all_iff dest: in_set_dropD)

lemma validFrac_appendI: "list_all isDigit p \<Longrightarrow> validFrac m \<Longrightarrow> m \<noteq> [] \<Longrightarrow> validFrac (p @ m)"
  by (auto simp: validFrac_def)

lemma validFrac_ConsI: "isDigit c \<Longrightarrow> validFrac m \<Longrightarrow> m \<noteq> [] \<Longrightarrow> validFrac (c # m)"
  by (auto simp: validFrac_def)

lemma commonPrefix_cases:
  "commonPrefix a b \<le> length a \<and> take (commonPrefix a b) a = take (commonPrefix a b) b \<or>
   length a < commonPrefix a b \<and>
     take (commonPrefix a b) b = a @ replicate (commonPrefix a b - length a) zeroDigit"
proof (induction a b rule: commonPrefix.induct)
  case (2 a c b) then show ?case by (cases a) (auto simp: Let_def)
qed simp

lemma commonPrefix_zero_hd:
  "commonPrefix a b = 0 \<Longrightarrow> b \<noteq> [] \<Longrightarrow> hd b \<noteq> (if a = [] then zeroDigit else hd a)"
  by (cases b; cases a) (auto simp: Let_def split: if_splits)

lemma commonPrefix_less_length:
  assumes "validFrac b" "b \<noteq> []" "a < b"
  shows "commonPrefix a b < length b"
proof (rule ccontr)
  assume "\<not> commonPrefix a b < length b"
  then have n: "commonPrefix a b = length b" using commonPrefix_le [of a b] by simp
  from commonPrefix_cases [of a b] show False
  proof (elim disjE conjE)
    assume "commonPrefix a b \<le> length a" "take (commonPrefix a b) a = take (commonPrefix a b) b"
    then have "a = b @ drop (length b) a" using n by (metis append_take_drop_id take_all order_refl)
    then show False using assms(3) less_appendR [of a b] by (metis less_prefix_nonempty order.asym)
  next
    assume "length a < commonPrefix a b"
      and e: "take (commonPrefix a b) b = a @ replicate (commonPrefix a b - length a) zeroDigit"
    then have "b = a @ replicate (length b - length a) zeroDigit" "length b - length a \<noteq> 0"
      using n by simp_all
    then have "last b = zeroDigit" by (metis last_appendR last_replicate replicate_empty)
    then show False using assms by (simp add: validFrac_def)
  qed
qed

lemma commonPrefix_drop_less:
  assumes "validFrac b" "b \<noteq> []" "a < b" "n = commonPrefix a b"
  shows "drop n a < drop n b" and "drop n a < m \<Longrightarrow> a < take n b @ m"
    and "m < drop n b \<Longrightarrow> take n b @ m < b"
proof -
  have nb: "drop n b \<noteq> []" using commonPrefix_less_length [OF assms(1-3)] assms(4) by simp
  have cs: "n \<le> length a \<and> take n a = take n b \<or>
      length a < n \<and> take n b = a @ replicate (n - length a) zeroDigit"
    using commonPrefix_cases [of a b] assms(4) by simp
  then show "drop n a < drop n b"
  proof
    assume "n \<le> length a \<and> take n a = take n b"
    then show ?thesis using assms(3) less_append_prefix by (metis append_take_drop_id)
  next
    assume "length a < n \<and> take n b = a @ replicate (n - length a) zeroDigit"
    then show ?thesis using nb by (cases "drop n b") auto
  qed
  show "a < take n b @ m" if "drop n a < m"
    using cs
  proof
    assume "n \<le> length a \<and> take n a = take n b"
    then show ?thesis using that less_append_prefix by (metis append_take_drop_id)
  next
    assume "length a < n \<and> take n b = a @ replicate (n - length a) zeroDigit"
    then show ?thesis by simp
  qed
  show "take n b @ m < b" if "m < drop n b"
    using that less_append_prefix by (metis append_take_drop_id)
qed

lemma hd_less_of_less:
  "(a :: str) < b \<Longrightarrow> a \<noteq> [] \<Longrightarrow> hd b \<noteq> hd a \<Longrightarrow> hd a < hd b"
  by (cases a; cases b) auto

lemma midpoint_correct:
  assumes "validFrac a" "validFrac b" "b = [] \<or> a < b"
  shows "\<exists>m. midpoint a b = Inr m \<and> validFrac m \<and> a < m \<and> (b = [] \<or> m < b)"
  using assms
proof (induction a b rule: midpoint.induct)
  case (1 a b)
  define n where "n = commonPrefix a b"
  have guards: "\<not> (b \<noteq> [] \<and> b \<le> a)"
    "\<not> ((a \<noteq> [] \<and> last a = zeroDigit) \<or> (b \<noteq> [] \<and> last b = zeroDigit))"
    using "1.prems" by (auto simp: validFrac_def)
  show ?case
  proof (cases "n > 0")
    case True
    then have b: "b \<noteq> []" "a < b" using "1.prems"(3) by (auto simp: n_def)
    note less = commonPrefix_drop_less [OF "1.prems"(2) b n_def]
    obtain m where m: "midpoint (drop n a) (drop n b) = Inr m" "validFrac m" "drop n a < m"
        "drop n b = [] \<or> m < drop n b"
      using "1.IH"(1) [OF guards n_def True] validFrac_drop "1.prems" less(1) by blast
    have nb: "drop n b \<noteq> []" using commonPrefix_less_length [OF "1.prems"(2) b] n_def by simp
    have "midpoint a b = Inr (take n b @ m)"
      using guards True m(1) by (subst midpoint.simps) (simp add: n_def Let_def)
    moreover have "validFrac (take n b @ m)"
      using "1.prems"(2) m by (intro validFrac_appendI)
        (auto simp: validFrac_def list_all_iff dest: in_set_takeD)
    ultimately show ?thesis using less(2,3) m nb by blast
  next
    case False
    define dA where "dA = (if a = [] then 0 else digitIndex (hd a))"
    define dB where "dB = (if b = [] then int (length Digits) else digitIndex (hd b))"
    have dA: "0 \<le> dA" "dA < 62" using "1.prems"(1) digitIndex_bounds
      by (auto simp: dA_def validFrac_def neq_Nil_conv)
    have hdA: "a \<noteq> [] \<Longrightarrow> digitAt dA = hd a" using "1.prems"(1)
      by (auto simp: dA_def validFrac_def neq_Nil_conv)
    have dB: "0 \<le> dB" "dB \<le> 62" "b \<noteq> [] \<Longrightarrow> digitAt dB = hd b" "b \<noteq> [] \<Longrightarrow> dB < 62"
      using "1.prems"(2) digitIndex_bounds
      by (auto simp: dB_def validFrac_def neq_Nil_conv less_imp_le)
    have AB: "dA < dB"
    proof (cases "b = []")
      case True then show ?thesis using dA by (simp add: dB_def)
    next
      case bne: False
      then have ne: "hd b \<noteq> (if a = [] then zeroDigit else hd a)" "a < b"
        using commonPrefix_zero_hd False "1.prems"(3) by (auto simp: n_def)
      have dg: "isDigit (hd b)" using bne "1.prems"(2) by (auto simp: validFrac_def neq_Nil_conv)
      show ?thesis
      proof (cases "a = []")
        case True then show ?thesis using ne dg bne by (simp add: dA_def dB_def digitIndex_pos)
      next
        case ane: False
        then have "hd a < hd b" using hd_less_of_less ne by simp
        then show ?thesis using ane bne dg dA by (simp add: dA_def dB_def digitIndex_less_iff)
      qed
    qed
    have step: "midpoint a b =
        (if dB - dA > 1 then Inr [digitAt ((dA + dB + 1) div 2)]
         else if length b > 1 then Inr (take 1 b)
         else bindR (midpoint (drop 1 a) []) (\<lambda>rest. Inr (digitAt dA # rest)))"
    proof -
      have "(b \<noteq> [] \<and> b \<le> a) = False" "(0 < n) = False" "(dA < 0 \<or> dB < 0) = False"
        "(a \<noteq> [] \<and> last a = zeroDigit \<or> b \<noteq> [] \<and> last b = zeroDigit) = False"
        using guards False dA dB by auto
      then show ?thesis
        by (subst midpoint.simps)
           (simp only: n_def [symmetric] dA_def [symmetric] dB_def [symmetric] Let_def if_False)
    qed
    consider (room) "dB - dA > 1" | (cut) "\<not> dB - dA > 1" "length b > 1" | (deep) "\<not> dB - dA > 1" "\<not> length b > 1"
      by blast
    then show ?thesis
    proof cases
      case room
      define d where "d = (dA + dB + 1) div 2"
      have d: "dA < d" "d < dB" using room by (auto simp: d_def)
      then have v: "digitIndex (digitAt d) = d" using dA dB by simp
      have "a < [digitAt d]"
        using d v hdA dA digitIndex_less_iff [of "digitAt dA" "digitAt d"] by (cases a) auto
      moreover have "b = [] \<or> [digitAt d] < b"
        using d v dA dB digitIndex_less_iff [of "digitAt d" "digitAt dB"] by (cases b) auto
      moreover have "validFrac [digitAt d]" using v d dA by (auto simp: validFrac_def)
      ultimately show ?thesis using step room by (simp add: d_def)
    next
      case cut
      obtain c b' where b: "b = c # b'" "b' \<noteq> []" using cut by (cases b) auto
      have c: "isDigit c" "dB = digitIndex c" "c \<noteq> zeroDigit"
        using "1.prems"(2) b AB dA by (auto simp: validFrac_def dB_def)
      have "a < [c]"
        using AB c hdA dA digitIndex_less_iff [of "digitAt dA" c] by (cases a) auto
      moreover have "[c] < b" using b by (cases b') auto
      ultimately show ?thesis using step cut b c by (auto simp: validFrac_def)
    next
      case deep
      have "b \<noteq> [] \<or> a \<noteq> []" using deep AB by (auto simp: dA_def dB_def)
      obtain m where m: "midpoint (drop 1 a) [] = Inr m" "validFrac m" "drop 1 a < m"
        using "1.IH"(2) [OF guards n_def False dA_def dB_def] dA dB deep validFrac_drop "1.prems"
        by fastforce
      have mne: "m \<noteq> []" using m(3) by auto
      have "a < digitAt dA # m" using m(3) hdA by (cases a) auto
      moreover have "b = [] \<or> digitAt dA # m < b"
        using AB dA dB digitIndex_less_iff [of "digitAt dA" "digitAt dB"] by (cases b) auto
      moreover have "validFrac (digitAt dA # m)" using dA m mne by (intro validFrac_ConsI) auto
      ultimately show ?thesis using step deep m(1) by simp
    qed
  qed
qed

section \<open>Integer parts\<close>

definition validInt :: "str \<Rightarrow> bool" where
  "validInt i \<longleftrightarrow> validateInteger i = Inr ()"

lemma integerLength_ge: "integerLength c = Inr n \<Longrightarrow> 2 \<le> n"
  by (auto simp: integerLength_def split: if_splits)

lemma validInt_Cons:
  "validInt (c # ds) \<longleftrightarrow> integerLength c = Inr (Suc (length ds)) \<and> list_all isDigit ds"
  by (fastforce simp: validInt_def validateInteger_def sum_cases list_ex_iff list_all_iff
      bindR_def split: sum.splits if_splits)

lemma validInt_Nil [simp]: "\<not> validInt []"
  by (simp add: validInt_def validateInteger_def)

lemma validInt_neq_Nil: "validInt i \<Longrightarrow> i \<noteq> []"
  by auto

lemma validInt_cases:
  assumes "validInt i"
  obtains c ds where "i = c # ds" "integerLength c = Inr (Suc (length ds))" "list_all isDigit ds"
  using assms by (cases i) (auto simp: validInt_Cons)

lemma incDigits_spec:
  assumes "list_all isDigit ds" "incDigits ds = (ds', carry)"
  shows "length ds' = length ds \<and> list_all isDigit ds' \<and>
    (if carry then ds = replicate (length ds) (digitAt 61) \<and> ds' = replicate (length ds) zeroDigit
     else ds < ds')"
  using assms
proof (induction ds arbitrary: ds' carry)
  case (Cons c ds)
  obtain es k where es: "incDigits ds = (es, k)" by fastforce
  note IH = Cons.IH [OF _ es]
  have c: "isDigit c" "digitIndex c < 62" using Cons.prems digitIndex_bounds by auto
  have top: "digitIndex c = 61 \<Longrightarrow> digitAt 61 = c" using c digitAt_digitIndex [of c] by simp
  have up: "digitIndex c + 1 \<noteq> 62 \<Longrightarrow> c < digitAt (digitIndex c + 1)"
    using c by (subst digitIndex_less_iff [symmetric]) auto
  show ?case using Cons.prems IH es c top up
    by (auto simp: Let_def split: if_splits)
qed simp

lemma decDigits_spec:
  assumes "list_all isDigit ds" "decDigits ds = (ds', borrow)"
  shows "length ds' = length ds \<and> list_all isDigit ds' \<and>
    (if borrow then ds = replicate (length ds) zeroDigit \<and> ds' = replicate (length ds) (digitAt 61)
     else ds' < ds)"
  using assms
proof (induction ds arbitrary: ds' borrow)
  case (Cons c ds)
  obtain es k where es: "decDigits ds = (es, k)" by fastforce
  note IH = Cons.IH [OF _ es]
  have c: "isDigit c" "digitIndex c < 62" using Cons.prems digitIndex_bounds by auto
  have bot: "digitIndex c < 1 \<Longrightarrow> c = zeroDigit"
    using c digitIndex_pos [of c] by fastforce
  have dn: "\<not> digitIndex c < 1 \<Longrightarrow> digitAt (digitIndex c - 1) < c"
    using c by (subst digitIndex_less_iff [symmetric]) auto
  show ?case using Cons.prems IH es c bot dn
    by (auto simp: Let_def last_Digits split: if_splits)
qed simp

lemma decDigits_incDigits:
  "list_all isDigit ds \<Longrightarrow> incDigits ds = (ds', k) \<Longrightarrow> decDigits ds' = (ds, k)"
proof (induction ds arbitrary: ds' k)
  case (Cons c ds)
  obtain es k' where es: "incDigits ds = (es, k')" by fastforce
  have c: "isDigit c" "digitIndex c < 62" using Cons.prems digitIndex_bounds by auto
  have "digitIndex c = 61 \<Longrightarrow> digitAt 61 = c" using digitAt_digitIndex [of c] c by simp
  then show ?case using Cons.prems Cons.IH [OF _ es] es c
    by (auto simp: Let_def last_Digits split: if_splits)
qed simp

lemma incDigits_decDigits:
  "list_all isDigit ds \<Longrightarrow> decDigits ds = (ds', k) \<Longrightarrow> incDigits ds' = (ds, k)"
proof (induction ds arbitrary: ds' k)
  case (Cons c ds)
  obtain es k' where es: "decDigits ds = (es, k')" by fastforce
  have c: "isDigit c" "digitIndex c < 62" using Cons.prems digitIndex_bounds by auto
  have "digitIndex c = 0 \<Longrightarrow> zeroDigit = c" using digitIndex_pos [of c] by force
  then show ?case using Cons.prems Cons.IH [OF _ es] es c
    by (auto simp: Let_def last_Digits split: if_splits)
qed simp

lemma integerLength_eq:
  "integerLength c = Inr n \<longleftrightarrow>
     (97 \<le> (of_char c :: nat) \<and> of_char c \<le> (122 :: nat) \<and> n = of_char c - 95 \<or>
      65 \<le> (of_char c :: nat) \<and> of_char c \<le> (90 :: nat) \<and> n = 92 - of_char c)"
  by (auto simp: integerLength_def less_eq_char_def)

lemma of_char_nextByte: "of_char c < (255 :: nat) \<Longrightarrow> of_char (nextByte c) = (of_char c + 1 :: nat)"
  by (simp add: nextByte_def)

lemma of_char_prevByte: "of_char (prevByte c) = (of_char c - 1 :: nat)"
  by (simp add: prevByte_def less_imp_diff_less)

lemma char_neq_of_char: "c \<noteq> d \<longleftrightarrow> of_char c \<noteq> (of_char d :: nat)"
  by (metis of_char_eq_iff)

lemma incrementInteger_correct:
  assumes "validInt x"
  shows "case incrementInteger x of
      Inr y \<Rightarrow> validInt y \<and> (\<forall>u v. x @ u < y @ v)
    | Inl e \<Rightarrow> e = ErrExhausted \<and> x = CHR ''z'' # replicate 26 (digitAt 61)"
proof -
  obtain c ds where x: "x = c # ds" "integerLength c = Inr (Suc (length ds))" "list_all isDigit ds"
    using assms by (rule validInt_cases)
  obtain ds' k where inc: "incDigits ds = (ds', k)" by fastforce
  note sp = incDigits_spec [OF x(3) inc]
  have eq: "incrementInteger x =
     (if \<not> k then Inr (c # ds')
      else if c = CHR ''Z'' then Inr [CHR ''a'', zeroDigit]
      else if c = CHR ''z'' then Inl ErrExhausted
      else Inr (nextByte c # (if nextByte c > CHR ''a'' then ds' @ [zeroDigit] else butlast ds')))"
    using assms x(1) inc by (simp add: incrementInteger_def validInt_def)
  consider "\<not> k" | "k" "c = CHR ''Z''" | "k" "c = CHR ''z''" | "k" "c \<noteq> CHR ''Z''" "c \<noteq> CHR ''z''"
    by blast
  then show ?thesis
  proof cases
    case 1
    then show ?thesis using eq x sp less_append_same_length [of ds ds']
      by (auto simp: validInt_Cons)
  next
    case 2
    then show ?thesis using eq x by (auto simp: validInt_Cons integerLength_eq)
  next
    case 3
    then show ?thesis using eq x sp by (auto simp: integerLength_eq)
  next
    case 4
    then have c: "of_char c \<noteq> (90 :: nat)" "of_char c \<noteq> (122 :: nat)"
      by (simp_all add: char_neq_of_char)
    have b: "of_char c < (255 :: nat)" using x(2) by (auto simp: integerLength_eq)
    have h: "c < nextByte c" using b by (simp add: less_char_def of_char_nextByte)
    have a: "nextByte c > CHR ''a'' \<longleftrightarrow> 97 \<le> (of_char c :: nat)"
      using b by (simp add: less_char_def of_char_nextByte) arith
    have "list_all isDigit (butlast ds')"
      using sp by (auto simp: list_all_iff dest: in_set_butlastD)
    then have "validInt (nextByte c # (if nextByte c > CHR ''a'' then ds' @ [zeroDigit] else butlast ds'))"
      using x(2) c b sp unfolding validInt_Cons integerLength_eq a of_char_nextByte [OF b]
      by (auto simp: Suc_diff_le)
    then show ?thesis using eq 4 h x(1) by auto
  qed
qed

lemma decrementInteger_correct:
  assumes "validInt x"
  shows "case decrementInteger x of
      Inr y \<Rightarrow> validInt y \<and> (\<forall>u v. y @ u < x @ v)
    | Inl e \<Rightarrow> e = ErrExhausted \<and> x = smallestInteger"
proof -
  obtain c ds where x: "x = c # ds" "integerLength c = Inr (Suc (length ds))" "list_all isDigit ds"
    using assms by (rule validInt_cases)
  obtain ds' k where dec: "decDigits ds = (ds', k)" by fastforce
  note sp = decDigits_spec [OF x(3) dec]
  have eq: "decrementInteger x =
     (if \<not> k then Inr (c # ds')
      else if c = CHR ''a'' then Inr [CHR ''Z'', digitAt 61]
      else if c = CHR ''A'' then Inl ErrExhausted
      else Inr (prevByte c # (if prevByte c < CHR ''Z'' then ds' @ [digitAt 61] else butlast ds')))"
    using assms x(1) dec by (simp add: decrementInteger_def validInt_def last_Digits)
  consider "\<not> k" | "k" "c = CHR ''a''" | "k" "c = CHR ''A''" | "k" "c \<noteq> CHR ''a''" "c \<noteq> CHR ''A''"
    by blast
  then show ?thesis
  proof cases
    case 1
    then show ?thesis using eq x sp less_append_same_length [of ds' ds]
      by (auto simp: validInt_Cons)
  next
    case 2
    then show ?thesis using eq x by (auto simp: validInt_Cons integerLength_eq)
  next
    case 3
    then show ?thesis using eq x sp by (auto simp: integerLength_eq smallestInteger_def)
  next
    case 4
    then have c: "of_char c \<noteq> (97 :: nat)" "of_char c \<noteq> (65 :: nat)"
      by (simp_all add: char_neq_of_char)
    have h: "prevByte c < c" using x(2) by (auto simp: less_char_def of_char_prevByte integerLength_eq)
    have a: "prevByte c < CHR ''Z'' \<longleftrightarrow> (of_char c :: nat) \<le> 90"
      by (simp add: less_char_def of_char_prevByte) arith
    have "list_all isDigit (butlast ds')"
      using sp by (auto simp: list_all_iff dest: in_set_butlastD)
    then have "validInt (prevByte c # (if prevByte c < CHR ''Z'' then ds' @ [digitAt 61] else butlast ds'))"
      using x(2) c sp unfolding validInt_Cons integerLength_eq a of_char_prevByte
      by auto
    then show ?thesis using eq 4 h x(1) by auto
  qed
qed

section \<open>Valid keys and their order\<close>

definition validKey :: "str \<Rightarrow> bool" where
  "validKey k \<longleftrightarrow> validateOrderKey k = Inr ()"

text \<open>The key whose predecessor is the reserved sentinel: the last key of the integer space.\<close>

definition lowestKey :: str where
  "lowestKey = CHR ''A'' # replicate 25 zeroDigit @ [CHR ''1'']"

lemma integerPart_append: "validInt i \<Longrightarrow> integerPart (i @ f) = Inr i"
  by (erule validInt_cases) (simp add: integerPart_def)

lemma integerPart_split:
  assumes "integerPart k = Inr i"
  shows "\<exists>f. k = i @ f"
  using assms
  by (auto simp: integerPart_def sum_cases split: list.splits if_splits)
     (metis append_take_drop_id)

lemma validKey_iff:
  "validKey k \<longleftrightarrow> k \<noteq> smallestInteger \<and> (\<exists>i f. k = i @ f \<and> validInt i \<and> validFrac f)"
proof
  assume k: "validKey k"
  then obtain i where i: "integerPart k = Inr i" "validateInteger i = Inr ()"
    by (auto simp: validKey_def validateOrderKey_def sum_cases split: if_splits)
  obtain f where f: "k = i @ f" using integerPart_split i by blast
  have "validFrac f" using k i f
    by (auto simp: validKey_def validateOrderKey_def validFrac_def list_ex_iff list_all_iff not_less
        split: if_splits)
  then show "k \<noteq> smallestInteger \<and> (\<exists>i f. k = i @ f \<and> validInt i \<and> validFrac f)"
    using i f k by (auto simp: validInt_def validKey_def validateOrderKey_def)
next
  assume "k \<noteq> smallestInteger \<and> (\<exists>i f. k = i @ f \<and> validInt i \<and> validFrac f)"
  then obtain i f where k: "k \<noteq> smallestInteger" "k = i @ f" "validInt i" "validFrac f" by blast
  then have "integerPart k = Inr i" "validateInteger i = Inr ()"
    by (simp_all add: integerPart_append validInt_def)
  moreover have "\<not> (f \<noteq> [] \<and> last f = zeroDigit)" "\<not> list_ex (\<lambda>d. digitIndex d < 0) f"
    using k(4) by (auto simp: validFrac_def list_ex_iff list_all_iff)
  ultimately show "validKey k"
    using k(1,2) by (simp add: validKey_def validateOrderKey_def)
qed

lemma validKeyE:
  assumes "validKey k"
  obtains i f where "k = i @ f" "validInt i" "validFrac f" "integerPart k = Inr i"
  using assms integerPart_append by (auto simp: validKey_iff)

lemma validKey_Nil [simp]: "\<not> validKey []"
  by (simp add: validKey_iff)

lemma validInt_smallest: "validInt smallestInteger"
  by (simp add: smallestInteger_def validInt_Cons integerLength_eq list_all_iff)

lemma validInt_order:
  assumes "validInt x" "validInt y" "x \<noteq> y" "x @ u < y @ v"
  shows "x @ u' < y @ v'"
proof -
  obtain c ds where x: "x = c # ds" "integerLength c = Inr (Suc (length ds))" 
    using assms(1) by (rule validInt_cases)
  obtain d es where y: "y = d # es" "integerLength d = Inr (Suc (length es))" 
    using assms(2) by (rule validInt_cases)
  show ?thesis
  proof (cases "c = d")
    case True
    then have "length ds = length es" using x y by simp
    then show ?thesis using assms(3,4) x(1) y(1) True
      by (auto simp: less_append_same_length_iff)
  qed (use assms x y in auto)
qed

lemma validInt_prefix_eq:
  assumes "validInt x" "validInt y" "x @ u = y @ v"
  shows "x = y \<and> u = v"
  using assms integerPart_append [of x u] integerPart_append [of y v] by simp

lemma digits_le_top: "list_all isDigit ds \<Longrightarrow> ds \<le> replicate (length ds) (digitAt 61)"
proof (induction ds)
  case (Cons c ds)
  then have "digitIndex c \<le> 61" using digitIndex_bounds(2) [of c] by simp
  then have "c < digitAt 61 \<or> c = digitAt 61"
    using Cons.prems digitIndex_less_iff [of c "digitAt 61"] digitIndex_eq_iff [of c "digitAt 61"]
    by auto
  then show ?case using Cons by auto
qed simp

lemma validInt_le_top:
  assumes "validInt y" "y \<noteq> CHR ''z'' # replicate 26 (digitAt 61)"
  shows "y @ u < (CHR ''z'' # replicate 26 (digitAt 61)) @ v"
proof -
  obtain c ds where y: "y = c # ds" "integerLength c = Inr (Suc (length ds))" "list_all isDigit ds"
    using assms(1) by (rule validInt_cases)
  show ?thesis
  proof (cases "c = CHR ''z''")
    case True
    then have l: "length ds = 26" using y(2) by (simp add: integerLength_eq)
    then have "ds < replicate 26 (digitAt 61)"
      using digits_le_top [OF y(3)] assms(2) y(1) True by (simp add: less_le)
    then show ?thesis using True y(1) l less_append_same_length [of ds "replicate 26 (digitAt 61)"]
      by auto
  next
    case False
    then have "of_char c \<noteq> (122 :: nat)" by (simp add: char_neq_of_char)
    then show ?thesis using y by (auto simp: integerLength_eq less_char_def)
  qed
qed

lemma validInt_increment_lowest:
  assumes "validInt x" "decrementInteger x = Inr smallestInteger"
  shows "x = lowestKey"
proof -
  obtain c ds where x: "x = c # ds" "integerLength c = Inr (Suc (length ds))" "list_all isDigit ds"
    using assms(1) by (rule validInt_cases)
  obtain ds' k where dec: "decDigits ds = (ds', k)" by fastforce
  note inc = incDigits_decDigits [OF x(3) dec] and sp = decDigits_spec [OF x(3) dec]
  have eq: "decrementInteger x =
     (if \<not> k then Inr (c # ds')
      else if c = CHR ''a'' then Inr [CHR ''Z'', digitAt 61]
      else if c = CHR ''A'' then Inl ErrExhausted
      else Inr (prevByte c # (if prevByte c < CHR ''Z'' then ds' @ [digitAt 61] else butlast ds')))"
    using assms(1) x(1) dec by (simp add: decrementInteger_def validInt_def last_Digits)
  have "\<not> k"
  proof
    assume k: "k"
    then have p: "prevByte c = CHR ''A''"
      using eq assms(2) by (auto simp: smallestInteger_def split: if_splits)
    then have e: "ds' @ [digitAt 61] = replicate 26 zeroDigit"
      using k eq assms(2) unfolding p by (auto simp: smallestInteger_def split: if_splits)
    then have "last (ds' @ [digitAt 61]) = zeroDigit" by simp
    then show False by (simp add: digitAt_def Digits_def zeroDigit_def)
  qed
  then have "c = CHR ''A''" "ds' = replicate 26 zeroDigit"
    using eq assms(2) by (auto simp: smallestInteger_def)
  moreover have "incDigits (replicate 26 zeroDigit) = (replicate 25 zeroDigit @ [CHR ''1''], False)"
    by code_simp
  ultimately show ?thesis using inc x(1) by (simp add: lowestKey_def)
qed

section \<open>A generated key lies strictly between its bounds\<close>

lemma validKey_intI: "validInt i \<Longrightarrow> i \<noteq> smallestInteger \<Longrightarrow> validKey i"
  unfolding validKey_iff by (metis append_Nil2 validFrac_Nil)

lemma validKey_fracI: "validInt i \<Longrightarrow> validFrac f \<Longrightarrow> f \<noteq> [] \<Longrightarrow> validKey (i @ f)"
  unfolding validKey_iff using validInt_prefix_eq [OF _ validInt_smallest, of i f "[]"] by auto

lemma integerPart_validKey:
  assumes "validKey k" "integerPart k = Inr i"
  shows "validInt i" "validFrac (drop (length i) k)" "k = i @ drop (length i) k"
  using assms by (auto elim!: validKeyE)

lemma fractions_less:
  assumes "i @ f < i @ (g :: str)"
  shows "f < g"
  using assms by simp

lemma smallest_least:
  assumes "validInt i"
  shows "\<not> i < smallestInteger"
proof -
  obtain c ds where i: "i = c # ds" "integerLength c = Inr (Suc (length ds))" "list_all isDigit ds"
    using assms by (rule validInt_cases)
  have "\<not> ds < replicate (length ds) zeroDigit" using i(3)
  proof (induction ds)
    case (Cons d ds) then show ?case using zeroDigit_least [of d] by (auto dest: order.asym)
  qed simp
  moreover have "c = CHR ''A'' \<Longrightarrow> length ds = 26" using i(2) by (simp add: integerLength_eq)
  moreover have "\<not> c < CHR ''A''" using i(2) by (auto simp: integerLength_eq less_char_def)
  ultimately show ?thesis using i(1) by (auto simp: smallestInteger_def)
qed

lemma KeyBetween_below:
  assumes "validKey b"
  shows "\<exists>k. KeyBetween [] b = Inr k \<and> k < b \<and> k \<noteq> [] \<and> (b \<noteq> lowestKey \<longrightarrow> validKey k)"
proof -
  obtain i f where b: "b = i @ f" "validInt i" "validFrac f" "integerPart b = Inr i"
    using assms by (rule validKeyE)
  have bne: "b \<noteq> []" using assms by auto
  have eq: "KeyBetween [] b =
      (if i = smallestInteger then bindR (midpoint [] f) (\<lambda>m. Inr (i @ m))
       else if i < b then Inr i else decrementInteger i)"
  proof -
    have f: "f = drop (length i) b" by (simp add: b(1))
    show ?thesis unfolding f using assms b(4) bne by (simp add: KeyBetween_def validKey_def Let_def)
  qed
  show ?thesis
  proof (cases "i = smallestInteger")
    case True
    then have "f \<noteq> []" using assms b(1) by (auto simp: validKey_iff)
    then have "[] < f" by (cases f) auto
    then obtain m where "midpoint [] f = Inr m" "validFrac m" "[] < m" "m < f"
      using midpoint_correct [of "[]" f] b(3) by auto
    then show ?thesis using eq True b validKey_fracI [of i m] by auto
  next
    case False
    show ?thesis
    proof (cases "f = []")
      case True
      then show ?thesis
        using eq False b decrementInteger_correct [OF b(2)] validKey_intI validInt_neq_Nil
          validInt_increment_lowest [OF b(2)]
        by (auto split: sum.splits) (metis append_Nil2)+
    next
      case f: False
      then show ?thesis using eq False b validKey_intI validInt_neq_Nil by auto
    qed
  qed
qed

lemma KeyBetween_above:
  assumes "validKey a"
  shows "\<exists>k. KeyBetween a [] = Inr k \<and> a < k \<and> validKey k"
proof -
  obtain i f where a: "a = i @ f" "validInt i" "validFrac f" "integerPart a = Inr i"
    using assms by (rule validKeyE)
  have ane: "a \<noteq> []" using assms by auto
  have eq: "KeyBetween a [] =
      (case incrementInteger i of
         Inl e \<Rightarrow> if e = ErrExhausted then bindR (midpoint f []) (\<lambda>m. Inr (i @ m)) else Inl e
       | Inr j \<Rightarrow> Inr j)"
  proof -
    have f: "f = drop (length i) a" by (simp add: a(1))
    show ?thesis unfolding f using assms a(4) ane by (simp add: KeyBetween_def validKey_def Let_def)
  qed
  show ?thesis
  proof (cases "incrementInteger i")
    case (Inl e)
    obtain m where m: "midpoint f [] = Inr m" "validFrac m" "f < m"
      using midpoint_correct [of f "[]"] a(3) by auto
    then have "m \<noteq> []" by auto
    then show ?thesis
      using m eq Inl a incrementInteger_correct [OF a(2)] validKey_fracI [of i m] by auto
  next
    case (Inr j)
    then have j: "validInt j" "\<And>u v. i @ u < j @ v"
      using incrementInteger_correct [OF a(2)] by auto
    have "j \<noteq> smallestInteger"
    proof
      assume "j = smallestInteger"
      then show False using j(2) [of "[]" "[]"] Inr a(2) smallest_least by simp
    qed
    then show ?thesis using eq Inr j a validKey_intI by (metis append_Nil2 sum.case(2))
  qed
qed

lemma KeyBetween_inside:
  assumes "validKey a" "validKey b" "a < b"
  shows "\<exists>k. KeyBetween a b = Inr k \<and> a < k \<and> k < b \<and> validKey k"
proof -
  obtain i f where a: "a = i @ f" "validInt i" "validFrac f" "integerPart a = Inr i"
    using assms(1) by (rule validKeyE)
  obtain j g where b: "b = j @ g" "validInt j" "validFrac g" "integerPart b = Inr j"
    using assms(2) by (rule validKeyE)
  have ne: "a \<noteq> []" "b \<noteq> []" using assms by auto
  have eq: "KeyBetween a b =
      (if i = j then bindR (midpoint f g) (\<lambda>m. Inr (i @ m))
       else bindR (incrementInteger i) (\<lambda>n. if n < b then Inr n
         else bindR (midpoint f []) (\<lambda>m. Inr (i @ m))))"
  proof -
    have f: "f = drop (length i) a" and g: "g = drop (length j) b" by (simp_all add: a(1) b(1))
    have le: "(b \<le> a) = False" using assms(3) by auto
    show ?thesis unfolding f g using assms(1,2) a(4) b(4) ne
      by (simp add: KeyBetween_def validKey_def Let_def le)
  qed
  show ?thesis
  proof (cases "i = j")
    case True
    then have "f < g" using assms(3) a(1) b(1) by simp
    then obtain m where m: "midpoint f g = Inr m" "validFrac m" "f < m" "m < g"
      using midpoint_correct [of f g] a(3) b(3) by auto
    then have "m \<noteq> []" by auto
    then show ?thesis using m eq True a b validKey_fracI [of i m] by auto
  next
    case False
    have ord: "i @ u < j @ v" for u v
      using validInt_order [OF a(2) b(2) False] assms(3) a(1) b(1) by blast
    have "i \<noteq> CHR ''z'' # replicate 26 (digitAt 61)"
      using validInt_le_top [OF b(2)] ord [of "[]" "[]"] False by (metis order.asym)
    then obtain n where n: "incrementInteger i = Inr n" "validInt n" "\<And>u v. i @ u < n @ v"
      using incrementInteger_correct [OF a(2)] by (auto split: sum.splits)
    have n0: "n \<noteq> smallestInteger" using n(3) [of "[]" "[]"] smallest_least [OF a(2)] by auto
    obtain m where m: "midpoint f [] = Inr m" "validFrac m" "f < m"
      using midpoint_correct [of f "[]"] a(3) by auto
    have an: "a < n" using n(3) [of f "[]"] a(1) by simp
    have "m \<noteq> []" using m(3) by auto
    then have am: "a < i @ m" "i @ m < b" "validKey (i @ m)"
      using ord m a b validKey_fracI [of i m] by auto
    show ?thesis
      using eq False n(1) m(1) an am validKey_intI [OF n(2) n0] by auto
  qed
qed

lemma KeyBetween_First: "KeyBetween [] [] = Inr First" "validKey First"
  by (simp_all add: KeyBetween_def) (code_simp)

section \<open>The generator as an interface\<close>

text \<open>What the services rely on when they position a slot or a day: between two valid ordered
  bounds (empty meaning unbounded) the generator always returns a valid key strictly between
  them, the one lower corner of the key space apart.\<close>

locale order_keys =
  fixes between :: "str \<Rightarrow> str \<Rightarrow> (frac_error, str) result"
    and valid :: "str \<Rightarrow> bool"
    and floorKey :: str
  assumes between_ok:
      "a = [] \<or> valid a \<Longrightarrow> b = [] \<or> valid b \<Longrightarrow> a = [] \<or> b = [] \<or> a < b \<Longrightarrow>
       a \<noteq> [] \<or> b \<noteq> floorKey \<Longrightarrow>
       \<exists>k. between a b = Inr k \<and> valid k \<and> a < k \<and> (b = [] \<or> k < b)"
    and between_out_of_order:
      "valid a \<Longrightarrow> valid b \<Longrightarrow> b \<le> a \<Longrightarrow> between a b = Inl ErrOutOfOrder"
    and valid_nonempty: "valid k \<Longrightarrow> k \<noteq> []"
begin

lemma insert_sorted:
  assumes "sorted_wrt (<) (xs @ ys)" "\<forall>k \<in> set (xs @ ys). valid k" "xs \<noteq> [] \<or> ys = [] \<or> hd ys \<noteq> floorKey"
    "floorKey \<noteq> []"
  shows "\<exists>k. between (if xs = [] then [] else last xs) (if ys = [] then [] else hd ys) = Inr k \<and>
    valid k \<and> sorted_wrt (<) (xs @ k # ys)"
proof -
  let ?a = "if xs = [] then [] else last xs" and ?b = "if ys = [] then [] else hd ys"
  have "?a = [] \<or> ?b = [] \<or> ?a < ?b"
    using assms(1) by (cases xs rule: rev_cases; cases ys) (auto simp: sorted_wrt_append)
  moreover have "?a = [] \<or> valid ?a" "?b = [] \<or> valid ?b" using assms(2) by auto
  moreover have "?a \<noteq> [] \<or> ?b \<noteq> floorKey"
    using assms(2-4) valid_nonempty by auto
  ultimately obtain k where k: "between ?a ?b = Inr k" "valid k" "?a < k" "?b = [] \<or> k < ?b"
    using between_ok by blast
  have "\<forall>x \<in> set xs. x < k"
  proof (cases xs rule: rev_cases)
    case (snoc xs' x)
    then show ?thesis using assms(1) k(3) by (auto simp: sorted_wrt_append intro: order.strict_trans)
  qed simp
  moreover have "\<forall>y \<in> set ys. k < y"
  proof (cases ys)
    case (Cons y ys')
    then have "k < y" using k(4) assms(2) valid_nonempty by auto
    then show ?thesis using assms(1) Cons by (auto simp: sorted_wrt_append intro: order.strict_trans)
  qed simp
  ultimately show ?thesis using k(1,2) assms(1) by (auto simp: sorted_wrt_less_append sorted_wrt_append)
qed

lemma neighbours_equal_rejected:
  "valid k \<Longrightarrow> between k k = Inl ErrOutOfOrder"
  by (rule between_out_of_order) simp_all

end

interpretation fk: order_keys KeyBetween validKey lowestKey
proof unfold_locales
  fix a b
  assume "a = [] \<or> validKey a" "b = [] \<or> validKey b" "a = [] \<or> b = [] \<or> a < b"
    "a \<noteq> [] \<or> b \<noteq> lowestKey"
  then show "\<exists>k. KeyBetween a b = Inr k \<and> validKey k \<and> a < k \<and> (b = [] \<or> k < b)"
    using KeyBetween_First KeyBetween_below [of b] KeyBetween_above [of a] KeyBetween_inside [of a b]
    by (cases "a = []"; cases "b = []") (auto simp: First_def neq_Nil_conv)
next
  fix a b assume "validKey a" "validKey b" "b \<le> a"
  moreover from this have "a \<noteq> []" "b \<noteq> []" by auto
  ultimately show "KeyBetween a b = Inl ErrOutOfOrder"
    by (simp add: KeyBetween_def validKey_def)
qed auto

section \<open>Bulk generation\<close>

lemma keysAfter_correct:
  "validKey c \<Longrightarrow> \<exists>ds. keysAfter k c = Inr ds \<and> length ds = k \<and> sorted_wrt (<) (c # ds) \<and>
     (\<forall>d \<in> set ds. validKey d)"
proof (induction k arbitrary: c)
  case (Suc k)
  obtain d where d: "KeyBetween c [] = Inr d" "c < d" "validKey d"
    using KeyBetween_above Suc.prems by blast
  obtain ds where ds: "keysAfter k d = Inr ds" "length ds = k" "sorted_wrt (<) (d # ds)"
      "\<forall>d \<in> set ds. validKey d"
    using Suc.IH d(3) by blast
  then show ?case using d by (auto intro: order.strict_trans)
qed simp

lemma KeyBetween_lower_valid: "KeyBetween [] d = Inr x \<Longrightarrow> d = [] \<or> validKey d"
  by (cases "d = []"; cases "validateOrderKey d") (auto simp: KeyBetween_def validKey_def)

lemma keysBefore_sound:
  "validKey c \<Longrightarrow> keysBefore k c = Inr ds \<Longrightarrow>
     length ds = k \<and> sorted_wrt (>) (c # ds) \<and> [] \<notin> set ds \<and> (\<forall>d \<in> set (butlast (c # ds)). validKey d)"
proof (induction k arbitrary: c ds)
  case (Suc k)
  then obtain d es where d: "KeyBetween [] c = Inr d" "keysBefore k d = Inr es" "ds = d # es"
    by (auto simp: sum_cases)
  have less: "d < c" "d \<noteq> []" using KeyBetween_below [OF Suc.prems(1)] d(1) by auto
  show ?case
  proof (cases k)
    case 0 then show ?thesis using d less Suc.prems(1) by auto
  next
    case (Suc k')
    then obtain x where "KeyBetween [] d = Inr x" using d(2) by (auto simp: sum_cases)
    then have v: "validKey d" using KeyBetween_lower_valid less(2) by blast
    show ?thesis using d less Suc.prems(1) Suc.IH [OF v d(2)] by (auto intro: order.strict_trans)
  qed
qed simp

lemma NKeysBetween_small [simp]:
  "NKeysBetween a b 0 = Inr []"
  "NKeysBetween a b 1 = bindR (KeyBetween a b) (\<lambda>k. Inr [k])"
  by (simp_all add: NKeysBetween.simps)

lemma NKeysBetween_inside:
  "validKey a \<Longrightarrow> validKey b \<Longrightarrow> a < b \<Longrightarrow> 0 \<le> n \<Longrightarrow>
     \<exists>ks. NKeysBetween a b n = Inr ks \<and> length ks = nat n \<and> sorted_wrt (<) ks \<and>
       (\<forall>k \<in> set ks. validKey k \<and> a < k \<and> k < b)"
proof (induction a b n rule: NKeysBetween.induct)
  case (1 a b n)
  have ne: "a \<noteq> []" "b \<noteq> []" using "1.prems" by auto
  obtain c where c: "KeyBetween a b = Inr c" "a < c" "c < b" "validKey c"
    using KeyBetween_inside "1.prems" by blast
  consider "n = 0" | "n = 1" | "n > 1" using "1.prems"(4) by linarith
  then show ?case
  proof cases
    case 3
    have g: "\<not> n < 0" "n \<noteq> 0" "n \<noteq> 1" using 3 by auto
    have h: "0 \<le> n div 2" "0 \<le> n - n div 2 - 1" using 3 by auto
    obtain ls where ls: "NKeysBetween a c (n div 2) = Inr ls" "length ls = nat (n div 2)"
        "sorted_wrt (<) ls" "\<forall>k \<in> set ls. validKey k \<and> a < k \<and> k < c"
      using "1.IH"(1) [OF g ne(2) ne(1) refl] c "1.prems"(1) h(1) by blast
    obtain rs where rs: "NKeysBetween c b (n - n div 2 - 1) = Inr rs"
        "length rs = nat (n - n div 2 - 1)"
        "sorted_wrt (<) rs" "\<forall>k \<in> set rs. validKey k \<and> c < k \<and> k < b"
      using "1.IH"(2) [OF g ne(2) ne(1) refl] c "1.prems"(2) h(2) by blast
    have "NKeysBetween a b n = Inr (ls @ [c] @ rs)"
      using g ne c(1) ls(1) rs(1) by (subst NKeysBetween.simps) (simp add: Let_def)
    moreover have "length (ls @ [c] @ rs) = nat n" using ls(2) rs(2) 3 by simp
    moreover have "sorted_wrt (<) (ls @ [c] @ rs)"
      using ls rs c by (simp add: sorted_wrt_less_append)
    moreover have "\<forall>k \<in> set (ls @ [c] @ rs). validKey k \<and> a < k \<and> k < b"
      using ls(4) rs(4) c by (auto intro: order.strict_trans)
    ultimately show ?thesis by blast
  qed (use c in \<open>auto\<close>)
qed

lemma NKeysBetween_above:
  assumes "a = [] \<or> validKey a" "0 \<le> n"
  shows "\<exists>ks. NKeysBetween a [] n = Inr ks \<and> length ks = nat n \<and> sorted_wrt (<) ks \<and>
    (\<forall>k \<in> set ks. validKey k \<and> a < k)"
proof -
  obtain c where c: "KeyBetween a [] = Inr c" "a < c" "validKey c"
    using KeyBetween_First KeyBetween_above [of a] assms(1) by (auto simp: First_def)
  obtain ds where ds: "keysAfter (nat (n - 1)) c = Inr ds" "length ds = nat (n - 1)"
      "sorted_wrt (<) (c # ds)" "\<forall>d \<in> set ds. validKey d"
    using keysAfter_correct [OF c(3)] by blast
  consider "n = 0" | "n = 1" | "n > 1" using assms(2) by linarith
  then show ?thesis
  proof cases
    case 3
    then have "NKeysBetween a [] n = Inr (c # ds)"
      using c(1) ds(1) by (subst NKeysBetween.simps) simp
    moreover have "\<forall>k \<in> set (c # ds). validKey k \<and> a < k"
      using c ds(3,4) by (auto intro: order.strict_trans)
    ultimately show ?thesis using ds(2,3) 3 by auto
  qed (use c in \<open>auto\<close>)
qed

lemma NKeysBetween_below_sound:
  assumes "validKey b" "NKeysBetween [] b n = Inr ks"
  shows "length ks = nat n \<and> sorted_wrt (<) ks \<and> [] \<notin> set ks \<and> (\<forall>k \<in> set ks. k < b) \<and> (\<forall>k \<in> set (tl ks). validKey k)"
proof -
  have b: "b \<noteq> []" using assms(1) by auto
  obtain c where c: "KeyBetween [] b = Inr c" "c < b" "c \<noteq> []" using KeyBetween_below [OF assms(1)] by blast
  have n0: "0 \<le> n" using assms(2) by (subst (asm) NKeysBetween.simps) (auto split: if_splits)
  consider "n = 0" | "n = 1" | "n > 1" using n0 by linarith
  then show ?thesis
  proof cases
    case 3
    then obtain ds where ds: "keysBefore (nat (n - 1)) c = Inr ds" "ks = rev (c # ds)"
      using assms(2) c b by (subst (asm) NKeysBetween.simps) (auto simp: sum_cases)
    obtain d where "KeyBetween [] c = Inr d"
      using ds(1) 3 by (cases "nat (n - 1)") (auto simp: sum_cases)
    then have v: "validKey c" using KeyBetween_lower_valid c(3) by blast
    note s = keysBefore_sound [OF v ds(1)]
    have "tl ks = rev (butlast (c # ds))" unfolding ds(2) by (metis butlast_rev rev_rev_ident)
    then show ?thesis using s ds(2) c(2,3) 3
      by (auto simp: sorted_wrt_rev sorted_wrt_append intro: order.strict_trans)
  qed (use assms(2) c in \<open>auto\<close>)
qed

text \<open>How many predecessors an integer part has before the reserved sentinel: in the block headed by A the
  value of its digits, above that block at least as many as the block has.\<close>

fun digitsValue :: "str \<Rightarrow> int" where
  "digitsValue [] = 0"
| "digitsValue (d # ds) = digitIndex d * 62 ^ length ds + digitsValue ds"

lemma digitsValue_bounds: "list_all isDigit ds \<Longrightarrow> 0 \<le> digitsValue ds \<and> digitsValue ds < 62 ^ length ds"
proof (induction ds)
  case (Cons d ds)
  have "digitIndex d * 62 ^ length ds \<le> 61 * (62 :: int) ^ length ds"
    using digitIndex_bounds(2) [of d] by (intro mult_right_mono) simp_all
  moreover have "0 \<le> digitIndex d * (62 :: int) ^ length ds" using Cons.prems by simp
  moreover have "0 \<le> digitsValue ds" "digitsValue ds < 62 ^ length ds" using Cons by auto
  ultimately show ?case unfolding digitsValue.simps length_Cons power_Suc by linarith
qed simp

lemma digitsValue_top: "digitsValue (replicate n (digitAt 61)) = 62 ^ n - 1"
  by (induction n) simp_all

lemma digitsValue_bottom: "digitsValue (replicate n zeroDigit) = 0"
  by (induction n) simp_all

lemma decDigits_value:
  assumes "list_all isDigit ds" "decDigits ds = (ds', False)"
  shows "digitsValue ds' = digitsValue ds - 1"
  using assms
proof (induction ds arbitrary: ds')
  case (Cons c ds)
  obtain es k where es: "decDigits ds = (es, k)" by fastforce
  show ?case
  proof (cases k)
    case True
    then have "digitsValue ds = 0" "digitsValue es = 62 ^ length ds - 1" "length es = length ds"
      using decDigits_spec [of ds es k] es Cons.prems(1) digitsValue_top [of "length ds"] digitsValue_bottom [of "length ds"]
      by (auto simp: True)
    then show ?thesis using Cons.prems es True digitIndex_bounds [of c]
      by (auto simp: Let_def left_diff_distrib split: if_splits)
  next
    case False
    then show ?thesis using Cons.prems Cons.IH es decDigits_spec [of ds es k] by (auto simp: Let_def)
  qed
qed simp

definition integerRoom :: "str \<Rightarrow> int" where
  "integerRoom i = (if hd i = CHR ''A'' then digitsValue (tl i) else 62 ^ 26 - 1)"

lemma decrement_room:
  assumes "validInt i" "decrementInteger i = Inr j"
  shows "integerRoom i \<le> integerRoom j + 1"
proof -
  obtain c ds where x: "i = c # ds" "integerLength c = Inr (Suc (length ds))" "list_all isDigit ds"
    using assms(1) by (rule validInt_cases)
  obtain ds' k where dec: "decDigits ds = (ds', k)" by fastforce
  note sp = decDigits_spec [OF x(3) dec]
  have eq: "decrementInteger i =
     (if \<not> k then Inr (c # ds')
      else if c = CHR ''a'' then Inr [CHR ''Z'', digitAt 61]
      else if c = CHR ''A'' then Inl ErrExhausted
      else Inr (prevByte c # (if prevByte c < CHR ''Z'' then ds' @ [digitAt 61] else butlast ds')))"
    using assms(1) x(1) dec by (simp add: decrementInteger_def validInt_def last_Digits)
  have top: "digitsValue ds < 62 ^ 26" if "c = CHR ''A''"
    using digitsValue_bounds [OF x(3)] x(2) that by (auto simp: integerLength_eq)
  have B: "ds' @ [digitAt 61] = replicate 26 (digitAt 61)" if "k" "prevByte c = CHR ''A''" "c \<noteq> CHR ''A''"
  proof -
    have "of_char (prevByte c) = (65 :: nat)" using that(2) by simp
    then have "of_char c = (66 :: nat)" by (simp add: of_char_prevByte)
    then have "length ds = 25" using x(2) by (auto simp: integerLength_eq)
    then show ?thesis using sp that(1) by (simp add: replicate_append_same [symmetric] numeral_eq_Suc)
  qed
  show ?thesis
  proof (cases k)
    case False
    then show ?thesis using eq assms(2) x dec decDigits_value [OF x(3)] by (auto simp: integerRoom_def)
  next
    case True
    have AZ: "CHR ''A'' < CHR ''Z''" by (simp add: less_char_def)
    show ?thesis
      using eq assms(2) True x(1) top B [OF True] AZ digitsValue_top [of 26]
      by (auto simp: integerRoom_def split: if_splits)
  qed
qed

definition keyRoom :: "str \<Rightarrow> int" where
  "keyRoom k = (case integerPart k of Inl _ \<Rightarrow> 0 | Inr i \<Rightarrow> integerRoom i)"

lemma smallest_room: "integerRoom smallestInteger = 0"
  using digitsValue_bottom [of 26] by (simp add: integerRoom_def smallestInteger_def)

lemma KeyBetween_room:
  assumes "validKey b" "2 \<le> keyRoom b"
  shows "\<exists>k. KeyBetween [] b = Inr k \<and> k < b \<and> validKey k \<and> keyRoom b \<le> keyRoom k + 1"
proof -
  obtain i f where b: "b = i @ f" "validInt i" "validFrac f" "integerPart b = Inr i"
    using assms(1) by (rule validKeyE)
  have room: "2 \<le> integerRoom i" using assms(2) b(4) by (simp add: keyRoom_def)
  then have i: "i \<noteq> smallestInteger" using smallest_room by auto
  have bne: "b \<noteq> []" using assms(1) by auto
  have eq: "KeyBetween [] b = (if i < b then Inr i else decrementInteger i)"
    using assms(1) b(4) bne i by (simp add: KeyBetween_def validKey_def Let_def)
  have part: "integerPart j = Inr j" if "validInt j" for j using integerPart_append [of j "[]"] that by simp
  show ?thesis
  proof (cases "i < b")
    case True
    then show ?thesis using eq b part validKey_intI [OF b(2) i] by (auto simp: keyRoom_def)
  next
    case False
    then have f: "f = []" using b(1) by (cases f) auto
    obtain j where j: "decrementInteger i = Inr j" "validInt j" "j < i"
      using decrementInteger_correct [OF b(2)] i by (auto split: sum.splits) (metis append_Nil2)
    have r: "integerRoom i \<le> integerRoom j + 1" by (rule decrement_room [OF b(2) j(1)])
    then have "j \<noteq> smallestInteger" using room smallest_room by auto
    then show ?thesis using eq False b j part r f validKey_intI [of j] by (auto simp: keyRoom_def)
  qed
qed

lemma keysBefore_room:
  "validKey c \<Longrightarrow> int k < keyRoom c \<Longrightarrow> \<exists>ds. keysBefore k c = Inr ds \<and> (\<forall>d \<in> set ds. validKey d)"
proof (induction k arbitrary: c)
  case (Suc k)
  obtain d where d: "KeyBetween [] c = Inr d" "validKey d" "keyRoom c \<le> keyRoom d + 1"
    using KeyBetween_room [OF Suc.prems(1)] Suc.prems(2) by auto
  then obtain ds where "keysBefore k d = Inr ds" "\<forall>d \<in> set ds. validKey d"
    using Suc.IH [of d] Suc.prems(2) by auto
  then show ?case using d by simp
qed simp

lemma NKeysBetween_below:
  assumes "validKey b" "0 \<le> n" "n < keyRoom b"
  shows "\<exists>ks. NKeysBetween [] b n = Inr ks \<and> (\<forall>k \<in> set ks. validKey k)"
proof -
  consider "n = 0" | "n = 1" | "n > 1" using assms(2) by linarith
  then show ?thesis
  proof cases
    case 2
    then show ?thesis using KeyBetween_room [OF assms(1)] assms(3) by auto
  next
    case 3
    then obtain c where c: "KeyBetween [] b = Inr c" "validKey c" "keyRoom b \<le> keyRoom c + 1"
      using KeyBetween_room [OF assms(1)] assms(3) by auto
    obtain ds where "keysBefore (nat (n - 1)) c = Inr ds" "\<forall>d \<in> set ds. validKey d"
      using keysBefore_room [OF c(2), of "nat (n - 1)"] c(3) assms(3) 3 by auto
    moreover have "b \<noteq> []" using assms(1) by auto
    ultimately show ?thesis using c 3 by (subst NKeysBetween.simps) simp
  qed simp
qed

lemma keyRoom_above: "validKey b \<Longrightarrow> hd b \<noteq> CHR ''A'' \<Longrightarrow> keyRoom b = 62 ^ 26 - 1"
  by (erule validKeyE) (auto simp: keyRoom_def integerRoom_def hd_append dest: validInt_neq_Nil)

lemma increment_decrement:
  assumes "validInt x" "incrementInteger x = Inr y"
  shows "decrementInteger y = Inr x"
proof -
  obtain c ds where x: "x = c # ds" "integerLength c = Inr (Suc (length ds))" "list_all isDigit ds"
    using assms(1) by (rule validInt_cases)
  obtain ds' k where inc: "incDigits ds = (ds', k)" by fastforce
  note sp = incDigits_spec [OF x(3) inc] and dec = decDigits_incDigits [OF x(3) inc]
  have vy: "validateInteger y = Inr ()"
    using incrementInteger_correct [OF assms(1)] assms(2) by (simp add: validInt_def)
  have "incrementInteger x =
     (if \<not> k then Inr (c # ds')
      else if c = CHR ''Z'' then Inr [CHR ''a'', zeroDigit]
      else if c = CHR ''z'' then Inl ErrExhausted
      else Inr (nextByte c # (if nextByte c > CHR ''a'' then ds' @ [zeroDigit] else butlast ds')))"
    using assms(1) x(1) inc by (simp add: incrementInteger_def validInt_def)
  note eq = this [unfolded assms(2)]
  have z: "decDigits (replicate m zeroDigit) = (replicate m (digitAt 61), True)" for m
    by (induction m) (simp_all add: last_Digits)
  consider "\<not> k" | "k" "c = CHR ''Z''" | "k" "c \<noteq> CHR ''Z''" "c \<noteq> CHR ''z''"
    using eq by fastforce
  then show ?thesis
  proof cases
    case 1
    then show ?thesis using eq dec vy x by (simp add: decrementInteger_def)
  next
    case 2
    then have "length ds = 1" "y = [CHR ''a'', zeroDigit]" using eq x(2) by (simp_all add: integerLength_eq)
    then show ?thesis using vy x(1) sp 2 z [of 1] by (simp add: decrementInteger_def last_Digits)
  next
    case 3
    then have c: "of_char c \<noteq> (90 :: nat)" "of_char c \<noteq> (122 :: nat)"
      by (simp_all add: char_neq_of_char)
    have b: "of_char c < (255 :: nat)" using x(2) by (auto simp: integerLength_eq)
    have p: "prevByte (nextByte c) = c"
      by (simp add: prevByte_def of_char_nextByte [OF b])
    have a: "nextByte c > CHR ''a'' \<longleftrightarrow> 97 \<le> (of_char c :: nat)"
      using b by (simp add: less_char_def of_char_nextByte) arith
    have n: "nextByte c \<noteq> CHR ''A''" "nextByte c \<noteq> CHR ''a''"
      using x(2) c b by (auto simp: char_neq_of_char of_char_nextByte integerLength_eq)
    have cz: "c < CHR ''Z'' \<longleftrightarrow> \<not> 97 \<le> (of_char c :: nat)"
      using c x(2) by (auto simp: less_char_def integerLength_eq)
    have ds: "ds = replicate (length ds) (digitAt 61)" "ds' = replicate (length ds) zeroDigit"
      using sp 3 by auto
    have ds': "ds' @ [zeroDigit] = replicate (Suc (length ds)) zeroDigit"
      "butlast ds' = replicate (length ds - 1) zeroDigit"
      using ds(2) by (simp_all add: replicate_append_same butlast_replicate_Suc)
    have ap: "replicate (length ds - 1) (digitAt 61) @ [digitAt 61] = ds" if ne: "length ds \<noteq> 0"
    proof -
      have "replicate (length ds - 1) (digitAt 61) @ [digitAt 61] = replicate (length ds) (digitAt 61)"
        using ne by (cases "length ds") (simp_all add: replicate_append_same)
      then show ?thesis by (simp only: ds(1) [symmetric])
    qed
    have l: "length ds \<noteq> 0" using x(2) c by (auto simp: integerLength_eq)
    have y: "y = nextByte c # (if 97 \<le> (of_char c :: nat) then replicate (Suc (length ds)) zeroDigit
        else replicate (length ds - 1) zeroDigit)"
      using eq 3 unfolding a ds' by simp
    have bl: "butlast (replicate (Suc (length ds)) (digitAt 61)) = ds"
      by (simp only: butlast_replicate_Suc diff_Suc_1 ds(1) [symmetric])
    show ?thesis
      using vy unfolding y
      by (auto simp: decrementInteger_def z p n cz bl ap [OF l, unfolded One_nat_def] last_Digits x(1)
          simp del: replicate.simps)
  qed
qed

section \<open>Properties\<close>

text \<open>C38: between any two valid order keys (either end may be open) \<^theory_text>\<open>KeyBetween\<close> returns a key,
  and it sorts strictly between them in byte order; the key is itself valid, except below the
  one key whose predecessor is the reserved sentinel.\<close>

theorem KeyBetween_strictly_between:
  assumes "a = [] \<or> validateOrderKey a = Inr ()" "b = [] \<or> validateOrderKey b = Inr ()"
    and "a = [] \<or> b = [] \<or> a < b"
  shows "\<exists>k. KeyBetween a b = Inr k \<and> a < k \<and> (b = [] \<or> k < b) \<and>
    ((a \<noteq> [] \<or> b \<noteq> lowestKey) \<longrightarrow> validateOrderKey k = Inr ())"
proof (cases "a \<noteq> [] \<or> b \<noteq> lowestKey")
  case True
  then show ?thesis using fk.between_ok assms unfolding validKey_def by blast
next
  case False
  then have e: "a = []" "b = lowestKey" by auto
  have "validKey lowestKey" by code_simp
  then obtain k where "KeyBetween [] lowestKey = Inr k" "k < lowestKey" "k \<noteq> []"
    using KeyBetween_below by blast
  then show ?thesis unfolding e by (cases k) auto
qed

theorem KeyBetween_strictly_between_witness:
  "\<exists>k. KeyBetween ''a0'' ''a1'' = Inr k \<and> ''a0'' < k \<and> k < ''a1''"
proof -
  have "validateOrderKey ''a0'' = Inr ()" "validateOrderKey ''a1'' = Inr ()" "''a0'' < ''a1''"
    by code_simp+
  then show ?thesis using KeyBetween_strictly_between [of "''a0''" "''a1''"] by auto
qed

text \<open>C39: for bounds that are valid keys in order, either of them possibly open, and any count a Go int can hold,
  \<^theory_text>\<open>NKeysBetween\<close> returns exactly \<^theory_text>\<open>n\<close> valid keys, strictly ascending, all inside the bounds. Only below an
  upper bound in the last block of the integer space (its head is A) with the lower end open may it run out:
  then it fails, or it succeeds with the same guarantees except that its first key may be the reserved sentinel.\<close>

theorem NKeysBetween_ascending:
  assumes "a = [] \<or> validateOrderKey a = Inr ()" "b = [] \<or> validateOrderKey b = Inr ()"
    and "a = [] \<or> b = [] \<or> a < b" "0 \<le> n" "n < 2 ^ 63"
  shows "case NKeysBetween a b n of
      Inr ks \<Rightarrow> length ks = nat n \<and> sorted_wrt (<) ks \<and> (\<forall>k \<in> set ks. a < k \<and> (b = [] \<or> k < b)) \<and>
        (\<forall>k \<in> set (if a = [] \<and> b \<noteq> [] \<and> hd b = CHR ''A'' then tl ks else ks). validateOrderKey k = Inr ())
    | Inl err \<Rightarrow> a = [] \<and> b \<noteq> [] \<and> hd b = CHR ''A''"
proof (cases "a = [] \<and> b \<noteq> []")
  case True
  then have b: "validKey b" using assms(2) by (simp add: validKey_def)
  have A: "\<exists>ks. NKeysBetween [] b n = Inr ks \<and> (\<forall>k \<in> set ks. validKey k)" if "hd b \<noteq> CHR ''A''"
    using NKeysBetween_below [OF b assms(4)] keyRoom_above [OF b that] assms(5) by simp
  show ?thesis
  proof (cases "NKeysBetween [] b n")
    case (Inl err)
    then show ?thesis using A True by auto
  next
    case (Inr ks)
    note s = NKeysBetween_below_sound [OF b Inr]
    have "\<forall>k \<in> set ks. [] < k" using s by (metis list.exhaust Nil_less_Cons)
    then show ?thesis using A True Inr s by (auto simp: validKey_def)
  qed
next
  case False
  show ?thesis
  proof (cases "b = []")
    case True
    then show ?thesis using NKeysBetween_above [of a n] assms by (auto simp: validKey_def)
  next
    case b: False
    then show ?thesis using NKeysBetween_inside [of a b n] assms False by (auto simp: validKey_def)
  qed
qed

theorem NKeysBetween_ascending_witness:
  "\<exists>ks. NKeysBetween [] ''a1'' 3 = Inr ks \<and> length ks = 3 \<and> sorted_wrt (<) ks"
proof -
  have "validateOrderKey ''a1'' = Inr ()" by code_simp
  then show ?thesis using NKeysBetween_ascending [of "[]" "''a1''" 3] by (auto split: sum.splits)
qed

text \<open>Bounds that are equal or reversed are refused with \<^theory_text>\<open>ErrOutOfOrder\<close>, so a new
  key is never a duplicate of one of its neighbours.\<close>

theorem KeyBetween_refusals:
  "validateOrderKey a = Inr () \<Longrightarrow> validateOrderKey b = Inr () \<Longrightarrow> b \<le> a \<Longrightarrow>
     KeyBetween a b = Inl ErrOutOfOrder"
  using fk.between_out_of_order by (simp add: validKey_def)

theorem KeyBetween_refusals_witness:
  "KeyBetween ''a1'' ''a0'' = Inl ErrOutOfOrder"
  by (rule KeyBetween_refusals) code_simp+

text \<open>Below the last key of the integer space the generator answers with the reserved
  sentinel, which is not a valid key: every later call with it as a bound is refused.\<close>

theorem KeyBetween_floor_invalid:
  "validateOrderKey lowestKey = Inr () \<and> KeyBetween [] lowestKey = Inr smallestInteger \<and>
   KeyBetween smallestInteger b = Inl ErrInvalidKey"
proof -
  have "validateOrderKey lowestKey = Inr ()" "KeyBetween [] lowestKey = Inr smallestInteger"
    by code_simp+
  moreover have "KeyBetween smallestInteger b = Inl ErrInvalidKey"
    by (simp add: KeyBetween_def validateOrderKey_def) (simp add: smallestInteger_def)
  ultimately show ?thesis by simp
qed

text \<open>Decrementing an incremented integer part gives the original back, so the two walk the
  same sequence of integer parts in opposite directions.\<close>

theorem decrement_of_increment:
  assumes "validateInteger x = Inr ()" "incrementInteger x = Inr y"
  shows "decrementInteger y = Inr x \<and> x < y"
proof -
  have x: "validInt x" using assms(1) by (simp add: validInt_def)
  then have less: "\<forall>u v. x @ u < y @ v" using incrementInteger_correct [OF x] assms(2) by auto
  have "x < y" using less [rule_format, of "[]" "[]"] by simp
  then show ?thesis using increment_decrement [OF x assms(2)] by simp
qed

theorem decrement_of_increment_witness:
  "decrementInteger ''b00'' = Inr ''az''"
proof -
  have "validateInteger ''az'' = Inr ()" "incrementInteger ''az'' = Inr ''b00''" by code_simp+
  then show ?thesis using decrement_of_increment by blast
qed

end
