(* ===== verification/GoText.thy ===== *)
theory GoText
  imports Prelude
begin

text \<open>What the domain layer uses of Go's text functions, on byte strings: the segmentation of a
  string into runes that \<^theory_text>\<open>unicode/utf8\<close> performs (an invalid byte is one rune of width one),
  \<^theory_text>\<open>utf8.RuneCountInString\<close>, \<^theory_text>\<open>strings.TrimSpace\<close>, \<^theory_text>\<open>strings.ToLower\<close> on ASCII letters, and the
  decimal digits of \<^theory_text>\<open>time.Parse("15:04", _)\<close> and \<^theory_text>\<open>%02d\<close>.\<close>

section \<open>Runes\<close>

abbreviation byte :: "char \<Rightarrow> nat" where
  "byte c \<equiv> of_char c"

definition isCont :: "nat \<Rightarrow> bool" where
  "isCont b \<longleftrightarrow> 128 \<le> b \<and> b \<le> 191"

definition runeError :: nat where
  "runeError = 65533"

text \<open>The rune at the head of a non-empty string and the number of bytes it takes.\<close>

definition decodeRune :: "str \<Rightarrow> nat \<times> nat" where
  "decodeRune s =
     (case map byte (take 4 s) of
        [] \<Rightarrow> (runeError, 0)
      | b0 # bs \<Rightarrow>
          if b0 < 128 then (b0, 1)
          else if 194 \<le> b0 \<and> b0 \<le> 223 then
            (case bs of
               b1 # _ \<Rightarrow> if isCont b1 then ((b0 - 192) * 64 + (b1 - 128), 2) else (runeError, 1)
             | _ \<Rightarrow> (runeError, 1))
          else if 224 \<le> b0 \<and> b0 \<le> 239 then
            (case bs of
               b1 # b2 # _ \<Rightarrow>
                 if isCont b1 \<and> isCont b2 \<and> (b0 = 224 \<longrightarrow> 160 \<le> b1) \<and> (b0 = 237 \<longrightarrow> b1 \<le> 159)
                 then ((b0 - 224) * 4096 + (b1 - 128) * 64 + (b2 - 128), 3)
                 else (runeError, 1)
             | _ \<Rightarrow> (runeError, 1))
          else if 240 \<le> b0 \<and> b0 \<le> 244 then
            (case bs of
               b1 # b2 # b3 # _ \<Rightarrow>
                 if isCont b1 \<and> isCont b2 \<and> isCont b3 \<and> (b0 = 240 \<longrightarrow> 144 \<le> b1) \<and> (b0 = 244 \<longrightarrow> b1 \<le> 143)
                 then ((b0 - 240) * 262144 + (b1 - 128) * 4096 + (b2 - 128) * 64 + (b3 - 128), 4)
                 else (runeError, 1)
             | _ \<Rightarrow> (runeError, 1))
          else (runeError, 1))"

lemma decodeRune_width: "s \<noteq> [] \<Longrightarrow> 0 < snd (decodeRune s)"
  by (cases s) (auto simp: decodeRune_def Let_def split: list.splits)

text \<open>The segments of a string: the bytes of each rune, in order.\<close>

function segments :: "str \<Rightarrow> str list" where
  "segments s =
     (if s = [] then []
      else take (snd (decodeRune s)) s # segments (drop (snd (decodeRune s)) s))"
  by pat_completeness auto
termination
  by (relation "measure length") (auto intro!: diff_less decodeRune_width)

declare segments.simps [simp del]

lemma segments_Nil [simp]: "segments [] = []"
  by (simp add: segments.simps)

lemma concat_segments [simp]: "concat (segments s) = s"
  by (induction s rule: segments.induct) (subst segments.simps, simp)

definition RuneCountInString :: "str \<Rightarrow> nat" where
  "RuneCountInString s = length (segments s)"

lemma RuneCount_le_length: "RuneCountInString s \<le> length s"
proof (induction s rule: segments.induct)
  case (1 s)
  show ?case
  proof (cases "s = []")
    case False
    have w: "0 < snd (decodeRune s)" using False by (rule decodeRune_width)
    have "RuneCountInString s = Suc (RuneCountInString (drop (snd (decodeRune s)) s))"
      using False by (simp add: RuneCountInString_def segments.simps [of s])
    moreover have "length (drop (snd (decodeRune s)) s) < length s"
      using False w by (simp add: diff_less)
    ultimately show ?thesis using 1 [OF False] by linarith
  qed (simp add: RuneCountInString_def)
qed

section \<open>White space\<close>

definition isSpaceRune :: "nat \<Rightarrow> bool" where
  "isSpaceRune r \<longleftrightarrow>
     9 \<le> r \<and> r \<le> 13 \<or> r = 32 \<or> r = 133 \<or> r = 160 \<or> r = 5760 \<or> 8192 \<le> r \<and> r \<le> 8202 \<or>
     r = 8232 \<or> r = 8233 \<or> r = 8239 \<or> r = 8287 \<or> r = 12288"

text \<open>The same test with the ASCII runes first, for evaluation.\<close>

lemma isSpaceRune_code [code]:
  "isSpaceRune r = (if r < 128 then 9 \<le> r \<and> r \<le> 13 \<or> r = 32 else
     r = 133 \<or> r = 160 \<or> r = 5760 \<or> 8192 \<le> r \<and> r \<le> 8202 \<or>
     r = 8232 \<or> r = 8233 \<or> r = 8239 \<or> r = 8287 \<or> r = 12288)"
  by (auto simp: isSpaceRune_def)

definition spaceSegment :: "str \<Rightarrow> bool" where
  "spaceSegment g \<longleftrightarrow> isSpaceRune (fst (decodeRune g))"

definition TrimSpace :: "str \<Rightarrow> str" where
  "TrimSpace s = concat (rev (dropWhile spaceSegment (rev (dropWhile spaceSegment (segments s)))))"

definition ToLowerASCII :: "str \<Rightarrow> str" where
  "ToLowerASCII s =
     map (\<lambda>c. if 65 \<le> byte c \<and> byte c \<le> 90 then char_of (byte c + 32) else c) s"

lemma concat_dropWhile_suffix: "\<exists>p. concat xs = p @ concat (dropWhile P xs)"
  by (metis concat_append takeWhile_dropWhile_id)

lemma TrimSpace_infix: "\<exists>p q. s = p @ TrimSpace s @ q"
proof -
  define xs where "xs = dropWhile spaceSegment (segments s)"
  obtain p where p: "s = p @ concat xs"
    using concat_dropWhile_suffix [of "segments s" spaceSegment] by (auto simp: xs_def)
  have "xs = rev (dropWhile spaceSegment (rev xs)) @ rev (takeWhile spaceSegment (rev xs))"
    by (metis rev_append rev_rev_ident takeWhile_dropWhile_id)
  then have "concat xs = TrimSpace s @ concat (rev (takeWhile spaceSegment (rev xs)))"
    by (metis TrimSpace_def concat_append xs_def)
  then show ?thesis using p by blast
qed

text \<open>On ASCII text every byte is a rune, which is how concrete inputs are evaluated.\<close>

definition ascii :: "str \<Rightarrow> bool" where
  "ascii s \<longleftrightarrow> list_all (\<lambda>c. byte c < 128) s"

lemma ascii_simps [simp]: "ascii []" "ascii (c # s) \<longleftrightarrow> byte c < 128 \<and> ascii s"
  by (simp_all add: ascii_def)

lemma decodeRune_ascii: "byte c < 128 \<Longrightarrow> decodeRune (c # s) = (byte c, 1)"
  by (simp add: decodeRune_def)

lemma segments_ascii: "ascii s \<Longrightarrow> segments s = map (\<lambda>c. [c]) s"
  by (induction s) (simp, subst segments.simps, simp add: decodeRune_ascii)

lemma RuneCount_ascii: "ascii s \<Longrightarrow> RuneCountInString s = length s"
  by (simp add: RuneCountInString_def segments_ascii)

lemma TrimSpace_ascii:
  assumes "ascii s" "s \<noteq> []" "\<not> isSpaceRune (byte (hd s))" "\<not> isSpaceRune (byte (last s))"
  shows "TrimSpace s = s"
proof -
  obtain c t where c: "s = c # t" using assms(2) by (cases s) auto
  obtain u d where d: "s = u @ [d]" using assms(2) by (cases s rule: rev_cases) auto
  have sp: "\<not> spaceSegment [c]" "\<not> spaceSegment [d]"
  proof -
    show "\<not> spaceSegment [c]" using assms(1,3) by (simp add: c spaceSegment_def decodeRune_ascii)
    show "\<not> spaceSegment [d]" using assms(1,4) by (simp add: d spaceSegment_def decodeRune_ascii ascii_def)
  qed
  have "dropWhile spaceSegment (segments s) = map (\<lambda>c. [c]) s"
    unfolding segments_ascii [OF assms(1)] using sp(1) by (simp add: c)
  moreover have "dropWhile spaceSegment (rev (map (\<lambda>c. [c]) s)) = rev (map (\<lambda>c. [c]) s)"
    using sp(2) by (simp add: d)
  moreover have "concat (map (\<lambda>c. [c]) s) = s" by (induction s) auto
  ultimately show ?thesis by (simp add: TrimSpace_def)
qed

section \<open>Two-digit decimals\<close>

definition decDigit :: "nat \<Rightarrow> char" where
  "decDigit n = char_of (48 + n)"

definition isDecDigit :: "char \<Rightarrow> bool" where
  "isDecDigit c \<longleftrightarrow> 48 \<le> byte c \<and> byte c \<le> 57"

definition decVal :: "char \<Rightarrow> int" where
  "decVal c = int (byte c) - 48"

lemma decDigit_simps [simp]:
  "n < 10 \<Longrightarrow> isDecDigit (decDigit n)"
  "n < 10 \<Longrightarrow> decVal (decDigit n) = int n"
  by (simp_all add: isDecDigit_def decVal_def decDigit_def)

lemma isDecDigit_colon [simp]: "\<not> isDecDigit CHR '':''"
  by (simp add: isDecDigit_def)

end
