(* ===== verification/Errors.thy ===== *)
theory Errors
  imports Fracdex GoText "HOL-Library.Word"
begin

text \<open>Errors and identifiers of the domain layer (src/internal/domain/errors.go, ids.go): the
  sentinel errors as constructors, the collecting \<^theory_text>\<open>ValidationError\<close>, and the identifiers.

  A \<^theory_text>\<open>FieldViolation\<close> keeps its field and its machine-readable code; the message, which the
  source declares free to change, is not modelled. A \<^theory_text>\<open>uuid.UUID\<close> is its 128 bits; the textual
  form (\<^theory_text>\<open>uuid.String\<close>, \<^theory_text>\<open>uuid.Parse\<close>) and \<^theory_text>\<open>uuid.NewV7\<close> belong to a third-party package and are
  parameters of the definitions that use them. An instant is the number of nanoseconds since
  Go's zero time.\<close>

type_synonym ID = "128 word"
type_synonym int64 = "64 word"
type_synonym instant = int

definition NilID :: ID where
  "NilID = 0"

definition zeroTime :: instant where
  "zeroTime = 0"

section \<open>Errors\<close>

datatype FieldViolation = FieldViolation (violField: str) (violCode: str)

datatype error =
    ErrNotFound
  | ErrAlreadyExists
  | ErrVersionConflict
  | ErrForbidden
  | ErrUnauthenticated
  | ErrInvalidCredentials
  | ErrEmailNotVerified
  | ErrTokenInvalid
  | ErrTokenExpired
  | ErrTokenConsumed
  | ErrValidation
  | ValidationError "FieldViolation list"
  | FracError frac_error
  | ErrOther str

type_synonym 'a res = "error + 'a"

text \<open>\<^theory_text>\<open>errors.Is(err, ErrValidation)\<close>: the sentinel itself or the collecting error.\<close>

definition isValidationError :: "error \<Rightarrow> bool" where
  "isValidationError e = (case e of ErrValidation \<Rightarrow> True | ValidationError _ \<Rightarrow> True | _ \<Rightarrow> False)"

definition Add :: "str \<Rightarrow> str \<Rightarrow> FieldViolation list \<Rightarrow> FieldViolation list" where
  "Add field code ve = ve @ [FieldViolation field code]"

definition AddIf :: "bool \<Rightarrow> str \<Rightarrow> str \<Rightarrow> FieldViolation list \<Rightarrow> FieldViolation list" where
  "AddIf cond field code ve = (if cond then Add field code ve else ve)"

definition HasViolations :: "FieldViolation list \<Rightarrow> bool" where
  "HasViolations ve \<longleftrightarrow> 0 < length ve"

definition OrNil :: "FieldViolation list \<Rightarrow> unit res" where
  "OrNil ve = (if HasViolations ve then Inl (ValidationError ve) else Inr ())"

definition AsValidationError :: "error \<Rightarrow> FieldViolation list option" where
  "AsValidationError e = (case e of ValidationError ve \<Rightarrow> Some ve | _ \<Rightarrow> None)"

text \<open>\<^theory_text>\<open>ParseID\<close>, over the third-party \<^theory_text>\<open>uuid.Parse\<close>.\<close>

definition ParseID :: "(str \<Rightarrow> ID option) \<Rightarrow> str \<Rightarrow> str \<Rightarrow> ID res" where
  "ParseID uuidParse field s =
     (case uuidParse s of
        Some i \<Rightarrow> Inr i
      | None \<Rightarrow> Inl (ValidationError (Add field ''invalid_uuid'' [])))"

named_theorems validate_simps "unfolding rules of the validators"

lemma AddIf_eq_Nil [simp]: "AddIf c f k ve = [] \<longleftrightarrow> \<not> c \<and> ve = []"
  by (simp add: AddIf_def Add_def)

lemma Add_neq_Nil [simp]: "Add f k ve \<noteq> []"
  by (simp add: Add_def)

lemma OrNil_Inr [simp]: "OrNil ve = Inr u \<longleftrightarrow> ve = []"
  by (simp add: OrNil_def HasViolations_def)

lemma OrNil_Inl [simp]: "OrNil ve = Inl e \<longleftrightarrow> ve \<noteq> [] \<and> e = ValidationError ve"
  by (auto simp: OrNil_def HasViolations_def)

lemma OrNil_Nil [simp]: "OrNil [] = Inr ()"
  by (simp add: OrNil_def HasViolations_def)

lemma set_AddIf [simp]:
  "set (AddIf c f k ve) = (if c then insert (FieldViolation f k) (set ve) else set ve)"
  by (simp add: AddIf_def Add_def)

lemma set_Add [simp]: "set (Add f k ve) = insert (FieldViolation f k) (set ve)"
  by (simp add: Add_def)

end
