(* ===== verification/OpVocab.thy ===== *)
theory OpVocab
  imports Errors
begin

text \<open>The operation vocabulary (the first half of src/internal/domain/op.go): the kinds with the
  fields each may name, the kinds whose mask must be total, and the field mask itself, a sorted
  list of field names without repetition.

  \<^theory_text>\<open>OpKind\<close> is a Go string; a text outside the vocabulary is \<^theory_text>\<open>UnknownKind\<close>. Field names stay strings:
  a mask from the wire can carry any text.\<close>

datatype OpKind =
    OpDayCreate | OpDayEdit | OpDayMove | OpDayDelete
  | OpSlotCreate | OpSlotEdit | OpSlotMove | OpSlotSelectOption | OpSlotSetStatus | OpSlotDelete
  | OpOptionCreate | OpOptionEdit | OpOptionDelete
  | OpVoteSet
  | OpBudgetSet | OpBudgetDelete
  | OpAttachmentAdd | OpAttachmentRemove
  | OpCommentCreate | OpCommentDelete
  | UnknownKind str

section \<open>Field names\<close>

abbreviation "FieldTitle \<equiv> ''title''"
abbreviation "FieldNotes \<equiv> ''notes''"
abbreviation "FieldKind \<equiv> ''kind''"
abbreviation "FieldDayID \<equiv> ''day_id''"
abbreviation "FieldSlotID \<equiv> ''slot_id''"
abbreviation "FieldUserID \<equiv> ''user_id''"
abbreviation "FieldOptionID \<equiv> ''option_id''"
abbreviation "FieldStartTime \<equiv> ''start_time''"
abbreviation "FieldEndTime \<equiv> ''end_time''"
abbreviation "FieldPosition \<equiv> ''position''"
abbreviation "FieldSelectedOptionID \<equiv> ''selected_option_id''"
abbreviation "FieldStatus \<equiv> ''status''"
abbreviation "FieldStatusChangedAt \<equiv> ''status_changed_at''"
abbreviation "FieldStatusChangedBy \<equiv> ''status_changed_by''"
abbreviation "FieldDeletedAt \<equiv> ''deleted_at''"
abbreviation "FieldDate \<equiv> ''date''"
abbreviation "FieldLabel \<equiv> ''label''"
abbreviation "FieldExternalURL \<equiv> ''external_url''"
abbreviation "FieldEstimatedCost \<equiv> ''estimated_cost_minor''"
abbreviation "FieldPlaceName \<equiv> ''place_name''"
abbreviation "FieldPlaceAddress \<equiv> ''place_address''"
abbreviation "FieldPlaceLat \<equiv> ''place_lat''"
abbreviation "FieldPlaceLng \<equiv> ''place_lng''"
abbreviation "FieldPlaceProviderID \<equiv> ''place_provider_id''"
abbreviation "FieldCategory \<equiv> ''category''"
abbreviation "FieldAmountMinor \<equiv> ''amount_minor''"
abbreviation "FieldSlotOptionID \<equiv> ''slot_option_id''"
abbreviation "FieldPaidBy \<equiv> ''paid_by''"
abbreviation "FieldIncurredOn \<equiv> ''incurred_on''"
abbreviation "FieldSplits \<equiv> ''splits''"
abbreviation "FieldStorageKey \<equiv> ''storage_key''"
abbreviation "FieldContentType \<equiv> ''content_type''"
abbreviation "FieldSizeBytes \<equiv> ''size_bytes''"
abbreviation "FieldOriginalName \<equiv> ''original_name''"
abbreviation "FieldBudgetEntryID \<equiv> ''budget_entry_id''"
abbreviation "FieldUploadedBy \<equiv> ''uploaded_by''"
abbreviation "FieldBody \<equiv> ''body''"

section \<open>The vocabulary\<close>

definition opKinds :: "OpKind \<Rightarrow> str list option" where
  "opKinds k = (case k of
       OpDayCreate \<Rightarrow> Some [FieldDate, FieldLabel, FieldPosition]
     | OpDayEdit \<Rightarrow> Some [FieldDate, FieldLabel]
     | OpDayMove \<Rightarrow> Some [FieldPosition]
     | OpDayDelete \<Rightarrow> Some [FieldDeletedAt]
     | OpSlotCreate \<Rightarrow> Some [FieldDayID, FieldKind, FieldTitle, FieldNotes, FieldStartTime,
         FieldEndTime, FieldPosition, FieldStatus]
     | OpSlotEdit \<Rightarrow> Some [FieldKind, FieldTitle, FieldNotes, FieldStartTime, FieldEndTime]
     | OpSlotMove \<Rightarrow> Some [FieldDayID, FieldPosition]
     | OpSlotSelectOption \<Rightarrow> Some [FieldSelectedOptionID]
     | OpSlotSetStatus \<Rightarrow> Some [FieldStatus, FieldStatusChangedAt, FieldStatusChangedBy]
     | OpSlotDelete \<Rightarrow> Some [FieldDeletedAt]
     | OpOptionCreate \<Rightarrow> Some [FieldSlotID, FieldTitle, FieldNotes, FieldExternalURL,
         FieldEstimatedCost, FieldPlaceName, FieldPlaceAddress, FieldPlaceLat, FieldPlaceLng,
         FieldPlaceProviderID]
     | OpOptionEdit \<Rightarrow> Some [FieldTitle, FieldNotes, FieldExternalURL,
         FieldEstimatedCost, FieldPlaceName, FieldPlaceAddress, FieldPlaceLat, FieldPlaceLng,
         FieldPlaceProviderID]
     | OpOptionDelete \<Rightarrow> Some [FieldDeletedAt]
     | OpVoteSet \<Rightarrow> Some [FieldSlotID, FieldUserID, FieldOptionID]
     | OpBudgetSet \<Rightarrow> Some [FieldLabel, FieldCategory, FieldAmountMinor, FieldSlotOptionID,
         FieldPaidBy, FieldIncurredOn, FieldSplits]
     | OpBudgetDelete \<Rightarrow> Some [FieldDeletedAt]
     | OpAttachmentAdd \<Rightarrow> Some [FieldKind, FieldStatus, FieldStorageKey, FieldExternalURL,
         FieldContentType, FieldSizeBytes, FieldOriginalName, FieldSlotOptionID,
         FieldBudgetEntryID, FieldSlotID, FieldUploadedBy]
     | OpAttachmentRemove \<Rightarrow> Some [FieldDeletedAt]
     | OpCommentCreate \<Rightarrow> Some [FieldSlotID, FieldBody]
     | OpCommentDelete \<Rightarrow> Some [FieldDeletedAt]
     | UnknownKind _ \<Rightarrow> None)"

definition totalMaskKinds :: "OpKind set" where
  "totalMaskKinds = {OpBudgetSet, OpAttachmentAdd, OpCommentCreate, OpCommentDelete}"

definition RequiresTotalMask :: "OpKind \<Rightarrow> bool" where
  "RequiresTotalMask k = (k \<in> totalMaskKinds)"

definition Mergeable :: "OpKind \<Rightarrow> bool" where
  "Mergeable k = (\<not> RequiresTotalMask k)"

definition OpKind_Valid :: "OpKind \<Rightarrow> bool" where
  "OpKind_Valid k = (opKinds k \<noteq> None)"

definition AllowedFields :: "OpKind \<Rightarrow> str list" where
  "AllowedFields k = (case opKinds k of Some fs \<Rightarrow> fs | None \<Rightarrow> [])"

definition OpKind_Entity :: "OpKind \<Rightarrow> str" where
  "OpKind_Entity k = (case k of
       OpDayCreate \<Rightarrow> ''day'' | OpDayEdit \<Rightarrow> ''day'' | OpDayMove \<Rightarrow> ''day'' | OpDayDelete \<Rightarrow> ''day''
     | OpSlotCreate \<Rightarrow> ''slot'' | OpSlotEdit \<Rightarrow> ''slot'' | OpSlotMove \<Rightarrow> ''slot''
     | OpSlotSelectOption \<Rightarrow> ''slot'' | OpSlotSetStatus \<Rightarrow> ''slot'' | OpSlotDelete \<Rightarrow> ''slot''
     | OpOptionCreate \<Rightarrow> ''option'' | OpOptionEdit \<Rightarrow> ''option'' | OpOptionDelete \<Rightarrow> ''option''
     | OpVoteSet \<Rightarrow> ''vote''
     | OpBudgetSet \<Rightarrow> ''budget'' | OpBudgetDelete \<Rightarrow> ''budget''
     | OpAttachmentAdd \<Rightarrow> ''attachment'' | OpAttachmentRemove \<Rightarrow> ''attachment''
     | OpCommentCreate \<Rightarrow> ''comment'' | OpCommentDelete \<Rightarrow> ''comment''
     | UnknownKind _ \<Rightarrow> '''')"

section \<open>Field masks\<close>

type_synonym FieldMask = "str list"

definition NewFieldMask :: "str list \<Rightarrow> FieldMask" where
  "NewFieldMask fields = remdups_adj (sort fields)"

definition Has :: "FieldMask \<Rightarrow> str \<Rightarrow> bool" where
  "Has m f = list_ex (\<lambda>g. g = f) m"

definition FieldMask_Validate :: "FieldMask \<Rightarrow> OpKind \<Rightarrow> unit res" where
  "FieldMask_Validate m kind =
     (if \<not> OpKind_Valid kind then Inl ErrValidation
      else if length m = 0 then Inl ErrValidation
      else if list_ex (\<lambda>f. \<not> Has (AllowedFields kind) f) m then Inl ErrValidation
      else if RequiresTotalMask kind \<and> list_ex (\<lambda>f. \<not> Has m f) (AllowedFields kind) then Inl ErrValidation
      else Inr ())"

section \<open>Lemmas\<close>

lemma Has_iff [simp]: "Has m f \<longleftrightarrow> f \<in> set m"
  by (auto simp: Has_def list_ex_iff)

lemma set_NewFieldMask [simp]: "set (NewFieldMask fs) = set fs"
  by (simp add: NewFieldMask_def)

lemma sorted_NewFieldMask: "sorted_wrt (<) (NewFieldMask fs)"
  unfolding NewFieldMask_def by (rule strict_sorted_remdups_adj) simp

lemma NewFieldMask_cong: "set fs = set gs \<Longrightarrow> NewFieldMask fs = NewFieldMask gs"
  using sorted_NewFieldMask [of fs] sorted_NewFieldMask [of gs]
  by (metis set_NewFieldMask strict_sorted_equal)

lemma FieldMask_Validate_iff:
  "FieldMask_Validate m k = Inr () \<longleftrightarrow>
     OpKind_Valid k \<and> m \<noteq> [] \<and> set m \<subseteq> set (AllowedFields k) \<and>
     (RequiresTotalMask k \<longrightarrow> set m = set (AllowedFields k))"
  by (auto simp: FieldMask_Validate_def list_ex_iff)

lemma FieldMask_Validate_error: "FieldMask_Validate m k = Inl e \<Longrightarrow> e = ErrValidation"
  by (auto simp: FieldMask_Validate_def split: if_splits)

lemma RequiresTotalMask_simps [simp]:
  "RequiresTotalMask OpBudgetSet" "RequiresTotalMask OpAttachmentAdd"
  "RequiresTotalMask OpCommentCreate" "RequiresTotalMask OpCommentDelete"
  by (simp_all add: RequiresTotalMask_def totalMaskKinds_def)

text \<open>A field mask is canonical: strictly ascending, without repetition, naming exactly the
  given fields, so two masks of the same fields are the same list.\<close>

theorem NewFieldMask_canonical:
  "sorted_wrt (<) (NewFieldMask fs) \<and> distinct (NewFieldMask fs) \<and> set (NewFieldMask fs) = set fs \<and>
   (set gs = set fs \<longrightarrow> NewFieldMask gs = NewFieldMask fs)"
  using sorted_NewFieldMask [of fs] NewFieldMask_cong [of gs fs]
  by (simp add: strict_sorted_iff)

theorem NewFieldMask_canonical_witness:
  "NewFieldMask [FieldTitle, FieldNotes, FieldTitle] = NewFieldMask [FieldNotes, FieldTitle]"
  using NewFieldMask_canonical [of "[FieldNotes, FieldTitle]" "[FieldTitle, FieldNotes, FieldTitle]"]
  by auto

text \<open>A mask is accepted exactly when its kind is known, it is not empty, it names only fields
  the kind allows and, for a kind applied whole (a budget write, an announced attachment, a
  comment), it names every one of them; the only error is the validation error.\<close>

theorem FieldMask_Validate_spec:
  "FieldMask_Validate m k =
     (if OpKind_Valid k \<and> m \<noteq> [] \<and> set m \<subseteq> set (AllowedFields k) \<and>
         (k \<in> {OpBudgetSet, OpAttachmentAdd, OpCommentCreate, OpCommentDelete}
            \<longrightarrow> set (AllowedFields k) \<subseteq> set m)
      then Inr () else Inl ErrValidation)"
  by (auto simp: FieldMask_Validate_def list_ex_iff RequiresTotalMask_def totalMaskKinds_def)

theorem FieldMask_Validate_spec_witness:
  "FieldMask_Validate [FieldAmountMinor] OpBudgetSet = Inl ErrValidation \<and>
   FieldMask_Validate [FieldTitle] OpSlotEdit = Inr ()"
  by (simp add: FieldMask_Validate_spec [of "[FieldAmountMinor]"] FieldMask_Validate_spec [of "[FieldTitle]"]
      OpKind_Valid_def opKinds_def AllowedFields_def)

end
