(* ===== verification/Itinerary.thy ===== *)
theory Itinerary
  imports Errors
begin

text \<open>Days, slots and wall-clock times (src/internal/domain/slot.go). A nullable Go field is an
  option; the enumerations \<^theory_text>\<open>SlotKind\<close> and \<^theory_text>\<open>SlotStatus\<close> are Go strings and stay strings, since a
  payload can carry any string into them.\<close>

section \<open>Times of day\<close>

record TimeOfDay =
  Hour :: int
  Minute :: int

definition Minutes :: "TimeOfDay \<Rightarrow> int" where
  "Minutes t = Hour t * 60 + Minute t"

definition TimeOfDay_Valid :: "TimeOfDay \<Rightarrow> bool" where
  "TimeOfDay_Valid t \<longleftrightarrow> Hour t \<ge> 0 \<and> Hour t \<le> 23 \<and> Minute t \<ge> 0 \<and> Minute t \<le> 59"

text \<open>\<^theory_text>\<open>time.Parse("15:04", s)\<close>: one or two digits of the hour (the second is taken whenever it is
  a digit), a colon, exactly two digits of the minute and nothing after them.\<close>

definition parseMinute :: "int \<Rightarrow> str \<Rightarrow> TimeOfDay res" where
  "parseMinute h rest =
     (case rest of
        [colon, m1, m2] \<Rightarrow>
          if colon = CHR '':'' \<and> isDecDigit m1 \<and> isDecDigit m2 \<and> h < 24 \<and> decVal m1 * 10 + decVal m2 < 60
          then Inr \<lparr>Hour = h, Minute = decVal m1 * 10 + decVal m2\<rparr>
          else Inl ErrValidation
      | _ \<Rightarrow> Inl ErrValidation)"

definition ParseTimeOfDay :: "str \<Rightarrow> TimeOfDay res" where
  "ParseTimeOfDay s =
     (case s of
        h1 # h2 # rest \<Rightarrow>
          if \<not> isDecDigit h1 then Inl ErrValidation
          else if isDecDigit h2 then parseMinute (decVal h1 * 10 + decVal h2) rest
          else parseMinute (decVal h1) (h2 # rest)
      | _ \<Rightarrow> Inl ErrValidation)"

text \<open>\<^theory_text>\<open>%02d\<close> of a number of at most two digits, the only ones a clock time has.\<close>

definition twoDigits :: "int \<Rightarrow> str" where
  "twoDigits n = [decDigit (nat n div 10), decDigit (nat n mod 10)]"

definition TimeOfDay_String :: "TimeOfDay \<Rightarrow> str" where
  "TimeOfDay_String t = twoDigits (Hour t) @ [CHR '':''] @ twoDigits (Minute t)"

section \<open>Positions\<close>

definition MaxPositionLength :: nat where
  "MaxPositionLength = 128"

definition validatePosition :: "str \<Rightarrow> str \<Rightarrow> FieldViolation list \<Rightarrow> FieldViolation list" where
  "validatePosition field position ve =
     (if position = [] then Add field ''required'' ve
      else if length position > MaxPositionLength then Add field ''too_long'' ve
      else ve)"

section \<open>Days\<close>

record Day =
  dID :: ID
  dTripID :: ID
  dDate :: "instant option"
  dLabel :: str
  dPosition :: str
  dVersion :: int
  dCreatedAt :: instant
  dUpdatedAt :: instant
  dDeletedAt :: "instant option"

definition Day_IsDeleted :: "Day \<Rightarrow> bool" where
  "Day_IsDeleted d = (dDeletedAt d \<noteq> None)"

definition Day_Validate :: "Day \<Rightarrow> unit res" where
  "Day_Validate d =
     OrNil (validatePosition ''position'' (dPosition d)
       (AddIf (RuneCountInString (dLabel d) > 100) ''label'' ''too_long''
       (AddIf (dTripID d = NilID) ''trip_id'' ''required'' [])))"

section \<open>Slots\<close>

type_synonym SlotKind = str
type_synonym SlotStatus = str

abbreviation "SlotKindPlace \<equiv> ''place''"
abbreviation "SlotKindActivity \<equiv> ''activity''"
abbreviation "SlotKindTransport \<equiv> ''transport''"
abbreviation "SlotKindLodging \<equiv> ''lodging''"
abbreviation "SlotKindNote \<equiv> ''note''"

definition SlotKind_Valid :: "SlotKind \<Rightarrow> bool" where
  "SlotKind_Valid k \<longleftrightarrow>
     k \<in> {SlotKindPlace, SlotKindActivity, SlotKindTransport, SlotKindLodging, SlotKindNote}"

abbreviation "SlotStatusPlanned \<equiv> ''planned''"
abbreviation "SlotStatusCovered \<equiv> ''covered''"
abbreviation "SlotStatusSkipped \<equiv> ''skipped''"

definition SlotStatus_Valid :: "SlotStatus \<Rightarrow> bool" where
  "SlotStatus_Valid s \<longleftrightarrow> s \<in> {SlotStatusPlanned, SlotStatusCovered, SlotStatusSkipped}"

record Slot =
  sID :: ID
  sTripID :: ID
  sDayID :: "ID option"
  sKind :: SlotKind
  sTitle :: str
  sNotes :: str
  sStartTime :: "TimeOfDay option"
  sEndTime :: "TimeOfDay option"
  sPosition :: str
  sSelectedOptionID :: "ID option"
  sStatus :: SlotStatus
  sStatusChangedAt :: "instant option"
  sStatusChangedBy :: "ID option"
  sCreatedBy :: "ID option"
  sVersion :: int
  sCreatedAt :: instant
  sUpdatedAt :: instant
  sDeletedAt :: "instant option"

definition Slot_IsDeleted :: "Slot \<Rightarrow> bool" where
  "Slot_IsDeleted s = (sDeletedAt s \<noteq> None)"

definition IsScheduled :: "Slot \<Rightarrow> bool" where
  "IsScheduled s = (sDayID s \<noteq> None)"

definition IsResolved :: "Slot \<Rightarrow> bool" where
  "IsResolved s = (sSelectedOptionID s \<noteq> None)"

text \<open>The title check that slots, options and (as label) budget entries share: trimmed, required,
  at most 200 runes.\<close>

definition validateTitle :: "str \<Rightarrow> str \<Rightarrow> FieldViolation list \<Rightarrow> FieldViolation list" where
  "validateTitle field raw ve =
     (let title = TrimSpace raw in
      if title = [] then Add field ''required'' ve
      else if RuneCountInString title > 200 then Add field ''too_long'' ve
      else ve)"

definition timeInvalid :: "TimeOfDay option \<Rightarrow> bool" where
  "timeInvalid t = (case t of None \<Rightarrow> False | Some x \<Rightarrow> \<not> TimeOfDay_Valid x)"

definition endsBeforeStart :: "TimeOfDay option \<Rightarrow> TimeOfDay option \<Rightarrow> bool" where
  "endsBeforeStart st en =
     (case (st, en) of
        (Some a, Some b) \<Rightarrow> TimeOfDay_Valid a \<and> TimeOfDay_Valid b \<and> Minutes b < Minutes a
      | _ \<Rightarrow> False)"

definition Slot_Validate :: "Slot \<Rightarrow> unit res" where
  "Slot_Validate s =
     (let ve = AddIf (sTripID s = NilID) ''trip_id'' ''required'' [];
          ve = AddIf (\<not> SlotKind_Valid (sKind s)) ''kind'' ''invalid_kind'' ve;
          ve = AddIf (\<not> SlotStatus_Valid (sStatus s)) ''status'' ''invalid_status'' ve;
          ve = validateTitle ''title'' (sTitle s) ve;
          ve = AddIf (RuneCountInString (sNotes s) > 10000) ''notes'' ''too_long'' ve;
          ve = AddIf (timeInvalid (sStartTime s)) ''start_time'' ''invalid_time'' ve;
          ve = AddIf (timeInvalid (sEndTime s)) ''end_time'' ''invalid_time'' ve;
          ve = AddIf (endsBeforeStart (sStartTime s) (sEndTime s)) ''end_time'' ''before_start'' ve;
          ve = validatePosition ''position'' (sPosition s) ve
      in OrNil ve)"

section \<open>Lemmas\<close>

lemma validatePosition_Nil [simp]:
  "validatePosition f p ve = [] \<longleftrightarrow> ve = [] \<and> p \<noteq> [] \<and> length p \<le> MaxPositionLength"
  by (auto simp: validatePosition_def)

lemma validateTitle_Nil [simp]:
  "validateTitle f t ve = [] \<longleftrightarrow> ve = [] \<and> TrimSpace t \<noteq> [] \<and> RuneCountInString (TrimSpace t) \<le> 200"
  by (auto simp: validateTitle_def Let_def)

lemma Day_Validate_iff [validate_simps]:
  "Day_Validate d = Inr () \<longleftrightarrow>
     dTripID d \<noteq> NilID \<and> RuneCountInString (dLabel d) \<le> 100 \<and>
     dPosition d \<noteq> [] \<and> length (dPosition d) \<le> 128"
  by (auto simp: Day_Validate_def MaxPositionLength_def)

lemma Slot_Validate_iff [validate_simps]:
  "Slot_Validate s = Inr () \<longleftrightarrow>
     sTripID s \<noteq> NilID \<and> SlotKind_Valid (sKind s) \<and> SlotStatus_Valid (sStatus s) \<and>
     TrimSpace (sTitle s) \<noteq> [] \<and> RuneCountInString (TrimSpace (sTitle s)) \<le> 200 \<and>
     RuneCountInString (sNotes s) \<le> 10000 \<and>
     \<not> timeInvalid (sStartTime s) \<and> \<not> timeInvalid (sEndTime s) \<and>
     \<not> endsBeforeStart (sStartTime s) (sEndTime s) \<and>
     sPosition s \<noteq> [] \<and> length (sPosition s) \<le> 128"
  by (auto simp: Slot_Validate_def Let_def MaxPositionLength_def)

lemma TimeOfDay_parse_valid: "ParseTimeOfDay s = Inr t \<Longrightarrow> TimeOfDay_Valid t"
  by (auto simp: ParseTimeOfDay_def parseMinute_def TimeOfDay_Valid_def decVal_def isDecDigit_def
      split: list.splits if_splits)

lemma TimeOfDay_roundtrip: "TimeOfDay_Valid t \<Longrightarrow> ParseTimeOfDay (TimeOfDay_String t) = Inr t"
proof -
  assume v: "TimeOfDay_Valid t"
  define h m where "h = nat (Hour t)" and "m = nat (Minute t)"
  have hm: "h < 24" "m < 60" "Hour t = int h" "Minute t = int m"
    using v by (auto simp: h_def m_def TimeOfDay_Valid_def)
  have "h div 10 < 10" "h mod 10 < 10" "m div 10 < 10" "m mod 10 < 10" using hm by auto
  moreover have "int (h div 10) * 10 + int (h mod 10) = int h"
    "int (m div 10) * 10 + int (m mod 10) = int m" by presburger+
  ultimately show ?thesis using hm
    by (simp add: ParseTimeOfDay_def parseMinute_def TimeOfDay_String_def twoDigits_def)
qed

text \<open>A wall-clock time that is parsed is a valid clock time, and rendering a valid one and
  parsing it again gives it back: what the log stores as text is read back unchanged.\<close>

theorem TimeOfDay_text_roundtrip:
  "(ParseTimeOfDay s = Inr t \<longrightarrow> TimeOfDay_Valid t) \<and>
   (TimeOfDay_Valid u \<longrightarrow> ParseTimeOfDay (TimeOfDay_String u) = Inr u)"
  using TimeOfDay_parse_valid TimeOfDay_roundtrip by blast

theorem TimeOfDay_text_roundtrip_witness:
  "ParseTimeOfDay ''9:30'' = Inr \<lparr>Hour = 9, Minute = 30\<rparr> \<and>
   ParseTimeOfDay (TimeOfDay_String \<lparr>Hour = 9, Minute = 30\<rparr>) = Inr \<lparr>Hour = 9, Minute = 30\<rparr>"
proof -
  have p: "ParseTimeOfDay ''9:30'' = Inr \<lparr>Hour = 9, Minute = 30\<rparr>" by code_simp
  have "TimeOfDay_Valid \<lparr>Hour = 9, Minute = 30\<rparr>" by code_simp
  with p show ?thesis
    using TimeOfDay_text_roundtrip [of "''9:30''" "\<lparr>Hour = 9, Minute = 30\<rparr>" "\<lparr>Hour = 9, Minute = 30\<rparr>"] by blast
qed

end
