(* ===== verification/Proposal.thy ===== *)
theory Proposal
  imports Itinerary
begin

text \<open>Slot options, votes, comments and the tally (src/internal/domain/option.go, comment.go). A
  \<^theory_text>\<open>float64\<close> coordinate is a rational: a stored coordinate came through JSON, which carries no
  NaN or infinity.\<close>

record Place =
  plName :: str
  plAddress :: str
  plLat :: "rat option"
  plLng :: "rat option"
  plProviderID :: str

definition HasCoordinates :: "Place \<Rightarrow> bool" where
  "HasCoordinates p \<longleftrightarrow> plLat p \<noteq> None \<and> plLng p \<noteq> None"

record SlotOption =
  oID :: ID
  oSlotID :: ID
  oTripID :: ID
  oTitle :: str
  oNotes :: str
  oExternalURL :: str
  oEstimatedCostMinor :: "int64 option"
  oPlace :: Place
  oProposedBy :: "ID option"
  oVersion :: int
  oCreatedAt :: instant
  oUpdatedAt :: instant
  oDeletedAt :: "instant option"

definition SlotOption_IsDeleted :: "SlotOption \<Rightarrow> bool" where
  "SlotOption_IsDeleted opt = (oDeletedAt opt \<noteq> None)"

definition outsideRange :: "rat \<Rightarrow> rat \<Rightarrow> rat option \<Rightarrow> bool" where
  "outsideRange lo hi v = (case v of None \<Rightarrow> False | Some x \<Rightarrow> x < lo \<or> x > hi)"

definition negativeAmount :: "int64 option \<Rightarrow> bool" where
  "negativeAmount a = (case a of None \<Rightarrow> False | Some x \<Rightarrow> sint x < 0)"

definition SlotOption_Validate :: "SlotOption \<Rightarrow> unit res" where
  "SlotOption_Validate opt =
     (let ve = AddIf (oSlotID opt = NilID) ''slot_id'' ''required'' [];
          ve = AddIf (oTripID opt = NilID) ''trip_id'' ''required'' ve;
          ve = validateTitle ''title'' (oTitle opt) ve;
          ve = AddIf (RuneCountInString (oNotes opt) > 10000) ''notes'' ''too_long'' ve;
          ve = AddIf (negativeAmount (oEstimatedCostMinor opt)) ''estimated_cost'' ''negative'' ve;
          ve = AddIf ((plLat (oPlace opt) = None) \<noteq> (plLng (oPlace opt) = None))
                 ''place'' ''incomplete_coordinates'' ve;
          ve = AddIf (outsideRange (-90) 90 (plLat (oPlace opt))) ''place.lat'' ''out_of_range'' ve;
          ve = AddIf (outsideRange (-180) 180 (plLng (oPlace opt))) ''place.lng'' ''out_of_range'' ve
      in OrNil ve)"

record Vote =
  vID :: ID
  vSlotID :: ID
  vTripID :: ID
  vUserID :: ID
  vOptionID :: "ID option"
  vVersion :: int
  vCreatedAt :: instant
  vUpdatedAt :: instant

definition IsRetracted :: "Vote \<Rightarrow> bool" where
  "IsRetracted v = (vOptionID v = None)"

definition Vote_Validate :: "Vote \<Rightarrow> unit res" where
  "Vote_Validate v =
     OrNil (AddIf (vUserID v = NilID) ''user_id'' ''required''
       (AddIf (vTripID v = NilID) ''trip_id'' ''required''
       (AddIf (vSlotID v = NilID) ''slot_id'' ''required'' [])))"

record Comment =
  cID :: ID
  cSlotID :: ID
  cTripID :: ID
  cBody :: str
  cAuthorID :: "ID option"
  cCreatedAt :: instant
  cUpdatedAt :: instant
  cDeletedAt :: "instant option"

definition MaxCommentBodyLength :: nat where
  "MaxCommentBodyLength = 4000"

definition Comment_IsDeleted :: "Comment \<Rightarrow> bool" where
  "Comment_IsDeleted c = (cDeletedAt c \<noteq> None)"

definition Comment_Validate :: "Comment \<Rightarrow> unit res" where
  "Comment_Validate c =
     (let ve = AddIf (cSlotID c = NilID) ''slot_id'' ''required'' [];
          ve = AddIf (cTripID c = NilID) ''trip_id'' ''required'' ve;
          len = RuneCountInString (cBody c);
          ve = AddIf (len = 0) ''body'' ''required'' ve;
          ve = AddIf (len > MaxCommentBodyLength) ''body'' ''too_long'' ve
      in OrNil ve)"

section \<open>The tally\<close>

record VoteTally =
  tOptionID :: ID
  tCount :: int

definition Leaders :: "VoteTally list \<Rightarrow> ID list \<times> int" where
  "Leaders tallies =
     (let best = foldl (\<lambda>b t. if tCount t > b then tCount t else b) 0 tallies in
      if best = 0 then ([], 0)
      else (map tOptionID (filter (\<lambda>t. tCount t = best) tallies), best))"

section \<open>Lemmas\<close>

lemma SlotOption_Validate_iff [validate_simps]:
  "SlotOption_Validate opt = Inr () \<longleftrightarrow>
     oSlotID opt \<noteq> NilID \<and> oTripID opt \<noteq> NilID \<and>
     TrimSpace (oTitle opt) \<noteq> [] \<and> RuneCountInString (TrimSpace (oTitle opt)) \<le> 200 \<and>
     RuneCountInString (oNotes opt) \<le> 10000 \<and>
     \<not> negativeAmount (oEstimatedCostMinor opt) \<and>
     (plLat (oPlace opt) = None \<longleftrightarrow> plLng (oPlace opt) = None) \<and>
     \<not> outsideRange (-90) 90 (plLat (oPlace opt)) \<and> \<not> outsideRange (-180) 180 (plLng (oPlace opt))"
  by (auto simp: SlotOption_Validate_def Let_def)

lemma Vote_Validate_iff [validate_simps]:
  "Vote_Validate v = Inr () \<longleftrightarrow> vSlotID v \<noteq> NilID \<and> vTripID v \<noteq> NilID \<and> vUserID v \<noteq> NilID"
  by (auto simp: Vote_Validate_def)

lemma Comment_Validate_iff [validate_simps]:
  "Comment_Validate c = Inr () \<longleftrightarrow>
     cSlotID c \<noteq> NilID \<and> cTripID c \<noteq> NilID \<and> 0 < RuneCountInString (cBody c) \<and>
     RuneCountInString (cBody c) \<le> 4000"
  by (auto simp: Comment_Validate_def Let_def MaxCommentBodyLength_def)

lemma foldl_best:
  "foldl (\<lambda>b t. if tCount t > b then tCount t else b) b0 ts = Max (insert b0 (tCount ` set ts))"
proof (induction ts arbitrary: b0)
  case (Cons t ts)
  show ?case
  proof (cases "ts = []")
    case False
    then have "Max (insert b0 (insert (tCount t) (tCount ` set ts)))
        = max (max b0 (tCount t)) (Max (tCount ` set ts))"
      by (simp add: max.assoc)
    moreover have "Max (insert (if b0 < tCount t then tCount t else b0) (tCount ` set ts))
        = max (max b0 (tCount t)) (Max (tCount ` set ts))"
      using False by (simp add: max_def)
    ultimately show ?thesis by (simp add: Cons.IH)
  qed (simp add: max_def)
qed simp

lemma Leaders_best:
  "snd (Leaders ts) = Max (insert 0 (tCount ` set ts))"
  by (simp add: Leaders_def foldl_best Let_def)

text \<open>The leaders of a tally are exactly the options with the highest count, all of them when
  they tie, in tally order; with no positive count there is no leader.\<close>

theorem Leaders_spec:
  "Leaders ts =
     (let best = Max (insert 0 (tCount ` set ts)) in
      (map tOptionID (filter (\<lambda>t. 0 < tCount t \<and> (\<forall>u \<in> set ts. tCount u \<le> tCount t)) ts), best))"
proof -
  define best where "best = Max (insert 0 (tCount ` set ts))"
  have le: "\<And>u. u \<in> set ts \<Longrightarrow> tCount u \<le> best" and ge: "0 \<le> best"
    by (simp_all add: best_def)
  have mem: "best = 0 \<or> best \<in> tCount ` set ts"
    using Max_in [of "insert 0 (tCount ` set ts)"] by (auto simp: best_def)
  have "(0 < tCount t \<and> (\<forall>u \<in> set ts. tCount u \<le> tCount t)) \<longleftrightarrow> best \<noteq> 0 \<and> tCount t = best"
    if "t \<in> set ts" for t
    using le [OF that] ge mem le by (auto intro: antisym)
  then have "filter (\<lambda>t. 0 < tCount t \<and> (\<forall>u \<in> set ts. tCount u \<le> tCount t)) ts =
      filter (\<lambda>t. best \<noteq> 0 \<and> tCount t = best) ts"
    by (intro filter_cong) auto
  then show ?thesis
    by (simp add: Leaders_def foldl_best Let_def best_def [symmetric])
qed

theorem Leaders_spec_witness:
  "Leaders [\<lparr>tOptionID = 1, tCount = 2\<rparr>, \<lparr>tOptionID = 2, tCount = 3\<rparr>, \<lparr>tOptionID = 3, tCount = 3\<rparr>] = ([2, 3], 3)"
  by (simp add: Leaders_spec)

end
