(* ===== verification/Ledger.thy ===== *)
theory Ledger
  imports Proposal "HOL-Library.Multiset"
begin

text \<open>The budget (src/internal/domain/budget.go): entries, splits, the sum invariant and the even
  split. Amounts are \<^theory_text>\<open>int64\<close>, modelled as 64-bit words read by \<^theory_text>\<open>sint\<close>: \<^theory_text>\<open>+\<close> wraps around as in Go.\<close>

type_synonym BudgetCategory = str

abbreviation "BudgetCategoryLodging \<equiv> ''lodging''"
abbreviation "BudgetCategoryTransport \<equiv> ''transport''"
abbreviation "BudgetCategoryFood \<equiv> ''food''"
abbreviation "BudgetCategoryActivity \<equiv> ''activity''"
abbreviation "BudgetCategoryShopping \<equiv> ''shopping''"
abbreviation "BudgetCategoryOther \<equiv> ''other''"

definition BudgetCategory_Valid :: "BudgetCategory \<Rightarrow> bool" where
  "BudgetCategory_Valid c \<longleftrightarrow>
     c \<in> {BudgetCategoryLodging, BudgetCategoryTransport, BudgetCategoryFood,
          BudgetCategoryActivity, BudgetCategoryShopping, BudgetCategoryOther}"

record BudgetSplit =
  bsID :: ID
  bsUserID :: ID
  bsAmountMinor :: int64
  bsCreatedAt :: instant

record BudgetEntry =
  bID :: ID
  bTripID :: ID
  bSlotOptionID :: "ID option"
  bLabel :: str
  bCategory :: BudgetCategory
  bAmountMinor :: int64
  bPaidBy :: "ID option"
  bIncurredOn :: "instant option"
  bSplits :: "BudgetSplit list"
  bCreatedBy :: "ID option"
  bVersion :: int
  bCreatedAt :: instant
  bUpdatedAt :: instant
  bDeletedAt :: "instant option"

definition BudgetEntry_IsDeleted :: "BudgetEntry \<Rightarrow> bool" where
  "BudgetEntry_IsDeleted e = (bDeletedAt e \<noteq> None)"

definition SplitTotal :: "BudgetEntry \<Rightarrow> int64" where
  "SplitTotal e = foldl (\<lambda>total s. total + bsAmountMinor s) 0 (bSplits e)"

definition IsSplit :: "BudgetEntry \<Rightarrow> bool" where
  "IsSplit e \<longleftrightarrow> length (bSplits e) > 0"

text \<open>The loop over the splits of \<^theory_text>\<open>Validate\<close>, with the set of users already seen.\<close>

fun validateSplits :: "BudgetSplit list \<Rightarrow> ID set \<Rightarrow> FieldViolation list \<Rightarrow> FieldViolation list" where
  "validateSplits [] seen ve = ve"
| "validateSplits (s # ss) seen ve =
     (let ve = AddIf (sint (bsAmountMinor s) < 0) ''splits'' ''negative'' ve;
          ve = AddIf (bsUserID s = NilID) ''splits'' ''missing_user'' ve;
          ve = AddIf (bsUserID s \<in> seen) ''splits'' ''duplicate_member'' ve
      in validateSplits ss (insert (bsUserID s) seen) ve)"

definition BudgetEntry_Validate :: "BudgetEntry \<Rightarrow> unit res" where
  "BudgetEntry_Validate e =
     (let ve = AddIf (bTripID e = NilID) ''trip_id'' ''required'' [];
          ve = AddIf (\<not> BudgetCategory_Valid (bCategory e)) ''category'' ''invalid_category'' ve;
          ve = validateTitle ''label'' (bLabel e) ve;
          ve = AddIf (sint (bAmountMinor e) < 0) ''amount'' ''negative'' ve;
          ve = validateSplits (bSplits e) {} ve;
          ve = AddIf (IsSplit e \<and> SplitTotal e \<noteq> bAmountMinor e) ''splits'' ''sum_mismatch'' ve
      in OrNil ve)"

text \<open>\<^theory_text>\<open>SplitEvenly\<close>: the identifiers \<^theory_text>\<open>NewID()\<close> gives to the splits are the parameter \<^theory_text>\<open>newID\<close>, by
  the index of the member. Go's \<^theory_text>\<open>/\<close> and \<^theory_text>\<open>%\<close> agree with \<^theory_text>\<open>div\<close> and \<^theory_text>\<open>mod\<close> on the non-negative
  amounts that reach them.\<close>

definition SplitEvenly :: "(nat \<Rightarrow> ID) \<Rightarrow> int64 \<Rightarrow> ID list \<Rightarrow> BudgetSplit list" where
  "SplitEvenly newID amountMinor members =
     (if members = [] \<or> sint amountMinor < 0 then []
      else
        let n = int (length members);
            base = sint amountMinor div n;
            remainder = sint amountMinor mod n
        in map (\<lambda>(i, userID).
                 \<lparr>bsID = newID i, bsUserID = userID,
                  bsAmountMinor = (let share = word_of_int base :: int64 in
                                   if int i < remainder then share + 1 else share),
                  bsCreatedAt = zeroTime\<rparr>)
             (enumerate 0 members))"

section \<open>The sum and its overflow\<close>

lemma foldl_plus_eq: "foldl (\<lambda>t s. t + f s) a ss = a + sum_list (map f ss)" for a :: int64
  by (induction ss arbitrary: a) (simp_all add: add.assoc)

lemma SplitTotal_eq: "SplitTotal e = sum_list (map bsAmountMinor (bSplits e))"
  by (simp add: SplitTotal_def foldl_plus_eq)

lemma sum_list_word_of_int:
  "sum_list (map f ss) = (word_of_int (sum_list (map (\<lambda>s. sint (f s)) ss)) :: int64)"
  by (induction ss) simp_all

lemma sint_word_of_int_small: "0 \<le> k \<Longrightarrow> k < 2 ^ 63 \<Longrightarrow> sint (word_of_int k :: int64) = k"
  by (simp add: sint_sbintrunc' signed_take_bit_int_eq_self)

lemma sum_list_sint_exact:
  assumes "- (2 ^ 63) \<le> sum_list (map (\<lambda>s. sint (f s)) ss)" "sum_list (map (\<lambda>s. sint (f s)) ss) < 2 ^ 63"
  shows "sint (sum_list (map f ss) :: int64) = sum_list (map (\<lambda>s. sint (f s)) ss)"
  unfolding sum_list_word_of_int using assms
  by (simp add: sint_sbintrunc' signed_take_bit_int_eq_self)

definition splitUsers :: "BudgetEntry \<Rightarrow> ID list" where
  "splitUsers e = map bsUserID (bSplits e)"

lemma validateSplits_Nil:
  "validateSplits ss seen ve = [] \<longleftrightarrow>
     ve = [] \<and> (\<forall>s \<in> set ss. 0 \<le> sint (bsAmountMinor s) \<and> bsUserID s \<noteq> NilID \<and> bsUserID s \<notin> seen) \<and>
     distinct (map bsUserID ss)"
proof (induction ss arbitrary: seen ve)
  case (Cons s ss)
  have "bsUserID s \<notin> bsUserID ` set ss \<longleftrightarrow> (\<forall>t \<in> set ss. bsUserID t \<noteq> bsUserID s)"
    by (metis image_iff)
  then show ?case by (simp add: Let_def not_less Cons.IH) blast
qed simp

lemma BudgetEntry_Validate_iff [validate_simps]:
  "BudgetEntry_Validate e = Inr () \<longleftrightarrow>
     bTripID e \<noteq> NilID \<and> BudgetCategory_Valid (bCategory e) \<and>
     TrimSpace (bLabel e) \<noteq> [] \<and> RuneCountInString (TrimSpace (bLabel e)) \<le> 200 \<and>
     0 \<le> sint (bAmountMinor e) \<and>
     (\<forall>s \<in> set (bSplits e). 0 \<le> sint (bsAmountMinor s) \<and> bsUserID s \<noteq> NilID) \<and>
     distinct (map bsUserID (bSplits e)) \<and>
     (bSplits e \<noteq> [] \<longrightarrow> SplitTotal e = bAmountMinor e)"
  by (auto simp: BudgetEntry_Validate_def Let_def validateSplits_Nil IsSplit_def)

text \<open>The mathematical sum of the splits, without wrap-around.\<close>

definition trueTotal :: "BudgetEntry \<Rightarrow> int" where
  "trueTotal e = sum_list (map (\<lambda>s. sint (bsAmountMinor s)) (bSplits e))"

lemma SplitTotal_exact:
  "- (2 ^ 63) \<le> trueTotal e \<Longrightarrow> trueTotal e < 2 ^ 63 \<Longrightarrow> sint (SplitTotal e) = trueTotal e"
  unfolding SplitTotal_eq trueTotal_def by (rule sum_list_sint_exact)

lemma SplitTotal_mod: "SplitTotal e = word_of_int (trueTotal e)"
  unfolding SplitTotal_eq trueTotal_def by (rule sum_list_word_of_int)

section \<open>The even split\<close>

lemma sum_base_remainder:
  "sum_list (map (\<lambda>i. b + (if int i < r then 1 else 0)) [0..<n]) = int n * b + min (max r 0) (int n)" for b r :: int
  by (induction n) (auto simp: algebra_simps)

lemma SplitEvenly_amount:
  assumes "i < length members" "0 \<le> sint a"
  shows "sint (bsAmountMinor (SplitEvenly newID a members ! i)) =
    sint a div int (length members) + (if int i < sint a mod int (length members) then 1 else 0)"
proof -
  let ?n = "int (length members)" and ?b = "sint a div int (length members)"
  have n: "0 < ?n" using assms(1) by linarith
  have a: "sint a < 2 ^ 63" using sint_lt [of a] by simp
  have b: "0 \<le> ?b" using assms(2) n by (simp add: pos_imp_zdiv_nonneg_iff)
  have e: "sint a = ?n * ?b + sint a mod ?n" by simp
  have m: "?b \<le> ?n * ?b" using mult_right_mono [of 1 ?n ?b] n b by linarith
  have r: "0 \<le> sint a mod ?n" using n by simp
  have bound: "?b + (if int i < sint a mod ?n then 1 else 0) < 2 ^ 63"
  proof -
    have "?b + sint a mod ?n \<le> sint a" using e m by linarith
    then show ?thesis using a r by (auto split: if_splits)
  qed
  have "bsAmountMinor (SplitEvenly newID a members ! i) =
      word_of_int (?b + (if int i < sint a mod ?n then 1 else 0))"
    using assms by (auto simp: SplitEvenly_def Let_def nth_enumerate_eq)
  then show ?thesis using b bound by (simp only:) (rule sint_word_of_int_small; auto)
qed

lemma length_SplitEvenly [simp]:
  "members \<noteq> [] \<Longrightarrow> 0 \<le> sint a \<Longrightarrow> length (SplitEvenly newID a members) = length members"
  by (simp add: SplitEvenly_def Let_def)

lemma SplitEvenly_users:
  "members \<noteq> [] \<Longrightarrow> 0 \<le> sint a \<Longrightarrow> map bsUserID (SplitEvenly newID a members) = members"
  by (rule nth_equalityI) (auto simp: SplitEvenly_def Let_def nth_enumerate_eq)

lemma SplitEvenly_sum:
  assumes "members \<noteq> []" "0 \<le> sint a"
  shows "sum_list (map (\<lambda>s. sint (bsAmountMinor s)) (SplitEvenly newID a members)) = sint a"
proof -
  let ?n = "int (length members)" and ?ss = "SplitEvenly newID a members"
  have n: "0 < ?n" using assms(1) by simp
  have "map (\<lambda>s. sint (bsAmountMinor s)) ?ss =
      map (\<lambda>i. sint a div ?n + (if int i < sint a mod ?n then 1 else 0)) [0..<length members]"
    by (rule nth_equalityI) (use assms in \<open>auto simp: SplitEvenly_amount\<close>)
  then have "sum_list (map (\<lambda>s. sint (bsAmountMinor s)) ?ss) =
      ?n * (sint a div ?n) + min (max (sint a mod ?n) 0) ?n"
    by (simp only: sum_base_remainder)
  also have "min (max (sint a mod ?n) 0) ?n = sint a mod ?n"
    using n pos_mod_bound [of ?n "sint a"] pos_mod_sign [of ?n "sint a"] by linarith
  finally show ?thesis by simp
qed

text \<open>C40: an even split gives every member one share in the given order, the shares sum exactly to
  the amount without wrapping around, none is negative, two shares differ by at most one unit, and
  the members holding the extra unit are the first ones.\<close>

theorem SplitEvenly_fair:
  assumes "members \<noteq> []" "0 \<le> sint amount"
  shows "map bsUserID (SplitEvenly newID amount members) = members \<and>
    sum_list (map (\<lambda>s. sint (bsAmountMinor s)) (SplitEvenly newID amount members)) = sint amount \<and>
    (\<forall>i < length members.
       sint (bsAmountMinor (SplitEvenly newID amount members ! i)) =
         sint amount div int (length members) +
           (if int i < sint amount mod int (length members) then 1 else 0))"
  using assms SplitEvenly_users SplitEvenly_sum SplitEvenly_amount by blast

theorem SplitEvenly_fair_witness:
  "sum_list (map (\<lambda>s. sint (bsAmountMinor s)) (SplitEvenly (\<lambda>_. 0) 1000 [1, 2, 3])) = 1000 \<and>
   sint (bsAmountMinor (SplitEvenly (\<lambda>_. 0) 1000 [1, 2, 3] ! 0)) = 334"
proof -
  have f: "sint (1000 :: int64) = 1000" by simp
  then have s: "sum_list (map (\<lambda>s. sint (bsAmountMinor s)) (SplitEvenly (\<lambda>_. 0) 1000 [1, 2, 3])) = 1000 \<and>
    (\<forall>i < 3. sint (bsAmountMinor (SplitEvenly (\<lambda>_. 0) 1000 [1, 2, 3] ! i)) =
       1000 div 3 + (if int i < 1000 mod 3 then 1 else 0))"
    using SplitEvenly_fair [of "[1, 2, 3]" 1000 "\<lambda>_. 0"] by simp
  then show ?thesis by (auto dest: spec [of _ 0])
qed

text \<open>An accepted entry has a valid category, a non-negative total, distinct members with
  non-negative shares, and, whenever the true sum of its shares fits in 64 bits, shares that sum
  exactly to the total: the ledger's invariant.\<close>

theorem BudgetEntry_sum_invariant:
  assumes "BudgetEntry_Validate e = Inr ()" "bSplits e \<noteq> []"
  shows "distinct (map bsUserID (bSplits e)) \<and> (\<forall>s \<in> set (bSplits e). 0 \<le> sint (bsAmountMinor s)) \<and>
    (trueTotal e < 2 ^ 63 \<longrightarrow> trueTotal e = sint (bAmountMinor e)) \<and>
    trueTotal e mod 2 ^ 64 = sint (bAmountMinor e)"
proof -
  note v = assms(1) [unfolded BudgetEntry_Validate_iff]
  have s: "\<forall>s \<in> set (bSplits e). 0 \<le> sint (bsAmountMinor s)" and t: "SplitTotal e = bAmountMinor e"
    using v assms(2) by auto
  have nn: "0 \<le> trueTotal e"
    using s by (auto simp: trueTotal_def intro!: sum_list_nonneg)
  have "uint (bAmountMinor e) = trueTotal e mod 2 ^ 64"
    unfolding t [symmetric] SplitTotal_mod by (simp add: uint_word_of_int)
  moreover have "uint (bAmountMinor e) = sint (bAmountMinor e)"
    using v sint_lt [of "bAmountMinor e"] uint_word_of_int [of "sint (bAmountMinor e)", where 'a = 64]
    by simp
  ultimately show ?thesis
    using v s t nn SplitTotal_exact [of e] by auto
qed

definition sampleEntry :: "int64 \<Rightarrow> BudgetSplit list \<Rightarrow> BudgetEntry" where
  "sampleEntry amount splits =
     \<lparr>bID = 1, bTripID = 2, bSlotOptionID = None, bLabel = ''dinner'', bCategory = ''food'',
      bAmountMinor = amount, bPaidBy = None, bIncurredOn = None, bSplits = splits,
      bCreatedBy = None, bVersion = 1, bCreatedAt = 0, bUpdatedAt = 0, bDeletedAt = None\<rparr>"

definition sampleSplit :: "ID \<Rightarrow> int64 \<Rightarrow> BudgetSplit" where
  "sampleSplit user amount = \<lparr>bsID = user, bsUserID = user, bsAmountMinor = amount, bsCreatedAt = 0\<rparr>"

lemma sampleEntry_valid_base:
  "bTripID (sampleEntry a ss) \<noteq> NilID" "BudgetCategory_Valid (bCategory (sampleEntry a ss))"
  "TrimSpace (bLabel (sampleEntry a ss)) \<noteq> []"
  "RuneCountInString (TrimSpace (bLabel (sampleEntry a ss))) \<le> 200"
  "bSplits (sampleEntry a ss) = ss" "bAmountMinor (sampleEntry a ss) = a"
proof -
  have t: "TrimSpace ''dinner'' = ''dinner''" by (rule TrimSpace_ascii) (simp_all add: isSpaceRune_def)
  have r: "RuneCountInString ''dinner'' \<le> length ''dinner''" by (rule RuneCount_le_length)
  show "bTripID (sampleEntry a ss) \<noteq> NilID" "BudgetCategory_Valid (bCategory (sampleEntry a ss))"
    "TrimSpace (bLabel (sampleEntry a ss)) \<noteq> []"
    "RuneCountInString (TrimSpace (bLabel (sampleEntry a ss))) \<le> 200"
    "bSplits (sampleEntry a ss) = ss" "bAmountMinor (sampleEntry a ss) = a"
    using t r by (simp_all add: sampleEntry_def NilID_def BudgetCategory_Valid_def)
qed

lemma sampleEntry_Validate:
  "BudgetEntry_Validate (sampleEntry a ss) = Inr () \<longleftrightarrow>
     0 \<le> sint a \<and> (\<forall>s \<in> set ss. 0 \<le> sint (bsAmountMinor s) \<and> bsUserID s \<noteq> NilID) \<and>
     distinct (map bsUserID ss) \<and> (ss \<noteq> [] \<longrightarrow> sum_list (map bsAmountMinor ss) = a)"
  by (simp add: BudgetEntry_Validate_iff sampleEntry_valid_base SplitTotal_eq)

theorem BudgetEntry_sum_invariant_witness:
  "trueTotal (sampleEntry 10 [sampleSplit 1 4, sampleSplit 2 6]) mod 2 ^ 64 = 10"
proof -
  let ?e = "sampleEntry 10 [sampleSplit 1 4, sampleSplit 2 6]"
  have "BudgetEntry_Validate ?e = Inr ()"
    by (simp add: sampleEntry_Validate sampleSplit_def NilID_def)
  then have "trueTotal ?e mod 2 ^ 64 = sint (bAmountMinor ?e)"
    using BudgetEntry_sum_invariant [of ?e] by (simp add: sampleEntry_valid_base)
  then show ?thesis by (simp add: sampleEntry_valid_base)
qed

text \<open>The sum of the splits wraps around, so an entry of total zero whose three shares are
  9223372036854775807, 9223372036854775807 and 2 minor units is accepted by \<^theory_text>\<open>Validate\<close>, though
  its shares do not sum to its total.\<close>

theorem BudgetEntry_sum_overflow:
  "let e = sampleEntry 0 [sampleSplit 1 9223372036854775807, sampleSplit 2 9223372036854775807,
                          sampleSplit 3 2] in
   BudgetEntry_Validate e = Inr () \<and> trueTotal e = 18446744073709551616"
  by (simp add: sampleEntry_Validate sampleSplit_def NilID_def trueTotal_def sampleEntry_valid_base)

end
