(* ===== verification/Attachments.thy ===== *)
theory Attachments
  imports Ledger
begin

text \<open>Attachments (src/internal/domain/attachment.go): the kinds, the upload states, the single
  owner and the validity rule of each kind.\<close>

type_synonym AttachmentKind = str
type_synonym AttachmentStatus = str

abbreviation "AttachmentKindFile \<equiv> ''file''"
abbreviation "AttachmentKindLink \<equiv> ''link''"
abbreviation "AttachmentStatusPending \<equiv> ''pending''"
abbreviation "AttachmentStatusReady \<equiv> ''ready''"
abbreviation "AttachmentStatusFailed \<equiv> ''failed''"

definition AttachmentKind_Valid :: "AttachmentKind \<Rightarrow> bool" where
  "AttachmentKind_Valid k \<longleftrightarrow> k = AttachmentKindFile \<or> k = AttachmentKindLink"

definition AttachmentStatus_Valid :: "AttachmentStatus \<Rightarrow> bool" where
  "AttachmentStatus_Valid s \<longleftrightarrow>
     s \<in> {AttachmentStatusPending, AttachmentStatusReady, AttachmentStatusFailed}"

definition MaxAttachmentBytes :: int where
  "MaxAttachmentBytes = 25 * 2 ^ 20"

record Attachment =
  atID :: ID
  atTripID :: ID
  atSlotOptionID :: "ID option"
  atBudgetEntryID :: "ID option"
  atSlotID :: "ID option"
  atKind :: AttachmentKind
  atStatus :: AttachmentStatus
  atStorageKey :: str
  atExternalURL :: str
  atContentType :: str
  atSizeBytes :: "int64 option"
  atChecksumSHA256 :: str
  atOriginalName :: str
  atUploadedBy :: "ID option"
  atCreatedAt :: instant
  atUpdatedAt :: instant
  atDeletedAt :: "instant option"

definition OwnerCount :: "Attachment \<Rightarrow> nat" where
  "OwnerCount a =
     length (filter (\<lambda>i. i \<noteq> None) [atSlotOptionID a, atBudgetEntryID a, atSlotID a])"

definition IsReady :: "Attachment \<Rightarrow> bool" where
  "IsReady a = (atStatus a = AttachmentStatusReady)"

definition Attachment_IsDeleted :: "Attachment \<Rightarrow> bool" where
  "Attachment_IsDeleted a = (atDeletedAt a \<noteq> None)"

definition tooLarge :: "int64 option \<Rightarrow> bool" where
  "tooLarge n = (case n of None \<Rightarrow> False | Some x \<Rightarrow> sint x > MaxAttachmentBytes)"

definition Attachment_Validate :: "Attachment \<Rightarrow> unit res" where
  "Attachment_Validate a =
     (let ve = AddIf (atTripID a = NilID) ''trip_id'' ''required'' [];
          ve = AddIf (\<not> AttachmentKind_Valid (atKind a)) ''kind'' ''invalid_kind'' ve;
          ve = AddIf (\<not> AttachmentStatus_Valid (atStatus a)) ''status'' ''invalid_status'' ve;
          ve = AddIf (OwnerCount a \<noteq> 1) ''owner'' ''exactly_one_required'' ve;
          ve = (if atKind a = AttachmentKindFile then
                  AddIf (atExternalURL a \<noteq> []) ''external_url'' ''not_allowed''
                    (AddIf (atStorageKey a = []) ''storage_key'' ''required'' ve)
                else if atKind a = AttachmentKindLink then
                  AddIf (atStatus a \<noteq> AttachmentStatusReady) ''status'' ''invalid_status''
                    (AddIf (atStorageKey a \<noteq> []) ''storage_key'' ''not_allowed''
                    (AddIf (TrimSpace (atExternalURL a) = []) ''external_url'' ''required'' ve))
                else ve);
          ve = AddIf (RuneCountInString (atOriginalName a) > 255) ''original_name'' ''too_long'' ve;
          ve = AddIf (negativeAmount (atSizeBytes a)) ''size_bytes'' ''negative'' ve;
          ve = AddIf (tooLarge (atSizeBytes a)) ''size_bytes'' ''too_large'' ve;
          ve = AddIf (length (atChecksumSHA256 a) \<noteq> 0 \<and> length (atChecksumSHA256 a) \<noteq> 32)
                 ''checksum'' ''invalid_length'' ve
      in OrNil ve)"

lemma OwnerCount_one:
  "OwnerCount a = 1 \<longleftrightarrow>
     (\<exists>i. (atSlotOptionID a, atBudgetEntryID a, atSlotID a) \<in>
        {(Some i, None, None), (None, Some i, None), (None, None, Some i)})"
  by (auto simp: OwnerCount_def)

lemma Attachment_Validate_iff [validate_simps]:
  "Attachment_Validate a = Inr () \<longleftrightarrow>
     atTripID a \<noteq> NilID \<and> AttachmentStatus_Valid (atStatus a) \<and> OwnerCount a = 1 \<and>
     (atKind a = AttachmentKindFile \<and> atStorageKey a \<noteq> [] \<and> atExternalURL a = [] \<or>
      atKind a = AttachmentKindLink \<and> TrimSpace (atExternalURL a) \<noteq> [] \<and> atStorageKey a = [] \<and>
        atStatus a = AttachmentStatusReady) \<and>
     RuneCountInString (atOriginalName a) \<le> 255 \<and> \<not> negativeAmount (atSizeBytes a) \<and>
     \<not> tooLarge (atSizeBytes a) \<and> length (atChecksumSHA256 a) \<in> {0, 32}"
  by (auto simp: Attachment_Validate_def Let_def AttachmentKind_Valid_def)

end
