(* ===== verification/Payload.thy ===== *)
theory Payload
  imports OpVocab Attachments
begin

text \<open>Operations and their payloads (the middle of src/internal/domain/op.go): the projection of
  each entity into its wire fields, the payload built from the persisted entity and the decoding
  of single fields.

  A \<^theory_text>\<open>json.RawMessage\<close> is its decoded value. A \<^theory_text>\<open>time.Time\<close> marshals to an RFC 3339 text, kept as
  \<^theory_text>\<open>JTime\<close> of the instant; no field of the vocabulary decodes that text as anything but a time.
  Numbers are rationals: every payload was written by \<^theory_text>\<open>json.Marshal\<close>, which writes a whole number of the
  \<^theory_text>\<open>int64\<close> range without a fraction or an exponent, so the value of a number says whether it decodes into an
  integer. Numbers a client writes keep their text (Engine). \<^theory_text>\<open>Op.Payload\<close>, a byte slice, is \<^theory_text>\<open>None\<close> when the bytes are not the JSON
  of a payload. The texts of identifiers come from the parameters \<^theory_text>\<open>us\<close> (\<^theory_text>\<open>uuid.String\<close>) and \<^theory_text>\<open>up\<close>
  (\<^theory_text>\<open>uuid.Parse\<close>).\<close>

datatype json =
    JNull
  | JNum rat
  | JStr str
  | JTime instant
  | JArr "json list"
  | JObj "(str \<times> json) list"

type_synonym fieldMap = "str \<Rightarrow> json option"

record OpPayload =
  pFields :: fieldMap
  pVersion :: int
  pUpdatedAt :: instant

record Op =
  opID :: ID
  opTripID :: ID
  opSeq :: int
  opActorID :: "ID option"
  opKind :: OpKind
  opEntityID :: ID
  opFields :: FieldMask
  opPayload :: "OpPayload option"
  opClientOpID :: "ID option"
  opCauseOpID :: "ID option"
  opCreatedAt :: instant

definition errDecode :: error where "errDecode = ErrOther ''decode''"

definition PayloadFields :: "Op \<Rightarrow> fieldMap res" where
  "PayloadFields op = (case opPayload op of None \<Rightarrow> Inl errDecode | Some p \<Rightarrow> Inr (pFields p))"

definition PayloadVersion :: "Op \<Rightarrow> int res" where
  "PayloadVersion op = (case opPayload op of None \<Rightarrow> Inl errDecode | Some p \<Rightarrow> Inr (pVersion p))"

section \<open>Encoding: always from the persisted entity\<close>

fun encodeFields :: "fieldMap \<Rightarrow> FieldMask \<Rightarrow> fieldMap \<Rightarrow> fieldMap res" where
  "encodeFields values [] acc = Inr acc"
| "encodeFields values (f # msk) acc =
     (case values f of
        None \<Rightarrow> Inl (ErrOther ''no encoder'')
      | Some raw \<Rightarrow> encodeFields values msk (acc(f \<mapsto> raw)))"

definition buildPayload :: "fieldMap \<Rightarrow> FieldMask \<Rightarrow> int \<Rightarrow> instant \<Rightarrow> OpPayload res" where
  "buildPayload values msk version updatedAt =
     bindR (encodeFields values msk Map.empty) (\<lambda>fields.
       Inr \<lparr>pFields = fields, pVersion = version, pUpdatedAt = updatedAt\<rparr>)"

definition jopt :: "('a \<Rightarrow> json) \<Rightarrow> 'a option \<Rightarrow> json" where
  "jopt enc v = (case v of None \<Rightarrow> JNull | Some x \<Rightarrow> enc x)"

definition idPtrString :: "(ID \<Rightarrow> str) \<Rightarrow> ID option \<Rightarrow> json" where
  "idPtrString us = jopt (\<lambda>i. JStr (us i))"

definition timeOfDayString :: "TimeOfDay option \<Rightarrow> json" where
  "timeOfDayString = jopt (\<lambda>t. JStr (TimeOfDay_String t))"

definition jtime :: "instant option \<Rightarrow> json" where
  "jtime = jopt JTime"

definition jint :: "int64 \<Rightarrow> json" where
  "jint x = JNum (of_int (sint x))"

definition SlotValues :: "(ID \<Rightarrow> str) \<Rightarrow> Slot \<Rightarrow> fieldMap" where
  "SlotValues us s = map_of
     [(FieldDayID, idPtrString us (sDayID s)),
      (FieldKind, JStr (sKind s)),
      (FieldTitle, JStr (sTitle s)),
      (FieldNotes, JStr (sNotes s)),
      (FieldStartTime, timeOfDayString (sStartTime s)),
      (FieldEndTime, timeOfDayString (sEndTime s)),
      (FieldPosition, JStr (sPosition s)),
      (FieldSelectedOptionID, idPtrString us (sSelectedOptionID s)),
      (FieldStatus, JStr (sStatus s)),
      (FieldStatusChangedAt, jtime (sStatusChangedAt s)),
      (FieldStatusChangedBy, idPtrString us (sStatusChangedBy s)),
      (FieldDeletedAt, jtime (sDeletedAt s))]"

definition SlotPayload :: "(ID \<Rightarrow> str) \<Rightarrow> Slot \<Rightarrow> FieldMask \<Rightarrow> OpPayload res" where
  "SlotPayload us s msk = buildPayload (SlotValues us s) msk (sVersion s) (sUpdatedAt s)"

definition OptionValues :: "(ID \<Rightarrow> str) \<Rightarrow> SlotOption \<Rightarrow> fieldMap" where
  "OptionValues us opt = map_of
     [(FieldSlotID, JStr (us (oSlotID opt))),
      (FieldTitle, JStr (oTitle opt)),
      (FieldNotes, JStr (oNotes opt)),
      (FieldExternalURL, JStr (oExternalURL opt)),
      (FieldEstimatedCost, jopt jint (oEstimatedCostMinor opt)),
      (FieldPlaceName, JStr (plName (oPlace opt))),
      (FieldPlaceAddress, JStr (plAddress (oPlace opt))),
      (FieldPlaceLat, jopt JNum (plLat (oPlace opt))),
      (FieldPlaceLng, jopt JNum (plLng (oPlace opt))),
      (FieldPlaceProviderID, JStr (plProviderID (oPlace opt))),
      (FieldDeletedAt, jtime (oDeletedAt opt))]"

definition OptionPayload :: "(ID \<Rightarrow> str) \<Rightarrow> SlotOption \<Rightarrow> FieldMask \<Rightarrow> OpPayload res" where
  "OptionPayload us opt msk = buildPayload (OptionValues us opt) msk (oVersion opt) (oUpdatedAt opt)"

definition VoteValues :: "(ID \<Rightarrow> str) \<Rightarrow> Vote \<Rightarrow> fieldMap" where
  "VoteValues us v = map_of
     [(FieldSlotID, JStr (us (vSlotID v))),
      (FieldUserID, JStr (us (vUserID v))),
      (FieldOptionID, idPtrString us (vOptionID v))]"

definition VotePayload :: "(ID \<Rightarrow> str) \<Rightarrow> Vote \<Rightarrow> FieldMask \<Rightarrow> OpPayload res" where
  "VotePayload us v msk = buildPayload (VoteValues us v) msk (vVersion v) (vUpdatedAt v)"

text \<open>The wire shape of one split, and the split set in the order of the user texts. Equal user
  texts do not occur in a stored entry, so the (unstable) sort of the source is determined.\<close>

type_synonym SplitValue = "str \<times> int64"

definition splitValues :: "(ID \<Rightarrow> str) \<Rightarrow> BudgetSplit list \<Rightarrow> SplitValue list" where
  "splitValues us splits = sort_key fst (map (\<lambda>s. (us (bsUserID s), bsAmountMinor s)) splits)"

definition encodeSplit :: "SplitValue \<Rightarrow> json" where
  "encodeSplit sv = JObj [(''user_id'', JStr (fst sv)), (''amount_minor'', jint (snd sv))]"

definition BudgetValues :: "(ID \<Rightarrow> str) \<Rightarrow> BudgetEntry \<Rightarrow> fieldMap" where
  "BudgetValues us e = map_of
     [(FieldLabel, JStr (bLabel e)),
      (FieldCategory, JStr (bCategory e)),
      (FieldAmountMinor, jint (bAmountMinor e)),
      (FieldSlotOptionID, idPtrString us (bSlotOptionID e)),
      (FieldPaidBy, idPtrString us (bPaidBy e)),
      (FieldIncurredOn, jtime (bIncurredOn e)),
      (FieldSplits, JArr (map encodeSplit (splitValues us (bSplits e)))),
      (FieldDeletedAt, jtime (bDeletedAt e))]"

definition BudgetPayload :: "(ID \<Rightarrow> str) \<Rightarrow> BudgetEntry \<Rightarrow> FieldMask \<Rightarrow> OpPayload res" where
  "BudgetPayload us e msk = buildPayload (BudgetValues us e) msk (bVersion e) (bUpdatedAt e)"

definition AttachmentValues :: "(ID \<Rightarrow> str) \<Rightarrow> Attachment \<Rightarrow> fieldMap" where
  "AttachmentValues us a = map_of
     [(FieldKind, JStr (atKind a)),
      (FieldStatus, JStr (atStatus a)),
      (FieldStorageKey, JStr (atStorageKey a)),
      (FieldExternalURL, JStr (atExternalURL a)),
      (FieldContentType, JStr (atContentType a)),
      (FieldSizeBytes, jopt jint (atSizeBytes a)),
      (FieldOriginalName, JStr (atOriginalName a)),
      (FieldSlotOptionID, idPtrString us (atSlotOptionID a)),
      (FieldBudgetEntryID, idPtrString us (atBudgetEntryID a)),
      (FieldSlotID, idPtrString us (atSlotID a)),
      (FieldUploadedBy, idPtrString us (atUploadedBy a)),
      (FieldDeletedAt, jtime (atDeletedAt a))]"

definition AttachmentPayload :: "(ID \<Rightarrow> str) \<Rightarrow> Attachment \<Rightarrow> FieldMask \<Rightarrow> OpPayload res" where
  "AttachmentPayload us a msk = buildPayload (AttachmentValues us a) msk 0 (atUpdatedAt a)"

definition CommentValues :: "(ID \<Rightarrow> str) \<Rightarrow> Comment \<Rightarrow> fieldMap" where
  "CommentValues us c = map_of
     [(FieldSlotID, JStr (us (cSlotID c))),
      (FieldBody, JStr (cBody c)),
      (FieldDeletedAt, jtime (cDeletedAt c))]"

definition CommentPayload :: "(ID \<Rightarrow> str) \<Rightarrow> Comment \<Rightarrow> FieldMask \<Rightarrow> OpPayload res" where
  "CommentPayload us c msk = buildPayload (CommentValues us c) msk 0 (cUpdatedAt c)"

definition DayValues :: "Day \<Rightarrow> fieldMap" where
  "DayValues d = map_of
     [(FieldDate, jtime (dDate d)),
      (FieldLabel, JStr (dLabel d)),
      (FieldPosition, JStr (dPosition d)),
      (FieldDeletedAt, jtime (dDeletedAt d))]"

definition DayPayload :: "Day \<Rightarrow> FieldMask \<Rightarrow> OpPayload res" where
  "DayPayload d msk = buildPayload (DayValues d) msk (dVersion d) (dUpdatedAt d)"

section \<open>Decoding single values\<close>

text \<open>\<^theory_text>\<open>json.Unmarshal\<close> into a string or \<^theory_text>\<open>int64\<close> variable: \<^theory_text>\<open>null\<close> leaves the variable as it was.\<close>

definition unmarshalString :: "json \<Rightarrow> str \<Rightarrow> str res" where
  "unmarshalString j old = (case j of JNull \<Rightarrow> Inr old | JStr s \<Rightarrow> Inr s | _ \<Rightarrow> Inl errDecode)"

definition ratInt64 :: "rat \<Rightarrow> int64 res" where
  "ratInt64 q =
     (if of_int \<lfloor>q\<rfloor> = q \<and> - (2 ^ 63) \<le> \<lfloor>q\<rfloor> \<and> \<lfloor>q\<rfloor> < 2 ^ 63
      then Inr (word_of_int \<lfloor>q\<rfloor>) else Inl errDecode)"

definition unmarshalInt64 :: "json \<Rightarrow> int64 \<Rightarrow> int64 res" where
  "unmarshalInt64 j old = (case j of JNull \<Rightarrow> Inr old | JNum q \<Rightarrow> ratInt64 q | _ \<Rightarrow> Inl errDecode)"

text \<open>Into a nil pointer variable: \<^theory_text>\<open>null\<close> keeps it nil.\<close>

definition decodeInt64Ptr :: "json \<Rightarrow> int64 option res" where
  "decodeInt64Ptr j =
     (case j of JNull \<Rightarrow> Inr None | JNum q \<Rightarrow> bindR (ratInt64 q) (\<lambda>x. Inr (Some x)) | _ \<Rightarrow> Inl errDecode)"

definition decodeTime :: "json \<Rightarrow> instant res" where
  "decodeTime j = (case j of JTime t \<Rightarrow> Inr t | _ \<Rightarrow> Inl errDecode)"

definition decodeFloat :: "json \<Rightarrow> rat res" where
  "decodeFloat j = (case j of JNum q \<Rightarrow> Inr q | _ \<Rightarrow> Inl errDecode)"

definition decodeIDPtr :: "(str \<Rightarrow> ID option) \<Rightarrow> str \<Rightarrow> json \<Rightarrow> ID option res" where
  "decodeIDPtr up name j =
     (case j of
        JNull \<Rightarrow> Inr None
      | JStr s \<Rightarrow> bindR (ParseID up name s) (\<lambda>i. Inr (Some i))
      | _ \<Rightarrow> Inl errDecode)"

definition decodeTimeOfDay :: "json \<Rightarrow> TimeOfDay option res" where
  "decodeTimeOfDay j =
     (case j of
        JNull \<Rightarrow> Inr None
      | JStr s \<Rightarrow> bindR (ParseTimeOfDay s) (\<lambda>t. Inr (Some t))
      | _ \<Rightarrow> Inl errDecode)"

text \<open>One split: a missing key leaves the zero value of its member.\<close>

definition decodeSplit :: "json \<Rightarrow> SplitValue res" where
  "decodeSplit j =
     (case j of
        JNull \<Rightarrow> Inr ([], 0)
      | JObj kvs \<Rightarrow>
          bindR (case map_of kvs ''user_id'' of None \<Rightarrow> Inr [] | Some v \<Rightarrow> unmarshalString v []) (\<lambda>u.
          bindR (case map_of kvs ''amount_minor'' of None \<Rightarrow> Inr 0 | Some v \<Rightarrow> unmarshalInt64 v 0) (\<lambda>a.
            Inr (u, a)))
      | _ \<Rightarrow> Inl errDecode)"

fun mapR :: "('a \<Rightarrow> 'b res) \<Rightarrow> 'a list \<Rightarrow> 'b list res" where
  "mapR f [] = Inr []"
| "mapR f (x # xs) = bindR (f x) (\<lambda>y. bindR (mapR f xs) (\<lambda>ys. Inr (y # ys)))"

text \<open>The split set: decoded, then each user text parsed into a fresh split.\<close>

definition parseSplit :: "(str \<Rightarrow> ID option) \<Rightarrow> SplitValue \<Rightarrow> BudgetSplit res" where
  "parseSplit up sv =
     bindR (ParseID up FieldSplits (fst sv)) (\<lambda>u.
       Inr \<lparr>bsID = NilID, bsUserID = u, bsAmountMinor = snd sv, bsCreatedAt = zeroTime\<rparr>)"

definition decodeSplits :: "(str \<Rightarrow> ID option) \<Rightarrow> json \<Rightarrow> BudgetSplit list res" where
  "decodeSplits up j =
     (case j of
        JNull \<Rightarrow> Inr []
      | JArr xs \<Rightarrow> bindR (mapR decodeSplit xs) (\<lambda>svs. mapR (parseSplit up) svs)
      | _ \<Rightarrow> Inl errDecode)"

section \<open>Lemmas\<close>

text \<open>What is assumed of the third-party identifier texts: parsing the text of an identifier gives
  the identifier back.\<close>

definition uuidText :: "(ID \<Rightarrow> str) \<Rightarrow> (str \<Rightarrow> ID option) \<Rightarrow> bool" where
  "uuidText us up \<longleftrightarrow> (\<forall>i. up (us i) = Some i)"

lemma encodeFields_ok:
  "set msk \<subseteq> dom values \<Longrightarrow> encodeFields values msk acc = Inr (acc ++ (values |` set msk))"
proof (induction msk arbitrary: acc)
  case (Cons f msk)
  then obtain raw where raw: "values f = Some raw" by auto
  have "acc(f \<mapsto> raw) ++ (values |` set msk) = acc ++ (values |` insert f (set msk))"
    using raw by (auto simp: map_add_def restrict_map_def fun_eq_iff split: option.splits)
  then show ?case using Cons raw by simp
qed simp

lemma encodeFields_error:
  "\<not> set msk \<subseteq> dom values \<Longrightarrow> \<exists>e. encodeFields values msk acc = Inl e"
  by (induction msk arbitrary: acc) (auto split: option.splits)

lemma buildPayload_ok:
  "set msk \<subseteq> dom values \<Longrightarrow>
     buildPayload values msk v u = Inr \<lparr>pFields = values |` set msk, pVersion = v, pUpdatedAt = u\<rparr>"
  by (simp add: buildPayload_def encodeFields_ok)

lemma buildPayload_eq:
  "buildPayload values msk v u = Inr p \<longleftrightarrow>
     set msk \<subseteq> dom values \<and> p = \<lparr>pFields = values |` set msk, pVersion = v, pUpdatedAt = u\<rparr>"
proof (cases "set msk \<subseteq> dom values")
  case False
  then show ?thesis using encodeFields_error [OF False, of Map.empty] by (auto simp: buildPayload_def)
qed (auto simp: buildPayload_ok)

lemmas payload_defs = SlotPayload_def OptionPayload_def VotePayload_def BudgetPayload_def
  AttachmentPayload_def CommentPayload_def DayPayload_def

lemmas values_defs = SlotValues_def OptionValues_def VoteValues_def BudgetValues_def
  AttachmentValues_def CommentValues_def DayValues_def

lemma SlotValues_fields:
  "SlotValues us s FieldDayID = Some (idPtrString us (sDayID s))"
  "SlotValues us s FieldKind = Some (JStr (sKind s))"
  "SlotValues us s FieldTitle = Some (JStr (sTitle s))"
  "SlotValues us s FieldNotes = Some (JStr (sNotes s))"
  "SlotValues us s FieldStartTime = Some (timeOfDayString (sStartTime s))"
  "SlotValues us s FieldEndTime = Some (timeOfDayString (sEndTime s))"
  "SlotValues us s FieldPosition = Some (JStr (sPosition s))"
  "SlotValues us s FieldSelectedOptionID = Some (idPtrString us (sSelectedOptionID s))"
  "SlotValues us s FieldStatus = Some (JStr (sStatus s))"
  "SlotValues us s FieldStatusChangedAt = Some (jtime (sStatusChangedAt s))"
  "SlotValues us s FieldStatusChangedBy = Some (idPtrString us (sStatusChangedBy s))"
  "SlotValues us s FieldDeletedAt = Some (jtime (sDeletedAt s))"
  "dom (SlotValues us s) = {FieldDayID, FieldKind, FieldTitle, FieldNotes, FieldStartTime, FieldEndTime, FieldPosition, FieldSelectedOptionID, FieldStatus, FieldStatusChangedAt, FieldStatusChangedBy, FieldDeletedAt}"
  by (auto simp: SlotValues_def)

lemma OptionValues_fields:
  "OptionValues us opt FieldSlotID = Some (JStr (us (oSlotID opt)))"
  "OptionValues us opt FieldTitle = Some (JStr (oTitle opt))"
  "OptionValues us opt FieldNotes = Some (JStr (oNotes opt))"
  "OptionValues us opt FieldExternalURL = Some (JStr (oExternalURL opt))"
  "OptionValues us opt FieldEstimatedCost = Some (jopt jint (oEstimatedCostMinor opt))"
  "OptionValues us opt FieldPlaceName = Some (JStr (plName (oPlace opt)))"
  "OptionValues us opt FieldPlaceAddress = Some (JStr (plAddress (oPlace opt)))"
  "OptionValues us opt FieldPlaceLat = Some (jopt JNum (plLat (oPlace opt)))"
  "OptionValues us opt FieldPlaceLng = Some (jopt JNum (plLng (oPlace opt)))"
  "OptionValues us opt FieldPlaceProviderID = Some (JStr (plProviderID (oPlace opt)))"
  "OptionValues us opt FieldDeletedAt = Some (jtime (oDeletedAt opt))"
  "dom (OptionValues us opt) = {FieldSlotID, FieldTitle, FieldNotes, FieldExternalURL, FieldEstimatedCost, FieldPlaceName, FieldPlaceAddress, FieldPlaceLat, FieldPlaceLng, FieldPlaceProviderID, FieldDeletedAt}"
  by (auto simp: OptionValues_def)

lemma VoteValues_fields:
  "VoteValues us v FieldSlotID = Some (JStr (us (vSlotID v)))"
  "VoteValues us v FieldUserID = Some (JStr (us (vUserID v)))"
  "VoteValues us v FieldOptionID = Some (idPtrString us (vOptionID v))"
  "dom (VoteValues us v) = {FieldSlotID, FieldUserID, FieldOptionID}"
  by (auto simp: VoteValues_def)

lemma BudgetValues_fields:
  "BudgetValues us e FieldLabel = Some (JStr (bLabel e))"
  "BudgetValues us e FieldCategory = Some (JStr (bCategory e))"
  "BudgetValues us e FieldAmountMinor = Some (jint (bAmountMinor e))"
  "BudgetValues us e FieldSlotOptionID = Some (idPtrString us (bSlotOptionID e))"
  "BudgetValues us e FieldPaidBy = Some (idPtrString us (bPaidBy e))"
  "BudgetValues us e FieldIncurredOn = Some (jtime (bIncurredOn e))"
  "BudgetValues us e FieldSplits = Some (JArr (map encodeSplit (splitValues us (bSplits e))))"
  "BudgetValues us e FieldDeletedAt = Some (jtime (bDeletedAt e))"
  "dom (BudgetValues us e) = {FieldLabel, FieldCategory, FieldAmountMinor, FieldSlotOptionID, FieldPaidBy, FieldIncurredOn, FieldSplits, FieldDeletedAt}"
  by (auto simp: BudgetValues_def)

lemma AttachmentValues_fields:
  "AttachmentValues us a FieldKind = Some (JStr (atKind a))"
  "AttachmentValues us a FieldStatus = Some (JStr (atStatus a))"
  "AttachmentValues us a FieldStorageKey = Some (JStr (atStorageKey a))"
  "AttachmentValues us a FieldExternalURL = Some (JStr (atExternalURL a))"
  "AttachmentValues us a FieldContentType = Some (JStr (atContentType a))"
  "AttachmentValues us a FieldSizeBytes = Some (jopt jint (atSizeBytes a))"
  "AttachmentValues us a FieldOriginalName = Some (JStr (atOriginalName a))"
  "AttachmentValues us a FieldSlotOptionID = Some (idPtrString us (atSlotOptionID a))"
  "AttachmentValues us a FieldBudgetEntryID = Some (idPtrString us (atBudgetEntryID a))"
  "AttachmentValues us a FieldSlotID = Some (idPtrString us (atSlotID a))"
  "AttachmentValues us a FieldUploadedBy = Some (idPtrString us (atUploadedBy a))"
  "AttachmentValues us a FieldDeletedAt = Some (jtime (atDeletedAt a))"
  "dom (AttachmentValues us a) = {FieldKind, FieldStatus, FieldStorageKey, FieldExternalURL, FieldContentType, FieldSizeBytes, FieldOriginalName, FieldSlotOptionID, FieldBudgetEntryID, FieldSlotID, FieldUploadedBy, FieldDeletedAt}"
  by (auto simp: AttachmentValues_def)

lemma CommentValues_fields:
  "CommentValues us c FieldSlotID = Some (JStr (us (cSlotID c)))"
  "CommentValues us c FieldBody = Some (JStr (cBody c))"
  "CommentValues us c FieldDeletedAt = Some (jtime (cDeletedAt c))"
  "dom (CommentValues us c) = {FieldSlotID, FieldBody, FieldDeletedAt}"
  by (auto simp: CommentValues_def)

lemma DayValues_fields:
  "DayValues d FieldDate = Some (jtime (dDate d))"
  "DayValues d FieldLabel = Some (JStr (dLabel d))"
  "DayValues d FieldPosition = Some (JStr (dPosition d))"
  "DayValues d FieldDeletedAt = Some (jtime (dDeletedAt d))"
  "dom (DayValues d) = {FieldDate, FieldLabel, FieldPosition, FieldDeletedAt}"
  by (auto simp: DayValues_def)

lemma decodeIDPtr_text:
  "uuidText us up \<Longrightarrow> decodeIDPtr up name (idPtrString us v) = Inr v"
  by (cases v) (simp_all add: decodeIDPtr_def idPtrString_def jopt_def ParseID_def uuidText_def)

lemma decodeIDPtr_JStr:
  "uuidText us up \<Longrightarrow> decodeIDPtr up name (JStr (us i)) = Inr (Some i)"
  by (simp add: decodeIDPtr_def ParseID_def uuidText_def)

lemma decodeTimeOfDay_text:
  "\<not> timeInvalid t \<Longrightarrow> decodeTimeOfDay (timeOfDayString t) = Inr t"
  by (cases t) (simp_all add: decodeTimeOfDay_def timeOfDayString_def jopt_def timeInvalid_def TimeOfDay_roundtrip)

lemma ratInt64_of_int:
  "- (2 ^ 63) \<le> k \<Longrightarrow> k < 2 ^ 63 \<Longrightarrow> ratInt64 (of_int k) = Inr (word_of_int k)"
  by (simp add: ratInt64_def)

lemma ratInt64_sint [simp]: "ratInt64 (signed (x :: int64)) = Inr x"
  using sint_ge [of x] sint_lt [of x] ratInt64_of_int [of "sint x"] by simp

lemma unmarshalInt64_jint [simp]: "unmarshalInt64 (jint x) old = Inr x"
  by (simp add: unmarshalInt64_def jint_def)

lemma decodeInt64Ptr_jint [simp]: "decodeInt64Ptr (jopt jint v) = Inr v"
  by (cases v) (simp_all add: decodeInt64Ptr_def jint_def jopt_def)

lemma unmarshalString_JStr [simp]: "unmarshalString (JStr s) old = Inr s"
  by (simp add: unmarshalString_def)

lemma decodeSplit_encodeSplit [simp]: "decodeSplit (encodeSplit sv) = Inr sv"
  by (simp add: decodeSplit_def encodeSplit_def)

lemma mapR_map_ok: "(\<And>x. x \<in> set xs \<Longrightarrow> f (g x) = Inr (h x)) \<Longrightarrow> mapR f (map g xs) = Inr (map h xs)"
  by (induction xs) simp_all

text \<open>What a replica keeps of a split set: the users and their shares, in the order of the texts.\<close>

definition wireSplits :: "(ID \<Rightarrow> str) \<Rightarrow> BudgetSplit list \<Rightarrow> BudgetSplit list" where
  "wireSplits us splits =
     map (\<lambda>s. \<lparr>bsID = NilID, bsUserID = bsUserID s, bsAmountMinor = bsAmountMinor s, bsCreatedAt = zeroTime\<rparr>)
       (sort_key (\<lambda>s. us (bsUserID s)) splits)"

lemma insort_key_map: "insort_key f (g x) (map g xs) = map g (insort_key (\<lambda>y. f (g y)) x xs)"
  by (induction xs) simp_all

lemma sort_key_map: "sort_key f (map g xs) = map g (sort_key (\<lambda>y. f (g y)) xs)"
  by (induction xs) (simp_all add: insort_key_map)

lemma splitValues_eq:
  "splitValues us splits = map (\<lambda>s. (us (bsUserID s), bsAmountMinor s)) (sort_key (\<lambda>s. us (bsUserID s)) splits)"
  by (simp add: splitValues_def sort_key_map)

lemma decodeSplits_text:
  assumes "uuidText us up"
  shows "decodeSplits up (JArr (map encodeSplit (splitValues us splits))) = Inr (wireSplits us splits)"
proof -
  have "mapR decodeSplit (map encodeSplit (splitValues us splits)) = Inr (splitValues us splits)"
    using mapR_map_ok [of "splitValues us splits" decodeSplit encodeSplit "\<lambda>x. x"] by simp
  moreover have "mapR (parseSplit up) (splitValues us splits) = Inr (wireSplits us splits)"
    unfolding splitValues_eq wireSplits_def using assms
    by (intro mapR_map_ok) (simp add: parseSplit_def ParseID_def uuidText_def)
  ultimately show ?thesis by (simp add: decodeSplits_def)
qed

lemma splitValues_wireSplits: "splitValues us (wireSplits us splits) = splitValues us splits"
proof -
  have "sort_key (\<lambda>s. us (bsUserID s)) (wireSplits us splits) = wireSplits us splits"
    by (rule sort_key_id_if_sorted) (simp add: wireSplits_def comp_def)
  then show ?thesis unfolding splitValues_eq by (simp add: wireSplits_def comp_def)
qed

end
