(* ===== verification/Replica.thy ===== *)
theory Replica
  imports Payload
begin

text \<open>The reference fold of an operation log (the end of src/internal/domain/op.go): \<^theory_text>\<open>Replica\<close>,
  \<^theory_text>\<open>Apply\<close> with its seven \<^theory_text>\<open>apply\<close> functions, and \<^theory_text>\<open>Fold\<close>.

  Each \<^theory_text>\<open>apply\<close> function is a sequence of field steps over a frame: the entity being written (the
  map holds a pointer to it, so what a failing call has written stays), the string variable
  \<^theory_text>\<open>str\<close> that several fields are decoded into, and the pointer variable (\<^theory_text>\<open>ts\<close>, \<^theory_text>\<open>coord\<close>) that two
  fields share. \<^theory_text>\<open>json.Unmarshal\<close> into a pointer variable that is not nil writes through it: the
  field assigned before then changes with it, which is what \<^theory_text>\<open>through\<close> does.\<close>

type_synonym ('e, 'v) frame = "'e \<times> str \<times> 'v option"
type_synonym ('e, 'v) fieldStep = "('e, 'v) frame \<Rightarrow> error option \<times> ('e, 'v) frame"

fun runSteps :: "('e, 'v) fieldStep list \<Rightarrow> ('e, 'v) frame \<Rightarrow> error option \<times> ('e, 'v) frame" where
  "runSteps [] fr = (None, fr)"
| "runSteps (s # ss) fr =
     (case s fr of
        (Some e, fr') \<Rightarrow> (Some e, fr')
      | (None, fr') \<Rightarrow> runSteps ss fr')"

text \<open>\<^theory_text>\<open>decodeInto(fields, name, &str)\<close> and the assignment of the shared string.\<close>

definition stepStr :: "fieldMap \<Rightarrow> str \<Rightarrow> (str \<Rightarrow> 'e \<Rightarrow> 'e) \<Rightarrow> ('e, 'v) fieldStep" where
  "stepStr flds name put = (\<lambda>(e, s, p).
     case flds name of
       None \<Rightarrow> (None, (e, s, p))
     | Some raw \<Rightarrow>
         (case unmarshalString raw s of
            Inl err \<Rightarrow> (Some err, (e, s, p))
          | Inr s' \<Rightarrow> (None, (put s' e, s', p))))"

text \<open>A field decoded into a variable of its own.\<close>

definition stepVal :: "fieldMap \<Rightarrow> str \<Rightarrow> (json \<Rightarrow> 'w res) \<Rightarrow> ('w \<Rightarrow> 'e \<Rightarrow> 'e) \<Rightarrow> ('e, 'v) fieldStep" where
  "stepVal flds name dec put = (\<lambda>(e, s, p).
     case flds name of
       None \<Rightarrow> (None, (e, s, p))
     | Some raw \<Rightarrow>
         (case dec raw of
            Inl err \<Rightarrow> (Some err, (e, s, p))
          | Inr v \<Rightarrow> (None, (put v e, s, p))))"

text \<open>A field decoded into the shared pointer variable.\<close>

definition stepPtr ::
  "fieldMap \<Rightarrow> str \<Rightarrow> (json \<Rightarrow> 'v res) \<Rightarrow> ('v option \<Rightarrow> 'e \<Rightarrow> 'e) \<Rightarrow> ('v option \<Rightarrow> 'e \<Rightarrow> 'e) \<Rightarrow> ('e, 'v) fieldStep"
where
  "stepPtr flds name dec put through = (\<lambda>(e, s, p).
     case flds name of
       None \<Rightarrow> (None, (e, s, p))
     | Some JNull \<Rightarrow> (None, (put None e, s, None))
     | Some raw \<Rightarrow>
         (case dec raw of
            Inl err \<Rightarrow> (Some err, (e, s, p))
          | Inr v \<Rightarrow>
              (let e' = (if p = None then e else through (Some v) e) in
               (None, (put (Some v) e', s, Some v)))))"

definition putSome :: "('w \<Rightarrow> 'e \<Rightarrow> 'e) \<Rightarrow> 'w option \<Rightarrow> 'e \<Rightarrow> 'e" where
  "putSome put v e = (case v of None \<Rightarrow> e | Some x \<Rightarrow> put x e)"

section \<open>The field steps of each entity\<close>

definition slotSteps :: "(str \<Rightarrow> ID option) \<Rightarrow> fieldMap \<Rightarrow> (Slot, instant) fieldStep list" where
  "slotSteps up flds =
     [stepVal flds FieldDayID (decodeIDPtr up FieldDayID) (\<lambda>v s. s\<lparr>sDayID := v\<rparr>),
      stepStr flds FieldKind (\<lambda>v s. s\<lparr>sKind := v\<rparr>),
      stepStr flds FieldTitle (\<lambda>v s. s\<lparr>sTitle := v\<rparr>),
      stepStr flds FieldNotes (\<lambda>v s. s\<lparr>sNotes := v\<rparr>),
      stepStr flds FieldPosition (\<lambda>v s. s\<lparr>sPosition := v\<rparr>),
      stepStr flds FieldStatus (\<lambda>v s. s\<lparr>sStatus := v\<rparr>),
      stepVal flds FieldStartTime decodeTimeOfDay (\<lambda>v s. s\<lparr>sStartTime := v\<rparr>),
      stepVal flds FieldEndTime decodeTimeOfDay (\<lambda>v s. s\<lparr>sEndTime := v\<rparr>),
      stepVal flds FieldSelectedOptionID (decodeIDPtr up FieldSelectedOptionID)
        (\<lambda>v s. s\<lparr>sSelectedOptionID := v\<rparr>),
      stepVal flds FieldStatusChangedBy (decodeIDPtr up FieldStatusChangedBy)
        (\<lambda>v s. s\<lparr>sStatusChangedBy := v\<rparr>),
      stepPtr flds FieldStatusChangedAt decodeTime (\<lambda>v s. s\<lparr>sStatusChangedAt := v\<rparr>) (\<lambda>v s. s),
      stepPtr flds FieldDeletedAt decodeTime (\<lambda>v s. s\<lparr>sDeletedAt := v\<rparr>)
        (\<lambda>v s. s\<lparr>sStatusChangedAt := v\<rparr>)]"

definition optionSteps :: "(str \<Rightarrow> ID option) \<Rightarrow> fieldMap \<Rightarrow> (SlotOption, rat) fieldStep list" where
  "optionSteps up flds =
     [stepVal flds FieldSlotID (decodeIDPtr up FieldSlotID) (putSome (\<lambda>v opt. opt\<lparr>oSlotID := v\<rparr>)),
      stepStr flds FieldTitle (\<lambda>v opt. opt\<lparr>oTitle := v\<rparr>),
      stepStr flds FieldNotes (\<lambda>v opt. opt\<lparr>oNotes := v\<rparr>),
      stepStr flds FieldExternalURL (\<lambda>v opt. opt\<lparr>oExternalURL := v\<rparr>),
      stepStr flds FieldPlaceName (\<lambda>v opt. opt\<lparr>oPlace := (oPlace opt)\<lparr>plName := v\<rparr>\<rparr>),
      stepStr flds FieldPlaceAddress (\<lambda>v opt. opt\<lparr>oPlace := (oPlace opt)\<lparr>plAddress := v\<rparr>\<rparr>),
      stepStr flds FieldPlaceProviderID (\<lambda>v opt. opt\<lparr>oPlace := (oPlace opt)\<lparr>plProviderID := v\<rparr>\<rparr>),
      stepVal flds FieldEstimatedCost decodeInt64Ptr (\<lambda>v opt. opt\<lparr>oEstimatedCostMinor := v\<rparr>),
      stepPtr flds FieldPlaceLat decodeFloat
        (\<lambda>v opt. opt\<lparr>oPlace := (oPlace opt)\<lparr>plLat := v\<rparr>\<rparr>) (\<lambda>v opt. opt),
      stepPtr flds FieldPlaceLng decodeFloat
        (\<lambda>v opt. opt\<lparr>oPlace := (oPlace opt)\<lparr>plLng := v\<rparr>\<rparr>)
        (\<lambda>v opt. opt\<lparr>oPlace := (oPlace opt)\<lparr>plLat := v\<rparr>\<rparr>),
      stepVal flds FieldDeletedAt (\<lambda>j. case j of JNull \<Rightarrow> Inr None | _ \<Rightarrow> bindR (decodeTime j) (\<lambda>t. Inr (Some t)))
        (\<lambda>v opt. opt\<lparr>oDeletedAt := v\<rparr>)]"

definition voteSteps :: "(str \<Rightarrow> ID option) \<Rightarrow> fieldMap \<Rightarrow> (Vote, instant) fieldStep list" where
  "voteSteps up flds =
     [stepVal flds FieldSlotID (decodeIDPtr up FieldSlotID) (putSome (\<lambda>i v. v\<lparr>vSlotID := i\<rparr>)),
      stepVal flds FieldUserID (decodeIDPtr up FieldUserID) (putSome (\<lambda>i v. v\<lparr>vUserID := i\<rparr>)),
      stepVal flds FieldOptionID (decodeIDPtr up FieldOptionID) (\<lambda>i v. v\<lparr>vOptionID := i\<rparr>)]"

definition budgetSteps :: "(str \<Rightarrow> ID option) \<Rightarrow> fieldMap \<Rightarrow> (BudgetEntry, instant) fieldStep list" where
  "budgetSteps up flds =
     [stepStr flds FieldLabel (\<lambda>v e. e\<lparr>bLabel := v\<rparr>),
      stepStr flds FieldCategory (\<lambda>v e. e\<lparr>bCategory := v\<rparr>),
      stepVal flds FieldAmountMinor (\<lambda>j. unmarshalInt64 j 0) (\<lambda>v e. e\<lparr>bAmountMinor := v\<rparr>),
      stepVal flds FieldSlotOptionID (decodeIDPtr up FieldSlotOptionID) (\<lambda>v e. e\<lparr>bSlotOptionID := v\<rparr>),
      stepVal flds FieldPaidBy (decodeIDPtr up FieldPaidBy) (\<lambda>v e. e\<lparr>bPaidBy := v\<rparr>),
      stepPtr flds FieldIncurredOn decodeTime (\<lambda>v e. e\<lparr>bIncurredOn := v\<rparr>) (\<lambda>v e. e),
      stepVal flds FieldSplits (decodeSplits up) (\<lambda>v e. e\<lparr>bSplits := v\<rparr>),
      stepPtr flds FieldDeletedAt decodeTime (\<lambda>v e. e\<lparr>bDeletedAt := v\<rparr>) (\<lambda>v e. e\<lparr>bIncurredOn := v\<rparr>)]"

definition attachmentSteps :: "(str \<Rightarrow> ID option) \<Rightarrow> fieldMap \<Rightarrow> (Attachment, instant) fieldStep list" where
  "attachmentSteps up flds =
     [stepStr flds FieldStorageKey (\<lambda>v a. a\<lparr>atStorageKey := v\<rparr>),
      stepStr flds FieldExternalURL (\<lambda>v a. a\<lparr>atExternalURL := v\<rparr>),
      stepStr flds FieldContentType (\<lambda>v a. a\<lparr>atContentType := v\<rparr>),
      stepStr flds FieldOriginalName (\<lambda>v a. a\<lparr>atOriginalName := v\<rparr>),
      stepStr flds FieldKind (\<lambda>v a. a\<lparr>atKind := v\<rparr>),
      stepStr flds FieldStatus (\<lambda>v a. a\<lparr>atStatus := v\<rparr>),
      stepVal flds FieldSizeBytes decodeInt64Ptr (\<lambda>v a. a\<lparr>atSizeBytes := v\<rparr>),
      stepVal flds FieldSlotOptionID (decodeIDPtr up FieldSlotOptionID) (\<lambda>v a. a\<lparr>atSlotOptionID := v\<rparr>),
      stepVal flds FieldBudgetEntryID (decodeIDPtr up FieldBudgetEntryID) (\<lambda>v a. a\<lparr>atBudgetEntryID := v\<rparr>),
      stepVal flds FieldSlotID (decodeIDPtr up FieldSlotID) (\<lambda>v a. a\<lparr>atSlotID := v\<rparr>),
      stepVal flds FieldUploadedBy (decodeIDPtr up FieldUploadedBy) (\<lambda>v a. a\<lparr>atUploadedBy := v\<rparr>),
      stepPtr flds FieldDeletedAt decodeTime (\<lambda>v a. a\<lparr>atDeletedAt := v\<rparr>) (\<lambda>v a. a)]"

definition commentSteps :: "(str \<Rightarrow> ID option) \<Rightarrow> fieldMap \<Rightarrow> (Comment, instant) fieldStep list" where
  "commentSteps up flds =
     [stepVal flds FieldSlotID (decodeIDPtr up FieldSlotID) (putSome (\<lambda>i c. c\<lparr>cSlotID := i\<rparr>)),
      stepStr flds FieldBody (\<lambda>v c. c\<lparr>cBody := v\<rparr>),
      stepPtr flds FieldDeletedAt decodeTime (\<lambda>v c. c\<lparr>cDeletedAt := v\<rparr>) (\<lambda>v c. c)]"

definition daySteps :: "fieldMap \<Rightarrow> (Day, instant) fieldStep list" where
  "daySteps flds =
     [stepStr flds FieldLabel (\<lambda>v d. d\<lparr>dLabel := v\<rparr>),
      stepStr flds FieldPosition (\<lambda>v d. d\<lparr>dPosition := v\<rparr>),
      stepPtr flds FieldDate decodeTime (\<lambda>v d. d\<lparr>dDate := v\<rparr>) (\<lambda>v d. d),
      stepPtr flds FieldDeletedAt decodeTime (\<lambda>v d. d\<lparr>dDeletedAt := v\<rparr>) (\<lambda>v d. d\<lparr>dDate := v\<rparr>)]"

section \<open>Zero entities\<close>

definition zeroSlot :: Slot where
  "zeroSlot = \<lparr>sID = NilID, sTripID = NilID, sDayID = None, sKind = [], sTitle = [], sNotes = [],
     sStartTime = None, sEndTime = None, sPosition = [], sSelectedOptionID = None, sStatus = [],
     sStatusChangedAt = None, sStatusChangedBy = None, sCreatedBy = None, sVersion = 0,
     sCreatedAt = zeroTime, sUpdatedAt = zeroTime, sDeletedAt = None\<rparr>"

definition zeroOption :: SlotOption where
  "zeroOption = \<lparr>oID = NilID, oSlotID = NilID, oTripID = NilID, oTitle = [], oNotes = [],
     oExternalURL = [], oEstimatedCostMinor = None,
     oPlace = \<lparr>plName = [], plAddress = [], plLat = None, plLng = None, plProviderID = []\<rparr>,
     oProposedBy = None, oVersion = 0, oCreatedAt = zeroTime, oUpdatedAt = zeroTime, oDeletedAt = None\<rparr>"

definition zeroVote :: Vote where
  "zeroVote = \<lparr>vID = NilID, vSlotID = NilID, vTripID = NilID, vUserID = NilID, vOptionID = None,
     vVersion = 0, vCreatedAt = zeroTime, vUpdatedAt = zeroTime\<rparr>"

definition zeroBudget :: BudgetEntry where
  "zeroBudget = \<lparr>bID = NilID, bTripID = NilID, bSlotOptionID = None, bLabel = [], bCategory = [],
     bAmountMinor = 0, bPaidBy = None, bIncurredOn = None, bSplits = [], bCreatedBy = None,
     bVersion = 0, bCreatedAt = zeroTime, bUpdatedAt = zeroTime, bDeletedAt = None\<rparr>"

definition zeroAttachment :: Attachment where
  "zeroAttachment = \<lparr>atID = NilID, atTripID = NilID, atSlotOptionID = None, atBudgetEntryID = None,
     atSlotID = None, atKind = [], atStatus = [], atStorageKey = [], atExternalURL = [],
     atContentType = [], atSizeBytes = None, atChecksumSHA256 = [], atOriginalName = [],
     atUploadedBy = None, atCreatedAt = zeroTime, atUpdatedAt = zeroTime, atDeletedAt = None\<rparr>"

definition zeroComment :: Comment where
  "zeroComment = \<lparr>cID = NilID, cSlotID = NilID, cTripID = NilID, cBody = [], cAuthorID = None,
     cCreatedAt = zeroTime, cUpdatedAt = zeroTime, cDeletedAt = None\<rparr>"

definition zeroDay :: Day where
  "zeroDay = \<lparr>dID = NilID, dTripID = NilID, dDate = None, dLabel = [], dPosition = [], dVersion = 0,
     dCreatedAt = zeroTime, dUpdatedAt = zeroTime, dDeletedAt = None\<rparr>"

section \<open>The replica\<close>

record Replica =
  rSeq :: int
  rDays :: "ID \<Rightarrow> Day option"
  rSlots :: "ID \<Rightarrow> Slot option"
  rOptions :: "ID \<Rightarrow> SlotOption option"
  rVotes :: "ID \<Rightarrow> Vote option"
  rBudgets :: "ID \<Rightarrow> BudgetEntry option"
  rAttachments :: "ID \<Rightarrow> Attachment option"
  rComments :: "ID \<Rightarrow> Comment option"

definition NewReplica :: Replica where
  "NewReplica = \<lparr>rSeq = 0, rDays = Map.empty, rSlots = Map.empty, rOptions = Map.empty,
     rVotes = Map.empty, rBudgets = Map.empty, rAttachments = Map.empty, rComments = Map.empty\<rparr>"

definition errUnknownEntity :: error where "errUnknownEntity = ErrOther ''unknown entity''"
definition errUnknownKind :: error where "errUnknownKind = ErrOther ''unknown op kind''"
definition errGap :: error where "errGap = ErrOther ''gap''"

text \<open>The shape all seven \<^theory_text>\<open>apply\<close> functions have: look the entity up, create it when the operation
  may, run the field steps on it and, when they all succeed, set its version.\<close>

definition applyEntity ::
  "'e option \<Rightarrow> bool \<Rightarrow> 'e \<Rightarrow> ('e, 'v) fieldStep list \<Rightarrow> ('e \<Rightarrow> 'e) \<Rightarrow> error option \<times> 'e option"
where
  "applyEntity known creates fresh steps setVersion =
     (if known = None \<and> \<not> creates then (Some errUnknownEntity, None)
      else
        let e = (case known of Some e \<Rightarrow> e | None \<Rightarrow> fresh) in
        (case runSteps steps (e, [], None) of
           (Some err, (e', _, _)) \<Rightarrow> (Some err, Some e')
         | (None, (e', _, _)) \<Rightarrow> (None, Some (setVersion e'))))"

definition applySlot :: "(str \<Rightarrow> ID option) \<Rightarrow> Op \<Rightarrow> fieldMap \<Rightarrow> int \<Rightarrow> Replica \<Rightarrow> error option \<times> Replica" where
  "applySlot up op flds version r =
     (case applyEntity (rSlots r (opEntityID op)) (opKind op = OpSlotCreate)
        (zeroSlot\<lparr>sID := opEntityID op, sTripID := opTripID op, sCreatedBy := opActorID op\<rparr>)
        (slotSteps up flds) (\<lambda>s. s\<lparr>sVersion := version\<rparr>) of
      (err, e) \<Rightarrow> (err, r\<lparr>rSlots := (rSlots r)(opEntityID op := e)\<rparr>))"

definition applyOption :: "(str \<Rightarrow> ID option) \<Rightarrow> Op \<Rightarrow> fieldMap \<Rightarrow> int \<Rightarrow> Replica \<Rightarrow> error option \<times> Replica" where
  "applyOption up op flds version r =
     (case applyEntity (rOptions r (opEntityID op)) (opKind op = OpOptionCreate)
        (zeroOption\<lparr>oID := opEntityID op, oTripID := opTripID op, oProposedBy := opActorID op\<rparr>)
        (optionSteps up flds) (\<lambda>x. x\<lparr>oVersion := version\<rparr>) of
      (err, e) \<Rightarrow> (err, r\<lparr>rOptions := (rOptions r)(opEntityID op := e)\<rparr>))"

definition applyVote :: "(str \<Rightarrow> ID option) \<Rightarrow> Op \<Rightarrow> fieldMap \<Rightarrow> int \<Rightarrow> Replica \<Rightarrow> error option \<times> Replica" where
  "applyVote up op flds version r =
     (case applyEntity (rVotes r (opEntityID op)) True
        (zeroVote\<lparr>vID := opEntityID op, vTripID := opTripID op\<rparr>)
        (voteSteps up flds) (\<lambda>v. v\<lparr>vVersion := version\<rparr>) of
      (err, e) \<Rightarrow> (err, r\<lparr>rVotes := (rVotes r)(opEntityID op := e)\<rparr>))"

definition applyBudget :: "(str \<Rightarrow> ID option) \<Rightarrow> Op \<Rightarrow> fieldMap \<Rightarrow> int \<Rightarrow> Replica \<Rightarrow> error option \<times> Replica" where
  "applyBudget up op flds version r =
     (case applyEntity (rBudgets r (opEntityID op)) (opKind op = OpBudgetSet)
        (zeroBudget\<lparr>bID := opEntityID op, bTripID := opTripID op, bCreatedBy := opActorID op\<rparr>)
        (budgetSteps up flds) (\<lambda>x. x\<lparr>bVersion := version\<rparr>) of
      (err, e) \<Rightarrow> (err, r\<lparr>rBudgets := (rBudgets r)(opEntityID op := e)\<rparr>))"

definition applyAttachment :: "(str \<Rightarrow> ID option) \<Rightarrow> Op \<Rightarrow> fieldMap \<Rightarrow> Replica \<Rightarrow> error option \<times> Replica" where
  "applyAttachment up op flds r =
     (case applyEntity (rAttachments r (opEntityID op)) (opKind op = OpAttachmentAdd)
        (zeroAttachment\<lparr>atID := opEntityID op, atTripID := opTripID op\<rparr>)
        (attachmentSteps up flds) (\<lambda>a. a) of
      (err, e) \<Rightarrow> (err, r\<lparr>rAttachments := (rAttachments r)(opEntityID op := e)\<rparr>))"

definition applyComment :: "(str \<Rightarrow> ID option) \<Rightarrow> Op \<Rightarrow> fieldMap \<Rightarrow> Replica \<Rightarrow> error option \<times> Replica" where
  "applyComment up op flds r =
     (case applyEntity (rComments r (opEntityID op)) (opKind op = OpCommentCreate)
        (zeroComment\<lparr>cID := opEntityID op, cTripID := opTripID op, cAuthorID := opActorID op\<rparr>)
        (commentSteps up flds) (\<lambda>c. c) of
      (err, e) \<Rightarrow> (err, r\<lparr>rComments := (rComments r)(opEntityID op := e)\<rparr>))"

definition applyDay :: "Op \<Rightarrow> fieldMap \<Rightarrow> int \<Rightarrow> Replica \<Rightarrow> error option \<times> Replica" where
  "applyDay op flds version r =
     (case applyEntity (rDays r (opEntityID op)) (opKind op = OpDayCreate)
        (zeroDay\<lparr>dID := opEntityID op, dTripID := opTripID op\<rparr>)
        (daySteps flds) (\<lambda>d. d\<lparr>dVersion := version\<rparr>) of
      (err, e) \<Rightarrow> (err, r\<lparr>rDays := (rDays r)(opEntityID op := e)\<rparr>))"

definition Apply :: "(str \<Rightarrow> ID option) \<Rightarrow> Op \<Rightarrow> Replica \<Rightarrow> error option \<times> Replica" where
  "Apply up op r =
     (if opSeq op \<le> rSeq r then (None, r)
      else if opSeq op > rSeq r + 1 then (Some errGap, r)
      else
        case PayloadFields op of
          Inl err \<Rightarrow> (Some err, r)
        | Inr flds \<Rightarrow>
            (case PayloadVersion op of
               Inl err \<Rightarrow> (Some err, r)
             | Inr version \<Rightarrow>
                 let entity = OpKind_Entity (opKind op);
                     out = (if entity = ''day'' then applyDay op flds version r
                            else if entity = ''slot'' then applySlot up op flds version r
                            else if entity = ''option'' then applyOption up op flds version r
                            else if entity = ''vote'' then applyVote up op flds version r
                            else if entity = ''budget'' then applyBudget up op flds version r
                            else if entity = ''attachment'' then applyAttachment up op flds r
                            else if entity = ''comment'' then applyComment up op flds r
                            else (Some errUnknownKind, r))
                 in (case out of
                       (Some err, r') \<Rightarrow> (Some err, r')
                     | (None, r') \<Rightarrow> (None, r'\<lparr>rSeq := opSeq op\<rparr>))))"

fun foldFrom :: "(str \<Rightarrow> ID option) \<Rightarrow> Replica \<Rightarrow> Op list \<Rightarrow> Replica res" where
  "foldFrom up r [] = Inr r"
| "foldFrom up r (op # ops) =
     (case Apply up op r of
        (Some err, _) \<Rightarrow> Inl err
      | (None, r') \<Rightarrow> foldFrom up r' ops)"

definition Fold :: "(str \<Rightarrow> ID option) \<Rightarrow> Op list \<Rightarrow> Replica res" where
  "Fold up ops = foldFrom up NewReplica ops"

section \<open>Field steps on encoded values\<close>

text \<open>A guarded choice that the simplifier does not split.\<close>

definition sel :: "bool \<Rightarrow> 'a \<Rightarrow> 'a \<Rightarrow> 'a" where
  "sel b x y = (if b then x else y)"

lemma sel_simps [simp]: "sel True x y = x" "sel False x y = y" "sel b x x = x"
  by (simp_all add: sel_def)

named_theorems sel_upd "guarded record updates"

lemma sel_distrib: "f (sel b x y) = sel b (f x) (f y)"
  by (simp add: sel_def)

lemma runSteps_Cons_ok: "s fr = (None, fr') \<Longrightarrow> runSteps (s # ss) fr = runSteps ss fr'"
  by simp

lemma stepStr_sel:
  "m name = (if b then Some (JStr x) else None) \<Longrightarrow>
     stepStr m name put (e, s, p) = (None, (sel b (put x e) e, sel b x s, p))"
  by (simp add: stepStr_def sel_def)

lemma stepVal_sel:
  "m name = (if b then Some j else None) \<Longrightarrow> dec j = Inr v \<Longrightarrow>
     stepVal m name dec put (e, s, p) = (None, (sel b (put v e) e, s, p))"
  by (simp add: stepVal_def sel_def)

lemma stepPtr_sel:
  "m name = (if b then Some (jopt enc v) else None) \<Longrightarrow> (b \<Longrightarrow> p = None) \<Longrightarrow>
   (\<And>x. enc x \<noteq> JNull \<and> dec (enc x) = Inr x) \<Longrightarrow>
     stepPtr m name dec put through (e, s, p) = (None, (sel b (put v e) e, s, sel b v p))"
proof (cases v)
  case (Some x)
  assume a: "m name = (if b then Some (jopt enc v) else None)" "b \<Longrightarrow> p = None"
    "\<And>x. enc x \<noteq> JNull \<and> dec (enc x) = Inr x"
  have "enc x \<noteq> JNull" "dec (enc x) = Inr x" using a(3) [of x] by auto
  then show ?thesis using a(1,2) Some
    by (cases b; cases "enc x") (simp_all add: stepPtr_def sel_def jopt_def)
qed (simp add: stepPtr_def sel_def jopt_def)

lemma stepTime_sel:
  "m name = (if b then Some (jtime v) else None) \<Longrightarrow> (b \<Longrightarrow> p = None) \<Longrightarrow>
     stepPtr m name decodeTime put through (e, s, p) = (None, (sel b (put v e) e, s, sel b v p))"
  unfolding jtime_def by (rule stepPtr_sel) (auto simp: decodeTime_def)

lemma regs_Nil: "map_of [] = map_of [] ++ (map_of [] |` M)"
  by simp

lemma regs_Cons:
  "map_of A = map_of B ++ (map_of C |` M) \<Longrightarrow>
     map_of ((k, sel (k \<in> M) x y) # A) = map_of ((k, y) # B) ++ (map_of ((k, x) # C) |` M)"
  by (auto simp: fun_eq_iff map_add_def restrict_map_def sel_def split: option.splits)

lemmas sel_enc = sel_distrib [of JStr] sel_distrib [of "idPtrString us" for us] sel_distrib [of timeOfDayString]
  sel_distrib [of jtime] sel_distrib [of jint] sel_distrib [of "jopt jint"] sel_distrib [of "jopt JNum"]
  sel_distrib [of "us :: ID \<Rightarrow> str" for us] sel_distrib [of JArr]
  sel_distrib [of "map encodeSplit"] sel_distrib [of "splitValues us" for us]

lemma restrict_sel: "vals f = Some j \<Longrightarrow> (vals |` M) f = (if f \<in> M then Some j else None)"
  by (simp add: restrict_map_def)

section \<open>Slots as maps of last-writer-wins registers\<close>

lemma Slot_sel [sel_upd]:
  "sel b (s\<lparr>sDayID := w_sDayID\<rparr>) s = s\<lparr>sDayID := sel b w_sDayID (sDayID s)\<rparr>"
  "sel b (s\<lparr>sKind := w_sKind\<rparr>) s = s\<lparr>sKind := sel b w_sKind (sKind s)\<rparr>"
  "sel b (s\<lparr>sTitle := w_sTitle\<rparr>) s = s\<lparr>sTitle := sel b w_sTitle (sTitle s)\<rparr>"
  "sel b (s\<lparr>sNotes := w_sNotes\<rparr>) s = s\<lparr>sNotes := sel b w_sNotes (sNotes s)\<rparr>"
  "sel b (s\<lparr>sPosition := w_sPosition\<rparr>) s = s\<lparr>sPosition := sel b w_sPosition (sPosition s)\<rparr>"
  "sel b (s\<lparr>sStatus := w_sStatus\<rparr>) s = s\<lparr>sStatus := sel b w_sStatus (sStatus s)\<rparr>"
  "sel b (s\<lparr>sStartTime := w_sStartTime\<rparr>) s = s\<lparr>sStartTime := sel b w_sStartTime (sStartTime s)\<rparr>"
  "sel b (s\<lparr>sEndTime := w_sEndTime\<rparr>) s = s\<lparr>sEndTime := sel b w_sEndTime (sEndTime s)\<rparr>"
  "sel b (s\<lparr>sSelectedOptionID := w_sSelectedOptionID\<rparr>) s = s\<lparr>sSelectedOptionID := sel b w_sSelectedOptionID (sSelectedOptionID s)\<rparr>"
  "sel b (s\<lparr>sStatusChangedBy := w_sStatusChangedBy\<rparr>) s = s\<lparr>sStatusChangedBy := sel b w_sStatusChangedBy (sStatusChangedBy s)\<rparr>"
  "sel b (s\<lparr>sStatusChangedAt := w_sStatusChangedAt\<rparr>) s = s\<lparr>sStatusChangedAt := sel b w_sStatusChangedAt (sStatusChangedAt s)\<rparr>"
  "sel b (s\<lparr>sDeletedAt := w_sDeletedAt\<rparr>) s = s\<lparr>sDeletedAt := sel b w_sDeletedAt (sDeletedAt s)\<rparr>"
  by (simp_all add: sel_def)

definition overlaySlot :: "str set \<Rightarrow> Slot \<Rightarrow> Slot \<Rightarrow> Slot" where
  "overlaySlot M s e = e\<lparr>
     sDayID := sel (FieldDayID \<in> M) (sDayID s) (sDayID e),
     sKind := sel (FieldKind \<in> M) (sKind s) (sKind e),
     sTitle := sel (FieldTitle \<in> M) (sTitle s) (sTitle e),
     sNotes := sel (FieldNotes \<in> M) (sNotes s) (sNotes e),
     sPosition := sel (FieldPosition \<in> M) (sPosition s) (sPosition e),
     sStatus := sel (FieldStatus \<in> M) (sStatus s) (sStatus e),
     sStartTime := sel (FieldStartTime \<in> M) (sStartTime s) (sStartTime e),
     sEndTime := sel (FieldEndTime \<in> M) (sEndTime s) (sEndTime e),
     sSelectedOptionID := sel (FieldSelectedOptionID \<in> M) (sSelectedOptionID s) (sSelectedOptionID e),
     sStatusChangedBy := sel (FieldStatusChangedBy \<in> M) (sStatusChangedBy s) (sStatusChangedBy e),
     sStatusChangedAt := sel (FieldStatusChangedAt \<in> M) (sStatusChangedAt s) (sStatusChangedAt e),
     sDeletedAt := sel (FieldDeletedAt \<in> M) (sDeletedAt s) (sDeletedAt e)\<rparr>"

lemma slotSteps_overlay:
  assumes "uuidText us up" "\<not> timeInvalid (sStartTime s)" "\<not> timeInvalid (sEndTime s)"
    and "\<not> (FieldStatusChangedAt \<in> M \<and> FieldDeletedAt \<in> M)"
  shows "\<exists>st p. runSteps (slotSteps up (SlotValues us s |` M)) (e, [], None) =
    (None, (overlaySlot M s e, st, p))"
proof -
  let ?m = "SlotValues us s |` M"
  note r = restrict_sel [of "SlotValues us s" _ _ M]
  note ids = decodeIDPtr_text [OF assms(1)]
  have nb: "FieldDeletedAt \<in> M \<Longrightarrow> FieldStatusChangedAt \<notin> M" using assms(4) by blast
  show ?thesis
    by (simp add: slotSteps_def stepVal_sel [OF r] stepStr_sel [OF r] stepTime_sel [OF r]
      ids decodeTimeOfDay_text assms(2,3) SlotValues_fields nb sel_upd overlaySlot_def split del: if_split)
qed

lemma overlaySlot_regs:
  "SlotValues us (overlaySlot M s e) = SlotValues us e ++ (SlotValues us s |` M)"
  unfolding SlotValues_def
  by (simp add: overlaySlot_def sel_enc del: map_of.simps) (intro regs_Cons regs_Nil)

section \<open>Days\<close>

lemma Day_sel [sel_upd]:
  "sel b (s\<lparr>dLabel := w_dLabel\<rparr>) s = s\<lparr>dLabel := sel b w_dLabel (dLabel s)\<rparr>"
  "sel b (s\<lparr>dPosition := w_dPosition\<rparr>) s = s\<lparr>dPosition := sel b w_dPosition (dPosition s)\<rparr>"
  "sel b (s\<lparr>dDate := w_dDate\<rparr>) s = s\<lparr>dDate := sel b w_dDate (dDate s)\<rparr>"
  "sel b (s\<lparr>dDeletedAt := w_dDeletedAt\<rparr>) s = s\<lparr>dDeletedAt := sel b w_dDeletedAt (dDeletedAt s)\<rparr>"
  by (simp_all add: sel_def)

definition overlayDay :: "str set \<Rightarrow> Day \<Rightarrow> Day \<Rightarrow> Day" where
  "overlayDay M s e = e\<lparr>
     dLabel := sel (FieldLabel \<in> M) (dLabel s) (dLabel e),
     dPosition := sel (FieldPosition \<in> M) (dPosition s) (dPosition e),
     dDate := sel (FieldDate \<in> M) (dDate s) (dDate e),
     dDeletedAt := sel (FieldDeletedAt \<in> M) (dDeletedAt s) (dDeletedAt e)\<rparr>"

lemma daySteps_overlay:
  assumes "\<not> (FieldDate \<in> M \<and> FieldDeletedAt \<in> M)"
  shows "\<exists>st p. runSteps (daySteps (DayValues s |` M)) (e, [], None) = (None, (overlayDay M s e, st, p))"
proof -
  note r = restrict_sel [of "DayValues s" _ _ M]
  have nb: "FieldDeletedAt \<in> M \<Longrightarrow> FieldDate \<notin> M" using assms by blast
  show ?thesis
    by (simp add: daySteps_def stepVal_sel [OF r] stepStr_sel [OF r] stepTime_sel [OF r]
       DayValues_fields nb sel_upd overlayDay_def putSome_def split del: if_split)
qed

lemma overlayDay_regs: "DayValues (overlayDay M s e) = DayValues e ++ (DayValues s |` M)"
  unfolding DayValues_def
  by (simp add: overlayDay_def sel_enc del: map_of.simps) (intro regs_Cons regs_Nil)

section \<open>Votes\<close>

lemma Vote_sel [sel_upd]:
  "sel b (s\<lparr>vSlotID := w_vSlotID\<rparr>) s = s\<lparr>vSlotID := sel b w_vSlotID (vSlotID s)\<rparr>"
  "sel b (s\<lparr>vUserID := w_vUserID\<rparr>) s = s\<lparr>vUserID := sel b w_vUserID (vUserID s)\<rparr>"
  "sel b (s\<lparr>vOptionID := w_vOptionID\<rparr>) s = s\<lparr>vOptionID := sel b w_vOptionID (vOptionID s)\<rparr>"
  by (simp_all add: sel_def)

definition overlayVote :: "str set \<Rightarrow> Vote \<Rightarrow> Vote \<Rightarrow> Vote" where
  "overlayVote M s e = e\<lparr>
     vSlotID := sel (FieldSlotID \<in> M) (vSlotID s) (vSlotID e),
     vUserID := sel (FieldUserID \<in> M) (vUserID s) (vUserID e),
     vOptionID := sel (FieldOptionID \<in> M) (vOptionID s) (vOptionID e)\<rparr>"

lemma voteSteps_overlay:
  assumes "uuidText us up"
  shows "\<exists>st p. runSteps (voteSteps up (VoteValues us s |` M)) (e, [], None) = (None, (overlayVote M s e, st, p))"
proof -
  note r = restrict_sel [of "VoteValues us s" _ _ M]
  note ids = decodeIDPtr_text [OF assms(1)] decodeIDPtr_JStr [OF assms(1)]
  show ?thesis
    by (simp add: voteSteps_def stepVal_sel [OF r] stepStr_sel [OF r] stepTime_sel [OF r]
      ids  VoteValues_fields  sel_upd overlayVote_def putSome_def split del: if_split)
qed

lemma overlayVote_regs: "VoteValues us (overlayVote M s e) = VoteValues us e ++ (VoteValues us s |` M)"
  unfolding VoteValues_def
  by (simp add: overlayVote_def sel_enc del: map_of.simps) (intro regs_Cons regs_Nil)

section \<open>Budget entries\<close>

lemma BudgetEntry_sel [sel_upd]:
  "sel b (s\<lparr>bLabel := w_bLabel\<rparr>) s = s\<lparr>bLabel := sel b w_bLabel (bLabel s)\<rparr>"
  "sel b (s\<lparr>bCategory := w_bCategory\<rparr>) s = s\<lparr>bCategory := sel b w_bCategory (bCategory s)\<rparr>"
  "sel b (s\<lparr>bAmountMinor := w_bAmountMinor\<rparr>) s = s\<lparr>bAmountMinor := sel b w_bAmountMinor (bAmountMinor s)\<rparr>"
  "sel b (s\<lparr>bSlotOptionID := w_bSlotOptionID\<rparr>) s = s\<lparr>bSlotOptionID := sel b w_bSlotOptionID (bSlotOptionID s)\<rparr>"
  "sel b (s\<lparr>bPaidBy := w_bPaidBy\<rparr>) s = s\<lparr>bPaidBy := sel b w_bPaidBy (bPaidBy s)\<rparr>"
  "sel b (s\<lparr>bIncurredOn := w_bIncurredOn\<rparr>) s = s\<lparr>bIncurredOn := sel b w_bIncurredOn (bIncurredOn s)\<rparr>"
  "sel b (s\<lparr>bSplits := w_bSplits\<rparr>) s = s\<lparr>bSplits := sel b w_bSplits (bSplits s)\<rparr>"
  "sel b (s\<lparr>bDeletedAt := w_bDeletedAt\<rparr>) s = s\<lparr>bDeletedAt := sel b w_bDeletedAt (bDeletedAt s)\<rparr>"
  by (simp_all add: sel_def)

definition overlayBudget :: "(ID \<Rightarrow> str) \<Rightarrow> str set \<Rightarrow> BudgetEntry \<Rightarrow> BudgetEntry \<Rightarrow> BudgetEntry" where
  "overlayBudget us M s e = e\<lparr>
     bLabel := sel (FieldLabel \<in> M) (bLabel s) (bLabel e),
     bCategory := sel (FieldCategory \<in> M) (bCategory s) (bCategory e),
     bAmountMinor := sel (FieldAmountMinor \<in> M) (bAmountMinor s) (bAmountMinor e),
     bSlotOptionID := sel (FieldSlotOptionID \<in> M) (bSlotOptionID s) (bSlotOptionID e),
     bPaidBy := sel (FieldPaidBy \<in> M) (bPaidBy s) (bPaidBy e),
     bIncurredOn := sel (FieldIncurredOn \<in> M) (bIncurredOn s) (bIncurredOn e),
     bSplits := sel (FieldSplits \<in> M) (wireSplits us (bSplits s)) (bSplits e),
     bDeletedAt := sel (FieldDeletedAt \<in> M) (bDeletedAt s) (bDeletedAt e)\<rparr>"

lemma budgetSteps_overlay:
  assumes "uuidText us up" "\<not> (FieldIncurredOn \<in> M \<and> FieldDeletedAt \<in> M)"
  shows "\<exists>st p. runSteps (budgetSteps up (BudgetValues us s |` M)) (e, [], None) = (None, (overlayBudget us M s e, st, p))"
proof -
  note r = restrict_sel [of "BudgetValues us s" _ _ M]
  note ids = decodeIDPtr_text [OF assms(1)] decodeIDPtr_JStr [OF assms(1)]
  have nb: "FieldDeletedAt \<in> M \<Longrightarrow> FieldIncurredOn \<notin> M" using assms by blast
  show ?thesis
    by (simp add: budgetSteps_def stepVal_sel [OF r] stepStr_sel [OF r] stepTime_sel [OF r]
      ids decodeSplits_text [OF assms(1)] BudgetValues_fields nb sel_upd overlayBudget_def putSome_def split del: if_split)
qed

lemma overlayBudget_regs: "BudgetValues us (overlayBudget us M s e) = BudgetValues us e ++ (BudgetValues us s |` M)"
  unfolding BudgetValues_def
  by (simp add: overlayBudget_def sel_enc splitValues_wireSplits del: map_of.simps) (intro regs_Cons regs_Nil)

section \<open>Attachments\<close>

lemma Attachment_sel [sel_upd]:
  "sel b (s\<lparr>atStorageKey := w_atStorageKey\<rparr>) s = s\<lparr>atStorageKey := sel b w_atStorageKey (atStorageKey s)\<rparr>"
  "sel b (s\<lparr>atExternalURL := w_atExternalURL\<rparr>) s = s\<lparr>atExternalURL := sel b w_atExternalURL (atExternalURL s)\<rparr>"
  "sel b (s\<lparr>atContentType := w_atContentType\<rparr>) s = s\<lparr>atContentType := sel b w_atContentType (atContentType s)\<rparr>"
  "sel b (s\<lparr>atOriginalName := w_atOriginalName\<rparr>) s = s\<lparr>atOriginalName := sel b w_atOriginalName (atOriginalName s)\<rparr>"
  "sel b (s\<lparr>atKind := w_atKind\<rparr>) s = s\<lparr>atKind := sel b w_atKind (atKind s)\<rparr>"
  "sel b (s\<lparr>atStatus := w_atStatus\<rparr>) s = s\<lparr>atStatus := sel b w_atStatus (atStatus s)\<rparr>"
  "sel b (s\<lparr>atSizeBytes := w_atSizeBytes\<rparr>) s = s\<lparr>atSizeBytes := sel b w_atSizeBytes (atSizeBytes s)\<rparr>"
  "sel b (s\<lparr>atSlotOptionID := w_atSlotOptionID\<rparr>) s = s\<lparr>atSlotOptionID := sel b w_atSlotOptionID (atSlotOptionID s)\<rparr>"
  "sel b (s\<lparr>atBudgetEntryID := w_atBudgetEntryID\<rparr>) s = s\<lparr>atBudgetEntryID := sel b w_atBudgetEntryID (atBudgetEntryID s)\<rparr>"
  "sel b (s\<lparr>atSlotID := w_atSlotID\<rparr>) s = s\<lparr>atSlotID := sel b w_atSlotID (atSlotID s)\<rparr>"
  "sel b (s\<lparr>atUploadedBy := w_atUploadedBy\<rparr>) s = s\<lparr>atUploadedBy := sel b w_atUploadedBy (atUploadedBy s)\<rparr>"
  "sel b (s\<lparr>atDeletedAt := w_atDeletedAt\<rparr>) s = s\<lparr>atDeletedAt := sel b w_atDeletedAt (atDeletedAt s)\<rparr>"
  by (simp_all add: sel_def)

definition overlayAttachment :: "str set \<Rightarrow> Attachment \<Rightarrow> Attachment \<Rightarrow> Attachment" where
  "overlayAttachment M s e = e\<lparr>
     atStorageKey := sel (FieldStorageKey \<in> M) (atStorageKey s) (atStorageKey e),
     atExternalURL := sel (FieldExternalURL \<in> M) (atExternalURL s) (atExternalURL e),
     atContentType := sel (FieldContentType \<in> M) (atContentType s) (atContentType e),
     atOriginalName := sel (FieldOriginalName \<in> M) (atOriginalName s) (atOriginalName e),
     atKind := sel (FieldKind \<in> M) (atKind s) (atKind e),
     atStatus := sel (FieldStatus \<in> M) (atStatus s) (atStatus e),
     atSizeBytes := sel (FieldSizeBytes \<in> M) (atSizeBytes s) (atSizeBytes e),
     atSlotOptionID := sel (FieldSlotOptionID \<in> M) (atSlotOptionID s) (atSlotOptionID e),
     atBudgetEntryID := sel (FieldBudgetEntryID \<in> M) (atBudgetEntryID s) (atBudgetEntryID e),
     atSlotID := sel (FieldSlotID \<in> M) (atSlotID s) (atSlotID e),
     atUploadedBy := sel (FieldUploadedBy \<in> M) (atUploadedBy s) (atUploadedBy e),
     atDeletedAt := sel (FieldDeletedAt \<in> M) (atDeletedAt s) (atDeletedAt e)\<rparr>"

lemma attachmentSteps_overlay:
  assumes "uuidText us up"
  shows "\<exists>st p. runSteps (attachmentSteps up (AttachmentValues us s |` M)) (e, [], None) = (None, (overlayAttachment M s e, st, p))"
proof -
  note r = restrict_sel [of "AttachmentValues us s" _ _ M]
  note ids = decodeIDPtr_text [OF assms(1)] decodeIDPtr_JStr [OF assms(1)]
  show ?thesis
    by (simp add: attachmentSteps_def stepVal_sel [OF r] stepStr_sel [OF r] stepTime_sel [OF r]
      ids  AttachmentValues_fields  sel_upd overlayAttachment_def putSome_def split del: if_split)
qed

lemma overlayAttachment_regs: "AttachmentValues us (overlayAttachment M s e) = AttachmentValues us e ++ (AttachmentValues us s |` M)"
  unfolding AttachmentValues_def
  by (simp add: overlayAttachment_def sel_enc del: map_of.simps) (intro regs_Cons regs_Nil)

section \<open>Comments\<close>

lemma Comment_sel [sel_upd]:
  "sel b (s\<lparr>cSlotID := w_cSlotID\<rparr>) s = s\<lparr>cSlotID := sel b w_cSlotID (cSlotID s)\<rparr>"
  "sel b (s\<lparr>cBody := w_cBody\<rparr>) s = s\<lparr>cBody := sel b w_cBody (cBody s)\<rparr>"
  "sel b (s\<lparr>cDeletedAt := w_cDeletedAt\<rparr>) s = s\<lparr>cDeletedAt := sel b w_cDeletedAt (cDeletedAt s)\<rparr>"
  by (simp_all add: sel_def)

definition overlayComment :: "str set \<Rightarrow> Comment \<Rightarrow> Comment \<Rightarrow> Comment" where
  "overlayComment M s e = e\<lparr>
     cSlotID := sel (FieldSlotID \<in> M) (cSlotID s) (cSlotID e),
     cBody := sel (FieldBody \<in> M) (cBody s) (cBody e),
     cDeletedAt := sel (FieldDeletedAt \<in> M) (cDeletedAt s) (cDeletedAt e)\<rparr>"

lemma commentSteps_overlay:
  assumes "uuidText us up"
  shows "\<exists>st p. runSteps (commentSteps up (CommentValues us s |` M)) (e, [], None) = (None, (overlayComment M s e, st, p))"
proof -
  note r = restrict_sel [of "CommentValues us s" _ _ M]
  note ids = decodeIDPtr_text [OF assms(1)] decodeIDPtr_JStr [OF assms(1)]
  show ?thesis
    by (simp add: commentSteps_def stepVal_sel [OF r] stepStr_sel [OF r] stepTime_sel [OF r]
      ids  CommentValues_fields  sel_upd overlayComment_def putSome_def split del: if_split)
qed

lemma overlayComment_regs: "CommentValues us (overlayComment M s e) = CommentValues us e ++ (CommentValues us s |` M)"
  unfolding CommentValues_def
  by (simp add: overlayComment_def sel_enc del: map_of.simps) (intro regs_Cons regs_Nil)

section \<open>Options, and the coordinates that share a pointer\<close>

lemma SlotOption_sel [sel_upd]:
  "sel b (s\<lparr>oSlotID := w_oSlotID\<rparr>) s = s\<lparr>oSlotID := sel b w_oSlotID (oSlotID s)\<rparr>"
  "sel b (s\<lparr>oTitle := w_oTitle\<rparr>) s = s\<lparr>oTitle := sel b w_oTitle (oTitle s)\<rparr>"
  "sel b (s\<lparr>oNotes := w_oNotes\<rparr>) s = s\<lparr>oNotes := sel b w_oNotes (oNotes s)\<rparr>"
  "sel b (s\<lparr>oExternalURL := w_oExternalURL\<rparr>) s = s\<lparr>oExternalURL := sel b w_oExternalURL (oExternalURL s)\<rparr>"
  "sel b (s\<lparr>oEstimatedCostMinor := w_oEstimatedCostMinor\<rparr>) s = s\<lparr>oEstimatedCostMinor := sel b w_oEstimatedCostMinor (oEstimatedCostMinor s)\<rparr>"
  "sel b (s\<lparr>oPlace := w_oPlace\<rparr>) s = s\<lparr>oPlace := sel b w_oPlace (oPlace s)\<rparr>"
  "sel b (s\<lparr>oPlace := P\<rparr>) (s\<lparr>oPlace := Q\<rparr>) = s\<lparr>oPlace := sel b P Q\<rparr>"
  "sel b (s\<lparr>oEstimatedCostMinor := c, oPlace := P\<rparr>) (s\<lparr>oPlace := Q, oEstimatedCostMinor := c\<rparr>) =
     s\<lparr>oEstimatedCostMinor := c, oPlace := sel b P Q\<rparr>"
  "sel b (s\<lparr>oDeletedAt := w_oDeletedAt\<rparr>) s = s\<lparr>oDeletedAt := sel b w_oDeletedAt (oDeletedAt s)\<rparr>"
  by (simp_all add: sel_def)

lemma Place_sel [sel_upd]:
  "sel b (s\<lparr>plName := w_plName\<rparr>) s = s\<lparr>plName := sel b w_plName (plName s)\<rparr>"
  "sel b (s\<lparr>plAddress := w_plAddress\<rparr>) s = s\<lparr>plAddress := sel b w_plAddress (plAddress s)\<rparr>"
  "sel b (s\<lparr>plProviderID := w_plProviderID\<rparr>) s = s\<lparr>plProviderID := sel b w_plProviderID (plProviderID s)\<rparr>"
  "sel b (s\<lparr>plLat := w_plLat\<rparr>) s = s\<lparr>plLat := sel b w_plLat (plLat s)\<rparr>"
  "sel b (s\<lparr>plLng := w_plLng\<rparr>) s = s\<lparr>plLng := sel b w_plLng (plLng s)\<rparr>"
  by (simp_all add: sel_def)

definition overlayOption :: "str set \<Rightarrow> SlotOption \<Rightarrow> SlotOption \<Rightarrow> SlotOption" where
  "overlayOption M s e = e\<lparr>
     oSlotID := sel (FieldSlotID \<in> M) (oSlotID s) (oSlotID e),
     oTitle := sel (FieldTitle \<in> M) (oTitle s) (oTitle e),
     oNotes := sel (FieldNotes \<in> M) (oNotes s) (oNotes e),
     oExternalURL := sel (FieldExternalURL \<in> M) (oExternalURL s) (oExternalURL e),
     oEstimatedCostMinor := sel (FieldEstimatedCost \<in> M) (oEstimatedCostMinor s) (oEstimatedCostMinor e),
     oPlace := (oPlace e)\<lparr>
       plName := sel (FieldPlaceName \<in> M) (plName (oPlace s)) (plName (oPlace e)),
       plAddress := sel (FieldPlaceAddress \<in> M) (plAddress (oPlace s)) (plAddress (oPlace e)),
       plProviderID := sel (FieldPlaceProviderID \<in> M) (plProviderID (oPlace s)) (plProviderID (oPlace e)),
       plLat := sel (FieldPlaceLat \<in> M) (plLat (oPlace s)) (plLat (oPlace e)),
       plLng := sel (FieldPlaceLng \<in> M) (plLng (oPlace s)) (plLng (oPlace e))\<rparr>,
     oDeletedAt := sel (FieldDeletedAt \<in> M) (oDeletedAt s) (oDeletedAt e)\<rparr>"

lemma stepFloat_sel:
  "m name = (if b then Some (jopt JNum v) else None) \<Longrightarrow> (b \<Longrightarrow> p = None) \<Longrightarrow>
     stepPtr m name decodeFloat put through (e, s, p) = (None, (sel b (put v e) e, s, sel b v p))"
  by (rule stepPtr_sel) (auto simp: decodeFloat_def)

lemma decodeTimePtr:
  "(case jtime v of JNull \<Rightarrow> Inr None | _ \<Rightarrow> bindR (decodeTime (jtime v)) (\<lambda>t. Inr (Some t))) = Inr v"
  by (cases v) (simp_all add: jtime_def jopt_def decodeTime_def)

lemma optionSteps_overlay:
  assumes "uuidText us up"
    and "\<not> (FieldPlaceLat \<in> M \<and> FieldPlaceLng \<in> M \<and> plLat (oPlace s) \<noteq> None)"
  shows "\<exists>st p. runSteps (optionSteps up (OptionValues us s |` M)) (e, [], None) =
    (None, (overlayOption M s e, st, p))"
proof -
  note r = restrict_sel [of "OptionValues us s" _ _ M]
  note ids = decodeIDPtr_JStr [OF assms(1)]
  have nb: "FieldPlaceLng \<in> M \<Longrightarrow> sel (FieldPlaceLat \<in> M) (plLat (oPlace s)) None = None"
    using assms(2) by (auto simp: sel_def)
  show ?thesis
    by (simp add: optionSteps_def stepVal_sel [OF r] stepStr_sel [OF r] stepFloat_sel [OF r]
      ids OptionValues_fields decodeTimePtr nb sel_upd overlayOption_def putSome_def split del: if_split)
qed

lemma overlayOption_regs:
  "OptionValues us (overlayOption M s e) = OptionValues us e ++ (OptionValues us s |` M)"
  unfolding OptionValues_def
  by (simp add: overlayOption_def sel_enc del: map_of.simps) (intro regs_Cons regs_Nil)

text \<open>With both coordinates in one operation the second is decoded into the pointer the first was
  stored as, and overwrites it.\<close>

lemma stepFloat_through:
  "m name = Some (jopt JNum (Some x)) \<Longrightarrow>
     stepPtr m name decodeFloat put through (e, s, Some y) =
       (None, (put (Some x) (through (Some x) e), s, Some x))"
  by (simp add: stepPtr_def jopt_def decodeFloat_def)

lemma optionSteps_aliased:
  assumes "uuidText us up" "FieldPlaceLat \<in> M" "FieldPlaceLng \<in> M"
    and "plLat (oPlace s) = Some lat" "plLng (oPlace s) = Some lng"
  shows "\<exists>st p. runSteps (optionSteps up (OptionValues us s |` M)) (e, [], None) =
    (None, ((overlayOption M s e)\<lparr>oPlace := (oPlace (overlayOption M s e))\<lparr>plLat := Some lng\<rparr>\<rparr>, st, p))"
proof -
  note r = restrict_sel [of "OptionValues us s" _ _ M]
  note ids = decodeIDPtr_JStr [OF assms(1)]
  have c: "(OptionValues us s |` M) FieldPlaceLng = Some (jopt JNum (Some lng))"
    using assms by (simp add: OptionValues_fields)
  have l: "FieldPlaceLat \<in> M" "FieldPlaceLng \<in> M" using assms by auto
  show ?thesis
    by (simp add: optionSteps_def stepVal_sel [OF r] stepStr_sel [OF r] stepFloat_sel [OF r] l
      stepFloat_through [of "OptionValues us s |` M" _ lng] ids OptionValues_fields decodeTimePtr sel_upd
      overlayOption_def putSome_def assms(4,5) split del: if_split)
qed

end
