(* ===== verification/Convergence.thy ===== *)
theory Convergence
  imports Replica
begin

text \<open>What the fold of src/internal/domain/op.go guarantees: sequence numbers (redelivery is a no-op,
  a gap is an error, success advances by one), and the last-writer-wins contract, stated once as the
  locale \<^theory_text>\<open>lww_registers\<close> and interpreted on the field steps of every entity.

  An entity is seen through its \<^theory_text>\<open>Values\<close> projection, a map from field name to register; the contract
  is that an operation overwrites exactly the registers its payload names.\<close>

section \<open>Sequence numbers\<close>

lemmas apply_defs = applySlot_def applyOption_def applyVote_def applyBudget_def
  applyAttachment_def applyComment_def applyDay_def

lemma Apply_redelivery: "opSeq op \<le> rSeq r \<Longrightarrow> Apply up op r = (None, r)"
  by (simp add: Apply_def)

lemma Apply_gap: "opSeq op > rSeq r + 1 \<Longrightarrow> Apply up op r = (Some errGap, r)"
  by (simp add: Apply_def)

lemma apply_keeps_seq:
  "applySlot up op flds v r = (err, r') \<Longrightarrow> rSeq r' = rSeq r"
  "applyOption up op flds v r = (err, r') \<Longrightarrow> rSeq r' = rSeq r"
  "applyVote up op flds v r = (err, r') \<Longrightarrow> rSeq r' = rSeq r"
  "applyBudget up op flds v r = (err, r') \<Longrightarrow> rSeq r' = rSeq r"
  "applyAttachment up op flds r = (err, r') \<Longrightarrow> rSeq r' = rSeq r"
  "applyComment up op flds r = (err, r') \<Longrightarrow> rSeq r' = rSeq r"
  "applyDay op flds v r = (err, r') \<Longrightarrow> rSeq r' = rSeq r"
  by (auto simp: apply_defs split: prod.splits)

lemma Apply_seq:
  assumes "Apply up op r = (err, r')"
  shows "rSeq r' = (if err = None then max (rSeq r) (opSeq op) else rSeq r)"
proof -
  consider "opSeq op \<le> rSeq r" | "opSeq op > rSeq r + 1" | "opSeq op = rSeq r + 1" by linarith
  then show ?thesis
  proof cases
    case 3
    then show ?thesis using assms
      by (auto simp: Apply_def Let_def split: sum.splits prod.splits option.splits if_splits
          dest: apply_keeps_seq)
  qed (use assms in \<open>auto simp: Apply_redelivery Apply_gap\<close>)
qed

lemma foldFrom_append:
  "foldFrom up r (xs @ ys) = bindR (foldFrom up r xs) (\<lambda>r'. foldFrom up r' ys)"
  by (induction xs arbitrary: r) (auto split: prod.splits option.splits)

lemma foldFrom_seq:
  "foldFrom up r ops = Inr r' \<Longrightarrow> rSeq r \<le> rSeq r' \<and> (\<forall>op \<in> set ops. opSeq op \<le> rSeq r')"
proof (induction ops arbitrary: r)
  case (Cons op ops)
  then obtain r1 where r1: "Apply up op r = (None, r1)" "foldFrom up r1 ops = Inr r'"
    by (auto split: prod.splits option.splits)
  then show ?case using Cons.IH [OF r1(2)] Apply_seq [OF r1(1)] by auto
qed simp

lemma foldFrom_redelivered:
  "\<forall>op \<in> set dup. opSeq op \<le> rSeq r \<Longrightarrow> foldFrom up r dup = Inr r"
  by (induction dup) (simp_all add: Apply_redelivery)

lemma foldFrom_log_seq:
  "foldFrom up r ops = Inr r' \<Longrightarrow> map opSeq ops = map (\<lambda>i. rSeq r + 1 + int i) [0..<length ops] \<Longrightarrow>
     rSeq r' = rSeq r + int (length ops)"
proof (induction ops arbitrary: r)
  case (Cons op ops)
  then obtain r1 where r1: "Apply up op r = (None, r1)" "foldFrom up r1 ops = Inr r'"
    by (auto split: prod.splits option.splits)
  have s: "opSeq op = rSeq r + 1"
    using arg_cong [OF Cons.prems(2), of hd] by (simp add: hd_map upt_conv_Cons del: upt_Suc)
  have "map opSeq ops = map (\<lambda>i. rSeq r + 1 + 1 + int i) [0..<length ops]"
    using arg_cong [OF Cons.prems(2), of tl]
    by (simp add: upt_conv_Cons map_Suc_upt [symmetric] algebra_simps del: upt_Suc)
  then have "map opSeq ops = map (\<lambda>i. rSeq r1 + 1 + int i) [0..<length ops]"
    using Apply_seq [OF r1(1)] s by simp
  then show ?case using Cons.IH [OF r1(2)] Apply_seq [OF r1(1)] s by simp
qed simp

section \<open>The last-writer-wins contract\<close>

definition applyFields :: "(fieldMap \<Rightarrow> ('e, 'v) fieldStep list) \<Rightarrow> fieldMap \<Rightarrow> 'e \<Rightarrow> 'e" where
  "applyFields steps m e = fst (snd (runSteps (steps m) (e, [], None)))"

locale lww_registers =
  fixes regs :: "'e \<Rightarrow> fieldMap"
    and steps :: "fieldMap \<Rightarrow> ('e, 'v) fieldStep list"
    and wellFormed :: "fieldMap \<Rightarrow> bool"
  assumes steps_write_registers:
    "wellFormed m \<Longrightarrow>
       \<exists>e' st p. runSteps (steps m) (e, [], None) = (None, (e', st, p)) \<and> regs e' = regs e ++ m"
begin

lemma steps_succeed:
  "wellFormed m \<Longrightarrow> \<exists>st p. runSteps (steps m) (e, [], None) = (None, (applyFields steps m e, st, p))"
  using steps_write_registers [of m e] by (auto simp: applyFields_def)

lemma writes_registers: "wellFormed m \<Longrightarrow> regs (applyFields steps m e) = regs e ++ m"
  using steps_write_registers [of m e] by (auto simp: applyFields_def)

lemma disjoint_edits_merge:
  assumes "wellFormed m" "wellFormed n" "dom m \<inter> dom n = {}"
  shows "regs (applyFields steps n (applyFields steps m e)) = regs (applyFields steps m (applyFields steps n e))"
  using assms by (simp add: writes_registers map_add_comm flip: map_add_assoc)
     (metis map_add_assoc map_add_comm)

lemma later_write_wins:
  assumes "wellFormed m" "wellFormed n"
  shows "regs (applyFields steps n (applyFields steps m e)) f =
    (if f \<in> dom n then n f else if f \<in> dom m then m f else regs e f)"
  using assms by (auto simp: writes_registers map_add_def split: option.splits)

lemma rewrite_idempotent:
  "wellFormed m \<Longrightarrow> regs (applyFields steps m (applyFields steps m e)) = regs (applyFields steps m e)"
  by (auto simp: writes_registers fun_eq_iff map_add_def split: option.splits)

end

section \<open>The contract holds for every entity\<close>

text \<open>The payloads the server writes: the masked projection of a persisted entity. For slots, days and
  budget entries no operation kind names the tombstone together with the other timestamp; an option
  payload carries at most one coordinate.\<close>

definition slotFields :: "(ID \<Rightarrow> str) \<Rightarrow> (str \<Rightarrow> ID option) \<Rightarrow> fieldMap \<Rightarrow> bool" where
  "slotFields us up m \<longleftrightarrow> uuidText us up \<and>
     (\<exists>s M. m = SlotValues us s |` M \<and> \<not> timeInvalid (sStartTime s) \<and> \<not> timeInvalid (sEndTime s) \<and>
        \<not> (FieldStatusChangedAt \<in> M \<and> FieldDeletedAt \<in> M))"

definition optionFields :: "(ID \<Rightarrow> str) \<Rightarrow> (str \<Rightarrow> ID option) \<Rightarrow> fieldMap \<Rightarrow> bool" where
  "optionFields us up m \<longleftrightarrow> uuidText us up \<and>
     (\<exists>s M. m = OptionValues us s |` M \<and>
        \<not> (FieldPlaceLat \<in> M \<and> FieldPlaceLng \<in> M \<and> plLat (oPlace s) \<noteq> None))"

definition voteFields :: "(ID \<Rightarrow> str) \<Rightarrow> (str \<Rightarrow> ID option) \<Rightarrow> fieldMap \<Rightarrow> bool" where
  "voteFields us up m \<longleftrightarrow> uuidText us up \<and> (\<exists>s M. m = VoteValues us s |` M)"

definition budgetFields :: "(ID \<Rightarrow> str) \<Rightarrow> (str \<Rightarrow> ID option) \<Rightarrow> fieldMap \<Rightarrow> bool" where
  "budgetFields us up m \<longleftrightarrow> uuidText us up \<and>
     (\<exists>s M. m = BudgetValues us s |` M \<and> \<not> (FieldIncurredOn \<in> M \<and> FieldDeletedAt \<in> M))"

definition attachmentFields :: "(ID \<Rightarrow> str) \<Rightarrow> (str \<Rightarrow> ID option) \<Rightarrow> fieldMap \<Rightarrow> bool" where
  "attachmentFields us up m \<longleftrightarrow> uuidText us up \<and> (\<exists>s M. m = AttachmentValues us s |` M)"

definition commentFields :: "(ID \<Rightarrow> str) \<Rightarrow> (str \<Rightarrow> ID option) \<Rightarrow> fieldMap \<Rightarrow> bool" where
  "commentFields us up m \<longleftrightarrow> uuidText us up \<and> (\<exists>s M. m = CommentValues us s |` M)"

definition dayFields :: "fieldMap \<Rightarrow> bool" where
  "dayFields m \<longleftrightarrow> (\<exists>s M. m = DayValues s |` M \<and> \<not> (FieldDate \<in> M \<and> FieldDeletedAt \<in> M))"

lemma slotFieldsI:
  "uuidText us up \<Longrightarrow> \<not> timeInvalid (sStartTime s) \<Longrightarrow> \<not> timeInvalid (sEndTime s) \<Longrightarrow>
   \<not> (FieldStatusChangedAt \<in> M \<and> FieldDeletedAt \<in> M) \<Longrightarrow> slotFields us up (SlotValues us s |` M)"
  unfolding slotFields_def by blast

interpretation slotReg: lww_registers "SlotValues us" "slotSteps up" "slotFields us up" for us up
proof
  fix m e assume "slotFields us up m"
  then obtain s M where m: "m = SlotValues us s |` M" and a: "uuidText us up"
      "\<not> timeInvalid (sStartTime s)" "\<not> timeInvalid (sEndTime s)"
      "\<not> (FieldStatusChangedAt \<in> M \<and> FieldDeletedAt \<in> M)"
    by (auto simp: slotFields_def)
  show "\<exists>e' st p. runSteps (slotSteps up m) (e, [], None) = (None, (e', st, p)) \<and>
      SlotValues us e' = SlotValues us e ++ m"
    using slotSteps_overlay [OF a, of e] overlaySlot_regs [of us M s e] unfolding m by blast
qed

interpretation optionReg: lww_registers "OptionValues us" "optionSteps up" "optionFields us up" for us up
proof
  fix m e assume "optionFields us up m"
  then obtain s M where m: "m = OptionValues us s |` M" and a: "uuidText us up"
      "\<not> (FieldPlaceLat \<in> M \<and> FieldPlaceLng \<in> M \<and> plLat (oPlace s) \<noteq> None)"
    by (auto simp: optionFields_def)
  show "\<exists>e' st p. runSteps (optionSteps up m) (e, [], None) = (None, (e', st, p)) \<and>
      OptionValues us e' = OptionValues us e ++ m"
    using optionSteps_overlay [OF a, of e] overlayOption_regs [of us M s e] unfolding m by blast
qed

interpretation voteReg: lww_registers "VoteValues us" "voteSteps up" "voteFields us up" for us up
proof
  fix m e assume "voteFields us up m"
  then obtain s M where m: "m = VoteValues us s |` M" and a: "uuidText us up"
    by (auto simp: voteFields_def)
  show "\<exists>e' st p. runSteps (voteSteps up m) (e, [], None) = (None, (e', st, p)) \<and>
      VoteValues us e' = VoteValues us e ++ m"
    using voteSteps_overlay [OF a, of s M e] overlayVote_regs [of us M s e] unfolding m by blast
qed

interpretation budgetReg: lww_registers "BudgetValues us" "budgetSteps up" "budgetFields us up" for us up
proof
  fix m e assume "budgetFields us up m"
  then obtain s M where m: "m = BudgetValues us s |` M" and a: "uuidText us up"
      "\<not> (FieldIncurredOn \<in> M \<and> FieldDeletedAt \<in> M)"
    by (auto simp: budgetFields_def)
  show "\<exists>e' st p. runSteps (budgetSteps up m) (e, [], None) = (None, (e', st, p)) \<and>
      BudgetValues us e' = BudgetValues us e ++ m"
    using budgetSteps_overlay [OF a, of s e] overlayBudget_regs [of us M s e] unfolding m by blast
qed

interpretation attachmentReg:
  lww_registers "AttachmentValues us" "attachmentSteps up" "attachmentFields us up" for us up
proof
  fix m e assume "attachmentFields us up m"
  then obtain s M where m: "m = AttachmentValues us s |` M" and a: "uuidText us up"
    by (auto simp: attachmentFields_def)
  show "\<exists>e' st p. runSteps (attachmentSteps up m) (e, [], None) = (None, (e', st, p)) \<and>
      AttachmentValues us e' = AttachmentValues us e ++ m"
    using attachmentSteps_overlay [OF a, of s M e] overlayAttachment_regs [of us M s e] unfolding m by blast
qed

interpretation commentReg: lww_registers "CommentValues us" "commentSteps up" "commentFields us up" for us up
proof
  fix m e assume "commentFields us up m"
  then obtain s M where m: "m = CommentValues us s |` M" and a: "uuidText us up"
    by (auto simp: commentFields_def)
  show "\<exists>e' st p. runSteps (commentSteps up m) (e, [], None) = (None, (e', st, p)) \<and>
      CommentValues us e' = CommentValues us e ++ m"
    using commentSteps_overlay [OF a, of s M e] overlayComment_regs [of us M s e] unfolding m by blast
qed

interpretation dayReg: lww_registers DayValues daySteps dayFields
proof
  fix m e assume "dayFields m"
  then obtain s M where m: "m = DayValues s |` M" and a: "\<not> (FieldDate \<in> M \<and> FieldDeletedAt \<in> M)"
    by (auto simp: dayFields_def)
  show "\<exists>e' st p. runSteps (daySteps m) (e, [], None) = (None, (e', st, p)) \<and>
      DayValues e' = DayValues e ++ m"
    using daySteps_overlay [OF a, of s e] overlayDay_regs [of M s e] unfolding m by blast
qed

section \<open>Operations on one entity\<close>

lemma applyEntity_ok:
  assumes "known \<noteq> None \<or> creates"
    and "runSteps steps (case known of Some e \<Rightarrow> e | None \<Rightarrow> fresh, [], None) = (None, (e', st, p))"
  shows "applyEntity known creates fresh steps setVersion = (None, Some (setVersion e'))"
  using assms by (simp add: applyEntity_def)

lemma applyEntity_unknown:
  "applyEntity None False fresh steps setVersion = (Some errUnknownEntity, None)"
  by (simp add: applyEntity_def)

lemma SlotValues_version [simp]: "SlotValues us (s\<lparr>sVersion := v\<rparr>) = SlotValues us s"
  by (simp add: SlotValues_def)

lemma BudgetValues_version [simp]: "BudgetValues us (s\<lparr>bVersion := v\<rparr>) = BudgetValues us s"
  by (simp add: BudgetValues_def)

definition newSlot :: "Op \<Rightarrow> Slot" where
  "newSlot op = zeroSlot\<lparr>sID := opEntityID op, sTripID := opTripID op, sCreatedBy := opActorID op\<rparr>"

definition slotBefore :: "Op \<Rightarrow> Replica \<Rightarrow> Slot" where
  "slotBefore op r = (case rSlots r (opEntityID op) of Some s \<Rightarrow> s | None \<Rightarrow> newSlot op)"

lemma Apply_slot_eq:
  assumes "opSeq op = rSeq r + 1" "OpKind_Entity (opKind op) = ''slot''" "opPayload op = Some p"
    and "rSlots r (opEntityID op) \<noteq> None \<or> opKind op = OpSlotCreate" "slotFields us up (pFields p)"
  shows "Apply up op r = (None, r\<lparr>rSeq := opSeq op, rSlots := (rSlots r)(opEntityID op \<mapsto>
    (applyFields (slotSteps up) (pFields p) (slotBefore op r))\<lparr>sVersion := pVersion p\<rparr>)\<rparr>)"
proof -
  obtain st q where run: "runSteps (slotSteps up (pFields p)) (slotBefore op r, [], None) =
      (None, (applyFields (slotSteps up) (pFields p) (slotBefore op r), st, q))"
    using slotReg.steps_succeed [OF assms(5)] by blast
  have "applyEntity (rSlots r (opEntityID op)) (opKind op = OpSlotCreate) (newSlot op)
      (slotSteps up (pFields p)) (\<lambda>s. s\<lparr>sVersion := pVersion p\<rparr>) =
      (None, Some ((applyFields (slotSteps up) (pFields p) (slotBefore op r))\<lparr>sVersion := pVersion p\<rparr>))"
    using assms(4) run [unfolded slotBefore_def] by (simp add: applyEntity_ok slotBefore_def)
  then show ?thesis using assms(1-3)
    by (simp add: Apply_def PayloadFields_def PayloadVersion_def applySlot_def newSlot_def)
qed

section \<open>Sample data\<close>

text \<open>Concrete identifier texts and operations, on which the properties are evaluated.\<close>

definition unaryText :: "ID \<Rightarrow> str" where
  "unaryText i = replicate (unat i) CHR ''x''"

definition unaryParse :: "str \<Rightarrow> ID option" where
  "unaryParse t = Some (of_nat (length t))"

lemma uuidText_unary: "uuidText unaryText unaryParse"
  by (simp add: uuidText_def unaryText_def unaryParse_def)

definition sampleVoteOp :: "int \<Rightarrow> Op" where
  "sampleVoteOp n = \<lparr>opID = 1, opTripID = 1, opSeq = n, opActorID = None, opKind = OpVoteSet,
     opEntityID = 7, opFields = [], opPayload = Some \<lparr>pFields = Map.empty, pVersion = 1, pUpdatedAt = 0\<rparr>,
     opClientOpID = None, opCauseOpID = None, opCreatedAt = 0\<rparr>"

definition sampleSlot :: Slot where
  "sampleSlot = zeroSlot\<lparr>sID := 7, sTripID := 1, sKind := ''lodging'', sTitle := ''Goa'',
     sPosition := ''a0'', sStatus := ''planned'', sVersion := 1\<rparr>"

definition sampleSlotOp :: "OpKind \<Rightarrow> FieldMask \<Rightarrow> Slot \<Rightarrow> int \<Rightarrow> Op" where
  "sampleSlotOp k msk s n = \<lparr>opID = 1, opTripID = 1, opSeq = n, opActorID = Some 3, opKind = k,
     opEntityID = 7, opFields = msk,
     opPayload = Some \<lparr>pFields = SlotValues unaryText s |` set msk, pVersion = sVersion s, pUpdatedAt = 0\<rparr>,
     opClientOpID = None, opCauseOpID = None, opCreatedAt = 0\<rparr>"

lemma sampleSlot_valid: "Slot_Validate sampleSlot = Inr ()"
proof -
  have "TrimSpace ''Goa'' = ''Goa''" by (rule TrimSpace_ascii) (simp_all add: isSpaceRune_def)
  then show ?thesis
    by (simp add: Slot_Validate_iff sampleSlot_def zeroSlot_def NilID_def SlotKind_Valid_def
        SlotStatus_Valid_def RuneCount_ascii timeInvalid_def endsBeforeStart_def)
qed

section \<open>Properties\<close>

text \<open>Applying an operation that was already folded changes nothing; an operation that skips a
  sequence number is refused and changes nothing; an operation that is folded advances the sequence
  to its own, and one that fails leaves the sequence where it was.\<close>

theorem Apply_sequencing:
  "(opSeq op \<le> rSeq r \<longrightarrow> Apply up op r = (None, r)) \<and>
   (opSeq op > rSeq r + 1 \<longrightarrow> Apply up op r = (Some errGap, r)) \<and>
   (opSeq op = rSeq r + 1 \<longrightarrow>
      rSeq (snd (Apply up op r)) = (if fst (Apply up op r) = None then opSeq op else rSeq r))"
  using Apply_redelivery Apply_gap Apply_seq [of up op r "fst (Apply up op r)" "snd (Apply up op r)"]
  by auto

theorem Apply_sequencing_witness:
  "let op = \<lparr>opID = 1, opTripID = 1, opSeq = 3, opActorID = None, opKind = OpVoteSet, opEntityID = 7,
       opFields = [], opPayload = None, opClientOpID = None, opCauseOpID = None, opCreatedAt = 0\<rparr> in
   Apply (\<lambda>_. None) op NewReplica = (Some errGap, NewReplica)"
  using Apply_sequencing [of "\<lparr>opID = 1, opTripID = 1, opSeq = 3, opActorID = None, opKind = OpVoteSet,
      opEntityID = 7, opFields = [], opPayload = None, opClientOpID = None, opCauseOpID = None,
      opCreatedAt = 0\<rparr>" NewReplica "\<lambda>_. None"]
  by (simp add: NewReplica_def)

text \<open>A client that folded a prefix of the log and resumes from there, even when operations it
  already folded are delivered again in between, reaches the same state as one that folds the whole
  log at once.\<close>

theorem Fold_resume:
  assumes "Fold up xs = Inr r" "set dup \<subseteq> set xs"
  shows "Fold up (xs @ dup @ ys) = Fold up (xs @ ys) \<and> Fold up (xs @ ys) = foldFrom up r ys"
proof -
  have "\<forall>op \<in> set dup. opSeq op \<le> rSeq r"
    using foldFrom_seq [of up NewReplica xs r] assms by (auto simp: Fold_def)
  then have "foldFrom up r dup = Inr r" by (rule foldFrom_redelivered)
  then show ?thesis using assms(1) by (simp add: Fold_def foldFrom_append)
qed

theorem Fold_resume_witness:
  "Fold unaryParse ([sampleVoteOp 1] @ [sampleVoteOp 1] @ [sampleVoteOp 2]) =
     Fold unaryParse [sampleVoteOp 1, sampleVoteOp 2]"
proof -
  obtain r where "Fold unaryParse [sampleVoteOp 1] = Inr r"
    by (simp add: Fold_def Apply_def PayloadFields_def PayloadVersion_def sampleVoteOp_def NewReplica_def
        OpKind_Entity_def applyVote_def applyEntity_def voteSteps_def stepVal_def)
  then show ?thesis
    using Fold_resume [of unaryParse "[sampleVoteOp 1]" r "[sampleVoteOp 1]" "[sampleVoteOp 2]"] by simp
qed

text \<open>C35: the fold of a slot operation refines the abstract specification of the design: the slot
  is a map from field name to register, and the operation, whose payload the server built from the
  persisted slot, overwrites exactly the registers its mask names with the persisted values; the
  version becomes the persisted one, every other slot and every other entity stays as it was.\<close>

theorem slot_operation_registers:
  assumes "opSeq op = rSeq r + 1" "OpKind_Entity (opKind op) = ''slot''"
    and "FieldMask_Validate msk (opKind op) = Inr ()"
    and "SlotPayload us s msk = Inr p" "opPayload op = Some p"
    and "rSlots r (opEntityID op) \<noteq> None \<or> opKind op = OpSlotCreate"
    and "uuidText us up" "Slot_Validate s = Inr ()"
  shows "\<exists>s'. Apply up op r = (None, r\<lparr>rSeq := opSeq op, rSlots := (rSlots r)(opEntityID op \<mapsto> s')\<rparr>) \<and>
    SlotValues us s' = SlotValues us (slotBefore op r) ++ (SlotValues us s |` set msk) \<and>
    sVersion s' = sVersion s"
proof -
  have p: "pFields p = SlotValues us s |` set msk" "pVersion p = sVersion s"
    using assms(4) by (simp_all add: SlotPayload_def buildPayload_eq)
  have "\<not> (FieldStatusChangedAt \<in> set msk \<and> FieldDeletedAt \<in> set msk)"
    using assms(3) by (cases "opKind op") (auto simp: FieldMask_Validate_iff AllowedFields_def opKinds_def)
  then have wf: "slotFields us up (pFields p)"
    using assms(7,8) p(1) by (auto simp: slotFields_def Slot_Validate_iff)
  show ?thesis
    using Apply_slot_eq [OF assms(1,2,5,6) wf] slotReg.writes_registers [OF wf, of "slotBefore op r"] p
    by (intro exI [of _ "(applyFields (slotSteps up) (pFields p) (slotBefore op r))\<lparr>sVersion := sVersion s\<rparr>"]) simp
qed

theorem slot_operation_registers_witness:
  "\<exists>s'. Apply unaryParse (sampleSlotOp OpSlotCreate [FieldTitle] sampleSlot 1) NewReplica =
     (None, NewReplica\<lparr>rSeq := 1, rSlots := (rSlots NewReplica)(7 \<mapsto> s')\<rparr>) \<and> sVersion s' = 1"
proof -
  have "SlotPayload unaryText sampleSlot [FieldTitle] =
      Inr \<lparr>pFields = SlotValues unaryText sampleSlot |` set [FieldTitle], pVersion = 1, pUpdatedAt = 0\<rparr>"
    by (simp add: SlotPayload_def buildPayload_eq SlotValues_fields sampleSlot_def zeroSlot_def zeroTime_def)
  moreover have "FieldMask_Validate [FieldTitle] OpSlotCreate = Inr ()"
    by (simp add: FieldMask_Validate_iff OpKind_Valid_def AllowedFields_def opKinds_def
        RequiresTotalMask_def totalMaskKinds_def)
  moreover have "sVersion sampleSlot = 1" by (simp add: sampleSlot_def)
  ultimately show ?thesis
    using slot_operation_registers [of "sampleSlotOp OpSlotCreate [FieldTitle] sampleSlot 1" NewReplica
        "[FieldTitle]" unaryText sampleSlot _ unaryParse] uuidText_unary sampleSlot_valid
    by (auto simp: sampleSlotOp_def NewReplica_def OpKind_Entity_def)
qed

text \<open>C36: two concurrent slot operations merge: whichever of them the sequencer orders first, when
  they name different fields both folds succeed and end with the same registers, holding both
  edits; and always the operation ordered last wins every field it names.\<close>

theorem slot_concurrent_edits:
  assumes "rSlots r i = Some s" "opEntityID a = i" "opEntityID b = i"
    and "OpKind_Entity (opKind a) = ''slot''" "OpKind_Entity (opKind b) = ''slot''"
    and "opPayload a = Some p" "opPayload b = Some q" "slotFields us up (pFields p)" "slotFields us up (pFields q)"
  shows "\<exists>sab sba rab rba.
      foldFrom up r [a\<lparr>opSeq := rSeq r + 1\<rparr>, b\<lparr>opSeq := rSeq r + 2\<rparr>] = Inr rab \<and> rSlots rab i = Some sab \<and>
      foldFrom up r [b\<lparr>opSeq := rSeq r + 1\<rparr>, a\<lparr>opSeq := rSeq r + 2\<rparr>] = Inr rba \<and> rSlots rba i = Some sba \<and>
      (dom (pFields p) \<inter> dom (pFields q) = {} \<longrightarrow> SlotValues us sab = SlotValues us sba) \<and>
      SlotValues us sab = SlotValues us s ++ pFields p ++ pFields q"
proof -
  let ?f = "applyFields (slotSteps up)"
  have run: "\<exists>rxy sxy. foldFrom up r [x\<lparr>opSeq := rSeq r + 1\<rparr>, y\<lparr>opSeq := rSeq r + 2\<rparr>] = Inr rxy \<and>
      rSlots rxy i = Some sxy \<and> SlotValues us sxy = SlotValues us s ++ pFields px ++ pFields py"
    if "opEntityID x = i" "opEntityID y = i" "OpKind_Entity (opKind x) = ''slot''"
      "OpKind_Entity (opKind y) = ''slot''" "opPayload x = Some px" "opPayload y = Some py"
      "slotFields us up (pFields px)" "slotFields us up (pFields py)" for x y px py
  proof -
    let ?s1 = "(?f (pFields px) s)\<lparr>sVersion := pVersion px\<rparr>"
    let ?r1 = "r\<lparr>rSeq := rSeq r + 1, rSlots := (rSlots r)(i \<mapsto> ?s1)\<rparr>"
    let ?s2 = "(?f (pFields py) ?s1)\<lparr>sVersion := pVersion py\<rparr>"
    have 1: "Apply up (x\<lparr>opSeq := rSeq r + 1\<rparr>) r = (None, ?r1)"
      using Apply_slot_eq [of "x\<lparr>opSeq := rSeq r + 1\<rparr>" r px us up] that assms(1)
      by (simp add: slotBefore_def)
    have 2: "Apply up (y\<lparr>opSeq := rSeq r + 2\<rparr>) ?r1 =
        (None, ?r1\<lparr>rSeq := rSeq r + 2, rSlots := (rSlots ?r1)(i \<mapsto> ?s2)\<rparr>)"
      using Apply_slot_eq [of "y\<lparr>opSeq := rSeq r + 2\<rparr>" ?r1 py us up] that
      by (simp add: slotBefore_def)
    have "SlotValues us ?s2 = SlotValues us s ++ pFields px ++ pFields py"
      using that(7,8) by (simp add: slotReg.writes_registers)
    then show ?thesis using 1 2 by auto
  qed
  obtain rab sab where ab: "foldFrom up r [a\<lparr>opSeq := rSeq r + 1\<rparr>, b\<lparr>opSeq := rSeq r + 2\<rparr>] = Inr rab"
      "rSlots rab i = Some sab" "SlotValues us sab = SlotValues us s ++ pFields p ++ pFields q"
    using run [OF assms(2-9)] by blast
  obtain rba sba where ba: "foldFrom up r [b\<lparr>opSeq := rSeq r + 1\<rparr>, a\<lparr>opSeq := rSeq r + 2\<rparr>] = Inr rba"
      "rSlots rba i = Some sba" "SlotValues us sba = SlotValues us s ++ pFields q ++ pFields p"
    using run [OF assms(3,2,5,4,7,6,9,8)] by blast
  have "SlotValues us sab = SlotValues us sba" if "dom (pFields p) \<inter> dom (pFields q) = {}"
    using ab(3) ba(3) map_add_comm [OF that] by (simp flip: map_add_assoc)
  then show ?thesis using ab ba by blast
qed

definition sampleReplica :: Replica where
  "sampleReplica = NewReplica\<lparr>rSlots := [7 \<mapsto> sampleSlot]\<rparr>"

theorem slot_concurrent_edits_witness:
  "let a = sampleSlotOp OpSlotEdit [FieldTitle] (sampleSlot\<lparr>sTitle := ''Baga''\<rparr>) 0;
       b = sampleSlotOp OpSlotEdit [FieldNotes] (sampleSlot\<lparr>sNotes := ''ask''\<rparr>) 0 in
   \<exists>sab sba rab rba.
      foldFrom unaryParse sampleReplica [a\<lparr>opSeq := 1\<rparr>, b\<lparr>opSeq := 2\<rparr>] = Inr rab \<and> rSlots rab 7 = Some sab \<and>
      foldFrom unaryParse sampleReplica [b\<lparr>opSeq := 1\<rparr>, a\<lparr>opSeq := 2\<rparr>] = Inr rba \<and> rSlots rba 7 = Some sba \<and>
      SlotValues unaryText sab = SlotValues unaryText sba"
proof -
  define sa sb where "sa = sampleSlot\<lparr>sTitle := ''Baga''\<rparr>" and "sb = sampleSlot\<lparr>sNotes := ''ask''\<rparr>"
  let ?a = "sampleSlotOp OpSlotEdit [FieldTitle] sa 0"
  let ?b = "sampleSlotOp OpSlotEdit [FieldNotes] sb 0"
  have "slotFields unaryText unaryParse (SlotValues unaryText sa |` set [FieldTitle])"
    "slotFields unaryText unaryParse (SlotValues unaryText sb |` set [FieldNotes])"
    by (rule slotFieldsI [OF uuidText_unary];
        simp add: sa_def sb_def sampleSlot_def zeroSlot_def timeInvalid_def)+
  moreover have "dom (SlotValues unaryText sa |` set [FieldTitle]) \<inter>
      dom (SlotValues unaryText sb |` set [FieldNotes]) = {}"
    by auto
  ultimately show ?thesis unfolding Let_def sa_def [symmetric] sb_def [symmetric]
    using slot_concurrent_edits [of sampleReplica 7 sampleSlot ?a ?b
        "\<lparr>pFields = SlotValues unaryText sa |` set [FieldTitle], pVersion = sVersion sa, pUpdatedAt = 0\<rparr>"
        "\<lparr>pFields = SlotValues unaryText sb |` set [FieldNotes], pVersion = sVersion sb, pUpdatedAt = 0\<rparr>"
        unaryText unaryParse]
    by (simp add: sampleReplica_def NewReplica_def sampleSlotOp_def OpKind_Entity_def) blast
qed

section \<open>Budget entries keep their sum\<close>

definition newBudget :: "Op \<Rightarrow> BudgetEntry" where
  "newBudget op = zeroBudget\<lparr>bID := opEntityID op, bTripID := opTripID op, bCreatedBy := opActorID op\<rparr>"

definition budgetBefore :: "Op \<Rightarrow> Replica \<Rightarrow> BudgetEntry" where
  "budgetBefore op r = (case rBudgets r (opEntityID op) of Some e \<Rightarrow> e | None \<Rightarrow> newBudget op)"

lemma wireSplits_amounts:
  "mset (map (\<lambda>s. (bsUserID s, bsAmountMinor s)) (wireSplits us ss)) =
   mset (map (\<lambda>s. (bsUserID s, bsAmountMinor s)) ss)"
  by (simp add: wireSplits_def comp_def)

lemma wireSplits_total: "sum_list (map bsAmountMinor (wireSplits us ss)) = sum_list (map bsAmountMinor ss)"
proof -
  have "mset (map bsAmountMinor (wireSplits us ss)) = mset (map bsAmountMinor ss)"
    by (simp add: wireSplits_def comp_def)
  then show ?thesis by (metis sum_mset_sum_list)
qed

lemma budget_mask_total:
  assumes "FieldMask_Validate msk OpBudgetSet = Inr ()"
  shows "set msk = {FieldLabel, FieldCategory, FieldAmountMinor, FieldSlotOptionID, FieldPaidBy,
    FieldIncurredOn, FieldSplits}"
  using assms by (simp add: FieldMask_Validate_iff AllowedFields_def opKinds_def)

text \<open>Folding a budget write carries the whole entry: the folded entry has the persisted
  amount, category, payer and label and the persisted shares of the same members, so its shares sum
  to its total exactly when those of the persisted entry do; no fold of accepted budget operations
  can break the ledger's invariant.\<close>

theorem budget_fold_keeps_sum:
  assumes "opSeq op = rSeq r + 1" "opKind op = OpBudgetSet"
    and "FieldMask_Validate msk OpBudgetSet = Inr ()" "BudgetPayload us e msk = Inr p" "opPayload op = Some p"
    and "uuidText us up"
  shows "\<exists>e'. Apply up op r = (None, r\<lparr>rSeq := opSeq op, rBudgets := (rBudgets r)(opEntityID op \<mapsto> e')\<rparr>) \<and>
    bAmountMinor e' = bAmountMinor e \<and> SplitTotal e' = SplitTotal e \<and>
    mset (map (\<lambda>s. (bsUserID s, bsAmountMinor s)) (bSplits e')) =
      mset (map (\<lambda>s. (bsUserID s, bsAmountMinor s)) (bSplits e)) \<and>
    bVersion e' = bVersion e"
proof -
  let ?b = "budgetBefore op r"
  let ?e' = "(overlayBudget us (set msk) e ?b)\<lparr>bVersion := bVersion e\<rparr>"
  have p: "pFields p = BudgetValues us e |` set msk" "pVersion p = bVersion e"
    using assms(4) by (simp_all add: BudgetPayload_def buildPayload_eq)
  have nd: "\<not> (FieldIncurredOn \<in> set msk \<and> FieldDeletedAt \<in> set msk)"
    unfolding budget_mask_total [OF assms(3)] by simp
  obtain st q where run: "runSteps (budgetSteps up (pFields p)) (?b, [], None) =
      (None, (overlayBudget us (set msk) e ?b, st, q))"
    using budgetSteps_overlay [OF assms(6) nd, of e ?b] unfolding p(1) by blast
  have "applyEntity (rBudgets r (opEntityID op)) (opKind op = OpBudgetSet) (newBudget op)
      (budgetSteps up (pFields p)) (\<lambda>x. x\<lparr>bVersion := bVersion e\<rparr>) = (None, Some ?e')"
    using run [unfolded budgetBefore_def] assms(2) by (simp add: applyEntity_ok budgetBefore_def)
  then have "Apply up op r = (None, r\<lparr>rSeq := opSeq op, rBudgets := (rBudgets r)(opEntityID op \<mapsto> ?e')\<rparr>)"
    using assms(1,2,5) p(2)
    by (simp add: Apply_def PayloadFields_def PayloadVersion_def OpKind_Entity_def applyBudget_def newBudget_def)
  moreover have "bAmountMinor ?e' = bAmountMinor e" "bSplits ?e' = wireSplits us (bSplits e)"
    using budget_mask_total [OF assms(3)] by (simp_all add: overlayBudget_def)
  ultimately show ?thesis
    by (intro exI [of _ ?e']) (simp add: SplitTotal_eq wireSplits_total wireSplits_amounts del: mset_map)
qed

definition sampleBudgetMask :: FieldMask where
  "sampleBudgetMask = [FieldLabel, FieldCategory, FieldAmountMinor, FieldSlotOptionID, FieldPaidBy,
     FieldIncurredOn, FieldSplits]"

theorem budget_fold_keeps_sum_witness:
  "let e = sampleEntry 10 [sampleSplit 1 4, sampleSplit 2 6];
       op = (sampleVoteOp 1)\<lparr>opKind := OpBudgetSet,
         opPayload := Some \<lparr>pFields = BudgetValues unaryText e |` set sampleBudgetMask, pVersion = 1, pUpdatedAt = 0\<rparr>\<rparr> in
   \<exists>e'. Apply unaryParse op NewReplica =
       (None, NewReplica\<lparr>rSeq := 1, rBudgets := (rBudgets NewReplica)(7 \<mapsto> e')\<rparr>) \<and>
     SplitTotal e' = 10 \<and> bAmountMinor e' = 10"
proof -
  let ?e = "sampleEntry 10 [sampleSplit 1 4, sampleSplit 2 6]"
  let ?p = "\<lparr>pFields = BudgetValues unaryText ?e |` set sampleBudgetMask, pVersion = 1, pUpdatedAt = 0\<rparr>"
  have "FieldMask_Validate sampleBudgetMask OpBudgetSet = Inr ()"
    by (simp add: FieldMask_Validate_iff AllowedFields_def opKinds_def OpKind_Valid_def sampleBudgetMask_def)
  moreover have "BudgetPayload unaryText ?e sampleBudgetMask = Inr ?p"
    by (simp add: BudgetPayload_def buildPayload_eq BudgetValues_fields sampleBudgetMask_def)
      (simp add: sampleEntry_def)
  moreover have "SplitTotal ?e = 10" by (simp add: SplitTotal_eq sampleEntry_def sampleSplit_def)
  ultimately show ?thesis
    using budget_fold_keeps_sum [of "(sampleVoteOp 1)\<lparr>opKind := OpBudgetSet, opPayload := Some ?p\<rparr>"
        NewReplica sampleBudgetMask unaryText ?e ?p unaryParse] uuidText_unary
    by (auto simp: sampleVoteOp_def NewReplica_def Let_def sampleEntry_valid_base)
qed

section \<open>The coordinates of an option\<close>

text \<open>The fold of an option breaks the contract for coordinates. An option operation that names
  both coordinates and persisted a latitude and a longitude folds without error into an option whose
  latitude is the persisted longitude: the second decode writes through the pointer that the first one
  stored.\<close>

theorem option_coordinates_aliased:
  assumes "opSeq op = rSeq r + 1" "opKind op = OpOptionCreate \<or> opKind op = OpOptionEdit \<and> rOptions r (opEntityID op) \<noteq> None"
    and "OptionPayload us s msk = Inr p" "opPayload op = Some p" "uuidText us up"
    and "FieldPlaceLat \<in> set msk" "FieldPlaceLng \<in> set msk"
    and "plLat (oPlace s) = Some lat" "plLng (oPlace s) = Some lng"
  shows "\<exists>o'. Apply up op r = (None, r\<lparr>rSeq := opSeq op, rOptions := (rOptions r)(opEntityID op \<mapsto> o')\<rparr>) \<and>
    plLat (oPlace o') = Some lng \<and> plLng (oPlace o') = Some lng"
proof -
  define fresh where "fresh = zeroOption\<lparr>oID := opEntityID op, oTripID := opTripID op, oProposedBy := opActorID op\<rparr>"
  define b where "b = (case rOptions r (opEntityID op) of Some e \<Rightarrow> e | None \<Rightarrow> fresh)"
  have p: "pFields p = OptionValues us s |` set msk"
    using assms(3) by (simp add: OptionPayload_def buildPayload_eq)
  let ?o = "(overlayOption (set msk) s b)\<lparr>oPlace := (oPlace (overlayOption (set msk) s b))\<lparr>plLat := Some lng\<rparr>\<rparr>"
  obtain st q where run: "runSteps (optionSteps up (pFields p)) (b, [], None) = (None, (?o, st, q))"
    using optionSteps_aliased [OF assms(5-9), of b] unfolding p by blast
  have "applyEntity (rOptions r (opEntityID op)) (opKind op = OpOptionCreate) fresh
      (optionSteps up (pFields p)) (\<lambda>x. x\<lparr>oVersion := pVersion p\<rparr>) = (None, Some (?o\<lparr>oVersion := pVersion p\<rparr>))"
    using run [unfolded b_def] assms(2) by (intro applyEntity_ok) (auto simp: b_def)
  then have "Apply up op r = (None, r\<lparr>rSeq := opSeq op,
      rOptions := (rOptions r)(opEntityID op \<mapsto> ?o\<lparr>oVersion := pVersion p\<rparr>)\<rparr>)"
    using assms(1,2,4)
    by (auto simp: Apply_def PayloadFields_def PayloadVersion_def OpKind_Entity_def applyOption_def fresh_def)
  then show ?thesis using assms(7,9)
    by (intro exI [of _ "?o\<lparr>oVersion := pVersion p\<rparr>"]) (simp add: overlayOption_def)
qed

theorem option_coordinates_aliased_witness:
  "let s = zeroOption\<lparr>oPlace := (oPlace zeroOption)\<lparr>plLat := Some 15, plLng := Some 73\<rparr>\<rparr>;
       op = (sampleVoteOp 1)\<lparr>opKind := OpOptionCreate,
         opPayload := Some \<lparr>pFields = OptionValues unaryText s |` set [FieldPlaceLat, FieldPlaceLng],
           pVersion = 0, pUpdatedAt = 0\<rparr>\<rparr> in
   \<exists>o'. Apply unaryParse op NewReplica =
       (None, NewReplica\<lparr>rSeq := 1, rOptions := (rOptions NewReplica)(7 \<mapsto> o')\<rparr>) \<and>
     plLat (oPlace o') = Some 73"
proof -
  let ?s = "zeroOption\<lparr>oPlace := (oPlace zeroOption)\<lparr>plLat := Some 15, plLng := Some 73\<rparr>\<rparr>"
  let ?p = "\<lparr>pFields = OptionValues unaryText ?s |` set [FieldPlaceLat, FieldPlaceLng], pVersion = 0, pUpdatedAt = 0\<rparr>"
  have "OptionPayload unaryText ?s [FieldPlaceLat, FieldPlaceLng] = Inr ?p"
    unfolding OptionPayload_def buildPayload_eq
    by (simp add: OptionValues_fields) (simp add: zeroOption_def zeroTime_def)
  then show ?thesis
    using option_coordinates_aliased [of "(sampleVoteOp 1)\<lparr>opKind := OpOptionCreate, opPayload := Some ?p\<rparr>"
        NewReplica unaryText ?s "[FieldPlaceLat, FieldPlaceLng]" ?p unaryParse 15 73] uuidText_unary
    by (auto simp: sampleVoteOp_def NewReplica_def Let_def)
qed

end
