(* ===== verification/Permission.thy ===== *)
theory Permission
  imports Errors
begin

text \<open>Roles, capabilities and actors (src/internal/domain/permission.go). \<^theory_text>\<open>Role\<close> is a Go string
  type, so a role outside the three known ones is \<^theory_text>\<open>UnknownRole\<close>; a \<^theory_text>\<open>CapabilitySet\<close> is a set.\<close>

datatype Role = RoleOwner | RoleEditor | RoleViewer | UnknownRole str

datatype Capability =
    CapViewTrip | CapEditTrip | CapDeleteTrip
  | CapCreateSlots | CapEditSlots | CapDeleteSlots | CapReorderSlots | CapManageDays
  | CapProposeOptions | CapManageBudget | CapUploadAttachments
  | CapInviteMembers | CapManageMembers | CapTransferOwnership
  | CapComment | CapVote

definition AssignableRoles :: "Role list" where
  "AssignableRoles = [RoleEditor, RoleViewer]"

definition roleCapabilities :: "Role \<Rightarrow> Capability set option" where
  "roleCapabilities r =
     (case r of
        RoleOwner \<Rightarrow> Some
          {CapViewTrip, CapEditTrip, CapDeleteTrip,
           CapCreateSlots, CapEditSlots, CapDeleteSlots, CapReorderSlots, CapManageDays,
           CapProposeOptions, CapManageBudget, CapUploadAttachments,
           CapInviteMembers, CapManageMembers, CapTransferOwnership,
           CapComment, CapVote}
      | RoleEditor \<Rightarrow> Some
          {CapViewTrip,
           CapCreateSlots, CapEditSlots, CapDeleteSlots, CapReorderSlots, CapManageDays,
           CapProposeOptions, CapManageBudget, CapUploadAttachments,
           CapInviteMembers,
           CapComment, CapVote}
      | RoleViewer \<Rightarrow> Some {CapViewTrip}
      | UnknownRole _ \<Rightarrow> None)"

definition Role_Valid :: "Role \<Rightarrow> bool" where
  "Role_Valid r = (roleCapabilities r \<noteq> None)"

definition Capabilities :: "Role \<Rightarrow> Capability set" where
  "Capabilities r = (case roleCapabilities r of Some s \<Rightarrow> s | None \<Rightarrow> {})"

record Actor =
  aUserID :: ID
  aTripID :: ID
  aRole :: Role

definition Can :: "Actor \<Rightarrow> Capability \<Rightarrow> bool" where
  "Can a c = (c \<in> Capabilities (aRole a))"

definition Authorize :: "Actor \<Rightarrow> Capability \<Rightarrow> unit res" where
  "Authorize a c = (if Can a c then Inr () else Inl ErrForbidden)"

lemma Authorize_Inr [simp]: "Authorize a c = Inr u \<longleftrightarrow> Can a c"
  by (simp add: Authorize_def)

lemma Authorize_Inl [simp]: "Authorize a c = Inl e \<longleftrightarrow> \<not> Can a c \<and> e = ErrForbidden"
  by (auto simp: Authorize_def)

lemma Capabilities_mono:
  "Capabilities RoleViewer \<subseteq> Capabilities RoleEditor"
  "Capabilities RoleEditor \<subseteq> Capabilities RoleOwner"
  by (simp_all add: Capabilities_def roleCapabilities_def)

lemma owner_can_all: "aRole a = RoleOwner \<Longrightarrow> Can a c"
  by (cases c) (simp_all add: Can_def Capabilities_def roleCapabilities_def)

lemma viewer_can_iff: "aRole a = RoleViewer \<Longrightarrow> Can a c \<longleftrightarrow> c = CapViewTrip"
  by (simp add: Can_def Capabilities_def roleCapabilities_def)

lemma unknown_role_can_nothing: "\<not> Role_Valid (aRole a) \<Longrightarrow> \<not> Can a c"
  by (auto simp: Role_Valid_def Can_def Capabilities_def)

lemma editor_can_iff:
  "aRole a = RoleEditor \<Longrightarrow>
     Can a c \<longleftrightarrow> c \<notin> {CapEditTrip, CapDeleteTrip, CapManageMembers, CapTransferOwnership}"
  by (cases c) (simp_all add: Can_def Capabilities_def roleCapabilities_def)

text \<open>Capabilities grow with the role: an unknown role can do nothing, a viewer exactly view,
  an editor everything but editing or deleting the trip and managing its members, an owner
  everything; and \<^theory_text>\<open>Authorize\<close> answers \<^theory_text>\<open>ErrForbidden\<close> exactly where \<^theory_text>\<open>Can\<close> is false.\<close>

theorem role_capabilities:
  "Authorize a c =
     (case aRole a of
        RoleOwner \<Rightarrow> Inr ()
      | RoleEditor \<Rightarrow>
          if c \<in> {CapEditTrip, CapDeleteTrip, CapManageMembers, CapTransferOwnership}
          then Inl ErrForbidden else Inr ()
      | RoleViewer \<Rightarrow> if c = CapViewTrip then Inr () else Inl ErrForbidden
      | UnknownRole _ \<Rightarrow> Inl ErrForbidden)"
  by (simp add: Authorize_def owner_can_all editor_can_iff viewer_can_iff
      unknown_role_can_nothing Role_Valid_def roleCapabilities_def split: Role.split)

end
