(* ===== verification/Membership.thy ===== *)
theory Membership
  imports Permission Itinerary
begin

text \<open>Trips, members, invitations and pages (src/internal/domain/trip.go, invitation.go,
  pagination.go), and the account entities (user.go, auth.go) with their validity checks over time.

  \<^theory_text>\<open>time.LoadLocation\<close> consults the time-zone database and \<^theory_text>\<open>mail.ParseAddress\<close> the RFC 5322
  grammar: both are parameters (the known zones, the parsed address).\<close>

section \<open>Trips\<close>

record Trip =
  trID :: ID
  trName :: str
  trDescription :: str
  trStartDate :: "instant option"
  trEndDate :: "instant option"
  trTimeZone :: str
  trVersion :: int
  trCreatedAt :: instant
  trUpdatedAt :: instant
  trDeletedAt :: "instant option"

definition Trip_IsDeleted :: "Trip \<Rightarrow> bool" where
  "Trip_IsDeleted t = (trDeletedAt t \<noteq> None)"

definition datesReversed :: "instant option \<Rightarrow> instant option \<Rightarrow> bool" where
  "datesReversed st en = (case (st, en) of (Some a, Some b) \<Rightarrow> b < a | _ \<Rightarrow> False)"

definition validateTimeZone :: "(str \<Rightarrow> bool) \<Rightarrow> str \<Rightarrow> FieldViolation list \<Rightarrow> FieldViolation list" where
  "validateTimeZone knownZone tz ve =
     (if tz = [] then Add ''time_zone'' ''required'' ve
      else if \<not> knownZone tz then Add ''time_zone'' ''unknown_timezone'' ve
      else ve)"

definition Trip_Validate :: "(str \<Rightarrow> bool) \<Rightarrow> Trip \<Rightarrow> unit res" where
  "Trip_Validate knownZone t =
     (let ve = validateTitle ''name'' (trName t) [];
          ve = AddIf (RuneCountInString (trDescription t) > 5000) ''description'' ''too_long'' ve;
          ve = validateTimeZone knownZone (trTimeZone t) ve;
          ve = AddIf (datesReversed (trStartDate t) (trEndDate t)) ''end_date'' ''before_start'' ve
      in OrNil ve)"

section \<open>Members\<close>

record Member =
  mID :: ID
  mTripID :: ID
  mUserID :: ID
  mRole :: Role
  mInvitedBy :: "ID option"
  mJoinedAt :: instant
  mVersion :: int
  mCreatedAt :: instant
  mUpdatedAt :: instant
  mDeletedAt :: "instant option"

definition Member_Actor :: "Member \<Rightarrow> Actor" where
  "Member_Actor m = \<lparr>aUserID = mUserID m, aTripID = mTripID m, aRole = mRole m\<rparr>"

definition Member_Validate :: "Member \<Rightarrow> unit res" where
  "Member_Validate m =
     OrNil (AddIf (\<not> Role_Valid (mRole m)) ''role'' ''invalid_role''
       (AddIf (mUserID m = NilID) ''user_id'' ''required''
       (AddIf (mTripID m = NilID) ''trip_id'' ''required'' [])))"

section \<open>Users\<close>

record User =
  uID :: ID
  uEmail :: str
  uPasswordHash :: str
  uDisplayName :: str
  uEmailVerifiedAt :: "instant option"
  uVersion :: int
  uCreatedAt :: instant
  uUpdatedAt :: instant
  uDeletedAt :: "instant option"

definition IsEmailVerified :: "User \<Rightarrow> bool" where
  "IsEmailVerified u = (uEmailVerifiedAt u \<noteq> None)"

definition User_IsDeleted :: "User \<Rightarrow> bool" where
  "User_IsDeleted u = (uDeletedAt u \<noteq> None)"

definition ValidateEmail ::
  "(str \<Rightarrow> str option) \<Rightarrow> str \<Rightarrow> str \<Rightarrow> FieldViolation list \<Rightarrow> FieldViolation list" where
  "ValidateEmail parseAddress field email ve =
     (let trimmed = TrimSpace email in
      if trimmed = [] then Add field ''required'' ve
      else if length trimmed > 320 then Add field ''too_long'' ve
      else if parseAddress trimmed \<noteq> Some trimmed \<or> CHR ''@'' \<notin> set trimmed
      then Add field ''invalid_format'' ve
      else ve)"

definition MinPasswordLength :: nat where "MinPasswordLength = 8"

definition MaxPasswordLength :: nat where "MaxPasswordLength = 1024"

definition ValidatePassword :: "str \<Rightarrow> str \<Rightarrow> FieldViolation list \<Rightarrow> FieldViolation list" where
  "ValidatePassword field password ve =
     (if password = [] then Add field ''required'' ve
      else if RuneCountInString password < MinPasswordLength then Add field ''too_short'' ve
      else if length password > MaxPasswordLength then Add field ''too_long'' ve
      else ve)"

definition ValidateDisplayName :: "str \<Rightarrow> str \<Rightarrow> FieldViolation list \<Rightarrow> FieldViolation list" where
  "ValidateDisplayName field name ve =
     (let trimmed = TrimSpace name in
      if trimmed = [] then Add field ''required'' ve
      else if RuneCountInString trimmed > 100 then Add field ''too_long'' ve
      else ve)"

definition User_Validate :: "(str \<Rightarrow> str option) \<Rightarrow> User \<Rightarrow> unit res" where
  "User_Validate parseAddress u =
     (let ve = ValidateEmail parseAddress ''email'' (uEmail u) [];
          ve = ValidateDisplayName ''display_name'' (uDisplayName u) ve;
          ve = AddIf (uPasswordHash u = []) ''password_hash'' ''required'' ve
      in OrNil ve)"

section \<open>Invitations\<close>

record Invitation =
  iID :: ID
  iTripID :: ID
  iEmail :: "str option"
  iRole :: Role
  iTokenHash :: str
  iCreatedBy :: ID
  iMaxUses :: "int option"
  iUseCount :: int
  iExpiresAt :: instant
  iRevokedAt :: "instant option"
  iCreatedAt :: instant

definition IsLinkInvite :: "Invitation \<Rightarrow> bool" where
  "IsLinkInvite i = (iEmail i = None)"

definition IsRedeemable :: "Invitation \<Rightarrow> instant \<Rightarrow> bool" where
  "IsRedeemable i now =
     (if iRevokedAt i \<noteq> None \<or> \<not> now < iExpiresAt i then False
      else (case iMaxUses i of None \<Rightarrow> True | Some m \<Rightarrow> iUseCount i < m))"

definition Invitation_Validate :: "(str \<Rightarrow> str option) \<Rightarrow> Invitation \<Rightarrow> unit res" where
  "Invitation_Validate parseAddress i =
     (let ve = AddIf (iTripID i = NilID) ''trip_id'' ''required'' [];
          ve = AddIf (iCreatedBy i = NilID) ''created_by'' ''required'' ve;
          ve = AddIf (iRole i \<noteq> RoleEditor \<and> iRole i \<noteq> RoleViewer) ''role'' ''invalid_role'' ve;
          ve = (case iEmail i of None \<Rightarrow> ve | Some e \<Rightarrow> ValidateEmail parseAddress ''email'' e ve);
          ve = AddIf (case iMaxUses i of None \<Rightarrow> False | Some m \<Rightarrow> m < 1) ''max_uses'' ''out_of_range'' ve;
          ve = AddIf (iUseCount i < 0) ''use_count'' ''out_of_range'' ve;
          ve = AddIf (length (iTokenHash i) \<noteq> 32) ''token_hash'' ''invalid_length'' ve;
          ve = AddIf (iExpiresAt i = zeroTime) ''expires_at'' ''required'' ve
      in OrNil ve)"

section \<open>Sessions and tokens\<close>

record AuthSession =
  asID :: ID
  asUserID :: ID
  asUserAgent :: str
  asIP :: "str option"
  asCreatedAt :: instant
  asLastUsedAt :: instant
  asExpiresAt :: instant
  asRevokedAt :: "instant option"
  asRevokedReason :: str

abbreviation "RevokeReasonLogout \<equiv> ''logout''"
abbreviation "RevokeReasonTokenReuse \<equiv> ''refresh_token_reuse_detected''"
abbreviation "RevokeReasonPasswordReset \<equiv> ''password_reset''"
abbreviation "RevokeReasonUserRequest \<equiv> ''revoked_by_user''"

definition AuthSession_IsActive :: "AuthSession \<Rightarrow> instant \<Rightarrow> bool" where
  "AuthSession_IsActive s now \<longleftrightarrow> asRevokedAt s = None \<and> now < asExpiresAt s"

record RefreshToken =
  rtID :: ID
  rtSessionID :: ID
  rtTokenHash :: str
  rtIssuedAt :: instant
  rtExpiresAt :: instant
  rtUsedAt :: "instant option"
  rtReplacedBy :: "ID option"

definition RefreshToken_IsUsed :: "RefreshToken \<Rightarrow> bool" where
  "RefreshToken_IsUsed t = (rtUsedAt t \<noteq> None)"

definition RefreshToken_IsExpired :: "RefreshToken \<Rightarrow> instant \<Rightarrow> bool" where
  "RefreshToken_IsExpired t now = (\<not> now < rtExpiresAt t)"

datatype TokenPurpose = TokenPurposeEmailVerify | TokenPurposePasswordReset | UnknownPurpose str

definition TokenPurpose_Valid :: "TokenPurpose \<Rightarrow> bool" where
  "TokenPurpose_Valid p \<longleftrightarrow> p = TokenPurposeEmailVerify \<or> p = TokenPurposePasswordReset"

record UserToken =
  utID :: ID
  utUserID :: ID
  utPurpose :: TokenPurpose
  utTokenHash :: str
  utExpiresAt :: instant
  utConsumedAt :: "instant option"
  utCreatedAt :: instant

definition UserToken_IsUsable :: "UserToken \<Rightarrow> instant \<Rightarrow> bool" where
  "UserToken_IsUsable t now \<longleftrightarrow> utConsumedAt t = None \<and> now < utExpiresAt t"

section \<open>Pages\<close>

definition DefaultPageSize :: int where "DefaultPageSize = 25"

definition MaxPageSize :: int where "MaxPageSize = 100"

record PageRequest =
  prLimit :: int
  prAfter :: str

definition Normalize :: "PageRequest \<Rightarrow> PageRequest" where
  "Normalize p =
     (if prLimit p \<le> 0 then p\<lparr>prLimit := DefaultPageSize\<rparr>
      else if prLimit p > MaxPageSize then p\<lparr>prLimit := MaxPageSize\<rparr>
      else p)"

record 'a Page =
  pgItems :: "'a list"
  pgNextCursor :: str
  pgHasMore :: bool

text \<open>\<^theory_text>\<open>rows[:limit]\<close> of a limit that the caller normalised, so it is not negative.\<close>

definition NewPage :: "'a list \<Rightarrow> int \<Rightarrow> ('a \<Rightarrow> str) \<Rightarrow> 'a Page" where
  "NewPage rows limit cursorOf =
     (let hasMore = int (length rows) > limit;
          rows' = (if hasMore then take (nat limit) rows else rows)
      in \<lparr>pgItems = rows',
          pgNextCursor = (if rows' \<noteq> [] \<and> hasMore then cursorOf (last rows') else []),
          pgHasMore = hasMore\<rparr>)"

section \<open>Lemmas\<close>

lemma Trip_Validate_iff [validate_simps]:
  "Trip_Validate kz t = Inr () \<longleftrightarrow>
     TrimSpace (trName t) \<noteq> [] \<and> RuneCountInString (TrimSpace (trName t)) \<le> 200 \<and>
     RuneCountInString (trDescription t) \<le> 5000 \<and> trTimeZone t \<noteq> [] \<and> kz (trTimeZone t) \<and>
     \<not> datesReversed (trStartDate t) (trEndDate t)"
  by (auto simp: Trip_Validate_def validateTimeZone_def Let_def)

lemma Member_Validate_iff [validate_simps]:
  "Member_Validate m = Inr () \<longleftrightarrow> mTripID m \<noteq> NilID \<and> mUserID m \<noteq> NilID \<and> Role_Valid (mRole m)"
  by (auto simp: Member_Validate_def)

lemma ValidateEmail_Nil:
  "ValidateEmail pa f e ve = [] \<longleftrightarrow> ve = [] \<and> TrimSpace e \<noteq> [] \<and> length (TrimSpace e) \<le> 320 \<and>
     pa (TrimSpace e) = Some (TrimSpace e) \<and> CHR ''@'' \<in> set (TrimSpace e)"
  by (auto simp: ValidateEmail_def Let_def)

lemma Invitation_Validate_iff [validate_simps]:
  "Invitation_Validate pa i = Inr () \<longleftrightarrow>
     iTripID i \<noteq> NilID \<and> iCreatedBy i \<noteq> NilID \<and> (iRole i = RoleEditor \<or> iRole i = RoleViewer) \<and>
     (\<forall>e. iEmail i = Some e \<longrightarrow> ValidateEmail pa ''email'' e [] = []) \<and>
     (\<forall>m. iMaxUses i = Some m \<longrightarrow> 1 \<le> m) \<and> 0 \<le> iUseCount i \<and> length (iTokenHash i) = 32 \<and>
     iExpiresAt i \<noteq> zeroTime"
  by (auto simp: Invitation_Validate_def Let_def ValidateEmail_Nil split: option.splits)

lemma Normalize_bounds: "1 \<le> prLimit (Normalize p) \<and> prLimit (Normalize p) \<le> 100"
  by (auto simp: Normalize_def DefaultPageSize_def MaxPageSize_def)

lemma Normalize_idem: "Normalize (Normalize p) = Normalize p"
  by (simp add: Normalize_def DefaultPageSize_def MaxPageSize_def)

text \<open>A page built from the rows fetched with one row more than the normalised limit holds at
  most the limit of them (at most 100), is a prefix of the rows, says whether a row was left out,
  and carries the cursor of its last row exactly then.\<close>

theorem page_bounds:
  "let limit = prLimit (Normalize req); page = NewPage rows limit cursorOf in
     1 \<le> limit \<and> limit \<le> 100 \<and>
     pgItems page = take (nat limit) rows \<and>
     pgHasMore page = (int (length rows) > limit) \<and>
     pgNextCursor page = (if int (length rows) > limit then cursorOf (rows ! (nat limit - 1)) else [])"
proof -
  let ?l = "prLimit (Normalize req)"
  have l: "1 \<le> ?l" "?l \<le> 100" using Normalize_bounds by auto
  have last: "last (take (nat ?l) rows) = rows ! (nat ?l - 1)" if "int (length rows) > ?l"
    using that l by (subst last_conv_nth) (auto simp: min_def)
  show ?thesis using l last by (auto simp: NewPage_def Let_def)
qed

end
