(* ===== verification/Store.thy ===== *)
theory Store
  imports Convergence Membership "HOL-Library.Product_Lexorder"
begin

text \<open>The database as the services see it (src/internal/repository: errors.go, db.go, and the shape
  that the statements of queries/ under the constraints of migrations/ share): tables as lists of
  rows, transactions as functions that return an error or a new state, and the mapping of database
  errors to domain errors.

  A failed statement aborts its transaction, so an error drops the state: that is the rollback of
  \<^theory_text>\<open>TxManager.WithinTx\<close>. Reads and writes of one trip are serialised by the row lock that every write
  takes first, so a transaction is one function from state to state. References to users are not
  checked: the users table belongs to the identity module and every referenced user is a member.\<close>

section \<open>State\<close>

record DB =
  dbTrips :: "Trip list"
  dbOpSeq :: "ID \<Rightarrow> int"
  dbMembers :: "Member list"
  dbDays :: "Day list"
  dbSlots :: "Slot list"
  dbOptions :: "SlotOption list"
  dbVotes :: "Vote list"
  dbBudgets :: "BudgetEntry list"
  dbAttachments :: "Attachment list"
  dbComments :: "Comment list"
  dbInvitations :: "Invitation list"
  dbOps :: "Op list"

text \<open>What a request brings from outside the model: the clock of the services, the clock the
  repositories read (\<^theory_text>\<open>time.Now\<close>), the database's \<^theory_text>\<open>now()\<close>, what a \<^theory_text>\<open>timestamptz\<close> or \<^theory_text>\<open>date\<close> column keeps of an
  instant, the identifiers \<^theory_text>\<open>NewID\<close> returns (the \<^theory_text>\<open>n\<close>th operation of the request gets \<^theory_text>\<open>eOpID n\<close>, its
  \<^theory_text>\<open>n\<close>th split \<^theory_text>\<open>eSplitID n\<close>), the identifier texts, and the origin (\<^theory_text>\<open>domain.OpOrigin\<close>) of the write.\<close>

record Env =
  eNow :: instant
  eWall :: instant
  eTxNow :: instant
  eTimestamp :: "instant \<Rightarrow> instant"
  eDate :: "instant \<Rightarrow> instant"
  eNewID :: ID
  eOpID :: "nat \<Rightarrow> ID"
  eSplitID :: "nat \<Rightarrow> ID"
  eText :: "ID \<Rightarrow> str"
  eClientOpID :: "ID option"
  eCauseOpID :: "ID option"

text \<open>A transaction in progress: the database as this transaction sees it and the operations its
  recorder has accumulated.\<close>

record Tx =
  txDB :: DB
  txOps :: "Op list"

type_synonym 'a tx = "Tx \<Rightarrow> error + ('a \<times> Tx)"

definition returnT :: "'a \<Rightarrow> 'a tx" where
  "returnT x t = Inr (x, t)"

definition failT :: "error \<Rightarrow> 'a tx" where
  "failT e t = Inl e"

definition bindT :: "'a tx \<Rightarrow> ('a \<Rightarrow> 'b tx) \<Rightarrow> 'b tx" where
  "bindT m f t = (case m t of Inl e \<Rightarrow> Inl e | Inr (x, t') \<Rightarrow> f x t')"

definition liftT :: "'a res \<Rightarrow> 'a tx" where
  "liftT r t = (case r of Inl e \<Rightarrow> Inl e | Inr x \<Rightarrow> Inr (x, t))"

definition readT :: "(DB \<Rightarrow> 'a res) \<Rightarrow> 'a tx" where
  "readT f t = (case f (txDB t) of Inl e \<Rightarrow> Inl e | Inr x \<Rightarrow> Inr (x, t))"

definition stmtT :: "(DB \<Rightarrow> ('a \<times> DB) res) \<Rightarrow> 'a tx" where
  "stmtT f t = (case f (txDB t) of Inl e \<Rightarrow> Inl e | Inr (x, db) \<Rightarrow> Inr (x, t\<lparr>txDB := db\<rparr>))"

definition whenT :: "bool \<Rightarrow> unit tx \<Rightarrow> unit tx" where
  "whenT b m = (if b then m else returnT ())"

section \<open>Database errors\<close>

text \<open>What the driver reports: no row, a violated constraint by name, a retryable failure, or another
  SQLSTATE.\<close>

datatype PgError =
    ErrNoRows
  | UniqueViolation str
  | ForeignKeyViolation str
  | CheckViolation str
  | SerializationFail
  | DeadlockDetected
  | OtherCode str

type_synonym 'a query = "PgError + 'a"

definition constraintViolations :: "str \<Rightarrow> FieldViolation option" where
  "constraintViolations = map_of
     [(''users_email_lower_uq'', FieldViolation ''email'' ''email_taken''),
      (''trip_members_uq'', FieldViolation ''user_id'' ''already_member''),
      (''trip_members_owner_uq'', FieldViolation ''role'' ''owner_exists''),
      (''days_trip_date_uq'', FieldViolation ''date'' ''date_taken''),
      (''slots_day_fk'', FieldViolation ''day_id'' ''day_not_in_trip''),
      (''slots_selected_option_fk'', FieldViolation ''selected_option_id'' ''option_not_in_slot''),
      (''slot_options_slot_fk'', FieldViolation ''slot_id'' ''slot_not_in_trip''),
      (''option_votes_option_fk'', FieldViolation ''option_id'' ''option_not_in_slot''),
      (''option_votes_slot_fk'', FieldViolation ''slot_id'' ''slot_not_in_trip''),
      (''option_votes_uq'', FieldViolation ''user_id'' ''already_voted''),
      (''budget_entries_option_fk'', FieldViolation ''slot_option_id'' ''option_not_in_trip''),
      (''slots_times'', FieldViolation ''end_time'' ''before_start''),
      (''slots_status'', FieldViolation ''status'' ''invalid_status''),
      (''slots_kind'', FieldViolation ''kind'' ''invalid_kind''),
      (''slot_options_latlng'', FieldViolation ''place'' ''incomplete_coordinates''),
      (''slot_options_cost'', FieldViolation ''estimated_cost'' ''negative''),
      (''budget_entries_amount'', FieldViolation ''amount'' ''negative''),
      (''budget_entries_category'', FieldViolation ''category'' ''invalid_category''),
      (''budget_splits_uq'', FieldViolation ''splits'' ''duplicate_member''),
      (''attachments_one_owner'', FieldViolation ''owner'' ''exactly_one_required''),
      (''attachments_shape'', FieldViolation ''kind'' ''invalid_shape''),
      (''attachments_storage_key_uq'', FieldViolation ''storage_key'' ''already_used''),
      (''comments_slot_fk'', FieldViolation ''slot_id'' ''slot_not_in_trip''),
      (''comments_body_len'', FieldViolation ''body'' ''invalid_length''),
      (''trips_base_currency'', FieldViolation ''base_currency'' ''invalid_currency''),
      (''trip_invitations_role'', FieldViolation ''role'' ''invalid_role''),
      (''trips_dates_ordered'', FieldViolation ''end_date'' ''before_start'')]"

definition constraintName :: "PgError \<Rightarrow> str" where
  "constraintName e = (case e of
       UniqueViolation c \<Rightarrow> c | ForeignKeyViolation c \<Rightarrow> c | CheckViolation c \<Rightarrow> c | _ \<Rightarrow> [])"

text \<open>\<^theory_text>\<open>mapError\<close>: a check violation carries no column name, so its field is empty.\<close>

definition mapError :: "PgError \<Rightarrow> error" where
  "mapError e =
     (if e = ErrNoRows then ErrNotFound
      else case constraintViolations (constraintName e) of
        Some v \<Rightarrow> ValidationError [v]
      | None \<Rightarrow>
          (case e of
             UniqueViolation _ \<Rightarrow> ErrAlreadyExists
           | ForeignKeyViolation _ \<Rightarrow> ErrNotFound
           | CheckViolation _ \<Rightarrow> ValidationError [FieldViolation [] ''constraint_violation'']
           | SerializationFail \<Rightarrow> ErrVersionConflict
           | DeadlockDetected \<Rightarrow> ErrVersionConflict
           | OtherCode c \<Rightarrow> ErrOther c
           | ErrNoRows \<Rightarrow> ErrNotFound))"

definition mapErrorR :: "'a query \<Rightarrow> 'a res" where
  "mapErrorR q = (case q of Inl e \<Rightarrow> Inl (mapError e) | Inr x \<Rightarrow> Inr x)"

definition isNoRows :: "PgError \<Rightarrow> bool" where
  "isNoRows e = (e = ErrNoRows)"

definition resolveWriteMiss :: "bool \<Rightarrow> error" where
  "resolveWriteMiss exists = (if exists then ErrVersionConflict else ErrNotFound)"

text \<open>\<^theory_text>\<open>resolve\<close>: a versioned write that matched no row is explained by whether the row exists (at all,
  deleted or not).\<close>

definition resolve :: "bool \<Rightarrow> 'a query \<Rightarrow> 'a res" where
  "resolve exists q =
     (case q of
        Inr x \<Rightarrow> Inr x
      | Inl e \<Rightarrow> if \<not> isNoRows e then Inl (mapError e) else Inl (resolveWriteMiss exists))"

definition violates :: "(bool \<times> PgError) list \<Rightarrow> unit query" where
  "violates cs = (case find fst cs of None \<Rightarrow> Inr () | Some c \<Rightarrow> Inl (snd c))"

section \<open>Statements\<close>

definition findRow :: "('r \<Rightarrow> ID) \<Rightarrow> ID \<Rightarrow> 'r list \<Rightarrow> 'r option" where
  "findRow key i rows = find (\<lambda>r. key r = i) rows"

definition updRow :: "('r \<Rightarrow> ID) \<Rightarrow> ID \<Rightarrow> ('r \<Rightarrow> 'r) \<Rightarrow> 'r list \<Rightarrow> 'r list" where
  "updRow key i f rows = map (\<lambda>r. if key r = i then f r else r) rows"

text \<open>\<^theory_text>\<open>SELECT * ... WHERE id = @id AND deleted_at IS NULL\<close>, with \<^theory_text>\<open>mapError\<close> of no rows.\<close>

definition getLive :: "('r \<Rightarrow> ID) \<Rightarrow> ('r \<Rightarrow> instant option) \<Rightarrow> 'r list \<Rightarrow> ID \<Rightarrow> 'r res" where
  "getLive key del rows i =
     (case findRow key i rows of
        Some r \<Rightarrow> if del r = None then Inr r else Inl ErrNotFound
      | None \<Rightarrow> Inl ErrNotFound)"

text \<open>\<^theory_text>\<open>INSERT ... RETURNING *\<close>: the checks of the row in the order of their names, the primary key,
  then the references.\<close>

definition insertRow ::
  "str \<Rightarrow> ('r \<Rightarrow> ID) \<Rightarrow> ('r \<Rightarrow> unit query) \<Rightarrow> ('r \<Rightarrow> unit query) \<Rightarrow> 'r \<Rightarrow> 'r list \<Rightarrow> ('r \<times> 'r list) query"
where
  "insertRow pkey key check refs r rows =
     bindR (check r) (\<lambda>_.
       if findRow key (key r) rows \<noteq> None then Inl (UniqueViolation pkey)
       else bindR (refs r) (\<lambda>_. Inr (r, rows @ [r])))"

text \<open>The version column is a 32-bit integer: \<^theory_text>\<open>versionArg\<close> truncates.\<close>

definition versionArg :: "int \<Rightarrow> int" where
  "versionArg v = signed_take_bit 31 v"

definition maxInt32 :: int where "maxInt32 = 2147483647"

text \<open>\<^theory_text>\<open>UPDATE ... SET ..., version = version + 1 WHERE id = @id AND version = @version AND deleted_at IS
  NULL RETURNING *\<close>. Returns the new row and the new table.\<close>

definition updateRow ::
  "('r \<Rightarrow> ID) \<Rightarrow> ('r \<Rightarrow> int) \<Rightarrow> ('r \<Rightarrow> instant option) \<Rightarrow> ('r \<Rightarrow> unit query) \<Rightarrow>
   ID \<Rightarrow> int \<Rightarrow> ('r \<Rightarrow> 'r) \<Rightarrow> 'r list \<Rightarrow> ('r \<times> 'r list) query" where
  "updateRow key ver del check i v f rows =
     (case findRow key i rows of
        None \<Rightarrow> Inl ErrNoRows
      | Some r \<Rightarrow>
          if ver r \<noteq> v \<or> del r \<noteq> None then Inl ErrNoRows
          else if ver r = maxInt32 then Inl (OtherCode ''22003'')
          else bindR (check (f r)) (\<lambda>_. Inr (f r, updRow key i f rows)))"

text \<open>The versioned write of a repository: the statement at the truncated version, then \<^theory_text>\<open>resolve\<close>.\<close>

definition updateVersioned ::
  "('r \<Rightarrow> ID) \<Rightarrow> ('r \<Rightarrow> int) \<Rightarrow> ('r \<Rightarrow> instant option) \<Rightarrow> ('r \<Rightarrow> unit query) \<Rightarrow>
   ID \<Rightarrow> int \<Rightarrow> ('r \<Rightarrow> 'r) \<Rightarrow> 'r list \<Rightarrow> ('r \<times> 'r list) res" where
  "updateVersioned key ver del check i expected f rows =
     resolve (findRow key i rows \<noteq> None) (updateRow key ver del check i (versionArg expected) f rows)"

text \<open>The position keys around an insertion point of a bucket of live rows ordered by \<^theory_text>\<open>(position, id)\<close>:
  before its first row, or after an anchor, which must be live but may lie outside the bucket.\<close>

definition firstPosition :: "('r \<Rightarrow> str) \<Rightarrow> ('r \<Rightarrow> ID) \<Rightarrow> 'r list \<Rightarrow> str" where
  "firstPosition pos key rows =
     (case sort_key (\<lambda>r. (pos r, key r)) rows of [] \<Rightarrow> [] | r # _ \<Rightarrow> pos r)"

definition neighbourPositions ::
  "('r \<Rightarrow> str) \<Rightarrow> ('r \<Rightarrow> ID) \<Rightarrow> ('r \<Rightarrow> instant option) \<Rightarrow> ('r \<Rightarrow> bool) \<Rightarrow> 'r list \<Rightarrow> ID option \<Rightarrow> (str \<times> str) res"
where
  "neighbourPositions pos key del bucket rows after =
     (let live = filter (\<lambda>r. bucket r \<and> del r = None) rows in
      case after of
        None \<Rightarrow> Inr ([], firstPosition pos key live)
      | Some a \<Rightarrow>
          bindR (getLive key del rows a) (\<lambda>anchor.
            Inr (pos anchor,
                 firstPosition pos key (filter (\<lambda>r. (pos anchor, a) < (pos r, key r)) live))))"

section \<open>Generic lemmas\<close>

lemma returnT_simp [simp]: "returnT x t = Inr (x, t)" by (simp add: returnT_def)
lemma failT_simp [simp]: "failT e t = Inl e" by (simp add: failT_def)

lemma bindT_eq_Inr [sum_cases]:
  "bindT m f t = Inr y \<longleftrightarrow> (\<exists>x t'. m t = Inr (x, t') \<and> f x t' = Inr y)"
  by (auto simp: bindT_def split: sum.splits)

lemma bindT_eq_Inl [sum_cases]:
  "bindT m f t = Inl e \<longleftrightarrow> m t = Inl e \<or> (\<exists>x t'. m t = Inr (x, t') \<and> f x t' = Inl e)"
  by (auto simp: bindT_def split: sum.splits)

lemma liftT_eq [simp]:
  "liftT r t = Inr (x, t') \<longleftrightarrow> r = Inr x \<and> t' = t"
  "liftT r t = Inl e \<longleftrightarrow> r = Inl e"
  by (auto simp: liftT_def split: sum.splits)

lemma readT_eq [simp]:
  "readT f t = Inr (x, t') \<longleftrightarrow> f (txDB t) = Inr x \<and> t' = t"
  "readT f t = Inl e \<longleftrightarrow> f (txDB t) = Inl e"
  by (auto simp: readT_def split: sum.splits)

lemma stmtT_eq [simp]:
  "stmtT f t = Inr (x, t') \<longleftrightarrow> (\<exists>db. f (txDB t) = Inr (x, db) \<and> t' = t\<lparr>txDB := db\<rparr>)"
  "stmtT f t = Inl e \<longleftrightarrow> f (txDB t) = Inl e"
  by (auto simp: stmtT_def split: sum.splits)

lemma findRow_key: "findRow key i rows = Some r \<Longrightarrow> key r = i \<and> r \<in> set rows"
  by (auto simp: findRow_def find_Some_iff)

lemma findRow_None: "findRow key i rows = None \<longleftrightarrow> i \<notin> key ` set rows"
  by (auto simp: findRow_def find_None_iff)

lemma findRow_append [simp]:
  "findRow key i (xs @ ys) = (case findRow key i xs of Some r \<Rightarrow> Some r | None \<Rightarrow> findRow key i ys)"
  by (induction xs) (auto simp: findRow_def)

lemma findRow_single [simp]: "findRow key i [r] = (if key r = i then Some r else None)"
  by (simp add: findRow_def)

lemma findRow_updRow:
  assumes "\<And>r. key (f r) = key r"
  shows "findRow key j (updRow key i f rows) =
    (if j = i then map_option f (findRow key i rows) else findRow key j rows)"
  using assms by (induction rows) (auto simp: findRow_def updRow_def)

lemma map_key_updRow:
  assumes "\<And>r. key (f r) = key r"
  shows "map key (updRow key i f rows) = map key rows"
  using assms by (simp add: updRow_def)

lemma getLive_Inr: "getLive key del rows i = Inr r \<longleftrightarrow> findRow key i rows = Some r \<and> del r = None"
  by (auto simp: getLive_def split: option.splits)

lemma getLive_Inl: "getLive key del rows i = Inl e \<Longrightarrow> e = ErrNotFound"
  by (auto simp: getLive_def split: option.splits if_splits)

lemma versionArg_small: "- (2 ^ 31) \<le> v \<Longrightarrow> v < 2 ^ 31 \<Longrightarrow> versionArg v = v"
  by (simp add: versionArg_def signed_take_bit_int_eq_self)

lemma violates_Nil [simp]: "violates [] = Inr ()"
  by (simp add: violates_def)

lemma violates_Cons [simp]: "violates ((b, e) # cs) = (if b then Inl e else violates cs)"
  by (simp add: violates_def)

lemma mapErrorR_eq [simp]:
  "mapErrorR q = Inr x \<longleftrightarrow> q = Inr x"
  "mapErrorR q = Inl e \<longleftrightarrow> (\<exists>p. q = Inl p \<and> e = mapError p)"
  by (auto simp: mapErrorR_def split: sum.splits)

lemma resolve_Inr [simp]: "resolve b q = Inr x \<longleftrightarrow> q = Inr x"
  by (auto simp: resolve_def split: sum.splits)

lemma updateRow_Inr:
  "updateRow key ver del check i v f rows = Inr (r', rows') \<longleftrightarrow>
     (\<exists>r. findRow key i rows = Some r \<and> ver r = v \<and> del r = None \<and> ver r \<noteq> maxInt32 \<and>
        check (f r) = Inr () \<and> r' = f r \<and> rows' = updRow key i f rows)"
  by (auto simp: updateRow_def sum_cases split: option.splits)

lemma updateVersioned_Inr:
  "updateVersioned key ver del check i expected f rows = Inr (r', rows') \<longleftrightarrow>
     (\<exists>r. findRow key i rows = Some r \<and> ver r = versionArg expected \<and> del r = None \<and> ver r \<noteq> maxInt32 \<and>
        check (f r) = Inr () \<and> r' = f r \<and> rows' = updRow key i f rows)"
  by (simp add: updateVersioned_def updateRow_Inr)

lemma insertRow_Inr:
  "insertRow pkey key check refs r rows = Inr (r', rows') \<longleftrightarrow>
     check r = Inr () \<and> findRow key (key r) rows = None \<and> refs r = Inr () \<and> r' = r \<and> rows' = rows @ [r]"
  by (auto simp: insertRow_def sum_cases split: option.splits if_splits)

section \<open>Insertion points\<close>

lemma firstPosition_least:
  assumes "r \<in> set rows"
  shows "firstPosition pos key rows \<le> pos r"
proof (cases "sort_key (\<lambda>r. (pos r, key r)) rows")
  case Nil
  then have "set rows = {}" by (metis set_sort set_empty)
  then show ?thesis using assms by simp
next
  case (Cons x xs)
  have "r \<in> set (x # xs)" using assms by (metis Cons set_sort)
  moreover have "sorted (map (\<lambda>r. (pos r, key r)) (x # xs))" by (metis Cons sorted_sort_key)
  ultimately have "(pos x, key x) \<le> (pos r, key r)" by auto
  then show ?thesis using Cons by (auto simp: firstPosition_def less_eq_prod_def)
qed

lemma firstPosition_nonempty:
  assumes "r \<in> set rows" "\<forall>x \<in> set rows. pos x \<noteq> []"
  shows "firstPosition pos key rows \<noteq> []"
proof (cases "sort_key (\<lambda>r. (pos r, key r)) rows")
  case Nil
  then have "set rows = {}" by (metis set_sort set_empty)
  then show ?thesis using assms(1) by simp
next
  case (Cons x xs)
  have "x \<in> set rows" by (metis Cons list.set_intros(1) set_sort)
  then show ?thesis using assms(2) Cons by (simp add: firstPosition_def)
qed

text \<open>A key strictly between the neighbours splits the live rows of the bucket: those up to the lower
  neighbour, and those above the key. It is the position of none of them.\<close>

lemma neighbourPositions_bracket:
  assumes "neighbourPositions pos key del bucket rows after = Inr (prev, nxt)"
    and "prev < k" "nxt = [] \<or> k < nxt" "\<forall>x \<in> set rows. pos x \<noteq> []"
    and "r \<in> set rows" "bucket r" "del r = None"
  shows "pos r \<le> prev \<or> k < pos r"
proof -
  let ?live = "filter (\<lambda>r. bucket r \<and> del r = None) rows"
  obtain above where nxt: "nxt = firstPosition pos key (filter above ?live)"
    and below: "\<not> above r \<Longrightarrow> pos r \<le> prev"
  proof (cases after)
    case None
    then show ?thesis using assms(1) by (intro that [of "\<lambda>_. True"]) (auto simp: neighbourPositions_def Let_def)
  next
    case (Some a)
    then obtain anchor where "prev = pos anchor"
      "nxt = firstPosition pos key (filter (\<lambda>r. (pos anchor, a) < (pos r, key r)) ?live)"
      using assms(1) by (auto simp: neighbourPositions_def Let_def sum_cases)
    then show ?thesis by (intro that) (auto simp: less_prod_def not_less)
  qed
  show ?thesis
  proof (cases "above r")
    case True
    then have r: "r \<in> set (filter above ?live)" using assms(5-7) by simp
    have "nxt \<noteq> []" unfolding nxt using assms(4) by (intro firstPosition_nonempty [OF r]) simp
    moreover have "nxt \<le> pos r" unfolding nxt by (rule firstPosition_least [OF r])
    ultimately show ?thesis using assms(3) by auto
  qed (use below in auto)
qed

lemma find_SomeD: "find P xs = Some x \<Longrightarrow> x \<in> set xs \<and> P x"
  by (auto simp: find_Some_iff)

section \<open>Optimistic concurrency as an interface\<close>

text \<open>What every versioned statement of the repositories promises: it keeps the key and bumps the
  version by one. Then it succeeds only on the live row at the expected version, changes that row
  only, and the version it was given is stale afterwards.\<close>

locale versioned_statement =
  fixes key :: "'r \<Rightarrow> ID" and ver :: "'r \<Rightarrow> int" and setClause :: "'r \<Rightarrow> 'r"
  assumes set_key: "key (setClause r) = key r"
    and set_version: "ver (setClause r) = ver r + 1"
begin

lemma update_result:
  assumes "updateVersioned key ver del check i expected setClause rows = Inr (r', rows')"
  shows "\<exists>r. findRow key i rows = Some r \<and> del r = None \<and> ver r = versionArg expected \<and>
    r' = setClause r \<and> findRow key i rows' = Some r' \<and>
    (\<forall>j. j \<noteq> i \<longrightarrow> findRow key j rows' = findRow key j rows) \<and> map key rows' = map key rows"
  using assms set_key by (auto simp: updateVersioned_Inr findRow_updRow map_key_updRow)

lemma stale_version_rejected:
  assumes "updateVersioned key ver del check i expected setClause rows = Inr (r', rows')"
  shows "updateVersioned key ver del' check' i expected g rows' = Inl ErrVersionConflict"
proof -
  obtain r where r: "findRow key i rows = Some r" "ver r = versionArg expected" "r' = setClause r"
      "findRow key i rows' = Some r'"
    using update_result [OF assms] by blast
  then show ?thesis using set_version [of r]
    by (simp add: updateVersioned_def updateRow_def resolve_def isNoRows_def resolveWriteMiss_def)
qed

end

end
