(* ===== verification/Repositories.thy ===== *)
theory Repositories
  imports Store
begin

text \<open>The repositories behind the operation log and the planning services
  (src/internal/repository: trip.go, membership.go, oplog.go, day.go, slot.go, option.go, vote.go,
  comment.go): one function per method, from the database to an error or a value and the new
  database. The checks and references are those of migrations/, each by its constraint name.

  A row is kept as the domain entity its \<^theory_text>\<open>toDomain\<close> function returns, so reading it is the
  identity, except for times of day, which are stored as microseconds.\<close>

section \<open>Trips: existence, lock and sequencer\<close>

definition TripRepository_GetByID :: "ID \<Rightarrow> DB \<Rightarrow> Trip res" where
  "TripRepository_GetByID i db = getLive trID trDeletedAt (dbTrips db) i"

definition LockForWrite :: "ID \<Rightarrow> DB \<Rightarrow> unit res" where
  "LockForWrite tripID db = bindR (getLive trID trDeletedAt (dbTrips db) tripID) (\<lambda>_. Inr ())"

definition NextOpSeq :: "ID \<Rightarrow> DB \<Rightarrow> (int \<times> DB) res" where
  "NextOpSeq tripID db =
     (if findRow trID tripID (dbTrips db) = None then Inl (mapError ErrNoRows)
      else if dbOpSeq db tripID = 2 ^ 63 - 1 then Inl (mapError (OtherCode ''22003''))
      else let seq = dbOpSeq db tripID + 1 in Inr (seq, db\<lparr>dbOpSeq := (dbOpSeq db)(tripID := seq)\<rparr>))"

definition CurrentOpSeq :: "ID \<Rightarrow> DB \<Rightarrow> int res" where
  "CurrentOpSeq tripID db =
     bindR (getLive trID trDeletedAt (dbTrips db) tripID) (\<lambda>_. Inr (dbOpSeq db tripID))"

section \<open>Members\<close>

definition liveMember :: "ID \<Rightarrow> ID \<Rightarrow> Member \<Rightarrow> bool" where
  "liveMember tripID userID m \<longleftrightarrow> mTripID m = tripID \<and> mUserID m = userID \<and> mDeletedAt m = None"

definition MembershipRepository_Get :: "ID \<Rightarrow> ID \<Rightarrow> DB \<Rightarrow> Member res" where
  "MembershipRepository_Get tripID userID db =
     (case find (liveMember tripID userID) (dbMembers db) of
        Some m \<Rightarrow> Inr m
      | None \<Rightarrow> Inl (mapError ErrNoRows))"

definition MembershipRepository_List :: "ID \<Rightarrow> DB \<Rightarrow> Member list" where
  "MembershipRepository_List tripID db =
     sort_key (\<lambda>m. (if mRole m = RoleOwner then 0 else 1 :: nat, mJoinedAt m))
       (filter (\<lambda>m. mTripID m = tripID \<and> mDeletedAt m = None) (dbMembers db))"

section \<open>The operation log\<close>

definition maxOpBatch :: int where "maxOpBatch = 1000"

definition OpLogRepository_Append :: "Env \<Rightarrow> Op \<Rightarrow> DB \<Rightarrow> (Op \<times> DB) res" where
  "OpLogRepository_Append e op db =
     mapErrorR (bindR (violates
       [(opSeq op \<le> 0, CheckViolation ''trip_ops_seq_positive''),
        (list_ex (\<lambda>o'. opID o' = opID op) (dbOps db), UniqueViolation ''trip_ops_pkey''),
        (list_ex (\<lambda>o'. opTripID o' = opTripID op \<and> opSeq o' = opSeq op) (dbOps db),
           UniqueViolation ''trip_ops_trip_seq_uq''),
        (opClientOpID op \<noteq> None \<and>
           list_ex (\<lambda>o'. opTripID o' = opTripID op \<and> opClientOpID o' = opClientOpID op) (dbOps db),
           UniqueViolation ''trip_ops_client_op_uq'')])
       (\<lambda>_. let row = op\<lparr>opCreatedAt := eTxNow e\<rparr> in
            Inr (row, db\<lparr>dbOps := dbOps db @ [row]\<rparr>)))"

definition OpLogRepository_ListSince :: "ID \<Rightarrow> int \<Rightarrow> int \<Rightarrow> DB \<Rightarrow> Op list" where
  "OpLogRepository_ListSince tripID seq limit db =
     (let limit = (if limit \<le> 0 \<or> limit > maxOpBatch then maxOpBatch else limit) in
      take (nat limit) (sort_key opSeq (filter (\<lambda>op. opTripID op = tripID \<and> opSeq op > seq) (dbOps db))))"

definition OpLogRepository_FindByClientOpID :: "ID \<Rightarrow> ID \<Rightarrow> DB \<Rightarrow> Op res" where
  "OpLogRepository_FindByClientOpID tripID clientOpID db =
     (case find (\<lambda>op. opTripID op = tripID \<and> opClientOpID op = Some clientOpID) (dbOps db) of
        Some op \<Rightarrow> Inr op
      | None \<Rightarrow> Inl (mapError ErrNoRows))"

section \<open>Days\<close>

definition dayChecks :: "Day \<Rightarrow> unit query" where
  "dayChecks d = violates
     [(RuneCountInString (dLabel d) > 100, CheckViolation ''days_label_len''),
      (\<not> (1 \<le> RuneCountInString (dPosition d) \<and> RuneCountInString (dPosition d) \<le> 128),
         CheckViolation ''days_position_len'')]"

definition dayDateTaken :: "Day list \<Rightarrow> Day \<Rightarrow> unit query" where
  "dayDateTaken days d = violates
     [(dDate d \<noteq> None \<and> dDeletedAt d = None \<and>
         list_ex (\<lambda>x. dID x \<noteq> dID d \<and> dTripID x = dTripID d \<and> dDate x = dDate d \<and> dDeletedAt x = None) days,
       UniqueViolation ''days_trip_date_uq'')]"

definition DayRepository_Create :: "Env \<Rightarrow> Day \<Rightarrow> DB \<Rightarrow> (Day \<times> DB) res" where
  "DayRepository_Create e d db =
     (let row = d\<lparr>dDate := map_option (eDate e) (dDate d), dVersion := 1, dCreatedAt := eTxNow e,
        dUpdatedAt := eTxNow e, dDeletedAt := None\<rparr> in
      bindR (mapErrorR (insertRow ''days_pkey'' dID dayChecks (dayDateTaken (dbDays db)) row (dbDays db)))
        (\<lambda>(r, rows). Inr (r, db\<lparr>dbDays := rows\<rparr>)))"

definition DayRepository_GetByID :: "ID \<Rightarrow> DB \<Rightarrow> Day res" where
  "DayRepository_GetByID i db = getLive dID dDeletedAt (dbDays db) i"

definition DayRepository_ListForTrip :: "ID \<Rightarrow> DB \<Rightarrow> Day list" where
  "DayRepository_ListForTrip tripID db =
     sort_key (\<lambda>d. (dPosition d, dID d)) (filter (\<lambda>d. dTripID d = tripID \<and> dDeletedAt d = None) (dbDays db))"

definition setDay :: "Env \<Rightarrow> Day \<Rightarrow> Day \<Rightarrow> Day" where
  "setDay e d row = row\<lparr>dDate := map_option (eDate e) (dDate d), dLabel := dLabel d,
     dPosition := dPosition d, dVersion := dVersion row + 1, dUpdatedAt := eTimestamp e (eWall e)\<rparr>"

definition setDayDeleted :: "Env \<Rightarrow> instant \<Rightarrow> Day \<Rightarrow> Day" where
  "setDayDeleted e ts row = row\<lparr>dDeletedAt := Some (eTimestamp e ts), dVersion := dVersion row + 1,
     dUpdatedAt := eTimestamp e ts\<rparr>"

definition DayRepository_Update :: "Env \<Rightarrow> Day \<Rightarrow> DB \<Rightarrow> (Day \<times> DB) res" where
  "DayRepository_Update e d db =
     bindR (updateVersioned dID dVersion dDeletedAt
         (\<lambda>row. bindR (dayChecks row) (\<lambda>_. dayDateTaken (dbDays db) row))
         (dID d) (dVersion d) (setDay e d) (dbDays db))
       (\<lambda>(r, rows). Inr (r, db\<lparr>dbDays := rows\<rparr>))"

definition DayRepository_SoftDelete :: "Env \<Rightarrow> ID \<Rightarrow> instant \<Rightarrow> int \<Rightarrow> DB \<Rightarrow> (unit \<times> DB) res" where
  "DayRepository_SoftDelete e i ts expected db =
     bindR (updateVersioned dID dVersion dDeletedAt dayChecks i expected (setDayDeleted e ts) (dbDays db))
       (\<lambda>(_, rows). Inr ((), db\<lparr>dbDays := rows\<rparr>))"

definition DayRepository_NeighbourPositions :: "ID \<Rightarrow> ID option \<Rightarrow> DB \<Rightarrow> (str \<times> str) res" where
  "DayRepository_NeighbourPositions tripID after db =
     neighbourPositions dPosition dID dDeletedAt (\<lambda>d. dTripID d = tripID) (dbDays db) after"

section \<open>Slots\<close>

definition microsPerSecond :: int where "microsPerSecond = 1000000"

definition fromDomainTimeOfDay :: "TimeOfDay option \<Rightarrow> int option" where
  "fromDomainTimeOfDay t =
     map_option (\<lambda>x. (Hour x * 3600 + Minute x * 60) * microsPerSecond) t"

definition toDomainTimeOfDay :: "int option \<Rightarrow> TimeOfDay option" where
  "toDomainTimeOfDay t =
     map_option (\<lambda>micros. let total = micros div microsPerSecond in
       \<lparr>Hour = total div 3600, Minute = (total mod 3600) div 60\<rparr>) t"

definition storedTime :: "TimeOfDay option \<Rightarrow> TimeOfDay option" where
  "storedTime t = toDomainTimeOfDay (fromDomainTimeOfDay t)"

definition slotChecks :: "Slot \<Rightarrow> unit query" where
  "slotChecks s = violates
     [(\<not> SlotKind_Valid (sKind s), CheckViolation ''slots_kind''),
      (RuneCountInString (sNotes s) > 10000, CheckViolation ''slots_notes_len''),
      (\<not> (1 \<le> RuneCountInString (sPosition s) \<and> RuneCountInString (sPosition s) \<le> 128),
         CheckViolation ''slots_position_len''),
      (\<not> SlotStatus_Valid (sStatus s), CheckViolation ''slots_status''),
      (endsBeforeStart (sStartTime s) (sEndTime s), CheckViolation ''slots_times''),
      (\<not> (1 \<le> RuneCountInString (sTitle s) \<and> RuneCountInString (sTitle s) \<le> 200),
         CheckViolation ''slots_title_len''),
      (sVersion s \<le> 0, CheckViolation ''slots_version'')]"

text \<open>The references of a slot: its trip, its day (in the same trip, deleted or not), its selected
  option (of the same slot, deleted or not).\<close>

definition slotDayFK :: "DB \<Rightarrow> Slot \<Rightarrow> unit query" where
  "slotDayFK db s = violates
     [(case sDayID s of None \<Rightarrow> False
       | Some i \<Rightarrow> \<not> list_ex (\<lambda>d. dID d = i \<and> dTripID d = sTripID s) (dbDays db),
       ForeignKeyViolation ''slots_day_fk'')]"

definition slotOptionFK :: "DB \<Rightarrow> Slot \<Rightarrow> unit query" where
  "slotOptionFK db s = violates
     [(case sSelectedOptionID s of None \<Rightarrow> False
       | Some i \<Rightarrow> \<not> list_ex (\<lambda>x. oID x = i \<and> oSlotID x = sID s) (dbOptions db),
       ForeignKeyViolation ''slots_selected_option_fk'')]"

definition slotRefs :: "DB \<Rightarrow> Slot \<Rightarrow> unit query" where
  "slotRefs db s =
     bindR (violates [(findRow trID (sTripID s) (dbTrips db) = None, ForeignKeyViolation ''slots_trip_fk'')])
       (\<lambda>_. slotDayFK db s)"

definition newSlotRow :: "Env \<Rightarrow> Slot \<Rightarrow> Slot" where
  "newSlotRow e s = s\<lparr>sStartTime := storedTime (sStartTime s), sEndTime := storedTime (sEndTime s),
     sSelectedOptionID := None, sStatusChangedAt := None, sStatusChangedBy := None, sVersion := 1,
     sCreatedAt := eTxNow e, sUpdatedAt := eTxNow e, sDeletedAt := None\<rparr>"

definition SlotRepository_Create :: "Env \<Rightarrow> Slot \<Rightarrow> DB \<Rightarrow> (Slot \<times> DB) res" where
  "SlotRepository_Create e s db =
     bindR (mapErrorR (insertRow ''slots_pkey'' sID slotChecks (slotRefs db) (newSlotRow e s) (dbSlots db)))
       (\<lambda>(r, rows). Inr (r, db\<lparr>dbSlots := rows\<rparr>))"

definition SlotRepository_GetByID :: "ID \<Rightarrow> DB \<Rightarrow> Slot res" where
  "SlotRepository_GetByID i db = getLive sID sDeletedAt (dbSlots db) i"

definition listSlots :: "(Slot \<Rightarrow> bool) \<Rightarrow> DB \<Rightarrow> Slot list" where
  "listSlots P db = sort_key (\<lambda>s. (sPosition s, sID s)) (filter (\<lambda>s. P s \<and> sDeletedAt s = None) (dbSlots db))"

definition SlotRepository_ListForTrip :: "ID \<Rightarrow> DB \<Rightarrow> Slot list" where
  "SlotRepository_ListForTrip tripID db = listSlots (\<lambda>s. sTripID s = tripID) db"

definition SlotRepository_ListForDay :: "ID \<Rightarrow> DB \<Rightarrow> Slot list" where
  "SlotRepository_ListForDay dayID db = listSlots (\<lambda>s. sDayID s = Some dayID) db"

definition SlotRepository_ListBacklog :: "ID \<Rightarrow> DB \<Rightarrow> Slot list" where
  "SlotRepository_ListBacklog tripID db = listSlots (\<lambda>s. sTripID s = tripID \<and> sDayID s = None) db"

text \<open>The SET clauses of the five versioned statements.\<close>

definition setSlot :: "Env \<Rightarrow> Slot \<Rightarrow> Slot \<Rightarrow> Slot" where
  "setSlot e s row = row\<lparr>sKind := sKind s, sTitle := sTitle s, sNotes := sNotes s,
     sStartTime := storedTime (sStartTime s), sEndTime := storedTime (sEndTime s),
     sVersion := sVersion row + 1, sUpdatedAt := eTimestamp e (eWall e)\<rparr>"

definition setSlotPlace :: "Env \<Rightarrow> ID option \<Rightarrow> str \<Rightarrow> instant \<Rightarrow> Slot \<Rightarrow> Slot" where
  "setSlotPlace e dayID position ts row = row\<lparr>sDayID := dayID, sPosition := position,
     sVersion := sVersion row + 1, sUpdatedAt := eTimestamp e ts\<rparr>"

definition setSlotSelected :: "Env \<Rightarrow> ID option \<Rightarrow> instant \<Rightarrow> Slot \<Rightarrow> Slot" where
  "setSlotSelected e optionID ts row = row\<lparr>sSelectedOptionID := optionID,
     sVersion := sVersion row + 1, sUpdatedAt := eTimestamp e ts\<rparr>"

definition setSlotStatus :: "Env \<Rightarrow> SlotStatus \<Rightarrow> ID \<Rightarrow> instant \<Rightarrow> Slot \<Rightarrow> Slot" where
  "setSlotStatus e status actor ts row = row\<lparr>sStatus := status, sStatusChangedAt := Some (eTimestamp e ts),
     sStatusChangedBy := Some actor, sVersion := sVersion row + 1, sUpdatedAt := eTimestamp e ts\<rparr>"

definition setSlotDeleted :: "Env \<Rightarrow> instant \<Rightarrow> Slot \<Rightarrow> Slot" where
  "setSlotDeleted e ts row = row\<lparr>sDeletedAt := Some (eTimestamp e ts), sVersion := sVersion row + 1,
     sUpdatedAt := eTimestamp e ts\<rparr>"

definition updateSlot :: "(Slot \<Rightarrow> unit query) \<Rightarrow> ID \<Rightarrow> int \<Rightarrow> (Slot \<Rightarrow> Slot) \<Rightarrow> DB \<Rightarrow> (Slot \<times> DB) res" where
  "updateSlot refs i expected f db =
     bindR (updateVersioned sID sVersion sDeletedAt (\<lambda>s. bindR (slotChecks s) (\<lambda>_. refs s)) i expected f (dbSlots db))
       (\<lambda>(r, rows). Inr (r, db\<lparr>dbSlots := rows\<rparr>))"

definition SlotRepository_Update :: "Env \<Rightarrow> Slot \<Rightarrow> DB \<Rightarrow> (Slot \<times> DB) res" where
  "SlotRepository_Update e s db = updateSlot (\<lambda>_. Inr ()) (sID s) (sVersion s) (setSlot e s) db"

definition SlotRepository_Move :: "Env \<Rightarrow> ID \<Rightarrow> ID option \<Rightarrow> str \<Rightarrow> int \<Rightarrow> instant \<Rightarrow> DB \<Rightarrow> (Slot \<times> DB) res" where
  "SlotRepository_Move e i dayID position expected ts db =
     updateSlot (slotDayFK db) i expected (setSlotPlace e dayID position ts) db"

definition SlotRepository_SetSelectedOption :: "Env \<Rightarrow> ID \<Rightarrow> ID option \<Rightarrow> int \<Rightarrow> instant \<Rightarrow> DB \<Rightarrow> (Slot \<times> DB) res" where
  "SlotRepository_SetSelectedOption e i optionID expected ts db =
     updateSlot (slotOptionFK db) i expected (setSlotSelected e optionID ts) db"

definition SlotRepository_SetStatus :: "Env \<Rightarrow> ID \<Rightarrow> SlotStatus \<Rightarrow> ID \<Rightarrow> int \<Rightarrow> instant \<Rightarrow> DB \<Rightarrow> (Slot \<times> DB) res" where
  "SlotRepository_SetStatus e i status actor expected ts db =
     updateSlot (\<lambda>_. Inr ()) i expected (setSlotStatus e status actor ts) db"

definition SlotRepository_SoftDelete :: "Env \<Rightarrow> ID \<Rightarrow> instant \<Rightarrow> int \<Rightarrow> DB \<Rightarrow> (Slot \<times> DB) res" where
  "SlotRepository_SoftDelete e i ts expected db =
     updateSlot (\<lambda>_. Inr ()) i expected (setSlotDeleted e ts) db"

definition SlotRepository_NeighbourPositions :: "ID \<Rightarrow> ID option \<Rightarrow> ID option \<Rightarrow> DB \<Rightarrow> (str \<times> str) res" where
  "SlotRepository_NeighbourPositions tripID dayID after db =
     neighbourPositions sPosition sID sDeletedAt (\<lambda>s. sTripID s = tripID \<and> sDayID s = dayID) (dbSlots db) after"

section \<open>Options\<close>

definition optionChecks :: "SlotOption \<Rightarrow> unit query" where
  "optionChecks x = violates
     [(negativeAmount (oEstimatedCostMinor x), CheckViolation ''slot_options_cost''),
      (outsideRange (-90) 90 (plLat (oPlace x)), CheckViolation ''slot_options_lat''),
      ((plLat (oPlace x) = None) \<noteq> (plLng (oPlace x) = None), CheckViolation ''slot_options_latlng''),
      (outsideRange (-180) 180 (plLng (oPlace x)), CheckViolation ''slot_options_lng''),
      (RuneCountInString (oNotes x) > 10000, CheckViolation ''slot_options_notes_len''),
      (\<not> (1 \<le> RuneCountInString (oTitle x) \<and> RuneCountInString (oTitle x) \<le> 200),
         CheckViolation ''slot_options_title_len''),
      (oVersion x \<le> 0, CheckViolation ''slot_options_version'')]"

definition slotInTrip :: "DB \<Rightarrow> ID \<Rightarrow> ID \<Rightarrow> bool" where
  "slotInTrip db slotID tripID = list_ex (\<lambda>s. sID s = slotID \<and> sTripID s = tripID) (dbSlots db)"

definition optionRefs :: "DB \<Rightarrow> SlotOption \<Rightarrow> unit query" where
  "optionRefs db x = violates
     [(\<not> slotInTrip db (oSlotID x) (oTripID x), ForeignKeyViolation ''slot_options_slot_fk'')]"

definition newOptionRow :: "Env \<Rightarrow> SlotOption \<Rightarrow> SlotOption" where
  "newOptionRow e x = x\<lparr>oVersion := 1, oCreatedAt := eTxNow e, oUpdatedAt := eTxNow e, oDeletedAt := None\<rparr>"

definition SlotOptionRepository_Create :: "Env \<Rightarrow> SlotOption \<Rightarrow> DB \<Rightarrow> (SlotOption \<times> DB) res" where
  "SlotOptionRepository_Create e x db =
     bindR (mapErrorR (insertRow ''slot_options_pkey'' oID optionChecks (optionRefs db) (newOptionRow e x) (dbOptions db)))
       (\<lambda>(r, rows). Inr (r, db\<lparr>dbOptions := rows\<rparr>))"

definition SlotOptionRepository_GetByID :: "ID \<Rightarrow> DB \<Rightarrow> SlotOption res" where
  "SlotOptionRepository_GetByID i db = getLive oID oDeletedAt (dbOptions db) i"

definition SlotOptionRepository_ListForSlot :: "ID \<Rightarrow> DB \<Rightarrow> SlotOption list" where
  "SlotOptionRepository_ListForSlot slotID db =
     sort_key (\<lambda>x. (oCreatedAt x, oID x)) (filter (\<lambda>x. oSlotID x = slotID \<and> oDeletedAt x = None) (dbOptions db))"

definition setOption :: "Env \<Rightarrow> SlotOption \<Rightarrow> SlotOption \<Rightarrow> SlotOption" where
  "setOption e x row = row\<lparr>oTitle := oTitle x, oNotes := oNotes x, oExternalURL := oExternalURL x,
     oEstimatedCostMinor := oEstimatedCostMinor x, oPlace := oPlace x,
     oVersion := oVersion row + 1, oUpdatedAt := eTimestamp e (eWall e)\<rparr>"

definition setOptionDeleted :: "Env \<Rightarrow> instant \<Rightarrow> SlotOption \<Rightarrow> SlotOption" where
  "setOptionDeleted e ts row = row\<lparr>oDeletedAt := Some (eTimestamp e ts), oVersion := oVersion row + 1,
     oUpdatedAt := eTimestamp e ts\<rparr>"

definition updateOption :: "ID \<Rightarrow> int \<Rightarrow> (SlotOption \<Rightarrow> SlotOption) \<Rightarrow> DB \<Rightarrow> (SlotOption \<times> DB) res" where
  "updateOption i expected f db =
     bindR (updateVersioned oID oVersion oDeletedAt optionChecks i expected f (dbOptions db))
       (\<lambda>(r, rows). Inr (r, db\<lparr>dbOptions := rows\<rparr>))"

definition SlotOptionRepository_Update :: "Env \<Rightarrow> SlotOption \<Rightarrow> DB \<Rightarrow> (SlotOption \<times> DB) res" where
  "SlotOptionRepository_Update e x db = updateOption (oID x) (oVersion x) (setOption e x) db"

definition SlotOptionRepository_SoftDelete :: "Env \<Rightarrow> ID \<Rightarrow> instant \<Rightarrow> int \<Rightarrow> DB \<Rightarrow> (SlotOption \<times> DB) res" where
  "SlotOptionRepository_SoftDelete e i ts expected db = updateOption i expected (setOptionDeleted e ts) db"

definition SlotOptionRepository_CountLive :: "ID \<Rightarrow> DB \<Rightarrow> nat" where
  "SlotOptionRepository_CountLive slotID db =
     length (filter (\<lambda>x. oSlotID x = slotID \<and> oDeletedAt x = None) (dbOptions db))"

section \<open>Votes\<close>

definition voteRefs :: "DB \<Rightarrow> Vote \<Rightarrow> unit query" where
  "voteRefs db v = violates
     [(\<not> slotInTrip db (vSlotID v) (vTripID v), ForeignKeyViolation ''option_votes_slot_fk''),
      (case vOptionID v of None \<Rightarrow> False
       | Some i \<Rightarrow> \<not> list_ex (\<lambda>x. oID x = i \<and> oSlotID x = vSlotID v) (dbOptions db),
       ForeignKeyViolation ''option_votes_option_fk'')]"

text \<open>\<^theory_text>\<open>Cast\<close>: \<^theory_text>\<open>INSERT ... ON CONFLICT (slot_id, user_id) DO UPDATE\<close>, one row per member and slot.\<close>

definition VoteRepository_Cast :: "Env \<Rightarrow> Vote \<Rightarrow> DB \<Rightarrow> (Vote \<times> DB) res" where
  "VoteRepository_Cast e v db =
     (let v = (if vID v = NilID then v\<lparr>vID := eNewID e\<rparr> else v) in
      case find (\<lambda>w. vSlotID w = vSlotID v \<and> vUserID w = vUserID v) (dbVotes db) of
        Some w \<Rightarrow>
          if vVersion w = maxInt32 then Inl (mapError (OtherCode ''22003''))
          else
            let row = w\<lparr>vOptionID := vOptionID v, vVersion := vVersion w + 1, vUpdatedAt := eTxNow e\<rparr> in
            bindR (mapErrorR (voteRefs db row)) (\<lambda>_.
              Inr (row, db\<lparr>dbVotes := updRow vID (vID w) (\<lambda>_. row) (dbVotes db)\<rparr>))
      | None \<Rightarrow>
          let row = v\<lparr>vVersion := 1, vCreatedAt := eTxNow e, vUpdatedAt := eTxNow e\<rparr> in
          bindR (mapErrorR (insertRow ''option_votes_pkey'' vID (\<lambda>_. Inr ()) (voteRefs db) row (dbVotes db)))
            (\<lambda>(r, rows). Inr (r, db\<lparr>dbVotes := rows\<rparr>)))"

definition VoteRepository_Get :: "ID \<Rightarrow> ID \<Rightarrow> DB \<Rightarrow> Vote res" where
  "VoteRepository_Get slotID userID db =
     (case find (\<lambda>w. vSlotID w = slotID \<and> vUserID w = userID) (dbVotes db) of
        Some w \<Rightarrow> Inr w | None \<Rightarrow> Inl (mapError ErrNoRows))"

definition VoteRepository_ListForSlot :: "ID \<Rightarrow> DB \<Rightarrow> Vote list" where
  "VoteRepository_ListForSlot slotID db =
     sort_key (\<lambda>v. (vCreatedAt v, vID v)) (filter (\<lambda>v. vSlotID v = slotID) (dbVotes db))"

text \<open>\<^theory_text>\<open>Tally\<close>: the votes of the slot for options that are live, grouped by option.\<close>

definition VoteRepository_Tally :: "ID \<Rightarrow> DB \<Rightarrow> VoteTally list" where
  "VoteRepository_Tally slotID db =
     (let votes = filter (\<lambda>v. vSlotID v = slotID) (dbVotes db);
          live = filter (\<lambda>i. list_ex (\<lambda>x. oID x = i \<and> oDeletedAt x = None) (dbOptions db))
                   (remdups (List.map_filter vOptionID votes));
          tallies = map (\<lambda>i. \<lparr>tOptionID = i, tCount = int (length (filter (\<lambda>v. vOptionID v = Some i) votes))\<rparr>) live
      in sort_key (\<lambda>t. (- tCount t, tOptionID t)) tallies)"

section \<open>Comments\<close>

definition commentChecks :: "Comment \<Rightarrow> unit query" where
  "commentChecks c = violates
     [(\<not> (1 \<le> RuneCountInString (cBody c) \<and> RuneCountInString (cBody c) \<le> 4000),
       CheckViolation ''comments_body_len'')]"

definition commentRefs :: "DB \<Rightarrow> Comment \<Rightarrow> unit query" where
  "commentRefs db c = violates
     [(\<not> slotInTrip db (cSlotID c) (cTripID c), ForeignKeyViolation ''comments_slot_fk'')]"

definition CommentRepository_Create :: "Env \<Rightarrow> Comment \<Rightarrow> DB \<Rightarrow> (Comment \<times> DB) res" where
  "CommentRepository_Create e c db =
     bindR (mapErrorR (insertRow ''comments_pkey'' cID commentChecks (commentRefs db)
         (c\<lparr>cCreatedAt := eTxNow e, cUpdatedAt := eTxNow e, cDeletedAt := None\<rparr>) (dbComments db)))
       (\<lambda>(r, rows). Inr (r, db\<lparr>dbComments := rows\<rparr>))"

definition CommentRepository_GetByID :: "ID \<Rightarrow> DB \<Rightarrow> Comment res" where
  "CommentRepository_GetByID i db = getLive cID cDeletedAt (dbComments db) i"

definition CommentRepository_ListForSlot :: "ID \<Rightarrow> DB \<Rightarrow> Comment list" where
  "CommentRepository_ListForSlot slotID db =
     sort_key (\<lambda>c. (cCreatedAt c, cID c)) (filter (\<lambda>c. cSlotID c = slotID \<and> cDeletedAt c = None) (dbComments db))"

definition CommentRepository_SoftDelete :: "Env \<Rightarrow> ID \<Rightarrow> instant \<Rightarrow> DB \<Rightarrow> (unit \<times> DB) res" where
  "CommentRepository_SoftDelete e i ts db =
     bindR (getLive cID cDeletedAt (dbComments db) i) (\<lambda>_.
       Inr ((), db\<lparr>dbComments := updRow cID i
         (\<lambda>c. c\<lparr>cDeletedAt := Some (eTimestamp e ts), cUpdatedAt := eTimestamp e ts\<rparr>) (dbComments db)\<rparr>))"

section \<open>Lemmas\<close>

lemma storedTime_valid [simp]: "\<not> timeInvalid t \<Longrightarrow> storedTime t = t"
proof (cases t)
  case (Some x)
  assume "\<not> timeInvalid t"
  then have v: "0 \<le> Hour x" "0 \<le> Minute x" "Minute x \<le> 59"
    using Some by (auto simp: timeInvalid_def TimeOfDay_Valid_def)
  have "(Hour x * 3600 + Minute x * 60) div 3600 = Hour x" using v by linarith
  moreover have "(Hour x * 3600 + Minute x * 60) mod 3600 = Minute x * 60" using v by simp
  ultimately have "(Hour x * 3600 + Minute x * 60) div 3600 = Hour x" "(Hour x * 3600 + Minute x * 60) mod 3600 div 60 = Minute x"
    by simp_all
  then show ?thesis
    by (simp add: Some storedTime_def fromDomainTimeOfDay_def toDomainTimeOfDay_def microsPerSecond_def Let_def)
qed (simp add: storedTime_def fromDomainTimeOfDay_def toDomainTimeOfDay_def)

text \<open>Every versioned statement keeps the contract of optimistic concurrency.\<close>

interpretation slotEdit: versioned_statement sID sVersion "setSlot e s" for e s
  by unfold_locales (simp_all add: setSlot_def)

interpretation slotPlace: versioned_statement sID sVersion "setSlotPlace e dayID position ts" for e dayID position ts
  by unfold_locales (simp_all add: setSlotPlace_def)

interpretation slotSelect: versioned_statement sID sVersion "setSlotSelected e optionID ts" for e optionID ts
  by unfold_locales (simp_all add: setSlotSelected_def)

interpretation slotStatus: versioned_statement sID sVersion "setSlotStatus e status actor ts" for e status actor ts
  by unfold_locales (simp_all add: setSlotStatus_def)

interpretation slotTombstone: versioned_statement sID sVersion "setSlotDeleted e ts" for e ts
  by unfold_locales (simp_all add: setSlotDeleted_def)

interpretation dayEdit: versioned_statement dID dVersion "setDay e d" for e d
  by unfold_locales (simp_all add: setDay_def)

interpretation dayTombstone: versioned_statement dID dVersion "setDayDeleted e ts" for e ts
  by unfold_locales (simp_all add: setDayDeleted_def)

interpretation optionEdit: versioned_statement oID oVersion "setOption e x" for e x
  by unfold_locales (simp_all add: setOption_def)

interpretation optionTombstone: versioned_statement oID oVersion "setOptionDeleted e ts" for e ts
  by unfold_locales (simp_all add: setOptionDeleted_def)

end
