(* ===== verification/OpLog.thy ===== *)
theory OpLog
  imports Repositories
begin

text \<open>The operation log as the services write it (src/internal/service: oplog.go, authz.go): the
  recorder that allocates sequence numbers and appends operations, the transaction shape of every
  write, and the authorization of the caller.

  A write returns its result, the database after it and the operations it published: on an error
  the database before it and none. The row lock makes the writers of a trip take turns, so a write
  is one step on the database. The services read the caller's membership right before the transaction; the
  step takes both together, a membership that ends between the two leaves the state that the same two requests leave in the other
  order, as neither touches the tables of the other.\<close>

section \<open>Authorization\<close>

definition actor :: "ID \<Rightarrow> ID \<Rightarrow> DB \<Rightarrow> Actor res" where
  "actor tripID userID db = bindR (MembershipRepository_Get tripID userID db) (\<lambda>m. Inr (Member_Actor m))"

definition require :: "ID \<Rightarrow> ID \<Rightarrow> Capability \<Rightarrow> DB \<Rightarrow> Actor res" where
  "require tripID userID c db =
     bindR (actor tripID userID db) (\<lambda>a. bindR (Authorize a c) (\<lambda>_. Inr a))"

definition checkTrip :: "ID \<Rightarrow> ID \<Rightarrow> unit res" where
  "checkTrip resourceTripID wantTripID = (if resourceTripID \<noteq> wantTripID then Inl ErrNotFound else Inr ())"

section \<open>The recorder\<close>

definition maskFor :: "OpKind \<Rightarrow> str list \<Rightarrow> FieldMask" where
  "maskFor kind flds = (if length flds = 0 then NewFieldMask (AllowedFields kind) else NewFieldMask flds)"

definition versionOrCurrent :: "int option \<Rightarrow> int \<Rightarrow> int" where
  "versionOrCurrent expected current = (case expected of None \<Rightarrow> current | Some v \<Rightarrow> v)"

definition requireVersion :: "int option \<Rightarrow> str \<Rightarrow> int res" where
  "requireVersion expected field =
     (case expected of
        None \<Rightarrow> Inl (ValidationError (Add field ''version_required'' []))
      | Some v \<Rightarrow> Inr v)"

text \<open>The operation a recorder builds: only the first one of an intent carries the client's
  identifier.\<close>

definition newOp :: "Env \<Rightarrow> ID \<Rightarrow> ID \<Rightarrow> OpKind \<Rightarrow> ID \<Rightarrow> FieldMask \<Rightarrow> OpPayload \<Rightarrow> Op list \<Rightarrow> int \<Rightarrow> Op" where
  "newOp e tripID actorID kind entityID msk payload recorded seq =
     \<lparr>opID = eOpID e (length recorded), opTripID = tripID, opSeq = seq, opActorID = Some actorID,
      opKind = kind, opEntityID = entityID, opFields = msk, opPayload = Some payload,
      opClientOpID = (if length recorded > 0 then None else eClientOpID e),
      opCauseOpID = eCauseOpID e, opCreatedAt = zeroTime\<rparr>"

definition recorded :: "Op \<Rightarrow> unit tx" where
  "recorded op t = Inr ((), t\<lparr>txOps := txOps t @ [op]\<rparr>)"

definition record_op :: "Env \<Rightarrow> ID \<Rightarrow> ID \<Rightarrow> OpKind \<Rightarrow> ID \<Rightarrow> FieldMask \<Rightarrow> OpPayload \<Rightarrow> unit tx" where
  "record_op e tripID actorID kind entityID msk payload =
     bindT (liftT (FieldMask_Validate msk kind)) (\<lambda>_.
     bindT (stmtT (NextOpSeq tripID)) (\<lambda>seq.
     bindT (\<lambda>t. Inr (newOp e tripID actorID kind entityID msk payload (txOps t) seq, t)) (\<lambda>op.
     bindT (stmtT (OpLogRepository_Append e op)) recorded)))"

definition rec_slot :: "Env \<Rightarrow> ID \<Rightarrow> ID \<Rightarrow> OpKind \<Rightarrow> Slot \<Rightarrow> str list \<Rightarrow> unit tx" where
  "rec_slot e tripID actorID kind s flds =
     (let msk = maskFor kind flds in
      bindT (liftT (SlotPayload (eText e) s msk)) (record_op e tripID actorID kind (sID s) msk))"

definition rec_option :: "Env \<Rightarrow> ID \<Rightarrow> ID \<Rightarrow> OpKind \<Rightarrow> SlotOption \<Rightarrow> str list \<Rightarrow> unit tx" where
  "rec_option e tripID actorID kind x flds =
     (let msk = maskFor kind flds in
      bindT (liftT (OptionPayload (eText e) x msk)) (record_op e tripID actorID kind (oID x) msk))"

definition rec_day :: "Env \<Rightarrow> ID \<Rightarrow> ID \<Rightarrow> OpKind \<Rightarrow> Day \<Rightarrow> str list \<Rightarrow> unit tx" where
  "rec_day e tripID actorID kind d flds =
     (let msk = maskFor kind flds in
      bindT (liftT (DayPayload d msk)) (record_op e tripID actorID kind (dID d) msk))"

definition rec_budget :: "Env \<Rightarrow> ID \<Rightarrow> ID \<Rightarrow> OpKind \<Rightarrow> BudgetEntry \<Rightarrow> str list \<Rightarrow> unit tx" where
  "rec_budget e tripID actorID kind b flds =
     (let msk = maskFor kind flds in
      bindT (liftT (BudgetPayload (eText e) b msk)) (record_op e tripID actorID kind (bID b) msk))"

definition rec_attachment :: "Env \<Rightarrow> ID \<Rightarrow> ID \<Rightarrow> OpKind \<Rightarrow> Attachment \<Rightarrow> str list \<Rightarrow> unit tx" where
  "rec_attachment e tripID actorID kind a flds =
     (let msk = maskFor kind flds in
      bindT (liftT (AttachmentPayload (eText e) a msk)) (record_op e tripID actorID kind (atID a) msk))"

definition rec_comment :: "Env \<Rightarrow> ID \<Rightarrow> ID \<Rightarrow> OpKind \<Rightarrow> Comment \<Rightarrow> str list \<Rightarrow> unit tx" where
  "rec_comment e tripID actorID kind c flds =
     (let msk = maskFor kind flds in
      bindT (liftT (CommentPayload (eText e) c msk)) (record_op e tripID actorID kind (cID c) msk))"

definition rec_vote :: "Env \<Rightarrow> ID \<Rightarrow> ID \<Rightarrow> Vote \<Rightarrow> unit tx" where
  "rec_vote e tripID actorID v =
     (let msk = maskFor OpVoteSet [] in
      bindT (liftT (VotePayload (eText e) v msk)) (record_op e tripID actorID OpVoteSet (vID v) msk))"

section \<open>Writes\<close>

text \<open>The deferred constraint triggers of the ledger, which run at commit.\<close>

definition deferredOK :: "DB \<Rightarrow> bool" where
  "deferredOK db = list_all (\<lambda>b. bSplits b \<noteq> [] \<longrightarrow>
     sum_list (map (sint \<circ> bsAmountMinor) (bSplits b)) = sint (bAmountMinor b)) (dbBudgets db)"

definition WithinTx :: "'a tx \<Rightarrow> DB \<Rightarrow> ('a \<times> Tx) res" where
  "WithinTx fn db =
     bindR (fn \<lparr>txDB = db, txOps = []\<rparr>) (\<lambda>(x, t).
       if deferredOK (txDB t) then Inr (x, t) else Inl (ErrOther ''committing transaction''))"

type_synonym 'a reply = "'a res \<times> DB \<times> Op list"

definition oplog_write :: "ID \<Rightarrow> 'a tx \<Rightarrow> DB \<Rightarrow> 'a reply" where
  "oplog_write tripID fn db =
     (case WithinTx (bindT (readT (LockForWrite tripID)) (\<lambda>_. fn)) db of
        Inl err \<Rightarrow> (Inl err, db, [])
      | Inr (x, t) \<Rightarrow> (Inr x, txDB t, txOps t))"

text \<open>A handler that authorizes the caller first; nothing has happened when that fails.\<close>

definition guarded :: "'b res \<Rightarrow> ('b \<Rightarrow> DB \<Rightarrow> 'a reply) \<Rightarrow> DB \<Rightarrow> 'a reply" where
  "guarded r k db = (case r of Inl err \<Rightarrow> (Inl err, db, []) | Inr x \<Rightarrow> k x db)"

section \<open>What a recorded operation changes\<close>

definition loggedOp :: "Env \<Rightarrow> ID \<Rightarrow> ID \<Rightarrow> OpKind \<Rightarrow> ID \<Rightarrow> FieldMask \<Rightarrow> OpPayload \<Rightarrow> Tx \<Rightarrow> Op" where
  "loggedOp e tripID actorID kind entityID msk payload t =
     (newOp e tripID actorID kind entityID msk payload (txOps t) (dbOpSeq (txDB t) tripID + 1))
       \<lparr>opCreatedAt := eTxNow e\<rparr>"

definition pushOp :: "Op \<Rightarrow> Tx \<Rightarrow> Tx" where
  "pushOp op t = t\<lparr>txDB := (txDB t)\<lparr>dbOpSeq := (dbOpSeq (txDB t))(opTripID op := opSeq op),
     dbOps := dbOps (txDB t) @ [op]\<rparr>, txOps := txOps t @ [op]\<rparr>"

lemma loggedOp_simps [simp]:
  "opTripID (loggedOp e tripID actorID kind i msk p t) = tripID"
  "opSeq (loggedOp e tripID actorID kind i msk p t) = dbOpSeq (txDB t) tripID + 1"
  "opActorID (loggedOp e tripID actorID kind i msk p t) = Some actorID"
  "opKind (loggedOp e tripID actorID kind i msk p t) = kind"
  "opEntityID (loggedOp e tripID actorID kind i msk p t) = i"
  "opFields (loggedOp e tripID actorID kind i msk p t) = msk"
  "opPayload (loggedOp e tripID actorID kind i msk p t) = Some p"
  "opID (loggedOp e tripID actorID kind i msk p t) = eOpID e (length (txOps t))"
  "opClientOpID (loggedOp e tripID actorID kind i msk p t) = (if txOps t = [] then eClientOpID e else None)"
  by (simp_all add: loggedOp_def newOp_def)

lemma pushOp_simps [simp]:
  "txOps (pushOp op t) = txOps t @ [op]"
  "dbOps (txDB (pushOp op t)) = dbOps (txDB t) @ [op]"
  "dbOpSeq (txDB (pushOp op t)) = (dbOpSeq (txDB t))(opTripID op := opSeq op)"
  "dbTrips (txDB (pushOp op t)) = dbTrips (txDB t)" "dbMembers (txDB (pushOp op t)) = dbMembers (txDB t)"
  "dbDays (txDB (pushOp op t)) = dbDays (txDB t)" "dbSlots (txDB (pushOp op t)) = dbSlots (txDB t)"
  "dbOptions (txDB (pushOp op t)) = dbOptions (txDB t)" "dbVotes (txDB (pushOp op t)) = dbVotes (txDB t)"
  "dbBudgets (txDB (pushOp op t)) = dbBudgets (txDB t)" "dbComments (txDB (pushOp op t)) = dbComments (txDB t)"
  "dbAttachments (txDB (pushOp op t)) = dbAttachments (txDB t)"
  "dbInvitations (txDB (pushOp op t)) = dbInvitations (txDB t)"
  by (simp_all add: pushOp_def)

lemma NextOpSeq_Inr:
  "NextOpSeq tripID db = Inr (seq, db') \<longleftrightarrow>
     findRow trID tripID (dbTrips db) \<noteq> None \<and> dbOpSeq db tripID \<noteq> 2 ^ 63 - 1 \<and>
     seq = dbOpSeq db tripID + 1 \<and> db' = db\<lparr>dbOpSeq := (dbOpSeq db)(tripID := seq)\<rparr>"
  by (auto simp: NextOpSeq_def Let_def)

lemma Append_Inr:
  "OpLogRepository_Append e op db = Inr (row, db') \<longleftrightarrow>
     row = op\<lparr>opCreatedAt := eTxNow e\<rparr> \<and> db' = db\<lparr>dbOps := dbOps db @ [row]\<rparr> \<and>
     0 < opSeq op \<and> (\<forall>x \<in> set (dbOps db). opID x \<noteq> opID op \<and>
       (opTripID x = opTripID op \<longrightarrow> opSeq x \<noteq> opSeq op \<and>
          (opClientOpID op \<noteq> None \<longrightarrow> opClientOpID x \<noteq> opClientOpID op)))"
  by (auto simp: OpLogRepository_Append_def sum_cases list_ex_iff Let_def)

lemma record_op_Inr:
  assumes "record_op e tripID actorID kind i msk p t = Inr (u, t')"
  shows "t' = pushOp (loggedOp e tripID actorID kind i msk p t) t \<and> FieldMask_Validate msk kind = Inr () \<and>
    (\<forall>x \<in> set (dbOps (txDB t)). opID x \<noteq> eOpID e (length (txOps t)) \<and>
       (opTripID x = tripID \<and> txOps t = [] \<and> eClientOpID e \<noteq> None \<longrightarrow> opClientOpID x \<noteq> eClientOpID e))"
  using assms
  by (auto simp: record_op_def bindT_eq_Inr NextOpSeq_Inr Append_Inr recorded_def pushOp_def loggedOp_def newOp_def)

text \<open>A recorder function succeeds only by pushing the operation built from the entity it is given.\<close>

lemmas rec_defs = rec_slot_def rec_option_def rec_day_def rec_budget_def rec_attachment_def
  rec_comment_def rec_vote_def

section \<open>Invariants of transactions\<close>

definition keeps :: "(Tx \<Rightarrow> bool) \<Rightarrow> 'a tx \<Rightarrow> bool" where
  "keeps P m \<longleftrightarrow> (\<forall>t x t'. m t = Inr (x, t') \<longrightarrow> P t \<longrightarrow> P t')"

named_theorems keeps_intros "rules for invariants of transactions"

lemma keepsD: "keeps P m \<Longrightarrow> m t = Inr (x, t') \<Longrightarrow> P t \<Longrightarrow> P t'"
  by (auto simp: keeps_def)

lemma keeps_bindT [keeps_intros]: "keeps P m \<Longrightarrow> (\<And>x. keeps P (f x)) \<Longrightarrow> keeps P (bindT m f)"
  by (fastforce simp: keeps_def bindT_eq_Inr)

lemma keeps_basic [keeps_intros]:
  "keeps P (returnT x)" "keeps P (failT err)" "keeps P (liftT r)" "keeps P (readT g)"
  by (auto simp: keeps_def)

lemma keeps_whenT [keeps_intros]: "keeps P m \<Longrightarrow> keeps P (whenT b m)"
  by (simp add: whenT_def keeps_basic)

lemma keeps_If [keeps_intros]: "keeps P m \<Longrightarrow> keeps P n \<Longrightarrow> keeps P (if b then m else n)"
  by simp

lemma keeps_stmtT:
  "(\<And>t x db. P t \<Longrightarrow> f (txDB t) = Inr (x, db) \<Longrightarrow> P (t\<lparr>txDB := db\<rparr>)) \<Longrightarrow> keeps P (stmtT f)"
  by (auto simp: keeps_def)

text \<open>The log after a transaction of one trip by one actor: the operations recorded so far are the
  last ones of the log, numbered from the sequence number the trip had, and only the first one
  carries an identifier of the client.\<close>

definition logUnique :: "Op list \<Rightarrow> bool" where
  "logUnique ops \<longleftrightarrow> distinct (map opID ops) \<and>
     distinct (map (\<lambda>op. (opTripID op, opClientOpID op)) (filter (\<lambda>op. opClientOpID op \<noteq> None) ops))"

definition logGrew :: "Env \<Rightarrow> ID \<Rightarrow> ID \<Rightarrow> DB \<Rightarrow> Tx \<Rightarrow> bool" where
  "logGrew e tripID actorID db t \<longleftrightarrow>
     dbTrips (txDB t) = dbTrips db \<and> dbMembers (txDB t) = dbMembers db \<and>
     dbOps (txDB t) = dbOps db @ txOps t \<and>
     map opSeq (txOps t) = [dbOpSeq db tripID + 1 .. dbOpSeq db tripID + int (length (txOps t))] \<and>
     dbOpSeq (txDB t) = (dbOpSeq db)(tripID := dbOpSeq db tripID + int (length (txOps t))) \<and>
     (\<forall>op \<in> set (txOps t). opTripID op = tripID \<and> opActorID op = Some actorID) \<and>
     (\<forall>op \<in> set (tl (txOps t)). opClientOpID op = None) \<and>
     (txOps t \<noteq> [] \<longrightarrow> opClientOpID (hd (txOps t)) = eClientOpID e) \<and>
     (logUnique (dbOps db) \<longrightarrow> logUnique (dbOps (txDB t)))"

lemma upto_snoc: "a \<le> b + 1 \<Longrightarrow> [a .. b + 1] = [a .. b] @ [b + (1::int)]"
  using upto_rec2 [of a "b + 1"] by simp

lemma logGrew_pushOp:
  assumes "logGrew e tripID actorID db t" "record_op e tripID actorID kind i msk p t = Inr (u, t')"
  shows "logGrew e tripID actorID db t'"
proof -
  let ?op = "loggedOp e tripID actorID kind i msk p t"
  note r = record_op_Inr [OF assms(2)]
  have t': "t' = pushOp ?op t" using r by blast
  have "logUnique (dbOps (txDB t) @ [?op])" if u: "logUnique (dbOps (txDB t))"
    using u r by (fastforce simp: logUnique_def)
  moreover have "[dbOpSeq db tripID + 1 .. dbOpSeq db tripID + (1 + int (length (txOps t)))] =
      [dbOpSeq db tripID + 1 .. dbOpSeq db tripID + int (length (txOps t))] @
      [dbOpSeq db tripID + int (length (txOps t)) + 1]"
    using upto_snoc [of "dbOpSeq db tripID + 1" "dbOpSeq db tripID + int (length (txOps t))"]
    by (simp add: algebra_simps)
  moreover have "\<forall>x \<in> set (tl (txOps t @ [?op])). opClientOpID x = None"
    using assms(1) by (cases "txOps t") (auto simp: logGrew_def)
  moreover have "opClientOpID (hd (txOps t @ [?op])) = eClientOpID e"
    using assms(1) by (cases "txOps t") (auto simp: logGrew_def)
  ultimately show ?thesis using assms(1) unfolding t'
    by (auto simp: logGrew_def algebra_simps)
qed

lemma keeps_record_op [keeps_intros]:
  "keeps (logGrew e tripID actorID db) (record_op e tripID actorID kind i msk p)"
  by (auto simp: keeps_def intro: logGrew_pushOp)

lemma keeps_rec [keeps_intros]:
  "keeps (logGrew e tripID actorID db) (rec_slot e tripID actorID kind s flds)"
  "keeps (logGrew e tripID actorID db) (rec_option e tripID actorID kind x flds)"
  "keeps (logGrew e tripID actorID db) (rec_day e tripID actorID kind d flds)"
  "keeps (logGrew e tripID actorID db) (rec_budget e tripID actorID kind b flds)"
  "keeps (logGrew e tripID actorID db) (rec_attachment e tripID actorID kind a flds)"
  "keeps (logGrew e tripID actorID db) (rec_comment e tripID actorID kind c flds)"
  "keeps (logGrew e tripID actorID db) (rec_vote e tripID actorID v)"
  unfolding rec_defs Let_def by (intro keeps_intros)+

text \<open>A statement on any other table keeps the log.\<close>

definition otherTables :: "DB \<Rightarrow> DB \<Rightarrow> bool" where
  "otherTables db db' \<longleftrightarrow> dbTrips db' = dbTrips db \<and> dbMembers db' = dbMembers db \<and>
     dbOps db' = dbOps db \<and> dbOpSeq db' = dbOpSeq db"

lemma keeps_other [keeps_intros]:
  "(\<And>db x db'. f db = Inr (x, db') \<Longrightarrow> otherTables db db') \<Longrightarrow> keeps (logGrew e tripID actorID db0) (stmtT f)"
  by (rule keeps_stmtT) (fastforce simp: logGrew_def otherTables_def)

lemma logGrew_start [simp]: "logGrew e tripID actorID db \<lparr>txDB = db, txOps = []\<rparr>"
  by (simp add: logGrew_def)

text \<open>A body that cannot succeed without recording an operation.\<close>

definition records :: "'a tx \<Rightarrow> bool" where
  "records m \<longleftrightarrow> (\<forall>t x t'. m t = Inr (x, t') \<longrightarrow> txOps t' \<noteq> [])"

lemma records_bindT2 [keeps_intros]: "(\<And>x. records (f x)) \<Longrightarrow> records (bindT m f)"
  by (fastforce simp: records_def bindT_eq_Inr)

lemma records_bindT1: "records m \<Longrightarrow> (\<And>x. keeps (\<lambda>t. txOps t \<noteq> []) (f x)) \<Longrightarrow> records (bindT m f)"
  by (fastforce simp: records_def keeps_def bindT_eq_Inr)

lemma records_basic [keeps_intros]:
  "records (failT err)" "records m \<Longrightarrow> records n \<Longrightarrow> records (if b then m else n)"
  by (auto simp: records_def)

lemma records_record_op: "records (record_op e tripID actorID kind i msk p)"
  by (auto simp: records_def dest!: record_op_Inr)

lemma keeps_nonempty [keeps_intros]:
  "keeps (\<lambda>t. txOps t \<noteq> []) (record_op e tripID actorID kind i msk p)"
  "keeps (\<lambda>t. txOps t \<noteq> []) (stmtT g)"
  by (auto simp: keeps_def dest!: record_op_Inr)

lemma records_rec [keeps_intros]:
  "records (rec_slot e tripID actorID kind s flds)"
  "records (rec_option e tripID actorID kind x flds)"
  "records (rec_day e tripID actorID kind d flds)"
  "records (rec_budget e tripID actorID kind b flds)"
  "records (rec_attachment e tripID actorID kind a flds)"
  "records (rec_comment e tripID actorID kind c flds)"
  "records (rec_vote e tripID actorID v)"
  unfolding rec_defs Let_def by (intro records_bindT2 records_record_op)+

lemma records_rec_return [keeps_intros]:
  "records m \<Longrightarrow> records (bindT m (\<lambda>_. returnT y))"
  by (rule records_bindT1) (auto intro: keeps_basic)

section \<open>Writes\<close>

lemma LockForWrite_Inr: "LockForWrite tripID db = Inr u \<longleftrightarrow>
    (\<exists>tr. findRow trID tripID (dbTrips db) = Some tr \<and> trDeletedAt tr = None)"
  by (auto simp: LockForWrite_def sum_cases getLive_Inr)

lemma write_cases:
  assumes "oplog_write tripID fn db = (res, db', ops)"
  obtains (failed) err where "res = Inl err" "db' = db" "ops = []"
  | (committed) x t where "res = Inr x" "fn \<lparr>txDB = db, txOps = []\<rparr> = Inr (x, t)" "db' = txDB t" "ops = txOps t"
      "deferredOK db'" "LockForWrite tripID db = Inr ()"
  using assms
  by (auto simp: oplog_write_def WithinTx_def sum_cases split: sum.splits prod.splits if_splits)

text \<open>What every write leaves: on an error everything as it was and nothing published; on success the
  log grown by exactly what it published.\<close>

definition soundReply :: "Env \<Rightarrow> ID \<Rightarrow> ID \<Rightarrow> DB \<Rightarrow> 'a reply \<Rightarrow> bool" where
  "soundReply e tripID actorID db r =
     (case r of (res, db', ops) \<Rightarrow>
        (if isOk res then ops \<noteq> [] \<and> logGrew e tripID actorID db \<lparr>txDB = db', txOps = ops\<rparr>
         else db' = db \<and> ops = []))"

lemma soundReply_write [keeps_intros]:
  assumes "keeps (logGrew e tripID actorID db) fn" "records fn"
  shows "soundReply e tripID actorID db (oplog_write tripID fn db)"
proof (cases "oplog_write tripID fn db")
  case (fields res db' ops)
  then show ?thesis
  proof (cases rule: write_cases)
    case (committed x t)
    have "logGrew e tripID actorID db t" by (rule keepsD [OF assms(1) committed(2)]) simp
    moreover have "txOps t \<noteq> []" using assms(2) committed(2) by (auto simp: records_def)
    ultimately show ?thesis using committed fields by (auto simp: soundReply_def logGrew_def)
  qed (simp add: soundReply_def fields)
qed

lemma soundReply_error [simp]: "soundReply e tripID actorID db (Inl err, db, [])"
  by (simp add: soundReply_def)

lemma soundReply_guarded [keeps_intros]:
  "(\<And>x. r = Inr x \<Longrightarrow> soundReply e tripID actorID db (k x db)) \<Longrightarrow> soundReply e tripID actorID db (guarded r k db)"
  by (cases r) (simp_all add: guarded_def)

lemma actor_Inr:
  "actor tripID userID db = Inr a \<Longrightarrow> aUserID a = userID \<and> aTripID a = tripID"
  by (auto simp: actor_def MembershipRepository_Get_def sum_cases Member_Actor_def liveMember_def find_Some_iff
      split: option.splits)

lemma require_Inr:
  "require tripID userID c db = Inr a \<longleftrightarrow> actor tripID userID db = Inr a \<and> Can a c"
  by (auto simp: require_def sum_cases)

lemma require_user: "require tripID userID c db = Inr a \<Longrightarrow> aUserID a = userID"
  by (auto simp: require_Inr dest: actor_Inr)

text \<open>The errors of authorization: not a member looks like no such trip; a member without the
  capability is forbidden.\<close>

definition isMember :: "ID \<Rightarrow> ID \<Rightarrow> DB \<Rightarrow> bool" where
  "isMember tripID userID db \<longleftrightarrow> (\<exists>m \<in> set (dbMembers db). liveMember tripID userID m)"

lemma actor_Inl: "actor tripID userID db = Inl err \<longleftrightarrow> \<not> isMember tripID userID db \<and> err = ErrNotFound"
  by (auto simp: actor_def MembershipRepository_Get_def sum_cases isMember_def mapError_def find_None_iff find_Some_iff
      split: option.splits)

lemma require_Inl:
  "require tripID userID c db = Inl err \<longleftrightarrow>
     (\<not> isMember tripID userID db \<and> err = ErrNotFound) \<or>
     (\<exists>a. actor tripID userID db = Inr a \<and> \<not> Can a c \<and> err = ErrForbidden)"
  by (auto simp: require_def sum_cases actor_Inl)

end
