(* ===== verification/SlotService.thy ===== *)
theory SlotService
  imports OpLog
begin

text \<open>The slot service (src/internal/service/slot.go): one definition per method, the whole handler with
  its authorization, the transaction under the trip's lock and the operation it records. A reply is
  the result, the database after the call and the operations published.\<close>

definition positionBetween :: "str \<Rightarrow> str \<Rightarrow> str res" where
  "positionBetween prev nxt = (case KeyBetween prev nxt of Inl e \<Rightarrow> Inl (FracError e) | Inr k \<Rightarrow> Inr k)"

definition orNewID :: "Env \<Rightarrow> ID \<Rightarrow> ID" where
  "orNewID e i = (if i = NilID then eNewID e else i)"

section \<open>Reads\<close>

definition SlotService_getInTrip :: "ID \<Rightarrow> ID \<Rightarrow> DB \<Rightarrow> Slot res" where
  "SlotService_getInTrip tripID slotID db =
     bindR (SlotRepository_GetByID slotID db) (\<lambda>slot.
     bindR (checkTrip (sTripID slot) tripID) (\<lambda>_. Inr slot))"

definition SlotService_Get :: "ID \<Rightarrow> ID \<Rightarrow> ID \<Rightarrow> DB \<Rightarrow> Slot res" where
  "SlotService_Get tripID userID slotID db =
     bindR (actor tripID userID db) (\<lambda>_.
     bindR (SlotRepository_GetByID slotID db) (\<lambda>slot.
     bindR (checkTrip (sTripID slot) tripID) (\<lambda>_. Inr slot)))"

definition SlotService_ListForTrip :: "ID \<Rightarrow> ID \<Rightarrow> DB \<Rightarrow> Slot list res" where
  "SlotService_ListForTrip tripID userID db =
     bindR (actor tripID userID db) (\<lambda>_. Inr (SlotRepository_ListForTrip tripID db))"

section \<open>Create\<close>

record CreateSlotInput =
  csDayID :: "ID option"
  csKind :: SlotKind
  csTitle :: str
  csNotes :: str
  csStartTime :: "TimeOfDay option"
  csEndTime :: "TimeOfDay option"
  csAfterSlotID :: "ID option"
  csID :: ID

definition createSlotBody :: "Env \<Rightarrow> ID \<Rightarrow> ID \<Rightarrow> CreateSlotInput \<Rightarrow> Slot tx" where
  "createSlotBody e tripID actorID inp =
     bindT (readT (SlotRepository_NeighbourPositions tripID (csDayID inp) (csAfterSlotID inp))) (\<lambda>(prev, nxt).
     bindT (liftT (positionBetween prev nxt)) (\<lambda>position.
     let slot = zeroSlot\<lparr>sID := orNewID e (csID inp), sTripID := tripID, sDayID := csDayID inp,
           sKind := csKind inp, sTitle := csTitle inp, sNotes := csNotes inp,
           sStartTime := csStartTime inp, sEndTime := csEndTime inp,
           sStatus := SlotStatusPlanned, sCreatedBy := Some actorID, sPosition := position\<rparr> in
     bindT (liftT (Slot_Validate slot)) (\<lambda>_.
     bindT (stmtT (SlotRepository_Create e slot)) (\<lambda>row.
     bindT (rec_slot e tripID actorID OpSlotCreate row []) (\<lambda>_. returnT row)))))"

definition SlotService_Create :: "Env \<Rightarrow> ID \<Rightarrow> ID \<Rightarrow> CreateSlotInput \<Rightarrow> DB \<Rightarrow> Slot reply" where
  "SlotService_Create e tripID userID inp db =
     guarded (require tripID userID CapCreateSlots db) (\<lambda>a.
       oplog_write tripID (createSlotBody e tripID (aUserID a) inp)) db"

section \<open>Update\<close>

record UpdateSlotInput =
  usFields :: FieldMask
  usKind :: SlotKind
  usTitle :: str
  usNotes :: str
  usStartTime :: "TimeOfDay option"
  usEndTime :: "TimeOfDay option"
  usVersion :: "int option"

definition mergeSlot :: "FieldMask \<Rightarrow> UpdateSlotInput \<Rightarrow> ID \<Rightarrow> ID \<Rightarrow> Slot \<Rightarrow> Slot" where
  "mergeSlot msk inp tripID slotID existing =
     zeroSlot\<lparr>sID := slotID, sTripID := tripID, sDayID := sDayID existing,
       sKind := (if Has msk FieldKind then usKind inp else sKind existing),
       sTitle := (if Has msk FieldTitle then usTitle inp else sTitle existing),
       sNotes := (if Has msk FieldNotes then usNotes inp else sNotes existing),
       sStartTime := (if Has msk FieldStartTime then usStartTime inp else sStartTime existing),
       sEndTime := (if Has msk FieldEndTime then usEndTime inp else sEndTime existing),
       sPosition := sPosition existing, sStatus := sStatus existing,
       sSelectedOptionID := sSelectedOptionID existing,
       sVersion := versionOrCurrent (usVersion inp) (sVersion existing)\<rparr>"

definition updateSlotBody :: "Env \<Rightarrow> ID \<Rightarrow> ID \<Rightarrow> ID \<Rightarrow> FieldMask \<Rightarrow> UpdateSlotInput \<Rightarrow> Slot tx" where
  "updateSlotBody e tripID actorID slotID msk inp =
     bindT (readT (SlotService_getInTrip tripID slotID)) (\<lambda>existing.
     let slot = mergeSlot msk inp tripID slotID existing in
     bindT (liftT (Slot_Validate slot)) (\<lambda>_.
     bindT (stmtT (SlotRepository_Update e slot)) (\<lambda>row.
     bindT (rec_slot e tripID actorID OpSlotEdit row msk) (\<lambda>_. returnT row))))"

definition SlotService_Update :: "Env \<Rightarrow> ID \<Rightarrow> ID \<Rightarrow> ID \<Rightarrow> UpdateSlotInput \<Rightarrow> DB \<Rightarrow> Slot reply" where
  "SlotService_Update e tripID userID slotID inp db =
     guarded (require tripID userID CapEditSlots db) (\<lambda>a.
       let msk = maskFor OpSlotEdit (usFields inp) in
       guarded (FieldMask_Validate msk OpSlotEdit) (\<lambda>_.
         oplog_write tripID (updateSlotBody e tripID (aUserID a) slotID msk inp))) db"

section \<open>Placement, resolution, coverage and deletion\<close>

definition recordSlotState :: "Env \<Rightarrow> ID \<Rightarrow> ID \<Rightarrow> OpKind \<Rightarrow> ID \<Rightarrow> str list \<Rightarrow> unit tx" where
  "recordSlotState e tripID actorID kind slotID flds =
     bindT (readT (SlotRepository_GetByID slotID)) (\<lambda>slot. rec_slot e tripID actorID kind slot flds)"

definition moveSlotBody :: "Env \<Rightarrow> ID \<Rightarrow> ID \<Rightarrow> ID \<Rightarrow> ID option \<Rightarrow> ID option \<Rightarrow> int option \<Rightarrow> unit tx" where
  "moveSlotBody e tripID actorID slotID dayID afterSlotID expectedVersion =
     bindT (readT (SlotService_getInTrip tripID slotID)) (\<lambda>existing.
     bindT (readT (SlotRepository_NeighbourPositions tripID dayID afterSlotID)) (\<lambda>(prev, nxt).
     bindT (liftT (positionBetween prev nxt)) (\<lambda>position.
     bindT (stmtT (SlotRepository_Move e slotID dayID position
        (versionOrCurrent expectedVersion (sVersion existing)) (eNow e))) (\<lambda>_.
     recordSlotState e tripID actorID OpSlotMove slotID [FieldDayID, FieldPosition]))))"

definition SlotService_Move :: "Env \<Rightarrow> ID \<Rightarrow> ID \<Rightarrow> ID \<Rightarrow> ID option \<Rightarrow> ID option \<Rightarrow> int option \<Rightarrow> DB \<Rightarrow> unit reply" where
  "SlotService_Move e tripID userID slotID dayID afterSlotID expectedVersion db =
     guarded (require tripID userID CapReorderSlots db) (\<lambda>a.
       oplog_write tripID (moveSlotBody e tripID (aUserID a) slotID dayID afterSlotID expectedVersion)) db"

definition selectOptionBody :: "Env \<Rightarrow> ID \<Rightarrow> ID \<Rightarrow> ID \<Rightarrow> ID option \<Rightarrow> int option \<Rightarrow> unit tx" where
  "selectOptionBody e tripID actorID slotID optionID expectedVersion =
     bindT (readT (SlotService_getInTrip tripID slotID)) (\<lambda>existing.
     bindT (stmtT (SlotRepository_SetSelectedOption e slotID optionID
        (versionOrCurrent expectedVersion (sVersion existing)) (eNow e))) (\<lambda>_.
     recordSlotState e tripID actorID OpSlotSelectOption slotID [FieldSelectedOptionID]))"

definition SlotService_SetSelectedOption :: "Env \<Rightarrow> ID \<Rightarrow> ID \<Rightarrow> ID \<Rightarrow> ID option \<Rightarrow> int option \<Rightarrow> DB \<Rightarrow> unit reply" where
  "SlotService_SetSelectedOption e tripID userID slotID optionID expectedVersion db =
     guarded (require tripID userID CapEditSlots db) (\<lambda>a.
       oplog_write tripID (selectOptionBody e tripID (aUserID a) slotID optionID expectedVersion)) db"

definition setStatusBody :: "Env \<Rightarrow> ID \<Rightarrow> ID \<Rightarrow> ID \<Rightarrow> SlotStatus \<Rightarrow> int option \<Rightarrow> unit tx" where
  "setStatusBody e tripID actorID slotID status expectedVersion =
     bindT (readT (SlotService_getInTrip tripID slotID)) (\<lambda>existing.
     bindT (stmtT (SlotRepository_SetStatus e slotID status actorID
        (versionOrCurrent expectedVersion (sVersion existing)) (eNow e))) (\<lambda>_.
     recordSlotState e tripID actorID OpSlotSetStatus slotID
       [FieldStatus, FieldStatusChangedAt, FieldStatusChangedBy]))"

definition SlotService_SetStatus :: "Env \<Rightarrow> ID \<Rightarrow> ID \<Rightarrow> ID \<Rightarrow> SlotStatus \<Rightarrow> int option \<Rightarrow> DB \<Rightarrow> unit reply" where
  "SlotService_SetStatus e tripID userID slotID status expectedVersion db =
     guarded (require tripID userID CapEditSlots db) (\<lambda>a.
       guarded (requireR (SlotStatus_Valid status) (ValidationError (Add ''status'' ''invalid_status'' []))) (\<lambda>_.
         oplog_write tripID (setStatusBody e tripID (aUserID a) slotID status expectedVersion))) db"

definition deleteSlotBody :: "Env \<Rightarrow> ID \<Rightarrow> ID \<Rightarrow> ID \<Rightarrow> int option \<Rightarrow> unit tx" where
  "deleteSlotBody e tripID actorID slotID expectedVersion =
     bindT (readT (SlotService_getInTrip tripID slotID)) (\<lambda>existing.
     bindT (stmtT (SlotRepository_SoftDelete e slotID (eNow e)
        (versionOrCurrent expectedVersion (sVersion existing)))) (\<lambda>_.
     let tombstone = existing\<lparr>sDeletedAt := Some (eNow e), sUpdatedAt := eNow e,
           sVersion := sVersion existing + 1\<rparr> in
     rec_slot e tripID actorID OpSlotDelete tombstone [FieldDeletedAt]))"

definition SlotService_Delete :: "Env \<Rightarrow> ID \<Rightarrow> ID \<Rightarrow> ID \<Rightarrow> int option \<Rightarrow> DB \<Rightarrow> unit reply" where
  "SlotService_Delete e tripID userID slotID expectedVersion db =
     guarded (require tripID userID CapDeleteSlots db) (\<lambda>a.
       oplog_write tripID (deleteSlotBody e tripID (aUserID a) slotID expectedVersion)) db"

section \<open>The log grows soundly\<close>

lemma slot_statements_other [keeps_intros]:
  "SlotRepository_Create e s db = Inr (x, db') \<Longrightarrow> otherTables db db'"
  "updateSlot refs i v f db = Inr (x, db') \<Longrightarrow> otherTables db db'"
  by (auto simp: SlotRepository_Create_def updateSlot_def sum_cases otherTables_def)

lemma slot_updates_other [keeps_intros]:
  "SlotRepository_Update e s db = Inr (x, db') \<Longrightarrow> otherTables db db'"
  "SlotRepository_Move e i dayID position v ts db = Inr (x, db') \<Longrightarrow> otherTables db db'"
  "SlotRepository_SetSelectedOption e i optionID v ts db = Inr (x, db') \<Longrightarrow> otherTables db db'"
  "SlotRepository_SetStatus e i status by v ts db = Inr (x, db') \<Longrightarrow> otherTables db db'"
  "SlotRepository_SoftDelete e i ts v db = Inr (x, db') \<Longrightarrow> otherTables db db'"
  unfolding SlotRepository_Update_def SlotRepository_Move_def SlotRepository_SetSelectedOption_def
    SlotRepository_SetStatus_def SlotRepository_SoftDelete_def
  by (blast intro: slot_statements_other)+

lemmas slot_bodies = createSlotBody_def updateSlotBody_def moveSlotBody_def selectOptionBody_def
  setStatusBody_def deleteSlotBody_def recordSlotState_def

lemma slot_bodies_keep [keeps_intros]:
  "keeps (logGrew e tripID actorID db) (createSlotBody e tripID actorID inp)"
  "keeps (logGrew e tripID actorID db) (updateSlotBody e tripID actorID slotID msk upd)"
  "keeps (logGrew e tripID actorID db) (moveSlotBody e tripID actorID slotID dayID after v)"
  "keeps (logGrew e tripID actorID db) (selectOptionBody e tripID actorID slotID optionID v)"
  "keeps (logGrew e tripID actorID db) (setStatusBody e tripID actorID slotID status v)"
  "keeps (logGrew e tripID actorID db) (deleteSlotBody e tripID actorID slotID v)"
  unfolding slot_bodies Let_def case_prod_beta by (intro keeps_intros; assumption)+

lemma slot_bodies_record [keeps_intros]:
  "records (createSlotBody e tripID actorID inp)"
  "records (updateSlotBody e tripID actorID slotID msk upd)"
  "records (moveSlotBody e tripID actorID slotID dayID after v)"
  "records (selectOptionBody e tripID actorID slotID optionID v)"
  "records (setStatusBody e tripID actorID slotID status v)"
  "records (deleteSlotBody e tripID actorID slotID v)"
  unfolding slot_bodies Let_def case_prod_beta
  by (intro records_bindT2 records_rec_return records_rec)+

lemma SlotService_sound [keeps_intros]:
  "soundReply e tripID userID db (SlotService_Create e tripID userID inp db)"
  "soundReply e tripID userID db (SlotService_Update e tripID userID slotID upd db)"
  "soundReply e tripID userID db (SlotService_Move e tripID userID slotID dayID after v db)"
  "soundReply e tripID userID db (SlotService_SetSelectedOption e tripID userID slotID optionID v db)"
  "soundReply e tripID userID db (SlotService_SetStatus e tripID userID slotID status v db)"
  "soundReply e tripID userID db (SlotService_Delete e tripID userID slotID v db)"
  unfolding SlotService_Create_def SlotService_Update_def SlotService_Move_def
    SlotService_SetSelectedOption_def SlotService_SetStatus_def SlotService_Delete_def Let_def
  by (auto dest!: require_user intro!: keeps_intros)

end
