(* ===== verification/DayService.thy ===== *)
theory DayService
  imports SlotService
begin

text \<open>The day service (src/internal/service/day.go): one definition per method, in the shape of the slot
  service.\<close>

definition DayService_getInTrip :: "ID \<Rightarrow> ID \<Rightarrow> DB \<Rightarrow> Day res" where
  "DayService_getInTrip tripID dayID db =
     bindR (DayRepository_GetByID dayID db) (\<lambda>day.
     bindR (checkTrip (dTripID day) tripID) (\<lambda>_. Inr day))"

definition DayService_ListForTrip :: "ID \<Rightarrow> ID \<Rightarrow> DB \<Rightarrow> Day list res" where
  "DayService_ListForTrip tripID userID db =
     bindR (actor tripID userID db) (\<lambda>_. Inr (DayRepository_ListForTrip tripID db))"

record CreateDayInput =
  cdDate :: "instant option"
  cdLabel :: str
  cdAfterDayID :: "ID option"
  cdID :: ID

definition createDayBody :: "Env \<Rightarrow> ID \<Rightarrow> ID \<Rightarrow> CreateDayInput \<Rightarrow> Day tx" where
  "createDayBody e tripID actorID inp =
     bindT (readT (DayRepository_NeighbourPositions tripID (cdAfterDayID inp))) (\<lambda>(prev, nxt).
     bindT (liftT (positionBetween prev nxt)) (\<lambda>position.
     let day = zeroDay\<lparr>dID := orNewID e (cdID inp), dTripID := tripID, dDate := cdDate inp,
           dLabel := cdLabel inp, dPosition := position\<rparr> in
     bindT (liftT (Day_Validate day)) (\<lambda>_.
     bindT (stmtT (DayRepository_Create e day)) (\<lambda>row.
     bindT (rec_day e tripID actorID OpDayCreate row []) (\<lambda>_. returnT row)))))"

definition DayService_Create :: "Env \<Rightarrow> ID \<Rightarrow> ID \<Rightarrow> CreateDayInput \<Rightarrow> DB \<Rightarrow> Day reply" where
  "DayService_Create e tripID userID inp db =
     guarded (require tripID userID CapManageDays db) (\<lambda>a.
       oplog_write tripID (createDayBody e tripID (aUserID a) inp)) db"

record UpdateDayInput =
  udFields :: FieldMask
  udDate :: "instant option"
  udLabel :: str
  udVersion :: "int option"

definition mergeDay :: "FieldMask \<Rightarrow> UpdateDayInput \<Rightarrow> ID \<Rightarrow> ID \<Rightarrow> Day \<Rightarrow> Day" where
  "mergeDay msk inp tripID dayID existing =
     zeroDay\<lparr>dID := dayID, dTripID := tripID,
       dDate := (if Has msk FieldDate then udDate inp else dDate existing),
       dLabel := (if Has msk FieldLabel then udLabel inp else dLabel existing),
       dPosition := dPosition existing,
       dVersion := versionOrCurrent (udVersion inp) (dVersion existing)\<rparr>"

definition updateDayBody :: "Env \<Rightarrow> ID \<Rightarrow> ID \<Rightarrow> ID \<Rightarrow> FieldMask \<Rightarrow> UpdateDayInput \<Rightarrow> Day tx" where
  "updateDayBody e tripID actorID dayID msk inp =
     bindT (readT (DayService_getInTrip tripID dayID)) (\<lambda>existing.
     let day = mergeDay msk inp tripID dayID existing in
     bindT (liftT (Day_Validate day)) (\<lambda>_.
     bindT (stmtT (DayRepository_Update e day)) (\<lambda>row.
     bindT (rec_day e tripID actorID OpDayEdit row msk) (\<lambda>_. returnT row))))"

definition DayService_Update :: "Env \<Rightarrow> ID \<Rightarrow> ID \<Rightarrow> ID \<Rightarrow> UpdateDayInput \<Rightarrow> DB \<Rightarrow> Day reply" where
  "DayService_Update e tripID userID dayID inp db =
     guarded (require tripID userID CapManageDays db) (\<lambda>a.
       let msk = maskFor OpDayEdit (udFields inp) in
       guarded (FieldMask_Validate msk OpDayEdit) (\<lambda>_.
         oplog_write tripID (updateDayBody e tripID (aUserID a) dayID msk inp))) db"

definition moveDayBody :: "Env \<Rightarrow> ID \<Rightarrow> ID \<Rightarrow> ID \<Rightarrow> ID option \<Rightarrow> int option \<Rightarrow> unit tx" where
  "moveDayBody e tripID actorID dayID afterDayID expectedVersion =
     bindT (readT (DayService_getInTrip tripID dayID)) (\<lambda>existing.
     bindT (readT (DayRepository_NeighbourPositions tripID afterDayID)) (\<lambda>(prev, nxt).
     bindT (liftT (positionBetween prev nxt)) (\<lambda>position.
     let day = zeroDay\<lparr>dID := dayID, dTripID := tripID, dDate := dDate existing, dLabel := dLabel existing,
           dPosition := position, dVersion := versionOrCurrent expectedVersion (dVersion existing)\<rparr> in
     bindT (stmtT (DayRepository_Update e day)) (\<lambda>row.
     rec_day e tripID actorID OpDayMove row [FieldPosition]))))"

definition DayService_Move :: "Env \<Rightarrow> ID \<Rightarrow> ID \<Rightarrow> ID \<Rightarrow> ID option \<Rightarrow> int option \<Rightarrow> DB \<Rightarrow> unit reply" where
  "DayService_Move e tripID userID dayID afterDayID expectedVersion db =
     guarded (require tripID userID CapManageDays db) (\<lambda>a.
       oplog_write tripID (moveDayBody e tripID (aUserID a) dayID afterDayID expectedVersion)) db"

definition deleteDayBody :: "Env \<Rightarrow> ID \<Rightarrow> ID \<Rightarrow> ID \<Rightarrow> int option \<Rightarrow> unit tx" where
  "deleteDayBody e tripID actorID dayID expectedVersion =
     bindT (readT (DayService_getInTrip tripID dayID)) (\<lambda>existing.
     bindT (stmtT (DayRepository_SoftDelete e dayID (eNow e)
        (versionOrCurrent expectedVersion (dVersion existing)))) (\<lambda>_.
     let tombstone = existing\<lparr>dDeletedAt := Some (eNow e), dUpdatedAt := eNow e,
           dVersion := dVersion existing + 1\<rparr> in
     rec_day e tripID actorID OpDayDelete tombstone [FieldDeletedAt]))"

definition DayService_Delete :: "Env \<Rightarrow> ID \<Rightarrow> ID \<Rightarrow> ID \<Rightarrow> int option \<Rightarrow> DB \<Rightarrow> unit reply" where
  "DayService_Delete e tripID userID dayID expectedVersion db =
     guarded (require tripID userID CapManageDays db) (\<lambda>a.
       oplog_write tripID (deleteDayBody e tripID (aUserID a) dayID expectedVersion)) db"

section \<open>The log grows soundly\<close>

lemma day_statements_other [keeps_intros]:
  "DayRepository_Create e d db = Inr (x, db') \<Longrightarrow> otherTables db db'"
  "DayRepository_Update e d db = Inr (x, db') \<Longrightarrow> otherTables db db'"
  "DayRepository_SoftDelete e i ts v db = Inr (u, db') \<Longrightarrow> otherTables db db'"
  by (auto simp: DayRepository_Create_def DayRepository_Update_def DayRepository_SoftDelete_def sum_cases
      otherTables_def Let_def)

lemmas day_bodies = createDayBody_def updateDayBody_def moveDayBody_def deleteDayBody_def

lemma day_bodies_keep [keeps_intros]:
  "keeps (logGrew e tripID actorID db) (createDayBody e tripID actorID inp)"
  "keeps (logGrew e tripID actorID db) (updateDayBody e tripID actorID dayID msk upd)"
  "keeps (logGrew e tripID actorID db) (moveDayBody e tripID actorID dayID after v)"
  "keeps (logGrew e tripID actorID db) (deleteDayBody e tripID actorID dayID v)"
  unfolding day_bodies Let_def case_prod_beta by (intro keeps_intros; assumption)+

lemma day_bodies_record [keeps_intros]:
  "records (createDayBody e tripID actorID inp)"
  "records (updateDayBody e tripID actorID dayID msk upd)"
  "records (moveDayBody e tripID actorID dayID after v)"
  "records (deleteDayBody e tripID actorID dayID v)"
  unfolding day_bodies Let_def case_prod_beta
  by (intro records_bindT2 records_rec_return records_rec)+

lemma DayService_sound [keeps_intros]:
  "soundReply e tripID userID db (DayService_Create e tripID userID inp db)"
  "soundReply e tripID userID db (DayService_Update e tripID userID dayID upd db)"
  "soundReply e tripID userID db (DayService_Move e tripID userID dayID after v db)"
  "soundReply e tripID userID db (DayService_Delete e tripID userID dayID v db)"
  unfolding DayService_Create_def DayService_Update_def DayService_Move_def DayService_Delete_def Let_def
  by (auto dest!: require_user intro!: keeps_intros)

end
