(* ===== verification/ProposalServices.thy ===== *)
theory ProposalServices
  imports SlotService
begin

text \<open>Options, votes and comments of a slot (src/internal/service: option.go, vote.go, comment.go).\<close>

definition checkSlotInTrip :: "ID \<Rightarrow> ID \<Rightarrow> DB \<Rightarrow> unit res" where
  "checkSlotInTrip tripID slotID db =
     bindR (SlotRepository_GetByID slotID db) (\<lambda>slot. checkTrip (sTripID slot) tripID)"

section \<open>Options\<close>

definition SlotOptionService_ListForSlot :: "ID \<Rightarrow> ID \<Rightarrow> ID \<Rightarrow> DB \<Rightarrow> SlotOption list res" where
  "SlotOptionService_ListForSlot tripID userID slotID db =
     bindR (actor tripID userID db) (\<lambda>_.
     bindR (checkSlotInTrip tripID slotID db) (\<lambda>_. Inr (SlotOptionRepository_ListForSlot slotID db)))"

definition SlotOptionService_getInTrip :: "ID \<Rightarrow> ID \<Rightarrow> DB \<Rightarrow> SlotOption res" where
  "SlotOptionService_getInTrip tripID optionID db =
     bindR (SlotOptionRepository_GetByID optionID db) (\<lambda>x.
     bindR (checkTrip (oTripID x) tripID) (\<lambda>_. Inr x))"

record CreateOptionInput =
  coTitle :: str
  coNotes :: str
  coExternalURL :: str
  coEstimatedCostMinor :: "int64 option"
  coPlace :: Place
  coID :: ID

definition createOptionBody :: "Env \<Rightarrow> ID \<Rightarrow> ID \<Rightarrow> ID \<Rightarrow> CreateOptionInput \<Rightarrow> SlotOption tx" where
  "createOptionBody e tripID actorID slotID inp =
     bindT (readT (checkSlotInTrip tripID slotID)) (\<lambda>_.
     let x = zeroOption\<lparr>oID := orNewID e (coID inp), oSlotID := slotID, oTripID := tripID,
           oTitle := coTitle inp, oNotes := coNotes inp, oExternalURL := coExternalURL inp,
           oEstimatedCostMinor := coEstimatedCostMinor inp, oPlace := coPlace inp,
           oProposedBy := Some actorID\<rparr> in
     bindT (liftT (SlotOption_Validate x)) (\<lambda>_.
     bindT (stmtT (SlotOptionRepository_Create e x)) (\<lambda>row.
     bindT (rec_option e tripID actorID OpOptionCreate row []) (\<lambda>_. returnT row))))"

definition SlotOptionService_Create :: "Env \<Rightarrow> ID \<Rightarrow> ID \<Rightarrow> ID \<Rightarrow> CreateOptionInput \<Rightarrow> DB \<Rightarrow> SlotOption reply" where
  "SlotOptionService_Create e tripID userID slotID inp db =
     guarded (require tripID userID CapProposeOptions db) (\<lambda>a.
       oplog_write tripID (createOptionBody e tripID (aUserID a) slotID inp)) db"

record UpdateOptionInput =
  uoFields :: FieldMask
  uoTitle :: str
  uoNotes :: str
  uoExternalURL :: str
  uoEstimatedCostMinor :: "int64 option"
  uoPlace :: Place
  uoVersion :: "int option"

definition mergePlace :: "FieldMask \<Rightarrow> Place \<Rightarrow> Place \<Rightarrow> Place" where
  "mergePlace msk new old =
     \<lparr>plName = (if Has msk FieldPlaceName then plName new else plName old),
      plAddress = (if Has msk FieldPlaceAddress then plAddress new else plAddress old),
      plLat = (if Has msk FieldPlaceLat then plLat new else plLat old),
      plLng = (if Has msk FieldPlaceLng then plLng new else plLng old),
      plProviderID = (if Has msk FieldPlaceProviderID then plProviderID new else plProviderID old)\<rparr>"

definition mergeOption :: "FieldMask \<Rightarrow> UpdateOptionInput \<Rightarrow> ID \<Rightarrow> ID \<Rightarrow> SlotOption \<Rightarrow> SlotOption" where
  "mergeOption msk inp tripID optionID existing =
     zeroOption\<lparr>oID := optionID, oSlotID := oSlotID existing, oTripID := tripID,
       oTitle := (if Has msk FieldTitle then uoTitle inp else oTitle existing),
       oNotes := (if Has msk FieldNotes then uoNotes inp else oNotes existing),
       oExternalURL := (if Has msk FieldExternalURL then uoExternalURL inp else oExternalURL existing),
       oEstimatedCostMinor :=
         (if Has msk FieldEstimatedCost then uoEstimatedCostMinor inp else oEstimatedCostMinor existing),
       oPlace := mergePlace msk (uoPlace inp) (oPlace existing),
       oVersion := versionOrCurrent (uoVersion inp) (oVersion existing)\<rparr>"

definition updateOptionBody :: "Env \<Rightarrow> ID \<Rightarrow> ID \<Rightarrow> ID \<Rightarrow> FieldMask \<Rightarrow> UpdateOptionInput \<Rightarrow> SlotOption tx" where
  "updateOptionBody e tripID actorID optionID msk inp =
     bindT (readT (SlotOptionService_getInTrip tripID optionID)) (\<lambda>existing.
     let x = mergeOption msk inp tripID optionID existing in
     bindT (liftT (SlotOption_Validate x)) (\<lambda>_.
     bindT (stmtT (SlotOptionRepository_Update e x)) (\<lambda>row.
     bindT (rec_option e tripID actorID OpOptionEdit row msk) (\<lambda>_. returnT row))))"

definition SlotOptionService_Update :: "Env \<Rightarrow> ID \<Rightarrow> ID \<Rightarrow> ID \<Rightarrow> UpdateOptionInput \<Rightarrow> DB \<Rightarrow> SlotOption reply" where
  "SlotOptionService_Update e tripID userID optionID inp db =
     guarded (require tripID userID CapProposeOptions db) (\<lambda>a.
       let msk = maskFor OpOptionEdit (uoFields inp) in
       guarded (FieldMask_Validate msk OpOptionEdit) (\<lambda>_.
         oplog_write tripID (updateOptionBody e tripID (aUserID a) optionID msk inp))) db"

text \<open>\<^theory_text>\<open>Delete\<close> records the tombstone and then, when the slot had selected the option, clears the
  selection as a second operation of the same intent.\<close>

definition clearSelection :: "Env \<Rightarrow> ID \<Rightarrow> ID \<Rightarrow> ID \<Rightarrow> ID \<Rightarrow> unit tx" where
  "clearSelection e tripID actorID slotID optionID =
     bindT (readT (SlotRepository_GetByID slotID)) (\<lambda>slot.
     if sSelectedOptionID slot \<noteq> Some optionID then returnT ()
     else
       bindT (stmtT (SlotRepository_SetSelectedOption e (sID slot) None (sVersion slot) (eNow e))) (\<lambda>_.
       bindT (readT (SlotRepository_GetByID (sID slot))) (\<lambda>cleared.
       rec_slot e tripID actorID OpSlotSelectOption cleared [FieldSelectedOptionID])))"

definition deleteOptionBody :: "Env \<Rightarrow> ID \<Rightarrow> ID \<Rightarrow> ID \<Rightarrow> int option \<Rightarrow> unit tx" where
  "deleteOptionBody e tripID actorID optionID expectedVersion =
     bindT (readT (SlotOptionService_getInTrip tripID optionID)) (\<lambda>existing.
     bindT (stmtT (SlotOptionRepository_SoftDelete e optionID (eNow e)
        (versionOrCurrent expectedVersion (oVersion existing)))) (\<lambda>_.
     let tombstone = existing\<lparr>oDeletedAt := Some (eNow e), oUpdatedAt := eNow e,
           oVersion := oVersion existing + 1\<rparr> in
     bindT (rec_option e tripID actorID OpOptionDelete tombstone [FieldDeletedAt]) (\<lambda>_.
     clearSelection e tripID actorID (oSlotID existing) optionID)))"

definition SlotOptionService_Delete :: "Env \<Rightarrow> ID \<Rightarrow> ID \<Rightarrow> ID \<Rightarrow> int option \<Rightarrow> DB \<Rightarrow> unit reply" where
  "SlotOptionService_Delete e tripID userID optionID expectedVersion db =
     guarded (require tripID userID CapProposeOptions db) (\<lambda>a.
       oplog_write tripID (deleteOptionBody e tripID (aUserID a) optionID expectedVersion)) db"

section \<open>Votes\<close>

definition castVoteBody :: "Env \<Rightarrow> ID \<Rightarrow> ID \<Rightarrow> ID \<Rightarrow> ID \<Rightarrow> ID option \<Rightarrow> Vote tx" where
  "castVoteBody e tripID actorID userID slotID optionID =
     bindT (readT (SlotRepository_GetByID slotID)) (\<lambda>slot.
     bindT (liftT (checkTrip (sTripID slot) tripID)) (\<lambda>_.
     let vote = zeroVote\<lparr>vSlotID := slotID, vTripID := tripID, vUserID := userID, vOptionID := optionID\<rparr> in
     bindT (liftT (Vote_Validate vote)) (\<lambda>_.
     bindT (stmtT (VoteRepository_Cast e vote)) (\<lambda>row.
     bindT (rec_vote e tripID actorID row) (\<lambda>_. returnT row)))))"

definition VoteService_Cast :: "Env \<Rightarrow> ID \<Rightarrow> ID \<Rightarrow> ID \<Rightarrow> ID option \<Rightarrow> DB \<Rightarrow> Vote reply" where
  "VoteService_Cast e tripID userID slotID optionID db =
     guarded (require tripID userID CapVote db) (\<lambda>a.
       oplog_write tripID (castVoteBody e tripID (aUserID a) userID slotID optionID)) db"

definition VoteService_ListForSlot :: "ID \<Rightarrow> ID \<Rightarrow> ID \<Rightarrow> DB \<Rightarrow> Vote list res" where
  "VoteService_ListForSlot tripID userID slotID db =
     bindR (actor tripID userID db) (\<lambda>_.
     bindR (checkSlotInTrip tripID slotID db) (\<lambda>_. Inr (VoteRepository_ListForSlot slotID db)))"

definition VoteService_Tally :: "ID \<Rightarrow> ID \<Rightarrow> ID \<Rightarrow> DB \<Rightarrow> VoteTally list res" where
  "VoteService_Tally tripID userID slotID db =
     bindR (actor tripID userID db) (\<lambda>_.
     bindR (checkSlotInTrip tripID slotID db) (\<lambda>_. Inr (VoteRepository_Tally slotID db)))"

section \<open>Comments\<close>

definition CommentService_ListForSlot :: "ID \<Rightarrow> ID \<Rightarrow> ID \<Rightarrow> DB \<Rightarrow> Comment list res" where
  "CommentService_ListForSlot tripID userID slotID db =
     bindR (actor tripID userID db) (\<lambda>_.
     bindR (checkSlotInTrip tripID slotID db) (\<lambda>_. Inr (CommentRepository_ListForSlot slotID db)))"

definition CommentService_getInTrip :: "ID \<Rightarrow> ID \<Rightarrow> DB \<Rightarrow> Comment res" where
  "CommentService_getInTrip tripID commentID db =
     bindR (CommentRepository_GetByID commentID db) (\<lambda>c.
     bindR (checkTrip (cTripID c) tripID) (\<lambda>_. Inr c))"

record CreateCommentInput =
  ccBody :: str
  ccID :: ID

definition createCommentBody :: "Env \<Rightarrow> ID \<Rightarrow> ID \<Rightarrow> ID \<Rightarrow> CreateCommentInput \<Rightarrow> Comment tx" where
  "createCommentBody e tripID actorID slotID inp =
     bindT (readT (checkSlotInTrip tripID slotID)) (\<lambda>_.
     let c = zeroComment\<lparr>cID := orNewID e (ccID inp), cSlotID := slotID, cTripID := tripID,
           cBody := ccBody inp, cAuthorID := Some actorID\<rparr> in
     bindT (liftT (Comment_Validate c)) (\<lambda>_.
     bindT (stmtT (CommentRepository_Create e c)) (\<lambda>row.
     bindT (rec_comment e tripID actorID OpCommentCreate row []) (\<lambda>_. returnT row))))"

definition CommentService_Create :: "Env \<Rightarrow> ID \<Rightarrow> ID \<Rightarrow> ID \<Rightarrow> CreateCommentInput \<Rightarrow> DB \<Rightarrow> Comment reply" where
  "CommentService_Create e tripID userID slotID inp db =
     guarded (require tripID userID CapComment db) (\<lambda>a.
       oplog_write tripID (createCommentBody e tripID (aUserID a) slotID inp)) db"

definition deleteCommentBody :: "Env \<Rightarrow> ID \<Rightarrow> ID \<Rightarrow> ID \<Rightarrow> unit tx" where
  "deleteCommentBody e tripID actorID commentID =
     bindT (readT (CommentService_getInTrip tripID commentID)) (\<lambda>existing.
     if cAuthorID existing \<noteq> Some actorID then failT ErrForbidden
     else
       bindT (stmtT (CommentRepository_SoftDelete e commentID (eNow e))) (\<lambda>_.
       let tombstone = existing\<lparr>cDeletedAt := Some (eNow e), cUpdatedAt := eNow e\<rparr> in
       rec_comment e tripID actorID OpCommentDelete tombstone [FieldDeletedAt]))"

definition CommentService_Delete :: "Env \<Rightarrow> ID \<Rightarrow> ID \<Rightarrow> ID \<Rightarrow> DB \<Rightarrow> unit reply" where
  "CommentService_Delete e tripID userID commentID db =
     guarded (require tripID userID CapComment db) (\<lambda>a.
       oplog_write tripID (deleteCommentBody e tripID (aUserID a) commentID)) db"

section \<open>The log grows soundly\<close>

lemma proposal_statements_other [keeps_intros]:
  "SlotOptionRepository_Create e x db = Inr (row, db') \<Longrightarrow> otherTables db db'"
  "SlotOptionRepository_Update e x db = Inr (row, db') \<Longrightarrow> otherTables db db'"
  "SlotOptionRepository_SoftDelete e i ts v db = Inr (row, db') \<Longrightarrow> otherTables db db'"
  "CommentRepository_Create e c db = Inr (crow, db') \<Longrightarrow> otherTables db db'"
  "CommentRepository_SoftDelete e i ts db = Inr (u, db') \<Longrightarrow> otherTables db db'"
  by (auto simp: SlotOptionRepository_Create_def SlotOptionRepository_Update_def
      SlotOptionRepository_SoftDelete_def updateOption_def CommentRepository_Create_def
      CommentRepository_SoftDelete_def sum_cases otherTables_def Let_def)

lemma vote_statement_other [keeps_intros]: "VoteRepository_Cast e v db = Inr (row, db') \<Longrightarrow> otherTables db db'"
  by (auto simp: VoteRepository_Cast_def sum_cases otherTables_def Let_def split: option.splits if_splits)

lemmas proposal_bodies = createOptionBody_def updateOptionBody_def deleteOptionBody_def clearSelection_def
  castVoteBody_def createCommentBody_def deleteCommentBody_def

lemma proposal_bodies_keep [keeps_intros]:
  "keeps (logGrew e tripID actorID db) (createOptionBody e tripID actorID slotID inp)"
  "keeps (logGrew e tripID actorID db) (updateOptionBody e tripID actorID optionID msk upd)"
  "keeps (logGrew e tripID actorID db) (deleteOptionBody e tripID actorID optionID v)"
  "keeps (logGrew e tripID actorID db) (castVoteBody e tripID actorID userID slotID opt)"
  "keeps (logGrew e tripID actorID db) (createCommentBody e tripID actorID slotID cinp)"
  "keeps (logGrew e tripID actorID db) (deleteCommentBody e tripID actorID commentID)"
  unfolding proposal_bodies Let_def by (intro keeps_intros; assumption)+

lemma clearSelection_nonempty: "keeps (\<lambda>t. txOps t \<noteq> []) (clearSelection e tripID actorID slotID optionID)"
  unfolding clearSelection_def rec_slot_def Let_def
  by (intro keeps_bindT keeps_basic keeps_If keeps_nonempty)

lemma proposal_bodies_record [keeps_intros]:
  "records (createOptionBody e tripID actorID slotID inp)"
  "records (updateOptionBody e tripID actorID optionID msk upd)"
  "records (castVoteBody e tripID actorID userID slotID opt)"
  "records (createCommentBody e tripID actorID slotID cinp)"
  "records (deleteCommentBody e tripID actorID commentID)"
  unfolding proposal_bodies Let_def
  by (intro records_bindT2 records_rec_return records_rec records_basic)+

lemma deleteOption_records [keeps_intros]: "records (deleteOptionBody e tripID actorID optionID v)"
  unfolding deleteOptionBody_def Let_def
  by (intro records_bindT2 records_bindT1 records_rec clearSelection_nonempty)

lemma ProposalServices_sound [keeps_intros]:
  "soundReply e tripID userID db (SlotOptionService_Create e tripID userID slotID inp db)"
  "soundReply e tripID userID db (SlotOptionService_Update e tripID userID optionID upd db)"
  "soundReply e tripID userID db (SlotOptionService_Delete e tripID userID optionID v db)"
  "soundReply e tripID userID db (VoteService_Cast e tripID userID slotID opt db)"
  "soundReply e tripID userID db (CommentService_Create e tripID userID slotID cinp db)"
  "soundReply e tripID userID db (CommentService_Delete e tripID userID commentID db)"
  unfolding SlotOptionService_Create_def SlotOptionService_Update_def SlotOptionService_Delete_def
    VoteService_Cast_def CommentService_Create_def CommentService_Delete_def Let_def
  by (auto dest!: require_user intro!: keeps_intros)

end
