(* ===== verification/LedgerService.thy ===== *)
theory LedgerService
  imports SlotService
begin

text \<open>The budget: its repository (src/internal/repository/budget.go) and its service
  (src/internal/service/budget.go). An entry row is kept with its splits in the order they were
  inserted; reading it returns them ordered by user.\<close>

section \<open>Repository\<close>

definition budgetChecks :: "BudgetEntry \<Rightarrow> unit query" where
  "budgetChecks b = violates
     [(sint (bAmountMinor b) < 0, CheckViolation ''budget_entries_amount''),
      (\<not> BudgetCategory_Valid (bCategory b), CheckViolation ''budget_entries_category''),
      (\<not> (1 \<le> RuneCountInString (bLabel b) \<and> RuneCountInString (bLabel b) \<le> 200),
         CheckViolation ''budget_entries_label_len''),
      (bVersion b \<le> 0, CheckViolation ''budget_entries_version'')]"

definition budgetRefs :: "DB \<Rightarrow> BudgetEntry \<Rightarrow> unit query" where
  "budgetRefs db b = violates
     [(case bSlotOptionID b of None \<Rightarrow> False
       | Some i \<Rightarrow> \<not> list_ex (\<lambda>x. oID x = i \<and> oTripID x = bTripID b) (dbOptions db),
       ForeignKeyViolation ''budget_entries_option_fk'')]"

definition newBudgetRow :: "Env \<Rightarrow> BudgetEntry \<Rightarrow> BudgetEntry" where
  "newBudgetRow e b = b\<lparr>bIncurredOn := map_option (eDate e) (bIncurredOn b), bSplits := [], bVersion := 1,
     bCreatedAt := eTxNow e, bUpdatedAt := eTxNow e, bDeletedAt := None\<rparr>"

definition setBudget :: "Env \<Rightarrow> BudgetEntry \<Rightarrow> BudgetEntry \<Rightarrow> BudgetEntry" where
  "setBudget e b row = row\<lparr>bSlotOptionID := bSlotOptionID b, bLabel := bLabel b, bCategory := bCategory b,
     bAmountMinor := bAmountMinor b, bPaidBy := bPaidBy b, bIncurredOn := map_option (eDate e) (bIncurredOn b),
     bVersion := bVersion row + 1, bUpdatedAt := eTimestamp e (eWall e)\<rparr>"

definition setBudgetDeleted :: "Env \<Rightarrow> instant \<Rightarrow> BudgetEntry \<Rightarrow> BudgetEntry" where
  "setBudgetDeleted e ts row = row\<lparr>bDeletedAt := Some (eTimestamp e ts), bVersion := bVersion row + 1,
     bUpdatedAt := eTimestamp e ts\<rparr>"

text \<open>The loop that inserts the splits: \<^theory_text>\<open>taken\<close> are the split identifiers of the other entries and of
  the splits already inserted.\<close>

fun insertSplits :: "Env \<Rightarrow> nat \<Rightarrow> ID list \<Rightarrow> BudgetSplit list \<Rightarrow> BudgetSplit list \<Rightarrow> BudgetSplit list query" where
  "insertSplits e n taken saved [] = Inr saved"
| "insertSplits e n taken saved (s # ss) =
     (let i = (if bsID s = NilID then eSplitID e n else bsID s);
          row = \<lparr>bsID = i, bsUserID = bsUserID s, bsAmountMinor = bsAmountMinor s, bsCreatedAt = eTxNow e\<rparr> in
      bindR (violates
        [(sint (bsAmountMinor s) < 0, CheckViolation ''budget_splits_amount''),
         (i \<in> set taken, UniqueViolation ''budget_splits_pkey''),
         (bsUserID s \<in> bsUserID ` set saved, UniqueViolation ''budget_splits_uq'')])
        (\<lambda>_. insertSplits e (Suc n) (i # taken) (saved @ [row]) ss))"

definition otherSplitIDs :: "ID \<Rightarrow> BudgetEntry list \<Rightarrow> ID list" where
  "otherSplitIDs entryID rows =
     concat (map (\<lambda>b. map bsID (bSplits b)) (filter (\<lambda>b. bID b \<noteq> entryID) rows))"

definition saveEntry :: "Env \<Rightarrow> BudgetEntry \<Rightarrow> DB \<Rightarrow> (BudgetEntry \<times> BudgetEntry list) res" where
  "saveEntry e b db =
     (if bVersion b = 0
      then mapErrorR (insertRow ''budget_entries_pkey'' bID budgetChecks (budgetRefs db) (newBudgetRow e b) (dbBudgets db))
      else updateVersioned bID bVersion bDeletedAt
        (\<lambda>r. bindR (budgetChecks r) (\<lambda>_. budgetRefs db r)) (bID b) (bVersion b) (setBudget e b) (dbBudgets db))"

definition BudgetRepository_Save :: "Env \<Rightarrow> BudgetEntry \<Rightarrow> DB \<Rightarrow> (BudgetEntry \<times> DB) res" where
  "BudgetRepository_Save e b db =
     bindR (saveEntry e b db) (\<lambda>(row, rows).
     bindR (mapErrorR (insertSplits e 0 (otherSplitIDs (bID row) rows) [] (bSplits b))) (\<lambda>saved.
       let out = row\<lparr>bSplits := saved\<rparr> in
       Inr (out, db\<lparr>dbBudgets := updRow bID (bID row) (\<lambda>_. out) rows\<rparr>)))"

definition readEntry :: "BudgetEntry \<Rightarrow> BudgetEntry" where
  "readEntry b = b\<lparr>bSplits := sort_key bsUserID (bSplits b)\<rparr>"

definition BudgetRepository_GetByID :: "ID \<Rightarrow> DB \<Rightarrow> BudgetEntry res" where
  "BudgetRepository_GetByID i db = bindR (getLive bID bDeletedAt (dbBudgets db) i) (\<lambda>b. Inr (readEntry b))"

definition BudgetRepository_ListForTrip :: "ID \<Rightarrow> DB \<Rightarrow> BudgetEntry list" where
  "BudgetRepository_ListForTrip tripID db =
     map readEntry (sort_key (\<lambda>b. (case bIncurredOn b of None \<Rightarrow> (1 :: nat, 0) | Some d \<Rightarrow> (0, d), bCreatedAt b, bID b))
       (filter (\<lambda>b. bTripID b = tripID \<and> bDeletedAt b = None) (dbBudgets db)))"

definition BudgetRepository_SoftDelete :: "Env \<Rightarrow> ID \<Rightarrow> instant \<Rightarrow> int \<Rightarrow> DB \<Rightarrow> (unit \<times> DB) res" where
  "BudgetRepository_SoftDelete e i ts expected db =
     bindR (updateVersioned bID bVersion bDeletedAt budgetChecks i expected (setBudgetDeleted e ts) (dbBudgets db))
       (\<lambda>(_, rows). Inr ((), db\<lparr>dbBudgets := rows\<rparr>))"

section \<open>Service\<close>

definition BudgetService_getInTrip :: "ID \<Rightarrow> ID \<Rightarrow> DB \<Rightarrow> BudgetEntry res" where
  "BudgetService_getInTrip tripID entryID db =
     bindR (BudgetRepository_GetByID entryID db) (\<lambda>b.
     bindR (checkTrip (bTripID b) tripID) (\<lambda>_. Inr b))"

definition BudgetService_List :: "ID \<Rightarrow> ID \<Rightarrow> DB \<Rightarrow> BudgetEntry list res" where
  "BudgetService_List tripID userID db =
     bindR (actor tripID userID db) (\<lambda>_. Inr (BudgetRepository_ListForTrip tripID db))"

definition BudgetService_Get :: "ID \<Rightarrow> ID \<Rightarrow> ID \<Rightarrow> DB \<Rightarrow> BudgetEntry res" where
  "BudgetService_Get tripID userID entryID db =
     bindR (actor tripID userID db) (\<lambda>_. BudgetService_getInTrip tripID entryID db)"

record BudgetEntryInput =
  biLabel :: str
  biCategory :: BudgetCategory
  biAmountMinor :: int64
  biSlotOptionID :: "ID option"
  biPaidBy :: "ID option"
  biIncurredOn :: "instant option"
  biSplits :: "BudgetSplit list"
  biID :: ID
  biVersion :: "int option"

definition BudgetService_validate :: "ID \<Rightarrow> BudgetEntry \<Rightarrow> DB \<Rightarrow> unit res" where
  "BudgetService_validate tripID b db =
     bindR (BudgetEntry_Validate b) (\<lambda>_.
       if length (bSplits b) = 0 then Inr ()
       else
         let members = map mUserID (MembershipRepository_List tripID db) in
         OrNil (AddIf (list_ex (\<lambda>s. bsUserID s \<notin> set members) (bSplits b)) ''splits'' ''not_a_member'' []))"

definition inputEntry :: "BudgetEntryInput \<Rightarrow> ID \<Rightarrow> ID \<Rightarrow> BudgetEntry" where
  "inputEntry inp tripID entryID =
     zeroBudget\<lparr>bID := entryID, bTripID := tripID, bLabel := biLabel inp, bCategory := biCategory inp,
       bAmountMinor := biAmountMinor inp, bSlotOptionID := biSlotOptionID inp, bPaidBy := biPaidBy inp,
       bIncurredOn := biIncurredOn inp, bSplits := biSplits inp\<rparr>"

definition createBudgetBody :: "Env \<Rightarrow> ID \<Rightarrow> ID \<Rightarrow> BudgetEntryInput \<Rightarrow> BudgetEntry tx" where
  "createBudgetBody e tripID actorID inp =
     (let b = (inputEntry inp tripID (orNewID e (biID inp)))\<lparr>bCreatedBy := Some actorID, bVersion := 0\<rparr> in
     bindT (readT (BudgetService_validate tripID b)) (\<lambda>_.
     bindT (stmtT (BudgetRepository_Save e b)) (\<lambda>row.
     bindT (rec_budget e tripID actorID OpBudgetSet row []) (\<lambda>_. returnT row))))"

definition BudgetService_Create :: "Env \<Rightarrow> ID \<Rightarrow> ID \<Rightarrow> BudgetEntryInput \<Rightarrow> DB \<Rightarrow> BudgetEntry reply" where
  "BudgetService_Create e tripID userID inp db =
     guarded (require tripID userID CapManageBudget db) (\<lambda>a.
       oplog_write tripID (createBudgetBody e tripID (aUserID a) inp)) db"

definition updateBudgetBody :: "Env \<Rightarrow> ID \<Rightarrow> ID \<Rightarrow> ID \<Rightarrow> int \<Rightarrow> BudgetEntryInput \<Rightarrow> BudgetEntry tx" where
  "updateBudgetBody e tripID actorID entryID version inp =
     bindT (readT (BudgetService_getInTrip tripID entryID)) (\<lambda>existing.
     let b = (inputEntry inp tripID entryID)\<lparr>bCreatedBy := bCreatedBy existing,
           bCreatedAt := bCreatedAt existing, bVersion := version\<rparr> in
     bindT (readT (BudgetService_validate tripID b)) (\<lambda>_.
     bindT (stmtT (BudgetRepository_Save e b)) (\<lambda>row.
     bindT (rec_budget e tripID actorID OpBudgetSet row []) (\<lambda>_. returnT row))))"

definition BudgetService_Update :: "Env \<Rightarrow> ID \<Rightarrow> ID \<Rightarrow> ID \<Rightarrow> BudgetEntryInput \<Rightarrow> DB \<Rightarrow> BudgetEntry reply" where
  "BudgetService_Update e tripID userID entryID inp db =
     guarded (require tripID userID CapManageBudget db) (\<lambda>a.
       guarded (requireVersion (biVersion inp) ''version'') (\<lambda>version.
         oplog_write tripID (updateBudgetBody e tripID (aUserID a) entryID version inp))) db"

definition deleteBudgetBody :: "Env \<Rightarrow> ID \<Rightarrow> ID \<Rightarrow> ID \<Rightarrow> int \<Rightarrow> unit tx" where
  "deleteBudgetBody e tripID actorID entryID version =
     bindT (readT (BudgetService_getInTrip tripID entryID)) (\<lambda>existing.
     bindT (stmtT (BudgetRepository_SoftDelete e entryID (eNow e) version)) (\<lambda>_.
     let tombstone = existing\<lparr>bDeletedAt := Some (eNow e), bUpdatedAt := eNow e,
           bVersion := bVersion existing + 1\<rparr> in
     rec_budget e tripID actorID OpBudgetDelete tombstone [FieldDeletedAt]))"

definition BudgetService_Delete :: "Env \<Rightarrow> ID \<Rightarrow> ID \<Rightarrow> ID \<Rightarrow> int option \<Rightarrow> DB \<Rightarrow> unit reply" where
  "BudgetService_Delete e tripID userID entryID expectedVersion db =
     guarded (require tripID userID CapManageBudget db) (\<lambda>a.
       guarded (requireVersion expectedVersion ''version'') (\<lambda>version.
         oplog_write tripID (deleteBudgetBody e tripID (aUserID a) entryID version))) db"

section \<open>Lemmas\<close>

interpretation budgetEdit: versioned_statement bID bVersion "setBudget e b" for e b
  by unfold_locales (simp_all add: setBudget_def)

interpretation budgetTombstone: versioned_statement bID bVersion "setBudgetDeleted e ts" for e ts
  by unfold_locales (simp_all add: setBudgetDeleted_def)

lemma budget_statements_other [keeps_intros]:
  "BudgetRepository_Save e b db = Inr (row, db') \<Longrightarrow> otherTables db db'"
  "BudgetRepository_SoftDelete e i ts v db = Inr (u, db') \<Longrightarrow> otherTables db db'"
  by (auto simp: BudgetRepository_Save_def BudgetRepository_SoftDelete_def sum_cases otherTables_def Let_def)

lemmas budget_bodies = createBudgetBody_def updateBudgetBody_def deleteBudgetBody_def

lemma budget_bodies_keep [keeps_intros]:
  "keeps (logGrew e tripID actorID db) (createBudgetBody e tripID actorID inp)"
  "keeps (logGrew e tripID actorID db) (updateBudgetBody e tripID actorID entryID version inp)"
  "keeps (logGrew e tripID actorID db) (deleteBudgetBody e tripID actorID entryID version)"
  unfolding budget_bodies Let_def by (intro keeps_intros; assumption)+

lemma budget_bodies_record [keeps_intros]:
  "records (createBudgetBody e tripID actorID inp)"
  "records (updateBudgetBody e tripID actorID entryID version inp)"
  "records (deleteBudgetBody e tripID actorID entryID version)"
  unfolding budget_bodies Let_def
  by (intro records_bindT2 records_rec_return records_rec)+

lemma BudgetService_sound [keeps_intros]:
  "soundReply e tripID userID db (BudgetService_Create e tripID userID inp db)"
  "soundReply e tripID userID db (BudgetService_Update e tripID userID entryID inp db)"
  "soundReply e tripID userID db (BudgetService_Delete e tripID userID entryID v db)"
  unfolding BudgetService_Create_def BudgetService_Update_def BudgetService_Delete_def
  by (auto dest!: require_user intro!: keeps_intros)

end
