(* ===== verification/System.thy ===== *)
theory System
  imports DayService ProposalServices LedgerService
begin

text \<open>The planning services together: every write a member can request, as one function on the
  database, and the databases reachable by such requests. Trips and memberships are changed by other
  services; here they may change in any way between two requests.\<close>

datatype Request =
    CreateSlot CreateSlotInput
  | UpdateSlot ID UpdateSlotInput
  | MoveSlot ID "ID option" "ID option" "int option"
  | SelectOption ID "ID option" "int option"
  | SetStatus ID SlotStatus "int option"
  | DeleteSlot ID "int option"
  | CreateDay CreateDayInput
  | UpdateDay ID UpdateDayInput
  | MoveDay ID "ID option" "int option"
  | DeleteDay ID "int option"
  | CreateOption ID CreateOptionInput
  | UpdateOption ID UpdateOptionInput
  | DeleteOption ID "int option"
  | CastVote ID "ID option"
  | CreateComment ID CreateCommentInput
  | DeleteComment ID
  | CreateEntry BudgetEntryInput
  | UpdateEntry ID BudgetEntryInput
  | DeleteEntry ID "int option"

definition ack :: "'a reply \<Rightarrow> unit reply" where
  "ack r = (case r of (res, db, ops) \<Rightarrow> (bindR res (\<lambda>_. Inr ()), db, ops))"

definition serve :: "Env \<Rightarrow> ID \<Rightarrow> ID \<Rightarrow> Request \<Rightarrow> DB \<Rightarrow> unit reply" where
  "serve e tripID userID req db = (case req of
       CreateSlot inp \<Rightarrow> ack (SlotService_Create e tripID userID inp db)
     | UpdateSlot i inp \<Rightarrow> ack (SlotService_Update e tripID userID i inp db)
     | MoveSlot i dayID after v \<Rightarrow> SlotService_Move e tripID userID i dayID after v db
     | SelectOption i optionID v \<Rightarrow> SlotService_SetSelectedOption e tripID userID i optionID v db
     | SetStatus i status v \<Rightarrow> SlotService_SetStatus e tripID userID i status v db
     | DeleteSlot i v \<Rightarrow> SlotService_Delete e tripID userID i v db
     | CreateDay inp \<Rightarrow> ack (DayService_Create e tripID userID inp db)
     | UpdateDay i inp \<Rightarrow> ack (DayService_Update e tripID userID i inp db)
     | MoveDay i after v \<Rightarrow> DayService_Move e tripID userID i after v db
     | DeleteDay i v \<Rightarrow> DayService_Delete e tripID userID i v db
     | CreateOption slotID inp \<Rightarrow> ack (SlotOptionService_Create e tripID userID slotID inp db)
     | UpdateOption i inp \<Rightarrow> ack (SlotOptionService_Update e tripID userID i inp db)
     | DeleteOption i v \<Rightarrow> SlotOptionService_Delete e tripID userID i v db
     | CastVote slotID optionID \<Rightarrow> ack (VoteService_Cast e tripID userID slotID optionID db)
     | CreateComment slotID inp \<Rightarrow> ack (CommentService_Create e tripID userID slotID inp db)
     | DeleteComment i \<Rightarrow> CommentService_Delete e tripID userID i db
     | CreateEntry inp \<Rightarrow> ack (BudgetService_Create e tripID userID inp db)
     | UpdateEntry i inp \<Rightarrow> ack (BudgetService_Update e tripID userID i inp db)
     | DeleteEntry i v \<Rightarrow> BudgetService_Delete e tripID userID i v db)"

text \<open>The capability each request needs.\<close>

definition needs :: "Request \<Rightarrow> Capability" where
  "needs req = (case req of
       CreateSlot _ \<Rightarrow> CapCreateSlots
     | UpdateSlot _ _ \<Rightarrow> CapEditSlots
     | MoveSlot _ _ _ _ \<Rightarrow> CapReorderSlots
     | SelectOption _ _ _ \<Rightarrow> CapEditSlots
     | SetStatus _ _ _ \<Rightarrow> CapEditSlots
     | DeleteSlot _ _ \<Rightarrow> CapDeleteSlots
     | CreateDay _ \<Rightarrow> CapManageDays
     | UpdateDay _ _ \<Rightarrow> CapManageDays
     | MoveDay _ _ _ \<Rightarrow> CapManageDays
     | DeleteDay _ _ \<Rightarrow> CapManageDays
     | CreateOption _ _ \<Rightarrow> CapProposeOptions
     | UpdateOption _ _ \<Rightarrow> CapProposeOptions
     | DeleteOption _ _ \<Rightarrow> CapProposeOptions
     | CastVote _ _ \<Rightarrow> CapVote
     | CreateComment _ _ \<Rightarrow> CapComment
     | DeleteComment _ \<Rightarrow> CapComment
     | CreateEntry _ \<Rightarrow> CapManageBudget
     | UpdateEntry _ _ \<Rightarrow> CapManageBudget
     | DeleteEntry _ _ \<Rightarrow> CapManageBudget)"

section \<open>Reachable databases\<close>

definition emptyPlan :: "DB \<Rightarrow> bool" where
  "emptyPlan db \<longleftrightarrow> dbDays db = [] \<and> dbSlots db = [] \<and> dbOptions db = [] \<and> dbVotes db = [] \<and>
     dbBudgets db = [] \<and> dbComments db = [] \<and> dbOps db = [] \<and> (\<forall>i. dbOpSeq db i = 0)"

inductive reachable :: "(Env \<Rightarrow> bool) \<Rightarrow> DB \<Rightarrow> bool" for okEnv where
  start: "emptyPlan db \<Longrightarrow> reachable okEnv db"
| admin: "reachable okEnv db \<Longrightarrow> reachable okEnv (db\<lparr>dbTrips := ts, dbMembers := ms, dbInvitations := is\<rparr>)"
| served: "reachable okEnv db \<Longrightarrow> okEnv e \<Longrightarrow> serve e tripID userID req db = (res, db', ops) \<Longrightarrow> reachable okEnv db'"

inductive_cases reachableE: "reachable okEnv db"

section \<open>The log\<close>

definition tripLog :: "ID \<Rightarrow> DB \<Rightarrow> Op list" where
  "tripLog tripID db = filter (\<lambda>op. opTripID op = tripID) (dbOps db)"

definition gapless :: "DB \<Rightarrow> bool" where
  "gapless db \<longleftrightarrow> (\<forall>tripID. 0 \<le> dbOpSeq db tripID \<and> map opSeq (tripLog tripID db) = [1 .. dbOpSeq db tripID])"

lemma soundReply_ack [simp]: "soundReply e tripID userID db (ack r) = soundReply e tripID userID db r"
  by (cases r; cases "fst r") (auto simp: soundReply_def ack_def)

lemma serve_sound: "soundReply e tripID userID db (serve e tripID userID req db)"
  by (cases req) (simp_all add: serve_def SlotService_sound DayService_sound ProposalServices_sound BudgetService_sound)

lemma logGrew_gapless:
  assumes "gapless db" "logGrew e tripID actorID db \<lparr>txDB = db', txOps = ops\<rparr>"
  shows "gapless db'"
  unfolding gapless_def
proof (intro allI conjI)
  fix i
  show "0 \<le> dbOpSeq db' i" using assms by (auto simp: logGrew_def gapless_def)
  show "map opSeq (tripLog i db') = [1 .. dbOpSeq db' i]"
  proof (cases "i = tripID")
    case True
    have "filter (\<lambda>op. opTripID op = tripID) ops = ops" using assms(2) by (simp add: logGrew_def)
    then have "map opSeq (tripLog i db') = [1 .. dbOpSeq db tripID] @ [dbOpSeq db tripID + 1 .. dbOpSeq db tripID + int (length ops)]"
      using assms True by (simp add: logGrew_def gapless_def tripLog_def)
    also have "\<dots> = [1 .. dbOpSeq db tripID + int (length ops)]"
      using assms(1) upto_split1 [of 1 "dbOpSeq db tripID + 1" "dbOpSeq db tripID + int (length ops)"]
      by (cases ops) (simp_all add: gapless_def)
    finally show ?thesis using assms(2) True by (simp add: logGrew_def)
  next
    case False
    then have "filter (\<lambda>op. opTripID op = i) ops = []" using assms(2) by (auto simp: logGrew_def filter_empty_conv)
    then show ?thesis using assms False by (simp add: logGrew_def gapless_def tripLog_def)
  qed
qed

lemma serve_gapless: "gapless db \<Longrightarrow> serve e tripID userID req db = (res, db', ops) \<Longrightarrow> gapless db'"
  using serve_sound [of e tripID userID db req] logGrew_gapless [of db e tripID userID db' ops]
  by (auto simp: soundReply_def split: if_splits)

lemma reachable_log: "reachable okEnv db \<Longrightarrow> gapless db \<and> logUnique (dbOps db)"
proof (induction rule: reachable.induct)
  case (served db e tripID userID req res db' ops)
  then have "logUnique (dbOps db')"
    using serve_sound [of e tripID userID db req] by (auto simp: soundReply_def logGrew_def split: if_splits)
  then show ?case using served serve_gapless by blast
qed (simp_all add: emptyPlan_def gapless_def logUnique_def tripLog_def)

section \<open>Authorization\<close>

lemma guarded_Inl [simp]: "guarded (Inl err) k db = (Inl err, db, [])"
  by (simp add: guarded_def)

lemma ack_Inl [simp]: "ack (Inl err, db, ops) = (Inl err, db, ops)"
  by (simp add: ack_def)

lemmas service_defs = SlotService_Create_def SlotService_Update_def SlotService_Move_def
  SlotService_SetSelectedOption_def SlotService_SetStatus_def SlotService_Delete_def
  DayService_Create_def DayService_Update_def DayService_Move_def DayService_Delete_def
  SlotOptionService_Create_def SlotOptionService_Update_def SlotOptionService_Delete_def
  VoteService_Cast_def CommentService_Create_def CommentService_Delete_def
  BudgetService_Create_def BudgetService_Update_def BudgetService_Delete_def

lemma serve_unauthorized:
  "require tripID userID (needs req) db = Inl err \<Longrightarrow> serve e tripID userID req db = (Inl err, db, [])"
  by (cases req) (simp_all add: serve_def needs_def service_defs)

section \<open>Resync\<close>

lemma drop_upto: "drop n [i .. j] = [i + int n .. j]"
proof (induction n arbitrary: i)
  case (Suc n)
  show ?case
  proof (cases "i \<le> j")
    case True
    then show ?thesis using Suc [of "i + 1"] by (simp add: upto_rec1 [of i j] algebra_simps)
  qed simp
qed simp

lemma take_upto: "take n [i .. j] = [i .. min (i + int n - 1) j]"
proof (induction n arbitrary: i)
  case (Suc n)
  show ?case
  proof (cases "i \<le> j")
    case True
    then show ?thesis using Suc [of "i + 1"] upto_rec1 [of i "min (i + int (Suc n) - 1) j"]
      by (simp add: upto_rec1 [of i j] algebra_simps)
  qed simp
qed simp

lemma filter_seq_gt:
  "map opSeq ops = [a + 1 .. a + int (length ops)] \<Longrightarrow> a \<le> seq \<Longrightarrow>
     filter (\<lambda>op. opSeq op > seq) ops = drop (nat (seq - a)) ops"
proof (induction ops arbitrary: a)
  case (Cons op ops)
  have "map opSeq (op # ops) = (a + 1) # [a + 1 + 1 .. a + int (length (op # ops))]"
    using Cons.prems(1) upto_rec1 [of "a + 1" "a + int (length (op # ops))"] by simp
  then have op: "opSeq op = a + 1" and ops: "map opSeq ops = [(a + 1) + 1 .. (a + 1) + int (length ops)]"
    by (simp_all add: algebra_simps)
  show ?case
  proof (cases "a = seq")
    case True
    have "\<forall>x \<in> set ops. opSeq x > seq"
    proof
      fix x assume "x \<in> set ops"
      then have "opSeq x \<in> set (map opSeq ops)" by simp
      then show "opSeq x > seq" unfolding ops using True by simp
    qed
    then show ?thesis using op True by simp
  next
    case False
    then have "a + 1 \<le> seq" using Cons.prems(2) by simp
    moreover have "nat (seq - a) = Suc (nat (seq - (a + 1)))" using calculation by linarith
    ultimately show ?thesis using Cons.IH [OF ops] op by simp
  qed
qed simp

lemma tripLog_length: "gapless db \<Longrightarrow> int (length (tripLog tripID db)) = dbOpSeq db tripID"
  by (metis add_diff_cancel_right' gapless_def int_nat_eq length_map length_upto diff_add_cancel)

lemma ListSince_gapless:
  assumes "gapless db" "0 \<le> seq"
  shows "OpLogRepository_ListSince tripID seq limit db =
    take (nat (if limit \<le> 0 \<or> limit > 1000 then 1000 else limit)) (drop (nat seq) (tripLog tripID db))"
proof -
  have m: "map opSeq (tripLog tripID db) = [0 + 1 .. 0 + int (length (tripLog tripID db))]"
    using assms(1) tripLog_length [OF assms(1), of tripID] by (simp add: gapless_def)
  have f: "filter (\<lambda>op. opTripID op = tripID \<and> opSeq op > seq) (dbOps db) = drop (nat seq) (tripLog tripID db)"
    using filter_seq_gt [OF m assms(2)] by (simp add: tripLog_def conj_commute)
  have "sorted (map opSeq (drop (nat seq) (tripLog tripID db)))"
    using assms(1) by (metis drop_map gapless_def sorted_upto sorted_wrt_drop)
  then show ?thesis
    by (simp add: OpLogRepository_ListSince_def Let_def f sort_key_id_if_sorted maxOpBatch_def)
qed

text \<open>An operation in the log answers for its client identifier: the lookup finds it and no request can
  commit another one under it.\<close>

lemma found_client_op:
  assumes "logUnique (dbOps db)" "op \<in> set (dbOps db)" "opTripID op = tripID" "opClientOpID op = Some c"
  shows "OpLogRepository_FindByClientOpID tripID c db = Inr op"
proof -
  obtain op' where op': "find (\<lambda>op. opTripID op = tripID \<and> opClientOpID op = Some c) (dbOps db) = Some op'"
    using assms(2-4) by (cases "find (\<lambda>op. opTripID op = tripID \<and> opClientOpID op = Some c) (dbOps db)")
      (auto simp: find_None_iff)
  then have "op' \<in> set (dbOps db)" "opTripID op' = tripID" "opClientOpID op' = Some c"
    by (auto simp: find_Some_iff)
  then have "op' = op" using assms by (auto simp: logUnique_def distinct_map inj_on_def)
  then show ?thesis using op' by (simp add: OpLogRepository_FindByClientOpID_def)
qed

lemma spent_client_op:
  assumes "logUnique (dbOps db)" "op \<in> set (dbOps db)" "opTripID op = tripID" "opClientOpID op = Some c"
    "eClientOpID e = Some c"
  shows "\<exists>err. serve e tripID userID req db = (Inl err, db, [])"
proof (cases "serve e tripID userID req db")
  case (fields res db2 ops2)
  note s = serve_sound [of e tripID userID db req]
  have "\<not> isOk res"
  proof
    assume ok: "isOk res"
    then have h: "ops2 \<noteq> []" "opClientOpID (hd ops2) = Some c" "opTripID (hd ops2) = tripID"
        "logUnique (dbOps db @ ops2)"
      using s fields assms(1,5) by (auto simp: soundReply_def logGrew_def)
    let ?k = "\<lambda>op. (opTripID op, opClientOpID op)" and ?F = "filter (\<lambda>op. opClientOpID op \<noteq> None)"
    have "?k op \<in> ?k ` set (?F (dbOps db))" using assms(2,4) by (intro imageI) simp
    moreover have "?k op \<in> ?k ` set (?F ops2)"
      using h(1-3) assms(3,4) by (intro image_eqI [of _ _ "hd ops2"]) auto
    moreover have "distinct (map ?k (?F (dbOps db)) @ map ?k (?F ops2))" using h(4) by (simp add: logUnique_def)
    ultimately show False by (auto simp only: distinct_append set_map)
  qed
  then show ?thesis using s fields by (cases res) (auto simp: soundReply_def)
qed

section \<open>A sample trip\<close>

text \<open>A trip with an owner, an editor and a viewer and no plan yet, on which the properties are
  evaluated.\<close>

definition sampleTrip :: Trip where
  "sampleTrip = \<lparr>trID = 1, trName = ''Goa'', trDescription = [], trStartDate = None, trEndDate = None,
     trTimeZone = ''UTC'', trVersion = 1, trCreatedAt = 0, trUpdatedAt = 0, trDeletedAt = None\<rparr>"

definition sampleMember :: "ID \<Rightarrow> Role \<Rightarrow> Member" where
  "sampleMember i role = \<lparr>mID = i, mTripID = 1, mUserID = i, mRole = role, mInvitedBy = None, mJoinedAt = 0,
     mVersion = 1, mCreatedAt = 0, mUpdatedAt = 0, mDeletedAt = None\<rparr>"

definition sampleDB :: DB where
  "sampleDB = \<lparr>dbTrips = [sampleTrip], dbOpSeq = (\<lambda>_. 0),
     dbMembers = [sampleMember 2 RoleOwner, sampleMember 3 RoleEditor, sampleMember 4 RoleViewer],
     dbDays = [], dbSlots = [], dbOptions = [], dbVotes = [], dbBudgets = [], dbAttachments = [],
     dbComments = [], dbInvitations = [], dbOps = []\<rparr>"

definition sampleEnv :: Env where
  "sampleEnv = \<lparr>eNow = 100, eWall = 100, eTxNow = 100, eTimestamp = (\<lambda>t. t), eDate = (\<lambda>t. t), eNewID = 99,
     eOpID = (\<lambda>n. 50 + of_nat n), eSplitID = (\<lambda>n. 70 + of_nat n), eText = unaryText,
     eClientOpID = Some 9, eCauseOpID = None\<rparr>"

definition sampleDayInput :: CreateDayInput where
  "sampleDayInput = \<lparr>cdDate = None, cdLabel = ''Day 1'', cdAfterDayID = None, cdID = 5\<rparr>"
lemma sample_reachable: "reachable okEnv sampleDB"
  by (rule start) (simp add: emptyPlan_def sampleDB_def)

lemma sample_create_day: "isOk (fst (serve sampleEnv 1 3 (CreateDay sampleDayInput) sampleDB))"
  by code_simp

definition sampleAfter :: DB where
  "sampleAfter = fst (snd (serve sampleEnv 1 3 (CreateDay sampleDayInput) sampleDB))"

lemma sampleAfter_reachable: "reachable (\<lambda>_. True) sampleAfter"
  unfolding sampleAfter_def
  by (cases "serve sampleEnv 1 3 (CreateDay sampleDayInput) sampleDB")
    (auto intro: served [OF sample_reachable])

lemma sampleAfter_seq: "dbOpSeq sampleAfter 1 = 1"
  by code_simp

section \<open>Properties\<close>

text \<open>C18: every planning write is atomic and logged: a failed request leaves the database as it was
  and publishes nothing; a successful one publishes at least one operation, appends exactly what it
  published to the log, numbered consecutively from the trip's sequence, in the trip's name and by
  the caller; only the first operation carries the client's identifier, and neither the trips nor
  the memberships change.\<close>

theorem writes_are_logged:
  "case serve e tripID userID req db of (res, db', ops) \<Rightarrow>
     if isOk res
     then ops \<noteq> [] \<and> dbOps db' = dbOps db @ ops \<and>
       map opSeq ops = [dbOpSeq db tripID + 1 .. dbOpSeq db tripID + int (length ops)] \<and>
       dbOpSeq db' = (dbOpSeq db)(tripID := dbOpSeq db tripID + int (length ops)) \<and>
       list_all (\<lambda>op. opTripID op = tripID \<and> opActorID op = Some userID) ops \<and>
       opClientOpID (hd ops) = eClientOpID e \<and> list_all (\<lambda>op. opClientOpID op = None) (tl ops) \<and>
       dbTrips db' = dbTrips db \<and> dbMembers db' = dbMembers db
     else db' = db \<and> ops = []"
  using serve_sound [of e tripID userID db req]
  by (auto simp: soundReply_def logGrew_def list_all_iff split: prod.splits if_splits)

text \<open>C27: the log of a reachable database is complete: the operations of each trip are numbered 1 up to
  the trip's sequence number without a gap or a repetition, in log order; no two operations share an
  identifier, and no two of one trip an identifier of a client.\<close>

theorem reachable_log_gapless:
  assumes "reachable okEnv db"
  shows "map opSeq (tripLog tripID db) = [1 .. dbOpSeq db tripID] \<and> distinct (map opID (dbOps db)) \<and>
    distinct (map opClientOpID (filter (\<lambda>op. opClientOpID op \<noteq> None) (tripLog tripID db)))"
proof -
  have "inj_on opClientOpID (set (filter (\<lambda>op. opClientOpID op \<noteq> None) (tripLog tripID db)))"
    "distinct (filter (\<lambda>op. opClientOpID op \<noteq> None) (dbOps db))"
    using reachable_log [OF assms]
    by (auto simp: logUnique_def tripLog_def inj_on_def distinct_map dest: distinct_filter)
  then show ?thesis using reachable_log [OF assms]
    by (auto simp: gapless_def logUnique_def tripLog_def distinct_map filter_filter conj_commute
        dest: distinct_filter)
qed

theorem reachable_log_gapless_witness: "map opSeq (tripLog 1 sampleAfter) = [1]"
  using reachable_log_gapless [OF sampleAfter_reachable, of 1] by (simp add: sampleAfter_seq)

text \<open>A resync is complete: the operations a client asks for after a sequence number are the next
  ones of the trip's log, in order and without a gap, as many as the page holds (the limit, or 1000
  when it is not positive or larger).\<close>

theorem resync_complete:
  assumes "reachable okEnv db" "0 \<le> seq"
  shows "let page = (if limit \<le> 0 \<or> limit > 1000 then 1000 else limit);
             got = OpLogRepository_ListSince tripID seq limit db in
    got = take (nat page) (drop (nat seq) (tripLog tripID db)) \<and>
    map opSeq got = [seq + 1 .. min (seq + page) (dbOpSeq db tripID)]"
proof -
  note g = conjunct1 [OF reachable_log [OF assms(1)]]
  show ?thesis
    using ListSince_gapless [OF g assms(2), of tripID limit] g assms(2)
    by (simp add: Let_def gapless_def take_map [symmetric] drop_map [symmetric] take_upto drop_upto add.commute [of 1 seq])
qed

theorem resync_complete_witness:
  "map opSeq (OpLogRepository_ListSince 1 0 0 sampleAfter) = [1]"
  using conjunct2 [OF resync_complete [OF sampleAfter_reachable, of 0 0 1, unfolded Let_def]]
  by (simp add: sampleAfter_seq)

text \<open>C19: only members with the capability write: to a caller who is no live member of the trip every
  request answers not found, to a member whose role lacks the capability it answers forbidden, in
  both cases changing nothing; so whatever succeeds was asked by a member who may do it, and a viewer
  changes nothing.\<close>

theorem writes_need_capability:
  "(if \<not> isMember tripID userID db then serve e tripID userID req db = (Inl ErrNotFound, db, [])
    else \<exists>m \<in> set (dbMembers db). liveMember tripID userID m \<and>
      (if Can (Member_Actor m) (needs req) then True
       else serve e tripID userID req db = (Inl ErrForbidden, db, []) \<and> mRole m \<noteq> RoleOwner))"
proof (cases "isMember tripID userID db")
  case True
  then obtain a where a: "actor tripID userID db = Inr a"
    using actor_Inl by (cases "actor tripID userID db") auto
  then obtain m where m: "m \<in> set (dbMembers db)" "liveMember tripID userID m" "a = Member_Actor m"
    by (auto simp: actor_def MembershipRepository_Get_def sum_cases split: option.splits dest: find_SomeD)
  have "serve e tripID userID req db = (Inl ErrForbidden, db, [])" if "\<not> Can a (needs req)"
    using that a by (intro serve_unauthorized) (auto simp: require_Inl)
  moreover have "mRole m \<noteq> RoleOwner" if "\<not> Can a (needs req)"
    using that owner_can_all [of a] m(3) by (auto simp: Member_Actor_def)
  ultimately show ?thesis using True m by auto
next
  case False
  then show ?thesis by (simp add: serve_unauthorized require_Inl)
qed

text \<open>A retried operation is never committed twice: once the log of a trip holds an operation under
  a client's identifier, every further request that carries this identifier for this trip fails and
  leaves the database as it was; and the lookup by which the engine answers the retry finds the
  operation that the first request committed.\<close>

lemma client_op_committed_once:
  assumes "reachable okEnv db" "eClientOpID e = Some c"
    and "serve e tripID userID req db = (Inr (), db', ops)"
  shows "OpLogRepository_FindByClientOpID tripID c db' = Inr (hd ops) \<and>
    (eClientOpID e2 \<noteq> Some c \<or> (\<exists>err. serve e2 tripID user2 req2 db' = (Inl err, db', [])))"
proof -
  have g: "opClientOpID (hd ops) = Some c" "hd ops \<in> set (dbOps db')" "opTripID (hd ops) = tripID" "logUnique (dbOps db')"
    using serve_sound [of e tripID userID db req] assms reachable_log [OF assms(1)]
    by (auto simp: soundReply_def logGrew_def)
  show ?thesis using found_client_op [OF g(4,2,3,1)] spent_client_op [OF g(4,2,3,1)] by blast
qed

lemma client_op_committed_once_sample:
  "\<exists>err. serve sampleEnv 1 2 (DeleteDay 5 None) sampleAfter = (Inl err, sampleAfter, [])"
proof -
  obtain ops where "serve sampleEnv 1 3 (CreateDay sampleDayInput) sampleDB = (Inr (), sampleAfter, ops)"
    using sample_create_day unfolding sampleAfter_def
    by (cases "serve sampleEnv 1 3 (CreateDay sampleDayInput) sampleDB"; cases "fst (serve sampleEnv 1 3 (CreateDay sampleDayInput) sampleDB)") auto
  from client_op_committed_once [OF sample_reachable [of "\<lambda>_. True"] _ this, of 9 sampleEnv 2 "DeleteDay 5 None"]
  show ?thesis by (simp add: sampleEnv_def)
qed

end
