(* ===== verification/Effects.thy ===== *)
theory Effects
  imports System
begin

text \<open>What each transaction body does when it succeeds, in one step: the row it writes and the operation
  it pushes. The properties of the services are read off these lemmas.\<close>

section \<open>Recorded operations\<close>

lemma rec_slot_Inr:
  "rec_slot e tripID actorID kind s flds t = Inr (u, t') \<Longrightarrow>
     \<exists>p. SlotPayload (eText e) s (maskFor kind flds) = Inr p \<and>
       FieldMask_Validate (maskFor kind flds) kind = Inr () \<and>
       t' = pushOp (loggedOp e tripID actorID kind (sID s) (maskFor kind flds) p t) t"
  by (auto simp: rec_slot_def Let_def bindT_eq_Inr dest: record_op_Inr)

lemma rec_option_Inr:
  "rec_option e tripID actorID kind s flds t = Inr (u, t') \<Longrightarrow>
     \<exists>p. OptionPayload (eText e) s (maskFor kind flds) = Inr p \<and>
       FieldMask_Validate (maskFor kind flds) kind = Inr () \<and>
       t' = pushOp (loggedOp e tripID actorID kind (oID s) (maskFor kind flds) p t) t"
  by (auto simp: rec_option_def Let_def bindT_eq_Inr dest: record_op_Inr)

lemma rec_day_Inr:
  "rec_day e tripID actorID kind s flds t = Inr (u, t') \<Longrightarrow>
     \<exists>p. DayPayload s (maskFor kind flds) = Inr p \<and>
       FieldMask_Validate (maskFor kind flds) kind = Inr () \<and>
       t' = pushOp (loggedOp e tripID actorID kind (dID s) (maskFor kind flds) p t) t"
  by (auto simp: rec_day_def Let_def bindT_eq_Inr dest: record_op_Inr)

lemma rec_budget_Inr:
  "rec_budget e tripID actorID kind s flds t = Inr (u, t') \<Longrightarrow>
     \<exists>p. BudgetPayload (eText e) s (maskFor kind flds) = Inr p \<and>
       FieldMask_Validate (maskFor kind flds) kind = Inr () \<and>
       t' = pushOp (loggedOp e tripID actorID kind (bID s) (maskFor kind flds) p t) t"
  by (auto simp: rec_budget_def Let_def bindT_eq_Inr dest: record_op_Inr)

lemma rec_comment_Inr:
  "rec_comment e tripID actorID kind s flds t = Inr (u, t') \<Longrightarrow>
     \<exists>p. CommentPayload (eText e) s (maskFor kind flds) = Inr p \<and>
       FieldMask_Validate (maskFor kind flds) kind = Inr () \<and>
       t' = pushOp (loggedOp e tripID actorID kind (cID s) (maskFor kind flds) p t) t"
  by (auto simp: rec_comment_def Let_def bindT_eq_Inr dest: record_op_Inr)

lemma rec_vote_Inr:
  "rec_vote e tripID actorID s t = Inr (u, t') \<Longrightarrow>
     \<exists>p. VotePayload (eText e) s (maskFor OpVoteSet []) = Inr p \<and>
       FieldMask_Validate (maskFor OpVoteSet []) OpVoteSet = Inr () \<and>
       t' = pushOp (loggedOp e tripID actorID OpVoteSet (vID s) (maskFor OpVoteSet []) p t) t"
  by (auto simp: rec_vote_def Let_def bindT_eq_Inr dest: record_op_Inr)

section \<open>Slots\<close>

definition slotTable :: "(Slot list \<Rightarrow> Slot list) \<Rightarrow> Tx \<Rightarrow> Tx" where
  "slotTable g t = t\<lparr>txDB := (txDB t)\<lparr>dbSlots := g (dbSlots (txDB t))\<rparr>\<rparr>"

lemma updateSlot_Inr:
  "updateSlot refs i v f db = Inr (r, db') \<longleftrightarrow>
     (\<exists>row. findRow sID i (dbSlots db) = Some row \<and> sVersion row = versionArg v \<and> sDeletedAt row = None \<and>
        sVersion row \<noteq> maxInt32 \<and> slotChecks (f row) = Inr () \<and> refs (f row) = Inr () \<and> r = f row \<and>
        db' = db\<lparr>dbSlots := updRow sID i f (dbSlots db)\<rparr>)"
  by (auto simp: updateSlot_def sum_cases updateVersioned_Inr)

lemma SlotService_getInTrip_Inr:
  "SlotService_getInTrip tripID i db = Inr row \<longleftrightarrow>
     findRow sID i (dbSlots db) = Some row \<and> sDeletedAt row = None \<and> sTripID row = tripID"
  by (auto simp: SlotService_getInTrip_def SlotRepository_GetByID_def getLive_Inr checkTrip_def sum_cases)

text \<open>One versioned write of a slot with the operation that logs it: \<^theory_text>\<open>row\<close> was live in the trip at the
  expected version and became \<^theory_text>\<open>f row\<close>; the logged projection is that of \<^theory_text>\<open>s\<close>.\<close>

definition slotWrite ::
  "Env \<Rightarrow> ID \<Rightarrow> ID \<Rightarrow> OpKind \<Rightarrow> FieldMask \<Rightarrow> ID \<Rightarrow> int \<Rightarrow> Slot \<Rightarrow> (Slot \<Rightarrow> Slot) \<Rightarrow> Slot \<Rightarrow> Tx \<Rightarrow> Tx \<Rightarrow> bool"
where
  "slotWrite e tripID actorID kind msk i v row f s t t' \<longleftrightarrow>
     findRow sID i (dbSlots (txDB t)) = Some row \<and> sTripID row = tripID \<and> sDeletedAt row = None \<and>
     sVersion row = versionArg v \<and> slotChecks (f row) = Inr () \<and>
     FieldMask_Validate msk kind = Inr () \<and>
     (\<exists>p. SlotPayload (eText e) s msk = Inr p \<and>
        t' = pushOp (loggedOp e tripID actorID kind i msk p (slotTable (updRow sID i f) t))
               (slotTable (updRow sID i f) t))"

lemma updateSlotBody_Inr:
  assumes "updateSlotBody e tripID actorID i msk inp t = Inr (r, t')"
  shows "\<exists>row. Slot_Validate (mergeSlot msk inp tripID i row) = Inr () \<and>
    r = setSlot e (mergeSlot msk inp tripID i row) row \<and>
    slotWrite e tripID actorID OpSlotEdit (maskFor OpSlotEdit msk) i (versionOrCurrent (usVersion inp) (sVersion row))
      row (setSlot e (mergeSlot msk inp tripID i row)) r t t'"
proof -
  obtain row where row: "findRow sID i (dbSlots (txDB t)) = Some row" "sDeletedAt row = None" "sTripID row = tripID"
      and v: "Slot_Validate (mergeSlot msk inp tripID i row) = Inr ()"
      and r: "r = setSlot e (mergeSlot msk inp tripID i row) row" "slotChecks r = Inr ()"
        "sVersion row = versionArg (versionOrCurrent (usVersion inp) (sVersion row))"
      and l: "rec_slot e tripID actorID OpSlotEdit r msk
        (slotTable (updRow sID i (setSlot e (mergeSlot msk inp tripID i row))) t) = Inr ((), t')"
    using assms
    by (auto simp: updateSlotBody_def Let_def bindT_eq_Inr SlotService_getInTrip_Inr SlotRepository_Update_def
        updateSlot_Inr slotTable_def mergeSlot_def)
  have "sID r = i" using findRow_key [OF row(1)] by (simp add: r(1) setSlot_def)
  then show ?thesis using row v r rec_slot_Inr [OF l]
    by (intro exI [of _ row]) (auto simp: slotWrite_def)
qed

lemma recordSlotState_Inr:
  assumes "recordSlotState e tripID actorID kind i flds (slotTable (updRow sID i f) t) = Inr (u, t')"
    and "findRow sID i (dbSlots (txDB t)) = Some row" "\<And>r. sID (f r) = sID r"
  shows "\<exists>p. SlotPayload (eText e) (f row) (maskFor kind flds) = Inr p \<and>
    FieldMask_Validate (maskFor kind flds) kind = Inr () \<and>
    t' = pushOp (loggedOp e tripID actorID kind i (maskFor kind flds) p (slotTable (updRow sID i f) t))
      (slotTable (updRow sID i f) t)"
proof -
  have "rec_slot e tripID actorID kind (f row) flds (slotTable (updRow sID i f) t) = Inr (u, t')"
    using assms by (auto simp: recordSlotState_def bindT_eq_Inr SlotRepository_GetByID_def getLive_Inr slotTable_def
        findRow_updRow)
  moreover have "sID (f row) = i" using findRow_key [OF assms(2)] assms(3) by simp
  ultimately show ?thesis using rec_slot_Inr by fastforce
qed

lemma moveSlotBody_Inr:
  assumes "moveSlotBody e tripID actorID i dayID after v t = Inr (u, t')"
  shows "\<exists>row prev nxt position.
    SlotRepository_NeighbourPositions tripID dayID after (txDB t) = Inr (prev, nxt) \<and>
    positionBetween prev nxt = Inr position \<and> slotDayFK (txDB t) (setSlotPlace e dayID position (eNow e) row) = Inr () \<and>
    slotWrite e tripID actorID OpSlotMove (maskFor OpSlotMove [FieldDayID, FieldPosition]) i
      (versionOrCurrent v (sVersion row)) row (setSlotPlace e dayID position (eNow e))
      (setSlotPlace e dayID position (eNow e) row) t t'"
proof -
  obtain row prev nxt position where row: "findRow sID i (dbSlots (txDB t)) = Some row" "sDeletedAt row = None"
      "sTripID row = tripID"
    and n: "SlotRepository_NeighbourPositions tripID dayID after (txDB t) = Inr (prev, nxt)"
      "positionBetween prev nxt = Inr position" "slotDayFK (txDB t) (setSlotPlace e dayID position (eNow e) row) = Inr ()"
      "slotChecks (setSlotPlace e dayID position (eNow e) row) = Inr ()"
      "sVersion row = versionArg (versionOrCurrent v (sVersion row))"
    and l: "recordSlotState e tripID actorID OpSlotMove i [FieldDayID, FieldPosition]
        (slotTable (updRow sID i (setSlotPlace e dayID position (eNow e))) t) = Inr (u, t')"
    using assms
    by (auto simp: moveSlotBody_def bindT_eq_Inr SlotService_getInTrip_Inr SlotRepository_Move_def
        updateSlot_Inr slotTable_def)
  show ?thesis using row n recordSlotState_Inr [OF l row(1) slotPlace.set_key]
    by (intro exI [of _ row] exI [of _ prev] exI [of _ nxt] exI [of _ position])
      (auto simp: slotWrite_def)
qed

lemma selectOptionBody_Inr:
  assumes "selectOptionBody e tripID actorID i optionID v t = Inr (u, t')"
  shows "\<exists>row. slotOptionFK (txDB t) (setSlotSelected e optionID (eNow e) row) = Inr () \<and>
    slotWrite e tripID actorID OpSlotSelectOption (maskFor OpSlotSelectOption [FieldSelectedOptionID]) i
      (versionOrCurrent v (sVersion row)) row (setSlotSelected e optionID (eNow e))
      (setSlotSelected e optionID (eNow e) row) t t'"
proof -
  obtain row where row: "findRow sID i (dbSlots (txDB t)) = Some row" "sDeletedAt row = None" "sTripID row = tripID"
    and n: "slotOptionFK (txDB t) (setSlotSelected e optionID (eNow e) row) = Inr ()"
      "slotChecks (setSlotSelected e optionID (eNow e) row) = Inr ()"
      "sVersion row = versionArg (versionOrCurrent v (sVersion row))"
    and l: "recordSlotState e tripID actorID OpSlotSelectOption i [FieldSelectedOptionID]
        (slotTable (updRow sID i (setSlotSelected e optionID (eNow e))) t) = Inr (u, t')"
    using assms
    by (auto simp: selectOptionBody_def bindT_eq_Inr SlotService_getInTrip_Inr SlotRepository_SetSelectedOption_def
        updateSlot_Inr slotTable_def)
  show ?thesis using row n recordSlotState_Inr [OF l row(1) slotSelect.set_key]
    by (intro exI [of _ row]) (auto simp: slotWrite_def)
qed

lemma setStatusBody_Inr:
  assumes "setStatusBody e tripID actorID i status v t = Inr (u, t')"
  shows "\<exists>row. slotWrite e tripID actorID OpSlotSetStatus
      (maskFor OpSlotSetStatus [FieldStatus, FieldStatusChangedAt, FieldStatusChangedBy]) i
      (versionOrCurrent v (sVersion row)) row (setSlotStatus e status actorID (eNow e))
      (setSlotStatus e status actorID (eNow e) row) t t'"
proof -
  obtain row where row: "findRow sID i (dbSlots (txDB t)) = Some row" "sDeletedAt row = None" "sTripID row = tripID"
    and n: "slotChecks (setSlotStatus e status actorID (eNow e) row) = Inr ()"
      "sVersion row = versionArg (versionOrCurrent v (sVersion row))"
    and l: "recordSlotState e tripID actorID OpSlotSetStatus i [FieldStatus, FieldStatusChangedAt, FieldStatusChangedBy]
        (slotTable (updRow sID i (setSlotStatus e status actorID (eNow e))) t) = Inr (u, t')"
    using assms
    by (auto simp: setStatusBody_def bindT_eq_Inr SlotService_getInTrip_Inr SlotRepository_SetStatus_def
        updateSlot_Inr slotTable_def)
  show ?thesis using row n recordSlotState_Inr [OF l row(1) slotStatus.set_key]
    by (intro exI [of _ row]) (auto simp: slotWrite_def)
qed

lemma deleteSlotBody_Inr:
  assumes "deleteSlotBody e tripID actorID i v t = Inr (u, t')"
  shows "\<exists>row. slotWrite e tripID actorID OpSlotDelete (maskFor OpSlotDelete [FieldDeletedAt]) i
      (versionOrCurrent v (sVersion row)) row (setSlotDeleted e (eNow e))
      (row\<lparr>sDeletedAt := Some (eNow e), sUpdatedAt := eNow e, sVersion := sVersion row + 1\<rparr>) t t'"
proof -
  obtain row where row: "findRow sID i (dbSlots (txDB t)) = Some row" "sDeletedAt row = None" "sTripID row = tripID"
    and n: "slotChecks (setSlotDeleted e (eNow e) row) = Inr ()"
      "sVersion row = versionArg (versionOrCurrent v (sVersion row))"
    and l: "rec_slot e tripID actorID OpSlotDelete
        (row\<lparr>sDeletedAt := Some (eNow e), sUpdatedAt := eNow e, sVersion := sVersion row + 1\<rparr>) [FieldDeletedAt]
        (slotTable (updRow sID i (setSlotDeleted e (eNow e))) t) = Inr ((), t')"
    using assms
    by (auto simp: deleteSlotBody_def Let_def bindT_eq_Inr SlotService_getInTrip_Inr SlotRepository_SoftDelete_def
        updateSlot_Inr slotTable_def)
  show ?thesis using row n rec_slot_Inr [OF l] findRow_key [OF row(1)]
    by (intro exI [of _ row]) (auto simp: slotWrite_def)
qed

text \<open>The slot a creation builds before it has a position.\<close>

definition draftSlot :: "Env \<Rightarrow> ID \<Rightarrow> ID \<Rightarrow> CreateSlotInput \<Rightarrow> str \<Rightarrow> Slot" where
  "draftSlot e tripID actorID inp position =
     zeroSlot\<lparr>sID := orNewID e (csID inp), sTripID := tripID, sDayID := csDayID inp,
       sKind := csKind inp, sTitle := csTitle inp, sNotes := csNotes inp,
       sStartTime := csStartTime inp, sEndTime := csEndTime inp,
       sStatus := SlotStatusPlanned, sCreatedBy := Some actorID, sPosition := position\<rparr>"

lemma createSlotBody_Inr:
  assumes "createSlotBody e tripID actorID inp t = Inr (row, t')"
  shows "\<exists>prev nxt position p.
    SlotRepository_NeighbourPositions tripID (csDayID inp) (csAfterSlotID inp) (txDB t) = Inr (prev, nxt) \<and>
    positionBetween prev nxt = Inr position \<and> Slot_Validate (draftSlot e tripID actorID inp position) = Inr () \<and>
    row = newSlotRow e (draftSlot e tripID actorID inp position) \<and> slotChecks row = Inr () \<and>
    slotRefs (txDB t) row = Inr () \<and> findRow sID (sID row) (dbSlots (txDB t)) = None \<and>
    FieldMask_Validate (maskFor OpSlotCreate []) OpSlotCreate = Inr () \<and>
    SlotPayload (eText e) row (maskFor OpSlotCreate []) = Inr p \<and>
    t' = pushOp (loggedOp e tripID actorID OpSlotCreate (sID row) (maskFor OpSlotCreate []) p
           (slotTable (\<lambda>rows. rows @ [row]) t)) (slotTable (\<lambda>rows. rows @ [row]) t)"
  using assms
  by (auto simp: createSlotBody_def Let_def bindT_eq_Inr draftSlot_def [symmetric] SlotRepository_Create_def sum_cases
      insertRow_Inr slotTable_def dest!: rec_slot_Inr)

section \<open>Days\<close>

definition dayTable :: "(Day list \<Rightarrow> Day list) \<Rightarrow> Tx \<Rightarrow> Tx" where
  "dayTable g t = t\<lparr>txDB := (txDB t)\<lparr>dbDays := g (dbDays (txDB t))\<rparr>\<rparr>"

definition dayWrite ::
  "Env \<Rightarrow> ID \<Rightarrow> ID \<Rightarrow> OpKind \<Rightarrow> FieldMask \<Rightarrow> ID \<Rightarrow> int \<Rightarrow> Day \<Rightarrow> (Day \<Rightarrow> Day) \<Rightarrow> Day \<Rightarrow> Tx \<Rightarrow> Tx \<Rightarrow> bool"
where
  "dayWrite e tripID actorID kind msk i v row f s t t' \<longleftrightarrow>
     findRow dID i (dbDays (txDB t)) = Some row \<and> dTripID row = tripID \<and> dDeletedAt row = None \<and>
     dVersion row = versionArg v \<and> dayChecks (f row) = Inr () \<and>
     FieldMask_Validate msk kind = Inr () \<and>
     (\<exists>p. DayPayload s msk = Inr p \<and>
        t' = pushOp (loggedOp e tripID actorID kind i msk p (dayTable (updRow dID i f) t))
               (dayTable (updRow dID i f) t))"

lemma DayRepository_Update_Inr:
  "DayRepository_Update e d db = Inr (r, db') \<longleftrightarrow>
     (\<exists>row. findRow dID (dID d) (dbDays db) = Some row \<and> dVersion row = versionArg (dVersion d) \<and>
        dDeletedAt row = None \<and> dVersion row \<noteq> maxInt32 \<and> dayChecks (setDay e d row) = Inr () \<and>
        dayDateTaken (dbDays db) (setDay e d row) = Inr () \<and> r = setDay e d row \<and>
        db' = db\<lparr>dbDays := updRow dID (dID d) (setDay e d) (dbDays db)\<rparr>)"
  by (auto simp: DayRepository_Update_def sum_cases updateVersioned_Inr)

lemma DayRepository_SoftDelete_Inr:
  "DayRepository_SoftDelete e i ts v db = Inr (u, db') \<longleftrightarrow>
     (\<exists>row. findRow dID i (dbDays db) = Some row \<and> dVersion row = versionArg v \<and>
        dDeletedAt row = None \<and> dVersion row \<noteq> maxInt32 \<and> dayChecks (setDayDeleted e ts row) = Inr () \<and>
        db' = db\<lparr>dbDays := updRow dID i (setDayDeleted e ts) (dbDays db)\<rparr>)"
  by (auto simp: DayRepository_SoftDelete_def sum_cases updateVersioned_Inr)

lemma DayService_getInTrip_Inr:
  "DayService_getInTrip tripID i db = Inr row \<longleftrightarrow>
     findRow dID i (dbDays db) = Some row \<and> dDeletedAt row = None \<and> dTripID row = tripID"
  by (auto simp: DayService_getInTrip_def DayRepository_GetByID_def getLive_Inr checkTrip_def sum_cases)

definition draftDay :: "Env \<Rightarrow> ID \<Rightarrow> CreateDayInput \<Rightarrow> str \<Rightarrow> Day" where
  "draftDay e tripID inp position =
     zeroDay\<lparr>dID := orNewID e (cdID inp), dTripID := tripID, dDate := cdDate inp,
       dLabel := cdLabel inp, dPosition := position\<rparr>"

definition newDayRow :: "Env \<Rightarrow> Day \<Rightarrow> Day" where
  "newDayRow e d = d\<lparr>dDate := map_option (eDate e) (dDate d), dVersion := 1, dCreatedAt := eTxNow e,
     dUpdatedAt := eTxNow e, dDeletedAt := None\<rparr>"

lemma createDayBody_Inr:
  assumes "createDayBody e tripID actorID inp t = Inr (row, t')"
  shows "\<exists>prev nxt position p.
    DayRepository_NeighbourPositions tripID (cdAfterDayID inp) (txDB t) = Inr (prev, nxt) \<and>
    positionBetween prev nxt = Inr position \<and> Day_Validate (draftDay e tripID inp position) = Inr () \<and>
    row = newDayRow e (draftDay e tripID inp position) \<and> findRow dID (dID row) (dbDays (txDB t)) = None \<and>
    FieldMask_Validate (maskFor OpDayCreate []) OpDayCreate = Inr () \<and>
    DayPayload row (maskFor OpDayCreate []) = Inr p \<and>
    t' = pushOp (loggedOp e tripID actorID OpDayCreate (dID row) (maskFor OpDayCreate []) p
           (dayTable (\<lambda>rows. rows @ [row]) t)) (dayTable (\<lambda>rows. rows @ [row]) t)"
  using assms
  by (auto simp: createDayBody_def Let_def bindT_eq_Inr draftDay_def [symmetric] DayRepository_Create_def
      newDayRow_def [symmetric] sum_cases insertRow_Inr dayTable_def dest!: rec_day_Inr)

lemma updateDayBody_Inr:
  assumes "updateDayBody e tripID actorID i msk inp t = Inr (r, t')"
  shows "\<exists>row. r = setDay e (mergeDay msk inp tripID i row) row \<and>
    dayWrite e tripID actorID OpDayEdit (maskFor OpDayEdit msk) i (versionOrCurrent (udVersion inp) (dVersion row))
      row (setDay e (mergeDay msk inp tripID i row)) r t t'"
proof -
  obtain row where row: "findRow dID i (dbDays (txDB t)) = Some row" "dDeletedAt row = None" "dTripID row = tripID"
      and r: "r = setDay e (mergeDay msk inp tripID i row) row" "dayChecks r = Inr ()"
        "dVersion row = versionArg (versionOrCurrent (udVersion inp) (dVersion row))"
      and l: "rec_day e tripID actorID OpDayEdit r msk
        (dayTable (updRow dID i (setDay e (mergeDay msk inp tripID i row))) t) = Inr ((), t')"
    using assms
    by (auto simp: updateDayBody_def Let_def bindT_eq_Inr DayService_getInTrip_Inr DayRepository_Update_Inr
        dayTable_def mergeDay_def)
  have "dID r = i" using findRow_key [OF row(1)] by (simp add: r(1) setDay_def)
  then show ?thesis using row r rec_day_Inr [OF l] by (intro exI [of _ row]) (auto simp: dayWrite_def)
qed

definition movedDay :: "ID \<Rightarrow> ID \<Rightarrow> int option \<Rightarrow> str \<Rightarrow> Day \<Rightarrow> Day" where
  "movedDay tripID i v position existing =
     zeroDay\<lparr>dID := i, dTripID := tripID, dDate := dDate existing, dLabel := dLabel existing,
       dPosition := position, dVersion := versionOrCurrent v (dVersion existing)\<rparr>"

lemma moveDayBody_Inr:
  assumes "moveDayBody e tripID actorID i after v t = Inr (u, t')"
  shows "\<exists>row prev nxt position.
    DayRepository_NeighbourPositions tripID after (txDB t) = Inr (prev, nxt) \<and>
    positionBetween prev nxt = Inr position \<and>
    dayWrite e tripID actorID OpDayMove (maskFor OpDayMove [FieldPosition]) i (versionOrCurrent v (dVersion row))
      row (setDay e (movedDay tripID i v position row)) (setDay e (movedDay tripID i v position row) row) t t'"
proof -
  obtain row prev nxt position where row: "findRow dID i (dbDays (txDB t)) = Some row" "dDeletedAt row = None"
      "dTripID row = tripID"
    and n: "DayRepository_NeighbourPositions tripID after (txDB t) = Inr (prev, nxt)"
      "positionBetween prev nxt = Inr position"
      "dayChecks (setDay e (movedDay tripID i v position row) row) = Inr ()"
      "dVersion row = versionArg (versionOrCurrent v (dVersion row))"
    and l: "rec_day e tripID actorID OpDayMove (setDay e (movedDay tripID i v position row) row) [FieldPosition]
        (dayTable (updRow dID i (setDay e (movedDay tripID i v position row))) t) = Inr (u, t')"
    using assms
    by (auto simp: moveDayBody_def Let_def bindT_eq_Inr DayService_getInTrip_Inr DayRepository_Update_Inr
        movedDay_def [symmetric] dayTable_def)
      (simp add: movedDay_def)
  have "dID (setDay e (movedDay tripID i v position row) row) = i"
    using findRow_key [OF row(1)] by (simp add: setDay_def)
  then show ?thesis using row n rec_day_Inr [OF l]
    by (intro exI [of _ row] exI [of _ prev] exI [of _ nxt] exI [of _ position]) (auto simp: dayWrite_def)
qed

lemma deleteDayBody_Inr:
  assumes "deleteDayBody e tripID actorID i v t = Inr (u, t')"
  shows "\<exists>row. dayWrite e tripID actorID OpDayDelete (maskFor OpDayDelete [FieldDeletedAt]) i
      (versionOrCurrent v (dVersion row)) row (setDayDeleted e (eNow e))
      (row\<lparr>dDeletedAt := Some (eNow e), dUpdatedAt := eNow e, dVersion := dVersion row + 1\<rparr>) t t'"
proof -
  obtain row where row: "findRow dID i (dbDays (txDB t)) = Some row" "dDeletedAt row = None" "dTripID row = tripID"
    and n: "dayChecks (setDayDeleted e (eNow e) row) = Inr ()"
      "dVersion row = versionArg (versionOrCurrent v (dVersion row))"
    and l: "rec_day e tripID actorID OpDayDelete
        (row\<lparr>dDeletedAt := Some (eNow e), dUpdatedAt := eNow e, dVersion := dVersion row + 1\<rparr>) [FieldDeletedAt]
        (dayTable (updRow dID i (setDayDeleted e (eNow e))) t) = Inr ((), t')"
    using assms
    by (auto simp: deleteDayBody_def Let_def bindT_eq_Inr DayService_getInTrip_Inr DayRepository_SoftDelete_Inr
        dayTable_def)
  show ?thesis using row n rec_day_Inr [OF l] findRow_key [OF row(1)]
    by (intro exI [of _ row]) (auto simp: dayWrite_def)
qed

section \<open>Options\<close>

definition optionTable :: "(SlotOption list \<Rightarrow> SlotOption list) \<Rightarrow> Tx \<Rightarrow> Tx" where
  "optionTable g t = t\<lparr>txDB := (txDB t)\<lparr>dbOptions := g (dbOptions (txDB t))\<rparr>\<rparr>"

definition optionWrite ::
  "Env \<Rightarrow> ID \<Rightarrow> ID \<Rightarrow> OpKind \<Rightarrow> FieldMask \<Rightarrow> ID \<Rightarrow> int \<Rightarrow> SlotOption \<Rightarrow> (SlotOption \<Rightarrow> SlotOption) \<Rightarrow> SlotOption \<Rightarrow> Tx \<Rightarrow> Tx \<Rightarrow> bool"
where
  "optionWrite e tripID actorID kind msk i v row f s t t' \<longleftrightarrow>
     findRow oID i (dbOptions (txDB t)) = Some row \<and> oTripID row = tripID \<and> oDeletedAt row = None \<and>
     oVersion row = versionArg v \<and> optionChecks (f row) = Inr () \<and>
     FieldMask_Validate msk kind = Inr () \<and>
     (\<exists>p. OptionPayload (eText e) s msk = Inr p \<and>
        t' = pushOp (loggedOp e tripID actorID kind i msk p (optionTable (updRow oID i f) t))
               (optionTable (updRow oID i f) t))"

lemma updateOption_Inr:
  "updateOption i v f db = Inr (r, db') \<longleftrightarrow>
     (\<exists>row. findRow oID i (dbOptions db) = Some row \<and> oVersion row = versionArg v \<and> oDeletedAt row = None \<and>
        oVersion row \<noteq> maxInt32 \<and> optionChecks (f row) = Inr () \<and> r = f row \<and>
        db' = db\<lparr>dbOptions := updRow oID i f (dbOptions db)\<rparr>)"
  by (auto simp: updateOption_def sum_cases updateVersioned_Inr)

lemma SlotOptionService_getInTrip_Inr:
  "SlotOptionService_getInTrip tripID i db = Inr row \<longleftrightarrow>
     findRow oID i (dbOptions db) = Some row \<and> oDeletedAt row = None \<and> oTripID row = tripID"
  by (auto simp: SlotOptionService_getInTrip_def SlotOptionRepository_GetByID_def getLive_Inr checkTrip_def sum_cases)

lemma checkSlotInTrip_Inr:
  "checkSlotInTrip tripID i db = Inr u \<longleftrightarrow>
     (\<exists>s. findRow sID i (dbSlots db) = Some s \<and> sDeletedAt s = None \<and> sTripID s = tripID)"
  by (auto simp: checkSlotInTrip_def SlotRepository_GetByID_def getLive_Inr checkTrip_def sum_cases)

definition draftOption :: "Env \<Rightarrow> ID \<Rightarrow> ID \<Rightarrow> ID \<Rightarrow> CreateOptionInput \<Rightarrow> SlotOption" where
  "draftOption e tripID actorID slotID inp =
     zeroOption\<lparr>oID := orNewID e (coID inp), oSlotID := slotID, oTripID := tripID,
       oTitle := coTitle inp, oNotes := coNotes inp, oExternalURL := coExternalURL inp,
       oEstimatedCostMinor := coEstimatedCostMinor inp, oPlace := coPlace inp,
       oProposedBy := Some actorID\<rparr>"

lemma createOptionBody_Inr:
  assumes "createOptionBody e tripID actorID slotID inp t = Inr (row, t')"
  shows "\<exists>p. checkSlotInTrip tripID slotID (txDB t) = Inr () \<and>
    SlotOption_Validate (draftOption e tripID actorID slotID inp) = Inr () \<and>
    row = newOptionRow e (draftOption e tripID actorID slotID inp) \<and> findRow oID (oID row) (dbOptions (txDB t)) = None \<and>
    optionRefs (txDB t) row = Inr () \<and>
    FieldMask_Validate (maskFor OpOptionCreate []) OpOptionCreate = Inr () \<and>
    OptionPayload (eText e) row (maskFor OpOptionCreate []) = Inr p \<and>
    t' = pushOp (loggedOp e tripID actorID OpOptionCreate (oID row) (maskFor OpOptionCreate []) p
           (optionTable (\<lambda>rows. rows @ [row]) t)) (optionTable (\<lambda>rows. rows @ [row]) t)"
  using assms
  by (auto simp: createOptionBody_def Let_def bindT_eq_Inr draftOption_def [symmetric] SlotOptionRepository_Create_def
      sum_cases insertRow_Inr optionTable_def dest!: rec_option_Inr)

lemma updateOptionBody_Inr:
  assumes "updateOptionBody e tripID actorID i msk inp t = Inr (r, t')"
  shows "\<exists>row. r = setOption e (mergeOption msk inp tripID i row) row \<and>
    SlotOption_Validate (mergeOption msk inp tripID i row) = Inr () \<and>
    optionWrite e tripID actorID OpOptionEdit (maskFor OpOptionEdit msk) i
      (versionOrCurrent (uoVersion inp) (oVersion row)) row (setOption e (mergeOption msk inp tripID i row)) r t t'"
proof -
  obtain row where row: "findRow oID i (dbOptions (txDB t)) = Some row" "oDeletedAt row = None" "oTripID row = tripID"
      and r: "r = setOption e (mergeOption msk inp tripID i row) row" "optionChecks r = Inr ()"
        "oVersion row = versionArg (versionOrCurrent (uoVersion inp) (oVersion row))"
        "SlotOption_Validate (mergeOption msk inp tripID i row) = Inr ()"
      and l: "rec_option e tripID actorID OpOptionEdit r msk
        (optionTable (updRow oID i (setOption e (mergeOption msk inp tripID i row))) t) = Inr ((), t')"
    using assms
    by (auto simp: updateOptionBody_def Let_def bindT_eq_Inr SlotOptionService_getInTrip_Inr
        SlotOptionRepository_Update_def updateOption_Inr optionTable_def mergeOption_def)
  have "oID r = i" using findRow_key [OF row(1)] by (simp add: r(1) setOption_def)
  then show ?thesis using row r rec_option_Inr [OF l] by (intro exI [of _ row]) (auto simp: optionWrite_def)
qed

text \<open>Clearing the selection of a slot: nothing, or one slot write.\<close>

lemma clearSelection_Inr:
  assumes "clearSelection e tripID actorID slotID optionID t = Inr (u, t')"
  shows "\<exists>slot. findRow sID slotID (dbSlots (txDB t)) = Some slot \<and> sDeletedAt slot = None \<and>
    (if sSelectedOptionID slot = Some optionID
     then sVersion slot = versionArg (sVersion slot) \<and> slotChecks (setSlotSelected e None (eNow e) slot) = Inr () \<and>
       FieldMask_Validate (maskFor OpSlotSelectOption [FieldSelectedOptionID]) OpSlotSelectOption = Inr () \<and>
       (\<exists>p. SlotPayload (eText e) (setSlotSelected e None (eNow e) slot)
              (maskFor OpSlotSelectOption [FieldSelectedOptionID]) = Inr p \<and>
          t' = pushOp (loggedOp e tripID actorID OpSlotSelectOption slotID
                 (maskFor OpSlotSelectOption [FieldSelectedOptionID]) p
                 (slotTable (updRow sID slotID (setSlotSelected e None (eNow e))) t))
               (slotTable (updRow sID slotID (setSlotSelected e None (eNow e))) t))
     else t' = t)"
proof -
  obtain slot where slot: "findRow sID slotID (dbSlots (txDB t)) = Some slot" "sDeletedAt slot = None"
    using assms by (auto simp: clearSelection_def bindT_eq_Inr SlotRepository_GetByID_def getLive_Inr)
  have i: "sID slot = slotID" using findRow_key [OF slot(1)] by simp
  show ?thesis
  proof (cases "sSelectedOptionID slot = Some optionID")
    case True
    then have l: "recordSlotState e tripID actorID OpSlotSelectOption slotID [FieldSelectedOptionID]
        (slotTable (updRow sID slotID (setSlotSelected e None (eNow e))) t) = Inr (u, t')"
      and c: "sVersion slot = versionArg (sVersion slot)" "slotChecks (setSlotSelected e None (eNow e) slot) = Inr ()"
      using assms slot i
      by (auto simp: clearSelection_def bindT_eq_Inr SlotRepository_GetByID_def getLive_Inr recordSlotState_def
          SlotRepository_SetSelectedOption_def updateSlot_Inr slotTable_def)
    show ?thesis using slot True c recordSlotState_Inr [OF l slot(1) slotSelect.set_key]
      by (intro exI [of _ slot]) auto
  next
    case False
    then show ?thesis using assms slot
      by (auto simp: clearSelection_def bindT_eq_Inr SlotRepository_GetByID_def getLive_Inr)
  qed
qed

lemma deleteOptionBody_Inr:
  assumes "deleteOptionBody e tripID actorID i v t = Inr (u, t')"
  shows "\<exists>row t1. optionWrite e tripID actorID OpOptionDelete (maskFor OpOptionDelete [FieldDeletedAt]) i
      (versionOrCurrent v (oVersion row)) row (setOptionDeleted e (eNow e))
      (row\<lparr>oDeletedAt := Some (eNow e), oUpdatedAt := eNow e, oVersion := oVersion row + 1\<rparr>) t t1 \<and>
    clearSelection e tripID actorID (oSlotID row) i t1 = Inr (u, t')"
proof -
  obtain row t1 where row: "findRow oID i (dbOptions (txDB t)) = Some row" "oDeletedAt row = None" "oTripID row = tripID"
    and n: "optionChecks (setOptionDeleted e (eNow e) row) = Inr ()"
      "oVersion row = versionArg (versionOrCurrent v (oVersion row))"
    and l: "rec_option e tripID actorID OpOptionDelete
        (row\<lparr>oDeletedAt := Some (eNow e), oUpdatedAt := eNow e, oVersion := oVersion row + 1\<rparr>) [FieldDeletedAt]
        (optionTable (updRow oID i (setOptionDeleted e (eNow e))) t) = Inr ((), t1)"
    and c: "clearSelection e tripID actorID (oSlotID row) i t1 = Inr (u, t')"
    using assms
    by (auto simp: deleteOptionBody_def Let_def bindT_eq_Inr SlotOptionService_getInTrip_Inr
        SlotOptionRepository_SoftDelete_def updateOption_Inr optionTable_def)
  show ?thesis using row n c rec_option_Inr [OF l] findRow_key [OF row(1)]
    by (intro exI [of _ row] exI [of _ t1]) (auto simp: optionWrite_def)
qed

section \<open>Votes\<close>

definition voteTable :: "(Vote list \<Rightarrow> Vote list) \<Rightarrow> Tx \<Rightarrow> Tx" where
  "voteTable g t = t\<lparr>txDB := (txDB t)\<lparr>dbVotes := g (dbVotes (txDB t))\<rparr>\<rparr>"

definition ballot :: "ID \<Rightarrow> ID \<Rightarrow> ID \<Rightarrow> ID option \<Rightarrow> Vote" where
  "ballot tripID userID slotID optionID =
     zeroVote\<lparr>vSlotID := slotID, vTripID := tripID, vUserID := userID, vOptionID := optionID\<rparr>"

definition castAgain :: "Env \<Rightarrow> ID option \<Rightarrow> Vote \<Rightarrow> Vote" where
  "castAgain e optionID w = w\<lparr>vOptionID := optionID, vVersion := vVersion w + 1, vUpdatedAt := eTxNow e\<rparr>"

definition firstVote :: "Env \<Rightarrow> Vote \<Rightarrow> Vote" where
  "firstVote e v = v\<lparr>vID := eNewID e, vVersion := 1, vCreatedAt := eTxNow e, vUpdatedAt := eTxNow e\<rparr>"

text \<open>A cast updates the member's row of the slot or inserts one.\<close>

lemma castVoteBody_Inr:
  assumes "castVoteBody e tripID actorID userID slotID optionID t = Inr (row, t')"
  shows "\<exists>slot g p. findRow sID slotID (dbSlots (txDB t)) = Some slot \<and> sDeletedAt slot = None \<and> sTripID slot = tripID \<and>
    voteRefs (txDB t) row = Inr () \<and>
    (case find (\<lambda>w. vSlotID w = slotID \<and> vUserID w = userID) (dbVotes (txDB t)) of
       Some w \<Rightarrow> row = castAgain e optionID w \<and> g = updRow vID (vID w) (\<lambda>_. row)
     | None \<Rightarrow> row = firstVote e (ballot tripID userID slotID optionID) \<and>
         findRow vID (eNewID e) (dbVotes (txDB t)) = None \<and> g = (\<lambda>rows. rows @ [row])) \<and>
    VotePayload (eText e) row (maskFor OpVoteSet []) = Inr p \<and>
    t' = pushOp (loggedOp e tripID actorID OpVoteSet (vID row) (maskFor OpVoteSet []) p (voteTable g t)) (voteTable g t)"
proof -
  let ?f = "find (\<lambda>w. vSlotID w = slotID \<and> vUserID w = userID) (dbVotes (txDB t))"
  obtain slot db' where s: "findRow sID slotID (dbSlots (txDB t)) = Some slot" "sDeletedAt slot = None" "sTripID slot = tripID"
    and c: "VoteRepository_Cast e (ballot tripID userID slotID optionID) (txDB t) = Inr (row, db')"
    and l: "rec_vote e tripID actorID row (t\<lparr>txDB := db'\<rparr>) = Inr ((), t')"
    using assms
    by (auto simp: castVoteBody_def Let_def bindT_eq_Inr SlotRepository_GetByID_def getLive_Inr checkTrip_def
        ballot_def [symmetric] split: if_splits)
  have "voteRefs (txDB t) row = Inr () \<and> (\<exists>g. t\<lparr>txDB := db'\<rparr> = voteTable g t \<and> (case ?f of
      Some w \<Rightarrow> row = castAgain e optionID w \<and> g = updRow vID (vID w) (\<lambda>_. row)
    | None \<Rightarrow> row = firstVote e (ballot tripID userID slotID optionID) \<and>
        findRow vID (eNewID e) (dbVotes (txDB t)) = None \<and> g = (\<lambda>rows. rows @ [row])))"
  proof (cases ?f)
    case None
    then show ?thesis using c
      by (auto simp: VoteRepository_Cast_def ballot_def zeroVote_def firstVote_def sum_cases insertRow_Inr voteTable_def Let_def)
  next
    case (Some w)
    then show ?thesis using c
      by (auto simp: VoteRepository_Cast_def ballot_def zeroVote_def castAgain_def sum_cases voteTable_def Let_def
          split: if_splits)
  qed
  then show ?thesis using s rec_vote_Inr [OF l] by fastforce
qed

section \<open>Comments\<close>

definition commentTable :: "(Comment list \<Rightarrow> Comment list) \<Rightarrow> Tx \<Rightarrow> Tx" where
  "commentTable g t = t\<lparr>txDB := (txDB t)\<lparr>dbComments := g (dbComments (txDB t))\<rparr>\<rparr>"

definition newComment :: "Env \<Rightarrow> ID \<Rightarrow> ID \<Rightarrow> ID \<Rightarrow> CreateCommentInput \<Rightarrow> Comment" where
  "newComment e tripID actorID slotID inp =
     zeroComment\<lparr>cID := orNewID e (ccID inp), cSlotID := slotID, cTripID := tripID,
       cBody := ccBody inp, cAuthorID := Some actorID, cCreatedAt := eTxNow e, cUpdatedAt := eTxNow e\<rparr>"

lemma createCommentBody_Inr:
  assumes "createCommentBody e tripID actorID slotID inp t = Inr (row, t')"
  shows "\<exists>p. checkSlotInTrip tripID slotID (txDB t) = Inr () \<and> row = newComment e tripID actorID slotID inp \<and>
    findRow cID (cID row) (dbComments (txDB t)) = None \<and>
    CommentPayload (eText e) row (maskFor OpCommentCreate []) = Inr p \<and>
    t' = pushOp (loggedOp e tripID actorID OpCommentCreate (cID row) (maskFor OpCommentCreate []) p
           (commentTable (\<lambda>rows. rows @ [row]) t)) (commentTable (\<lambda>rows. rows @ [row]) t)"
  using assms
  by (auto simp: createCommentBody_def Let_def bindT_eq_Inr CommentRepository_Create_def sum_cases insertRow_Inr
      commentTable_def newComment_def zeroComment_def dest!: rec_comment_Inr)

definition setCommentDeleted :: "Env \<Rightarrow> Comment \<Rightarrow> Comment" where
  "setCommentDeleted e c = c\<lparr>cDeletedAt := Some (eTimestamp e (eNow e)), cUpdatedAt := eTimestamp e (eNow e)\<rparr>"

lemma deleteCommentBody_Inr:
  assumes "deleteCommentBody e tripID actorID i t = Inr (u, t')"
  shows "\<exists>row p. findRow cID i (dbComments (txDB t)) = Some row \<and> cDeletedAt row = None \<and> cTripID row = tripID \<and>
    cAuthorID row = Some actorID \<and>
    CommentPayload (eText e) (row\<lparr>cDeletedAt := Some (eNow e), cUpdatedAt := eNow e\<rparr>)
      (maskFor OpCommentDelete [FieldDeletedAt]) = Inr p \<and>
    t' = pushOp (loggedOp e tripID actorID OpCommentDelete i (maskFor OpCommentDelete [FieldDeletedAt]) p
           (commentTable (updRow cID i (setCommentDeleted e)) t)) (commentTable (updRow cID i (setCommentDeleted e)) t)"
proof -
  obtain row where row: "findRow cID i (dbComments (txDB t)) = Some row" "cDeletedAt row = None" "cTripID row = tripID"
      "cAuthorID row = Some actorID"
    and l: "rec_comment e tripID actorID OpCommentDelete (row\<lparr>cDeletedAt := Some (eNow e), cUpdatedAt := eNow e\<rparr>)
        [FieldDeletedAt] (commentTable (updRow cID i (setCommentDeleted e)) t) = Inr ((), t')"
    using assms
    by (auto simp: deleteCommentBody_def Let_def bindT_eq_Inr CommentService_getInTrip_def CommentRepository_GetByID_def
        CommentRepository_SoftDelete_def getLive_Inr checkTrip_def sum_cases commentTable_def setCommentDeleted_def [abs_def]
        split: if_splits)
  show ?thesis using row rec_comment_Inr [OF l] findRow_key [OF row(1)] by auto
qed

section \<open>Budget entries\<close>

definition budgetTable :: "(BudgetEntry list \<Rightarrow> BudgetEntry list) \<Rightarrow> Tx \<Rightarrow> Tx" where
  "budgetTable g t = t\<lparr>txDB := (txDB t)\<lparr>dbBudgets := g (dbBudgets (txDB t))\<rparr>\<rparr>"

lemma insertSplits_Inr:
  "insertSplits e n taken saved ss = Inr out \<Longrightarrow>
     map (\<lambda>s. (bsUserID s, bsAmountMinor s)) out = map (\<lambda>s. (bsUserID s, bsAmountMinor s)) (saved @ ss)"
  by (induction e n taken saved ss rule: insertSplits.induct) (auto simp: Let_def sum_cases)

text \<open>A save inserts a new row or updates the live one, and replaces the whole split set.\<close>

lemma BudgetRepository_Save_Inr:
  assumes "BudgetRepository_Save e b db = Inr (row, db')"
  shows "map (\<lambda>s. (bsUserID s, bsAmountMinor s)) (bSplits row) = map (\<lambda>s. (bsUserID s, bsAmountMinor s)) (bSplits b) \<and>
    (if bVersion b = 0
     then findRow bID (bID b) (dbBudgets db) = None \<and> row = (newBudgetRow e b)\<lparr>bSplits := bSplits row\<rparr> \<and>
       db' = db\<lparr>dbBudgets := dbBudgets db @ [row]\<rparr>
     else \<exists>old. findRow bID (bID b) (dbBudgets db) = Some old \<and> bDeletedAt old = None \<and>
       bVersion old = versionArg (bVersion b) \<and> row = (setBudget e b old)\<lparr>bSplits := bSplits row\<rparr> \<and>
       db' = db\<lparr>dbBudgets := updRow bID (bID b) (\<lambda>_. row) (dbBudgets db)\<rparr>)"
proof -
  obtain r rows saved where r: "saveEntry e b db = Inr (r, rows)"
      "insertSplits e 0 (otherSplitIDs (bID r) rows) [] (bSplits b) = Inr saved"
      "row = r\<lparr>bSplits := saved\<rparr>" "db' = db\<lparr>dbBudgets := updRow bID (bID r) (\<lambda>_. row) rows\<rparr>"
    using assms by (auto simp: BudgetRepository_Save_def sum_cases Let_def)
  note splits = insertSplits_Inr [OF r(2)]
  show ?thesis
  proof (cases "bVersion b = 0")
    case True
    then have e: "r = newBudgetRow e b" "rows = dbBudgets db @ [r]" "findRow bID (bID b) (dbBudgets db) = None"
      using r(1) by (auto simp: saveEntry_def insertRow_Inr newBudgetRow_def)
    have "updRow bID (bID b) (\<lambda>_. row) (dbBudgets db) = dbBudgets db"
      using e(3) unfolding updRow_def findRow_None by (intro map_idI) (metis image_eqI)
    then show ?thesis using True r(3,4) e splits
      by (simp add: updRow_def) (simp add: newBudgetRow_def)
  next
    case False
    then obtain old where e: "findRow bID (bID b) (dbBudgets db) = Some old" "bDeletedAt old = None"
        "bVersion old = versionArg (bVersion b)" "r = setBudget e b old"
        "rows = updRow bID (bID b) (setBudget e b) (dbBudgets db)"
      using r(1) by (auto simp: saveEntry_def updateVersioned_Inr)
    have "bID r = bID b" using e(4) findRow_key [OF e(1)] by (simp add: setBudget_def)
    moreover have "updRow bID (bID b) (\<lambda>_. row) rows = updRow bID (bID b) (\<lambda>_. row) (dbBudgets db)"
      unfolding e(5) updRow_def by (simp add: setBudget_def)
    ultimately show ?thesis using False r(3,4) e(1-4) splits by auto
  qed
qed

lemma createBudgetBody_Inr:
  assumes "createBudgetBody e tripID actorID inp t = Inr (row, t')"
  shows "\<exists>b db' p. b = (inputEntry inp tripID (orNewID e (biID inp)))\<lparr>bCreatedBy := Some actorID, bVersion := 0\<rparr> \<and>
    BudgetService_validate tripID b (txDB t) = Inr () \<and> BudgetRepository_Save e b (txDB t) = Inr (row, db') \<and>
    BudgetPayload (eText e) row (maskFor OpBudgetSet []) = Inr p \<and>
    t' = pushOp (loggedOp e tripID actorID OpBudgetSet (bID row) (maskFor OpBudgetSet []) p (t\<lparr>txDB := db'\<rparr>)) (t\<lparr>txDB := db'\<rparr>)"
  using assms by (auto simp: createBudgetBody_def Let_def bindT_eq_Inr dest!: rec_budget_Inr)

lemma BudgetService_getInTrip_Inr:
  "BudgetService_getInTrip tripID i db = Inr b \<longleftrightarrow>
     (\<exists>row. findRow bID i (dbBudgets db) = Some row \<and> bDeletedAt row = None \<and> bTripID row = tripID \<and> b = readEntry row)"
  by (auto simp: BudgetService_getInTrip_def BudgetRepository_GetByID_def getLive_Inr checkTrip_def readEntry_def sum_cases)

lemma updateBudgetBody_Inr:
  assumes "updateBudgetBody e tripID actorID i version inp t = Inr (row, t')"
  shows "\<exists>old b db' p. findRow bID i (dbBudgets (txDB t)) = Some old \<and> bDeletedAt old = None \<and> bTripID old = tripID \<and>
    b = (inputEntry inp tripID i)\<lparr>bCreatedBy := bCreatedBy old, bCreatedAt := bCreatedAt old, bVersion := version\<rparr> \<and>
    BudgetService_validate tripID b (txDB t) = Inr () \<and> BudgetRepository_Save e b (txDB t) = Inr (row, db') \<and>
    BudgetPayload (eText e) row (maskFor OpBudgetSet []) = Inr p \<and>
    t' = pushOp (loggedOp e tripID actorID OpBudgetSet (bID row) (maskFor OpBudgetSet []) p (t\<lparr>txDB := db'\<rparr>)) (t\<lparr>txDB := db'\<rparr>)"
  using assms
  by (auto simp: updateBudgetBody_def Let_def bindT_eq_Inr BudgetService_getInTrip_Inr readEntry_def dest!: rec_budget_Inr)

lemma deleteBudgetBody_Inr:
  assumes "deleteBudgetBody e tripID actorID i version t = Inr (u, t')"
  shows "\<exists>row p. findRow bID i (dbBudgets (txDB t)) = Some row \<and> bDeletedAt row = None \<and> bTripID row = tripID \<and>
    bVersion row = versionArg version \<and>
    BudgetPayload (eText e) ((readEntry row)\<lparr>bDeletedAt := Some (eNow e), bUpdatedAt := eNow e, bVersion := bVersion row + 1\<rparr>)
      (maskFor OpBudgetDelete [FieldDeletedAt]) = Inr p \<and>
    t' = pushOp (loggedOp e tripID actorID OpBudgetDelete i (maskFor OpBudgetDelete [FieldDeletedAt]) p
           (budgetTable (updRow bID i (setBudgetDeleted e (eNow e))) t))
         (budgetTable (updRow bID i (setBudgetDeleted e (eNow e))) t)"
proof -
  obtain row where row: "findRow bID i (dbBudgets (txDB t)) = Some row" "bDeletedAt row = None" "bTripID row = tripID"
      "bVersion row = versionArg version"
    and l: "rec_budget e tripID actorID OpBudgetDelete
        ((readEntry row)\<lparr>bDeletedAt := Some (eNow e), bUpdatedAt := eNow e, bVersion := bVersion row + 1\<rparr>)
        [FieldDeletedAt] (budgetTable (updRow bID i (setBudgetDeleted e (eNow e))) t) = Inr ((), t')"
    using assms
    by (auto simp: deleteBudgetBody_def Let_def bindT_eq_Inr BudgetService_getInTrip_Inr BudgetRepository_SoftDelete_def
        updateVersioned_Inr sum_cases budgetTable_def)
      (simp add: readEntry_def)
  show ?thesis using row rec_budget_Inr [OF l] findRow_key [OF row(1)] by (auto simp: readEntry_def)
qed

end
