(* ===== verification/Placement.thy ===== *)
theory Placement
  imports Effects
begin

text \<open>Where slots and days end up: the positions that the slot and day services compute with the
  fractional index (pkg/fracdex) keep the live rows of every bucket at distinct positions, and put a
  created or moved row directly behind the neighbour that was asked for.\<close>

section \<open>One transaction body per request\<close>

definition unitT :: "'a tx \<Rightarrow> unit tx" where
  "unitT m = bindT m (\<lambda>_. returnT ())"

definition requestBody :: "Env \<Rightarrow> ID \<Rightarrow> ID \<Rightarrow> Request \<Rightarrow> unit tx" where
  "requestBody e tripID userID req = (case req of
       CreateSlot inp \<Rightarrow> unitT (createSlotBody e tripID userID inp)
     | UpdateSlot i inp \<Rightarrow> unitT (updateSlotBody e tripID userID i (maskFor OpSlotEdit (usFields inp)) inp)
     | MoveSlot i dayID after v \<Rightarrow> moveSlotBody e tripID userID i dayID after v
     | SelectOption i optionID v \<Rightarrow> selectOptionBody e tripID userID i optionID v
     | SetStatus i status v \<Rightarrow> setStatusBody e tripID userID i status v
     | DeleteSlot i v \<Rightarrow> deleteSlotBody e tripID userID i v
     | CreateDay inp \<Rightarrow> unitT (createDayBody e tripID userID inp)
     | UpdateDay i inp \<Rightarrow> unitT (updateDayBody e tripID userID i (maskFor OpDayEdit (udFields inp)) inp)
     | MoveDay i after v \<Rightarrow> moveDayBody e tripID userID i after v
     | DeleteDay i v \<Rightarrow> deleteDayBody e tripID userID i v
     | CreateOption slotID inp \<Rightarrow> unitT (createOptionBody e tripID userID slotID inp)
     | UpdateOption i inp \<Rightarrow> unitT (updateOptionBody e tripID userID i (maskFor OpOptionEdit (uoFields inp)) inp)
     | DeleteOption i v \<Rightarrow> deleteOptionBody e tripID userID i v
     | CastVote slotID optionID \<Rightarrow> unitT (castVoteBody e tripID userID userID slotID optionID)
     | CreateComment slotID inp \<Rightarrow> unitT (createCommentBody e tripID userID slotID inp)
     | DeleteComment i \<Rightarrow> deleteCommentBody e tripID userID i
     | CreateEntry inp \<Rightarrow> unitT (createBudgetBody e tripID userID inp)
     | UpdateEntry i inp \<Rightarrow>
         bindT (liftT (requireVersion (biVersion inp) ''version'')) (\<lambda>v. unitT (updateBudgetBody e tripID userID i v inp))
     | DeleteEntry i v \<Rightarrow>
         bindT (liftT (requireVersion v ''version'')) (\<lambda>v. deleteBudgetBody e tripID userID i v))"

text \<open>What must hold of the request itself: its mask names editable fields, its status is known.\<close>

definition requestOK :: "Request \<Rightarrow> bool" where
  "requestOK req = (case req of
       UpdateSlot i inp \<Rightarrow> FieldMask_Validate (maskFor OpSlotEdit (usFields inp)) OpSlotEdit = Inr ()
     | UpdateDay i inp \<Rightarrow> FieldMask_Validate (maskFor OpDayEdit (udFields inp)) OpDayEdit = Inr ()
     | UpdateOption i inp \<Rightarrow> FieldMask_Validate (maskFor OpOptionEdit (uoFields inp)) OpOptionEdit = Inr ()
     | SetStatus i status v \<Rightarrow> SlotStatus_Valid status
     | _ \<Rightarrow> True)"

lemma unitT_Inr: "unitT m t = Inr (u, t') \<longleftrightarrow> (\<exists>x. m t = Inr (x, t'))"
  by (simp add: unitT_def bindT_eq_Inr)

lemma ack_Inr: "ack r = (Inr u, db, ops) \<longleftrightarrow> (\<exists>x. r = (Inr x, db, ops))"
  by (auto simp: ack_def sum_cases split: prod.splits)

lemma guarded_Inr: "guarded r k db = (Inr x, db', ops) \<longleftrightarrow> (\<exists>y. r = Inr y \<and> k y db = (Inr x, db', ops))"
  by (auto simp: guarded_def split: sum.splits)

lemma oplog_write_Inr:
  "oplog_write tripID fn db = (Inr x, db', ops) \<longleftrightarrow>
     LockForWrite tripID db = Inr () \<and> deferredOK db' \<and>
     (\<exists>t. fn \<lparr>txDB = db, txOps = []\<rparr> = Inr (x, t) \<and> db' = txDB t \<and> ops = txOps t)"
  by (auto simp: oplog_write_def WithinTx_def sum_cases bindT_eq_Inr split: sum.splits prod.splits)

lemma serve_body:
  assumes "serve e tripID userID req db = (Inr u, db', ops)"
  shows "requestOK req \<and> LockForWrite tripID db = Inr () \<and> deferredOK db' \<and>
    (\<exists>t. requestBody e tripID userID req \<lparr>txDB = db, txOps = []\<rparr> = Inr ((), t) \<and> db' = txDB t \<and> ops = txOps t)"
proof -
  have "\<exists>a. require tripID userID (needs req) db = Inr a"
    using assms serve_unauthorized [of tripID userID req db]
    by (cases "require tripID userID (needs req) db") auto
  then obtain a where a: "require tripID userID (needs req) db = Inr a" "aUserID a = userID"
    using require_user by blast
  show ?thesis
    using assms a
    by (cases req)
      (auto simp: serve_def requestBody_def requestOK_def needs_def service_defs ack_Inr guarded_Inr oplog_write_Inr
        Let_def unitT_Inr bindT_eq_Inr)
qed

section \<open>Distinct positions\<close>

definition livePlaces :: "('r \<Rightarrow> str) \<Rightarrow> ('r \<Rightarrow> 'b) \<Rightarrow> ('r \<Rightarrow> instant option) \<Rightarrow> 'r set \<Rightarrow> ('b \<times> str) set" where
  "livePlaces pos bucket del S = (\<lambda>x. (bucket x, pos x)) ` {x \<in> S. del x = None}"

definition apart ::
  "('r \<Rightarrow> ID) \<Rightarrow> ('r \<Rightarrow> str) \<Rightarrow> ('r \<Rightarrow> 'b) \<Rightarrow> ('r \<Rightarrow> instant option) \<Rightarrow> 'r list \<Rightarrow> bool" where
  "apart key pos bucket del rows \<longleftrightarrow> distinct (map key rows) \<and> (\<forall>x \<in> set rows. pos x \<noteq> []) \<and>
     inj_on (\<lambda>x. (bucket x, pos x)) {x \<in> set rows. del x = None}"

definition freshAt :: "('r \<Rightarrow> str) \<Rightarrow> ('r \<Rightarrow> 'b) \<Rightarrow> ('r \<Rightarrow> instant option) \<Rightarrow> 'r list \<Rightarrow> 'r \<Rightarrow> bool" where
  "freshAt pos bucket del rows r \<longleftrightarrow> pos r \<noteq> [] \<and> (bucket r, pos r) \<notin> livePlaces pos bucket del (set rows)"

definition staysAt :: "('r \<Rightarrow> str) \<Rightarrow> ('r \<Rightarrow> 'b) \<Rightarrow> ('r \<Rightarrow> instant option) \<Rightarrow> 'r \<Rightarrow> 'r \<Rightarrow> bool" where
  "staysAt pos bucket del row r \<longleftrightarrow> pos r = pos row \<and> bucket r = bucket row \<and> (del r = None \<longrightarrow> del row = None)"

lemma apart_snoc:
  assumes "apart key pos bucket del rows" "findRow key (key r) rows = None" "freshAt pos bucket del rows r"
  shows "apart key pos bucket del (rows @ [r])"
proof -
  have "inj_on (\<lambda>x. (bucket x, pos x)) (insert r {x \<in> set rows. del x = None})"
    using assms by (auto simp: apart_def freshAt_def livePlaces_def inj_on_insert)
  then have "inj_on (\<lambda>x. (bucket x, pos x)) {x \<in> set (rows @ [r]). del x = None}"
    by (rule inj_on_subset) auto
  then show ?thesis using assms by (simp add: apart_def findRow_None freshAt_def)
qed

lemma set_updRow: "set (updRow key i f rows) = (\<lambda>x. if key x = i then f x else x) ` set rows"
  by (simp add: updRow_def)

lemma apart_updRow:
  assumes "apart key pos bucket del rows" "\<And>r. key (f r) = key r" "findRow key i rows = Some row"
    and "staysAt pos bucket del row (f row) \<or> freshAt pos bucket del rows (f row)"
  shows "apart key pos bucket del (updRow key i f rows)"
proof -
  let ?place = "\<lambda>x. (bucket x, pos x)" and ?L = "{x \<in> set rows. del x = None}"
  note row = findRow_key [OF assms(3)]
  have u: "x = row" if "x \<in> set rows" "key x = i" for x
    using assms(1) that row by (auto simp: apart_def distinct_map inj_on_def)
  have inj: "inj_on ?place ?L" using assms(1) by (simp add: apart_def)
  have mem: "x = f row \<or> x \<in> set rows \<and> x \<noteq> row" if m: "x \<in> set (updRow key i f rows)" for x
  proof -
    obtain y where y: "y \<in> set rows" "x = (if key y = i then f y else y)" using m unfolding set_updRow by blast
    then show ?thesis using u [OF y(1)] row by (cases "key y = i") auto
  qed
  then have sub: "{x \<in> set (updRow key i f rows). del x = None} \<subseteq>
      (if del (f row) = None then insert (f row) (?L - {row}) else ?L - {row})"
    by (auto split: if_splits dest!: mem)
  have "?place (f row) \<notin> ?place ` (?L - {row})" if d: "del (f row) = None"
    using assms(4)
  proof
    assume "staysAt pos bucket del row (f row)"
    then have "?place (f row) = ?place row" "row \<in> ?L" using d row by (auto simp: staysAt_def)
    then show ?thesis using inj by (auto simp: inj_on_def)
  next
    assume "freshAt pos bucket del rows (f row)"
    then show ?thesis unfolding freshAt_def livePlaces_def by blast
  qed
  then have "inj_on ?place (if del (f row) = None then insert (f row) (?L - {row}) else ?L - {row})"
    using inj by (auto simp: inj_on_insert intro: inj_on_diff)
  then have "inj_on ?place {x \<in> set (updRow key i f rows). del x = None}"
    using sub by (rule inj_on_subset)
  moreover have "pos (f row) \<noteq> []" using assms(1,4) row by (auto simp: apart_def freshAt_def staysAt_def)
  moreover have "\<forall>x \<in> set (updRow key i f rows). x = f row \<or> x \<in> set rows"
    using mem by blast
  ultimately show ?thesis using assms(1,2) by (auto simp: apart_def map_key_updRow)
qed

lemma positionBetween_strict:
  assumes "positionBetween prev nxt = Inr k"
  shows "prev < k \<and> (nxt = [] \<or> k < nxt) \<and> k \<noteq> []"
proof -
  have b: "KeyBetween prev nxt = Inr k"
    using assms by (auto simp: positionBetween_def split: sum.splits)
  have v: "prev = [] \<or> validKey prev" "nxt = [] \<or> validKey nxt"
    using b by (auto simp: KeyBetween_def validKey_def sum_cases split: if_splits)
  have o: "prev = [] \<or> nxt = [] \<or> prev < nxt"
    using b by (auto simp: KeyBetween_def sum_cases split: if_splits)
  have "prev < k \<and> (nxt = [] \<or> k < nxt)"
  proof (cases "prev \<noteq> [] \<or> nxt \<noteq> lowestKey")
    case True
    then show ?thesis using fk.between_ok [OF v o True] b by auto
  next
    case False
    then have "KeyBetween [] lowestKey = Inr k" "validKey lowestKey"
      using b v by (auto simp: lowestKey_def)
    then obtain k' where "KeyBetween [] lowestKey = Inr k'" "k' < lowestKey" "k' \<noteq> []"
      using KeyBetween_below by blast
    then show ?thesis using False b by (cases k) auto
  qed
  then show ?thesis by (cases k) auto
qed

lemma inserted_freshAt:
  assumes "neighbourPositions pos key del (\<lambda>x. bucket x = bucket r) rows after = Inr (prev, nxt)"
    and "positionBetween prev nxt = Inr (pos r)" "\<forall>x \<in> set rows. pos x \<noteq> []"
  shows "freshAt pos bucket del rows r"
proof -
  note k = positionBetween_strict [OF assms(2)]
  have "pos x \<noteq> pos r" if "x \<in> set rows" "bucket x = bucket r" "del x = None" for x
  proof -
    have "pos x \<le> prev \<or> pos r < pos x"
      by (rule neighbourPositions_bracket [OF assms(1) _ _ assms(3) that(1) that(2,3)]) (use k in simp_all)
    then show ?thesis using k by auto
  qed
  then have "\<not> (\<exists>x. x \<in> set rows \<and> del x = None \<and> bucket x = bucket r \<and> pos x = pos r)" by metis
  then have "(bucket r, pos r) \<notin> livePlaces pos bucket del (set rows)"
    by (auto simp: livePlaces_def image_iff eq_commute)
  then show ?thesis using k by (simp add: freshAt_def)
qed

definition slotBucket :: "Slot \<Rightarrow> ID \<times> ID option" where
  "slotBucket s = (sTripID s, sDayID s)"

definition itineraryApart :: "Tx \<Rightarrow> bool" where
  "itineraryApart t \<longleftrightarrow> apart sID sPosition slotBucket sDeletedAt (dbSlots (txDB t)) \<and>
     apart dID dPosition dTripID dDeletedAt (dbDays (txDB t))"

lemma itineraryApart_tables [simp]:
  "itineraryApart (pushOp op t) = itineraryApart t"
  "itineraryApart (slotTable g t) \<longleftrightarrow> apart sID sPosition slotBucket sDeletedAt (g (dbSlots (txDB t))) \<and>
     apart dID dPosition dTripID dDeletedAt (dbDays (txDB t))"
  "itineraryApart (dayTable g' t) \<longleftrightarrow> apart sID sPosition slotBucket sDeletedAt (dbSlots (txDB t)) \<and>
     apart dID dPosition dTripID dDeletedAt (g' (dbDays (txDB t)))"
  "itineraryApart (optionTable h t) = itineraryApart t"
  "itineraryApart (voteTable v t) = itineraryApart t"
  "itineraryApart (commentTable c t) = itineraryApart t"
  "itineraryApart (budgetTable b t) = itineraryApart t"
  by (simp_all add: itineraryApart_def slotTable_def dayTable_def optionTable_def voteTable_def commentTable_def
      budgetTable_def)

lemma slotWrite_apart:
  assumes "slotWrite e tripID actorID kind msk i v row f s t t'" "itineraryApart t" "\<And>r. sID (f r) = sID r"
    and "staysAt sPosition slotBucket sDeletedAt row (f row) \<or> freshAt sPosition slotBucket sDeletedAt (dbSlots (txDB t)) (f row)"
  shows "itineraryApart t'"
  using assms apart_updRow [of sID sPosition slotBucket sDeletedAt "dbSlots (txDB t)" f i row]
  by (auto simp: slotWrite_def) (simp add: itineraryApart_def)+

lemma dayWrite_apart:
  assumes "dayWrite e tripID actorID kind msk i v row f s t t'" "itineraryApart t" "\<And>r. dID (f r) = dID r"
    and "staysAt dPosition dTripID dDeletedAt row (f row) \<or> freshAt dPosition dTripID dDeletedAt (dbDays (txDB t)) (f row)"
  shows "itineraryApart t'"
  using assms apart_updRow [of dID dPosition dTripID dDeletedAt "dbDays (txDB t)" f i row]
  by (auto simp: dayWrite_def) (simp add: itineraryApart_def)+

lemma slot_insertion_fresh:
  assumes "SlotRepository_NeighbourPositions tripID dayID after db = Inr (prev, nxt)"
    and "positionBetween prev nxt = Inr (sPosition r)" "sTripID r = tripID" "sDayID r = dayID"
    and "apart sID sPosition slotBucket sDeletedAt (dbSlots db)"
  shows "freshAt sPosition slotBucket sDeletedAt (dbSlots db) r"
proof (rule inserted_freshAt)
  have "(\<lambda>s. sTripID s = tripID \<and> sDayID s = dayID) = (\<lambda>s. slotBucket s = slotBucket r)"
    using assms(3,4) by (auto simp: slotBucket_def)
  then show "neighbourPositions sPosition sID sDeletedAt (\<lambda>s. slotBucket s = slotBucket r) (dbSlots db) after = Inr (prev, nxt)"
    using assms(1) by (simp add: SlotRepository_NeighbourPositions_def)
qed (use assms in \<open>simp_all add: apart_def\<close>)

lemma day_insertion_fresh:
  assumes "DayRepository_NeighbourPositions tripID after db = Inr (prev, nxt)"
    and "positionBetween prev nxt = Inr (dPosition r)" "dTripID r = tripID"
    and "apart dID dPosition dTripID dDeletedAt (dbDays db)"
  shows "freshAt dPosition dTripID dDeletedAt (dbDays db) r"
proof (rule inserted_freshAt)
  show "neighbourPositions dPosition dID dDeletedAt (\<lambda>d. dTripID d = dTripID r) (dbDays db) after = Inr (prev, nxt)"
    using assms(1,3) by (simp add: DayRepository_NeighbourPositions_def)
qed (use assms in \<open>simp_all add: apart_def\<close>)

section \<open>Every request keeps the positions apart\<close>

lemma keepsI: "(\<And>t x t'. m t = Inr (x, t') \<Longrightarrow> P t \<Longrightarrow> P t') \<Longrightarrow> keeps P m"
  by (auto simp: keeps_def)

lemma keeps_unitT [keeps_intros]: "keeps P m \<Longrightarrow> keeps P (unitT m)"
  unfolding unitT_def by (intro keeps_intros)

lemma staysAt_slot [simp]:
  "staysAt sPosition slotBucket sDeletedAt row (setSlot e s row)"
  "staysAt sPosition slotBucket sDeletedAt row (setSlotSelected e optionID ts row)"
  "staysAt sPosition slotBucket sDeletedAt row (setSlotStatus e status by ts row)"
  "staysAt sPosition slotBucket sDeletedAt row (setSlotDeleted e ts row)"
  "dPosition d = dPosition day \<Longrightarrow> staysAt dPosition dTripID dDeletedAt day (setDay e d day)"
  "staysAt dPosition dTripID dDeletedAt day (setDayDeleted e ts day)"
  by (simp_all add: staysAt_def slotBucket_def setSlot_def setSlotSelected_def setSlotStatus_def setSlotDeleted_def
      setDay_def setDayDeleted_def)

lemma createSlot_apart: "keeps itineraryApart (createSlotBody e tripID actorID inp)"
proof (rule keepsI)
  fix t row t' assume a: "createSlotBody e tripID actorID inp t = Inr (row, t')" "itineraryApart t"
  from createSlotBody_Inr [OF a(1)] obtain prev nxt position p where
    c: "SlotRepository_NeighbourPositions tripID (csDayID inp) (csAfterSlotID inp) (txDB t) = Inr (prev, nxt)"
      "positionBetween prev nxt = Inr position" "row = newSlotRow e (draftSlot e tripID actorID inp position)"
      "findRow sID (sID row) (dbSlots (txDB t)) = None"
      "t' = pushOp (loggedOp e tripID actorID OpSlotCreate (sID row) (maskFor OpSlotCreate []) p
         (slotTable (\<lambda>rows. rows @ [row]) t)) (slotTable (\<lambda>rows. rows @ [row]) t)"
    by blast
  have "freshAt sPosition slotBucket sDeletedAt (dbSlots (txDB t)) row"
    using c(2,3) a(2) by (intro slot_insertion_fresh [OF c(1)]) (simp_all add: newSlotRow_def draftSlot_def itineraryApart_def)
  then show "itineraryApart t'" using a(2) c(4,5) by (simp add: itineraryApart_def apart_snoc slotTable_def)
qed

lemma moveSlot_apart: "keeps itineraryApart (moveSlotBody e tripID actorID i dayID after v)"
proof (rule keepsI)
  fix t u t' assume a: "moveSlotBody e tripID actorID i dayID after v t = Inr (u, t')" "itineraryApart t"
  from moveSlotBody_Inr [OF a(1)] obtain row prev nxt position where
    c: "SlotRepository_NeighbourPositions tripID dayID after (txDB t) = Inr (prev, nxt)"
      "positionBetween prev nxt = Inr position"
    and w: "slotWrite e tripID actorID OpSlotMove (maskFor OpSlotMove [FieldDayID, FieldPosition]) i
      (versionOrCurrent v (sVersion row)) row (setSlotPlace e dayID position (eNow e))
      (setSlotPlace e dayID position (eNow e) row) t t'"
    by blast
  have "sTripID row = tripID" using w by (simp add: slotWrite_def)
  then have "freshAt sPosition slotBucket sDeletedAt (dbSlots (txDB t)) (setSlotPlace e dayID position (eNow e) row)"
    using c(2) a(2) by (intro slot_insertion_fresh [OF c(1)]) (simp_all add: setSlotPlace_def itineraryApart_def)
  then show "itineraryApart t'" using slotWrite_apart [OF w a(2) slotPlace.set_key] by blast
qed

lemma slots_apart:
  "keeps itineraryApart (updateSlotBody e tripID actorID i msk inp)"
  "keeps itineraryApart (selectOptionBody e tripID actorID i optionID v)"
  "keeps itineraryApart (setStatusBody e tripID actorID i status v)"
  "keeps itineraryApart (deleteSlotBody e tripID actorID i v)"
  by (intro keepsI; drule updateSlotBody_Inr selectOptionBody_Inr setStatusBody_Inr deleteSlotBody_Inr; elim exE conjE;
      erule (1) slotWrite_apart; simp add: slotEdit.set_key slotSelect.set_key slotStatus.set_key slotTombstone.set_key)+

lemma createDay_apart: "keeps itineraryApart (createDayBody e tripID actorID inp)"
proof (rule keepsI)
  fix t row t' assume a: "createDayBody e tripID actorID inp t = Inr (row, t')" "itineraryApart t"
  from createDayBody_Inr [OF a(1)] obtain prev nxt position p where
    c: "DayRepository_NeighbourPositions tripID (cdAfterDayID inp) (txDB t) = Inr (prev, nxt)"
      "positionBetween prev nxt = Inr position" "row = newDayRow e (draftDay e tripID inp position)"
      "findRow dID (dID row) (dbDays (txDB t)) = None"
      "t' = pushOp (loggedOp e tripID actorID OpDayCreate (dID row) (maskFor OpDayCreate []) p
         (dayTable (\<lambda>rows. rows @ [row]) t)) (dayTable (\<lambda>rows. rows @ [row]) t)"
    by blast
  have "freshAt dPosition dTripID dDeletedAt (dbDays (txDB t)) row"
    using c(2,3) a(2) by (intro day_insertion_fresh [OF c(1)]) (simp_all add: newDayRow_def draftDay_def itineraryApart_def)
  then show "itineraryApart t'" using a(2) c(4,5) by (simp add: itineraryApart_def apart_snoc dayTable_def)
qed

lemma moveDay_apart: "keeps itineraryApart (moveDayBody e tripID actorID i after v)"
proof (rule keepsI)
  fix t u t' assume a: "moveDayBody e tripID actorID i after v t = Inr (u, t')" "itineraryApart t"
  from moveDayBody_Inr [OF a(1)] obtain row prev nxt position where
    c: "DayRepository_NeighbourPositions tripID after (txDB t) = Inr (prev, nxt)"
      "positionBetween prev nxt = Inr position"
    and w: "dayWrite e tripID actorID OpDayMove (maskFor OpDayMove [FieldPosition]) i (versionOrCurrent v (dVersion row))
      row (setDay e (movedDay tripID i v position row)) (setDay e (movedDay tripID i v position row) row) t t'"
    by blast
  have "dTripID row = tripID" using w by (simp add: dayWrite_def)
  then have "freshAt dPosition dTripID dDeletedAt (dbDays (txDB t)) (setDay e (movedDay tripID i v position row) row)"
    using c(2) a(2) by (intro day_insertion_fresh [OF c(1)]) (simp_all add: setDay_def movedDay_def itineraryApart_def)
  then show "itineraryApart t'" using dayWrite_apart [OF w a(2) dayEdit.set_key] by blast
qed

lemma days_apart:
  "keeps itineraryApart (updateDayBody e tripID actorID i msk inp)"
  "keeps itineraryApart (deleteDayBody e tripID actorID i v)"
  by (intro keepsI; drule updateDayBody_Inr deleteDayBody_Inr; elim exE conjE;
      erule (1) dayWrite_apart; simp add: dayEdit.set_key dayTombstone.set_key mergeDay_def)+

lemma proposals_apart:
  "keeps itineraryApart (createOptionBody e tripID actorID slotID inp)"
  "keeps itineraryApart (updateOptionBody e tripID actorID i msk upd)"
  "keeps itineraryApart (castVoteBody e tripID actorID userID slotID optionID)"
  "keeps itineraryApart (createCommentBody e tripID actorID slotID cinp)"
  "keeps itineraryApart (deleteCommentBody e tripID actorID i)"
  by (intro keepsI; drule createOptionBody_Inr updateOptionBody_Inr castVoteBody_Inr createCommentBody_Inr
      deleteCommentBody_Inr; auto simp: optionWrite_def)+

lemma clearSelection_apart: "keeps itineraryApart (clearSelection e tripID actorID slotID optionID)"
proof (rule keepsI)
  fix t u t' assume a: "clearSelection e tripID actorID slotID optionID t = Inr (u, t')" "itineraryApart t"
  then have "apart sID sPosition slotBucket sDeletedAt (dbSlots (txDB t))" by (simp add: itineraryApart_def)
  then show "itineraryApart t'" using clearSelection_Inr [OF a(1)] a(2)
    by (auto split: if_splits intro!: apart_updRow slotSelect.set_key) (simp add: itineraryApart_def)+
qed

lemma deleteOption_apart: "keeps itineraryApart (deleteOptionBody e tripID actorID i v)"
proof (rule keepsI)
  fix t u t' assume a: "deleteOptionBody e tripID actorID i v t = Inr (u, t')" "itineraryApart t"
  from deleteOptionBody_Inr [OF a(1)] obtain row t1 kind msk f s where
    w: "optionWrite e tripID actorID kind msk i (versionOrCurrent v (oVersion row)) row f s t t1"
      "clearSelection e tripID actorID (oSlotID row) i t1 = Inr (u, t')"
    by blast
  have "itineraryApart t1" using w(1) a(2) by (auto simp: optionWrite_def)
  then show "itineraryApart t'" using keepsD [OF clearSelection_apart w(2)] by blast
qed

lemma Save_apart: "BudgetRepository_Save e b (txDB t) = Inr (row, db') \<Longrightarrow> itineraryApart (t\<lparr>txDB := db'\<rparr>) = itineraryApart t"
  by (auto simp: itineraryApart_def dest!: BudgetRepository_Save_Inr split: if_splits)

lemma budget_apart:
  "keeps itineraryApart (createBudgetBody e tripID actorID inp)"
  "keeps itineraryApart (updateBudgetBody e tripID actorID i version inp)"
  "keeps itineraryApart (deleteBudgetBody e tripID actorID i version)"
  by (intro keepsI; drule createBudgetBody_Inr updateBudgetBody_Inr deleteBudgetBody_Inr; auto simp: Save_apart)+

lemma requestBody_apart: "keeps itineraryApart (requestBody e tripID userID req)"
  by (cases req) (auto simp: requestBody_def intro!: keeps_unitT keeps_bindT keeps_basic createSlot_apart moveSlot_apart
      slots_apart createDay_apart moveDay_apart days_apart proposals_apart deleteOption_apart budget_apart)

section \<open>Properties\<close>

lemma reachable_apart: "reachable okEnv db \<Longrightarrow> itineraryApart \<lparr>txDB = db, txOps = []\<rparr>"
proof (induction rule: reachable.induct)
  case (served db e tripID userID req res db' ops)
  show ?case
  proof (cases res)
    case (Inl err)
    then show ?thesis using served serve_sound [of e tripID userID db req] by (auto simp: soundReply_def)
  next
    case (Inr u)
    then obtain t where "requestBody e tripID userID req \<lparr>txDB = db, txOps = []\<rparr> = Inr ((), t)" "db' = txDB t"
      using serve_body served.hyps(3) by blast
    then have "itineraryApart t" using keepsD [OF requestBody_apart] served.IH by blast
    then show ?thesis using \<open>db' = txDB t\<close> by (simp add: itineraryApart_def)
  qed
qed (simp_all add: itineraryApart_def emptyPlan_def apart_def)

lemma sorted_strict:
  "sorted (map (\<lambda>r. (pos r, key r)) xs) \<Longrightarrow> distinct xs \<Longrightarrow> inj_on pos (set xs) \<Longrightarrow>
     sorted_wrt (\<lambda>x y. pos x < (pos y :: 'p :: linorder)) xs"
  by (induction xs) (auto simp: less_eq_prod_def inj_on_def less_le)

lemma listing_strict:
  assumes "apart key pos bucket del rows" "\<And>x y. P x \<Longrightarrow> P y \<Longrightarrow> bucket x = bucket y"
  shows "sorted_wrt (\<lambda>x y. pos x < pos y) (sort_key (\<lambda>r. (pos r, key r)) (filter (\<lambda>x. P x \<and> del x = None) rows))"
  using assms by (intro sorted_strict [of pos key]) (auto simp: apart_def distinct_map inj_on_def)

text \<open>C21: concurrent reordering never collides: in a reachable database the live days of a trip, and the
  live slots of each of its days and of its backlog, are listed at strictly ascending positions, so no
  two of them share a position and every client shows the same order.\<close>

theorem listings_strictly_ordered:
  assumes "reachable okEnv db"
  shows "sorted_wrt (\<lambda>x y. sPosition x < sPosition y)
      (filter (\<lambda>s. sDayID s = day) (SlotRepository_ListForTrip tripID db)) \<and>
    sorted_wrt (\<lambda>x y. dPosition x < dPosition y) (DayRepository_ListForTrip tripID db)"
  using reachable_apart [OF assms]
    listing_strict [of sID sPosition slotBucket sDeletedAt "dbSlots db" "\<lambda>s. sTripID s = tripID \<and> sDayID s = day"]
    listing_strict [of dID dPosition dTripID dDeletedAt "dbDays db" "\<lambda>d. dTripID d = tripID"]
  by (simp add: itineraryApart_def SlotRepository_ListForTrip_def listSlots_def DayRepository_ListForTrip_def
      filter_sort filter_filter slotBucket_def conj_ac)

theorem listings_strictly_ordered_witness:
  "sorted_wrt (\<lambda>x y. dPosition x < dPosition y) (DayRepository_ListForTrip 1 sampleAfter)"
  using listings_strictly_ordered [OF sampleAfter_reachable, of None 1] by simp

end
