(* ===== verification/Steps.thy ===== *)
theory Steps
  imports Placement
begin

text \<open>The planning services as a step relation: every successful transaction body is one or two steps,
  each of which writes one row of one table and pushes the operation that logs it. Invariants of the
  database are proved over these steps instead of over the nineteen handlers.\<close>

inductive planStep :: "Env \<Rightarrow> ID \<Rightarrow> ID \<Rightarrow> Tx \<Rightarrow> Tx \<Rightarrow> bool" for e tripID actorID where
  slotCreated:
    "Slot_Validate (draftSlot e tripID actorID inp position) = Inr () \<Longrightarrow>
     row = newSlotRow e (draftSlot e tripID actorID inp position) \<Longrightarrow> slotRefs (txDB t) row = Inr () \<Longrightarrow>
     findRow sID (sID row) (dbSlots (txDB t)) = None \<Longrightarrow>
     SlotPayload (eText e) row (maskFor OpSlotCreate []) = Inr p \<Longrightarrow>
     t1 = slotTable (\<lambda>rows. rows @ [row]) t \<Longrightarrow>
     t' = pushOp (loggedOp e tripID actorID OpSlotCreate (sID row) (maskFor OpSlotCreate []) p t1) t1 \<Longrightarrow>
     planStep e tripID actorID t t'"
| slotEdited:
    "Slot_Validate (mergeSlot msk inp tripID i row) = Inr () \<Longrightarrow>
     f = setSlot e (mergeSlot msk inp tripID i row) \<Longrightarrow>
     slotWrite e tripID actorID OpSlotEdit (maskFor OpSlotEdit msk) i v row f (f row) t t' \<Longrightarrow>
     planStep e tripID actorID t t'"
| slotMoved:
    "f = setSlotPlace e dayID position (eNow e) \<Longrightarrow> slotDayFK (txDB t) (f row) = Inr () \<Longrightarrow>
     slotWrite e tripID actorID OpSlotMove (maskFor OpSlotMove [FieldDayID, FieldPosition]) i v row f (f row) t t' \<Longrightarrow>
     planStep e tripID actorID t t'"
| slotSelected:
    "f = setSlotSelected e optionID (eNow e) \<Longrightarrow> slotOptionFK (txDB t) (f row) = Inr () \<Longrightarrow>
     slotWrite e tripID actorID OpSlotSelectOption (maskFor OpSlotSelectOption [FieldSelectedOptionID]) i v row f (f row) t t' \<Longrightarrow>
     planStep e tripID actorID t t'"
| slotStatusSet:
    "f = setSlotStatus e status actorID (eNow e) \<Longrightarrow>
     slotWrite e tripID actorID OpSlotSetStatus
       (maskFor OpSlotSetStatus [FieldStatus, FieldStatusChangedAt, FieldStatusChangedBy]) i v row f (f row) t t' \<Longrightarrow>
     planStep e tripID actorID t t'"
| slotDeleted:
    "f = setSlotDeleted e (eNow e) \<Longrightarrow>
     slotWrite e tripID actorID OpSlotDelete (maskFor OpSlotDelete [FieldDeletedAt]) i v row f
       (row\<lparr>sDeletedAt := Some (eNow e), sUpdatedAt := eNow e, sVersion := sVersion row + 1\<rparr>) t t' \<Longrightarrow>
     planStep e tripID actorID t t'"
| dayCreated:
    "row = newDayRow e (draftDay e tripID inp position) \<Longrightarrow>
     findRow dID (dID row) (dbDays (txDB t)) = None \<Longrightarrow>
     DayPayload row (maskFor OpDayCreate []) = Inr p \<Longrightarrow>
     t1 = dayTable (\<lambda>rows. rows @ [row]) t \<Longrightarrow>
     t' = pushOp (loggedOp e tripID actorID OpDayCreate (dID row) (maskFor OpDayCreate []) p t1) t1 \<Longrightarrow>
     planStep e tripID actorID t t'"
| dayEdited:
    "f = setDay e (mergeDay msk inp tripID i row) \<Longrightarrow>
     dayWrite e tripID actorID OpDayEdit (maskFor OpDayEdit msk) i v row f (f row) t t' \<Longrightarrow>
     planStep e tripID actorID t t'"
| dayMoved:
    "f = setDay e (movedDay tripID i expected position row) \<Longrightarrow>
     dayWrite e tripID actorID OpDayMove (maskFor OpDayMove [FieldPosition]) i v row f (f row) t t' \<Longrightarrow>
     planStep e tripID actorID t t'"
| dayDeleted:
    "f = setDayDeleted e (eNow e) \<Longrightarrow>
     dayWrite e tripID actorID OpDayDelete (maskFor OpDayDelete [FieldDeletedAt]) i v row f
       (row\<lparr>dDeletedAt := Some (eNow e), dUpdatedAt := eNow e, dVersion := dVersion row + 1\<rparr>) t t' \<Longrightarrow>
     planStep e tripID actorID t t'"
| optionCreated:
    "checkSlotInTrip tripID slotID (txDB t) = Inr () \<Longrightarrow>
     row = newOptionRow e (draftOption e tripID actorID slotID inp) \<Longrightarrow>
     findRow oID (oID row) (dbOptions (txDB t)) = None \<Longrightarrow>
     OptionPayload (eText e) row (maskFor OpOptionCreate []) = Inr p \<Longrightarrow>
     t1 = optionTable (\<lambda>rows. rows @ [row]) t \<Longrightarrow>
     t' = pushOp (loggedOp e tripID actorID OpOptionCreate (oID row) (maskFor OpOptionCreate []) p t1) t1 \<Longrightarrow>
     planStep e tripID actorID t t'"
| optionEdited:
    "f = setOption e (mergeOption msk inp tripID i row) \<Longrightarrow>
     optionWrite e tripID actorID OpOptionEdit (maskFor OpOptionEdit msk) i v row f (f row) t t' \<Longrightarrow>
     planStep e tripID actorID t t'"
| optionDeleted:
    "f = setOptionDeleted e (eNow e) \<Longrightarrow>
     optionWrite e tripID actorID OpOptionDelete (maskFor OpOptionDelete [FieldDeletedAt]) i v row f
       (row\<lparr>oDeletedAt := Some (eNow e), oUpdatedAt := eNow e, oVersion := oVersion row + 1\<rparr>) t t' \<Longrightarrow>
     planStep e tripID actorID t t'"
| firstVoteCast:
    "checkSlotInTrip tripID slotID (txDB t) = Inr () \<Longrightarrow>
     find (\<lambda>w. vSlotID w = slotID \<and> vUserID w = actorID) (dbVotes (txDB t)) = None \<Longrightarrow>
     row = firstVote e (ballot tripID actorID slotID optionID) \<Longrightarrow> voteRefs (txDB t) row = Inr () \<Longrightarrow>
     findRow vID (vID row) (dbVotes (txDB t)) = None \<Longrightarrow>
     VotePayload (eText e) row (maskFor OpVoteSet []) = Inr p \<Longrightarrow>
     t1 = voteTable (\<lambda>rows. rows @ [row]) t \<Longrightarrow>
     t' = pushOp (loggedOp e tripID actorID OpVoteSet (vID row) (maskFor OpVoteSet []) p t1) t1 \<Longrightarrow>
     planStep e tripID actorID t t'"
| voteRecast:
    "checkSlotInTrip tripID slotID (txDB t) = Inr () \<Longrightarrow>
     find (\<lambda>w. vSlotID w = slotID \<and> vUserID w = actorID) (dbVotes (txDB t)) = Some w \<Longrightarrow>
     row = castAgain e optionID w \<Longrightarrow> voteRefs (txDB t) row = Inr () \<Longrightarrow>
     VotePayload (eText e) row (maskFor OpVoteSet []) = Inr p \<Longrightarrow>
     t1 = voteTable (updRow vID (vID w) (\<lambda>_. row)) t \<Longrightarrow>
     t' = pushOp (loggedOp e tripID actorID OpVoteSet (vID row) (maskFor OpVoteSet []) p t1) t1 \<Longrightarrow>
     planStep e tripID actorID t t'"
| commentCreated:
    "checkSlotInTrip tripID slotID (txDB t) = Inr () \<Longrightarrow>
     row = newComment e tripID actorID slotID inp \<Longrightarrow>
     findRow cID (cID row) (dbComments (txDB t)) = None \<Longrightarrow>
     CommentPayload (eText e) row (maskFor OpCommentCreate []) = Inr p \<Longrightarrow>
     t1 = commentTable (\<lambda>rows. rows @ [row]) t \<Longrightarrow>
     t' = pushOp (loggedOp e tripID actorID OpCommentCreate (cID row) (maskFor OpCommentCreate []) p t1) t1 \<Longrightarrow>
     planStep e tripID actorID t t'"
| commentDeleted:
    "findRow cID i (dbComments (txDB t)) = Some row \<Longrightarrow> cDeletedAt row = None \<Longrightarrow> cTripID row = tripID \<Longrightarrow>
     cAuthorID row = Some actorID \<Longrightarrow>
     CommentPayload (eText e) (row\<lparr>cDeletedAt := Some (eNow e), cUpdatedAt := eNow e\<rparr>)
       (maskFor OpCommentDelete [FieldDeletedAt]) = Inr p \<Longrightarrow>
     t1 = commentTable (updRow cID i (setCommentDeleted e)) t \<Longrightarrow>
     t' = pushOp (loggedOp e tripID actorID OpCommentDelete i (maskFor OpCommentDelete [FieldDeletedAt]) p t1) t1 \<Longrightarrow>
     planStep e tripID actorID t t'"
| entryCreated:
    "b = (inputEntry inp tripID (orNewID e (biID inp)))\<lparr>bCreatedBy := Some actorID, bVersion := 0\<rparr> \<Longrightarrow>
     BudgetService_validate tripID b (txDB t) = Inr () \<Longrightarrow>
     BudgetRepository_Save e b (txDB t) = Inr (row, db') \<Longrightarrow>
     BudgetPayload (eText e) row (maskFor OpBudgetSet []) = Inr p \<Longrightarrow> t1 = t\<lparr>txDB := db'\<rparr> \<Longrightarrow>
     t' = pushOp (loggedOp e tripID actorID OpBudgetSet (bID row) (maskFor OpBudgetSet []) p t1) t1 \<Longrightarrow>
     planStep e tripID actorID t t'"
| entryUpdated:
    "findRow bID i (dbBudgets (txDB t)) = Some old \<Longrightarrow> bDeletedAt old = None \<Longrightarrow> bTripID old = tripID \<Longrightarrow>
     b = (inputEntry inp tripID i)\<lparr>bCreatedBy := bCreatedBy old, bCreatedAt := bCreatedAt old, bVersion := v\<rparr> \<Longrightarrow>
     BudgetService_validate tripID b (txDB t) = Inr () \<Longrightarrow>
     BudgetRepository_Save e b (txDB t) = Inr (row, db') \<Longrightarrow>
     BudgetPayload (eText e) row (maskFor OpBudgetSet []) = Inr p \<Longrightarrow> t1 = t\<lparr>txDB := db'\<rparr> \<Longrightarrow>
     t' = pushOp (loggedOp e tripID actorID OpBudgetSet (bID row) (maskFor OpBudgetSet []) p t1) t1 \<Longrightarrow>
     planStep e tripID actorID t t'"
| entryDeleted:
    "findRow bID i (dbBudgets (txDB t)) = Some row \<Longrightarrow> bDeletedAt row = None \<Longrightarrow> bTripID row = tripID \<Longrightarrow>
     bVersion row = versionArg v \<Longrightarrow>
     BudgetPayload (eText e)
       ((readEntry row)\<lparr>bDeletedAt := Some (eNow e), bUpdatedAt := eNow e, bVersion := bVersion row + 1\<rparr>)
       (maskFor OpBudgetDelete [FieldDeletedAt]) = Inr p \<Longrightarrow>
     t1 = budgetTable (updRow bID i (setBudgetDeleted e (eNow e))) t \<Longrightarrow>
     t' = pushOp (loggedOp e tripID actorID OpBudgetDelete i (maskFor OpBudgetDelete [FieldDeletedAt]) p t1) t1 \<Longrightarrow>
     planStep e tripID actorID t t'"

inductive_cases planStepE: "planStep e tripID actorID t t'"

section \<open>Relational integrity\<close>

text \<open>What the primary keys, the composite foreign keys and the unique index of votes guarantee: rows are
  known by their identifier, options, votes and comments lie in the trip of their slot, and a member
  has one vote per slot.\<close>

definition anchored :: "DB \<Rightarrow> bool" where
  "anchored db \<longleftrightarrow>
     (\<forall>x \<in> set (dbOptions db). slotInTrip db (oSlotID x) (oTripID x)) \<and>
     (\<forall>v \<in> set (dbVotes db). slotInTrip db (vSlotID v) (vTripID v)) \<and>
     (\<forall>c \<in> set (dbComments db). slotInTrip db (cSlotID c) (cTripID c))"

definition relational :: "DB \<Rightarrow> bool" where
  "relational db \<longleftrightarrow>
     distinct (map sID (dbSlots db)) \<and> distinct (map dID (dbDays db)) \<and> distinct (map oID (dbOptions db)) \<and>
     distinct (map vID (dbVotes db)) \<and> distinct (map cID (dbComments db)) \<and> distinct (map bID (dbBudgets db)) \<and>
     distinct (map (\<lambda>v. (vSlotID v, vUserID v)) (dbVotes db)) \<and> anchored db"

lemma findRow_mem: "distinct (map key rows) \<Longrightarrow> r \<in> set rows \<Longrightarrow> findRow key (key r) rows = Some r"
  by (induction rows) (auto simp: findRow_def)

lemma row_unique: "distinct (map key rows) \<Longrightarrow> x \<in> set rows \<Longrightarrow> y \<in> set rows \<Longrightarrow> key x = key y \<Longrightarrow> x = y"
  unfolding distinct_map by (elim conjE, erule (2) inj_onD [rotated])

lemma slotInTrip_findRow:
  "distinct (map sID (dbSlots db)) \<Longrightarrow>
     slotInTrip db i tripID \<longleftrightarrow> (\<exists>s. findRow sID i (dbSlots db) = Some s \<and> sTripID s = tripID)"
  by (auto simp: slotInTrip_def list_ex_iff dest: findRow_mem findRow_key)

definition slotsKept :: "Slot list \<Rightarrow> Slot list \<Rightarrow> bool" where
  "slotsKept rows rows' \<longleftrightarrow> (\<lambda>s. (sID s, sTripID s)) ` set rows \<subseteq> (\<lambda>s. (sID s, sTripID s)) ` set rows'"

lemma slotInTrip_iff: "slotInTrip db i tripID \<longleftrightarrow> (i, tripID) \<in> (\<lambda>s. (sID s, sTripID s)) ` set (dbSlots db)"
  by (auto simp: slotInTrip_def list_ex_iff)

lemma slotsKept_simps [simp]: "slotsKept rows rows" "slotsKept rows (rows @ rows1)"
  by (auto simp: slotsKept_def)

lemma slotsKept_updRow:
  assumes "\<And>r. sID (f r) = sID r \<and> sTripID (f r) = sTripID r"
  shows "slotsKept rows (updRow sID i f rows)"
  unfolding slotsKept_def
proof
  fix k assume "k \<in> (\<lambda>s. (sID s, sTripID s)) ` set rows"
  then obtain s where s: "s \<in> set rows" "k = (sID s, sTripID s)" by blast
  then show "k \<in> (\<lambda>s. (sID s, sTripID s)) ` set (updRow sID i f rows)"
    using assms [of s] by (intro image_eqI [of _ _ "if sID s = i then f s else s"]) (simp_all add: updRow_def)
qed

lemma anchored_grows:
  assumes "anchored db" "dbOptions db' = dbOptions db" "dbVotes db' = dbVotes db" "dbComments db' = dbComments db"
    and "slotsKept (dbSlots db) (dbSlots db')"
  shows "anchored db'"
proof -
  have "slotInTrip db' i tripID" if "slotInTrip db i tripID" for i tripID
    using that subsetD [OF assms(5) [unfolded slotsKept_def]] by (simp add: slotInTrip_iff)
  then show ?thesis using assms(1) unfolding anchored_def assms(2-4) by simp
qed

lemma slotInTrip_cong: "dbSlots db' = dbSlots db \<Longrightarrow> slotInTrip db' = slotInTrip db"
  by (simp add: slotInTrip_def fun_eq_iff)

lemma checkSlotInTrip_anchor: "checkSlotInTrip tripID i db = Inr () \<Longrightarrow> slotInTrip db i tripID"
  by (auto simp: checkSlotInTrip_Inr slotInTrip_def list_ex_iff dest: findRow_key)

lemmas setClause_defs = setSlot_def setSlotPlace_def setSlotSelected_def setSlotStatus_def setSlotDeleted_def
  setDay_def setDayDeleted_def setOption_def setOptionDeleted_def setBudget_def setBudgetDeleted_def
  setCommentDeleted_def castAgain_def

lemma relational_slots:
  assumes "relational db" "dbSlots db' = g (dbSlots db)" "dbDays db' = dbDays db" "dbOptions db' = dbOptions db"
    "dbVotes db' = dbVotes db" "dbComments db' = dbComments db" "dbBudgets db' = dbBudgets db"
    and "distinct (map sID (g (dbSlots db)))" "slotsKept (dbSlots db) (g (dbSlots db))"
  shows "relational db'"
  using assms anchored_grows [of db db'] by (simp add: relational_def)

lemma relational_pushOp [simp]: "relational (txDB (pushOp op t)) = relational (txDB t)"
  by (simp add: relational_def anchored_def slotInTrip_def)

lemma slotWrite_relational:
  assumes "slotWrite e tripID actorID kind msk i v row f s t t'" "relational (txDB t)"
    and "\<And>r. sID (f r) = sID r \<and> sTripID (f r) = sTripID r"
  shows "relational (txDB t')"
proof -
  have "distinct (map sID (updRow sID i f (dbSlots (txDB t))))"
    using assms(2,3) by (simp add: relational_def map_key_updRow)
  then have "relational (txDB (slotTable (updRow sID i f) t))"
    using slotsKept_updRow [OF assms(3)]
    by (intro relational_slots [OF assms(2), of _ "updRow sID i f"]) (simp_all add: slotTable_def)
  then show ?thesis using assms(1) by (auto simp: slotWrite_def)
qed

lemma dayWrite_relational:
  assumes "dayWrite e tripID actorID kind msk i v row f s t t'" "relational (txDB t)" "\<And>r. dID (f r) = dID r"
  shows "relational (txDB t')"
  using assms by (auto simp: dayWrite_def dayTable_def relational_def anchored_def slotInTrip_def map_key_updRow)

lemma optionWrite_relational:
  assumes "optionWrite e tripID actorID kind msk i v row f s t t'" "relational (txDB t)"
    and "\<And>r. oID (f r) = oID r \<and> oSlotID (f r) = oSlotID r \<and> oTripID (f r) = oTripID r"
  shows "relational (txDB t')"
proof -
  have "distinct (map oID (updRow oID i f (dbOptions (txDB t))))"
    using assms(2,3) by (simp add: relational_def map_key_updRow)
  then have "relational (txDB (optionTable (updRow oID i f) t))" using assms(2,3)
    by (auto simp: optionTable_def relational_def anchored_def slotInTrip_def updRow_def)
  then show ?thesis using assms(1) by (auto simp: optionWrite_def)
qed

lemma setClauses_keep [simp]:
  "sID (setSlot e x r) = sID r" "sTripID (setSlot e x r) = sTripID r"
  "sID (setSlotPlace e dayID position ts r) = sID r" "sTripID (setSlotPlace e dayID position ts r) = sTripID r"
  "sID (setSlotSelected e optionID ts r) = sID r" "sTripID (setSlotSelected e optionID ts r) = sTripID r"
  "sID (setSlotStatus e status by ts r) = sID r" "sTripID (setSlotStatus e status by ts r) = sTripID r"
  "sID (setSlotDeleted e ts r) = sID r" "sTripID (setSlotDeleted e ts r) = sTripID r"
  "dID (setDay e d q) = dID q" "dTripID (setDay e d q) = dTripID q"
  "dID (setDayDeleted e ts q) = dID q" "dTripID (setDayDeleted e ts q) = dTripID q"
  "oID (setOption e y o1) = oID o1" "oTripID (setOption e y o1) = oTripID o1" "oSlotID (setOption e y o1) = oSlotID o1"
  "oID (setOptionDeleted e ts o1) = oID o1" "oTripID (setOptionDeleted e ts o1) = oTripID o1"
  "oSlotID (setOptionDeleted e ts o1) = oSlotID o1"
  "bID (setBudget e b b1) = bID b1" "bTripID (setBudget e b b1) = bTripID b1"
  "bID (setBudgetDeleted e ts b1) = bID b1" "bTripID (setBudgetDeleted e ts b1) = bTripID b1"
  "cID (setCommentDeleted e c) = cID c" "cTripID (setCommentDeleted e c) = cTripID c"
  "cSlotID (setCommentDeleted e c) = cSlotID c"
  "vID (castAgain e optionID w) = vID w" "vTripID (castAgain e optionID w) = vTripID w"
  "vSlotID (castAgain e optionID w) = vSlotID w" "vUserID (castAgain e optionID w) = vUserID w"
  by (simp_all add: setClause_defs)

text \<open>A save touches one row, under the identifier it was given.\<close>

lemma Save_row:
  assumes "BudgetRepository_Save e b db = Inr (row, db')"
  shows "bID row = bID b"
proof (cases "bVersion b = 0")
  case True
  then have "bID row = bID ((newBudgetRow e b)\<lparr>bSplits := bSplits row\<rparr>)"
    using BudgetRepository_Save_Inr [OF assms] by simp
  then show ?thesis by (simp add: newBudgetRow_def)
next
  case False
  then obtain old where o: "findRow bID (bID b) (dbBudgets db) = Some old" and "row = (setBudget e b old)\<lparr>bSplits := bSplits row\<rparr>"
    using BudgetRepository_Save_Inr [OF assms] by auto
  then have "bID row = bID ((setBudget e b old)\<lparr>bSplits := bSplits row\<rparr>)" "bID old = bID b"
    using findRow_key [OF o] by simp_all
  then show ?thesis by simp
qed

lemma Save_table:
  assumes "BudgetRepository_Save e b db = Inr (row, db')"
  shows "db' = db\<lparr>dbBudgets := dbBudgets db'\<rparr>"
    "findRow bID (bID b) (dbBudgets db) = None \<and> dbBudgets db' = dbBudgets db @ [row] \<or>
     dbBudgets db' = updRow bID (bID b) (\<lambda>_. row) (dbBudgets db)"
  using BudgetRepository_Save_Inr [OF assms] by (auto split: if_splits)

lemma Save_relational:
  assumes "BudgetRepository_Save e b db = Inr (row, db')" "relational db"
  shows "relational db'"
proof -
  have "map bID (updRow bID (bID b) (\<lambda>_. row) (dbBudgets db)) = map bID (dbBudgets db)"
    using Save_row [OF assms(1)] by (simp add: updRow_def)
  then have "distinct (map bID (dbBudgets db'))"
    using Save_table(2) [OF assms(1)] Save_row [OF assms(1)] assms(2) by (auto simp: relational_def findRow_None)
  then show ?thesis using assms(2) by (subst Save_table(1) [OF assms(1)]) (simp add: relational_def anchored_def slotInTrip_def)
qed

lemma relational_step: "planStep e tripID actorID t t' \<Longrightarrow> relational (txDB t) \<Longrightarrow> relational (txDB t')"
proof (induction rule: planStep.induct)
  case (slotCreated inp position row t p t1 t')
  have "distinct (map sID (dbSlots (txDB t) @ [row]))"
    using slotCreated.hyps(4) slotCreated.prems by (simp add: relational_def findRow_None)
  then have "relational (txDB t1)"
    using slotCreated.hyps(6) by (intro relational_slots [OF slotCreated.prems, of _ "\<lambda>rows. rows @ [row]"])
      (simp_all add: slotTable_def)
  then show ?case using slotCreated.hyps(7) by simp
next
  case (dayCreated row inp position t p t1 t')
  then show ?case by (simp add: dayTable_def relational_def findRow_None anchored_def slotInTrip_def)
next
  case (optionCreated slotID t row inp p t1 t')
  then have "slotInTrip (txDB t) (oSlotID row) (oTripID row)"
    using checkSlotInTrip_anchor by (simp add: newOptionRow_def draftOption_def)
  then show ?case using optionCreated
    by (simp add: optionTable_def relational_def findRow_None anchored_def slotInTrip_def)
next
  case (firstVoteCast slotID t row optionID p t1 t')
  then have "slotInTrip (txDB t) (vSlotID row) (vTripID row)" "vSlotID row = slotID" "vUserID row = actorID"
    using checkSlotInTrip_anchor by (simp_all add: firstVote_def ballot_def)
  then show ?case using firstVoteCast
    by (auto simp: voteTable_def relational_def findRow_None anchored_def slotInTrip_def find_None_iff)
next
  case (voteRecast slotID t w row optionID p t1 t')
  have w: "w \<in> set (dbVotes (txDB t))" using find_SomeD [OF voteRecast.hyps(2)] by simp
  have u: "x = w" if "x \<in> set (dbVotes (txDB t))" "vID x = vID w" for x
    using voteRecast.prems w that by (intro row_unique [of vID "dbVotes (txDB t)"]) (simp_all add: relational_def)
  let ?g = "updRow vID (vID w) (\<lambda>_. row)"
  have m: "map vID (?g (dbVotes (txDB t))) = map vID (dbVotes (txDB t))"
    "map (\<lambda>v. (vSlotID v, vUserID v)) (?g (dbVotes (txDB t))) = map (\<lambda>v. (vSlotID v, vUserID v)) (dbVotes (txDB t))"
    using u voteRecast.hyps(3) by (auto simp: updRow_def)
  have "slotInTrip (txDB t) (vSlotID x) (vTripID x)" if "x \<in> set (?g (dbVotes (txDB t)))" for x
    using that voteRecast.prems w voteRecast.hyps(3)
    by (auto simp: updRow_def relational_def anchored_def split: if_splits)
  then show ?case using voteRecast.prems m voteRecast.hyps(6,7)
    by (simp add: voteTable_def relational_def anchored_def slotInTrip_def)
next
  case (commentCreated slotID t row inp p t1 t')
  then have "slotInTrip (txDB t) (cSlotID row) (cTripID row)"
    using checkSlotInTrip_anchor by (simp add: newComment_def)
  then show ?case using commentCreated
    by (simp add: commentTable_def relational_def findRow_None anchored_def slotInTrip_def)
next
  case (commentDeleted i t row p t1 t')
  have "distinct (map cID (updRow cID i (setCommentDeleted e) (dbComments (txDB t))))"
    using commentDeleted.prems by (simp add: relational_def map_key_updRow)
  moreover have "\<forall>c \<in> set (updRow cID i (setCommentDeleted e) (dbComments (txDB t))). slotInTrip (txDB t) (cSlotID c) (cTripID c)"
    using commentDeleted.prems by (auto simp: relational_def anchored_def updRow_def)
  ultimately show ?case using commentDeleted.prems commentDeleted.hyps(6,7)
    by (simp add: commentTable_def relational_def anchored_def slotInTrip_def)
next
  case (entryCreated b inp t row db' p t1 t')
  then show ?case using Save_relational [OF entryCreated.hyps(3) entryCreated.prems] by simp
next
  case (entryUpdated i t old b inp v row db' p t1 t')
  then show ?case using Save_relational [OF entryUpdated.hyps(6) entryUpdated.prems] by simp
next
  case (entryDeleted i t row v p t1 t')
  then show ?case
    by (simp add: budgetTable_def relational_def map_key_updRow anchored_def slotInTrip_def)
qed (auto elim!: slotWrite_relational dayWrite_relational optionWrite_relational)

section \<open>Every body is one or two steps\<close>

lemma clearSelection_steps:
  assumes "clearSelection e tripID actorID slotID optionID t = Inr (u, t')" "slotInTrip (txDB t) slotID tripID"
    and "relational (txDB t)"
  shows "t' = t \<or> planStep e tripID actorID t t'"
proof -
  obtain slot where slot: "findRow sID slotID (dbSlots (txDB t)) = Some slot" "sDeletedAt slot = None"
    and c: "sSelectedOptionID slot = Some optionID \<Longrightarrow> sVersion slot = versionArg (sVersion slot) \<and>
        slotChecks (setSlotSelected e None (eNow e) slot) = Inr () \<and>
       FieldMask_Validate (maskFor OpSlotSelectOption [FieldSelectedOptionID]) OpSlotSelectOption = Inr () \<and>
       (\<exists>p. SlotPayload (eText e) (setSlotSelected e None (eNow e) slot)
              (maskFor OpSlotSelectOption [FieldSelectedOptionID]) = Inr p \<and>
          t' = pushOp (loggedOp e tripID actorID OpSlotSelectOption slotID
                 (maskFor OpSlotSelectOption [FieldSelectedOptionID]) p
                 (slotTable (updRow sID slotID (setSlotSelected e None (eNow e))) t))
               (slotTable (updRow sID slotID (setSlotSelected e None (eNow e))) t))"
    and n: "sSelectedOptionID slot \<noteq> Some optionID \<Longrightarrow> t' = t"
    using clearSelection_Inr [OF assms(1)] by auto
  have "sTripID slot = tripID"
    using assms(2,3) slot(1) by (auto simp: slotInTrip_findRow relational_def)
  then have "slotWrite e tripID actorID OpSlotSelectOption (maskFor OpSlotSelectOption [FieldSelectedOptionID]) slotID
      (sVersion slot) slot (setSlotSelected e None (eNow e)) (setSlotSelected e None (eNow e) slot) t t'"
    if "sSelectedOptionID slot = Some optionID"
    using slot c [OF that] by (simp add: slotWrite_def)
  moreover have "slotOptionFK (txDB t) (setSlotSelected e None (eNow e) slot) = Inr ()"
    by (simp add: slotOptionFK_def setSlotSelected_def)
  ultimately show ?thesis using n slotSelected by blast
qed

text \<open>The steps of a body: one, or for the deletion of a selected option two.\<close>

definition bodySteps :: "Env \<Rightarrow> ID \<Rightarrow> ID \<Rightarrow> Tx \<Rightarrow> Tx \<Rightarrow> bool" where
  "bodySteps e tripID actorID t t' \<longleftrightarrow>
     planStep e tripID actorID t t' \<or> (\<exists>t1. planStep e tripID actorID t t1 \<and> planStep e tripID actorID t1 t')"

lemma deleteOption_steps:
  assumes "deleteOptionBody e tripID actorID i v t = Inr (u, t')" "relational (txDB t)"
  shows "bodySteps e tripID actorID t t'"
proof -
  obtain row t1 where w: "optionWrite e tripID actorID OpOptionDelete (maskFor OpOptionDelete [FieldDeletedAt]) i
      (versionOrCurrent v (oVersion row)) row (setOptionDeleted e (eNow e))
      (row\<lparr>oDeletedAt := Some (eNow e), oUpdatedAt := eNow e, oVersion := oVersion row + 1\<rparr>) t t1"
    and c: "clearSelection e tripID actorID (oSlotID row) i t1 = Inr (u, t')"
    using deleteOptionBody_Inr [OF assms(1)] by blast
  have s: "planStep e tripID actorID t t1" by (rule optionDeleted [OF refl w])
  have r: "findRow oID i (dbOptions (txDB t)) = Some row" "oTripID row = tripID" "dbSlots (txDB t1) = dbSlots (txDB t)"
    using w by (auto simp: optionWrite_def optionTable_def)
  then have "slotInTrip (txDB t) (oSlotID row) tripID"
    using assms(2) findRow_key [OF r(1)] by (auto simp: relational_def anchored_def)
  then have "slotInTrip (txDB t1) (oSlotID row) tripID" using r(3) by (simp add: slotInTrip_def)
  then show ?thesis
    using clearSelection_steps [OF c] relational_step [OF s assms(2)] s by (auto simp: bodySteps_def)
qed

lemma castVote_steps:
  assumes "castVoteBody e tripID actorID actorID slotID optionID t = Inr (row, t')"
  shows "planStep e tripID actorID t t'"
proof -
  obtain slot g p where s: "findRow sID slotID (dbSlots (txDB t)) = Some slot" "sDeletedAt slot = None" "sTripID slot = tripID"
    and r: "voteRefs (txDB t) row = Inr ()"
      "case find (\<lambda>w. vSlotID w = slotID \<and> vUserID w = actorID) (dbVotes (txDB t)) of
       Some w \<Rightarrow> row = castAgain e optionID w \<and> g = updRow vID (vID w) (\<lambda>_. row)
     | None \<Rightarrow> row = firstVote e (ballot tripID actorID slotID optionID) \<and>
         findRow vID (eNewID e) (dbVotes (txDB t)) = None \<and> g = (\<lambda>rows. rows @ [row])"
      "VotePayload (eText e) row (maskFor OpVoteSet []) = Inr p"
      "t' = pushOp (loggedOp e tripID actorID OpVoteSet (vID row) (maskFor OpVoteSet []) p (voteTable g t)) (voteTable g t)"
    using castVoteBody_Inr [OF assms] by blast
  have c: "checkSlotInTrip tripID slotID (txDB t) = Inr ()" using s by (simp add: checkSlotInTrip_Inr)
  show ?thesis
  proof (cases "find (\<lambda>w. vSlotID w = slotID \<and> vUserID w = actorID) (dbVotes (txDB t))")
    case None
    then have g: "row = firstVote e (ballot tripID actorID slotID optionID)" "g = (\<lambda>rows. rows @ [row])"
      "findRow vID (vID row) (dbVotes (txDB t)) = None"
      using r(2) by (simp_all add: firstVote_def)
    show ?thesis by (rule firstVoteCast [OF c None g(1) r(1) g(3) r(3) refl]) (simp only: r(4) g(2))
  next
    case (Some w)
    then have g: "row = castAgain e optionID w" "g = updRow vID (vID w) (\<lambda>_. row)" using r(2) by simp_all
    show ?thesis by (rule voteRecast [OF c Some g(1) r(1) r(3) refl]) (simp only: r(4) g(2))
  qed
qed

lemma slot_steps:
  "createSlotBody e tripID actorID inp t = Inr (row, t') \<Longrightarrow> planStep e tripID actorID t t'"
  "updateSlotBody e tripID actorID i msk upd t = Inr (row, t') \<Longrightarrow> planStep e tripID actorID t t'"
  "moveSlotBody e tripID actorID i dayID after v t = Inr (u, t') \<Longrightarrow> planStep e tripID actorID t t'"
  "selectOptionBody e tripID actorID i optionID v t = Inr (u, t') \<Longrightarrow> planStep e tripID actorID t t'"
  "setStatusBody e tripID actorID i status v t = Inr (u, t') \<Longrightarrow> planStep e tripID actorID t t'"
  "deleteSlotBody e tripID actorID i v t = Inr (u, t') \<Longrightarrow> planStep e tripID actorID t t'"
  by (blast dest!: createSlotBody_Inr intro: slotCreated)
    (blast dest!: updateSlotBody_Inr intro: slotEdited, blast dest!: moveSlotBody_Inr intro: slotMoved,
     blast dest!: selectOptionBody_Inr intro: slotSelected, blast dest!: setStatusBody_Inr intro: slotStatusSet,
     blast dest!: deleteSlotBody_Inr intro: slotDeleted)

lemma day_steps:
  "createDayBody e tripID actorID inp t = Inr (row, t') \<Longrightarrow> planStep e tripID actorID t t'"
  "updateDayBody e tripID actorID i msk upd t = Inr (row, t') \<Longrightarrow> planStep e tripID actorID t t'"
  "moveDayBody e tripID actorID i after v t = Inr (u, t') \<Longrightarrow> planStep e tripID actorID t t'"
  "deleteDayBody e tripID actorID i v t = Inr (u, t') \<Longrightarrow> planStep e tripID actorID t t'"
  by (blast dest!: createDayBody_Inr intro: dayCreated)
    (blast dest!: updateDayBody_Inr intro: dayEdited, blast dest!: moveDayBody_Inr intro: dayMoved,
     blast dest!: deleteDayBody_Inr intro: dayDeleted)

lemma proposal_steps:
  "createOptionBody e tripID actorID slotID inp t = Inr (x, t') \<Longrightarrow> planStep e tripID actorID t t'"
  "updateOptionBody e tripID actorID i msk upd t = Inr (x, t') \<Longrightarrow> planStep e tripID actorID t t'"
  "createCommentBody e tripID actorID slotID cinp t = Inr (c, t') \<Longrightarrow> planStep e tripID actorID t t'"
  "deleteCommentBody e tripID actorID i t = Inr (u, t') \<Longrightarrow> planStep e tripID actorID t t'"
  by (blast dest!: createOptionBody_Inr intro: optionCreated)
    (blast dest!: updateOptionBody_Inr intro: optionEdited, blast dest!: createCommentBody_Inr intro: commentCreated,
     blast dest!: deleteCommentBody_Inr intro: commentDeleted)

lemma budget_steps:
  "createBudgetBody e tripID actorID inp t = Inr (b, t') \<Longrightarrow> planStep e tripID actorID t t'"
  "updateBudgetBody e tripID actorID i version inp t = Inr (b, t') \<Longrightarrow> planStep e tripID actorID t t'"
  "deleteBudgetBody e tripID actorID i version t = Inr (u, t') \<Longrightarrow> planStep e tripID actorID t t'"
  by (blast dest!: createBudgetBody_Inr intro: entryCreated)
    (blast dest!: updateBudgetBody_Inr intro: entryUpdated, blast dest!: deleteBudgetBody_Inr intro: entryDeleted)

lemma requestBody_steps:
  assumes "requestBody e tripID userID req t = Inr ((), t')" "relational (txDB t)"
  shows "bodySteps e tripID userID t t'"
  using assms
  by (cases req)
    (auto simp: requestBody_def unitT_Inr bindT_eq_Inr bodySteps_def
      dest: slot_steps day_steps proposal_steps budget_steps castVote_steps
        deleteOption_steps [unfolded bodySteps_def])

section \<open>Invariants of reachable databases\<close>

text \<open>A request is no change, or one or two steps: what the steps keep, the request keeps.\<close>

lemma serve_invariant:
  assumes "serve e tripID userID req db = (res, db', ops)" "relational db" "P db"
    and step: "\<And>t t'. relational (txDB t) \<Longrightarrow> planStep e tripID userID t t' \<Longrightarrow> P (txDB t) \<Longrightarrow> P (txDB t')"
  shows "P db'"
proof (cases res)
  case (Inl err)
  then show ?thesis using assms(1,3) serve_sound [of e tripID userID db req] by (auto simp: soundReply_def)
next
  case (Inr u)
  then obtain t where t: "requestBody e tripID userID req \<lparr>txDB = db, txOps = []\<rparr> = Inr ((), t)" "db' = txDB t"
    using serve_body assms(1) by blast
  have "bodySteps e tripID userID \<lparr>txDB = db, txOps = []\<rparr> t"
    using requestBody_steps [OF t(1)] assms(2) by simp
  then show ?thesis
  proof (unfold bodySteps_def, elim disjE exE conjE)
    assume s: "planStep e tripID userID \<lparr>txDB = db, txOps = []\<rparr> t"
    show ?thesis using step [OF _ s] assms(2,3) t(2) by simp
  next
    fix t1 assume s: "planStep e tripID userID \<lparr>txDB = db, txOps = []\<rparr> t1" "planStep e tripID userID t1 t"
    have "relational (txDB t1)" using relational_step [OF s(1)] assms(2) by simp
    then show ?thesis using step [OF _ s(2)] step [OF _ s(1)] assms(2,3) t(2) by simp
  qed
qed

lemma serve_relational: "serve e tripID userID req db = (res, db', ops) \<Longrightarrow> relational db \<Longrightarrow> relational db'"
  by (erule serve_invariant) (auto intro: relational_step)

lemma reachable_relational: "reachable okEnv db \<Longrightarrow> relational db"
  by (induction rule: reachable.induct)
    (auto simp: relational_def anchored_def emptyPlan_def slotInTrip_def dest: serve_relational [unfolded relational_def anchored_def slotInTrip_def])

text \<open>An invariant of the steps is an invariant of the reachable databases.\<close>

lemma reachable_invariant:
  assumes "reachable okEnv db"
    and start: "\<And>db. emptyPlan db \<Longrightarrow> P db"
    and admin: "\<And>db ts ms is. P db \<Longrightarrow> P (db\<lparr>dbTrips := ts, dbMembers := ms, dbInvitations := is\<rparr>)"
    and step: "\<And>e tripID actorID t t'. okEnv e \<Longrightarrow> relational (txDB t) \<Longrightarrow> planStep e tripID actorID t t' \<Longrightarrow>
      P (txDB t) \<Longrightarrow> P (txDB t')"
  shows "P db"
  using assms(1)
proof (induction rule: reachable.induct)
  case (served db e tripID userID req res db' ops)
  show ?case
    by (rule serve_invariant [OF served.hyps(3) reachable_relational [OF served.hyps(1)] served.IH step [OF served.hyps(2)]])
qed (use start admin in auto)

end
