(* ===== verification/Editing.thy ===== *)
theory Editing
  imports Steps
begin

text \<open>What the write handlers of the planning services promise to the member who calls them: a moved slot
  lands where it was dropped, an edit changes exactly the fields of its mask, a version is spent once,
  an option takes its selection with it.\<close>

section \<open>Moving a slot\<close>

abbreviation slotsIn :: "ID \<Rightarrow> ID option \<Rightarrow> DB \<Rightarrow> Slot list" where
  "slotsIn tripID dayID db \<equiv> filter (\<lambda>s. sDayID s = dayID) (SlotRepository_ListForTrip tripID db)"

definition inBucket :: "ID \<Rightarrow> ID option \<Rightarrow> Slot \<Rightarrow> bool" where
  "inBucket tripID dayID s \<longleftrightarrow> sTripID s = tripID \<and> sDayID s = dayID \<and> sDeletedAt s = None"

lemma slotsIn_sort:
  "slotsIn tripID dayID db = sort_key (\<lambda>r. (sPosition r, sID r)) (filter (inBucket tripID dayID) (dbSlots db))"
  by (simp add: SlotRepository_ListForTrip_def listSlots_def filter_sort inBucket_def [abs_def] conj_ac)

lemma set_slotsIn: "set (slotsIn tripID dayID db) = {s \<in> set (dbSlots db). inBucket tripID dayID s}"
  by (auto simp: slotsIn_sort)

lemma SlotService_Move_Inr:
  assumes "SlotService_Move e tripID userID i dayID after v db = (Inr u, db', ops)"
  shows "\<exists>row prev nxt position.
    SlotRepository_NeighbourPositions tripID dayID after db = Inr (prev, nxt) \<and> positionBetween prev nxt = Inr position \<and>
    findRow sID i (dbSlots db) = Some row \<and> sTripID row = tripID \<and> sDeletedAt row = None \<and>
    dbSlots db' = updRow sID i (setSlotPlace e dayID position (eNow e)) (dbSlots db)"
proof -
  obtain a t where t: "moveSlotBody e tripID a i dayID after v \<lparr>txDB = db, txOps = []\<rparr> = Inr (u, t)" "db' = txDB t"
    using assms by (auto simp: SlotService_Move_def guarded_Inr oplog_write_Inr)
  show ?thesis using moveSlotBody_Inr [OF t(1)] t(2) by (fastforce simp: slotWrite_def slotTable_def)
qed

lemma filter_updRow_other:
  "(\<And>r. key (f r) = key r) \<Longrightarrow> filter (\<lambda>r. key r \<noteq> i) (updRow key i f rows) = filter (\<lambda>r. key r \<noteq> i) rows"
  by (induction rows) (auto simp: updRow_def)

lemma slotsIn_others:
  assumes "\<And>r. sID (f r) = sID r" "dbSlots db' = updRow sID i f (dbSlots db)"
  shows "filter (\<lambda>r. sID r \<noteq> i) (slotsIn tripID dayID db') = filter (\<lambda>r. sID r \<noteq> i) (slotsIn tripID dayID db)"
proof -
  have "filter (inBucket tripID dayID) (filter (\<lambda>r. sID r \<noteq> i) (dbSlots db')) =
      filter (inBucket tripID dayID) (filter (\<lambda>r. sID r \<noteq> i) (dbSlots db))"
    unfolding assms(2) by (simp only: filter_updRow_other [of sID f, OF assms(1)])
  then show ?thesis unfolding slotsIn_sort filter_sort by (simp add: conj_commute)
qed

lemma slotsIn_strict:
  assumes "reachable okEnv db"
  shows "sorted_wrt (\<lambda>x y. sPosition x < sPosition y) (slotsIn tripID dayID db)" "distinct (map sID (slotsIn tripID dayID db))"
proof -
  show "sorted_wrt (\<lambda>x y. sPosition x < sPosition y) (slotsIn tripID dayID db)"
    unfolding slotsIn_sort
    using listing_strict [of sID sPosition slotBucket sDeletedAt "dbSlots db" "\<lambda>s. sTripID s = tripID \<and> sDayID s = dayID"]
      reachable_apart [OF assms] by (simp add: itineraryApart_def slotBucket_def inBucket_def [abs_def])
  have "distinct (map sID (filter (inBucket tripID dayID) (dbSlots db)))"
    using reachable_relational [OF assms] by (simp add: relational_def distinct_map_filter)
  then show "distinct (map sID (slotsIn tripID dayID db))" unfolding slotsIn_sort by (simp add: distinct_map)
qed

text \<open>The bound on what lies above the inserted slot.\<close>

lemma inserted_below:
  assumes "reachable okEnv db" "SlotRepository_NeighbourPositions tripID dayID after db = Inr (prev, nxt)"
    and "positionBetween prev nxt = Inr position" "x \<in> set (slotsIn tripID dayID db)" "sPosition x < position"
  shows "sPosition x \<le> prev"
proof -
  have p: "\<forall>x \<in> set (dbSlots db). sPosition x \<noteq> []"
    using reachable_apart [OF assms(1)] by (simp add: itineraryApart_def apart_def)
  have n: "neighbourPositions sPosition sID sDeletedAt (\<lambda>s. sTripID s = tripID \<and> sDayID s = dayID) (dbSlots db) after = Inr (prev, nxt)"
    using assms(2) by (simp add: SlotRepository_NeighbourPositions_def)
  have x: "x \<in> set (dbSlots db)" "sTripID x = tripID \<and> sDayID x = dayID" "sDeletedAt x = None"
    using assms(4) unfolding set_slotsIn inBucket_def by auto
  have "sPosition x \<le> prev \<or> position < sPosition x"
    by (rule neighbourPositions_bracket [OF n _ _ p x]) (use positionBetween_strict [OF assms(3)] in simp_all)
  then show ?thesis using assms(5) by auto
qed

lemma top_is_last:
  fixes f :: "'a \<Rightarrow> 'b::linorder"
  assumes "sorted_wrt (\<lambda>x y. f x < f y) xs" "a \<in> set xs" "\<And>x. x \<in> set xs \<Longrightarrow> f x \<le> f a"
  shows "xs \<noteq> [] \<and> last xs = a"
proof (cases xs rule: rev_cases)
  case (snoc ys y)
  then have "a \<in> set ys \<Longrightarrow> f a < f y" using assms(1) by (auto simp: sorted_wrt_append)
  then show ?thesis using assms(2) assms(3) [of y] snoc by fastforce
qed (use assms(2) in simp)

lemma moved_slot_split:
  assumes "reachable okEnv db" "okEnv e"
    and "SlotService_Move e tripID userID i dayID after v db = (Inr (), db', ops)"
  shows "\<exists>prev nxt s xs ys. SlotRepository_NeighbourPositions tripID dayID after db = Inr (prev, nxt) \<and>
    slotsIn tripID dayID db' = xs @ s # ys \<and> sID s = i \<and> xs @ ys = filter (\<lambda>r. sID r \<noteq> i) (slotsIn tripID dayID db) \<and>
    sorted_wrt (\<lambda>x y. sPosition x < sPosition y) xs \<and> (\<forall>x \<in> set xs. sPosition x \<le> prev) \<and> (\<forall>y \<in> set ys. prev < sPosition y)"
proof -
  obtain row prev nxt position where n: "SlotRepository_NeighbourPositions tripID dayID after db = Inr (prev, nxt)"
      "positionBetween prev nxt = Inr position"
    and row: "findRow sID i (dbSlots db) = Some row" "sTripID row = tripID" "sDeletedAt row = None"
    and db': "dbSlots db' = updRow sID i (setSlotPlace e dayID position (eNow e)) (dbSlots db)"
    using SlotService_Move_Inr [OF assms(3)] by blast
  let ?s = "setSlotPlace e dayID position (eNow e) row"
  note k = positionBetween_strict [OF n(2)]
  have r': "reachable okEnv db'"
    using served [OF assms(1,2), of tripID userID "MoveSlot i dayID after v"] assms(3) by (simp add: serve_def)
  have "findRow sID i (dbSlots db') = Some ?s" using row(1) by (simp add: db' findRow_updRow)
  then have s: "?s \<in> set (dbSlots db')" "sID ?s = i" using findRow_key by fastforce+
  then have "?s \<in> set (slotsIn tripID dayID db')"
    using row unfolding set_slotsIn inBucket_def by (simp add: setSlotPlace_def)
  then obtain xs ys where l: "slotsIn tripID dayID db' = xs @ ?s # ys" by (meson split_list)
  have strict: "\<forall>x \<in> set xs. sPosition x < position" "\<forall>y \<in> set ys. position < sPosition y"
      "sorted_wrt (\<lambda>x y. sPosition x < sPosition y) xs"
    using slotsIn_strict(1) [OF r', where tripID = tripID and dayID = dayID] unfolding l by (auto simp: sorted_wrt_append setSlotPlace_def)
  have o: "\<forall>x \<in> set (xs @ ys). sID x \<noteq> i"
    using slotsIn_strict(2) [OF r', where tripID = tripID and dayID = dayID] s(2) unfolding l by (auto simp: image_iff)
  have e: "xs @ ys = filter (\<lambda>r. sID r \<noteq> i) (slotsIn tripID dayID db)"
    using slotsIn_others [where tripID = tripID and dayID = dayID, OF slotPlace.set_key db'] o s(2)
    unfolding l by simp
  have mem: "set (xs @ ys) \<subseteq> set (slotsIn tripID dayID db)" unfolding e by auto
  have "\<forall>x \<in> set xs. sPosition x \<le> prev" using inserted_below [OF assms(1) n] strict(1) mem by auto
  moreover have "\<forall>y \<in> set ys. prev < sPosition y" using strict(2) k by auto
  ultimately show ?thesis using n(1) l s(2) e strict(3) by blast
qed

text \<open>C32: a moved slot lands exactly where it was dropped: in the new listing of the target day (or of the
  backlog) it stands between two runs of slots, which together are the old listing without it, in the
  old order; dropped at the top nothing stands before it, and dropped behind an anchor of that
  listing the anchor is the slot directly before it.\<close>

theorem moved_slot_behind_anchor:
  assumes "reachable okEnv db" "okEnv e"
    and "SlotService_Move e tripID userID i dayID after v db = (Inr (), db', ops)"
  shows "\<exists>above s below. slotsIn tripID dayID db' = above @ s # below \<and> sID s = i \<and>
    above @ below = filter (\<lambda>r. sID r \<noteq> i) (slotsIn tripID dayID db) \<and>
    (case after of None \<Rightarrow> above = []
     | Some a \<Rightarrow> a \<noteq> i \<and> a \<in> sID ` set (slotsIn tripID dayID db) \<longrightarrow> above \<noteq> [] \<and> sID (last above) = a)"
proof -
  obtain prev nxt s xs ys where n: "SlotRepository_NeighbourPositions tripID dayID after db = Inr (prev, nxt)"
    and l: "slotsIn tripID dayID db' = xs @ s # ys" "sID s = i"
    and e: "xs @ ys = filter (\<lambda>r. sID r \<noteq> i) (slotsIn tripID dayID db)"
    and x: "sorted_wrt (\<lambda>x y. sPosition x < sPosition y) xs" "\<forall>x \<in> set xs. sPosition x \<le> prev" "\<forall>y \<in> set ys. prev < sPosition y"
    using moved_slot_split [OF assms] by blast
  have mem: "set (xs @ ys) \<subseteq> set (slotsIn tripID dayID db)" unfolding e by auto
  have "case after of None \<Rightarrow> xs = []
     | Some a \<Rightarrow> a \<noteq> i \<and> a \<in> sID ` set (slotsIn tripID dayID db) \<longrightarrow> xs \<noteq> [] \<and> sID (last xs) = a"
  proof (cases after)
    case None
    then have "prev = []" using n by (auto simp: SlotRepository_NeighbourPositions_def neighbourPositions_def Let_def)
    moreover have "sPosition x \<noteq> []" if "x \<in> set xs" for x
      using that mem reachable_apart [OF assms(1)] unfolding set_slotsIn by (auto simp: itineraryApart_def apart_def)
    ultimately have "xs = []" using x(2) by (cases xs) auto
    then show ?thesis using None by simp
  next
    case (Some a)
    have "xs \<noteq> [] \<and> sID (last xs) = a" if a: "a \<noteq> i" "a \<in> sID ` set (slotsIn tripID dayID db)"
    proof -
      obtain anchor where an: "anchor \<in> set (slotsIn tripID dayID db)" "sID anchor = a" using a(2) by blast
      then have "findRow sID a (dbSlots db) = Some anchor"
        using findRow_mem [of sID "dbSlots db" anchor] reachable_relational [OF assms(1)]
        unfolding set_slotsIn by (simp add: relational_def)
      then have p: "prev = sPosition anchor"
        using n Some by (auto simp: SlotRepository_NeighbourPositions_def neighbourPositions_def Let_def sum_cases getLive_Inr)
      have "anchor \<in> set (xs @ ys)" unfolding e using an a(1) by auto
      then have "anchor \<in> set xs" using x(3) p by auto
      then show ?thesis using top_is_last [OF x(1)] x(2) p an(2) by blast
    qed
    then show ?thesis using Some by simp
  qed
  then show ?thesis using l e by blast
qed

definition sampleSlotInput :: "ID \<Rightarrow> ID option \<Rightarrow> CreateSlotInput" where
  "sampleSlotInput i after = \<lparr>csDayID = None, csKind = ''note'', csTitle = ''Goa'', csNotes = [],
     csStartTime = None, csEndTime = None, csAfterSlotID = after, csID = i\<rparr>"

definition laterEnv :: "nat \<Rightarrow> Env" where
  "laterEnv n = sampleEnv\<lparr>eClientOpID := None, eOpID := (\<lambda>k. of_nat (100 * n + k))\<rparr>"

text \<open>Two slots in the backlog, the second above the first.\<close>

definition sampleBacklog :: DB where
  "sampleBacklog = fst (snd (serve (laterEnv 2) 1 3 (CreateSlot (sampleSlotInput 8 None))
     (fst (snd (serve (laterEnv 1) 1 3 (CreateSlot (sampleSlotInput 7 None)) sampleDB)))))"

lemma reachable_serve: "reachable okEnv db \<Longrightarrow> okEnv e \<Longrightarrow> reachable okEnv (fst (snd (serve e tripID userID req db)))"
  by (cases "serve e tripID userID req db") (auto intro: served)

lemma sampleBacklog_reachable: "reachable (\<lambda>_. True) sampleBacklog"
  unfolding sampleBacklog_def by (intro reachable_serve sample_reachable) simp_all

lemma sampleBacklog_move:
  "let db = sampleBacklog in
     fst (SlotService_Move (laterEnv 3) 1 3 8 None (Some 7) None db) = Inr () \<and> map sID (slotsIn 1 None db) = [8, 7]"
  by code_simp

theorem moved_slot_behind_anchor_witness:
  "\<exists>db' ops above s below. SlotService_Move (laterEnv 3) 1 3 8 None (Some 7) None sampleBacklog = (Inr (), db', ops) \<and>
     slotsIn 1 None db' = above @ s # below \<and> sID s = 8 \<and> above \<noteq> [] \<and> sID (last above) = 7"
proof (cases "SlotService_Move (laterEnv 3) 1 3 8 None (Some 7) None sampleBacklog")
  case (fields res db' ops)
  then have r: "SlotService_Move (laterEnv 3) 1 3 8 None (Some 7) None sampleBacklog = (Inr (), db', ops)"
    and l: "map sID (slotsIn 1 None sampleBacklog) = [8, 7]"
    using sampleBacklog_move by (simp_all add: Let_def)
  have "(7 :: ID) \<in> set (map sID (slotsIn 1 None sampleBacklog))" unfolding l by simp
  then have a: "(7 :: ID) \<in> sID ` set (slotsIn 1 None sampleBacklog)" by (simp only: list.set_map)
  show ?thesis
    using moved_slot_behind_anchor [OF sampleBacklog_reachable TrueI r] r a by simp metis
qed

section \<open>Editing the fields of a slot\<close>

lemma distinct_remdups_adj: "sorted xs \<Longrightarrow> distinct (remdups_adj xs)"
  by (induction xs rule: remdups_adj.induct) auto

lemma NewFieldMask_idem [simp]: "NewFieldMask (NewFieldMask flds) = NewFieldMask flds"
proof -
  have "sort (remdups_adj (sort flds)) = remdups_adj (sort flds)" by (simp add: sort_key_id_if_sorted)
  moreover have "remdups_adj (remdups_adj (sort flds)) = remdups_adj (sort flds)"
    by (intro remdups_adj_distinct distinct_remdups_adj) simp
  ultimately show ?thesis by (simp add: NewFieldMask_def)
qed

lemma NewFieldMask_Nil [simp]: "NewFieldMask flds = [] \<longleftrightarrow> flds = []"
  unfolding NewFieldMask_def by (metis remdups_adj_Nil_iff set_empty2 set_sort)

lemma maskFor_idem [simp]: "maskFor kind (maskFor kind flds) = maskFor kind flds"
  by (simp add: maskFor_def)

text \<open>C33: a slot edit changes exactly what its mask names: kind, title, notes and the two times take the
  given value when masked and keep the old one otherwise, the version goes up by one, and nothing else
  of the row and no other row changes. The one operation it logs carries the resolved mask. An explicit
  version that is not the row's is refused, and so is an unknown or foreign slot.\<close>

theorem slot_edit_exact:
  assumes "SlotService_Update e tripID userID i inp db = (Inr r, db', ops)"
  shows "\<exists>row. findRow sID i (dbSlots db) = Some row \<and> sTripID row = tripID \<and> sDeletedAt row = None \<and>
    sVersion row = versionArg (versionOrCurrent (usVersion inp) (sVersion row)) \<and>
    r = (let msk = maskFor OpSlotEdit (usFields inp) in row
      \<lparr>sKind := (if Has msk FieldKind then usKind inp else sKind row),
       sTitle := (if Has msk FieldTitle then usTitle inp else sTitle row),
       sNotes := (if Has msk FieldNotes then usNotes inp else sNotes row),
       sStartTime := (if Has msk FieldStartTime then usStartTime inp else sStartTime row),
       sEndTime := (if Has msk FieldEndTime then usEndTime inp else sEndTime row),
       sVersion := sVersion row + 1, sUpdatedAt := eTimestamp e (eWall e)\<rparr>) \<and>
    (\<lambda>j. findRow sID j (dbSlots db')) = (\<lambda>j. findRow sID j (dbSlots db))(i \<mapsto> r) \<and>
    map (\<lambda>op. (opKind op, opEntityID op, opFields op)) ops = [(OpSlotEdit, i, maskFor OpSlotEdit (usFields inp))]"
proof -
  let ?m = "maskFor OpSlotEdit (usFields inp)"
  obtain a t where t: "updateSlotBody e tripID a i ?m inp \<lparr>txDB = db, txOps = []\<rparr> = Inr (r, t)" "db' = txDB t" "ops = txOps t"
    using assms by (auto simp: SlotService_Update_def guarded_Inr oplog_write_Inr Let_def)
  obtain row where v: "Slot_Validate (mergeSlot ?m inp tripID i row) = Inr ()"
    and r: "r = setSlot e (mergeSlot ?m inp tripID i row) row"
    and w: "slotWrite e tripID a OpSlotEdit (maskFor OpSlotEdit ?m) i (versionOrCurrent (usVersion inp) (sVersion row))
      row (setSlot e (mergeSlot ?m inp tripID i row)) r \<lparr>txDB = db, txOps = []\<rparr> t"
    using updateSlotBody_Inr [OF t(1)] by blast
  have times: "\<not> timeInvalid (sStartTime (mergeSlot ?m inp tripID i row))" "\<not> timeInvalid (sEndTime (mergeSlot ?m inp tripID i row))"
    using v by (auto simp: Slot_Validate_iff)
  have row: "findRow sID i (dbSlots db) = Some row" using w by (simp add: slotWrite_def)
  have e: "setSlot e (mergeSlot ?m inp tripID i row) row = row
      \<lparr>sKind := (if Has ?m FieldKind then usKind inp else sKind row),
       sTitle := (if Has ?m FieldTitle then usTitle inp else sTitle row),
       sNotes := (if Has ?m FieldNotes then usNotes inp else sNotes row),
       sStartTime := (if Has ?m FieldStartTime then usStartTime inp else sStartTime row),
       sEndTime := (if Has ?m FieldEndTime then usEndTime inp else sEndTime row),
       sVersion := sVersion row + 1, sUpdatedAt := eTimestamp e (eWall e)\<rparr>"
    using times by (simp add: setSlot_def) (simp add: mergeSlot_def)
  have db': "dbSlots db' = updRow sID i (setSlot e (mergeSlot ?m inp tripID i row)) (dbSlots db)"
    using w t(2) by (auto simp: slotWrite_def slotTable_def)
  have "(\<lambda>j. findRow sID j (dbSlots db')) = (\<lambda>j. findRow sID j (dbSlots db))(i \<mapsto> r)"
    unfolding db' using row r by (auto simp: findRow_updRow slotEdit.set_key)
  then show ?thesis using w t(3) row r e
    by (intro exI [of _ row]) (auto simp: slotWrite_def slotTable_def Let_def)
qed

definition sampleSlot7 :: Slot where
  "sampleSlot7 = zeroSlot\<lparr>sID := 7, sTripID := 1, sKind := ''note'', sTitle := ''Goa'', sNotes := ''beach'',
     sStatus := SlotStatusPlanned, sPosition := ''a0'', sVersion := 4\<rparr>"

definition sampleEdit :: UpdateSlotInput where
  "sampleEdit = \<lparr>usFields = [FieldTitle], usKind = ''place'', usTitle = ''Pune'', usNotes = [],
     usStartTime = None, usEndTime = None, usVersion = Some 4\<rparr>"

lemma sample_edit: "isOk (fst (SlotService_Update sampleEnv 1 3 7 sampleEdit (sampleDB\<lparr>dbSlots := [sampleSlot7]\<rparr>)))"
  by code_simp

theorem slot_edit_exact_witness:
  "\<exists>r db' ops. SlotService_Update sampleEnv 1 3 7 sampleEdit (sampleDB\<lparr>dbSlots := [sampleSlot7]\<rparr>) = (Inr r, db', ops) \<and>
     sTitle r = ''Pune'' \<and> sNotes r = ''beach'' \<and> sKind r = ''note'' \<and> sVersion r = 5"
proof -
  obtain r db' ops where s: "SlotService_Update sampleEnv 1 3 7 sampleEdit (sampleDB\<lparr>dbSlots := [sampleSlot7]\<rparr>) = (Inr r, db', ops)"
    using sample_edit by (cases "SlotService_Update sampleEnv 1 3 7 sampleEdit (sampleDB\<lparr>dbSlots := [sampleSlot7]\<rparr>)")
      (auto simp: isOk_def split: sum.splits)
  have "maskFor OpSlotEdit (usFields sampleEdit) = [FieldTitle]"
    by (simp add: maskFor_def NewFieldMask_def sampleEdit_def)
  then show ?thesis using slot_edit_exact [OF s] s
    by (auto simp: findRow_def sampleSlot7_def sampleEdit_def Let_def)
qed

end
