(* ===== verification/Versions.thy ===== *)
theory Versions
  imports Editing
begin

text \<open>Optimistic concurrency across the whole service: the version of an entity only goes up, and a
  version that a successful write expected is spent for every later write.\<close>

definition entityVersion :: "str \<Rightarrow> ID \<Rightarrow> DB \<Rightarrow> int option" where
  "entityVersion kind i db =
     (if kind = ''slot'' then map_option sVersion (findRow sID i (dbSlots db))
      else if kind = ''day'' then map_option dVersion (findRow dID i (dbDays db))
      else if kind = ''option'' then map_option oVersion (findRow oID i (dbOptions db))
      else if kind = ''budget'' then map_option bVersion (findRow bID i (dbBudgets db))
      else None)"

text \<open>The entity and the version that a request says it saw.\<close>

definition expects :: "Request \<Rightarrow> (str \<times> ID \<times> int) option" where
  "expects req = (case req of
       UpdateSlot i inp \<Rightarrow> map_option (\<lambda>v. (''slot'', i, v)) (usVersion inp)
     | MoveSlot i _ _ v \<Rightarrow> map_option (\<lambda>v. (''slot'', i, v)) v
     | SelectOption i _ v \<Rightarrow> map_option (\<lambda>v. (''slot'', i, v)) v
     | SetStatus i _ v \<Rightarrow> map_option (\<lambda>v. (''slot'', i, v)) v
     | DeleteSlot i v \<Rightarrow> map_option (\<lambda>v. (''slot'', i, v)) v
     | UpdateDay i inp \<Rightarrow> map_option (\<lambda>v. (''day'', i, v)) (udVersion inp)
     | MoveDay i _ v \<Rightarrow> map_option (\<lambda>v. (''day'', i, v)) v
     | DeleteDay i v \<Rightarrow> map_option (\<lambda>v. (''day'', i, v)) v
     | UpdateOption i inp \<Rightarrow> map_option (\<lambda>v. (''option'', i, v)) (uoVersion inp)
     | DeleteOption i v \<Rightarrow> map_option (\<lambda>v. (''option'', i, v)) v
     | UpdateEntry i inp \<Rightarrow> map_option (\<lambda>v. (''budget'', i, v)) (biVersion inp)
     | DeleteEntry i v \<Rightarrow> map_option (\<lambda>v. (''budget'', i, v)) v
     | _ \<Rightarrow> None)"

section \<open>Versions only go up\<close>

definition versionsGrow :: "DB \<Rightarrow> DB \<Rightarrow> bool" where
  "versionsGrow db db' \<longleftrightarrow>
     (\<forall>kind i v. entityVersion kind i db = Some v \<longrightarrow> (\<exists>v' \<ge> v. entityVersion kind i db' = Some v'))"

lemma versionsGrow_refl [simp]: "versionsGrow db db"
  by (auto simp: versionsGrow_def)

lemma versionsGrow_trans: "versionsGrow db db1 \<Longrightarrow> versionsGrow db1 db2 \<Longrightarrow> versionsGrow db db2"
  unfolding versionsGrow_def by (meson order_trans)

definition tableGrows :: "('r \<Rightarrow> ID) \<Rightarrow> ('r \<Rightarrow> int) \<Rightarrow> 'r list \<Rightarrow> 'r list \<Rightarrow> bool" where
  "tableGrows key ver rows rows' \<longleftrightarrow>
     (\<forall>i r. findRow key i rows = Some r \<longrightarrow> (\<exists>r'. findRow key i rows' = Some r' \<and> ver r \<le> ver r'))"

lemma tableGrows_simps [simp]:
  "tableGrows key ver rows rows"
  "tableGrows key ver rows (rows @ more1)"
  by (auto simp: tableGrows_def)

lemma tableGrows_updRow:
  "(\<And>r. key (f r) = key r) \<Longrightarrow> (\<And>r. ver (f r) = ver r + 1) \<Longrightarrow> tableGrows key ver rows (updRow key i f rows)"
  by (auto simp: tableGrows_def findRow_updRow)

lemma tables_grow:
  "tableGrows sID sVersion (dbSlots db) (dbSlots db') \<Longrightarrow> tableGrows dID dVersion (dbDays db) (dbDays db') \<Longrightarrow>
   tableGrows oID oVersion (dbOptions db) (dbOptions db') \<Longrightarrow> tableGrows bID bVersion (dbBudgets db) (dbBudgets db') \<Longrightarrow>
     versionsGrow db db'"
  unfolding versionsGrow_def
proof (intro allI impI)
  fix kind i v
  assume g: "tableGrows sID sVersion (dbSlots db) (dbSlots db')" "tableGrows dID dVersion (dbDays db) (dbDays db')"
      "tableGrows oID oVersion (dbOptions db) (dbOptions db')" "tableGrows bID bVersion (dbBudgets db) (dbBudgets db')"
    and "entityVersion kind i db = Some v"
  then show "\<exists>v' \<ge> v. entityVersion kind i db' = Some v'"
    unfolding entityVersion_def tableGrows_def by (fastforce split: if_splits)
qed

lemma slotWrite_tables:
  "slotWrite e tripID actorID kind msk i v row f s t t' \<Longrightarrow>
     dbSlots (txDB t') = updRow sID i f (dbSlots (txDB t)) \<and> dbDays (txDB t') = dbDays (txDB t) \<and>
     dbOptions (txDB t') = dbOptions (txDB t) \<and> dbBudgets (txDB t') = dbBudgets (txDB t) \<and>
     dbVotes (txDB t') = dbVotes (txDB t) \<and> dbComments (txDB t') = dbComments (txDB t)"
  by (auto simp: slotWrite_def slotTable_def)

lemma dayWrite_tables:
  "dayWrite e tripID actorID kind msk i v row f s t t' \<Longrightarrow>
     dbDays (txDB t') = updRow dID i f (dbDays (txDB t)) \<and> dbSlots (txDB t') = dbSlots (txDB t) \<and>
     dbOptions (txDB t') = dbOptions (txDB t) \<and> dbBudgets (txDB t') = dbBudgets (txDB t) \<and>
     dbVotes (txDB t') = dbVotes (txDB t) \<and> dbComments (txDB t') = dbComments (txDB t)"
  by (auto simp: dayWrite_def dayTable_def)

lemma optionWrite_tables:
  "optionWrite e tripID actorID kind msk i v row f s t t' \<Longrightarrow>
     dbOptions (txDB t') = updRow oID i f (dbOptions (txDB t)) \<and> dbSlots (txDB t') = dbSlots (txDB t) \<and>
     dbDays (txDB t') = dbDays (txDB t) \<and> dbBudgets (txDB t') = dbBudgets (txDB t) \<and>
     dbVotes (txDB t') = dbVotes (txDB t) \<and> dbComments (txDB t') = dbComments (txDB t)"
  by (auto simp: optionWrite_def optionTable_def)

lemma Save_tables:
  "BudgetRepository_Save e b db = Inr (row, db') \<Longrightarrow>
     dbSlots db' = dbSlots db \<and> dbDays db' = dbDays db \<and> dbOptions db' = dbOptions db \<and> dbVotes db' = dbVotes db \<and>
     dbComments db' = dbComments db"
  by (auto dest!: BudgetRepository_Save_Inr split: if_splits)

lemma Save_grows:
  assumes "BudgetRepository_Save e b db = Inr (row, db')"
  shows "tableGrows bID bVersion (dbBudgets db) (dbBudgets db')"
proof (cases "bVersion b = 0")
  case True
  then show ?thesis using BudgetRepository_Save_Inr [OF assms] by auto
next
  case False
  then obtain old where o: "findRow bID (bID b) (dbBudgets db) = Some old"
    and r: "row = (setBudget e b old)\<lparr>bSplits := bSplits row\<rparr>"
    and d: "dbBudgets db' = updRow bID (bID b) (\<lambda>_. row) (dbBudgets db)"
    using BudgetRepository_Save_Inr [OF assms] by auto
  have v: "bVersion row = bVersion old + 1" by (subst r) (simp add: setBudget_def)
  have k: "findRow bID j (updRow bID (bID b) (\<lambda>_. row) rows) =
      (if j = bID b then map_option (\<lambda>_. row) (findRow bID j rows) else findRow bID j rows)" for j rows
    using Save_row [OF assms] by (induction rows) (auto simp: findRow_def updRow_def)
  show ?thesis unfolding d tableGrows_def using o v by (auto simp: k)
qed

lemma step_grows: "planStep e tripID actorID t t' \<Longrightarrow> versionsGrow (txDB t) (txDB t')"
  by (induction rule: planStep.induct)
    (auto intro!: tables_grow tableGrows_updRow
      dest!: slotWrite_tables dayWrite_tables optionWrite_tables dest: Save_tables Save_grows
      simp: slotTable_def dayTable_def optionTable_def voteTable_def commentTable_def budgetTable_def setClause_defs)

section \<open>A version is spent once\<close>

lemma slotWrite_spends:
  "slotWrite e tripID actorID kind msk i v row f s t t' \<Longrightarrow> (\<And>r. sID (f r) = sID r) \<Longrightarrow> (\<And>r. sVersion (f r) = sVersion r + 1) \<Longrightarrow>
     entityVersion ''slot'' i (txDB t) = Some (versionArg v) \<and> entityVersion ''slot'' i (txDB t') = Some (versionArg v + 1)"
  by (frule slotWrite_tables) (auto simp: slotWrite_def entityVersion_def findRow_updRow)

lemma dayWrite_spends:
  "dayWrite e tripID actorID kind msk i v row f s t t' \<Longrightarrow> (\<And>r. dID (f r) = dID r) \<Longrightarrow> (\<And>r. dVersion (f r) = dVersion r + 1) \<Longrightarrow>
     entityVersion ''day'' i (txDB t) = Some (versionArg v) \<and> entityVersion ''day'' i (txDB t') = Some (versionArg v + 1)"
  by (frule dayWrite_tables) (auto simp: dayWrite_def entityVersion_def findRow_updRow)

lemma optionWrite_spends:
  "optionWrite e tripID actorID kind msk i v row f s t t' \<Longrightarrow> (\<And>r. oID (f r) = oID r) \<Longrightarrow> (\<And>r. oVersion (f r) = oVersion r + 1) \<Longrightarrow>
     entityVersion ''option'' i (txDB t) = Some (versionArg v) \<and> entityVersion ''option'' i (txDB t') = Some (versionArg v + 1)"
  by (frule optionWrite_tables) (auto simp: optionWrite_def entityVersion_def findRow_updRow)

lemma clearSelection_options:
  "clearSelection e tripID actorID slotID optionID t = Inr (u, t') \<Longrightarrow> dbOptions (txDB t') = dbOptions (txDB t)"
  by (drule clearSelection_Inr) (auto simp: slotTable_def split: if_splits)

lemma updateBudget_spends:
  assumes "updateBudgetBody e tripID actorID i v inp t = Inr (row, t')"
  shows "entityVersion ''budget'' i (txDB t) = Some (versionArg v) \<and> entityVersion ''budget'' i (txDB t') = Some (versionArg v + 1)"
proof -
  obtain old b db' p where o: "findRow bID i (dbBudgets (txDB t)) = Some old"
    and b: "b = (inputEntry inp tripID i)\<lparr>bCreatedBy := bCreatedBy old, bCreatedAt := bCreatedAt old, bVersion := v\<rparr>"
    and s: "BudgetRepository_Save e b (txDB t) = Inr (row, db')"
    and t': "t' = pushOp (loggedOp e tripID actorID OpBudgetSet (bID row) (maskFor OpBudgetSet []) p (t\<lparr>txDB := db'\<rparr>)) (t\<lparr>txDB := db'\<rparr>)"
    using updateBudgetBody_Inr [OF assms] by blast
  have i: "bID b = i" "bVersion b = v" by (simp_all add: b inputEntry_def)
  then have "bVersion b \<noteq> 0" using BudgetRepository_Save_Inr [OF s] o by auto
  then obtain old' where o': "findRow bID i (dbBudgets (txDB t)) = Some old'" "bVersion old' = versionArg v"
    and r: "row = (setBudget e b old')\<lparr>bSplits := bSplits row\<rparr>" "dbBudgets db' = updRow bID i (\<lambda>_. row) (dbBudgets (txDB t))"
    using BudgetRepository_Save_Inr [OF s] i by auto
  have "bVersion row = versionArg v + 1" using o' by (subst r(1)) (simp add: setBudget_def)
  moreover have "findRow bID i (updRow bID i (\<lambda>_. row) rows) = map_option (\<lambda>_. row) (findRow bID i rows)" for rows
    using Save_row [OF s] i by (induction rows) (auto simp: findRow_def updRow_def)
  ultimately show ?thesis using o' r(2) t' by (simp add: entityVersion_def)
qed

lemma body_spends:
  assumes "requestBody e tripID userID req t = Inr ((), t')" "expects req = Some (kind, i, v)"
  shows "entityVersion kind i (txDB t) = Some (versionArg v) \<and> entityVersion kind i (txDB t') = Some (versionArg v + 1)"
proof (cases req)
  case (DeleteOption j w)
  then have r: "kind = ''option''" "j = i" "w = Some v" using assms(2) by (auto simp: expects_def)
  then obtain row t1 where w: "optionWrite e tripID userID OpOptionDelete (maskFor OpOptionDelete [FieldDeletedAt]) i
      (versionOrCurrent (Some v) (oVersion row)) row (setOptionDeleted e (eNow e))
      (row\<lparr>oDeletedAt := Some (eNow e), oUpdatedAt := eNow e, oVersion := oVersion row + 1\<rparr>) t t1"
    and c: "clearSelection e tripID userID (oSlotID row) i t1 = Inr ((), t')"
    using deleteOptionBody_Inr [of e tripID userID i "Some v" t "()" t'] assms(1) DeleteOption
    by (auto simp: requestBody_def)
  show ?thesis
    using optionWrite_spends [OF w] clearSelection_options [OF c] r
    by (simp add: optionTombstone.set_version versionOrCurrent_def entityVersion_def)
next
  case (DeleteEntry j w)
  then have r: "kind = ''budget''" "j = i" "w = Some v" using assms(2) by (auto simp: expects_def)
  then have d: "deleteBudgetBody e tripID userID i v t = Inr ((), t')"
    using assms(1) DeleteEntry by (simp add: requestBody_def bindT_eq_Inr requireVersion_def)
  obtain row p where "findRow bID i (dbBudgets (txDB t)) = Some row" "bVersion row = versionArg v"
    "t' = pushOp (loggedOp e tripID userID OpBudgetDelete i (maskFor OpBudgetDelete [FieldDeletedAt]) p
           (budgetTable (updRow bID i (setBudgetDeleted e (eNow e))) t))
         (budgetTable (updRow bID i (setBudgetDeleted e (eNow e))) t)"
    using deleteBudgetBody_Inr [OF d] by blast
  then show ?thesis
    using r by (simp add: entityVersion_def budgetTable_def findRow_updRow budgetTombstone.set_version)
next
  case (UpdateEntry j inp)
  then show ?thesis using assms updateBudget_spends
    by (auto simp: expects_def requestBody_def bindT_eq_Inr requireVersion_def unitT_Inr split: option.splits)
next
  case (UpdateSlot j inp)
  then show ?thesis using assms
    by (auto simp: expects_def requestBody_def unitT_Inr versionOrCurrent_def dest!: updateSlotBody_Inr
        slotWrite_spends [OF _ slotEdit.set_key slotEdit.set_version])
next
  case (MoveSlot j dayID after w)
  then show ?thesis using assms
    by (auto simp: expects_def requestBody_def versionOrCurrent_def dest!: moveSlotBody_Inr
        slotWrite_spends [OF _ slotPlace.set_key slotPlace.set_version])
next
  case (SelectOption j optionID w)
  then show ?thesis using assms
    by (auto simp: expects_def requestBody_def versionOrCurrent_def dest!: selectOptionBody_Inr
        slotWrite_spends [OF _ slotSelect.set_key slotSelect.set_version])
next
  case (SetStatus j status w)
  then show ?thesis using assms
    by (auto simp: expects_def requestBody_def versionOrCurrent_def dest!: setStatusBody_Inr
        slotWrite_spends [OF _ slotStatus.set_key slotStatus.set_version])
next
  case (DeleteSlot j w)
  then show ?thesis using assms
    by (auto simp: expects_def requestBody_def versionOrCurrent_def dest!: deleteSlotBody_Inr
        slotWrite_spends [OF _ slotTombstone.set_key slotTombstone.set_version])
next
  case (UpdateDay j inp)
  then show ?thesis using assms
    by (auto simp: expects_def requestBody_def unitT_Inr versionOrCurrent_def dest!: updateDayBody_Inr
        dayWrite_spends [OF _ dayEdit.set_key dayEdit.set_version])
next
  case (MoveDay j after w)
  then show ?thesis using assms
    by (auto simp: expects_def requestBody_def versionOrCurrent_def dest!: moveDayBody_Inr
        dayWrite_spends [OF _ dayEdit.set_key dayEdit.set_version])
next
  case (DeleteDay j w)
  then show ?thesis using assms
    by (auto simp: expects_def requestBody_def versionOrCurrent_def dest!: deleteDayBody_Inr
        dayWrite_spends [OF _ dayTombstone.set_key dayTombstone.set_version])
next
  case (UpdateOption j inp)
  then show ?thesis using assms
    by (auto simp: expects_def requestBody_def unitT_Inr versionOrCurrent_def dest!: updateOptionBody_Inr
        optionWrite_spends [OF _ optionEdit.set_key optionEdit.set_version])
qed (use assms(2) in \<open>simp_all add: expects_def\<close>)

text \<open>The databases that can follow a given one.\<close>

inductive laterThan :: "(Env \<Rightarrow> bool) \<Rightarrow> DB \<Rightarrow> DB \<Rightarrow> bool" for okEnv db0 where
  here: "laterThan okEnv db0 db0"
| admin: "laterThan okEnv db0 db \<Longrightarrow> laterThan okEnv db0 (db\<lparr>dbTrips := ts, dbMembers := ms, dbInvitations := is\<rparr>)"
| served: "laterThan okEnv db0 db \<Longrightarrow> okEnv e \<Longrightarrow> serve e tripID userID req db = (res, db', ops) \<Longrightarrow> laterThan okEnv db0 db'"

lemma serve_grows:
  assumes "relational db" "serve e tripID userID req db = (res, db', ops)"
  shows "versionsGrow db db'"
proof (cases res)
  case (Inl err)
  then show ?thesis using assms(2) serve_sound [of e tripID userID db req] by (auto simp: soundReply_def)
next
  case (Inr u)
  then obtain t where t: "requestBody e tripID userID req \<lparr>txDB = db, txOps = []\<rparr> = Inr ((), t)" "db' = txDB t"
    using serve_body assms(2) by blast
  have "bodySteps e tripID userID \<lparr>txDB = db, txOps = []\<rparr> t" using requestBody_steps [OF t(1)] assms(1) by simp
  then have "versionsGrow (txDB \<lparr>txDB = db, txOps = []\<rparr>) (txDB t)"
    unfolding bodySteps_def by (blast intro: step_grows versionsGrow_trans)
  then show ?thesis using t(2) by simp
qed

lemma admin_grows: "versionsGrow db (db\<lparr>dbTrips := ts, dbMembers := ms, dbInvitations := is\<rparr>)"
  by (rule tables_grow) simp_all

lemma later_grows:
  assumes "laterThan okEnv db0 db" "reachable okEnv db0"
  shows "reachable okEnv db \<and> versionsGrow db0 db"
  using assms(1)
proof (induction rule: laterThan.induct)
  case (served db e tripID userID req res db' ops)
  then have r: "reachable okEnv db" "versionsGrow db0 db" "versionsGrow db db'"
    using serve_grows [OF reachable_relational served.hyps(3)] by auto
  show ?case using versionsGrow_trans [OF r(2,3)] reachable.served [OF r(1) served.hyps(2,3)] by blast
next
  case admin
  then show ?case by (intro conjI reachable.admin versionsGrow_trans [OF _ admin_grows]) simp_all
qed (use assms(2) in simp)

text \<open>C25: optimistic concurrency: when a request that expected version v of a slot, day, option or budget
  entry has succeeded, every later request that still expects v of that entity fails, whoever sends it
  and whatever happened in between, and leaves the database as it was. So of two concurrent edits of
  the same version at most one is applied.\<close>

theorem version_spent_once:
  assumes "reachable okEnv db" "okEnv e"
    and "serve e tripID userID req db = (Inr (), db1, ops)" "expects req = Some (kind, i, v)"
    and "laterThan okEnv db1 db2" "expects req' = Some (kind, i, v)"
  shows "\<exists>err. serve e' tripID' userID' req' db2 = (Inl err, db2, [])"
proof -
  obtain t where t: "requestBody e tripID userID req \<lparr>txDB = db, txOps = []\<rparr> = Inr ((), t)" "db1 = txDB t"
    using serve_body assms(3) by blast
  have 1: "entityVersion kind i db1 = Some (versionArg v + 1)" using body_spends [OF t(1) assms(4)] t(2) by simp
  have "versionsGrow db1 db2"
    using later_grows [OF assms(5)] reachable.served [OF assms(1,2,3)] by blast
  then obtain w where w: "entityVersion kind i db2 = Some w" "versionArg v + 1 \<le> w"
    using 1 unfolding versionsGrow_def by blast
  obtain res db' ops' where s: "serve e' tripID' userID' req' db2 = (res, db', ops')" by (cases "serve e' tripID' userID' req' db2")
  show ?thesis
  proof (cases res)
    case (Inl err)
    then show ?thesis using s serve_sound [of e' tripID' userID' db2 req'] by (auto simp: soundReply_def)
  next
    case (Inr u)
    then obtain t' where "requestBody e' tripID' userID' req' \<lparr>txDB = db2, txOps = []\<rparr> = Inr ((), t')"
      using serve_body s by blast
    then have "entityVersion kind i db2 = Some (versionArg v)" using body_spends [OF _ assms(6)] by fastforce
    then show ?thesis using w by simp
  qed
qed

definition sampleDayEdit :: UpdateDayInput where
  "sampleDayEdit = \<lparr>udFields = [FieldLabel], udDate = None, udLabel = ''Old town'', udVersion = Some 1\<rparr>"

lemma sample_day_edit: "isOk (fst (serve (laterEnv 1) 1 3 (UpdateDay 5 sampleDayEdit) sampleAfter))"
  by code_simp

theorem version_spent_once_witness:
  "\<exists>db1 ops err. serve (laterEnv 1) 1 3 (UpdateDay 5 sampleDayEdit) sampleAfter = (Inr (), db1, ops) \<and>
     serve (laterEnv 2) 1 2 (DeleteDay 5 (Some 1)) db1 = (Inl err, db1, [])"
proof -
  obtain db1 ops where s: "serve (laterEnv 1) 1 3 (UpdateDay 5 sampleDayEdit) sampleAfter = (Inr (), db1, ops)"
    using sample_day_edit by (cases "serve (laterEnv 1) 1 3 (UpdateDay 5 sampleDayEdit) sampleAfter")
      (auto simp: isOk_def split: sum.splits)
  have x: "expects (UpdateDay 5 sampleDayEdit) = Some (''day'', 5, 1)" "expects (DeleteDay 5 (Some 1)) = Some (''day'', 5, 1)"
    by (simp_all add: expects_def sampleDayEdit_def)
  show ?thesis using version_spent_once [OF sampleAfter_reachable TrueI s x(1) here x(2), of "laterEnv 2" 1 2] s by blast
qed

end
