(* ===== verification/Isolation.thy ===== *)
theory Isolation
  imports Versions
begin

text \<open>What a write cannot do: touch another trip, leave a selection on an option it deletes, or commit a
  budget entry whose shares do not add up.\<close>

section \<open>Trips are isolated\<close>

text \<open>Everything of one trip: the rows of every planning table and the trip's log.\<close>

definition tripView where
  "tripView tripID db =
     (filter (\<lambda>d. dTripID d = tripID) (dbDays db), filter (\<lambda>s. sTripID s = tripID) (dbSlots db),
      filter (\<lambda>x. oTripID x = tripID) (dbOptions db), filter (\<lambda>v. vTripID v = tripID) (dbVotes db),
      filter (\<lambda>c. cTripID c = tripID) (dbComments db), filter (\<lambda>b. bTripID b = tripID) (dbBudgets db),
      tripLog tripID db, dbOpSeq db tripID)"

lemma filter_updRow_foreign:
  assumes "distinct (map key rows)" "findRow key i rows = Some row" "trip row \<noteq> T" "trip (f row) \<noteq> T"
  shows "filter (\<lambda>r. trip r = T) (updRow key i f rows) = filter (\<lambda>r. trip r = T) rows"
proof -
  have "r = row" if "r \<in> set rows" "key r = i" for r
    using findRow_mem [OF assms(1) that(1)] that(2) assms(2) by simp
  then have "filter (\<lambda>r. trip r = T) (map (\<lambda>r. if key r = i then f r else r) xs) = filter (\<lambda>r. trip r = T) xs"
    if "set xs \<subseteq> set rows" for xs
    using that assms(3,4) by (induction xs) auto
  then show ?thesis by (simp add: updRow_def)
qed

lemma tripView_pushOp: "tripView T (txDB (pushOp op t)) = tripView T (txDB t)" if "opTripID op \<noteq> T"
  using that by (simp add: tripView_def tripLog_def)

lemma slotWrite_foreign:
  assumes "slotWrite e tripID actorID kind msk i v row f s t t'" "relational (txDB t)" "T \<noteq> tripID" "sTripID (f row) = sTripID row"
  shows "tripView T (txDB t') = tripView T (txDB t)"
  using assms filter_updRow_foreign [of sID "dbSlots (txDB t)" i row sTripID T f]
  by (auto simp: slotWrite_def tripView_pushOp relational_def) (simp add: tripView_def slotTable_def tripLog_def)

lemma dayWrite_foreign:
  assumes "dayWrite e tripID actorID kind msk i v row f s t t'" "relational (txDB t)" "T \<noteq> tripID" "dTripID (f row) = dTripID row"
  shows "tripView T (txDB t') = tripView T (txDB t)"
  using assms filter_updRow_foreign [of dID "dbDays (txDB t)" i row dTripID T f]
  by (auto simp: dayWrite_def tripView_pushOp relational_def) (simp add: tripView_def dayTable_def tripLog_def)

lemma optionWrite_foreign:
  assumes "optionWrite e tripID actorID kind msk i v row f s t t'" "relational (txDB t)" "T \<noteq> tripID" "oTripID (f row) = oTripID row"
  shows "tripView T (txDB t') = tripView T (txDB t)"
  using assms filter_updRow_foreign [of oID "dbOptions (txDB t)" i row oTripID T f]
  by (auto simp: optionWrite_def tripView_pushOp relational_def) (simp add: tripView_def optionTable_def tripLog_def)

lemma vote_of_slot:
  assumes "relational db" "checkSlotInTrip tripID slotID db = Inr ()" "w \<in> set (dbVotes db)" "vSlotID w = slotID"
  shows "vTripID w = tripID"
  using assms by (auto simp: relational_def anchored_def slotInTrip_findRow checkSlotInTrip_Inr)

lemma step_foreign:
  assumes "planStep e tripID actorID t t'" "relational (txDB t)" "T \<noteq> tripID"
  shows "tripView T (txDB t') = tripView T (txDB t)"
  using assms(1)
proof (cases rule: planStep.cases)
  case (slotCreated inp position row p t1)
  then have "sTripID row = tripID" by (simp add: newSlotRow_def draftSlot_def)
  then show ?thesis using slotCreated assms(3)
    by (simp add: tripView_pushOp) (simp add: tripView_def slotTable_def tripLog_def)
next
  case (dayCreated row inp position p t1)
  then have "dTripID row = tripID" by (simp add: newDayRow_def draftDay_def)
  then show ?thesis using dayCreated assms(3)
    by (simp add: tripView_pushOp) (simp add: tripView_def dayTable_def tripLog_def)
next
  case (optionCreated slotID row inp p t1)
  then have "oTripID row = tripID" by (simp add: newOptionRow_def draftOption_def)
  then show ?thesis using optionCreated assms(3)
    by (simp add: tripView_pushOp) (simp add: tripView_def optionTable_def tripLog_def)
next
  case (firstVoteCast slotID row optionID p t1)
  then have "vTripID row = tripID" by (simp add: firstVote_def ballot_def)
  then show ?thesis using firstVoteCast assms(3)
    by (simp add: tripView_pushOp) (simp add: tripView_def voteTable_def tripLog_def)
next
  case (voteRecast slotID w row optionID p t1)
  have w: "w \<in> set (dbVotes (txDB t))" "vSlotID w = slotID" using find_SomeD [OF voteRecast(2)] by simp_all
  have v: "vTripID w = tripID" by (rule vote_of_slot [OF assms(2) voteRecast(1) w])
  have "filter (\<lambda>r. vTripID r = T) (updRow vID (vID w) (\<lambda>_. row) (dbVotes (txDB t))) = filter (\<lambda>r. vTripID r = T) (dbVotes (txDB t))"
    using assms(2,3) findRow_mem [of vID "dbVotes (txDB t)" w] w v voteRecast(3)
    by (intro filter_updRow_foreign [of vID _ "vID w" w]) (auto simp: relational_def)
  then show ?thesis using voteRecast assms(3)
    by (simp add: tripView_pushOp) (simp add: tripView_def voteTable_def tripLog_def)
next
  case (commentCreated slotID row inp p t1)
  then have "cTripID row = tripID" by (simp add: newComment_def)
  then show ?thesis using commentCreated assms(3)
    by (simp add: tripView_pushOp) (simp add: tripView_def commentTable_def tripLog_def)
next
  case (commentDeleted i row p t1)
  then have "filter (\<lambda>c. cTripID c = T) (updRow cID i (setCommentDeleted e) (dbComments (txDB t))) = filter (\<lambda>c. cTripID c = T) (dbComments (txDB t))"
    using assms(2,3) by (intro filter_updRow_foreign) (auto simp: relational_def)
  then show ?thesis using commentDeleted assms(3)
    by (simp add: tripView_pushOp) (simp add: tripView_def commentTable_def tripLog_def)
next
  case (entryCreated b inp row db' p t1)
  have "bVersion b = 0" "bTripID b = tripID" using entryCreated(1) by (simp_all add: inputEntry_def)
  then have s: "db' = (txDB t)\<lparr>dbBudgets := dbBudgets (txDB t) @ [row]\<rparr>" "row = (newBudgetRow e b)\<lparr>bSplits := bSplits row\<rparr>"
    using BudgetRepository_Save_Inr [OF entryCreated(3)] by simp_all
  have "bTripID row = tripID" by (subst s(2)) (simp add: newBudgetRow_def \<open>bTripID b = tripID\<close>)
  then show ?thesis using entryCreated assms(3) s(1)
    by (simp add: tripView_pushOp) (simp add: tripView_def tripLog_def)
next
  case (entryUpdated i old b inp v row db' p t1)
  have i: "bID b = i" using entryUpdated(4) by (simp add: inputEntry_def)
  then have nz: "bVersion b \<noteq> 0" using BudgetRepository_Save_Inr [OF entryUpdated(6)] entryUpdated(1) by auto
  then have s: "db' = (txDB t)\<lparr>dbBudgets := updRow bID i (\<lambda>_. row) (dbBudgets (txDB t))\<rparr>" "row = (setBudget e b old)\<lparr>bSplits := bSplits row\<rparr>"
    using BudgetRepository_Save_Inr [OF entryUpdated(6)] i entryUpdated(1) by auto
  have "bTripID row = tripID" by (subst s(2)) (simp add: entryUpdated(3))
  then have "filter (\<lambda>b. bTripID b = T) (updRow bID i (\<lambda>_. row) (dbBudgets (txDB t))) = filter (\<lambda>b. bTripID b = T) (dbBudgets (txDB t))"
    using assms(2,3) entryUpdated(1,3) by (intro filter_updRow_foreign) (auto simp: relational_def)
  then show ?thesis using entryUpdated assms(3) s(1)
    by (simp add: tripView_pushOp) (simp add: tripView_def tripLog_def)
next
  case (entryDeleted i row v p t1)
  then have "filter (\<lambda>b. bTripID b = T) (updRow bID i (setBudgetDeleted e (eNow e)) (dbBudgets (txDB t))) = filter (\<lambda>b. bTripID b = T) (dbBudgets (txDB t))"
    using assms(2,3) by (intro filter_updRow_foreign) (auto simp: relational_def)
  then show ?thesis using entryDeleted assms(3)
    by (simp add: tripView_pushOp) (simp add: tripView_def budgetTable_def tripLog_def)
qed (use assms(2,3) in \<open>simp_all add: slotWrite_foreign dayWrite_foreign optionWrite_foreign\<close>)

lemma plan_attachments:
  assumes "planStep e tripID actorID t t'"
  shows "dbAttachments (txDB t') = dbAttachments (txDB t)" "dbInvitations (txDB t') = dbInvitations (txDB t)"
proof -
  have "dbAttachments (txDB t') = dbAttachments (txDB t) \<and> dbInvitations (txDB t') = dbInvitations (txDB t)"
    using assms
  proof (cases rule: planStep.cases)
    case (entryCreated b inp row db' p t1)
    then show ?thesis using BudgetRepository_Save_Inr [OF entryCreated(3)] by auto
  next
    case (entryUpdated i old b inp v row db' p t1)
    then show ?thesis using BudgetRepository_Save_Inr [OF entryUpdated(6)] by (auto split: if_splits)
  qed (auto simp: slotWrite_def dayWrite_def optionWrite_def slotTable_def dayTable_def optionTable_def
      voteTable_def commentTable_def budgetTable_def)
  then show "dbAttachments (txDB t') = dbAttachments (txDB t)" "dbInvitations (txDB t') = dbInvitations (txDB t)" by simp_all
qed

lemma serve_foreign:
  assumes "relational db" "serve e tripID userID req db = (res, db', ops)" "other \<noteq> tripID"
  shows "tripView other db' = tripView other db"
  by (rule serve_invariant [OF assms(2,1), where P = "\<lambda>d. tripView other d = tripView other db"])
    (use step_foreign [OF _ _ assms(3)] in simp_all)

lemma serve_attachments:
  assumes "relational db" "serve e tripID userID req db = (res, db', ops)"
  shows "dbAttachments db' = dbAttachments db \<and> dbInvitations db' = dbInvitations db"
  by (rule serve_invariant [OF assms(2,1), where P = "\<lambda>d. dbAttachments d = dbAttachments db \<and> dbInvitations d = dbInvitations db"])
    (use plan_attachments in simp_all)


text \<open>A second trip beside the first, with a member of its own, who adds a day to it.\<close>

definition twoTrips :: DB where
  "twoTrips = sampleAfter\<lparr>dbTrips := [sampleTrip, sampleTrip\<lparr>trID := 2\<rparr>],
     dbMembers := dbMembers sampleAfter @ [(sampleMember 8 RoleOwner)\<lparr>mTripID := 2\<rparr>], dbInvitations := []\<rparr>"

lemma twoTrips_served:
  "isOk (fst (serve (laterEnv 1) 2 8 (CreateDay (sampleDayInput\<lparr>cdID := 6\<rparr>)) twoTrips)) \<and>
   map dTripID (dbDays (fst (snd (serve (laterEnv 1) 2 8 (CreateDay (sampleDayInput\<lparr>cdID := 6\<rparr>)) twoTrips)))) = [1, 2]"
  by code_simp


section \<open>Deleting an option\<close>

lemma SlotOptionService_Delete_body:
  assumes "SlotOptionService_Delete e tripID userID i v db = (Inr (), db', ops)"
  shows "\<exists>t. deleteOptionBody e tripID userID i v \<lparr>txDB = db, txOps = []\<rparr> = Inr ((), t) \<and> db' = txDB t \<and> ops = txOps t"
  using serve_body [of e tripID userID "DeleteOption i v" db "()" db' ops] assms
  by (simp add: serve_def requestBody_def)

text \<open>C34: deleting an option takes the selection with it, in one transaction: the option's row becomes a
  tombstone, and when its slot, which must be live, had it selected, the slot's selection is cleared
  and its version goes up. The log gets the deletion and, only in that case, a selection change as a
  second operation, which does not carry the client's identifier.\<close>

theorem option_deletion_cascades:
  assumes "SlotOptionService_Delete e tripID userID i v db = (Inr (), db', ops)"
  shows "\<exists>x slot. findRow oID i (dbOptions db) = Some x \<and> oDeletedAt x = None \<and> oTripID x = tripID \<and>
    findRow sID (oSlotID x) (dbSlots db) = Some slot \<and> sDeletedAt slot = None \<and>
    findRow oID i (dbOptions db') = Some (setOptionDeleted e (eNow e) x) \<and>
    (if sSelectedOptionID slot = Some i
     then findRow sID (oSlotID x) (dbSlots db') = Some (setSlotSelected e None (eNow e) slot) \<and>
       map (\<lambda>op. (opKind op, opEntityID op, opClientOpID op)) ops =
         [(OpOptionDelete, i, eClientOpID e), (OpSlotSelectOption, oSlotID x, None)]
     else dbSlots db' = dbSlots db \<and>
       map (\<lambda>op. (opKind op, opEntityID op, opClientOpID op)) ops = [(OpOptionDelete, i, eClientOpID e)])"
proof -
  obtain t where t: "deleteOptionBody e tripID userID i v \<lparr>txDB = db, txOps = []\<rparr> = Inr ((), t)" "db' = txDB t" "ops = txOps t"
    using SlotOptionService_Delete_body [OF assms] by blast
  obtain x t1 where w: "optionWrite e tripID userID OpOptionDelete (maskFor OpOptionDelete [FieldDeletedAt]) i
      (versionOrCurrent v (oVersion x)) x (setOptionDeleted e (eNow e))
      (x\<lparr>oDeletedAt := Some (eNow e), oUpdatedAt := eNow e, oVersion := oVersion x + 1\<rparr>) \<lparr>txDB = db, txOps = []\<rparr> t1"
    and c: "clearSelection e tripID userID (oSlotID x) i t1 = Inr ((), t)"
    using deleteOptionBody_Inr [OF t(1)] by blast
  have x: "findRow oID i (dbOptions db) = Some x" "oDeletedAt x = None" "oTripID x = tripID" "dbSlots (txDB t1) = dbSlots db"
    using w optionWrite_tables [OF w] by (auto simp: optionWrite_def)
  have d: "findRow oID i (dbOptions db') = Some (setOptionDeleted e (eNow e) x)"
    using x(1) optionWrite_tables [OF w] clearSelection_options [OF c] t(2) by (simp add: findRow_updRow)
  have o1: "map (\<lambda>op. (opKind op, opEntityID op, opClientOpID op)) (txOps t1) = [(OpOptionDelete, i, eClientOpID e)]" "txOps t1 \<noteq> []"
    using w by (auto simp: optionWrite_def optionTable_def)
  obtain slot where slot: "findRow sID (oSlotID x) (dbSlots db) = Some slot" "sDeletedAt slot = None"
    and s: "sSelectedOptionID slot \<noteq> Some i \<Longrightarrow> t = t1"
      "sSelectedOptionID slot = Some i \<Longrightarrow> \<exists>p. t = pushOp (loggedOp e tripID userID OpSlotSelectOption (oSlotID x)
                 (maskFor OpSlotSelectOption [FieldSelectedOptionID]) p
                 (slotTable (updRow sID (oSlotID x) (setSlotSelected e None (eNow e))) t1))
               (slotTable (updRow sID (oSlotID x) (setSlotSelected e None (eNow e))) t1)"
    using clearSelection_Inr [OF c] x(4) by (auto split: if_splits)
  show ?thesis
  proof (cases "sSelectedOptionID slot = Some i")
    case True
    then show ?thesis using x d o1 slot s(2) t(2,3)
      by (intro exI [of _ x] exI [of _ slot]) (auto simp: slotTable_def findRow_updRow)
  next
    case False
    then show ?thesis using x d o1 slot s(1) t(2,3) by (intro exI [of _ x] exI [of _ slot]) auto
  qed
qed

definition sampleOption :: SlotOption where
  "sampleOption = zeroOption\<lparr>oID := 11, oSlotID := 7, oTripID := 1, oTitle := ''Fort'', oVersion := 1\<rparr>"

definition sampleResolved :: DB where
  "sampleResolved = sampleDB\<lparr>dbSlots := [sampleSlot7\<lparr>sSelectedOptionID := Some 11\<rparr>], dbOptions := [sampleOption]\<rparr>"

lemma sample_option_delete: "fst (SlotOptionService_Delete sampleEnv 1 3 11 (Some 1) sampleResolved) = Inr ()"
  by code_simp

theorem option_deletion_cascades_witness:
  "\<exists>db' ops. SlotOptionService_Delete sampleEnv 1 3 11 (Some 1) sampleResolved = (Inr (), db', ops) \<and>
     map (\<lambda>op. (opKind op, opEntityID op, opClientOpID op)) ops =
       [(OpOptionDelete, 11, Some 9), (OpSlotSelectOption, 7, None)]"
proof (cases "SlotOptionService_Delete sampleEnv 1 3 11 (Some 1) sampleResolved")
  case (fields res db' ops)
  then have s: "SlotOptionService_Delete sampleEnv 1 3 11 (Some 1) sampleResolved = (Inr (), db', ops)"
    using sample_option_delete by simp
  show ?thesis using option_deletion_cascades [OF s] s
    by (auto simp: sampleResolved_def findRow_def sampleOption_def sampleSlot7_def sampleEnv_def)
qed

text \<open>An option of a deleted slot cannot be deleted any more: the transaction rolls back.\<close>

lemma option_of_deleted_slot_stuck:
  assumes "findRow oID i (dbOptions db) = Some x" "findRow sID (oSlotID x) (dbSlots db) = Some slot" "sDeletedAt slot \<noteq> None"
  shows "\<exists>err. SlotOptionService_Delete e tripID userID i v db = (Inl err, db, [])"
proof (cases "SlotOptionService_Delete e tripID userID i v db")
  case (fields res db' ops)
  show ?thesis
  proof (cases res)
    case (Inl err)
    then show ?thesis using fields serve_sound [of e tripID userID db "DeleteOption i v"]
      by (auto simp: serve_def soundReply_def)
  next
    case (Inr u)
    then show ?thesis using option_deletion_cascades [of e tripID userID i v db db' ops] fields assms by simp
  qed
qed

section \<open>Two boundary cases of expected versions\<close>

text \<open>An expected version is truncated to 32 bits before it is compared.\<close>

lemma versionArg_wraps: "versionArg (2 ^ 32 + 1) = 1"
  by code_simp

text \<open>Expecting version 0 of an entry that exists is not a version conflict: the save inserts and violates the
  primary key.\<close>

lemma budget_update_version_zero:
  assumes "findRow bID i (dbBudgets db) = Some old" "bID b = i" "bVersion b = 0"
    and "budgetChecks (newBudgetRow e b) = Inr ()"
  shows "BudgetRepository_Save e b db = Inl ErrAlreadyExists"
proof -
  have "bID (newBudgetRow e b) = i" using assms(2) by (simp add: newBudgetRow_def)
  then show ?thesis using assms
    by (simp add: BudgetRepository_Save_def saveEntry_def insertRow_def mapErrorR_def mapError_def constraintViolations_def
        constraintName_def)
qed

section \<open>The ledger adds up\<close>

definition entrySound :: "BudgetEntry \<Rightarrow> bool" where
  "entrySound b \<longleftrightarrow> 0 \<le> sint (bAmountMinor b) \<and> BudgetCategory_Valid (bCategory b) \<and>
     distinct (map bsUserID (bSplits b)) \<and> (\<forall>s \<in> set (bSplits b). 0 \<le> sint (bsAmountMinor s))"

lemma Save_fields:
  assumes "BudgetRepository_Save e b db = Inr (row, db')"
  shows "bAmountMinor row = bAmountMinor b \<and> bCategory row = bCategory b"
proof (cases "bVersion b = 0")
  case True
  have r: "row = (newBudgetRow e b)\<lparr>bSplits := bSplits row\<rparr>"
    using BudgetRepository_Save_Inr [OF assms] unfolding if_P [OF True] by blast
  show ?thesis using arg_cong [OF r, of bAmountMinor] arg_cong [OF r, of bCategory] by (simp add: newBudgetRow_def)
next
  case False
  obtain old where r: "row = (setBudget e b old)\<lparr>bSplits := bSplits row\<rparr>"
    using BudgetRepository_Save_Inr [OF assms] unfolding if_not_P [OF False] by blast
  show ?thesis using arg_cong [OF r, of bAmountMinor] arg_cong [OF r, of bCategory] by (simp add: setBudget_def)
qed

lemma map_pairs:
  assumes "map (\<lambda>s. (f s, g s)) xs = map (\<lambda>s. (f s, g s)) ys"
  shows "map f xs = map f ys \<and> map g xs = map g ys"
  using arg_cong [OF assms, of "map fst"] arg_cong [OF assms, of "map snd"] by (simp add: comp_def)

lemma Save_sound:
  assumes "BudgetRepository_Save e b db = Inr (row, db')" "BudgetService_validate tripID b db = Inr ()"
    and "\<forall>b \<in> set (dbBudgets db). entrySound b"
  shows "\<forall>b \<in> set (dbBudgets db'). entrySound b"
proof -
  have p: "map bsUserID (bSplits row) = map bsUserID (bSplits b) \<and> map bsAmountMinor (bSplits row) = map bsAmountMinor (bSplits b)"
    using BudgetRepository_Save_Inr [OF assms(1)] by (intro map_pairs) simp
  then have a: "bsAmountMinor ` set (bSplits row) = bsAmountMinor ` set (bSplits b)" by (metis list.set_map)
  have v: "BudgetEntry_Validate b = Inr ()" using assms(2) by (auto simp: BudgetService_validate_def sum_cases)
  have "\<forall>y \<in> bsAmountMinor ` set (bSplits b). 0 \<le> sint y" using v by (auto simp: BudgetEntry_Validate_iff)
  then have "\<forall>s \<in> set (bSplits row). 0 \<le> sint (bsAmountMinor s)" unfolding a [symmetric] by blast
  then have "entrySound row"
    using v p Save_fields [OF assms(1)] by (simp add: entrySound_def BudgetEntry_Validate_iff)
  then show ?thesis using Save_table(2) [OF assms(1)] assms(3) by (auto simp: updRow_def)
qed

lemma step_entries:
  assumes "planStep e tripID actorID t t'" "\<forall>b \<in> set (dbBudgets (txDB t)). entrySound b"
  shows "\<forall>b \<in> set (dbBudgets (txDB t')). entrySound b"
  using assms(1)
proof (cases rule: planStep.cases)
  case (entryCreated b inp row db' p t1)
  then show ?thesis using Save_sound [OF entryCreated(3,2) assms(2)] by simp
next
  case (entryUpdated i old b inp v row db' p t1)
  then show ?thesis using Save_sound [OF entryUpdated(6,5) assms(2)] by simp
next
  case (entryDeleted i row v p t1)
  then show ?thesis using assms(2) by (auto simp: budgetTable_def updRow_def entrySound_def setBudgetDeleted_def)
qed (use assms(2) in \<open>auto dest!: slotWrite_tables dayWrite_tables optionWrite_tables
    simp: slotTable_def dayTable_def optionTable_def voteTable_def commentTable_def\<close>)

lemma reachable_deferred: "reachable okEnv db \<Longrightarrow> deferredOK db"
proof (induction rule: reachable.induct)
  case (served db e tripID userID req res db' ops)
  then show ?case using serve_sound [of e tripID userID db req] serve_body [of e tripID userID req db]
    by (cases res) (auto simp: soundReply_def)
qed (simp_all add: deferredOK_def emptyPlan_def)

text \<open>C26: the ledger of a reachable database adds up: every entry has a non-negative amount in a known
  category, no member appears twice among its splits, no split is negative, and a split entry's shares
  sum to its amount as mathematical integers, so that no share is lost to the wrap-around of the
  64-bit sum that the validator computes.\<close>

theorem ledger_adds_up:
  assumes "reachable okEnv db"
  shows "\<forall>b \<in> set (dbBudgets db). 0 \<le> sint (bAmountMinor b) \<and> BudgetCategory_Valid (bCategory b) \<and>
    distinct (map bsUserID (bSplits b)) \<and> (\<forall>s \<in> set (bSplits b). 0 \<le> sint (bsAmountMinor s)) \<and>
    (bSplits b \<noteq> [] \<longrightarrow> trueTotal b = sint (bAmountMinor b))"
proof -
  have "\<forall>b \<in> set (dbBudgets db). entrySound b"
    using assms by (rule reachable_invariant) (auto simp: emptyPlan_def dest: step_entries)
  moreover have "deferredOK db" by (rule reachable_deferred [OF assms])
  ultimately show ?thesis by (auto simp: entrySound_def deferredOK_def list_all_iff trueTotal_def o_def)
qed

definition sampleEntryInput :: BudgetEntryInput where
  "sampleEntryInput = \<lparr>biLabel = ''Taxi'', biCategory = ''transport'', biAmountMinor = 101, biSlotOptionID = None,
     biPaidBy = Some 3, biIncurredOn = None,
     biSplits = [\<lparr>bsID = 31, bsUserID = 2, bsAmountMinor = 51, bsCreatedAt = 0\<rparr>,
       \<lparr>bsID = 32, bsUserID = 3, bsAmountMinor = 50, bsCreatedAt = 0\<rparr>], biID = 21, biVersion = None\<rparr>"

definition sampleLedger :: DB where
  "sampleLedger = fst (snd (serve (laterEnv 1) 1 3 (CreateEntry sampleEntryInput) sampleDB))"

lemma sample_ledger: "map (\<lambda>b. (sint (bAmountMinor b), length (bSplits b))) (dbBudgets sampleLedger) = [(101, 2)]"
  by code_simp

theorem ledger_adds_up_witness: "\<exists>b \<in> set (dbBudgets sampleLedger). length (bSplits b) = 2 \<and> trueTotal b = 101"
proof -
  obtain b where b: "dbBudgets sampleLedger = [b]" "sint (bAmountMinor b) = 101" "length (bSplits b) = 2"
    using sample_ledger by (auto simp: map_eq_Cons_conv)
  have "reachable (\<lambda>_. True) sampleLedger"
    unfolding sampleLedger_def by (intro reachable_serve sample_reachable) simp
  then show ?thesis using ledger_adds_up [of "\<lambda>_. True" sampleLedger] b by auto
qed

end
