(* ===== verification/Identity.thy ===== *)
theory Identity
  imports Store
begin

text \<open>Accounts and sessions (src/internal/service/auth.go over src/internal/repository: user.go,
  session.go, usertoken.go, and the tables of migrations/000001_identity.up.sql).

  Password hashing, token signing, SHA-256 and the mail grammar are third-party or opaque and come
  as the parameters of \<^theory_text>\<open>AuthConfig\<close>; so does lower-casing beyond ASCII, of Go and of the database.
  A request brings its clock readings, new identifiers and fresh secret in \<^theory_text>\<open>AuthEnv\<close>. Mails and
  revocation events are values that a request returns; a mail that cannot be sent is only logged.
  Statements fail for the reasons the schema gives; a lost connection to the database is not modelled, which
  matters where the code goes on after a failed statement: \<^theory_text>\<open>announceSessionRevoked\<close> and the revocation after
  the reuse of a refresh token are best effort there, and always carried out here.\<close>

section \<open>State\<close>

record AuthDB =
  auUsers :: "User list"
  auSessions :: "AuthSession list"
  auRefresh :: "RefreshToken list"
  auTokens :: "UserToken list"

record Claims =
  clUserID :: ID
  clSessionID :: ID

record AuthConfig =
  cfRefreshTokenTTL :: instant
  cfSessionTTL :: instant
  cfEmailVerifyTTL :: instant
  cfPasswordResetTTL :: instant
  cfWebBaseURL :: str
  cfAutoVerifyEmail :: bool
  cfParseAddress :: "str \<Rightarrow> str option"
  cfGoLower :: "str \<Rightarrow> str"
  cfSqlLower :: "str \<Rightarrow> str"
  cfSHA256 :: "str \<Rightarrow> str"
  cfVerify :: "str \<Rightarrow> str \<Rightarrow> (bool \<times> bool) res"
  cfIssue :: "ID \<Rightarrow> ID \<Rightarrow> instant \<Rightarrow> (str \<times> instant) res"
  cfParse :: "str \<Rightarrow> Claims res"

text \<open>\<^theory_text>\<open>anHash\<close> is the salted hash the request would compute of a password, \<^theory_text>\<open>anRaw\<close> the secret that
  \<^theory_text>\<open>secrets.New\<close> draws for it.\<close>

record AuthEnv =
  anNow :: instant
  anWall :: instant
  anTxNow :: instant
  anTimestamp :: "instant \<Rightarrow> instant"
  anID :: ID
  anID2 :: ID
  anRaw :: str
  anHash :: "str \<Rightarrow> str res"

datatype RevokeScope = RevokeScopeSession | RevokeScopeUser

record RevocationEvent =
  reScope :: RevokeScope
  reUserID :: ID
  reSessionID :: ID
  reReason :: str
  reAt :: instant

definition Matches :: "RevocationEvent \<Rightarrow> ID \<Rightarrow> ID \<Rightarrow> bool" where
  "Matches e userID sessionID =
     (if reUserID e \<noteq> userID then False else reScope e = RevokeScopeUser \<or> reSessionID e = sessionID)"

datatype AuthEvent =
    VerificationMail str str str
  | PasswordResetMail str str str
  | Revoked RevocationEvent

type_synonym 'a authReply = "'a res \<times> AuthDB \<times> AuthEvent list"

definition ToLower :: "(str \<Rightarrow> str) \<Rightarrow> str \<Rightarrow> str" where
  "ToLower lowerU s = (if ascii s then ToLowerASCII s else lowerU s)"

definition NormalizeEmail :: "(str \<Rightarrow> str) \<Rightarrow> str \<Rightarrow> str" where
  "NormalizeEmail lowerU email = ToLower lowerU (TrimSpace email)"

text \<open>A text column takes well-formed UTF-8 only.\<close>

definition validUTF8 :: "str \<Rightarrow> bool" where
  "validUTF8 s = list_all (\<lambda>g. decodeRune g \<noteq> (65533, 1)) (segments s)"

section \<open>Users\<close>

definition userChecks :: "User \<Rightarrow> unit query" where
  "userChecks u = violates
     [(RuneCountInString (uDisplayName u) < 1 \<or> 100 < RuneCountInString (uDisplayName u), CheckViolation ''users_display_name_len''),
      (RuneCountInString (uEmail u) < 3 \<or> 320 < RuneCountInString (uEmail u), CheckViolation ''users_email_len''),
      (uVersion u \<le> 0, CheckViolation ''users_version_positive'')]"

text \<open>The partial unique index on \<^theory_text>\<open>lower(email)\<close>: no other live row has the folded address.\<close>

definition emailTaken :: "AuthConfig \<Rightarrow> User list \<Rightarrow> User \<Rightarrow> unit query" where
  "emailTaken cfg rows u = violates
     [(list_ex (\<lambda>r. uID r \<noteq> uID u \<and> uDeletedAt r = None \<and>
         ToLower (cfSqlLower cfg) (uEmail r) = ToLower (cfSqlLower cfg) (uEmail u)) rows,
       UniqueViolation ''users_email_lower_uq'')]"

definition newUserRow :: "AuthEnv \<Rightarrow> User \<Rightarrow> User" where
  "newUserRow e u = u\<lparr>uEmailVerifiedAt := map_option (anTimestamp e) (uEmailVerifiedAt u), uVersion := 1,
     uCreatedAt := anTxNow e, uUpdatedAt := anTxNow e, uDeletedAt := None\<rparr>"

definition UserRepository_Create :: "AuthConfig \<Rightarrow> AuthEnv \<Rightarrow> User \<Rightarrow> AuthDB \<Rightarrow> (User \<times> AuthDB) res" where
  "UserRepository_Create cfg e u db =
     bindR (mapErrorR (insertRow ''users_pkey'' uID userChecks (emailTaken cfg (auUsers db)) (newUserRow e u) (auUsers db)))
       (\<lambda>(r, rows). Inr (r, db\<lparr>auUsers := rows\<rparr>))"

definition UserRepository_GetByID :: "ID \<Rightarrow> AuthDB \<Rightarrow> User res" where
  "UserRepository_GetByID i db = getLive uID uDeletedAt (auUsers db) i"

definition UserRepository_GetByEmail :: "AuthConfig \<Rightarrow> str \<Rightarrow> AuthDB \<Rightarrow> User res" where
  "UserRepository_GetByEmail cfg email db =
     (let key = ToLower (cfSqlLower cfg) (NormalizeEmail (cfGoLower cfg) email) in
      case find (\<lambda>u. ToLower (cfSqlLower cfg) (uEmail u) = key \<and> uDeletedAt u = None) (auUsers db) of
        Some u \<Rightarrow> Inr u
      | None \<Rightarrow> Inl (mapError ErrNoRows))"

definition setUser :: "AuthEnv \<Rightarrow> User \<Rightarrow> User \<Rightarrow> User" where
  "setUser e u r = r\<lparr>uEmail := uEmail u, uDisplayName := uDisplayName u, uPasswordHash := uPasswordHash u,
     uEmailVerifiedAt := map_option (anTimestamp e) (uEmailVerifiedAt u), uVersion := uVersion r + 1,
     uUpdatedAt := anTimestamp e (anWall e)\<rparr>"

definition UserRepository_Update :: "AuthConfig \<Rightarrow> AuthEnv \<Rightarrow> User \<Rightarrow> AuthDB \<Rightarrow> (User \<times> AuthDB) res" where
  "UserRepository_Update cfg e u db =
     bindR (updateVersioned uID uVersion uDeletedAt
         (\<lambda>r. bindR (userChecks r) (\<lambda>_. emailTaken cfg (auUsers db) r))
         (uID u) (uVersion u) (setUser e u) (auUsers db))
       (\<lambda>(r, rows). Inr (r, db\<lparr>auUsers := rows\<rparr>))"

section \<open>Sessions\<close>

definition newSessionRow :: "AuthEnv \<Rightarrow> AuthSession \<Rightarrow> AuthSession" where
  "newSessionRow e s = s\<lparr>asCreatedAt := anTxNow e, asLastUsedAt := anTxNow e,
     asExpiresAt := anTimestamp e (asExpiresAt s), asRevokedAt := None, asRevokedReason := []\<rparr>"

definition SessionRepository_CreateSession ::
  "AuthEnv \<Rightarrow> AuthSession \<Rightarrow> AuthDB \<Rightarrow> (AuthSession \<times> AuthDB) res" where
  "SessionRepository_CreateSession e s db =
     bindR (mapErrorR (insertRow ''auth_sessions_pkey'' asID
         (\<lambda>r. violates [(\<not> validUTF8 (asUserAgent r), OtherCode ''22021'')])
         (\<lambda>r. violates [(asUserID r \<notin> uID ` set (auUsers db), ForeignKeyViolation ''auth_sessions_user_id_fkey'')])
         (newSessionRow e s) (auSessions db)))
       (\<lambda>(r, rows). Inr (r, db\<lparr>auSessions := rows\<rparr>))"

definition SessionRepository_GetSession :: "ID \<Rightarrow> AuthDB \<Rightarrow> AuthSession res" where
  "SessionRepository_GetSession i db =
     (case findRow asID i (auSessions db) of Some s \<Rightarrow> Inr s | None \<Rightarrow> Inl (mapError ErrNoRows))"

definition SessionRepository_ListActiveSessions :: "AuthEnv \<Rightarrow> ID \<Rightarrow> AuthDB \<Rightarrow> AuthSession list" where
  "SessionRepository_ListActiveSessions e userID db =
     rev (sort_key asLastUsedAt (rev (filter
       (\<lambda>s. asUserID s = userID \<and> asRevokedAt s = None \<and> asExpiresAt s > anWall e) (auSessions db))))"

text \<open>The remaining statements report no error for zero rows, and no constraint can refuse them: they are
  functions on the tables. A session that is revoked keeps its first reason.\<close>

definition revoke :: "AuthEnv \<Rightarrow> str \<Rightarrow> AuthSession \<Rightarrow> AuthSession" where
  "revoke e reason s =
     (if asRevokedAt s = None
      then s\<lparr>asRevokedAt := Some (anTimestamp e (anNow e)), asRevokedReason := reason\<rparr>
      else s)"

definition SessionRepository_TouchSession :: "AuthEnv \<Rightarrow> ID \<Rightarrow> AuthDB \<Rightarrow> AuthDB" where
  "SessionRepository_TouchSession e i db = db\<lparr>auSessions :=
     updRow asID i (\<lambda>s. if asRevokedAt s = None then s\<lparr>asLastUsedAt := anTimestamp e (anNow e)\<rparr> else s) (auSessions db)\<rparr>"

definition SessionRepository_RevokeSession :: "AuthEnv \<Rightarrow> ID \<Rightarrow> str \<Rightarrow> AuthDB \<Rightarrow> AuthDB" where
  "SessionRepository_RevokeSession e i reason db =
     db\<lparr>auSessions := updRow asID i (revoke e reason) (auSessions db)\<rparr>"

definition SessionRepository_RevokeAllSessions :: "AuthEnv \<Rightarrow> ID \<Rightarrow> str \<Rightarrow> AuthDB \<Rightarrow> AuthDB" where
  "SessionRepository_RevokeAllSessions e userID reason db =
     db\<lparr>auSessions := map (\<lambda>s. if asUserID s = userID then revoke e reason s else s) (auSessions db)\<rparr>"

section \<open>Single-use tokens\<close>

text \<open>\<^theory_text>\<open>UPDATE ... WHERE id = @id AND spent_at IS NULL\<close>: \<^theory_text>\<open>None\<close> when no row matched.\<close>

definition consumeRow ::
  "('r \<Rightarrow> ID) \<Rightarrow> ('r \<Rightarrow> instant option) \<Rightarrow> ID \<Rightarrow> ('r \<Rightarrow> 'r) \<Rightarrow> 'r list \<Rightarrow> 'r list option" where
  "consumeRow key spent i f rows =
     (case findRow key i rows of
        None \<Rightarrow> None
      | Some r \<Rightarrow>
          if spent r = None then Some (updRow key i (\<lambda>r. if spent r = None then f r else r) rows) else None)"

definition findHash :: "('r \<Rightarrow> str) \<Rightarrow> str \<Rightarrow> 'r list \<Rightarrow> 'r res" where
  "findHash hash h rows =
     (case find (\<lambda>r. hash r = h) rows of Some r \<Rightarrow> Inr r | None \<Rightarrow> Inl (mapError ErrNoRows))"

definition newRefreshRow :: "AuthEnv \<Rightarrow> RefreshToken \<Rightarrow> RefreshToken" where
  "newRefreshRow e t = t\<lparr>rtIssuedAt := anTxNow e, rtExpiresAt := anTimestamp e (rtExpiresAt t),
     rtUsedAt := None, rtReplacedBy := None\<rparr>"

definition SessionRepository_CreateRefreshToken ::
  "AuthEnv \<Rightarrow> RefreshToken \<Rightarrow> AuthDB \<Rightarrow> (RefreshToken \<times> AuthDB) res" where
  "SessionRepository_CreateRefreshToken e t db =
     bindR (mapErrorR (insertRow ''refresh_tokens_pkey'' rtID
         (\<lambda>r. violates [(length (rtTokenHash r) \<noteq> 32, CheckViolation ''refresh_tokens_hash_len'')])
         (\<lambda>r. violates
           [(rtTokenHash r \<in> rtTokenHash ` set (auRefresh db), UniqueViolation ''refresh_tokens_hash_uq''),
            (rtSessionID r \<notin> asID ` set (auSessions db), ForeignKeyViolation ''refresh_tokens_session_id_fkey'')])
         (newRefreshRow e t) (auRefresh db)))
       (\<lambda>(r, rows). Inr (r, db\<lparr>auRefresh := rows\<rparr>))"

definition SessionRepository_GetRefreshTokenByHash :: "str \<Rightarrow> AuthDB \<Rightarrow> RefreshToken res" where
  "SessionRepository_GetRefreshTokenByHash h db = findHash rtTokenHash h (auRefresh db)"

definition markUsed :: "AuthEnv \<Rightarrow> ID \<Rightarrow> RefreshToken \<Rightarrow> RefreshToken" where
  "markUsed e replacedBy t =
     t\<lparr>rtUsedAt := Some (anTimestamp e (anNow e)), rtReplacedBy := Some replacedBy\<rparr>"

definition SessionRepository_MarkRefreshTokenUsed :: "AuthEnv \<Rightarrow> ID \<Rightarrow> ID \<Rightarrow> AuthDB \<Rightarrow> AuthDB res" where
  "SessionRepository_MarkRefreshTokenUsed e i replacedBy db =
     (case consumeRow rtID rtUsedAt i (markUsed e replacedBy) (auRefresh db) of
        None \<Rightarrow> Inl ErrTokenConsumed
      | Some rows \<Rightarrow>
          if replacedBy \<notin> rtID ` set rows
          then Inl (mapError (ForeignKeyViolation ''refresh_tokens_replaced_by_fkey''))
          else Inr (db\<lparr>auRefresh := rows\<rparr>))"

definition newTokenRow :: "AuthEnv \<Rightarrow> UserToken \<Rightarrow> UserToken" where
  "newTokenRow e t = t\<lparr>utExpiresAt := anTimestamp e (utExpiresAt t), utConsumedAt := None, utCreatedAt := anTxNow e\<rparr>"

definition UserTokenRepository_Create :: "AuthEnv \<Rightarrow> UserToken \<Rightarrow> AuthDB \<Rightarrow> (UserToken \<times> AuthDB) res" where
  "UserTokenRepository_Create e t db =
     bindR (mapErrorR (insertRow ''user_tokens_pkey'' utID
         (\<lambda>r. violates [(length (utTokenHash r) \<noteq> 32, CheckViolation ''user_tokens_hash_len''),
            (\<not> TokenPurpose_Valid (utPurpose r), CheckViolation ''user_tokens_purpose'')])
         (\<lambda>r. violates
           [(utTokenHash r \<in> utTokenHash ` set (auTokens db), UniqueViolation ''user_tokens_hash_uq''),
            (utUserID r \<notin> uID ` set (auUsers db), ForeignKeyViolation ''user_tokens_user_id_fkey'')])
         (newTokenRow e t) (auTokens db)))
       (\<lambda>(r, rows). Inr (r, db\<lparr>auTokens := rows\<rparr>))"

definition UserTokenRepository_GetByHash :: "str \<Rightarrow> AuthDB \<Rightarrow> UserToken res" where
  "UserTokenRepository_GetByHash h db = findHash utTokenHash h (auTokens db)"

definition consumed :: "AuthEnv \<Rightarrow> UserToken \<Rightarrow> UserToken" where
  "consumed e t = t\<lparr>utConsumedAt := Some (anTimestamp e (anNow e))\<rparr>"

definition UserTokenRepository_Consume :: "AuthEnv \<Rightarrow> ID \<Rightarrow> AuthDB \<Rightarrow> AuthDB res" where
  "UserTokenRepository_Consume e i db =
     (case consumeRow utID utConsumedAt i (consumed e) (auTokens db) of
        None \<Rightarrow> Inl ErrTokenConsumed
      | Some rows \<Rightarrow> Inr (db\<lparr>auTokens := rows\<rparr>))"

definition UserTokenRepository_ConsumeAllForPurpose :: "AuthEnv \<Rightarrow> ID \<Rightarrow> TokenPurpose \<Rightarrow> AuthDB \<Rightarrow> AuthDB" where
  "UserTokenRepository_ConsumeAllForPurpose e userID purpose db = db\<lparr>auTokens :=
     map (\<lambda>t. if utUserID t = userID \<and> utPurpose t = purpose \<and> utConsumedAt t = None then consumed e t else t)
       (auTokens db)\<rparr>"

section \<open>Transactions\<close>

text \<open>\<^theory_text>\<open>TxManager.WithinTx\<close> for statements without a recorder: an error rolls the tables back.\<close>

definition inTx :: "('s \<Rightarrow> ('a \<times> 's) res) \<Rightarrow> 's \<Rightarrow> 'a res \<times> 's" where
  "inTx fn db = (case fn db of Inl err \<Rightarrow> (Inl err, db) | Inr (x, db') \<Rightarrow> (Inr x, db'))"

end
