(* ===== verification/AuthService.thy ===== *)
theory AuthService
  imports Identity
begin

text \<open>The authentication service (src/internal/service/auth.go): signup, login, rotation of refresh
  tokens, logout, email verification, password reset, sessions.

  Every method is one function from the tables to its result, the tables after it and the mails and
  revocation events it sent, in order. \<^theory_text>\<open>Refresh\<close> reads the token and its session before its
  transaction, and other requests may run in between: it is the composition of
  \<^theory_text>\<open>Refresh_lookup\<close> and \<^theory_text>\<open>Refresh_rotate\<close>, which the steps below also interleave.\<close>

section \<open>Helpers\<close>

definition truncateAt :: "str \<Rightarrow> nat \<Rightarrow> str" where
  "truncateAt s n = (if length s \<le> n then s else take n s)"

record RequestMeta =
  rmUserAgent :: str
  rmIP :: "str option"

record TokenPair =
  tpAccessToken :: str
  tpAccessExpiresAt :: instant
  tpRefreshToken :: str
  tpRefreshExpiresAt :: instant
  tpSessionID :: ID

definition issueUserToken ::
  "AuthConfig \<Rightarrow> AuthEnv \<Rightarrow> ID \<Rightarrow> TokenPurpose \<Rightarrow> instant \<Rightarrow> AuthDB \<Rightarrow> (str \<times> AuthDB) res" where
  "issueUserToken cfg e userID purpose ttl db =
     bindR (UserTokenRepository_Create e
         \<lparr>utID = anID2 e, utUserID = userID, utPurpose = purpose, utTokenHash = cfSHA256 cfg (anRaw e),
          utExpiresAt = anNow e + ttl, utConsumedAt = None, utCreatedAt = zeroTime\<rparr> db)
       (\<lambda>(_, db'). Inr (anRaw e, db'))"

definition consumeUserToken ::
  "AuthConfig \<Rightarrow> AuthEnv \<Rightarrow> str \<Rightarrow> TokenPurpose \<Rightarrow> AuthDB \<Rightarrow> (UserToken \<times> AuthDB) res" where
  "consumeUserToken cfg e raw purpose db =
     (case UserTokenRepository_GetByHash (cfSHA256 cfg raw) db of
        Inl err \<Rightarrow> Inl (if err = ErrNotFound then ErrTokenInvalid else err)
      | Inr t \<Rightarrow>
          if utPurpose t \<noteq> purpose then Inl ErrTokenInvalid
          else if utConsumedAt t \<noteq> None then Inl ErrTokenConsumed
          else if \<not> anNow e < utExpiresAt t then Inl ErrTokenExpired
          else bindR (UserTokenRepository_Consume e (utID t) db) (\<lambda>db'. Inr (t, db')))"

definition announceSessionRevoked :: "AuthEnv \<Rightarrow> ID \<Rightarrow> str \<Rightarrow> AuthDB \<Rightarrow> AuthEvent list" where
  "announceSessionRevoked e sessionID reason db =
     (case SessionRepository_GetSession sessionID db of
        Inl _ \<Rightarrow> []
      | Inr s \<Rightarrow> [Revoked \<lparr>reScope = RevokeScopeSession, reUserID = asUserID s, reSessionID = sessionID,
                    reReason = reason, reAt = anNow e\<rparr>])"

section \<open>Signup and login\<close>

record SignupInput =
  siEmail :: str
  siPassword :: str
  siDisplayName :: str

definition signupUser :: "AuthConfig \<Rightarrow> AuthEnv \<Rightarrow> SignupInput \<Rightarrow> str \<Rightarrow> User" where
  "signupUser cfg e inp hash =
     \<lparr>uID = anID e, uEmail = NormalizeEmail (cfGoLower cfg) (siEmail inp), uPasswordHash = hash,
      uDisplayName = siDisplayName inp,
      uEmailVerifiedAt = (if cfAutoVerifyEmail cfg then Some (anNow e) else None),
      uVersion = 1, uCreatedAt = anNow e, uUpdatedAt = anNow e, uDeletedAt = None\<rparr>"

definition AuthService_Signup :: "AuthConfig \<Rightarrow> AuthEnv \<Rightarrow> SignupInput \<Rightarrow> AuthDB \<Rightarrow> User authReply" where
  "AuthService_Signup cfg e inp db =
     (let ve = ValidateDisplayName ''display_name'' (siDisplayName inp)
                 (ValidatePassword ''password'' (siPassword inp)
                   (ValidateEmail (cfParseAddress cfg) ''email'' (siEmail inp) [])) in
      case OrNil ve of Inl err \<Rightarrow> (Inl err, db, [])
      | Inr _ \<Rightarrow>
        (case anHash e (siPassword inp) of Inl err \<Rightarrow> (Inl err, db, [])
         | Inr hash \<Rightarrow>
           if cfAutoVerifyEmail cfg
           then (case inTx (UserRepository_Create cfg e (signupUser cfg e inp hash)) db of
                   (res, db') \<Rightarrow> (res, db', []))
           else (case inTx (\<lambda>d. bindR (UserRepository_Create cfg e (signupUser cfg e inp hash) d)
                       (\<lambda>(u, d). bindR (issueUserToken cfg e (uID u) TokenPurposeEmailVerify (cfEmailVerifyTTL cfg) d)
                         (\<lambda>(raw, d). Inr ((u, raw), d)))) db of
                   (Inl err, db') \<Rightarrow> (Inl err, db', [])
                 | (Inr (u, raw), db') \<Rightarrow> (Inr u, db', [VerificationMail (uEmail u) (uDisplayName u)
                     (cfWebBaseURL cfg @ ''/verify-email?token='' @ raw)]))))"

definition rehashPassword :: "AuthConfig \<Rightarrow> AuthEnv \<Rightarrow> User \<Rightarrow> str \<Rightarrow> AuthDB \<Rightarrow> AuthDB" where
  "rehashPassword cfg e u plaintext db =
     (case bindR (anHash e plaintext) (\<lambda>hash. UserRepository_Update cfg e (u\<lparr>uPasswordHash := hash\<rparr>) db) of
        Inl _ \<Rightarrow> db
      | Inr (_, db') \<Rightarrow> db')"

definition newSession :: "AuthConfig \<Rightarrow> AuthEnv \<Rightarrow> ID \<Rightarrow> RequestMeta \<Rightarrow> AuthSession" where
  "newSession cfg e userID meta =
     \<lparr>asID = anID e, asUserID = userID, asUserAgent = truncateAt (rmUserAgent meta) 512, asIP = rmIP meta,
      asCreatedAt = zeroTime, asLastUsedAt = zeroTime, asExpiresAt = anNow e + cfSessionTTL cfg,
      asRevokedAt = None, asRevokedReason = []\<rparr>"

definition newRefresh :: "AuthConfig \<Rightarrow> AuthEnv \<Rightarrow> ID \<Rightarrow> RefreshToken" where
  "newRefresh cfg e sessionID =
     \<lparr>rtID = anID2 e, rtSessionID = sessionID, rtTokenHash = cfSHA256 cfg (anRaw e), rtIssuedAt = zeroTime,
      rtExpiresAt = anNow e + cfRefreshTokenTTL cfg, rtUsedAt = None, rtReplacedBy = None\<rparr>"

definition issuePair :: "AuthConfig \<Rightarrow> AuthEnv \<Rightarrow> ID \<Rightarrow> ID \<Rightarrow> TokenPair res" where
  "issuePair cfg e userID sessionID =
     bindR (cfIssue cfg userID sessionID (anNow e)) (\<lambda>(access, accessExp).
       Inr \<lparr>tpAccessToken = access, tpAccessExpiresAt = accessExp, tpRefreshToken = anRaw e,
            tpRefreshExpiresAt = anNow e + cfRefreshTokenTTL cfg, tpSessionID = sessionID\<rparr>)"

text \<open>The session is opened and committed before the access token is signed.\<close>

definition openSession :: "AuthConfig \<Rightarrow> AuthEnv \<Rightarrow> ID \<Rightarrow> RequestMeta \<Rightarrow> AuthDB \<Rightarrow> TokenPair res \<times> AuthDB" where
  "openSession cfg e userID meta db =
     (case inTx (\<lambda>d. bindR (SessionRepository_CreateSession e (newSession cfg e userID meta) d)
            (\<lambda>(s, d). SessionRepository_CreateRefreshToken e (newRefresh cfg e (asID s)) d)) db of
        (Inl err, db') \<Rightarrow> (Inl err, db')
      | (Inr _, db') \<Rightarrow> (issuePair cfg e userID (anID e), db'))"

definition AuthService_Login ::
  "AuthConfig \<Rightarrow> AuthEnv \<Rightarrow> str \<Rightarrow> str \<Rightarrow> RequestMeta \<Rightarrow> AuthDB \<Rightarrow> (User \<times> TokenPair) authReply" where
  "AuthService_Login cfg e email password meta db =
     (case UserRepository_GetByEmail cfg email db of
        Inl err \<Rightarrow> (Inl (if err = ErrNotFound then ErrInvalidCredentials else err), db, [])
      | Inr u \<Rightarrow>
        (case cfVerify cfg (uPasswordHash u) password of
           Inl err \<Rightarrow> (Inl err, db, [])
         | Inr (ok, needsRehash) \<Rightarrow>
           if \<not> ok then (Inl ErrInvalidCredentials, db, [])
           else if \<not> IsEmailVerified u then (Inl ErrEmailNotVerified, db, [])
           else
             let db' = (if needsRehash then rehashPassword cfg e u password db else db) in
             (case openSession cfg e (uID u) meta db' of
                (res, db'') \<Rightarrow> (bindR res (\<lambda>pair. Inr (u, pair)), db'', []))))"

section \<open>Rotation\<close>

datatype RefreshLookup = Rejected error | Reused RefreshToken | Live RefreshToken AuthSession

definition Refresh_lookup :: "AuthConfig \<Rightarrow> AuthEnv \<Rightarrow> str \<Rightarrow> AuthDB \<Rightarrow> RefreshLookup" where
  "Refresh_lookup cfg e raw db =
     (case SessionRepository_GetRefreshTokenByHash (cfSHA256 cfg raw) db of
        Inl err \<Rightarrow> Rejected (if err = ErrNotFound then ErrTokenInvalid else err)
      | Inr stored \<Rightarrow>
          if RefreshToken_IsUsed stored then Reused stored
          else if RefreshToken_IsExpired stored (anNow e) then Rejected ErrTokenExpired
          else (case SessionRepository_GetSession (rtSessionID stored) db of
                  Inl err \<Rightarrow> Rejected err
                | Inr s \<Rightarrow> if \<not> AuthSession_IsActive s (anNow e) then Rejected ErrTokenInvalid
                          else Live stored s))"

text \<open>The successor is inserted before the old token points at it; the guard on \<^theory_text>\<open>used_at\<close> decides
  between racing requests, and the loser kills the session.\<close>

definition Refresh_rotate ::
  "AuthConfig \<Rightarrow> AuthEnv \<Rightarrow> RefreshToken \<Rightarrow> AuthSession \<Rightarrow> AuthDB \<Rightarrow> TokenPair authReply" where
  "Refresh_rotate cfg e stored session db =
     (case inTx (\<lambda>d. bindR (SessionRepository_CreateRefreshToken e (newRefresh cfg e (asID session)) d)
            (\<lambda>(_, d). bindR (SessionRepository_MarkRefreshTokenUsed e (rtID stored) (anID2 e) d)
              (\<lambda>d. Inr ((), SessionRepository_TouchSession e (asID session) d)))) db of
        (Inr _, db') \<Rightarrow> (issuePair cfg e (asUserID session) (asID session), db', [])
      | (Inl err, db') \<Rightarrow>
          if err = ErrTokenConsumed
          then (Inl ErrTokenConsumed, SessionRepository_RevokeSession e (asID session) RevokeReasonTokenReuse db',
                [Revoked \<lparr>reScope = RevokeScopeSession, reUserID = asUserID session, reSessionID = asID session,
                   reReason = RevokeReasonTokenReuse, reAt = anNow e\<rparr>])
          else (Inl err, db', []))"

definition AuthService_Refresh :: "AuthConfig \<Rightarrow> AuthEnv \<Rightarrow> str \<Rightarrow> AuthDB \<Rightarrow> TokenPair authReply" where
  "AuthService_Refresh cfg e raw db =
     (case Refresh_lookup cfg e raw db of
        Rejected err \<Rightarrow> (Inl err, db, [])
      | Reused stored \<Rightarrow>
          let db' = SessionRepository_RevokeSession e (rtSessionID stored) RevokeReasonTokenReuse db in
          (Inl ErrTokenConsumed, db', announceSessionRevoked e (rtSessionID stored) RevokeReasonTokenReuse db')
      | Live stored session \<Rightarrow> Refresh_rotate cfg e stored session db)"

section \<open>Logout, verification, reset\<close>

definition AuthService_Logout :: "AuthConfig \<Rightarrow> AuthEnv \<Rightarrow> str \<Rightarrow> AuthDB \<Rightarrow> unit authReply" where
  "AuthService_Logout cfg e raw db =
     (case SessionRepository_GetRefreshTokenByHash (cfSHA256 cfg raw) db of
        Inl err \<Rightarrow> (if err = ErrNotFound then Inr () else Inl err, db, [])
      | Inr stored \<Rightarrow>
          let db' = SessionRepository_RevokeSession e (rtSessionID stored) RevokeReasonLogout db in
          (Inr (), db', announceSessionRevoked e (rtSessionID stored) RevokeReasonLogout db'))"

definition AuthService_VerifyEmail :: "AuthConfig \<Rightarrow> AuthEnv \<Rightarrow> str \<Rightarrow> AuthDB \<Rightarrow> unit authReply" where
  "AuthService_VerifyEmail cfg e raw db =
     (case inTx (\<lambda>d. bindR (consumeUserToken cfg e raw TokenPurposeEmailVerify d) (\<lambda>(t, d).
            bindR (UserRepository_GetByID (utUserID t) d) (\<lambda>u.
              if IsEmailVerified u then Inr ((), d)
              else bindR (UserRepository_Update cfg e (u\<lparr>uEmailVerifiedAt := Some (anNow e)\<rparr>) d)
                (\<lambda>(_, d). Inr ((), d))))) db of
        (res, db') \<Rightarrow> (res, db', []))"

definition AuthService_RequestPasswordReset :: "AuthConfig \<Rightarrow> AuthEnv \<Rightarrow> str \<Rightarrow> AuthDB \<Rightarrow> unit authReply" where
  "AuthService_RequestPasswordReset cfg e email db =
     (case OrNil (ValidateEmail (cfParseAddress cfg) ''email'' email []) of
        Inl err \<Rightarrow> (Inl err, db, [])
      | Inr _ \<Rightarrow>
        (case UserRepository_GetByEmail cfg email db of
           Inl err \<Rightarrow> (if err = ErrNotFound then Inr () else Inl err, db, [])
         | Inr u \<Rightarrow>
           (case inTx (\<lambda>d. issueUserToken cfg e (uID u) TokenPurposePasswordReset (cfPasswordResetTTL cfg)
                    (UserTokenRepository_ConsumeAllForPurpose e (uID u) TokenPurposePasswordReset d)) db of
              (Inl err, db') \<Rightarrow> (Inl err, db', [])
            | (Inr raw, db') \<Rightarrow> (Inr (), db', [PasswordResetMail (uEmail u) (uDisplayName u)
                (cfWebBaseURL cfg @ ''/reset-password?token='' @ raw)]))))"

definition resetAccount :: "AuthEnv \<Rightarrow> str \<Rightarrow> User \<Rightarrow> User" where
  "resetAccount e hash u =
     (let u' = u\<lparr>uPasswordHash := hash\<rparr> in
      if \<not> IsEmailVerified u' then u'\<lparr>uEmailVerifiedAt := Some (anNow e)\<rparr> else u')"

definition resetBody :: "AuthConfig \<Rightarrow> AuthEnv \<Rightarrow> str \<Rightarrow> str \<Rightarrow> AuthDB \<Rightarrow> (ID \<times> AuthDB) res" where
  "resetBody cfg e raw hash db =
     bindR (consumeUserToken cfg e raw TokenPurposePasswordReset db) (\<lambda>(t, d).
     bindR (UserRepository_GetByID (utUserID t) d) (\<lambda>u.
     bindR (UserRepository_Update cfg e (resetAccount e hash u) d) (\<lambda>(_, d).
       Inr (uID u, SessionRepository_RevokeAllSessions e (uID u) RevokeReasonPasswordReset d))))"

definition AuthService_ResetPassword :: "AuthConfig \<Rightarrow> AuthEnv \<Rightarrow> str \<Rightarrow> str \<Rightarrow> AuthDB \<Rightarrow> unit authReply" where
  "AuthService_ResetPassword cfg e raw newPassword db =
     (case OrNil (ValidatePassword ''password'' newPassword []) of
        Inl err \<Rightarrow> (Inl err, db, [])
      | Inr _ \<Rightarrow>
        (case anHash e newPassword of
           Inl err \<Rightarrow> (Inl err, db, [])
         | Inr hash \<Rightarrow>
           (case inTx (resetBody cfg e raw hash) db of
              (Inl err, db') \<Rightarrow> (Inl err, db', [])
            | (Inr userID, db') \<Rightarrow> (Inr (), db', [Revoked \<lparr>reScope = RevokeScopeUser, reUserID = userID,
                reSessionID = NilID, reReason = RevokeReasonPasswordReset, reAt = anNow e\<rparr>]))))"

section \<open>Sessions\<close>

definition AuthService_User :: "ID \<Rightarrow> AuthDB \<Rightarrow> User res" where
  "AuthService_User i db = UserRepository_GetByID i db"

definition AuthService_ListSessions :: "AuthEnv \<Rightarrow> ID \<Rightarrow> AuthDB \<Rightarrow> AuthSession list" where
  "AuthService_ListSessions e userID db = SessionRepository_ListActiveSessions e userID db"

definition AuthService_RevokeSession :: "AuthEnv \<Rightarrow> ID \<Rightarrow> ID \<Rightarrow> AuthDB \<Rightarrow> unit authReply" where
  "AuthService_RevokeSession e userID sessionID db =
     (case SessionRepository_GetSession sessionID db of
        Inl err \<Rightarrow> (Inl err, db, [])
      | Inr s \<Rightarrow>
          if asUserID s \<noteq> userID then (Inl ErrNotFound, db, [])
          else (Inr (), SessionRepository_RevokeSession e sessionID RevokeReasonUserRequest db,
                [Revoked \<lparr>reScope = RevokeScopeSession, reUserID = asUserID s, reSessionID = sessionID,
                   reReason = RevokeReasonUserRequest, reAt = anNow e\<rparr>]))"

definition AuthService_Authenticate :: "AuthConfig \<Rightarrow> AuthEnv \<Rightarrow> str \<Rightarrow> AuthDB \<Rightarrow> Claims res" where
  "AuthService_Authenticate cfg e accessToken db =
     bindR (cfParse cfg accessToken) (\<lambda>cl.
       case SessionRepository_GetSession (clSessionID cl) db of
         Inl err \<Rightarrow> Inl (if err = ErrNotFound then ErrTokenInvalid else err)
       | Inr s \<Rightarrow>
           if \<not> AuthSession_IsActive s (anNow e) then Inl ErrTokenInvalid
           else if asUserID s \<noteq> clUserID cl then Inl ErrTokenInvalid
           else Inr cl)"

end
