(* ===== verification/Credentials.thy ===== *)
theory Credentials
  imports AuthService
begin

text \<open>What the authentication service guarantees about credentials: refresh and mailed tokens are
  spent once, a replayed refresh token ends its session, a password reset ends every session, and
  live connections hear of every revocation. The steps interleave any number of requests, each of
  which may act on values it read earlier.\<close>

section \<open>Tables that only grow\<close>

text \<open>Rows are added at the end and changed in place by a relation \<^theory_text>\<open>R\<close>; nothing is deleted.\<close>

definition rowsGrow :: "('r \<Rightarrow> 'r \<Rightarrow> bool) \<Rightarrow> 'r list \<Rightarrow> 'r list \<Rightarrow> bool" where
  "rowsGrow R rows rows' \<longleftrightarrow> (\<exists>ys zs. rows' = ys @ zs \<and> list_all2 R rows ys)"

named_theorems grows "tables that only grow"

lemma rowsGrow_refl [grows]: "(\<And>r. R r r) \<Longrightarrow> rowsGrow R rows rows"
  unfolding rowsGrow_def by (intro exI [of _ rows] exI [of _ "[]"]) (simp add: list.rel_refl)

lemma rowsGrow_append [grows]: "(\<And>r. R r r) \<Longrightarrow> rowsGrow R rows (rows @ new)"
  unfolding rowsGrow_def by (intro exI [of _ rows] exI [of _ new]) (simp add: list.rel_refl)

lemma rowsGrow_map [grows]: "(\<And>r. R r (f r)) \<Longrightarrow> rowsGrow R rows (map f rows)"
  unfolding rowsGrow_def
  by (intro exI [of _ "map f rows"] exI [of _ "[]"]) (simp add: list_all2_conv_all_nth)

lemma rowsGrow_updRow [grows]: "(\<And>r. R r r) \<Longrightarrow> (\<And>r. R r (f r)) \<Longrightarrow> rowsGrow R rows (updRow key i f rows)"
  unfolding updRow_def by (rule rowsGrow_map) simp

lemma rowsGrow_trans:
  assumes "transp R" "rowsGrow R xs ys" "rowsGrow R ys zs"
  shows "rowsGrow R xs zs"
proof -
  obtain ys1 ys2 where y: "ys = ys1 @ ys2" "list_all2 R xs ys1" using assms(2) by (auto simp: rowsGrow_def)
  obtain zs1 zs2 where z: "zs = zs1 @ zs2" "list_all2 R ys zs1" using assms(3) by (auto simp: rowsGrow_def)
  obtain us vs where u: "zs1 = us @ vs" "list_all2 R ys1 us"
    using z(2) unfolding y(1) list_all2_append1 by blast
  have "list_all2 R xs us"
    using list_all2_trans [of R R R xs ys1 us] assms(1) y(2) u(2) by (meson transpD)
  then show ?thesis unfolding rowsGrow_def using z(1) u(1) by auto
qed

lemma rowsGrow_find:
  assumes "rowsGrow R rows rows'" "\<And>a b. R a b \<Longrightarrow> P b = P a" "find P rows = Some r"
  shows "\<exists>r'. find P rows' = Some r' \<and> R r r'"
proof -
  obtain ys zs where g: "rows' = ys @ zs" "list_all2 R rows ys" using assms(1) by (auto simp: rowsGrow_def)
  have "find P rows = Some r \<Longrightarrow> \<exists>r'. find P (ys @ zs) = Some r' \<and> R r r'"
    using g(2) by (induction rule: list_all2_induct) (auto simp: assms(2))
  then show ?thesis using assms(3) g(1) by simp
qed

lemma rowsGrow_findRow:
  assumes "rowsGrow R rows rows'" "\<And>a b. R a b \<Longrightarrow> key b = key a" "findRow key i rows = Some r"
  shows "\<exists>r'. findRow key i rows' = Some r' \<and> R r r'"
  using rowsGrow_find [of R rows rows' "\<lambda>r. key r = i" r] assms by (simp add: findRow_def)

section \<open>Guarded consumption as an interface\<close>

text \<open>A credential that is spent by \<^theory_text>\<open>UPDATE ... WHERE id = @id AND spent_at IS NULL\<close> is spent at most
  once, whatever happens to the table in between, as long as spent rows stay spent.\<close>

locale single_use =
  fixes key :: "'r \<Rightarrow> ID" and spent :: "'r \<Rightarrow> instant option" and spend :: "'r \<Rightarrow> 'r"
    and keep :: "'r \<Rightarrow> 'r \<Rightarrow> bool"
  assumes spend_key: "key (spend r) = key r"
    and spend_spent: "spent (spend r) \<noteq> None"
    and keep_key: "keep r r' \<Longrightarrow> key r' = key r"
    and keep_spent: "keep r r' \<Longrightarrow> spent r \<noteq> None \<Longrightarrow> r' = r"
begin

lemma consume_result:
  assumes "consumeRow key spent i spend rows = Some rows'"
  shows "\<exists>r. findRow key i rows = Some r \<and> spent r = None \<and> findRow key i rows' = Some (spend r)"
  using assms spend_key by (auto simp: consumeRow_def findRow_updRow split: option.splits if_splits)

text \<open>The row a hash leads to is spent with it.\<close>

lemma consume_spends_hash:
  assumes "consumeRow key spent i spend rows = Some rows'" "findHash hash h rows = Inr t" "key t = i"
    and "\<And>r. hash (spend r) = hash r"
  shows "\<exists>t'. findHash hash h rows' = Inr t' \<and> spent t' \<noteq> None"
proof -
  let ?f = "\<lambda>r. if key r = i then if spent r = None then spend r else r else r"
  have "find (\<lambda>r. hash r = h) (map ?f rows) = map_option ?f (find (\<lambda>r. hash r = h) rows)"
    by (induction rows) (auto simp: assms(4))
  then show ?thesis using assms(1-3) spend_spent
    by (auto simp: consumeRow_def findHash_def updRow_def split: option.splits if_splits)
qed

lemma consume_once:
  assumes "consumeRow key spent i spend rows = Some rows'" "rowsGrow keep rows' rows''"
  shows "findRow key i rows'' = findRow key i rows'" "consumeRow key spent i f rows'' = None"
proof -
  obtain r where r: "findRow key i rows' = Some (spend r)" using consume_result [OF assms(1)] by blast
  obtain r' where r': "findRow key i rows'' = Some r'" "keep (spend r) r'"
    using rowsGrow_findRow [OF assms(2) _ r] keep_key by blast
  then have "r' = spend r" using keep_spent [OF r'(2)] spend_spent by blast
  then show "findRow key i rows'' = findRow key i rows'" "consumeRow key spent i f rows'' = None"
    using r r' spend_spent by (simp_all add: consumeRow_def)
qed

end

section \<open>What a step keeps\<close>

definition userKeep :: "User \<Rightarrow> User \<Rightarrow> bool" where
  "userKeep u u' \<longleftrightarrow> uID u' = uID u \<and> uVersion u \<le> uVersion u' \<and> uCreatedAt u' = uCreatedAt u"

definition sessionKeep :: "AuthSession \<Rightarrow> AuthSession \<Rightarrow> bool" where
  "sessionKeep s s' \<longleftrightarrow> asID s' = asID s \<and> asUserID s' = asUserID s \<and> asExpiresAt s' = asExpiresAt s \<and>
     (asRevokedAt s \<noteq> None \<longrightarrow> s' = s)"

definition refreshKeep :: "RefreshToken \<Rightarrow> RefreshToken \<Rightarrow> bool" where
  "refreshKeep t t' \<longleftrightarrow> rtID t' = rtID t \<and> rtSessionID t' = rtSessionID t \<and> rtTokenHash t' = rtTokenHash t \<and>
     rtExpiresAt t' = rtExpiresAt t \<and> (rtUsedAt t \<noteq> None \<longrightarrow> t' = t)"

definition tokenKeep :: "UserToken \<Rightarrow> UserToken \<Rightarrow> bool" where
  "tokenKeep t t' \<longleftrightarrow> utID t' = utID t \<and> utUserID t' = utUserID t \<and> utPurpose t' = utPurpose t \<and>
     utTokenHash t' = utTokenHash t \<and> utExpiresAt t' = utExpiresAt t \<and> (utConsumedAt t \<noteq> None \<longrightarrow> t' = t)"

lemmas keep_defs = userKeep_def sessionKeep_def refreshKeep_def tokenKeep_def

interpretation refresh: single_use rtID rtUsedAt "markUsed e n" refreshKeep for e n
  by unfold_locales (auto simp: markUsed_def refreshKeep_def)

interpretation mailed: single_use utID utConsumedAt "consumed e" tokenKeep for e
  by unfold_locales (auto simp: consumed_def tokenKeep_def)

definition authGrows :: "AuthDB \<Rightarrow> AuthDB \<Rightarrow> bool" where
  "authGrows db db' \<longleftrightarrow>
     rowsGrow userKeep (auUsers db) (auUsers db') \<and> rowsGrow sessionKeep (auSessions db) (auSessions db') \<and>
     rowsGrow refreshKeep (auRefresh db) (auRefresh db') \<and> rowsGrow tokenKeep (auTokens db) (auTokens db')"

lemma keep_refl [simp]: "userKeep u u" "sessionKeep s s" "refreshKeep t t" "tokenKeep k k"
  by (simp_all add: keep_defs)

lemma transp_keep: "transp userKeep" "transp sessionKeep" "transp refreshKeep" "transp tokenKeep"
  by (auto simp: keep_defs intro!: transpI)

lemma authGrows_refl [simp]: "authGrows db db"
  by (simp add: authGrows_def rowsGrow_refl)

lemma authGrows_trans: "authGrows a b \<Longrightarrow> authGrows b c \<Longrightarrow> authGrows a c"
  unfolding authGrows_def using transp_keep by (meson rowsGrow_trans)

lemma grow_session: "authGrows db db' \<Longrightarrow> findRow asID i (auSessions db) = Some s \<Longrightarrow>
    \<exists>s'. findRow asID i (auSessions db') = Some s' \<and> sessionKeep s s'"
  unfolding authGrows_def
  using rowsGrow_findRow [of sessionKeep "auSessions db" "auSessions db'" asID i s] by (auto simp: sessionKeep_def)

lemma grow_refresh_hash: "authGrows db db' \<Longrightarrow> findHash rtTokenHash h (auRefresh db) = Inr t \<Longrightarrow>
    \<exists>t'. findHash rtTokenHash h (auRefresh db') = Inr t' \<and> refreshKeep t t'"
  unfolding authGrows_def
  using rowsGrow_find [of refreshKeep "auRefresh db" "auRefresh db'" "\<lambda>r. rtTokenHash r = h" t]
  by (auto simp: findHash_def refreshKeep_def split: option.splits)

lemma grow_token_hash: "authGrows db db' \<Longrightarrow> findHash utTokenHash h (auTokens db) = Inr t \<Longrightarrow>
    \<exists>t'. findHash utTokenHash h (auTokens db') = Inr t' \<and> tokenKeep t t'"
  unfolding authGrows_def
  using rowsGrow_find [of tokenKeep "auTokens db" "auTokens db'" "\<lambda>r. utTokenHash r = h" t]
  by (auto simp: findHash_def tokenKeep_def split: option.splits)

section \<open>Requests and steps\<close>

datatype AuthRequest =
    Signup SignupInput
  | Login str str RequestMeta
  | Refresh str
  | Logout str
  | VerifyEmail str
  | RequestPasswordReset str
  | ResetPassword str str
  | EndSession ID ID

definition acked :: "'a authReply \<Rightarrow> unit authReply" where
  "acked r = (case r of (res, db, evs) \<Rightarrow> (bindR res (\<lambda>_. Inr ()), db, evs))"

definition authServe :: "AuthConfig \<Rightarrow> AuthEnv \<Rightarrow> AuthRequest \<Rightarrow> AuthDB \<Rightarrow> unit authReply" where
  "authServe cfg e req db = (case req of
       Signup inp \<Rightarrow> acked (AuthService_Signup cfg e inp db)
     | Login email password meta \<Rightarrow> acked (AuthService_Login cfg e email password meta db)
     | Refresh raw \<Rightarrow> acked (AuthService_Refresh cfg e raw db)
     | Logout raw \<Rightarrow> AuthService_Logout cfg e raw db
     | VerifyEmail raw \<Rightarrow> AuthService_VerifyEmail cfg e raw db
     | RequestPasswordReset email \<Rightarrow> AuthService_RequestPasswordReset cfg e email db
     | ResetPassword raw password \<Rightarrow> AuthService_ResetPassword cfg e raw password db
     | EndSession userID sessionID \<Rightarrow> AuthService_RevokeSession e userID sessionID db)"

text \<open>A step is a request, or the second half of one that read the tables earlier: the rotation of a
  token it found live, the session of a login it accepted, or the rehash of a password.\<close>

inductive authStep :: "AuthConfig \<Rightarrow> AuthDB \<Rightarrow> AuthDB \<Rightarrow> bool" for cfg where
  request: "authServe cfg e req db = (res, db', evs) \<Longrightarrow> authStep cfg db db'"
| rotation: "Refresh_rotate cfg e stored session db = (pair, db', evs) \<Longrightarrow> authStep cfg db db'"
| opened: "openSession cfg e userID meta db = (res', db') \<Longrightarrow> authStep cfg db db'"
| rehashing: "authStep cfg db (rehashPassword cfg e u plaintext db)"

section \<open>Every step keeps what was there\<close>

lemma versioned_user_grows:
  assumes "updateVersioned uID uVersion uDeletedAt check i v (setUser e u) rows = Inr (r, rows')"
  shows "rowsGrow userKeep rows rows'"
  using assms by (auto simp: updateVersioned_Inr setUser_def userKeep_def intro!: rowsGrow_updRow)

lemma UserRepository_grows:
  "UserRepository_Create cfg e u db = Inr (r, db') \<Longrightarrow> authGrows db db' \<and> auSessions db' = auSessions db"
  "UserRepository_Update cfg e u db = Inr (r, db') \<Longrightarrow> authGrows db db' \<and> auSessions db' = auSessions db"
  by (auto simp: UserRepository_Create_def UserRepository_Update_def sum_cases authGrows_def insertRow_Inr
      rowsGrow_refl rowsGrow_append dest: versioned_user_grows)

lemma revoke_keep [simp]: "sessionKeep s (revoke e reason s)"
  by (simp add: revoke_def sessionKeep_def)

lemma CreateSession_grows:
  "SessionRepository_CreateSession e s db = Inr (r, db') \<Longrightarrow>
     authGrows db db' \<and> (\<exists>new. auSessions db' = auSessions db @ [new])"
  by (auto simp: SessionRepository_CreateSession_def sum_cases authGrows_def insertRow_Inr rowsGrow_refl rowsGrow_append)

lemma session_statement_grows:
  "authGrows db (SessionRepository_TouchSession e i db)"
  "authGrows db (SessionRepository_RevokeSession e i reason db)"
  "authGrows db (SessionRepository_RevokeAllSessions e userID reason db)"
  unfolding SessionRepository_TouchSession_def SessionRepository_RevokeSession_def
    SessionRepository_RevokeAllSessions_def authGrows_def
  by (auto intro!: rowsGrow_refl rowsGrow_updRow rowsGrow_map) (auto simp: sessionKeep_def)

lemma consumeRow_grows:
  assumes "consumeRow key spent i f rows = Some rows'" "\<And>r. R r r" "\<And>r. spent r = None \<Longrightarrow> R r (f r)"
  shows "rowsGrow R rows rows'"
  using assms by (auto simp: consumeRow_def intro!: rowsGrow_updRow split: option.splits if_splits)

lemma refresh_statement_grows:
  "SessionRepository_CreateRefreshToken e t db = Inr (r, db') \<Longrightarrow> authGrows db db' \<and> auSessions db' = auSessions db"
  "SessionRepository_MarkRefreshTokenUsed e i n db = Inr db' \<Longrightarrow> authGrows db db' \<and> auSessions db' = auSessions db"
proof -
  show "SessionRepository_CreateRefreshToken e t db = Inr (r, db') \<Longrightarrow> authGrows db db' \<and> auSessions db' = auSessions db"
    by (auto simp: SessionRepository_CreateRefreshToken_def sum_cases authGrows_def insertRow_Inr rowsGrow_refl rowsGrow_append)
  show "SessionRepository_MarkRefreshTokenUsed e i n db = Inr db' \<Longrightarrow> authGrows db db' \<and> auSessions db' = auSessions db"
    using consumeRow_grows [of rtID rtUsedAt i "markUsed e n" "auRefresh db" _ refreshKeep]
    by (fastforce simp: SessionRepository_MarkRefreshTokenUsed_def authGrows_def rowsGrow_refl refreshKeep_def markUsed_def
        split: option.splits if_splits)
qed

lemma token_statement_grows:
  "UserTokenRepository_Create e t db = Inr (r, db') \<Longrightarrow> authGrows db db' \<and> auSessions db' = auSessions db"
  "UserTokenRepository_Consume e i db = Inr db' \<Longrightarrow> authGrows db db' \<and> auSessions db' = auSessions db"
  "authGrows db (UserTokenRepository_ConsumeAllForPurpose e userID purpose db) \<and>
     auSessions (UserTokenRepository_ConsumeAllForPurpose e userID purpose db) = auSessions db"
proof -
  show "UserTokenRepository_Create e t db = Inr (r, db') \<Longrightarrow> authGrows db db' \<and> auSessions db' = auSessions db"
    by (auto simp: UserTokenRepository_Create_def sum_cases authGrows_def insertRow_Inr rowsGrow_refl rowsGrow_append)
  show "UserTokenRepository_Consume e i db = Inr db' \<Longrightarrow> authGrows db db' \<and> auSessions db' = auSessions db"
    using consumeRow_grows [of utID utConsumedAt i "consumed e" "auTokens db" _ tokenKeep]
    by (fastforce simp: UserTokenRepository_Consume_def authGrows_def rowsGrow_refl tokenKeep_def consumed_def
        split: option.splits)
  show "authGrows db (UserTokenRepository_ConsumeAllForPurpose e userID purpose db) \<and>
     auSessions (UserTokenRepository_ConsumeAllForPurpose e userID purpose db) = auSessions db"
    unfolding UserTokenRepository_ConsumeAllForPurpose_def authGrows_def
    by (auto intro!: rowsGrow_refl rowsGrow_map) (auto simp: tokenKeep_def consumed_def)
qed

lemma inTx_eq:
  "inTx fn db = (Inr x, db') \<longleftrightarrow> fn db = Inr (x, db')"
  "inTx fn db = (Inl err, db') \<longleftrightarrow> fn db = Inl err \<and> db' = db"
  by (auto simp: inTx_def split: sum.splits)

lemma issueUserToken_grows:
  "issueUserToken cfg e userID purpose ttl db = Inr (raw, db') \<Longrightarrow> authGrows db db' \<and> auSessions db' = auSessions db"
  by (auto simp: issueUserToken_def sum_cases dest: token_statement_grows(1))

text \<open>What a spent mailed token was.\<close>

lemma consumeUserToken_Inr:
  "consumeUserToken cfg e raw purpose db = Inr (t, db') \<Longrightarrow>
     UserTokenRepository_GetByHash (cfSHA256 cfg raw) db = Inr t \<and> utPurpose t = purpose \<and> utConsumedAt t = None \<and>
     anNow e < utExpiresAt t \<and> UserTokenRepository_Consume e (utID t) db = Inr db'"
  by (auto simp: consumeUserToken_def sum_cases split: sum.splits if_splits)

lemma rehash_grows: "authGrows db (rehashPassword cfg e u p db) \<and> auSessions (rehashPassword cfg e u p db) = auSessions db"
  by (auto simp: rehashPassword_def sum_cases split: sum.splits dest: UserRepository_grows)

lemma openSession_grows:
  "openSession cfg e userID meta db = (res, db') \<Longrightarrow> authGrows db db' \<and> (\<exists>new. auSessions db' = auSessions db @ new)"
  by (auto simp: openSession_def inTx_eq sum_cases split: prod.splits sum.splits
      dest!: CreateSession_grows refresh_statement_grows intro: authGrows_trans)

text \<open>A rotation succeeds, fails without effect, or loses the race and kills the session.\<close>

definition killedSession :: "AuthEnv \<Rightarrow> AuthSession \<Rightarrow> AuthEvent list" where
  "killedSession e session = [Revoked \<lparr>reScope = RevokeScopeSession, reUserID = asUserID session,
     reSessionID = asID session, reReason = RevokeReasonTokenReuse, reAt = anNow e\<rparr>]"

lemma rotate_result:
  assumes "Refresh_rotate cfg e stored session db = (res, db', evs)"
  shows "authGrows db db' \<and>
    (evs = [] \<and> (\<exists>r d. SessionRepository_CreateRefreshToken e (newRefresh cfg e (asID session)) db = Inr (r, d) \<and>
        (\<exists>d'. SessionRepository_MarkRefreshTokenUsed e (rtID stored) (anID2 e) d = Inr d' \<and>
          db' = SessionRepository_TouchSession e (asID session) d') \<and>
        res = issuePair cfg e (asUserID session) (asID session)) \<or>
     \<not> isOk res \<and> evs = [] \<and> db' = db \<or>
     res = Inl ErrTokenConsumed \<and> evs = killedSession e session \<and>
       db' = SessionRepository_RevokeSession e (asID session) RevokeReasonTokenReuse db)"
proof (cases "inTx (\<lambda>d. bindR (SessionRepository_CreateRefreshToken e (newRefresh cfg e (asID session)) d)
            (\<lambda>(_, d). bindR (SessionRepository_MarkRefreshTokenUsed e (rtID stored) (anID2 e) d)
              (\<lambda>d. Inr ((), SessionRepository_TouchSession e (asID session) d)))) db")
  case (Pair r d2)
  show ?thesis
  proof (cases r)
    case (Inl err)
    then show ?thesis using assms Pair session_statement_grows
      by (auto simp: Refresh_rotate_def inTx_eq killedSession_def split: if_splits)
  next
    case (Inr u)
    then obtain t d d' where d: "SessionRepository_CreateRefreshToken e (newRefresh cfg e (asID session)) db = Inr (t, d)"
        "SessionRepository_MarkRefreshTokenUsed e (rtID stored) (anID2 e) d = Inr d'"
        "d2 = SessionRepository_TouchSession e (asID session) d'"
      using Pair by (auto simp: inTx_eq sum_cases)
    then have "authGrows db d2"
      using refresh_statement_grows session_statement_grows(1) by (metis authGrows_trans)
    then show ?thesis using assms Pair Inr d by (auto simp: Refresh_rotate_def)
  qed
qed

section \<open>Revocations are announced\<close>

text \<open>Of the sessions that were not revoked, exactly those whose connections the sent events close
  are revoked afterwards.\<close>

definition announced :: "AuthDB \<Rightarrow> AuthDB \<Rightarrow> AuthEvent list \<Rightarrow> bool" where
  "announced db db' evs \<longleftrightarrow> (\<forall>i s. findRow asID i (auSessions db) = Some s \<longrightarrow> asRevokedAt s = None \<longrightarrow>
     (\<exists>s'. findRow asID i (auSessions db') = Some s' \<and>
        (asRevokedAt s' \<noteq> None \<longleftrightarrow> (\<exists>ev. Revoked ev \<in> set evs \<and> Matches ev (asUserID s) i))))"

lemma announced_none:
  "auSessions db' = auSessions db @ new \<Longrightarrow> (\<forall>ev. Revoked ev \<notin> set evs) \<Longrightarrow> announced db db' evs"
  by (auto simp: announced_def)

lemma announced_touched:
  "auSessions db' = auSessions (SessionRepository_TouchSession e j db) \<Longrightarrow> announced db db' []"
  by (auto simp: announced_def SessionRepository_TouchSession_def findRow_updRow)

lemma announced_one:
  assumes "\<And>s. findRow asID j (auSessions db) = Some s \<Longrightarrow>
      evs = [Revoked \<lparr>reScope = RevokeScopeSession, reUserID = asUserID s, reSessionID = j, reReason = reason, reAt = anNow e\<rparr>]"
    and "findRow asID j (auSessions db) = None \<Longrightarrow> \<forall>ev. Revoked ev \<in> set evs \<longrightarrow> reSessionID ev = j \<and> reScope ev = RevokeScopeSession"
  shows "announced db (SessionRepository_RevokeSession e j reason db) evs"
  using assms by (cases "findRow asID j (auSessions db)")
    (auto simp: announced_def SessionRepository_RevokeSession_def findRow_updRow revoke_def Matches_def)

lemma findRow_map_sessions:
  "(\<And>s. asID (f s) = asID s) \<Longrightarrow> findRow asID i (map f rows) = map_option f (findRow asID i rows)"
  by (induction rows) (auto simp: findRow_def)

lemma announced_all:
  "auSessions db = auSessions d \<Longrightarrow> announced db (SessionRepository_RevokeAllSessions e u reason d)
     [Revoked \<lparr>reScope = RevokeScopeUser, reUserID = u, reSessionID = NilID, reReason = reason, reAt = anNow e\<rparr>]"
  by (auto simp: announced_def SessionRepository_RevokeAllSessions_def findRow_map_sessions revoke_def Matches_def)

lemma announce_found:
  "findRow asID j (auSessions db) = Some s \<Longrightarrow>
    announceSessionRevoked e j reason (SessionRepository_RevokeSession e j reason db) =
      [Revoked \<lparr>reScope = RevokeScopeSession, reUserID = asUserID s, reSessionID = j, reReason = reason, reAt = anNow e\<rparr>]"
  "findRow asID j (auSessions db) = None \<Longrightarrow>
    announceSessionRevoked e j reason (SessionRepository_RevokeSession e j reason db) = []"
  by (auto simp: announceSessionRevoked_def SessionRepository_GetSession_def SessionRepository_RevokeSession_def
      findRow_updRow revoke_def)

lemma announced_announce:
  "announced db (SessionRepository_RevokeSession e j reason db)
     (announceSessionRevoked e j reason (SessionRepository_RevokeSession e j reason db))"
  by (rule announced_one) (auto simp: announce_found)

lemma acked_eq: "acked r = (res, db, evs) \<longleftrightarrow> (\<exists>x. r = (x, db, evs) \<and> res = bindR x (\<lambda>_. Inr ()))"
  by (cases r) (auto simp: acked_def)

definition authSound :: "AuthDB \<Rightarrow> AuthDB \<Rightarrow> AuthEvent list \<Rightarrow> bool" where
  "authSound db db' evs \<longleftrightarrow> authGrows db db' \<and> announced db db' evs"

lemma authSound_none:
  "authGrows db db' \<Longrightarrow> auSessions db' = auSessions db @ new \<Longrightarrow> \<forall>ev. Revoked ev \<notin> set evs \<Longrightarrow> authSound db db' evs"
  by (simp add: authSound_def announced_none)

lemma authSound_same [simp]: "authSound db db []"
  by (rule authSound_none [of _ _ "[]"]) simp_all

lemma authSound_unchanged: "authGrows db db' \<and> auSessions db' = auSessions db \<Longrightarrow> \<forall>ev. Revoked ev \<notin> set evs \<Longrightarrow> authSound db db' evs"
  by (rule authSound_none [of _ _ "[]"]) simp_all

lemma Signup_sound: "AuthService_Signup cfg e inp db = (res, db', evs) \<Longrightarrow> authSound db db' evs"
  by (auto simp: AuthService_Signup_def Let_def inTx_def sum_cases split: sum.splits if_splits prod.splits
      intro!: authSound_unchanged dest!: UserRepository_grows(1) issueUserToken_grows intro: authGrows_trans)

lemma Login_sound:
  assumes "AuthService_Login cfg e email password meta db = (res, db', evs)"
  shows "authSound db db' evs"
proof -
  have "authSound db db' []" if o: "openSession cfg e u meta d = (r, db')" and d: "authGrows db d" "auSessions d = auSessions db" for u d r
  proof -
    obtain new where "auSessions db' = auSessions db @ new" "authGrows db db'"
      using openSession_grows [OF o] d authGrows_trans by metis
    then show ?thesis by (intro authSound_none) auto
  qed
  then show ?thesis using assms rehash_grows
    by (auto simp: AuthService_Login_def Let_def split: sum.splits if_splits prod.splits)
qed

lemma rotate_sound:
  assumes "Refresh_rotate cfg e stored session db = (res, db', evs)"
    and "findRow asID (asID session) (auSessions db) = Some session'" "asUserID session' = asUserID session"
  shows "authSound db db' evs"
proof -
  have "announced db (SessionRepository_TouchSession e j d') []"
    if "SessionRepository_CreateRefreshToken e t db = Inr (r, d)" "SessionRepository_MarkRefreshTokenUsed e k n d = Inr d'" for t r d k n d' j
    by (rule announced_touched [of _ e j])
      (use refresh_statement_grows(1) [OF that(1)] refresh_statement_grows(2) [OF that(2)] in
        \<open>simp add: SessionRepository_TouchSession_def\<close>)
  moreover have "announced db (SessionRepository_RevokeSession e (asID session) RevokeReasonTokenReuse db) (killedSession e session)"
    by (rule announced_one) (use assms(2,3) in \<open>auto simp: killedSession_def\<close>)
  ultimately show ?thesis
    using rotate_result [OF assms(1)] by (auto simp: authSound_def announced_none)
qed

lemma Refresh_lookup_Live:
  "Refresh_lookup cfg e raw db = Live stored session \<longleftrightarrow>
     SessionRepository_GetRefreshTokenByHash (cfSHA256 cfg raw) db = Inr stored \<and> rtUsedAt stored = None \<and>
     anNow e < rtExpiresAt stored \<and> findRow asID (rtSessionID stored) (auSessions db) = Some session \<and>
     AuthSession_IsActive session (anNow e)"
  by (auto simp: Refresh_lookup_def RefreshToken_IsUsed_def RefreshToken_IsExpired_def SessionRepository_GetSession_def
      split: sum.splits option.splits)

lemma Refresh_lookup_Reused:
  "Refresh_lookup cfg e raw db = Reused stored \<longleftrightarrow>
     SessionRepository_GetRefreshTokenByHash (cfSHA256 cfg raw) db = Inr stored \<and> rtUsedAt stored \<noteq> None"
  by (auto simp: Refresh_lookup_def RefreshToken_IsUsed_def split: sum.splits)

lemma revoke_sound: "authSound db (SessionRepository_RevokeSession e j reason db)
    (announceSessionRevoked e j reason (SessionRepository_RevokeSession e j reason db))"
  by (simp add: authSound_def announced_announce session_statement_grows)

lemma Refresh_sound:
  assumes "AuthService_Refresh cfg e raw db = (res, db', evs)"
  shows "authSound db db' evs"
proof (cases "Refresh_lookup cfg e raw db")
  case (Live stored session)
  then have f: "findRow asID (rtSessionID stored) (auSessions db) = Some session" by (simp add: Refresh_lookup_Live)
  then have "findRow asID (asID session) (auSessions db) = Some session" using findRow_key [OF f] by simp
  then show ?thesis using assms Live by (auto simp: AuthService_Refresh_def intro: rotate_sound)
qed (use assms in \<open>auto simp: AuthService_Refresh_def Let_def revoke_sound\<close>)

lemma Logout_sound: "AuthService_Logout cfg e raw db = (res, db', evs) \<Longrightarrow> authSound db db' evs"
  by (auto simp: AuthService_Logout_def Let_def revoke_sound split: sum.splits)

lemma VerifyEmail_sound: "AuthService_VerifyEmail cfg e raw db = (res, db', evs) \<Longrightarrow> authSound db db' evs"
  by (auto simp: AuthService_VerifyEmail_def inTx_def sum_cases split: sum.splits prod.splits if_splits
      intro!: authSound_unchanged dest!: consumeUserToken_Inr token_statement_grows(2) UserRepository_grows(2)
      intro: authGrows_trans)

lemma RequestPasswordReset_sound: "AuthService_RequestPasswordReset cfg e email db = (res, db', evs) \<Longrightarrow> authSound db db' evs"
  by (auto simp: AuthService_RequestPasswordReset_def inTx_def split: sum.splits prod.splits if_splits
      intro!: authSound_unchanged dest!: issueUserToken_grows intro: authGrows_trans conjunct1 [OF token_statement_grows(3)]
      simp: conjunct2 [OF token_statement_grows(3)])

text \<open>A successful reset: its token was live, the account has the new hash, and every session of the
  account is revoked in the same transaction.\<close>

lemma resetBody_result:
  assumes "resetBody cfg e raw hash db = Inr (u, db')"
  shows "\<exists>t d d' r. consumeUserToken cfg e raw TokenPurposePasswordReset db = Inr (t, d) \<and> utUserID t = u \<and>
      authGrows db db' \<and> auSessions d' = auSessions db \<and> auTokens d' = auTokens d \<and>
      db' = SessionRepository_RevokeAllSessions e u RevokeReasonPasswordReset d' \<and>
      findRow uID u (auUsers db') = Some r \<and> uPasswordHash r = hash \<and> uEmailVerifiedAt r \<noteq> None"
proof -
  obtain t d v r0 d' where c: "consumeUserToken cfg e raw TokenPurposePasswordReset db = Inr (t, d)"
    and g: "UserRepository_GetByID (utUserID t) d = Inr v"
    and r0: "UserRepository_Update cfg e (resetAccount e hash v) d = Inr (r0, d')"
    and u: "u = uID v" and db': "db' = SessionRepository_RevokeAllSessions e u RevokeReasonPasswordReset d'"
    using assms by (auto simp: resetBody_def sum_cases)
  define v' where "v' = resetAccount e hash v"
  then have v: "uID v' = uID v" "uPasswordHash v' = hash" "uEmailVerifiedAt v' \<noteq> None"
    by (simp_all add: resetAccount_def IsEmailVerified_def Let_def)
  note r0 = r0 [folded v'_def]
  have d: "authGrows db d" "auSessions d = auSessions db" "authGrows d d'" "auSessions d' = auSessions d"
    using consumeUserToken_Inr [OF c] token_statement_grows(2) UserRepository_grows(2) [OF r0] by blast+
  have ut: "utUserID t = u" using g u by (auto simp: UserRepository_GetByID_def getLive_Inr dest: findRow_key)
  obtain r where r: "findRow uID u (auUsers d) = Some r" "auTokens d' = auTokens d"
      "auUsers d' = updRow uID u (setUser e v') (auUsers d)"
    using r0 v(1) u by (auto simp: UserRepository_Update_def sum_cases updateVersioned_Inr)
  have "findRow uID u (auUsers d') = Some (setUser e v' r)"
    using r(1) by (simp add: r(3) findRow_updRow setUser_def)
  then show ?thesis
    using c ut d r(2) db' v(2,3) session_statement_grows(3) [of d' e u RevokeReasonPasswordReset]
    by (intro exI [of _ t] exI [of _ d] exI [of _ d'] exI [of _ "setUser e v' r"])
      (auto simp: SessionRepository_RevokeAllSessions_def setUser_def intro: authGrows_trans)
qed

lemma ResetPassword_Inr:
  "AuthService_ResetPassword cfg e raw pw db = (Inr (), db', evs) \<longleftrightarrow>
    (\<exists>hash u. ValidatePassword ''password'' pw [] = [] \<and> anHash e pw = Inr hash \<and>
      resetBody cfg e raw hash db = Inr (u, db') \<and>
      evs = [Revoked \<lparr>reScope = RevokeScopeUser, reUserID = u, reSessionID = NilID,
               reReason = RevokeReasonPasswordReset, reAt = anNow e\<rparr>])"
  by (auto simp: AuthService_ResetPassword_def inTx_eq split: sum.splits prod.splits)

lemma ResetPassword_sound:
  assumes "AuthService_ResetPassword cfg e raw pw db = (res, db', evs)"
  shows "authSound db db' evs"
proof (cases res)
  case (Inl err)
  then show ?thesis using assms
    by (auto simp: AuthService_ResetPassword_def inTx_eq split: sum.splits prod.splits)
next
  case (Inr x)
  then obtain hash u where "resetBody cfg e raw hash db = Inr (u, db')"
      "evs = [Revoked \<lparr>reScope = RevokeScopeUser, reUserID = u, reSessionID = NilID,
               reReason = RevokeReasonPasswordReset, reAt = anNow e\<rparr>]"
    using assms by (auto simp: ResetPassword_Inr)
  then show ?thesis using resetBody_result announced_all unfolding authSound_def by metis
qed

lemma RevokeSession_sound:
  assumes "AuthService_RevokeSession e userID i db = (res, db', evs)"
  shows "authSound db db' evs"
proof (cases "findRow asID i (auSessions db)")
  case (Some s)
  then have "announced db (SessionRepository_RevokeSession e i RevokeReasonUserRequest db)
      [Revoked \<lparr>reScope = RevokeScopeSession, reUserID = asUserID s, reSessionID = i,
        reReason = RevokeReasonUserRequest, reAt = anNow e\<rparr>]"
    by (intro announced_one) auto
  then show ?thesis using assms Some session_statement_grows(2) [of db e i RevokeReasonUserRequest]
    by (auto simp: AuthService_RevokeSession_def SessionRepository_GetSession_def authSound_def announced_none split: if_splits)
qed (use assms in \<open>auto simp: AuthService_RevokeSession_def SessionRepository_GetSession_def\<close>)

lemma authServe_sound: "authServe cfg e req db = (res, db', evs) \<Longrightarrow> authSound db db' evs"
  by (cases req) (auto simp: authServe_def acked_eq Signup_sound Login_sound Refresh_sound Logout_sound VerifyEmail_sound
      RequestPasswordReset_sound ResetPassword_sound RevokeSession_sound)

lemma authStep_grows: "authStep cfg db db' \<Longrightarrow> authGrows db db'"
  by (induction rule: authStep.induct)
    (auto simp: authSound_def rehash_grows dest: authServe_sound rotate_result openSession_grows)

lemma authSteps_grow: "(authStep cfg)\<^sup>*\<^sup>* db db' \<Longrightarrow> authGrows db db'"
  by (induction rule: rtranclp_induct) (auto intro: authGrows_trans authStep_grows)

section \<open>Dead sessions\<close>

text \<open>A revoked session lets nobody in: no access token naming it authenticates, no refresh token of it
  rotates.\<close>

definition deadSession :: "AuthConfig \<Rightarrow> ID \<Rightarrow> AuthDB \<Rightarrow> bool" where
  "deadSession cfg i db \<longleftrightarrow>
     (\<forall>e access cl. cfParse cfg access = Inr cl \<and> clSessionID cl = i \<longrightarrow>
        AuthService_Authenticate cfg e access db = Inl ErrTokenInvalid) \<and>
     (\<forall>e raw t. SessionRepository_GetRefreshTokenByHash (cfSHA256 cfg raw) db = Inr t \<and> rtSessionID t = i \<longrightarrow>
        fst (AuthService_Refresh cfg e raw db) \<in> Inl ` {ErrTokenConsumed, ErrTokenExpired, ErrTokenInvalid})"

lemma revoked_dead:
  assumes "findRow asID i (auSessions db) = Some s" "asRevokedAt s \<noteq> None"
  shows "deadSession cfg i db"
  using assms
  by (auto simp: deadSession_def AuthService_Authenticate_def AuthService_Refresh_def Refresh_lookup_def Let_def
      SessionRepository_GetSession_def AuthSession_IsActive_def)

lemma revoked_stays_dead:
  assumes "findRow asID i (auSessions db) = Some s" "asRevokedAt s \<noteq> None" "(authStep cfg)\<^sup>*\<^sup>* db db'"
  shows "deadSession cfg i db'"
proof -
  obtain s' where "findRow asID i (auSessions db') = Some s'" "sessionKeep s s'"
    using grow_session [OF authSteps_grow [OF assms(3)] assms(1)] by blast
  then show ?thesis using assms(2) by (intro revoked_dead [of _ _ s']) (auto simp: sessionKeep_def)
qed

lemma RevokeSession_revokes:
  "findRow asID i (auSessions db) = Some s \<Longrightarrow>
    \<exists>s'. findRow asID i (auSessions (SessionRepository_RevokeSession e i reason db)) = Some s' \<and> asRevokedAt s' \<noteq> None"
  by (auto simp: SessionRepository_RevokeSession_def findRow_updRow revoke_def)

text \<open>After a rotation the presented token leads to a used row for good.\<close>

lemma rotated_token_used:
  assumes "Refresh_lookup cfg e raw db = Live stored session" "(authStep cfg)\<^sup>*\<^sup>* db db0"
    and "Refresh_rotate cfg e stored session db0 = (Inr pair, db1, evs)" "(authStep cfg)\<^sup>*\<^sup>* db1 db2"
  shows "\<exists>t s. Refresh_lookup cfg e2 raw db2 = Reused t \<and> rtSessionID t = asID session \<and>
    findRow asID (asID session) (auSessions db2) = Some s \<and> asUserID s = asUserID session"
proof -
  note live = assms(1) [unfolded Refresh_lookup_Live SessionRepository_GetRefreshTokenByHash_def]
  let ?h = "cfSHA256 cfg raw"
  have sid: "asID session = rtSessionID stored" using live findRow_key by metis
  obtain t0 where t0: "findHash rtTokenHash ?h (auRefresh db0) = Inr t0" "refreshKeep stored t0"
    using grow_refresh_hash [OF authSteps_grow [OF assms(2)]] live by blast
  obtain r d d' where d: "SessionRepository_CreateRefreshToken e (newRefresh cfg e (asID session)) db0 = Inr (r, d)"
      "SessionRepository_MarkRefreshTokenUsed e (rtID stored) (anID2 e) d = Inr d'"
      "db1 = SessionRepository_TouchSession e (asID session) d'"
    using rotate_result [OF assms(3)] by auto
  obtain t1 where t1: "findHash rtTokenHash ?h (auRefresh d) = Inr t1" "refreshKeep t0 t1"
    using grow_refresh_hash refresh_statement_grows(1) [OF d(1)] t0(1) by blast
  obtain rows where rows: "consumeRow rtID rtUsedAt (rtID stored) (markUsed e (anID2 e)) (auRefresh d) = Some rows"
      "auRefresh d' = rows"
    using d(2) by (auto simp: SessionRepository_MarkRefreshTokenUsed_def split: option.splits if_splits)
  have "rtID t1 = rtID stored" using t0(2) t1(2) by (simp add: refreshKeep_def)
  then obtain t2 where t2: "findHash rtTokenHash ?h rows = Inr t2" "rtUsedAt t2 \<noteq> None"
    using refresh.consume_spends_hash [OF rows(1) t1(1)] by (auto simp: markUsed_def)
  have g: "authGrows db db2"
    using authSteps_grow [OF assms(2)] authSteps_grow [OF assms(4)] rotate_result [OF assms(3)] by (meson authGrows_trans)
  have "findHash rtTokenHash ?h (auRefresh db1) = Inr t2"
    using t2(1) rows(2) d(3) by (simp add: SessionRepository_TouchSession_def)
  then obtain t3 where t3: "findHash rtTokenHash ?h (auRefresh db2) = Inr t3" "refreshKeep t2 t3"
    using grow_refresh_hash [OF authSteps_grow [OF assms(4)]] by blast
  have "rtUsedAt t3 \<noteq> None" using t2(2) t3(2) by (auto simp: refreshKeep_def)
  moreover obtain t4 where t4: "findHash rtTokenHash ?h (auRefresh db2) = Inr t4" "refreshKeep stored t4"
    using grow_refresh_hash [OF g] live by blast
  ultimately have "Refresh_lookup cfg e2 raw db2 = Reused t3" "rtSessionID t3 = asID session"
    using t3 t4 sid by (auto simp: Refresh_lookup_Reused SessionRepository_GetRefreshTokenByHash_def refreshKeep_def)
  moreover obtain s where "findRow asID (asID session) (auSessions db2) = Some s" "sessionKeep session s"
    using grow_session [OF g] live sid by metis
  ultimately show ?thesis by (auto simp: sessionKeep_def)
qed

text \<open>A token that was rotated once is never rotated again, not even by a request that found it live
  before.\<close>

lemma rotated_once:
  assumes "Refresh_rotate cfg e stored session db0 = (Inr pair, db1, evs)" "(authStep cfg)\<^sup>*\<^sup>* db1 db2"
    and "rtID stored' = rtID stored"
  shows "\<not> isOk (fst (Refresh_rotate cfg e2 stored' session' db2))"
proof
  assume "isOk (fst (Refresh_rotate cfg e2 stored' session' db2))"
  then obtain pair2 db3 evs2 where r2: "Refresh_rotate cfg e2 stored' session' db2 = (Inr pair2, db3, evs2)"
    by (cases "Refresh_rotate cfg e2 stored' session' db2") (auto elim: isOkE)
  have rot: "\<exists>d d'. SessionRepository_MarkRefreshTokenUsed e' (rtID t) (anID2 e') d = Inr d' \<and>
      authGrows x d \<and> auRefresh y = auRefresh d'" if "Refresh_rotate cfg e' t sess x = (Inr p, y, ev)" for e' t sess x p y ev
    using rotate_result [OF that] refresh_statement_grows(1) by (fastforce simp: SessionRepository_TouchSession_def)
  obtain d d' where d: "SessionRepository_MarkRefreshTokenUsed e (rtID stored) (anID2 e) d = Inr d'" "auRefresh db1 = auRefresh d'"
    using rot [OF assms(1)] by blast
  obtain d2 d2' where d2: "SessionRepository_MarkRefreshTokenUsed e2 (rtID stored) (anID2 e2) d2 = Inr d2'" "authGrows db2 d2"
    using rot [OF r2] assms(3) by auto
  have c: "consumeRow rtID rtUsedAt (rtID stored) (markUsed e (anID2 e)) (auRefresh d) = Some (auRefresh db1)"
    using d by (auto simp: SessionRepository_MarkRefreshTokenUsed_def split: option.splits if_splits)
  have "rowsGrow refreshKeep (auRefresh db1) (auRefresh d2)"
    using authGrows_trans [OF authSteps_grow [OF assms(2)] d2(2)] by (simp add: authGrows_def)
  then show False using refresh.consume_once(2) [OF c] d2(1)
    by (simp add: SessionRepository_MarkRefreshTokenUsed_def)
qed

lemma reset_token_spent:
  assumes "consumeUserToken cfg e raw purpose db = Inr (t, d)" "rowsGrow tokenKeep (auTokens d) (auTokens db2)"
  shows "\<not> isOk (consumeUserToken cfg e2 raw purpose db2)"
proof -
  note c = consumeUserToken_Inr [OF assms(1)]
  then have "consumeRow utID utConsumedAt (utID t) (consumed e) (auTokens db) = Some (auTokens d)"
    by (auto simp: UserTokenRepository_Consume_def split: option.splits)
  then obtain t1 where t1: "findHash utTokenHash (cfSHA256 cfg raw) (auTokens d) = Inr t1" "utConsumedAt t1 \<noteq> None"
    using mailed.consume_spends_hash [of "utID t" e "auTokens db" "auTokens d" utTokenHash "cfSHA256 cfg raw" t] c
    by (auto simp: consumed_def UserTokenRepository_GetByHash_def)
  have "authGrows d (d\<lparr>auTokens := auTokens db2\<rparr>)"
    using assms(2) by (simp add: authGrows_def rowsGrow_refl)
  then obtain t2 where "findHash utTokenHash (cfSHA256 cfg raw) (auTokens db2) = Inr t2" "tokenKeep t1 t2"
    using grow_token_hash [OF _ t1(1), of "d\<lparr>auTokens := auTokens db2\<rparr>"] by auto
  then show ?thesis using t1(2) consumeUserToken_Inr [of cfg e2 raw purpose db2]
    by (auto simp: tokenKeep_def UserTokenRepository_GetByHash_def elim!: isOkE)
qed

section \<open>A sample account\<close>

definition sampleConfig :: AuthConfig where
  "sampleConfig = \<lparr>cfRefreshTokenTTL = 1000, cfSessionTTL = 5000, cfEmailVerifyTTL = 100, cfPasswordResetTTL = 100,
     cfWebBaseURL = ''https://junto'', cfAutoVerifyEmail = False, cfParseAddress = Some, cfGoLower = (\<lambda>s. s),
     cfSqlLower = (\<lambda>s. s), cfSHA256 = (\<lambda>raw. take 32 (raw @ replicate 32 CHR ''x'')),
     cfVerify = (\<lambda>hash password. Inr (hash = password, False)), cfIssue = (\<lambda>_ _ t. Inr (''access'', t + 900)),
     cfParse = (\<lambda>_. Inr \<lparr>clUserID = 1, clSessionID = 11\<rparr>)\<rparr>"

definition authEnvAt :: "instant \<Rightarrow> ID \<Rightarrow> str \<Rightarrow> AuthEnv" where
  "authEnvAt t i raw = \<lparr>anNow = t, anWall = t, anTxNow = t, anTimestamp = (\<lambda>t. t), anID = i, anID2 = i + 1,
     anRaw = raw, anHash = Inr\<rparr>"

definition sampleAccount :: AuthDB where
  "sampleAccount = \<lparr>auUsers = [\<lparr>uID = 1, uEmail = ''ann@example.com'', uPasswordHash = ''old password'', uDisplayName = ''Ann'',
       uEmailVerifiedAt = Some 1, uVersion = 1, uCreatedAt = 1, uUpdatedAt = 1, uDeletedAt = None\<rparr>],
     auSessions = [\<lparr>asID = 11, asUserID = 1, asUserAgent = [], asIP = None, asCreatedAt = 1, asLastUsedAt = 1,
       asExpiresAt = 5000, asRevokedAt = None, asRevokedReason = []\<rparr>],
     auRefresh = [\<lparr>rtID = 21, rtSessionID = 11, rtTokenHash = take 32 (''first'' @ replicate 32 CHR ''x''), rtIssuedAt = 1,
       rtExpiresAt = 1000, rtUsedAt = None, rtReplacedBy = None\<rparr>],
     auTokens = [\<lparr>utID = 31, utUserID = 1, utPurpose = TokenPurposePasswordReset,
       utTokenHash = take 32 (''reset'' @ replicate 32 CHR ''x''), utExpiresAt = 1000, utConsumedAt = None, utCreatedAt = 1\<rparr>]\<rparr>"

definition sampleRotated :: "TokenPair authReply" where
  "sampleRotated = Refresh_rotate sampleConfig (authEnvAt 10 50 ''second'') (hd (auRefresh sampleAccount))
     (hd (auSessions sampleAccount)) sampleAccount"

definition sampleReset :: "unit authReply" where
  "sampleReset = AuthService_ResetPassword sampleConfig (authEnvAt 10 50 ''x'') ''reset'' ''new password'' sampleAccount"

section \<open>Properties\<close>

text \<open>C22: a refresh token works once, under every interleaving: once it was rotated, no request rotates it
  again, not even one that found it live before; whoever presents it later is refused, ends the session
  it belongs to and closes its live connections; from then on no access token and no refresh token of
  that session is accepted.\<close>

theorem refresh_reuse_kills_family:
  assumes "Refresh_lookup cfg e raw db = Live stored session" "(authStep cfg)\<^sup>*\<^sup>* db db0"
    and "Refresh_rotate cfg e stored session db0 = (Inr pair, db1, evs)" "(authStep cfg)\<^sup>*\<^sup>* db1 db2"
  shows "(\<forall>e2 stored' session'. rtID stored' = rtID stored \<longrightarrow> \<not> isOk (fst (Refresh_rotate cfg e2 stored' session' db2))) \<and>
    (case AuthService_Refresh cfg e2 raw db2 of (res, db3, evs3) \<Rightarrow>
       res = Inl ErrTokenConsumed \<and>
       evs3 = [Revoked \<lparr>reScope = RevokeScopeSession, reUserID = asUserID session, reSessionID = asID session,
         reReason = RevokeReasonTokenReuse, reAt = anNow e2\<rparr>] \<and>
       (\<forall>db4. (authStep cfg)\<^sup>*\<^sup>* db3 db4 \<longrightarrow> deadSession cfg (asID session) db4))"
proof -
  obtain t s where t: "Refresh_lookup cfg e2 raw db2 = Reused t" "rtSessionID t = asID session"
      "findRow asID (asID session) (auSessions db2) = Some s" "asUserID s = asUserID session"
    using rotated_token_used [OF assms] by blast
  then show ?thesis
    using rotated_once [OF assms(3,4)] announce_found(1) [OF t(3), of e2 RevokeReasonTokenReuse]
      RevokeSession_revokes [OF t(3), of e2 RevokeReasonTokenReuse] revoked_stays_dead
    by (fastforce simp: AuthService_Refresh_def Let_def)
qed

theorem refresh_reuse_kills_family_witness:
  "fst (AuthService_Refresh sampleConfig (authEnvAt 20 60 ''third'') ''first'' (fst (snd sampleRotated))) = Inl ErrTokenConsumed"
proof -
  have live: "Refresh_lookup sampleConfig (authEnvAt 10 50 ''second'') ''first'' sampleAccount =
      Live (hd (auRefresh sampleAccount)) (hd (auSessions sampleAccount))" by code_simp
  have "isOk (fst sampleRotated)" by code_simp
  then obtain pair where "fst sampleRotated = Inr pair" by (rule isOkE)
  then obtain db1 evs where rot: "sampleRotated = (Inr pair, db1, evs)" by (metis prod.collapse)
  from conjunct2 [OF refresh_reuse_kills_family [OF live rtranclp.rtrancl_refl rot [unfolded sampleRotated_def]
      rtranclp.rtrancl_refl, of "authEnvAt 20 60 ''third''"]]
  show ?thesis by (auto simp: rot split: prod.splits)
qed

text \<open>C28: a password reset ends every session of the account: the account has the new hash and a proven
  address, the one event that is sent closes the connections of each of its sessions, none of them is
  accepted again whatever happens later, and the mailed token does not reset a second time.\<close>

theorem password_reset_ends_sessions:
  assumes "AuthService_ResetPassword cfg e raw pw db = (Inr (), db1, evs)" "(authStep cfg)\<^sup>*\<^sup>* db1 db2"
  shows "\<exists>u r ev. evs = [Revoked ev] \<and> reUserID ev = u \<and> findRow uID u (auUsers db1) = Some r \<and>
    anHash e pw = Inr (uPasswordHash r) \<and> IsEmailVerified r \<and>
    (\<forall>i s. findRow asID i (auSessions db) = Some s \<longrightarrow> asUserID s = u \<longrightarrow> Matches ev u i \<and> deadSession cfg i db2) \<and>
    (\<forall>e2 pw2. \<not> isOk (fst (AuthService_ResetPassword cfg e2 raw pw2 db2)))"
proof -
  obtain hash u where h: "anHash e pw = Inr hash" "resetBody cfg e raw hash db = Inr (u, db1)"
      "evs = [Revoked \<lparr>reScope = RevokeScopeUser, reUserID = u, reSessionID = NilID,
               reReason = RevokeReasonPasswordReset, reAt = anNow e\<rparr>]"
    using assms(1) by (auto simp: ResetPassword_Inr)
  obtain t d d' r where t: "consumeUserToken cfg e raw TokenPurposePasswordReset db = Inr (t, d)"
      "auSessions d' = auSessions db" "auTokens d' = auTokens d"
      "db1 = SessionRepository_RevokeAllSessions e u RevokeReasonPasswordReset d'"
      "findRow uID u (auUsers db1) = Some r" "uPasswordHash r = hash" "uEmailVerifiedAt r \<noteq> None"
    using resetBody_result [OF h(2)] by blast
  have dead: "deadSession cfg i db2" if "findRow asID i (auSessions db) = Some s" "asUserID s = u" for i s
  proof -
    have "findRow asID i (auSessions db1) = Some (revoke e RevokeReasonPasswordReset s)"
      using that t(2) by (simp add: t(4) SessionRepository_RevokeAllSessions_def findRow_map_sessions revoke_def)
    then show ?thesis by (rule revoked_stays_dead [OF _ _ assms(2)]) (simp add: revoke_def)
  qed
  have "rowsGrow tokenKeep (auTokens d) (auTokens db2)"
    using authSteps_grow [OF assms(2)] t(3,4) by (simp add: authGrows_def SessionRepository_RevokeAllSessions_def)
  then have spent: "consumeUserToken cfg e2 raw TokenPurposePasswordReset db2 \<noteq> Inr x" for e2 x
    using reset_token_spent [OF t(1)] isOk_simps(1) by metis
  then have "\<not> isOk (fst (AuthService_ResetPassword cfg e2 raw pw2 db2))" for e2 pw2
    by (cases "AuthService_ResetPassword cfg e2 raw pw2 db2")
      (auto simp: ResetPassword_Inr resetBody_def sum_cases elim!: isOkE)
  then show ?thesis using h t(5-7) dead by (auto simp: IsEmailVerified_def Matches_def)
qed

theorem password_reset_ends_sessions_witness: "deadSession sampleConfig 11 (fst (snd sampleReset))"
proof -
  have "fst sampleReset = Inr ()" by code_simp
  moreover have ev: "snd (snd sampleReset) = [Revoked \<lparr>reScope = RevokeScopeUser, reUserID = 1, reSessionID = NilID,
      reReason = RevokeReasonPasswordReset, reAt = 10\<rparr>]" by code_simp
  ultimately obtain db1 evs where r: "sampleReset = (Inr (), db1, evs)" by (metis prod.collapse)
  have s: "findRow asID 11 (auSessions sampleAccount) = Some (hd (auSessions sampleAccount))"
    "asUserID (hd (auSessions sampleAccount)) = 1" by code_simp+
  have evs: "evs = [Revoked \<lparr>reScope = RevokeScopeUser, reUserID = 1, reSessionID = NilID,
      reReason = RevokeReasonPasswordReset, reAt = 10\<rparr>]" using ev by (simp add: r)
  from password_reset_ends_sessions [OF r [unfolded sampleReset_def] rtranclp.rtrancl_refl]
  have "deadSession sampleConfig 11 db1" using s by (auto simp: evs)
  then show ?thesis by (simp add: r)
qed

text \<open>Live connections hear of every revocation, and of nothing else: whatever a request does, of the
  sessions that were not revoked before it, exactly those are revoked after it whose connections match
  a revocation event the request sent.\<close>

theorem revocations_announced:
  "case authServe cfg e req db of (res, db', evs) \<Rightarrow> announced db db' evs"
  using authServe_sound by (auto simp: authSound_def split: prod.splits)

end
