(* ===== verification/TripService.thy ===== *)
theory TripService
  imports OpLog Identity
begin

text \<open>Trips and who belongs to them (src/internal/service/trip.go, membership.go over
  src/internal/repository: trip.go, membership.go, invitation.go, and the tables trips, trip_members
  and trip_invitations).

  The accounts of \<^theory_text>\<open>Identity\<close> are an argument: the membership tables refer to them. The base64 and
  RFC 3339 codecs of the cursor, the identifier texts and the time-zone database are parameters. A
  method is one function to its result, the tables after it and the mails it sent.\<close>

record PeopleConfig =
  pcAuth :: AuthConfig
  pcInvitationTTL :: instant
  pcKnownZone :: "str \<Rightarrow> bool"
  pcFormatTime :: "instant \<Rightarrow> str"
  pcParseTime :: "str \<Rightarrow> instant option"
  pcFormatID :: "ID \<Rightarrow> str"
  pcParseID :: "str \<Rightarrow> ID option"
  pcBase64 :: "str \<Rightarrow> str"
  pcUnbase64 :: "str \<Rightarrow> str option"

record PeopleEnv =
  pnNow :: instant
  pnWall :: instant
  pnTxNow :: instant
  pnTimestamp :: "instant \<Rightarrow> instant"
  pnDate :: "instant \<Rightarrow> instant"
  pnID :: ID
  pnID2 :: ID
  pnRaw :: str

text \<open>An invitation mail: the address, the name of the trip, the link.\<close>

datatype Mail = InvitationMail str str str

type_synonym 'a outcome = "'a res \<times> DB \<times> Mail list"

section \<open>The trips table\<close>

definition tripChecks :: "Trip \<Rightarrow> unit query" where
  "tripChecks t = violates
     [(datesReversed (trStartDate t) (trEndDate t), CheckViolation ''trips_dates_ordered''),
      (RuneCountInString (trName t) < 1 \<or> 200 < RuneCountInString (trName t), CheckViolation ''trips_name_len''),
      (trVersion t \<le> 0, CheckViolation ''trips_version_positive'')]"

definition newTripRow :: "PeopleEnv \<Rightarrow> Trip \<Rightarrow> Trip" where
  "newTripRow e t = t\<lparr>trStartDate := map_option (pnDate e) (trStartDate t), trEndDate := map_option (pnDate e) (trEndDate t),
     trVersion := 1, trCreatedAt := pnTxNow e, trUpdatedAt := pnTxNow e, trDeletedAt := None\<rparr>"

text \<open>A new trip starts its operation log at sequence number 0.\<close>

definition TripRepository_Create :: "PeopleEnv \<Rightarrow> Trip \<Rightarrow> DB \<Rightarrow> (Trip \<times> DB) res" where
  "TripRepository_Create e t db =
     bindR (mapErrorR (insertRow ''trips_pkey'' trID tripChecks (\<lambda>_. Inr ()) (newTripRow e t) (dbTrips db)))
       (\<lambda>(r, rows). Inr (r, db\<lparr>dbTrips := rows, dbOpSeq := (dbOpSeq db)(trID r := 0)\<rparr>))"

definition setTrip :: "PeopleEnv \<Rightarrow> Trip \<Rightarrow> Trip \<Rightarrow> Trip" where
  "setTrip e t r = r\<lparr>trName := trName t, trDescription := trDescription t,
     trStartDate := map_option (pnDate e) (trStartDate t), trEndDate := map_option (pnDate e) (trEndDate t),
     trTimeZone := trTimeZone t, trVersion := trVersion r + 1, trUpdatedAt := pnTimestamp e (pnWall e)\<rparr>"

definition setTripDeleted :: "PeopleEnv \<Rightarrow> Trip \<Rightarrow> Trip" where
  "setTripDeleted e r = r\<lparr>trDeletedAt := Some (pnTimestamp e (pnNow e)), trVersion := trVersion r + 1,
     trUpdatedAt := pnTimestamp e (pnNow e)\<rparr>"

definition TripRepository_Update :: "PeopleEnv \<Rightarrow> Trip \<Rightarrow> DB \<Rightarrow> (Trip \<times> DB) res" where
  "TripRepository_Update e t db =
     bindR (updateVersioned trID trVersion trDeletedAt tripChecks (trID t) (trVersion t) (setTrip e t) (dbTrips db))
       (\<lambda>(r, rows). Inr (r, db\<lparr>dbTrips := rows\<rparr>))"

definition TripRepository_SoftDelete :: "PeopleEnv \<Rightarrow> ID \<Rightarrow> int \<Rightarrow> DB \<Rightarrow> (unit \<times> DB) res" where
  "TripRepository_SoftDelete e i expected db =
     bindR (updateVersioned trID trVersion trDeletedAt tripChecks i expected (setTripDeleted e) (dbTrips db))
       (\<lambda>(_, rows). Inr ((), db\<lparr>dbTrips := rows\<rparr>))"

section \<open>Pages of trips\<close>

definition cursorSeparator :: str where "cursorSeparator = ''|''"

definition encodeTripCursor :: "PeopleConfig \<Rightarrow> instant \<Rightarrow> ID \<Rightarrow> str" where
  "encodeTripCursor cfg createdAt i = pcBase64 cfg (pcFormatTime cfg createdAt @ cursorSeparator @ pcFormatID cfg i)"

text \<open>\<^theory_text>\<open>strings.Cut\<close> at the one-byte separator.\<close>

definition cutBar :: "str \<Rightarrow> (str \<times> str) option" where
  "cutBar s = (if CHR ''|'' \<in> set s
     then Some (takeWhile (\<lambda>c. c \<noteq> CHR ''|'') s, tl (dropWhile (\<lambda>c. c \<noteq> CHR ''|'') s)) else None)"

definition invalidCursor :: "'a res" where
  "invalidCursor = Inl (ValidationError (Add ''cursor'' ''invalid_cursor'' []))"

definition decodeTripCursor :: "PeopleConfig \<Rightarrow> str \<Rightarrow> (instant \<times> ID) res" where
  "decodeTripCursor cfg c =
     (case pcUnbase64 cfg c of None \<Rightarrow> invalidCursor
      | Some decoded \<Rightarrow>
        (case cutBar decoded of None \<Rightarrow> invalidCursor
         | Some (tsPart, idPart) \<Rightarrow>
           (case pcParseTime cfg tsPart of None \<Rightarrow> invalidCursor
            | Some createdAt \<Rightarrow>
              (case ParseID (pcParseID cfg) ''cursor'' idPart of Inl _ \<Rightarrow> invalidCursor
               | Inr i \<Rightarrow> Inr (createdAt, i)))))"

text \<open>The statement: the live trips the user is a live member of, below the cursor, newest first.\<close>

definition tripsOf :: "ID \<Rightarrow> DB \<Rightarrow> Trip list" where
  "tripsOf userID db =
     concat (map (\<lambda>t. replicate (length (filter (liveMember (trID t) userID) (dbMembers db))) t)
       (filter (\<lambda>t. trDeletedAt t = None) (dbTrips db)))"

definition ListTripsForUser :: "ID \<Rightarrow> (instant \<times> ID) option \<Rightarrow> int \<Rightarrow> DB \<Rightarrow> Trip list" where
  "ListTripsForUser userID after pageLimit db =
     take (nat pageLimit) (rev (sort_key (\<lambda>t. (trCreatedAt t, trID t))
       (filter (\<lambda>t. case after of None \<Rightarrow> True | Some k \<Rightarrow> (trCreatedAt t, trID t) < k) (tripsOf userID db))))"

definition TripRepository_ListForUser :: "PeopleConfig \<Rightarrow> ID \<Rightarrow> PageRequest \<Rightarrow> DB \<Rightarrow> Trip Page res" where
  "TripRepository_ListForUser cfg userID req db =
     (let req = Normalize req in
      bindR (if prAfter req \<noteq> [] then bindR (decodeTripCursor cfg (prAfter req)) (\<lambda>k. Inr (Some k)) else Inr None)
        (\<lambda>after. Inr (NewPage (ListTripsForUser userID after (prLimit req + 1) db) (prLimit req)
          (\<lambda>t. encodeTripCursor cfg (trCreatedAt t) (trID t)))))"

section \<open>The members table\<close>

definition memberChecks :: "Member \<Rightarrow> unit query" where
  "memberChecks m = violates [(\<not> Role_Valid (mRole m), CheckViolation ''trip_members_role'')]"

definition liveOwner :: "ID \<Rightarrow> Member \<Rightarrow> bool" where
  "liveOwner tripID m \<longleftrightarrow> mTripID m = tripID \<and> mRole m = RoleOwner \<and> mDeletedAt m = None"

definition memberRefs :: "User list \<Rightarrow> DB \<Rightarrow> Member \<Rightarrow> unit query" where
  "memberRefs users db m = violates
     [(list_ex (liveMember (mTripID m) (mUserID m)) (dbMembers db), UniqueViolation ''trip_members_uq''),
      (mRole m = RoleOwner \<and> list_ex (liveOwner (mTripID m)) (dbMembers db), UniqueViolation ''trip_members_owner_uq''),
      (mTripID m \<notin> trID ` set (dbTrips db), ForeignKeyViolation ''trip_members_trip_id_fkey''),
      (mUserID m \<notin> uID ` set users, ForeignKeyViolation ''trip_members_user_id_fkey''),
      (case mInvitedBy m of None \<Rightarrow> False | Some i \<Rightarrow> i \<notin> uID ` set users, ForeignKeyViolation ''trip_members_invited_by_fkey'')]"

definition newMemberRow :: "PeopleEnv \<Rightarrow> Member \<Rightarrow> Member" where
  "newMemberRow e m = m\<lparr>mJoinedAt := pnTxNow e, mVersion := 1, mCreatedAt := pnTxNow e, mUpdatedAt := pnTxNow e,
     mDeletedAt := None\<rparr>"

definition MembershipRepository_Add :: "PeopleEnv \<Rightarrow> User list \<Rightarrow> Member \<Rightarrow> DB \<Rightarrow> (Member \<times> DB) res" where
  "MembershipRepository_Add e users m db =
     bindR (mapErrorR (insertRow ''trip_members_pkey'' mID memberChecks (memberRefs users db) (newMemberRow e m) (dbMembers db)))
       (\<lambda>(r, rows). Inr (r, db\<lparr>dbMembers := rows\<rparr>))"

definition setRole :: "PeopleEnv \<Rightarrow> Role \<Rightarrow> Member \<Rightarrow> Member" where
  "setRole e role r = r\<lparr>mRole := role, mVersion := mVersion r + 1, mUpdatedAt := pnTimestamp e (pnWall e)\<rparr>"

definition setMemberDeleted :: "PeopleEnv \<Rightarrow> Member \<Rightarrow> Member" where
  "setMemberDeleted e r = r\<lparr>mDeletedAt := Some (pnTimestamp e (pnNow e)), mVersion := mVersion r + 1,
     mUpdatedAt := pnTimestamp e (pnNow e)\<rparr>"

text \<open>An update of the live row of a member, found by trip and user.\<close>

definition updateMember ::
  "(Member \<Rightarrow> bool) \<Rightarrow> (Member \<Rightarrow> Member) \<Rightarrow> Member list \<Rightarrow> (Member \<times> Member list) query" where
  "updateMember found f rows =
     (case find found rows of
        None \<Rightarrow> Inl ErrNoRows
      | Some r \<Rightarrow>
          if mVersion r = maxInt32 then Inl (OtherCode ''22003'')
          else bindR (memberChecks (f r)) (\<lambda>_.
            if mRole (f r) = RoleOwner \<and> mDeletedAt (f r) = None \<and>
               list_ex (\<lambda>x. mID x \<noteq> mID r \<and> liveOwner (mTripID r) x) rows
            then Inl (UniqueViolation ''trip_members_owner_uq'')
            else Inr (f r, updRow mID (mID r) f rows)))"

definition MembershipRepository_UpdateRole :: "PeopleEnv \<Rightarrow> Member \<Rightarrow> DB \<Rightarrow> (Member \<times> DB) res" where
  "MembershipRepository_UpdateRole e m db =
     bindR (resolve (list_ex (\<lambda>x. mTripID x = mTripID m \<and> mUserID x = mUserID m) (dbMembers db))
         (updateMember (\<lambda>x. liveMember (mTripID m) (mUserID m) x \<and> mVersion x = versionArg (mVersion m))
           (setRole e (mRole m)) (dbMembers db)))
       (\<lambda>(r, rows). Inr (r, db\<lparr>dbMembers := rows\<rparr>))"

definition MembershipRepository_Remove :: "PeopleEnv \<Rightarrow> ID \<Rightarrow> ID \<Rightarrow> DB \<Rightarrow> (unit \<times> DB) res" where
  "MembershipRepository_Remove e tripID userID db =
     bindR (resolve False (updateMember (liveMember tripID userID) (setMemberDeleted e) (dbMembers db)))
       (\<lambda>(_, rows). Inr ((), db\<lparr>dbMembers := rows\<rparr>))"

definition MembershipRepository_CountByRole :: "ID \<Rightarrow> Role \<Rightarrow> DB \<Rightarrow> nat" where
  "MembershipRepository_CountByRole tripID role db =
     length (filter (\<lambda>m. mTripID m = tripID \<and> mRole m = role \<and> mDeletedAt m = None) (dbMembers db))"

definition MembershipRepository_ListProfiles :: "User list \<Rightarrow> ID \<Rightarrow> DB \<Rightarrow> (Member \<times> str) list" where
  "MembershipRepository_ListProfiles users tripID db =
     concat (map (\<lambda>m. map (\<lambda>u. (m, uDisplayName u)) (filter (\<lambda>u. uID u = mUserID m) users)) (MembershipRepository_List tripID db))"

section \<open>The invitations table\<close>

definition invitationChecks :: "Invitation \<Rightarrow> unit query" where
  "invitationChecks i = violates
     [(length (iTokenHash i) \<noteq> 32, CheckViolation ''trip_invitations_hash_len''),
      (iRole i \<noteq> RoleEditor \<and> iRole i \<noteq> RoleViewer, CheckViolation ''trip_invitations_role''),
      (iUseCount i < 0, CheckViolation ''trip_invitations_use_count''),
      (case iMaxUses i of None \<Rightarrow> False | Some m \<Rightarrow> \<not> (0 < m \<and> iUseCount i \<le> m), CheckViolation ''trip_invitations_uses'')]"

text \<open>The maximal number of uses is truncated to 32 bits.\<close>

definition newInvitationRow :: "PeopleEnv \<Rightarrow> Invitation \<Rightarrow> Invitation" where
  "newInvitationRow e i = i\<lparr>iMaxUses := map_option (signed_take_bit 31) (iMaxUses i), iUseCount := 0,
     iExpiresAt := pnTimestamp e (iExpiresAt i), iRevokedAt := None, iCreatedAt := pnTxNow e\<rparr>"

definition InvitationRepository_Create :: "PeopleEnv \<Rightarrow> User list \<Rightarrow> Invitation \<Rightarrow> DB \<Rightarrow> (Invitation \<times> DB) res" where
  "InvitationRepository_Create e users i db =
     bindR (mapErrorR (insertRow ''trip_invitations_pkey'' iID invitationChecks
         (\<lambda>r. violates
           [(iTokenHash r \<in> iTokenHash ` set (dbInvitations db), UniqueViolation ''trip_invitations_hash_uq''),
            (iTripID r \<notin> trID ` set (dbTrips db), ForeignKeyViolation ''trip_invitations_trip_id_fkey''),
            (iCreatedBy r \<notin> uID ` set users, ForeignKeyViolation ''trip_invitations_created_by_fkey'')])
         (newInvitationRow e i) (dbInvitations db)))
       (\<lambda>(r, rows). Inr (r, db\<lparr>dbInvitations := rows\<rparr>))"

definition InvitationRepository_GetByHash :: "str \<Rightarrow> DB \<Rightarrow> Invitation res" where
  "InvitationRepository_GetByHash h db = findHash iTokenHash h (dbInvitations db)"

definition InvitationRepository_ListForTrip :: "ID \<Rightarrow> DB \<Rightarrow> Invitation list" where
  "InvitationRepository_ListForTrip tripID db =
     rev (sort_key iCreatedAt (rev (filter (\<lambda>i. iTripID i = tripID \<and> iRevokedAt i = None) (dbInvitations db))))"

definition usable :: "instant \<Rightarrow> Invitation \<Rightarrow> bool" where
  "usable now i \<longleftrightarrow> iRevokedAt i = None \<and> iExpiresAt i > now \<and>
     (case iMaxUses i of None \<Rightarrow> True | Some m \<Rightarrow> iUseCount i < m)"

definition countUse :: "Invitation \<Rightarrow> Invitation" where
  "countUse i = i\<lparr>iUseCount := iUseCount i + 1\<rparr>"

definition InvitationRepository_IncrementUseCount :: "PeopleEnv \<Rightarrow> ID \<Rightarrow> DB \<Rightarrow> DB res" where
  "InvitationRepository_IncrementUseCount e i db =
     (case findRow iID i (dbInvitations db) of
        None \<Rightarrow> Inl ErrTokenInvalid
      | Some invite \<Rightarrow>
          if \<not> usable (pnWall e) invite then Inl ErrTokenInvalid
          else if iUseCount invite = maxInt32 then Inl (mapError (OtherCode ''22003''))
          else Inr (db\<lparr>dbInvitations := updRow iID i countUse (dbInvitations db)\<rparr>))"

definition InvitationRepository_Revoke :: "PeopleEnv \<Rightarrow> ID \<Rightarrow> DB \<Rightarrow> (unit \<times> DB) res" where
  "InvitationRepository_Revoke e i db =
     (case findRow iID i (dbInvitations db) of
        None \<Rightarrow> Inl (resolveWriteMiss False)
      | Some invite \<Rightarrow>
          if iRevokedAt invite \<noteq> None then Inl (resolveWriteMiss False)
          else Inr ((), db\<lparr>dbInvitations :=
            updRow iID i (\<lambda>r. r\<lparr>iRevokedAt := Some (pnTimestamp e (pnNow e))\<rparr>) (dbInvitations db)\<rparr>))"

end
