(* ===== verification/MembershipService.thy ===== *)
theory MembershipService
  imports TripService
begin

text \<open>The services of trips and memberships (src/internal/service/trip.go, membership.go): create,
  edit, delete and list trips; the roster, roles and removal; invitations and their redemption.\<close>

definition plain :: "'a res \<times> DB \<Rightarrow> 'a outcome" where
  "plain r = (case r of (res, db) \<Rightarrow> (res, db, []))"

text \<open>A handler that authorizes the caller, or checks its input, first.\<close>

definition checked :: "'b res \<Rightarrow> ('b \<Rightarrow> DB \<Rightarrow> 'a outcome) \<Rightarrow> DB \<Rightarrow> 'a outcome" where
  "checked r k db = (case r of Inl err \<Rightarrow> (Inl err, db, []) | Inr x \<Rightarrow> k x db)"

section \<open>Trips\<close>

record TripInput =
  tiName :: str
  tiDescription :: str
  tiTimeZone :: str
  tiStartDate :: "instant option"
  tiEndDate :: "instant option"

definition tripFrom :: "ID \<Rightarrow> TripInput \<Rightarrow> int \<Rightarrow> Trip" where
  "tripFrom i inp version = \<lparr>trID = i, trName = tiName inp, trDescription = tiDescription inp,
     trStartDate = tiStartDate inp, trEndDate = tiEndDate inp, trTimeZone = tiTimeZone inp, trVersion = version,
     trCreatedAt = zeroTime, trUpdatedAt = zeroTime, trDeletedAt = None\<rparr>"

definition newMember :: "ID \<Rightarrow> ID \<Rightarrow> ID \<Rightarrow> Role \<Rightarrow> ID option \<Rightarrow> Member" where
  "newMember i tripID userID role invitedBy = \<lparr>mID = i, mTripID = tripID, mUserID = userID, mRole = role,
     mInvitedBy = invitedBy, mJoinedAt = zeroTime, mVersion = 0, mCreatedAt = zeroTime, mUpdatedAt = zeroTime,
     mDeletedAt = None\<rparr>"

definition createTripBody :: "PeopleEnv \<Rightarrow> User list \<Rightarrow> ID \<Rightarrow> Trip \<Rightarrow> DB \<Rightarrow> (Trip \<times> DB) res" where
  "createTripBody e users userID t db =
     bindR (TripRepository_Create e t db) (\<lambda>(r, db).
     bindR (MembershipRepository_Add e users (newMember (pnID2 e) (trID r) userID RoleOwner None) db) (\<lambda>(_, db).
       Inr (r, db)))"

definition TripService_Create :: "PeopleConfig \<Rightarrow> PeopleEnv \<Rightarrow> User list \<Rightarrow> ID \<Rightarrow> TripInput \<Rightarrow> DB \<Rightarrow> Trip outcome" where
  "TripService_Create cfg e users userID inp =
     (let t = tripFrom (pnID e) inp 0 in
      checked (Trip_Validate (pcKnownZone cfg) t) (\<lambda>_ db. plain (inTx (createTripBody e users userID t) db)))"

definition TripService_Get :: "ID \<Rightarrow> ID \<Rightarrow> DB \<Rightarrow> Trip res" where
  "TripService_Get tripID userID db = bindR (actor tripID userID db) (\<lambda>_. TripRepository_GetByID tripID db)"

definition TripService_Update :: "PeopleConfig \<Rightarrow> PeopleEnv \<Rightarrow> ID \<Rightarrow> ID \<Rightarrow> TripInput \<Rightarrow> int \<Rightarrow> DB \<Rightarrow> Trip outcome" where
  "TripService_Update cfg e tripID userID inp version db =
     checked (require tripID userID CapEditTrip db) (\<lambda>_.
       let t = tripFrom tripID inp version in
       checked (Trip_Validate (pcKnownZone cfg) t) (\<lambda>_ db. plain (inTx (TripRepository_Update e t) db))) db"

definition TripService_Delete :: "PeopleEnv \<Rightarrow> ID \<Rightarrow> ID \<Rightarrow> int \<Rightarrow> DB \<Rightarrow> unit outcome" where
  "TripService_Delete e tripID userID expected db =
     checked (require tripID userID CapDeleteTrip db) (\<lambda>_ db. plain (inTx (TripRepository_SoftDelete e tripID expected) db)) db"

definition TripService_ListForUser :: "PeopleConfig \<Rightarrow> ID \<Rightarrow> PageRequest \<Rightarrow> DB \<Rightarrow> Trip Page res" where
  "TripService_ListForUser cfg userID req db = TripRepository_ListForUser cfg userID (Normalize req) db"

section \<open>Members\<close>

definition MembershipService_ListMembers :: "ID \<Rightarrow> ID \<Rightarrow> DB \<Rightarrow> Member list res" where
  "MembershipService_ListMembers tripID userID db =
     bindR (actor tripID userID db) (\<lambda>_. Inr (MembershipRepository_List tripID db))"

definition MembershipService_ListMemberProfiles :: "User list \<Rightarrow> ID \<Rightarrow> ID \<Rightarrow> DB \<Rightarrow> (Member \<times> str) list res" where
  "MembershipService_ListMemberProfiles users tripID userID db =
     bindR (actor tripID userID db) (\<lambda>_. Inr (MembershipRepository_ListProfiles users tripID db))"

definition MembershipService_UpdateRole ::
  "PeopleEnv \<Rightarrow> ID \<Rightarrow> ID \<Rightarrow> ID \<Rightarrow> Role \<Rightarrow> int \<Rightarrow> DB \<Rightarrow> Member outcome" where
  "MembershipService_UpdateRole e tripID actorUserID targetUserID newRole expected db =
     checked (require tripID actorUserID CapManageMembers db) (\<lambda>_.
     checked (if newRole \<noteq> RoleEditor \<and> newRole \<noteq> RoleViewer
              then Inl (ValidationError (Add ''role'' ''invalid_role'' [])) else Inr ()) (\<lambda>_.
     checked (MembershipRepository_Get tripID targetUserID db) (\<lambda>target db.
       if mRole target = RoleOwner then (Inl ErrForbidden, db, [])
       else plain (inTx (MembershipRepository_UpdateRole e (target\<lparr>mRole := newRole, mVersion := expected\<rparr>)) db)))) db"

definition MembershipService_RemoveMember :: "PeopleEnv \<Rightarrow> ID \<Rightarrow> ID \<Rightarrow> ID \<Rightarrow> DB \<Rightarrow> unit outcome" where
  "MembershipService_RemoveMember e tripID actorUserID targetUserID db =
     checked (require tripID actorUserID CapManageMembers db) (\<lambda>_.
     checked (MembershipRepository_Get tripID targetUserID db) (\<lambda>target db.
       if mRole target = RoleOwner then (Inl ErrForbidden, db, [])
       else plain (inTx (MembershipRepository_Remove e tripID targetUserID) db))) db"

section \<open>Invitations\<close>

record CreateInvitationInput =
  ciEmail :: "str option"
  ciRole :: Role
  ciMaxUses :: "int option"

definition invitationLink :: "PeopleConfig \<Rightarrow> str \<Rightarrow> str" where
  "invitationLink cfg raw = cfWebBaseURL (pcAuth cfg) @ ''/invitations/accept?token='' @ raw"

definition invitationFrom :: "PeopleConfig \<Rightarrow> PeopleEnv \<Rightarrow> ID \<Rightarrow> ID \<Rightarrow> CreateInvitationInput \<Rightarrow> Invitation" where
  "invitationFrom cfg e tripID userID inp =
     \<lparr>iID = pnID e, iTripID = tripID, iEmail = ciEmail inp, iRole = ciRole inp,
      iTokenHash = cfSHA256 (pcAuth cfg) (pnRaw e), iCreatedBy = userID, iMaxUses = ciMaxUses inp, iUseCount = 0,
      iExpiresAt = pnNow e + pcInvitationTTL cfg, iRevokedAt = None, iCreatedAt = zeroTime\<rparr>"

definition sendInvitationEmail :: "PeopleConfig \<Rightarrow> PeopleEnv \<Rightarrow> ID \<Rightarrow> str \<Rightarrow> DB \<Rightarrow> Mail list" where
  "sendInvitationEmail cfg e tripID to db =
     (case TripRepository_GetByID tripID db of
        Inl _ \<Rightarrow> []
      | Inr t \<Rightarrow> [InvitationMail to (trName t) (invitationLink cfg (pnRaw e))])"

text \<open>The link is returned for an invitation without an address, and mailed otherwise.\<close>

definition MembershipService_CreateInvitation ::
  "PeopleConfig \<Rightarrow> PeopleEnv \<Rightarrow> User list \<Rightarrow> ID \<Rightarrow> ID \<Rightarrow> CreateInvitationInput \<Rightarrow> DB \<Rightarrow> (Invitation \<times> str) outcome" where
  "MembershipService_CreateInvitation cfg e users tripID userID inp db =
     checked (require tripID userID CapInviteMembers db) (\<lambda>a.
       let invite = invitationFrom cfg e tripID (aUserID a) inp in
       checked (Invitation_Validate (cfParseAddress (pcAuth cfg)) invite) (\<lambda>_ db.
         case inTx (InvitationRepository_Create e users invite) db of
           (Inl err, db') \<Rightarrow> (Inl err, db', [])
         | (Inr i, db') \<Rightarrow>
             (case iEmail i of
                Some to \<Rightarrow> (Inr (i, []), db', sendInvitationEmail cfg e tripID to db')
              | None \<Rightarrow> (Inr (i, invitationLink cfg (pnRaw e)), db', [])))) db"

definition MembershipService_ListInvitations :: "ID \<Rightarrow> ID \<Rightarrow> DB \<Rightarrow> Invitation list res" where
  "MembershipService_ListInvitations tripID userID db =
     bindR (require tripID userID CapInviteMembers db) (\<lambda>_. Inr (InvitationRepository_ListForTrip tripID db))"

definition MembershipService_RevokeInvitation :: "PeopleEnv \<Rightarrow> ID \<Rightarrow> ID \<Rightarrow> ID \<Rightarrow> DB \<Rightarrow> unit outcome" where
  "MembershipService_RevokeInvitation e tripID userID invitationID db =
     checked (require tripID userID CapInviteMembers db) (\<lambda>_ db. plain (inTx (InvitationRepository_Revoke e invitationID) db)) db"

text \<open>The address an invitation names must be the caller's.\<close>

definition addressedTo :: "PeopleConfig \<Rightarrow> AuthDB \<Rightarrow> ID \<Rightarrow> Invitation \<Rightarrow> unit res" where
  "addressedTo cfg accounts userID invite =
     (case iEmail invite of
        None \<Rightarrow> Inr ()
      | Some email \<Rightarrow> bindR (UserRepository_GetByID userID accounts) (\<lambda>u.
          if NormalizeEmail (cfGoLower (pcAuth cfg)) (uEmail u) \<noteq> NormalizeEmail (cfGoLower (pcAuth cfg)) email
          then Inl ErrTokenInvalid else Inr ()))"

definition redeemBody :: "PeopleEnv \<Rightarrow> User list \<Rightarrow> ID \<Rightarrow> Invitation \<Rightarrow> DB \<Rightarrow> (Trip \<times> DB) res" where
  "redeemBody e users userID invite db =
     bindR (InvitationRepository_IncrementUseCount e (iID invite) db) (\<lambda>db.
     bindR (case MembershipRepository_Get (iTripID invite) userID db of
              Inr _ \<Rightarrow> Inr db
            | Inl err \<Rightarrow>
                if err = ErrNotFound
                then bindR (MembershipRepository_Add e users
                       (newMember (pnID e) (iTripID invite) userID (iRole invite) (Some (iCreatedBy invite))) db) (\<lambda>(_, db). Inr db)
                else Inl err) (\<lambda>db.
     bindR (TripRepository_GetByID (iTripID invite) db) (\<lambda>t. Inr (t, db))))"

definition MembershipService_RedeemInvitation ::
  "PeopleConfig \<Rightarrow> PeopleEnv \<Rightarrow> AuthDB \<Rightarrow> ID \<Rightarrow> str \<Rightarrow> DB \<Rightarrow> Trip outcome" where
  "MembershipService_RedeemInvitation cfg e accounts userID raw db =
     checked (case InvitationRepository_GetByHash (cfSHA256 (pcAuth cfg) raw) db of
                Inl err \<Rightarrow> Inl (if err = ErrNotFound then ErrTokenInvalid else err)
              | Inr invite \<Rightarrow> Inr invite) (\<lambda>invite.
     checked (addressedTo cfg accounts userID invite) (\<lambda>_ db.
       plain (inTx (redeemBody e (auUsers accounts) userID invite) db))) db"

end
