(* ===== verification/Roster.thy ===== *)
theory Roster
  imports Isolation Credentials MembershipService
begin

text \<open>The whole server on its database: planning, people and accounts together. Every trip has exactly
  one owner for good, invitations admit as many as they allow in the role they name, and the pages
  of a user's trips show each of them once.\<close>

section \<open>Requests\<close>

datatype PeopleRequest =
    CreateTrip TripInput
  | UpdateTrip ID TripInput int
  | DeleteTrip ID int
  | UpdateRole ID ID Role int
  | RemoveMember ID ID
  | CreateInvitation ID CreateInvitationInput
  | RevokeInvitation ID ID
  | RedeemInvitation str

definition finish :: "'a outcome \<Rightarrow> unit outcome" where
  "finish r = (case r of (res, db, mails) \<Rightarrow> (bindR res (\<lambda>_. Inr ()), db, mails))"

definition peopleServe ::
  "PeopleConfig \<Rightarrow> PeopleEnv \<Rightarrow> AuthDB \<Rightarrow> ID \<Rightarrow> PeopleRequest \<Rightarrow> DB \<Rightarrow> unit outcome" where
  "peopleServe cfg e accounts userID req db = (case req of
       CreateTrip inp \<Rightarrow> finish (TripService_Create cfg e (auUsers accounts) userID inp db)
     | UpdateTrip tripID inp version \<Rightarrow> finish (TripService_Update cfg e tripID userID inp version db)
     | DeleteTrip tripID version \<Rightarrow> TripService_Delete e tripID userID version db
     | UpdateRole tripID target role version \<Rightarrow> finish (MembershipService_UpdateRole e tripID userID target role version db)
     | RemoveMember tripID target \<Rightarrow> MembershipService_RemoveMember e tripID userID target db
     | CreateInvitation tripID inp \<Rightarrow> finish (MembershipService_CreateInvitation cfg e (auUsers accounts) tripID userID inp db)
     | RevokeInvitation tripID i \<Rightarrow> MembershipService_RevokeInvitation e tripID userID i db
     | RedeemInvitation raw \<Rightarrow> finish (MembershipService_RedeemInvitation cfg e accounts userID raw db))"

text \<open>The server from the first start on: requests of all three kinds in any order.\<close>

inductive running :: "(Env \<Rightarrow> bool) \<Rightarrow> PeopleConfig \<Rightarrow> DB \<Rightarrow> AuthDB \<Rightarrow> bool" for okEnv cfg where
  boot: "emptyPlan db \<Longrightarrow> dbTrips db = [] \<Longrightarrow> dbMembers db = [] \<Longrightarrow> dbInvitations db = [] \<Longrightarrow> running okEnv cfg db accounts"
| planning: "running okEnv cfg db accounts \<Longrightarrow> okEnv e \<Longrightarrow> serve e tripID userID req db = (res, db', ops) \<Longrightarrow>
    running okEnv cfg db' accounts"
| people: "running okEnv cfg db accounts \<Longrightarrow> peopleServe cfg e accounts userID preq db = (res, db', mails) \<Longrightarrow>
    running okEnv cfg db' accounts"
| account: "running okEnv cfg db accounts \<Longrightarrow> authStep (pcAuth cfg) accounts accounts' \<Longrightarrow> running okEnv cfg db accounts'"

section \<open>What a people request changes\<close>

inductive rosterStep :: "DB \<Rightarrow> DB \<Rightarrow> bool" where
  unchanged: "rosterStep db db"
| created: "trID t \<notin> trID ` set (dbTrips db) \<Longrightarrow> mID m \<notin> mID ` set (dbMembers db) \<Longrightarrow> liveOwner (trID t) m \<Longrightarrow>
    rosterStep db (db\<lparr>dbTrips := dbTrips db @ [t], dbOpSeq := (dbOpSeq db)(trID t := 0), dbMembers := dbMembers db @ [m]\<rparr>)"
| edited: "(\<And>t. trID (f t) = trID t) \<Longrightarrow> rosterStep db (db\<lparr>dbTrips := updRow trID i f (dbTrips db)\<rparr>)"
| member: "r \<in> set (dbMembers db) \<Longrightarrow> mDeletedAt r = None \<Longrightarrow> mRole r \<noteq> RoleOwner \<Longrightarrow>
    (\<And>m. mID (f m) = mID m \<and> mTripID (f m) = mTripID m \<and> mUserID (f m) = mUserID m) \<Longrightarrow>
    mRole (f r) \<noteq> RoleOwner \<Longrightarrow> rosterStep db (db\<lparr>dbMembers := updRow mID (mID r) f (dbMembers db)\<rparr>)"
| joined: "findRow iID (iID invite) (dbInvitations db) = Some i0 \<Longrightarrow> usable now i0 \<Longrightarrow>
    new = [] \<or> (\<exists>m. new = [m] \<and> mID m \<notin> mID ` set (dbMembers db) \<and> mTripID m \<in> trID ` set (dbTrips db) \<and>
      mRole m = iRole invite \<and> invite \<in> set (dbInvitations db) \<and> \<not> list_ex (liveMember (mTripID m) (mUserID m)) (dbMembers db)) \<Longrightarrow>
    rosterStep db (db\<lparr>dbInvitations := updRow iID (iID invite) countUse (dbInvitations db), dbMembers := dbMembers db @ new\<rparr>)"
| invited: "iID i \<notin> iID ` set (dbInvitations db) \<Longrightarrow> iRole i \<in> {RoleEditor, RoleViewer} \<Longrightarrow> iUseCount i = 0 \<Longrightarrow> (\<forall>m. iMaxUses i = Some m \<longrightarrow> 0 < m) \<Longrightarrow>
    rosterStep db (db\<lparr>dbInvitations := dbInvitations db @ [i]\<rparr>)"
| revoked: "(\<And>i. iID (f i) = iID i \<and> iRole (f i) = iRole i \<and> iUseCount (f i) = iUseCount i \<and> iMaxUses (f i) = iMaxUses i) \<Longrightarrow>
    rosterStep db (db\<lparr>dbInvitations := updRow iID i f (dbInvitations db)\<rparr>)"

named_theorems people_defs "the statements and handlers of trips and memberships"

lemmas [people_defs] = plain_def inTx_def TripRepository_Create_def TripRepository_Update_def TripRepository_SoftDelete_def
  MembershipRepository_Add_def MembershipRepository_UpdateRole_def MembershipRepository_Remove_def
  InvitationRepository_Create_def InvitationRepository_IncrementUseCount_def InvitationRepository_Revoke_def

lemma checked_Inr: "checked r k db = (Inr x, db', mails) \<longleftrightarrow> (\<exists>y. r = Inr y \<and> k y db = (Inr x, db', mails))"
  by (auto simp: checked_def split: sum.splits)

lemma finish_Inr: "finish r = (Inr u, db', mails) \<longleftrightarrow> (\<exists>x. r = (Inr x, db', mails))"
  by (cases r; cases "fst r") (auto simp: finish_def)

lemma plain_inTx_Inr: "plain (inTx f db) = (Inr x, db', mails) \<longleftrightarrow> f db = Inr (x, db') \<and> mails = []"
  by (auto simp: plain_def inTx_def split: sum.splits)

text \<open>An error leaves the tables as they were.\<close>

lemma checked_Inl: "checked r k db = (Inl err, db', mails) \<Longrightarrow>
    (\<And>y. r = Inr y \<Longrightarrow> k y db = (Inl err, db', mails) \<Longrightarrow> db' = db) \<Longrightarrow> db' = db"
  by (auto simp: checked_def split: sum.splits)

lemma plain_inTx_Inl: "plain (inTx f db) = (Inl err, db', mails) \<Longrightarrow> db' = db"
  by (auto simp: plain_def inTx_def split: sum.splits)

lemma finish_Inl: "finish r = (Inl err, db', mails) \<Longrightarrow> r = (Inl err, db', mails)"
  by (cases r; cases "fst r") (auto simp: finish_def)

lemmas handler_defs = TripService_Create_def TripService_Update_def TripService_Delete_def
  MembershipService_UpdateRole_def MembershipService_RemoveMember_def MembershipService_CreateInvitation_def
  MembershipService_RevokeInvitation_def MembershipService_RedeemInvitation_def

lemma people_error_unchanged:
  assumes "peopleServe cfg e accounts userID req db = (Inl err, db', mails)"
  shows "db' = db"
  using assms
  by (cases req) (auto simp: peopleServe_def handler_defs Let_def inTx_eq split: if_splits prod.splits sum.splits option.splits
      dest!: finish_Inl elim!: checked_Inl dest: plain_inTx_Inl)

lemma Role_cases_owner: "\<not> Role_Valid RoleOwner \<Longrightarrow> False"
  by (simp add: Role_Valid_def roleCapabilities_def)

lemma MembershipRepository_Add_Inr:
  "MembershipRepository_Add e users m db = Inr (r, db') \<longleftrightarrow>
     Role_Valid (mRole m) \<and> mID m \<notin> mID ` set (dbMembers db) \<and>
     \<not> list_ex (liveMember (mTripID m) (mUserID m)) (dbMembers db) \<and>
     \<not> (mRole m = RoleOwner \<and> list_ex (liveOwner (mTripID m)) (dbMembers db)) \<and>
     mTripID m \<in> trID ` set (dbTrips db) \<and> mUserID m \<in> uID ` set users \<and>
     (\<forall>i. mInvitedBy m = Some i \<longrightarrow> i \<in> uID ` set users) \<and>
     r = newMemberRow e m \<and> db' = db\<lparr>dbMembers := dbMembers db @ [r]\<rparr>"
proof -
  have [simp]: "mID (newMemberRow e m) = mID m" "mRole (newMemberRow e m) = mRole m" "mTripID (newMemberRow e m) = mTripID m"
      "mUserID (newMemberRow e m) = mUserID m" "mInvitedBy (newMemberRow e m) = mInvitedBy m"
    by (simp_all add: newMemberRow_def)
  have "memberChecks (newMemberRow e m) = Inr () \<longleftrightarrow> Role_Valid (mRole m)"
    by (simp add: memberChecks_def)
  moreover have "memberRefs users db (newMemberRow e m) = Inr () \<longleftrightarrow>
      \<not> list_ex (liveMember (mTripID m) (mUserID m)) (dbMembers db) \<and>
      \<not> (mRole m = RoleOwner \<and> list_ex (liveOwner (mTripID m)) (dbMembers db)) \<and>
      mTripID m \<in> trID ` set (dbTrips db) \<and> mUserID m \<in> uID ` set users \<and>
      (\<forall>i. mInvitedBy m = Some i \<longrightarrow> i \<in> uID ` set users)"
    by (simp add: memberRefs_def split: option.splits)
  ultimately show ?thesis
    by (auto simp: MembershipRepository_Add_def sum_cases insertRow_Inr findRow_None)
qed

lemma createTrip_step:
  assumes "createTripBody e users userID t db = Inr (r, db')"
  shows "rosterStep db db'"
proof -
  obtain m where r: "trID r \<notin> trID ` set (dbTrips db)"
      "db' = (db\<lparr>dbTrips := dbTrips db @ [r], dbOpSeq := (dbOpSeq db)(trID r := 0)\<rparr>)\<lparr>dbMembers := dbMembers db @ [m]\<rparr>"
      "mID m \<notin> mID ` set (dbMembers db)" "m = newMemberRow e (newMember (pnID2 e) (trID r) userID RoleOwner None)"
    using assms by (auto simp: createTripBody_def sum_cases MembershipRepository_Add_Inr TripRepository_Create_def insertRow_Inr
        findRow_None newMemberRow_def)
  have "liveOwner (trID r) m" by (simp add: r(4) liveOwner_def newMemberRow_def newMember_def)
  from created [OF r(1,3) this] show ?thesis by (simp add: r(2))
qed

lemma updateTrip_step:
  "TripRepository_Update e t db = Inr (r, db') \<Longrightarrow> rosterStep db db'"
  "TripRepository_SoftDelete e i expected db = Inr (u, db') \<Longrightarrow> rosterStep db db'"
  by (auto simp: TripRepository_Update_def TripRepository_SoftDelete_def sum_cases updateVersioned_Inr
      setTrip_def setTripDeleted_def intro!: edited)

lemma updateMember_Inr:
  "updateMember found f rows = Inr (r', rows') \<Longrightarrow> \<exists>r. find found rows = Some r \<and> r' = f r \<and> rows' = updRow mID (mID r) f rows"
  by (auto simp: updateMember_def sum_cases split: option.splits if_splits)

section \<open>The invariant of the roster\<close>

definition rosterOK :: "DB \<Rightarrow> bool" where
  "rosterOK db \<longleftrightarrow>
     distinct (map trID (dbTrips db)) \<and> distinct (map mID (dbMembers db)) \<and> distinct (map iID (dbInvitations db)) \<and>
     (\<forall>t \<in> set (dbTrips db). length (filter (liveOwner (trID t)) (dbMembers db)) = 1) \<and>
     (\<forall>m \<in> set (dbMembers db). mTripID m \<in> trID ` set (dbTrips db)) \<and>
     (\<forall>tripID userID. length (filter (liveMember tripID userID) (dbMembers db)) \<le> 1) \<and>
     (\<forall>i \<in> set (dbInvitations db). iRole i \<in> {RoleEditor, RoleViewer} \<and> 0 \<le> iUseCount i \<and>
        (\<forall>m. iMaxUses i = Some m \<longrightarrow> iUseCount i \<le> m)) \<and>
     (\<forall>i. i \<notin> trID ` set (dbTrips db) \<longrightarrow> dbOpSeq db i = 0)"

lemma find_refined:
  assumes "length (filter P rows) \<le> 1" "find P rows = Some a" "find (\<lambda>x. P x \<and> Q x) rows = Some b"
  shows "a = b"
  using assms by (induction rows) (auto split: if_splits simp: filter_empty_conv dest!: find_SomeD)

text \<open>Counting rows across an update in place.\<close>

lemma filter_updRow_le:
  assumes "\<And>r. r \<in> set rows \<Longrightarrow> key r = i \<Longrightarrow> P (f r) \<Longrightarrow> P r"
  shows "length (filter P (updRow key i f rows)) \<le> length (filter P rows)"
  using assms unfolding updRow_def by (induction rows) (auto intro: le_SucI)

lemma filter_updRow_eq:
  assumes "\<And>r. r \<in> set rows \<Longrightarrow> key r = i \<Longrightarrow> P (f r) = P r"
  shows "length (filter P (updRow key i f rows)) = length (filter P rows)"
  using assms unfolding updRow_def by (induction rows) auto

lemma distinct_same_row:
  "distinct (map key rows) \<Longrightarrow> a \<in> set rows \<Longrightarrow> b \<in> set rows \<Longrightarrow> key a = key b \<Longrightarrow> a = b"
  by (auto simp: distinct_map inj_on_def)

lemma rosterStep_OK:
  assumes "rosterStep db db'" "rosterOK db"
  shows "rosterOK db'"
  using assms
proof (induction rule: rosterStep.induct)
  case (created t db m)
  have fresh: "mTripID x \<noteq> trID t" if "x \<in> set (dbMembers db)" for x
  proof -
    have "mTripID x \<in> trID ` set (dbTrips db)" using created(4) that by (simp add: rosterOK_def)
    then show ?thesis using created(1) by metis
  qed
  have none: "filter (liveOwner (trID t)) (dbMembers db) = []"
    using fresh by (auto simp: filter_empty_conv liveOwner_def)
  have none': "filter (liveMember (trID t) u) (dbMembers db) = []" for u
    using fresh by (auto simp: filter_empty_conv liveMember_def)
  show ?case using created none none'
    by (auto simp: rosterOK_def liveOwner_def liveMember_def)
next
  case (edited f db i)
  have "trID ` set (updRow trID i f (dbTrips db)) = trID ` set (dbTrips db)"
    using map_key_updRow [of trID f i "dbTrips db"] edited(1) by (metis list.set_map)
  moreover have "\<forall>t \<in> set (updRow trID i f (dbTrips db)). \<exists>t0 \<in> set (dbTrips db). trID t0 = trID t"
    using edited(1) by (auto simp: updRow_def)
  ultimately show ?case using edited map_key_updRow [of trID f i "dbTrips db"]
    by (simp add: rosterOK_def) metis
next
  case (member r db f)
  have same: "x = r" if "x \<in> set (dbMembers db)" "mID x = mID r" for x
    using member that by (auto simp: rosterOK_def dest: distinct_same_row)
  have owners: "length (filter (liveOwner i) (updRow mID (mID r) f (dbMembers db))) = length (filter (liveOwner i) (dbMembers db))" for i
    by (rule filter_updRow_eq) (use same member in \<open>auto simp: liveOwner_def\<close>)
  have members: "length (filter (liveMember i u) (updRow mID (mID r) f (dbMembers db))) \<le> length (filter (liveMember i u) (dbMembers db))" for i u
    by (rule filter_updRow_le) (use same member in \<open>auto simp: liveMember_def\<close>)
  have "mTripID ` set (updRow mID (mID r) f (dbMembers db)) \<subseteq> mTripID ` set (dbMembers db)"
    using member(4) by (auto simp: updRow_def)
  then show ?case using member(6) owners members map_key_updRow [of mID f "mID r" "dbMembers db"] member(4)
    by (simp add: rosterOK_def subset_iff image_iff) (metis le_trans)
next
  case (joined invite db i0 now new)
  have i0: "i0 \<in> set (dbInvitations db)" "iID i0 = iID invite" using findRow_key [OF joined(1)] by auto
  have same: "x = i0" if "x \<in> set (dbInvitations db)" "iID x = iID invite" for x
    using joined(4) i0 that by (auto simp: rosterOK_def dest: distinct_same_row)
  have keys: "map iID (updRow iID (iID invite) countUse (dbInvitations db)) = map iID (dbInvitations db)"
    by (rule map_key_updRow) (simp add: countUse_def)
  have uses: "\<forall>i \<in> set (updRow iID (iID invite) countUse (dbInvitations db)). iRole i \<in> {RoleEditor, RoleViewer} \<and> 0 \<le> iUseCount i \<and>
        (\<forall>m. iMaxUses i = Some m \<longrightarrow> iUseCount i \<le> m)"
    using joined(2,4) same by (auto simp: rosterOK_def updRow_def countUse_def usable_def)
  show ?case
  proof (cases "new = []")
    case True
    then show ?thesis using joined(4) keys uses by (simp add: rosterOK_def)
  next
    case False
    then obtain m where m: "new = [m]" "mID m \<notin> mID ` set (dbMembers db)" "mTripID m \<in> trID ` set (dbTrips db)"
        "mRole m = iRole invite" "invite \<in> set (dbInvitations db)" "\<not> list_ex (liveMember (mTripID m) (mUserID m)) (dbMembers db)"
      using joined(3) by auto
    have "mRole m \<noteq> RoleOwner" using m(4,5) joined(4) by (auto simp: rosterOK_def)
    then have owners: "filter (liveOwner i) [m] = []" for i by (simp add: liveOwner_def)
    have "length (filter (liveMember i u) (dbMembers db @ [m])) \<le> 1" for i u
    proof (cases "liveMember i u m")
      case True
      then have "filter (liveMember i u) (dbMembers db) = []"
        using m(6) by (auto simp: liveMember_def filter_empty_conv list_ex_iff)
      then show ?thesis by simp
    qed (use joined(4) in \<open>simp add: rosterOK_def\<close>)
    then show ?thesis using joined(4) keys uses m(1-3) owners by (simp add: rosterOK_def)
  qed
next
  case (revoked f db i)
  have keys: "map iID (updRow iID i f (dbInvitations db)) = map iID (dbInvitations db)"
    by (rule map_key_updRow) (simp add: revoked(1))
  have "\<forall>x \<in> set (updRow iID i f (dbInvitations db)). \<exists>y \<in> set (dbInvitations db).
      iRole x = iRole y \<and> iUseCount x = iUseCount y \<and> iMaxUses x = iMaxUses y"
    using revoked(1) by (auto simp: updRow_def)
  then show ?case using revoked(2) keys by (simp add: rosterOK_def) metis
qed (auto simp: rosterOK_def)

section \<open>Every people request is such a step\<close>

lemma live_unique: "rosterOK db \<Longrightarrow> length (filter (liveMember tripID userID) (dbMembers db)) \<le> 1"
  by (simp add: rosterOK_def)

lemma MembershipRepository_Get_Inr:
  "MembershipRepository_Get tripID userID db = Inr m \<longleftrightarrow> find (liveMember tripID userID) (dbMembers db) = Some m"
  by (auto simp: MembershipRepository_Get_def split: option.splits)

lemma UpdateRole_step:
  assumes "rosterOK db" "MembershipService_UpdateRole e tripID userID target role expected db = (Inr r, db', mails)"
  shows "rosterStep db db'"
proof -
  obtain t where t: "find (liveMember tripID target) (dbMembers db) = Some t" "mRole t \<noteq> RoleOwner" "role \<noteq> RoleOwner"
      and u: "MembershipRepository_UpdateRole e (t\<lparr>mRole := role, mVersion := expected\<rparr>) db = Inr (r, db')"
    using assms(2)
    by (auto simp: MembershipService_UpdateRole_def checked_Inr MembershipRepository_Get_Inr plain_inTx_Inr split: if_splits)
  have k: "mTripID t = tripID" "mUserID t = target" using find_SomeD [OF t(1)] by (auto simp: liveMember_def)
  obtain x where x: "find (\<lambda>x. liveMember tripID target x \<and> mVersion x = versionArg expected) (dbMembers db) = Some x"
      "db' = db\<lparr>dbMembers := updRow mID (mID x) (setRole e role) (dbMembers db)\<rparr>"
    using u by (auto simp: MembershipRepository_UpdateRole_def sum_cases k dest!: updateMember_Inr)
  have "x = t" by (rule find_refined [OF live_unique [OF assms(1)] t(1) x(1), symmetric])
  then show ?thesis unfolding x(2)
    using find_SomeD [OF t(1)] t(2,3) by (intro member) (auto simp: liveMember_def setRole_def)
qed

lemma RemoveMember_step:
  assumes "MembershipService_RemoveMember e tripID userID target db = (Inr u, db', mails)"
  shows "rosterStep db db'"
proof -
  obtain t where t: "find (liveMember tripID target) (dbMembers db) = Some t" "mRole t \<noteq> RoleOwner"
      "db' = db\<lparr>dbMembers := updRow mID (mID t) (setMemberDeleted e) (dbMembers db)\<rparr>"
    using assms by (auto simp: MembershipService_RemoveMember_def checked_Inr MembershipRepository_Get_Inr plain_inTx_Inr
        MembershipRepository_Remove_def sum_cases split: if_splits dest!: updateMember_Inr)
  show ?thesis unfolding t(3)
    using find_SomeD [OF t(1)] t(2) by (intro member) (auto simp: liveMember_def setMemberDeleted_def)
qed

lemma InvitationRepository_Create_step:
  "InvitationRepository_Create e users i db = Inr (r, db') \<Longrightarrow> rosterStep db db'"
  by (auto simp: InvitationRepository_Create_def sum_cases insertRow_Inr findRow_None invitationChecks_def newInvitationRow_def
      split: option.splits if_splits intro!: invited)

lemma CreateInvitation_step:
  "MembershipService_CreateInvitation cfg e users tripID userID inp db = (Inr r, db', mails) \<Longrightarrow> rosterStep db db'"
  by (auto simp: MembershipService_CreateInvitation_def checked_Inr Let_def inTx_def split: prod.split_asm sum.split_asm option.split_asm
      dest: InvitationRepository_Create_step)

lemma RevokeInvitation_step:
  "MembershipService_RevokeInvitation e tripID userID i db = (Inr r, db', mails) \<Longrightarrow> rosterStep db db'"
  by (auto simp: MembershipService_RevokeInvitation_def checked_Inr plain_inTx_Inr InvitationRepository_Revoke_def
      split: option.splits if_splits intro!: revoked)

text \<open>What a redemption found and did.\<close>

lemma RedeemInvitation_Inr:
  assumes "MembershipService_RedeemInvitation cfg e accounts userID raw db = (Inr t, db', mails)"
  shows "\<exists>i i0 new. InvitationRepository_GetByHash (cfSHA256 (pcAuth cfg) raw) db = Inr i \<and> addressedTo cfg accounts userID i = Inr () \<and>
    findRow iID (iID i) (dbInvitations db) = Some i0 \<and> usable (pnWall e) i0 \<and> mails = [] \<and>
    db' = db\<lparr>dbInvitations := updRow iID (iID i) countUse (dbInvitations db), dbMembers := dbMembers db @ new\<rparr> \<and>
    TripRepository_GetByID (iTripID i) db = Inr t \<and>
    (if isMember (iTripID i) userID db then new = []
     else \<exists>m. new = [m] \<and> m = newMemberRow e (newMember (pnID e) (iTripID i) userID (iRole i) (Some (iCreatedBy i))) \<and>
       mID m \<notin> mID ` set (dbMembers db) \<and> mTripID m \<in> trID ` set (dbTrips db) \<and>
       \<not> list_ex (liveMember (mTripID m) (mUserID m)) (dbMembers db))"
proof -
  obtain i where i: "InvitationRepository_GetByHash (cfSHA256 (pcAuth cfg) raw) db = Inr i" "addressedTo cfg accounts userID i = Inr ()"
      "redeemBody e (auUsers accounts) userID i db = Inr (t, db')" "mails = []"
    using assms by (auto simp: MembershipService_RedeemInvitation_def checked_Inr plain_inTx_Inr split: sum.splits)
  obtain i0 where i0: "findRow iID (iID i) (dbInvitations db) = Some i0" "usable (pnWall e) i0"
      "InvitationRepository_IncrementUseCount e (iID i) db = Inr (db\<lparr>dbInvitations := updRow iID (iID i) countUse (dbInvitations db)\<rparr>)"
    using i(3) by (auto simp: redeemBody_def sum_cases InvitationRepository_IncrementUseCount_def split: option.splits if_splits)
  let ?d = "db\<lparr>dbInvitations := updRow iID (iID i) countUse (dbInvitations db)\<rparr>"
  have get: "MembershipRepository_Get (iTripID i) userID ?d = MembershipRepository_Get (iTripID i) userID db"
    by (simp add: MembershipRepository_Get_def)
  show ?thesis
  proof (cases "isMember (iTripID i) userID db")
    case True
    then obtain m where "MembershipRepository_Get (iTripID i) userID db = Inr m"
      by (cases "MembershipRepository_Get (iTripID i) userID db")
        (auto simp: MembershipRepository_Get_def isMember_def find_None_iff split: option.splits)
    then have "db' = ?d" "TripRepository_GetByID (iTripID i) db = Inr t"
      using i(3) i0(3) get by (auto simp: redeemBody_def sum_cases TripRepository_GetByID_def)
    then show ?thesis using True i i0 by (intro exI [of _ i] exI [of _ i0] exI [of _ "[]"]) simp
  next
    case False
    then have n: "MembershipRepository_Get (iTripID i) userID db = Inl ErrNotFound"
      by (auto simp: MembershipRepository_Get_def isMember_def mapError_def find_None_iff split: option.splits dest!: find_SomeD)
    obtain m d where m: "MembershipRepository_Add e (auUsers accounts)
          (newMember (pnID e) (iTripID i) userID (iRole i) (Some (iCreatedBy i))) ?d = Inr (m, d)"
        "TripRepository_GetByID (iTripID i) d = Inr t" "db' = d"
      using i(3) i0(3) get n by (auto simp: redeemBody_def sum_cases)
    from m(1) have "m = newMemberRow e (newMember (pnID e) (iTripID i) userID (iRole i) (Some (iCreatedBy i)))"
        "d = ?d\<lparr>dbMembers := dbMembers db @ [m]\<rparr>" "mID m \<notin> mID ` set (dbMembers db)" "mTripID m \<in> trID ` set (dbTrips db)"
        "\<not> list_ex (liveMember (mTripID m) (mUserID m)) (dbMembers db)"
      unfolding MembershipRepository_Add_Inr by (auto simp: newMemberRow_def newMember_def)
    then show ?thesis using False i i0 m(2,3)
      by (intro exI [of _ i] exI [of _ i0] exI [of _ "[m]"]) (simp add: TripRepository_GetByID_def)
  qed
qed

lemma GetByHash_in: "InvitationRepository_GetByHash h db = Inr i \<Longrightarrow> i \<in> set (dbInvitations db)"
  by (auto simp: InvitationRepository_GetByHash_def findHash_def split: option.splits dest: find_SomeD)

lemma RedeemInvitation_step:
  assumes "MembershipService_RedeemInvitation cfg e accounts userID raw db = (Inr t, db', mails)"
  shows "rosterStep db db'"
proof -
  obtain i i0 new where i: "InvitationRepository_GetByHash (cfSHA256 (pcAuth cfg) raw) db = Inr i"
    "findRow iID (iID i) (dbInvitations db) = Some i0" "usable (pnWall e) i0"
    "db' = db\<lparr>dbInvitations := updRow iID (iID i) countUse (dbInvitations db), dbMembers := dbMembers db @ new\<rparr>"
    "(if isMember (iTripID i) userID db then new = []
     else \<exists>m. new = [m] \<and> m = newMemberRow e (newMember (pnID e) (iTripID i) userID (iRole i) (Some (iCreatedBy i))) \<and>
       mID m \<notin> mID ` set (dbMembers db) \<and> mTripID m \<in> trID ` set (dbTrips db) \<and>
       \<not> list_ex (liveMember (mTripID m) (mUserID m)) (dbMembers db))"
    using RedeemInvitation_Inr [OF assms] by blast
  show ?thesis unfolding i(4) using i(5) GetByHash_in [OF i(1)]
    by (intro joined [OF i(2,3)]) (auto simp: newMemberRow_def newMember_def split: if_splits)
qed

lemma peopleServe_step:
  assumes "rosterOK db" "peopleServe cfg e accounts userID req db = (res, db', mails)"
  shows "rosterStep db db'"
proof (cases res)
  case (Inl err)
  then have "db' = db" using people_error_unchanged assms(2) by blast
  then show ?thesis by (simp add: unchanged)
next
  case (Inr u)
  then show ?thesis using assms
    by (cases req) (auto simp: peopleServe_def finish_Inr TripService_Create_def TripService_Update_def TripService_Delete_def
        Let_def checked_Inr plain_inTx_Inr intro: createTrip_step updateTrip_step UpdateRole_step RemoveMember_step
        CreateInvitation_step RevokeInvitation_step RedeemInvitation_step)
qed

section \<open>Reachable databases\<close>

lemma planStep_invitations: "planStep e tripID actorID t t' \<Longrightarrow> dbInvitations (txDB t') = dbInvitations (txDB t)"
  by (induction rule: planStep.induct)
    (auto simp: slotTable_def dayTable_def optionTable_def voteTable_def commentTable_def budgetTable_def
      slotWrite_def dayWrite_def optionWrite_def dest!: BudgetRepository_Save_Inr split: if_splits)

lemma serve_roster:
  assumes "relational db" "serve e tripID userID req db = (res, db', ops)"
  shows "dbTrips db' = dbTrips db \<and> dbMembers db' = dbMembers db \<and> dbInvitations db' = dbInvitations db \<and>
    (\<forall>i. i \<notin> trID ` set (dbTrips db) \<longrightarrow> dbOpSeq db' i = dbOpSeq db i)"
proof (cases res)
  case (Inl err)
  then show ?thesis using assms(2) serve_sound [of e tripID userID db req] by (auto simp: soundReply_def)
next
  case (Inr u)
  obtain t where t: "requestBody e tripID userID req \<lparr>txDB = db, txOps = []\<rparr> = Inr ((), t)" "db' = txDB t"
      "LockForWrite tripID db = Inr ()"
    using serve_body assms(2) Inr by blast
  have "bodySteps e tripID userID \<lparr>txDB = db, txOps = []\<rparr> t"
    using requestBody_steps [OF t(1)] assms(1) by simp
  then have "dbInvitations db' = dbInvitations db"
    unfolding bodySteps_def t(2) by (auto dest!: planStep_invitations)
  moreover have "tripID \<in> trID ` set (dbTrips db)"
    using t(3) by (auto simp: LockForWrite_Inr dest: findRow_key)
  ultimately show ?thesis
    using serve_sound [of e tripID userID db req] assms(2) Inr by (auto simp: soundReply_def logGrew_def)
qed

lemma rosterOK_cong:
  "rosterOK db \<Longrightarrow> dbTrips db' = dbTrips db \<Longrightarrow> dbMembers db' = dbMembers db \<Longrightarrow> dbInvitations db' = dbInvitations db \<Longrightarrow>
    (\<forall>i. i \<notin> trID ` set (dbTrips db) \<longrightarrow> dbOpSeq db' i = dbOpSeq db i) \<Longrightarrow> rosterOK db'"
  by (simp add: rosterOK_def)

text \<open>For the planning services a people request is a change of trips and memberships between two
  requests.\<close>

lemma rosterStep_admin:
  assumes "rosterStep db db'" "rosterOK db" "reachable okEnv db"
  shows "reachable okEnv db'"
proof -
  have "\<exists>ts ms is. db' = db\<lparr>dbTrips := ts, dbMembers := ms, dbInvitations := is\<rparr>"
    using assms(1,2)
  proof (induction rule: rosterStep.induct)
    case (created t db m)
    then have "(dbOpSeq db)(trID t := 0) = dbOpSeq db" by (auto simp: rosterOK_def)
    then show ?case
      by (intro exI [of _ "dbTrips db @ [t]"] exI [of _ "dbMembers db @ [m]"] exI [of _ "dbInvitations db"]) simp
  next
    case (unchanged db) show ?case by (intro exI [of _ "dbTrips db"] exI [of _ "dbMembers db"] exI [of _ "dbInvitations db"]) simp
  next
    case (edited f db i) show ?case
      by (intro exI [of _ "updRow trID i f (dbTrips db)"] exI [of _ "dbMembers db"] exI [of _ "dbInvitations db"]) simp
  next
    case (member r db f) show ?case
      by (intro exI [of _ "dbTrips db"] exI [of _ "updRow mID (mID r) f (dbMembers db)"] exI [of _ "dbInvitations db"]) simp
  next
    case (joined invite db i0 now new) show ?case
      by (intro exI [of _ "dbTrips db"] exI [of _ "dbMembers db @ new"] exI [of _ "updRow iID (iID invite) countUse (dbInvitations db)"]) simp
  next
    case (invited i db) show ?case
      by (intro exI [of _ "dbTrips db"] exI [of _ "dbMembers db"] exI [of _ "dbInvitations db @ [i]"]) simp
  next
    case (revoked f db i) show ?case
      by (intro exI [of _ "dbTrips db"] exI [of _ "dbMembers db"] exI [of _ "updRow iID i f (dbInvitations db)"]) simp
  qed
  then show ?thesis using reachable.admin [OF assms(3)] by metis
qed

lemma running_invariant: "running okEnv cfg db accounts \<Longrightarrow> rosterOK db \<and> reachable okEnv db"
proof (induction rule: running.induct)
  case (boot db accounts)
  then show ?case by (auto simp: rosterOK_def emptyPlan_def intro: start)
next
  case (planning db accounts e tripID userID req res db' ops)
  then show ?case using serve_roster [OF reachable_relational planning.hyps(3)] rosterOK_cong
    by (meson reachable.served)
next
  case (people db accounts e userID preq res db' mails)
  then show ?case using peopleServe_step rosterStep_OK rosterStep_admin by blast
qed simp

section \<open>Owners\<close>

lemma filter_unique: "length (filter P rows) = 1 \<Longrightarrow> \<exists>m. filter P rows = [m]"
  by (auto simp: length_Suc_conv)

text \<open>A step keeps the owner of every trip, as a member and as a row.\<close>

lemma rosterStep_owner:
  assumes "rosterStep db db'" "rosterOK db" "t \<in> set (dbTrips db)"
  shows "filter (liveOwner (trID t)) (dbMembers db') = filter (liveOwner (trID t)) (dbMembers db)"
  using assms
proof (induction rule: rosterStep.induct)
  case (created t' db m)
  then have "\<not> liveOwner (trID t) m" by (auto simp: liveOwner_def)
  then show ?case by simp
next
  case (member r db f)
  have same: "x = r" if "x \<in> set (dbMembers db)" "mID x = mID r" for x
    using member that by (auto simp: rosterOK_def dest: distinct_same_row)
  have keep: "filter P (map g xs) = filter P xs" if "\<And>x. x \<in> set xs \<Longrightarrow> g x = x \<or> \<not> P (g x) \<and> \<not> P x" for P g and xs :: "Member list"
    using that
  proof (induction xs)
    case (Cons a xs)
    then show ?case using Cons.prems [of a] by (cases "g a = a") auto
  qed simp
  have "filter (liveOwner (trID t)) (updRow mID (mID r) f (dbMembers db)) = filter (liveOwner (trID t)) (dbMembers db)"
    unfolding updRow_def by (rule keep) (use same member(2,3,5) in \<open>auto simp: liveOwner_def\<close>)
  then show ?case by simp
next
  case (joined invite db i0 now new)
  then have "filter (liveOwner (trID t)) new = []"
    by (auto simp: rosterOK_def liveOwner_def)
  then show ?case by simp
qed simp_all

section \<open>A sample server\<close>

definition samplePeople :: PeopleConfig where
  "samplePeople = \<lparr>pcAuth = sampleConfig, pcInvitationTTL = 1000, pcKnownZone = (\<lambda>z. z = ''UTC''),
     pcFormatTime = (\<lambda>t. replicate (nat t) CHR ''t''), pcParseTime = (\<lambda>s. Some (int (length s))), pcFormatID = unaryText,
     pcParseID = (\<lambda>s. Some (of_nat (length s))), pcBase64 = (\<lambda>s. CHR ''b'' # s),
     pcUnbase64 = (\<lambda>s. if s = [] then None else Some (tl s))\<rparr>"

definition peopleEnv :: "instant \<Rightarrow> ID \<Rightarrow> str \<Rightarrow> PeopleEnv" where
  "peopleEnv t i raw = \<lparr>pnNow = t, pnWall = t, pnTxNow = t, pnTimestamp = (\<lambda>t. t), pnDate = (\<lambda>t. t), pnID = i,
     pnID2 = i + 1, pnRaw = raw\<rparr>"

text \<open>Two accounts; the first one creates a trip and invites by a link for one use, the second one
  follows it.\<close>

definition sampleAccounts :: AuthDB where
  "sampleAccounts = sampleAccount\<lparr>auUsers := auUsers sampleAccount @
     [\<lparr>uID = 2, uEmail = ''bob@example.com'', uPasswordHash = ''x'', uDisplayName = ''Bob'', uEmailVerifiedAt = Some 1,
       uVersion = 1, uCreatedAt = 1, uUpdatedAt = 1, uDeletedAt = None\<rparr>]\<rparr>"

definition noTrips :: DB where
  "noTrips = \<lparr>dbTrips = [], dbOpSeq = (\<lambda>_. 0), dbMembers = [], dbDays = [], dbSlots = [], dbOptions = [], dbVotes = [],
     dbBudgets = [], dbAttachments = [], dbComments = [], dbInvitations = [], dbOps = []\<rparr>"

definition sampleTripInput :: TripInput where
  "sampleTripInput = \<lparr>tiName = ''Goa'', tiDescription = [], tiTimeZone = ''UTC'', tiStartDate = None, tiEndDate = None\<rparr>"

definition oneTrip :: DB where
  "oneTrip = fst (snd (peopleServe samplePeople (peopleEnv 5 7 ''x'') sampleAccounts 1 (CreateTrip sampleTripInput) noTrips))"

definition oneInvitation :: DB where
  "oneInvitation = fst (snd (peopleServe samplePeople (peopleEnv 6 20 ''link'') sampleAccounts 1
     (CreateInvitation 7 \<lparr>ciEmail = None, ciRole = RoleEditor, ciMaxUses = Some 1\<rparr>) oneTrip))"

definition followed :: "Trip outcome" where
  "followed = MembershipService_RedeemInvitation samplePeople (peopleEnv 8 30 ''y'') sampleAccounts 2 ''link'' oneInvitation"

lemma people_running:
  "running okEnv cfg db accounts \<Longrightarrow> running okEnv cfg (fst (snd (peopleServe cfg e accounts userID req db))) accounts"
  by (cases "peopleServe cfg e accounts userID req db") (auto intro: people)

lemma oneTrip_running: "running okEnv samplePeople oneTrip sampleAccounts"
  unfolding oneTrip_def by (intro people_running boot) (simp_all add: noTrips_def emptyPlan_def)

lemma oneInvitation_running: "running okEnv samplePeople oneInvitation sampleAccounts"
  unfolding oneInvitation_def by (rule people_running [OF oneTrip_running])

lemma oneTrip_trip: "map trID (dbTrips oneTrip) = [7]"
  by code_simp

section \<open>Properties\<close>

text \<open>C23: every trip has exactly one owner, for good: in whatever order requests come, each trip has one live
  owner row, and a request of the people services, successful or not, leaves the owners of all
  trips as they were: nobody is removed from that role, demoted, promoted or invited into it.\<close>

theorem one_owner_for_good:
  assumes "running okEnv cfg db accounts" "t \<in> set (dbTrips db)"
    and "peopleServe cfg e accounts userID req db = (res, db', mails)"
  shows "\<exists>m. filter (liveOwner (trID t)) (dbMembers db) = [m] \<and> filter (liveOwner (trID t)) (dbMembers db') = [m]"
proof -
  have ok: "rosterOK db" using running_invariant [OF assms(1)] by simp
  then have "length (filter (liveOwner (trID t)) (dbMembers db)) = 1" using assms(2) by (simp add: rosterOK_def)
  then obtain m where "filter (liveOwner (trID t)) (dbMembers db) = [m]" using filter_unique by blast
  then show ?thesis using rosterStep_owner [OF peopleServe_step [OF ok assms(3)] ok assms(2)] by simp
qed

theorem one_owner_for_good_witness:
  "\<exists>m. filter (liveOwner 7) (dbMembers (fst (snd (peopleServe samplePeople (peopleEnv 9 40 ''z'') sampleAccounts 1
     (RemoveMember 7 1) oneTrip)))) = [m]"
proof -
  obtain t where "t \<in> set (dbTrips oneTrip)" "trID t = 7" using oneTrip_trip by (cases "dbTrips oneTrip") auto
  then show ?thesis
    using one_owner_for_good [OF oneTrip_running, of t "peopleEnv 9 40 ''z''" 1 "RemoveMember 7 1"]
    by (cases "peopleServe samplePeople (peopleEnv 9 40 ''z'') sampleAccounts 1 (RemoveMember 7 1) oneTrip") auto
qed

text \<open>C24: redeeming an invitation admits exactly as it says: a redemption succeeds only for a link that
  was neither revoked nor expired nor used up, in the hands of the account it names if it names one;
  it counts one use, never more than it allows, and makes the caller a member of that trip in the
  invitation's role, editor or viewer, unless they already are one, in which case nothing but the
  count changes.\<close>

theorem redemption_exact:
  assumes "running okEnv cfg db accounts"
    and "MembershipService_RedeemInvitation cfg e accounts userID raw db = (Inr t, db', mails)"
  shows "\<exists>i. InvitationRepository_GetByHash (cfSHA256 (pcAuth cfg) raw) db = Inr i \<and> IsRedeemable i (pnWall e) \<and>
    addressedTo cfg accounts userID i = Inr () \<and> trID t = iTripID i \<and> trDeletedAt t = None \<and> mails = [] \<and>
    dbInvitations db' = map (\<lambda>x. if iID x = iID i then x\<lparr>iUseCount := iUseCount x + 1\<rparr> else x) (dbInvitations db) \<and>
    (\<forall>x \<in> set (dbInvitations db'). \<forall>n. iMaxUses x = Some n \<longrightarrow> iUseCount x \<le> n) \<and>
    (if isMember (iTripID i) userID db then dbMembers db' = dbMembers db
     else \<exists>m. dbMembers db' = dbMembers db @ [m] \<and> liveMember (iTripID i) userID m \<and> mRole m = iRole i \<and>
       mRole m \<in> {RoleEditor, RoleViewer} \<and> mInvitedBy m = Some (iCreatedBy i))"
proof -
  have ok: "rosterOK db" using running_invariant [OF assms(1)] by simp
  obtain i i0 new where i: "InvitationRepository_GetByHash (cfSHA256 (pcAuth cfg) raw) db = Inr i" "addressedTo cfg accounts userID i = Inr ()"
    "findRow iID (iID i) (dbInvitations db) = Some i0" "usable (pnWall e) i0" "mails = []"
    "db' = db\<lparr>dbInvitations := updRow iID (iID i) countUse (dbInvitations db), dbMembers := dbMembers db @ new\<rparr>"
    "TripRepository_GetByID (iTripID i) db = Inr t"
    "(if isMember (iTripID i) userID db then new = []
     else \<exists>m. new = [m] \<and> m = newMemberRow e (newMember (pnID e) (iTripID i) userID (iRole i) (Some (iCreatedBy i))) \<and>
       mID m \<notin> mID ` set (dbMembers db) \<and> mTripID m \<in> trID ` set (dbTrips db) \<and>
       \<not> list_ex (liveMember (mTripID m) (mUserID m)) (dbMembers db))"
    using RedeemInvitation_Inr [OF assms(2)] by blast
  have "i0 = i"
    using findRow_key [OF i(3)] GetByHash_in [OF i(1)] ok by (auto simp: rosterOK_def dest: distinct_same_row)
  then have red: "IsRedeemable i (pnWall e)" using i(4) by (auto simp: IsRedeemable_def usable_def split: option.splits)
  have "rosterOK db'" using rosterStep_OK [OF RedeemInvitation_step [OF assms(2)] ok] .
  then have uses: "\<forall>x \<in> set (dbInvitations db'). \<forall>n. iMaxUses x = Some n \<longrightarrow> iUseCount x \<le> n" by (simp add: rosterOK_def)
  have role: "iRole i \<in> {RoleEditor, RoleViewer}" using GetByHash_in [OF i(1)] ok by (auto simp: rosterOK_def)
  have trip: "trID t = iTripID i \<and> trDeletedAt t = None"
    using i(7) by (auto simp: TripRepository_GetByID_def getLive_Inr dest: findRow_key)
  have dbs: "dbInvitations db' = map (\<lambda>x. if iID x = iID i then x\<lparr>iUseCount := iUseCount x + 1\<rparr> else x) (dbInvitations db)"
      "dbMembers db' = dbMembers db @ new"
    by (simp_all add: i(6) updRow_def countUse_def)
  show ?thesis using i(1,2,5,8) red uses role trip dbs
    by (intro exI [of _ i]) (auto simp: liveMember_def newMemberRow_def newMember_def split: if_splits)
qed

theorem redemption_exact_witness:
  "\<exists>m. dbMembers (fst (snd followed)) = dbMembers oneInvitation @ [m] \<and> mRole m \<in> {RoleEditor, RoleViewer}"
proof -
  have "isOk (fst followed)" by code_simp
  then obtain t where "fst followed = Inr t" by (rule isOkE)
  then obtain db' mails where f: "followed = (Inr t, db', mails)" by (metis prod.collapse)
  have h: "map iTripID (dbInvitations oneInvitation) = [7]" "\<not> isMember 7 2 oneInvitation" by code_simp+
  show ?thesis
    using redemption_exact [OF oneInvitation_running [of "\<lambda>_. True"] f [unfolded followed_def]] h
    by (auto simp: f dest!: GetByHash_in)
qed

end
