(* ===== verification/Paging.thy ===== *)
theory Paging
  imports Roster
begin

text \<open>Reading all pages of a user's trips: the loop a client runs over
  \<^theory_text>\<open>TripService.ListForUser\<close>, following \<^theory_text>\<open>next_cursor\<close> while \<^theory_text>\<open>has_more\<close> is set.\<close>

definition tripKey :: "Trip \<Rightarrow> instant \<times> ID" where
  "tripKey t = (trCreatedAt t, trID t)"

definition listing :: "ID \<Rightarrow> DB \<Rightarrow> Trip list" where
  "listing userID db = rev (sort_key tripKey
     (filter (\<lambda>t. trDeletedAt t = None \<and> isMember (trID t) userID db) (dbTrips db)))"

text \<open>The codecs of the cursor on the rows of a database: what they write they read back.\<close>

definition codecOK :: "PeopleConfig \<Rightarrow> DB \<Rightarrow> bool" where
  "codecOK cfg db \<longleftrightarrow> (\<forall>s. s \<noteq> [] \<longrightarrow> pcBase64 cfg s \<noteq> [] \<and> pcUnbase64 cfg (pcBase64 cfg s) = Some s) \<and>
     (\<forall>t \<in> set (dbTrips db). pcParseTime cfg (pcFormatTime cfg (trCreatedAt t)) = Some (trCreatedAt t) \<and>
        CHR ''|'' \<notin> set (pcFormatTime cfg (trCreatedAt t)) \<and> pcParseID cfg (pcFormatID cfg (trID t)) = Some (trID t))"

fun allPages :: "PeopleConfig \<Rightarrow> ID \<Rightarrow> int \<Rightarrow> DB \<Rightarrow> nat \<Rightarrow> str \<Rightarrow> Trip list option" where
  "allPages cfg userID limit db 0 cursor = None"
| "allPages cfg userID limit db (Suc n) cursor =
     (case TripService_ListForUser cfg userID \<lparr>prLimit = limit, prAfter = cursor\<rparr> db of
        Inl _ \<Rightarrow> None
      | Inr page \<Rightarrow>
          if pgHasMore page then map_option (\<lambda>rest. pgItems page @ rest) (allPages cfg userID limit db n (pgNextCursor page))
          else Some (pgItems page))"

lemma cursor_roundtrip:
  assumes "codecOK cfg db" "t \<in> set (dbTrips db)"
  shows "decodeTripCursor cfg (encodeTripCursor cfg (trCreatedAt t) (trID t)) = Inr (tripKey t)"
    "encodeTripCursor cfg (trCreatedAt t) (trID t) \<noteq> []"
proof -
  let ?ts = "pcFormatTime cfg (trCreatedAt t)" and ?i = "pcFormatID cfg (trID t)"
  have "takeWhile (\<lambda>c. c \<noteq> CHR ''|'') (?ts @ CHR ''|'' # ?i) = ?ts" "dropWhile (\<lambda>c. c \<noteq> CHR ''|'') (?ts @ CHR ''|'' # ?i) = CHR ''|'' # ?i"
    using assms by (auto simp: codecOK_def takeWhile_append dropWhile_append intro!: takeWhile_eq_all_conv [THEN iffD2])
  then have "cutBar (?ts @ cursorSeparator @ ?i) = Some (?ts, ?i)"
    by (simp add: cutBar_def cursorSeparator_def)
  then show "decodeTripCursor cfg (encodeTripCursor cfg (trCreatedAt t) (trID t)) = Inr (tripKey t)"
    "encodeTripCursor cfg (trCreatedAt t) (trID t) \<noteq> []"
    using assms by (simp_all add: codecOK_def encodeTripCursor_def decodeTripCursor_def cursorSeparator_def ParseID_def tripKey_def)
qed

lemma concat_replicate_filter:
  "(\<And>x. x \<in> set xs \<Longrightarrow> c x \<le> 1) \<Longrightarrow> concat (map (\<lambda>x. replicate (c x) x) xs) = filter (\<lambda>x. c x \<noteq> 0) xs"
proof (induction xs)
  case (Cons x xs)
  have "c x = 0 \<or> c x = Suc 0" using Cons.prems [of x] by auto
  then show ?case using Cons by auto
qed simp

lemma tripsOf_filter:
  assumes "rosterOK db"
  shows "tripsOf userID db = filter (\<lambda>t. trDeletedAt t = None \<and> isMember (trID t) userID db) (dbTrips db)"
proof -
  have "tripsOf userID db = filter (\<lambda>t. length (filter (liveMember (trID t) userID) (dbMembers db)) \<noteq> 0)
      (filter (\<lambda>t. trDeletedAt t = None) (dbTrips db))"
    unfolding tripsOf_def by (rule concat_replicate_filter) (rule live_unique [OF assms])
  moreover have "length (filter (liveMember i userID) (dbMembers db)) \<noteq> 0 \<longleftrightarrow> isMember i userID db" for i
    by (auto simp: isMember_def filter_empty_conv)
  ultimately show ?thesis by (simp add: conj_commute)
qed

lemma statement_listing:
  assumes "rosterOK db"
  shows "ListTripsForUser userID after n db =
    take (nat n) (filter (\<lambda>t. case after of None \<Rightarrow> True | Some k \<Rightarrow> tripKey t < k) (listing userID db))"
  unfolding ListTripsForUser_def listing_def tripsOf_filter [OF assms] tripKey_def [abs_def]
  by (simp add: filter_sort [symmetric] rev_filter [symmetric])

lemma listing_descending:
  assumes "rosterOK db"
  shows "sorted_wrt (\<lambda>a b. tripKey b < tripKey a) (listing userID db)"
proof -
  let ?xs = "sort_key tripKey (filter (\<lambda>t. trDeletedAt t = None \<and> isMember (trID t) userID db) (dbTrips db))"
  have "distinct (map trID (filter (\<lambda>t. trDeletedAt t = None \<and> isMember (trID t) userID db) (dbTrips db)))"
    using assms by (simp add: rosterOK_def distinct_map_filter)
  then have "distinct (map tripKey ?xs)"
    by (auto simp: distinct_map inj_on_def tripKey_def)
  then have "sorted_wrt (<) (map tripKey ?xs)" by (simp add: strict_sorted_iff)
  then show ?thesis by (simp add: listing_def sorted_wrt_rev sorted_wrt_map)
qed

lemma filter_below:
  assumes "sorted_wrt (\<lambda>a b. tripKey b < tripKey a) (A @ x # B)"
  shows "filter (\<lambda>t. tripKey t < tripKey x) (A @ x # B) = B"
proof -
  have "filter (\<lambda>t. tripKey t < tripKey x) A = []"
    using assms by (auto simp: sorted_wrt_append filter_empty_conv dest: less_asym)
  moreover have "filter (\<lambda>t. tripKey t < tripKey x) B = B"
    using assms by (auto simp: sorted_wrt_append filter_id_conv)
  ultimately show ?thesis by simp
qed

lemma allPages_suffix:
  assumes "rosterOK db" "codecOK cfg db" "listing userID db = A @ B"
    and "0 < n" "int (length B) \<le> int n * prLimit (Normalize \<lparr>prLimit = limit, prAfter = []\<rparr>)"
    and "cursor = [] \<and> A = [] \<or> (\<exists>A' x. A = A' @ [x] \<and> cursor = encodeTripCursor cfg (trCreatedAt x) (trID x))"
  shows "allPages cfg userID limit db n cursor = Some B"
  using assms(3-6)
proof (induction n arbitrary: A B cursor)
  case (Suc n)
  let ?l = "prLimit (Normalize \<lparr>prLimit = limit, prAfter = cursor\<rparr>)"
  have l: "1 \<le> ?l" using Normalize_bounds by blast
  have same: "prLimit (Normalize \<lparr>prLimit = limit, prAfter = []\<rparr>) = ?l" by (simp add: Normalize_def)
  have after: "prAfter (Normalize r) = prAfter r" for r by (simp add: Normalize_def)
  have in_db: "x \<in> set (dbTrips db)" if "x \<in> set (listing userID db)" for x
    using that by (simp add: listing_def)
  have rows: "\<exists>k. (if cursor \<noteq> [] then bindR (decodeTripCursor cfg cursor) (\<lambda>k. Inr (Some k)) else Inr None) = Inr k \<and>
      filter (\<lambda>t. case k of None \<Rightarrow> True | Some k \<Rightarrow> tripKey t < k) (listing userID db) = B"
    using Suc.prems(4)
  proof
    assume "\<exists>A' x. A = A' @ [x] \<and> cursor = encodeTripCursor cfg (trCreatedAt x) (trID x)"
    then obtain A' x where x: "A = A' @ [x]" "cursor = encodeTripCursor cfg (trCreatedAt x) (trID x)" by blast
    have "x \<in> set (dbTrips db)" using Suc.prems(1) x(1) by (intro in_db) simp
    moreover have "filter (\<lambda>t. tripKey t < tripKey x) (listing userID db) = B"
      using filter_below [of A' x B] listing_descending [OF assms(1), of userID] Suc.prems(1) x(1) by simp
    ultimately show ?thesis using cursor_roundtrip [OF assms(2), of x] x(2) by simp
  qed (use Suc.prems(1) in simp)
  have page: "TripService_ListForUser cfg userID \<lparr>prLimit = limit, prAfter = cursor\<rparr> db =
      Inr (NewPage (take (nat (?l + 1)) B) ?l (\<lambda>t. encodeTripCursor cfg (trCreatedAt t) (trID t)))"
    using rows by (auto simp: TripService_ListForUser_def TripRepository_ListForUser_def Let_def Normalize_idem after
        statement_listing [OF assms(1)])
  show ?case
  proof (cases "int (length B) > ?l")
    case False
    then have "take (nat (?l + 1)) B = B" by simp
    then show ?thesis using False page by (simp add: NewPage_def Let_def)
  next
    case True
    let ?items = "take (nat ?l) B" and ?rest = "drop (nat ?l) B"
    have ne: "?items \<noteq> []" using True l by auto
    have t: "take (nat ?l) (take (nat (?l + 1)) B) = ?items" by (simp add: min_def)
    have more: "int (length (take (nat (?l + 1)) B)) > ?l" using True l by auto
    have "allPages cfg userID limit db n (encodeTripCursor cfg (trCreatedAt (last ?items)) (trID (last ?items))) = Some ?rest"
    proof (rule Suc.IH)
      show "listing userID db = (A @ ?items) @ ?rest" using Suc.prems(1) by simp
      have few: "int (length B) - ?l \<le> int n * ?l" using Suc.prems(3) unfolding same by (simp add: algebra_simps)
      then show "int (length ?rest) \<le> int n * prLimit (Normalize \<lparr>prLimit = limit, prAfter = []\<rparr>)"
        unfolding same using True l by simp
      show "0 < n" using few True by (cases n) auto
      show "encodeTripCursor cfg (trCreatedAt (last ?items)) (trID (last ?items)) = [] \<and> A @ ?items = [] \<or>
          (\<exists>A' x. A @ ?items = A' @ [x] \<and> encodeTripCursor cfg (trCreatedAt (last ?items)) (trID (last ?items)) =
             encodeTripCursor cfg (trCreatedAt x) (trID x))"
        using ne by (intro disjI2 exI [of _ "A @ butlast ?items"] exI [of _ "last ?items"]) simp
    qed
    then show ?thesis using page more ne t by (simp add: NewPage_def Let_def)
  qed
qed simp

text \<open>C37: a client that follows the cursors reads every trip of the user exactly once, newest first, and stops:
  whatever page size it asks for, as many pages as hold the user's live trips at the page size the server
  settles on, and one page when there are none, are enough, and the pages joined are the live trips
  the user belongs to.\<close>

theorem trips_paged_once:
  assumes "running okEnv cfg' db accounts" "codecOK cfg db"
    and "0 < n" "int (length (filter (\<lambda>t. trDeletedAt t = None \<and> isMember (trID t) userID db) (dbTrips db))) \<le>
      int n * prLimit (Normalize \<lparr>prLimit = limit, prAfter = []\<rparr>)"
  shows "\<exists>ts. allPages cfg userID limit db n [] = Some ts \<and>
    sorted_wrt (\<lambda>a b. (trCreatedAt b, trID b) < (trCreatedAt a, trID a)) ts \<and>
    set ts = {t \<in> set (dbTrips db). trDeletedAt t = None \<and> isMember (trID t) userID db}"
proof -
  have ok: "rosterOK db" using running_invariant [OF assms(1)] by simp
  have "allPages cfg userID limit db n [] = Some (listing userID db)"
    using assms(3,4) by (intro allPages_suffix [OF ok assms(2), where A = "[]"]) (simp_all add: listing_def)
  then show ?thesis using listing_descending [OF ok, of userID]
    by (auto simp: listing_def tripKey_def)
qed

theorem trips_paged_once_witness:
  "\<exists>ts. allPages samplePeople 1 1 oneTrip 1 [] = Some ts \<and> set ts = set (dbTrips oneTrip)"
proof -
  have rows: "map (\<lambda>t. (trID t, trCreatedAt t, trDeletedAt t)) (dbTrips oneTrip) = [(7, 5, None)]" "isMember 7 1 oneTrip"
    by code_simp+
  then obtain t where t: "dbTrips oneTrip = [t]" "trID t = 7" "trCreatedAt t = 5" "trDeletedAt t = None" by auto
  have codec: "codecOK samplePeople oneTrip"
    by (simp add: codecOK_def t samplePeople_def unaryText_def)
  have few: "int (length (filter (\<lambda>t. trDeletedAt t = None \<and> isMember (trID t) 1 oneTrip) (dbTrips oneTrip))) \<le>
      int 1 * prLimit (Normalize \<lparr>prLimit = 1, prAfter = []\<rparr>)"
    using t rows(2) by (simp add: Normalize_def MaxPageSize_def)
  from trips_paged_once [OF oneTrip_running [of "\<lambda>_. True"] codec zero_less_one few]
  obtain ts where ts: "allPages samplePeople 1 1 oneTrip 1 [] = Some ts"
    "set ts = {t \<in> set (dbTrips oneTrip). trDeletedAt t = None \<and> isMember (trID t) 1 oneTrip}"
    by (elim exE conjE)
  have "{u \<in> set (dbTrips oneTrip). trDeletedAt u = None \<and> isMember (trID u) 1 oneTrip} = set (dbTrips oneTrip)"
    using rows(2) t by auto
  then show ?thesis by (intro exI [of _ ts] conjI) (simp_all only: ts)
qed

end
