(* ===== verification/Mirror.thy ===== *)
theory Mirror
  imports Isolation
begin

text \<open>The invariant the design states for the operation log: folding the log of a trip gives the state of
  the database. Here it is a refinement: the abstraction of a replica (what of each entity the wire
  carries, with identity, creator and version) equals the abstraction of the rows of the trip.

  Two things stand between the code and the plain equation. A tombstone is logged with the clock's instant,
  nanoseconds included, while the row holds what the column stores of it: the instants of deletion in a
  replica are compared at the precision of the column. And the fold confuses the coordinates of an option
  (Convergence.option_coordinates_aliased): the latitude of an option is left out of the comparison once an
  operation of the log carried both coordinates of it, and only then.\<close>

section \<open>What a table shows of a trip\<close>

definition rowsOf :: "('r \<Rightarrow> ID) \<Rightarrow> ('r \<Rightarrow> ID) \<Rightarrow> ID \<Rightarrow> 'r list \<Rightarrow> ID \<Rightarrow> 'r option" where
  "rowsOf key trip T rows i = findRow key i (filter (\<lambda>r. trip r = T) rows)"

definition shownTable :: "('r \<Rightarrow> 'v) \<Rightarrow> (ID \<Rightarrow> 'r option) \<Rightarrow> ID \<Rightarrow> 'v option" where
  "shownTable shown table i = map_option shown (table i)"

lemma shownTable_upd [simp]: "shownTable shown (m(i \<mapsto> x)) = (shownTable shown m)(i \<mapsto> shown x)"
  by (auto simp: shownTable_def)

lemma rowsOf_None: "findRow key i rows = None \<Longrightarrow> rowsOf key trip T rows i = None"
  by (auto simp: rowsOf_def findRow_None)

lemma rowsOf_Some:
  assumes "distinct (map key rows)" "findRow key i rows = Some row" "trip row = T"
  shows "rowsOf key trip T rows i = Some row"
proof -
  have "row \<in> set (filter (\<lambda>r. trip r = T) rows)" "key row = i" using findRow_key [OF assms(2)] assms(3) by auto
  then show ?thesis
    using findRow_mem [of key "filter (\<lambda>r. trip r = T) rows" row] assms(1) by (simp add: rowsOf_def distinct_map_filter)
qed

lemma rowsOf_append:
  assumes "findRow key (key row) rows = None" "trip row = T"
  shows "rowsOf key trip T (rows @ [row]) = (rowsOf key trip T rows)(key row \<mapsto> row)"
  using rowsOf_None [OF assms(1), of trip T] assms(2) by (auto simp: rowsOf_def fun_eq_iff split: option.splits)

lemma rowsOf_update:
  assumes "distinct (map key rows)" "findRow key i rows = Some row" "trip row = T" "key (f row) = i" "trip (f row) = T"
  shows "rowsOf key trip T (updRow key i f rows) = (rowsOf key trip T rows)(i \<mapsto> f row)"
proof -
  have only: "r = row" if "r \<in> set rows" "key r = i" for r
    using findRow_mem [OF assms(1) that(1)] that(2) assms(2) by simp
  have "findRow key j (filter (\<lambda>r. trip r = T) (updRow key i f rs)) =
      (if j = i then map_option f (findRow key i (filter (\<lambda>r. trip r = T) rs)) else findRow key j (filter (\<lambda>r. trip r = T) rs))"
    if "set rs \<subseteq> set rows" for rs j
    using that only assms(3-5) by (induction rs) (auto simp: findRow_def updRow_def)
  then show ?thesis using rowsOf_Some [of key rows i row trip T, OF assms(1-3)] by (auto simp: rowsOf_def fun_eq_iff)
qed

section \<open>The abstraction of the two states\<close>

text \<open>The registers of an entity with the instant of its deletion cut to what a column stores of it, which
  \<^theory_text>\<open>ts\<close> says; and without the latitude, for an option whose coordinates were confused.\<close>

definition columnTime :: "(instant \<Rightarrow> instant) \<Rightarrow> json \<Rightarrow> json" where
  "columnTime ts j = (case j of JTime t \<Rightarrow> JTime (ts t) | _ \<Rightarrow> j)"

definition seen :: "(instant \<Rightarrow> instant) \<Rightarrow> fieldMap \<Rightarrow> fieldMap" where
  "seen ts v = v(FieldDeletedAt := map_option (columnTime ts) (v FieldDeletedAt))"

definition forget :: "bool \<Rightarrow> fieldMap \<Rightarrow> fieldMap" where
  "forget b v = (if b then v(FieldPlaceLat := None) else v)"

lemma seen_id [simp]: "seen (\<lambda>t. t) v = v"
proof -
  have "columnTime (\<lambda>t. t) = id" by (auto simp: columnTime_def fun_eq_iff split: json.splits)
  then show ?thesis by (simp add: seen_def option.map_id)
qed

lemma seen_add [simp]: "seen ts (a ++ b) = seen ts a ++ seen ts b"
  by (auto simp: seen_def map_add_def fun_eq_iff split: option.splits)

lemma seen_restrict [simp]: "seen ts (a |` M) = seen ts a |` M"
  by (auto simp: seen_def restrict_map_def fun_eq_iff)

lemma seen_other [simp]: "n \<noteq> FieldDeletedAt \<Longrightarrow> seen ts v n = v n"
  by (simp add: seen_def)

lemma seen_live [simp]:
  "dDeletedAt d = None \<Longrightarrow> seen ts (DayValues d) = DayValues d"
  "sDeletedAt s = None \<Longrightarrow> seen ts (SlotValues us s) = SlotValues us s"
  "oDeletedAt x = None \<Longrightarrow> seen ts (OptionValues us x) = OptionValues us x"
  "bDeletedAt b = None \<Longrightarrow> seen ts (BudgetValues us b) = BudgetValues us b"
  "cDeletedAt c = None \<Longrightarrow> seen ts (CommentValues us c) = CommentValues us c"
  "atDeletedAt a = None \<Longrightarrow> seen ts (AttachmentValues us a) = AttachmentValues us a"
  by (simp_all add: seen_def values_defs columnTime_def jtime_def jopt_def fun_eq_iff)

lemma zero_live [simp]:
  "dDeletedAt zeroDay = None" "sDeletedAt zeroSlot = None" "oDeletedAt zeroOption = None"
  "bDeletedAt zeroBudget = None" "cDeletedAt zeroComment = None" "atDeletedAt zeroAttachment = None"
  by (simp_all add: zeroDay_def zeroSlot_def zeroOption_def zeroBudget_def zeroComment_def zeroAttachment_def)

lemmas seen_time = seen_def columnTime_def jtime_def jopt_def

lemma forget_add [simp]: "forget b (a1 ++ a2) = forget b a1 ++ forget b a2"
  by (auto simp: forget_def map_add_def fun_eq_iff split: option.splits)

definition dayShown where "dayShown ts d = (dID d, dTripID d, seen ts (DayValues d), dVersion d)"

definition slotShown where "slotShown us ts s = (sID s, sTripID s, sCreatedBy s, seen ts (SlotValues us s), sVersion s)"

definition optionShown where
  "optionShown us ts lost x =
     (oID x, oTripID x, oProposedBy x, forget (oID x \<in> lost) (seen ts (OptionValues us x)), oVersion x)"

definition voteShown where "voteShown us v = (vID v, vTripID v, VoteValues us v, vVersion v)"

definition budgetShown where "budgetShown us ts b = (bID b, bTripID b, bCreatedBy b, seen ts (BudgetValues us b), bVersion b)"

definition commentShown where "commentShown us ts c = (cID c, cTripID c, cAuthorID c, seen ts (CommentValues us c))"

definition replicaShown where
  "replicaShown us ts lost r =
     (shownTable (dayShown ts) (rDays r), shownTable (slotShown us ts) (rSlots r), shownTable (optionShown us ts lost) (rOptions r),
      shownTable (voteShown us) (rVotes r), shownTable (budgetShown us ts) (rBudgets r), shownTable (commentShown us ts) (rComments r))"

text \<open>The rows are shown as they are.\<close>

definition databaseShown where
  "databaseShown us lost T db =
     (shownTable (dayShown (\<lambda>t. t)) (rowsOf dID dTripID T (dbDays db)), shownTable (slotShown us (\<lambda>t. t)) (rowsOf sID sTripID T (dbSlots db)),
      shownTable (optionShown us (\<lambda>t. t) lost) (rowsOf oID oTripID T (dbOptions db)), shownTable (voteShown us) (rowsOf vID vTripID T (dbVotes db)),
      shownTable (budgetShown us (\<lambda>t. t)) (rowsOf bID bTripID T (dbBudgets db)), shownTable (commentShown us (\<lambda>t. t)) (rowsOf cID cTripID T (dbComments db)))"

text \<open>The options of a trip of which an operation carried both coordinates.\<close>

definition placed :: "json option \<Rightarrow> bool" where
  "placed v \<longleftrightarrow> (case v of None \<Rightarrow> False | Some j \<Rightarrow> j \<noteq> JNull)"

definition placesBoth :: "Op \<Rightarrow> bool" where
  "placesBoth op \<longleftrightarrow> OpKind_Entity (opKind op) = ''option'' \<and>
     (case opPayload op of None \<Rightarrow> False | Some p \<Rightarrow> placed (pFields p FieldPlaceLat) \<and> placed (pFields p FieldPlaceLng))"

definition confused :: "ID \<Rightarrow> DB \<Rightarrow> ID set" where
  "confused T db = opEntityID ` set (filter placesBoth (tripLog T db))"

lemma confused_push: "confused T (txDB (pushOp op t)) =
    (if opTripID op = T \<and> placesBoth op then insert (opEntityID op) (confused T (txDB t)) else confused T (txDB t))"
  by (auto simp: confused_def tripLog_def pushOp_def)

lemma confused_log: "dbOps db' = dbOps db \<Longrightarrow> confused T db' = confused T db"
  by (simp add: confused_def tripLog_def)

lemma optionShown_more:
  assumes "map_option (optionShown us ts lost) x = map_option (optionShown us ts' lost) y" "lost \<subseteq> lost'"
  shows "map_option (optionShown us ts lost') x = map_option (optionShown us ts' lost') y"
  using assms by (cases x; cases y) (auto simp: optionShown_def forget_def split: if_splits)

lemma databaseShown_view: "tripView T db' = tripView T db \<Longrightarrow> databaseShown us lost T db' = databaseShown us lost T db"
  by (simp add: tripView_def databaseShown_def rowsOf_def [abs_def])

text \<open>A replica tracks the database: it is the fold of the trip's log and shows what the database shows.\<close>

definition tracks :: "(ID \<Rightarrow> str) \<Rightarrow> (instant \<Rightarrow> instant) \<Rightarrow> (str \<Rightarrow> ID option) \<Rightarrow> ID \<Rightarrow> DB \<Rightarrow> Replica \<Rightarrow> bool" where
  "tracks us ts up T db r \<longleftrightarrow> Fold up (tripLog T db) = Inr r \<and> rSeq r = dbOpSeq db T \<and>
     replicaShown us ts (confused T db) r = databaseShown us (confused T db) T db"

lemma tracks_view:
  assumes "tripView T db' = tripView T db" "tracks us ts up T db r"
  shows "tracks us ts up T db' r"
  using assms databaseShown_view [OF assms(1), of us] by (simp add: tracks_def tripView_def confused_def)

lemma tracks_pushed:
  assumes "tracks us ts up T (txDB t) r" "opTripID op = T" "opSeq op = rSeq r + 1" "Apply up op r = (None, r')"
    and "dbOps (txDB t1) = dbOps (txDB t)"
    and "replicaShown us ts (confused T (txDB (pushOp op t1))) r' = databaseShown us (confused T (txDB (pushOp op t1))) T (txDB t1)"
  shows "tracks us ts up T (txDB (pushOp op t1)) r'"
proof -
  have "Fold up (tripLog T (txDB (pushOp op t1))) = Inr r'"
    using assms(1,2,4,5) by (simp add: tracks_def tripLog_def pushOp_def Fold_def foldFrom_append)
  moreover have "rSeq r' = opSeq op" using Apply_seq [OF assms(4)] assms(3) by simp
  moreover have "databaseShown us lost T (txDB (pushOp op t1)) = databaseShown us lost T (txDB t1)" for lost
    by (simp add: pushOp_def databaseShown_def)
  moreover have "dbOpSeq (txDB (pushOp op t1)) T = opSeq op" using assms(2) by (simp add: pushOp_def)
  ultimately show ?thesis using assms(6) by (simp add: tracks_def)
qed

lemma tracks_push:
  assumes "tracks us ts up T (txDB t) r" "opTripID op = T" "opSeq op = rSeq r + 1" "Apply up op r = (None, r')"
    and "dbOps (txDB t1) = dbOps (txDB t)"
    and "replicaShown us ts (confused T (txDB t)) r' = databaseShown us (confused T (txDB t)) T (txDB t1)"
    and "OpKind_Entity (opKind op) \<noteq> ''option''"
  shows "tracks us ts up T (txDB (pushOp op t1)) r'"
  using assms(6,7) confused_log [OF assms(5), of T]
  by (intro tracks_pushed [OF assms(1-5)]) (simp add: confused_push placesBoth_def)

text \<open>The row an operation writes, as an overlay of the payload on the row before.\<close>

lemma overlay_values:
  assumes "\<And>n. n \<in> M \<Longrightarrow> w n = y n" "\<And>n. n \<notin> M \<Longrightarrow> w n = b n" "dom w = dom b"
  shows "w = b ++ (y |` M)"
proof
  fix n
  have "w n = None \<longleftrightarrow> b n = None" using assms(3) by (metis domIff)
  then show "w n = (b ++ (y |` M)) n"
    using assms(1,2) [of n] by (cases "n \<in> M"; cases "y n") (simp_all add: map_add_def)
qed

lemma values_dom:
  "dom (SlotValues us s) = dom (SlotValues us s')" "dom (DayValues d) = dom (DayValues d')"
  "dom (OptionValues us x) = dom (OptionValues us x')" "dom (VoteValues us v) = dom (VoteValues us v')"
  "dom (BudgetValues us b) = dom (BudgetValues us b')" "dom (CommentValues us c) = dom (CommentValues us c')"
  by (simp_all add: values_defs)

section \<open>One operation on one entity\<close>

text \<open>What the server logs for an entity: the payload of the persisted row, under a valid mask.\<close>

lemma overlays_keep [simp]:
  "dID (overlayDay M d' d) = dID d" "dTripID (overlayDay M d' d) = dTripID d"
  "sID (overlaySlot M s' s) = sID s" "sTripID (overlaySlot M s' s) = sTripID s" "sCreatedBy (overlaySlot M s' s) = sCreatedBy s"
  "oID (overlayOption M x' x) = oID x" "oTripID (overlayOption M x' x) = oTripID x" "oProposedBy (overlayOption M x' x) = oProposedBy x"
  "vID (overlayVote M v' v) = vID v" "vTripID (overlayVote M v' v) = vTripID v"
  "bID (overlayBudget us M b' b) = bID b" "bTripID (overlayBudget us M b' b) = bTripID b" "bCreatedBy (overlayBudget us M b' b) = bCreatedBy b"
  "cID (overlayComment M c' c) = cID c" "cTripID (overlayComment M c' c) = cTripID c" "cAuthorID (overlayComment M c' c) = cAuthorID c"
  by (simp_all add: overlayDay_def overlaySlot_def overlayOption_def overlayVote_def overlayBudget_def overlayComment_def)

lemma values_version [simp]:
  "DayValues (d\<lparr>dVersion := n\<rparr>) = DayValues d" "SlotValues us (s\<lparr>sVersion := n\<rparr>) = SlotValues us s"
  "OptionValues us (x\<lparr>oVersion := n\<rparr>) = OptionValues us x" "VoteValues us (v\<lparr>vVersion := n\<rparr>) = VoteValues us v"
  "BudgetValues us (b\<lparr>bVersion := n\<rparr>) = BudgetValues us b"
  by (simp_all add: values_defs)

lemma day_applied:
  assumes "opSeq op = rSeq r + 1" "OpKind_Entity (opKind op) = ''day''" "opPayload op = Some p" "DayPayload y msk = Inr p"
    and "\<not> (FieldDate \<in> set msk \<and> FieldDeletedAt \<in> set msk)" "rDays r (opEntityID op) \<noteq> None \<or> opKind op = OpDayCreate"
    and old: "old = (case rDays r (opEntityID op) of Some d \<Rightarrow> d | None \<Rightarrow> zeroDay\<lparr>dID := opEntityID op, dTripID := opTripID op\<rparr>)"
  shows "\<exists>x. Apply up op r = (None, r\<lparr>rSeq := opSeq op, rDays := (rDays r)(opEntityID op \<mapsto> x)\<rparr>) \<and>
    dayShown ts x = (dID old, dTripID old, seen ts (DayValues old) ++ (seen ts (DayValues y) |` set msk), dVersion y)"
proof -
  have p: "pFields p = DayValues y |` set msk" "pVersion p = dVersion y"
    using assms(4) by (simp_all add: DayPayload_def buildPayload_eq)
  obtain st q where run: "runSteps (daySteps (pFields p)) (old, [], None) = (None, (overlayDay (set msk) y old, st, q))"
    using daySteps_overlay [of "set msk" y old] assms(5) p by auto
  have "applyEntity (rDays r (opEntityID op)) (opKind op = OpDayCreate) (zeroDay\<lparr>dID := opEntityID op, dTripID := opTripID op\<rparr>)
      (daySteps (pFields p)) (\<lambda>d. d\<lparr>dVersion := pVersion p\<rparr>) = (None, Some ((overlayDay (set msk) y old)\<lparr>dVersion := dVersion y\<rparr>))"
    using assms(6) run [unfolded old] p(2) by (simp add: applyEntity_ok old)
  then show ?thesis using assms(1-3) overlayDay_regs
    by (intro exI [of _ "(overlayDay (set msk) y old)\<lparr>dVersion := dVersion y\<rparr>"])
      (simp add: Apply_def PayloadFields_def PayloadVersion_def applyDay_def dayShown_def)
qed

lemma slot_applied:
  assumes "opSeq op = rSeq r + 1" "OpKind_Entity (opKind op) = ''slot''" "opPayload op = Some p" "SlotPayload us y msk = Inr p"
    and "uuidText us up" "FieldStartTime \<in> set msk \<Longrightarrow> \<not> timeInvalid (sStartTime y)" "FieldEndTime \<in> set msk \<Longrightarrow> \<not> timeInvalid (sEndTime y)"
    and "\<not> (FieldStatusChangedAt \<in> set msk \<and> FieldDeletedAt \<in> set msk)" "rSlots r (opEntityID op) \<noteq> None \<or> opKind op = OpSlotCreate"
    and old: "old = (case rSlots r (opEntityID op) of Some s \<Rightarrow> s | None \<Rightarrow> newSlot op)"
  shows "\<exists>x. Apply up op r = (None, r\<lparr>rSeq := opSeq op, rSlots := (rSlots r)(opEntityID op \<mapsto> x)\<rparr>) \<and>
    slotShown us ts x = (sID old, sTripID old, sCreatedBy old, seen ts (SlotValues us old) ++ (seen ts (SlotValues us y) |` set msk), sVersion y)"
proof -
  define z where "z = y\<lparr>sStartTime := (if FieldStartTime \<in> set msk then sStartTime y else None),
    sEndTime := (if FieldEndTime \<in> set msk then sEndTime y else None)\<rparr>"
  have z: "SlotValues us z |` set msk = SlotValues us y |` set msk" "\<not> timeInvalid (sStartTime z)" "\<not> timeInvalid (sEndTime z)"
    using assms(6,7) by (auto simp: z_def restrict_map_def fun_eq_iff SlotValues_def timeInvalid_def)
  have p: "pFields p = SlotValues us z |` set msk" "pVersion p = sVersion y"
    using assms(4) z(1) by (simp_all add: SlotPayload_def buildPayload_eq)
  obtain st q where run: "runSteps (slotSteps up (pFields p)) (old, [], None) = (None, (overlaySlot (set msk) z old, st, q))"
    using slotSteps_overlay [of us up z "set msk" old] assms(5,8) z(2,3) p by auto
  have "applyEntity (rSlots r (opEntityID op)) (opKind op = OpSlotCreate) (newSlot op) (slotSteps up (pFields p))
      (\<lambda>s. s\<lparr>sVersion := pVersion p\<rparr>) = (None, Some ((overlaySlot (set msk) z old)\<lparr>sVersion := sVersion y\<rparr>))"
    using assms(9) run [unfolded old] p(2) by (simp add: applyEntity_ok old)
  then show ?thesis using assms(1-3) overlaySlot_regs [of us "set msk" z old] z(1)
    by (intro exI [of _ "(overlaySlot (set msk) z old)\<lparr>sVersion := sVersion y\<rparr>"])
      (simp add: Apply_def PayloadFields_def PayloadVersion_def applySlot_def newSlot_def slotShown_def)
qed

lemma vote_applied:
  assumes "opSeq op = rSeq r + 1" "opKind op = OpVoteSet" "opPayload op = Some p" "VotePayload us y msk = Inr p" "uuidText us up"
    and old: "old = (case rVotes r (opEntityID op) of Some v \<Rightarrow> v | None \<Rightarrow> zeroVote\<lparr>vID := opEntityID op, vTripID := opTripID op\<rparr>)"
  shows "\<exists>x. Apply up op r = (None, r\<lparr>rSeq := opSeq op, rVotes := (rVotes r)(opEntityID op \<mapsto> x)\<rparr>) \<and>
    voteShown us x = (vID old, vTripID old, VoteValues us old ++ (VoteValues us y |` set msk), vVersion y)"
proof -
  have p: "pFields p = VoteValues us y |` set msk" "pVersion p = vVersion y"
    using assms(4) by (simp_all add: VotePayload_def buildPayload_eq)
  obtain st q where run: "runSteps (voteSteps up (pFields p)) (old, [], None) = (None, (overlayVote (set msk) y old, st, q))"
    using voteSteps_overlay [of us up y "set msk" old] assms(5) p by auto
  have "applyEntity (rVotes r (opEntityID op)) True (zeroVote\<lparr>vID := opEntityID op, vTripID := opTripID op\<rparr>) (voteSteps up (pFields p))
      (\<lambda>v. v\<lparr>vVersion := pVersion p\<rparr>) = (None, Some ((overlayVote (set msk) y old)\<lparr>vVersion := vVersion y\<rparr>))"
    using run [unfolded old] p(2) by (simp add: applyEntity_ok old)
  then show ?thesis using assms(1-3) overlayVote_regs
    by (intro exI [of _ "(overlayVote (set msk) y old)\<lparr>vVersion := vVersion y\<rparr>"])
      (simp add: Apply_def PayloadFields_def PayloadVersion_def OpKind_Entity_def applyVote_def voteShown_def)
qed

lemma budget_applied:
  assumes "opSeq op = rSeq r + 1" "OpKind_Entity (opKind op) = ''budget''" "opPayload op = Some p" "BudgetPayload us y msk = Inr p"
    and "uuidText us up" "\<not> (FieldIncurredOn \<in> set msk \<and> FieldDeletedAt \<in> set msk)"
    and "rBudgets r (opEntityID op) \<noteq> None \<or> opKind op = OpBudgetSet"
    and old: "old = (case rBudgets r (opEntityID op) of Some b \<Rightarrow> b
      | None \<Rightarrow> zeroBudget\<lparr>bID := opEntityID op, bTripID := opTripID op, bCreatedBy := opActorID op\<rparr>)"
  shows "\<exists>x. Apply up op r = (None, r\<lparr>rSeq := opSeq op, rBudgets := (rBudgets r)(opEntityID op \<mapsto> x)\<rparr>) \<and>
    budgetShown us ts x = (bID old, bTripID old, bCreatedBy old, seen ts (BudgetValues us old) ++ (seen ts (BudgetValues us y) |` set msk), bVersion y)"
proof -
  have p: "pFields p = BudgetValues us y |` set msk" "pVersion p = bVersion y"
    using assms(4) by (simp_all add: BudgetPayload_def buildPayload_eq)
  obtain st q where run: "runSteps (budgetSteps up (pFields p)) (old, [], None) = (None, (overlayBudget us (set msk) y old, st, q))"
    using budgetSteps_overlay [of us up "set msk" y old] assms(5,6) p by auto
  have "applyEntity (rBudgets r (opEntityID op)) (opKind op = OpBudgetSet)
      (zeroBudget\<lparr>bID := opEntityID op, bTripID := opTripID op, bCreatedBy := opActorID op\<rparr>) (budgetSteps up (pFields p))
      (\<lambda>x. x\<lparr>bVersion := pVersion p\<rparr>) = (None, Some ((overlayBudget us (set msk) y old)\<lparr>bVersion := bVersion y\<rparr>))"
    using assms(7) run [unfolded old] p(2) by (simp add: applyEntity_ok old)
  then show ?thesis using assms(1-3) overlayBudget_regs
    by (intro exI [of _ "(overlayBudget us (set msk) y old)\<lparr>bVersion := bVersion y\<rparr>"])
      (simp add: Apply_def PayloadFields_def PayloadVersion_def applyBudget_def budgetShown_def)
qed

lemma comment_applied:
  assumes "opSeq op = rSeq r + 1" "OpKind_Entity (opKind op) = ''comment''" "opPayload op = Some p" "CommentPayload us y msk = Inr p"
    and "uuidText us up" "rComments r (opEntityID op) \<noteq> None \<or> opKind op = OpCommentCreate"
    and old: "old = (case rComments r (opEntityID op) of Some c \<Rightarrow> c
      | None \<Rightarrow> zeroComment\<lparr>cID := opEntityID op, cTripID := opTripID op, cAuthorID := opActorID op\<rparr>)"
  shows "\<exists>x. Apply up op r = (None, r\<lparr>rSeq := opSeq op, rComments := (rComments r)(opEntityID op \<mapsto> x)\<rparr>) \<and>
    commentShown us ts x = (cID old, cTripID old, cAuthorID old, seen ts (CommentValues us old) ++ (seen ts (CommentValues us y) |` set msk))"
proof -
  have p: "pFields p = CommentValues us y |` set msk"
    using assms(4) by (simp_all add: CommentPayload_def buildPayload_eq)
  obtain st q where run: "runSteps (commentSteps up (pFields p)) (old, [], None) = (None, (overlayComment (set msk) y old, st, q))"
    using commentSteps_overlay [of us up y "set msk" old] assms(5) p by auto
  have "applyEntity (rComments r (opEntityID op)) (opKind op = OpCommentCreate)
      (zeroComment\<lparr>cID := opEntityID op, cTripID := opTripID op, cAuthorID := opActorID op\<rparr>) (commentSteps up (pFields p))
      (\<lambda>c. c) = (None, Some (overlayComment (set msk) y old))"
    using assms(6) run [unfolded old] by (simp add: applyEntity_ok old)
  then show ?thesis using assms(1-3) overlayComment_regs
    by (intro exI [of _ "overlayComment (set msk) y old"])
      (simp add: Apply_def PayloadFields_def PayloadVersion_def applyComment_def commentShown_def)
qed

text \<open>An option: everything but the latitude lands where it belongs, whatever the coordinates.\<close>

lemma stepFloat_null:
  "m name = Some (jopt JNum None) \<Longrightarrow> stepPtr m name decodeFloat put through (e, s, p) = (None, (put None e, s, None))"
  by (simp add: stepPtr_def jopt_def)

lemma optionSteps_no_longitude:
  assumes "uuidText us up" "FieldPlaceLat \<in> M" "FieldPlaceLng \<in> M" "plLng (oPlace s) = None"
  shows "\<exists>st p. runSteps (optionSteps up (OptionValues us s |` M)) (e, [], None) = (None, (overlayOption M s e, st, p))"
proof -
  note r = restrict_sel [of "OptionValues us s" _ _ M]
  note ids = decodeIDPtr_JStr [OF assms(1)]
  have c: "(OptionValues us s |` M) FieldPlaceLng = Some (jopt JNum None)"
    using assms by (simp add: OptionValues_fields)
  show ?thesis using assms(2-4)
    by (simp add: optionSteps_def stepVal_sel [OF r] stepStr_sel [OF r] stepFloat_sel [OF r] stepFloat_null [of "OptionValues us s |` M" FieldPlaceLng] c
      ids OptionValues_fields decodeTimePtr sel_upd overlayOption_def putSome_def split del: if_split)
qed

lemma optionSteps_but_latitude:
  assumes "uuidText us up"
  shows "\<exists>lat st p. runSteps (optionSteps up (OptionValues us s |` M)) (e, [], None) =
      (None, ((overlayOption M s e)\<lparr>oPlace := (oPlace (overlayOption M s e))\<lparr>plLat := lat\<rparr>\<rparr>, st, p)) \<and>
    (\<not> (FieldPlaceLat \<in> M \<and> FieldPlaceLng \<in> M \<and> plLat (oPlace s) \<noteq> None \<and> plLng (oPlace s) \<noteq> None) \<longrightarrow>
      lat = plLat (oPlace (overlayOption M s e)))"
proof (cases "FieldPlaceLat \<in> M \<and> FieldPlaceLng \<in> M \<and> plLat (oPlace s) \<noteq> None \<and> plLng (oPlace s) \<noteq> None")
  case True
  then show ?thesis using optionSteps_aliased [OF assms, of M s] by blast
next
  case False
  have same: "x\<lparr>oPlace := (oPlace x)\<lparr>plLat := plLat (oPlace x)\<rparr>\<rparr> = x" for x :: SlotOption by simp
  have "\<exists>st p. runSteps (optionSteps up (OptionValues us s |` M)) (e, [], None) = (None, (overlayOption M s e, st, p))"
    using False optionSteps_overlay [OF assms, of M s e] optionSteps_no_longitude [OF assms, of M s e] by blast
  then show ?thesis by (metis same)
qed

lemma latitude_unseen:
  "forget True (OptionValues us (x\<lparr>oPlace := (oPlace x)\<lparr>plLat := lat\<rparr>\<rparr>)) = forget True (OptionValues us x)"
  by (simp add: OptionValues_def fun_eq_iff forget_def)

lemma placed_value [simp]: "placed (Some (jopt JNum v)) \<longleftrightarrow> v \<noteq> None" "\<not> placed None"
  by (cases v) (auto simp: placed_def jopt_def)

lemma option_applied:
  assumes "opSeq op = rSeq r + 1" "OpKind_Entity (opKind op) = ''option''" "opPayload op = Some p" "OptionPayload us y msk = Inr p"
    and "uuidText us up" "rOptions r (opEntityID op) \<noteq> None \<or> opKind op = OpOptionCreate"
    and old: "old = (case rOptions r (opEntityID op) of Some x \<Rightarrow> x
      | None \<Rightarrow> zeroOption\<lparr>oID := opEntityID op, oTripID := opTripID op, oProposedBy := opActorID op\<rparr>)"
  shows "\<exists>x. Apply up op r = (None, r\<lparr>rSeq := opSeq op, rOptions := (rOptions r)(opEntityID op \<mapsto> x)\<rparr>) \<and>
    oID x = oID old \<and> oTripID x = oTripID old \<and> oProposedBy x = oProposedBy old \<and> oVersion x = oVersion y \<and>
    forget (placesBoth op) (OptionValues us x) = forget (placesBoth op) (OptionValues us old ++ (OptionValues us y |` set msk))"
proof -
  have p: "pFields p = OptionValues us y |` set msk" "pVersion p = oVersion y"
    using assms(4) by (simp_all add: OptionPayload_def buildPayload_eq)
  let ?o = "overlayOption (set msk) y old"
  have both: "placesBoth op \<longleftrightarrow> FieldPlaceLat \<in> set msk \<and> FieldPlaceLng \<in> set msk \<and> plLat (oPlace y) \<noteq> None \<and> plLng (oPlace y) \<noteq> None"
    using assms(2,3) p(1) by (auto simp: placesBoth_def restrict_map_def OptionValues_fields)
  obtain lat st q where run: "runSteps (optionSteps up (pFields p)) (old, [], None) =
      (None, (?o\<lparr>oPlace := (oPlace ?o)\<lparr>plLat := lat\<rparr>\<rparr>, st, q))" and lat: "\<not> placesBoth op \<longrightarrow> lat = plLat (oPlace ?o)"
    using optionSteps_but_latitude [OF assms(5), of y "set msk" old] unfolding p(1) both by blast
  let ?x = "?o\<lparr>oPlace := (oPlace ?o)\<lparr>plLat := lat\<rparr>, oVersion := oVersion y\<rparr>"
  have "applyEntity (rOptions r (opEntityID op)) (opKind op = OpOptionCreate)
      (zeroOption\<lparr>oID := opEntityID op, oTripID := opTripID op, oProposedBy := opActorID op\<rparr>) (optionSteps up (pFields p))
      (\<lambda>x. x\<lparr>oVersion := pVersion p\<rparr>) = (None, Some ?x)"
    using assms(6) run [unfolded old] p(2) by (simp add: applyEntity_ok old)
  moreover have "forget (placesBoth op) (OptionValues us ?x) = forget (placesBoth op) (OptionValues us ?o)"
  proof (cases "placesBoth op")
    case True
    then show ?thesis using latitude_unseen [of us lat ?o] by simp
  next
    case False
    then have "?o\<lparr>oPlace := (oPlace ?o)\<lparr>plLat := lat\<rparr>\<rparr> = ?o" using lat by simp
    then show ?thesis by simp
  qed
  ultimately show ?thesis using assms(1-3) overlayOption_regs
    by (intro exI [of _ ?x]) (simp add: Apply_def PayloadFields_def PayloadVersion_def applyOption_def)
qed

section \<open>One write of the database\<close>

text \<open>For each table: a write that replaces or adds one row and logs it keeps the replica in step, when the
  row shows the logged payload laid over the row before.\<close>

lemma shown_row: "shownTable shown m = shownTable shown' m' \<Longrightarrow> map_option shown (m i) = map_option shown' (m' i)"
  by (metis shownTable_def)

lemma forget_seen: "forget b (seen ts v) = seen ts (forget b v)"
  by (auto simp: forget_def seen_def fun_eq_iff)

lemma forget_more: "forget b v = forget b w \<Longrightarrow> (b \<Longrightarrow> b') \<Longrightarrow> forget b' v = forget b' w"
  by (auto simp: forget_def split: if_splits)

lemma rowsOf_key: "rowsOf key trip T rows i = Some row \<Longrightarrow> key row = i \<and> trip row = T"
  using findRow_key [of key i "filter (\<lambda>r. trip r = T) rows" row] by (simp add: rowsOf_def)

lemma slot_tracks:
  assumes "tracks us ts up T (txDB t) r" "uuidText us up" "SlotPayload us y msk = Inr p" "OpKind_Entity kind = ''slot''"
    and "txDB t1 = (txDB t)\<lparr>dbSlots := rows\<rparr>"
    and "rowsOf sID sTripID T rows = (rowsOf sID sTripID T (dbSlots (txDB t)))(i \<mapsto> w)"
    and "FieldStartTime \<in> set msk \<Longrightarrow> \<not> timeInvalid (sStartTime y)" "FieldEndTime \<in> set msk \<Longrightarrow> \<not> timeInvalid (sEndTime y)"
    and "\<not> (FieldStatusChangedAt \<in> set msk \<and> FieldDeletedAt \<in> set msk)"
    and "rowsOf sID sTripID T (dbSlots (txDB t)) i = None \<Longrightarrow> kind = OpSlotCreate"
    and "slotShown us (\<lambda>t. t) w = (case rowsOf sID sTripID T (dbSlots (txDB t)) i of
        Some s \<Rightarrow> (sID s, sTripID s, sCreatedBy s, SlotValues us s ++ (seen ts (SlotValues us y) |` set msk), sVersion y)
      | None \<Rightarrow> (i, T, Some actorID, SlotValues us zeroSlot ++ (seen ts (SlotValues us y) |` set msk), sVersion y))"
  shows "\<exists>r'. tracks us ts up T (txDB (pushOp (loggedOp e T actorID kind i msk p t1) t1)) r'"
proof -
  let ?op = "loggedOp e T actorID kind i msk p t1" and ?rows = "rowsOf sID sTripID T (dbSlots (txDB t))"
  define old where "old = (case rSlots r i of Some s \<Rightarrow> s | None \<Rightarrow> newSlot ?op)"
  have tr: "rSeq r = dbOpSeq (txDB t) T" "replicaShown us ts (confused T (txDB t)) r = databaseShown us (confused T (txDB t)) T (txDB t)"
    using assms(1) by (simp_all add: tracks_def)
  have row: "map_option (slotShown us ts) (rSlots r i) = map_option (slotShown us (\<lambda>t. t)) (?rows i)"
    using tr(2) by (intro shown_row) (simp add: replicaShown_def databaseShown_def)
  have known: "rSlots r i \<noteq> None \<or> kind = OpSlotCreate" using assms(10) row by (cases "?rows i") auto
  have seq: "opSeq ?op = rSeq r + 1" using tr(1) assms(5) by simp
  obtain x where x: "Apply up ?op r = (None, r\<lparr>rSeq := opSeq ?op, rSlots := (rSlots r)(i \<mapsto> x)\<rparr>)"
    "slotShown us ts x = (sID old, sTripID old, sCreatedBy old, seen ts (SlotValues us old) ++ (seen ts (SlotValues us y) |` set msk), sVersion y)"
    using slot_applied [OF seq _ _ assms(3,2,7,8,9) _ refl] assms(4) known by (auto simp: old_def)
  have "SlotValues us (newSlot ?op) = SlotValues us zeroSlot" by (simp add: newSlot_def SlotValues_def)
  then have "slotShown us ts x = slotShown us (\<lambda>t. t) w"
    using x(2) assms(11) row by (cases "?rows i") (auto simp: old_def slotShown_def newSlot_def)
  then have "replicaShown us ts (confused T (txDB t)) (r\<lparr>rSeq := opSeq ?op, rSlots := (rSlots r)(i \<mapsto> x)\<rparr>) = databaseShown us (confused T (txDB t)) T (txDB t1)"
    using tr(2) assms(5,6) by (simp add: replicaShown_def databaseShown_def)
  then show ?thesis using tracks_push [OF assms(1) _ seq x(1), of t1] assms(4,5) by (auto simp: OpKind_Entity_def)
qed

lemma day_tracks:
  assumes "tracks us ts up T (txDB t) r" "uuidText us up" "DayPayload y msk = Inr p" "OpKind_Entity kind = ''day''"
    and "txDB t1 = (txDB t)\<lparr>dbDays := rows\<rparr>"
    and "rowsOf dID dTripID T rows = (rowsOf dID dTripID T (dbDays (txDB t)))(i \<mapsto> w)"
    and "\<not> (FieldDate \<in> set msk \<and> FieldDeletedAt \<in> set msk)"
    and "rowsOf dID dTripID T (dbDays (txDB t)) i = None \<Longrightarrow> kind = OpDayCreate"
    and "dayShown (\<lambda>t. t) w = (case rowsOf dID dTripID T (dbDays (txDB t)) i of
        Some s \<Rightarrow> (dID s, dTripID s, DayValues s ++ (seen ts (DayValues y) |` set msk), dVersion y)
      | None \<Rightarrow> (i, T, DayValues zeroDay ++ (seen ts (DayValues y) |` set msk), dVersion y))"
  shows "\<exists>r'. tracks us ts up T (txDB (pushOp (loggedOp e T actorID kind i msk p t1) t1)) r'"
proof -
  let ?op = "loggedOp e T actorID kind i msk p t1" and ?rows = "rowsOf dID dTripID T (dbDays (txDB t))"
  define old where "old = (case rDays r i of Some s \<Rightarrow> s | None \<Rightarrow> zeroDay\<lparr>dID := opEntityID ?op, dTripID := opTripID ?op\<rparr>)"
  have tr: "rSeq r = dbOpSeq (txDB t) T" "replicaShown us ts (confused T (txDB t)) r = databaseShown us (confused T (txDB t)) T (txDB t)"
    using assms(1) by (simp_all add: tracks_def)
  have row: "map_option (dayShown ts) (rDays r i) = map_option (dayShown (\<lambda>t. t)) (?rows i)"
    using tr(2) by (intro shown_row) (simp add: replicaShown_def databaseShown_def)
  have known: "rDays r i \<noteq> None \<or> kind = OpDayCreate" using assms(8) row by (cases "?rows i") auto
  have seq: "opSeq ?op = rSeq r + 1" using tr(1) assms(5) by simp
  obtain x where x: "Apply up ?op r = (None, r\<lparr>rSeq := opSeq ?op, rDays := (rDays r)(i \<mapsto> x)\<rparr>)"
    "dayShown ts x = (dID old, dTripID old, seen ts (DayValues old) ++ (seen ts (DayValues y) |` set msk), dVersion y)"
    using day_applied [OF seq _ _ assms(3,7) _ refl] assms(4) known by (auto simp: old_def)
  have "DayValues (zeroDay\<lparr>dID := opEntityID ?op, dTripID := opTripID ?op\<rparr>) = DayValues zeroDay" by (simp add: values_defs)
  then have "dayShown ts x = dayShown (\<lambda>t. t) w"
    using x(2) assms(9) row by (cases "?rows i") (auto simp: old_def dayShown_def)
  then have "replicaShown us ts (confused T (txDB t)) (r\<lparr>rSeq := opSeq ?op, rDays := (rDays r)(i \<mapsto> x)\<rparr>) = databaseShown us (confused T (txDB t)) T (txDB t1)"
    using tr(2) assms(5,6) by (simp add: replicaShown_def databaseShown_def)
  then show ?thesis using tracks_push [OF assms(1) _ seq x(1), of t1] assms(4,5) by (auto simp: OpKind_Entity_def)
qed

lemma option_tracks:
  assumes "tracks us ts up T (txDB t) r" "uuidText us up" "OptionPayload us y msk = Inr p" "OpKind_Entity kind = ''option''"
    and "txDB t1 = (txDB t)\<lparr>dbOptions := rows\<rparr>"
    and "rowsOf oID oTripID T rows = (rowsOf oID oTripID T (dbOptions (txDB t)))(i \<mapsto> w)"
    and "rowsOf oID oTripID T (dbOptions (txDB t)) i = None \<Longrightarrow> kind = OpOptionCreate"
    and "(oID w, oTripID w, oProposedBy w, OptionValues us w, oVersion w) = (case rowsOf oID oTripID T (dbOptions (txDB t)) i of
        Some s \<Rightarrow> (oID s, oTripID s, oProposedBy s, OptionValues us s ++ (seen ts (OptionValues us y) |` set msk), oVersion y)
      | None \<Rightarrow> (i, T, Some actorID, OptionValues us zeroOption ++ (seen ts (OptionValues us y) |` set msk), oVersion y))"
  shows "\<exists>r'. tracks us ts up T (txDB (pushOp (loggedOp e T actorID kind i msk p t1) t1)) r'"
proof -
  let ?op = "loggedOp e T actorID kind i msk p t1" and ?rows = "rowsOf oID oTripID T (dbOptions (txDB t))"
  let ?lost = "confused T (txDB t)" and ?lost' = "confused T (txDB (pushOp ?op t1))"
  define old where "old = (case rOptions r i of Some s \<Rightarrow> s | None \<Rightarrow> zeroOption\<lparr>oID := opEntityID ?op, oTripID := opTripID ?op, oProposedBy := opActorID ?op\<rparr>)"
  have tr: "rSeq r = dbOpSeq (txDB t) T" "replicaShown us ts ?lost r = databaseShown us ?lost T (txDB t)"
    using assms(1) by (simp_all add: tracks_def)
  have ops: "dbOps (txDB t1) = dbOps (txDB t)" using assms(5) by simp
  have lost: "?lost \<subseteq> ?lost'" "placesBoth ?op \<Longrightarrow> i \<in> ?lost'"
    using confused_log [OF ops, of T] by (auto simp: confused_push)
  have all: "map_option (optionShown us ts ?lost') (rOptions r j) = map_option (optionShown us (\<lambda>t. t) ?lost') (?rows j)" for j
    using tr(2) by (intro optionShown_more [OF shown_row lost(1)]) (simp add: replicaShown_def databaseShown_def)
  note row = all [of i]
  have known: "rOptions r i \<noteq> None \<or> kind = OpOptionCreate" using assms(7) row by (cases "?rows i") auto
  have seq: "opSeq ?op = rSeq r + 1" using tr(1) assms(5) by simp
  obtain x where x: "Apply up ?op r = (None, r\<lparr>rSeq := opSeq ?op, rOptions := (rOptions r)(i \<mapsto> x)\<rparr>)"
    "oID x = oID old" "oTripID x = oTripID old" "oProposedBy x = oProposedBy old" "oVersion x = oVersion y"
    "forget (placesBoth ?op) (OptionValues us x) = forget (placesBoth ?op) (OptionValues us old ++ (OptionValues us y |` set msk))"
    using option_applied [OF seq _ _ assms(3,2) _ refl] assms(4) known by (auto simp: old_def)
  have vals: "forget (i \<in> ?lost') (seen ts (OptionValues us x)) =
      forget (i \<in> ?lost') (seen ts (OptionValues us old)) ++ forget (i \<in> ?lost') (seen ts (OptionValues us y) |` set msk)"
    using arg_cong [OF forget_more [OF x(6) lost(2)], of "seen ts"] by (simp add: forget_seen [symmetric])
  have zero: "OptionValues us (zeroOption\<lparr>oID := opEntityID ?op, oTripID := opTripID ?op, oProposedBy := opActorID ?op\<rparr>) = OptionValues us zeroOption"
    by (simp add: values_defs)
  have "optionShown us ts ?lost' x = optionShown us (\<lambda>t. t) ?lost' w"
  proof (cases "?rows i")
    case None
    then have "old = zeroOption\<lparr>oID := opEntityID ?op, oTripID := opTripID ?op, oProposedBy := opActorID ?op\<rparr>" using row by (simp add: old_def)
    then show ?thesis using None x(2-5) vals zero assms(8) by (simp add: optionShown_def)
  next
    case (Some s)
    have "oID s = i" using rowsOf_key [OF Some] by simp
    then show ?thesis using Some x(2-5) vals row assms(8) by (auto simp: optionShown_def old_def)
  qed
  moreover have "shownTable (optionShown us ts ?lost') (rOptions r) = shownTable (optionShown us (\<lambda>t. t) ?lost') ?rows"
    using all by (simp add: shownTable_def fun_eq_iff)
  ultimately have "replicaShown us ts ?lost' (r\<lparr>rSeq := opSeq ?op, rOptions := (rOptions r)(i \<mapsto> x)\<rparr>) = databaseShown us ?lost' T (txDB t1)"
    using tr(2) assms(5,6) by (simp add: replicaShown_def databaseShown_def)
  then show ?thesis using tracks_pushed [OF assms(1) _ seq x(1) ops] by auto
qed

lemma vote_tracks:
  assumes "tracks us ts up T (txDB t) r" "uuidText us up" "VotePayload us y msk = Inr p" "kind = OpVoteSet"
    and "txDB t1 = (txDB t)\<lparr>dbVotes := rows\<rparr>"
    and "rowsOf vID vTripID T rows = (rowsOf vID vTripID T (dbVotes (txDB t)))(i \<mapsto> w)"
    and "rowsOf vID vTripID T (dbVotes (txDB t)) i = None \<Longrightarrow> kind = OpVoteSet"
    and "voteShown us w = (case rowsOf vID vTripID T (dbVotes (txDB t)) i of
        Some s \<Rightarrow> (vID s, vTripID s, VoteValues us s ++ (VoteValues us y |` set msk), vVersion y)
      | None \<Rightarrow> (i, T, VoteValues us zeroVote ++ (VoteValues us y |` set msk), vVersion y))"
  shows "\<exists>r'. tracks us ts up T (txDB (pushOp (loggedOp e T actorID kind i msk p t1) t1)) r'"
proof -
  let ?op = "loggedOp e T actorID kind i msk p t1" and ?rows = "rowsOf vID vTripID T (dbVotes (txDB t))"
  define old where "old = (case rVotes r i of Some s \<Rightarrow> s | None \<Rightarrow> zeroVote\<lparr>vID := opEntityID ?op, vTripID := opTripID ?op\<rparr>)"
  have tr: "rSeq r = dbOpSeq (txDB t) T" "replicaShown us ts (confused T (txDB t)) r = databaseShown us (confused T (txDB t)) T (txDB t)"
    using assms(1) by (simp_all add: tracks_def)
  have row: "map_option (voteShown us) (rVotes r i) = map_option (voteShown us) (?rows i)"
    using tr(2) by (intro shown_row) (simp add: replicaShown_def databaseShown_def)
  have known: "rVotes r i \<noteq> None \<or> kind = OpVoteSet" using assms(7) row by (cases "?rows i") auto
  have seq: "opSeq ?op = rSeq r + 1" using tr(1) assms(5) by simp
  obtain x where x: "Apply up ?op r = (None, r\<lparr>rSeq := opSeq ?op, rVotes := (rVotes r)(i \<mapsto> x)\<rparr>)"
    "voteShown us x = (vID old, vTripID old, VoteValues us old ++ (VoteValues us y |` set msk), vVersion y)"
    using vote_applied [OF seq _ _ assms(3,2) refl] assms(4) known by (auto simp: old_def)
  have "VoteValues us (zeroVote\<lparr>vID := opEntityID ?op, vTripID := opTripID ?op\<rparr>) = VoteValues us zeroVote" by (simp add: values_defs)
  then have "voteShown us x = voteShown us w"
    using x(2) assms(8) row by (cases "?rows i") (auto simp: old_def voteShown_def)
  then have "replicaShown us ts (confused T (txDB t)) (r\<lparr>rSeq := opSeq ?op, rVotes := (rVotes r)(i \<mapsto> x)\<rparr>) = databaseShown us (confused T (txDB t)) T (txDB t1)"
    using tr(2) assms(5,6) by (simp add: replicaShown_def databaseShown_def)
  then show ?thesis using tracks_push [OF assms(1) _ seq x(1), of t1] assms(4,5) by (auto simp: OpKind_Entity_def)
qed

lemma budget_tracks:
  assumes "tracks us ts up T (txDB t) r" "uuidText us up" "BudgetPayload us y msk = Inr p" "OpKind_Entity kind = ''budget''"
    and "txDB t1 = (txDB t)\<lparr>dbBudgets := rows\<rparr>"
    and "rowsOf bID bTripID T rows = (rowsOf bID bTripID T (dbBudgets (txDB t)))(i \<mapsto> w)"
    and "\<not> (FieldIncurredOn \<in> set msk \<and> FieldDeletedAt \<in> set msk)"
    and "rowsOf bID bTripID T (dbBudgets (txDB t)) i = None \<Longrightarrow> kind = OpBudgetSet"
    and "budgetShown us (\<lambda>t. t) w = (case rowsOf bID bTripID T (dbBudgets (txDB t)) i of
        Some s \<Rightarrow> (bID s, bTripID s, bCreatedBy s, BudgetValues us s ++ (seen ts (BudgetValues us y) |` set msk), bVersion y)
      | None \<Rightarrow> (i, T, Some actorID, BudgetValues us zeroBudget ++ (seen ts (BudgetValues us y) |` set msk), bVersion y))"
  shows "\<exists>r'. tracks us ts up T (txDB (pushOp (loggedOp e T actorID kind i msk p t1) t1)) r'"
proof -
  let ?op = "loggedOp e T actorID kind i msk p t1" and ?rows = "rowsOf bID bTripID T (dbBudgets (txDB t))"
  define old where "old = (case rBudgets r i of Some s \<Rightarrow> s | None \<Rightarrow> zeroBudget\<lparr>bID := opEntityID ?op, bTripID := opTripID ?op, bCreatedBy := opActorID ?op\<rparr>)"
  have tr: "rSeq r = dbOpSeq (txDB t) T" "replicaShown us ts (confused T (txDB t)) r = databaseShown us (confused T (txDB t)) T (txDB t)"
    using assms(1) by (simp_all add: tracks_def)
  have row: "map_option (budgetShown us ts) (rBudgets r i) = map_option (budgetShown us (\<lambda>t. t)) (?rows i)"
    using tr(2) by (intro shown_row) (simp add: replicaShown_def databaseShown_def)
  have known: "rBudgets r i \<noteq> None \<or> kind = OpBudgetSet" using assms(8) row by (cases "?rows i") auto
  have seq: "opSeq ?op = rSeq r + 1" using tr(1) assms(5) by simp
  obtain x where x: "Apply up ?op r = (None, r\<lparr>rSeq := opSeq ?op, rBudgets := (rBudgets r)(i \<mapsto> x)\<rparr>)"
    "budgetShown us ts x = (bID old, bTripID old, bCreatedBy old, seen ts (BudgetValues us old) ++ (seen ts (BudgetValues us y) |` set msk), bVersion y)"
    using budget_applied [OF seq _ _ assms(3,2,7) _ refl] assms(4) known by (auto simp: old_def)
  have "BudgetValues us (zeroBudget\<lparr>bID := opEntityID ?op, bTripID := opTripID ?op, bCreatedBy := opActorID ?op\<rparr>) = BudgetValues us zeroBudget" by (simp add: values_defs)
  then have "budgetShown us ts x = budgetShown us (\<lambda>t. t) w"
    using x(2) assms(9) row by (cases "?rows i") (auto simp: old_def budgetShown_def)
  then have "replicaShown us ts (confused T (txDB t)) (r\<lparr>rSeq := opSeq ?op, rBudgets := (rBudgets r)(i \<mapsto> x)\<rparr>) = databaseShown us (confused T (txDB t)) T (txDB t1)"
    using tr(2) assms(5,6) by (simp add: replicaShown_def databaseShown_def)
  then show ?thesis using tracks_push [OF assms(1) _ seq x(1), of t1] assms(4,5) by (auto simp: OpKind_Entity_def)
qed

lemma comment_tracks:
  assumes "tracks us ts up T (txDB t) r" "uuidText us up" "CommentPayload us y msk = Inr p" "OpKind_Entity kind = ''comment''"
    and "txDB t1 = (txDB t)\<lparr>dbComments := rows\<rparr>"
    and "rowsOf cID cTripID T rows = (rowsOf cID cTripID T (dbComments (txDB t)))(i \<mapsto> w)"
    and "rowsOf cID cTripID T (dbComments (txDB t)) i = None \<Longrightarrow> kind = OpCommentCreate"
    and "commentShown us (\<lambda>t. t) w = (case rowsOf cID cTripID T (dbComments (txDB t)) i of
        Some s \<Rightarrow> (cID s, cTripID s, cAuthorID s, CommentValues us s ++ (seen ts (CommentValues us y) |` set msk))
      | None \<Rightarrow> (i, T, Some actorID, CommentValues us zeroComment ++ (seen ts (CommentValues us y) |` set msk)))"
  shows "\<exists>r'. tracks us ts up T (txDB (pushOp (loggedOp e T actorID kind i msk p t1) t1)) r'"
proof -
  let ?op = "loggedOp e T actorID kind i msk p t1" and ?rows = "rowsOf cID cTripID T (dbComments (txDB t))"
  define old where "old = (case rComments r i of Some s \<Rightarrow> s | None \<Rightarrow> zeroComment\<lparr>cID := opEntityID ?op, cTripID := opTripID ?op, cAuthorID := opActorID ?op\<rparr>)"
  have tr: "rSeq r = dbOpSeq (txDB t) T" "replicaShown us ts (confused T (txDB t)) r = databaseShown us (confused T (txDB t)) T (txDB t)"
    using assms(1) by (simp_all add: tracks_def)
  have row: "map_option (commentShown us ts) (rComments r i) = map_option (commentShown us (\<lambda>t. t)) (?rows i)"
    using tr(2) by (intro shown_row) (simp add: replicaShown_def databaseShown_def)
  have known: "rComments r i \<noteq> None \<or> kind = OpCommentCreate" using assms(7) row by (cases "?rows i") auto
  have seq: "opSeq ?op = rSeq r + 1" using tr(1) assms(5) by simp
  obtain x where x: "Apply up ?op r = (None, r\<lparr>rSeq := opSeq ?op, rComments := (rComments r)(i \<mapsto> x)\<rparr>)"
    "commentShown us ts x = (cID old, cTripID old, cAuthorID old, seen ts (CommentValues us old) ++ (seen ts (CommentValues us y) |` set msk))"
    using comment_applied [OF seq _ _ assms(3,2) _ refl] assms(4) known by (auto simp: old_def)
  have "CommentValues us (zeroComment\<lparr>cID := opEntityID ?op, cTripID := opTripID ?op, cAuthorID := opActorID ?op\<rparr>) = CommentValues us zeroComment" by (simp add: values_defs)
  then have "commentShown us ts x = commentShown us (\<lambda>t. t) w"
    using x(2) assms(8) row by (cases "?rows i") (auto simp: old_def commentShown_def)
  then have "replicaShown us ts (confused T (txDB t)) (r\<lparr>rSeq := opSeq ?op, rComments := (rComments r)(i \<mapsto> x)\<rparr>) = databaseShown us (confused T (txDB t)) T (txDB t1)"
    using tr(2) assms(5,6) by (simp add: replicaShown_def databaseShown_def)
  then show ?thesis using tracks_push [OF assms(1) _ seq x(1), of t1] assms(4,5) by (auto simp: OpKind_Entity_def)
qed

text \<open>The versioned writes of slots, days and options: outside the mask the row stays as it was, inside it
  shows what was logged.\<close>

lemma mask_excludes:
  assumes "FieldMask_Validate msk kind = Inr ()"
  shows "\<not> (FieldStatusChangedAt \<in> set msk \<and> FieldDeletedAt \<in> set msk)" "\<not> (FieldDate \<in> set msk \<and> FieldDeletedAt \<in> set msk)"
    "\<not> (FieldIncurredOn \<in> set msk \<and> FieldDeletedAt \<in> set msk)"
  using assms by (cases kind; auto simp: FieldMask_Validate_iff AllowedFields_def opKinds_def)+

lemma slotWrite_tracks:
  assumes w: "slotWrite e T actorID kind msk i v row f y t t'" and "relational (txDB t)" "tracks us ts up T (txDB t) r"
    and "eText e = us" "uuidText us up" "OpKind_Entity kind = ''slot''"
    and keep: "sID (f row) = sID row" "sTripID (f row) = sTripID row" "sCreatedBy (f row) = sCreatedBy row" "sVersion (f row) = sVersion y"
    and vals: "\<And>n. sDeletedAt row = None \<Longrightarrow> n \<in> set msk \<Longrightarrow> SlotValues us (f row) n = seen ts (SlotValues us y) n" "\<And>n. n \<notin> set msk \<Longrightarrow> SlotValues us (f row) n = SlotValues us row n"
    and times: "FieldStartTime \<in> set msk \<Longrightarrow> \<not> timeInvalid (sStartTime y)" "FieldEndTime \<in> set msk \<Longrightarrow> \<not> timeInvalid (sEndTime y)"
  shows "\<exists>r'. tracks us ts up T (txDB t') r'"
proof -
  obtain p where p: "findRow sID i (dbSlots (txDB t)) = Some row" "sTripID row = T \<and> sDeletedAt row = None" "FieldMask_Validate msk kind = Inr ()"
    "SlotPayload us y msk = Inr p"
    "t' = pushOp (loggedOp e T actorID kind i msk p (slotTable (updRow sID i f) t)) (slotTable (updRow sID i f) t)"
    using w assms(4) by (auto simp: slotWrite_def)
  have i: "sID row = i" using findRow_key [OF p(1)] by simp
  have d: "distinct (map sID (dbSlots (txDB t)))" using assms(2) by (simp add: relational_def)
  have rows: "rowsOf sID sTripID T (dbSlots (txDB t)) i = Some row"
    "rowsOf sID sTripID T (updRow sID i f (dbSlots (txDB t))) = (rowsOf sID sTripID T (dbSlots (txDB t)))(i \<mapsto> f row)"
    using rowsOf_Some [OF d p(1), of sTripID T] rowsOf_update [OF d p(1), of sTripID T f] p(2) keep i by simp_all
  have "SlotValues us (f row) = SlotValues us row ++ (seen ts (SlotValues us y) |` set msk)"
    using vals p(2) values_dom(1) by (intro overlay_values) auto
  then show ?thesis unfolding p(5)
    using slot_tracks [OF assms(3,5) p(4) assms(6) _ rows(2) times mask_excludes(1) [OF p(3)], where ?t1.0 = "slotTable (updRow sID i f) t"] rows(1) keep i
    by (simp add: slotTable_def slotShown_def)
qed

lemma dayWrite_tracks:
  assumes w: "dayWrite e T actorID kind msk i v row f y t t'" and "relational (txDB t)" "tracks us ts up T (txDB t) r"
    and "uuidText us up" "OpKind_Entity kind = ''day''"
    and keep: "dID (f row) = dID row" "dTripID (f row) = dTripID row" "dVersion (f row) = dVersion y"
    and vals: "\<And>n. dDeletedAt row = None \<Longrightarrow> n \<in> set msk \<Longrightarrow> DayValues (f row) n = seen ts (DayValues y) n" "\<And>n. n \<notin> set msk \<Longrightarrow> DayValues (f row) n = DayValues row n"
  shows "\<exists>r'. tracks us ts up T (txDB t') r'"
proof -
  obtain p where p: "findRow dID i (dbDays (txDB t)) = Some row" "dTripID row = T \<and> dDeletedAt row = None" "FieldMask_Validate msk kind = Inr ()"
    "DayPayload y msk = Inr p"
    "t' = pushOp (loggedOp e T actorID kind i msk p (dayTable (updRow dID i f) t)) (dayTable (updRow dID i f) t)"
    using w by (auto simp: dayWrite_def)
  have i: "dID row = i" using findRow_key [OF p(1)] by simp
  have d: "distinct (map dID (dbDays (txDB t)))" using assms(2) by (simp add: relational_def)
  have rows: "rowsOf dID dTripID T (dbDays (txDB t)) i = Some row"
    "rowsOf dID dTripID T (updRow dID i f (dbDays (txDB t))) = (rowsOf dID dTripID T (dbDays (txDB t)))(i \<mapsto> f row)"
    using rowsOf_Some [OF d p(1), of dTripID T] rowsOf_update [OF d p(1), of dTripID T f] p(2) keep i by simp_all
  have "DayValues (f row) = DayValues row ++ (seen ts (DayValues y) |` set msk)"
    using vals p(2) values_dom(2) by (intro overlay_values) auto
  then show ?thesis unfolding p(5)
    using day_tracks [OF assms(3,4) p(4) assms(5) _ rows(2) mask_excludes(2) [OF p(3)], where ?t1.0 = "dayTable (updRow dID i f) t"] rows(1) keep i
    by (simp add: dayTable_def dayShown_def)
qed

lemma optionWrite_tracks:
  assumes w: "optionWrite e T actorID kind msk i v row f y t t'" and "relational (txDB t)" "tracks us ts up T (txDB t) r"
    and "eText e = us" "uuidText us up" "OpKind_Entity kind = ''option''"
    and keep: "oID (f row) = oID row" "oTripID (f row) = oTripID row" "oProposedBy (f row) = oProposedBy row" "oVersion (f row) = oVersion y"
    and vals: "\<And>n. oDeletedAt row = None \<Longrightarrow> n \<in> set msk \<Longrightarrow> OptionValues us (f row) n = seen ts (OptionValues us y) n" "\<And>n. n \<notin> set msk \<Longrightarrow> OptionValues us (f row) n = OptionValues us row n"
  shows "\<exists>r'. tracks us ts up T (txDB t') r'"
proof -
  obtain p where p: "findRow oID i (dbOptions (txDB t)) = Some row" "oTripID row = T \<and> oDeletedAt row = None" "OptionPayload us y msk = Inr p"
    "t' = pushOp (loggedOp e T actorID kind i msk p (optionTable (updRow oID i f) t)) (optionTable (updRow oID i f) t)"
    using w assms(4) by (auto simp: optionWrite_def)
  have i: "oID row = i" using findRow_key [OF p(1)] by simp
  have d: "distinct (map oID (dbOptions (txDB t)))" using assms(2) by (simp add: relational_def)
  have rows: "rowsOf oID oTripID T (dbOptions (txDB t)) i = Some row"
    "rowsOf oID oTripID T (updRow oID i f (dbOptions (txDB t))) = (rowsOf oID oTripID T (dbOptions (txDB t)))(i \<mapsto> f row)"
    using rowsOf_Some [OF d p(1), of oTripID T] rowsOf_update [OF d p(1), of oTripID T f] p(2) keep i by simp_all
  have "OptionValues us (f row) = OptionValues us row ++ (seen ts (OptionValues us y) |` set msk)"
    using vals p(2) values_dom(3) by (intro overlay_values) auto
  then show ?thesis unfolding p(4)
    using option_tracks [OF assms(3,5) p(3) assms(6) _ rows(2), where ?t1.0 = "optionTable (updRow oID i f) t"] rows(1) keep i
    by (simp add: optionTable_def optionShown_def)
qed

section \<open>Every step of the planning services\<close>

text \<open>One rendering of identifiers, and what the columns store of an instant and of a date: any two functions, of
  which that of the date column leaves what is stored as it is. The clock is arbitrary.\<close>

definition columnEnv :: "(ID \<Rightarrow> str) \<Rightarrow> (instant \<Rightarrow> instant) \<Rightarrow> (instant \<Rightarrow> instant) \<Rightarrow> Env \<Rightarrow> bool" where
  "columnEnv us ts date e \<longleftrightarrow> eText e = us \<and> eTimestamp e = ts \<and> eDate e = date \<and> (\<forall>t. date (date t) = date t)"

definition datesStored :: "(instant \<Rightarrow> instant) \<Rightarrow> DB \<Rightarrow> bool" where
  "datesStored date db \<longleftrightarrow> (\<forall>d \<in> set (dbDays db). map_option date (dDate d) = dDate d)"

lemma set_maskFor:
  "set (maskFor k fs) = (if fs = [] then set (AllowedFields k) else set fs)"
  by (simp add: maskFor_def)

lemma Has_mask: "Has msk n \<Longrightarrow> n \<in> set (maskFor k msk)"
  by (auto simp: maskFor_def Has_def)

lemmas mask_sets = set_maskFor AllowedFields_def opKinds_def

lemma slot_edit_tracks:
  assumes "relational (txDB t)" "tracks us ts up T (txDB t) r" "columnEnv us ts date e" "uuidText us up"
    and val: "Slot_Validate (mergeSlot msk inp T i row) = Inr ()" and f: "f = setSlot e (mergeSlot msk inp T i row)"
    and w: "slotWrite e T actorID OpSlotEdit (maskFor OpSlotEdit msk) i v row f (f row) t t'"
  shows "\<exists>r'. tracks us ts up T (txDB t') r'"
proof -
  have us: "eText e = us" using assms(3) by (simp add: columnEnv_def)
  have times: "\<not> timeInvalid (sStartTime (mergeSlot msk inp T i row))" "\<not> timeInvalid (sEndTime (mergeSlot msk inp T i row))"
    using val by (simp_all add: Slot_Validate_iff)
  have stored: "storedTime (sStartTime (mergeSlot msk inp T i row)) = sStartTime (mergeSlot msk inp T i row)"
    "storedTime (sEndTime (mergeSlot msk inp T i row)) = sEndTime (mergeSlot msk inp T i row)"
    using times by simp_all
  show ?thesis
  proof (rule slotWrite_tracks [OF w assms(1,2) us assms(4)])
    fix n assume "n \<notin> set (maskFor OpSlotEdit msk)"
    then have "\<not> Has msk n" using Has_mask by blast
    then show "SlotValues us (f row) n = SlotValues us row n"
      unfolding f setSlot_def stored by (auto simp: SlotValues_def mergeSlot_def)
  qed (use times in \<open>simp_all add: f setSlot_def stored OpKind_Entity_def\<close>)
qed

lemma slot_move_tracks:
  assumes "relational (txDB t)" "tracks us ts up T (txDB t) r" "columnEnv us ts date e" "uuidText us up" "f = setSlotPlace e dayID position (eNow e)"
    and w: "slotWrite e T actorID OpSlotMove (maskFor OpSlotMove [FieldDayID, FieldPosition]) i v row f (f row) t t'"
  shows "\<exists>r'. tracks us ts up T (txDB t') r'"
  by (rule slotWrite_tracks [OF w assms(1,2) _ assms(4)])
    (use assms(3) in \<open>auto simp: assms(5) setSlotPlace_def OpKind_Entity_def mask_sets SlotValues_def columnEnv_def\<close>)

lemma slot_select_tracks:
  assumes "relational (txDB t)" "tracks us ts up T (txDB t) r" "columnEnv us ts date e" "uuidText us up" "f = setSlotSelected e optionID (eNow e)"
    and w: "slotWrite e T actorID OpSlotSelectOption (maskFor OpSlotSelectOption [FieldSelectedOptionID]) i v row f (f row) t t'"
  shows "\<exists>r'. tracks us ts up T (txDB t') r'"
  by (rule slotWrite_tracks [OF w assms(1,2) _ assms(4)])
    (use assms(3) in \<open>auto simp: assms(5) setSlotSelected_def OpKind_Entity_def mask_sets SlotValues_def columnEnv_def\<close>)

lemma slot_status_tracks:
  assumes "relational (txDB t)" "tracks us ts up T (txDB t) r" "columnEnv us ts date e" "uuidText us up" "f = setSlotStatus e status actorID (eNow e)"
    and w: "slotWrite e T actorID OpSlotSetStatus (maskFor OpSlotSetStatus [FieldStatus, FieldStatusChangedAt, FieldStatusChangedBy]) i v row f (f row) t t'"
  shows "\<exists>r'. tracks us ts up T (txDB t') r'"
  by (rule slotWrite_tracks [OF w assms(1,2) _ assms(4)])
    (use assms(3) in \<open>auto simp: assms(5) setSlotStatus_def OpKind_Entity_def mask_sets SlotValues_def columnEnv_def\<close>)

lemma slot_delete_tracks:
  assumes "relational (txDB t)" "tracks us ts up T (txDB t) r" "columnEnv us ts date e" "uuidText us up" "f = setSlotDeleted e (eNow e)"
    and w: "slotWrite e T actorID OpSlotDelete (maskFor OpSlotDelete [FieldDeletedAt]) i v row f
        (row\<lparr>sDeletedAt := Some (eNow e), sUpdatedAt := eNow e, sVersion := sVersion row + 1\<rparr>) t t'"
  shows "\<exists>r'. tracks us ts up T (txDB t') r'"
  by (rule slotWrite_tracks [OF w assms(1,2) _ assms(4)])
    (use assms(3) in \<open>auto simp: assms(5) setSlotDeleted_def OpKind_Entity_def mask_sets SlotValues_def columnEnv_def seen_time\<close>)

lemma stored_date: "columnEnv us ts date e \<Longrightarrow> datesStored date db \<Longrightarrow> d \<in> set (dbDays db) \<Longrightarrow> map_option (eDate e) (dDate d) = dDate d"
  by (simp add: columnEnv_def datesStored_def)

lemma written_date:
  assumes "columnEnv us ts date e" "datesStored date (txDB t)" "dayWrite e T actorID kind msk i v row f y t t'"
  shows "map_option (eDate e) (dDate row) = dDate row"
proof (rule stored_date [OF assms(1,2)])
  have "findRow dID i (dbDays (txDB t)) = Some row" using assms(3) by (simp add: dayWrite_def)
  then show "row \<in> set (dbDays (txDB t))" by (simp add: findRow_key)
qed

lemma day_edit_tracks:
  assumes "relational (txDB t)" "tracks us ts up T (txDB t) r" "columnEnv us ts date e" "uuidText us up" "datesStored date (txDB t)"
    and f: "f = setDay e (mergeDay msk inp T i row)"
    and w: "dayWrite e T actorID OpDayEdit (maskFor OpDayEdit msk) i v row f (f row) t t'"
  shows "\<exists>r'. tracks us ts up T (txDB t') r'"
proof (rule dayWrite_tracks [OF w assms(1,2,4)])
  have d: "map_option (eDate e) (dDate row) = dDate row"
    by (rule written_date [OF assms(3,5) w])
  fix n assume "n \<notin> set (maskFor OpDayEdit msk)"
  then have "\<not> Has msk n" using Has_mask by blast
  then show "DayValues (f row) n = DayValues row n"
    unfolding f setDay_def using d by (auto simp: DayValues_def mergeDay_def)
qed (simp_all add: f setDay_def OpKind_Entity_def)

lemma day_move_tracks:
  assumes "relational (txDB t)" "tracks us ts up T (txDB t) r" "columnEnv us ts date e" "uuidText us up" "datesStored date (txDB t)"
    and f: "f = setDay e (movedDay T i expected position row)"
    and w: "dayWrite e T actorID OpDayMove (maskFor OpDayMove [FieldPosition]) i v row f (f row) t t'"
  shows "\<exists>r'. tracks us ts up T (txDB t') r'"
proof -
  have d: "map_option (eDate e) (dDate row) = dDate row"
    by (rule written_date [OF assms(3,5) w])
  show ?thesis
    by (rule dayWrite_tracks [OF w assms(1,2,4)])
      (use d in \<open>auto simp: f setDay_def movedDay_def OpKind_Entity_def mask_sets DayValues_def\<close>)
qed

lemma day_delete_tracks:
  assumes "relational (txDB t)" "tracks us ts up T (txDB t) r" "columnEnv us ts date e" "uuidText us up" "f = setDayDeleted e (eNow e)"
    and w: "dayWrite e T actorID OpDayDelete (maskFor OpDayDelete [FieldDeletedAt]) i v row f
       (row\<lparr>dDeletedAt := Some (eNow e), dUpdatedAt := eNow e, dVersion := dVersion row + 1\<rparr>) t t'"
  shows "\<exists>r'. tracks us ts up T (txDB t') r'"
  by (rule dayWrite_tracks [OF w assms(1,2,4)])
    (use assms(3) in \<open>auto simp: assms(5) setDayDeleted_def OpKind_Entity_def mask_sets DayValues_def columnEnv_def seen_time\<close>)

lemma option_edit_tracks:
  assumes "relational (txDB t)" "tracks us ts up T (txDB t) r" "columnEnv us ts date e" "uuidText us up"
    and f: "f = setOption e (mergeOption msk inp T i row)"
    and w: "optionWrite e T actorID OpOptionEdit (maskFor OpOptionEdit msk) i v row f (f row) t t'"
  shows "\<exists>r'. tracks us ts up T (txDB t') r'"
proof -
  have us: "eText e = us" using assms(3) by (simp add: columnEnv_def)
  show ?thesis
  proof (rule optionWrite_tracks [OF w assms(1,2) us assms(4)])
    fix n assume "n \<notin> set (maskFor OpOptionEdit msk)"
    then have "\<not> Has msk n" using Has_mask by blast
    then show "OptionValues us (f row) n = OptionValues us row n"
      unfolding f setOption_def by (auto simp: OptionValues_def mergeOption_def mergePlace_def)
  qed (simp_all add: f setOption_def OpKind_Entity_def)
qed

lemma option_delete_tracks:
  assumes "relational (txDB t)" "tracks us ts up T (txDB t) r" "columnEnv us ts date e" "uuidText us up" "f = setOptionDeleted e (eNow e)"
    and w: "optionWrite e T actorID OpOptionDelete (maskFor OpOptionDelete [FieldDeletedAt]) i v row f
       (row\<lparr>oDeletedAt := Some (eNow e), oUpdatedAt := eNow e, oVersion := oVersion row + 1\<rparr>) t t'"
  shows "\<exists>r'. tracks us ts up T (txDB t') r'"
  by (rule optionWrite_tracks [OF w assms(1,2) _ assms(4)])
    (use assms(3) in \<open>auto simp: assms(5) setOptionDeleted_def OpKind_Entity_def mask_sets OptionValues_def columnEnv_def seen_time\<close>)

text \<open>The creations: what the mask leaves out is zero in the new row.\<close>

lemma slot_create_tracks:
  assumes "tracks us ts up T (txDB t) r" "columnEnv us ts date e" "uuidText us up"
    and val: "Slot_Validate (draftSlot e T actorID inp position) = Inr ()" and row: "row = newSlotRow e (draftSlot e T actorID inp position)"
    and fresh: "findRow sID (sID row) (dbSlots (txDB t)) = None"
    and p: "SlotPayload (eText e) row (maskFor OpSlotCreate []) = Inr p"
  shows "\<exists>r'. tracks us ts up T (txDB (pushOp (loggedOp e T actorID OpSlotCreate (sID row) (maskFor OpSlotCreate []) p (slotTable (\<lambda>rows. rows @ [row]) t))
    (slotTable (\<lambda>rows. rows @ [row]) t))) r'"
proof -
  have us: "eText e = us" using assms(2) by (simp add: columnEnv_def)
  have kept: "sTripID row = T" "sCreatedBy row = Some actorID" by (simp_all add: row newSlotRow_def draftSlot_def)
  have times: "\<not> timeInvalid (sStartTime row)" "\<not> timeInvalid (sEndTime row)"
    using val by (simp_all add: Slot_Validate_iff row newSlotRow_def)
  have "SlotValues us row = SlotValues us zeroSlot ++ (seen ts (SlotValues us row) |` set (maskFor OpSlotCreate []))"
    by (rule overlay_values) (auto simp: values_dom(1) mask_sets SlotValues_def row newSlotRow_def draftSlot_def zeroSlot_def)
  then show ?thesis
    using slot_tracks [OF assms(1,3) p [unfolded us] _ _ rowsOf_append [where key = sID and trip = sTripID, OF fresh kept(1)] times, where ?t1.0 = "slotTable (\<lambda>rows. rows @ [row]) t"]
      rowsOf_None [OF fresh] kept
    by (simp add: slotTable_def slotShown_def OpKind_Entity_def mask_sets)
qed

lemma day_create_tracks:
  assumes "tracks us ts up T (txDB t) r" "uuidText us up" and row: "row = newDayRow e (draftDay e T inp position)"
    and fresh: "findRow dID (dID row) (dbDays (txDB t)) = None" and p: "DayPayload row (maskFor OpDayCreate []) = Inr p"
  shows "\<exists>r'. tracks us ts up T (txDB (pushOp (loggedOp e T actorID OpDayCreate (dID row) (maskFor OpDayCreate []) p (dayTable (\<lambda>rows. rows @ [row]) t))
    (dayTable (\<lambda>rows. rows @ [row]) t))) r'"
proof -
  have kept: "dTripID row = T" by (simp add: row newDayRow_def draftDay_def)
  have "DayValues row = DayValues zeroDay ++ (seen ts (DayValues row) |` set (maskFor OpDayCreate []))"
    by (rule overlay_values) (auto simp: values_dom(2) mask_sets DayValues_def row newDayRow_def draftDay_def zeroDay_def)
  then show ?thesis
    using day_tracks [OF assms(1,2) p _ _ rowsOf_append [where key = dID and trip = dTripID, OF fresh kept(1)], where ?t1.0 = "dayTable (\<lambda>rows. rows @ [row]) t"]
      rowsOf_None [OF fresh] kept
    by (simp add: dayTable_def dayShown_def OpKind_Entity_def mask_sets)
qed

lemma option_create_tracks:
  assumes "tracks us ts up T (txDB t) r" "columnEnv us ts date e" "uuidText us up" and row: "row = newOptionRow e (draftOption e T actorID slotID inp)"
    and fresh: "findRow oID (oID row) (dbOptions (txDB t)) = None" and p: "OptionPayload (eText e) row (maskFor OpOptionCreate []) = Inr p"
  shows "\<exists>r'. tracks us ts up T (txDB (pushOp (loggedOp e T actorID OpOptionCreate (oID row) (maskFor OpOptionCreate []) p (optionTable (\<lambda>rows. rows @ [row]) t))
    (optionTable (\<lambda>rows. rows @ [row]) t))) r'"
proof -
  have us: "eText e = us" using assms(2) by (simp add: columnEnv_def)
  have kept: "oTripID row = T" "oProposedBy row = Some actorID" by (simp_all add: row newOptionRow_def draftOption_def)
  have "OptionValues us row = OptionValues us zeroOption ++ (seen ts (OptionValues us row) |` set (maskFor OpOptionCreate []))"
    by (rule overlay_values) (auto simp: values_dom(3) mask_sets OptionValues_def row newOptionRow_def draftOption_def zeroOption_def)
  then show ?thesis
    using option_tracks [OF assms(1,3) p [unfolded us] _ _ rowsOf_append [where key = oID and trip = oTripID, OF fresh kept(1)], where ?t1.0 = "optionTable (\<lambda>rows. rows @ [row]) t"]
      rowsOf_None [OF fresh] kept
    by (simp add: optionTable_def optionShown_def OpKind_Entity_def)
qed

lemma vote_first_tracks:
  assumes "tracks us ts up T (txDB t) r" "columnEnv us ts date e" "uuidText us up" and row: "row = firstVote e (ballot T actorID slotID optionID)"
    and fresh: "findRow vID (vID row) (dbVotes (txDB t)) = None" and p: "VotePayload (eText e) row (maskFor OpVoteSet []) = Inr p"
  shows "\<exists>r'. tracks us ts up T (txDB (pushOp (loggedOp e T actorID OpVoteSet (vID row) (maskFor OpVoteSet []) p (voteTable (\<lambda>rows. rows @ [row]) t))
    (voteTable (\<lambda>rows. rows @ [row]) t))) r'"
proof -
  have us: "eText e = us" using assms(2) by (simp add: columnEnv_def)
  have kept: "vTripID row = T" by (simp add: row firstVote_def ballot_def)
  have "VoteValues us row = VoteValues us zeroVote ++ (VoteValues us row |` set (maskFor OpVoteSet []))"
    by (rule overlay_values) (auto simp: values_dom(4) mask_sets VoteValues_def)
  then show ?thesis
    using vote_tracks [OF assms(1,3) p [unfolded us] refl _ rowsOf_append [where key = vID and trip = vTripID, OF fresh kept(1)], where ?t1.0 = "voteTable (\<lambda>rows. rows @ [row]) t"]
      rowsOf_None [OF fresh] kept
    by (simp add: voteTable_def voteShown_def)
qed

lemma vote_again_tracks:
  assumes "relational (txDB t)" "tracks us ts up T (txDB t) r" "columnEnv us ts date e" "uuidText us up"
    and c: "checkSlotInTrip T slotID (txDB t) = Inr ()"
    and w: "find (\<lambda>w. vSlotID w = slotID \<and> vUserID w = actorID) (dbVotes (txDB t)) = Some w" and row: "row = castAgain e optionID w"
    and p: "VotePayload (eText e) row (maskFor OpVoteSet []) = Inr p"
  shows "\<exists>r'. tracks us ts up T (txDB (pushOp (loggedOp e T actorID OpVoteSet (vID row) (maskFor OpVoteSet []) p (voteTable (updRow vID (vID w) (\<lambda>_. row)) t))
    (voteTable (updRow vID (vID w) (\<lambda>_. row)) t))) r'"
proof -
  have us: "eText e = us" using assms(3) by (simp add: columnEnv_def)
  have m: "w \<in> set (dbVotes (txDB t))" "vSlotID w = slotID" using find_SomeD [OF w] by simp_all
  have trip: "vTripID w = T" by (rule vote_of_slot [OF assms(1) c m])
  have d: "distinct (map vID (dbVotes (txDB t)))" using assms(1) by (simp add: relational_def)
  have f: "findRow vID (vID w) (dbVotes (txDB t)) = Some w" by (rule findRow_mem [OF d m(1)])
  have kept: "vID row = vID w" "vTripID row = T" by (simp_all add: row castAgain_def trip)
  have "VoteValues us row = VoteValues us w ++ (VoteValues us row |` set (maskFor OpVoteSet []))"
    by (rule overlay_values) (auto simp: values_dom(4) mask_sets VoteValues_def)
  then show ?thesis
    using vote_tracks [OF assms(2,4) p [unfolded us] refl _ rowsOf_update [where key = vID and trip = vTripID and f = "\<lambda>_. row", OF d f trip],
        where ?t1.0 = "voteTable (updRow vID (vID w) (\<lambda>_. row)) t"]
      rowsOf_Some [where key = vID and trip = vTripID, OF d f trip] kept trip
    by (simp add: voteTable_def voteShown_def)
qed

lemma comment_create_tracks:
  assumes "tracks us ts up T (txDB t) r" "columnEnv us ts date e" "uuidText us up" and row: "row = newComment e T actorID slotID inp"
    and fresh: "findRow cID (cID row) (dbComments (txDB t)) = None" and p: "CommentPayload (eText e) row (maskFor OpCommentCreate []) = Inr p"
  shows "\<exists>r'. tracks us ts up T (txDB (pushOp (loggedOp e T actorID OpCommentCreate (cID row) (maskFor OpCommentCreate []) p (commentTable (\<lambda>rows. rows @ [row]) t))
    (commentTable (\<lambda>rows. rows @ [row]) t))) r'"
proof -
  have us: "eText e = us" using assms(2) by (simp add: columnEnv_def)
  have kept: "cTripID row = T" "cAuthorID row = Some actorID" by (simp_all add: row newComment_def)
  have "CommentValues us row = CommentValues us zeroComment ++ (seen ts (CommentValues us row) |` set (maskFor OpCommentCreate []))"
    by (rule overlay_values) (auto simp: values_dom(6) mask_sets CommentValues_def row newComment_def zeroComment_def)
  then show ?thesis
    using comment_tracks [OF assms(1,3) p [unfolded us] _ _ rowsOf_append [where key = cID and trip = cTripID, OF fresh kept(1)], where ?t1.0 = "commentTable (\<lambda>rows. rows @ [row]) t"]
      rowsOf_None [OF fresh] kept
    by (simp add: commentTable_def commentShown_def OpKind_Entity_def)
qed

lemma comment_delete_tracks:
  assumes "relational (txDB t)" "tracks us ts up T (txDB t) r" "columnEnv us ts date e" "uuidText us up"
    and f: "findRow cID i (dbComments (txDB t)) = Some row" and trip: "cTripID row = T"
    and p: "CommentPayload (eText e) (row\<lparr>cDeletedAt := Some (eNow e), cUpdatedAt := eNow e\<rparr>) (maskFor OpCommentDelete [FieldDeletedAt]) = Inr p"
  shows "\<exists>r'. tracks us ts up T (txDB (pushOp (loggedOp e T actorID OpCommentDelete i (maskFor OpCommentDelete [FieldDeletedAt]) p (commentTable (updRow cID i (setCommentDeleted e)) t))
    (commentTable (updRow cID i (setCommentDeleted e)) t))) r'"
proof -
  have us: "eText e = us" "eTimestamp e = ts" using assms(3) by (simp_all add: columnEnv_def)
  let ?y = "row\<lparr>cDeletedAt := Some (eNow e), cUpdatedAt := eNow e\<rparr>"
  have i: "cID row = i" using findRow_key [OF f] by simp
  have d: "distinct (map cID (dbComments (txDB t)))" using assms(1) by (simp add: relational_def)
  have kept: "cID (setCommentDeleted e row) = i" "cTripID (setCommentDeleted e row) = T" "cAuthorID (setCommentDeleted e row) = cAuthorID row"
    by (simp_all add: setCommentDeleted_def i trip)
  have "CommentValues us (setCommentDeleted e row) = CommentValues us row ++ (seen ts (CommentValues us ?y) |` set (maskFor OpCommentDelete [FieldDeletedAt]))"
    by (rule overlay_values) (auto simp: mask_sets CommentValues_def setCommentDeleted_def us seen_time)
  then show ?thesis
    using comment_tracks [OF assms(2,4) p [unfolded us(1)] _ _ rowsOf_update [where key = cID and trip = cTripID and f = "setCommentDeleted e", OF d f trip kept(1,2)],
        where ?t1.0 = "commentTable (updRow cID i (setCommentDeleted e)) t"]
      rowsOf_Some [where key = cID and trip = cTripID, OF d f trip] kept i trip
    by (simp add: commentTable_def commentShown_def OpKind_Entity_def)
qed

lemma entry_create_tracks:
  assumes "tracks us ts up T (txDB t) r" "columnEnv us ts date e" "uuidText us up"
    and b: "b = (inputEntry inp T i)\<lparr>bCreatedBy := Some actorID, bVersion := 0\<rparr>"
    and save: "BudgetRepository_Save e b (txDB t) = Inr (row, db')" and p: "BudgetPayload (eText e) row (maskFor OpBudgetSet []) = Inr p"
  shows "\<exists>r'. tracks us ts up T (txDB (pushOp (loggedOp e T actorID OpBudgetSet (bID row) (maskFor OpBudgetSet []) p (t\<lparr>txDB := db'\<rparr>))
    (t\<lparr>txDB := db'\<rparr>))) r'"
proof -
  have us: "eText e = us" using assms(2) by (simp add: columnEnv_def)
  have "bVersion b = 0" by (simp add: b)
  then have s: "findRow bID (bID b) (dbBudgets (txDB t)) = None" "row = (newBudgetRow e b)\<lparr>bSplits := bSplits row\<rparr>"
    "db' = (txDB t)\<lparr>dbBudgets := dbBudgets (txDB t) @ [row]\<rparr>"
    using BudgetRepository_Save_Inr [OF save] by simp_all
  have kept: "bID row = bID b" "bTripID row = T" "bCreatedBy row = Some actorID" "bDeletedAt row = None"
    by (subst s(2), simp add: newBudgetRow_def b inputEntry_def)+
  have fresh: "findRow bID (bID row) (dbBudgets (txDB t)) = None" using s(1) kept(1) by simp
  have "BudgetValues us row = BudgetValues us zeroBudget ++ (seen ts (BudgetValues us row) |` set (maskFor OpBudgetSet []))"
    by (rule overlay_values) (auto simp: values_dom(5) mask_sets BudgetValues_def kept(4) zeroBudget_def)
  then show ?thesis
    using budget_tracks [OF assms(1,3) p [unfolded us] _ _ rowsOf_append [where key = bID and trip = bTripID, OF fresh kept(2)], where ?t1.0 = "t\<lparr>txDB := db'\<rparr>"]
      rowsOf_None [OF fresh] kept s(3)
    by (simp add: budgetShown_def OpKind_Entity_def mask_sets)
qed

lemma entry_update_tracks:
  assumes "relational (txDB t)" "tracks us ts up T (txDB t) r" "columnEnv us ts date e" "uuidText us up"
    and f: "findRow bID i (dbBudgets (txDB t)) = Some old" "bDeletedAt old = None" "bTripID old = T"
    and b: "b = (inputEntry inp T i)\<lparr>bCreatedBy := bCreatedBy old, bCreatedAt := bCreatedAt old, bVersion := v\<rparr>"
    and save: "BudgetRepository_Save e b (txDB t) = Inr (row, db')" and p: "BudgetPayload (eText e) row (maskFor OpBudgetSet []) = Inr p"
  shows "\<exists>r'. tracks us ts up T (txDB (pushOp (loggedOp e T actorID OpBudgetSet (bID row) (maskFor OpBudgetSet []) p (t\<lparr>txDB := db'\<rparr>))
    (t\<lparr>txDB := db'\<rparr>))) r'"
proof -
  have us: "eText e = us" using assms(3) by (simp add: columnEnv_def)
  have i: "bID b = i" "bID old = i" using findRow_key [OF f(1)] by (simp_all add: b inputEntry_def)
  have "bVersion b \<noteq> 0" using BudgetRepository_Save_Inr [OF save] f(1) i by auto
  then have s: "row = (setBudget e b old)\<lparr>bSplits := bSplits row\<rparr>"
    "db' = (txDB t)\<lparr>dbBudgets := updRow bID i (\<lambda>_. row) (dbBudgets (txDB t))\<rparr>"
    using BudgetRepository_Save_Inr [OF save] i f(1) by auto
  have d: "distinct (map bID (dbBudgets (txDB t)))" using assms(1) by (simp add: relational_def)
  have kept: "bID row = i" "bTripID row = T" "bCreatedBy row = bCreatedBy old" "bDeletedAt row = None"
    by (subst s(1), simp add: setBudget_def f i)+
  have "BudgetValues us row = BudgetValues us old ++ (seen ts (BudgetValues us row) |` set (maskFor OpBudgetSet []))"
    by (rule overlay_values) (auto simp: values_dom(5) mask_sets BudgetValues_def kept(4) f(2))
  then show ?thesis
    using budget_tracks [OF assms(2,4) p [unfolded us] _ _ rowsOf_update [where key = bID and trip = bTripID and f = "\<lambda>_. row", OF d f(1,3)], where ?t1.0 = "t\<lparr>txDB := db'\<rparr>"]
      rowsOf_Some [where key = bID and trip = bTripID, OF d f(1,3)] kept s(2) f(3) i
    by (simp add: budgetShown_def OpKind_Entity_def mask_sets)
qed

lemma entry_delete_tracks:
  assumes "relational (txDB t)" "tracks us ts up T (txDB t) r" "columnEnv us ts date e" "uuidText us up"
    and f: "findRow bID i (dbBudgets (txDB t)) = Some row" and trip: "bTripID row = T"
    and p: "BudgetPayload (eText e) ((readEntry row)\<lparr>bDeletedAt := Some (eNow e), bUpdatedAt := eNow e, bVersion := bVersion row + 1\<rparr>)
       (maskFor OpBudgetDelete [FieldDeletedAt]) = Inr p"
  shows "\<exists>r'. tracks us ts up T (txDB (pushOp (loggedOp e T actorID OpBudgetDelete i (maskFor OpBudgetDelete [FieldDeletedAt]) p (budgetTable (updRow bID i (setBudgetDeleted e (eNow e))) t))
    (budgetTable (updRow bID i (setBudgetDeleted e (eNow e))) t))) r'"
proof -
  have us: "eText e = us" "eTimestamp e = ts" using assms(3) by (simp_all add: columnEnv_def)
  let ?y = "(readEntry row)\<lparr>bDeletedAt := Some (eNow e), bUpdatedAt := eNow e, bVersion := bVersion row + 1\<rparr>"
  let ?w = "setBudgetDeleted e (eNow e) row"
  have i: "bID row = i" using findRow_key [OF f] by simp
  have d: "distinct (map bID (dbBudgets (txDB t)))" using assms(1) by (simp add: relational_def)
  have kept: "bID ?w = i" "bTripID ?w = T" "bCreatedBy ?w = bCreatedBy row" "bVersion ?w = bVersion row + 1"
    by (simp_all add: setBudgetDeleted_def i trip)
  have "BudgetValues us ?w = BudgetValues us row ++ (seen ts (BudgetValues us ?y) |` set (maskFor OpBudgetDelete [FieldDeletedAt]))"
    by (rule overlay_values) (auto simp: mask_sets BudgetValues_def setBudgetDeleted_def us seen_time)
  then show ?thesis
    using budget_tracks [OF assms(2,4) p [unfolded us(1)] _ _ rowsOf_update [where key = bID and trip = bTripID and f = "setBudgetDeleted e (eNow e)", OF d f trip kept(1,2)],
        where ?t1.0 = "budgetTable (updRow bID i (setBudgetDeleted e (eNow e))) t"]
      rowsOf_Some [where key = bID and trip = bTripID, OF d f trip] kept i trip
    by (simp add: budgetTable_def budgetShown_def OpKind_Entity_def mask_sets)
qed

lemma step_tracks:
  assumes s: "planStep e T actorID t t'" and "relational (txDB t)" "tracks us ts up T (txDB t) r" "columnEnv us ts date e" "uuidText us up"
    and "datesStored date (txDB t)"
  shows "\<exists>r'. tracks us ts up T (txDB t') r'"
  using s
proof (cases rule: planStep.cases)
  case slotCreated
  then show ?thesis using slot_create_tracks [OF assms(3-5)] by metis
next
  case slotEdited
  then show ?thesis using slot_edit_tracks [OF assms(2-5)] by metis
next
  case slotMoved
  then show ?thesis using slot_move_tracks [OF assms(2-5)] by metis
next
  case slotSelected
  then show ?thesis using slot_select_tracks [OF assms(2-5)] by metis
next
  case slotStatusSet
  then show ?thesis using slot_status_tracks [OF assms(2-5)] by metis
next
  case slotDeleted
  then show ?thesis using slot_delete_tracks [OF assms(2-5)] by metis
next
  case dayCreated
  then show ?thesis using day_create_tracks [OF assms(3,5)] by metis
next
  case dayEdited
  then show ?thesis using day_edit_tracks [OF assms(2-6)] by metis
next
  case dayMoved
  then show ?thesis using day_move_tracks [OF assms(2-6)] by metis
next
  case dayDeleted
  then show ?thesis using day_delete_tracks [OF assms(2-5)] by metis
next
  case optionCreated
  then show ?thesis using option_create_tracks [OF assms(3-5)] by metis
next
  case optionEdited
  then show ?thesis using option_edit_tracks [OF assms(2-5)] by metis
next
  case optionDeleted
  then show ?thesis using option_delete_tracks [OF assms(2-5)] by metis
next
  case (firstVoteCast slotID row optionID p t1)
  show ?thesis unfolding firstVoteCast(8) firstVoteCast(7) by (rule vote_first_tracks [OF assms(3-5) firstVoteCast(3,5,6)])
next
  case (voteRecast slotID w row optionID p t1)
  show ?thesis unfolding voteRecast(7) voteRecast(6) by (rule vote_again_tracks [OF assms(2-5) voteRecast(1-3,5)])
next
  case commentCreated
  then show ?thesis using comment_create_tracks [OF assms(3-5)] by metis
next
  case commentDeleted
  then show ?thesis using comment_delete_tracks [OF assms(2-5)] by metis
next
  case entryCreated
  then show ?thesis using entry_create_tracks [OF assms(3-5)] by metis
next
  case entryUpdated
  then show ?thesis using entry_update_tracks [OF assms(2-5)] by metis
next
  case entryDeleted
  then show ?thesis using entry_delete_tracks [OF assms(2-5)] by metis
qed

text \<open>Dates of stored days stay what the column stores, and other trips stay as they were.\<close>

lemma step_dates:
  assumes "planStep e T actorID t t'" "columnEnv us ts date e" "datesStored date (txDB t)"
  shows "datesStored date (txDB t')"
proof -
  have idem: "eDate e = date" "\<And>t. date (date t) = date t" using assms(2) by (simp_all add: columnEnv_def)
  have again: "map_option date (map_option date x) = map_option date x" for x by (cases x) (simp_all add: idem)
  show ?thesis
    using assms(1)
  proof (cases rule: planStep.cases)
    case (entryCreated b inp row db' p t1)
    then have "dbDays db' = dbDays (txDB t)" using BudgetRepository_Save_Inr [OF entryCreated(3)] by auto
    then show ?thesis using entryCreated assms(3) by (simp add: datesStored_def)
  next
    case (entryUpdated i old b inp v row db' p t1)
    then have "dbDays db' = dbDays (txDB t)" using BudgetRepository_Save_Inr [OF entryUpdated(6)] by (auto split: if_splits)
    then show ?thesis using entryUpdated assms(3) by (simp add: datesStored_def)
  qed (use assms(3) in \<open>auto simp: datesStored_def slotWrite_def dayWrite_def optionWrite_def slotTable_def dayTable_def optionTable_def
    voteTable_def commentTable_def budgetTable_def updRow_def newDayRow_def setDay_def setDayDeleted_def again idem\<close>)
qed

definition mirrored :: "(ID \<Rightarrow> str) \<Rightarrow> (instant \<Rightarrow> instant) \<Rightarrow> (str \<Rightarrow> ID option) \<Rightarrow> (instant \<Rightarrow> instant) \<Rightarrow> DB \<Rightarrow> bool" where
  "mirrored us ts up date db \<longleftrightarrow> datesStored date db \<and> (\<forall>T. \<exists>r. tracks us ts up T db r)"

lemma step_mirrored:
  assumes "columnEnv us ts date e" "relational (txDB t)" "planStep e T actorID t t'" "mirrored us ts up date (txDB t)" "uuidText us up"
  shows "mirrored us ts up date (txDB t')"
proof -
  have m: "datesStored date (txDB t)" "\<And>T. \<exists>r. tracks us ts up T (txDB t) r" using assms(4) by (simp_all add: mirrored_def)
  have "\<exists>r. tracks us ts up other (txDB t') r" for other
  proof (cases "other = T")
    case True
    then show ?thesis using step_tracks [OF assms(3,2) _ assms(1,5) m(1)] m(2) by metis
  next
    case False
    have v: "tripView other (txDB t') = tripView other (txDB t)" by (rule step_foreign [OF assms(3,2) False])
    then show ?thesis using m(2) [of other] tracks_view [OF v] by blast
  qed
  then show ?thesis using step_dates [OF assms(3,1) m(1)] by (simp add: mirrored_def)
qed

lemma empty_tracks:
  assumes "emptyPlan db"
  shows "tracks us ts up T db NewReplica"
  using assms by (simp add: tracks_def confused_def emptyPlan_def tripLog_def Fold_def NewReplica_def replicaShown_def databaseShown_def
      rowsOf_def findRow_def shownTable_def [abs_def])

lemma reachable_mirrored:
  assumes "reachable (columnEnv us ts date) db" "uuidText us up"
  shows "mirrored us ts up date db"
  using assms(1)
proof (rule reachable_invariant)
  show "mirrored us ts up date db" if "emptyPlan db" for db
    using that empty_tracks [OF that, of us ts up] by (auto simp: mirrored_def datesStored_def emptyPlan_def)
  show "mirrored us ts up date (db\<lparr>dbTrips := trips, dbMembers := ms, dbInvitations := is\<rparr>)" if "mirrored us ts up date db" for db trips ms "is"
    using that by (simp add: mirrored_def datesStored_def tracks_def databaseShown_def tripLog_def confused_def)
qed (use step_mirrored assms(2) in blast)


text \<open>A clock finer than the column: every sample instant is odd, the column stores even ones.\<close>

definition coarse :: "instant \<Rightarrow> instant" where "coarse t = 2 * (t div 2)"

definition coarseEnv :: "nat \<Rightarrow> Env" where
  "coarseEnv n = (laterEnv n)\<lparr>eNow := 101, eTimestamp := coarse\<rparr>"

lemma coarseEnv_columns: "columnEnv unaryText coarse (\<lambda>t. t) (coarseEnv n)"
  by (simp add: columnEnv_def coarseEnv_def laterEnv_def sampleEnv_def)

definition sampleGone :: DB where
  "sampleGone = fst (snd (serve (coarseEnv 3) 1 3 (DeleteDay 5 None) (fst (snd (serve (coarseEnv 2) 1 3 (CreateDay sampleDayInput) sampleDB)))))"

lemma sampleGone_reachable: "reachable (columnEnv unaryText coarse (\<lambda>t. t)) sampleGone"
  unfolding sampleGone_def by (intro reachable_serve sample_reachable coarseEnv_columns)

lemma sampleGone_row: "map (\<lambda>d. (dID d, dDeletedAt d)) (dbDays sampleGone) = [(5, Some 100)]"
  by code_simp

lemma sampleEnv_columns: "columnEnv unaryText (\<lambda>t. t) (\<lambda>t. t) sampleEnv"
  by (simp add: columnEnv_def sampleEnv_def)


end
