(* ===== verification/Room.thy ===== *)
theory Room
  imports System "HOL-Library.AList"
begin

text \<open>The delivery of committed operations to the subscribers of one trip on one instance
  (src/internal/syncengine: broker.go, room.go, gate.go): the dispatcher that puts operations in
  sequence order and repairs holes from the log, the subscribers of the room, and the gate that holds
  live events back while a subscriber replays the log.

  Every step of the dispatcher, a delivery and a call of the broker is one function on the room. Which
  sinks accept an event, which operations arrive and whether a read of the database fails come from
  outside; timers are events that may fire while they are armed.\<close>

section \<open>The dispatcher\<close>

type_synonym Pending = "(int \<times> Op) list"

text \<open>\<^theory_text>\<open>drain\<close>: the operations that are contiguous now, in order, with the position after them.\<close>

function drain :: "int \<Rightarrow> Pending \<Rightarrow> int \<times> Pending \<times> Op list" where
  "drain next_seq pending =
     (case map_of pending next_seq of
        None \<Rightarrow> (next_seq, pending, [])
      | Some op \<Rightarrow>
          (case drain (next_seq + 1) (AList.delete next_seq pending) of (n, p, out) \<Rightarrow> (n, p, op # out)))"
  by pat_completeness auto

lemma delete_shorter: "map_of p k = Some v \<Longrightarrow> length (AList.delete k p) < length p"
  by (induction p) (auto simp: AList.delete_eq less_Suc_eq_le split: if_splits)

termination drain
  by (relation "measure (\<lambda>(_, p). length p)") (auto intro: delete_shorter)

declare drain.simps [simp del]

record Dispatcher =
  dpNext :: int
  dpPending :: Pending
  dpGapArmed :: bool

definition newDispatcher :: "int \<Rightarrow> Dispatcher" where
  "newDispatcher next_seq = \<lparr>dpNext = next_seq, dpPending = [], dpGapArmed = False\<rparr>"

definition arm :: "Dispatcher \<Rightarrow> Dispatcher" where
  "arm d = (if dpPending d = [] \<or> dpGapArmed d then d else d\<lparr>dpGapArmed := True\<rparr>)"

definition disarm :: "Dispatcher \<Rightarrow> Dispatcher" where
  "disarm d = d\<lparr>dpGapArmed := False\<rparr>"

definition drained :: "Pending \<Rightarrow> Dispatcher \<Rightarrow> Dispatcher \<times> Op list" where
  "drained pending d =
     (case drain (dpNext d) pending of (n, p, out) \<Rightarrow> (d\<lparr>dpNext := n, dpPending := p\<rparr>, out))"

definition room_receive :: "Op \<Rightarrow> Dispatcher \<Rightarrow> Dispatcher \<times> Op list" where
  "room_receive op d =
     (let (d, out) = (if opSeq op \<ge> dpNext d then drained (AList.update (opSeq op) op (dpPending d)) d else (d, []))
      in (if dpPending d = [] then disarm d else arm d, out))"

definition addMissing :: "int \<Rightarrow> Op list \<Rightarrow> Pending \<Rightarrow> Pending" where
  "addMissing next_seq ops pending =
     fold (\<lambda>op p. if opSeq op \<ge> next_seq then AList.update (opSeq op) op p else p) ops pending"

text \<open>\<^theory_text>\<open>fill\<close> with what \<^theory_text>\<open>ListSince\<close> answered: \<^theory_text>\<open>None\<close> when the read failed.\<close>

definition room_fill :: "Op list option \<Rightarrow> bool \<Rightarrow> Dispatcher \<Rightarrow> Dispatcher \<times> Op list" where
  "room_fill found force d =
     (if dpPending d = [] \<and> \<not> force then (d, [])
      else case found of
        None \<Rightarrow> (d, [])
      | Some ops \<Rightarrow> drained (addMissing (dpNext d) ops (dpPending d)) d)"

definition room_reconcile :: "int option \<Rightarrow> Op list option \<Rightarrow> Dispatcher \<Rightarrow> Dispatcher \<times> Op list" where
  "room_reconcile head found d =
     (case head of
        None \<Rightarrow> (d, [])
      | Some h \<Rightarrow> if h < dpNext d \<and> dpPending d = [] then (d, []) else room_fill found True d)"

text \<open>One turn of the loop of \<^theory_text>\<open>dispatch\<close>: an operation from the inbox, the reorder timer, or the reconcile
  tick; the flags say whether the database answers.\<close>

datatype Turn = Received Op | GapTimer bool | Tick bool bool

definition readLog :: "ID \<Rightarrow> DB \<Rightarrow> bool \<Rightarrow> Dispatcher \<Rightarrow> Op list option" where
  "readLog tripID db ok d = (if ok then Some (OpLogRepository_ListSince tripID (dpNext d - 1) 0 db) else None)"

definition readHead :: "ID \<Rightarrow> DB \<Rightarrow> bool \<Rightarrow> int option" where
  "readHead tripID db ok =
     (if ok then (case CurrentOpSeq tripID db of Inr h \<Rightarrow> Some h | Inl _ \<Rightarrow> None) else None)"

definition dispatch_turn :: "ID \<Rightarrow> DB \<Rightarrow> Turn \<Rightarrow> Dispatcher \<Rightarrow> Dispatcher \<times> Op list" where
  "dispatch_turn tripID db t d = (case t of
       Received op \<Rightarrow> room_receive op d
     | GapTimer ok \<Rightarrow>
         if \<not> dpGapArmed d then (d, [])
         else (case room_fill (readLog tripID db ok d) False (disarm d) of (d', out) \<Rightarrow> (arm d', out))
     | Tick ok ok' \<Rightarrow>
         (case room_reconcile (readHead tripID db ok) (readLog tripID db ok' d) d of (d', out) \<Rightarrow> (arm d', out)))"

section \<open>Subscribers and their gates\<close>

datatype Event = EventOp Op | EventPresence ID ID bool

text \<open>A subscription: its user and connection, the gate (open or not, with its buffer), what its sink
  took, where it resumes from and how far its replay has read, and whether the server gave up on it: a sink that refused an event
  is told to resync and its subscription is closed by a goroutine of its own, some time later.\<close>

record Subscription =
  sbUserID :: ID
  sbConnID :: ID
  sbOpen :: bool
  sbBuf :: "Event list"
  sbSink :: "Event list"
  sbFrom :: int
  sbCursor :: int
  sbDelivered :: nat
  sbReplayed :: bool
  sbGivenUp :: bool

definition gateBuffer :: nat where "gateBuffer = 1024"

text \<open>\<^theory_text>\<open>accept\<close> says whether the sink takes the event.\<close>

definition gate_Deliver :: "bool \<Rightarrow> Event \<Rightarrow> Subscription \<Rightarrow> bool \<times> Subscription" where
  "gate_Deliver accept ev s =
     (if sbOpen s then (if accept then (True, s\<lparr>sbSink := sbSink s @ [ev]\<rparr>) else (False, s))
      else if length (sbBuf s) \<ge> gateBuffer then (False, s)
      else (True, s\<lparr>sbBuf := sbBuf s @ [ev]\<rparr>))"

definition deliverTo :: "(ID \<Rightarrow> Event \<Rightarrow> bool) \<Rightarrow> Event \<Rightarrow> Subscription \<Rightarrow> Subscription" where
  "deliverTo accept ev s =
     (case gate_Deliver (accept (sbConnID s) ev) ev s of (ok, s') \<Rightarrow> if ok then s' else s'\<lparr>sbGivenUp := True\<rparr>)"

definition broadcast :: "(ID \<Rightarrow> Event \<Rightarrow> bool) \<Rightarrow> Event \<Rightarrow> Subscription list \<Rightarrow> Subscription list" where
  "broadcast accept ev subs = map (deliverTo accept ev) subs"

definition broadcastOps :: "(ID \<Rightarrow> Event \<Rightarrow> bool) \<Rightarrow> Op list \<Rightarrow> Subscription list \<Rightarrow> Subscription list" where
  "broadcastOps accept ops subs = fold (\<lambda>op. broadcast accept (EventOp op)) ops subs"

text \<open>\<^theory_text>\<open>release\<close>: everything buffered goes to the sink, past the events it refuses, and the gate opens.\<close>

definition gate_release :: "(ID \<Rightarrow> Event \<Rightarrow> bool) \<Rightarrow> Subscription \<Rightarrow> Subscription" where
  "gate_release accept s =
     (if sbOpen s then s
      else s\<lparr>sbSink := sbSink s @ filter (accept (sbConnID s)) (sbBuf s), sbBuf := [], sbOpen := True,
             sbGivenUp := (sbGivenUp s \<or> \<not> list_all (accept (sbConnID s)) (sbBuf s))\<rparr>)"

text \<open>One round of the loop of \<^theory_text>\<open>replayFrom\<close>: a page of the log, delivered with backpressure. The read may
  fail, the sink may stop taking operations (after the first \<^theory_text>\<open>took\<close>), and a replay that delivered more
  than \<^theory_text>\<open>maxResyncOps\<close> operations is broken off; the client is then told to resync. A short page is the last.\<close>

definition resyncPage :: int where "resyncPage = 1000"

definition replay_page :: "nat \<Rightarrow> ID \<Rightarrow> DB \<Rightarrow> bool \<Rightarrow> nat \<Rightarrow> Subscription \<Rightarrow> Subscription" where
  "replay_page maxResyncOps tripID db ok took s =
     (if \<not> ok then s\<lparr>sbGivenUp := True\<rparr>
      else
        let ops = OpLogRepository_ListSince tripID (sbCursor s) resyncPage db;
            got = take (min took (Suc maxResyncOps - sbDelivered s)) ops;
            n = sbDelivered s + length got in
        s\<lparr>sbSink := sbSink s @ map EventOp got,
          sbCursor := (if got = [] then sbCursor s else opSeq (last got)),
          sbDelivered := n,
          sbReplayed := (int (length ops) < resyncPage),
          sbGivenUp := (sbGivenUp s \<or> length got < length ops \<or> n > maxResyncOps)\<rparr>)"

section \<open>Rooms\<close>

definition roomInbox :: nat where "roomInbox = 512"

record Room =
  rmDispatcher :: Dispatcher
  rmInbox :: "Op list"
  rmSubs :: "Subscription list"

definition newRoom :: "int \<Rightarrow> Room" where
  "newRoom next_seq = \<lparr>rmDispatcher = newDispatcher next_seq, rmInbox = [], rmSubs = []\<rparr>"

text \<open>\<^theory_text>\<open>enqueue\<close> never blocks: without a room there is nobody, and a full inbox drops the operation.\<close>

definition Broker_enqueue :: "Op \<Rightarrow> Room option \<Rightarrow> Room option" where
  "Broker_enqueue op r =
     map_option (\<lambda>r. if length (rmInbox r) < roomInbox then r\<lparr>rmInbox := rmInbox r @ [op]\<rparr> else r) r"

definition Broker_Publish :: "Op list \<Rightarrow> Room option \<Rightarrow> Room option" where
  "Broker_Publish ops r = fold Broker_enqueue ops r"

definition newSubscription :: "ID \<Rightarrow> ID \<Rightarrow> int \<Rightarrow> Subscription" where
  "newSubscription userID connID from = \<lparr>sbUserID = userID, sbConnID = connID, sbOpen = False, sbBuf = [], sbSink = [],
     sbFrom = from, sbCursor = from, sbDelivered = 0, sbReplayed = False, sbGivenUp = False\<rparr>"

definition Broker_Subscribe ::
  "(ID \<Rightarrow> Event \<Rightarrow> bool) \<Rightarrow> ID \<Rightarrow> ID \<Rightarrow> int \<Rightarrow> int \<Rightarrow> Room option \<Rightarrow> Room" where
  "Broker_Subscribe accept userID connID headSeq from r =
     (let r = (case r of None \<Rightarrow> newRoom (headSeq + 1) | Some r \<Rightarrow> r);
          r = r\<lparr>rmSubs := rmSubs r @ [newSubscription userID connID from]\<rparr> in
      r\<lparr>rmSubs := broadcast accept (EventPresence userID connID True) (rmSubs r)\<rparr>)"

definition Broker_Presence :: "Room option \<Rightarrow> (ID \<times> ID) list" where
  "Broker_Presence r = (case r of None \<Rightarrow> [] | Some r \<Rightarrow> map (\<lambda>s. (sbUserID s, sbConnID s)) (rmSubs r))"

text \<open>\<^theory_text>\<open>remove\<close> of the \<^theory_text>\<open>i\<close>th subscription: an empty room goes away, its dispatcher with it.\<close>

definition Broker_remove :: "(ID \<Rightarrow> Event \<Rightarrow> bool) \<Rightarrow> nat \<Rightarrow> Room \<Rightarrow> Room option" where
  "Broker_remove accept i r =
     (let s = rmSubs r ! i; subs = take i (rmSubs r) @ drop (Suc i) (rmSubs r) in
      if subs = [] then None
      else Some (r\<lparr>rmSubs := broadcast accept (EventPresence (sbUserID s) (sbConnID s) False) subs\<rparr>))"

definition room_turn :: "(ID \<Rightarrow> Event \<Rightarrow> bool) \<Rightarrow> ID \<Rightarrow> DB \<Rightarrow> Turn \<Rightarrow> Room \<Rightarrow> Room" where
  "room_turn accept tripID db t r =
     (case dispatch_turn tripID db t (rmDispatcher r) of
        (d, out) \<Rightarrow> r\<lparr>rmDispatcher := d, rmSubs := broadcastOps accept out (rmSubs r)\<rparr>)"

section \<open>Intervals of the log\<close>

definition opAt :: "ID \<Rightarrow> DB \<Rightarrow> int \<Rightarrow> Op" where
  "opAt tripID db i = tripLog tripID db ! nat (i - 1)"

definition opsIn :: "ID \<Rightarrow> DB \<Rightarrow> int \<Rightarrow> int \<Rightarrow> Op list" where
  "opsIn tripID db a b = map (opAt tripID db) [a + 1 .. b]"

lemma opSeq_opAt:
  assumes "gapless db" "1 \<le> i" "i \<le> dbOpSeq db tripID"
  shows "opSeq (opAt tripID db i) = i"
proof -
  have l: "length (tripLog tripID db) = nat (dbOpSeq db tripID)"
    using tripLog_length [OF assms(1), of tripID] by simp
  then have "opSeq (opAt tripID db i) = map opSeq (tripLog tripID db) ! nat (i - 1)"
    using assms(2,3) by (simp add: opAt_def nth_map)
  also have "\<dots> = [1 .. dbOpSeq db tripID] ! nat (i - 1)" using assms(1) by (simp add: gapless_def)
  also have "\<dots> = i" using assms(2,3) by (simp add: nth_upto)
  finally show ?thesis .
qed

lemma take_drop_interval:
  assumes "length xs = nat N" "0 \<le> a" "a \<le> N" "0 \<le> n"
  shows "take (nat n) (drop (nat a) xs) = map (\<lambda>i. xs ! nat (i - 1)) [a + 1 .. min N (a + n)]"
proof (rule nth_equalityI)
  show len: "length (take (nat n) (drop (nat a) xs)) = length (map (\<lambda>i. xs ! nat (i - 1)) [a + 1 .. min N (a + n)])"
    using assms by simp
  fix i assume il: "i < length (take (nat n) (drop (nat a) xs))"
  then have "i < length (map (\<lambda>i. xs ! nat (i - 1)) [a + 1 .. min N (a + n)])" by (simp only: len)
  with il have i: "i < nat n" "i < length (drop (nat a) xs)" "i < length [a + 1 .. min N (a + n)]"
    by simp_all
  have r: "a + 1 + int i \<le> min N (a + n)"
    using i assms by (simp add: zless_nat_eq_int_zless)
  have "nat (a + 1 + int i - 1) = nat a + i" using assms(2) by (simp add: nat_add_distrib)
  then show "take (nat n) (drop (nat a) xs) ! i = map (\<lambda>i. xs ! nat (i - 1)) [a + 1 .. min N (a + n)] ! i"
    using i r assms(1,2,3) by (simp only: nth_map nth_upto nth_take) (auto simp: add.commute intro!: nth_drop [THEN trans] nat_mono)
qed

lemma ListSince_opsIn:
  assumes "gapless db" "0 \<le> a" "a \<le> dbOpSeq db tripID"
  shows "OpLogRepository_ListSince tripID a limit db =
    opsIn tripID db a (min (dbOpSeq db tripID) (a + (if limit \<le> 0 \<or> limit > 1000 then 1000 else limit)))"
  unfolding ListSince_gapless [OF assms(1,2)] opsIn_def opAt_def
  using tripLog_length [OF assms(1), of tripID] assms(2,3) by (intro take_drop_interval) auto

end
