(* ===== verification/Engine.thy ===== *)
theory Engine
  imports Room MembershipService
begin

text \<open>The sync engine (src/internal/syncengine: engine.go, dispatch.go): what a client submits becomes the
  arguments of one service method, at most once; a subscription is authorized and told where it starts.

  The values of an intent are the JSON value the frame carries, numbers as their literals; an object
  that names a field twice, whose members \<^theory_text>\<open>encoding/json\<close> merges, is outside the model. The parsers of
  identifiers, times and floating point literals are parameters.\<close>

section \<open>Intents and their values\<close>

datatype raw =
    RawNull
  | RawBool bool
  | RawNum str
  | RawStr str
  | RawArr "raw list"
  | RawObj "(str \<times> raw) list"

record Wire =
  wUUID :: "str \<Rightarrow> ID option"
  wTime :: "str \<Rightarrow> instant option"
  wFloat :: "str \<Rightarrow> rat option"

record Intent =
  inTripID :: ID
  inActorID :: ID
  inClientOpID :: ID
  inKind :: OpKind
  inEntityID :: ID
  inFields :: FieldMask
  inValues :: "raw option"

record intentValues =
  ivKind :: "str option"
  ivTitle :: "str option"
  ivNotes :: "str option"
  ivDayID :: "str option"
  ivStartTime :: "str option"
  ivEndTime :: "str option"
  ivStatus :: "str option"
  ivSelectedOptionID :: "str option"
  ivSlotID :: "str option"
  ivOptionID :: "str option"
  ivExternalURL :: "str option"
  ivEstimatedCostMinor :: "int64 option"
  ivPlaceName :: "str option"
  ivPlaceAddress :: "str option"
  ivPlaceLat :: "rat option"
  ivPlaceLng :: "rat option"
  ivPlaceProviderID :: "str option"
  ivDate :: "instant option"
  ivLabel :: "str option"
  ivBody :: "str option"
  ivCategory :: "str option"
  ivAmountMinor :: "int64 option"
  ivSlotOptionID :: "str option"
  ivPaidBy :: "str option"
  ivIncurredOn :: "instant option"
  ivSplits :: "SplitValue list option"
  ivAfterID :: "str option"
  ivVersion :: "int option"

definition zeroValues :: intentValues where
  "zeroValues = \<lparr>ivKind = None, ivTitle = None, ivNotes = None, ivDayID = None, ivStartTime = None, ivEndTime = None,
    ivStatus = None, ivSelectedOptionID = None, ivSlotID = None, ivOptionID = None, ivExternalURL = None,
    ivEstimatedCostMinor = None, ivPlaceName = None, ivPlaceAddress = None, ivPlaceLat = None, ivPlaceLng =
    None, ivPlaceProviderID = None, ivDate = None, ivLabel = None, ivBody = None, ivCategory = None,
    ivAmountMinor = None, ivSlotOptionID = None, ivPaidBy = None, ivIncurredOn = None, ivSplits = None,
    ivAfterID = None, ivVersion = None\<rparr>"

text \<open>Field names match regardless of case, which for the letters of these names is ASCII case and the
  two other code points that fold to a letter: the Kelvin sign (three bytes) and the long s (two).\<close>

fun foldName :: "str \<Rightarrow> str" where
  "foldName (a # b # c # cs) =
     (if byte a = 0xE2 \<and> byte b = 0x84 \<and> byte c = 0xAA then CHR ''k'' # foldName cs
      else if byte a = 0xC5 \<and> byte b = 0xBF then CHR ''s'' # foldName (c # cs)
      else hd (ToLowerASCII [a]) # foldName (b # c # cs))"
| "foldName [a, b] = (if byte a = 0xC5 \<and> byte b = 0xBF then ''s'' else ToLowerASCII [a, b])"
| "foldName cs = ToLowerASCII cs"

definition errMalformed :: error where
  "errMalformed = ValidationError (Add ''values'' ''malformed'' [])"

text \<open>\<^theory_text>\<open>strconv.ParseInt\<close> on the literal of a JSON number, for a signed type of 64 bits.\<close>

definition parseDigits :: "str \<Rightarrow> int option" where
  "parseDigits ds = (if ds \<noteq> [] \<and> list_all isDecDigit ds then Some (foldl (\<lambda>n c. 10 * n + decVal c) 0 ds) else None)"

definition parseInt64 :: "str \<Rightarrow> int option" where
  "parseInt64 s =
     (case (case s of [] \<Rightarrow> None | c # ds \<Rightarrow> if byte c = 45 then map_option uminus (parseDigits ds) else parseDigits s) of
        None \<Rightarrow> None
      | Some n \<Rightarrow> if - (2 ^ 63) \<le> n \<and> n < 2 ^ 63 then Some n else None)"

definition fromOption :: "'a option \<Rightarrow> 'a res" where
  "fromOption x = (case x of None \<Rightarrow> Inl errMalformed | Some y \<Rightarrow> Inr y)"

definition rawText :: "raw \<Rightarrow> str res" where
  "rawText r = (case r of RawStr s \<Rightarrow> Inr s | _ \<Rightarrow> Inl errMalformed)"

definition rawInt :: "raw \<Rightarrow> int res" where
  "rawInt r = (case r of RawNum s \<Rightarrow> fromOption (parseInt64 s) | _ \<Rightarrow> Inl errMalformed)"

definition rawInt64 :: "raw \<Rightarrow> int64 res" where
  "rawInt64 r = bindR (rawInt r) (\<lambda>n. Inr (word_of_int n))"

definition rawFloat :: "Wire \<Rightarrow> raw \<Rightarrow> rat res" where
  "rawFloat w r = (case r of RawNum s \<Rightarrow> fromOption (wFloat w s) | _ \<Rightarrow> Inl errMalformed)"

definition rawTime :: "Wire \<Rightarrow> raw \<Rightarrow> instant res" where
  "rawTime w r = (case r of RawStr s \<Rightarrow> fromOption (wTime w s) | _ \<Rightarrow> Inl errMalformed)"

text \<open>\<^theory_text>\<open>null\<close> clears a pointer and leaves anything else as it is.\<close>

definition nullable :: "(raw \<Rightarrow> 'a res) \<Rightarrow> raw \<Rightarrow> 'a option res" where
  "nullable dec r = (case r of RawNull \<Rightarrow> Inr None | _ \<Rightarrow> bindR (dec r) (\<lambda>x. Inr (Some x)))"

definition rawSplitMember :: "str \<Rightarrow> raw \<Rightarrow> SplitValue \<Rightarrow> SplitValue res" where
  "rawSplitMember key r sv =
     (if foldName key = ''user_id'' then bindR (nullable rawText r) (\<lambda>x. Inr (case x of None \<Rightarrow> sv | Some s \<Rightarrow> (s, snd sv)))
      else if foldName key = ''amount_minor'' then bindR (nullable rawInt64 r) (\<lambda>x. Inr (case x of None \<Rightarrow> sv | Some n \<Rightarrow> (fst sv, n)))
      else Inl errMalformed)"

fun foldR :: "('a \<Rightarrow> 'b \<Rightarrow> 'b res) \<Rightarrow> 'a list \<Rightarrow> 'b \<Rightarrow> 'b res" where
  "foldR f [] v = Inr v"
| "foldR f (x # xs) v = bindR (f x v) (foldR f xs)"

definition rawSplit :: "raw \<Rightarrow> SplitValue res" where
  "rawSplit r =
     (case r of
        RawNull \<Rightarrow> Inr ([], 0)
      | RawObj kvs \<Rightarrow> foldR (\<lambda>(k, r). rawSplitMember k r) kvs ([], 0)
      | _ \<Rightarrow> Inl errMalformed)"

definition rawSplits :: "raw \<Rightarrow> SplitValue list res" where
  "rawSplits r = (case r of RawArr rs \<Rightarrow> mapR rawSplit rs | _ \<Rightarrow> Inl errMalformed)"

definition decodeMember :: "Wire \<Rightarrow> str \<Rightarrow> raw \<Rightarrow> intentValues \<Rightarrow> intentValues res" where
  "decodeMember w key raw v =
     (if foldName key = ''kind'' then bindR (nullable rawText raw) (\<lambda>x. Inr (v\<lparr>ivKind := x\<rparr>))
      else if foldName key = ''title'' then bindR (nullable rawText raw) (\<lambda>x. Inr (v\<lparr>ivTitle := x\<rparr>))
      else if foldName key = ''notes'' then bindR (nullable rawText raw) (\<lambda>x. Inr (v\<lparr>ivNotes := x\<rparr>))
      else if foldName key = ''day_id'' then bindR (nullable rawText raw) (\<lambda>x. Inr (v\<lparr>ivDayID := x\<rparr>))
      else if foldName key = ''start_time'' then bindR (nullable rawText raw) (\<lambda>x. Inr (v\<lparr>ivStartTime := x\<rparr>))
      else if foldName key = ''end_time'' then bindR (nullable rawText raw) (\<lambda>x. Inr (v\<lparr>ivEndTime := x\<rparr>))
      else if foldName key = ''status'' then bindR (nullable rawText raw) (\<lambda>x. Inr (v\<lparr>ivStatus := x\<rparr>))
      else if foldName key = ''selected_option_id'' then bindR (nullable rawText raw) (\<lambda>x. Inr (v\<lparr>ivSelectedOptionID := x\<rparr>))
      else if foldName key = ''slot_id'' then bindR (nullable rawText raw) (\<lambda>x. Inr (v\<lparr>ivSlotID := x\<rparr>))
      else if foldName key = ''option_id'' then bindR (nullable rawText raw) (\<lambda>x. Inr (v\<lparr>ivOptionID := x\<rparr>))
      else if foldName key = ''external_url'' then bindR (nullable rawText raw) (\<lambda>x. Inr (v\<lparr>ivExternalURL := x\<rparr>))
      else if foldName key = ''estimated_cost_minor'' then bindR (nullable rawInt64 raw) (\<lambda>x. Inr (v\<lparr>ivEstimatedCostMinor := x\<rparr>))
      else if foldName key = ''place_name'' then bindR (nullable rawText raw) (\<lambda>x. Inr (v\<lparr>ivPlaceName := x\<rparr>))
      else if foldName key = ''place_address'' then bindR (nullable rawText raw) (\<lambda>x. Inr (v\<lparr>ivPlaceAddress := x\<rparr>))
      else if foldName key = ''place_lat'' then bindR (nullable (rawFloat w) raw) (\<lambda>x. Inr (v\<lparr>ivPlaceLat := x\<rparr>))
      else if foldName key = ''place_lng'' then bindR (nullable (rawFloat w) raw) (\<lambda>x. Inr (v\<lparr>ivPlaceLng := x\<rparr>))
      else if foldName key = ''place_provider_id'' then bindR (nullable rawText raw) (\<lambda>x. Inr (v\<lparr>ivPlaceProviderID := x\<rparr>))
      else if foldName key = ''date'' then bindR (nullable (rawTime w) raw) (\<lambda>x. Inr (v\<lparr>ivDate := x\<rparr>))
      else if foldName key = ''label'' then bindR (nullable rawText raw) (\<lambda>x. Inr (v\<lparr>ivLabel := x\<rparr>))
      else if foldName key = ''body'' then bindR (nullable rawText raw) (\<lambda>x. Inr (v\<lparr>ivBody := x\<rparr>))
      else if foldName key = ''category'' then bindR (nullable rawText raw) (\<lambda>x. Inr (v\<lparr>ivCategory := x\<rparr>))
      else if foldName key = ''amount_minor'' then bindR (nullable rawInt64 raw) (\<lambda>x. Inr (v\<lparr>ivAmountMinor := x\<rparr>))
      else if foldName key = ''slot_option_id'' then bindR (nullable rawText raw) (\<lambda>x. Inr (v\<lparr>ivSlotOptionID := x\<rparr>))
      else if foldName key = ''paid_by'' then bindR (nullable rawText raw) (\<lambda>x. Inr (v\<lparr>ivPaidBy := x\<rparr>))
      else if foldName key = ''incurred_on'' then bindR (nullable (rawTime w) raw) (\<lambda>x. Inr (v\<lparr>ivIncurredOn := x\<rparr>))
      else if foldName key = ''splits'' then bindR (nullable rawSplits raw) (\<lambda>x. Inr (v\<lparr>ivSplits := x\<rparr>))
      else if foldName key = ''after_id'' then bindR (nullable rawText raw) (\<lambda>x. Inr (v\<lparr>ivAfterID := x\<rparr>))
      else if foldName key = ''version'' then bindR (nullable rawInt raw) (\<lambda>x. Inr (v\<lparr>ivVersion := x\<rparr>))
      else Inl errMalformed)"

definition Engine_decode :: "Wire \<Rightarrow> Intent \<Rightarrow> intentValues res" where
  "Engine_decode w i =
     (case inValues i of
        None \<Rightarrow> Inr zeroValues
      | Some RawNull \<Rightarrow> Inr zeroValues
      | Some (RawObj kvs) \<Rightarrow> foldR (\<lambda>(k, r). decodeMember w k r) kvs zeroValues
      | Some _ \<Rightarrow> Inl errMalformed)"

section \<open>From an intent to a request\<close>

definition parseOptionalID :: "Wire \<Rightarrow> str \<Rightarrow> str option \<Rightarrow> ID option res" where
  "parseOptionalID w field text =
     (case text of
        None \<Rightarrow> Inr None
      | Some s \<Rightarrow> if s = [] then Inr None else bindR (ParseID (wUUID w) field s) (\<lambda>i. Inr (Some i)))"

definition parseOptionalTimeOfDay :: "str \<Rightarrow> str option \<Rightarrow> TimeOfDay option res" where
  "parseOptionalTimeOfDay field text =
     (case text of
        None \<Rightarrow> Inr None
      | Some s \<Rightarrow>
          if s = [] then Inr None
          else (case ParseTimeOfDay s of
                  Inl _ \<Rightarrow> Inl (ValidationError (Add field ''invalid_time'' []))
                | Inr t \<Rightarrow> Inr (Some t)))"

definition deref :: "str option \<Rightarrow> str" where
  "deref p = (case p of None \<Rightarrow> [] | Some s \<Rightarrow> s)"

definition slotCreate :: "Wire \<Rightarrow> Intent \<Rightarrow> intentValues \<Rightarrow> Request res" where
  "slotCreate w i v =
     bindR (parseOptionalID w ''day_id'' (ivDayID v)) (\<lambda>dayID.
     bindR (parseOptionalID w ''after_id'' (ivAfterID v)) (\<lambda>afterID.
     bindR (parseOptionalTimeOfDay ''start_time'' (ivStartTime v)) (\<lambda>start.
     bindR (parseOptionalTimeOfDay ''end_time'' (ivEndTime v)) (\<lambda>finish.
       Inr (CreateSlot \<lparr>csDayID = dayID, csKind = deref (ivKind v), csTitle = deref (ivTitle v), csNotes = deref (ivNotes v),
         csStartTime = start, csEndTime = finish, csAfterSlotID = afterID, csID = inEntityID i\<rparr>)))))"

definition slotEdit :: "Intent \<Rightarrow> intentValues \<Rightarrow> Request res" where
  "slotEdit i v =
     bindR (parseOptionalTimeOfDay ''start_time'' (ivStartTime v)) (\<lambda>start.
     bindR (parseOptionalTimeOfDay ''end_time'' (ivEndTime v)) (\<lambda>finish.
       Inr (UpdateSlot (inEntityID i) \<lparr>usFields = inFields i, usKind = deref (ivKind v), usTitle = deref (ivTitle v),
         usNotes = deref (ivNotes v), usStartTime = start, usEndTime = finish, usVersion = ivVersion v\<rparr>)))"

definition slotMove :: "Wire \<Rightarrow> Intent \<Rightarrow> intentValues \<Rightarrow> Request res" where
  "slotMove w i v =
     bindR (parseOptionalID w ''day_id'' (ivDayID v)) (\<lambda>dayID.
     bindR (parseOptionalID w ''after_id'' (ivAfterID v)) (\<lambda>afterID.
       Inr (MoveSlot (inEntityID i) dayID afterID (ivVersion v))))"

definition slotSelectOption :: "Wire \<Rightarrow> Intent \<Rightarrow> intentValues \<Rightarrow> Request res" where
  "slotSelectOption w i v =
     bindR (parseOptionalID w ''selected_option_id'' (ivSelectedOptionID v)) (\<lambda>optionID.
       Inr (SelectOption (inEntityID i) optionID (ivVersion v)))"

definition slotSetStatus :: "Intent \<Rightarrow> intentValues \<Rightarrow> Request res" where
  "slotSetStatus i v = Inr (SetStatus (inEntityID i) (deref (ivStatus v)) (ivVersion v))"

text \<open>The parent slot, which creating an option or a comment and voting must name.\<close>

definition namedSlot :: "Wire \<Rightarrow> intentValues \<Rightarrow> ID res" where
  "namedSlot w v =
     bindR (parseOptionalID w ''slot_id'' (ivSlotID v)) (\<lambda>slotID.
       case slotID of None \<Rightarrow> Inl (ValidationError (Add ''slot_id'' ''required'' [])) | Some s \<Rightarrow> Inr s)"

definition valuesPlace :: "intentValues \<Rightarrow> Place" where
  "valuesPlace v = \<lparr>plName = deref (ivPlaceName v), plAddress = deref (ivPlaceAddress v), plLat = ivPlaceLat v,
     plLng = ivPlaceLng v, plProviderID = deref (ivPlaceProviderID v)\<rparr>"

definition optionCreate :: "Wire \<Rightarrow> Intent \<Rightarrow> intentValues \<Rightarrow> Request res" where
  "optionCreate w i v =
     bindR (namedSlot w v) (\<lambda>slotID.
       Inr (CreateOption slotID \<lparr>coTitle = deref (ivTitle v), coNotes = deref (ivNotes v), coExternalURL = deref (ivExternalURL v),
         coEstimatedCostMinor = ivEstimatedCostMinor v, coPlace = valuesPlace v, coID = inEntityID i\<rparr>))"

definition optionEdit :: "Intent \<Rightarrow> intentValues \<Rightarrow> Request res" where
  "optionEdit i v =
     Inr (UpdateOption (inEntityID i) \<lparr>uoFields = inFields i, uoTitle = deref (ivTitle v), uoNotes = deref (ivNotes v),
       uoExternalURL = deref (ivExternalURL v), uoEstimatedCostMinor = ivEstimatedCostMinor v, uoPlace = valuesPlace v,
       uoVersion = ivVersion v\<rparr>)"

definition commentCreate :: "Wire \<Rightarrow> Intent \<Rightarrow> intentValues \<Rightarrow> Request res" where
  "commentCreate w i v =
     bindR (namedSlot w v) (\<lambda>slotID. Inr (CreateComment slotID \<lparr>ccBody = deref (ivBody v), ccID = inEntityID i\<rparr>))"

definition voteSet :: "Wire \<Rightarrow> Intent \<Rightarrow> intentValues \<Rightarrow> Request res" where
  "voteSet w i v =
     bindR (namedSlot w v) (\<lambda>slotID.
     bindR (parseOptionalID w ''option_id'' (ivOptionID v)) (\<lambda>optionID. Inr (CastVote slotID optionID)))"

definition namedSplit :: "Wire \<Rightarrow> SplitValue \<Rightarrow> BudgetSplit res" where
  "namedSplit w sv =
     bindR (ParseID (wUUID w) ''splits.user_id'' (fst sv)) (\<lambda>userID.
       Inr \<lparr>bsID = NilID, bsUserID = userID, bsAmountMinor = snd sv, bsCreatedAt = zeroTime\<rparr>)"

definition budgetSet :: "Wire \<Rightarrow> Intent \<Rightarrow> intentValues \<Rightarrow> Request res" where
  "budgetSet w i v =
     bindR (parseOptionalID w ''slot_option_id'' (ivSlotOptionID v)) (\<lambda>optionID.
     bindR (parseOptionalID w ''paid_by'' (ivPaidBy v)) (\<lambda>paidBy.
     bindR (case ivSplits v of None \<Rightarrow> Inr [] | Some svs \<Rightarrow> mapR (namedSplit w) svs) (\<lambda>splits.
       let inp = \<lparr>biLabel = deref (ivLabel v), biCategory = deref (ivCategory v),
             biAmountMinor = (case ivAmountMinor v of None \<Rightarrow> 0 | Some n \<Rightarrow> n), biSlotOptionID = optionID, biPaidBy = paidBy,
             biIncurredOn = ivIncurredOn v, biSplits = splits, biID = inEntityID i, biVersion = ivVersion v\<rparr> in
       if ivVersion v = None then Inr (CreateEntry inp) else Inr (UpdateEntry (inEntityID i) inp))))"

definition dayCreate :: "Wire \<Rightarrow> Intent \<Rightarrow> intentValues \<Rightarrow> Request res" where
  "dayCreate w i v =
     bindR (parseOptionalID w ''after_id'' (ivAfterID v)) (\<lambda>afterID.
       Inr (CreateDay \<lparr>cdDate = ivDate v, cdLabel = deref (ivLabel v), cdAfterDayID = afterID, cdID = inEntityID i\<rparr>))"

definition dayEdit :: "Intent \<Rightarrow> intentValues \<Rightarrow> Request res" where
  "dayEdit i v = Inr (UpdateDay (inEntityID i) \<lparr>udFields = inFields i, udDate = ivDate v, udLabel = deref (ivLabel v),
     udVersion = ivVersion v\<rparr>)"

definition dayMove :: "Wire \<Rightarrow> Intent \<Rightarrow> intentValues \<Rightarrow> Request res" where
  "dayMove w i v = bindR (parseOptionalID w ''after_id'' (ivAfterID v)) (\<lambda>afterID.
     Inr (MoveDay (inEntityID i) afterID (ivVersion v)))"

definition requestOf :: "Wire \<Rightarrow> Intent \<Rightarrow> intentValues \<Rightarrow> Request res" where
  "requestOf w i v = (case inKind i of
       OpSlotCreate \<Rightarrow> slotCreate w i v
     | OpSlotEdit \<Rightarrow> slotEdit i v
     | OpSlotMove \<Rightarrow> slotMove w i v
     | OpSlotSelectOption \<Rightarrow> slotSelectOption w i v
     | OpSlotSetStatus \<Rightarrow> slotSetStatus i v
     | OpSlotDelete \<Rightarrow> Inr (DeleteSlot (inEntityID i) (ivVersion v))
     | OpOptionCreate \<Rightarrow> optionCreate w i v
     | OpOptionEdit \<Rightarrow> optionEdit i v
     | OpOptionDelete \<Rightarrow> Inr (DeleteOption (inEntityID i) (ivVersion v))
     | OpVoteSet \<Rightarrow> voteSet w i v
     | OpCommentCreate \<Rightarrow> commentCreate w i v
     | OpCommentDelete \<Rightarrow> Inr (DeleteComment (inEntityID i))
     | OpBudgetSet \<Rightarrow> budgetSet w i v
     | OpBudgetDelete \<Rightarrow> Inr (DeleteEntry (inEntityID i) (ivVersion v))
     | OpAttachmentAdd \<Rightarrow> Inl (ValidationError (Add ''kind'' ''rest_only'' []))
     | OpAttachmentRemove \<Rightarrow> Inl (ValidationError (Add ''kind'' ''rest_only'' []))
     | OpDayCreate \<Rightarrow> dayCreate w i v
     | OpDayEdit \<Rightarrow> dayEdit i v
     | OpDayMove \<Rightarrow> dayMove w i v
     | OpDayDelete \<Rightarrow> Inr (DeleteDay (inEntityID i) (ivVersion v))
     | UnknownKind _ \<Rightarrow> Inl (ValidationError (Add ''kind'' ''unsupported'' [])))"

definition Engine_dispatch :: "Wire \<Rightarrow> Env \<Rightarrow> Intent \<Rightarrow> DB \<Rightarrow> unit reply" where
  "Engine_dispatch w e i db =
     (case bindR (Engine_decode w i) (\<lambda>v. bindR (FieldMask_Validate (inFields i) (inKind i)) (\<lambda>_. requestOf w i v)) of
        Inl err \<Rightarrow> (Inl err, db, [])
      | Inr req \<Rightarrow> serve e (inTripID i) (inActorID i) req db)"

section \<open>Submission\<close>

definition Engine_replayed :: "Intent \<Rightarrow> DB \<Rightarrow> Op option res" where
  "Engine_replayed i db =
     (case OpLogRepository_FindByClientOpID (inTripID i) (inClientOpID i) db of
        Inr op \<Rightarrow> Inr (Some op)
      | Inl err \<Rightarrow> if err = ErrNotFound then Inr None else Inl err)"

text \<open>\<^theory_text>\<open>Submit\<close> in the two parts between which other requests may commit: the pre-check, which answers a
  replay at once, and the attempt with the lookup after it.\<close>

definition Submit_check :: "Intent \<Rightarrow> DB \<Rightarrow> Op option res" where
  "Submit_check i db =
     (if \<not> OpKind_Valid (inKind i) then Inl (ValidationError (Add ''kind'' ''unknown_kind'' []))
      else if inClientOpID i = NilID then Inl (ValidationError (Add ''client_op_id'' ''required'' []))
      else Engine_replayed i db)"

definition withOrigin :: "Intent \<Rightarrow> Env \<Rightarrow> Env" where
  "withOrigin i e = e\<lparr>eClientOpID := Some (inClientOpID i), eCauseOpID := Some (inClientOpID i)\<rparr>"

definition Submit_attempt :: "Wire \<Rightarrow> Env \<Rightarrow> Intent \<Rightarrow> DB \<Rightarrow> Op option reply" where
  "Submit_attempt w e i db =
     (case Engine_dispatch w (withOrigin i e) i db of
        (Inr _, db', ops) \<Rightarrow> (Inr None, db', ops)
      | (Inl err, db', ops) \<Rightarrow>
          (if err = ErrAlreadyExists
           then (case Engine_replayed i db' of Inr (Some op) \<Rightarrow> Inr (Some op) | _ \<Rightarrow> Inl err)
           else Inl err, db', ops))"

definition Engine_Submit :: "Wire \<Rightarrow> Env \<Rightarrow> Intent \<Rightarrow> DB \<Rightarrow> Op option reply" where
  "Engine_Submit w e i db =
     (case Submit_check i db of
        Inl err \<Rightarrow> (Inl err, db, [])
      | Inr (Some op) \<Rightarrow> (Inr (Some op), db, [])
      | Inr None \<Rightarrow> Submit_attempt w e i db)"

section \<open>Subscriptions\<close>

datatype SubscribeError = Refused error | ErrResyncRequired

text \<open>Where a subscription starts, and the head it read: without a position of its own at the head.\<close>

definition subscribeFrom :: "nat \<Rightarrow> ID \<Rightarrow> ID \<Rightarrow> int option \<Rightarrow> DB \<Rightarrow> SubscribeError + (int \<times> int)" where
  "subscribeFrom maxResyncOps tripID userID since db =
     (case bindR (TripService_Get tripID userID db) (\<lambda>_. CurrentOpSeq tripID db) of
        Inl err \<Rightarrow> Inl (Refused err)
      | Inr head \<Rightarrow>
          (case since of
             None \<Rightarrow> Inr (head, head)
           | Some n \<Rightarrow>
               if n < 0 then Inl (Refused (ValidationError (Add ''since_seq'' ''invalid'' [])))
               else if n > head then Inl ErrResyncRequired
               else if head - n > int maxResyncOps then Inl ErrResyncRequired
               else Inr (n, head)))"

text \<open>\<^theory_text>\<open>Subscribe\<close>: the database it reads may be an earlier one than the room it joins has seen.\<close>

definition Engine_Subscribe ::
  "nat \<Rightarrow> (ID \<Rightarrow> Event \<Rightarrow> bool) \<Rightarrow> ID \<Rightarrow> ID \<Rightarrow> ID \<Rightarrow> int option \<Rightarrow> DB \<Rightarrow> Room option \<Rightarrow>
   SubscribeError + (int \<times> (ID \<times> ID) list \<times> Room)"
where
  "Engine_Subscribe maxResyncOps accept tripID userID connID since db r =
     (case subscribeFrom maxResyncOps tripID userID since db of
        Inl err \<Rightarrow> Inl err
      | Inr (from, head) \<Rightarrow>
          let r' = Broker_Subscribe accept userID connID head from r in
          Inr (from, Broker_Presence (Some r'), r'))"

definition Engine_Presence :: "ID \<Rightarrow> ID \<Rightarrow> DB \<Rightarrow> Room option \<Rightarrow> (ID \<times> ID) list res" where
  "Engine_Presence tripID userID db r = bindR (TripService_Get tripID userID db) (\<lambda>_. Inr (Broker_Presence r))"

end
