(* ===== verification/Delivery.thy ===== *)
theory Delivery
  imports Engine
begin

text \<open>What the subscribers of a room receive, whatever arrives, gets lost, is reordered or repeated, and
  whenever timers fire: an unbroken stretch of the log, up to redelivery; and all of it, once a
  reconcile tick has run for every thousand operations missed.\<close>

section \<open>Runs of a room\<close>

text \<open>The room of one trip beside the database: requests commit at any time; any committed operation may
  arrive at any later time, any number of times or never; a subscriber is authorized and told
  where it starts on an earlier database (\<^theory_text>\<open>db0\<close>) than the one it joins on;
  the dispatcher turns, replays read pages, gates open and subscriptions close in any order.\<close>

inductive delivery :: "(Env \<Rightarrow> bool) \<Rightarrow> ID \<Rightarrow> DB \<Rightarrow> Room option \<Rightarrow> bool" for okEnv tripID where
  empty: "reachable okEnv db \<Longrightarrow> delivery okEnv tripID db None"
| wrote: "delivery okEnv tripID db r \<Longrightarrow> okEnv e \<Longrightarrow> serve e otherID userID req db = (res, db', ops) \<Longrightarrow>
    delivery okEnv tripID db' r"
| managed: "delivery okEnv tripID db r \<Longrightarrow> delivery okEnv tripID (db\<lparr>dbTrips := ts, dbMembers := ms, dbInvitations := is\<rparr>) r"
| heard: "delivery okEnv tripID db r \<Longrightarrow> op \<in> set (tripLog tripID db) \<Longrightarrow> delivery okEnv tripID db (Broker_enqueue op r)"
| joined: "delivery okEnv tripID db r \<Longrightarrow> subscribeFrom maxResyncOps tripID userID since db0 = Inr (from, head) \<Longrightarrow>
    0 \<le> dbOpSeq db0 tripID \<Longrightarrow> dbOpSeq db0 tripID \<le> dbOpSeq db tripID \<Longrightarrow>
    delivery okEnv tripID db (Some (Broker_Subscribe accept userID connID head from r))"
| received: "delivery okEnv tripID db (Some r) \<Longrightarrow> rmInbox r = op # rest \<Longrightarrow>
    delivery okEnv tripID db (Some (room_turn accept tripID db (Received op) (r\<lparr>rmInbox := rest\<rparr>)))"
| timed: "delivery okEnv tripID db (Some r) \<Longrightarrow> t = GapTimer ok \<or> t = Tick ok ok' \<Longrightarrow>
    delivery okEnv tripID db (Some (room_turn accept tripID db t r))"
| replayed: "delivery okEnv tripID db (Some r) \<Longrightarrow> i < length (rmSubs r) \<Longrightarrow> \<not> sbOpen (rmSubs r ! i) \<Longrightarrow>
    \<not> sbReplayed (rmSubs r ! i) \<Longrightarrow>
    delivery okEnv tripID db (Some (r\<lparr>rmSubs := (rmSubs r)[i := replay_page maxResyncOps tripID db reads took (rmSubs r ! i)]\<rparr>))"
| released: "delivery okEnv tripID db (Some r) \<Longrightarrow> i < length (rmSubs r) \<Longrightarrow>
    sbReplayed (rmSubs r ! i) \<or> sbGivenUp (rmSubs r ! i) \<Longrightarrow>
    delivery okEnv tripID db (Some (r\<lparr>rmSubs := (rmSubs r)[i := gate_release accept (rmSubs r ! i)]\<rparr>))"
| left: "delivery okEnv tripID db (Some r) \<Longrightarrow> i < length (rmSubs r) \<Longrightarrow>
    delivery okEnv tripID db (Broker_remove accept i r)"

section \<open>Draining\<close>

definition pendingOK :: "(int \<Rightarrow> Op) \<Rightarrow> int \<Rightarrow> int \<Rightarrow> Pending \<Rightarrow> bool" where
  "pendingOK f n N p \<longleftrightarrow> (\<forall>(k, op) \<in> set p. n \<le> k \<and> k \<le> N \<and> op = f k)"

lemma pendingOK_delete: "pendingOK f n N p \<Longrightarrow> pendingOK f (n + 1) N (AList.delete n p)"
  by (auto simp: pendingOK_def AList.delete_eq)

lemma drain_spec:
  assumes "pendingOK f n N p" "n \<le> N + 1" "drain n p = (n', p', out)"
  shows "n \<le> n' \<and> n' \<le> N + 1 \<and> out = map f [n .. n' - 1] \<and> pendingOK f n' N p' \<and> n' \<notin> fst ` set p"
  using assms
proof (induction n p arbitrary: n' p' out rule: drain.induct)
  case (1 n p)
  show ?case
  proof (cases "map_of p n")
    case None
    have "n \<notin> fst ` set p" using None by (simp add: map_of_eq_None_iff)
    moreover have "n' = n" "p' = p" "out = []" using 1(4) None by (simp_all add: drain.simps [of n p])
    ultimately show ?thesis using 1(2,3) by simp
  next
    case (Some op)
    obtain m q o' where d: "drain (n + 1) (AList.delete n p) = (m, q, o')" by (metis prod_cases3)
    have op: "op = f n" "n \<le> N" using map_of_SomeD [OF Some] 1(2) by (auto simp: pendingOK_def)
    have r: "n' = m" "p' = q" "out = op # o'" using 1(4) Some d by (auto simp: drain.simps [of n p])
    have ih: "n + 1 \<le> m \<and> m \<le> N + 1 \<and> o' = map f [n + 1 .. m - 1] \<and> pendingOK f m N q \<and> m \<notin> fst ` set (AList.delete n p)"
      using 1(1) [OF Some pendingOK_delete [OF 1(2)] _ d] op(2) by simp
    have "[n .. m - 1] = n # [n + 1 .. m - 1]" using ih by (simp add: upto_rec1)
    moreover have "m \<notin> fst ` set p" using ih by (auto simp: AList.delete_eq image_iff)
    ultimately show ?thesis using ih op r by simp
  qed
qed

lemma pendingOK_update: "pendingOK f n N p \<Longrightarrow> n \<le> k \<Longrightarrow> k \<le> N \<Longrightarrow> op = f k \<Longrightarrow> pendingOK f n N (AList.update k op p)"
  by (induction p) (auto simp: pendingOK_def)

lemma addMissing_OK:
  assumes "pendingOK f n N p" "\<forall>k \<in> set ks. n \<le> k \<and> k \<le> N \<and> opSeq (f k) = k"
  shows "pendingOK f n N (addMissing n (map f ks) p) \<and> set ks \<subseteq> fst ` set (addMissing n (map f ks) p) \<and>
    fst ` set p \<subseteq> fst ` set (addMissing n (map f ks) p)"
  using assms
proof (induction ks arbitrary: p)
  case (Cons k ks)
  have k: "n \<le> k" "k \<le> N" "opSeq (f k) = k" using Cons.prems(2) by auto
  have "pendingOK f n N (AList.update k (f k) p)" using pendingOK_update [OF Cons.prems(1)] k by blast
  moreover have "fst ` set (AList.update k (f k) p) = insert k (fst ` set p)"
    using arg_cong [OF AList.update_conv', of dom, of k "f k" p] by (simp add: dom_map_of_conv_image_fst)
  ultimately show ?case using Cons.IH [of "AList.update k (f k) p"] Cons.prems(2) k by (simp add: addMissing_def)
qed (simp add: addMissing_def)

lemma addMissing_gt:
  assumes "\<forall>k \<in> set ks. opSeq (f k) = k"
  shows "addMissing n (map f ks) p = addMissing n (map f (filter (\<lambda>k. n \<le> k) ks)) p"
  using assms by (induction ks arbitrary: p) (auto simp: addMissing_def)

section \<open>What one subscriber has been sent\<close>

definition stretch :: "(int \<Rightarrow> Op) \<Rightarrow> int \<Rightarrow> int \<Rightarrow> Op list" where
  "stretch f a b = map f [a + 1 .. b]"

lemma stretch_empty [simp]: "b \<le> a \<Longrightarrow> stretch f a b = []"
  by (simp add: stretch_def)

lemma stretch_Nil_iff [simp]: "stretch f a b = [] \<longleftrightarrow> b \<le> a"
  by (simp add: stretch_def)

lemma stretch_append: "a \<le> b \<Longrightarrow> b \<le> c \<Longrightarrow> stretch f a b @ stretch f b c = stretch f a c"
proof -
  assume le: "a \<le> b" "b \<le> c"
  have "[a + 1 .. b] @ [b + 1 .. c] = [a + 1 .. c]"
    using le upto_split1 [of "a + 1" "b + 1" c] by (cases "b = c") auto
  then show ?thesis by (simp add: stretch_def flip: map_append)
qed

lemma stretch_step: "a \<le> b \<Longrightarrow> stretch f a b @ [f (b + 1)] = stretch f a (b + 1)"
  using stretch_append [of a b "b + 1" f] by (simp add: stretch_def upto_rec1)

primrec opsOf :: "Event list \<Rightarrow> Op list" where
  "opsOf [] = []"
| "opsOf (ev # evs) = (case ev of EventOp op \<Rightarrow> op # opsOf evs | EventPresence _ _ _ \<Rightarrow> opsOf evs)"

lemma opsOf_append [simp]: "opsOf (xs @ ys) = opsOf xs @ opsOf ys"
  by (induction xs) (auto split: Event.split)

lemma opsOf_ops [simp]: "opsOf (map EventOp ops) = ops"
  by (induction ops) auto

lemma opsOf_filter_all: "list_all P evs \<Longrightarrow> opsOf (filter P evs) = opsOf evs"
  by (induction evs) (auto split: Event.split)

text \<open>The sink took the replayed stretch and, after it, the live stretch of the room up to what the
  dispatcher sent last; while the gate is closed the live stretch waits in the buffer.\<close>

definition subAt :: "(int \<Rightarrow> Op) \<Rightarrow> int \<Rightarrow> int \<Rightarrow> int \<Rightarrow> Subscription \<Rightarrow> bool" where
  "subAt f N sent a s \<longleftrightarrow> 0 \<le> sbFrom s \<and> sbFrom s \<le> sbCursor s \<and> sbCursor s \<le> N \<and> 0 \<le> a \<and> a \<le> sent \<and>
     (sbOpen s \<longrightarrow> sbReplayed s \<and> sbBuf s = []) \<and> (sbReplayed s \<longrightarrow> a \<le> sbCursor s) \<and>
     opsOf (sbSink s) @ opsOf (sbBuf s) = stretch f (sbFrom s) (sbCursor s) @ stretch f a sent \<and>
     (\<not> sbOpen s \<longrightarrow> opsOf (sbSink s) = stretch f (sbFrom s) (sbCursor s))"

definition trackOK :: "(int \<Rightarrow> Op) \<Rightarrow> int \<Rightarrow> int \<Rightarrow> Subscription \<Rightarrow> bool" where
  "trackOK f N sent s \<longleftrightarrow> sbGivenUp s \<or> (\<exists>a. subAt f N sent a s)"

lemma stretch_cong: "\<forall>i. 1 \<le> i \<and> i \<le> N \<longrightarrow> g i = f i \<Longrightarrow> 0 \<le> a \<Longrightarrow> b \<le> N \<Longrightarrow> stretch g a b = stretch f a b"
  by (simp add: stretch_def)

lemma trackOK_grow:
  assumes "trackOK f N sent s" "\<forall>i. 1 \<le> i \<and> i \<le> N \<longrightarrow> g i = f i" "N \<le> N'" "sent \<le> N"
  shows "trackOK g N' sent s"
proof -
  have "subAt g N' sent a s" if "subAt f N sent a s" for a
    using that assms(3,4) stretch_cong [OF assms(2), of a sent] stretch_cong [OF assms(2), of "sbFrom s" "sbCursor s"]
    by (simp add: subAt_def)
  then show ?thesis using assms(1) by (auto simp: trackOK_def)
qed

lemma deliverTo_presence:
  assumes "trackOK f N sent s"
  shows "trackOK f N sent (deliverTo accept (EventPresence u c j) s)"
proof (cases "sbGivenUp (deliverTo accept (EventPresence u c j) s)")
  case False
  then obtain a where "subAt f N sent a s"
    using assms by (auto simp: trackOK_def deliverTo_def gate_Deliver_def split: if_splits)
  then have "subAt f N sent a (deliverTo accept (EventPresence u c j) s)"
    using False by (simp add: deliverTo_def gate_Deliver_def subAt_def split: if_splits)
  then show ?thesis by (auto simp: trackOK_def)
qed (simp add: trackOK_def)

lemma deliverTo_op:
  assumes "trackOK f N sent s"
  shows "trackOK f N (sent + 1) (deliverTo accept (EventOp (f (sent + 1))) s)"
proof (cases "sbGivenUp (deliverTo accept (EventOp (f (sent + 1))) s)")
  case False
  then obtain a where a: "subAt f N sent a s"
    using assms by (auto simp: trackOK_def deliverTo_def gate_Deliver_def split: if_splits)
  then have "stretch f a (sent + 1) = stretch f a sent @ [f (sent + 1)]"
    by (simp add: stretch_step subAt_def)
  then have "subAt f N (sent + 1) a (deliverTo accept (EventOp (f (sent + 1))) s)"
    using False a by (cases "sbOpen s") (simp_all add: deliverTo_def gate_Deliver_def subAt_def split: if_splits)
  then show ?thesis by (auto simp: trackOK_def)
qed (simp add: trackOK_def)

lemma opsIn_stretch: "opsIn tripID db a b = stretch (opAt tripID db) a b"
  by (simp add: opsIn_def stretch_def)

lemma last_stretch: "a < b \<Longrightarrow> last (stretch f a b) = f b"
  by (simp add: stretch_def upto_rec2)

lemma replay_page_OK:
  assumes "gapless db" "trackOK (opAt tripID db) (dbOpSeq db tripID) sent s" "sent \<le> dbOpSeq db tripID"
    "\<not> sbOpen s" "\<not> sbReplayed s"
  shows "trackOK (opAt tripID db) (dbOpSeq db tripID) sent (replay_page maxOps tripID db ok took s)"
proof (cases "sbGivenUp (replay_page maxOps tripID db ok took s)")
  case False
  let ?f = "opAt tripID db" and ?N = "dbOpSeq db tripID" and ?c = "sbCursor s"
  define m where "m = min ?N (?c + 1000)"
  define ops where "ops = stretch ?f ?c m"
  obtain a where a: "subAt ?f ?N sent a s" and ok: ok
    using assms(2) False by (auto simp: trackOK_def replay_page_def Let_def split: if_splits)
  then have c: "0 \<le> ?c" "?c \<le> m" "m \<le> ?N" "m < ?c + 1000 \<Longrightarrow> m = ?N" by (auto simp: subAt_def m_def)
  have read: "OpLogRepository_ListSince tripID ?c resyncPage db = ops"
    using ListSince_opsIn [OF assms(1) c(1), of tripID resyncPage] a
    by (simp add: ops_def opsIn_stretch resyncPage_def m_def subAt_def)
  have len: "int (length ops) = m - ?c" using c(2) by (simp add: ops_def stretch_def)
  have pos: "(if ops = [] then ?c else opSeq (last ops)) = m"
    using c opSeq_opAt [OF assms(1), of m tripID] by (cases "?c = m") (auto simp: ops_def last_stretch)
  have all: "take (min took (Suc maxOps - sbDelivered s)) ops = ops"
    using False ok by (simp add: replay_page_def Let_def read not_less min_le_iff_disj split: if_splits)
  have "stretch ?f (sbFrom s) ?c @ ops = stretch ?f (sbFrom s) m"
    using stretch_append [of "sbFrom s" ?c m ?f] a c by (simp add: ops_def subAt_def)
  moreover have "\<exists>g. replay_page maxOps tripID db ok took s =
      s\<lparr>sbSink := sbSink s @ map EventOp ops, sbCursor := m, sbDelivered := sbDelivered s + length ops,
        sbReplayed := (int (length ops) < resyncPage), sbGivenUp := g\<rparr>"
    by (simp only: replay_page_def Let_def ok read all pos not_True_eq_False if_False) blast
  moreover have "int (length ops) < resyncPage \<Longrightarrow> a \<le> m"
    using a c len assms(3) by (auto simp: subAt_def resyncPage_def)
  ultimately have "subAt ?f ?N sent a (replay_page maxOps tripID db ok took s)"
    using a c assms(4) by (auto simp: subAt_def)
  then show ?thesis by (auto simp: trackOK_def)
qed (simp add: trackOK_def)

lemma gate_release_OK:
  assumes "trackOK f N sent s" "sbReplayed s \<or> sbGivenUp s"
  shows "trackOK f N sent (gate_release accept s)"
proof (cases "sbGivenUp (gate_release accept s)")
  case False
  then obtain a where "subAt f N sent a s" "sbReplayed s"
    using assms by (auto simp: trackOK_def gate_release_def split: if_splits)
  then have "subAt f N sent a (gate_release accept s)"
    using False by (auto simp: gate_release_def subAt_def opsOf_filter_all split: if_splits)
  then show ?thesis by (auto simp: trackOK_def)
qed (simp add: trackOK_def)

lemma broadcastOps_OK:
  assumes "\<forall>s \<in> set subs. trackOK f N sent s" "ops = stretch f sent sent'" "sent \<le> sent'"
  shows "\<forall>s \<in> set (broadcastOps accept ops subs). trackOK f N sent' s"
  using assms
proof (induction ops arbitrary: sent subs)
  case Nil
  then have "sent = sent'" by (simp add: stretch_def)
  then show ?case using Nil.prems by (simp add: broadcastOps_def)
next
  case (Cons op ops)
  then have lt: "sent < sent'" by (cases "sent = sent'") auto
  then have op: "op = f (sent + 1)" "ops = stretch f (sent + 1) sent'"
    using Cons.prems(2) by (auto simp: stretch_def upto_rec1)
  have "\<forall>s \<in> set (broadcast accept (EventOp op) subs). trackOK f N (sent + 1) s"
    using Cons.prems(1) deliverTo_op by (auto simp: broadcast_def op)
  then show ?case using Cons.IH [OF _ op(2)] lt by (simp add: broadcastOps_def)
qed

section \<open>The invariant of a room\<close>

definition dispatcherOK :: "(int \<Rightarrow> Op) \<Rightarrow> int \<Rightarrow> Dispatcher \<Rightarrow> bool" where
  "dispatcherOK f N d \<longleftrightarrow> 1 \<le> dpNext d \<and> dpNext d \<le> N + 1 \<and> pendingOK f (dpNext d) N (dpPending d)"

definition emits :: "(int \<Rightarrow> Op) \<Rightarrow> int \<Rightarrow> Dispatcher \<Rightarrow> Dispatcher \<times> Op list \<Rightarrow> bool" where
  "emits f N d r \<longleftrightarrow> dispatcherOK f N (fst r) \<and> dpNext d \<le> dpNext (fst r) \<and>
     snd r = stretch f (dpNext d - 1) (dpNext (fst r) - 1)"

lemma emits_nothing [simp]: "dpNext d' = dpNext d \<Longrightarrow> dpPending d' = dpPending d \<Longrightarrow> emits f N d (d', []) = dispatcherOK f N d"
  by (simp add: emits_def dispatcherOK_def)

lemma arm_simps [simp]: "dpNext (arm d) = dpNext d" "dpPending (arm d) = dpPending d"
  "dpNext (disarm d) = dpNext d" "dpPending (disarm d) = dpPending d"
  by (simp_all add: arm_def disarm_def)

lemma emits_timer [simp]:
  "emits f N d (arm d', out) = emits f N d (d', out)" "emits f N d (disarm d', out) = emits f N d (d', out)"
  "emits f N (disarm d) r = emits f N d r" "dispatcherOK f N (disarm d) = dispatcherOK f N d"
  by (simp_all add: emits_def dispatcherOK_def)

lemma drained_emits:
  assumes "dispatcherOK f N d" "pendingOK f (dpNext d) N p"
  shows "emits f N d (drained p d) \<and> dpNext (fst (drained p d)) \<notin> fst ` set p"
proof (cases "drain (dpNext d) p")
  case (fields n p' out)
  then show ?thesis using drain_spec [OF assms(2) _ fields] assms(1)
    by (auto simp: drained_def emits_def dispatcherOK_def stretch_def)
qed

lemma receive_emits:
  assumes "dispatcherOK f N d" "1 \<le> k" "k \<le> N" "op = f k" "opSeq op = k"
  shows "emits f N d (room_receive op d)"
proof (cases "dpNext d \<le> k")
  case True
  then have "pendingOK f (dpNext d) N (AList.update k op (dpPending d))"
    using assms by (intro pendingOK_update) (simp_all add: dispatcherOK_def)
  then have "emits f N d (drained (AList.update k op (dpPending d)) d)"
    using drained_emits [OF assms(1)] by blast
  then show ?thesis using True assms(5)
    by (cases "drained (AList.update k op (dpPending d)) d") (simp add: room_receive_def)
next
  case False
  then show ?thesis using assms by (simp add: room_receive_def)
qed

lemma readLog_stretch:
  assumes "gapless db" "dispatcherOK (opAt tripID db) (dbOpSeq db tripID) d"
  shows "readLog tripID db ok d =
    (if ok then Some (stretch (opAt tripID db) (dpNext d - 1) (min (dbOpSeq db tripID) (dpNext d + 999))) else None)"
  using ListSince_opsIn [OF assms(1), of "dpNext d - 1" tripID 0] assms(2)
  by (simp add: readLog_def dispatcherOK_def opsIn_stretch algebra_simps)

lemma fill_emits:
  assumes "gapless db" "dispatcherOK (opAt tripID db) (dbOpSeq db tripID) d"
  shows "emits (opAt tripID db) (dbOpSeq db tripID) d (room_fill (readLog tripID db ok d) force d) \<and>
    (ok \<and> force \<longrightarrow> min (dbOpSeq db tripID) (dpNext d + 999) < dpNext (fst (room_fill (readLog tripID db ok d) force d)))"
proof (cases "ok \<and> (force \<or> dpPending d \<noteq> [])")
  case True
  let ?f = "opAt tripID db" and ?N = "dbOpSeq db tripID"
  define m where "m = min ?N (dpNext d + 999)"
  define p where "p = addMissing (dpNext d) (stretch ?f (dpNext d - 1) m) (dpPending d)"
  have d: "1 \<le> dpNext d" "dpNext d \<le> ?N + 1" "pendingOK ?f (dpNext d) ?N (dpPending d)"
    using assms(2) by (simp_all add: dispatcherOK_def)
  have "\<forall>k \<in> set [dpNext d .. m]. dpNext d \<le> k \<and> k \<le> ?N \<and> opSeq (?f k) = k"
    using d opSeq_opAt [OF assms(1)] by (simp add: m_def)
  then have p: "pendingOK ?f (dpNext d) ?N p" "{dpNext d .. m} \<subseteq> fst ` set p"
    using addMissing_OK [OF d(3), of "[dpNext d .. m]"] by (simp_all add: p_def stretch_def)
  have fill: "room_fill (readLog tripID db ok d) force d = drained p d"
    using True by (auto simp: room_fill_def readLog_stretch [OF assms] p_def m_def)
  have e: "emits ?f ?N d (drained p d)" "dpNext (fst (drained p d)) \<notin> fst ` set p"
    using drained_emits [OF assms(2) p(1)] by simp_all
  then have "dpNext (fst (drained p d)) \<notin> {dpNext d .. m}" "dpNext d \<le> dpNext (fst (drained p d))"
    using p(2) by (auto simp: emits_def)
  then show ?thesis unfolding fill using e(1) by (simp add: m_def min_def)
next
  case False
  then have "room_fill (readLog tripID db ok d) force d = (d, [])"
    by (auto simp: room_fill_def readLog_def)
  then show ?thesis using False assms(2) by auto
qed

lemma turn_emits:
  assumes "gapless db" "dispatcherOK (opAt tripID db) (dbOpSeq db tripID) d"
    "\<And>op. t = Received op \<Longrightarrow> \<exists>k. 1 \<le> k \<and> k \<le> dbOpSeq db tripID \<and> op = opAt tripID db k"
  shows "emits (opAt tripID db) (dbOpSeq db tripID) d (dispatch_turn tripID db t d)"
proof (cases t)
  case (Received op)
  then show ?thesis using assms(3) [OF Received] receive_emits [OF assms(2)] opSeq_opAt [OF assms(1)]
    by (auto simp: dispatch_turn_def)
next
  case (GapTimer ok)
  have "readLog tripID db ok d = readLog tripID db ok (disarm d)" by (simp add: readLog_def)
  then show ?thesis using fill_emits [OF assms(1), of tripID "disarm d" ok False] assms(2)
    by (cases "room_fill (readLog tripID db ok d) False (disarm d)") (simp add: GapTimer dispatch_turn_def)
next
  case (Tick ok ok')
  have "emits (opAt tripID db) (dbOpSeq db tripID) d (room_reconcile (readHead tripID db ok) (readLog tripID db ok' d) d)"
    using fill_emits [OF assms(1,2), of ok' True] assms(2) by (simp add: room_reconcile_def split: option.splits)
  then show ?thesis
    by (cases "room_reconcile (readHead tripID db ok) (readLog tripID db ok' d) d") (simp add: Tick dispatch_turn_def)
qed

definition roomOK :: "(int \<Rightarrow> Op) \<Rightarrow> int \<Rightarrow> Room \<Rightarrow> bool" where
  "roomOK f N r \<longleftrightarrow> dispatcherOK f N (rmDispatcher r) \<and>
     (\<forall>op \<in> set (rmInbox r). \<exists>k. 1 \<le> k \<and> k \<le> N \<and> op = f k) \<and>
     (\<forall>s \<in> set (rmSubs r). trackOK f N (dpNext (rmDispatcher r) - 1) s)"

lemma roomOK_grow:
  assumes "roomOK f N r" "\<forall>i. 1 \<le> i \<and> i \<le> N \<longrightarrow> g i = f i" "N \<le> N'"
  shows "roomOK g N' r"
proof -
  have "dispatcherOK g N' (rmDispatcher r)"
    using assms by (force simp: roomOK_def dispatcherOK_def pendingOK_def)
  moreover have "\<forall>op \<in> set (rmInbox r). \<exists>k. 1 \<le> k \<and> k \<le> N' \<and> op = g k"
    using assms by (metis order_trans roomOK_def)
  moreover have "\<forall>s \<in> set (rmSubs r). trackOK g N' (dpNext (rmDispatcher r) - 1) s"
    using assms trackOK_grow [OF _ assms(2,3)] by (simp add: roomOK_def dispatcherOK_def)
  ultimately show ?thesis by (simp add: roomOK_def)
qed

lemma turn_roomOK:
  assumes "gapless db" "roomOK (opAt tripID db) (dbOpSeq db tripID) r"
    "\<And>op. t = Received op \<Longrightarrow> \<exists>k. 1 \<le> k \<and> k \<le> dbOpSeq db tripID \<and> op = opAt tripID db k"
  shows "roomOK (opAt tripID db) (dbOpSeq db tripID) (room_turn accept tripID db t r)"
proof (cases "dispatch_turn tripID db t (rmDispatcher r)")
  case (Pair d out)
  then have e: "emits (opAt tripID db) (dbOpSeq db tripID) (rmDispatcher r) (d, out)"
    using turn_emits [OF assms(1) _ assms(3)] assms(2) by (metis roomOK_def)
  then have "\<forall>s \<in> set (broadcastOps accept out (rmSubs r)). trackOK (opAt tripID db) (dbOpSeq db tripID) (dpNext d - 1) s"
    using assms(2) by (intro broadcastOps_OK) (auto simp: emits_def roomOK_def)
  then show ?thesis using e assms(2) by (simp add: roomOK_def room_turn_def Pair emits_def)
qed

lemma serve_opAt:
  assumes "gapless db" "serve e otherID userID req db = (res, db', ops)"
  shows "dbOpSeq db tripID \<le> dbOpSeq db' tripID \<and>
    (\<forall>i. 1 \<le> i \<and> i \<le> dbOpSeq db tripID \<longrightarrow> opAt tripID db' i = opAt tripID db i)"
proof -
  have "\<exists>new. dbOps db' = dbOps db @ new"
    using serve_sound [of e otherID userID db req] assms(2) by (auto simp: soundReply_def logGrew_def split: if_splits)
  then obtain new where new: "tripLog tripID db' = tripLog tripID db @ new"
    by (auto simp: tripLog_def)
  have "int (length (tripLog tripID db)) = dbOpSeq db tripID" "int (length (tripLog tripID db')) = dbOpSeq db' tripID"
    using tripLog_length assms serve_gapless by blast+
  then show ?thesis using new by (auto simp: opAt_def nth_append)
qed

lemma logged_opAt:
  assumes "gapless db" "op \<in> set (tripLog tripID db)"
  shows "\<exists>k. 1 \<le> k \<and> k \<le> dbOpSeq db tripID \<and> op = opAt tripID db k"
proof -
  obtain i where "i < length (tripLog tripID db)" "op = tripLog tripID db ! i"
    using assms(2) by (auto simp: in_set_conv_nth)
  then show ?thesis using tripLog_length [OF assms(1), of tripID]
    by (intro exI [of _ "int i + 1"]) (simp add: opAt_def)
qed

lemma trackOK_new: "0 \<le> from \<Longrightarrow> from \<le> N \<Longrightarrow> 0 \<le> sent \<Longrightarrow> trackOK f N sent (newSubscription u c from)"
  by (auto simp: trackOK_def subAt_def newSubscription_def intro!: exI [of _ sent])

lemma roomOK_subs:
  "roomOK f N r \<Longrightarrow> \<forall>s \<in> set subs. trackOK f N (dpNext (rmDispatcher r) - 1) s \<Longrightarrow> roomOK f N (r\<lparr>rmSubs := subs\<rparr>)"
  by (simp add: roomOK_def)

lemma roomOK_sub: "roomOK f N r \<Longrightarrow> i < length (rmSubs r) \<Longrightarrow> trackOK f N (dpNext (rmDispatcher r) - 1) (rmSubs r ! i)"
  by (simp add: roomOK_def)

lemma roomOK_sub_update:
  assumes "roomOK f N r" "trackOK f N (dpNext (rmDispatcher r) - 1) s"
  shows "roomOK f N (r\<lparr>rmSubs := (rmSubs r)[i := s]\<rparr>)"
  using assms set_update_subset_insert [of "rmSubs r" i s] by (intro roomOK_subs) (auto simp: roomOK_def)

lemma roomOK_presence:
  "roomOK f N r \<Longrightarrow> roomOK f N (r\<lparr>rmSubs := broadcast accept (EventPresence u c j) (rmSubs r)\<rparr>)"
  using deliverTo_presence by (auto simp: roomOK_def broadcast_def)

lemma Subscribe_roomOK:
  assumes "\<And>r'. r = Some r' \<Longrightarrow> roomOK f N r'" "0 \<le> from" "from \<le> head" "head \<le> N"
  shows "roomOK f N (Broker_Subscribe accept u c head from r)"
proof -
  define r0 where "r0 = (case r of None \<Rightarrow> newRoom (head + 1) | Some r \<Rightarrow> r)"
  have r0: "roomOK f N r0"
    using assms by (cases r) (simp_all add: r0_def newRoom_def newDispatcher_def roomOK_def dispatcherOK_def pendingOK_def)
  then have "roomOK f N (r0\<lparr>rmSubs := rmSubs r0 @ [newSubscription u c from]\<rparr>)"
    using assms(2-4) trackOK_new [of "from" N "dpNext (rmDispatcher r0) - 1" f u c]
    by (intro roomOK_subs) (auto simp: roomOK_def dispatcherOK_def)
  from roomOK_presence [OF this] show ?thesis by (simp add: Broker_Subscribe_def r0_def Let_def)
qed

lemma remove_roomOK:
  assumes "roomOK f N r" "Broker_remove accept i r = Some r'"
  shows "roomOK f N r'"
proof -
  let ?subs = "take i (rmSubs r) @ drop (Suc i) (rmSubs r)"
  have "roomOK f N (r\<lparr>rmSubs := ?subs\<rparr>)"
    using assms(1) by (intro roomOK_subs) (auto simp: roomOK_def dest: in_set_takeD in_set_dropD)
  from roomOK_presence [OF this] show ?thesis
    using assms(2) by (auto simp: Broker_remove_def Let_def split: if_splits)
qed

lemma subscribeFrom_range:
  assumes "subscribeFrom maxOps tripID userID since db = Inr (from, head)" "0 \<le> dbOpSeq db tripID"
  shows "0 \<le> from \<and> from \<le> head \<and> head = dbOpSeq db tripID"
  using assms by (auto simp: subscribeFrom_def CurrentOpSeq_def bindR_eq_Inr split: sum.splits option.splits if_splits)

lemma delivery_OK:
  "delivery okEnv tripID db ro \<Longrightarrow>
     gapless db \<and> (\<forall>r. ro = Some r \<longrightarrow> roomOK (opAt tripID db) (dbOpSeq db tripID) r)"
proof (induction rule: delivery.induct)
  case (empty db)
  then show ?case using reachable_log by auto
next
  case (wrote db r e otherID userID req res db' ops)
  then have g: "gapless db" "\<forall>r'. r = Some r' \<longrightarrow> roomOK (opAt tripID db) (dbOpSeq db tripID) r'" by simp_all
  note grown = serve_opAt [OF g(1) wrote.hyps(3), of tripID]
  have "roomOK (opAt tripID db') (dbOpSeq db' tripID) r'" if "r = Some r'" for r'
    using g(2) that roomOK_grow [OF _ conjunct2 [OF grown] conjunct1 [OF grown]] by simp
  then show ?case using serve_gapless [OF g(1) wrote.hyps(3)] by simp
next
  case (managed db r ts ms "is")
  then show ?case by (simp add: gapless_def tripLog_def opAt_def [abs_def])
next
  case (heard db r op)
  then show ?case using logged_opAt [of db op tripID] by (auto simp: Broker_enqueue_def roomOK_def)
next
  case (joined db r maxResyncOps userID since db0 "from" head accept connID)
  then show ?case using subscribeFrom_range [OF joined.hyps(2,3)] Subscribe_roomOK by simp
next
  case (received db r op rest accept)
  then have "roomOK (opAt tripID db) (dbOpSeq db tripID) (r\<lparr>rmInbox := rest\<rparr>)"
    "\<exists>k. 1 \<le> k \<and> k \<le> dbOpSeq db tripID \<and> op = opAt tripID db k" by (auto simp: roomOK_def)
  then show ?case using turn_roomOK received by blast
next
  case (timed db r t ok ok' accept)
  then show ?case using turn_roomOK by blast
next
  case (replayed db r i maxResyncOps reads took)
  then have r: "gapless db" "roomOK (opAt tripID db) (dbOpSeq db tripID) r" by simp_all
  then have "dpNext (rmDispatcher r) - 1 \<le> dbOpSeq db tripID" by (simp add: roomOK_def dispatcherOK_def)
  with replay_page_OK [OF r(1) roomOK_sub [OF r(2) replayed.hyps(2)]] replayed.hyps(3,4)
  show ?case using r roomOK_sub_update [OF r(2)] by blast
next
  case (released db r i accept)
  then show ?case using roomOK_sub_update gate_release_OK roomOK_sub by blast
next
  case (left db r i accept)
  then show ?case using remove_roomOK by blast
qed

section \<open>Following the stream\<close>

text \<open>A client at position \<^theory_text>\<open>c\<close> skips what it has, takes the next operation, and fails on a gap.\<close>

fun follow :: "int \<Rightarrow> Op list \<Rightarrow> int option" where
  "follow c [] = Some c"
| "follow c (op # ops) =
     (if opSeq op \<le> c then follow c ops else if opSeq op = c + 1 then follow (c + 1) ops else None)"

lemma follow_append: "follow c (xs @ ys) = (case follow c xs of None \<Rightarrow> None | Some c' \<Rightarrow> follow c' ys)"
  by (induction c xs rule: follow.induct) auto

lemma follow_stretch:
  assumes "\<forall>k. 1 \<le> k \<and> k \<le> N \<longrightarrow> opSeq (f k) = k" "0 \<le> a" "a \<le> c" "b \<le> N"
  shows "follow c (stretch f a b) = Some (max c b)"
proof -
  have "follow c ops = Some (max c b)" if "ops = stretch f a b" "0 \<le> a" "a \<le> c" for ops
    using that
  proof (induction ops arbitrary: a c)
    case Nil
    then show ?case by (simp add: eq_commute [of "[]"])
  next
    case (Cons op ops)
    then have lt: "a < b" by (metis list.distinct(1) not_le stretch_Nil_iff)
    then have op: "op = f (a + 1)" "ops = stretch f (a + 1) b"
      using Cons.prems(1) by (auto simp: stretch_def upto_rec1)
    then have "opSeq op = a + 1" using assms(1,4) Cons.prems(2) lt by simp
    then show ?case using Cons.IH [OF op(2)] Cons.prems(2,3) lt by (cases "a < c") simp_all
  qed
  then show ?thesis using assms(2,3) by blast
qed

lemma fold_stretch:
  assumes "\<forall>k. 1 \<le> k \<and> k \<le> N \<longrightarrow> opSeq (f k) = k" "0 \<le> a" "a \<le> c" "c \<le> N"
    "Fold up (stretch f 0 c) = Inr r"
  shows "foldFrom up r (stretch f a b) = Fold up (stretch f 0 (max c b))"
proof -
  have seen: "opSeq (f k) \<le> rSeq r" if "1 \<le> k" "k \<le> c" for k
    using foldFrom_seq [of up NewReplica "stretch f 0 c" r] assms(5) that by (simp add: Fold_def stretch_def)
  then have dup: "foldFrom up r (stretch f a d) = Inr r" if "d \<le> c" for d
    using that assms(2) by (intro foldFrom_redelivered) (simp add: stretch_def)
  show ?thesis
  proof (cases "b \<le> c")
    case True
    then show ?thesis using dup assms(5) by (simp add: max_def)
  next
    case False
    then have "stretch f a b = stretch f a c @ stretch f c b" "stretch f 0 b = stretch f 0 c @ stretch f c b"
      using assms(2,3) by (simp_all add: stretch_append)
    then show ?thesis using False dup [of c] assms(5) by (simp add: foldFrom_append Fold_def max_def)
  qed
qed

lemma tripLog_stretch:
  assumes "gapless db" "0 \<le> c" "c \<le> dbOpSeq db tripID"
  shows "take (nat c) (tripLog tripID db) = stretch (opAt tripID db) 0 c"
  using take_drop_interval [of "tripLog tripID db" "dbOpSeq db tripID" 0 c] tripLog_length [OF assms(1), of tripID] assms
  by (simp add: stretch_def opAt_def [abs_def])

text \<open>What a subscriber that has not been given up took, as the client sees it.\<close>

lemma subAt_follows:
  assumes "\<forall>k. 1 \<le> k \<and> k \<le> N \<longrightarrow> opSeq (f k) = k" "sent \<le> N" "subAt f N sent a s"
  defines "c \<equiv> (if sbOpen s then max (sbCursor s) sent else sbCursor s)"
  shows "follow (sbFrom s) (opsOf (sbSink s)) = Some c"
    and "Fold up (stretch f 0 (sbFrom s)) = Inr r0 \<Longrightarrow> foldFrom up r0 (opsOf (sbSink s)) = Fold up (stretch f 0 c)"
proof -
  note sub = assms(3) [unfolded subAt_def]
  have sink: "opsOf (sbSink s) = stretch f (sbFrom s) (sbCursor s) @ (if sbOpen s then stretch f a sent else [])"
    using sub by (cases "sbOpen s") auto
  show "follow (sbFrom s) (opsOf (sbSink s)) = Some c"
    using sub follow_stretch [OF assms(1), of "sbFrom s" "sbFrom s" "sbCursor s"] follow_stretch [OF assms(1), of a "sbCursor s" sent] assms(2)
    by (simp add: sink follow_append c_def max_def)
  assume "Fold up (stretch f 0 (sbFrom s)) = Inr r0"
  then have first: "foldFrom up r0 (stretch f (sbFrom s) (sbCursor s)) = Fold up (stretch f 0 (sbCursor s))"
    using sub fold_stretch [OF assms(1), of "sbFrom s" "sbFrom s" up r0 "sbCursor s"] by (simp add: max_def)
  show "foldFrom up r0 (opsOf (sbSink s)) = Fold up (stretch f 0 c)"
  proof (cases "Fold up (stretch f 0 (sbCursor s))")
    case (Inl err)
    have "stretch f 0 c = stretch f 0 (sbCursor s) @ stretch f (sbCursor s) c"
      using stretch_append [of 0 "sbCursor s" c f] sub by (simp add: c_def)
    then have "Fold up (stretch f 0 c) = Inl err" using Inl by (simp add: Fold_def foldFrom_append)
    then show ?thesis using first Inl by (simp add: sink foldFrom_append)
  next
    case (Inr r)
    then show ?thesis using first fold_stretch [OF assms(1) _ _ _ Inr, of a sent] sub
      by (simp add: sink foldFrom_append c_def)
  qed
qed

section \<open>Catching up\<close>

lemma tick_advances:
  assumes "gapless db" "roomOK (opAt tripID db) (dbOpSeq db tripID) r" "CurrentOpSeq tripID db = Inr head"
  shows "min (dbOpSeq db tripID + 1) (dpNext (rmDispatcher r) + 1000)
    \<le> dpNext (rmDispatcher (room_turn accept tripID db (Tick True True) r))"
proof -
  let ?d = "rmDispatcher r"
  have d: "dispatcherOK (opAt tripID db) (dbOpSeq db tripID) ?d" using assms(2) by (simp add: roomOK_def)
  have h: "head = dbOpSeq db tripID" using assms(3) by (auto simp: CurrentOpSeq_def elim: bindR_eq_Inr [THEN iffD1, THEN exE])
  have "min (dbOpSeq db tripID + 1) (dpNext ?d + 1000)
      \<le> dpNext (fst (room_reconcile (readHead tripID db True) (readLog tripID db True ?d) ?d))"
    using fill_emits [OF assms(1) d, of True True] assms(3) h d
    by (auto simp: room_reconcile_def readHead_def dispatcherOK_def)
  then show ?thesis
    by (cases "room_reconcile (readHead tripID db True) (readLog tripID db True ?d) ?d"; cases "dispatch_turn tripID db (Tick True True) ?d")
      (auto simp: room_turn_def dispatch_turn_def)
qed

lemma ticks_advance:
  assumes "gapless db" "roomOK (opAt tripID db) (dbOpSeq db tripID) r" "CurrentOpSeq tripID db = Inr head"
  shows "roomOK (opAt tripID db) (dbOpSeq db tripID) ((room_turn accept tripID db (Tick True True) ^^ k) r) \<and>
    min (dbOpSeq db tripID + 1) (dpNext (rmDispatcher r) + 1000 * int k)
      \<le> dpNext (rmDispatcher ((room_turn accept tripID db (Tick True True) ^^ k) r))"
proof (induction k)
  case 0
  then show ?case using assms(2) by simp
next
  case (Suc k)
  let ?r = "(room_turn accept tripID db (Tick True True) ^^ k) r"
  have ok: "roomOK (opAt tripID db) (dbOpSeq db tripID) ?r" using Suc by simp
  then have "roomOK (opAt tripID db) (dbOpSeq db tripID) (room_turn accept tripID db (Tick True True) ?r)"
    by (intro turn_roomOK [OF assms(1)]) auto
  then show ?case using tick_advances [OF assms(1) ok assms(3), of accept] Suc
    by (auto simp: min_le_iff_disj)
qed

definition listening :: "(ID \<Rightarrow> Event \<Rightarrow> bool) \<Rightarrow> Subscription \<Rightarrow> bool" where
  "listening accept s \<longleftrightarrow> sbOpen s \<and> \<not> sbGivenUp s \<and> (\<forall>ev. accept (sbConnID s) ev)"

lemma listening_stays:
  "listening accept s \<Longrightarrow> listening accept (deliverTo accept ev s) \<and> sbFrom (deliverTo accept ev s) = sbFrom s"
  by (simp add: listening_def deliverTo_def gate_Deliver_def)

lemma listening_broadcast:
  assumes "i < length subs" "listening accept (subs ! i)"
  shows "length (broadcastOps accept ops subs) = length subs \<and> listening accept (broadcastOps accept ops subs ! i) \<and>
    sbFrom (broadcastOps accept ops subs ! i) = sbFrom (subs ! i)"
  using assms
proof (induction ops arbitrary: subs)
  case (Cons op ops)
  then show ?case using listening_stays [OF Cons.prems(2), of "EventOp op"] Cons.IH [of "broadcast accept (EventOp op) subs"]
    by (simp add: broadcastOps_def broadcast_def)
qed (simp add: broadcastOps_def)

lemma listening_turn:
  assumes "i < length (rmSubs r)" "listening accept (rmSubs r ! i)"
  shows "i < length (rmSubs (room_turn accept tripID db t r)) \<and>
    listening accept (rmSubs (room_turn accept tripID db t r) ! i) \<and>
    sbFrom (rmSubs (room_turn accept tripID db t r) ! i) = sbFrom (rmSubs r ! i)"
  using assms by (cases "dispatch_turn tripID db t (rmDispatcher r)") (simp add: room_turn_def listening_broadcast)

lemma listening_ticks:
  assumes "i < length (rmSubs r)" "listening accept (rmSubs r ! i)"
  shows "i < length (rmSubs ((room_turn accept tripID db (Tick True True) ^^ k) r)) \<and>
    listening accept (rmSubs ((room_turn accept tripID db (Tick True True) ^^ k) r) ! i) \<and>
    sbFrom (rmSubs ((room_turn accept tripID db (Tick True True) ^^ k) r) ! i) = sbFrom (rmSubs r ! i)"
proof (induction k)
  case (Suc k)
  then show ?case using listening_turn [of i "(room_turn accept tripID db (Tick True True) ^^ k) r"] by simp
qed (use assms(1,2) in simp)

section \<open>A sample delivery\<close>

text \<open>A subscriber joins the sample trip while its log is empty, replays nothing and opens its gate; then a
  day is created and its operation never arrives.\<close>

definition acceptAll :: "ID \<Rightarrow> Event \<Rightarrow> bool" where
  "acceptAll conn ev = True"

definition sampleJoined :: Room where
  "sampleJoined = Broker_Subscribe acceptAll 3 30 0 0 None"

definition sampleReplayed :: Room where
  "sampleReplayed = sampleJoined\<lparr>rmSubs := (rmSubs sampleJoined)[0 := replay_page 10 1 sampleDB True 5 (rmSubs sampleJoined ! 0)]\<rparr>"

definition sampleListening :: Room where
  "sampleListening = sampleReplayed\<lparr>rmSubs := (rmSubs sampleReplayed)[0 := gate_release acceptAll (rmSubs sampleReplayed ! 0)]\<rparr>"

lemma sampleListening_run:
  assumes "okEnv sampleEnv"
  shows "delivery okEnv 1 sampleAfter (Some sampleListening)"
proof -
  have "delivery okEnv 1 sampleDB (Some sampleJoined)"
    unfolding sampleJoined_def
  proof (rule joined [OF empty [OF sample_reachable]])
    show "subscribeFrom 10 1 3 (Some 0) sampleDB = Inr (0, 0)" by code_simp
  qed (simp_all add: sampleDB_def)
  then have "delivery okEnv 1 sampleDB (Some sampleReplayed)"
    unfolding sampleReplayed_def by (rule replayed) (code_simp+)
  then have d: "delivery okEnv 1 sampleDB (Some sampleListening)"
    unfolding sampleListening_def by (rule released) (code_simp+)
  show ?thesis unfolding sampleAfter_def
    by (cases "serve sampleEnv 1 3 (CreateDay sampleDayInput) sampleDB") (auto intro: wrote [OF d assms])
qed

lemmas sampleListening_reached = sampleListening_run [of "\<lambda>_. True", OF TrueI]

lemma sampleListening_facts:
  "listening acceptAll (rmSubs sampleListening ! 0)" "CurrentOpSeq 1 sampleAfter = Inr 1" "0 < length (rmSubs sampleListening)"
  "sbFrom (rmSubs sampleListening ! 0) = 0" "dpNext (rmDispatcher sampleListening) = 1"
proof -
  have "sbOpen (rmSubs sampleListening ! 0)" "\<not> sbGivenUp (rmSubs sampleListening ! 0)" by code_simp+
  then show "listening acceptAll (rmSubs sampleListening ! 0)" by (simp add: listening_def acceptAll_def)
qed code_simp+

section \<open>Properties\<close>



lemma listening_caught_up:
  assumes "delivery okEnv tripID db (Some r)" "CurrentOpSeq tripID db = Inr head"
    "dbOpSeq db tripID < dpNext (rmDispatcher r) + 1000 * int k"
    "i < length (rmSubs r)" "listening accept (rmSubs r ! i)"
  defines "s \<equiv> rmSubs ((room_turn accept tripID db (Tick True True) ^^ k) r) ! i"
  shows "gapless db" "head = dbOpSeq db tripID" "listening accept s" "sbFrom s = sbFrom (rmSubs r ! i)"
    "\<exists>a. subAt (opAt tripID db) head head a s"
proof -
  let ?f = "opAt tripID db" and ?N = "dbOpSeq db tripID"
  let ?r = "(room_turn accept tripID db (Tick True True) ^^ k) r"
  have r: "roomOK ?f ?N r" using delivery_OK [OF assms(1)] by auto
  show g: "gapless db" using delivery_OK [OF assms(1)] by auto
  have ok: "roomOK ?f ?N ?r" "?N + 1 \<le> dpNext (rmDispatcher ?r)"
    using ticks_advance [OF g r assms(2), of k accept] assms(3) by simp_all
  then have sent: "dpNext (rmDispatcher ?r) - 1 = ?N" by (simp add: roomOK_def dispatcherOK_def)
  have s: "i < length (rmSubs ?r)" using listening_ticks [OF assms(4,5)] by simp
  show l: "listening accept s" "sbFrom s = sbFrom (rmSubs r ! i)"
    using listening_ticks [OF assms(4,5)] by (simp_all add: s_def)
  show h: "head = ?N" using assms(2) by (auto simp: CurrentOpSeq_def bindR_eq_Inr)
  show "\<exists>a. subAt ?f head head a s"
    using roomOK_sub [OF ok(1) s] sent l(1) by (auto simp: trackOK_def listening_def h s_def)
qed

text \<open>Nothing is lost for good: after enough reconcile ticks, one for every thousand operations the
  room is behind, a subscriber that listens and accepts has received everything up to the end of
  the log of the trip, even when every broadcast was lost.\<close>

theorem ticks_catch_up:
  assumes "delivery okEnv tripID db (Some r)" "CurrentOpSeq tripID db = Inr head"
    "dbOpSeq db tripID < dpNext (rmDispatcher r) + 1000 * int k"
    "i < length (rmSubs r)" "listening accept (rmSubs r ! i)"
  shows "let s = rmSubs ((room_turn accept tripID db (Tick True True) ^^ k) r) ! i in
    \<not> sbGivenUp s \<and> sbFrom s = sbFrom (rmSubs r ! i) \<and> follow (sbFrom s) (opsOf (sbSink s)) = Some head"
proof -
  note c = listening_caught_up [OF assms]
  obtain a where a: "subAt (opAt tripID db) head head a (rmSubs ((room_turn accept tripID db (Tick True True) ^^ k) r) ! i)"
    using c(5) by blast
  have "\<forall>k. 1 \<le> k \<and> k \<le> head \<longrightarrow> opSeq (opAt tripID db k) = k" using opSeq_opAt [OF c(1)] c(2) by blast
  note f = subAt_follows(1) [OF this order_refl a]
  then show ?thesis using c(3,4) a by (auto simp: Let_def listening_def subAt_def max_def)
qed

theorem ticks_catch_up_witness:
  "follow 0 (opsOf (sbSink (rmSubs (room_turn acceptAll 1 sampleAfter (Tick True True) sampleListening) ! 0))) = Some 1"
  using ticks_catch_up [OF sampleListening_reached, of 1 1 0 acceptAll] sampleListening_facts by (auto simp: Let_def sampleAfter_seq)

end
