(* ===== verification/Tickets.thy ===== *)
theory Tickets
  imports Engine Identity
begin

text \<open>Handshake tickets (src/internal/transport/ws: ticket.go, ticket_redis.go; src/pkg/secrets): a credential
  that a client with an access token gets from the API and spends on opening one socket.

  Both stores are modelled: the map of \<^theory_text>\<open>MemoryTicketStore\<close>, and \<^theory_text>\<open>RedisTicketStore\<close> over a client
  whose \<^theory_text>\<open>SET\<close> with expiry and \<^theory_text>\<open>GETDEL\<close> are parameters. What the handshake relies on is the interface
  \<^theory_text>\<open>ticket_store\<close>. SHA-256 and the base64 text of bytes are parameters, the value Redis holds is the
  JSON document. The lock of the memory store makes each method one step.\<close>

record Ticket =
  tkUserID :: ID
  tkSessionID :: ID
  tkExpiresAt :: instant

definition TicketTTL :: instant where "TicketTTL = 30 * 10 ^ 9"

record Codec =
  cdWire :: Wire
  cdIDText :: "ID \<Rightarrow> str"
  cdTimeText :: "instant \<Rightarrow> str"
  cdSHA256 :: "str \<Rightarrow> str"
  cdBase64 :: "str \<Rightarrow> str"

definition faithfulCodec :: "Codec \<Rightarrow> bool" where
  "faithfulCodec c \<longleftrightarrow> (\<forall>i. wUUID (cdWire c) (cdIDText c i) = Some i) \<and> (\<forall>t. wTime (cdWire c) (cdTimeText c t) = Some t)"

section \<open>Secrets\<close>

text \<open>\<^theory_text>\<open>secrets.New\<close>: the bytes the system's source of randomness yields, or nothing.\<close>

record Token =
  toRaw :: str
  toHash :: str

definition TokenBytes :: nat where "TokenBytes = 32"

definition secrets_Hash :: "Codec \<Rightarrow> str \<Rightarrow> str" where
  "secrets_Hash c raw = cdSHA256 c raw"

definition secrets_New :: "Codec \<Rightarrow> (nat \<Rightarrow> str option) \<Rightarrow> Token res" where
  "secrets_New c rand =
     (case rand TokenBytes of
        None \<Rightarrow> Inl (ErrOther ''secrets: reading random bytes'')
      | Some buf \<Rightarrow> let raw = cdBase64 c buf in Inr \<lparr>toRaw = raw, toHash = secrets_Hash c raw\<rparr>)"

definition ticketKey :: "Codec \<Rightarrow> str \<Rightarrow> str" where
  "ticketKey c hash = cdBase64 c hash"

definition keyOf :: "Codec \<Rightarrow> str \<Rightarrow> str" where
  "keyOf c raw = ticketKey c (secrets_Hash c raw)"

section \<open>The store in memory\<close>

type_synonym MemoryTicketStore = "str \<Rightarrow> Ticket option"

definition MemoryTicketStore_Issue ::
  "Codec \<Rightarrow> (nat \<Rightarrow> str option) \<Rightarrow> instant \<Rightarrow> ID \<Rightarrow> ID \<Rightarrow> MemoryTicketStore \<Rightarrow> (str \<times> instant) res \<times> MemoryTicketStore"
where
  "MemoryTicketStore_Issue c rand now userID sessionID s =
     (case secrets_New c rand of
        Inl err \<Rightarrow> (Inl err, s)
      | Inr token \<Rightarrow>
          let expiresAt = now + TicketTTL in
          (Inr (toRaw token, expiresAt),
           s(ticketKey c (toHash token) \<mapsto> \<lparr>tkUserID = userID, tkSessionID = sessionID, tkExpiresAt = expiresAt\<rparr>)))"

definition MemoryTicketStore_Redeem :: "Codec \<Rightarrow> instant \<Rightarrow> str \<Rightarrow> MemoryTicketStore \<Rightarrow> Ticket res \<times> MemoryTicketStore" where
  "MemoryTicketStore_Redeem c now raw s =
     (let k = keyOf c raw; s' = s(k := None) in
      case s k of
        None \<Rightarrow> (Inl ErrTokenInvalid, s')
      | Some t \<Rightarrow> if now > tkExpiresAt t then (Inl ErrTokenInvalid, s') else (Inr t, s'))"

definition MemoryTicketStore_sweep :: "instant \<Rightarrow> MemoryTicketStore \<Rightarrow> MemoryTicketStore" where
  "MemoryTicketStore_sweep now s k =
     (case s k of None \<Rightarrow> None | Some t \<Rightarrow> if now > tkExpiresAt t then None else Some t)"

section \<open>The store in Redis\<close>

definition ticketKeyPrefix :: str where "ticketKeyPrefix = ''junto:wsticket:''"

record storedTicket =
  stUserID :: str
  stSessionID :: str
  stExpiresAt :: instant

definition zeroStored :: storedTicket where
  "zeroStored = \<lparr>stUserID = [], stSessionID = [], stExpiresAt = zeroTime\<rparr>"

definition storedTicket_marshal :: "Codec \<Rightarrow> storedTicket \<Rightarrow> raw" where
  "storedTicket_marshal c t =
     RawObj [(''user_id'', RawStr (stUserID t)), (''session_id'', RawStr (stSessionID t)),
       (''expires_at'', RawStr (cdTimeText c (stExpiresAt t)))]"

definition storedTicket_member :: "Codec \<Rightarrow> str \<Rightarrow> raw \<Rightarrow> storedTicket \<Rightarrow> storedTicket res" where
  "storedTicket_member c key r t =
     (if foldName key = ''user_id'' then bindR (nullable rawText r) (\<lambda>x. Inr (case x of None \<Rightarrow> t | Some s \<Rightarrow> t\<lparr>stUserID := s\<rparr>))
      else if foldName key = ''session_id'' then bindR (nullable rawText r) (\<lambda>x. Inr (case x of None \<Rightarrow> t | Some s \<Rightarrow> t\<lparr>stSessionID := s\<rparr>))
      else if foldName key = ''expires_at'' then bindR (nullable (rawTime (cdWire c)) r) (\<lambda>x. Inr (case x of None \<Rightarrow> t | Some s \<Rightarrow> t\<lparr>stExpiresAt := s\<rparr>))
      else Inr t)"

definition storedTicket_unmarshal :: "Codec \<Rightarrow> raw \<Rightarrow> storedTicket res" where
  "storedTicket_unmarshal c r =
     (case r of
        RawNull \<Rightarrow> Inr zeroStored
      | RawObj kvs \<Rightarrow> foldR (\<lambda>(k, r). storedTicket_member c k r) kvs zeroStored
      | _ \<Rightarrow> Inl errMalformed)"

text \<open>The Redis client: \<^theory_text>\<open>rdSet\<close> stores a value under a key for a time, \<^theory_text>\<open>rdGetDel\<close> reads and deletes in one
  command, each at an instant of the server's clock.\<close>

record 'r Redis =
  rdSet :: "instant \<Rightarrow> str \<Rightarrow> raw \<Rightarrow> instant \<Rightarrow> 'r \<Rightarrow> unit res \<times> 'r"
  rdGetDel :: "instant \<Rightarrow> str \<Rightarrow> 'r \<Rightarrow> raw option res \<times> 'r"

definition RedisTicketStore_Issue ::
  "'r Redis \<Rightarrow> Codec \<Rightarrow> (nat \<Rightarrow> str option) \<Rightarrow> instant \<Rightarrow> instant \<Rightarrow> ID \<Rightarrow> ID \<Rightarrow> 'r \<Rightarrow> (str \<times> instant) res \<times> 'r"
where
  "RedisTicketStore_Issue rd c rand server now userID sessionID s =
     (case secrets_New c rand of
        Inl err \<Rightarrow> (Inl err, s)
      | Inr token \<Rightarrow>
          let expiresAt = now + TicketTTL;
              v = storedTicket_marshal c \<lparr>stUserID = cdIDText c userID, stSessionID = cdIDText c sessionID, stExpiresAt = expiresAt\<rparr> in
          case rdSet rd server (ticketKeyPrefix @ ticketKey c (toHash token)) v TicketTTL s of
            (Inl err, s') \<Rightarrow> (Inl (ErrOther ''storing ws ticket''), s')
          | (Inr _, s') \<Rightarrow> (Inr (toRaw token, expiresAt), s'))"

definition RedisTicketStore_read :: "Codec \<Rightarrow> instant \<Rightarrow> raw option \<Rightarrow> Ticket res" where
  "RedisTicketStore_read c now found =
     (case found of
        None \<Rightarrow> Inl ErrTokenInvalid
      | Some v \<Rightarrow>
          (case storedTicket_unmarshal c v of
             Inl _ \<Rightarrow> Inl ErrTokenInvalid
           | Inr stored \<Rightarrow>
               if now > stExpiresAt stored then Inl ErrTokenInvalid
               else
                 (case ParseID (wUUID (cdWire c)) ''user_id'' (stUserID stored) of
                    Inl _ \<Rightarrow> Inl ErrTokenInvalid
                  | Inr userID \<Rightarrow>
                      (case ParseID (wUUID (cdWire c)) ''session_id'' (stSessionID stored) of
                         Inl _ \<Rightarrow> Inl ErrTokenInvalid
                       | Inr sessionID \<Rightarrow>
                           Inr \<lparr>tkUserID = userID, tkSessionID = sessionID, tkExpiresAt = stExpiresAt stored\<rparr>))))"

definition RedisTicketStore_Redeem ::
  "'r Redis \<Rightarrow> Codec \<Rightarrow> instant \<Rightarrow> instant \<Rightarrow> str \<Rightarrow> 'r \<Rightarrow> Ticket res \<times> 'r"
where
  "RedisTicketStore_Redeem rd c server now raw s =
     (case rdGetDel rd server (ticketKeyPrefix @ keyOf c raw) s of
        (Inl err, s') \<Rightarrow> (Inl (ErrOther ''redeeming ws ticket''), s')
      | (Inr found, s') \<Rightarrow> (RedisTicketStore_read c now found, s'))"

section \<open>What the handshake relies on\<close>

text \<open>A history of a store: tickets issued with the bytes drawn for them, values presented, and time passing
  (the sweeper, or Redis expiring keys).\<close>

datatype 'c TicketEvent = Issued 'c str ID ID | Presented 'c str | Lapsed 'c

locale ticket_store =
  fixes issue :: "'c \<Rightarrow> str \<Rightarrow> ID \<Rightarrow> ID \<Rightarrow> 's \<Rightarrow> 's"
    and redeem :: "'c \<Rightarrow> str \<Rightarrow> 's \<Rightarrow> Ticket res \<times> 's"
    and lapse :: "'c \<Rightarrow> 's \<Rightarrow> 's"
    and held :: "'s \<Rightarrow> str \<Rightarrow> Ticket option"
    and clock :: "'c \<Rightarrow> instant"
    and drawnKey :: "str \<Rightarrow> str"
    and rawKey :: "str \<Rightarrow> str"
  assumes issue_held: "held (issue c buf u sid st) k = Some t \<Longrightarrow>
      k = drawnKey buf \<and> t = \<lparr>tkUserID = u, tkSessionID = sid, tkExpiresAt = clock c + TicketTTL\<rparr> \<or> held st k = Some t"
    and redeem_held: "held (snd (redeem c raw st)) k = Some t \<Longrightarrow> held st k = Some t"
    and redeem_Inr: "redeem c raw st = (Inr t, st') \<Longrightarrow>
      held st (rawKey raw) = Some t \<and> clock c \<le> tkExpiresAt t \<and> held st' (rawKey raw) = None"
    and lapse_held: "held (lapse c st) k = Some t \<Longrightarrow> held st k = Some t"
begin

fun step :: "'s \<Rightarrow> 'c TicketEvent \<Rightarrow> 's" where
  "step st (Issued c buf u sid) = issue c buf u sid st"
| "step st (Presented c raw) = snd (redeem c raw st)"
| "step st (Lapsed c) = lapse c st"

definition run :: "'c TicketEvent list \<Rightarrow> 's \<Rightarrow> 's" where
  "run evs st = foldl step st evs"

fun spends :: "str \<Rightarrow> 's \<Rightarrow> 'c TicketEvent \<Rightarrow> bool" where
  "spends k st (Presented c raw) \<longleftrightarrow> rawKey raw = k \<and> isOk (fst (redeem c raw st))"
| "spends k st _ \<longleftrightarrow> False"

lemma step_held: "held (step st ev) k = Some t \<Longrightarrow>
    (\<exists>c buf u sid. ev = Issued c buf u sid \<and> drawnKey buf = k \<and> t = \<lparr>tkUserID = u, tkSessionID = sid, tkExpiresAt = clock c + TicketTTL\<rparr>) \<or>
    held st k = Some t \<and> \<not> spends k st ev"
proof (cases ev)
  case (Presented c raw)
  assume h: "held (step st ev) k = Some t"
  show ?thesis
  proof (cases "redeem c raw st")
    case (Pair r st')
    then show ?thesis using h Presented redeem_held [of c raw st k t] redeem_Inr [of c raw st _ st'] by (cases r) auto
  qed
next
  case (Issued c buf u sid)
  assume "held (step st ev) k = Some t"
  then show ?thesis using Issued issue_held [of c buf u sid st k t] by auto
next
  case (Lapsed c)
  assume "held (step st ev) k = Some t"
  then show ?thesis using Lapsed lapse_held [of c st k t] by auto
qed

text \<open>What a store holds was issued, and not spent since.\<close>

lemma held_issued:
  assumes "held (run evs st) k = Some t" "held st k = None"
  shows "\<exists>pre c buf u sid mid. evs = pre @ Issued c buf u sid # mid \<and> drawnKey buf = k \<and>
    t = \<lparr>tkUserID = u, tkSessionID = sid, tkExpiresAt = clock c + TicketTTL\<rparr> \<and>
    (\<forall>xs ev ys. mid = xs @ ev # ys \<longrightarrow> \<not> spends k (run (pre @ Issued c buf u sid # xs) st) ev)"
  using assms(1)
proof (induction evs rule: rev_induct)
  case Nil
  then show ?case using assms(2) by (simp add: run_def)
next
  case (snoc ev evs)
  have h: "held (step (run evs st) ev) k = Some t" using snoc.prems by (simp add: run_def)
  show ?case
  proof (cases "\<exists>c buf u sid. ev = Issued c buf u sid \<and> drawnKey buf = k \<and>
      t = \<lparr>tkUserID = u, tkSessionID = sid, tkExpiresAt = clock c + TicketTTL\<rparr>")
    case True
    then show ?thesis by (intro exI [of _ evs]) auto
  next
    case False
    then have e: "held (run evs st) k = Some t" "\<not> spends k (run evs st) ev" using step_held [OF h] by auto
    obtain pre c buf u sid mid where i: "evs = pre @ Issued c buf u sid # mid" "drawnKey buf = k"
      "t = \<lparr>tkUserID = u, tkSessionID = sid, tkExpiresAt = clock c + TicketTTL\<rparr>"
      and n: "\<forall>xs ev ys. mid = xs @ ev # ys \<longrightarrow> \<not> spends k (run (pre @ Issued c buf u sid # xs) st) ev"
      using snoc.IH [OF e(1)] by blast
    have "\<not> spends k (run (pre @ Issued c buf u sid # xs) st) ev'" if "mid @ [ev] = xs @ ev' # ys" for xs ev' ys
    proof (cases ys rule: rev_cases)
      case Nil
      then show ?thesis using that e(2) i(1) by simp
    next
      case (snoc ys' y)
      then show ?thesis using that n by auto
    qed
    then show ?thesis using i by (intro exI [of _ pre] exI [of _ c] exI [of _ buf] exI [of _ u] exI [of _ sid] exI [of _ "mid @ [ev]"]) auto
  qed
qed

lemma redeemed_once:
  assumes "redeem c raw (run evs st) = (Inr t, st')" "held st (rawKey raw) = None"
  shows "(\<exists>pre c0 buf mid. evs = pre @ Issued c0 buf (tkUserID t) (tkSessionID t) # mid \<and> drawnKey buf = rawKey raw \<and>
      clock c \<le> clock c0 + TicketTTL \<and>
      (\<forall>xs ev ys. mid = xs @ ev # ys \<longrightarrow> \<not> spends (rawKey raw) (run (pre @ Issued c0 buf (tkUserID t) (tkSessionID t) # xs) st) ev)) \<and>
    (\<forall>c' raw'. rawKey raw' = rawKey raw \<longrightarrow> \<not> isOk (fst (redeem c' raw' st')))"
proof -
  have r: "held (run evs st) (rawKey raw) = Some t" "clock c \<le> tkExpiresAt t" "held st' (rawKey raw) = None"
    using redeem_Inr [OF assms(1)] by simp_all
  have dead: "\<not> isOk (fst (redeem c' raw' st'))" if k: "rawKey raw' = rawKey raw" for c' raw'
  proof
    assume "isOk (fst (redeem c' raw' st'))"
    then obtain t' where "redeem c' raw' st' = (Inr t', snd (redeem c' raw' st'))"
      by (elim isOkE) (metis prod.collapse)
    from redeem_Inr [OF this] show False using r(3) k by simp
  qed
  obtain pre c0 buf u sid mid where i: "evs = pre @ Issued c0 buf u sid # mid" "drawnKey buf = rawKey raw"
    "t = \<lparr>tkUserID = u, tkSessionID = sid, tkExpiresAt = clock c0 + TicketTTL\<rparr>"
    and n: "\<forall>xs ev ys. mid = xs @ ev # ys \<longrightarrow> \<not> spends (rawKey raw) (run (pre @ Issued c0 buf u sid # xs) st) ev"
    using held_issued [OF r(1) assms(2)] by blast
  have t: "tkUserID t = u" "tkSessionID t = sid" "clock c \<le> clock c0 + TicketTTL" using i(3) r(2) by simp_all
  show ?thesis unfolding t(1,2) using i(1,2) t(3) n dead by blast
qed

end

section \<open>Both stores provide it\<close>

definition memory_issue :: "Codec \<Rightarrow> instant \<Rightarrow> str \<Rightarrow> ID \<Rightarrow> ID \<Rightarrow> MemoryTicketStore \<Rightarrow> MemoryTicketStore" where
  "memory_issue c now buf u sid s = snd (MemoryTicketStore_Issue c (\<lambda>_. Some buf) now u sid s)"

interpretation memory: ticket_store "memory_issue c" "MemoryTicketStore_Redeem c" MemoryTicketStore_sweep "\<lambda>s. s" "\<lambda>now. now"
  "\<lambda>buf. keyOf c (cdBase64 c buf)" "keyOf c" for c
proof unfold_locales
  show "k = keyOf c (cdBase64 c buf) \<and> t = \<lparr>tkUserID = u, tkSessionID = sid, tkExpiresAt = now + TicketTTL\<rparr> \<or> st k = Some t"
    if "memory_issue c now buf u sid st k = Some t" for now buf u sid st k t
    using that by (simp add: memory_issue_def MemoryTicketStore_Issue_def secrets_New_def Let_def keyOf_def split: if_splits)
  show "st k = Some t" if "snd (MemoryTicketStore_Redeem c now raw st) k = Some t" for now raw st k t
    using that by (simp add: MemoryTicketStore_Redeem_def Let_def split: option.splits if_splits)
  show "st (keyOf c raw) = Some t \<and> now \<le> tkExpiresAt t \<and> st' (keyOf c raw) = None"
    if "MemoryTicketStore_Redeem c now raw st = (Inr t, st')" for now raw st t st'
    using that by (auto simp: MemoryTicketStore_Redeem_def Let_def split: option.splits if_splits)
  show "st k = Some t" if "MemoryTicketStore_sweep now st k = Some t" for now st k t
    using that by (simp add: MemoryTicketStore_sweep_def split: option.splits if_splits)
qed

text \<open>Of Redis the store needs: a \<^theory_text>\<open>SET\<close> makes at most its own value readable, \<^theory_text>\<open>GETDEL\<close> returns what
  was readable and leaves nothing, and a command that fails makes nothing readable that was not.\<close>

locale redis_client =
  fixes rd :: "'r Redis" and readable :: "'r \<Rightarrow> str \<Rightarrow> raw option" and expire :: "instant \<Rightarrow> 'r \<Rightarrow> 'r" and codec :: Codec
  assumes set_readable: "rdSet rd now k v ttl r = (res, r') \<Longrightarrow> readable r' k' = Some v' \<Longrightarrow> k' = k \<and> v' = v \<or> readable r k' = Some v'"
    and getdel_readable: "rdGetDel rd now k r = (ans, r') \<Longrightarrow> readable r' k' = Some v' \<Longrightarrow> readable r k' = Some v'"
    and getdel_value: "rdGetDel rd now k r = (Inr (Some v), r') \<Longrightarrow> readable r k = Some v \<and> readable r' k = None"
    and expire_readable: "readable (expire now r) k' = Some v' \<Longrightarrow> readable r k' = Some v'"
    and faithful: "faithfulCodec codec"
begin

definition redis_issue :: "instant \<times> instant \<Rightarrow> str \<Rightarrow> ID \<Rightarrow> ID \<Rightarrow> 'r \<Rightarrow> 'r" where
  "redis_issue c buf u sid s = snd (RedisTicketStore_Issue rd codec (\<lambda>_. Some buf) (fst c) (snd c) u sid s)"

definition redis_redeem :: "instant \<times> instant \<Rightarrow> str \<Rightarrow> 'r \<Rightarrow> Ticket res \<times> 'r" where
  "redis_redeem c raw s = RedisTicketStore_Redeem rd codec (fst c) (snd c) raw s"

text \<open>The ticket under a key, were it presented in time.\<close>

definition redis_held :: "'r \<Rightarrow> str \<Rightarrow> Ticket option" where
  "redis_held r k =
     (case readable r (ticketKeyPrefix @ k) of
        None \<Rightarrow> None
      | Some v \<Rightarrow>
          (case storedTicket_unmarshal codec v of
             Inl _ \<Rightarrow> None
           | Inr stored \<Rightarrow>
               (case RedisTicketStore_read codec (stExpiresAt stored) (Some v) of Inl _ \<Rightarrow> None | Inr t \<Rightarrow> Some t)))"

lemma issued_value:
  "RedisTicketStore_read codec now (Some (storedTicket_marshal codec \<lparr>stUserID = cdIDText codec u, stSessionID = cdIDText codec sid, stExpiresAt = ex\<rparr>)) =
     (if now > ex then Inl ErrTokenInvalid else Inr \<lparr>tkUserID = u, tkSessionID = sid, tkExpiresAt = ex\<rparr>)"
  "storedTicket_unmarshal codec (storedTicket_marshal codec st) = Inr st"
  using faithful
  by (simp_all add: RedisTicketStore_read_def storedTicket_marshal_def storedTicket_unmarshal_def storedTicket_member_def
      faithfulCodec_def ParseID_def zeroStored_def nullable_def rawText_def rawTime_def fromOption_def foldName.simps ToLowerASCII_def)

lemma redeem_cases:
  assumes "RedisTicketStore_read codec now found = Inr t"
  shows "\<exists>v stored. found = Some v \<and> storedTicket_unmarshal codec v = Inr stored \<and> now \<le> tkExpiresAt t \<and>
    tkExpiresAt t = stExpiresAt stored \<and> RedisTicketStore_read codec (stExpiresAt stored) (Some v) = Inr t"
  using assms by (auto simp: RedisTicketStore_read_def split: option.splits sum.splits if_splits)

end

sublocale redis_client \<subseteq> redis: ticket_store redis_issue redis_redeem "\<lambda>c. expire (fst c)" redis_held snd
  "\<lambda>buf. keyOf codec (cdBase64 codec buf)" "keyOf codec"
proof unfold_locales
  fix c :: "instant \<times> instant" and buf u sid st k t
  assume h: "redis_held (redis_issue c buf u sid st) k = Some t"
  show "k = keyOf codec (cdBase64 codec buf) \<and> t = \<lparr>tkUserID = u, tkSessionID = sid, tkExpiresAt = snd c + TicketTTL\<rparr> \<or>
    redis_held st k = Some t"
  proof (cases "rdSet rd (fst c) (ticketKeyPrefix @ keyOf codec (cdBase64 codec buf)) (storedTicket_marshal codec
      \<lparr>stUserID = cdIDText codec u, stSessionID = cdIDText codec sid, stExpiresAt = snd c + TicketTTL\<rparr>) TicketTTL st")
    case (Pair res st')
    have st': "redis_issue c buf u sid st = st'"
      using Pair by (simp add: redis_issue_def RedisTicketStore_Issue_def secrets_New_def Let_def keyOf_def split: sum.splits)
    obtain v where v: "readable st' (ticketKeyPrefix @ k) = Some v" using h st' by (auto simp: redis_held_def split: option.splits)
    then consider "k = keyOf codec (cdBase64 codec buf)" "v = storedTicket_marshal codec
        \<lparr>stUserID = cdIDText codec u, stSessionID = cdIDText codec sid, stExpiresAt = snd c + TicketTTL\<rparr>"
      | "readable st (ticketKeyPrefix @ k) = Some v"
      using set_readable [OF Pair] by auto
    then show ?thesis
    proof cases
      case 1
      then show ?thesis using h v by (simp add: redis_held_def st' issued_value)
    next
      case 2
      then show ?thesis using h v by (simp add: redis_held_def st')
    qed
  qed
next
  have sub: "redis_held st' k = Some t \<Longrightarrow> (\<And>v. readable st' (ticketKeyPrefix @ k) = Some v \<Longrightarrow> readable st (ticketKeyPrefix @ k) = Some v) \<Longrightarrow>
      redis_held st k = Some t" for st st' k t
    by (auto simp: redis_held_def split: option.splits)
  fix c :: "instant \<times> instant" and raw st k t
  show "redis_held st k = Some t" if "redis_held (snd (redis_redeem c raw st)) k = Some t"
    using that
  proof (rule sub)
    fix v assume "readable (snd (redis_redeem c raw st)) (ticketKeyPrefix @ k) = Some v"
    then show "readable st (ticketKeyPrefix @ k) = Some v"
      by (cases "rdGetDel rd (fst c) (ticketKeyPrefix @ keyOf codec raw) st")
        (auto simp: redis_redeem_def RedisTicketStore_Redeem_def split: sum.splits dest: getdel_readable)
  qed
  show "redis_held st k = Some t" if "redis_held (expire (fst c) st) k = Some t"
    using that by (rule sub) (rule expire_readable)
  fix st' assume r: "redis_redeem c raw st = (Inr t, st')"
  obtain found where g: "rdGetDel rd (fst c) (ticketKeyPrefix @ keyOf codec raw) st = (Inr found, st')"
    "RedisTicketStore_read codec (snd c) found = Inr t"
    using r by (cases "rdGetDel rd (fst c) (ticketKeyPrefix @ keyOf codec raw) st")
      (auto simp: redis_redeem_def RedisTicketStore_Redeem_def split: sum.splits)
  obtain v stored where v: "found = Some v" "storedTicket_unmarshal codec v = Inr stored" "snd c \<le> tkExpiresAt t"
    "RedisTicketStore_read codec (stExpiresAt stored) (Some v) = Inr t"
    using redeem_cases [OF g(2)] by blast
  show "redis_held st (keyOf codec raw) = Some t \<and> snd c \<le> tkExpiresAt t \<and> redis_held st' (keyOf codec raw) = None"
    using getdel_value [OF g(1) [unfolded v(1)]] v by (simp add: redis_held_def)
qed

section \<open>Instances\<close>

definition redisMap :: "(str \<Rightarrow> (raw \<times> instant) option) Redis" where
  "redisMap =
     \<lparr>rdSet = (\<lambda>now k v ttl r. (Inr (), r(k \<mapsto> (v, now + ttl)))),
      rdGetDel = (\<lambda>now k r. (Inr (case r k of None \<Rightarrow> None | Some (v, end) \<Rightarrow> if now < end then Some v else None), r(k := None)))\<rparr>"

definition redisReadable :: "(str \<Rightarrow> (raw \<times> instant) option) \<Rightarrow> str \<Rightarrow> raw option" where
  "redisReadable r k = map_option fst (r k)"

definition redisExpire :: "instant \<Rightarrow> (str \<Rightarrow> (raw \<times> instant) option) \<Rightarrow> str \<Rightarrow> (raw \<times> instant) option" where
  "redisExpire now r k = (case r k of None \<Rightarrow> None | Some (v, end) \<Rightarrow> if now < end then Some (v, end) else None)"

definition unaryTime :: "instant \<Rightarrow> str" where
  "unaryTime t = (if t < 0 then CHR ''-'' # replicate (nat (- t)) CHR ''x'' else replicate (nat t) CHR ''x'')"

definition unaryTimeParse :: "str \<Rightarrow> instant option" where
  "unaryTimeParse s = (if s \<noteq> [] \<and> hd s = CHR ''-'' then Some (1 - int (length s)) else Some (int (length s)))"

definition sampleCodec :: Codec where
  "sampleCodec = \<lparr>cdWire = \<lparr>wUUID = unaryParse, wTime = unaryTimeParse, wFloat = (\<lambda>_. None)\<rparr>, cdIDText = unaryText,
     cdTimeText = unaryTime, cdSHA256 = (\<lambda>s. s), cdBase64 = (\<lambda>s. s)\<rparr>"

lemma sampleCodec_faithful: "faithfulCodec sampleCodec"
proof -
  have "unaryTimeParse (unaryTime t) = Some t" for t
    by (cases "nat t") (auto simp: unaryTime_def unaryTimeParse_def)
  then show ?thesis using uuidText_unary by (simp add: faithfulCodec_def sampleCodec_def uuidText_def)
qed

interpretation redis_map: redis_client redisMap redisReadable redisExpire sampleCodec
proof unfold_locales
  show "k' = k \<and> v' = v \<or> redisReadable r k' = Some v'"
    if "rdSet redisMap now k v ttl r = (res, r')" "redisReadable r' k' = Some v'" for now k v ttl r res r' k' v'
    using that by (auto simp: redisMap_def redisReadable_def split: if_splits)
  show "redisReadable r k' = Some v'"
    if "rdGetDel redisMap now k r = (ans, r')" "redisReadable r' k' = Some v'" for now k r ans r' k' v'
    using that by (auto simp: redisMap_def redisReadable_def split: if_splits)
  show "redisReadable r k = Some v \<and> redisReadable r' k = None"
    if "rdGetDel redisMap now k r = (Inr (Some v), r')" for now k r v r'
    using that by (auto simp: redisMap_def redisReadable_def split: if_splits option.splits)
  show "redisReadable r k' = Some v'" if "redisReadable (redisExpire now r) k' = Some v'" for now r k' v'
    using that by (auto simp: redisExpire_def redisReadable_def split: if_splits option.splits)
qed (rule sampleCodec_faithful)

section \<open>Properties\<close>

fun memory_step :: "Codec \<Rightarrow> MemoryTicketStore \<Rightarrow> instant TicketEvent \<Rightarrow> MemoryTicketStore" where
  "memory_step c st (Issued now buf u sid) = snd (MemoryTicketStore_Issue c (\<lambda>_. Some buf) now u sid st)"
| "memory_step c st (Presented now raw) = snd (MemoryTicketStore_Redeem c now raw st)"
| "memory_step c st (Lapsed now) = MemoryTicketStore_sweep now st"

definition memory_run :: "Codec \<Rightarrow> instant TicketEvent list \<Rightarrow> MemoryTicketStore" where
  "memory_run c evs = foldl (memory_step c) (\<lambda>_. None) evs"

lemma memory_run_eq: "memory.run c evs (\<lambda>_. None) = memory_run c evs"
proof -
  have "memory.step c st ev = memory_step c st ev" for st ev by (cases ev) (simp_all add: memory_issue_def)
  then have "memory.step c = memory_step c" by (simp add: fun_eq_iff)
  then show ?thesis by (simp add: memory.run_def memory_run_def)
qed

lemma Redeem_Inl: "fst (MemoryTicketStore_Redeem c now raw st) = Inl err \<Longrightarrow> err = ErrTokenInvalid"
  by (auto simp: MemoryTicketStore_Redeem_def Let_def split: option.splits if_splits)

text \<open>C16: a handshake ticket works once and for thirty seconds: a value that the store redeems was drawn for
  the user and session of the ticket at most thirty seconds ago and was not redeemed since, and
  afterwards it is refused for good, until a draw happens to yield it again.\<close>

theorem ticket_single_use:
  assumes "MemoryTicketStore_Redeem c now raw (memory_run c evs) = (Inr t, st')"
  shows "(\<exists>pre issued buf mid.
      evs = pre @ Issued issued buf (tkUserID t) (tkSessionID t) # mid \<and> keyOf c (cdBase64 c buf) = keyOf c raw \<and>
      now \<le> issued + 30 * 10 ^ 9 \<and>
      (\<forall>xs when raw' ys. mid = xs @ Presented when raw' # ys \<and> keyOf c raw' = keyOf c raw \<longrightarrow>
         \<not> isOk (fst (MemoryTicketStore_Redeem c when raw'
              (memory_run c (pre @ Issued issued buf (tkUserID t) (tkSessionID t) # xs)))))) \<and>
    (\<forall>now' raw'. keyOf c raw' = keyOf c raw \<longrightarrow> fst (MemoryTicketStore_Redeem c now' raw' st') = Inl ErrTokenInvalid)"
proof -
  note once = memory.redeemed_once [of c now raw evs "\<lambda>_. None", unfolded memory_run_eq, OF assms refl]
  obtain pre issued buf mid where i: "evs = pre @ Issued issued buf (tkUserID t) (tkSessionID t) # mid"
    "keyOf c (cdBase64 c buf) = keyOf c raw" "now \<le> issued + TicketTTL"
    and n: "\<forall>xs ev ys. mid = xs @ ev # ys \<longrightarrow>
      \<not> memory.spends c (keyOf c raw) (memory_run c (pre @ Issued issued buf (tkUserID t) (tkSessionID t) # xs)) ev"
    using once by blast
  have n': "\<not> isOk (fst (MemoryTicketStore_Redeem c when raw' (memory_run c (pre @ Issued issued buf (tkUserID t) (tkSessionID t) # xs))))"
    if "mid = xs @ Presented when raw' # ys" "keyOf c raw' = keyOf c raw" for xs "when" raw' ys
    using n that by fastforce
  have dead: "fst (MemoryTicketStore_Redeem c now' raw' st') = Inl ErrTokenInvalid" if "keyOf c raw' = keyOf c raw" for now' raw'
  proof -
    have "\<not> isOk (fst (MemoryTicketStore_Redeem c now' raw' st'))" using once that by blast
    then show ?thesis using Redeem_Inl [of c now' raw' st'] by (cases "fst (MemoryTicketStore_Redeem c now' raw' st')") auto
  qed
  show ?thesis using i n' dead unfolding TicketTTL_def by blast
qed

theorem ticket_single_use_witness:
  "fst (MemoryTicketStore_Redeem sampleCodec 6 ''s''
     (snd (MemoryTicketStore_Redeem sampleCodec 5 ''s'' (memory_run sampleCodec [Issued 0 ''s'' 3 7])))) = Inl ErrTokenInvalid"
proof -
  let ?t = "\<lparr>tkUserID = 3, tkSessionID = 7, tkExpiresAt = 30 * 10 ^ 9\<rparr>"
  have "MemoryTicketStore_Redeem sampleCodec 5 ''s'' (memory_run sampleCodec [Issued 0 ''s'' 3 7]) =
      (Inr ?t, snd (MemoryTicketStore_Redeem sampleCodec 5 ''s'' (memory_run sampleCodec [Issued 0 ''s'' 3 7])))"
    by (simp add: memory_run_def MemoryTicketStore_Issue_def MemoryTicketStore_Redeem_def secrets_New_def secrets_Hash_def
        sampleCodec_def keyOf_def ticketKey_def TicketTTL_def Let_def)
  from ticket_single_use [OF this] show ?thesis by blast
qed

end
