(* ===== verification/Peers.thy ===== *)
theory Peers
  imports Tickets "HOL-Library.Sublist"
begin

text \<open>The channels between server instances (src/internal/pubsub: redis.go, revocation.go): committed operations
  on one channel per trip, revocations on one channel for all, each message an envelope that names the
  instance it comes from. A message is the decoded JSON document, or nothing when it does not decode.

  Redis is a parameter: which of the commands given to it are carried out and whether it reports success.
  What a subscriber connection then receives is an argument of the theorems, restricted only by what
  pub/sub documents: a message that was published, on a channel the connection holds. Any of them may be
  lost for good. An operation that the log can hold encodes, so the encoding errors have no case here.\<close>

section \<open>Kinds as texts\<close>

definition kindTexts :: "(OpKind \<times> str) list" where
  "kindTexts =
     [(OpDayCreate, ''day.create.v1''), (OpDayEdit, ''day.edit.v1''), (OpDayMove, ''day.move.v1''),
      (OpDayDelete, ''day.delete.v1''), (OpSlotCreate, ''slot.create.v1''), (OpSlotEdit, ''slot.edit.v1''),
      (OpSlotMove, ''slot.move.v1''), (OpSlotSelectOption, ''slot.select_option.v1''),
      (OpSlotSetStatus, ''slot.set_status.v1''), (OpSlotDelete, ''slot.delete.v1''),
      (OpOptionCreate, ''option.create.v1''), (OpOptionEdit, ''option.edit.v1''),
      (OpOptionDelete, ''option.delete.v1''), (OpVoteSet, ''vote.set.v1''), (OpBudgetSet, ''budget.set.v1''),
      (OpBudgetDelete, ''budget.delete.v1''), (OpAttachmentAdd, ''attachment.add.v1''),
      (OpAttachmentRemove, ''attachment.remove.v1''), (OpCommentCreate, ''comment.create.v1''),
      (OpCommentDelete, ''comment.delete.v1'')]"

definition kindText :: "OpKind \<Rightarrow> str" where
  "kindText k = (case k of UnknownKind s \<Rightarrow> s | _ \<Rightarrow> the (map_of kindTexts k))"

definition textKind :: "str \<Rightarrow> OpKind" where
  "textKind s = (case map_of (map prod.swap kindTexts) s of Some k \<Rightarrow> k | None \<Rightarrow> UnknownKind s)"

lemma textKind_kindText: "OpKind_Valid k \<Longrightarrow> textKind (kindText k) = k"
  by (cases k) (simp_all add: kindText_def textKind_def kindTexts_def OpKind_Valid_def opKinds_def)

section \<open>Operations between instances\<close>

record wireOp =
  woID :: str
  woTripID :: str
  woSeq :: int
  woActorID :: "str option"
  woKind :: str
  woEntityID :: str
  woFields :: "str list"
  woPayload :: "OpPayload option"
  woClientOpID :: "str option"
  woCauseOpID :: "str option"
  woCreatedAt :: instant

definition idPtrText :: "(ID \<Rightarrow> str) \<Rightarrow> ID option \<Rightarrow> str option" where
  "idPtrText us i = map_option us i"

definition toWire :: "(ID \<Rightarrow> str) \<Rightarrow> Op \<Rightarrow> wireOp" where
  "toWire us op =
     \<lparr>woID = us (opID op), woTripID = us (opTripID op), woSeq = opSeq op, woActorID = idPtrText us (opActorID op),
      woKind = kindText (opKind op), woEntityID = us (opEntityID op), woFields = opFields op, woPayload = opPayload op,
      woClientOpID = idPtrText us (opClientOpID op), woCauseOpID = idPtrText us (opCauseOpID op),
      woCreatedAt = opCreatedAt op\<rparr>"

definition parsePeerID :: "(str \<Rightarrow> ID option) \<Rightarrow> str \<Rightarrow> str option \<Rightarrow> ID option res" where
  "parsePeerID up field raw =
     (case raw of
        None \<Rightarrow> Inr None
      | Some s \<Rightarrow> if s = [] then Inr None else bindR (ParseID up field s) (\<lambda>i. Inr (Some i)))"

definition wireOp_toDomain :: "(str \<Rightarrow> ID option) \<Rightarrow> wireOp \<Rightarrow> Op res" where
  "wireOp_toDomain up w =
     bindR (ParseID up ''id'' (woID w)) (\<lambda>i.
     bindR (ParseID up ''trip_id'' (woTripID w)) (\<lambda>tripID.
     bindR (ParseID up ''entity_id'' (woEntityID w)) (\<lambda>entityID.
     bindR (parsePeerID up ''actor_id'' (woActorID w)) (\<lambda>actorID.
     bindR (parsePeerID up ''client_op_id'' (woClientOpID w)) (\<lambda>clientOpID.
     bindR (parsePeerID up ''cause_op_id'' (woCauseOpID w)) (\<lambda>causeOpID.
       if woSeq w \<le> 0 then Inl (ErrOther ''non-positive sequence number'')
       else Inr \<lparr>opID = i, opTripID = tripID, opSeq = woSeq w, opActorID = actorID, opKind = textKind (woKind w),
              opEntityID = entityID, opFields = woFields w, opPayload = woPayload w, opClientOpID = clientOpID,
              opCauseOpID = causeOpID, opCreatedAt = woCreatedAt w\<rparr>))))))"

definition channelPrefix :: str where "channelPrefix = ''junto:ops:''"

definition channelFor :: "(ID \<Rightarrow> str) \<Rightarrow> ID \<Rightarrow> str" where
  "channelFor us tripID = channelPrefix @ us tripID"

definition keepaliveChannel :: str where "keepaliveChannel = channelPrefix @ ''keepalive''"

text \<open>One instance's end: its name, the channels its subscriber connection (\<^theory_text>\<open>pubsub\<close>) holds, the trips it counts as
  joined, whether it was closed. An unsubscription that fails leaves the channel held and the trip not joined.\<close>

record OpTransport =
  otInstance :: str
  otChannels :: "str set"
  otJoined :: "ID set"
  otClosed :: bool

definition NewOpTransport :: "str \<Rightarrow> OpTransport" where
  "NewOpTransport me = \<lparr>otInstance = me, otChannels = {keepaliveChannel}, otJoined = {}, otClosed = False\<rparr>"

type_synonym opMessage = "str \<times> (str \<times> wireOp) option"

text \<open>\<^theory_text>\<open>Publish\<close>: the messages of the pipeline, channel and envelope, sent in one round trip. \<^theory_text>\<open>exec\<close> is Redis: the
  commands of the pipeline it carries out, and whether it answers all of them with success.\<close>

definition OpTransport_Publish ::
  "(ID \<Rightarrow> str) \<Rightarrow> (opMessage list \<Rightarrow> opMessage list \<times> bool) \<Rightarrow> OpTransport \<Rightarrow> Op list \<Rightarrow> unit res \<times> opMessage list"
where
  "OpTransport_Publish us exec t ops =
     (if ops = [] then (Inr (), [])
      else (case exec (map (\<lambda>op. (channelFor us (opTripID op), Some (otInstance t, toWire us op))) ops) of
              (sent, ok) \<Rightarrow> (if ok then Inr () else Inl (ErrOther ''publishing operations''), sent)))"

definition OpTransport_Join :: "(ID \<Rightarrow> str) \<Rightarrow> bool \<Rightarrow> ID \<Rightarrow> OpTransport \<Rightarrow> unit res \<times> OpTransport" where
  "OpTransport_Join us subscribed tripID t =
     (if otClosed t then (Inr (), t)
      else if tripID \<in> otJoined t then (Inr (), t)
      else if subscribed then
        (Inr (), t\<lparr>otJoined := insert tripID (otJoined t), otChannels := insert (channelFor us tripID) (otChannels t)\<rparr>)
      else (Inl (ErrOther ''subscribing to trip''), t\<lparr>otJoined := otJoined t - {tripID}\<rparr>))"

definition OpTransport_Leave :: "(ID \<Rightarrow> str) \<Rightarrow> bool \<Rightarrow> ID \<Rightarrow> OpTransport \<Rightarrow> unit res \<times> OpTransport" where
  "OpTransport_Leave us unsubscribed tripID t =
     (if otClosed t then (Inr (), t)
      else if tripID \<notin> otJoined t then (Inr (), t)
      else if unsubscribed then
        (Inr (), t\<lparr>otJoined := otJoined t - {tripID}, otChannels := otChannels t - {channelFor us tripID}\<rparr>)
      else (Inl (ErrOther ''unsubscribing from trip''), t\<lparr>otJoined := otJoined t - {tripID}\<rparr>))"

text \<open>One turn of \<^theory_text>\<open>Run\<close>: what it hands to the broker of a message that arrived on \<^theory_text>\<open>pubsub.Channel()\<close>. It does not
  look at the channel: that only messages of held channels arrive is what Redis promises.\<close>

definition OpTransport_Run :: "(str \<Rightarrow> ID option) \<Rightarrow> OpTransport \<Rightarrow> opMessage \<Rightarrow> Op list" where
  "OpTransport_Run up t msg =
     (case snd msg of
        None \<Rightarrow> []
      | Some (from, w) \<Rightarrow>
          if from = otInstance t then []
          else (case wireOp_toDomain up w of Inl _ \<Rightarrow> [] | Inr op \<Rightarrow> [op]))"

definition OpTransport_Close :: "OpTransport \<Rightarrow> OpTransport" where
  "OpTransport_Close t = t\<lparr>otChannels := {}, otClosed := True\<rparr>"

text \<open>The messages among those published that Redis may hand to the subscriber connection.\<close>

definition channelMessages :: "OpTransport \<Rightarrow> opMessage list \<Rightarrow> opMessage list" where
  "channelMessages t sent = filter (\<lambda>msg. fst msg \<in> otChannels t) sent"

text \<open>The states a transport can be in.\<close>

inductive transport :: "(ID \<Rightarrow> str) \<Rightarrow> OpTransport \<Rightarrow> bool" for us where
  built: "transport us (NewOpTransport me)"
| joined: "transport us t \<Longrightarrow> OpTransport_Join us subscribed tripID t = (res, t') \<Longrightarrow> transport us t'"
| left: "transport us t \<Longrightarrow> OpTransport_Leave us unsubscribed tripID t = (res, t') \<Longrightarrow> transport us t'"
| closed: "transport us t \<Longrightarrow> transport us (OpTransport_Close t)"

section \<open>Revocations between instances\<close>

record wireRevocation =
  wrScope :: str
  wrUserID :: str
  wrSessionID :: str
  wrReason :: str
  wrAt :: instant

definition scopeText :: "RevokeScope \<Rightarrow> str" where
  "scopeText s = (case s of RevokeScopeSession \<Rightarrow> ''session'' | RevokeScopeUser \<Rightarrow> ''user'')"

definition textScope :: "str \<Rightarrow> RevokeScope option" where
  "textScope s = (if s = ''session'' then Some RevokeScopeSession else if s = ''user'' then Some RevokeScopeUser else None)"

definition toWireRevocation :: "(ID \<Rightarrow> str) \<Rightarrow> RevocationEvent \<Rightarrow> wireRevocation" where
  "toWireRevocation us ev =
     \<lparr>wrScope = scopeText (reScope ev), wrUserID = us (reUserID ev),
      wrSessionID = (if reSessionID ev \<noteq> NilID then us (reSessionID ev) else []),
      wrReason = reReason ev, wrAt = reAt ev\<rparr>"

definition wireRevocation_toDomain :: "(str \<Rightarrow> ID option) \<Rightarrow> wireRevocation \<Rightarrow> RevocationEvent res" where
  "wireRevocation_toDomain up w =
     bindR (ParseID up ''user_id'' (wrUserID w)) (\<lambda>userID.
       case textScope (wrScope w) of
         None \<Rightarrow> Inl (ErrOther ''unknown revocation scope'')
       | Some scope \<Rightarrow>
           bindR (if wrSessionID w \<noteq> [] then ParseID up ''session_id'' (wrSessionID w) else Inr NilID) (\<lambda>sessionID.
             if scope = RevokeScopeSession \<and> sessionID = NilID then Inl (ErrOther ''session-scoped revocation carries no session id'')
             else Inr \<lparr>reScope = scope, reUserID = userID, reSessionID = sessionID, reReason = wrReason w, reAt = wrAt w\<rparr>))"

type_synonym revocationMessage = "(str \<times> wireRevocation) option"

text \<open>\<^theory_text>\<open>exec\<close>: whether Redis carries the command out, and whether its answer says so.\<close>

definition RevocationTransport_Publish ::
  "(ID \<Rightarrow> str) \<Rightarrow> (revocationMessage \<Rightarrow> bool \<times> bool) \<Rightarrow> str \<Rightarrow> RevocationEvent \<Rightarrow> unit res \<times> revocationMessage list"
where
  "RevocationTransport_Publish us exec me ev =
     (let msg = Some (me, toWireRevocation us ev) in
      case exec msg of (sent, ok) \<Rightarrow> (if ok then Inr () else Inl (ErrOther ''publishing revocation''), if sent then [msg] else []))"

definition RevocationTransport_Run :: "(str \<Rightarrow> ID option) \<Rightarrow> str \<Rightarrow> revocationMessage \<Rightarrow> RevocationEvent list" where
  "RevocationTransport_Run up me msg =
     (case msg of
        None \<Rightarrow> []
      | Some (from, w) \<Rightarrow>
          if from = me then [] else (case wireRevocation_toDomain up w of Inl _ \<Rightarrow> [] | Inr ev \<Rightarrow> [ev]))"

section \<open>What arrives is what was sent\<close>

definition uuidTexts :: "(ID \<Rightarrow> str) \<Rightarrow> (str \<Rightarrow> ID option) \<Rightarrow> bool" where
  "uuidTexts us up \<longleftrightarrow> (\<forall>i. up (us i) = Some i \<and> us i \<noteq> [])"

lemma parsePeerID_text: "uuidTexts us up \<Longrightarrow> parsePeerID up field (idPtrText us i) = Inr i"
  by (cases i) (simp_all add: uuidTexts_def parsePeerID_def idPtrText_def ParseID_def)

lemma wireOp_roundtrip:
  assumes "uuidTexts us up" "OpKind_Valid (opKind op)" "0 < opSeq op"
  shows "wireOp_toDomain up (toWire us op) = Inr op"
  using assms by (simp add: wireOp_toDomain_def toWire_def parsePeerID_text textKind_kindText) (simp add: ParseID_def uuidTexts_def)

lemma revocation_roundtrip:
  assumes "uuidTexts us up" "reScope ev = RevokeScopeUser \<or> reSessionID ev \<noteq> NilID"
  shows "wireRevocation_toDomain up (toWireRevocation us ev) = Inr ev"
  using assms by (cases "reScope ev")
    (auto simp: wireRevocation_toDomain_def toWireRevocation_def ParseID_def uuidTexts_def textScope_def scopeText_def)

lemma revocation_heard:
  assumes "uuidTexts us up" "reScope ev = RevokeScopeUser \<or> reSessionID ev \<noteq> NilID" "me \<noteq> peer"
  shows "RevocationTransport_Run up peer (Some (me, toWireRevocation us ev)) = [ev]"
  using revocation_roundtrip [OF assms(1,2)] assms(3) by (simp add: RevocationTransport_Run_def)

lemma revocation_sent: "msg \<in> set (snd (RevocationTransport_Publish us exec me ev)) \<Longrightarrow> msg = Some (me, toWireRevocation us ev)"
  by (auto simp: RevocationTransport_Publish_def Let_def split: prod.splits if_splits)

lemma op_heard:
  assumes "uuidTexts us up" "OpKind_Valid (opKind op) \<and> 0 < opSeq op"
  shows "OpTransport_Run up peer (channel, Some (me, toWire us op)) = (if me = otInstance peer then [] else [op])"
  using assms by (simp add: OpTransport_Run_def wireOp_roundtrip)

lemma ops_heard:
  assumes "uuidTexts us up" "\<forall>op \<in> set ops. OpKind_Valid (opKind op) \<and> 0 < opSeq op"
  shows "concat (map (OpTransport_Run up peer) (map (\<lambda>op. (channelFor us (opTripID op), Some (me, toWire us op))) ops)) =
    (if me = otInstance peer then [] else ops)"
  using assms(2) by (induction ops) (simp_all add: op_heard [OF assms(1)])

lemma transport_channels:
  assumes "transport us t" "uuidTexts us up"
  shows "(otClosed t \<longrightarrow> otChannels t = {}) \<and> (\<not> otClosed t \<longrightarrow> (\<forall>tripID \<in> otJoined t. channelFor us tripID \<in> otChannels t))"
proof -
  have inj: "channelFor us i = channelFor us j \<longleftrightarrow> i = j" for i j
    using assms(2) by (metis channelFor_def option.inject same_append_eq uuidTexts_def)
  from assms(1) show ?thesis
    by induction (auto simp: NewOpTransport_def OpTransport_Join_def OpTransport_Leave_def OpTransport_Close_def inj split: if_splits)
qed

text \<open>A list that is cut by dropping messages is the messages of a list that is cut likewise.\<close>

lemma subseq_mapD:
  assumes "subseq ys (map f xs)"
  shows "\<exists>zs. subseq zs xs \<and> ys = map f zs"
  using assms
proof (induction xs arbitrary: ys)
  case (Cons x xs)
  show ?case
  proof (cases ys)
    case Nil
    then show ?thesis by (intro exI [of _ "[]"]) simp
  next
    case (Cons y ys')
    show ?thesis
    proof (cases "y = f x")
      case True
      then obtain zs where "subseq zs xs" "ys' = map f zs" using Cons.IH [of ys'] Cons.prems \<open>ys = y # ys'\<close> by auto
      then show ?thesis using \<open>ys = y # ys'\<close> True by (intro exI [of _ "x # zs"]) simp
    next
      case False
      then obtain zs where "subseq zs xs" "ys = map f zs" using Cons.IH [of ys] Cons.prems \<open>ys = y # ys'\<close> by auto
      then show ?thesis by (intro exI [of _ zs]) (simp add: list_emb_Cons)
    qed
  qed
qed (auto dest: list_emb_Nil2)

end
