(* ===== verification/Sockets.thy ===== *)
theory Sockets
  imports Peers
begin

text \<open>One socket (src/internal/transport/ws: protocol.go, conn.go, handler.go, registry.go): the frames it takes
  and queues, the subscriptions it holds, and how it ends.

  A frame the server queues is a value of \<^theory_text>\<open>Frame\<close>. The goroutines of a connection (the read pump, the write
  pump, the broker delivering into it, a revocation) interleave: each of their turns is one function here.
  The pointers to subscriptions are numbers. Where a \<^theory_text>\<open>select\<close> may take one of two ready cases, the choice is
  a parameter, and so are the answers of the rate limiter and of the socket itself.\<close>

section \<open>The protocol\<close>

record clientFrame =
  frType :: str
  frTripID :: str
  frSinceSeq :: "int option"
  frClientOpID :: str
  frKind :: str
  frEntityID :: str
  frFields :: "str list"
  frValues :: "raw option"

record opFrame =
  ofTripID :: str
  ofSeq :: int
  ofOpID :: str
  ofKind :: str
  ofEntityID :: str
  ofActorID :: str
  ofFields :: "str list"
  ofPayload :: "OpPayload option"
  ofClientOpID :: str
  ofCauseOpID :: str
  ofCreatedAt :: instant

datatype Frame =
    SubscribedFrame str int "(str \<times> str) list"
  | OpFrame opFrame
  | PresenceFrame str str str str
  | ErrorFrame str str str "FieldViolation list"
  | ResyncFrame str
  | UnsubscribedFrame str

definition zeroFrame :: clientFrame where
  "zeroFrame = \<lparr>frType = [], frTripID = [], frSinceSeq = None, frClientOpID = [], frKind = [], frEntityID = [],
     frFields = [], frValues = None\<rparr>"

definition rawTexts :: "raw \<Rightarrow> str list res" where
  "rawTexts r = (case r of RawArr rs \<Rightarrow> mapR (\<lambda>r. bindR (nullable rawText r) (\<lambda>x. Inr (case x of None \<Rightarrow> [] | Some s \<Rightarrow> s))) rs
     | _ \<Rightarrow> Inl errMalformed)"

definition textMember :: "(str \<Rightarrow> clientFrame \<Rightarrow> clientFrame) \<Rightarrow> raw \<Rightarrow> clientFrame \<Rightarrow> clientFrame res" where
  "textMember upd r f = bindR (nullable rawText r) (\<lambda>x. Inr (case x of None \<Rightarrow> f | Some s \<Rightarrow> upd s f))"

definition clientFrame_member :: "str \<Rightarrow> raw \<Rightarrow> clientFrame \<Rightarrow> clientFrame res" where
  "clientFrame_member key r f =
     (if foldName key = ''type'' then textMember (\<lambda>s f. f\<lparr>frType := s\<rparr>) r f
      else if foldName key = ''trip_id'' then textMember (\<lambda>s f. f\<lparr>frTripID := s\<rparr>) r f
      else if foldName key = ''since_seq'' then bindR (nullable rawInt r) (\<lambda>x. Inr (f\<lparr>frSinceSeq := x\<rparr>))
      else if foldName key = ''client_op_id'' then textMember (\<lambda>s f. f\<lparr>frClientOpID := s\<rparr>) r f
      else if foldName key = ''kind'' then textMember (\<lambda>s f. f\<lparr>frKind := s\<rparr>) r f
      else if foldName key = ''entity_id'' then textMember (\<lambda>s f. f\<lparr>frEntityID := s\<rparr>) r f
      else if foldName key = ''fields'' then
        bindR (nullable rawTexts r) (\<lambda>x. Inr (f\<lparr>frFields := (case x of None \<Rightarrow> [] | Some fs \<Rightarrow> fs)\<rparr>))
      else if foldName key = ''values'' then Inr (f\<lparr>frValues := Some r\<rparr>)
      else Inr f)"

definition clientFrame_unmarshal :: "raw \<Rightarrow> clientFrame res" where
  "clientFrame_unmarshal r =
     (case r of
        RawNull \<Rightarrow> Inr zeroFrame
      | RawObj kvs \<Rightarrow> foldR (\<lambda>(k, r). clientFrame_member k r) kvs zeroFrame
      | _ \<Rightarrow> Inl errMalformed)"

definition optText :: "(ID \<Rightarrow> str) \<Rightarrow> ID option \<Rightarrow> str" where
  "optText us i = (case i of None \<Rightarrow> [] | Some i \<Rightarrow> us i)"

definition encodeEvent :: "(ID \<Rightarrow> str) \<Rightarrow> ID \<Rightarrow> Event \<Rightarrow> Frame" where
  "encodeEvent us tripID ev =
     (case ev of
        EventOp op \<Rightarrow> OpFrame
          \<lparr>ofTripID = us (opTripID op), ofSeq = opSeq op, ofOpID = us (opID op), ofKind = kindText (opKind op),
           ofEntityID = us (opEntityID op), ofActorID = optText us (opActorID op), ofFields = opFields op,
           ofPayload = opPayload op, ofClientOpID = optText us (opClientOpID op), ofCauseOpID = optText us (opCauseOpID op),
           ofCreatedAt = opCreatedAt op\<rparr>
      | EventPresence userID connID joined \<Rightarrow>
          PresenceFrame (us tripID) (if joined then ''joined'' else ''left'') (us userID) (us connID))"

section \<open>The connection\<close>

record Conn =
  cnID :: ID
  cnUserID :: ID
  cnSessionID :: ID
  cnSend :: "Frame list"
  cnWritten :: "Frame list"
  cnSubs :: "ID \<Rightarrow> nat option"
  cnClosed :: bool
  cnDraining :: bool

definition sendBuffer :: nat where "sendBuffer = 256"

definition conn_close :: "Conn \<Rightarrow> Conn" where
  "conn_close c = c\<lparr>cnClosed := True\<rparr>"

text \<open>\<^theory_text>\<open>Deliver\<close> and \<^theory_text>\<open>queueRaw\<close>: on a closed connection with room in the buffer either case may be taken.\<close>

definition conn_Deliver :: "(Frame \<Rightarrow> bool) \<Rightarrow> Frame \<Rightarrow> Conn \<Rightarrow> bool \<times> Conn" where
  "conn_Deliver late frame c =
     (if length (cnSend c) < sendBuffer \<and> \<not> (cnClosed c \<and> late frame) then (True, c\<lparr>cnSend := cnSend c @ [frame]\<rparr>)
      else (False, c))"

definition queueRaw :: "(Frame \<Rightarrow> bool) \<Rightarrow> Frame \<Rightarrow> Conn \<Rightarrow> Conn" where
  "queueRaw late frame c =
     (if length (cnSend c) < sendBuffer \<and> \<not> (cnClosed c \<and> late frame) then c\<lparr>cnSend := cnSend c @ [frame]\<rparr>
      else if cnClosed c then c
      else conn_close c)"

definition sendError :: "(Frame \<Rightarrow> bool) \<Rightarrow> str \<Rightarrow> str \<Rightarrow> str \<Rightarrow> FieldViolation list \<Rightarrow> Conn \<Rightarrow> Conn" where
  "sendError late clientOpID code message violations = queueRaw late (ErrorFrame clientOpID code message violations)"

definition isDeadlineExceeded :: "error \<Rightarrow> bool" where
  "isDeadlineExceeded err \<longleftrightarrow> err = ErrOther ''context deadline exceeded''"

definition sendErrorFor :: "(Frame \<Rightarrow> bool) \<Rightarrow> error \<Rightarrow> str \<Rightarrow> Conn \<Rightarrow> Conn" where
  "sendErrorFor late err clientOpID =
     (case err of
        ValidationError violations \<Rightarrow> sendError late clientOpID ''validation_failed'' ''the operation was rejected'' violations
      | ErrNotFound \<Rightarrow> sendError late clientOpID ''not_found'' ''not found'' []
      | ErrForbidden \<Rightarrow> sendError late clientOpID ''forbidden'' ''you do not have permission to do that'' []
      | ErrVersionConflict \<Rightarrow> sendError late clientOpID ''version_conflict'' ''someone else wrote first; refresh and retry'' []
      | _ \<Rightarrow>
          if isDeadlineExceeded err then sendError late clientOpID ''busy'' ''the trip is busy; retry shortly'' []
          else sendError late clientOpID ''internal'' ''the operation could not be applied'' [])"

definition sendResync :: "(ID \<Rightarrow> str) \<Rightarrow> (Frame \<Rightarrow> bool) \<Rightarrow> ID \<Rightarrow> Conn \<Rightarrow> Conn" where
  "sendResync us late tripID = queueRaw late (ResyncFrame (us tripID))"

text \<open>\<^theory_text>\<open>handleSubscribe\<close>: \<^theory_text>\<open>subscribe\<close> is the engine's answer (the subscription, where the client starts, who is
  there), \<^theory_text>\<open>replay\<close> what the replay does to the connection and whether it failed. The second result is the
  subscriptions it closed.\<close>

definition handleSubscribe ::
  "Codec \<Rightarrow> (Frame \<Rightarrow> bool) \<Rightarrow> (ID \<Rightarrow> int option \<Rightarrow> SubscribeError + (nat \<times> int \<times> (ID \<times> ID) list)) \<Rightarrow>
   (Conn \<Rightarrow> Conn \<times> bool) \<Rightarrow> clientFrame \<Rightarrow> Conn \<Rightarrow> Conn \<times> nat list"
where
  "handleSubscribe cd late subscribe replay frame c =
     (case ParseID (wUUID (cdWire cd)) ''trip_id'' (frTripID frame) of
        Inl _ \<Rightarrow> (sendError late [] ''bad_frame'' ''trip_id must be a UUID'' [] c, [])
      | Inr tripID \<Rightarrow>
          (case subscribe tripID (frSinceSeq frame) of
             Inl ErrResyncRequired \<Rightarrow> (sendResync (cdIDText cd) late tripID c, [])
           | Inl (Refused err) \<Rightarrow> (sendErrorFor late err [] c, [])
           | Inr (sub, seq, members) \<Rightarrow>
               let existing = (case cnSubs c tripID of Some old \<Rightarrow> [old] | None \<Rightarrow> []);
                   c = c\<lparr>cnSubs := (cnSubs c)(tripID \<mapsto> sub)\<rparr>;
                   c = queueRaw late (SubscribedFrame (cdIDText cd tripID) seq
                         (map (\<lambda>(u, conn). (cdIDText cd u, cdIDText cd conn)) members)) c in
               case replay c of
                 (c, ok) \<Rightarrow> (if ok then c else sendResync (cdIDText cd) late tripID c, existing)))"

definition conn_Dropped :: "(ID \<Rightarrow> str) \<Rightarrow> (Frame \<Rightarrow> bool) \<Rightarrow> ID \<Rightarrow> Conn \<Rightarrow> Conn" where
  "conn_Dropped us late tripID c = sendResync us late tripID (c\<lparr>cnSubs := (cnSubs c)(tripID := None)\<rparr>)"

definition handleUnsubscribe :: "Codec \<Rightarrow> (Frame \<Rightarrow> bool) \<Rightarrow> clientFrame \<Rightarrow> Conn \<Rightarrow> Conn \<times> nat list" where
  "handleUnsubscribe cd late frame c =
     (case ParseID (wUUID (cdWire cd)) ''trip_id'' (frTripID frame) of
        Inl _ \<Rightarrow> (sendError late [] ''bad_frame'' ''trip_id must be a UUID'' [] c, [])
      | Inr tripID \<Rightarrow>
          (queueRaw late (UnsubscribedFrame (cdIDText cd tripID)) (c\<lparr>cnSubs := (cnSubs c)(tripID := None)\<rparr>),
           case cnSubs c tripID of Some sub \<Rightarrow> [sub] | None \<Rightarrow> []))"

definition opIntent :: "clientFrame \<Rightarrow> ID \<Rightarrow> ID \<Rightarrow> ID \<Rightarrow> ID \<Rightarrow> Intent" where
  "opIntent frame tripID userID clientOpID entityID =
     \<lparr>inTripID = tripID, inActorID = userID, inClientOpID = clientOpID, inKind = textKind (frKind frame),
      inEntityID = entityID, inFields = NewFieldMask (frFields frame), inValues = frValues frame\<rparr>"

definition handleOp :: "Codec \<Rightarrow> (Frame \<Rightarrow> bool) \<Rightarrow> Env \<Rightarrow> clientFrame \<Rightarrow> DB \<Rightarrow> Conn \<Rightarrow> Conn \<times> DB \<times> Op list" where
  "handleOp cd late e frame db c =
     (let up = wUUID (cdWire cd); bad = (\<lambda>message. (sendError late (frClientOpID frame) ''bad_frame'' message [] c, db, [])) in
      case ParseID up ''trip_id'' (frTripID frame) of
        Inl _ \<Rightarrow> bad ''trip_id must be a UUID''
      | Inr tripID \<Rightarrow>
          (case ParseID up ''client_op_id'' (frClientOpID frame) of
             Inl _ \<Rightarrow> bad ''client_op_id must be a UUID''
           | Inr clientOpID \<Rightarrow>
               (case ParseID up ''entity_id'' (frEntityID frame) of
                  Inl _ \<Rightarrow> bad ''entity_id must be a UUID''
                | Inr entityID \<Rightarrow>
                    if cnSubs c tripID = None then
                      (sendError late (frClientOpID frame) ''not_subscribed'' ''subscribe to the trip before sending operations'' [] c, db, [])
                    else
                      (case Engine_Submit (cdWire cd) e (opIntent frame tripID (cnUserID c) clientOpID entityID) db of
                         (Inl err, db', ops) \<Rightarrow> (sendErrorFor late err (frClientOpID frame) c, db', ops)
                       | (Inr None, db', ops) \<Rightarrow> (c, db', ops)
                       | (Inr (Some op), db', ops) \<Rightarrow>
                           (queueRaw late (encodeEvent (cdIDText cd) (opTripID op) (EventOp op)) c, db', ops)))))"

section \<open>The pumps, and how a connection ends\<close>

text \<open>What the read pump does with a message: the limiter may refuse it, it may not be a frame; otherwise the
  frame is handled.\<close>

definition readPump_frame :: "(Frame \<Rightarrow> bool) \<Rightarrow> bool \<Rightarrow> raw option \<Rightarrow> Conn \<Rightarrow> Conn + clientFrame" where
  "readPump_frame late allowed data c =
     (if \<not> allowed then Inl (sendError late [] ''rate_limited'' ''too many operations; slow down'' [] c)
      else (case data of
              None \<Rightarrow> Inl (sendError late [] ''bad_frame'' ''frame is not valid JSON'' [] c)
            | Some r \<Rightarrow>
                (case clientFrame_unmarshal r of
                   Inl _ \<Rightarrow> Inl (sendError late [] ''bad_frame'' ''frame is not valid JSON'' [] c)
                 | Inr frame \<Rightarrow> Inr frame)))"

definition conn_handle ::
  "Codec \<Rightarrow> (Frame \<Rightarrow> bool) \<Rightarrow> Env \<Rightarrow> (ID \<Rightarrow> int option \<Rightarrow> SubscribeError + (nat \<times> int \<times> (ID \<times> ID) list)) \<Rightarrow>
   (Conn \<Rightarrow> Conn \<times> bool) \<Rightarrow> clientFrame \<Rightarrow> DB \<Rightarrow> Conn \<Rightarrow> Conn \<times> nat list \<times> DB \<times> Op list"
where
  "conn_handle cd late e subscribe replay frame db c =
     (if frType frame = ''subscribe'' then (case handleSubscribe cd late subscribe replay frame c of (c, subs) \<Rightarrow> (c, subs, db, []))
      else if frType frame = ''unsubscribe'' then (case handleUnsubscribe cd late frame c of (c, subs) \<Rightarrow> (c, subs, db, []))
      else if frType frame = ''op'' then (case handleOp cd late e frame db c of (c, db, ops) \<Rightarrow> (c, [], db, ops))
      else (sendError late (frClientOpID frame) ''bad_frame'' ''unknown frame type'' [] c, [], db, []))"

definition readPump_turn ::
  "Codec \<Rightarrow> (Frame \<Rightarrow> bool) \<Rightarrow> Env \<Rightarrow> (ID \<Rightarrow> int option \<Rightarrow> SubscribeError + (nat \<times> int \<times> (ID \<times> ID) list)) \<Rightarrow>
   (Conn \<Rightarrow> Conn \<times> bool) \<Rightarrow> bool \<Rightarrow> raw option \<Rightarrow> DB \<Rightarrow> Conn \<Rightarrow> Conn \<times> nat list \<times> DB \<times> Op list"
where
  "readPump_turn cd late e subscribe replay allowed data db c =
     (case readPump_frame late allowed data c of
        Inl c \<Rightarrow> (c, [], db, [])
      | Inr frame \<Rightarrow> conn_handle cd late e subscribe replay frame db c)"

definition writePump_write :: "bool \<Rightarrow> Conn \<Rightarrow> Conn" where
  "writePump_write ok c =
     (case cnSend c of
        [] \<Rightarrow> c
      | frame # rest \<Rightarrow>
          if ok then c\<lparr>cnSend := rest, cnWritten := cnWritten c @ [frame]\<rparr> else conn_close (c\<lparr>cnSend := rest\<rparr>))"

definition writePump_ping :: "bool \<Rightarrow> Conn \<Rightarrow> Conn" where
  "writePump_ping ok c = (if ok then c else conn_close c)"

definition conn_revoke :: "(Frame \<Rightarrow> bool) \<Rightarrow> str \<Rightarrow> Conn \<Rightarrow> Conn" where
  "conn_revoke late reason c =
     (let reason = (if reason = [] then ''your session is no longer valid'' else reason) in
      (queueRaw late (ErrorFrame [] ''session_revoked'' reason []) c)\<lparr>cnDraining := True\<rparr>)"

text \<open>The goroutine that \<^theory_text>\<open>revoke\<close> starts waits for its timer, \<^theory_text>\<open>revokeDrainTimeout\<close> later, or for the connection to
  be closed otherwise; then it closes it. \<^theory_text>\<open>cnDraining\<close> says that such a goroutine was started.\<close>

definition revoke_drained :: "Conn \<Rightarrow> Conn" where
  "revoke_drained c = (if cnDraining c then conn_close c else c)"

definition conn_shutdown :: "Conn \<Rightarrow> Conn \<times> nat set" where
  "conn_shutdown c = ((conn_close c)\<lparr>cnSubs := (\<lambda>_. None)\<rparr>, ran (cnSubs c))"

section \<open>The handshake\<close>

definition newConn :: "ID \<Rightarrow> Ticket \<Rightarrow> Conn" where
  "newConn connID t = \<lparr>cnID = connID, cnUserID = tkUserID t, cnSessionID = tkSessionID t, cnSend = [], cnWritten = [],
     cnSubs = (\<lambda>_. None), cnClosed = False, cnDraining = False\<rparr>"

datatype TicketReply = TicketStatus nat | TicketIssued str instant

definition IssueTicket ::
  "(ID \<Rightarrow> ID \<Rightarrow> 's \<Rightarrow> (str \<times> instant) res \<times> 's) \<Rightarrow> Claims option \<Rightarrow> 's \<Rightarrow> TicketReply \<times> 's"
where
  "IssueTicket issue claims s =
     (case claims of
        None \<Rightarrow> (TicketStatus 401, s)
      | Some cl \<Rightarrow>
          (case issue (clUserID cl) (clSessionID cl) s of
             (Inl _, s') \<Rightarrow> (TicketStatus 500, s')
           | (Inr (raw, expiresAt), s') \<Rightarrow> (TicketIssued raw expiresAt, s')))"

text \<open>\<^theory_text>\<open>Connect\<close>: \<^theory_text>\<open>accepted\<close> says whether the upgrade succeeds. The new connection is registered before it runs.\<close>

definition Connect ::
  "(str \<Rightarrow> 's \<Rightarrow> Ticket res \<times> 's) \<Rightarrow> bool \<Rightarrow> ID \<Rightarrow> str \<Rightarrow> 's \<Rightarrow> Conn list \<Rightarrow> (nat + Conn option) \<times> 's \<times> Conn list"
where
  "Connect redeem accepted connID raw s conns =
     (if raw = [] then (Inl 401, s, conns)
      else (case redeem raw s of
              (Inl _, s') \<Rightarrow> (Inl 401, s', conns)
            | (Inr t, s') \<Rightarrow>
                if \<not> accepted then (Inr None, s', conns)
                else let c = newConn connID t in (Inr (Some c), s', conns @ [c])))"

section \<open>The registry\<close>

definition Registry_remove :: "ID \<Rightarrow> Conn list \<Rightarrow> Conn list" where
  "Registry_remove connID conns = filter (\<lambda>c. cnID c \<noteq> connID) conns"

definition Registry_Count :: "Conn list \<Rightarrow> nat" where
  "Registry_Count conns = length conns"

definition closeMatching :: "(Frame \<Rightarrow> bool) \<Rightarrow> RevocationEvent \<Rightarrow> Conn list \<Rightarrow> nat \<times> Conn list" where
  "closeMatching late ev conns =
     (length (filter (\<lambda>c. Matches ev (cnUserID c) (cnSessionID c)) conns),
      map (\<lambda>c. if Matches ev (cnUserID c) (cnSessionID c) then conn_revoke late (reReason ev) c else c) conns)"

text \<open>\<^theory_text>\<open>Publish\<close> closes local sockets and then gives the peers the event: first whether it had to log that they
  could not be told, which is all an error of the transport does, then what was published. \<^theory_text>\<open>Run\<close> is told of
  what a peer published and arrived here.\<close>

definition Registry_Publish ::
  "(revocationMessage \<Rightarrow> bool \<times> bool) \<Rightarrow> (Frame \<Rightarrow> bool) \<Rightarrow> (ID \<Rightarrow> str) \<Rightarrow> str \<Rightarrow> RevocationEvent \<Rightarrow> Conn list \<Rightarrow>
   bool \<times> revocationMessage list \<times> Conn list"
where
  "Registry_Publish exec late us me ev conns =
     (case closeMatching late ev conns of
        (found, conns) \<Rightarrow>
          (case RevocationTransport_Publish us exec me ev of
             (Inl err, sent) \<Rightarrow> (True, sent, conns)
           | (Inr (), sent) \<Rightarrow> (False, sent, conns)))"

definition Registry_Run :: "(Frame \<Rightarrow> bool) \<Rightarrow> (str \<Rightarrow> ID option) \<Rightarrow> str \<Rightarrow> revocationMessage \<Rightarrow> Conn list \<Rightarrow> Conn list" where
  "Registry_Run late up me msg conns = fold (\<lambda>ev conns. snd (closeMatching late ev conns)) (RevocationTransport_Run up me msg) conns"

end
