(* ===== verification/Http.thy ===== *)
theory Http
  imports Sockets Credentials
begin

text \<open>What every HTTP handler shares (src/internal/transport/http: request.go, response.go;
  src/internal/middleware/auth.go): requests, the decoding of their bodies, problem documents, the mapping of
  domain errors to statuses, bearer tokens.

  A request is what the handlers read of it. The text of a body is not modelled: \<^theory_text>\<open>HttpBody\<close> is what the JSON
  decoder makes of it. Prose (messages, titles, details) is left out. Library functions over texts that
  the handlers call (the quoting of \<^theory_text>\<open>fmt\<close>, dates, addresses) are the fields of \<^theory_text>\<open>HttpLib\<close>.\<close>

section \<open>Requests and responses\<close>

datatype HttpBody = BodyEmpty | BodyMalformed | BodyTooLarge | BodyValue raw bool

record HttpRequest =
  hrMethod :: str
  hrPath :: str
  hrParam :: "str \<Rightarrow> str"
  hrQuery :: "str \<Rightarrow> str"
  hrAuthorization :: str
  hrContentType :: str
  hrBody :: HttpBody
  hrCookie :: "str \<Rightarrow> str option"
  hrUserAgent :: str
  hrRemoteAddr :: str
  hrRequestID :: str
  hrClaims :: "Claims option"

record HttpLib =
  hlCodec :: Codec
  hlQuote :: "str \<Rightarrow> str"
  hlParseDate :: "str \<Rightarrow> instant option"
  hlDateText :: "instant \<Rightarrow> str"
  hlSplitHostPort :: "str \<Rightarrow> str option"
  hlParseAddr :: "str \<Rightarrow> str option"

record Problem =
  pbType :: str
  pbStatus :: nat
  pbInstance :: str
  pbErrors :: "FieldViolation list"

datatype 'b content = NoContent | Data 'b | ProblemDocument Problem

datatype CookieChange = KeepCookie | SetCookie str instant | ClearCookie

record 'b HttpResponse =
  rsStatus :: nat
  rsBody :: "'b content"
  rsCookie :: CookieChange

text \<open>What goes wrong before a service is called: a domain error, or one of the two of the transport.\<close>

datatype requestError = Failed error | UnsupportedMediaType str | PayloadTooLarge int

section \<open>Bodies\<close>

definition maxBodyBytes :: int where "maxBodyBytes = 2 ^ 20"

text \<open>The errors of \<^theory_text>\<open>json.Decoder\<close>: a value of the wrong type for a field, a field the body does not have, and an
  error of a type that unmarshals itself, which ends the decoding; of the others the first is reported.\<close>

datatype decodeFailure = WrongType str | UnknownField str | Unmarshaler

fun decodeMembers ::
  "(str \<Rightarrow> raw \<Rightarrow> 'a \<Rightarrow> decodeFailure + 'a) \<Rightarrow> (str \<times> raw) list \<Rightarrow> decodeFailure option \<Rightarrow> 'a \<Rightarrow> decodeFailure + 'a"
where
  "decodeMembers member [] saved b = (case saved of None \<Rightarrow> Inr b | Some f \<Rightarrow> Inl f)"
| "decodeMembers member ((k, r) # kvs) saved b =
     (case member k r b of
        Inr b' \<Rightarrow> decodeMembers member kvs saved b'
      | Inl Unmarshaler \<Rightarrow> Inl Unmarshaler
      | Inl f \<Rightarrow> decodeMembers member kvs (case saved of None \<Rightarrow> Some f | Some g \<Rightarrow> Some g) b)"

definition decodeObject ::
  "(str \<Rightarrow> raw \<Rightarrow> 'a \<Rightarrow> decodeFailure + 'a) \<Rightarrow> str \<Rightarrow> raw \<Rightarrow> 'a \<Rightarrow> decodeFailure + 'a"
where
  "decodeObject member field r b =
     (case r of RawNull \<Rightarrow> Inr b | RawObj kvs \<Rightarrow> decodeMembers member kvs None b | _ \<Rightarrow> Inl (WrongType field))"

text \<open>Fields: \<^theory_text>\<open>null\<close> leaves a value as it is and clears a pointer or a slice.\<close>

definition typed :: "str \<Rightarrow> (raw \<Rightarrow> 'a res) \<Rightarrow> raw \<Rightarrow> decodeFailure + 'a" where
  "typed field dec r = (case dec r of Inl _ \<Rightarrow> Inl (WrongType field) | Inr x \<Rightarrow> Inr x)"

definition valueField :: "str \<Rightarrow> (raw \<Rightarrow> 'a res) \<Rightarrow> ('a \<Rightarrow> 'b) \<Rightarrow> raw \<Rightarrow> 'b \<Rightarrow> decodeFailure + 'b" where
  "valueField field dec upd r b = (case r of RawNull \<Rightarrow> Inr b | _ \<Rightarrow> bindR (typed field dec r) (\<lambda>x. Inr (upd x)))"

definition pointerField :: "str \<Rightarrow> (raw \<Rightarrow> 'a res) \<Rightarrow> ('a option \<Rightarrow> 'b) \<Rightarrow> raw \<Rightarrow> decodeFailure + 'b" where
  "pointerField field dec upd r =
     (case r of RawNull \<Rightarrow> Inr (upd None) | _ \<Rightarrow> bindR (typed field dec r) (\<lambda>x. Inr (upd (Some x))))"

definition timeField :: "Wire \<Rightarrow> (instant option \<Rightarrow> 'b) \<Rightarrow> raw \<Rightarrow> decodeFailure + 'b" where
  "timeField w upd r =
     (case r of
        RawNull \<Rightarrow> Inr (upd None)
      | _ \<Rightarrow> (case rawTime w r of Inl _ \<Rightarrow> Inl Unmarshaler | Inr t \<Rightarrow> Inr (upd (Some t))))"

definition sliceField :: "str \<Rightarrow> (raw \<Rightarrow> 'a list res) \<Rightarrow> ('a list \<Rightarrow> 'b) \<Rightarrow> raw \<Rightarrow> decodeFailure + 'b" where
  "sliceField field dec upd r = (case r of RawNull \<Rightarrow> Inr (upd []) | _ \<Rightarrow> bindR (typed field dec r) (\<lambda>x. Inr (upd x)))"

definition invalidBody :: "str \<Rightarrow> str \<Rightarrow> requestError" where
  "invalidBody field code = Failed (ValidationError (Add field code []))"

definition decodeError :: "HttpLib \<Rightarrow> decodeFailure \<Rightarrow> requestError" where
  "decodeError l f =
     (case f of
        WrongType field \<Rightarrow> invalidBody (if field = [] then ''body'' else field) ''wrong_type''
      | UnknownField name \<Rightarrow> invalidBody (hlQuote l name) ''unknown_field''
      | Unmarshaler \<Rightarrow> invalidBody ''body'' ''malformed'')"

definition mediaType :: "str \<Rightarrow> str" where
  "mediaType ct = TrimSpace (takeWhile (\<lambda>c. c \<noteq> CHR '';'') ct)"

definition decodeJSON ::
  "HttpLib \<Rightarrow> (str \<Rightarrow> raw \<Rightarrow> 'a \<Rightarrow> decodeFailure + 'a) \<Rightarrow> 'a \<Rightarrow> HttpRequest \<Rightarrow> requestError + 'a"
where
  "decodeJSON l member zero r =
     (if hrContentType r \<noteq> [] \<and> foldName (mediaType (hrContentType r)) \<noteq> ''application/json''
      then Inl (UnsupportedMediaType (mediaType (hrContentType r)))
      else (case hrBody r of
              BodyEmpty \<Rightarrow> Inl (invalidBody ''body'' ''required'')
            | BodyMalformed \<Rightarrow> Inl (invalidBody ''body'' ''malformed'')
            | BodyTooLarge \<Rightarrow> Inl (PayloadTooLarge maxBodyBytes)
            | BodyValue v trailing \<Rightarrow>
                (case decodeObject member [] v zero of
                   Inl f \<Rightarrow> Inl (decodeError l f)
                 | Inr b \<Rightarrow> if trailing then Inl (invalidBody ''body'' ''malformed'') else Inr b)))"

section \<open>Callers, parameters, pages\<close>

definition liftE :: "'a res \<Rightarrow> requestError + 'a" where
  "liftE x = (case x of Inl err \<Rightarrow> Inl (Failed err) | Inr y \<Rightarrow> Inr y)"

definition ClaimsFrom :: "HttpRequest \<Rightarrow> requestError + Claims" where
  "ClaimsFrom r = (case hrClaims r of None \<Rightarrow> Inl (Failed ErrUnauthenticated) | Some c \<Rightarrow> Inr c)"

definition UserIDFrom :: "HttpRequest \<Rightarrow> requestError + ID" where
  "UserIDFrom r = bindR (ClaimsFrom r) (\<lambda>c. Inr (clUserID c))"

definition httpUUID :: "HttpLib \<Rightarrow> str \<Rightarrow> ID option" where
  "httpUUID l = wUUID (cdWire (hlCodec l))"

definition pathID :: "HttpLib \<Rightarrow> HttpRequest \<Rightarrow> str \<Rightarrow> requestError + ID" where
  "pathID l r name = liftE (ParseID (httpUUID l) name (hrParam r name))"

definition optionalID :: "HttpLib \<Rightarrow> str \<Rightarrow> str option \<Rightarrow> requestError + ID option" where
  "optionalID l field text =
     (case text of
        None \<Rightarrow> Inr None
      | Some s \<Rightarrow> if s = [] then Inr None else bindR (liftE (ParseID (httpUUID l) field s)) (\<lambda>i. Inr (Some i)))"

text \<open>\<^theory_text>\<open>strconv.Atoi\<close>: an optional sign and decimal digits, within the range of \<^theory_text>\<open>int\<close>.\<close>

definition Atoi :: "str \<Rightarrow> int option" where
  "Atoi s = (case s of c # ds \<Rightarrow> if c = CHR ''+'' then (case ds of d # _ \<Rightarrow> if d = CHR ''-'' then None else parseInt64 ds | [] \<Rightarrow> None)
                                else parseInt64 s
                     | [] \<Rightarrow> None)"

definition queryPage :: "HttpRequest \<Rightarrow> requestError + PageRequest" where
  "queryPage r =
     (let page = \<lparr>prLimit = 0, prAfter = hrQuery r ''cursor''\<rparr>; raw = hrQuery r ''limit'' in
      if raw = [] then Inr (Normalize page)
      else (case Atoi raw of
              None \<Rightarrow> Inl (Failed (ValidationError (Add ''limit'' ''not_a_number'' [])))
            | Some n \<Rightarrow> Inr (Normalize (page\<lparr>prLimit := n\<rparr>))))"

definition clientIP :: "HttpLib \<Rightarrow> HttpRequest \<Rightarrow> str option" where
  "clientIP l r = hlParseAddr l (case hlSplitHostPort l (hrRemoteAddr r) of Some host \<Rightarrow> host | None \<Rightarrow> hrRemoteAddr r)"

definition requestMeta :: "HttpLib \<Rightarrow> HttpRequest \<Rightarrow> RequestMeta" where
  "requestMeta l r = \<lparr>rmUserAgent = hrUserAgent r, rmIP = clientIP l r\<rparr>"

section \<open>Errors on the wire\<close>

definition problem :: "str \<Rightarrow> nat \<Rightarrow> FieldViolation list \<Rightarrow> HttpRequest \<Rightarrow> Problem" where
  "problem t status ve r = \<lparr>pbType = ''/problems/'' @ t, pbStatus = status, pbInstance = hrRequestID r, pbErrors = ve\<rparr>"

definition writeError :: "error \<Rightarrow> HttpRequest \<Rightarrow> Problem" where
  "writeError err =
     (if isValidationError err then
        problem ''validation-failed'' 422 (case AsValidationError err of Some ve \<Rightarrow> ve | None \<Rightarrow> [])
      else if err \<in> {ErrInvalidCredentials, ErrUnauthenticated, ErrTokenInvalid, ErrTokenExpired, ErrTokenConsumed} then
        problem ''unauthorized'' 401 []
      else if err = ErrEmailNotVerified then problem ''forbidden'' 403 []
      else if err = ErrForbidden then problem ''forbidden'' 403 []
      else if err = ErrNotFound then problem ''not-found'' 404 []
      else if err = ErrVersionConflict then problem ''version-conflict'' 409 []
      else if err = ErrAlreadyExists then problem ''conflict'' 409 []
      else problem ''internal-error'' 500 [])"

definition writeRequestError :: "requestError \<Rightarrow> HttpRequest \<Rightarrow> Problem" where
  "writeRequestError err =
     (case err of
        UnsupportedMediaType _ \<Rightarrow> problem ''unsupported-media-type'' 415 []
      | PayloadTooLarge _ \<Rightarrow> problem ''payload-too-large'' 413 []
      | Failed err \<Rightarrow> writeError err)"

definition writeProblem :: "Problem \<Rightarrow> 'b HttpResponse" where
  "writeProblem p = \<lparr>rsStatus = pbStatus p, rsBody = ProblemDocument p, rsCookie = KeepCookie\<rparr>"

definition writeData :: "nat \<Rightarrow> 'b \<Rightarrow> 'b HttpResponse" where
  "writeData status b = \<lparr>rsStatus = status, rsBody = Data b, rsCookie = KeepCookie\<rparr>"

definition noContent :: "'b HttpResponse" where
  "noContent = \<lparr>rsStatus = 204, rsBody = NoContent, rsCookie = KeepCookie\<rparr>"

text \<open>The common shape of a handler: it refuses the request and nothing has happened, or it makes one call of a
  service and answers with its result or the problem of its error.\<close>

definition handle :: "HttpRequest \<Rightarrow> 's \<Rightarrow> requestError + ('b HttpResponse \<times> 's \<times> 'f list) \<Rightarrow> 'b HttpResponse \<times> 's \<times> 'f list" where
  "handle r s p = (case p of Inl err \<Rightarrow> (writeProblem (writeRequestError err r), s, []) | Inr x \<Rightarrow> x)"

definition answer :: "HttpRequest \<Rightarrow> ('a \<Rightarrow> 'b HttpResponse) \<Rightarrow> 'a res \<times> 's \<times> 'f list \<Rightarrow> 'b HttpResponse \<times> 's \<times> 'f list" where
  "answer r ok x = (case x of (res, s, fx) \<Rightarrow>
     (case res of Inl err \<Rightarrow> writeProblem (writeError err r) | Inr y \<Rightarrow> ok y, s, fx))"

section \<open>Who is calling\<close>

definition bearerToken :: "HttpRequest \<Rightarrow> str option" where
  "bearerToken r =
     (let header = hrAuthorization r; scheme = takeWhile (\<lambda>c. c \<noteq> CHR '' '') header;
          rest = dropWhile (\<lambda>c. c \<noteq> CHR '' '') header in
      if header = [] then None
      else if rest = [] \<or> foldName scheme \<noteq> ''bearer'' then None
      else let token = TrimSpace (tl rest) in if token = [] then None else Some token)"

definition RequireAuth :: "AuthConfig \<Rightarrow> AuthEnv \<Rightarrow> AuthDB \<Rightarrow> HttpRequest \<Rightarrow> Problem + HttpRequest" where
  "RequireAuth cfg e db r =
     (case bearerToken r of
        None \<Rightarrow> Inl (problem ''unauthorized'' 401 [] r)
      | Some token \<Rightarrow>
          (case AuthService_Authenticate cfg e token db of
             Inl _ \<Rightarrow> Inl (problem ''unauthorized'' 401 [] r)
           | Inr claims \<Rightarrow> Inr (r\<lparr>hrClaims := Some claims\<rparr>)))"

end
