(* ===== verification/PlanningHandlers.thy ===== *)
theory PlanningHandlers
  imports Http System
begin

text \<open>The handlers of the planning resources (src/internal/transport/http: slot_handler.go, day_handler.go,
  option_handler.go, vote_handler.go, comment_handler.go, budget_handler.go): the bodies they accept, the
  documents they answer with, one definition per handler. The service calls of a handler are those of
  System; the times in documents are instants, their texts are not modelled.\<close>

section \<open>Slots\<close>

record slotRequest =
  srDayID :: "str option"
  srKind :: str
  srTitle :: str
  srNotes :: str
  srStartTime :: "str option"
  srEndTime :: "str option"
  srAfterSlotID :: "str option"
  srFields :: "str list"
  srVersion :: "int option"

definition zeroSlotRequest :: slotRequest where
  "zeroSlotRequest = \<lparr>srDayID = None, srKind = [], srTitle = [], srNotes = [], srStartTime = None, srEndTime = None,
     srAfterSlotID = None, srFields = [], srVersion = None\<rparr>"

definition slotRequest_member :: "str \<Rightarrow> raw \<Rightarrow> slotRequest \<Rightarrow> decodeFailure + slotRequest" where
  "slotRequest_member key r b =
     (if foldName key = ''day_id'' then pointerField ''day_id'' rawText (\<lambda>x. b\<lparr>srDayID := x\<rparr>) r
      else if foldName key = ''kind'' then valueField ''kind'' rawText (\<lambda>x. b\<lparr>srKind := x\<rparr>) r b
      else if foldName key = ''title'' then valueField ''title'' rawText (\<lambda>x. b\<lparr>srTitle := x\<rparr>) r b
      else if foldName key = ''notes'' then valueField ''notes'' rawText (\<lambda>x. b\<lparr>srNotes := x\<rparr>) r b
      else if foldName key = ''start_time'' then pointerField ''start_time'' rawText (\<lambda>x. b\<lparr>srStartTime := x\<rparr>) r
      else if foldName key = ''end_time'' then pointerField ''end_time'' rawText (\<lambda>x. b\<lparr>srEndTime := x\<rparr>) r
      else if foldName key = ''after_slot_id'' then pointerField ''after_slot_id'' rawText (\<lambda>x. b\<lparr>srAfterSlotID := x\<rparr>) r
      else if foldName key = ''fields'' then sliceField ''fields'' rawTexts (\<lambda>x. b\<lparr>srFields := x\<rparr>) r
      else if foldName key = ''version'' then pointerField ''version'' rawInt (\<lambda>x. b\<lparr>srVersion := x\<rparr>) r
      else Inl (UnknownField key))"

record slotResponse =
  spID :: str
  spDayID :: "str option"
  spKind :: str
  spTitle :: str
  spNotes :: str
  spStartTime :: "str option"
  spEndTime :: "str option"
  spPosition :: str
  spSelectedOptionID :: "str option"
  spStatus :: str
  spStatusChangedAt :: "instant option"
  spStatusChangedBy :: "str option"
  spVersion :: int
  spCreatedAt :: instant
  spUpdatedAt :: instant

definition toSlotResponse :: "(ID \<Rightarrow> str) \<Rightarrow> Slot \<Rightarrow> slotResponse" where
  "toSlotResponse us s =
     \<lparr>spID = us (sID s), spDayID = map_option us (sDayID s), spKind = sKind s, spTitle = sTitle s, spNotes = sNotes s,
      spStartTime = map_option TimeOfDay_String (sStartTime s), spEndTime = map_option TimeOfDay_String (sEndTime s),
      spPosition = sPosition s, spSelectedOptionID = map_option us (sSelectedOptionID s), spStatus = sStatus s,
      spStatusChangedAt = sStatusChangedAt s, spStatusChangedBy = map_option us (sStatusChangedBy s),
      spVersion = sVersion s, spCreatedAt = sCreatedAt s, spUpdatedAt = sUpdatedAt s\<rparr>"

definition optionalTime :: "str \<Rightarrow> str option \<Rightarrow> requestError + TimeOfDay option" where
  "optionalTime field text =
     (case text of
        None \<Rightarrow> Inr None
      | Some s \<Rightarrow>
          if s = [] then Inr None
          else (case ParseTimeOfDay s of
                  Inl _ \<Rightarrow> Inl (Failed (ValidationError (Add field ''invalid_time'' [])))
                | Inr t \<Rightarrow> Inr (Some t)))"

section \<open>Days\<close>

record dayRequest =
  drDate :: "instant option"
  drLabel :: str
  drAfterDayID :: "str option"
  drFields :: "str list"
  drVersion :: "int option"

definition zeroDayRequest :: dayRequest where
  "zeroDayRequest = \<lparr>drDate = None, drLabel = [], drAfterDayID = None, drFields = [], drVersion = None\<rparr>"

definition dayRequest_member :: "Wire \<Rightarrow> str \<Rightarrow> raw \<Rightarrow> dayRequest \<Rightarrow> decodeFailure + dayRequest" where
  "dayRequest_member w key r b =
     (if foldName key = ''date'' then timeField w (\<lambda>x. b\<lparr>drDate := x\<rparr>) r
      else if foldName key = ''label'' then valueField ''label'' rawText (\<lambda>x. b\<lparr>drLabel := x\<rparr>) r b
      else if foldName key = ''after_day_id'' then pointerField ''after_day_id'' rawText (\<lambda>x. b\<lparr>drAfterDayID := x\<rparr>) r
      else if foldName key = ''fields'' then sliceField ''fields'' rawTexts (\<lambda>x. b\<lparr>drFields := x\<rparr>) r
      else if foldName key = ''version'' then pointerField ''version'' rawInt (\<lambda>x. b\<lparr>drVersion := x\<rparr>) r
      else Inl (UnknownField key))"

record dayResponse =
  dpID :: str
  dpDate :: "instant option"
  dpLabel :: str
  dpPosition :: str
  dpVersion :: int
  dpCreatedAt :: instant
  dpUpdatedAt :: instant

definition toDayResponse :: "(ID \<Rightarrow> str) \<Rightarrow> Day \<Rightarrow> dayResponse" where
  "toDayResponse us d =
     \<lparr>dpID = us (dID d), dpDate = dDate d, dpLabel = dLabel d, dpPosition = dPosition d, dpVersion = dVersion d,
      dpCreatedAt = dCreatedAt d, dpUpdatedAt = dUpdatedAt d\<rparr>"

record moveRequest =
  mvAfterID :: "str option"
  mvDayID :: "str option"
  mvVersion :: "int option"

definition moveRequest_member :: "str \<Rightarrow> raw \<Rightarrow> moveRequest \<Rightarrow> decodeFailure + moveRequest" where
  "moveRequest_member key r b =
     (if foldName key = ''after_id'' then pointerField ''after_id'' rawText (\<lambda>x. b\<lparr>mvAfterID := x\<rparr>) r
      else if foldName key = ''day_id'' then pointerField ''day_id'' rawText (\<lambda>x. b\<lparr>mvDayID := x\<rparr>) r
      else if foldName key = ''version'' then pointerField ''version'' rawInt (\<lambda>x. b\<lparr>mvVersion := x\<rparr>) r
      else Inl (UnknownField key))"

text \<open>\<^theory_text>\<open>versionRequest\<close>, \<^theory_text>\<open>selectOptionRequest\<close>, \<^theory_text>\<open>setStatusRequest\<close> and \<^theory_text>\<open>castVoteRequest\<close>.\<close>

definition versionRequest_member :: "str \<Rightarrow> raw \<Rightarrow> int option \<Rightarrow> decodeFailure + int option" where
  "versionRequest_member key r b =
     (if foldName key = ''version'' then pointerField ''version'' rawInt (\<lambda>x. x) r else Inl (UnknownField key))"

definition selectOptionRequest_member :: "str \<Rightarrow> raw \<Rightarrow> str option \<times> int option \<Rightarrow> decodeFailure + (str option \<times> int option)" where
  "selectOptionRequest_member key r b =
     (if foldName key = ''option_id'' then pointerField ''option_id'' rawText (\<lambda>x. (x, snd b)) r
      else if foldName key = ''version'' then pointerField ''version'' rawInt (\<lambda>x. (fst b, x)) r
      else Inl (UnknownField key))"

definition setStatusRequest_member :: "str \<Rightarrow> raw \<Rightarrow> str \<times> int option \<Rightarrow> decodeFailure + (str \<times> int option)" where
  "setStatusRequest_member key r b =
     (if foldName key = ''status'' then valueField ''status'' rawText (\<lambda>x. (x, snd b)) r b
      else if foldName key = ''version'' then pointerField ''version'' rawInt (\<lambda>x. (fst b, x)) r
      else Inl (UnknownField key))"

definition castVoteRequest_member :: "str \<Rightarrow> raw \<Rightarrow> str option \<Rightarrow> decodeFailure + str option" where
  "castVoteRequest_member key r b =
     (if foldName key = ''option_id'' then pointerField ''option_id'' rawText (\<lambda>x. x) r else Inl (UnknownField key))"

section \<open>Options, votes and comments\<close>

definition zeroPlace :: Place where
  "zeroPlace = \<lparr>plName = [], plAddress = [], plLat = None, plLng = None, plProviderID = []\<rparr>"

definition placeRequest_member :: "Wire \<Rightarrow> str \<Rightarrow> raw \<Rightarrow> Place \<Rightarrow> decodeFailure + Place" where
  "placeRequest_member w key r b =
     (if foldName key = ''name'' then valueField ''place.name'' rawText (\<lambda>x. b\<lparr>plName := x\<rparr>) r b
      else if foldName key = ''address'' then valueField ''place.address'' rawText (\<lambda>x. b\<lparr>plAddress := x\<rparr>) r b
      else if foldName key = ''lat'' then pointerField ''place.lat'' (rawFloat w) (\<lambda>x. b\<lparr>plLat := x\<rparr>) r
      else if foldName key = ''lng'' then pointerField ''place.lng'' (rawFloat w) (\<lambda>x. b\<lparr>plLng := x\<rparr>) r
      else if foldName key = ''provider_id'' then valueField ''place.provider_id'' rawText (\<lambda>x. b\<lparr>plProviderID := x\<rparr>) r b
      else Inl (UnknownField key))"

record optionRequest =
  orTitle :: str
  orNotes :: str
  orExternalURL :: str
  orEstimatedCostMinor :: "int64 option"
  orPlace :: Place
  orFields :: "str list"
  orVersion :: "int option"

definition zeroOptionRequest :: optionRequest where
  "zeroOptionRequest = \<lparr>orTitle = [], orNotes = [], orExternalURL = [], orEstimatedCostMinor = None, orPlace = zeroPlace,
     orFields = [], orVersion = None\<rparr>"

definition optionRequest_member :: "Wire \<Rightarrow> str \<Rightarrow> raw \<Rightarrow> optionRequest \<Rightarrow> decodeFailure + optionRequest" where
  "optionRequest_member w key r b =
     (if foldName key = ''title'' then valueField ''title'' rawText (\<lambda>x. b\<lparr>orTitle := x\<rparr>) r b
      else if foldName key = ''notes'' then valueField ''notes'' rawText (\<lambda>x. b\<lparr>orNotes := x\<rparr>) r b
      else if foldName key = ''external_url'' then valueField ''external_url'' rawText (\<lambda>x. b\<lparr>orExternalURL := x\<rparr>) r b
      else if foldName key = ''estimated_cost_minor'' then
        pointerField ''estimated_cost_minor'' rawInt64 (\<lambda>x. b\<lparr>orEstimatedCostMinor := x\<rparr>) r
      else if foldName key = ''place'' then
        bindR (decodeObject (placeRequest_member w) ''place'' r (orPlace b)) (\<lambda>p. Inr (b\<lparr>orPlace := p\<rparr>))
      else if foldName key = ''fields'' then sliceField ''fields'' rawTexts (\<lambda>x. b\<lparr>orFields := x\<rparr>) r
      else if foldName key = ''version'' then pointerField ''version'' rawInt (\<lambda>x. b\<lparr>orVersion := x\<rparr>) r
      else Inl (UnknownField key))"

record optionResponse =
  opiID :: str
  opiSlotID :: str
  opiTitle :: str
  opiNotes :: str
  opiExternalURL :: str
  opiEstimatedCostMinor :: "int64 option"
  opiPlace :: Place
  opiProposedBy :: "str option"
  opiVersion :: int
  opiCreatedAt :: instant
  opiUpdatedAt :: instant

definition toOptionResponse :: "(ID \<Rightarrow> str) \<Rightarrow> SlotOption \<Rightarrow> optionResponse" where
  "toOptionResponse us o' =
     \<lparr>opiID = us (oID o'), opiSlotID = us (oSlotID o'), opiTitle = oTitle o', opiNotes = oNotes o',
      opiExternalURL = oExternalURL o', opiEstimatedCostMinor = oEstimatedCostMinor o', opiPlace = oPlace o',
      opiProposedBy = map_option us (oProposedBy o'), opiVersion = oVersion o', opiCreatedAt = oCreatedAt o',
      opiUpdatedAt = oUpdatedAt o'\<rparr>"

record voteResponse =
  vpUserID :: str
  vpOptionID :: "str option"
  vpVersion :: int
  vpUpdatedAt :: instant

definition toVoteResponse :: "(ID \<Rightarrow> str) \<Rightarrow> Vote \<Rightarrow> voteResponse" where
  "toVoteResponse us v = \<lparr>vpUserID = us (vUserID v), vpOptionID = map_option us (vOptionID v), vpVersion = vVersion v,
     vpUpdatedAt = vUpdatedAt v\<rparr>"

record commentResponse =
  cpID :: str
  cpSlotID :: str
  cpBody :: str
  cpAuthorID :: "str option"
  cpCreatedAt :: instant

definition toCommentResponse :: "(ID \<Rightarrow> str) \<Rightarrow> Comment \<Rightarrow> commentResponse" where
  "toCommentResponse us c = \<lparr>cpID = us (cID c), cpSlotID = us (cSlotID c), cpBody = cBody c,
     cpAuthorID = map_option us (cAuthorID c), cpCreatedAt = cCreatedAt c\<rparr>"

definition createCommentRequest_member :: "str \<Rightarrow> raw \<Rightarrow> str \<Rightarrow> decodeFailure + str" where
  "createCommentRequest_member key r b =
     (if foldName key = ''body'' then valueField ''body'' rawText (\<lambda>x. x) r b else Inl (UnknownField key))"

section \<open>The ledger\<close>

record splitRequest =
  xrUserID :: str
  xrAmountMinor :: int64

definition splitRequest_member :: "str \<Rightarrow> raw \<Rightarrow> splitRequest \<Rightarrow> decodeFailure + splitRequest" where
  "splitRequest_member key r b =
     (if foldName key = ''user_id'' then valueField ''splits.user_id'' rawText (\<lambda>x. b\<lparr>xrUserID := x\<rparr>) r b
      else if foldName key = ''amount_minor'' then valueField ''splits.amount_minor'' rawInt64 (\<lambda>x. b\<lparr>xrAmountMinor := x\<rparr>) r b
      else Inl (UnknownField key))"

text \<open>The elements of an array are decoded one after the other; the first error is reported.\<close>

fun decodeSplits :: "raw list \<Rightarrow> decodeFailure + splitRequest list" where
  "decodeSplits [] = Inr []"
| "decodeSplits (r # rs) =
     bindR (decodeObject splitRequest_member ''splits'' r \<lparr>xrUserID = [], xrAmountMinor = 0\<rparr>) (\<lambda>x.
     bindR (decodeSplits rs) (\<lambda>xs. Inr (x # xs)))"

record budgetEntryRequest =
  brLabel :: str
  brCategory :: str
  brAmountMinor :: int64
  brSlotOptionID :: "str option"
  brPaidBy :: "str option"
  brIncurredOn :: "str option"
  brSplits :: "splitRequest list"
  brVersion :: "int option"

definition zeroBudgetEntryRequest :: budgetEntryRequest where
  "zeroBudgetEntryRequest = \<lparr>brLabel = [], brCategory = [], brAmountMinor = 0, brSlotOptionID = None, brPaidBy = None,
     brIncurredOn = None, brSplits = [], brVersion = None\<rparr>"

definition budgetEntryRequest_member :: "str \<Rightarrow> raw \<Rightarrow> budgetEntryRequest \<Rightarrow> decodeFailure + budgetEntryRequest" where
  "budgetEntryRequest_member key r b =
     (if foldName key = ''label'' then valueField ''label'' rawText (\<lambda>x. b\<lparr>brLabel := x\<rparr>) r b
      else if foldName key = ''category'' then valueField ''category'' rawText (\<lambda>x. b\<lparr>brCategory := x\<rparr>) r b
      else if foldName key = ''amount_minor'' then valueField ''amount_minor'' rawInt64 (\<lambda>x. b\<lparr>brAmountMinor := x\<rparr>) r b
      else if foldName key = ''slot_option_id'' then pointerField ''slot_option_id'' rawText (\<lambda>x. b\<lparr>brSlotOptionID := x\<rparr>) r
      else if foldName key = ''paid_by'' then pointerField ''paid_by'' rawText (\<lambda>x. b\<lparr>brPaidBy := x\<rparr>) r
      else if foldName key = ''incurred_on'' then pointerField ''incurred_on'' rawText (\<lambda>x. b\<lparr>brIncurredOn := x\<rparr>) r
      else if foldName key = ''splits'' then
        (case r of
           RawNull \<Rightarrow> Inr (b\<lparr>brSplits := []\<rparr>)
         | RawArr rs \<Rightarrow> bindR (decodeSplits rs) (\<lambda>xs. Inr (b\<lparr>brSplits := xs\<rparr>))
         | _ \<Rightarrow> Inl (WrongType ''splits''))
      else if foldName key = ''version'' then pointerField ''version'' rawInt (\<lambda>x. b\<lparr>brVersion := x\<rparr>) r
      else Inl (UnknownField key))"

definition splitFrom :: "HttpLib \<Rightarrow> splitRequest \<Rightarrow> requestError + BudgetSplit" where
  "splitFrom l x =
     bindR (liftE (ParseID (httpUUID l) ''splits.user_id'' (xrUserID x))) (\<lambda>userID.
       Inr \<lparr>bsID = NilID, bsUserID = userID, bsAmountMinor = xrAmountMinor x, bsCreatedAt = zeroTime\<rparr>)"

fun splitsFrom :: "HttpLib \<Rightarrow> splitRequest list \<Rightarrow> requestError + BudgetSplit list" where
  "splitsFrom l [] = Inr []"
| "splitsFrom l (x # xs) = bindR (splitFrom l x) (\<lambda>y. bindR (splitsFrom l xs) (\<lambda>ys. Inr (y # ys)))"

definition incurredOn :: "HttpLib \<Rightarrow> str option \<Rightarrow> requestError + instant option" where
  "incurredOn l text =
     (case text of
        None \<Rightarrow> Inr None
      | Some s \<Rightarrow>
          if s = [] then Inr None
          else (case hlParseDate l s of
                  None \<Rightarrow> Inl (Failed (ValidationError (Add ''incurred_on'' ''invalid_date'' [])))
                | Some day \<Rightarrow> Inr (Some day)))"

definition budgetEntryRequest_toInput :: "HttpLib \<Rightarrow> budgetEntryRequest \<Rightarrow> requestError + BudgetEntryInput" where
  "budgetEntryRequest_toInput l b =
     bindR (optionalID l ''slot_option_id'' (brSlotOptionID b)) (\<lambda>optionID.
     bindR (optionalID l ''paid_by'' (brPaidBy b)) (\<lambda>paidBy.
     bindR (incurredOn l (brIncurredOn b)) (\<lambda>day.
     bindR (splitsFrom l (brSplits b)) (\<lambda>splits.
       Inr \<lparr>biLabel = brLabel b, biCategory = brCategory b, biAmountMinor = brAmountMinor b, biSlotOptionID = optionID,
         biPaidBy = paidBy, biIncurredOn = day, biSplits = splits, biID = NilID, biVersion = brVersion b\<rparr>))))"

record budgetEntryResponse =
  bpID :: str
  bpLabel :: str
  bpCategory :: str
  bpAmountMinor :: int64
  bpSlotOptionID :: "str option"
  bpPaidBy :: "str option"
  bpIncurredOn :: "str option"
  bpSplits :: "(str \<times> int64) list"
  bpCreatedBy :: "str option"
  bpVersion :: int
  bpCreatedAt :: instant
  bpUpdatedAt :: instant

definition toBudgetEntryResponse :: "HttpLib \<Rightarrow> BudgetEntry \<Rightarrow> budgetEntryResponse" where
  "toBudgetEntryResponse l b =
     (let us = cdIDText (hlCodec l) in
      \<lparr>bpID = us (bID b), bpLabel = bLabel b, bpCategory = bCategory b, bpAmountMinor = bAmountMinor b,
       bpSlotOptionID = map_option us (bSlotOptionID b), bpPaidBy = map_option us (bPaidBy b),
       bpIncurredOn = map_option (hlDateText l) (bIncurredOn b),
       bpSplits = map (\<lambda>x. (us (bsUserID x), bsAmountMinor x)) (bSplits b), bpCreatedBy = map_option us (bCreatedBy b),
       bpVersion = bVersion b, bpCreatedAt = bCreatedAt b, bpUpdatedAt = bUpdatedAt b\<rparr>)"

section \<open>The handlers\<close>

datatype planningBody =
    SlotBody slotResponse | SlotsBody "slotResponse list"
  | DayBody dayResponse | DaysBody "dayResponse list"
  | OptionBody optionResponse | OptionsBody "optionResponse list"
  | VoteBody voteResponse | VotesBody "voteResponse list" | TallyBody "(str \<times> int) list"
  | CommentBody commentResponse | CommentsBody "commentResponse list"
  | EntryBody budgetEntryResponse | EntriesBody "budgetEntryResponse list"

type_synonym planningReply = "planningBody HttpResponse \<times> DB \<times> Op list"

abbreviation idText :: "HttpLib \<Rightarrow> ID \<Rightarrow> str" where "idText l \<equiv> cdIDText (hlCodec l)"

text \<open>Reading services change nothing.\<close>

definition reading :: "'s \<Rightarrow> 'a res \<Rightarrow> 'a res \<times> 's \<times> 'f list" where
  "reading s res = (res, s, [])"

text \<open>The identifiers in the path of a resource below a trip, after the caller.\<close>

definition inTrip :: "HttpLib \<Rightarrow> HttpRequest \<Rightarrow> (ID \<Rightarrow> ID \<Rightarrow> requestError + 'a) \<Rightarrow> requestError + 'a" where
  "inTrip l r k = bindR (UserIDFrom r) (\<lambda>userID. bindR (pathID l r ''tripID'') (\<lambda>tripID. k userID tripID))"

definition onResource :: "HttpLib \<Rightarrow> HttpRequest \<Rightarrow> str \<Rightarrow> (ID \<Rightarrow> ID \<Rightarrow> ID \<Rightarrow> requestError + 'a) \<Rightarrow> requestError + 'a" where
  "onResource l r name k = inTrip l r (\<lambda>userID tripID. bindR (pathID l r name) (\<lambda>i. k userID tripID i))"

definition SlotHandler_List :: "HttpLib \<Rightarrow> HttpRequest \<Rightarrow> DB \<Rightarrow> planningReply" where
  "SlotHandler_List l r db = handle r db (inTrip l r (\<lambda>userID tripID.
     Inr (answer r (\<lambda>slots. writeData 200 (SlotsBody (map (toSlotResponse (idText l)) slots)))
       (reading db (SlotService_ListForTrip tripID userID db)))))"

definition SlotHandler_Get :: "HttpLib \<Rightarrow> HttpRequest \<Rightarrow> DB \<Rightarrow> planningReply" where
  "SlotHandler_Get l r db = handle r db (onResource l r ''slotID'' (\<lambda>userID tripID slotID.
     Inr (answer r (\<lambda>slot. writeData 200 (SlotBody (toSlotResponse (idText l) slot)))
       (reading db (SlotService_Get tripID userID slotID db)))))"

definition SlotHandler_Create :: "HttpLib \<Rightarrow> Env \<Rightarrow> HttpRequest \<Rightarrow> DB \<Rightarrow> planningReply" where
  "SlotHandler_Create l e r db = handle r db (inTrip l r (\<lambda>userID tripID.
     bindR (decodeJSON l slotRequest_member zeroSlotRequest r) (\<lambda>body.
     bindR (optionalID l ''day_id'' (srDayID body)) (\<lambda>dayID.
     bindR (optionalID l ''after_slot_id'' (srAfterSlotID body)) (\<lambda>afterID.
     bindR (optionalTime ''start_time'' (srStartTime body)) (\<lambda>start.
     bindR (optionalTime ''end_time'' (srEndTime body)) (\<lambda>finish.
       Inr (answer r (\<lambda>slot. writeData 201 (SlotBody (toSlotResponse (idText l) slot)))
         (SlotService_Create e tripID userID
            \<lparr>csDayID = dayID, csKind = srKind body, csTitle = srTitle body, csNotes = srNotes body, csStartTime = start,
             csEndTime = finish, csAfterSlotID = afterID, csID = NilID\<rparr> db)))))))))"

definition SlotHandler_Update :: "HttpLib \<Rightarrow> Env \<Rightarrow> HttpRequest \<Rightarrow> DB \<Rightarrow> planningReply" where
  "SlotHandler_Update l e r db = handle r db (onResource l r ''slotID'' (\<lambda>userID tripID slotID.
     bindR (decodeJSON l slotRequest_member zeroSlotRequest r) (\<lambda>body.
     bindR (optionalTime ''start_time'' (srStartTime body)) (\<lambda>start.
     bindR (optionalTime ''end_time'' (srEndTime body)) (\<lambda>finish.
       Inr (answer r (\<lambda>slot. writeData 200 (SlotBody (toSlotResponse (idText l) slot)))
         (SlotService_Update e tripID userID slotID
            \<lparr>usFields = NewFieldMask (srFields body), usKind = srKind body, usTitle = srTitle body, usNotes = srNotes body,
             usStartTime = start, usEndTime = finish, usVersion = srVersion body\<rparr> db)))))))"

definition SlotHandler_Move :: "HttpLib \<Rightarrow> Env \<Rightarrow> HttpRequest \<Rightarrow> DB \<Rightarrow> planningReply" where
  "SlotHandler_Move l e r db = handle r db (onResource l r ''slotID'' (\<lambda>userID tripID slotID.
     bindR (decodeJSON l moveRequest_member \<lparr>mvAfterID = None, mvDayID = None, mvVersion = None\<rparr> r) (\<lambda>body.
     bindR (optionalID l ''day_id'' (mvDayID body)) (\<lambda>dayID.
     bindR (optionalID l ''after_id'' (mvAfterID body)) (\<lambda>afterID.
       Inr (answer r (\<lambda>_. noContent) (SlotService_Move e tripID userID slotID dayID afterID (mvVersion body) db)))))))"

definition SlotHandler_SetSelectedOption :: "HttpLib \<Rightarrow> Env \<Rightarrow> HttpRequest \<Rightarrow> DB \<Rightarrow> planningReply" where
  "SlotHandler_SetSelectedOption l e r db = handle r db (onResource l r ''slotID'' (\<lambda>userID tripID slotID.
     bindR (decodeJSON l selectOptionRequest_member (None, None) r) (\<lambda>(option, version).
     bindR (optionalID l ''option_id'' option) (\<lambda>optionID.
       Inr (answer r (\<lambda>_. noContent) (SlotService_SetSelectedOption e tripID userID slotID optionID version db))))))"

definition SlotHandler_SetStatus :: "HttpLib \<Rightarrow> Env \<Rightarrow> HttpRequest \<Rightarrow> DB \<Rightarrow> planningReply" where
  "SlotHandler_SetStatus l e r db = handle r db (onResource l r ''slotID'' (\<lambda>userID tripID slotID.
     bindR (decodeJSON l setStatusRequest_member ([], None) r) (\<lambda>(status, version).
       Inr (answer r (\<lambda>_. noContent) (SlotService_SetStatus e tripID userID slotID status version db)))))"

definition SlotHandler_Delete :: "HttpLib \<Rightarrow> Env \<Rightarrow> HttpRequest \<Rightarrow> DB \<Rightarrow> planningReply" where
  "SlotHandler_Delete l e r db = handle r db (onResource l r ''slotID'' (\<lambda>userID tripID slotID.
     bindR (decodeJSON l versionRequest_member None r) (\<lambda>version.
       Inr (answer r (\<lambda>_. noContent) (SlotService_Delete e tripID userID slotID version db)))))"

definition DayHandler_List :: "HttpLib \<Rightarrow> HttpRequest \<Rightarrow> DB \<Rightarrow> planningReply" where
  "DayHandler_List l r db = handle r db (inTrip l r (\<lambda>userID tripID.
     Inr (answer r (\<lambda>days. writeData 200 (DaysBody (map (toDayResponse (idText l)) days)))
       (reading db (DayService_ListForTrip tripID userID db)))))"

definition DayHandler_Create :: "HttpLib \<Rightarrow> Env \<Rightarrow> HttpRequest \<Rightarrow> DB \<Rightarrow> planningReply" where
  "DayHandler_Create l e r db = handle r db (inTrip l r (\<lambda>userID tripID.
     bindR (decodeJSON l (dayRequest_member (cdWire (hlCodec l))) zeroDayRequest r) (\<lambda>body.
     bindR (optionalID l ''after_day_id'' (drAfterDayID body)) (\<lambda>afterID.
       Inr (answer r (\<lambda>day. writeData 201 (DayBody (toDayResponse (idText l) day)))
         (DayService_Create e tripID userID
            \<lparr>cdDate = drDate body, cdLabel = drLabel body, cdAfterDayID = afterID, cdID = NilID\<rparr> db))))))"

definition DayHandler_Update :: "HttpLib \<Rightarrow> Env \<Rightarrow> HttpRequest \<Rightarrow> DB \<Rightarrow> planningReply" where
  "DayHandler_Update l e r db = handle r db (onResource l r ''dayID'' (\<lambda>userID tripID dayID.
     bindR (decodeJSON l (dayRequest_member (cdWire (hlCodec l))) zeroDayRequest r) (\<lambda>body.
       Inr (answer r (\<lambda>day. writeData 200 (DayBody (toDayResponse (idText l) day)))
         (DayService_Update e tripID userID dayID
            \<lparr>udFields = NewFieldMask (drFields body), udDate = drDate body, udLabel = drLabel body,
             udVersion = drVersion body\<rparr> db)))))"

definition DayHandler_Move :: "HttpLib \<Rightarrow> Env \<Rightarrow> HttpRequest \<Rightarrow> DB \<Rightarrow> planningReply" where
  "DayHandler_Move l e r db = handle r db (onResource l r ''dayID'' (\<lambda>userID tripID dayID.
     bindR (decodeJSON l moveRequest_member \<lparr>mvAfterID = None, mvDayID = None, mvVersion = None\<rparr> r) (\<lambda>body.
     bindR (optionalID l ''after_id'' (mvAfterID body)) (\<lambda>afterID.
       Inr (answer r (\<lambda>_. noContent) (DayService_Move e tripID userID dayID afterID (mvVersion body) db))))))"

definition DayHandler_Delete :: "HttpLib \<Rightarrow> Env \<Rightarrow> HttpRequest \<Rightarrow> DB \<Rightarrow> planningReply" where
  "DayHandler_Delete l e r db = handle r db (onResource l r ''dayID'' (\<lambda>userID tripID dayID.
     bindR (decodeJSON l versionRequest_member None r) (\<lambda>version.
       Inr (answer r (\<lambda>_. noContent) (DayService_Delete e tripID userID dayID version db)))))"

definition SlotOptionHandler_List :: "HttpLib \<Rightarrow> HttpRequest \<Rightarrow> DB \<Rightarrow> planningReply" where
  "SlotOptionHandler_List l r db = handle r db (onResource l r ''slotID'' (\<lambda>userID tripID slotID.
     Inr (answer r (\<lambda>options. writeData 200 (OptionsBody (map (toOptionResponse (idText l)) options)))
       (reading db (SlotOptionService_ListForSlot tripID userID slotID db)))))"

definition SlotOptionHandler_Create :: "HttpLib \<Rightarrow> Env \<Rightarrow> HttpRequest \<Rightarrow> DB \<Rightarrow> planningReply" where
  "SlotOptionHandler_Create l e r db = handle r db (onResource l r ''slotID'' (\<lambda>userID tripID slotID.
     bindR (decodeJSON l (optionRequest_member (cdWire (hlCodec l))) zeroOptionRequest r) (\<lambda>body.
       Inr (answer r (\<lambda>o'. writeData 201 (OptionBody (toOptionResponse (idText l) o')))
         (SlotOptionService_Create e tripID userID slotID
            \<lparr>coTitle = orTitle body, coNotes = orNotes body, coExternalURL = orExternalURL body,
             coEstimatedCostMinor = orEstimatedCostMinor body, coPlace = orPlace body, coID = NilID\<rparr> db)))))"

definition SlotOptionHandler_Update :: "HttpLib \<Rightarrow> Env \<Rightarrow> HttpRequest \<Rightarrow> DB \<Rightarrow> planningReply" where
  "SlotOptionHandler_Update l e r db = handle r db (onResource l r ''optionID'' (\<lambda>userID tripID optionID.
     bindR (decodeJSON l (optionRequest_member (cdWire (hlCodec l))) zeroOptionRequest r) (\<lambda>body.
       Inr (answer r (\<lambda>o'. writeData 200 (OptionBody (toOptionResponse (idText l) o')))
         (SlotOptionService_Update e tripID userID optionID
            \<lparr>uoFields = NewFieldMask (orFields body), uoTitle = orTitle body, uoNotes = orNotes body,
             uoExternalURL = orExternalURL body, uoEstimatedCostMinor = orEstimatedCostMinor body,
             uoPlace = orPlace body, uoVersion = orVersion body\<rparr> db)))))"

definition SlotOptionHandler_Delete :: "HttpLib \<Rightarrow> Env \<Rightarrow> HttpRequest \<Rightarrow> DB \<Rightarrow> planningReply" where
  "SlotOptionHandler_Delete l e r db = handle r db (onResource l r ''optionID'' (\<lambda>userID tripID optionID.
     bindR (decodeJSON l versionRequest_member None r) (\<lambda>version.
       Inr (answer r (\<lambda>_. noContent) (SlotOptionService_Delete e tripID userID optionID version db)))))"

definition VoteHandler_Cast :: "HttpLib \<Rightarrow> Env \<Rightarrow> HttpRequest \<Rightarrow> DB \<Rightarrow> planningReply" where
  "VoteHandler_Cast l e r db = handle r db (onResource l r ''slotID'' (\<lambda>userID tripID slotID.
     bindR (decodeJSON l castVoteRequest_member None r) (\<lambda>option.
     bindR (optionalID l ''option_id'' option) (\<lambda>optionID.
       Inr (answer r (\<lambda>v. writeData 200 (VoteBody (toVoteResponse (idText l) v)))
         (VoteService_Cast e tripID userID slotID optionID db))))))"

definition VoteHandler_List :: "HttpLib \<Rightarrow> HttpRequest \<Rightarrow> DB \<Rightarrow> planningReply" where
  "VoteHandler_List l r db = handle r db (onResource l r ''slotID'' (\<lambda>userID tripID slotID.
     Inr (answer r (\<lambda>votes. writeData 200 (VotesBody (map (toVoteResponse (idText l)) votes)))
       (reading db (VoteService_ListForSlot tripID userID slotID db)))))"

definition VoteHandler_Tally :: "HttpLib \<Rightarrow> HttpRequest \<Rightarrow> DB \<Rightarrow> planningReply" where
  "VoteHandler_Tally l r db = handle r db (onResource l r ''slotID'' (\<lambda>userID tripID slotID.
     Inr (answer r (\<lambda>tallies. writeData 200 (TallyBody (map (\<lambda>t. (idText l (tOptionID t), tCount t)) tallies)))
       (reading db (VoteService_Tally tripID userID slotID db)))))"

definition CommentHandler_Create :: "HttpLib \<Rightarrow> Env \<Rightarrow> HttpRequest \<Rightarrow> DB \<Rightarrow> planningReply" where
  "CommentHandler_Create l e r db = handle r db (onResource l r ''slotID'' (\<lambda>userID tripID slotID.
     bindR (decodeJSON l createCommentRequest_member [] r) (\<lambda>body.
       Inr (answer r (\<lambda>c. writeData 201 (CommentBody (toCommentResponse (idText l) c)))
         (CommentService_Create e tripID userID slotID \<lparr>ccBody = body, ccID = NilID\<rparr> db)))))"

definition CommentHandler_List :: "HttpLib \<Rightarrow> HttpRequest \<Rightarrow> DB \<Rightarrow> planningReply" where
  "CommentHandler_List l r db = handle r db (onResource l r ''slotID'' (\<lambda>userID tripID slotID.
     Inr (answer r (\<lambda>comments. writeData 200 (CommentsBody (map (toCommentResponse (idText l)) comments)))
       (reading db (CommentService_ListForSlot tripID userID slotID db)))))"

definition CommentHandler_Delete :: "HttpLib \<Rightarrow> Env \<Rightarrow> HttpRequest \<Rightarrow> DB \<Rightarrow> planningReply" where
  "CommentHandler_Delete l e r db = handle r db (onResource l r ''commentID'' (\<lambda>userID tripID commentID.
     Inr (answer r (\<lambda>_. noContent) (CommentService_Delete e tripID userID commentID db))))"

definition BudgetHandler_List :: "HttpLib \<Rightarrow> HttpRequest \<Rightarrow> DB \<Rightarrow> planningReply" where
  "BudgetHandler_List l r db = handle r db (inTrip l r (\<lambda>userID tripID.
     Inr (answer r (\<lambda>entries. writeData 200 (EntriesBody (map (toBudgetEntryResponse l) entries)))
       (reading db (BudgetService_List tripID userID db)))))"

definition BudgetHandler_Get :: "HttpLib \<Rightarrow> HttpRequest \<Rightarrow> DB \<Rightarrow> planningReply" where
  "BudgetHandler_Get l r db = handle r db (onResource l r ''entryID'' (\<lambda>userID tripID entryID.
     Inr (answer r (\<lambda>b. writeData 200 (EntryBody (toBudgetEntryResponse l b)))
       (reading db (BudgetService_Get tripID userID entryID db)))))"

definition BudgetHandler_Create :: "HttpLib \<Rightarrow> Env \<Rightarrow> HttpRequest \<Rightarrow> DB \<Rightarrow> planningReply" where
  "BudgetHandler_Create l e r db = handle r db (inTrip l r (\<lambda>userID tripID.
     bindR (decodeJSON l budgetEntryRequest_member zeroBudgetEntryRequest r) (\<lambda>body.
     bindR (budgetEntryRequest_toInput l body) (\<lambda>inp.
       Inr (answer r (\<lambda>b. writeData 201 (EntryBody (toBudgetEntryResponse l b)))
         (BudgetService_Create e tripID userID inp db))))))"

definition BudgetHandler_Update :: "HttpLib \<Rightarrow> Env \<Rightarrow> HttpRequest \<Rightarrow> DB \<Rightarrow> planningReply" where
  "BudgetHandler_Update l e r db = handle r db (onResource l r ''entryID'' (\<lambda>userID tripID entryID.
     bindR (decodeJSON l budgetEntryRequest_member zeroBudgetEntryRequest r) (\<lambda>body.
     bindR (budgetEntryRequest_toInput l body) (\<lambda>inp.
       Inr (answer r (\<lambda>b. writeData 200 (EntryBody (toBudgetEntryResponse l b)))
         (BudgetService_Update e tripID userID entryID inp db))))))"

definition BudgetHandler_Delete :: "HttpLib \<Rightarrow> Env \<Rightarrow> HttpRequest \<Rightarrow> DB \<Rightarrow> planningReply" where
  "BudgetHandler_Delete l e r db = handle r db (onResource l r ''entryID'' (\<lambda>userID tripID entryID.
     bindR (decodeJSON l versionRequest_member None r) (\<lambda>version.
       Inr (answer r (\<lambda>_. noContent) (BudgetService_Delete e tripID userID entryID version db)))))"

end
