(* ===== verification/PeopleHandlers.thy ===== *)
theory PeopleHandlers
  imports Http Roster
begin

text \<open>The handlers of trips, members, invitations and accounts (src/internal/transport/http: trip_handler.go,
  membership_handler.go, auth_handler.go), without what they do to the cover of a trip (as with
  \<^theory_text>\<open>covers == nil\<close>), which CoverHandlers adds; the cover in the document of a trip is left out here. A response that changes the refresh cookie says so.\<close>

section \<open>Trips\<close>

record tripRequest =
  tqName :: str
  tqDescription :: str
  tqTimeZone :: str
  tqStartDate :: "instant option"
  tqEndDate :: "instant option"
  tqVersion :: int
  tqCoverSuggestionID :: "str option"

definition zeroTripRequest :: tripRequest where
  "zeroTripRequest = \<lparr>tqName = [], tqDescription = [], tqTimeZone = [], tqStartDate = None, tqEndDate = None, tqVersion = 0,
     tqCoverSuggestionID = None\<rparr>"

definition tripRequest_member :: "Wire \<Rightarrow> str \<Rightarrow> raw \<Rightarrow> tripRequest \<Rightarrow> decodeFailure + tripRequest" where
  "tripRequest_member w key r b =
     (if foldName key = ''name'' then valueField ''name'' rawText (\<lambda>x. b\<lparr>tqName := x\<rparr>) r b
      else if foldName key = ''description'' then valueField ''description'' rawText (\<lambda>x. b\<lparr>tqDescription := x\<rparr>) r b
      else if foldName key = ''time_zone'' then valueField ''time_zone'' rawText (\<lambda>x. b\<lparr>tqTimeZone := x\<rparr>) r b
      else if foldName key = ''start_date'' then timeField w (\<lambda>x. b\<lparr>tqStartDate := x\<rparr>) r
      else if foldName key = ''end_date'' then timeField w (\<lambda>x. b\<lparr>tqEndDate := x\<rparr>) r
      else if foldName key = ''version'' then valueField ''version'' rawInt (\<lambda>x. b\<lparr>tqVersion := x\<rparr>) r b
      else if foldName key = ''cover_suggestion_id'' then
        pointerField ''cover_suggestion_id'' rawText (\<lambda>x. b\<lparr>tqCoverSuggestionID := x\<rparr>) r
      else Inl (UnknownField key))"

definition tripInput :: "tripRequest \<Rightarrow> TripInput" where
  "tripInput b = \<lparr>tiName = tqName b, tiDescription = tqDescription b, tiTimeZone = tqTimeZone b,
     tiStartDate = tqStartDate b, tiEndDate = tqEndDate b\<rparr>"

record tripResponse =
  tpnID :: str
  tpnName :: str
  tpnDescription :: str
  tpnTimeZone :: str
  tpnStartDate :: "instant option"
  tpnEndDate :: "instant option"
  tpnVersion :: int
  tpnCreatedAt :: instant
  tpnUpdatedAt :: instant

definition toTripResponse :: "(ID \<Rightarrow> str) \<Rightarrow> Trip \<Rightarrow> tripResponse" where
  "toTripResponse us t =
     \<lparr>tpnID = us (trID t), tpnName = trName t, tpnDescription = trDescription t, tpnTimeZone = trTimeZone t,
      tpnStartDate = trStartDate t, tpnEndDate = trEndDate t, tpnVersion = trVersion t, tpnCreatedAt = trCreatedAt t,
      tpnUpdatedAt = trUpdatedAt t\<rparr>"

definition tripVersion_member :: "str \<Rightarrow> raw \<Rightarrow> int option \<Rightarrow> decodeFailure + int option" where
  "tripVersion_member key r b =
     (if foldName key = ''version'' then pointerField ''version'' rawInt (\<lambda>x. x) r else Inl (UnknownField key))"

definition requireBodyVersion :: "int option \<Rightarrow> requestError + int" where
  "requireBodyVersion v = (case v of None \<Rightarrow> Inl (Failed (ValidationError (Add ''version'' ''required'' []))) | Some n \<Rightarrow> Inr n)"

section \<open>Members and invitations\<close>

definition roleText :: "Role \<Rightarrow> str" where
  "roleText r = (case r of RoleOwner \<Rightarrow> ''owner'' | RoleEditor \<Rightarrow> ''editor'' | RoleViewer \<Rightarrow> ''viewer'' | UnknownRole s \<Rightarrow> s)"

definition textRole :: "str \<Rightarrow> Role" where
  "textRole s = (if s = ''owner'' then RoleOwner else if s = ''editor'' then RoleEditor else if s = ''viewer'' then RoleViewer
     else UnknownRole s)"

record memberResponse =
  mpUserID :: str
  mpDisplayName :: str
  mpRole :: str
  mpInvitedBy :: "str option"
  mpJoinedAt :: instant
  mpVersion :: int

definition toMemberResponse :: "(ID \<Rightarrow> str) \<Rightarrow> Member \<Rightarrow> memberResponse" where
  "toMemberResponse us m = \<lparr>mpUserID = us (mUserID m), mpDisplayName = [], mpRole = roleText (mRole m),
     mpInvitedBy = map_option us (mInvitedBy m), mpJoinedAt = mJoinedAt m, mpVersion = mVersion m\<rparr>"

definition toMemberProfileResponse :: "(ID \<Rightarrow> str) \<Rightarrow> Member \<times> str \<Rightarrow> memberResponse" where
  "toMemberProfileResponse us p = (toMemberResponse us (fst p))\<lparr>mpDisplayName := snd p\<rparr>"

definition updateRoleRequest_member :: "str \<Rightarrow> raw \<Rightarrow> str \<times> int \<Rightarrow> decodeFailure + (str \<times> int)" where
  "updateRoleRequest_member key r b =
     (if foldName key = ''role'' then valueField ''role'' rawText (\<lambda>x. (x, snd b)) r b
      else if foldName key = ''version'' then valueField ''version'' rawInt (\<lambda>x. (fst b, x)) r b
      else Inl (UnknownField key))"

record createInvitationRequest =
  iqEmail :: "str option"
  iqRole :: str
  iqMaxUses :: "int option"

definition createInvitationRequest_member :: "str \<Rightarrow> raw \<Rightarrow> createInvitationRequest \<Rightarrow> decodeFailure + createInvitationRequest" where
  "createInvitationRequest_member key r b =
     (if foldName key = ''email'' then pointerField ''email'' rawText (\<lambda>x. b\<lparr>iqEmail := x\<rparr>) r
      else if foldName key = ''role'' then valueField ''role'' rawText (\<lambda>x. b\<lparr>iqRole := x\<rparr>) r b
      else if foldName key = ''max_uses'' then pointerField ''max_uses'' rawInt (\<lambda>x. b\<lparr>iqMaxUses := x\<rparr>) r
      else Inl (UnknownField key))"

record invitationResponse =
  ipID :: str
  ipEmail :: "str option"
  ipRole :: str
  ipMaxUses :: "int option"
  ipUseCount :: int
  ipExpiresAt :: instant
  ipRevokedAt :: "instant option"
  ipCreatedAt :: instant

definition toInvitationResponse :: "(ID \<Rightarrow> str) \<Rightarrow> Invitation \<Rightarrow> invitationResponse" where
  "toInvitationResponse us i = \<lparr>ipID = us (iID i), ipEmail = iEmail i, ipRole = roleText (iRole i), ipMaxUses = iMaxUses i,
     ipUseCount = iUseCount i, ipExpiresAt = iExpiresAt i, ipRevokedAt = iRevokedAt i, ipCreatedAt = iCreatedAt i\<rparr>"

definition tokenRequest_member :: "str \<Rightarrow> raw \<Rightarrow> str \<Rightarrow> decodeFailure + str" where
  "tokenRequest_member key r b =
     (if foldName key = ''token'' then valueField ''token'' rawText (\<lambda>x. x) r b else Inl (UnknownField key))"

definition requireToken :: "str \<Rightarrow> requestError + str" where
  "requireToken t = (if t = [] then Inl (Failed (ValidationError (Add ''token'' ''required'' []))) else Inr t)"

section \<open>Trip and membership handlers\<close>

datatype peopleBody =
    TripBody tripResponse | TripsBody "tripResponse list" str bool
  | MemberBody memberResponse | MembersBody "memberResponse list"
  | InvitationBody invitationResponse str | InvitationsBody "invitationResponse list"

type_synonym peopleReply = "peopleBody HttpResponse \<times> DB \<times> Mail list"

definition TripHandler_Create :: "HttpLib \<Rightarrow> PeopleConfig \<Rightarrow> PeopleEnv \<Rightarrow> AuthDB \<Rightarrow> HttpRequest \<Rightarrow> DB \<Rightarrow> peopleReply" where
  "TripHandler_Create l cfg e accounts r db = handle r db (
     bindR (UserIDFrom r) (\<lambda>userID.
     bindR (decodeJSON l (tripRequest_member (cdWire (hlCodec l))) zeroTripRequest r) (\<lambda>body.
       Inr (answer r (\<lambda>t. writeData 201 (TripBody (toTripResponse (cdIDText (hlCodec l)) t)))
         (TripService_Create cfg e (auUsers accounts) userID (tripInput body) db)))))"

definition TripHandler_List :: "HttpLib \<Rightarrow> PeopleConfig \<Rightarrow> HttpRequest \<Rightarrow> DB \<Rightarrow> peopleReply" where
  "TripHandler_List l cfg r db = handle r db (
     bindR (UserIDFrom r) (\<lambda>userID.
     bindR (queryPage r) (\<lambda>page.
       Inr (answer r (\<lambda>p. writeData 200 (TripsBody (map (toTripResponse (cdIDText (hlCodec l))) (pgItems p)) (pgNextCursor p) (pgHasMore p)))
         (TripService_ListForUser cfg userID page db, db, [])))))"

definition TripHandler_Get :: "HttpLib \<Rightarrow> HttpRequest \<Rightarrow> DB \<Rightarrow> peopleReply" where
  "TripHandler_Get l r db = handle r db (
     bindR (UserIDFrom r) (\<lambda>userID.
     bindR (pathID l r ''tripID'') (\<lambda>tripID.
       Inr (answer r (\<lambda>t. writeData 200 (TripBody (toTripResponse (cdIDText (hlCodec l)) t)))
         (TripService_Get tripID userID db, db, [])))))"

definition TripHandler_Update :: "HttpLib \<Rightarrow> PeopleConfig \<Rightarrow> PeopleEnv \<Rightarrow> HttpRequest \<Rightarrow> DB \<Rightarrow> peopleReply" where
  "TripHandler_Update l cfg e r db = handle r db (
     bindR (UserIDFrom r) (\<lambda>userID.
     bindR (pathID l r ''tripID'') (\<lambda>tripID.
     bindR (decodeJSON l (tripRequest_member (cdWire (hlCodec l))) zeroTripRequest r) (\<lambda>body.
     bindR (liftE (TripService_Get tripID userID db)) (\<lambda>_.
       Inr (answer r (\<lambda>t. writeData 200 (TripBody (toTripResponse (cdIDText (hlCodec l)) t)))
         (TripService_Update cfg e tripID userID (tripInput body) (tqVersion body) db)))))))"

definition TripHandler_Delete :: "HttpLib \<Rightarrow> PeopleEnv \<Rightarrow> HttpRequest \<Rightarrow> DB \<Rightarrow> peopleReply" where
  "TripHandler_Delete l e r db = handle r db (
     bindR (UserIDFrom r) (\<lambda>userID.
     bindR (pathID l r ''tripID'') (\<lambda>tripID.
     bindR (decodeJSON l tripVersion_member None r) (\<lambda>body.
     bindR (requireBodyVersion body) (\<lambda>version.
       Inr (answer r (\<lambda>_. noContent) (TripService_Delete e tripID userID version db)))))))"

definition MembershipHandler_ListMembers :: "HttpLib \<Rightarrow> AuthDB \<Rightarrow> HttpRequest \<Rightarrow> DB \<Rightarrow> peopleReply" where
  "MembershipHandler_ListMembers l accounts r db = handle r db (
     bindR (UserIDFrom r) (\<lambda>userID.
     bindR (pathID l r ''tripID'') (\<lambda>tripID.
       Inr (answer r (\<lambda>ms. writeData 200 (MembersBody (map (toMemberProfileResponse (cdIDText (hlCodec l))) ms)))
         (MembershipService_ListMemberProfiles (auUsers accounts) tripID userID db, db, [])))))"

definition MembershipHandler_UpdateMemberRole :: "HttpLib \<Rightarrow> PeopleEnv \<Rightarrow> HttpRequest \<Rightarrow> DB \<Rightarrow> peopleReply" where
  "MembershipHandler_UpdateMemberRole l e r db = handle r db (
     bindR (UserIDFrom r) (\<lambda>userID.
     bindR (pathID l r ''tripID'') (\<lambda>tripID.
     bindR (pathID l r ''userID'') (\<lambda>targetID.
     bindR (decodeJSON l updateRoleRequest_member ([], 0) r) (\<lambda>(role, version).
       Inr (answer r (\<lambda>m. writeData 200 (MemberBody (toMemberResponse (cdIDText (hlCodec l)) m)))
         (MembershipService_UpdateRole e tripID userID targetID (textRole role) version db)))))))"

definition MembershipHandler_RemoveMember :: "HttpLib \<Rightarrow> PeopleEnv \<Rightarrow> HttpRequest \<Rightarrow> DB \<Rightarrow> peopleReply" where
  "MembershipHandler_RemoveMember l e r db = handle r db (
     bindR (UserIDFrom r) (\<lambda>userID.
     bindR (pathID l r ''tripID'') (\<lambda>tripID.
     bindR (pathID l r ''userID'') (\<lambda>targetID.
       Inr (answer r (\<lambda>_. noContent) (MembershipService_RemoveMember e tripID userID targetID db))))))"

definition invitationInput :: "createInvitationRequest \<Rightarrow> CreateInvitationInput" where
  "invitationInput b = \<lparr>ciEmail = iqEmail b, ciRole = textRole (iqRole b),
     ciMaxUses = (if iqEmail b \<noteq> None \<and> iqMaxUses b = None then Some 1 else iqMaxUses b)\<rparr>"

definition MembershipHandler_CreateInvitation ::
  "HttpLib \<Rightarrow> PeopleConfig \<Rightarrow> PeopleEnv \<Rightarrow> AuthDB \<Rightarrow> HttpRequest \<Rightarrow> DB \<Rightarrow> peopleReply"
where
  "MembershipHandler_CreateInvitation l cfg e accounts r db = handle r db (
     bindR (UserIDFrom r) (\<lambda>userID.
     bindR (pathID l r ''tripID'') (\<lambda>tripID.
     bindR (decodeJSON l createInvitationRequest_member \<lparr>iqEmail = None, iqRole = [], iqMaxUses = None\<rparr> r) (\<lambda>body.
       Inr (answer r (\<lambda>(i, url). writeData 201 (InvitationBody (toInvitationResponse (cdIDText (hlCodec l)) i) url))
         (MembershipService_CreateInvitation cfg e (auUsers accounts) tripID userID (invitationInput body) db))))))"

definition MembershipHandler_ListInvitations :: "HttpLib \<Rightarrow> HttpRequest \<Rightarrow> DB \<Rightarrow> peopleReply" where
  "MembershipHandler_ListInvitations l r db = handle r db (
     bindR (UserIDFrom r) (\<lambda>userID.
     bindR (pathID l r ''tripID'') (\<lambda>tripID.
       Inr (answer r (\<lambda>is. writeData 200 (InvitationsBody (map (toInvitationResponse (cdIDText (hlCodec l))) is)))
         (MembershipService_ListInvitations tripID userID db, db, [])))))"

definition MembershipHandler_RevokeInvitation :: "HttpLib \<Rightarrow> PeopleEnv \<Rightarrow> HttpRequest \<Rightarrow> DB \<Rightarrow> peopleReply" where
  "MembershipHandler_RevokeInvitation l e r db = handle r db (
     bindR (UserIDFrom r) (\<lambda>userID.
     bindR (pathID l r ''tripID'') (\<lambda>tripID.
     bindR (pathID l r ''invitationID'') (\<lambda>invID.
       Inr (answer r (\<lambda>_. noContent) (MembershipService_RevokeInvitation e tripID userID invID db))))))"

definition MembershipHandler_AcceptInvitation ::
  "HttpLib \<Rightarrow> PeopleConfig \<Rightarrow> PeopleEnv \<Rightarrow> AuthDB \<Rightarrow> HttpRequest \<Rightarrow> DB \<Rightarrow> peopleReply"
where
  "MembershipHandler_AcceptInvitation l cfg e accounts r db = handle r db (
     bindR (UserIDFrom r) (\<lambda>userID.
     bindR (decodeJSON l tokenRequest_member [] r) (\<lambda>body.
     bindR (requireToken body) (\<lambda>token.
       Inr (answer r (\<lambda>t. writeData 200 (TripBody (toTripResponse (cdIDText (hlCodec l)) t)))
         (MembershipService_RedeemInvitation cfg e accounts userID token db))))))"

section \<open>Account handlers\<close>

record signupRequest =
  sqEmail :: str
  sqPassword :: str
  sqDisplayName :: str

definition signupRequest_member :: "str \<Rightarrow> raw \<Rightarrow> signupRequest \<Rightarrow> decodeFailure + signupRequest" where
  "signupRequest_member key r b =
     (if foldName key = ''email'' then valueField ''email'' rawText (\<lambda>x. b\<lparr>sqEmail := x\<rparr>) r b
      else if foldName key = ''password'' then valueField ''password'' rawText (\<lambda>x. b\<lparr>sqPassword := x\<rparr>) r b
      else if foldName key = ''display_name'' then valueField ''display_name'' rawText (\<lambda>x. b\<lparr>sqDisplayName := x\<rparr>) r b
      else Inl (UnknownField key))"

definition loginRequest_member :: "str \<Rightarrow> raw \<Rightarrow> str \<times> str \<Rightarrow> decodeFailure + (str \<times> str)" where
  "loginRequest_member key r b =
     (if foldName key = ''email'' then valueField ''email'' rawText (\<lambda>x. (x, snd b)) r b
      else if foldName key = ''password'' then valueField ''password'' rawText (\<lambda>x. (fst b, x)) r b
      else Inl (UnknownField key))"

definition requestPasswordResetRequest_member :: "str \<Rightarrow> raw \<Rightarrow> str \<Rightarrow> decodeFailure + str" where
  "requestPasswordResetRequest_member key r b =
     (if foldName key = ''email'' then valueField ''email'' rawText (\<lambda>x. x) r b else Inl (UnknownField key))"

definition resetPasswordRequest_member :: "str \<Rightarrow> raw \<Rightarrow> str \<times> str \<Rightarrow> decodeFailure + (str \<times> str)" where
  "resetPasswordRequest_member key r b =
     (if foldName key = ''token'' then valueField ''token'' rawText (\<lambda>x. (x, snd b)) r b
      else if foldName key = ''password'' then valueField ''password'' rawText (\<lambda>x. (fst b, x)) r b
      else Inl (UnknownField key))"

record userResponse =
  upID :: str
  upEmail :: str
  upDisplayName :: str
  upVerifiedAt :: "instant option"
  upCreatedAt :: instant

definition toUserResponse :: "(ID \<Rightarrow> str) \<Rightarrow> User \<Rightarrow> userResponse" where
  "toUserResponse us u = \<lparr>upID = us (uID u), upEmail = uEmail u, upDisplayName = uDisplayName u,
     upVerifiedAt = uEmailVerifiedAt u, upCreatedAt = uCreatedAt u\<rparr>"

record authSessionResponse =
  apID :: str
  apUserAgent :: str
  apIP :: str
  apCreatedAt :: instant
  apLastUsedAt :: instant
  apCurrent :: bool

definition toAuthSessionResponse :: "(ID \<Rightarrow> str) \<Rightarrow> ID \<Rightarrow> AuthSession \<Rightarrow> authSessionResponse" where
  "toAuthSessionResponse us current s = \<lparr>apID = us (asID s), apUserAgent = asUserAgent s,
     apIP = (case asIP s of None \<Rightarrow> [] | Some ip \<Rightarrow> ip), apCreatedAt = asCreatedAt s, apLastUsedAt = asLastUsedAt s,
     apCurrent = (asID s = current)\<rparr>"

datatype accountBody =
    UserBody userResponse | SessionBody str instant userResponse | RefreshedBody str instant
  | AuthSessionsBody "authSessionResponse list" | AcceptedBody

type_synonym accountReply = "accountBody HttpResponse \<times> AuthDB \<times> AuthEvent list"

definition setRefreshCookie :: "TokenPair \<Rightarrow> 'b HttpResponse \<Rightarrow> 'b HttpResponse" where
  "setRefreshCookie pair p = p\<lparr>rsCookie := SetCookie (tpRefreshToken pair) (tpRefreshExpiresAt pair)\<rparr>"

definition clearRefreshCookie :: "'b HttpResponse \<Rightarrow> 'b HttpResponse" where
  "clearRefreshCookie p = p\<lparr>rsCookie := ClearCookie\<rparr>"

definition refreshCookieName :: str where "refreshCookieName = ''junto_refresh''"

definition AuthHandler_Signup :: "HttpLib \<Rightarrow> AuthConfig \<Rightarrow> AuthEnv \<Rightarrow> HttpRequest \<Rightarrow> AuthDB \<Rightarrow> accountReply" where
  "AuthHandler_Signup l cfg e r db = handle r db (
     bindR (decodeJSON l signupRequest_member \<lparr>sqEmail = [], sqPassword = [], sqDisplayName = []\<rparr> r) (\<lambda>body.
       Inr (answer r (\<lambda>u. writeData 201 (UserBody (toUserResponse (cdIDText (hlCodec l)) u)))
         (AuthService_Signup cfg e
            \<lparr>siEmail = sqEmail body, siPassword = sqPassword body, siDisplayName = sqDisplayName body\<rparr> db))))"

definition AuthHandler_Login :: "HttpLib \<Rightarrow> AuthConfig \<Rightarrow> AuthEnv \<Rightarrow> HttpRequest \<Rightarrow> AuthDB \<Rightarrow> accountReply" where
  "AuthHandler_Login l cfg e r db = handle r db (
     bindR (decodeJSON l loginRequest_member ([], []) r) (\<lambda>(email, password).
       Inr (answer r (\<lambda>(u, pair). setRefreshCookie pair
             (writeData 200 (SessionBody (tpAccessToken pair) (tpAccessExpiresAt pair) (toUserResponse (cdIDText (hlCodec l)) u))))
         (AuthService_Login cfg e email password (requestMeta l r) db))))"

definition AuthHandler_Refresh :: "HttpLib \<Rightarrow> AuthConfig \<Rightarrow> AuthEnv \<Rightarrow> HttpRequest \<Rightarrow> AuthDB \<Rightarrow> accountReply" where
  "AuthHandler_Refresh l cfg e r db =
     (case hrCookie r refreshCookieName of
        None \<Rightarrow> (writeProblem (writeError ErrTokenInvalid r), db, [])
      | Some raw \<Rightarrow>
          if raw = [] then (writeProblem (writeError ErrTokenInvalid r), db, [])
          else (case AuthService_Refresh cfg e raw db of
                  (Inl err, db', evs) \<Rightarrow> (clearRefreshCookie (writeProblem (writeError err r)), db', evs)
                | (Inr pair, db', evs) \<Rightarrow>
                    (setRefreshCookie pair (writeData 200 (RefreshedBody (tpAccessToken pair) (tpAccessExpiresAt pair))), db', evs)))"

definition AuthHandler_Logout :: "AuthConfig \<Rightarrow> AuthEnv \<Rightarrow> HttpRequest \<Rightarrow> AuthDB \<Rightarrow> accountReply" where
  "AuthHandler_Logout cfg e r db =
     (case hrCookie r refreshCookieName of
        None \<Rightarrow> (clearRefreshCookie noContent, db, [])
      | Some raw \<Rightarrow>
          if raw = [] then (clearRefreshCookie noContent, db, [])
          else (case AuthService_Logout cfg e raw db of (_, db', evs) \<Rightarrow> (clearRefreshCookie noContent, db', evs)))"

definition AuthHandler_VerifyEmail :: "HttpLib \<Rightarrow> AuthConfig \<Rightarrow> AuthEnv \<Rightarrow> HttpRequest \<Rightarrow> AuthDB \<Rightarrow> accountReply" where
  "AuthHandler_VerifyEmail l cfg e r db = handle r db (
     bindR (decodeJSON l tokenRequest_member [] r) (\<lambda>body.
     bindR (requireToken body) (\<lambda>token.
       Inr (answer r (\<lambda>_. noContent) (AuthService_VerifyEmail cfg e token db)))))"

definition AuthHandler_RequestPasswordReset :: "HttpLib \<Rightarrow> AuthConfig \<Rightarrow> AuthEnv \<Rightarrow> HttpRequest \<Rightarrow> AuthDB \<Rightarrow> accountReply" where
  "AuthHandler_RequestPasswordReset l cfg e r db = handle r db (
     bindR (decodeJSON l requestPasswordResetRequest_member [] r) (\<lambda>email.
       Inr (answer r (\<lambda>_. writeData 202 AcceptedBody) (AuthService_RequestPasswordReset cfg e email db))))"

definition AuthHandler_ResetPassword :: "HttpLib \<Rightarrow> AuthConfig \<Rightarrow> AuthEnv \<Rightarrow> HttpRequest \<Rightarrow> AuthDB \<Rightarrow> accountReply" where
  "AuthHandler_ResetPassword l cfg e r db = handle r db (
     bindR (decodeJSON l resetPasswordRequest_member ([], []) r) (\<lambda>(raw, password).
     bindR (requireToken raw) (\<lambda>token.
       Inr (answer r (\<lambda>_. clearRefreshCookie noContent) (AuthService_ResetPassword cfg e token password db)))))"

definition AuthHandler_Me :: "HttpLib \<Rightarrow> HttpRequest \<Rightarrow> AuthDB \<Rightarrow> accountReply" where
  "AuthHandler_Me l r db = handle r db (
     bindR (ClaimsFrom r) (\<lambda>claims.
       Inr (answer r (\<lambda>u. writeData 200 (UserBody (toUserResponse (cdIDText (hlCodec l)) u)))
         (AuthService_User (clUserID claims) db, db, []))))"

definition AuthHandler_ListSessions :: "HttpLib \<Rightarrow> AuthEnv \<Rightarrow> HttpRequest \<Rightarrow> AuthDB \<Rightarrow> accountReply" where
  "AuthHandler_ListSessions l e r db = handle r db (
     bindR (ClaimsFrom r) (\<lambda>claims.
       Inr (writeData 200 (AuthSessionsBody (map (toAuthSessionResponse (cdIDText (hlCodec l)) (clSessionID claims))
              (AuthService_ListSessions e (clUserID claims) db))), db, [])))"

definition AuthHandler_RevokeSession :: "HttpLib \<Rightarrow> AuthEnv \<Rightarrow> HttpRequest \<Rightarrow> AuthDB \<Rightarrow> accountReply" where
  "AuthHandler_RevokeSession l e r db = handle r db (
     bindR (ClaimsFrom r) (\<lambda>claims.
     bindR (liftE (ParseID (httpUUID l) ''session_id'' (hrParam r ''sessionID''))) (\<lambda>sessionID.
       Inr (answer r (\<lambda>_. if sessionID = clSessionID claims then clearRefreshCookie noContent else noContent)
         (AuthService_RevokeSession e (clUserID claims) sessionID db)))))"

end
