(* ===== verification/Server.thy ===== *)
theory Server
  imports PlanningHandlers PeopleHandlers
begin

text \<open>The API below /api/v1 (src/internal/transport/http/server.go, src/internal/middleware): the route table, the
  rate limits, authentication, and one request from its arrival to its response. Matching a path against
  a pattern is chi's and a parameter, and so are the answers of the limiters. The routes of sockets are in
  Sockets, those of attachments and covers, which a deployment may lack, in AttachmentHandlers and
  CoverHandlers; they are not in the table.\<close>

section \<open>Endpoints\<close>

datatype Endpoint =
    PostSignup | PostLogin | PostVerifyEmail | PostRequestPasswordReset | PostResetPassword | PostRefresh | PostLogout
  | GetMe | GetSessions | DeleteSession
  | PostTrip | GetTrips | PostAccept | GetTrip | PatchTrip | DeleteTripAt
  | GetMembers | PatchMember | DeleteMember | PostInvitation | GetInvitations | DeleteInvitation
  | GetDays | PostDay | PatchDay | PostDayMove | DeleteDayAt
  | GetSlots | PostSlot | GetSlot | PatchSlot | PostSlotMove | PostSlotSelect | PostSlotStatus | DeleteSlotAt
  | GetOptions | PostOption | PatchOption | DeleteOptionAt
  | GetVotes | GetTally | PutVote
  | GetComments | PostComment | DeleteCommentAt
  | GetBudget | PostEntry | GetEntry | PutEntry | DeleteEntryAt

text \<open>The groups of the router: strictly limited credentials, refresh, logout, and what needs an access token.\<close>

datatype Access = Credentials | RefreshGroup | OpenAccess | NeedsToken

definition tripRoutes :: "(str \<times> str \<times> Endpoint) list" where
  "tripRoutes =
     [(''GET'', ''/trips/{tripID}/'', GetTrip), (''PATCH'', ''/trips/{tripID}/'', PatchTrip), (''DELETE'', ''/trips/{tripID}/'', DeleteTripAt),
      (''GET'', ''/trips/{tripID}/members'', GetMembers), (''PATCH'', ''/trips/{tripID}/members/{userID}'', PatchMember),
      (''DELETE'', ''/trips/{tripID}/members/{userID}'', DeleteMember),
      (''POST'', ''/trips/{tripID}/invitations'', PostInvitation), (''GET'', ''/trips/{tripID}/invitations'', GetInvitations),
      (''DELETE'', ''/trips/{tripID}/invitations/{invitationID}'', DeleteInvitation),
      (''GET'', ''/trips/{tripID}/days'', GetDays), (''POST'', ''/trips/{tripID}/days'', PostDay),
      (''PATCH'', ''/trips/{tripID}/days/{dayID}'', PatchDay), (''POST'', ''/trips/{tripID}/days/{dayID}/move'', PostDayMove),
      (''DELETE'', ''/trips/{tripID}/days/{dayID}'', DeleteDayAt),
      (''GET'', ''/trips/{tripID}/slots'', GetSlots), (''POST'', ''/trips/{tripID}/slots'', PostSlot),
      (''GET'', ''/trips/{tripID}/slots/{slotID}'', GetSlot), (''PATCH'', ''/trips/{tripID}/slots/{slotID}'', PatchSlot),
      (''POST'', ''/trips/{tripID}/slots/{slotID}/move'', PostSlotMove),
      (''POST'', ''/trips/{tripID}/slots/{slotID}/select'', PostSlotSelect),
      (''POST'', ''/trips/{tripID}/slots/{slotID}/status'', PostSlotStatus),
      (''DELETE'', ''/trips/{tripID}/slots/{slotID}'', DeleteSlotAt),
      (''GET'', ''/trips/{tripID}/slots/{slotID}/options'', GetOptions), (''POST'', ''/trips/{tripID}/slots/{slotID}/options'', PostOption),
      (''PATCH'', ''/trips/{tripID}/slots/{slotID}/options/{optionID}'', PatchOption),
      (''DELETE'', ''/trips/{tripID}/slots/{slotID}/options/{optionID}'', DeleteOptionAt),
      (''GET'', ''/trips/{tripID}/slots/{slotID}/votes'', GetVotes), (''GET'', ''/trips/{tripID}/slots/{slotID}/votes/tally'', GetTally),
      (''PUT'', ''/trips/{tripID}/slots/{slotID}/votes/me'', PutVote),
      (''GET'', ''/trips/{tripID}/slots/{slotID}/comments'', GetComments),
      (''POST'', ''/trips/{tripID}/slots/{slotID}/comments'', PostComment),
      (''DELETE'', ''/trips/{tripID}/slots/{slotID}/comments/{commentID}'', DeleteCommentAt),
      (''GET'', ''/trips/{tripID}/budget'', GetBudget), (''POST'', ''/trips/{tripID}/budget'', PostEntry),
      (''GET'', ''/trips/{tripID}/budget/{entryID}'', GetEntry), (''PUT'', ''/trips/{tripID}/budget/{entryID}'', PutEntry),
      (''DELETE'', ''/trips/{tripID}/budget/{entryID}'', DeleteEntryAt)]"

definition apiRoutes :: "(str \<times> str \<times> Endpoint) list" where
  "apiRoutes =
     [(''POST'', ''/auth/signup'', PostSignup), (''POST'', ''/auth/login'', PostLogin), (''POST'', ''/auth/verify-email'', PostVerifyEmail),
      (''POST'', ''/auth/request-password-reset'', PostRequestPasswordReset), (''POST'', ''/auth/reset-password'', PostResetPassword),
      (''POST'', ''/auth/refresh'', PostRefresh), (''POST'', ''/auth/logout'', PostLogout),
      (''GET'', ''/me'', GetMe), (''GET'', ''/auth/sessions'', GetSessions), (''DELETE'', ''/auth/sessions/{sessionID}'', DeleteSession),
      (''POST'', ''/trips'', PostTrip), (''GET'', ''/trips'', GetTrips), (''POST'', ''/invitations/accept'', PostAccept)] @ tripRoutes"

definition accessOf :: "Endpoint \<Rightarrow> Access" where
  "accessOf ep =
     (if ep \<in> {PostSignup, PostLogin, PostVerifyEmail, PostRequestPasswordReset, PostResetPassword} then Credentials
      else if ep = PostRefresh then RefreshGroup
      else if ep = PostLogout then OpenAccess
      else NeedsToken)"

section \<open>The server\<close>

record World =
  wdPlan :: DB
  wdAccounts :: AuthDB

datatype document = PlanningDoc planningBody | PeopleDoc peopleBody | AccountDoc accountBody

text \<open>What a request sets off besides its response: operations published, mails, revocations announced.\<close>

datatype Effect = Published Op | Mailed Mail | Happened AuthEvent

type_synonym serverReply = "document HttpResponse \<times> World \<times> Effect list"

datatype Limiter = GeneralLimiter | AuthLimiter | RefreshLimiter

record Server =
  svLib :: HttpLib
  svConfig :: PeopleConfig
  svPlan :: Env
  svPeople :: PeopleEnv
  svAuth :: AuthEnv
  svMatch :: "str \<Rightarrow> str \<Rightarrow> (str \<Rightarrow> str) option"
  svAllows :: "Limiter \<Rightarrow> bool"

definition mapBody :: "('a \<Rightarrow> 'b) \<Rightarrow> 'a HttpResponse \<Rightarrow> 'b HttpResponse" where
  "mapBody f p = \<lparr>rsStatus = rsStatus p,
     rsBody = (case rsBody p of NoContent \<Rightarrow> NoContent | Data b \<Rightarrow> Data (f b) | ProblemDocument pb \<Rightarrow> ProblemDocument pb),
     rsCookie = rsCookie p\<rparr>"

definition planned :: "World \<Rightarrow> planningReply \<Rightarrow> serverReply" where
  "planned w x = (case x of (p, db, ops) \<Rightarrow> (mapBody PlanningDoc p, w\<lparr>wdPlan := db\<rparr>, map Published ops))"

definition organised :: "World \<Rightarrow> peopleReply \<Rightarrow> serverReply" where
  "organised w x = (case x of (p, db, mails) \<Rightarrow> (mapBody PeopleDoc p, w\<lparr>wdPlan := db\<rparr>, map Mailed mails))"

definition accounted :: "World \<Rightarrow> accountReply \<Rightarrow> serverReply" where
  "accounted w x = (case x of (p, accounts, evs) \<Rightarrow> (mapBody AccountDoc p, w\<lparr>wdAccounts := accounts\<rparr>, map Happened evs))"

definition runEndpoint :: "Server \<Rightarrow> Endpoint \<Rightarrow> HttpRequest \<Rightarrow> World \<Rightarrow> serverReply" where
  "runEndpoint sv ep r w =
     (let l = svLib sv; cfg = svConfig sv; e = svPlan sv; pe = svPeople sv; ae = svAuth sv; ac = pcAuth cfg;
          db = wdPlan w; accounts = wdAccounts w in
      case ep of
        PostSignup \<Rightarrow> accounted w (AuthHandler_Signup l ac ae r accounts)
      | PostLogin \<Rightarrow> accounted w (AuthHandler_Login l ac ae r accounts)
      | PostVerifyEmail \<Rightarrow> accounted w (AuthHandler_VerifyEmail l ac ae r accounts)
      | PostRequestPasswordReset \<Rightarrow> accounted w (AuthHandler_RequestPasswordReset l ac ae r accounts)
      | PostResetPassword \<Rightarrow> accounted w (AuthHandler_ResetPassword l ac ae r accounts)
      | PostRefresh \<Rightarrow> accounted w (AuthHandler_Refresh l ac ae r accounts)
      | PostLogout \<Rightarrow> accounted w (AuthHandler_Logout ac ae r accounts)
      | GetMe \<Rightarrow> accounted w (AuthHandler_Me l r accounts)
      | GetSessions \<Rightarrow> accounted w (AuthHandler_ListSessions l ae r accounts)
      | DeleteSession \<Rightarrow> accounted w (AuthHandler_RevokeSession l ae r accounts)
      | PostTrip \<Rightarrow> organised w (TripHandler_Create l cfg pe accounts r db)
      | GetTrips \<Rightarrow> organised w (TripHandler_List l cfg r db)
      | PostAccept \<Rightarrow> organised w (MembershipHandler_AcceptInvitation l cfg pe accounts r db)
      | GetTrip \<Rightarrow> organised w (TripHandler_Get l r db)
      | PatchTrip \<Rightarrow> organised w (TripHandler_Update l cfg pe r db)
      | DeleteTripAt \<Rightarrow> organised w (TripHandler_Delete l pe r db)
      | GetMembers \<Rightarrow> organised w (MembershipHandler_ListMembers l accounts r db)
      | PatchMember \<Rightarrow> organised w (MembershipHandler_UpdateMemberRole l pe r db)
      | DeleteMember \<Rightarrow> organised w (MembershipHandler_RemoveMember l pe r db)
      | PostInvitation \<Rightarrow> organised w (MembershipHandler_CreateInvitation l cfg pe accounts r db)
      | GetInvitations \<Rightarrow> organised w (MembershipHandler_ListInvitations l r db)
      | DeleteInvitation \<Rightarrow> organised w (MembershipHandler_RevokeInvitation l pe r db)
      | GetDays \<Rightarrow> planned w (DayHandler_List l r db)
      | PostDay \<Rightarrow> planned w (DayHandler_Create l e r db)
      | PatchDay \<Rightarrow> planned w (DayHandler_Update l e r db)
      | PostDayMove \<Rightarrow> planned w (DayHandler_Move l e r db)
      | DeleteDayAt \<Rightarrow> planned w (DayHandler_Delete l e r db)
      | GetSlots \<Rightarrow> planned w (SlotHandler_List l r db)
      | PostSlot \<Rightarrow> planned w (SlotHandler_Create l e r db)
      | GetSlot \<Rightarrow> planned w (SlotHandler_Get l r db)
      | PatchSlot \<Rightarrow> planned w (SlotHandler_Update l e r db)
      | PostSlotMove \<Rightarrow> planned w (SlotHandler_Move l e r db)
      | PostSlotSelect \<Rightarrow> planned w (SlotHandler_SetSelectedOption l e r db)
      | PostSlotStatus \<Rightarrow> planned w (SlotHandler_SetStatus l e r db)
      | DeleteSlotAt \<Rightarrow> planned w (SlotHandler_Delete l e r db)
      | GetOptions \<Rightarrow> planned w (SlotOptionHandler_List l r db)
      | PostOption \<Rightarrow> planned w (SlotOptionHandler_Create l e r db)
      | PatchOption \<Rightarrow> planned w (SlotOptionHandler_Update l e r db)
      | DeleteOptionAt \<Rightarrow> planned w (SlotOptionHandler_Delete l e r db)
      | GetVotes \<Rightarrow> planned w (VoteHandler_List l r db)
      | GetTally \<Rightarrow> planned w (VoteHandler_Tally l r db)
      | PutVote \<Rightarrow> planned w (VoteHandler_Cast l e r db)
      | GetComments \<Rightarrow> planned w (CommentHandler_List l r db)
      | PostComment \<Rightarrow> planned w (CommentHandler_Create l e r db)
      | DeleteCommentAt \<Rightarrow> planned w (CommentHandler_Delete l e r db)
      | GetBudget \<Rightarrow> planned w (BudgetHandler_List l r db)
      | PostEntry \<Rightarrow> planned w (BudgetHandler_Create l e r db)
      | GetEntry \<Rightarrow> planned w (BudgetHandler_Get l r db)
      | PutEntry \<Rightarrow> planned w (BudgetHandler_Update l e r db)
      | DeleteEntryAt \<Rightarrow> planned w (BudgetHandler_Delete l e r db))"

section \<open>One request\<close>

text \<open>The context of a request that arrives carries no claims; \<^theory_text>\<open>RequireAuth\<close> puts them there.\<close>

datatype Routed = Matched Endpoint "str \<Rightarrow> str" | WrongMethod | NoRoute

fun routeIn :: "(str \<Rightarrow> str \<Rightarrow> (str \<Rightarrow> str) option) \<Rightarrow> str \<Rightarrow> str \<Rightarrow> (str \<times> str \<times> Endpoint) list \<Rightarrow> bool \<Rightarrow> Routed" where
  "routeIn match m path [] known = (if known then WrongMethod else NoRoute)"
| "routeIn match m path ((m', pattern, ep) # rest) known =
     (case match pattern path of
        None \<Rightarrow> routeIn match m path rest known
      | Some params \<Rightarrow> if m' = m then Matched ep params else routeIn match m path rest True)"

definition refuse :: "World \<Rightarrow> Problem \<Rightarrow> serverReply" where
  "refuse w p = (writeProblem p, w, [])"

definition limited :: "Server \<Rightarrow> Limiter \<Rightarrow> HttpRequest \<Rightarrow> World \<Rightarrow> serverReply \<Rightarrow> serverReply" where
  "limited sv which r w passed = (if svAllows sv which then passed else refuse w (problem ''rate-limited'' 429 [] r))"

definition serveAPI :: "Server \<Rightarrow> HttpRequest \<Rightarrow> World \<Rightarrow> serverReply" where
  "serveAPI sv r w = limited sv GeneralLimiter r w
     (case routeIn (svMatch sv) (hrMethod r) (hrPath r) apiRoutes False of
        NoRoute \<Rightarrow> refuse w (problem ''not-found'' 404 [] r)
      | WrongMethod \<Rightarrow> refuse w (problem ''bad-request'' 405 [] r)
      | Matched ep params \<Rightarrow>
          (let r = r\<lparr>hrParam := params, hrClaims := None\<rparr> in
           case accessOf ep of
             Credentials \<Rightarrow> limited sv AuthLimiter r w (runEndpoint sv ep r w)
           | RefreshGroup \<Rightarrow> limited sv RefreshLimiter r w (runEndpoint sv ep r w)
           | OpenAccess \<Rightarrow> runEndpoint sv ep r w
           | NeedsToken \<Rightarrow>
               (case RequireAuth (pcAuth (svConfig sv)) (svAuth sv) (wdAccounts w) r of
                  Inl p \<Rightarrow> refuse w p
                | Inr r \<Rightarrow> runEndpoint sv ep r w)))"

end
