(* ===== verification/Surface.thy ===== *)
theory Surface
  imports Server
begin

text \<open>What holds of the HTTP surface: a request is one of the requests that the services serve, made as the
  account its access token names, or it changes nothing; an edit means the same over HTTP as over a
  socket; no response tells a database error apart.\<close>

section \<open>Statuses\<close>

lemma problem_status [simp]: "pbStatus (problem t status ve r) = status"
  by (simp add: problem_def)

lemma writeError_status: "400 \<le> pbStatus (writeError err r)"
  by (auto simp: writeError_def)

lemma writeRequestError_status: "400 \<le> pbStatus (writeRequestError err r)"
  by (auto simp: writeRequestError_def writeError_status split: requestError.splits)

lemma status_simps [simp]:
  "rsStatus (writeProblem p) = pbStatus p" "rsStatus (writeData status b) = status" "rsStatus noContent = 204"
  "rsStatus (mapBody f p') = rsStatus p'" "rsStatus (setRefreshCookie pair p') = rsStatus p'" "rsStatus (clearRefreshCookie p') = rsStatus p'"
  by (simp_all add: writeProblem_def writeData_def noContent_def mapBody_def setRefreshCookie_def clearRefreshCookie_def)

section \<open>Planning requests\<close>

definition asServed :: "HttpRequest \<Rightarrow> 's \<Rightarrow> (ID \<Rightarrow> unit res \<times> 's \<times> 'f list \<Rightarrow> bool) \<Rightarrow> 'b HttpResponse \<times> 's \<times> 'f list \<Rightarrow> bool" where
  "asServed r s served x \<longleftrightarrow> (case x of (p, s', fx) \<Rightarrow>
     s' = s \<and> fx = [] \<or>
     (\<exists>claims res. hrClaims r = Some claims \<and> served (clUserID claims) (res, s', fx) \<and> (isOk res \<longleftrightarrow> rsStatus p < 400)))"

definition whenInr :: "('a \<Rightarrow> bool) \<Rightarrow> 'e + 'a \<Rightarrow> bool" where
  "whenInr Q p \<longleftrightarrow> (case p of Inl _ \<Rightarrow> True | Inr x \<Rightarrow> Q x)"

lemma whenInr_Inr: "Q x \<Longrightarrow> whenInr Q (Inr x)"
  by (simp add: whenInr_def)

lemma whenInr_bind: "(\<And>y. p = Inr y \<Longrightarrow> whenInr Q (f y)) \<Longrightarrow> whenInr Q (bindR p f)"
  by (cases p) (simp_all add: whenInr_def)

lemma whenInr_prod: "(\<And>a b. y = (a, b) \<Longrightarrow> whenInr Q (f a b)) \<Longrightarrow> whenInr Q (case y of (a, b) \<Rightarrow> f a b)"
  by (cases y) simp

lemma asServed_handle: "whenInr (asServed r s served) p \<Longrightarrow> asServed r s served (handle r s p)"
  by (cases p) (auto simp: handle_def asServed_def whenInr_def)

lemma UserIDFrom_Inr: "UserIDFrom r = Inr userID \<longleftrightarrow> (\<exists>claims. hrClaims r = Some claims \<and> userID = clUserID claims)"
  by (auto simp: UserIDFrom_def ClaimsFrom_def bindR_def split: option.splits)

lemma ClaimsFrom_Inr: "ClaimsFrom r = Inr claims \<longleftrightarrow> hrClaims r = Some claims"
  by (auto simp: ClaimsFrom_def split: option.splits)

lemma asServed_answer:
  assumes "hrClaims r = Some claims" "served (clUserID claims) (bindR (fst y) (\<lambda>_. Inr ()), snd y)" "\<And>v. rsStatus (ok v) < 400"
  shows "asServed r s served (answer r ok y)"
proof -
  obtain res s' fx where y: "y = (res, s', fx)" by (cases y)
  have "\<not> rsStatus (writeProblem (writeError err r)) < 400" for err using writeError_status [of err r] by simp
  then show ?thesis using assms y by (cases res) (auto simp: asServed_def answer_def isOk_def)
qed

lemma asServed_reading: "asServed r s served (answer r ok (reading s res))" "asServed r s served (answer r ok (res, s, []))"
  by (simp_all add: asServed_def answer_def reading_def)

lemma whenInr_caller:
  "(\<And>claims. hrClaims r = Some claims \<Longrightarrow> whenInr Q (k (clUserID claims))) \<Longrightarrow> whenInr Q (bindR (UserIDFrom r) k)"
  "(\<And>claims. hrClaims r = Some claims \<Longrightarrow> whenInr Q (k' claims)) \<Longrightarrow> whenInr Q (bindR (ClaimsFrom r) k')"
  by (auto intro!: whenInr_bind simp: UserIDFrom_Inr ClaimsFrom_Inr)

lemma whenInr_inTrip:
  "(\<And>claims tripID. hrClaims r = Some claims \<Longrightarrow> whenInr Q (k (clUserID claims) tripID)) \<Longrightarrow> whenInr Q (inTrip l r k)"
  unfolding inTrip_def by (intro whenInr_caller whenInr_bind)

lemma whenInr_onResource:
  "(\<And>claims tripID i. hrClaims r = Some claims \<Longrightarrow> whenInr Q (k (clUserID claims) tripID i)) \<Longrightarrow> whenInr Q (onResource l r name k)"
  unfolding onResource_def by (intro whenInr_inTrip whenInr_bind)

lemmas served_intros = asServed_handle whenInr_inTrip whenInr_onResource whenInr_caller whenInr_bind whenInr_prod whenInr_Inr

definition planRequest :: "Env \<Rightarrow> DB \<Rightarrow> ID \<Rightarrow> unit reply \<Rightarrow> bool" where
  "planRequest e db userID x \<longleftrightarrow> (\<exists>tripID req. x = serve e tripID userID req db)"

lemma asServed_plan:
  assumes "hrClaims r = Some claims" "serve e tripID (clUserID claims) req db = ack y" "\<And>v. rsStatus (ok v) < 400"
  shows "asServed r db (planRequest e db) (answer r ok y)"
proof (rule asServed_answer [where served = "planRequest e db", OF assms(1) _ assms(3)])
  show "planRequest e db (clUserID claims) (bindR (fst y) (\<lambda>_. Inr ()), snd y)"
    unfolding planRequest_def using assms(2) by (intro exI [of _ tripID] exI [of _ req]) (cases y, simp add: ack_def)
qed

lemma ack_unit: "ack (x :: unit reply) = x"
  by (cases x; cases "fst x") (auto simp: ack_def)

lemma serve_ack:
  "serve e tripID userID (CreateSlot inp1) db = ack (SlotService_Create e tripID userID inp1 db)"
  "serve e tripID userID (UpdateSlot i inp2) db = ack (SlotService_Update e tripID userID i inp2 db)"
  "serve e tripID userID (MoveSlot i dayID after v) db = ack (SlotService_Move e tripID userID i dayID after v db)"
  "serve e tripID userID (SelectOption i optionID v) db = ack (SlotService_SetSelectedOption e tripID userID i optionID v db)"
  "serve e tripID userID (SetStatus i status v) db = ack (SlotService_SetStatus e tripID userID i status v db)"
  "serve e tripID userID (DeleteSlot i v) db = ack (SlotService_Delete e tripID userID i v db)"
  "serve e tripID userID (CreateDay inp3) db = ack (DayService_Create e tripID userID inp3 db)"
  "serve e tripID userID (UpdateDay i inp4) db = ack (DayService_Update e tripID userID i inp4 db)"
  "serve e tripID userID (MoveDay i after v) db = ack (DayService_Move e tripID userID i after v db)"
  "serve e tripID userID (DeleteDay i v) db = ack (DayService_Delete e tripID userID i v db)"
  "serve e tripID userID (CreateOption slotID inp5) db = ack (SlotOptionService_Create e tripID userID slotID inp5 db)"
  "serve e tripID userID (UpdateOption i inp6) db = ack (SlotOptionService_Update e tripID userID i inp6 db)"
  "serve e tripID userID (DeleteOption i v) db = ack (SlotOptionService_Delete e tripID userID i v db)"
  "serve e tripID userID (CastVote slotID optionID) db = ack (VoteService_Cast e tripID userID slotID optionID db)"
  "serve e tripID userID (CreateComment slotID inp7) db = ack (CommentService_Create e tripID userID slotID inp7 db)"
  "serve e tripID userID (DeleteComment i) db = ack (CommentService_Delete e tripID userID i db)"
  "serve e tripID userID (CreateEntry inp8) db = ack (BudgetService_Create e tripID userID inp8 db)"
  "serve e tripID userID (UpdateEntry i inp8) db = ack (BudgetService_Update e tripID userID i inp8 db)"
  "serve e tripID userID (DeleteEntry i v) db = ack (BudgetService_Delete e tripID userID i v db)"
  by (simp_all add: serve_def ack_unit)

lemmas planned_intros = served_intros asServed_reading serve_ack [THEN asServed_plan [rotated 1]]

lemma planning_handlers:
  "asServed r db (planRequest e db) (SlotHandler_List l r db)" "asServed r db (planRequest e db) (SlotHandler_Get l r db)"
  "asServed r db (planRequest e db) (SlotHandler_Create l e r db)" "asServed r db (planRequest e db) (SlotHandler_Update l e r db)"
  "asServed r db (planRequest e db) (SlotHandler_Move l e r db)" "asServed r db (planRequest e db) (SlotHandler_SetSelectedOption l e r db)"
  "asServed r db (planRequest e db) (SlotHandler_SetStatus l e r db)" "asServed r db (planRequest e db) (SlotHandler_Delete l e r db)"
  unfolding SlotHandler_List_def SlotHandler_Get_def SlotHandler_Create_def SlotHandler_Update_def SlotHandler_Move_def
    SlotHandler_SetSelectedOption_def SlotHandler_SetStatus_def SlotHandler_Delete_def
  by (intro planned_intros; simp)+

lemma planning_handlers2:
  "asServed r db (planRequest e db) (DayHandler_List l r db)" "asServed r db (planRequest e db) (DayHandler_Create l e r db)"
  "asServed r db (planRequest e db) (DayHandler_Update l e r db)" "asServed r db (planRequest e db) (DayHandler_Move l e r db)"
  "asServed r db (planRequest e db) (DayHandler_Delete l e r db)"
  "asServed r db (planRequest e db) (SlotOptionHandler_List l r db)" "asServed r db (planRequest e db) (SlotOptionHandler_Create l e r db)"
  "asServed r db (planRequest e db) (SlotOptionHandler_Update l e r db)" "asServed r db (planRequest e db) (SlotOptionHandler_Delete l e r db)"
  unfolding DayHandler_List_def DayHandler_Create_def DayHandler_Update_def DayHandler_Move_def DayHandler_Delete_def
    SlotOptionHandler_List_def SlotOptionHandler_Create_def SlotOptionHandler_Update_def SlotOptionHandler_Delete_def
  by (intro planned_intros; simp)+

lemma planning_handlers3:
  "asServed r db (planRequest e db) (VoteHandler_Cast l e r db)" "asServed r db (planRequest e db) (VoteHandler_List l r db)"
  "asServed r db (planRequest e db) (VoteHandler_Tally l r db)" "asServed r db (planRequest e db) (CommentHandler_Create l e r db)"
  "asServed r db (planRequest e db) (CommentHandler_List l r db)" "asServed r db (planRequest e db) (CommentHandler_Delete l e r db)"
  "asServed r db (planRequest e db) (BudgetHandler_List l r db)" "asServed r db (planRequest e db) (BudgetHandler_Get l r db)"
  "asServed r db (planRequest e db) (BudgetHandler_Create l e r db)" "asServed r db (planRequest e db) (BudgetHandler_Update l e r db)"
  "asServed r db (planRequest e db) (BudgetHandler_Delete l e r db)"
  unfolding VoteHandler_Cast_def VoteHandler_List_def VoteHandler_Tally_def CommentHandler_Create_def CommentHandler_List_def
    CommentHandler_Delete_def BudgetHandler_List_def BudgetHandler_Get_def BudgetHandler_Create_def BudgetHandler_Update_def
    BudgetHandler_Delete_def
  by (intro planned_intros; simp)+

section \<open>People and accounts\<close>

definition peopleRequest :: "PeopleConfig \<Rightarrow> PeopleEnv \<Rightarrow> AuthDB \<Rightarrow> DB \<Rightarrow> ID \<Rightarrow> unit outcome \<Rightarrow> bool" where
  "peopleRequest cfg e accounts db userID x \<longleftrightarrow> (\<exists>req. x = peopleServe cfg e accounts userID req db)"

lemma asServed_people:
  assumes "hrClaims r = Some claims" "peopleServe cfg e accounts (clUserID claims) req db = finish y" "\<And>v. rsStatus (ok v) < 400"
  shows "asServed r db (peopleRequest cfg e accounts db) (answer r ok y)"
proof (rule asServed_answer [where served = "peopleRequest cfg e accounts db", OF assms(1) _ assms(3)])
  show "peopleRequest cfg e accounts db (clUserID claims) (bindR (fst y) (\<lambda>_. Inr ()), snd y)"
    unfolding peopleRequest_def using assms(2) by (intro exI [of _ req]) (cases y, simp add: finish_def)
qed

lemma finish_unit: "finish (x :: unit outcome) = x"
  by (cases x; cases "fst x") (auto simp: finish_def)

lemma people_finish:
  "peopleServe cfg e accounts userID (CreateTrip inp) db = finish (TripService_Create cfg e (auUsers accounts) userID inp db)"
  "peopleServe cfg e accounts userID (UpdateTrip tripID inp version) db = finish (TripService_Update cfg e tripID userID inp version db)"
  "peopleServe cfg e accounts userID (DeleteTrip tripID version) db = finish (TripService_Delete e tripID userID version db)"
  "peopleServe cfg e accounts userID (UpdateRole tripID target role version) db =
     finish (MembershipService_UpdateRole e tripID userID target role version db)"
  "peopleServe cfg e accounts userID (RemoveMember tripID target) db = finish (MembershipService_RemoveMember e tripID userID target db)"
  "peopleServe cfg e accounts userID (CreateInvitation tripID inp2) db =
     finish (MembershipService_CreateInvitation cfg e (auUsers accounts) tripID userID inp2 db)"
  "peopleServe cfg e accounts userID (RevokeInvitation tripID i) db = finish (MembershipService_RevokeInvitation e tripID userID i db)"
  "peopleServe cfg e accounts userID (RedeemInvitation raw) db = finish (MembershipService_RedeemInvitation cfg e accounts userID raw db)"
  by (simp_all add: peopleServe_def finish_unit)

lemmas people_intros = served_intros asServed_reading people_finish [THEN asServed_people [rotated 1]]

lemma people_handlers:
  "asServed r db (peopleRequest cfg e accounts db) (TripHandler_Create l cfg e accounts r db)"
  "asServed r db (peopleRequest cfg e accounts db) (TripHandler_List l cfg r db)"
  "asServed r db (peopleRequest cfg e accounts db) (TripHandler_Get l r db)"
  "asServed r db (peopleRequest cfg e accounts db) (TripHandler_Update l cfg e r db)"
  "asServed r db (peopleRequest cfg e accounts db) (TripHandler_Delete l e r db)"
  "asServed r db (peopleRequest cfg e accounts db) (MembershipHandler_ListMembers l accounts r db)"
  "asServed r db (peopleRequest cfg e accounts db) (MembershipHandler_UpdateMemberRole l e r db)"
  "asServed r db (peopleRequest cfg e accounts db) (MembershipHandler_RemoveMember l e r db)"
  "asServed r db (peopleRequest cfg e accounts db) (MembershipHandler_CreateInvitation l cfg e accounts r db)"
  "asServed r db (peopleRequest cfg e accounts db) (MembershipHandler_ListInvitations l r db)"
  "asServed r db (peopleRequest cfg e accounts db) (MembershipHandler_RevokeInvitation l e r db)"
  "asServed r db (peopleRequest cfg e accounts db) (MembershipHandler_AcceptInvitation l cfg e accounts r db)"
  unfolding TripHandler_Create_def TripHandler_List_def TripHandler_Get_def TripHandler_Update_def TripHandler_Delete_def
    MembershipHandler_ListMembers_def MembershipHandler_UpdateMemberRole_def MembershipHandler_RemoveMember_def
    MembershipHandler_CreateInvitation_def MembershipHandler_ListInvitations_def MembershipHandler_RevokeInvitation_def
    MembershipHandler_AcceptInvitation_def
  by (intro people_intros; simp split: prod.splits)+

text \<open>A request about accounts: the end of a session needs the claims of its account, a refresh and a logout act
  for the refresh cookie of the request, the others take no access token (their arguments are a password or a mailed
  token, or they need none). A logout answers 204 whatever happens.\<close>

definition credentialIn :: "HttpRequest \<Rightarrow> AuthRequest \<Rightarrow> bool" where
  "credentialIn r req \<longleftrightarrow> (case req of
     EndSession userID _ \<Rightarrow> map_option clUserID (hrClaims r) = Some userID
   | Refresh raw \<Rightarrow> hrCookie r refreshCookieName = Some raw
   | Logout raw \<Rightarrow> hrCookie r refreshCookieName = Some raw
   | _ \<Rightarrow> True)"

definition answers :: "AuthRequest \<Rightarrow> unit res \<Rightarrow> 'b HttpResponse \<Rightarrow> bool" where
  "answers req res p \<longleftrightarrow> (case req of Logout _ \<Rightarrow> rsStatus p = 204 | _ \<Rightarrow> isOk res \<longleftrightarrow> rsStatus p < 400)"

lemma answers_mapBody [simp]: "answers req res (mapBody f p) = answers req res p"
  by (cases req) (simp_all add: answers_def mapBody_def)

lemma credentialIn_claims [simp]:
  "credentialIn (r\<lparr>hrParam := params, hrClaims := c\<rparr>) req = credentialIn (r\<lparr>hrClaims := c\<rparr>) req"
  by (simp add: credentialIn_def split: AuthRequest.split)

definition accountServed :: "HttpRequest \<Rightarrow> AuthConfig \<Rightarrow> AuthEnv \<Rightarrow> AuthDB \<Rightarrow> accountReply \<Rightarrow> bool" where
  "accountServed r cfg e db x \<longleftrightarrow> (case x of (p, db', evs) \<Rightarrow>
     db' = db \<and> evs = [] \<or>
     (\<exists>req res. authServe cfg e req db = (res, db', evs) \<and> answers req res p \<and> credentialIn r req))"

lemma accountServed_handle: "whenInr (accountServed r cfg e db) p \<Longrightarrow> accountServed r cfg e db (handle r db p)"
  by (cases p) (auto simp: handle_def accountServed_def whenInr_def)

lemma accountServed_answer:
  assumes "authServe cfg e req db = acked y" "\<And>v. rsStatus (ok v) < 400" "credentialIn r req" "\<And>raw. req \<noteq> Logout raw"
  shows "accountServed r cfg e db (answer r ok y)"
proof -
  obtain res s' fx where y: "y = (res, s', fx)" by (cases y)
  have "400 \<le> rsStatus (writeProblem (writeError err r))" for err using writeError_status [of err r] by simp
  then have "answers req (fst (acked y)) (fst (answer r ok y))"
    using assms(2,4) by (cases req; cases res) (auto simp: y answers_def answer_def acked_def not_less)
  then show ?thesis using assms(1,3) y
    by (cases res) (auto simp: accountServed_def answer_def acked_def intro!: exI [of _ req])
qed

lemma acked_unit: "acked (x :: unit authReply) = x"
  by (cases x; cases "fst x") (auto simp: acked_def)

lemma auth_acked:
  "authServe cfg e (Signup inp) db = acked (AuthService_Signup cfg e inp db)"
  "authServe cfg e (Login email password meta) db = acked (AuthService_Login cfg e email password meta db)"
  "authServe cfg e (VerifyEmail raw) db = acked (AuthService_VerifyEmail cfg e raw db)"
  "authServe cfg e (RequestPasswordReset email) db = acked (AuthService_RequestPasswordReset cfg e email db)"
  "authServe cfg e (ResetPassword raw password) db = acked (AuthService_ResetPassword cfg e raw password db)"
  "authServe cfg e (EndSession userID sessionID) db = acked (AuthService_RevokeSession e userID sessionID db)"
  by (simp_all add: authServe_def acked_unit)

lemmas account_intros = accountServed_handle whenInr_caller whenInr_bind whenInr_prod whenInr_Inr auth_acked [THEN accountServed_answer]

lemma account_handlers:
  "accountServed r cfg e db (AuthHandler_Signup l cfg e r db)" "accountServed r cfg e db (AuthHandler_Login l cfg e r db)"
  "accountServed r cfg e db (AuthHandler_VerifyEmail l cfg e r db)" "accountServed r cfg e db (AuthHandler_RequestPasswordReset l cfg e r db)"
  "accountServed r cfg e db (AuthHandler_ResetPassword l cfg e r db)" "accountServed r cfg e db (AuthHandler_RevokeSession l e r db)"
  unfolding AuthHandler_Signup_def AuthHandler_Login_def AuthHandler_VerifyEmail_def AuthHandler_RequestPasswordReset_def
    AuthHandler_ResetPassword_def AuthHandler_RevokeSession_def
  by (intro account_intros; simp add: credentialIn_def split: prod.splits)+

lemma account_readers:
  "accountServed r cfg e db (AuthHandler_Me l r db)" "accountServed r cfg e db (AuthHandler_ListSessions l e r db)"
  unfolding AuthHandler_Me_def AuthHandler_ListSessions_def
  by (intro accountServed_handle whenInr_caller whenInr_Inr; simp add: accountServed_def answer_def)+

lemma accountServedI:
  assumes "authServe cfg e req db = (res, db', evs)" "answers req res p" "credentialIn r req"
  shows "accountServed r cfg e db (p, db', evs)"
  unfolding accountServed_def using assms by blast

lemma account_cookies:
  "accountServed r cfg e db (AuthHandler_Refresh l cfg e r db)" "accountServed r cfg e db (AuthHandler_Logout cfg e r db)"
proof -
  have idle: "accountServed r cfg e db (p, db, [])" for p by (simp add: accountServed_def)
  have refreshed: "authServe cfg e (Refresh raw) db = (bindR (fst x) (\<lambda>_. Inr ()), snd x)" if "AuthService_Refresh cfg e raw db = x" for raw x
    using that by (cases x) (simp add: authServe_def acked_def)
  show "accountServed r cfg e db (AuthHandler_Refresh l cfg e r db)"
    using writeError_status
    by (auto simp: AuthHandler_Refresh_def idle answers_def credentialIn_def not_less
        split: option.splits prod.splits sum.splits dest!: refreshed intro!: accountServedI)
  have loggedOut: "authServe cfg e (Logout raw) db = x" if "AuthService_Logout cfg e raw db = x" for raw x
    using that by (simp add: authServe_def)
  show "accountServed r cfg e db (AuthHandler_Logout cfg e r db)"
    by (auto simp: AuthHandler_Logout_def idle answers_def credentialIn_def
        split: option.splits prod.splits dest!: loggedOut intro!: accountServedI)
qed

section \<open>Whose request it is\<close>

definition callerOf :: "Server \<Rightarrow> HttpRequest \<Rightarrow> World \<Rightarrow> Claims \<Rightarrow> bool" where
  "callerOf sv r w claims \<longleftrightarrow> (\<exists>token. bearerToken r = Some token \<and>
     AuthService_Authenticate (pcAuth (svConfig sv)) (svAuth sv) token (wdAccounts w) = Inr claims)"

lemma RequireAuth_Inr:
  "RequireAuth (pcAuth (svConfig sv)) (svAuth sv) (wdAccounts w) r = Inr r' \<longleftrightarrow> (\<exists>claims. callerOf sv r w claims \<and> r' = r\<lparr>hrClaims := Some claims\<rparr>)"
  by (auto simp: RequireAuth_def callerOf_def split: option.splits sum.splits)

lemma RequireAuth_Inl:
  "RequireAuth cfg e db r = Inl p \<Longrightarrow> pbStatus p = 401"
  by (auto simp: RequireAuth_def split: option.splits sum.splits)

text \<open>What an endpoint does to the world.\<close>

definition endpointServed :: "Server \<Rightarrow> HttpRequest \<Rightarrow> World \<Rightarrow> serverReply \<Rightarrow> bool" where
  "endpointServed sv r w x \<longleftrightarrow> (case x of (p, w', fx) \<Rightarrow>
     w' = w \<and> fx = [] \<or>
     (\<exists>claims tripID req res ops. hrClaims r = Some claims \<and>
        serve (svPlan sv) tripID (clUserID claims) req (wdPlan w) = (res, wdPlan w', ops) \<and> wdAccounts w' = wdAccounts w \<and>
        fx = map Published ops \<and> (isOk res \<longleftrightarrow> rsStatus p < 400)) \<or>
     (\<exists>claims req res mails. hrClaims r = Some claims \<and>
        peopleServe (svConfig sv) (svPeople sv) (wdAccounts w) (clUserID claims) req (wdPlan w) = (res, wdPlan w', mails) \<and>
        wdAccounts w' = wdAccounts w \<and> fx = map Mailed mails \<and> (isOk res \<longleftrightarrow> rsStatus p < 400)) \<or>
     (\<exists>req res evs. authServe (pcAuth (svConfig sv)) (svAuth sv) req (wdAccounts w) = (res, wdAccounts w', evs) \<and>
        wdPlan w' = wdPlan w \<and> fx = map Happened evs \<and> answers req res p \<and> credentialIn r req))"

lemma endpointServed_planned:
  assumes "asServed r (wdPlan w) (planRequest (svPlan sv) (wdPlan w)) x"
  shows "endpointServed sv r w (planned w x)"
proof (cases x)
  case (fields p db ops)
  then show ?thesis using assms unfolding endpointServed_def planned_def asServed_def planRequest_def by auto
qed

lemma endpointServed_organised:
  assumes "asServed r (wdPlan w) (peopleRequest (svConfig sv) (svPeople sv) (wdAccounts w) (wdPlan w)) x"
  shows "endpointServed sv r w (organised w x)"
proof (cases x)
  case (fields p db mails)
  then show ?thesis using assms unfolding endpointServed_def organised_def asServed_def peopleRequest_def by auto
qed

lemma endpointServed_accounted:
  assumes "accountServed r (pcAuth (svConfig sv)) (svAuth sv) (wdAccounts w) x"
  shows "endpointServed sv r w (accounted w x)"
proof (cases x)
  case (fields p db evs)
  show ?thesis using assms [unfolded accountServed_def fields prod.case]
  proof (elim disjE exE)
    fix req res
    assume "authServe (pcAuth (svConfig sv)) (svAuth sv) req (wdAccounts w) = (res, db, evs) \<and> answers req res p \<and> credentialIn r req"
    then show ?thesis unfolding endpointServed_def accounted_def fields prod.case
      by (intro disjI2 exI [of _ req] exI [of _ res] exI [of _ evs]) simp
  qed (simp add: endpointServed_def accounted_def fields)
qed

lemma runEndpoint_served: "endpointServed sv r w (runEndpoint sv ep r w)"
  unfolding runEndpoint_def Let_def
  by (cases ep) (simp_all add: endpointServed_planned endpointServed_organised endpointServed_accounted
      planning_handlers planning_handlers2 planning_handlers3 people_handlers account_handlers account_readers account_cookies)

lemma bearerToken_update [simp]: "bearerToken (r\<lparr>hrParam := f, hrClaims := c\<rparr>) = bearerToken r"
  by (simp add: bearerToken_def)

lemma callerOf_update [simp]: "callerOf sv (r\<lparr>hrParam := f, hrClaims := c\<rparr>) w claims = callerOf sv r w claims"
  by (simp add: callerOf_def)

lemma serveAPI_cases:
  obtains (refused) p where "serveAPI sv r w = refuse w p" "400 \<le> pbStatus p"
  | (called) ep params claims where "callerOf sv r w claims"
      "serveAPI sv r w = runEndpoint sv ep (r\<lparr>hrParam := params, hrClaims := Some claims\<rparr>) w"
  | (anonymous) ep params where "accessOf ep \<noteq> NeedsToken"
      "serveAPI sv r w = runEndpoint sv ep (r\<lparr>hrParam := params, hrClaims := None\<rparr>) w"
proof (cases "svAllows sv GeneralLimiter")
  case False
  then show ?thesis using refused [of "problem ''rate-limited'' 429 [] r"] by (simp add: serveAPI_def limited_def)
next
  case True
  show ?thesis
  proof (cases "routeIn (svMatch sv) (hrMethod r) (hrPath r) apiRoutes False")
    case (Matched ep params)
    let ?r = "r\<lparr>hrParam := params, hrClaims := None\<rparr>"
    note def = True Matched serveAPI_def limited_def
    show ?thesis
    proof (cases "accessOf ep")
      case NeedsToken
      show ?thesis
      proof (cases "RequireAuth (pcAuth (svConfig sv)) (svAuth sv) (wdAccounts w) ?r")
        case (Inl p)
        then show ?thesis using refused [of p] RequireAuth_Inl [OF Inl] NeedsToken by (simp add: def)
      next
        case (Inr r')
        then obtain claims where "callerOf sv r w claims" "r' = r\<lparr>hrParam := params, hrClaims := Some claims\<rparr>"
          unfolding RequireAuth_Inr by auto
        then show ?thesis using called Inr NeedsToken by (simp add: def)
      qed
    next
      case Credentials
      then show ?thesis using refused [of "problem ''rate-limited'' 429 [] ?r"] anonymous [of ep params]
        by (cases "svAllows sv AuthLimiter") (simp_all add: def Let_def)
    next
      case RefreshGroup
      then show ?thesis using refused [of "problem ''rate-limited'' 429 [] ?r"] anonymous [of ep params]
        by (cases "svAllows sv RefreshLimiter") (simp_all add: def Let_def)
    next
      case OpenAccess
      then show ?thesis using anonymous [of ep params] by (simp add: def Let_def)
    qed
  qed (use refused [of "problem ''not-found'' 404 [] r"] refused [of "problem ''bad-request'' 405 [] r"] True in \<open>auto simp: serveAPI_def limited_def\<close>)
qed

lemma serveAPI_served:
  "\<exists>claims. (claims = None \<or> (\<exists>c. claims = Some c \<and> callerOf sv r w c)) \<and> endpointServed sv (r\<lparr>hrClaims := claims\<rparr>) w (serveAPI sv r w)"
proof (cases rule: serveAPI_cases [of sv r w])
  case (refused p)
  then show ?thesis by (intro exI [of _ None]) (simp add: endpointServed_def refuse_def)
next
  case (called ep params claims)
  have "endpointServed sv (r\<lparr>hrParam := params, hrClaims := Some claims\<rparr>) w x = endpointServed sv (r\<lparr>hrClaims := Some claims\<rparr>) w x" for x
    by (simp add: endpointServed_def)
  then show ?thesis using called runEndpoint_served [of sv "r\<lparr>hrParam := params, hrClaims := Some claims\<rparr>" w ep]
    by (intro exI [of _ "Some claims"]) simp
next
  case (anonymous ep params)
  have "endpointServed sv (r\<lparr>hrParam := params, hrClaims := None\<rparr>) w x = endpointServed sv (r\<lparr>hrClaims := None\<rparr>) w x" for x
    by (simp add: endpointServed_def)
  then show ?thesis using anonymous runEndpoint_served [of sv "r\<lparr>hrParam := params, hrClaims := None\<rparr>" w ep]
    by (intro exI [of _ None]) simp
qed

section \<open>Properties\<close>

text \<open>C4: the HTTP API is exactly the services behind it: a request changes nothing, publishes nothing and mails
  nothing, or it is one planning request or one people request, made as the account that its access token
  names in a live session, or one account request. Of these the end of a session is for the account of the
  access token, a refresh and a logout are for the refresh cookie of the request; the others (signup, login, and what
  mailed tokens are for) are made as nobody. The response is a success exactly when the service succeeded; only a logout
  answers 204 in any case.\<close>

theorem http_request_served:
  assumes "serveAPI sv r w = (p, w', fx)"
  shows "w' = w \<and> fx = [] \<or>
    (\<exists>claims tripID req res ops. callerOf sv r w claims \<and>
       serve (svPlan sv) tripID (clUserID claims) req (wdPlan w) = (res, wdPlan w', ops) \<and> wdAccounts w' = wdAccounts w \<and>
       fx = map Published ops \<and> (isOk res \<longleftrightarrow> rsStatus p < 400)) \<or>
    (\<exists>claims req res mails. callerOf sv r w claims \<and>
       peopleServe (svConfig sv) (svPeople sv) (wdAccounts w) (clUserID claims) req (wdPlan w) = (res, wdPlan w', mails) \<and>
       wdAccounts w' = wdAccounts w \<and> fx = map Mailed mails \<and> (isOk res \<longleftrightarrow> rsStatus p < 400)) \<or>
    (\<exists>req res evs. authServe (pcAuth (svConfig sv)) (svAuth sv) req (wdAccounts w) = (res, wdAccounts w', evs) \<and>
       wdPlan w' = wdPlan w \<and> fx = map Happened evs \<and>
       (case req of Logout _ \<Rightarrow> rsStatus p = 204 | _ \<Rightarrow> isOk res \<longleftrightarrow> rsStatus p < 400) \<and>
       (case req of
          EndSession userID _ \<Rightarrow> \<exists>claims. callerOf sv r w claims \<and> clUserID claims = userID
        | Refresh raw \<Rightarrow> hrCookie r refreshCookieName = Some raw
        | Logout raw \<Rightarrow> hrCookie r refreshCookieName = Some raw
        | _ \<Rightarrow> True))"
proof -
  obtain claims where c: "claims = None \<or> (\<exists>c. claims = Some c \<and> callerOf sv r w c)"
    and s: "endpointServed sv (r\<lparr>hrClaims := claims\<rparr>) w (p, w', fx)"
    using serveAPI_served [of sv r w] assms by auto
  have own: "hrClaims (r\<lparr>hrClaims := claims\<rparr>) = Some cl \<Longrightarrow> callerOf sv r w cl" for cl using c by auto
  have cred: "case req of
      EndSession userID _ \<Rightarrow> \<exists>claims. callerOf sv r w claims \<and> clUserID claims = userID
    | Refresh raw \<Rightarrow> hrCookie r refreshCookieName = Some raw
    | Logout raw \<Rightarrow> hrCookie r refreshCookieName = Some raw
    | _ \<Rightarrow> True" if "credentialIn (r\<lparr>hrClaims := claims\<rparr>) req" for req
    using that own by (cases req) (auto simp: credentialIn_def)
  show ?thesis using s unfolding endpointServed_def prod.case
    apply (elim disjE exE)
    subgoal by (rule disjI1)
    subgoal for cl tripID req res ops using own
      by (intro disjI2 [OF disjI1] exI [of _ cl] exI [of _ tripID] exI [of _ req] exI [of _ res] exI [of _ ops]) blast
    subgoal for cl req res mails using own
      by (intro disjI2 [OF disjI2 [OF disjI1]] exI [of _ cl] exI [of _ req] exI [of _ res] exI [of _ mails]) blast
    subgoal for req res evs using cred [of req] unfolding answers_def
      by (intro disjI2 [OF disjI2 [OF disjI2]] exI [of _ req] exI [of _ res] exI [of _ evs]) blast
    done
qed

definition sampleCall :: "str \<Rightarrow> str \<Rightarrow> raw \<Rightarrow> HttpRequest" where
  "sampleCall m path body = \<lparr>hrMethod = m, hrPath = path, hrParam = (\<lambda>_. []), hrQuery = (\<lambda>_. []),
     hrAuthorization = ''bearer  x'', hrContentType = ''application/json; charset=utf-8'', hrBody = BodyValue body False,
     hrCookie = (\<lambda>_. None), hrUserAgent = [], hrRemoteAddr = [], hrRequestID = ''r1'', hrClaims = None\<rparr>"

text \<open>A server whose router compares paths with patterns, all identifiers in a path being those of the trip.\<close>

definition sampleServer :: Server where
  "sampleServer = \<lparr>svLib = \<lparr>hlCodec = sampleCodec, hlQuote = (\<lambda>s. s), hlParseDate = (\<lambda>_. None), hlDateText = (\<lambda>_. []),
       hlSplitHostPort = Some, hlParseAddr = Some\<rparr>,
     svConfig = samplePeople, svPlan = sampleEnv, svPeople = peopleEnv 6 8 ''y'', svAuth = authEnvAt 6 20 ''z'',
     svMatch = (\<lambda>pattern path. if pattern = path then Some (\<lambda>_. unaryText 7) else None), svAllows = (\<lambda>_. True)\<rparr>"

definition samplePost :: HttpRequest where
  "samplePost = sampleCall ''POST'' ''/trips/{tripID}/days'' (RawObj [(''label'', RawStr ''Day 1'')])"

definition sampleWorld :: World where
  "sampleWorld = \<lparr>wdPlan = oneTrip, wdAccounts = sampleAccounts\<rparr>"

lemma sample_post:
  "case serveAPI sampleServer samplePost sampleWorld of (p, w', fx) \<Rightarrow>
     rsStatus p = 201 \<and> length fx = 1 \<and> (case hd fx of Published op \<Rightarrow> opTripID op = 7 \<and> opActorID op = Some 1 | _ \<Rightarrow> False)"
  by code_simp

theorem http_request_served_witness:
  "\<exists>tripID userID req res ops. userID = 1 \<and> ops \<noteq> [] \<and> isOk res \<and>
     serve sampleEnv tripID userID req oneTrip = (res, wdPlan (fst (snd (serveAPI sampleServer samplePost sampleWorld))), ops)"
proof -
  obtain p w' fx where x: "serveAPI sampleServer samplePost sampleWorld = (p, w', fx)" by (metis prod_cases3)
  then obtain op where fx: "fx = [Published op]" "rsStatus p = 201"
    using sample_post by (cases fx) (auto split: Effect.splits)
  have one: "clUserID claims = 1" if "callerOf sampleServer r w claims" for r w claims
    using that by (auto simp: callerOf_def sampleServer_def samplePeople_def sampleConfig_def AuthService_Authenticate_def
        split: sum.splits if_splits)
  obtain claims tripID req res where c: "callerOf sampleServer samplePost sampleWorld claims"
    and served: "serve (svPlan sampleServer) tripID (clUserID claims) req (wdPlan sampleWorld) = (res, wdPlan w', [op])" "isOk res"
    using http_request_served [OF x] fx by (elim disjE exE) (auto simp: Cons_eq_map_conv)
  have "svPlan sampleServer = sampleEnv" "wdPlan sampleWorld = oneTrip" by (simp_all add: sampleServer_def sampleWorld_def)
  then show ?thesis using served one [OF c] x by (intro exI [of _ tripID] exI [of _ "1 :: ID"] exI [of _ req] exI [of _ res] exI [of _ "[op]"]) simp
qed

text \<open>What holds of every state that planning requests, people requests and account steps can reach holds of
  every state that HTTP requests can reach: in any sequence of requests, each with its own clock and
  identifiers, a running server stays a running server.\<close>

theorem http_keeps_running:
  assumes "running okEnv cfg (wdPlan w) (wdAccounts w)" "\<forall>(sv, r) \<in> set requests. svConfig sv = cfg \<and> okEnv (svPlan sv)"
  shows "let w' = fold (\<lambda>(sv, r) w. fst (snd (serveAPI sv r w))) requests w in running okEnv cfg (wdPlan w') (wdAccounts w')"
  using assms
proof (induction requests arbitrary: w)
  case (Cons x requests)
  obtain sv r where x: "x = (sv, r)" by (cases x)
  obtain claims where "endpointServed sv (r\<lparr>hrClaims := claims\<rparr>) w (serveAPI sv r w)" using serveAPI_served [of sv r w] by blast
  moreover obtain p w' fx where s: "serveAPI sv r w = (p, w', fx)" by (metis prod_cases3)
  ultimately have "w' = w \<or> (\<exists>tripID userID req res ops. serve (svPlan sv) tripID userID req (wdPlan w) = (res, wdPlan w', ops) \<and> wdAccounts w' = wdAccounts w) \<or>
      (\<exists>userID req res mails. peopleServe cfg (svPeople sv) (wdAccounts w) userID req (wdPlan w) = (res, wdPlan w', mails) \<and> wdAccounts w' = wdAccounts w) \<or>
      (\<exists>req res evs. authServe (pcAuth cfg) (svAuth sv) req (wdAccounts w) = (res, wdAccounts w', evs) \<and> wdPlan w' = wdPlan w)"
    using Cons.prems(2) x unfolding endpointServed_def by auto
  then have "running okEnv cfg (wdPlan w') (wdAccounts w')"
    using Cons.prems x by (auto intro: running.intros authStep.request)
  then show ?case using Cons.IH [of w'] Cons.prems(2) x s by simp
qed simp

theorem http_keeps_running_witness:
  "running (\<lambda>_. True) samplePeople (wdPlan (fst (snd (serveAPI sampleServer samplePost sampleWorld))))
     (wdAccounts (fst (snd (serveAPI sampleServer samplePost sampleWorld))))"
  using http_keeps_running [of "\<lambda>_. True" samplePeople sampleWorld "[(sampleServer, samplePost)]"] oneTrip_running
  by (simp add: sampleServer_def sampleWorld_def Let_def)

end
