(* ===== verification/Submission.thy ===== *)
theory Submission
  imports Engine Versions
begin

text \<open>What a client may rely on when it submits an intent, retries it, or loses the answer.\<close>

section \<open>Lemmas\<close>

lemma dispatch_cases:
  "(\<exists>err. Engine_dispatch w e i db = (Inl err, db, [])) \<or>
   (\<exists>req. Engine_dispatch w e i db = serve e (inTripID i) (inActorID i) req db)"
  by (cases "bindR (Engine_decode w i) (\<lambda>v. bindR (FieldMask_Validate (inFields i) (inKind i)) (\<lambda>_. requestOf w i v))")
    (auto simp: Engine_dispatch_def)

lemma origin_client [simp]: "eClientOpID (withOrigin i e) = Some (inClientOpID i)"
  by (simp add: withOrigin_def)

lemma attempt_sound:
  assumes "Submit_attempt w e i db = (Inr None, db', ops)"
  shows "\<exists>req. serve (withOrigin i e) (inTripID i) (inActorID i) req db = (Inr (), db', ops)"
proof (cases "Engine_dispatch w (withOrigin i e) i db")
  case (fields res d o')
  have "res = Inr () \<and> d = db' \<and> o' = ops"
    using assms fields by (auto simp: Submit_attempt_def split: sum.splits option.splits if_splits)
  then show ?thesis using dispatch_cases [of w "withOrigin i e" i db] fields by auto
qed

text \<open>Once an operation of the log carries the identifier of the intent, neither part of a submission
  changes anything.\<close>

lemma spent_intent:
  assumes "logUnique (dbOps db)" "op \<in> set (dbOps db)" "opTripID op = inTripID i" "opClientOpID op = Some (inClientOpID i)"
  shows "Engine_replayed i db = Inr (Some op)"
    and "\<exists>res. Submit_attempt w e i db = (res, db, []) \<and> (res = Inr (Some op) \<or> (\<exists>err. res = Inl err))"
proof -
  show r: "Engine_replayed i db = Inr (Some op)"
    using found_client_op [OF assms] by (simp add: Engine_replayed_def)
  obtain err where err: "Engine_dispatch w (withOrigin i e) i db = (Inl err, db, [])"
    using dispatch_cases [of w "withOrigin i e" i db] spent_client_op [OF assms] by fastforce
  show "\<exists>res. Submit_attempt w e i db = (res, db, []) \<and> (res = Inr (Some op) \<or> (\<exists>err. res = Inl err))"
    using r by (simp add: Submit_attempt_def err)
qed

lemma later_log:
  assumes "laterThan okEnv db0 db" shows "\<exists>more. dbOps db = dbOps db0 @ more"
  using assms
proof (induction rule: laterThan.induct)
  case (served db e tripID userID req res db' ops)
  then show ?case using serve_sound [of e tripID userID db req]
    by (auto simp: soundReply_def logGrew_def split: if_splits)
qed simp_all

section \<open>A sample intent\<close>

definition sampleWire :: Wire where
  "sampleWire = \<lparr>wUUID = (\<lambda>_. None), wTime = (\<lambda>_. None), wFloat = (\<lambda>_. None)\<rparr>"

definition sampleIntent :: Intent where
  "sampleIntent = \<lparr>inTripID = 1, inActorID = 3, inClientOpID = 9, inKind = OpDayCreate, inEntityID = 5,
     inFields = [FieldDate, FieldLabel, FieldPosition], inValues = Some (RawObj [(''Label'', RawStr ''Day 1'')])\<rparr>"

definition sampleSubmitted :: DB where
  "sampleSubmitted = fst (snd (Engine_Submit sampleWire sampleEnv sampleIntent sampleDB))"

lemma sample_submission: "case fst (Engine_Submit sampleWire sampleEnv sampleIntent sampleDB) of Inr None \<Rightarrow> True | _ \<Rightarrow> False"
  by code_simp

section \<open>Properties\<close>

text \<open>C5: an intent takes effect at most once, however often it is submitted and whatever happens in between:
  a submission that commits publishes an operation of the caller under the client's identifier; at
  every later time a submission with this identifier for this trip, by anyone, member or not, and with
  any content, changes nothing and is answered with that operation; and one that had passed the
  pre-check before the commit changes nothing either and gets the operation or an error.\<close>

theorem intent_takes_effect_once:
  assumes "reachable okEnv db" "okEnv (withOrigin i e)" "Engine_Submit w e i db = (Inr None, db', ops)"
    and "laterThan okEnv db' later" "inTripID i2 = inTripID i" "inClientOpID i2 = inClientOpID i" "OpKind_Valid (inKind i2)"
  shows "\<exists>op. hd ops = op \<and> op \<in> set (dbOps later) \<and> opClientOpID op = Some (inClientOpID i) \<and>
    opActorID op = Some (inActorID i) \<and> opTripID op = inTripID i \<and>
    Engine_Submit w2 e2 i2 later = (Inr (Some op), later, []) \<and>
    (\<exists>res. Submit_attempt w2 e2 i2 later = (res, later, []) \<and> (res = Inr (Some op) \<or> (\<exists>err. res = Inl err)))"
proof -
  have sub: "Submit_attempt w e i db = (Inr None, db', ops)" "inClientOpID i \<noteq> NilID"
    using assms(3) by (auto simp: Engine_Submit_def Submit_check_def split: sum.splits option.splits if_splits)
  obtain req where req: "serve (withOrigin i e) (inTripID i) (inActorID i) req db = (Inr (), db', ops)"
    using attempt_sound [OF sub(1)] by blast
  have op: "ops \<noteq> []" "dbOps db' = dbOps db @ ops" "opClientOpID (hd ops) = Some (inClientOpID i)"
    "opTripID (hd ops) = inTripID i" "opActorID (hd ops) = Some (inActorID i)"
    using serve_sound [of "withOrigin i e" "inTripID i" "inActorID i" db req] req
    by (auto simp: soundReply_def logGrew_def)
  have "reachable okEnv db'" using reachable.served [OF assms(1,2) req] .
  then have "logUnique (dbOps later)" using later_grows [OF assms(4)] reachable_log by blast
  moreover have mem: "hd ops \<in> set (dbOps later)" using op(1,2) later_log [OF assms(4)] by auto
  ultimately have "Engine_replayed i2 later = Inr (Some (hd ops))"
    "\<exists>res. Submit_attempt w2 e2 i2 later = (res, later, []) \<and> (res = Inr (Some (hd ops)) \<or> (\<exists>err. res = Inl err))"
    using spent_intent(1) [of later "hd ops" i2] spent_intent(2) [of later "hd ops" i2 w2 e2] op assms(5,6) by simp_all
  moreover have "Engine_Submit w2 e2 i2 later = (Inr (Some (hd ops)), later, [])"
    using calculation(1) assms(6,7) sub(2) by (simp add: Engine_Submit_def Submit_check_def)
  ultimately show ?thesis using op mem by blast
qed

theorem intent_takes_effect_once_witness:
  "\<exists>op. Engine_Submit sampleWire sampleEnv sampleIntent sampleSubmitted = (Inr (Some op), sampleSubmitted, [])"
proof -
  obtain ops where "Engine_Submit sampleWire sampleEnv sampleIntent sampleDB = (Inr None, sampleSubmitted, ops)"
    using sample_submission unfolding sampleSubmitted_def
    by (cases "Engine_Submit sampleWire sampleEnv sampleIntent sampleDB") (auto split: sum.splits option.splits)
  from intent_takes_effect_once [OF sample_reachable [of "\<lambda>_. True"] _ this laterThan.here, of sampleIntent sampleWire sampleEnv]
  show ?thesis by (auto simp: sampleIntent_def OpKind_Valid_def opKinds_def)
qed

end
