(* ===== verification/Connections.thy ===== *)
theory Connections
  imports Sockets Submission Credentials
begin

text \<open>What holds of sockets: an operation frame is answered exactly once, a dead session loses its sockets
  where it was ended, whatever Redis does, and elsewhere when the event arrives, and nobody else does; a connection keeps its buffer bounded
  and gives its subscriptions back; and what an instance hears of the operations of another is those operations, unchanged and in
  order, less what the channel lost.\<close>

section \<open>Answers to an operation frame\<close>

lemma queueRaw_keeps [simp]:
  "cnSubs (queueRaw late f c) = cnSubs c" "cnUserID (queueRaw late f c) = cnUserID c"
  "cnSessionID (queueRaw late f c) = cnSessionID c" "cnID (queueRaw late f c) = cnID c"
  "cnDraining (queueRaw late f c) = cnDraining c" "cnWritten (queueRaw late f c) = cnWritten c"
  "cnClosed c \<Longrightarrow> cnClosed (queueRaw late f c)"
  by (simp_all add: queueRaw_def conn_close_def)

lemma sendErrorFor_error: "\<exists>code message violations. sendErrorFor late err clientOpID c = sendError late clientOpID code message violations c"
  by (cases err) (auto simp: sendErrorFor_def)

lemma dispatch_Inl:
  assumes "Engine_dispatch w e i db = (Inl err, db', ops)"
  shows "db' = db \<and> ops = []"
proof (cases "\<exists>req. Engine_dispatch w e i db = serve e (inTripID i) (inActorID i) req db")
  case True
  then obtain req where "serve e (inTripID i) (inActorID i) req db = (Inl err, db', ops)" using assms by auto
  then show ?thesis using serve_sound [of e "inTripID i" "inActorID i" db req] by (simp add: soundReply_def)
next
  case False
  then show ?thesis using dispatch_cases [of w e i db] assms by auto
qed

lemma replayed_op: "Engine_replayed i db = Inr (Some op) \<Longrightarrow>
    op \<in> set (dbOps db) \<and> opTripID op = inTripID i \<and> opClientOpID op = Some (inClientOpID i)"
  by (auto simp: Engine_replayed_def OpLogRepository_FindByClientOpID_def mapError_def split: sum.splits if_splits option.splits
      dest: find_SomeD)

lemma attempt_answer:
  assumes "Submit_attempt w e i db = (res, db', ops)"
  shows "case res of
      Inl err \<Rightarrow> db' = db \<and> ops = []
    | Inr (Some op) \<Rightarrow> db' = db \<and> ops = [] \<and> op \<in> set (dbOps db) \<and> opTripID op = inTripID i \<and> opClientOpID op = Some (inClientOpID i)
    | Inr None \<Rightarrow> ops \<noteq> [] \<and> logGrew (withOrigin i e) (inTripID i) (inActorID i) db \<lparr>txDB = db', txOps = ops\<rparr>"
proof (cases "Engine_dispatch w (withOrigin i e) i db")
  case (fields r d o')
  show ?thesis
  proof (cases r)
    case (Inl err)
    then have d: "d = db" "o' = []" using dispatch_Inl [of w "withOrigin i e" i db err d o'] fields by simp_all
    show ?thesis using assms fields Inl replayed_op [of i db]
      by (auto simp: Submit_attempt_def d split: sum.splits option.splits if_splits)
  next
    case (Inr u)
    then have "res = Inr None" "db' = d" "ops = o'" using assms fields by (auto simp: Submit_attempt_def)
    then obtain req where "serve (withOrigin i e) (inTripID i) (inActorID i) req db = (Inr (), db', ops)"
      using attempt_sound [of w e i db db' ops] assms by auto
    then show ?thesis using serve_sound [of "withOrigin i e" "inTripID i" "inActorID i" db req] \<open>res = Inr None\<close>
      by (simp add: soundReply_def)
  qed
qed

lemma submit_answer:
  assumes "Engine_Submit w e i db = (res, db', ops)"
  shows "case res of
      Inl err \<Rightarrow> db' = db \<and> ops = []
    | Inr (Some op) \<Rightarrow> db' = db \<and> ops = [] \<and> op \<in> set (dbOps db) \<and> opTripID op = inTripID i \<and> opClientOpID op = Some (inClientOpID i)
    | Inr None \<Rightarrow> ops \<noteq> [] \<and> logGrew (withOrigin i e) (inTripID i) (inActorID i) db \<lparr>txDB = db', txOps = ops\<rparr>"
proof (cases "Submit_check i db")
  case (Inl err)
  then have "res = Inl err" "db' = db" "ops = []" using assms by (simp_all add: Engine_Submit_def)
  then show ?thesis by simp
next
  case (Inr x)
  show ?thesis
  proof (cases x)
    case None
    then show ?thesis using assms Inr attempt_answer [of w e i db res db' ops] by (simp add: Engine_Submit_def)
  next
    case (Some op)
    then have "Engine_replayed i db = Inr (Some op)" using Inr by (auto simp: Submit_check_def split: if_splits)
    moreover have "res = Inr (Some op)" "db' = db" "ops = []" using assms Inr Some by (simp_all add: Engine_Submit_def)
    ultimately show ?thesis using replayed_op [of i db op] by simp
  qed
qed

text \<open>C13: every operation frame is answered exactly once, whatever it contains: either one error frame that echoes
  the client's identifier is queued and nothing changed; or the operation had been committed before, and
  the frame of exactly that operation is queued and nothing changes; or the sender is subscribed to the
  trip, nothing is queued and the published operations, the first under the client's identifier and all of the connection's user in
  this trip, are what the log grew by: the broadcast is the answer.\<close>

theorem op_frame_answered:
  "case handleOp cd late e frame db c of (c', db', ops) \<Rightarrow>
     (\<exists>code message violations. c' = sendError late (frClientOpID frame) code message violations c \<and> db' = db \<and> ops = []) \<or>
     (\<exists>op \<in> set (dbOps db). c' = queueRaw late (encodeEvent (cdIDText cd) (opTripID op) (EventOp op)) c \<and> db' = db \<and> ops = [] \<and>
        wUUID (cdWire cd) (frTripID frame) = Some (opTripID op) \<and> wUUID (cdWire cd) (frClientOpID frame) = opClientOpID op) \<or>
     (c' = c \<and> ops \<noteq> [] \<and> dbOps db' = dbOps db @ ops \<and> opClientOpID (hd ops) = wUUID (cdWire cd) (frClientOpID frame) \<and>
        opClientOpID (hd ops) \<noteq> None \<and>
        (\<exists>tripID. wUUID (cdWire cd) (frTripID frame) = Some tripID \<and> cnSubs c tripID \<noteq> None \<and>
           (\<forall>op \<in> set ops. opTripID op = tripID \<and> opActorID op = Some (cnUserID c))))"
proof (cases "handleOp cd late e frame db c")
  case (fields c' db' ops)
  let ?up = "wUUID (cdWire cd)"
  note def = fields [unfolded handleOp_def Let_def]
  show ?thesis
  proof (cases "?up (frTripID frame)"; cases "?up (frClientOpID frame)"; cases "?up (frEntityID frame)")
    fix tripID clientOpID entityID
    assume ids: "?up (frTripID frame) = Some tripID" "?up (frClientOpID frame) = Some clientOpID" "?up (frEntityID frame) = Some entityID"
    let ?i = "opIntent frame tripID (cnUserID c) clientOpID entityID"
    show ?thesis
    proof (cases "cnSubs c tripID")
      case None
      then show ?thesis using def ids fields by (auto simp: ParseID_def)
    next
      case (Some sub)
      obtain res d o' where s: "Engine_Submit (cdWire cd) e ?i db = (res, d, o')" by (metis prod_cases3)
      have i: "inTripID ?i = tripID" "inActorID ?i = cnUserID c" "inClientOpID ?i = clientOpID" by (simp_all add: opIntent_def)
      note answer = submit_answer [OF s, unfolded i]
      show ?thesis
      proof (cases res)
        case (Inl err)
        then show ?thesis using def ids Some s answer fields sendErrorFor_error [of late err "frClientOpID frame" c] by (auto simp: ParseID_def)
      next
        case (Inr x)
        then show ?thesis using def ids Some s answer fields by (cases x) (auto simp: ParseID_def logGrew_def opIntent_def)
      qed
    qed
  qed (use def fields in \<open>auto simp: ParseID_def\<close>)
qed

definition sampleOpFrame :: clientFrame where
  "sampleOpFrame = zeroFrame\<lparr>frType := ''op'', frTripID := unaryText 1, frClientOpID := unaryText 9, frKind := ''day.create.v1'',
     frEntityID := unaryText 5, frFields := [''date'', ''label'', ''position''],
     frValues := Some (RawObj [(''Label'', RawStr ''Day 1'')])\<rparr>"

definition sampleSender :: Conn where
  "sampleSender = (newConn 5 \<lparr>tkUserID = 3, tkSessionID = 11, tkExpiresAt = 0\<rparr>)\<lparr>cnSubs := [1 \<mapsto> 7]\<rparr>"

lemma sample_op_frame: "snd (snd (handleOp sampleCodec (\<lambda>_. False) sampleEnv sampleOpFrame sampleDB sampleSender)) \<noteq> []"
  by code_simp

theorem op_frame_answered_witness:
  "case handleOp sampleCodec (\<lambda>_. False) sampleEnv sampleOpFrame sampleDB sampleSender of
     (c', db', ops) \<Rightarrow> c' = sampleSender \<and> ops \<noteq> [] \<and> dbOps db' = dbOps sampleDB @ ops"
  using op_frame_answered [where cd = sampleCodec and late = "\<lambda>_. False" and e = sampleEnv and frame = sampleOpFrame
      and db = sampleDB and c = sampleSender] sample_op_frame
  by (auto split: prod.splits)

section \<open>A dead session loses its sockets\<close>

definition revocations :: "AuthEvent list \<Rightarrow> RevocationEvent list" where
  "revocations evs = concat (map (\<lambda>ev. case ev of Revoked r \<Rightarrow> [r] | _ \<Rightarrow> []) evs)"

lemma revocations_iff [simp]: "r \<in> set (revocations evs) \<longleftrightarrow> Revoked r \<in> set evs"
  by (auto simp: revocations_def split: AuthEvent.splits)

text \<open>The services publish the events of a request one after the other: what Redis carried out of that, and the
  sockets of the publishing instance. Redis may answer each of the commands differently.\<close>

fun publishRevocations ::
  "(nat \<Rightarrow> revocationMessage \<Rightarrow> bool \<times> bool) \<Rightarrow> (Frame \<Rightarrow> bool) \<Rightarrow> (ID \<Rightarrow> str) \<Rightarrow> str \<Rightarrow> RevocationEvent list \<Rightarrow> Conn list \<Rightarrow>
   revocationMessage list \<times> Conn list"
where
  "publishRevocations exec late us me [] conns = ([], conns)"
| "publishRevocations exec late us me (ev # evs) conns =
     (case Registry_Publish (exec (length evs)) late us me ev conns of
        (_, sent, conns) \<Rightarrow>
          (case publishRevocations exec late us me evs conns of (sent', conns) \<Rightarrow> (sent @ sent', conns)))"

text \<open>The sockets of another instance after messages that arrived there.\<close>

definition hearRevocations :: "(Frame \<Rightarrow> bool) \<Rightarrow> (str \<Rightarrow> ID option) \<Rightarrow> str \<Rightarrow> revocationMessage list \<Rightarrow> Conn list \<Rightarrow> Conn list" where
  "hearRevocations late up me arrived conns = fold (Registry_Run late up me) arrived conns"

definition told :: "(Frame \<Rightarrow> bool) \<Rightarrow> RevocationEvent \<Rightarrow> Conn \<Rightarrow> Conn" where
  "told late ev c = (if Matches ev (cnUserID c) (cnSessionID c) then conn_revoke late (reReason ev) c else c)"

lemma conn_revoke_keeps [simp]:
  "cnUserID (conn_revoke late reason c) = cnUserID c" "cnSessionID (conn_revoke late reason c) = cnSessionID c"
  "cnDraining (conn_revoke late reason c)"
  by (simp_all add: conn_revoke_def Let_def)

lemma told_keeps [simp]:
  "cnUserID (told late ev c) = cnUserID c" "cnSessionID (told late ev c) = cnSessionID c"
  by (simp_all add: told_def)

lemma Registry_Publish_told:
  "snd (snd (Registry_Publish exec late us me ev conns)) = map (told late ev) conns"
  "fst (snd (Registry_Publish exec late us me ev conns)) = snd (RevocationTransport_Publish us exec me ev)"
proof -
  have "snd (closeMatching late ev conns) = map (told late ev) conns"
    unfolding closeMatching_def snd_conv by (intro map_cong refl) (simp only: told_def)
  moreover have "snd (snd (Registry_Publish exec late us me ev conns)) = snd (closeMatching late ev conns)"
    "fst (snd (Registry_Publish exec late us me ev conns)) = snd (RevocationTransport_Publish us exec me ev)"
    by (simp_all only: Registry_Publish_def case_prod_beta) (simp_all add: if_distrib split: sum.split unit.split)
  ultimately show "snd (snd (Registry_Publish exec late us me ev conns)) = map (told late ev) conns"
    "fst (snd (Registry_Publish exec late us me ev conns)) = snd (RevocationTransport_Publish us exec me ev)" by simp_all
qed

lemma publishRevocations_told:
  "snd (publishRevocations exec late us me evs conns) = map (\<lambda>c. fold (told late) evs c) conns \<and>
    (\<forall>msg \<in> set (fst (publishRevocations exec late us me evs conns)). \<exists>ev \<in> set evs. msg = Some (me, toWireRevocation us ev))"
proof (induction evs arbitrary: conns)
  case (Cons ev evs)
  obtain w sent conns' where p: "Registry_Publish (exec (length evs)) late us me ev conns = (w, sent, conns')" by (metis prod_cases3)
  then have "conns' = map (told late ev) conns" "sent = snd (RevocationTransport_Publish us (exec (length evs)) me ev)"
    using Registry_Publish_told [of "exec (length evs)" late us me ev conns] by simp_all
  then show ?case using p Cons.IH [of conns'] by (auto simp: o_def split: prod.splits dest: revocation_sent)
qed simp

lemma hearRevocations_told:
  assumes "uuidTexts us up" "me \<noteq> inst" "\<forall>ev \<in> set evs. reScope ev = RevokeScopeUser \<or> reSessionID ev \<noteq> NilID"
  shows "hearRevocations late up inst (map (\<lambda>ev. Some (me, toWireRevocation us ev)) evs) conns = map (\<lambda>c. fold (told late) evs c) conns"
  using assms(3)
proof (induction evs arbitrary: conns)
  case (Cons ev evs)
  have one: "Registry_Run late up inst (Some (me, toWireRevocation us ev)) conns = map (told late ev) conns"
    using revocation_heard [OF assms(1) _ assms(2), of ev] Cons.prems by (simp add: Registry_Run_def closeMatching_def told_def)
  show ?case using Cons.IH [of "map (told late ev) conns"] Cons.prems one by (simp add: hearRevocations_def o_def)
qed (simp add: hearRevocations_def)

lemma arrived_events:
  assumes "\<forall>msg \<in> set arrived. \<exists>ev \<in> set evs. msg = f ev"
  shows "\<exists>evs'. set evs' \<subseteq> set evs \<and> arrived = map f evs'"
  using assms
proof (induction arrived)
  case (Cons msg arrived)
  then obtain ev evs' where "ev \<in> set evs" "msg = f ev" "set evs' \<subseteq> set evs" "arrived = map f evs'" by auto
  then show ?case by (intro exI [of _ "ev # evs'"]) simp
qed simp

text \<open>What a revocation does to a socket: it queues the frame that names the reason, unless there is no room for
  it or the connection is closed already, and it starts the goroutine that closes the connection; a
  connection whose buffer is full is closed at once.\<close>

definition hungUp :: "Conn \<Rightarrow> Conn \<Rightarrow> bool" where
  "hungUp c c' \<longleftrightarrow>
     (\<exists>reasons. [] \<notin> set reasons \<and>
        c' = c\<lparr>cnSend := cnSend c @ map (\<lambda>reason. ErrorFrame [] ''session_revoked'' reason []) reasons,
               cnClosed := cnClosed c', cnDraining := True\<rparr> \<and>
        (cnClosed c \<longrightarrow> cnClosed c') \<and> (reasons = [] \<longrightarrow> cnClosed c') \<and>
        (\<not> cnClosed c \<and> length (cnSend c) < sendBuffer \<longrightarrow> reasons \<noteq> [])) \<and>
     cnClosed (revoke_drained c')"

lemma conn_revoke_hungUp: "hungUp c (conn_revoke late reason c)"
proof -
  define r where "r = (if reason = [] then ''your session is no longer valid'' else reason)"
  have r: "r \<noteq> []" "conn_revoke late reason c = (queueRaw late (ErrorFrame [] ''session_revoked'' r []) c)\<lparr>cnDraining := True\<rparr>"
    by (simp_all add: r_def conn_revoke_def)
  show ?thesis
  proof (cases "length (cnSend c) < sendBuffer \<and> \<not> (cnClosed c \<and> late (ErrorFrame [] ''session_revoked'' r []))")
    case True
    then show ?thesis unfolding hungUp_def r(2) using r(1)
      by (intro conjI exI [of _ "[r]"]) (auto simp: queueRaw_def revoke_drained_def conn_close_def)
  next
    case False
    then show ?thesis unfolding hungUp_def r(2)
      by (intro conjI exI [of _ "[]"]) (auto simp: queueRaw_def revoke_drained_def conn_close_def)
  qed
qed

lemma hungUp_trans:
  assumes "hungUp c c'" "hungUp c' c''"
  shows "hungUp c c''"
proof -
  obtain r where r: "[] \<notin> set r"
    "c' = c\<lparr>cnSend := cnSend c @ map (\<lambda>reason. ErrorFrame [] ''session_revoked'' reason []) r, cnClosed := cnClosed c', cnDraining := True\<rparr>"
    "cnClosed c \<longrightarrow> cnClosed c'" "r = [] \<longrightarrow> cnClosed c'" "\<not> cnClosed c \<and> length (cnSend c) < sendBuffer \<longrightarrow> r \<noteq> []"
    using assms(1) unfolding hungUp_def by blast
  obtain r' where r': "[] \<notin> set r'"
    "c'' = c'\<lparr>cnSend := cnSend c' @ map (\<lambda>reason. ErrorFrame [] ''session_revoked'' reason []) r', cnClosed := cnClosed c'', cnDraining := True\<rparr>"
    "cnClosed c' \<longrightarrow> cnClosed c''"
    using assms(2) unfolding hungUp_def by blast
  have "c'' = c\<lparr>cnSend := cnSend c @ map (\<lambda>reason. ErrorFrame [] ''session_revoked'' reason []) (r @ r'), cnClosed := cnClosed c'',
      cnDraining := True\<rparr>"
    by (subst r'(2), subst (1 2) r(2)) simp
  moreover have "cnClosed (revoke_drained c'')" using assms(2) by (simp add: hungUp_def)
  ultimately show ?thesis unfolding hungUp_def using r(1,3,4,5) r'(1,3) by (intro conjI exI [of _ "r @ r'"]) auto
qed

lemma fold_told:
  "if \<exists>ev \<in> set evs. Matches ev (cnUserID c) (cnSessionID c) then hungUp c (fold (told late) evs c) else fold (told late) evs c = c"
proof (induction evs arbitrary: c)
  case (Cons ev evs)
  show ?case
  proof (cases "Matches ev (cnUserID c) (cnSessionID c)")
    case True
    then have "hungUp c (told late ev c)" by (simp add: told_def conn_revoke_hungUp)
    then show ?thesis using Cons.IH [of "told late ev c"] True hungUp_trans [of c "told late ev c"] by (auto split: if_splits)
  next
    case False
    then have "told late ev c = c" by (simp add: told_def)
    then show ?thesis using Cons.IH [of c] False by simp
  qed
qed simp

text \<open>Every session-scoped event names a session of the tables.\<close>

lemma announce_names:
  "Revoked ev \<in> set (announceSessionRevoked e j reason (SessionRepository_RevokeSession e j' reason' db)) \<Longrightarrow>
    findRow asID (reSessionID ev) (auSessions db) \<noteq> None"
  by (auto simp: announceSessionRevoked_def SessionRepository_GetSession_def SessionRepository_RevokeSession_def findRow_updRow
      revoke_def split: sum.splits if_splits option.splits)

lemma rotate_names:
  assumes "Refresh_rotate cfg e stored session db = (res, db', evs)" "Revoked ev \<in> set evs" "findRow asID j (auSessions db) = Some session"
  shows "findRow asID (reSessionID ev) (auSessions db) \<noteq> None"
  using rotate_result [OF assms(1)] assms(2,3) findRow_key [OF assms(3)] by (auto simp: killedSession_def)

lemma Refresh_names:
  assumes "AuthService_Refresh cfg e raw db = (res, db', evs)" "Revoked ev \<in> set evs"
  shows "findRow asID (reSessionID ev) (auSessions db) \<noteq> None"
proof (cases "Refresh_lookup cfg e raw db")
  case (Live stored session)
  then have "findRow asID (rtSessionID stored) (auSessions db) = Some session" by (simp add: Refresh_lookup_Live)
  then show ?thesis using assms Live rotate_names [of cfg e stored session db] by (auto simp: AuthService_Refresh_def)
qed (use assms announce_names in \<open>auto simp: AuthService_Refresh_def Let_def\<close>)

lemma event_names:
  assumes "authServe cfg e req db = (res, db', evs)" "Revoked ev \<in> set evs"
  shows "reScope ev = RevokeScopeUser \<or> findRow asID (reSessionID ev) (auSessions db) \<noteq> None"
proof (cases req)
  case (Refresh raw)
  then obtain r where "AuthService_Refresh cfg e raw db = (r, db', evs)" using assms(1) by (auto simp: authServe_def acked_eq)
  from Refresh_names [OF this assms(2)] show ?thesis by simp
next
  case (Logout raw)
  then show ?thesis using assms announce_names by (auto simp: authServe_def AuthService_Logout_def Let_def split: sum.splits)
next
  case (EndSession userID sessionID)
  then show ?thesis using assms
    by (auto simp: authServe_def AuthService_RevokeSession_def SessionRepository_GetSession_def split: sum.splits if_splits option.splits)
next
  case (ResetPassword raw password)
  then show ?thesis using assms
    by (auto simp: authServe_def AuthService_ResetPassword_def split: sum.splits prod.splits)
qed (use assms in \<open>auto simp: authServe_def acked_eq AuthService_Signup_def AuthService_Login_def AuthService_VerifyEmail_def
  AuthService_RequestPasswordReset_def Let_def split: sum.splits prod.splits if_splits\<close>)

definition liveSocket :: "AuthDB \<Rightarrow> Conn \<Rightarrow> bool" where
  "liveSocket db c \<longleftrightarrow> (\<exists>s. findRow asID (cnSessionID c) (auSessions db) = Some s \<and> asUserID s = cnUserID c \<and> asRevokedAt s = None)"

definition revokedSocket :: "AuthDB \<Rightarrow> Conn \<Rightarrow> bool" where
  "revokedSocket db c \<longleftrightarrow> (\<exists>s. findRow asID (cnSessionID c) (auSessions db) = Some s \<and> asRevokedAt s \<noteq> None)"

lemma announced_socket:
  assumes "authServe cfg e req db = (res, db', evs)" "liveSocket db c"
  shows "revokedSocket db' c \<longleftrightarrow> (\<exists>ev \<in> set (revocations evs). Matches ev (cnUserID c) (cnSessionID c))"
proof -
  have "announced db db' evs" using authServe_sound [OF assms(1)] by (simp add: authSound_def)
  moreover obtain s where "findRow asID (cnSessionID c) (auSessions db) = Some s" "asUserID s = cnUserID c" "asRevokedAt s = None"
    using assms(2) by (auto simp: liveSocket_def)
  ultimately obtain s' where "findRow asID (cnSessionID c) (auSessions db') = Some s'"
    "asRevokedAt s' \<noteq> None \<longleftrightarrow> (\<exists>ev. Revoked ev \<in> set evs \<and> Matches ev (cnUserID c) (cnSessionID c))"
    unfolding announced_def by metis
  then show ?thesis by (auto simp: revokedSocket_def)
qed


definition sampleSocket :: "ID \<Rightarrow> ID \<Rightarrow> Conn" where
  "sampleSocket connID sid = newConn connID \<lparr>tkUserID = 1, tkSessionID = sid, tkExpiresAt = 0\<rparr>"


section \<open>A connection's buffer and subscriptions\<close>

text \<open>Every interleaving of the turns of a connection: the frames it handles, the events the rooms deliver
  into it, the subscriptions the broker drops, the write pump, revocations. \<^theory_text>\<open>opened\<close> are the subscriptions the
  engine gave it, \<^theory_text>\<open>ended\<close> those it closed, \<^theory_text>\<open>lost\<close> those a drop made it forget.\<close>

definition delivering :: "(Frame \<Rightarrow> bool) \<Rightarrow> Frame list \<Rightarrow> Conn \<Rightarrow> Conn" where
  "delivering late frames c = fold (\<lambda>f c. snd (conn_Deliver late f c)) frames c"

inductive socket :: "Codec \<Rightarrow> nat list \<Rightarrow> nat set \<Rightarrow> nat set \<Rightarrow> Conn \<Rightarrow> bool" for cd where
  opened: "socket cd [] {} {} (newConn connID t)"
| subscribed: "socket cd subs ended lost c \<Longrightarrow> sub \<notin> set subs \<Longrightarrow> ParseID (wUUID (cdWire cd)) ''trip_id'' (frTripID frame) = Inr tripID \<Longrightarrow>
    handleSubscribe cd late (\<lambda>_ _. Inr (sub, seq, members)) (\<lambda>c. (delivering late frames c, ok)) frame c = (c', old) \<Longrightarrow>
    socket cd (sub # subs) (ended \<union> set old) lost c'"
| refused: "socket cd subs ended lost c \<Longrightarrow>
    handleSubscribe cd late (\<lambda>_ _. Inl err) replay frame c = (c', old) \<Longrightarrow> socket cd subs (ended \<union> set old) lost c'"
| unsubscribed: "socket cd subs ended lost c \<Longrightarrow> handleUnsubscribe cd late frame c = (c', old) \<Longrightarrow>
    socket cd subs (ended \<union> set old) lost c'"
| sent: "socket cd subs ended lost c \<Longrightarrow> handleOp cd late e frame db c = (c', db', ops) \<Longrightarrow> socket cd subs ended lost c'"
| unread: "socket cd subs ended lost c \<Longrightarrow> readPump_frame late allowed data c = Inl c' \<Longrightarrow> socket cd subs ended lost c'"
| delivered: "socket cd subs ended lost c \<Longrightarrow> socket cd subs ended lost (delivering late frames c)"
| dropped: "socket cd subs ended lost c \<Longrightarrow>
    socket cd subs ended (lost \<union> set_option (cnSubs c tripID)) (conn_Dropped us late tripID c)"
| written: "socket cd subs ended lost c \<Longrightarrow> socket cd subs ended lost (writePump_write ok c)"
| pinged: "socket cd subs ended lost c \<Longrightarrow> socket cd subs ended lost (writePump_ping ok c)"
| revoked: "socket cd subs ended lost c \<Longrightarrow> socket cd subs ended lost (conn_revoke late reason c)"
| drained: "socket cd subs ended lost c \<Longrightarrow> socket cd subs ended lost (revoke_drained c)"

definition bounded :: "Conn \<Rightarrow> bool" where
  "bounded c \<longleftrightarrow> length (cnSend c) \<le> sendBuffer"

lemma queueRaw_bounded [simp]: "bounded c \<Longrightarrow> bounded (queueRaw late f c)"
  by (auto simp: bounded_def queueRaw_def conn_close_def)

lemma sendErrors_queue [simp]:
  "bounded c \<Longrightarrow> bounded (sendErrorFor late err i c)" "cnSubs (sendErrorFor late err i c) = cnSubs c"
  "bounded c \<Longrightarrow> bounded (sendResync us late tripID c)" "cnSubs (sendResync us late tripID c) = cnSubs c"
  "bounded c \<Longrightarrow> bounded (sendError late i code message violations c)" "cnSubs (sendError late i code message violations c) = cnSubs c"
  using sendErrorFor_error [of late err i c] by (auto simp: sendError_def sendResync_def)

lemma delivering_keeps [simp]: "cnSubs (delivering late frames c) = cnSubs c" "bounded c \<Longrightarrow> bounded (delivering late frames c)"
proof -
  have "cnSubs (delivering late frames c) = cnSubs c \<and> (bounded c \<longrightarrow> bounded (delivering late frames c))"
    unfolding delivering_def by (induction frames arbitrary: c) (auto simp: conn_Deliver_def bounded_def)
  then show "cnSubs (delivering late frames c) = cnSubs c" "bounded c \<Longrightarrow> bounded (delivering late frames c)" by simp_all
qed

lemma bounded_subs [simp]: "bounded (c\<lparr>cnSubs := m\<rparr>) = bounded c" "bounded (conn_close c) = bounded c" "cnSubs (conn_close c) = cnSubs c"
  by (simp_all add: bounded_def conn_close_def)

lemma handleOp_queues:
  assumes "handleOp cd late e frame db c = (c', db', ops)"
  shows "c' = c \<or> (\<exists>f. c' = queueRaw late f c)"
proof -
  have "\<exists>f. sendErrorFor late err i c = queueRaw late f c" for err i
    using sendErrorFor_error [of late err i c] by (auto simp: sendError_def)
  then show ?thesis using assms
    by (auto simp: handleOp_def Let_def sendError_def split: sum.splits if_splits prod.splits option.splits)
qed

lemma handleOp_keeps:
  assumes "handleOp cd late e frame db c = (c', db', ops)"
  shows "cnSubs c' = cnSubs c" "bounded c \<Longrightarrow> bounded c'"
  using handleOp_queues [OF assms] by auto

definition subsOK :: "nat list \<Rightarrow> nat set \<Rightarrow> nat set \<Rightarrow> (ID \<Rightarrow> nat option) \<Rightarrow> bool" where
  "subsOK subs ended lost m \<longleftrightarrow> inj_on m (dom m) \<and> set subs = ran m \<union> ended \<union> lost \<and>
     ran m \<inter> ended = {} \<and> ran m \<inter> lost = {} \<and> ended \<inter> lost = {}"

lemma ran_forget: "inj_on m (dom m) \<Longrightarrow> ran (m(t := None)) = ran m - set_option (m t)"
  by (auto simp: ran_def inj_on_def domI split: if_splits)

lemma subsOK_forget:
  assumes "subsOK subs ended lost m"
  shows "subsOK subs (ended \<union> set_option (m t)) lost (m(t := None))" "subsOK subs ended (lost \<union> set_option (m t)) (m(t := None))"
proof -
  have i: "inj_on (m(t := None)) (dom (m(t := None)))" using assms by (auto simp: subsOK_def inj_on_def)
  have r: "ran (m(t := None)) = ran m - set_option (m t)" using assms ran_forget [of m t] by (simp add: subsOK_def)
  have s: "set_option (m t) \<subseteq> ran m" by (auto simp: ran_def)
  show "subsOK subs (ended \<union> set_option (m t)) lost (m(t := None))" "subsOK subs ended (lost \<union> set_option (m t)) (m(t := None))"
    using assms i r s unfolding subsOK_def by blast+
qed

lemma subsOK_open:
  assumes "subsOK subs ended lost m" "sub \<notin> set subs"
  shows "subsOK (sub # subs) (ended \<union> set_option (m t)) lost (m(t \<mapsto> sub))"
proof -
  note f = subsOK_forget(1) [OF assms(1), of t]
  have n: "sub \<notin> ran (m(t := None))" "sub \<notin> ended" "sub \<notin> lost" "sub \<notin> set_option (m t)"
    using assms f by (auto simp: subsOK_def ran_def)
  have "inj_on (m(t \<mapsto> sub)) (dom (m(t \<mapsto> sub)))"
    using assms(1) n(1) by (auto simp: subsOK_def inj_on_def ran_def split: if_splits)
  moreover have "ran (m(t \<mapsto> sub)) = insert sub (ran (m(t := None)))" by (auto simp: ran_def)
  ultimately show ?thesis using f n unfolding subsOK_def by auto
qed

lemma socket_OK: "socket cd subs ended lost c \<Longrightarrow> bounded c \<and> subsOK subs ended lost (cnSubs c)"
proof (induction rule: socket.induct)
  case (opened connID t)
  then show ?case by (simp add: newConn_def bounded_def sendBuffer_def subsOK_def)
next
  case (subscribed subs ended lost c sub frame tripID late seq members frames ok c' old)
  have old: "set old = set_option (cnSubs c tripID)" "cnSubs c' = (cnSubs c)(tripID \<mapsto> sub)" "bounded c'"
    using subscribed by (auto simp: handleSubscribe_def Let_def split: option.splits if_splits)
  then show ?case unfolding old(1,2) using subsOK_open [of subs ended lost "cnSubs c" sub tripID] subscribed.IH subscribed.hyps(2) by blast
next
  case (refused subs ended lost c late err replay frame c' old)
  then show ?case by (auto simp: handleSubscribe_def split: sum.splits SubscribeError.splits)
next
  case (unsubscribed subs ended lost c late frame c' old)
  show ?case
  proof (cases "ParseID (wUUID (cdWire cd)) ''trip_id'' (frTripID frame)")
    case (Inl err)
    then show ?thesis using unsubscribed by (auto simp: handleUnsubscribe_def)
  next
    case (Inr tripID)
    then have old: "set old = set_option (cnSubs c tripID)" "cnSubs c' = (cnSubs c)(tripID := None)" "bounded c'"
      using unsubscribed by (auto simp: handleUnsubscribe_def split: option.splits)
    then show ?thesis unfolding old(1,2) using subsOK_forget(1) [of subs ended lost "cnSubs c" tripID] unsubscribed.IH by blast
  qed
next
  case (sent subs ended lost c late e frame db c' db' ops)
  then show ?case using handleOp_keeps [OF sent(2)] by simp
next
  case (unread subs ended lost c late allowed data c')
  then show ?case by (auto simp: readPump_frame_def split: if_splits option.splits sum.splits)
next
  case (dropped subs ended lost c tripID us late)
  have d: "cnSubs (conn_Dropped us late tripID c) = (cnSubs c)(tripID := None)" "bounded c \<Longrightarrow> bounded (conn_Dropped us late tripID c)"
    by (simp_all add: conn_Dropped_def)
  show ?case unfolding d(1) using subsOK_forget(2) [of subs ended lost "cnSubs c" tripID] dropped.IH d(2) by blast
next
  case (written subs ended lost c ok)
  then show ?case by (auto simp: writePump_write_def bounded_def conn_close_def split: list.splits)
next
  case (revoked subs ended lost c late reason)
  have "bounded (c\<lparr>cnDraining := True\<rparr>) = bounded c" for c by (simp add: bounded_def)
  then show ?case using revoked by (simp add: conn_revoke_def Let_def)
qed (simp_all add: writePump_ping_def revoke_drained_def)

text \<open>A connection never holds more than 256 pending frames, whatever clients and rooms do; and when it
  shuts down it closes exactly the subscriptions that are still open: every subscription it was ever given
  has then been closed, once, except those it forgot when the broker dropped one of that trip.\<close>

theorem connection_accounts:
  assumes "socket cd subs ended lost c" "conn_shutdown c = (c', rest)"
  shows "length (cnSend c) \<le> 256 \<and> cnClosed c' \<and> (\<forall>tripID. cnSubs c' tripID = None) \<and>
    rest \<inter> ended = {} \<and> set subs = rest \<union> ended \<union> lost \<and> (rest \<union> ended) \<inter> lost = {}"
  using socket_OK [OF assms(1)] assms(2)
  by (auto simp: bounded_def sendBuffer_def subsOK_def conn_shutdown_def conn_close_def)

definition sampleSubscribe :: clientFrame where
  "sampleSubscribe = zeroFrame\<lparr>frType := ''subscribe'', frTripID := ''x''\<rparr>"

definition sampleSubscribed :: "nat \<Rightarrow> Conn \<Rightarrow> Conn \<times> nat list" where
  "sampleSubscribed sub c =
     handleSubscribe sampleCodec (\<lambda>_. False) (\<lambda>_ _. Inr (sub, 0, [])) (\<lambda>c. (delivering (\<lambda>_. False) [] c, True)) sampleSubscribe c"

lemma sampleSubscribed_twice:
  "socket sampleCodec [8, 7] {7} {} (fst (sampleSubscribed 8 (fst (sampleSubscribed 7 (sampleSocket 5 11)))))"
proof -
  have o: "socket sampleCodec [] {} {} (sampleSocket 5 11)" unfolding sampleSocket_def by (rule opened)
  have t: "ParseID (wUUID (cdWire sampleCodec)) ''trip_id'' (frTripID sampleSubscribe) = Inr 1" by code_simp
  have s: "snd (sampleSubscribed 7 (sampleSocket 5 11)) = []" "snd (sampleSubscribed 8 (fst (sampleSubscribed 7 (sampleSocket 5 11)))) = [7]"
    by code_simp+
  have "socket sampleCodec [7] ({} \<union> set []) {} (fst (sampleSubscribed 7 (sampleSocket 5 11)))"
    by (rule subscribed [OF o _ t]) (use s in \<open>simp_all add: sampleSubscribed_def prod_eq_iff\<close>)
  then have "socket sampleCodec [8, 7] (({} \<union> set []) \<union> set [7]) {} (fst (sampleSubscribed 8 (fst (sampleSubscribed 7 (sampleSocket 5 11)))))"
    by (rule subscribed [OF _ _ t]) (use s in \<open>simp_all add: sampleSubscribed_def prod_eq_iff\<close>)
  then show ?thesis by simp
qed

theorem connection_accounts_witness:
  "snd (conn_shutdown (fst (sampleSubscribed 8 (fst (sampleSubscribed 7 (sampleSocket 5 11)))))) = {8}"
  using connection_accounts [OF sampleSubscribed_twice surjective_pairing] by auto

text \<open>The subscriptions it forgets: a drop of an earlier subscription that arrives after a new one to the same trip
  was made takes the new one from the table, so neither unsubscribing nor the shutdown closes it.\<close>

lemma late_drop_forgets:
  "snd (conn_shutdown (conn_Dropped unaryText (\<lambda>_. False) 1 (fst (sampleSubscribed 8 (fst (sampleSubscribed 7 (sampleSocket 5 11))))))) = {}"
proof -
  have "cnSubs (fst (sampleSubscribed 8 (fst (sampleSubscribed 7 (sampleSocket 5 11))))) = [1 \<mapsto> 8]"
    by (simp add: sampleSubscribed_def handleSubscribe_def sampleSubscribe_def zeroFrame_def sampleCodec_def ParseID_def unaryParse_def
        sampleSocket_def newConn_def Let_def)
  then show ?thesis by (simp add: conn_shutdown_def conn_Dropped_def)
qed

section \<open>Peers\<close>

text \<open>The operations of the log have a kind of the vocabulary.\<close>

lemma step_kinds:
  assumes "planStep e tripID actorID t t'" "\<forall>op \<in> set (dbOps (txDB t)). OpKind_Valid (opKind op)"
  shows "\<forall>op \<in> set (dbOps (txDB t')). OpKind_Valid (opKind op)"
  using assms(1)
proof (cases rule: planStep.cases)
  case (entryCreated b inp row db' p t1)
  then have "dbOps db' = dbOps (txDB t)" using BudgetRepository_Save_Inr [OF entryCreated(3)] by auto
  then show ?thesis using entryCreated assms(2) by (auto simp: OpKind_Valid_def opKinds_def pushOp_def)
next
  case (entryUpdated i old b inp v row db' p t1)
  then have "dbOps db' = dbOps (txDB t)" using BudgetRepository_Save_Inr [OF entryUpdated(6)] by (auto split: if_splits)
  then show ?thesis using entryUpdated assms(2) by (auto simp: OpKind_Valid_def opKinds_def pushOp_def)
qed (use assms(2) in \<open>auto simp: slotWrite_def dayWrite_def optionWrite_def slotTable_def dayTable_def optionTable_def
    voteTable_def commentTable_def budgetTable_def pushOp_def OpKind_Valid_def opKinds_def\<close>)

lemma reachable_kinds:
  assumes "reachable okEnv db"
  shows "\<forall>op \<in> set (dbOps db). OpKind_Valid (opKind op)"
  using assms by (rule reachable_invariant) (auto simp: emptyPlan_def dest: step_kinds)

text \<open>C17: what a peer hears is the log. Of the operations an instance publishes, some subsequence of those
  on trips whose channel the peer's connection holds arrives, because Redis may carry out only some of the commands and may
  lose any message. The peer hands exactly them to its rooms, unchanged and in the order of publication, and the
  instance they come from discards its own. With nothing lost it is all of them on the held channels: a closed transport holds
  none, an open one those of every trip it joined.\<close>

theorem peers_hear_the_log:
  assumes "reachable okEnv db" "set ops \<subseteq> set (dbOps db)" "uuidTexts us up" "transport us peer"
    and "OpTransport_Publish us exec t ops = (res, sent)"
    and "\<And>msgs. subseq (fst (exec msgs)) msgs \<and> (snd (exec msgs) \<longrightarrow> fst (exec msgs) = msgs)"
    and "subseq arrived (channelMessages peer sent)"
  defines "heard \<equiv> concat (map (OpTransport_Run up peer) arrived)"
    and "held \<equiv> filter (\<lambda>op. channelFor us (opTripID op) \<in> otChannels peer) ops"
  shows "(\<exists>ops'. subseq ops' held \<and> length ops' = length arrived \<and> heard = (if otInstance t = otInstance peer then [] else ops')) \<and>
    (res = Inr () \<and> arrived = channelMessages peer sent \<and> otInstance t \<noteq> otInstance peer \<longrightarrow> heard = held) \<and>
    (otClosed peer \<longrightarrow> held = []) \<and>
    (\<not> otClosed peer \<longrightarrow> (\<forall>op \<in> set ops. opTripID op \<in> otJoined peer \<longrightarrow> op \<in> set held))"
proof -
  let ?msg = "\<lambda>op. (channelFor us (opTripID op), Some (otInstance t, toWire us op))"
  have ok: "\<forall>op \<in> set ops. OpKind_Valid (opKind op) \<and> 0 < opSeq op"
  proof (intro ballI conjI)
    fix op assume "op \<in> set ops"
    then have op: "op \<in> set (tripLog (opTripID op) db)" using assms(2) by (auto simp: tripLog_def)
    show "OpKind_Valid (opKind op)" using reachable_kinds [OF assms(1)] op by (simp add: tripLog_def)
    have "map opSeq (tripLog (opTripID op) db) = [1 .. dbOpSeq db (opTripID op)]"
      using reachable_log [OF assms(1)] by (simp add: gapless_def)
    then have "opSeq op \<in> set [1 .. dbOpSeq db (opTripID op)]" using op by (metis image_eqI list.set_map)
    then show "0 < opSeq op" by simp
  qed
  have sent: "subseq sent (map ?msg ops)" "res = Inr () \<Longrightarrow> sent = map ?msg ops"
  proof -
    have "subseq sent (map ?msg ops) \<and> (res = Inr () \<longrightarrow> sent = map ?msg ops)"
    proof (cases "ops = []")
      case False
      then have "sent = fst (exec (map ?msg ops))" "res = (if snd (exec (map ?msg ops)) then Inr () else Inl (ErrOther ''publishing operations''))"
        using assms(5) by (simp_all add: OpTransport_Publish_def case_prod_beta)
      then show ?thesis using assms(6) [of "map ?msg ops"] by simp
    qed (use assms(5) in \<open>simp add: OpTransport_Publish_def\<close>)
    then show "subseq sent (map ?msg ops)" "res = Inr () \<Longrightarrow> sent = map ?msg ops" by simp_all
  qed
  have channel: "channelMessages peer (map ?msg xs) = map ?msg (filter (\<lambda>op. channelFor us (opTripID op) \<in> otChannels peer) xs)" for xs
    by (simp add: channelMessages_def filter_map o_def)
  have "subseq arrived (map ?msg held)"
  proof (rule subseq_order.order_trans [OF assms(7)])
    have "subseq (channelMessages peer sent) (channelMessages peer (map ?msg ops))"
      unfolding channelMessages_def by (rule subseq_filter [OF sent(1)])
    then show "subseq (channelMessages peer sent) (map ?msg held)" unfolding channel held_def .
  qed
  then obtain ops' where ops': "subseq ops' held" "arrived = map ?msg ops'" by (auto dest: subseq_mapD)
  then have "\<forall>op \<in> set ops'. OpKind_Valid (opKind op) \<and> 0 < opSeq op"
    using ok list_emb_set [of "(=)" ops' held] by (auto simp: held_def)
  from ops_heard [OF assms(3) this] have heard: "heard = (if otInstance t = otInstance peer then [] else ops')"
    unfolding heard_def ops'(2) .
  have "heard = held" if all: "res = Inr () \<and> arrived = channelMessages peer sent \<and> otInstance t \<noteq> otInstance peer"
  proof -
    have "arrived = map ?msg held" using all sent(2) channel [of ops] by (simp add: held_def)
    then have "length ops' = length held" using ops'(2) by (metis length_map)
    then show ?thesis using ops'(1) heard all by (simp add: subseq_same_length)
  qed
  moreover have "(otClosed peer \<longrightarrow> held = []) \<and> (\<not> otClosed peer \<longrightarrow> (\<forall>op \<in> set ops. opTripID op \<in> otJoined peer \<longrightarrow> op \<in> set held))"
    using transport_channels [OF assms(4) assms(3)] by (auto simp: held_def)
  ultimately show ?thesis using ops' heard by auto
qed

definition samplePeer :: "ID set \<Rightarrow> OpTransport" where
  "samplePeer trips = (NewOpTransport ''B'')\<lparr>otJoined := trips, otChannels := insert keepaliveChannel (channelFor (\<lambda>i. CHR ''u'' # unaryText i) ` trips)\<rparr>"

theorem peers_hear_the_log_witness:
  "concat (map (OpTransport_Run (\<lambda>s. unaryParse (tl s)) (samplePeer {1}))
     (channelMessages (samplePeer {1})
       (snd (OpTransport_Publish (\<lambda>i. CHR ''u'' # unaryText i) (\<lambda>msgs. (msgs, True)) (NewOpTransport ''A'') (dbOps sampleAfter))))) =
   filter (\<lambda>op. channelFor (\<lambda>i. CHR ''u'' # unaryText i) (opTripID op) \<in> otChannels (samplePeer {1})) (dbOps sampleAfter)"
proof -
  let ?us = "\<lambda>i. CHR ''u'' # unaryText i" and ?up = "\<lambda>s. unaryParse (tl s)"
  have texts: "uuidTexts ?us ?up" using uuidText_unary by (simp add: uuidTexts_def uuidText_def)
  have "OpTransport_Join ?us True 1 (NewOpTransport ''B'') = (Inr (), samplePeer {1})"
    by (simp add: OpTransport_Join_def NewOpTransport_def samplePeer_def insert_commute)
  then have peer: "transport ?us (samplePeer {1})" by (rule transport.joined [OF transport.built])
  have exec: "\<And>msgs :: opMessage list. subseq (fst (msgs, True)) msgs \<and> (snd (msgs, True) \<longrightarrow> fst (msgs, True) = msgs)" by simp
  have res: "fst (OpTransport_Publish ?us (\<lambda>msgs. (msgs, True)) (NewOpTransport ''A'') (dbOps sampleAfter)) = Inr ()"
    by (simp add: OpTransport_Publish_def)
  have names: "otInstance (NewOpTransport ''A'') \<noteq> otInstance (samplePeer {1})" by (simp add: samplePeer_def NewOpTransport_def)
  note peers_hear_the_log [OF sampleAfter_reachable order_refl texts peer surjective_pairing exec subseq_order.order_refl, of "NewOpTransport ''A''"]
  from conjunct1 [OF conjunct2 [OF this]] show ?thesis by (rule mp) (intro conjI res refl names)
qed

end
