(* ===== verification/Transports.thy ===== *)
theory Transports
  imports Surface Editing Connections
begin

text \<open>The two transports compared: an edit sent as an HTTP request and as an operation over a socket, and what
  each tells the client of an error.\<close>

section \<open>One edit, two transports\<close>

definition editKeys :: "str list" where
  "editKeys = [''kind'', ''title'', ''notes'', ''start_time'', ''end_time'', ''version'']"

text \<open>What the two decoders have made of the members so far; a member still to come has its zero value.\<close>

definition sameEdit :: "str list \<Rightarrow> slotRequest \<Rightarrow> intentValues \<Rightarrow> bool" where
  "sameEdit later b v \<longleftrightarrow>
     srKind b = deref (ivKind v) \<and> srTitle b = deref (ivTitle v) \<and> srNotes b = deref (ivNotes v) \<and>
     srStartTime b = ivStartTime v \<and> srEndTime b = ivEndTime v \<and> srVersion b = ivVersion v \<and>
     (''kind'' \<in> set later \<longrightarrow> srKind b = []) \<and> (''title'' \<in> set later \<longrightarrow> srTitle b = []) \<and>
     (''notes'' \<in> set later \<longrightarrow> srNotes b = [])"

lemma decodeMembers_saved: "\<not> isOk (decodeMembers member kvs (Some f) b)"
  by (induction member kvs "Some f" b arbitrary: f rule: decodeMembers.induct) (auto split: sum.splits decodeFailure.splits)

lemma field_agrees:
  "valueField field rawText upd r b = (case nullable rawText r of Inl _ \<Rightarrow> Inl (WrongType field) | Inr None \<Rightarrow> Inr b | Inr (Some x) \<Rightarrow> Inr (upd x))"
  "pointerField field dec upd' r = (case nullable dec r of Inl _ \<Rightarrow> Inl (WrongType field) | Inr x \<Rightarrow> Inr (upd' x))"
  by (cases r; simp add: valueField_def pointerField_def nullable_def typed_def rawText_def bindR_def split: sum.splits)+

lemma member_agrees:
  assumes "sameEdit (foldName k # later) b v" "foldName k \<in> set editKeys" "foldName k \<notin> set later"
  shows "(\<exists>b' v'. slotRequest_member k r b = Inr b' \<and> decodeMember w k r v = Inr v' \<and> sameEdit later b' v' \<and> srFields b' = srFields b) \<or>
    (\<exists>f err. slotRequest_member k r b = Inl f \<and> f \<noteq> Unmarshaler \<and> decodeMember w k r v = Inl err)"
proof -
  have keys: "foldName k = ''kind'' \<or> foldName k = ''title'' \<or> foldName k = ''notes'' \<or> foldName k = ''start_time'' \<or>
    foldName k = ''end_time'' \<or> foldName k = ''version''" using assms(2) by (auto simp: editKeys_def)
  then show ?thesis
    by (elim disjE; cases "nullable rawText r"; cases "nullable rawInt r")
      (use assms in \<open>auto simp: slotRequest_member_def decodeMember_def field_agrees sameEdit_def deref_def split: option.splits\<close>)
qed

lemma decoders_agree:
  assumes "distinct (map (\<lambda>kv. foldName (fst kv)) kvs)" "set (map (\<lambda>kv. foldName (fst kv)) kvs) \<subseteq> set editKeys"
    "sameEdit (map (\<lambda>kv. foldName (fst kv)) kvs) b v"
  shows "(\<exists>b' v'. decodeMembers slotRequest_member kvs None b = Inr b' \<and> foldR (\<lambda>(k, r). decodeMember w k r) kvs v = Inr v' \<and>
      sameEdit [] b' v' \<and> srFields b' = srFields b) \<or>
    (\<not> isOk (decodeMembers slotRequest_member kvs None b) \<and> \<not> isOk (foldR (\<lambda>(k, r). decodeMember w k r) kvs v))"
  using assms
proof (induction kvs arbitrary: b v)
  case Nil
  then show ?case by simp
next
  case (Cons kv kvs)
  obtain k r where kv: "kv = (k, r)" by (cases kv)
  consider (ok) b' v' where "slotRequest_member k r b = Inr b'" "decodeMember w k r v = Inr v'"
      "sameEdit (map (\<lambda>kv. foldName (fst kv)) kvs) b' v'" "srFields b' = srFields b"
    | (bad) f err where "slotRequest_member k r b = Inl f" "f \<noteq> Unmarshaler" "decodeMember w k r v = Inl err"
    using member_agrees [of k "map (\<lambda>kv. foldName (fst kv)) kvs" b v r w] Cons.prems kv by auto
  then show ?case
  proof cases
    case ok
    then show ?thesis using Cons.IH [of b' v'] Cons.prems kv by auto
  next
    case bad
    then show ?thesis using decodeMembers_saved [of slotRequest_member kvs f b] kv by (cases f) auto
  qed
qed

definition editInput :: "slotRequest \<Rightarrow> TimeOfDay option \<Rightarrow> TimeOfDay option \<Rightarrow> UpdateSlotInput" where
  "editInput b st et = \<lparr>usFields = NewFieldMask (srFields b), usKind = srKind b, usTitle = srTitle b, usNotes = srNotes b,
     usStartTime = st, usEndTime = et, usVersion = srVersion b\<rparr>"

lemma update_badMask:
  assumes "\<not> isOk (FieldMask_Validate (NewFieldMask (srFields b)) OpSlotEdit)" "srFields b \<noteq> []"
  shows "\<exists>err. SlotService_Update e tripID userID slotID (editInput b st et) db = (Inl err, db, [])"
  using assms by (auto simp: SlotService_Update_def editInput_def maskFor_def NewFieldMask_idem guarded_def Let_def split: sum.splits)

lemma optionalTime_parse: "optionalTime field text = liftE (parseOptionalTimeOfDay field text)"
  by (auto simp: optionalTime_def parseOptionalTimeOfDay_def liftE_def split: option.splits sum.splits)

lemma rawTexts_list: "rawTexts (RawArr (map RawStr fs)) = Inr fs"
proof -
  have "mapR (\<lambda>r. bindR (nullable rawText r) (\<lambda>x. Inr (case x of None \<Rightarrow> [] | Some s \<Rightarrow> s))) (map RawStr fs) = Inr fs"
    by (induction fs) (simp_all add: nullable_def rawText_def)
  then show ?thesis by (simp add: rawTexts_def)
qed

lemma decode_edit_body:
  assumes "hrContentType r = [] \<or> foldName (mediaType (hrContentType r)) = ''application/json''" "hrBody r = BodyValue (RawObj ((''fields'', RawArr (map RawStr fs)) # kvs)) False"
  shows "decodeJSON l slotRequest_member zeroSlotRequest r =
    (case decodeMembers slotRequest_member kvs None (zeroSlotRequest\<lparr>srFields := fs\<rparr>) of Inl f \<Rightarrow> Inl (decodeError l f) | Inr b \<Rightarrow> Inr b)"
proof -
  have "foldName ''fields'' = ''fields''" by code_simp
  then have "slotRequest_member ''fields'' (RawArr (map RawStr fs)) zeroSlotRequest = Inr (zeroSlotRequest\<lparr>srFields := fs\<rparr>)"
    by (simp add: slotRequest_member_def sliceField_def typed_def rawTexts_list)
  moreover have "\<not> (hrContentType r \<noteq> [] \<and> foldName (mediaType (hrContentType r)) \<noteq> ''application/json'')" using assms(1) by blast
  ultimately show ?thesis using assms(2) unfolding decodeJSON_def Let_def by (simp only: if_False) (simp add: decodeObject_def split: sum.splits)
qed

lemma slotEdit_edit:
  assumes "sameEdit [] b v" "inFields i = NewFieldMask (srFields b)"
  shows "slotEdit i v = bindR (parseOptionalTimeOfDay ''start_time'' (srStartTime b)) (\<lambda>start.
    bindR (parseOptionalTimeOfDay ''end_time'' (srEndTime b)) (\<lambda>finish. Inr (UpdateSlot (inEntityID i) (editInput b start finish))))"
  using assms by (simp add: slotEdit_def sameEdit_def editInput_def)

section \<open>Errors\<close>

text \<open>The codes of the sockets and the statuses of the API part for an invalid field mask, an entity that exists and
  a dead credential: the API says so, a socket reports an internal error.\<close>

lemma errors_differ:
  assumes "err \<in> {ErrValidation, ErrAlreadyExists, ErrTokenInvalid}"
  shows "sendErrorFor late err i c = sendError late i ''internal'' ''the operation could not be applied'' [] c \<and>
    pbStatus (writeError err r) \<in> {401, 409, 422}"
  using assms by (auto simp: sendErrorFor_def isDeadlineExceeded_def writeError_def isValidationError_def)

text \<open>An operation that names a field its kind does not have is answered as an internal error.\<close>

lemma bad_field_internal:
  "case handleOp sampleCodec (\<lambda>_. False) sampleEnv (sampleOpFrame\<lparr>frFields := [''colour'']\<rparr>) sampleDB sampleSender of
     (c, db, ops) \<Rightarrow> length (cnSend c) = 1 \<and>
     (case hd (cnSend c) of ErrorFrame i code _ _ \<Rightarrow> i = unaryText 9 \<and> code = ''internal'' | _ \<Rightarrow> False)"
  by code_simp

section \<open>Properties\<close>

text \<open>C15: the granularity of an edit belongs to the request and not to the transport: a PATCH of a slot with a JSON
  body (its content type application/json, with any parameters, or absent) that first names its fields and a
  slot.edit operation with the same fields and the same values have the same effect on the database,
  publish the same operations, and are accepted in the same cases, whatever the values are.\<close>

theorem slot_edit_same_on_both_transports:
  assumes r: "hrClaims r = Some claims" "pathID l r ''tripID'' = Inr (inTripID i)" "pathID l r ''slotID'' = Inr (inEntityID i)"
      "hrContentType r = [] \<or> foldName (mediaType (hrContentType r)) = ''application/json''"
      "hrBody r = BodyValue (RawObj ((''fields'', RawArr (map RawStr fs)) # kvs)) False"
    and i: "inKind i = OpSlotEdit" "inActorID i = clUserID claims" "inFields i = NewFieldMask fs" "inValues i = Some (RawObj kvs)"
    and kvs: "fs \<noteq> []" "distinct (map (\<lambda>kv. foldName (fst kv)) kvs)"
      "set (map (\<lambda>kv. foldName (fst kv)) kvs) \<subseteq> {''kind'', ''title'', ''notes'', ''start_time'', ''end_time'', ''version''}"
  shows "snd (SlotHandler_Update l e r db) = snd (Engine_dispatch w e i db) \<and>
    (rsStatus (fst (SlotHandler_Update l e r db)) < 400 \<longleftrightarrow> isOk (fst (Engine_dispatch w e i db)))"
proof -
  let ?h = "decodeMembers slotRequest_member kvs None (zeroSlotRequest\<lparr>srFields := fs\<rparr>)"
  have start: "sameEdit later (zeroSlotRequest\<lparr>srFields := fs\<rparr>) zeroValues" for later
    by (simp add: sameEdit_def zeroSlotRequest_def zeroValues_def deref_def)
  have refused: "\<not> rsStatus (writeProblem (writeRequestError err r)) < 400" for err
    using writeRequestError_status [of err r] by simp
  note http = SlotHandler_Update_def onResource_def inTrip_def UserIDFrom_def ClaimsFrom_def r(1-3) decode_edit_body [OF r(4,5)]
    handle_def optionalTime_parse
  consider (ok) b v where "?h = Inr b" "foldR (\<lambda>(k, r). decodeMember w k r) kvs zeroValues = Inr v" "sameEdit [] b v" "srFields b = fs"
    | (bad) f err where "?h = Inl f" "foldR (\<lambda>(k, r). decodeMember w k r) kvs zeroValues = Inl err"
    using decoders_agree [OF kvs(2) _ start, of w] kvs(3)
    by (cases ?h; cases "foldR (\<lambda>(k, r). decodeMember w k r) kvs zeroValues") (auto simp: editKeys_def)
  then show ?thesis
  proof cases
    case bad
    then show ?thesis using refused by (simp add: http Engine_dispatch_def Engine_decode_def i)
  next
    case ok
    note edit = slotEdit_edit [OF ok(3), of i, unfolded i(3) ok(4), OF refl]
    show ?thesis
    proof (cases "parseOptionalTimeOfDay ''start_time'' (srStartTime b)"; cases "parseOptionalTimeOfDay ''end_time'' (srEndTime b)")
      fix s t
      assume times: "parseOptionalTimeOfDay ''start_time'' (srStartTime b) = Inr s" "parseOptionalTimeOfDay ''end_time'' (srEndTime b) = Inr t"
      obtain res db' ops where u: "SlotService_Update e (inTripID i) (clUserID claims) (inEntityID i) (editInput b s t) db = (res, db', ops)"
        by (metis prod_cases3)
      have h: "SlotHandler_Update l e r db =
          (case res of Inl err \<Rightarrow> writeProblem (writeError err r) | Inr slot \<Rightarrow> writeData 200 (SlotBody (toSlotResponse (idText l) slot)), db', ops)"
        using ok times u by (simp add: http liftE_def answer_def editInput_def)
      have status: "rsStatus (fst (SlotHandler_Update l e r db)) < 400 \<longleftrightarrow> isOk res"
        using writeError_status [of _ r] by (cases res) (auto simp: h not_less)
      show ?thesis
      proof (cases "isOk (FieldMask_Validate (NewFieldMask fs) OpSlotEdit)")
        case True
        then have "Engine_dispatch w e i db = ack (res, db', ops)"
          using ok edit times u i by (auto simp: Engine_dispatch_def Engine_decode_def requestOf_def serve_def elim!: isOkE)
        then show ?thesis using status h by (cases res) (simp_all add: ack_def)
      next
        case False
        then obtain err where "res = Inl err" "db' = db" "ops = []"
          using update_badMask [of b e "inTripID i" "clUserID claims" "inEntityID i" s t db] False kvs(1) u ok(4) by auto
        moreover have "\<exists>err. Engine_dispatch w e i db = (Inl err, db, [])"
          using False ok i by (cases "FieldMask_Validate (NewFieldMask fs) OpSlotEdit") (simp_all add: Engine_dispatch_def Engine_decode_def)
        ultimately show ?thesis using status h by auto
      qed
    qed (use ok edit refused i in \<open>auto simp: http liftE_def Engine_dispatch_def Engine_decode_def requestOf_def bindR_eq_Inr split: sum.splits\<close>)
  qed
qed

definition sampleLib :: HttpLib where
  "sampleLib = \<lparr>hlCodec = sampleCodec, hlQuote = (\<lambda>s. s), hlParseDate = (\<lambda>_. None), hlDateText = (\<lambda>_. []),
     hlSplitHostPort = Some, hlParseAddr = Some\<rparr>"

definition samplePatch :: HttpRequest where
  "samplePatch = (sampleCall ''PATCH'' [] (RawObj [(''fields'', RawArr (map RawStr [''title''])), (''Title'', RawStr ''Pune'')]))
     \<lparr>hrParam := (\<lambda>p. if p = ''tripID'' then unaryText 1 else unaryText 7),
      hrClaims := Some \<lparr>clUserID = 3, clSessionID = 11\<rparr>\<rparr>"

definition sampleEditIntent :: Intent where
  "sampleEditIntent = \<lparr>inTripID = 1, inActorID = 3, inClientOpID = 9, inKind = OpSlotEdit, inEntityID = 7,
     inFields = NewFieldMask [''title''], inValues = Some (RawObj [(''Title'', RawStr ''Pune'')])\<rparr>"

lemma sample_intent_edits:
  "snd (snd (Engine_dispatch sampleWire sampleEnv sampleEditIntent (sampleDB\<lparr>dbSlots := [sampleSlot7]\<rparr>))) \<noteq> []"
  by code_simp

theorem slot_edit_same_on_both_transports_witness:
  "snd (snd (SlotHandler_Update sampleLib sampleEnv samplePatch (sampleDB\<lparr>dbSlots := [sampleSlot7]\<rparr>))) \<noteq> []"
proof -
  have "pathID sampleLib samplePatch ''tripID'' = Inr 1" "pathID sampleLib samplePatch ''slotID'' = Inr 7"
    "foldName ''Title'' = ''title''" "foldName (mediaType ''application/json; charset=utf-8'') = ''application/json''" by code_simp+
  then show ?thesis
    using slot_edit_same_on_both_transports [where r = samplePatch and l = sampleLib and i = sampleEditIntent and fs = "[''title'']"
        and kvs = "[(''Title'', RawStr ''Pune'')]" and claims = "\<lparr>clUserID = 3, clSessionID = 11\<rparr>" and e = sampleEnv
        and w = sampleWire and db = "sampleDB\<lparr>dbSlots := [sampleSlot7]\<rparr>"] sample_intent_edits
    by (simp add: samplePatch_def sampleCall_def sampleEditIntent_def)
qed

end
