(* ===== verification/AttachmentService.thy ===== *)
theory AttachmentService
  imports Mirror
begin

text \<open>Attachments as they are stored and served (src/internal/repository/attachment.go and its statements,
  src/internal/service/attachment.go): links, the two-phase upload of files, deletion and the sweep of
  abandoned uploads.

  The object storage is a parameter: presigning, the size of an object, deletion. A request that is not
  one transaction (an upload request, the rejection of an upload, a sweep) is written as the
  statements it runs, each of which commits on its own: on an error what ran before it stays.\<close>

section \<open>The repository\<close>

definition attachmentChecks :: "Attachment \<Rightarrow> unit query" where
  "attachmentChecks a = violates
     [(atChecksumSHA256 a \<noteq> [] \<and> length (atChecksumSHA256 a) \<noteq> 32, CheckViolation ''attachments_checksum''),
      (\<not> AttachmentKind_Valid (atKind a), CheckViolation ''attachments_kind''),
      (RuneCountInString (atOriginalName a) > 255, CheckViolation ''attachments_name_len''),
      (OwnerCount a \<noteq> 1, CheckViolation ''attachments_one_owner''),
      (\<not> (atKind a = AttachmentKindFile \<and> atStorageKey a \<noteq> [] \<and> atExternalURL a = [] \<or>
          atKind a = AttachmentKindLink \<and> atExternalURL a \<noteq> [] \<and> atStorageKey a = [] \<and>
            atStatus a = AttachmentStatusReady), CheckViolation ''attachments_shape''),
      (negativeAmount (atSizeBytes a), CheckViolation ''attachments_size''),
      (\<not> AttachmentStatus_Valid (atStatus a), CheckViolation ''attachments_status'')]"

text \<open>The unique index on object keys, then the references to the trip and to the owner.\<close>

definition refersTo :: "('r \<Rightarrow> ID) \<Rightarrow> 'r list \<Rightarrow> ID option \<Rightarrow> bool" where
  "refersTo key rows i = (case i of None \<Rightarrow> True | Some x \<Rightarrow> findRow key x rows \<noteq> None)"

definition attachmentRefs :: "DB \<Rightarrow> Attachment \<Rightarrow> unit query" where
  "attachmentRefs db a = violates
     [(atStorageKey a \<noteq> [] \<and> list_ex (\<lambda>b. atStorageKey b = atStorageKey a) (dbAttachments db),
       UniqueViolation ''attachments_storage_key_uq''),
      (\<not> refersTo trID (dbTrips db) (Some (atTripID a)), ForeignKeyViolation ''attachments_trip_id_fkey''),
      (\<not> refersTo oID (dbOptions db) (atSlotOptionID a), ForeignKeyViolation ''attachments_slot_option_id_fkey''),
      (\<not> refersTo bID (dbBudgets db) (atBudgetEntryID a), ForeignKeyViolation ''attachments_budget_entry_id_fkey''),
      (\<not> refersTo sID (dbSlots db) (atSlotID a), ForeignKeyViolation ''attachments_slot_id_fkey'')]"

definition newAttachmentRow :: "Env \<Rightarrow> Attachment \<Rightarrow> Attachment" where
  "newAttachmentRow e a = a\<lparr>atSizeBytes := None, atChecksumSHA256 := [], atCreatedAt := eTxNow e,
     atUpdatedAt := eTxNow e, atDeletedAt := None\<rparr>"

definition CreateAttachment :: "Env \<Rightarrow> Attachment \<Rightarrow> DB \<Rightarrow> (Attachment \<times> DB) query" where
  "CreateAttachment e a db =
     bindR (insertRow ''attachments_pkey'' atID attachmentChecks (attachmentRefs db) (newAttachmentRow e a) (dbAttachments db))
       (\<lambda>(r, rows). Inr (r, db\<lparr>dbAttachments := rows\<rparr>))"

definition AttachmentRepository_Create :: "Env \<Rightarrow> Attachment \<Rightarrow> DB \<Rightarrow> (Attachment \<times> DB) res" where
  "AttachmentRepository_Create e a db = mapErrorR (CreateAttachment e a db)"

definition GetAttachmentByID :: "ID \<Rightarrow> DB \<Rightarrow> Attachment query" where
  "GetAttachmentByID i db =
     (case findRow atID i (dbAttachments db) of
        None \<Rightarrow> Inl ErrNoRows
      | Some a \<Rightarrow> if atDeletedAt a = None then Inr a else Inl ErrNoRows)"

definition AttachmentRepository_GetByID :: "ID \<Rightarrow> DB \<Rightarrow> Attachment res" where
  "AttachmentRepository_GetByID i db = mapErrorR (GetAttachmentByID i db)"

record AttachmentOwner =
  owSlotOptionID :: "ID option"
  owBudgetEntryID :: "ID option"
  owSlotID :: "ID option"

definition AttachmentOwner_Valid :: "AttachmentOwner \<Rightarrow> bool" where
  "AttachmentOwner_Valid o' =
     (length (filter (\<lambda>i. i \<noteq> None) [owSlotOptionID o', owBudgetEntryID o', owSlotID o']) = 1)"

definition errOneOwner :: error where
  "errOneOwner = ValidationError (Add ''owner'' ''exactly_one_required'' [])"

definition listAttachments :: "(Attachment \<Rightarrow> bool) \<Rightarrow> DB \<Rightarrow> Attachment list" where
  "listAttachments P db =
     sort_key (\<lambda>a. (atCreatedAt a, atID a)) (filter (\<lambda>a. P a \<and> atDeletedAt a = None) (dbAttachments db))"

definition ListAttachmentsForOption :: "ID option \<Rightarrow> DB \<Rightarrow> Attachment list" where
  "ListAttachmentsForOption i = listAttachments (\<lambda>a. i \<noteq> None \<and> atSlotOptionID a = i)"

definition ListAttachmentsForBudgetEntry :: "ID option \<Rightarrow> DB \<Rightarrow> Attachment list" where
  "ListAttachmentsForBudgetEntry i = listAttachments (\<lambda>a. i \<noteq> None \<and> atBudgetEntryID a = i)"

definition ListAttachmentsForSlot :: "ID option \<Rightarrow> DB \<Rightarrow> Attachment list" where
  "ListAttachmentsForSlot i = listAttachments (\<lambda>a. i \<noteq> None \<and> atSlotID a = i)"

definition ListAttachmentsForTrip :: "ID \<Rightarrow> DB \<Rightarrow> Attachment list" where
  "ListAttachmentsForTrip tripID = listAttachments (\<lambda>a. atTripID a = tripID)"

definition AttachmentRepository_ListForOwner :: "AttachmentOwner \<Rightarrow> DB \<Rightarrow> Attachment list res" where
  "AttachmentRepository_ListForOwner o' db =
     (if \<not> AttachmentOwner_Valid o' then Inl errOneOwner
      else if owSlotOptionID o' \<noteq> None then Inr (ListAttachmentsForOption (owSlotOptionID o') db)
      else if owBudgetEntryID o' \<noteq> None then Inr (ListAttachmentsForBudgetEntry (owBudgetEntryID o') db)
      else Inr (ListAttachmentsForSlot (owSlotID o') db))"

definition AttachmentRepository_ListForTrip :: "ID \<Rightarrow> DB \<Rightarrow> Attachment list" where
  "AttachmentRepository_ListForTrip tripID db = ListAttachmentsForTrip tripID db"

text \<open>The statements that change a row: a predicate that the live row must meet and the columns they
  set. One returns the row, or reports that there is none; the others return the number of rows.\<close>

definition updateAttachment ::
  "(Attachment \<Rightarrow> bool) \<Rightarrow> (Attachment \<Rightarrow> Attachment) \<Rightarrow> ID \<Rightarrow> DB \<Rightarrow> (Attachment \<times> DB) query" where
  "updateAttachment P f i db =
     (case findRow atID i (dbAttachments db) of
        None \<Rightarrow> Inl ErrNoRows
      | Some r \<Rightarrow>
          if \<not> P r \<or> atDeletedAt r \<noteq> None then Inl ErrNoRows
          else bindR (attachmentChecks (f r)) (\<lambda>_.
            Inr (f r, db\<lparr>dbAttachments := updRow atID i f (dbAttachments db)\<rparr>)))"

definition execrows :: "('a \<times> 's) query \<Rightarrow> 's \<Rightarrow> (nat \<times> 's) query" where
  "execrows q db = (case q of
       Inr (_, db') \<Rightarrow> Inr (1, db')
     | Inl err \<Rightarrow> if isNoRows err then Inr (0, db) else Inl err)"

definition affected :: "(nat \<times> 's) query \<Rightarrow> (unit \<times> 's) res" where
  "affected q = bindR (mapErrorR q) (\<lambda>(n, db). if n = 0 then Inl ErrNotFound else Inr ((), db))"

definition isPending :: "Attachment \<Rightarrow> bool" where
  "isPending a = (atStatus a = AttachmentStatusPending)"

definition setConfirmed :: "Env \<Rightarrow> int64 \<Rightarrow> str \<Rightarrow> instant \<Rightarrow> Attachment \<Rightarrow> Attachment" where
  "setConfirmed e n checksum ts a = a\<lparr>atStatus := AttachmentStatusReady, atSizeBytes := Some n,
     atChecksumSHA256 := checksum, atUpdatedAt := eTimestamp e ts\<rparr>"

definition ConfirmAttachment :: "Env \<Rightarrow> ID \<Rightarrow> int64 \<Rightarrow> str \<Rightarrow> instant \<Rightarrow> DB \<Rightarrow> (Attachment \<times> DB) query" where
  "ConfirmAttachment e i n checksum ts = updateAttachment isPending (setConfirmed e n checksum ts) i"

definition ConfirmReturning :: "Env \<Rightarrow> ID \<Rightarrow> int64 \<Rightarrow> str \<Rightarrow> instant \<Rightarrow> DB \<Rightarrow> (Attachment \<times> DB) res" where
  "ConfirmReturning e i n checksum ts db = mapErrorR (ConfirmAttachment e i n checksum ts db)"

definition AttachmentRepository_Confirm ::
  "Env \<Rightarrow> ID \<Rightarrow> int64 \<Rightarrow> str \<Rightarrow> instant \<Rightarrow> DB \<Rightarrow> (unit \<times> DB) res" where
  "AttachmentRepository_Confirm e i n checksum ts db =
     bindR (ConfirmReturning e i n checksum ts db) (\<lambda>(_, db'). Inr ((), db'))"

definition setFailed :: "Env \<Rightarrow> instant \<Rightarrow> Attachment \<Rightarrow> Attachment" where
  "setFailed e ts a = a\<lparr>atStatus := AttachmentStatusFailed, atUpdatedAt := eTimestamp e ts\<rparr>"

definition MarkAttachmentFailed :: "Env \<Rightarrow> ID \<Rightarrow> instant \<Rightarrow> DB \<Rightarrow> (nat \<times> DB) query" where
  "MarkAttachmentFailed e i ts db = execrows (updateAttachment isPending (setFailed e ts) i db) db"

definition AttachmentRepository_MarkFailed :: "Env \<Rightarrow> ID \<Rightarrow> instant \<Rightarrow> DB \<Rightarrow> (unit \<times> DB) res" where
  "AttachmentRepository_MarkFailed e i ts db = affected (MarkAttachmentFailed e i ts db)"

definition setAttachmentDeleted :: "Env \<Rightarrow> instant \<Rightarrow> Attachment \<Rightarrow> Attachment" where
  "setAttachmentDeleted e ts a = a\<lparr>atDeletedAt := Some (eTimestamp e ts), atUpdatedAt := eTimestamp e ts\<rparr>"

definition SoftDeleteAttachment :: "Env \<Rightarrow> ID \<Rightarrow> instant \<Rightarrow> DB \<Rightarrow> (nat \<times> DB) query" where
  "SoftDeleteAttachment e i ts db = execrows (updateAttachment (\<lambda>_. True) (setAttachmentDeleted e ts) i db) db"

definition AttachmentRepository_SoftDelete :: "Env \<Rightarrow> ID \<Rightarrow> instant \<Rightarrow> DB \<Rightarrow> (unit \<times> DB) res" where
  "AttachmentRepository_SoftDelete e i ts db = affected (SoftDeleteAttachment e i ts db)"

definition ListStalePendingAttachments :: "instant \<Rightarrow> nat \<Rightarrow> DB \<Rightarrow> Attachment list" where
  "ListStalePendingAttachments before n db =
     take n (sort_key atCreatedAt
       (filter (\<lambda>a. isPending a \<and> atCreatedAt a < before \<and> atDeletedAt a = None) (dbAttachments db)))"

definition AttachmentRepository_ListStalePending :: "instant \<Rightarrow> nat \<Rightarrow> DB \<Rightarrow> Attachment list" where
  "AttachmentRepository_ListStalePending before n db = ListStalePendingAttachments before n db"

section \<open>The service\<close>

definition secondNs :: int where "secondNs = 1000000000"
definition uploadURLTTL :: int where "uploadURLTTL = 15 * 60 * secondNs"
definition downloadURLTTL :: int where "downloadURLTTL = 5 * 60 * secondNs"
definition abandonedUploadAge :: int where "abandonedUploadAge = 60 * 60 * secondNs"

record FileInfo =
  fiSizeBytes :: int64
  fiContentType :: str

record FileStorage =
  fsPresignUpload :: "str \<Rightarrow> str \<Rightarrow> int \<Rightarrow> str res"
  fsPresignDownload :: "str \<Rightarrow> int \<Rightarrow> str res"
  fsStat :: "str \<Rightarrow> FileInfo res"
  fsDelete :: "str \<Rightarrow> error option"

definition storageKey :: "Env \<Rightarrow> ID \<Rightarrow> ID \<Rightarrow> str" where
  "storageKey e tripID i = ''trips/'' @ eText e tripID @ ''/attachments/'' @ eText e i"

definition checkOwnerInTrip :: "ID \<Rightarrow> AttachmentOwner \<Rightarrow> DB \<Rightarrow> unit res" where
  "checkOwnerInTrip tripID o' db =
     (if \<not> AttachmentOwner_Valid o' then Inl errOneOwner
      else case owSlotID o' of
        Some i \<Rightarrow> bindR (SlotRepository_GetByID i db) (\<lambda>s. checkTrip (sTripID s) tripID)
      | None \<Rightarrow>
          (case owSlotOptionID o' of
             Some i \<Rightarrow> bindR (SlotOptionRepository_GetByID i db) (\<lambda>x. checkTrip (oTripID x) tripID)
           | None \<Rightarrow> bindR (BudgetRepository_GetByID (the (owBudgetEntryID o')) db) (\<lambda>b. checkTrip (bTripID b) tripID)))"

definition AttachmentService_getInTrip :: "ID \<Rightarrow> ID \<Rightarrow> DB \<Rightarrow> Attachment res" where
  "AttachmentService_getInTrip tripID i db =
     bindR (AttachmentRepository_GetByID i db) (\<lambda>a. bindR (checkTrip (atTripID a) tripID) (\<lambda>_. Inr a))"

definition AttachmentService_ListForOwner :: "ID \<Rightarrow> ID \<Rightarrow> AttachmentOwner \<Rightarrow> DB \<Rightarrow> Attachment list res" where
  "AttachmentService_ListForOwner tripID userID o' db =
     bindR (actor tripID userID db) (\<lambda>_.
     bindR (checkOwnerInTrip tripID o' db) (\<lambda>_. AttachmentRepository_ListForOwner o' db))"

record CreateLinkInput =
  clOwner :: AttachmentOwner
  clURL :: str
  clTitle :: str
  clID :: ID

definition owned :: "ID \<Rightarrow> ID \<Rightarrow> AttachmentOwner \<Rightarrow> ID \<Rightarrow> Attachment" where
  "owned i tripID o' userID = zeroAttachment\<lparr>atID := i, atTripID := tripID,
     atSlotOptionID := owSlotOptionID o', atBudgetEntryID := owBudgetEntryID o', atSlotID := owSlotID o',
     atUploadedBy := Some userID\<rparr>"

definition draftLink :: "Env \<Rightarrow> ID \<Rightarrow> ID \<Rightarrow> CreateLinkInput \<Rightarrow> Attachment" where
  "draftLink e tripID actorID inp = (owned (orNewID e (clID inp)) tripID (clOwner inp) actorID)
     \<lparr>atKind := AttachmentKindLink, atStatus := AttachmentStatusReady,
      atExternalURL := TrimSpace (clURL inp), atOriginalName := clTitle inp\<rparr>"

definition createLinkBody :: "Env \<Rightarrow> ID \<Rightarrow> ID \<Rightarrow> CreateLinkInput \<Rightarrow> Attachment tx" where
  "createLinkBody e tripID actorID inp =
     bindT (readT (checkOwnerInTrip tripID (clOwner inp))) (\<lambda>_.
     bindT (liftT (Attachment_Validate (draftLink e tripID actorID inp))) (\<lambda>_.
     bindT (stmtT (AttachmentRepository_Create e (draftLink e tripID actorID inp))) (\<lambda>row.
     bindT (rec_attachment e tripID actorID OpAttachmentAdd row []) (\<lambda>_. returnT row))))"

definition AttachmentService_CreateLink :: "Env \<Rightarrow> ID \<Rightarrow> ID \<Rightarrow> CreateLinkInput \<Rightarrow> DB \<Rightarrow> Attachment reply" where
  "AttachmentService_CreateLink e tripID userID inp db =
     guarded (require tripID userID CapUploadAttachments db) (\<lambda>a.
       oplog_write tripID (createLinkBody e tripID (aUserID a) inp)) db"

record RequestUploadInput =
  ruOwner :: AttachmentOwner
  ruContentType :: str
  ruOriginalName :: str
  ruID :: ID

record UploadTicket =
  utAttachment :: Attachment
  utUploadURL :: str
  utExpiresAt :: instant

definition draftUpload :: "Env \<Rightarrow> ID \<Rightarrow> ID \<Rightarrow> RequestUploadInput \<Rightarrow> Attachment" where
  "draftUpload e tripID actorID inp = (owned (orNewID e (ruID inp)) tripID (ruOwner inp) actorID)
     \<lparr>atKind := AttachmentKindFile, atStatus := AttachmentStatusPending,
      atStorageKey := storageKey e tripID (orNewID e (ruID inp)),
      atContentType := TrimSpace (ruContentType inp), atOriginalName := ruOriginalName inp\<rparr>"

text \<open>An upload request is the row first, the address second: no lock, no operation, and a failure to
  presign leaves the row.\<close>

definition reserveUpload :: "Env \<Rightarrow> ID \<Rightarrow> ID \<Rightarrow> RequestUploadInput \<Rightarrow> DB \<Rightarrow> (Attachment \<times> DB) res" where
  "reserveUpload e tripID userID inp db =
     bindR (require tripID userID CapUploadAttachments db) (\<lambda>a.
     bindR (checkOwnerInTrip tripID (ruOwner inp) db) (\<lambda>_.
     if TrimSpace (ruContentType inp) = [] then Inl (ValidationError (Add ''content_type'' ''required'' []))
     else bindR (Attachment_Validate (draftUpload e tripID (aUserID a) inp)) (\<lambda>_.
       AttachmentRepository_Create e (draftUpload e tripID (aUserID a) inp) db)))"

definition AttachmentService_RequestUpload ::
  "FileStorage \<Rightarrow> Env \<Rightarrow> ID \<Rightarrow> ID \<Rightarrow> RequestUploadInput \<Rightarrow> DB \<Rightarrow> UploadTicket reply" where
  "AttachmentService_RequestUpload fs e tripID userID inp db =
     (case reserveUpload e tripID userID inp db of
        Inl err \<Rightarrow> (Inl err, db, [])
      | Inr (row, db') \<Rightarrow>
          (case fsPresignUpload fs (atStorageKey row) (TrimSpace (ruContentType inp)) uploadURLTTL of
             Inl err \<Rightarrow> (Inl err, db', [])
           | Inr url \<Rightarrow> (Inr \<lparr>utAttachment = row, utUploadURL = url, utExpiresAt = eNow e + uploadURLTTL\<rparr>, db', [])))"

text \<open>The rejection of an upload: the row is marked failed; a failure to delete the object is ignored.\<close>

definition rejectUpload :: "Env \<Rightarrow> Attachment \<Rightarrow> DB \<Rightarrow> unit reply" where
  "rejectUpload e a db =
     (case AttachmentRepository_MarkFailed e (atID a) (eNow e) db of
        Inl err \<Rightarrow> (Inl err, db, [])
      | Inr (_, db') \<Rightarrow> (Inr (), db', []))"

definition confirmBody :: "Env \<Rightarrow> ID \<Rightarrow> ID \<Rightarrow> ID \<Rightarrow> int64 \<Rightarrow> Attachment tx" where
  "confirmBody e tripID actorID i n =
     bindT (stmtT (AttachmentRepository_Confirm e i n [] (eNow e))) (\<lambda>_.
     bindT (readT (AttachmentRepository_GetByID i)) (\<lambda>fresh.
     bindT (rec_attachment e tripID actorID OpAttachmentAdd fresh []) (\<lambda>_. returnT fresh)))"

definition AttachmentService_ConfirmUpload :: "FileStorage \<Rightarrow> Env \<Rightarrow> ID \<Rightarrow> ID \<Rightarrow> ID \<Rightarrow> DB \<Rightarrow> Attachment reply" where
  "AttachmentService_ConfirmUpload fs e tripID userID i db =
     guarded (require tripID userID CapUploadAttachments db) (\<lambda>a.
     guarded (AttachmentService_getInTrip tripID i db) (\<lambda>existing.
     if atKind existing \<noteq> AttachmentKindFile then
       guarded (Inl (ValidationError (Add ''kind'' ''not_a_file'' []))) (\<lambda>x db. (Inr x, db, []))
     else if IsReady existing then (\<lambda>db. (Inr existing, db, []))
     else (case fsStat fs (atStorageKey existing) of
        Inl err \<Rightarrow> (\<lambda>db. (Inl (if err = ErrNotFound then ValidationError (Add ''upload'' ''not_uploaded'' []) else err), db, []))
      | Inr info \<Rightarrow>
          if sint (fiSizeBytes info) > MaxAttachmentBytes then
            (\<lambda>db. case rejectUpload e existing db of
               (Inl err, db', ops) \<Rightarrow> (Inl err, db', ops)
             | (Inr _, db', ops) \<Rightarrow> (Inl (ValidationError (Add ''size_bytes'' ''too_large'' [])), db', ops))
          else oplog_write tripID (confirmBody e tripID (aUserID a) i (fiSizeBytes info))))) db"

definition AttachmentService_DownloadURL :: "FileStorage \<Rightarrow> ID \<Rightarrow> ID \<Rightarrow> ID \<Rightarrow> DB \<Rightarrow> str res" where
  "AttachmentService_DownloadURL fs tripID userID i db =
     bindR (actor tripID userID db) (\<lambda>_.
     bindR (AttachmentService_getInTrip tripID i db) (\<lambda>a.
     if atKind a = AttachmentKindLink then Inr (atExternalURL a)
     else if \<not> IsReady a then Inl (ValidationError (Add ''status'' ''not_ready'' []))
     else fsPresignDownload fs (atStorageKey a) downloadURLTTL))"

definition attachmentTombstone :: "Env \<Rightarrow> Attachment \<Rightarrow> Attachment" where
  "attachmentTombstone e a = a\<lparr>atDeletedAt := Some (eNow e), atUpdatedAt := eNow e\<rparr>"

definition deleteAttachmentBody :: "Env \<Rightarrow> ID \<Rightarrow> ID \<Rightarrow> ID \<Rightarrow> unit tx" where
  "deleteAttachmentBody e tripID actorID i =
     bindT (readT (AttachmentService_getInTrip tripID i)) (\<lambda>existing.
     bindT (stmtT (AttachmentRepository_SoftDelete e i (eNow e))) (\<lambda>_.
     if isPending existing then returnT ()
     else rec_attachment e tripID actorID OpAttachmentRemove (attachmentTombstone e existing) [FieldDeletedAt]))"

definition AttachmentService_Delete :: "Env \<Rightarrow> ID \<Rightarrow> ID \<Rightarrow> ID \<Rightarrow> DB \<Rightarrow> unit reply" where
  "AttachmentService_Delete e tripID userID i db =
     guarded (require tripID userID CapUploadAttachments db) (\<lambda>a.
       oplog_write tripID (deleteAttachmentBody e tripID (aUserID a) i)) db"

text \<open>The sweep: for each stale row, the object, then the row. An object that cannot be deleted leaves its
  row for the next sweep; a row that cannot be deleted ends the sweep.\<close>

fun sweepRows :: "FileStorage \<Rightarrow> Env \<Rightarrow> Attachment list \<Rightarrow> nat \<Rightarrow> DB \<Rightarrow> error option \<times> nat \<times> DB" where
  "sweepRows fs e [] swept db = (None, swept, db)"
| "sweepRows fs e (a # stale) swept db =
     (case fsDelete fs (atStorageKey a) of
        Some _ \<Rightarrow> sweepRows fs e stale swept db
      | None \<Rightarrow>
          (case AttachmentRepository_SoftDelete e (atID a) (eNow e) db of
             Inl err \<Rightarrow> (Some err, swept, db)
           | Inr (_, db') \<Rightarrow> sweepRows fs e stale (swept + 1) db'))"

definition SweepAbandonedUploads :: "FileStorage \<Rightarrow> Env \<Rightarrow> nat \<Rightarrow> DB \<Rightarrow> error option \<times> nat \<times> DB" where
  "SweepAbandonedUploads fs e n db =
     sweepRows fs e (AttachmentRepository_ListStalePending (eNow e - abandonedUploadAge) n db) 0 db"

end
