(* ===== verification/AttachmentLife.thy ===== *)
theory AttachmentLife
  imports AttachmentService
begin

text \<open>The life of an attachment. Every way the services commit to the attachments table is a value of one
  datatype, with what the service has read before and no later commit can undo; databases are reached
  by these commits and by the requests of the planning services in any order, so uploads, confirmations,
  deletions and sweeps interleave freely.\<close>

section \<open>What a successful body did\<close>

definition attachmentTable :: "(Attachment list \<Rightarrow> Attachment list) \<Rightarrow> DB \<Rightarrow> DB" where
  "attachmentTable g db = db\<lparr>dbAttachments := g (dbAttachments db)\<rparr>"

lemma attachmentTable_simps [simp]:
  "dbAttachments (attachmentTable g db) = g (dbAttachments db)" "dbOps (attachmentTable g db) = dbOps db"
  "dbOpSeq (attachmentTable g db) = dbOpSeq db" "dbTrips (attachmentTable g db) = dbTrips db"
  "dbMembers (attachmentTable g db) = dbMembers db"
  "databaseShown us lost T (attachmentTable g db) = databaseShown us lost T db"
  "datesStored date (attachmentTable g db) = datesStored date db"
  "relational (attachmentTable g db) = relational db"
  by (simp_all add: attachmentTable_def databaseShown_def datesStored_def relational_def anchored_def slotInTrip_def)

lemma rec_attachment_Inr:
  "rec_attachment e tripID actorID kind s flds t = Inr (u, t') \<Longrightarrow>
     \<exists>p. AttachmentPayload (eText e) s (maskFor kind flds) = Inr p \<and>
       FieldMask_Validate (maskFor kind flds) kind = Inr () \<and>
       t' = pushOp (loggedOp e tripID actorID kind (atID s) (maskFor kind flds) p t) t"
  by (auto simp: rec_attachment_def Let_def bindT_eq_Inr dest: record_op_Inr)

lemma updateAttachment_Inr:
  "updateAttachment P f i db = Inr (r', db') \<longleftrightarrow>
     (\<exists>r. findRow atID i (dbAttachments db) = Some r \<and> P r \<and> atDeletedAt r = None \<and> attachmentChecks (f r) = Inr () \<and>
        r' = f r \<and> db' = attachmentTable (updRow atID i f) db)"
  by (auto simp: updateAttachment_def attachmentTable_def sum_cases split: option.splits if_splits)

lemma affected_Inr: "affected (execrows q db) = Inr (u, db') \<longleftrightarrow> (\<exists>r. q = Inr (r, db'))"
  by (auto simp: affected_def execrows_def sum_cases split: sum.splits if_splits)

lemma attachment_writes_Inr:
  "AttachmentRepository_Confirm e i n checksum ts db = Inr (u, db') \<longleftrightarrow>
     (\<exists>r. updateAttachment isPending (setConfirmed e n checksum ts) i db = Inr (r, db'))"
  "AttachmentRepository_MarkFailed e i ts db = Inr (u, db') \<longleftrightarrow> (\<exists>r. updateAttachment isPending (setFailed e ts) i db = Inr (r, db'))"
  "AttachmentRepository_SoftDelete e i ts db = Inr (u, db') \<longleftrightarrow>
     (\<exists>r. updateAttachment (\<lambda>_. True) (setAttachmentDeleted e ts) i db = Inr (r, db'))"
  by (auto simp: AttachmentRepository_Confirm_def ConfirmReturning_def ConfirmAttachment_def AttachmentRepository_MarkFailed_def
      MarkAttachmentFailed_def AttachmentRepository_SoftDelete_def SoftDeleteAttachment_def affected_Inr sum_cases)

lemma AttachmentRepository_GetByID_Inr:
  "AttachmentRepository_GetByID i db = Inr a \<longleftrightarrow> findRow atID i (dbAttachments db) = Some a \<and> atDeletedAt a = None"
  by (auto simp: AttachmentRepository_GetByID_def GetAttachmentByID_def split: option.splits)

lemma AttachmentRepository_Create_Inr:
  "AttachmentRepository_Create e a db = Inr (row, db') \<longleftrightarrow>
     row = newAttachmentRow e a \<and> attachmentChecks row = Inr () \<and> findRow atID (atID row) (dbAttachments db) = None \<and>
     attachmentRefs db row = Inr () \<and> db' = attachmentTable (\<lambda>rows. rows @ [row]) db"
  by (auto simp: AttachmentRepository_Create_def CreateAttachment_def insertRow_Inr attachmentTable_def sum_cases)

definition onTable :: "(Attachment list \<Rightarrow> Attachment list) \<Rightarrow> Tx \<Rightarrow> Tx" where
  "onTable g t = t\<lparr>txDB := attachmentTable g (txDB t)\<rparr>"

lemma onTable_simps [simp]: "txDB (onTable g t) = attachmentTable g (txDB t)" "txOps (onTable g t) = txOps t"
  by (simp_all add: onTable_def)

text \<open>The four ways a row changes.\<close>

definition addedRow :: "Env \<Rightarrow> Attachment \<Rightarrow> DB \<Rightarrow> Attachment \<Rightarrow> bool" where
  "addedRow e a db row \<longleftrightarrow> row = newAttachmentRow e a \<and> Attachment_Validate a = Inr () \<and> attachmentChecks row = Inr () \<and>
     findRow atID (atID row) (dbAttachments db) = None \<and> attachmentRefs db row = Inr ()"

definition liveRow :: "ID \<Rightarrow> DB \<Rightarrow> Attachment \<Rightarrow> bool" where
  "liveRow i db row \<longleftrightarrow> findRow atID i (dbAttachments db) = Some row \<and> atDeletedAt row = None"

lemma createLinkBody_Inr:
  assumes "createLinkBody e tripID actorID inp t = Inr (row, t')"
  shows "\<exists>p t1. addedRow e (draftLink e tripID actorID inp) (txDB t) row \<and>
    AttachmentPayload (eText e) row (maskFor OpAttachmentAdd []) = Inr p \<and> t1 = onTable (\<lambda>rows. rows @ [row]) t \<and>
    t' = pushOp (loggedOp e tripID actorID OpAttachmentAdd (atID row) (maskFor OpAttachmentAdd []) p t1) t1"
  using assms
  by (auto simp: createLinkBody_def bindT_eq_Inr AttachmentRepository_Create_Inr addedRow_def onTable_def
      dest!: rec_attachment_Inr)

lemma reserveUpload_Inr:
  assumes "reserveUpload e tripID userID inp db = Inr (row, db')"
  shows "addedRow e (draftUpload e tripID userID inp) db row \<and> db' = attachmentTable (\<lambda>rows. rows @ [row]) db"
  using assms by (auto simp: reserveUpload_def sum_cases AttachmentRepository_Create_Inr addedRow_def
      split: if_splits dest: require_user)

lemma findRow_updated:
  assumes "findRow atID i rows = Some r" "atID (f r) = atID r"
  shows "findRow atID i (updRow atID i f rows) = Some (f r)"
  using assms by (induction rows) (auto simp: findRow_def updRow_def split: if_splits)

lemma confirmBody_Inr:
  assumes "confirmBody e tripID actorID i n t = Inr (row', t')"
  shows "\<exists>row p t1. liveRow i (txDB t) row \<and> isPending row \<and> attachmentChecks row' = Inr () \<and>
    row' = setConfirmed e n [] (eNow e) row \<and>
    AttachmentPayload (eText e) row' (maskFor OpAttachmentAdd []) = Inr p \<and>
    t1 = onTable (updRow atID i (setConfirmed e n [] (eNow e))) t \<and>
    t' = pushOp (loggedOp e tripID actorID OpAttachmentAdd i (maskFor OpAttachmentAdd []) p t1) t1"
proof -
  obtain row where row: "findRow atID i (dbAttachments (txDB t)) = Some row" "isPending row" "atDeletedAt row = None"
    and ok: "attachmentChecks (setConfirmed e n [] (eNow e) row) = Inr ()"
    and fresh: "AttachmentRepository_GetByID i (attachmentTable (updRow atID i (setConfirmed e n [] (eNow e))) (txDB t)) = Inr row'"
    and l: "rec_attachment e tripID actorID OpAttachmentAdd row' [] (onTable (updRow atID i (setConfirmed e n [] (eNow e))) t) = Inr ((), t')"
    using assms
    by (auto simp: confirmBody_def bindT_eq_Inr attachment_writes_Inr updateAttachment_Inr onTable_def)
  have "row' = setConfirmed e n [] (eNow e) row"
    using fresh findRow_updated [OF row(1), of "setConfirmed e n [] (eNow e)"]
    by (simp add: AttachmentRepository_GetByID_Inr setConfirmed_def)
  moreover have "atID row' = i" using findRow_key [OF row(1)] \<open>row' = _\<close> by (simp add: setConfirmed_def)
  ultimately show ?thesis using row ok rec_attachment_Inr [OF l] unfolding liveRow_def by blast
qed

lemma deleteAttachmentBody_Inr:
  assumes "deleteAttachmentBody e tripID actorID i t = Inr (u, t')"
  shows "\<exists>row t1. liveRow i (txDB t) row \<and> atTripID row = tripID \<and> t1 = onTable (updRow atID i (setAttachmentDeleted e (eNow e))) t \<and>
    (isPending row \<and> t' = t1 \<or>
     \<not> isPending row \<and> (\<exists>p. AttachmentPayload (eText e) (attachmentTombstone e row) (maskFor OpAttachmentRemove [FieldDeletedAt]) = Inr p \<and>
       t' = pushOp (loggedOp e tripID actorID OpAttachmentRemove i (maskFor OpAttachmentRemove [FieldDeletedAt]) p t1) t1))"
proof -
  obtain row where row: "findRow atID i (dbAttachments (txDB t)) = Some row" "atDeletedAt row = None" "atTripID row = tripID"
    and l: "(if isPending row then returnT () else rec_attachment e tripID actorID OpAttachmentRemove (attachmentTombstone e row) [FieldDeletedAt])
      (onTable (updRow atID i (setAttachmentDeleted e (eNow e))) t) = Inr ((), t')"
    using assms
    by (auto simp: deleteAttachmentBody_def bindT_eq_Inr AttachmentService_getInTrip_def AttachmentRepository_GetByID_Inr
        attachment_writes_Inr updateAttachment_Inr checkTrip_def sum_cases onTable_def split: if_splits)
  have "atID (attachmentTombstone e row) = i" using findRow_key [OF row(1)] by (simp add: attachmentTombstone_def)
  then show ?thesis using row l rec_attachment_Inr [of e tripID actorID OpAttachmentRemove "attachmentTombstone e row"]
    by (fastforce simp: liveRow_def split: if_splits)
qed

section \<open>Commits\<close>

datatype Commit =
    Linked ID ID CreateLinkInput
  | Reserved ID ID RequestUploadInput
  | Confirmed ID ID ID int64
  | Rejected ID
  | Removed ID ID ID
  | Swept ID

definition single :: "('a \<times> DB) res \<Rightarrow> DB \<Rightarrow> unit reply" where
  "single r db = (case r of Inl err \<Rightarrow> (Inl err, db, []) | Inr (_, db') \<Rightarrow> (Inr (), db', []))"

definition runCommit :: "Env \<Rightarrow> Commit \<Rightarrow> DB \<Rightarrow> unit reply" where
  "runCommit e c db = (case c of
       Linked tripID actorID inp \<Rightarrow> ack (oplog_write tripID (createLinkBody e tripID actorID inp) db)
     | Reserved tripID userID inp \<Rightarrow> single (reserveUpload e tripID userID inp db) db
     | Confirmed tripID actorID i n \<Rightarrow> ack (oplog_write tripID (confirmBody e tripID actorID i n) db)
     | Rejected i \<Rightarrow> single (AttachmentRepository_MarkFailed e i (eNow e) db) db
     | Removed tripID actorID i \<Rightarrow> oplog_write tripID (deleteAttachmentBody e tripID actorID i) db
     | Swept i \<Rightarrow> single (AttachmentRepository_SoftDelete e i (eNow e) db) db)"

text \<open>What the service has established before it commits, by reads that may be stale: the size the storage
  reported is acceptable and the row is a file of the trip; the row of a sweep is a file.\<close>

definition isFileOf :: "ID \<Rightarrow> DB \<Rightarrow> (Attachment \<Rightarrow> bool) \<Rightarrow> bool" where
  "isFileOf i db P \<longleftrightarrow> (case findRow atID i (dbAttachments db) of None \<Rightarrow> False
     | Some r \<Rightarrow> atKind r = AttachmentKindFile \<and> P r)"

definition established :: "Commit \<Rightarrow> DB \<Rightarrow> bool" where
  "established c db = (case c of
       Confirmed tripID _ i n \<Rightarrow> sint n \<le> MaxAttachmentBytes \<and> isFileOf i db (\<lambda>r. atTripID r = tripID)
     | Rejected i \<Rightarrow> isFileOf i db (\<lambda>_. True)
     | Swept i \<Rightarrow> isFileOf i db (\<lambda>_. True)
     | _ \<Rightarrow> True)"

inductive stored :: "(Env \<Rightarrow> bool) \<Rightarrow> (Commit \<Rightarrow> DB \<Rightarrow> bool) \<Rightarrow> DB \<Rightarrow> bool" for okEnv okCommit where
  empty: "emptyPlan db \<Longrightarrow> dbAttachments db = [] \<Longrightarrow> stored okEnv okCommit db"
| members: "stored okEnv okCommit db \<Longrightarrow> stored okEnv okCommit (db\<lparr>dbTrips := ts, dbMembers := ms, dbInvitations := is\<rparr>)"
| planned: "stored okEnv okCommit db \<Longrightarrow> okEnv e \<Longrightarrow> serve e tripID userID req db = (res, db', ops) \<Longrightarrow> stored okEnv okCommit db'"
| attached: "stored okEnv okCommit db \<Longrightarrow> okEnv e \<Longrightarrow> established c db \<Longrightarrow> okCommit c db \<Longrightarrow>
    runCommit e c db = (res, db', ops) \<Longrightarrow> stored okEnv okCommit db'"

text \<open>The commits the design allows for: a failed upload is not deleted by a member, and a sweep reaches a row
  while it is still pending. Nothing in the code ensures either.\<close>

definition announcedOnly :: "Commit \<Rightarrow> DB \<Rightarrow> bool" where
  "announcedOnly c db = (case c of
       Removed _ _ i \<Rightarrow> (case findRow atID i (dbAttachments db) of None \<Rightarrow> True | Some r \<Rightarrow> atStatus r \<noteq> AttachmentStatusFailed)
     | Swept i \<Rightarrow> (case findRow atID i (dbAttachments db) of None \<Rightarrow> True | Some r \<Rightarrow> isPending r)
     | _ \<Rightarrow> True)"

text \<open>The effect of a commit: nothing, or one row added or changed, with the operation that announces it.\<close>

inductive rowStep :: "Env \<Rightarrow> bool \<Rightarrow> DB \<Rightarrow> DB \<Rightarrow> bool" for e strict where
  linked: "addedRow e (draftLink e tripID actorID inp) db row \<Longrightarrow>
    AttachmentPayload (eText e) row (maskFor OpAttachmentAdd []) = Inr p \<Longrightarrow> t1 = onTable (\<lambda>rows. rows @ [row]) t \<Longrightarrow> txDB t = db \<Longrightarrow>
    db' = txDB (pushOp (loggedOp e tripID actorID OpAttachmentAdd (atID row) (maskFor OpAttachmentAdd []) p t1) t1) \<Longrightarrow>
    rowStep e strict db db'"
| reserved: "addedRow e (draftUpload e tripID userID inp) db row \<Longrightarrow> db' = attachmentTable (\<lambda>rows. rows @ [row]) db \<Longrightarrow> rowStep e strict db db'"
| confirmed: "liveRow i db row \<Longrightarrow> isPending row \<Longrightarrow> atTripID row = tripID \<Longrightarrow> sint n \<le> MaxAttachmentBytes \<Longrightarrow>
    attachmentChecks (setConfirmed e n [] (eNow e) row) = Inr () \<Longrightarrow>
    AttachmentPayload (eText e) (setConfirmed e n [] (eNow e) row) (maskFor OpAttachmentAdd []) = Inr p \<Longrightarrow>
    t1 = onTable (updRow atID i (setConfirmed e n [] (eNow e))) t \<Longrightarrow> txDB t = db \<Longrightarrow>
    db' = txDB (pushOp (loggedOp e tripID actorID OpAttachmentAdd i (maskFor OpAttachmentAdd []) p t1) t1) \<Longrightarrow>
    rowStep e strict db db'"
| rejected: "liveRow i db row \<Longrightarrow> isPending row \<Longrightarrow> attachmentChecks (setFailed e (eNow e) row) = Inr () \<Longrightarrow>
    db' = attachmentTable (updRow atID i (setFailed e (eNow e))) db \<Longrightarrow> rowStep e strict db db'"
| forgotten: "liveRow i db row \<Longrightarrow> (strict \<Longrightarrow> isPending row) \<Longrightarrow> db' = attachmentTable (updRow atID i (setAttachmentDeleted e (eNow e))) db \<Longrightarrow> rowStep e strict db db'"
| removed: "liveRow i db row \<Longrightarrow> \<not> isPending row \<Longrightarrow> (strict \<Longrightarrow> IsReady row) \<Longrightarrow> atTripID row = tripID \<Longrightarrow>
    AttachmentPayload (eText e) (attachmentTombstone e row) (maskFor OpAttachmentRemove [FieldDeletedAt]) = Inr p \<Longrightarrow>
    t1 = onTable (updRow atID i (setAttachmentDeleted e (eNow e))) t \<Longrightarrow> txDB t = db \<Longrightarrow>
    db' = txDB (pushOp (loggedOp e tripID actorID OpAttachmentRemove i (maskFor OpAttachmentRemove [FieldDeletedAt]) p t1) t1) \<Longrightarrow>
    rowStep e strict db db'"

lemma ack_cases: "ack r = (res, db', ops) \<Longrightarrow> \<exists>res'. r = (res', db', ops) \<and> (isOk res = isOk res')"
  by (cases r; cases "fst r") (auto simp: ack_def)

lemma isFileOf_liveRow: "isFileOf i db P \<Longrightarrow> liveRow i db row \<Longrightarrow> P row"
  by (simp add: isFileOf_def liveRow_def)

lemma commit_step:
  assumes "runCommit e c db = (res, db', ops)" "established c db"
    and strict: "strict \<Longrightarrow> announcedOnly c db \<and> (\<forall>a \<in> set (dbAttachments db). AttachmentStatus_Valid (atStatus a))"
  shows "db' = db \<or> rowStep e strict db db'"
proof (cases c)
  case (Linked tripID actorID inp)
  then obtain r where "oplog_write tripID (createLinkBody e tripID actorID inp) db = (r, db', ops)"
    using assms(1) by (auto simp: runCommit_def dest: ack_cases)
  then show ?thesis
  proof (cases rule: write_cases)
    case (committed x t)
    from createLinkBody_Inr [OF committed(2)] obtain p t1
      where p: "addedRow e (draftLink e tripID actorID inp) db x"
        "AttachmentPayload (eText e) x (maskFor OpAttachmentAdd []) = Inr p"
        "t1 = onTable (\<lambda>rows. rows @ [x]) \<lparr>txDB = db, txOps = []\<rparr>"
        "t = pushOp (loggedOp e tripID actorID OpAttachmentAdd (atID x) (maskFor OpAttachmentAdd []) p t1) t1" by auto
    show ?thesis by (rule disjI2, rule rowStep.linked [OF p(1-3)]) (simp_all only: committed(3) p(4) Tx.simps)
  qed simp
next
  case (Reserved tripID userID inp)
  then show ?thesis using assms(1)
    by (auto simp: runCommit_def single_def split: sum.splits prod.splits dest!: reserveUpload_Inr intro: rowStep.reserved)
next
  case (Confirmed tripID actorID i n)
  then have est: "sint n \<le> MaxAttachmentBytes" "isFileOf i db (\<lambda>r. atTripID r = tripID)"
    using assms(2) by (simp_all add: established_def)
  obtain r where "oplog_write tripID (confirmBody e tripID actorID i n) db = (r, db', ops)"
    using assms(1) Confirmed by (auto simp: runCommit_def dest: ack_cases)
  then show ?thesis
  proof (cases rule: write_cases)
    case (committed x t)
    from confirmBody_Inr [OF committed(2)] obtain row p t1
      where "liveRow i db row" "isPending row" "attachmentChecks x = Inr ()" "x = setConfirmed e n [] (eNow e) row"
        "AttachmentPayload (eText e) x (maskFor OpAttachmentAdd []) = Inr p"
        "t1 = onTable (updRow atID i (setConfirmed e n [] (eNow e))) \<lparr>txDB = db, txOps = []\<rparr>"
        "t = pushOp (loggedOp e tripID actorID OpAttachmentAdd i (maskFor OpAttachmentAdd []) p t1) t1" by auto
    note c = this
    have trip: "atTripID row = tripID" by (rule isFileOf_liveRow [OF est(2) c(1)])
    show ?thesis
      by (rule disjI2, rule rowStep.confirmed [OF c(1,2) trip est(1) c(3) [unfolded c(4)] c(5) [unfolded c(4)] c(6)])
        (simp_all only: committed(3) c(7) Tx.simps)
  qed simp
next
  case (Rejected i)
  then show ?thesis using assms(1)
    by (auto simp: runCommit_def single_def attachment_writes_Inr updateAttachment_Inr liveRow_def
        split: sum.splits prod.splits intro: rowStep.rejected)
next
  case (Removed tripID actorID i)
  then have "oplog_write tripID (deleteAttachmentBody e tripID actorID i) db = (res, db', ops)"
    using assms(1) by (simp add: runCommit_def)
  then show ?thesis
  proof (cases rule: write_cases)
    case (committed x t)
    from deleteAttachmentBody_Inr [OF committed(2)] obtain row t1
      where r: "liveRow i db row" "atTripID row = tripID"
        "t1 = onTable (updRow atID i (setAttachmentDeleted e (eNow e))) \<lparr>txDB = db, txOps = []\<rparr>"
        and d: "isPending row \<and> t = t1 \<or> \<not> isPending row \<and>
          (\<exists>p. AttachmentPayload (eText e) (attachmentTombstone e row) (maskFor OpAttachmentRemove [FieldDeletedAt]) = Inr p \<and>
             t = pushOp (loggedOp e tripID actorID OpAttachmentRemove i (maskFor OpAttachmentRemove [FieldDeletedAt]) p t1) t1)"
      by auto
    from d show ?thesis
    proof (elim disjE exE conjE)
      assume "isPending row" "t = t1"
      then show ?thesis using rowStep.forgotten [OF r(1) _ refl, of strict e] committed(3) r(3) by simp
    next
      have ready: "IsReady row" if "\<not> isPending row" strict
        using strict [OF that(2)] that(1) r(1) Removed findRow_key [of atID i "dbAttachments db" row]
        by (auto simp: announcedOnly_def liveRow_def isPending_def IsReady_def AttachmentStatus_Valid_def)
      fix p assume p: "\<not> isPending row"
        "AttachmentPayload (eText e) (attachmentTombstone e row) (maskFor OpAttachmentRemove [FieldDeletedAt]) = Inr p"
        "t = pushOp (loggedOp e tripID actorID OpAttachmentRemove i (maskFor OpAttachmentRemove [FieldDeletedAt]) p t1) t1"
      show ?thesis by (rule disjI2, rule rowStep.removed [OF r(1) p(1) ready r(2) p(2) r(3)]) (simp_all only: committed(3) p Tx.simps not_False_eq_True)
    qed
  qed simp
next
  case (Swept i)
  then show ?thesis using assms(1) strict
    by (auto simp: runCommit_def single_def attachment_writes_Inr updateAttachment_Inr liveRow_def announcedOnly_def
        split: sum.splits prod.splits intro: rowStep.forgotten)
qed

lemma rowStep_relational: "rowStep e strict db db' \<Longrightarrow> relational db \<Longrightarrow> relational db'"
  by (auto elim!: rowStep.cases simp: pushOp_def relational_def anchored_def slotInTrip_def attachmentTable_def)

lemma stored_invariant:
  assumes "stored okEnv okCommit db"
    and start: "\<And>db. emptyPlan db \<Longrightarrow> dbAttachments db = [] \<Longrightarrow> P db"
    and admin: "\<And>db ts ms is. P db \<Longrightarrow> P (db\<lparr>dbTrips := ts, dbMembers := ms, dbInvitations := is\<rparr>)"
    and plan: "\<And>e tripID actorID t t'. okEnv e \<Longrightarrow> relational (txDB t) \<Longrightarrow> planStep e tripID actorID t t' \<Longrightarrow>
      P (txDB t) \<Longrightarrow> P (txDB t')"
    and attach: "\<And>e c res db db' ops. okEnv e \<Longrightarrow> established c db \<Longrightarrow> okCommit c db \<Longrightarrow>
      runCommit e c db = (res, db', ops) \<Longrightarrow> rowStep e False db db' \<Longrightarrow> relational db \<Longrightarrow> P db \<Longrightarrow> P db'"
  shows "relational db \<and> P db"
  using assms(1)
proof (induction rule: stored.induct)
  case (planned db e tripID userID req res db' ops)
  then show ?case
    using serve_invariant [OF planned.hyps(3), of P] serve_relational [OF planned.hyps(3)] plan [OF planned.hyps(2)] by blast
next
  case (attached db e c res db' ops)
  then show ?case using commit_step [OF attached.hyps(5,3), of False] rowStep_relational attach by blast
qed (use start admin in \<open>auto simp: relational_def anchored_def emptyPlan_def slotInTrip_def\<close>)

section \<open>The table stays valid\<close>

definition objectKeys :: "Attachment list \<Rightarrow> str list" where
  "objectKeys rows = filter (\<lambda>k. k \<noteq> []) (map atStorageKey rows)"

definition attachmentsValid :: "DB \<Rightarrow> bool" where
  "attachmentsValid db \<longleftrightarrow> distinct (map atID (dbAttachments db)) \<and> distinct (objectKeys (dbAttachments db)) \<and>
     (\<forall>a \<in> set (dbAttachments db). Attachment_Validate a = Inr ())"

text \<open>The rows after a commit: one more, or the live row with an identifier changed by one of the three
  statements.\<close>

definition stageChange :: "Env \<Rightarrow> (Attachment \<Rightarrow> Attachment) \<Rightarrow> Attachment \<Rightarrow> bool" where
  "stageChange e f row \<longleftrightarrow>
     (\<exists>n. f = setConfirmed e n [] (eNow e) \<and> isPending row \<and> sint n \<le> MaxAttachmentBytes \<and> attachmentChecks (f row) = Inr ()) \<or>
     f = setFailed e (eNow e) \<and> isPending row \<or> f = setAttachmentDeleted e (eNow e)"

lemma rowStep_rows:
  assumes "rowStep e strict db db'"
  obtains (added) a row where "addedRow e a db row" "dbAttachments db' = dbAttachments db @ [row]"
  | (changed) i row f where "liveRow i db row" "stageChange e f row" "dbAttachments db' = updRow atID i f (dbAttachments db)"
  using assms
proof (cases rule: rowStep.cases)
  case (linked tripID actorID inp row p t1 t)
  then show ?thesis using added by (auto simp: pushOp_def)
next
  case (reserved tripID userID inp row)
  then show ?thesis using added by auto
next
  case (confirmed i row tripID n p t1 t actorID)
  then show ?thesis using changed [of i row "setConfirmed e n [] (eNow e)"] by (auto simp: pushOp_def stageChange_def)
next
  case (rejected i row)
  then show ?thesis using changed [of i row "setFailed e (eNow e)"] by (auto simp: stageChange_def)
next
  case (forgotten i row)
  then show ?thesis using changed [of i row "setAttachmentDeleted e (eNow e)"] by (auto simp: stageChange_def)
next
  case (removed i row tripID p t1 t actorID)
  then show ?thesis using changed [of i row "setAttachmentDeleted e (eNow e)"] by (auto simp: pushOp_def stageChange_def)
qed

lemmas stage_defs = setConfirmed_def setFailed_def setAttachmentDeleted_def

lemma stageChange_keeps:
  assumes "stageChange e f row"
  shows "atID (f r) = atID r \<and> atStorageKey (f r) = atStorageKey r"
  using assms by (auto simp: stageChange_def stage_defs)

definition immutablePart where
  "immutablePart a = (atID a, atTripID a, atSlotOptionID a, atBudgetEntryID a, atSlotID a, atKind a, atStorageKey a,
     atExternalURL a, atContentType a, atOriginalName a, atUploadedBy a, atCreatedAt a)"

lemma stage_simps [simp]:
  "immutablePart (setConfirmed e n c ts r) = immutablePart r" "immutablePart (setFailed e ts r) = immutablePart r"
  "immutablePart (setAttachmentDeleted e ts r) = immutablePart r"
  by (simp_all add: immutablePart_def stage_defs)

lemma valid_stage:
  assumes "immutablePart b = immutablePart a" "Attachment_Validate a = Inr ()"
    and "atKind a = AttachmentKindFile \<or> atStatus b = atStatus a" "AttachmentStatus_Valid (atStatus b)"
    and "\<not> negativeAmount (atSizeBytes b)" "\<not> tooLarge (atSizeBytes b)" "length (atChecksumSHA256 b) \<in> {0, 32}"
  shows "Attachment_Validate b = Inr ()"
  using assms by (auto simp: Attachment_Validate_iff immutablePart_def OwnerCount_def)

lemma stageChange_valid:
  assumes "stageChange e f row" "Attachment_Validate row = Inr ()"
  shows "Attachment_Validate (f row) = Inr ()"
proof -
  have kind: "isPending row \<Longrightarrow> atKind row = AttachmentKindFile"
    using assms(2) by (auto simp: Attachment_Validate_iff isPending_def)
  have row: "AttachmentStatus_Valid (atStatus row)" "\<not> negativeAmount (atSizeBytes row)" "\<not> tooLarge (atSizeBytes row)"
      "length (atChecksumSHA256 row) \<in> {0, 32}"
    using assms(2) unfolding Attachment_Validate_iff by blast+
  show ?thesis
    using assms(1) unfolding stageChange_def
  proof (elim disjE exE conjE)
    fix n assume n: "f = setConfirmed e n [] (eNow e)" "isPending row" "sint n \<le> MaxAttachmentBytes" "attachmentChecks (f row) = Inr ()"
    then have "\<not> negativeAmount (Some n)" by (simp add: attachmentChecks_def setConfirmed_def split: if_splits)
    then show ?thesis using n kind
      by (intro valid_stage [OF _ assms(2)]) (simp_all add: setConfirmed_def immutablePart_def AttachmentStatus_Valid_def tooLarge_def)
  next
    assume "f = setFailed e (eNow e)" "isPending row"
    then show ?thesis using kind row
      by (intro valid_stage [OF _ assms(2)]) (simp_all add: setFailed_def immutablePart_def AttachmentStatus_Valid_def)
  next
    assume "f = setAttachmentDeleted e (eNow e)"
    then show ?thesis using row
      by (intro valid_stage [OF _ assms(2)]) (simp_all add: setAttachmentDeleted_def immutablePart_def)
  qed
qed

lemma addedRow_valid: "addedRow e a db row \<Longrightarrow> Attachment_Validate row = Inr ()"
  by (auto simp: addedRow_def Attachment_Validate_iff newAttachmentRow_def OwnerCount_def tooLarge_def negativeAmount_def)

lemma addedRow_key: "addedRow e a db row \<Longrightarrow> atStorageKey row \<noteq> [] \<Longrightarrow> atStorageKey row \<notin> atStorageKey ` set (dbAttachments db)"
  by (auto simp: addedRow_def attachmentRefs_def list_ex_iff split: if_splits)

lemma updRow_in: "x \<in> set (updRow key i f rows) \<Longrightarrow> x \<in> set rows \<or> (\<exists>r \<in> set rows. key r = i \<and> x = f r)"
  by (auto simp: updRow_def split: if_splits)

lemma liveRow_only:
  assumes "liveRow i db row" "distinct (map atID (dbAttachments db))" "r \<in> set (dbAttachments db)" "atID r = i"
  shows "r = row"
  using assms findRow_key [of atID i "dbAttachments db" row] by (auto simp: liveRow_def dest: row_unique)

lemma rowStep_valid:
  assumes "rowStep e strict db db'" "attachmentsValid db"
  shows "attachmentsValid db'"
  using assms(1)
proof (cases rule: rowStep_rows)
  case (added a row)
  then show ?thesis
    using assms(2) addedRow_valid [OF added(1)] addedRow_key [OF added(1)]
    by (auto simp: attachmentsValid_def objectKeys_def addedRow_def findRow_None)
next
  case (changed i row f)
  note keeps = stageChange_keeps [OF changed(2)]
  have d: "distinct (map atID (dbAttachments db))" using assms(2) by (simp add: attachmentsValid_def)
  have "Attachment_Validate x = Inr ()" if "x \<in> set (dbAttachments db')" for x
    using updRow_in [OF that [unfolded changed(3)]]
  proof (elim disjE bexE conjE)
    fix r assume r: "r \<in> set (dbAttachments db)" "atID r = i" "x = f r"
    then have "r = row" using liveRow_only [OF changed(1) d] by blast
    then show ?thesis using stageChange_valid [OF changed(2)] assms(2) r by (simp add: attachmentsValid_def)
  qed (use assms(2) in \<open>simp add: attachmentsValid_def\<close>)
  moreover have "map atID (dbAttachments db') = map atID (dbAttachments db)"
    using changed(3) keeps by (simp add: map_key_updRow)
  moreover have "map atStorageKey (dbAttachments db') = map atStorageKey (dbAttachments db)"
    using changed(3) keeps by (simp add: updRow_def)
  ultimately show ?thesis using assms(2) by (simp add: attachmentsValid_def objectKeys_def)
qed

lemma stored_valid: "stored okEnv okCommit db \<Longrightarrow> relational db \<and> attachmentsValid db"
  by (erule stored_invariant)
    (auto simp: attachmentsValid_def objectKeys_def plan_attachments dest: rowStep_valid [unfolded attachmentsValid_def objectKeys_def])

section \<open>The stages of a row\<close>

text \<open>What one commit may do to a row.\<close>

definition lifeStep :: "Attachment \<Rightarrow> Attachment \<Rightarrow> bool" where
  "lifeStep a b \<longleftrightarrow> immutablePart b = immutablePart a \<and>
     (b = a \<or>
      atDeletedAt a = None \<and>
       (if atDeletedAt b \<noteq> None then atStatus b = atStatus a \<and> atSizeBytes b = atSizeBytes a
        else isPending a \<and> (atStatus b = AttachmentStatusFailed \<and> atSizeBytes b = atSizeBytes a \<or>
          IsReady b \<and> (case atSizeBytes b of None \<Rightarrow> False | Some n \<Rightarrow> 0 \<le> sint n \<and> sint n \<le> MaxAttachmentBytes))))"

lemma stageChange_life:
  assumes "stageChange e f row" "atDeletedAt row = None"
  shows "lifeStep row (f row)"
  using assms(1) unfolding stageChange_def
proof (elim disjE exE conjE)
  fix n assume n: "f = setConfirmed e n [] (eNow e)" "isPending row" "sint n \<le> MaxAttachmentBytes" "attachmentChecks (f row) = Inr ()"
  then have "\<not> negativeAmount (Some n)" by (simp add: attachmentChecks_def setConfirmed_def split: if_splits)
  then show ?thesis using n assms(2)
    by (simp add: lifeStep_def setConfirmed_def immutablePart_def IsReady_def negativeAmount_def not_less)
next
  assume "f = setFailed e (eNow e)" "isPending row"
  then show ?thesis using assms(2) by (simp add: lifeStep_def setFailed_def immutablePart_def)
next
  assume "f = setAttachmentDeleted e (eNow e)"
  then show ?thesis using assms(2) by (simp add: lifeStep_def setAttachmentDeleted_def immutablePart_def)
qed

lemma rowStep_life:
  assumes "rowStep e strict db db'" "attachmentsValid db" "a \<in> set (dbAttachments db)"
  shows "\<exists>b \<in> set (dbAttachments db'). lifeStep a b"
  using assms(1)
proof (cases rule: rowStep_rows)
  case (added x row)
  then show ?thesis using assms(3) by (intro bexI [of _ a]) (simp_all add: lifeStep_def)
next
  case (changed i row f)
  show ?thesis
  proof (cases "atID a = i")
    case True
    then have "a = row" using liveRow_only [OF changed(1)] assms by (simp add: attachmentsValid_def)
    then show ?thesis using changed assms(3) True stageChange_life
      by (intro bexI [of _ "f a"]) (auto simp: liveRow_def updRow_def)
  next
    case False
    then show ?thesis using changed(3) assms(3) by (intro bexI [of _ a]) (auto simp: lifeStep_def updRow_def)
  qed
qed

text \<open>What any later database may hold of a row: it never disappears, its description never changes, a
  verdict on an upload is final and a deleted row is never touched again.\<close>

definition ages :: "Attachment \<Rightarrow> Attachment \<Rightarrow> bool" where
  "ages a b \<longleftrightarrow> immutablePart b = immutablePart a \<and> (atDeletedAt a \<noteq> None \<longrightarrow> b = a) \<and>
     (\<not> isPending a \<longrightarrow> atStatus b = atStatus a \<and> atSizeBytes b = atSizeBytes a)"

lemma ages_refl [simp]: "ages a a"
  by (simp add: ages_def)

lemma ages_trans: "ages a b \<Longrightarrow> ages b c \<Longrightarrow> ages a c"
  by (auto simp: ages_def isPending_def)

lemma lifeStep_ages: "lifeStep a b \<Longrightarrow> ages a b"
  by (auto simp: lifeStep_def ages_def isPending_def split: if_splits)

inductive advance :: "(Env \<Rightarrow> bool) \<Rightarrow> (Commit \<Rightarrow> DB \<Rightarrow> bool) \<Rightarrow> DB \<Rightarrow> DB \<Rightarrow> bool" for okEnv okCommit where
  "advance okEnv okCommit db (db\<lparr>dbTrips := ts, dbMembers := ms, dbInvitations := is\<rparr>)"
| "okEnv e \<Longrightarrow> serve e tripID userID req db = (res, db', ops) \<Longrightarrow> advance okEnv okCommit db db'"
| "okEnv e \<Longrightarrow> established c db \<Longrightarrow> okCommit c db \<Longrightarrow> runCommit e c db = (res, db', ops) \<Longrightarrow> advance okEnv okCommit db db'"

lemma advance_stored: "advance okEnv okCommit db db' \<Longrightarrow> stored okEnv okCommit db \<Longrightarrow> stored okEnv okCommit db'"
  by (auto elim!: advance.cases intro: stored.intros)

lemma advance_ages:
  assumes "advance okEnv okCommit db db'" "stored okEnv okCommit db" "a \<in> set (dbAttachments db)"
  shows "\<exists>b \<in> set (dbAttachments db'). ages a b"
  using assms(1)
proof (cases rule: advance.cases)
  case (2 e tripID userID req res ops)
  have rel: "relational db" using stored_valid [OF assms(2)] by simp
  have "dbAttachments db' = dbAttachments db"
    by (rule serve_invariant [OF 2(2) rel]) (simp_all add: plan_attachments)
  then show ?thesis using assms(3) by (intro bexI [of _ a]) simp_all
next
  case (3 e c res ops)
  then consider "db' = db" | "rowStep e False db db'" using commit_step [OF 3(4) 3(2), of False] by blast
  then show ?thesis
  proof cases
    case 2
    then show ?thesis using rowStep_life [OF _ _ assms(3)] stored_valid [OF assms(2)] lifeStep_ages by blast
  qed (use assms(3) ages_refl in blast)
qed (use assms(3) in \<open>intro bexI [of _ a], simp_all\<close>)

section \<open>The services commit nothing else\<close>

datatype AttachmentRequest =
    CreateLink CreateLinkInput
  | RequestUpload RequestUploadInput
  | ConfirmUpload ID
  | DeleteAttachment ID
  | SweepUploads nat

definition serveAttachment :: "FileStorage \<Rightarrow> Env \<Rightarrow> ID \<Rightarrow> ID \<Rightarrow> AttachmentRequest \<Rightarrow> DB \<Rightarrow> unit reply" where
  "serveAttachment fs e tripID userID req db = (case req of
       CreateLink inp \<Rightarrow> ack (AttachmentService_CreateLink e tripID userID inp db)
     | RequestUpload inp \<Rightarrow> ack (AttachmentService_RequestUpload fs e tripID userID inp db)
     | ConfirmUpload i \<Rightarrow> ack (AttachmentService_ConfirmUpload fs e tripID userID i db)
     | DeleteAttachment i \<Rightarrow> AttachmentService_Delete e tripID userID i db
     | SweepUploads n \<Rightarrow>
         (case SweepAbandonedUploads fs e n db of
            (Some err, _, db') \<Rightarrow> (Inl err, db', [])
          | (None, _, db') \<Rightarrow> (Inr (), db', [])))"

abbreviation "anyCommit \<equiv> \<lambda>(_::Commit) (_::DB). True"

lemma commit_advance:
  "okEnv e \<Longrightarrow> established c db \<Longrightarrow> runCommit e c db = (res, db', ops) \<Longrightarrow> (advance okEnv anyCommit)\<^sup>*\<^sup>* db db'"
  by (blast intro: advance.intros r_into_rtranclp)

lemma guarded_cases:
  assumes "guarded r k db = (res, db', ops)"
  obtains (refused) err where "r = Inl err" "res = Inl err" "db' = db" | (passed) x where "r = Inr x" "k x db = (res, db', ops)"
  using assms by (cases r) (auto simp: guarded_def)

lemma getInTrip_file:
  "AttachmentService_getInTrip tripID i db = Inr a \<Longrightarrow> atKind a = AttachmentKindFile \<Longrightarrow>
     isFileOf i db (\<lambda>r. atTripID r = tripID) \<and> isFileOf i db (\<lambda>_. True) \<and> atID a = i"
  by (auto simp: AttachmentService_getInTrip_def AttachmentRepository_GetByID_Inr sum_cases checkTrip_def isFileOf_def
      split: if_splits dest: findRow_key)

lemma link_advance:
  assumes "okEnv e" "AttachmentService_CreateLink e tripID userID inp db = (res, db', ops)"
  shows "(advance okEnv anyCommit)\<^sup>*\<^sup>* db db'"
  using assms(2) unfolding AttachmentService_CreateLink_def
proof (cases rule: guarded_cases)
  case (passed a)
  then have "runCommit e (Linked tripID (aUserID a) inp) db = (fst (ack (res, db', ops)), db', ops)"
    by (simp add: runCommit_def ack_def)
  then show ?thesis by (rule commit_advance [where okEnv = okEnv and e = e and c = "Linked tripID (aUserID a) inp", OF assms(1), rotated]) (simp add: established_def)
qed simp

lemma upload_advance:
  assumes "okEnv e" "AttachmentService_RequestUpload fs e tripID userID inp db = (res, db', ops)"
  shows "(advance okEnv anyCommit)\<^sup>*\<^sup>* db db'"
proof (cases "reserveUpload e tripID userID inp db")
  case (Inr r)
  obtain row d where r: "r = (row, d)" by (cases r)
  have "db' = d" using assms(2) Inr r by (auto simp: AttachmentService_RequestUpload_def split: sum.splits)
  then have "runCommit e (Reserved tripID userID inp) db = (Inr (), db', [])"
    using Inr r by (simp add: runCommit_def single_def)
  then show ?thesis by (rule commit_advance [where okEnv = okEnv and e = e and c = "Reserved tripID userID inp", OF assms(1), rotated]) (simp add: established_def)
qed (use assms(2) in \<open>simp add: AttachmentService_RequestUpload_def\<close>)

lemma delete_advance:
  assumes "okEnv e" "AttachmentService_Delete e tripID userID i db = (res, db', ops)"
  shows "(advance okEnv anyCommit)\<^sup>*\<^sup>* db db'"
  using assms(2) unfolding AttachmentService_Delete_def
proof (cases rule: guarded_cases)
  case (passed a)
  then have "runCommit e (Removed tripID (aUserID a) i) db = (res, db', ops)" by (simp add: runCommit_def)
  then show ?thesis by (rule commit_advance [where okEnv = okEnv and e = e and c = "Removed tripID (aUserID a) i", OF assms(1), rotated]) (simp add: established_def)
qed simp

lemma confirm_advance:
  assumes "okEnv e" "AttachmentService_ConfirmUpload fs e tripID userID i db = (res, db', ops)"
  shows "(advance okEnv anyCommit)\<^sup>*\<^sup>* db db'"
  using assms(2) unfolding AttachmentService_ConfirmUpload_def
proof (cases rule: guarded_cases)
  case (passed a)
  note auth = passed
  from auth(2) show ?thesis
  proof (cases rule: guarded_cases)
    case (passed x)
    note run = passed(2)
    show ?thesis
    proof (cases "atKind x = AttachmentKindFile \<and> \<not> IsReady x \<and> isOk (fsStat fs (atStorageKey x))")
      case True
      then obtain info where n: "fsStat fs (atStorageKey x) = Inr info" by (cases "fsStat fs (atStorageKey x)") auto
      note kind = getInTrip_file [OF passed(1)]
      show ?thesis
      proof (cases "sint (fiSizeBytes info) > MaxAttachmentBytes")
        case big: True
        then have "\<exists>r. rejectUpload e x db = (r, db', ops)"
          using run True n by (auto split: prod.splits sum.splits)
        then have "\<exists>r. runCommit e (Rejected i) db = (r, db', ops)"
          using kind True by (auto simp: runCommit_def rejectUpload_def single_def split: sum.splits)
        then show ?thesis using commit_advance [where okEnv = okEnv and e = e and c = "Rejected i", OF assms(1)] kind True by (auto simp: established_def)
      next
        case False
        then have "oplog_write tripID (confirmBody e tripID (aUserID a) i (fiSizeBytes info)) db = (res, db', ops)"
          using run True n by simp
        then have "runCommit e (Confirmed tripID (aUserID a) i (fiSizeBytes info)) db = (fst (ack (res, db', ops)), db', ops)"
          by (simp add: runCommit_def ack_def)
        then show ?thesis using False kind True
          by (intro commit_advance [where okEnv = okEnv and e = e and c = "Confirmed tripID (aUserID a) i (fiSizeBytes info)", OF assms(1)]) (simp_all add: established_def)
      qed
    qed (use run in \<open>auto simp: guarded_def split: if_splits sum.splits\<close>)
  qed simp
qed simp

lemma isFileOf_mem:
  assumes "attachmentsValid db" "b \<in> set (dbAttachments db)" "atKind b = AttachmentKindFile"
  shows "isFileOf (atID b) db (\<lambda>_. True)"
  using findRow_mem [of atID "dbAttachments db" b] assms by (simp add: isFileOf_def attachmentsValid_def)

lemma isFileOf_advance:
  assumes "advance okEnv anyCommit db db'" "stored okEnv anyCommit db" "isFileOf i db (\<lambda>_. True)"
  shows "isFileOf i db' (\<lambda>_. True)"
proof -
  obtain r where r: "findRow atID i (dbAttachments db) = Some r" "atKind r = AttachmentKindFile"
    using assms(3) by (auto simp: isFileOf_def split: option.splits)
  obtain b where b: "b \<in> set (dbAttachments db')" "ages r b"
    using advance_ages [OF assms(1,2)] findRow_key [OF r(1)] by blast
  have "attachmentsValid db'" using stored_valid [OF advance_stored [OF assms(1,2)]] by simp
  then show ?thesis using isFileOf_mem [OF _ b(1)] b(2) r findRow_key [OF r(1)] by (simp add: ages_def immutablePart_def)
qed

lemma sweep_advance:
  assumes "okEnv e" "stored okEnv anyCommit db" "\<forall>a \<in> set stale. isFileOf (atID a) db (\<lambda>_. True)"
    and "sweepRows fs e stale k db = (err, n, db')"
  shows "(advance okEnv anyCommit)\<^sup>*\<^sup>* db db'"
  using assms(2-4)
proof (induction stale arbitrary: k db)
  case (Cons a stale)
  show ?case
  proof (cases "fsDelete fs (atStorageKey a)")
    case None
    show ?thesis
    proof (cases "AttachmentRepository_SoftDelete e (atID a) (eNow e) db")
      case (Inr r)
      obtain row d where r: "r = (row, d)" by (cases r)
      have est: "established (Swept (atID a)) db" using Cons.prems(2) by (simp add: established_def)
      have step: "advance okEnv anyCommit db d"
        using advance.intros(3) [where okEnv = okEnv and e = e and okCommit = anyCommit and res = "Inr ()" and ops = "[]" and db' = d, OF assms(1) est] Inr r by (simp add: runCommit_def single_def)
      have "(advance okEnv anyCommit)\<^sup>*\<^sup>* d db'"
        using Cons.IH [OF advance_stored [OF step Cons.prems(1)]] Cons.prems(2,3) None Inr r
          isFileOf_advance [OF step Cons.prems(1)] by simp
      then show ?thesis using step by (rule converse_rtranclp_into_rtranclp [rotated])
    qed (use Cons.prems(3) None in simp)
  qed (use Cons.IH [OF Cons.prems(1)] Cons.prems(2,3) in simp)
qed simp

lemma requests_advance:
  assumes "stored okEnv anyCommit db" "okEnv e" "serveAttachment fs e tripID userID req db = (res, db', ops)"
  shows "(advance okEnv anyCommit)\<^sup>*\<^sup>* db db'"
proof (cases req)
  case (CreateLink inp)
  then have "\<exists>r. AttachmentService_CreateLink e tripID userID inp db = (r, db', ops)"
    using assms(3) by (auto simp: serveAttachment_def dest: ack_cases)
  then show ?thesis using link_advance [where okEnv = okEnv and e = e, OF assms(2)] by blast
next
  case (RequestUpload inp)
  then have "\<exists>r. AttachmentService_RequestUpload fs e tripID userID inp db = (r, db', ops)"
    using assms(3) by (auto simp: serveAttachment_def dest: ack_cases)
  then show ?thesis using upload_advance [where okEnv = okEnv and e = e, OF assms(2)] by blast
next
  case (ConfirmUpload i)
  then have "\<exists>r. AttachmentService_ConfirmUpload fs e tripID userID i db = (r, db', ops)"
    using assms(3) by (auto simp: serveAttachment_def dest: ack_cases)
  then show ?thesis using confirm_advance [where okEnv = okEnv and e = e, OF assms(2)] by blast
next
  case (DeleteAttachment i)
  then show ?thesis using assms(3) delete_advance [where okEnv = okEnv and e = e, OF assms(2)] by (simp add: serveAttachment_def)
next
  case (SweepUploads n)
  have valid: "attachmentsValid db" using stored_valid [OF assms(1)] by simp
  have "isFileOf (atID a) db (\<lambda>_. True)" if "a \<in> set (AttachmentRepository_ListStalePending before n db)" for a before
  proof -
    have a: "a \<in> set (dbAttachments db)" "isPending a"
      using that by (auto simp: AttachmentRepository_ListStalePending_def ListStalePendingAttachments_def dest!: in_set_takeD)
    then have "Attachment_Validate a = Inr ()" using valid by (simp add: attachmentsValid_def)
    then have "atKind a = AttachmentKindFile" using a(2) by (auto simp: Attachment_Validate_iff isPending_def)
    then show ?thesis by (rule isFileOf_mem [OF valid a(1)])
  qed
  moreover obtain err k where "SweepAbandonedUploads fs e n db = (err, k, db')"
    using assms(3) SweepUploads by (auto simp: serveAttachment_def split: prod.splits option.splits)
  ultimately show ?thesis using sweep_advance [where okEnv = okEnv and e = e and stale = "AttachmentRepository_ListStalePending (eNow e - abandonedUploadAge) n db", OF assms(2,1)]
    by (simp add: SweepAbandonedUploads_def)
qed

end
