(* ===== verification/AttachmentMirror.thy ===== *)
theory AttachmentMirror
  imports AttachmentLife
begin

text \<open>The log and the attachments. A link is announced when it is created and a file when its upload is
  confirmed; what the fold of the log shows of a trip's attachments is then exactly its ready rows,
  deleted ones included. That needs the two habits of \<^theory_text>\<open>announcedOnly\<close>; without them the log and the
  table part, and the replicas that fold the log stop.\<close>

section \<open>What is announced\<close>

definition attachmentShown where "attachmentShown us ts a = (atID a, atTripID a, seen ts (AttachmentValues us a))"

definition announced :: "ID \<Rightarrow> DB \<Rightarrow> ID \<Rightarrow> Attachment option" where
  "announced T db i = (case findRow atID i (dbAttachments db) of
       None \<Rightarrow> None
     | Some r \<Rightarrow> if atTripID r = T \<and> IsReady r then Some r else None)"

definition showsAttachments :: "(ID \<Rightarrow> str) \<Rightarrow> (instant \<Rightarrow> instant) \<Rightarrow> ID \<Rightarrow> DB \<Rightarrow> Replica \<Rightarrow> bool" where
  "showsAttachments us ts T db r \<longleftrightarrow>
     shownTable (attachmentShown us ts) (rAttachments r) = shownTable (attachmentShown us (\<lambda>t. t)) (announced T db)"

lemma announced_push [simp]: "announced T (txDB (pushOp op t)) = announced T (txDB t)"
  by (simp add: announced_def [abs_def])

lemma databaseShown_push: "databaseShown us lost T (txDB (pushOp op t)) = databaseShown us lost T (txDB t)"
  by (simp add: pushOp_def databaseShown_def)

lemma announced_append:
  assumes "findRow atID (atID row) (dbAttachments db) = None"
  shows "announced T (attachmentTable (\<lambda>rows. rows @ [row]) db) =
    (if atTripID row = T \<and> IsReady row then (announced T db)(atID row \<mapsto> row) else announced T db)"
  using assms by (auto simp: announced_def fun_eq_iff split: option.splits)

lemma announced_update:
  assumes "findRow atID i (dbAttachments db) = Some row" "\<And>r. atID (f r) = atID r" "atTripID (f row) = atTripID row"
  shows "announced T (attachmentTable (updRow atID i f) db) =
    (announced T db)(i := if atTripID row = T \<and> IsReady (f row) then Some (f row) else None)"
  using assms by (auto simp: announced_def fun_eq_iff findRow_updRow split: option.splits)

lemma attachment_applied:
  assumes "opSeq op = rSeq r + 1" "OpKind_Entity (opKind op) = ''attachment''" "opPayload op = Some p" "AttachmentPayload us y msk = Inr p"
    and "uuidText us up" "rAttachments r (opEntityID op) \<noteq> None \<or> opKind op = OpAttachmentAdd"
    and old: "old = (case rAttachments r (opEntityID op) of Some a \<Rightarrow> a
      | None \<Rightarrow> zeroAttachment\<lparr>atID := opEntityID op, atTripID := opTripID op\<rparr>)"
  shows "\<exists>x. Apply up op r = (None, r\<lparr>rSeq := opSeq op, rAttachments := (rAttachments r)(opEntityID op \<mapsto> x)\<rparr>) \<and>
    attachmentShown us ts x = (atID old, atTripID old, seen ts (AttachmentValues us old) ++ (seen ts (AttachmentValues us y) |` set msk))"
proof -
  have p: "pFields p = AttachmentValues us y |` set msk"
    using assms(4) by (simp_all add: AttachmentPayload_def buildPayload_eq)
  obtain st q where run: "runSteps (attachmentSteps up (pFields p)) (old, [], None) = (None, (overlayAttachment (set msk) y old, st, q))"
    using attachmentSteps_overlay [of us up y "set msk" old] assms(5) p by auto
  have "applyEntity (rAttachments r (opEntityID op)) (opKind op = OpAttachmentAdd)
      (zeroAttachment\<lparr>atID := opEntityID op, atTripID := opTripID op\<rparr>) (attachmentSteps up (pFields p))
      (\<lambda>a. a) = (None, Some (overlayAttachment (set msk) y old))"
    using assms(6) run [unfolded old] by (simp add: applyEntity_ok old)
  moreover have "atID (overlayAttachment (set msk) y old) = atID old" "atTripID (overlayAttachment (set msk) y old) = atTripID old"
    by (simp_all add: overlayAttachment_def)
  ultimately show ?thesis using assms(1-3) overlayAttachment_regs
    by (intro exI [of _ "overlayAttachment (set msk) y old"])
      (simp add: Apply_def PayloadFields_def PayloadVersion_def applyAttachment_def attachmentShown_def)
qed

text \<open>A logged change of an attachment keeps the replica of its trip in step.\<close>

definition follows :: "(ID \<Rightarrow> str) \<Rightarrow> (instant \<Rightarrow> instant) \<Rightarrow> (str \<Rightarrow> ID option) \<Rightarrow> ID \<Rightarrow> DB \<Rightarrow> bool" where
  "follows us ts up T db \<longleftrightarrow> (\<exists>r. tracks us ts up T db r \<and> showsAttachments us ts T db r)"

lemma attachment_follows:
  assumes "follows us ts up T (txDB t)" "uuidText us up" "AttachmentPayload us y msk = Inr p" "OpKind_Entity kind = ''attachment''"
    and "t1 = onTable g t" "announced T (txDB t1) = (announced T (txDB t))(i \<mapsto> w)"
    and "announced T (txDB t) i = None \<Longrightarrow> kind = OpAttachmentAdd"
    and "attachmentShown us (\<lambda>t. t) w = (case announced T (txDB t) i of
        Some s \<Rightarrow> (atID s, atTripID s, AttachmentValues us s ++ (seen ts (AttachmentValues us y) |` set msk))
      | None \<Rightarrow> (i, T, AttachmentValues us zeroAttachment ++ (seen ts (AttachmentValues us y) |` set msk)))"
  shows "follows us ts up T (txDB (pushOp (loggedOp e T actorID kind i msk p t1) t1))"
proof -
  let ?op = "loggedOp e T actorID kind i msk p t1"
  obtain r where r: "tracks us ts up T (txDB t) r" "showsAttachments us ts T (txDB t) r" using assms(1) by (auto simp: follows_def)
  define old where "old = (case rAttachments r i of Some s \<Rightarrow> s | None \<Rightarrow> zeroAttachment\<lparr>atID := opEntityID ?op, atTripID := opTripID ?op\<rparr>)"
  have row: "map_option (attachmentShown us ts) (rAttachments r i) = map_option (attachmentShown us (\<lambda>t. t)) (announced T (txDB t) i)"
    using r(2) unfolding showsAttachments_def by (rule shown_row)
  have known: "rAttachments r i \<noteq> None \<or> kind = OpAttachmentAdd" using assms(7) row by (cases "announced T (txDB t) i") auto
  have seq: "opSeq ?op = rSeq r + 1" using r(1) assms(5) by (simp add: tracks_def)
  obtain x where x: "Apply up ?op r = (None, r\<lparr>rSeq := opSeq ?op, rAttachments := (rAttachments r)(i \<mapsto> x)\<rparr>)"
    "attachmentShown us ts x = (atID old, atTripID old, seen ts (AttachmentValues us old) ++ (seen ts (AttachmentValues us y) |` set msk))"
    using attachment_applied [OF seq _ _ assms(3,2) _ refl] assms(4) known by (auto simp: old_def)
  have "AttachmentValues us (zeroAttachment\<lparr>atID := opEntityID ?op, atTripID := opTripID ?op\<rparr>) = AttachmentValues us zeroAttachment" by (simp add: values_defs)
  then have "attachmentShown us ts x = attachmentShown us (\<lambda>t. t) w"
    using x(2) assms(8) row by (cases "announced T (txDB t) i") (auto simp: old_def attachmentShown_def)
  then have "showsAttachments us ts T (txDB t1) (r\<lparr>rSeq := opSeq ?op, rAttachments := (rAttachments r)(i \<mapsto> x)\<rparr>)"
    using r(2) assms(6) by (simp add: showsAttachments_def)
  moreover have "replicaShown us ts (confused T (txDB t)) (r\<lparr>rSeq := opSeq ?op, rAttachments := (rAttachments r)(i \<mapsto> x)\<rparr>) = databaseShown us (confused T (txDB t)) T (txDB t1)"
    using r(1) assms(5) by (simp add: tracks_def replicaShown_def)
  then have "tracks us ts up T (txDB (pushOp ?op t1)) (r\<lparr>rSeq := opSeq ?op, rAttachments := (rAttachments r)(i \<mapsto> x)\<rparr>)"
    using tracks_push [OF r(1) _ seq x(1), of t1] assms(4,5) by auto
  ultimately show ?thesis by (auto simp: follows_def showsAttachments_def)
qed

text \<open>A commit that announces nothing, and the other trips.\<close>

lemma quiet_follows:
  assumes "follows us ts up T db" "announced T (attachmentTable g db) = announced T db"
  shows "follows us ts up T (attachmentTable g db)"
  using assms by (auto simp: follows_def showsAttachments_def tracks_def tripLog_def confused_def)

lemma foreign_follows:
  assumes "follows us ts up T (txDB t)" "t1 = onTable g t" "announced T (txDB t1) = announced T (txDB t)" "opTripID op \<noteq> T"
  shows "follows us ts up T (txDB (pushOp op t1))"
  using assms confused_push [of T op t1] by (auto simp: follows_def showsAttachments_def tracks_def tripLog_def databaseShown_push confused_def)

section \<open>Every step\<close>

lemma Apply_attachments:
  assumes "Apply up op r = (err, r')" "OpKind_Entity (opKind op) \<noteq> ''attachment''"
  shows "rAttachments r' = rAttachments r"
  using assms
  by (auto simp: Apply_def applyDay_def applySlot_def applyOption_def applyVote_def applyBudget_def applyComment_def Let_def
      split: if_splits sum.splits prod.splits option.splits)

lemma plan_logs:
  assumes "planStep e tripID actorID t t'"
  shows "\<exists>op. dbOps (txDB t') = dbOps (txDB t) @ [op] \<and> OpKind_Entity (opKind op) \<noteq> ''attachment''"
  using assms
proof (cases rule: planStep.cases)
  case (entryCreated b inp row db' p t1)
  then have "dbOps db' = dbOps (txDB t)" using BudgetRepository_Save_Inr [OF entryCreated(3)] by auto
  then show ?thesis using entryCreated by (simp add: OpKind_Entity_def)
next
  case (entryUpdated i old b inp v row db' p t1)
  then have "dbOps db' = dbOps (txDB t)" using BudgetRepository_Save_Inr [OF entryUpdated(6)] by (auto split: if_splits)
  then show ?thesis using entryUpdated by (simp add: OpKind_Entity_def)
qed (auto simp: slotWrite_def dayWrite_def optionWrite_def slotTable_def dayTable_def optionTable_def
    voteTable_def commentTable_def budgetTable_def OpKind_Entity_def)

lemma plan_follows:
  assumes "planStep e T actorID t t'" "relational (txDB t)" "columnEnv us ts date e" "uuidText us up" "datesStored date (txDB t)"
    and "follows us ts up other (txDB t)"
  shows "follows us ts up other (txDB t')"
proof -
  obtain r where r: "tracks us ts up other (txDB t) r" "showsAttachments us ts other (txDB t) r" using assms(6) by (auto simp: follows_def)
  obtain op where op: "dbOps (txDB t') = dbOps (txDB t) @ [op]" "OpKind_Entity (opKind op) \<noteq> ''attachment''"
    using plan_logs [OF assms(1)] by blast
  obtain r' where r': "tracks us ts up other (txDB t') r'"
  proof (cases "other = T")
    case True
    then show ?thesis using that step_tracks [OF assms(1,2) _ assms(3,4,5)] r(1) by metis
  next
    case False
    have v: "tripView other (txDB t') = tripView other (txDB t)" by (rule step_foreign [OF assms(1,2) False])
    then show ?thesis using that r(1) tracks_view [OF v] by blast
  qed
  have "rAttachments r' = rAttachments r"
  proof (cases "opTripID op = other")
    case True
    then have "Apply up op r = (None, r')"
      using r(1) r' op(1) by (auto simp: tracks_def tripLog_def Fold_def foldFrom_append split: prod.splits option.splits)
    then show ?thesis by (rule Apply_attachments [OF _ op(2)])
  next
    case False
    then show ?thesis using r(1) r' op(1) by (simp add: tracks_def tripLog_def)
  qed
  then show ?thesis using r(2) r' plan_attachments [OF assms(1)]
    by (auto simp: follows_def showsAttachments_def announced_def [abs_def])
qed

lemma attachment_dom: "dom (AttachmentValues us a) = dom (AttachmentValues us b)"
  by (simp add: values_defs)

lemma add_overlay:
  assumes "atDeletedAt row = None"
  shows "AttachmentValues us row = AttachmentValues us zeroAttachment ++ (seen ts (AttachmentValues us row) |` set (maskFor OpAttachmentAdd []))"
  using assms by (intro overlay_values attachment_dom) (auto simp: mask_sets AttachmentValues_def zeroAttachment_def)

lemma remove_overlay:
  assumes "eTimestamp e = ts"
  shows "AttachmentValues us (setAttachmentDeleted e (eNow e) row) =
    AttachmentValues us row ++ (seen ts (AttachmentValues us (attachmentTombstone e row)) |` set (maskFor OpAttachmentRemove [FieldDeletedAt]))"
  using assms by (intro overlay_values attachment_dom)
    (auto simp: mask_sets AttachmentValues_def setAttachmentDeleted_def attachmentTombstone_def seen_time)

text \<open>An announcement: the row is of the operation's trip and was not announced before.\<close>

lemma added_follows:
  assumes "follows us ts up other (txDB t)" "columnEnv us ts date e" "uuidText us up"
    and "AttachmentPayload (eText e) row (maskFor OpAttachmentAdd []) = Inr p" "t1 = onTable g t" "atTripID row = T" "atID row = i" "atDeletedAt row = None"
    and "announced T (txDB t) i = None" "announced T (txDB t1) = (announced T (txDB t))(i \<mapsto> row)"
    and "other \<noteq> T \<Longrightarrow> announced other (txDB t1) = announced other (txDB t)"
  shows "follows us ts up other (txDB (pushOp (loggedOp e T actorID OpAttachmentAdd i (maskFor OpAttachmentAdd []) p t1) t1))"
proof (cases "other = T")
  case True
  have us: "eText e = us" using assms(2) by (simp add: columnEnv_def)
  show ?thesis unfolding True
    by (rule attachment_follows [OF assms(1) [unfolded True] assms(3) assms(4) [unfolded us] _ assms(5,10)])
      (use assms(6-9) add_overlay [OF assms(8), of us ts] in \<open>simp_all add: OpKind_Entity_def attachmentShown_def\<close>)
next
  case False
  show ?thesis by (rule foreign_follows [OF assms(1,5) assms(11) [OF False]]) (use False in simp)
qed

lemma rowStep_follows:
  assumes "rowStep e True db db'" "columnEnv us ts date e" "uuidText us up" "follows us ts up other db"
  shows "follows us ts up other db'"
  using assms(1)
proof (cases rule: rowStep.cases)
  case (linked T actorID inp row p t1 t)
  have row: "atTripID row = T" "atDeletedAt row = None" "IsReady row" "findRow atID (atID row) (dbAttachments db) = None"
    using linked(1) by (auto simp: addedRow_def newAttachmentRow_def draftLink_def owned_def IsReady_def)
  then have "announced T (txDB t) (atID row) = None" using linked(4) by (simp add: announced_def)
  then show ?thesis unfolding linked(5)
    using assms(4) row linked(3,4) announced_append [OF row(4)]
    by (intro added_follows [OF _ assms(2,3) linked(2,3)]) simp_all
next
  case (reserved T userID inp row)
  have "\<not> IsReady row" "findRow atID (atID row) (dbAttachments db) = None"
    using reserved(1) by (auto simp: addedRow_def newAttachmentRow_def draftUpload_def owned_def IsReady_def)
  then show ?thesis unfolding reserved(2) by (intro quiet_follows [OF assms(4)]) (simp add: announced_append)
next
  case (confirmed i row T n p t1 t actorID)
  let ?f = "setConfirmed e n [] (eNow e)"
  have row: "findRow atID i (dbAttachments db) = Some row" "\<not> IsReady row" "atID row = i" "atDeletedAt row = None"
    using confirmed(1,2) findRow_key [of atID i "dbAttachments db" row] by (auto simp: liveRow_def isPending_def IsReady_def)
  have old: "announced S (txDB t) i = None" for S using row confirmed(8) by (simp add: announced_def)
  have upd: "announced S (txDB t1) = (announced S (txDB t))(i := if T = S then Some (?f row) else None)" for S
    using announced_update [OF row(1), of ?f S] confirmed(3,7,8) by (simp add: setConfirmed_def IsReady_def)
  show ?thesis unfolding confirmed(9)
    by (rule added_follows [OF _ assms(2,3) confirmed(6,7) _ _ _ old])
      (use assms(4) confirmed(3,8) row upd old in \<open>simp_all add: setConfirmed_def fun_upd_idem\<close>)
next
  case (rejected i row)
  have row: "findRow atID i (dbAttachments db) = Some row" "\<not> IsReady row"
    using rejected(1,2) by (auto simp: liveRow_def isPending_def IsReady_def)
  have "announced other db i = None" using row by (simp add: announced_def)
  then show ?thesis unfolding rejected(4)
    by (intro quiet_follows [OF assms(4)]) (simp add: announced_update [OF row(1)] setFailed_def IsReady_def fun_upd_idem)
next
  case (forgotten i row)
  have row: "findRow atID i (dbAttachments db) = Some row" "\<not> IsReady row"
    using forgotten(1,2) by (auto simp: liveRow_def isPending_def IsReady_def)
  have "announced other db i = None" using row by (simp add: announced_def)
  then show ?thesis unfolding forgotten(3)
    using row(2) by (intro quiet_follows [OF assms(4)])
      (simp add: announced_update [OF row(1)] setAttachmentDeleted_def IsReady_def fun_upd_idem)
next
  case (removed i row T p t1 t actorID)
  let ?f = "setAttachmentDeleted e (eNow e)"
  have us: "eText e = us" "eTimestamp e = ts" using assms(2) by (simp_all add: columnEnv_def)
  have row: "findRow atID i (dbAttachments db) = Some row" "IsReady row" "atID row = i"
    using removed(1,3) findRow_key [of atID i "dbAttachments db" row] by (auto simp: liveRow_def)
  have old: "announced S (txDB t) i = (if T = S then Some row else None)" for S
    using row removed(4,7) by (simp add: announced_def)
  have upd: "announced S (txDB t1) = (announced S (txDB t))(i := if T = S then Some (?f row) else None)" for S
    using announced_update [OF row(1), of ?f S] removed(4,6,7) row(2) by (simp add: setAttachmentDeleted_def IsReady_def)
  show ?thesis
  proof (cases "other = T")
    case True
    have f: "follows us ts up T (txDB t)" using assms(4) removed(7) True by simp
    show ?thesis unfolding removed(8) True
      by (rule attachment_follows [OF f assms(3) removed(5) [unfolded us(1)] _ removed(6), where w = "?f row"])
        (use upd old removed(4) row remove_overlay [OF us(2), of us row] in
          \<open>simp_all add: OpKind_Entity_def attachmentShown_def setAttachmentDeleted_def\<close>)
  next
    case False
    then have "announced other (txDB t1) = announced other (txDB t)" using upd [of other] old [of other] by (simp add: fun_upd_idem)
    moreover have "follows us ts up other (txDB t)" using assms(4) removed(7) by simp
    ultimately show ?thesis unfolding removed(8) using False by (intro foreign_follows [OF _ removed(6)]) simp_all
  qed
qed

lemma empty_shows: "dbAttachments db = [] \<Longrightarrow> showsAttachments us ts T db NewReplica"
  by (simp add: showsAttachments_def announced_def [abs_def] findRow_def NewReplica_def shownTable_def [abs_def])

lemma stored_follows:
  assumes "stored (columnEnv us ts date) announcedOnly db" "uuidText us up"
  shows "datesStored date db \<and> attachmentsValid db \<and> (\<forall>T. follows us ts up T db)"
proof -
  let ?P = "\<lambda>db. datesStored date db \<and> attachmentsValid db \<and> (\<forall>T. follows us ts up T db)"
  have "relational db \<and> ?P db"
    using assms(1)
  proof (rule stored_invariant)
    show "?P db" if "emptyPlan db" "dbAttachments db = []" for db
    proof -
      have "follows us ts up T db" for T
        using empty_tracks [OF that(1), of us ts up T] empty_shows [OF that(2)] unfolding follows_def by blast
      then show ?thesis using that by (simp add: datesStored_def emptyPlan_def attachmentsValid_def objectKeys_def)
    qed
    show "?P (db\<lparr>dbTrips := trips, dbMembers := ms, dbInvitations := is\<rparr>)" if "?P db" for db trips ms "is"
      using that by (simp add: follows_def showsAttachments_def announced_def [abs_def] datesStored_def attachmentsValid_def
          tracks_def databaseShown_def tripLog_def confused_def)
    show "?P (txDB t')" if "columnEnv us ts date e" "relational (txDB t)" "planStep e T actorID t t'" "?P (txDB t)" for e T actorID t t'
      using that plan_follows [OF that(3,2,1) assms(2)] step_dates [OF that(3,1)] plan_attachments [OF that(3)]
      by (simp add: attachmentsValid_def)
    show "?P db'" if e: "columnEnv us ts date e" and est: "established c db" and ok: "announcedOnly c db" and run: "runCommit e c db = (res, db', ops)"
      and step: "rowStep e False db db'" and P: "?P db" for e c res db db' ops
    proof -
      have "db' = db \<or> rowStep e True db db'"
        using commit_step [OF run est, of True] ok P by (auto simp: attachmentsValid_def Attachment_Validate_iff)
      then have "\<forall>T. follows us ts up T db'" using P rowStep_follows [OF _ e assms(2)] by blast
      moreover have "dbDays db' = dbDays db" using step by (auto elim!: rowStep.cases simp: pushOp_def attachmentTable_def)
      ultimately show ?thesis using rowStep_valid [OF step] P by (simp add: datesStored_def)
    qed
  qed
  then show ?thesis by simp
qed

section \<open>Samples\<close>

definition sampleUpload :: RequestUploadInput where
  "sampleUpload = \<lparr>ruOwner = \<lparr>owSlotOptionID = None, owBudgetEntryID = None, owSlotID = Some 7\<rparr>,
     ruContentType = ''image/png'', ruOriginalName = ''ticket.png'', ruID = 41\<rparr>"

definition sampleOwned :: DB where
  "sampleOwned = fst (snd (serve (coarseEnv 1) 1 3 (CreateSlot (sampleSlotInput 7 None)) sampleDB))"

definition sampleReserved :: DB where
  "sampleReserved = fst (snd (runCommit (coarseEnv 3) (Reserved 1 3 sampleUpload) sampleOwned))"

definition sampleConfirmed :: DB where
  "sampleConfirmed = fst (snd (runCommit (coarseEnv 4) (Confirmed 1 3 41 10) sampleReserved))"

definition sampleRejected :: DB where
  "sampleRejected = fst (snd (runCommit (coarseEnv 4) (Rejected 41) sampleReserved))"

lemma stored_serve: "stored okEnv okCommit db \<Longrightarrow> okEnv e \<Longrightarrow> stored okEnv okCommit (fst (snd (serve e tripID userID req db)))"
  by (cases "serve e tripID userID req db") (auto intro: stored.planned)

lemma stored_commit:
  "stored okEnv okCommit db \<Longrightarrow> okEnv e \<Longrightarrow> established c db \<Longrightarrow> okCommit c db \<Longrightarrow> stored okEnv okCommit (fst (snd (runCommit e c db)))"
  by (cases "runCommit e c db") (auto intro: stored.attached)

lemma sample_start: "stored okEnv okCommit sampleDB"
  by (rule stored.empty) (simp_all add: emptyPlan_def sampleDB_def)

lemma sampleOwned_stored: "(\<And>n. okEnv (coarseEnv n)) \<Longrightarrow> stored okEnv okCommit sampleOwned"
  unfolding sampleOwned_def by (intro stored_serve sample_start)

lemma sampleReserved_stored: "(\<And>n. okEnv (coarseEnv n)) \<Longrightarrow> stored okEnv announcedOnly sampleReserved"
  unfolding sampleReserved_def
  by (intro stored_commit sampleOwned_stored) (simp_all add: established_def announcedOnly_def)

lemma sample_file: "isFileOf 41 sampleReserved (\<lambda>r. atTripID r = 1)"
  by code_simp

lemma sampleConfirmed_stored: "(\<And>n. okEnv (coarseEnv n)) \<Longrightarrow> stored okEnv announcedOnly sampleConfirmed"
  unfolding sampleConfirmed_def
  by (intro stored_commit sampleReserved_stored) (simp_all add: established_def announcedOnly_def sample_file MaxAttachmentBytes_def)

lemma sampleRejected_stored: "(\<And>n. okEnv (coarseEnv n)) \<Longrightarrow> stored okEnv announcedOnly sampleRejected"
  using sample_file unfolding sampleRejected_def
  by (intro stored_commit sampleReserved_stored) (simp_all add: established_def announcedOnly_def isFileOf_def split: option.splits)

lemmas samples_columns = sampleConfirmed_stored [where okEnv = "columnEnv unaryText coarse (\<lambda>t. t)", OF coarseEnv_columns]
  sampleRejected_stored [where okEnv = "columnEnv unaryText coarse (\<lambda>t. t)", OF coarseEnv_columns]

lemma sample_confirmed: "map (\<lambda>a. (atID a, IsReady a)) (dbAttachments sampleConfirmed) = [(41, True)]"
  by code_simp

lemma sample_rejected: "map (\<lambda>a. (atID a, atStatus a)) (dbAttachments sampleRejected) = [(41, AttachmentStatusFailed)]"
  by code_simp

lemma sample_removal: "isOk (fst (AttachmentService_Delete (coarseEnv 5) 1 3 41 sampleRejected))"
  by code_simp

section \<open>The log is the table\<close>

text \<open>C2: the log announces every attachment at the moment it can be seen, and retracts it when it is deleted: in any
  interleaving of planning, people and attachment requests, with any clock, as long as no failed upload is
  deleted and the sweep meets only pending rows, the fold of a trip's log accepts every operation and shows
  exactly the ready attachments of the trip, with every field the wire carries, deleted ones with their
  tombstone (whose instant is compared as the timestamp column stores it), and no pending or failed upload;
  days, slots and the rest are shown as before.\<close>

theorem fold_shows_attachments:
  assumes "stored (columnEnv us ts date) announcedOnly db" "uuidText us up"
  shows "\<exists>r. Fold up (tripLog T db) = Inr r \<and> rSeq r = dbOpSeq db T \<and>
    replicaShown us ts (confused T db) r = databaseShown us (confused T db) T db \<and>
    shownTable (attachmentShown us ts) (rAttachments r) = shownTable (attachmentShown us (\<lambda>t. t)) (announced T db)"
  using stored_follows [OF assms] by (auto simp: follows_def tracks_def showsAttachments_def)

text \<open>A ready attachment, deleted by a clock finer than the column.\<close>

definition sampleRemoved :: DB where
  "sampleRemoved = fst (snd (runCommit (coarseEnv 6) (Removed 1 3 41) sampleConfirmed))"

lemma sampleRemoved_stored: "stored (columnEnv unaryText coarse (\<lambda>t. t)) announcedOnly sampleRemoved"
proof -
  have "announcedOnly (Removed 1 3 41) sampleConfirmed"
    using sample_confirmed by (auto simp: announcedOnly_def map_eq_Cons_conv findRow_def IsReady_def)
  then show ?thesis unfolding sampleRemoved_def
    by (intro stored_commit samples_columns(1) coarseEnv_columns) (simp_all add: established_def)
qed

lemma sample_removed: "map (\<lambda>a. (atID a, atTripID a, IsReady a, atDeletedAt a)) (dbAttachments sampleRemoved) = [(41, 1, True, Some 100)]"
  by code_simp

theorem fold_shows_attachments_witness:
  "\<exists>r a. Fold unaryParse (tripLog 1 sampleRemoved) = Inr r \<and> rAttachments r 41 = Some a \<and> map_option coarse (atDeletedAt a) = Some 100"
proof -
  obtain r where r: "Fold unaryParse (tripLog 1 sampleRemoved) = Inr r"
    "shownTable (attachmentShown unaryText coarse) (rAttachments r) = shownTable (attachmentShown unaryText (\<lambda>t. t)) (announced 1 sampleRemoved)"
    using fold_shows_attachments [OF sampleRemoved_stored uuidText_unary, of 1] by blast
  have "map_option atDeletedAt (announced 1 sampleRemoved 41) = Some (Some 100)"
    using sample_removed by (auto simp: announced_def map_eq_Cons_conv findRow_def)
  then obtain z a where z: "rAttachments r 41 = Some a" "atDeletedAt z = Some 100"
    "seen coarse (AttachmentValues unaryText a) = AttachmentValues unaryText z"
    using shown_row [OF r(2), of 41] by (auto simp: attachmentShown_def)
  have "seen coarse (AttachmentValues unaryText a) FieldDeletedAt = AttachmentValues unaryText z FieldDeletedAt" by (simp only: z(3))
  then have "map_option coarse (atDeletedAt a) = Some 100"
    using z(2) by (cases "atDeletedAt a") (simp_all add: seen_time AttachmentValues_fields)
  then show ?thesis using r(1) z(1) by blast
qed

text \<open>A removal of what was never added stops the fold.\<close>

lemma Apply_unknown:
  assumes "opSeq op = rSeq r + 1" "opKind op = OpAttachmentRemove" "opPayload op = Some p" "rAttachments r (opEntityID op) = None"
  shows "\<exists>r'. Apply up op r = (Some errUnknownEntity, r')"
  using assms
  by (simp add: Apply_def PayloadFields_def PayloadVersion_def applyAttachment_def applyEntity_def OpKind_Entity_def)

lemma delete_logged:
  assumes "AttachmentService_Delete e T userID i db = (Inr (), db', ops)" "findRow atID i (dbAttachments db) = Some a" "\<not> isPending a"
  shows "\<exists>msk p t1. db' = txDB (pushOp (loggedOp e T userID OpAttachmentRemove i msk p t1) t1) \<and>
    t1 = onTable (updRow atID i (setAttachmentDeleted e (eNow e))) \<lparr>txDB = db, txOps = []\<rparr> \<and> atTripID a = T"
  using assms(1) unfolding AttachmentService_Delete_def
proof (cases rule: guarded_cases)
  case (passed x)
  have u: "aUserID x = userID" by (rule require_user [OF passed(1)])
  from passed(2) show ?thesis
  proof (cases rule: write_cases)
    case (committed y t)
    then show ?thesis using deleteAttachmentBody_Inr [OF committed(2)] assms(2,3) u by (auto simp: liveRow_def)
  qed simp
qed simp

text \<open>C9: deleting an upload that failed verification stops every replica. The upload was never announced, its
  removal is: the operation names an entity no fold knows, and the fold of the trip's log from then on
  ends in an error.\<close>

theorem failed_removal_stops_fold:
  assumes "stored (columnEnv us ts date) announcedOnly db" "uuidText us up"
    and "a \<in> set (dbAttachments db)" "atStatus a = AttachmentStatusFailed"
    and "AttachmentService_Delete e T userID (atID a) db = (Inr (), db', ops)"
  shows "Fold up (tripLog T db') = Inl errUnknownEntity"
proof -
  have f: "attachmentsValid db" "follows us ts up T db" using stored_follows [OF assms(1,2)] by auto
  obtain r where r: "tracks us ts up T db r" "showsAttachments us ts T db r" using f(2) by (auto simp: follows_def)
  have row: "findRow atID (atID a) (dbAttachments db) = Some a"
    using f(1) assms(3) by (simp add: attachmentsValid_def findRow_mem)
  have "announced T db (atID a) = None" using row assms(4) by (simp add: announced_def IsReady_def)
  then have none: "rAttachments r (atID a) = None" using shown_row [OF r(2) [unfolded showsAttachments_def], of "atID a"] by simp
  obtain msk p t1 where l: "db' = txDB (pushOp (loggedOp e T userID OpAttachmentRemove (atID a) msk p t1) t1)"
      "t1 = onTable (updRow atID (atID a) (setAttachmentDeleted e (eNow e))) \<lparr>txDB = db, txOps = []\<rparr>"
    using delete_logged [OF assms(5) row] assms(4) by (auto simp: isPending_def)
  let ?op = "loggedOp e T userID OpAttachmentRemove (atID a) msk p t1"
  have "\<exists>r'. Apply up ?op r = (Some errUnknownEntity, r')"
    using r(1) l(2) none by (intro Apply_unknown) (simp_all add: tracks_def)
  then show ?thesis using r(1) l by (auto simp: tracks_def tripLog_def Fold_def foldFrom_append)
qed

theorem failed_removal_stops_fold_witness:
  "Fold unaryParse (tripLog 1 (fst (snd (AttachmentService_Delete (coarseEnv 5) 1 3 41 sampleRejected)))) = Inl errUnknownEntity"
proof -
  obtain a where a: "a \<in> set (dbAttachments sampleRejected)" "atID a = 41" "atStatus a = AttachmentStatusFailed"
    using sample_rejected by (auto simp: map_eq_Cons_conv)
  obtain u db' ops where d: "AttachmentService_Delete (coarseEnv 5) 1 3 41 sampleRejected = (Inr u, db', ops)"
    using sample_removal by (cases "AttachmentService_Delete (coarseEnv 5) 1 3 41 sampleRejected"; cases "fst (AttachmentService_Delete (coarseEnv 5) 1 3 41 sampleRejected)") auto
  show ?thesis
    using failed_removal_stops_fold [OF samples_columns(2) uuidText_unary a(1,3), of "coarseEnv 5" 1 3 db' ops] d a(2)
    by simp
qed

text \<open>The sweep asks for no status when it deletes a row: one that was confirmed after the sweep listed it goes
  without a word in the log, and replicas keep showing it.\<close>

theorem swept_ready_unseen:
  assumes "stored (columnEnv us ts date) announcedOnly db" "uuidText us up"
    and "a \<in> set (dbAttachments db)" "IsReady a" "runCommit e (Swept (atID a)) db = (Inr (), db', ops)"
  shows "\<exists>r. Fold up (tripLog (atTripID a) db') = Inr r \<and> \<not> showsAttachments us ts (atTripID a) db' r"
proof -
  let ?T = "atTripID a" and ?f = "setAttachmentDeleted e (eNow e)"
  have f: "attachmentsValid db" "follows us ts up ?T db" using stored_follows [OF assms(1,2)] by auto
  obtain r where r: "tracks us ts up ?T db r" "showsAttachments us ts ?T db r" using f(2) by (auto simp: follows_def)
  have row: "findRow atID (atID a) (dbAttachments db) = Some a"
    using f(1) assms(3) by (simp add: attachmentsValid_def findRow_mem)
  have live: "atDeletedAt a = None" "db' = attachmentTable (updRow atID (atID a) ?f) db"
    using assms(5) row by (auto simp: runCommit_def single_def attachment_writes_Inr updateAttachment_Inr split: sum.splits prod.splits)
  have before: "announced ?T db (atID a) = Some a" using row assms(4) by (simp add: announced_def)
  have now: "announced ?T db' (atID a) = Some (?f a)"
    unfolding live(2) using announced_update [OF row, of ?f ?T] assms(4) by (simp add: setAttachmentDeleted_def IsReady_def)
  have "AttachmentValues us a FieldDeletedAt \<noteq> AttachmentValues us (?f a) FieldDeletedAt"
    using live(1) by (simp add: AttachmentValues_def setAttachmentDeleted_def jtime_def jopt_def)
  then have differ: "attachmentShown us (\<lambda>t. t) a \<noteq> attachmentShown us (\<lambda>t. t) (?f a)" by (auto simp: attachmentShown_def dest: fun_cong)
  have "\<not> showsAttachments us ts ?T db' r"
  proof
    assume "showsAttachments us ts ?T db' r"
    then have "shownTable (attachmentShown us (\<lambda>t. t)) (announced ?T db') (atID a) = shownTable (attachmentShown us (\<lambda>t. t)) (announced ?T db) (atID a)"
      using r(2) by (simp add: showsAttachments_def)
    then show False using before now differ by (simp add: shownTable_def)
  qed
  moreover have "Fold up (tripLog ?T db') = Inr r" using r(1) live(2) by (simp add: tracks_def tripLog_def)
  ultimately show ?thesis by blast
qed

section \<open>The table is sound\<close>

text \<open>C8: the attachments table is well typed: after any request of the attachment service, in whatever order
  requests came before it, every row meets the validity rule of its kind (a file has an object key, a
  link an address and no upload states; one owner; no size above 25 MiB), no two rows share an identifier and no
  two rows name the same stored object.\<close>

theorem attachment_rows_valid:
  assumes "stored okEnv anyCommit db" "okEnv e" "serveAttachment fs e tripID userID req db = (res, db', ops)"
  shows "(\<forall>a \<in> set (dbAttachments db'). Attachment_Validate a = Inr ()) \<and>
    distinct (map atID (dbAttachments db')) \<and> distinct (objectKeys (dbAttachments db'))"
proof -
  have "stored okEnv anyCommit db'"
    using requests_advance [OF assms] assms(1) by (induction rule: rtranclp_induct) (auto intro: advance_stored)
  then show ?thesis using stored_valid by (auto simp: attachmentsValid_def)
qed

text \<open>C7: an attachment is never edited. Whatever is committed afterwards, in any interleaving of uploads, confirmations,
  rejections, deletions and sweeps, a row stays in the table with the description it was created with; the verdict
  on an upload, ready with its size or failed, is final; a deleted row is never touched again.\<close>

theorem attachment_history:
  assumes "stored okEnv okCommit db" "(advance okEnv okCommit)\<^sup>*\<^sup>* db db'" "a \<in> set (dbAttachments db)"
  shows "\<exists>b \<in> set (dbAttachments db'). ages a b"
proof -
  have "stored okEnv okCommit db' \<and> (\<exists>b \<in> set (dbAttachments db'). ages a b)"
    using assms(2)
  proof (induction rule: rtranclp_induct)
    case base
    then show ?case using assms(1,3) ages_refl by blast
  next
    case (step d d')
    then show ?case using advance_stored [OF step.hyps(2)] advance_ages [OF step.hyps(2)] ages_trans by blast
  qed
  then show ?thesis by simp
qed

definition sampleStorage :: "int64 \<Rightarrow> FileStorage" where
  "sampleStorage n = \<lparr>fsPresignUpload = (\<lambda>k _ _. Inr (''put '' @ k)), fsPresignDownload = (\<lambda>k _. Inr (''get '' @ k)),
     fsStat = (\<lambda>_. Inr \<lparr>fiSizeBytes = n, fiContentType = ''image/png''\<rparr>), fsDelete = (\<lambda>_. None)\<rparr>"

lemma sample_served: "map (\<lambda>a. (atID a, IsReady a))
    (dbAttachments (fst (snd (serveAttachment (sampleStorage 10) (coarseEnv 4) 1 3 (ConfirmUpload 41) sampleReserved)))) = [(41, True)]"
  by code_simp

lemma sampleReserved_any: "stored (\<lambda>_. True) anyCommit sampleReserved"
  unfolding sampleReserved_def by (intro stored_commit sampleOwned_stored) (simp_all add: established_def)

theorem attachment_rows_valid_witness:
  "\<exists>a. map (\<lambda>a. (atID a, IsReady a)) [a] = [(41, True)] \<and> Attachment_Validate a = Inr ()"
proof -
  obtain res db' ops where s: "serveAttachment (sampleStorage 10) (coarseEnv 4) 1 3 (ConfirmUpload 41) sampleReserved = (res, db', ops)"
    by (metis prod_cases3)
  show ?thesis using attachment_rows_valid [OF sampleReserved_any _ s] sample_served s by (auto simp: map_eq_Cons_conv)
qed

theorem attachment_history_witness:
  "\<exists>a \<in> set (dbAttachments sampleReserved). \<exists>b \<in> set (dbAttachments sampleConfirmed). ages a b \<and> isPending a \<and> IsReady b"
proof -
  have one: "map (\<lambda>a. (atID a, isPending a)) (dbAttachments sampleReserved) = [(41, True)]" by code_simp
  then obtain a where a: "a \<in> set (dbAttachments sampleReserved)" "isPending a" by (auto simp: map_eq_Cons_conv)
  have "advance (\<lambda>_. True) anyCommit sampleReserved sampleConfirmed"
    unfolding sampleConfirmed_def using sample_file
    by (intro advance.intros(3) [where c = "Confirmed 1 3 41 10" and e = "coarseEnv 4", OF _ _ _ surjective_pairing [THEN trans]])
      (simp_all add: established_def MaxAttachmentBytes_def prod_eq_iff)
  then have "\<exists>b \<in> set (dbAttachments sampleConfirmed). ages a b"
    using attachment_history [OF sampleReserved_any _ a(1)] by blast
  then show ?thesis using a sample_confirmed by (fastforce simp: map_eq_Cons_conv)
qed

end
