(* ===== verification/AttachmentHandlers.thy ===== *)
theory AttachmentHandlers
  imports Surface AttachmentMirror
begin

text \<open>The handlers of attachments (src/internal/transport/http/attachment_handler.go): the owner of an
  attachment in a body or a query, the documents, one definition per handler; and what one of these
  requests does to the database. They are mounted only in a deployment with object storage.\<close>

section \<open>Bodies and documents\<close>

record ownerRequest =
  orSlotOptionID :: "str option"
  orBudgetEntryID :: "str option"
  orSlotID :: "str option"

definition noOwner :: ownerRequest where
  "noOwner = \<lparr>orSlotOptionID = None, orBudgetEntryID = None, orSlotID = None\<rparr>"

definition ownerRequest_member :: "str \<Rightarrow> raw \<Rightarrow> ownerRequest \<Rightarrow> decodeFailure + ownerRequest" where
  "ownerRequest_member key r b =
     (if foldName key = ''slot_option_id'' then pointerField ''owner.slot_option_id'' rawText (\<lambda>x. b\<lparr>orSlotOptionID := x\<rparr>) r
      else if foldName key = ''budget_entry_id'' then pointerField ''owner.budget_entry_id'' rawText (\<lambda>x. b\<lparr>orBudgetEntryID := x\<rparr>) r
      else if foldName key = ''slot_id'' then pointerField ''owner.slot_id'' rawText (\<lambda>x. b\<lparr>orSlotID := x\<rparr>) r
      else Inl (UnknownField key))"

definition ownerRequest_toDomain :: "HttpLib \<Rightarrow> ownerRequest \<Rightarrow> requestError + AttachmentOwner" where
  "ownerRequest_toDomain l q =
     bindR (optionalID l ''slot_option_id'' (orSlotOptionID q)) (\<lambda>x.
     bindR (optionalID l ''budget_entry_id'' (orBudgetEntryID q)) (\<lambda>b.
     bindR (optionalID l ''slot_id'' (orSlotID q)) (\<lambda>s.
       let own = \<lparr>owSlotOptionID = x, owBudgetEntryID = b, owSlotID = s\<rparr> in
       if \<not> AttachmentOwner_Valid own then Inl (Failed errOneOwner) else Inr own)))"

record uploadRequest =
  uqOwner :: ownerRequest
  uqContentType :: str
  uqOriginalName :: str

definition uploadRequest_member :: "str \<Rightarrow> raw \<Rightarrow> uploadRequest \<Rightarrow> decodeFailure + uploadRequest" where
  "uploadRequest_member key r b =
     (if foldName key = ''owner'' then
        bindR (decodeObject ownerRequest_member ''owner'' r (uqOwner b)) (\<lambda>own. Inr (b\<lparr>uqOwner := own\<rparr>))
      else if foldName key = ''content_type'' then valueField ''content_type'' rawText (\<lambda>x. b\<lparr>uqContentType := x\<rparr>) r b
      else if foldName key = ''original_name'' then valueField ''original_name'' rawText (\<lambda>x. b\<lparr>uqOriginalName := x\<rparr>) r b
      else Inl (UnknownField key))"

record linkRequest =
  lqOwner :: ownerRequest
  lqURL :: str
  lqTitle :: str

definition linkRequest_member :: "str \<Rightarrow> raw \<Rightarrow> linkRequest \<Rightarrow> decodeFailure + linkRequest" where
  "linkRequest_member key r b =
     (if foldName key = ''owner'' then
        bindR (decodeObject ownerRequest_member ''owner'' r (lqOwner b)) (\<lambda>own. Inr (b\<lparr>lqOwner := own\<rparr>))
      else if foldName key = ''url'' then valueField ''url'' rawText (\<lambda>x. b\<lparr>lqURL := x\<rparr>) r b
      else if foldName key = ''title'' then valueField ''title'' rawText (\<lambda>x. b\<lparr>lqTitle := x\<rparr>) r b
      else Inl (UnknownField key))"

record attachmentResponse =
  apID :: str
  apKind :: str
  apStatus :: str
  apExternalURL :: str
  apContentType :: str
  apSizeBytes :: "int64 option"
  apOriginalName :: str
  apSlotOptionID :: "str option"
  apBudgetEntryID :: "str option"
  apSlotID :: "str option"
  apUploadedBy :: "str option"
  apCreatedAt :: instant
  apUpdatedAt :: instant

definition toAttachmentResponse :: "(ID \<Rightarrow> str) \<Rightarrow> Attachment \<Rightarrow> attachmentResponse" where
  "toAttachmentResponse us a =
     \<lparr>apID = us (atID a), apKind = atKind a, apStatus = atStatus a, apExternalURL = atExternalURL a,
      apContentType = atContentType a, apSizeBytes = atSizeBytes a, apOriginalName = atOriginalName a,
      apSlotOptionID = map_option us (atSlotOptionID a), apBudgetEntryID = map_option us (atBudgetEntryID a),
      apSlotID = map_option us (atSlotID a), apUploadedBy = map_option us (atUploadedBy a),
      apCreatedAt = atCreatedAt a, apUpdatedAt = atUpdatedAt a\<rparr>"

datatype attachmentBody =
    AttachmentBody attachmentResponse | AttachmentsBody "attachmentResponse list"
  | TicketBody attachmentResponse str instant | DownloadBody str

type_synonym attachmentReply = "attachmentBody HttpResponse \<times> DB \<times> Op list"

section \<open>The handlers\<close>

definition queryPtr :: "str \<Rightarrow> str option" where
  "queryPtr v = (if v = [] then None else Some v)"

definition AttachmentHandler_List :: "HttpLib \<Rightarrow> HttpRequest \<Rightarrow> DB \<Rightarrow> attachmentReply" where
  "AttachmentHandler_List l r db = handle r db (inTrip l r (\<lambda>userID tripID.
     bindR (ownerRequest_toDomain l \<lparr>orSlotOptionID = queryPtr (hrQuery r ''slot_option_id''),
       orBudgetEntryID = queryPtr (hrQuery r ''budget_entry_id''), orSlotID = queryPtr (hrQuery r ''slot_id'')\<rparr>) (\<lambda>own.
     Inr (answer r (\<lambda>as. writeData 200 (AttachmentsBody (map (toAttachmentResponse (idText l)) as)))
       (reading db (AttachmentService_ListForOwner tripID userID own db))))))"

definition AttachmentHandler_RequestUpload :: "HttpLib \<Rightarrow> FileStorage \<Rightarrow> Env \<Rightarrow> HttpRequest \<Rightarrow> DB \<Rightarrow> attachmentReply" where
  "AttachmentHandler_RequestUpload l fs e r db = handle r db (inTrip l r (\<lambda>userID tripID.
     bindR (decodeJSON l uploadRequest_member \<lparr>uqOwner = noOwner, uqContentType = [], uqOriginalName = []\<rparr> r) (\<lambda>body.
     bindR (ownerRequest_toDomain l (uqOwner body)) (\<lambda>own.
       Inr (answer r (\<lambda>t. writeData 201 (TicketBody (toAttachmentResponse (idText l) (utAttachment t)) (utUploadURL t) (utExpiresAt t)))
         (AttachmentService_RequestUpload fs e tripID userID \<lparr>ruOwner = own, ruContentType = uqContentType body,
            ruOriginalName = uqOriginalName body, ruID = NilID\<rparr> db))))))"

definition AttachmentHandler_ConfirmUpload :: "HttpLib \<Rightarrow> FileStorage \<Rightarrow> Env \<Rightarrow> HttpRequest \<Rightarrow> DB \<Rightarrow> attachmentReply" where
  "AttachmentHandler_ConfirmUpload l fs e r db = handle r db (onResource l r ''attachmentID'' (\<lambda>userID tripID i.
     Inr (answer r (\<lambda>a. writeData 200 (AttachmentBody (toAttachmentResponse (idText l) a)))
       (AttachmentService_ConfirmUpload fs e tripID userID i db))))"

definition AttachmentHandler_CreateLink :: "HttpLib \<Rightarrow> Env \<Rightarrow> HttpRequest \<Rightarrow> DB \<Rightarrow> attachmentReply" where
  "AttachmentHandler_CreateLink l e r db = handle r db (inTrip l r (\<lambda>userID tripID.
     bindR (decodeJSON l linkRequest_member \<lparr>lqOwner = noOwner, lqURL = [], lqTitle = []\<rparr> r) (\<lambda>body.
     bindR (ownerRequest_toDomain l (lqOwner body)) (\<lambda>own.
       Inr (answer r (\<lambda>a. writeData 201 (AttachmentBody (toAttachmentResponse (idText l) a)))
         (AttachmentService_CreateLink e tripID userID \<lparr>clOwner = own, clURL = lqURL body, clTitle = lqTitle body, clID = NilID\<rparr> db))))))"

definition AttachmentHandler_DownloadURL :: "HttpLib \<Rightarrow> FileStorage \<Rightarrow> HttpRequest \<Rightarrow> DB \<Rightarrow> attachmentReply" where
  "AttachmentHandler_DownloadURL l fs r db = handle r db (onResource l r ''attachmentID'' (\<lambda>userID tripID i.
     Inr (answer r (\<lambda>url. writeData 200 (DownloadBody url)) (reading db (AttachmentService_DownloadURL fs tripID userID i db)))))"

definition AttachmentHandler_Delete :: "HttpLib \<Rightarrow> Env \<Rightarrow> HttpRequest \<Rightarrow> DB \<Rightarrow> attachmentReply" where
  "AttachmentHandler_Delete l e r db = handle r db (onResource l r ''attachmentID'' (\<lambda>userID tripID i.
     Inr (answer r (\<lambda>_. noContent) (AttachmentService_Delete e tripID userID i db))))"

datatype AttachmentEndpoint = GetAttachments | PostUpload | PostConfirm | PostLink | GetDownload | DeleteAttachmentAt

definition runAttachmentEndpoint :: "HttpLib \<Rightarrow> FileStorage \<Rightarrow> Env \<Rightarrow> AttachmentEndpoint \<Rightarrow> HttpRequest \<Rightarrow> DB \<Rightarrow> attachmentReply" where
  "runAttachmentEndpoint l fs e ep r db = (case ep of
       GetAttachments \<Rightarrow> AttachmentHandler_List l r db
     | PostUpload \<Rightarrow> AttachmentHandler_RequestUpload l fs e r db
     | PostConfirm \<Rightarrow> AttachmentHandler_ConfirmUpload l fs e r db
     | PostLink \<Rightarrow> AttachmentHandler_CreateLink l e r db
     | GetDownload \<Rightarrow> AttachmentHandler_DownloadURL l fs r db
     | DeleteAttachmentAt \<Rightarrow> AttachmentHandler_Delete l e r db)"

section \<open>A request is a service request\<close>

definition attachmentRequest :: "FileStorage \<Rightarrow> Env \<Rightarrow> DB \<Rightarrow> ID \<Rightarrow> unit reply \<Rightarrow> bool" where
  "attachmentRequest fs e db userID x \<longleftrightarrow> (\<exists>tripID req. x = serveAttachment fs e tripID userID req db)"

lemma asServed_attachment:
  assumes "hrClaims r = Some claims" "serveAttachment fs e tripID (clUserID claims) req db = ack y" "\<And>v. rsStatus (ok v) < 400"
  shows "asServed r db (attachmentRequest fs e db) (answer r ok y)"
proof (rule asServed_answer [where served = "attachmentRequest fs e db", OF assms(1) _ assms(3)])
  show "attachmentRequest fs e db (clUserID claims) (bindR (fst y) (\<lambda>_. Inr ()), snd y)"
    unfolding attachmentRequest_def using assms(2) by (intro exI [of _ tripID] exI [of _ req]) (cases y, simp add: ack_def)
qed

lemma serveAttachment_ack:
  "serveAttachment fs e tripID userID (CreateLink inp1) db = ack (AttachmentService_CreateLink e tripID userID inp1 db)"
  "serveAttachment fs e tripID userID (RequestUpload inp2) db = ack (AttachmentService_RequestUpload fs e tripID userID inp2 db)"
  "serveAttachment fs e tripID userID (ConfirmUpload i) db = ack (AttachmentService_ConfirmUpload fs e tripID userID i db)"
  "serveAttachment fs e tripID userID (DeleteAttachment i) db = ack (AttachmentService_Delete e tripID userID i db)"
  by (simp_all add: serveAttachment_def ack_unit)

lemmas attachment_intros = served_intros asServed_reading serveAttachment_ack [THEN asServed_attachment [rotated 1]]

lemma attachment_handlers:
  "asServed r db (attachmentRequest fs e db) (AttachmentHandler_List l r db)"
  "asServed r db (attachmentRequest fs e db) (AttachmentHandler_RequestUpload l fs e r db)"
  "asServed r db (attachmentRequest fs e db) (AttachmentHandler_ConfirmUpload l fs e r db)"
  "asServed r db (attachmentRequest fs e db) (AttachmentHandler_CreateLink l e r db)"
  "asServed r db (attachmentRequest fs e db) (AttachmentHandler_DownloadURL l fs r db)"
  "asServed r db (attachmentRequest fs e db) (AttachmentHandler_Delete l e r db)"
  unfolding AttachmentHandler_List_def AttachmentHandler_RequestUpload_def AttachmentHandler_ConfirmUpload_def
    AttachmentHandler_CreateLink_def AttachmentHandler_DownloadURL_def AttachmentHandler_Delete_def
  by (intro attachment_intros; simp)+

lemma attachment_endpoints: "asServed r db (attachmentRequest fs e db) (runAttachmentEndpoint l fs e ep r db)"
  by (cases ep) (simp_all add: runAttachmentEndpoint_def attachment_handlers)

text \<open>C10: a request on the attachments of a trip does what the service does and nothing else: it leaves the database
  as it was and publishes nothing, or it is one request of the attachment service for the caller whose token it
  carries, answered with success exactly when the service succeeded. Either way the database it leaves is
  one that the commits of the service lead to.\<close>

theorem attachment_http_served:
  assumes "stored okEnv anyCommit db" "okEnv e" "runAttachmentEndpoint l fs e ep r db = (p, db', ops)"
  shows "(db' = db \<and> ops = [] \<or>
      (\<exists>claims tripID req res. hrClaims r = Some claims \<and> serveAttachment fs e tripID (clUserID claims) req db = (res, db', ops) \<and>
         (isOk res \<longleftrightarrow> rsStatus p < 400))) \<and>
    (advance okEnv anyCommit)\<^sup>*\<^sup>* db db'"
proof -
  have served: "asServed r db (attachmentRequest fs e db) (p, db', ops)" using attachment_endpoints [of r db fs e l ep] assms(3) by simp
  then show ?thesis
    unfolding asServed_def attachmentRequest_def prod.case
  proof (elim disjE exE conjE)
    fix claims res tripID req
    assume s: "hrClaims r = Some claims" "(res, db', ops) = serveAttachment fs e tripID (clUserID claims) req db" "isOk res = (rsStatus p < 400)"
    then show ?thesis using requests_advance [OF assms(1,2) s(2) [symmetric]] by metis
  qed simp
qed

definition sampleFilesLib :: HttpLib where
  "sampleFilesLib = \<lparr>hlCodec = sampleCodec, hlQuote = (\<lambda>s. s), hlParseDate = (\<lambda>_. None), hlDateText = (\<lambda>_. []),
     hlSplitHostPort = Some, hlParseAddr = Some\<rparr>"

definition sampleConfirmCall :: HttpRequest where
  "sampleConfirmCall = (sampleCall ''POST'' [] RawNull)
     \<lparr>hrParam := (\<lambda>p. if p = ''tripID'' then unaryText 1 else unaryText 41), hrClaims := Some \<lparr>clUserID = 3, clSessionID = 11\<rparr>\<rparr>"

lemma sample_confirm_call:
  "case runAttachmentEndpoint sampleFilesLib (sampleStorage 10) (laterEnv 4) PostConfirm sampleConfirmCall sampleReserved of
     (p, db', ops) \<Rightarrow> rsStatus p = 200 \<and> length ops = 1"
  by code_simp

theorem attachment_http_served_witness:
  "\<exists>tripID req res db' ops. serveAttachment (sampleStorage 10) (laterEnv 4) tripID 3 req sampleReserved = (res, db', ops) \<and>
     isOk res \<and> ops \<noteq> []"
proof -
  obtain p db' ops where x: "runAttachmentEndpoint sampleFilesLib (sampleStorage 10) (laterEnv 4) PostConfirm sampleConfirmCall sampleReserved = (p, db', ops)"
    by (metis prod_cases3)
  then have "rsStatus p = 200" "ops \<noteq> []" using sample_confirm_call by auto
  then show ?thesis
    using attachment_http_served [OF sampleReserved_any _ x] by (fastforce simp: sampleConfirmCall_def)
qed

end
