(* ===== verification/Covers.thy ===== *)
theory Covers
  imports AttachmentService Identity
begin

text \<open>The covers of trips (src/internal/service/trip_cover.go, src/internal/repository/trip_cover.go and their
  statements): the cache of destination suggestions, the upload of a cover in two phases, and the cover
  columns of the trips table, which are kept here beside the trips they belong to.

  The photo provider, the object storage and the case folding of text that is not ASCII are parameters.
  Statements outside a transaction commit on their own; a request is written as one function, and the
  places where another request can come between are the definitions it is composed of.\<close>

section \<open>State\<close>

record Cover =
  cvSource :: str
  cvStorageKey :: str
  cvContentType :: str
  cvImageURL :: str
  cvPhotographerName :: str
  cvPhotographerURL :: str
  cvPhotoURL :: str

abbreviation "CoverSourceLegacy \<equiv> ''legacy''"
abbreviation "CoverSourceNeutral \<equiv> ''neutral''"
abbreviation "CoverSourceSuggested \<equiv> ''suggested''"
abbreviation "CoverSourceUploaded \<equiv> ''uploaded''"

definition MaxTripCoverSize :: int where
  "MaxTripCoverSize = 12 * 1024 * 1024"

record TripCoverSuggestion =
  tgID :: ID
  tgQueryKey :: str
  tgQuery :: str
  tgFound :: bool
  tgImageURL :: str
  tgPhotographerName :: str
  tgPhotographerURL :: str
  tgPhotoURL :: str
  tgDownloadLocation :: str
  tgExpiresAt :: instant
  tgCreatedAt :: instant
  tgUpdatedAt :: instant

record TripCoverUpload =
  tuID :: ID
  tuTripID :: ID
  tuStorageKey :: str
  tuContentType :: str
  tuOriginalName :: str
  tuSizeBytes :: "int64 option"
  tuStatus :: AttachmentStatus
  tuUploadedBy :: "ID option"
  tuCreatedAt :: instant
  tuUpdatedAt :: instant

record CoverDB =
  cdPlan :: DB
  cdCover :: "ID \<Rightarrow> Cover"
  cdSuggestions :: "TripCoverSuggestion list"
  cdUploads :: "TripCoverUpload list"

record CoverPhotoProvider =
  cpSearch :: "str \<Rightarrow> TripCoverSuggestion option res"
  cpTrackSelection :: "str \<Rightarrow> error option"

section \<open>Statements\<close>

definition suggestionChecks :: "TripCoverSuggestion \<Rightarrow> unit query" where
  "suggestionChecks s = violates
     [(\<not> (tgFound s \<and> tgImageURL s \<noteq> [] \<and> tgPhotographerName s \<noteq> [] \<and> tgPhotographerURL s \<noteq> [] \<and> tgPhotoURL s \<noteq> [] \<or>
          \<not> tgFound s \<and> tgImageURL s = [] \<and> tgPhotographerName s = [] \<and> tgPhotographerURL s = [] \<and> tgPhotoURL s = []),
       CheckViolation ''trip_cover_suggestions_shape'')]"

definition firstRow :: "('r \<Rightarrow> bool) \<Rightarrow> 'r list \<Rightarrow> 'r query" where
  "firstRow P rows = (case find P rows of None \<Rightarrow> Inl ErrNoRows | Some r \<Rightarrow> Inr r)"

definition GetTripCoverSuggestionByQueryKey :: "str \<Rightarrow> instant \<Rightarrow> CoverDB \<Rightarrow> TripCoverSuggestion query" where
  "GetTripCoverSuggestionByQueryKey key now cd = firstRow (\<lambda>s. tgQueryKey s = key \<and> tgExpiresAt s > now) (cdSuggestions cd)"

definition GetTripCoverSuggestionByID :: "ID \<Rightarrow> CoverDB \<Rightarrow> TripCoverSuggestion query" where
  "GetTripCoverSuggestionByID i cd = firstRow (\<lambda>s. tgID s = i) (cdSuggestions cd)"

text \<open>The upsert: a new row, or on a known query key the row that has it, with its identifier and creation
  time kept.\<close>

definition newSuggestionRow :: "Env \<Rightarrow> TripCoverSuggestion \<Rightarrow> TripCoverSuggestion" where
  "newSuggestionRow e s = s\<lparr>tgExpiresAt := eTimestamp e (tgExpiresAt s), tgCreatedAt := eTxNow e, tgUpdatedAt := eTxNow e\<rparr>"

definition UpsertTripCoverSuggestion :: "Env \<Rightarrow> TripCoverSuggestion \<Rightarrow> CoverDB \<Rightarrow> (TripCoverSuggestion \<times> CoverDB) query" where
  "UpsertTripCoverSuggestion e s cd =
     bindR (suggestionChecks s) (\<lambda>_.
       case find (\<lambda>r. tgQueryKey r = tgQueryKey s) (cdSuggestions cd) of
         None \<Rightarrow>
           if findRow tgID (tgID s) (cdSuggestions cd) \<noteq> None then Inl (UniqueViolation ''trip_cover_suggestions_pkey'')
           else Inr (newSuggestionRow e s, cd\<lparr>cdSuggestions := cdSuggestions cd @ [newSuggestionRow e s]\<rparr>)
       | Some r \<Rightarrow>
           let row = (newSuggestionRow e s)\<lparr>tgID := tgID r, tgCreatedAt := tgCreatedAt r\<rparr> in
           Inr (row, cd\<lparr>cdSuggestions := updRow tgID (tgID r) (\<lambda>_. row) (cdSuggestions cd)\<rparr>))"

definition uploadChecks :: "TripCoverUpload \<Rightarrow> unit query" where
  "uploadChecks u = violates
     [(RuneCountInString (tuOriginalName u) > 255, CheckViolation ''trip_cover_uploads_name_len''),
      (negativeAmount (tuSizeBytes u), CheckViolation ''trip_cover_uploads_size''),
      (\<not> AttachmentStatus_Valid (tuStatus u), CheckViolation ''trip_cover_uploads_status'')]"

definition uploadRefs :: "CoverDB \<Rightarrow> TripCoverUpload \<Rightarrow> unit query" where
  "uploadRefs cd u = violates
     [(list_ex (\<lambda>v. tuStorageKey v = tuStorageKey u) (cdUploads cd), UniqueViolation ''trip_cover_uploads_storage_key_key''),
      (\<not> refersTo trID (dbTrips (cdPlan cd)) (Some (tuTripID u)), ForeignKeyViolation ''trip_cover_uploads_trip_id_fkey'')]"

definition CreateTripCoverUpload :: "Env \<Rightarrow> TripCoverUpload \<Rightarrow> CoverDB \<Rightarrow> (TripCoverUpload \<times> CoverDB) query" where
  "CreateTripCoverUpload e u cd =
     bindR (insertRow ''trip_cover_uploads_pkey'' tuID uploadChecks (uploadRefs cd)
         (u\<lparr>tuSizeBytes := None, tuStatus := AttachmentStatusPending, tuCreatedAt := eTxNow e, tuUpdatedAt := eTxNow e\<rparr>) (cdUploads cd))
       (\<lambda>(r, rows). Inr (r, cd\<lparr>cdUploads := rows\<rparr>))"

definition GetTripCoverUploadByID :: "ID \<Rightarrow> CoverDB \<Rightarrow> TripCoverUpload query" where
  "GetTripCoverUploadByID i cd = firstRow (\<lambda>u. tuID u = i) (cdUploads cd)"

definition updatePendingUpload :: "(TripCoverUpload \<Rightarrow> TripCoverUpload) \<Rightarrow> ID \<Rightarrow> CoverDB \<Rightarrow> (nat \<times> CoverDB) query" where
  "updatePendingUpload f i cd = execrows
     (case findRow tuID i (cdUploads cd) of
        None \<Rightarrow> Inl ErrNoRows
      | Some u \<Rightarrow>
          if tuStatus u \<noteq> AttachmentStatusPending then Inl ErrNoRows
          else bindR (uploadChecks (f u)) (\<lambda>_. Inr ((), cd\<lparr>cdUploads := updRow tuID i f (cdUploads cd)\<rparr>))) cd"

definition ConfirmTripCoverUpload :: "Env \<Rightarrow> ID \<Rightarrow> int64 \<Rightarrow> instant \<Rightarrow> CoverDB \<Rightarrow> (nat \<times> CoverDB) query" where
  "ConfirmTripCoverUpload e i n ts = updatePendingUpload
     (\<lambda>u. u\<lparr>tuStatus := AttachmentStatusReady, tuSizeBytes := Some n, tuUpdatedAt := eTimestamp e ts\<rparr>) i"

definition FailTripCoverUpload :: "Env \<Rightarrow> ID \<Rightarrow> instant \<Rightarrow> CoverDB \<Rightarrow> (nat \<times> CoverDB) query" where
  "FailTripCoverUpload e i ts = updatePendingUpload
     (\<lambda>u. u\<lparr>tuStatus := AttachmentStatusFailed, tuUpdatedAt := eTimestamp e ts\<rparr>) i"

text \<open>The cover columns of a live trip are set together; the version of the trip counts the change.\<close>

definition coverChecks :: "Cover \<Rightarrow> unit query" where
  "coverChecks c = violates
     [(\<not> (cvSource c \<in> {CoverSourceLegacy, CoverSourceNeutral} \<and> cvStorageKey c = [] \<and> cvImageURL c = [] \<or>
          cvSource c = CoverSourceSuggested \<and> cvStorageKey c = [] \<and> cvImageURL c \<noteq> [] \<or>
          cvSource c = CoverSourceUploaded \<and> cvStorageKey c \<noteq> [] \<and> cvImageURL c = []), CheckViolation ''trips_cover_shape'')]"

definition setTripCover :: "Env \<Rightarrow> ID \<Rightarrow> Cover \<Rightarrow> instant \<Rightarrow> CoverDB \<Rightarrow> (nat \<times> CoverDB) query" where
  "setTripCover e tripID c ts cd = execrows
     (case findRow trID tripID (dbTrips (cdPlan cd)) of
        None \<Rightarrow> Inl ErrNoRows
      | Some t \<Rightarrow>
          if trDeletedAt t \<noteq> None then Inl ErrNoRows
          else if trVersion t = maxInt32 then Inl (OtherCode ''22003'')
          else bindR (coverChecks c) (\<lambda>_. Inr ((), cd\<lparr>
            cdPlan := (cdPlan cd)\<lparr>dbTrips := updRow trID tripID
              (\<lambda>t. t\<lparr>trVersion := trVersion t + 1, trUpdatedAt := eTimestamp e ts\<rparr>) (dbTrips (cdPlan cd))\<rparr>,
            cdCover := (cdCover cd)(tripID := c)\<rparr>))) cd"

definition noCover :: Cover where
  "noCover = \<lparr>cvSource = CoverSourceNeutral, cvStorageKey = [], cvContentType = [], cvImageURL = [],
     cvPhotographerName = [], cvPhotographerURL = [], cvPhotoURL = []\<rparr>"

definition SetTripNeutralCover :: "Env \<Rightarrow> ID \<Rightarrow> instant \<Rightarrow> CoverDB \<Rightarrow> (nat \<times> CoverDB) query" where
  "SetTripNeutralCover e tripID ts = setTripCover e tripID noCover ts"

definition suggestedCover :: "TripCoverSuggestion \<Rightarrow> Cover" where
  "suggestedCover s = noCover\<lparr>cvSource := CoverSourceSuggested, cvImageURL := tgImageURL s,
     cvPhotographerName := tgPhotographerName s, cvPhotographerURL := tgPhotographerURL s, cvPhotoURL := tgPhotoURL s\<rparr>"

definition SetTripSuggestedCover :: "Env \<Rightarrow> ID \<Rightarrow> TripCoverSuggestion \<Rightarrow> instant \<Rightarrow> CoverDB \<Rightarrow> (nat \<times> CoverDB) query" where
  "SetTripSuggestedCover e tripID s ts = setTripCover e tripID (suggestedCover s) ts"

definition uploadedCover :: "TripCoverUpload \<Rightarrow> Cover" where
  "uploadedCover u = noCover\<lparr>cvSource := CoverSourceUploaded, cvStorageKey := tuStorageKey u, cvContentType := tuContentType u\<rparr>"

definition SetTripUploadedCover :: "Env \<Rightarrow> ID \<Rightarrow> TripCoverUpload \<Rightarrow> instant \<Rightarrow> CoverDB \<Rightarrow> (nat \<times> CoverDB) query" where
  "SetTripUploadedCover e tripID u ts = setTripCover e tripID (uploadedCover u) ts"

section \<open>The repository\<close>

definition GetSuggestionByQueryKey :: "str \<Rightarrow> instant \<Rightarrow> CoverDB \<Rightarrow> TripCoverSuggestion res" where
  "GetSuggestionByQueryKey key now cd = mapErrorR (GetTripCoverSuggestionByQueryKey key now cd)"

definition GetSuggestionByID :: "ID \<Rightarrow> CoverDB \<Rightarrow> TripCoverSuggestion res" where
  "GetSuggestionByID i cd = mapErrorR (GetTripCoverSuggestionByID i cd)"

definition UpsertSuggestion :: "Env \<Rightarrow> TripCoverSuggestion \<Rightarrow> CoverDB \<Rightarrow> (TripCoverSuggestion \<times> CoverDB) res" where
  "UpsertSuggestion e s cd = mapErrorR (UpsertTripCoverSuggestion e s cd)"

definition CreateUpload :: "Env \<Rightarrow> TripCoverUpload \<Rightarrow> CoverDB \<Rightarrow> (TripCoverUpload \<times> CoverDB) res" where
  "CreateUpload e u cd = mapErrorR (CreateTripCoverUpload e u cd)"

definition GetUploadByID :: "ID \<Rightarrow> CoverDB \<Rightarrow> TripCoverUpload res" where
  "GetUploadByID i cd = mapErrorR (GetTripCoverUploadByID i cd)"

definition TripCoverRepository_ConfirmUpload :: "Env \<Rightarrow> ID \<Rightarrow> int64 \<Rightarrow> instant \<Rightarrow> CoverDB \<Rightarrow> (unit \<times> CoverDB) res" where
  "TripCoverRepository_ConfirmUpload e i n ts cd = affected (ConfirmTripCoverUpload e i n ts cd)"

definition MarkUploadFailed :: "Env \<Rightarrow> ID \<Rightarrow> instant \<Rightarrow> CoverDB \<Rightarrow> (unit \<times> CoverDB) res" where
  "MarkUploadFailed e i ts cd = bindR (mapErrorR (FailTripCoverUpload e i ts cd)) (\<lambda>(_, cd'). Inr ((), cd'))"

definition SetSuggested :: "Env \<Rightarrow> ID \<Rightarrow> TripCoverSuggestion \<Rightarrow> instant \<Rightarrow> CoverDB \<Rightarrow> (unit \<times> CoverDB) res" where
  "SetSuggested e tripID s ts cd = affected (SetTripSuggestedCover e tripID s ts cd)"

definition SetNeutral :: "Env \<Rightarrow> ID \<Rightarrow> instant \<Rightarrow> CoverDB \<Rightarrow> (unit \<times> CoverDB) res" where
  "SetNeutral e tripID ts cd = affected (SetTripNeutralCover e tripID ts cd)"

definition SetUploaded :: "Env \<Rightarrow> ID \<Rightarrow> TripCoverUpload \<Rightarrow> instant \<Rightarrow> CoverDB \<Rightarrow> (unit \<times> CoverDB) res" where
  "SetUploaded e tripID u ts cd = affected (SetTripUploadedCover e tripID u ts cd)"

section \<open>The service\<close>

definition coverUploadURLTTL :: int where "coverUploadURLTTL = 15 * 60 * secondNs"
definition coverReadURLTTL :: int where "coverReadURLTTL = 6 * 60 * 60 * secondNs"
definition coverCacheTTL :: int where "coverCacheTTL = 30 * 24 * 60 * 60 * secondNs"
definition coverMissTTL :: int where "coverMissTTL = 24 * 60 * 60 * secondNs"

text \<open>\<^theory_text>\<open>strings.Fields\<close> and \<^theory_text>\<open>strings.Join\<close> with a space: the words of a query.\<close>

fun fieldsFrom :: "str \<Rightarrow> str list \<Rightarrow> str list" where
  "fieldsFrom word [] = (if word = [] then [] else [word])"
| "fieldsFrom word (g # gs) =
     (if spaceSegment g then (if word = [] then fieldsFrom [] gs else word # fieldsFrom [] gs)
      else fieldsFrom (word @ g) gs)"

fun joinSpace :: "str list \<Rightarrow> str" where
  "joinSpace [] = []"
| "joinSpace [w] = w"
| "joinSpace (w # v # ws) = w @ '' '' @ joinSpace (v # ws)"

definition coverQuery :: "str \<Rightarrow> str" where
  "coverQuery q = joinSpace (fieldsFrom [] (segments (TrimSpace q)))"

definition neutralSuggestion :: "str \<Rightarrow> TripCoverSuggestion" where
  "neutralSuggestion q = \<lparr>tgID = NilID, tgQueryKey = [], tgQuery = q, tgFound = False, tgImageURL = [], tgPhotographerName = [],
     tgPhotographerURL = [], tgPhotoURL = [], tgDownloadLocation = [], tgExpiresAt = zeroTime, tgCreatedAt = zeroTime,
     tgUpdatedAt = zeroTime\<rparr>"

definition storeSuggestion :: "Env \<Rightarrow> TripCoverSuggestion \<Rightarrow> CoverDB \<Rightarrow> TripCoverSuggestion res \<times> CoverDB" where
  "storeSuggestion e s cd =
     (case UpsertSuggestion e s cd of Inl err \<Rightarrow> (Inl err, cd) | Inr (row, cd') \<Rightarrow> (Inr row, cd'))"

definition Suggest ::
  "(str \<Rightarrow> str) \<Rightarrow> CoverPhotoProvider option \<Rightarrow> Env \<Rightarrow> str \<Rightarrow> CoverDB \<Rightarrow> TripCoverSuggestion res \<times> CoverDB" where
  "Suggest lowerU prov e text cd =
     (let q = coverQuery text; key = ToLower lowerU q in
      if q = [] then (Inr (neutralSuggestion []), cd)
      else if RuneCountInString q > 200 then (Inl (ValidationError (Add ''query'' ''too_long'' [])), cd)
      else (case GetSuggestionByQueryKey key (eNow e) cd of
              Inr s \<Rightarrow> (Inr s, cd)
            | Inl err \<Rightarrow>
                if err \<noteq> ErrNotFound then (Inl err, cd)
                else (case prov of
                        None \<Rightarrow> storeSuggestion e ((neutralSuggestion q)
                          \<lparr>tgID := eNewID e, tgQueryKey := key, tgExpiresAt := eNow e + coverMissTTL\<rparr>) cd
                      | Some p \<Rightarrow>
                          (case cpSearch p q of
                             Inl _ \<Rightarrow> (Inr (neutralSuggestion q), cd)
                           | Inr found \<Rightarrow>
                               let s = (case found of None \<Rightarrow> neutralSuggestion q | Some s \<Rightarrow> s) in
                               storeSuggestion e (s\<lparr>tgID := eNewID e, tgQueryKey := key, tgQuery := q,
                                 tgExpiresAt := eNow e + (if tgFound s then coverCacheTTL else coverMissTTL)\<rparr>) cd))))"

definition ValidateSuggestion :: "Env \<Rightarrow> ID \<Rightarrow> CoverDB \<Rightarrow> unit res" where
  "ValidateSuggestion e i cd =
     bindR (GetSuggestionByID i cd) (\<lambda>s. if tgExpiresAt s < eNow e then Inl ErrNotFound else Inr ())"

text \<open>A trip as it is read: its row, its cover and the address of the cover, which is filled in for a response
  only. A request's reply also names the objects it asked the storage to delete.\<close>

type_synonym coveredTrip = "Trip \<times> Cover \<times> str"
type_synonym 'a coverReply = "'a res \<times> CoverDB \<times> str list"

definition readTrip :: "ID \<Rightarrow> CoverDB \<Rightarrow> coveredTrip res" where
  "readTrip tripID cd = bindR (TripRepository_GetByID tripID (cdPlan cd)) (\<lambda>t. Inr (t, cdCover cd tripID, []))"

definition coverWrite :: "Env \<Rightarrow> ID \<Rightarrow> TripCoverSuggestion \<Rightarrow> CoverDB \<Rightarrow> (unit \<times> CoverDB) res" where
  "coverWrite e tripID s cd =
     bindR (LockForWrite tripID (cdPlan cd)) (\<lambda>_.
       if tgFound s then SetSuggested e tripID s (eNow e) cd else SetNeutral e tripID (eNow e) cd)"

definition errNilProvider :: error where "errNilProvider = ErrOther ''nil provider''"

definition cover_apply :: "CoverPhotoProvider option \<Rightarrow> Env \<Rightarrow> ID \<Rightarrow> TripCoverSuggestion \<Rightarrow> CoverDB \<Rightarrow> coveredTrip coverReply" where
  "cover_apply prov e tripID s cd =
     (case coverWrite e tripID s cd of
        Inl err \<Rightarrow> (Inl err, cd, [])
      | Inr (_, cd') \<Rightarrow>
          if tgFound s \<and> tgDownloadLocation s \<noteq> [] then
            (case prov of None \<Rightarrow> (Inl errNilProvider, cd', []) | Some p \<Rightarrow> (readTrip tripID cd', cd', []))
          else (readTrip tripID cd', cd', []))"

definition ApplySuggestion ::
  "CoverPhotoProvider option \<Rightarrow> Env \<Rightarrow> ID \<Rightarrow> ID \<Rightarrow> ID \<Rightarrow> CoverDB \<Rightarrow> coveredTrip coverReply" where
  "ApplySuggestion prov e tripID userID i cd =
     (case bindR (require tripID userID CapEditTrip (cdPlan cd)) (\<lambda>_. GetSuggestionByID i cd) of
        Inl err \<Rightarrow> (Inl err, cd, [])
      | Inr s \<Rightarrow> if tgExpiresAt s < eNow e then (Inl ErrNotFound, cd, []) else cover_apply prov e tripID s cd)"

definition AutoAssign ::
  "(str \<Rightarrow> str) \<Rightarrow> CoverPhotoProvider option \<Rightarrow> Env \<Rightarrow> ID \<Rightarrow> ID \<Rightarrow> str \<Rightarrow> CoverDB \<Rightarrow> coveredTrip coverReply" where
  "AutoAssign lowerU prov e tripID userID text cd =
     (case bindR (require tripID userID CapEditTrip (cdPlan cd)) (\<lambda>_. readTrip tripID cd) of
        Inl err \<Rightarrow> (Inl err, cd, [])
      | Inr current \<Rightarrow>
          if cvSource (fst (snd current)) = CoverSourceUploaded then (Inr current, cd, [])
          else (case Suggest lowerU prov e text cd of
                  (Inl err, cd') \<Rightarrow> (Inl err, cd', [])
                | (Inr s, cd') \<Rightarrow> cover_apply prov e tripID s cd'))"

definition baseType :: "(str \<Rightarrow> str) \<Rightarrow> str \<Rightarrow> str" where
  "baseType lowerU ct = ToLower lowerU (TrimSpace (takeWhile (\<lambda>c. c \<noteq> CHR '';'') ct))"

definition allowedCoverType :: "str \<Rightarrow> bool" where
  "allowedCoverType v \<longleftrightarrow> v \<in> {''image/jpeg'', ''image/png'', ''image/webp'', ''image/avif''}"

record CoverUploadTicket =
  ctUpload :: TripCoverUpload
  ctUploadURL :: str
  ctExpiresAt :: instant

definition coverKey :: "Env \<Rightarrow> ID \<Rightarrow> ID \<Rightarrow> str" where
  "coverKey e tripID i = ''trips/'' @ eText e tripID @ ''/covers/'' @ eText e i"

definition reserveCover :: "(str \<Rightarrow> str) \<Rightarrow> Env \<Rightarrow> ID \<Rightarrow> ID \<Rightarrow> str \<Rightarrow> str \<Rightarrow> CoverDB \<Rightarrow> (TripCoverUpload \<times> CoverDB) res" where
  "reserveCover lowerU e tripID userID contentType name cd =
     bindR (require tripID userID CapEditTrip (cdPlan cd)) (\<lambda>a.
     if \<not> allowedCoverType (baseType lowerU contentType) then Inl (ValidationError (Add ''content_type'' ''unsupported'' []))
     else if RuneCountInString name > 255 then Inl (ValidationError (Add ''original_name'' ''too_long'' []))
     else CreateUpload e \<lparr>tuID = eNewID e, tuTripID = tripID, tuStorageKey = coverKey e tripID (eNewID e),
       tuContentType = baseType lowerU contentType, tuOriginalName = name, tuSizeBytes = None,
       tuStatus = AttachmentStatusPending, tuUploadedBy = Some (aUserID a), tuCreatedAt = zeroTime, tuUpdatedAt = zeroTime\<rparr> cd)"

definition TripCoverService_RequestUpload ::
  "(str \<Rightarrow> str) \<Rightarrow> FileStorage option \<Rightarrow> Env \<Rightarrow> ID \<Rightarrow> ID \<Rightarrow> str \<Rightarrow> str \<Rightarrow> CoverDB \<Rightarrow> CoverUploadTicket coverReply" where
  "TripCoverService_RequestUpload lowerU storage e tripID userID contentType name cd =
     (case storage of
        None \<Rightarrow> (Inl ErrNotFound, cd, [])
      | Some fs \<Rightarrow>
          (case reserveCover lowerU e tripID userID contentType name cd of
             Inl err \<Rightarrow> (Inl err, cd, [])
           | Inr (u, cd') \<Rightarrow>
               (case fsPresignUpload fs (tuStorageKey u) (baseType lowerU contentType) coverUploadURLTTL of
                  Inl err \<Rightarrow> (Inl err, cd', [])
                | Inr url \<Rightarrow> (Inr \<lparr>ctUpload = u, ctUploadURL = url, ctExpiresAt = eNow e + coverUploadURLTTL\<rparr>, cd', []))))"

definition cover_Resolve :: "FileStorage option \<Rightarrow> coveredTrip \<Rightarrow> coveredTrip res" where
  "cover_Resolve storage trip = (case trip of (t, c, url) \<Rightarrow>
     if cvSource c \<noteq> CoverSourceUploaded \<or> cvStorageKey c = [] then Inr trip
     else (case storage of
             None \<Rightarrow> Inr trip
           | Some fs \<Rightarrow> bindR (fsPresignDownload fs (cvStorageKey c) coverReadURLTTL) (\<lambda>u. Inr (t, c, u))))"

text \<open>The two commits of a confirmation: a rejection, whose failures are ignored, and the transaction that makes
  the upload the cover, which returns the key of an uploaded cover it replaces.\<close>

definition rejectCover :: "Env \<Rightarrow> TripCoverUpload \<Rightarrow> CoverDB \<Rightarrow> CoverDB \<times> str list" where
  "rejectCover e u cd =
     ((case MarkUploadFailed e (tuID u) (eNow e) cd of Inl _ \<Rightarrow> cd | Inr (_, cd') \<Rightarrow> cd'), [tuStorageKey u])"

definition confirmCover :: "Env \<Rightarrow> ID \<Rightarrow> TripCoverUpload \<Rightarrow> int64 \<Rightarrow> CoverDB \<Rightarrow> (str \<times> CoverDB) res" where
  "confirmCover e tripID u n cd =
     bindR (LockForWrite tripID (cdPlan cd)) (\<lambda>_.
     bindR (readTrip tripID cd) (\<lambda>(t, c, _).
     bindR (TripCoverRepository_ConfirmUpload e (tuID u) n (eNow e) cd) (\<lambda>(_, cd1).
     bindR (SetUploaded e tripID u (eNow e) cd1) (\<lambda>(_, cd2).
       Inr (if cvSource c = CoverSourceUploaded then cvStorageKey c else [], cd2)))))"

definition unacceptable :: "(str \<Rightarrow> str) \<Rightarrow> TripCoverUpload \<Rightarrow> FileInfo \<Rightarrow> bool" where
  "unacceptable lowerU u info \<longleftrightarrow> sint (fiSizeBytes info) \<le> 0 \<or> sint (fiSizeBytes info) > MaxTripCoverSize \<or>
     baseType lowerU (fiContentType info) \<noteq> tuContentType u"

definition TripCoverService_ConfirmUpload ::
  "(str \<Rightarrow> str) \<Rightarrow> FileStorage option \<Rightarrow> Env \<Rightarrow> ID \<Rightarrow> ID \<Rightarrow> ID \<Rightarrow> CoverDB \<Rightarrow> coveredTrip coverReply" where
  "TripCoverService_ConfirmUpload lowerU storage e tripID userID i cd =
     (case storage of
        None \<Rightarrow> (Inl ErrNotFound, cd, [])
      | Some fs \<Rightarrow>
          (case bindR (require tripID userID CapEditTrip (cdPlan cd)) (\<lambda>_. GetUploadByID i cd) of
             Inl err \<Rightarrow> (Inl err, cd, [])
           | Inr u \<Rightarrow>
               if tuTripID u \<noteq> tripID then (Inl ErrNotFound, cd, [])
               else if tuStatus u = AttachmentStatusReady then (bindR (readTrip tripID cd) (cover_Resolve storage), cd, [])
               else (case fsStat fs (tuStorageKey u) of
                 Inl err \<Rightarrow> (Inl (if err = ErrNotFound then ValidationError (Add ''upload'' ''not_uploaded'' []) else err), cd, [])
               | Inr info \<Rightarrow>
                   if unacceptable lowerU u info then
                     (Inl (ValidationError (if sint (fiSizeBytes info) > MaxTripCoverSize then Add ''size_bytes'' ''too_large'' []
                        else Add ''upload'' ''invalid_image'' [])), rejectCover e u cd)
                   else (case confirmCover e tripID u (fiSizeBytes info) cd of
                     Inl err \<Rightarrow> (Inl err, cd, [])
                   | Inr (previous, cd') \<Rightarrow>
                       (bindR (readTrip tripID cd') (cover_Resolve storage), cd',
                        if previous \<noteq> [] \<and> previous \<noteq> tuStorageKey u then [previous] else [])))))"

end
