(* ===== verification/CoverLife.thy ===== *)
theory CoverLife
  imports Covers AttachmentLife
begin

text \<open>The life of covers. A request on covers reads, asks the storage and commits at most twice; here every
  commit is a value of one datatype, with what its request has read before and no later commit can undo. The
  states reached by commits in any order, with any change of the rest of the database between them, are
  all the interleavings of requests. A state comes with the keys of the objects the service has asked the
  storage to delete.\<close>

section \<open>Commits and requests\<close>

datatype CoverCommit =
    SuggestionStored TripCoverSuggestion
  | CoverReserved ID ID str str
  | UploadRejected TripCoverUpload
  | UploadConfirmed ID TripCoverUpload int64
  | CoverChosen ID TripCoverSuggestion

definition replacedObject :: "str \<Rightarrow> TripCoverUpload \<Rightarrow> str list" where
  "replacedObject previous u = (if previous \<noteq> [] \<and> previous \<noteq> tuStorageKey u then [previous] else [])"

definition runCover :: "(str \<Rightarrow> str) \<Rightarrow> Env \<Rightarrow> CoverCommit \<Rightarrow> CoverDB \<Rightarrow> CoverDB \<times> str list" where
  "runCover lowerU e c cd = (case c of
       SuggestionStored s \<Rightarrow> (snd (storeSuggestion e s cd), [])
     | CoverReserved tripID userID contentType name \<Rightarrow>
         (case reserveCover lowerU e tripID userID contentType name cd of Inl _ \<Rightarrow> (cd, []) | Inr (_, cd') \<Rightarrow> (cd', []))
     | UploadRejected u \<Rightarrow> rejectCover e u cd
     | UploadConfirmed tripID u n \<Rightarrow>
         (case confirmCover e tripID u n cd of Inl _ \<Rightarrow> (cd, []) | Inr (previous, cd') \<Rightarrow> (cd', replacedObject previous u))
     | CoverChosen tripID s \<Rightarrow> (case coverWrite e tripID s cd of Inl _ \<Rightarrow> (cd, []) | Inr (_, cd') \<Rightarrow> (cd', [])))"

text \<open>The upload a request has read: its row may have changed status since, but not what identifies it.\<close>

definition readUpload :: "TripCoverUpload \<Rightarrow> CoverDB \<Rightarrow> bool" where
  "readUpload u cd \<longleftrightarrow> (case findRow tuID (tuID u) (cdUploads cd) of None \<Rightarrow> False
     | Some v \<Rightarrow> tuTripID v = tuTripID u \<and> tuStorageKey v = tuStorageKey u \<and> tuContentType v = tuContentType u)"

definition coverRead :: "CoverCommit \<Rightarrow> CoverDB \<Rightarrow> bool" where
  "coverRead c cd = (case c of
       UploadRejected u \<Rightarrow> readUpload u cd
     | UploadConfirmed tripID u n \<Rightarrow> readUpload u cd \<and> tuTripID u = tripID \<and> 0 < sint n \<and> sint n \<le> MaxTripCoverSize
     | _ \<Rightarrow> True)"

text \<open>The commits the design allows for: no confirmation comes between the check of an upload and its rejection.\<close>

definition rejectedInTime :: "CoverCommit \<Rightarrow> CoverDB \<Rightarrow> bool" where
  "rejectedInTime c cd = (case c of
       UploadRejected u \<Rightarrow> (case findRow tuID (tuID u) (cdUploads cd) of None \<Rightarrow> True | Some v \<Rightarrow> tuStatus v \<noteq> AttachmentStatusReady)
     | _ \<Rightarrow> True)"

definition noCoversYet :: "CoverDB \<Rightarrow> bool" where
  "noCoversYet cd \<longleftrightarrow> cdUploads cd = [] \<and> (\<forall>t. cvSource (cdCover cd t) \<in> {CoverSourceLegacy, CoverSourceNeutral} \<and>
     cvStorageKey (cdCover cd t) = [] \<and> cvImageURL (cdCover cd t) = [])"

inductive covered :: "(str \<Rightarrow> str) \<Rightarrow> (CoverCommit \<Rightarrow> CoverDB \<Rightarrow> bool) \<Rightarrow> CoverDB \<Rightarrow> str set \<Rightarrow> bool" for lowerU okCommit where
  empty: "noCoversYet cd \<Longrightarrow> covered lowerU okCommit cd {}"
| elsewhere: "covered lowerU okCommit cd K \<Longrightarrow> covered lowerU okCommit (cd\<lparr>cdPlan := db\<rparr>) K"
| commit: "covered lowerU okCommit cd K \<Longrightarrow> coverRead c cd \<Longrightarrow> okCommit c cd \<Longrightarrow> runCover lowerU e c cd = (cd', ks) \<Longrightarrow>
    K' = K \<union> set ks \<Longrightarrow> covered lowerU okCommit cd' K'"

datatype CoverRequest =
    AskSuggestion str
  | ApplyCover ID ID ID
  | AssignCover ID ID str
  | AskUpload ID ID str str
  | ConfirmCover ID ID ID

definition effectOf :: "'a coverReply \<Rightarrow> CoverDB \<times> str list" where
  "effectOf r = snd r"

definition serveCover ::
  "(str \<Rightarrow> str) \<Rightarrow> CoverPhotoProvider option \<Rightarrow> FileStorage option \<Rightarrow> Env \<Rightarrow> CoverRequest \<Rightarrow> CoverDB \<Rightarrow> CoverDB \<times> str list" where
  "serveCover lowerU prov storage e req cd = (case req of
       AskSuggestion q \<Rightarrow> (snd (Suggest lowerU prov e q cd), [])
     | ApplyCover tripID userID i \<Rightarrow> effectOf (ApplySuggestion prov e tripID userID i cd)
     | AssignCover tripID userID q \<Rightarrow> effectOf (AutoAssign lowerU prov e tripID userID q cd)
     | AskUpload tripID userID contentType name \<Rightarrow>
         effectOf (TripCoverService_RequestUpload lowerU storage e tripID userID contentType name cd)
     | ConfirmCover tripID userID i \<Rightarrow> effectOf (TripCoverService_ConfirmUpload lowerU storage e tripID userID i cd))"

section \<open>What the writes did\<close>

lemma uploadChecks_Inl: "uploadChecks u = Inl err \<Longrightarrow> \<not> isNoRows err"
  by (auto simp: uploadChecks_def isNoRows_def split: if_splits)

lemma updatePendingUpload_Inr:
  assumes "updatePendingUpload f i cd = Inr (k, cd')"
  shows "(\<exists>u. k = 1 \<and> findRow tuID i (cdUploads cd) = Some u \<and> tuStatus u = AttachmentStatusPending \<and>
      uploadChecks (f u) = Inr () \<and> cd' = cd\<lparr>cdUploads := updRow tuID i f (cdUploads cd)\<rparr>) \<or> k = 0 \<and> cd' = cd"
proof (cases "findRow tuID i (cdUploads cd)")
  case None
  then show ?thesis using assms by (simp add: updatePendingUpload_def execrows_def isNoRows_def)
next
  case (Some u)
  then show ?thesis using assms uploadChecks_Inl [of "f u"]
    by (cases "uploadChecks (f u)"; cases "tuStatus u = AttachmentStatusPending")
      (simp_all add: updatePendingUpload_def execrows_def isNoRows_def)
qed

lemma setTripCover_Inr:
  "affected (setTripCover e tripID c ts cd) = Inr (u, cd') \<Longrightarrow>
     coverChecks c = Inr () \<and> cdUploads cd' = cdUploads cd \<and> cdCover cd' = (cdCover cd)(tripID := c)"
  by (auto simp: setTripCover_def affected_Inr sum_cases split: option.splits if_splits)

lemma coverWrite_Inr:
  assumes "coverWrite e tripID s cd = Inr (u, cd')"
  shows "\<exists>c. coverChecks c = Inr () \<and> cvSource c \<noteq> CoverSourceUploaded \<and> cdUploads cd' = cdUploads cd \<and>
    cdCover cd' = (cdCover cd)(tripID := c)"
  using assms
  by (auto simp: coverWrite_def sum_cases SetSuggested_def SetNeutral_def SetTripSuggestedCover_def SetTripNeutralCover_def
      suggestedCover_def noCover_def split: if_splits dest!: setTripCover_Inr)

lemma confirmed_Inr:
  assumes "TripCoverRepository_ConfirmUpload e i n ts cd = Inr (u, cd')"
  shows "\<exists>v. findRow tuID i (cdUploads cd) = Some v \<and> tuStatus v = AttachmentStatusPending \<and>
    uploadChecks (v\<lparr>tuStatus := AttachmentStatusReady, tuSizeBytes := Some n, tuUpdatedAt := eTimestamp e ts\<rparr>) = Inr () \<and>
    cd' = cd\<lparr>cdUploads := updRow tuID i
      (\<lambda>u. u\<lparr>tuStatus := AttachmentStatusReady, tuSizeBytes := Some n, tuUpdatedAt := eTimestamp e ts\<rparr>) (cdUploads cd)\<rparr>"
proof -
  obtain k where "ConfirmTripCoverUpload e i n ts cd = Inr (k, cd')" "k \<noteq> 0"
    using assms by (auto simp: TripCoverRepository_ConfirmUpload_def affected_def sum_cases split: if_splits)
  then show ?thesis unfolding ConfirmTripCoverUpload_def using updatePendingUpload_Inr by blast
qed

lemma reserveCover_Inr:
  assumes "reserveCover lowerU e tripID userID contentType name cd = Inr (u, cd')"
  shows "cd' = cd\<lparr>cdUploads := cdUploads cd @ [u]\<rparr> \<and> uploadChecks u = Inr () \<and> allowedCoverType (tuContentType u) \<and>
    tuStatus u = AttachmentStatusPending \<and> tuID u \<notin> tuID ` set (cdUploads cd) \<and> tuStorageKey u \<notin> tuStorageKey ` set (cdUploads cd)"
  using assms
  by (auto simp: reserveCover_def CreateUpload_def CreateTripCoverUpload_def sum_cases insertRow_Inr findRow_None uploadRefs_def
      list_ex_iff split: if_splits)

definition failUpload :: "Env \<Rightarrow> instant \<Rightarrow> TripCoverUpload \<Rightarrow> TripCoverUpload" where
  "failUpload e ts u = u\<lparr>tuStatus := AttachmentStatusFailed, tuUpdatedAt := eTimestamp e ts\<rparr>"

definition readyUpload :: "Env \<Rightarrow> int64 \<Rightarrow> instant \<Rightarrow> TripCoverUpload \<Rightarrow> TripCoverUpload" where
  "readyUpload e n ts u = u\<lparr>tuStatus := AttachmentStatusReady, tuSizeBytes := Some n, tuUpdatedAt := eTimestamp e ts\<rparr>"

lemma rejectCover_found:
  assumes "findRow tuID (tuID u) (cdUploads cd) = Some v" "uploadChecks v = Inr ()"
  shows "rejectCover e u cd = (if tuStatus v = AttachmentStatusPending
      then cd\<lparr>cdUploads := updRow tuID (tuID u) (failUpload e (eNow e)) (cdUploads cd)\<rparr> else cd, [tuStorageKey u])"
proof -
  have "uploadChecks (failUpload e (eNow e) v) = Inr ()"
    using assms(2) by (auto simp: uploadChecks_def failUpload_def AttachmentStatus_Valid_def split: if_splits)
  then show ?thesis using assms(1)
    by (simp add: rejectCover_def MarkUploadFailed_def FailTripCoverUpload_def updatePendingUpload_def failUpload_def [abs_def]
        execrows_def isNoRows_def mapErrorR_def)
qed

section \<open>The invariants\<close>

definition sizeWithin :: "int64 option \<Rightarrow> bool" where
  "sizeWithin s = (case s of None \<Rightarrow> False | Some n \<Rightarrow> 0 < sint n \<and> sint n \<le> MaxTripCoverSize)"

definition uploadOK :: "TripCoverUpload \<Rightarrow> bool" where
  "uploadOK u \<longleftrightarrow> uploadChecks u = Inr () \<and> allowedCoverType (tuContentType u) \<and>
     (tuStatus u = AttachmentStatusReady \<longrightarrow> sizeWithin (tuSizeBytes u))"

definition confirmedFor :: "CoverDB \<Rightarrow> ID \<Rightarrow> TripCoverUpload \<Rightarrow> bool" where
  "confirmedFor cd t u \<longleftrightarrow> u \<in> set (cdUploads cd) \<and> tuTripID u = t \<and> tuStatus u = AttachmentStatusReady"

definition coverHeld :: "CoverDB \<Rightarrow> ID \<Rightarrow> bool" where
  "coverHeld cd t \<longleftrightarrow> coverChecks (cdCover cd t) = Inr () \<and>
     (cvSource (cdCover cd t) = CoverSourceUploaded \<longrightarrow> (\<exists>u. confirmedFor cd t u \<and> cdCover cd t = uploadedCover u))"

definition coversValid :: "CoverDB \<Rightarrow> bool" where
  "coversValid cd \<longleftrightarrow> distinct (map tuID (cdUploads cd)) \<and> distinct (map tuStorageKey (cdUploads cd)) \<and>
     (\<forall>u \<in> set (cdUploads cd). uploadOK u) \<and> (\<forall>t. coverHeld cd t)"

text \<open>Every deleted object is that of an upload with a verdict that is no trip's cover.\<close>

definition objectsFree :: "CoverDB \<Rightarrow> str set \<Rightarrow> bool" where
  "objectsFree cd K \<longleftrightarrow> (\<forall>k \<in> K.
     (\<exists>u \<in> set (cdUploads cd). tuStorageKey u = k \<and> tuStatus u \<noteq> AttachmentStatusPending) \<and>
     (\<forall>t. cvSource (cdCover cd t) = CoverSourceUploaded \<longrightarrow> cvStorageKey (cdCover cd t) \<noteq> k))"

lemma set_updRow_found:
  assumes "distinct (map key rows)" "findRow key i rows = Some v"
  shows "set (updRow key i f rows) = insert (f v) (set rows - {v})"
proof -
  have v: "key v = i" "v \<in> set rows" using findRow_key [OF assms(2)] by simp_all
  have only: "r = v" if "r \<in> set rows" "key r = i" for r
    using assms(1) v that by (auto simp: distinct_map inj_on_def)
  have "(\<lambda>x. if key x = i then f x else x) ` set rows = insert (f v) (set rows - {v})"
  proof (intro equalityI subsetI)
    fix y assume "y \<in> (\<lambda>x. if key x = i then f x else x) ` set rows"
    then obtain x where "x \<in> set rows" "y = (if key x = i then f x else x)" by blast
    then show "y \<in> insert (f v) (set rows - {v})" using only [of x] v(1) by (cases "key x = i") auto
  next
    fix y assume "y \<in> insert (f v) (set rows - {v})"
    then consider "y = f v" | "y \<in> set rows" "y \<noteq> v" by blast
    then show "y \<in> (\<lambda>x. if key x = i then f x else x) ` set rows"
    proof cases
      case 1
      then show ?thesis using v by (intro image_eqI [of _ _ v]) simp_all
    next
      case 2
      then show ?thesis using only [of y] by (intro image_eqI [of _ _ y]) auto
    qed
  qed
  then show ?thesis by (simp only: set_updRow)
qed

definition sameUpload :: "(TripCoverUpload \<Rightarrow> TripCoverUpload) \<Rightarrow> bool" where
  "sameUpload f \<longleftrightarrow> (\<forall>v. tuID (f v) = tuID v \<and> tuTripID (f v) = tuTripID v \<and> tuStorageKey (f v) = tuStorageKey v \<and>
     tuContentType (f v) = tuContentType v)"

lemma same_upload [simp]: "sameUpload (failUpload e ts)" "sameUpload (readyUpload e n ts)"
  by (simp_all add: sameUpload_def failUpload_def readyUpload_def)

lemma sameUpload_simps:
  assumes "sameUpload f"
  shows "tuID (f v) = tuID v" "tuTripID (f v) = tuTripID v" "tuStorageKey (f v) = tuStorageKey v" "tuContentType (f v) = tuContentType v"
  using assms by (simp_all add: sameUpload_def)

lemma map_updRow_kept: "(\<And>v. key' (f v) = key' v) \<Longrightarrow> map key' (updRow key i f rows) = map key' rows"
  by (simp add: updRow_def)

lemma coversValid_update:
  assumes "coversValid cd" and v: "findRow tuID i (cdUploads cd) = Some v" "tuStatus v = AttachmentStatusPending"
    and f: "sameUpload f" and ok: "uploadOK (f v)"
  shows "coversValid (cd\<lparr>cdUploads := updRow tuID i f (cdUploads cd)\<rparr>)"
proof -
  have rows: "set (updRow tuID i f (cdUploads cd)) = insert (f v) (set (cdUploads cd) - {v})"
    using assms(1) v by (intro set_updRow_found) (simp_all add: coversValid_def)
  have "confirmedFor cd t u \<Longrightarrow> confirmedFor (cd\<lparr>cdUploads := updRow tuID i f (cdUploads cd)\<rparr>) t u" for t u
    using v(2) by (cases "u = v") (simp_all add: confirmedFor_def rows)
  then have "coverHeld cd t \<Longrightarrow> coverHeld (cd\<lparr>cdUploads := updRow tuID i f (cdUploads cd)\<rparr>) t" for t
    by (fastforce simp: coverHeld_def)
  then show ?thesis using assms(1) ok rows
    by (auto simp: coversValid_def map_updRow_kept sameUpload_simps [OF f])
qed

lemma objectsFree_update:
  assumes "coversValid cd" "objectsFree cd K" and v: "findRow tuID i (cdUploads cd) = Some v" "tuStatus v = AttachmentStatusPending"
  shows "objectsFree (cd\<lparr>cdUploads := updRow tuID i f (cdUploads cd)\<rparr>) K"
proof -
  have rows: "set (updRow tuID i f (cdUploads cd)) = insert (f v) (set (cdUploads cd) - {v})"
    using assms(1) v by (intro set_updRow_found) (simp_all add: coversValid_def)
  show ?thesis using assms(2) v(2) by (fastforce simp: objectsFree_def rows)
qed

lemma coversValid_cover:
  assumes "coversValid cd" "cdUploads cd' = cdUploads cd" "cdCover cd' = (cdCover cd)(t := c)" "coverChecks c = Inr ()"
    "cvSource c = CoverSourceUploaded \<Longrightarrow> \<exists>u. confirmedFor cd t u \<and> c = uploadedCover u"
  shows "coversValid cd'"
  using assms unfolding coversValid_def coverHeld_def confirmedFor_def by simp

lemma objectsFree_cover:
  assumes "objectsFree cd K" "cdUploads cd' = cdUploads cd" "cdCover cd' = (cdCover cd)(t := c)"
    "cvSource c = CoverSourceUploaded \<Longrightarrow> cvStorageKey c \<notin> K"
  shows "objectsFree cd' K"
  using assms unfolding objectsFree_def by auto

section \<open>Every commit keeps them\<close>

lemma coversValid_same:
  "cdUploads cd' = cdUploads cd \<Longrightarrow> cdCover cd' = cdCover cd \<Longrightarrow> coversValid cd' = coversValid cd"
  "cdUploads cd' = cdUploads cd \<Longrightarrow> cdCover cd' = cdCover cd \<Longrightarrow> objectsFree cd' K = objectsFree cd K"
  by (simp_all add: coversValid_def coverHeld_def confirmedFor_def objectsFree_def)

lemma storeSuggestion_kept:
  "cdUploads (snd (storeSuggestion e s cd)) = cdUploads cd" "cdCover (snd (storeSuggestion e s cd)) = cdCover cd"
  by (auto simp: storeSuggestion_def UpsertSuggestion_def UpsertTripCoverSuggestion_def mapErrorR_def sum_cases Let_def
      split: sum.splits option.splits if_splits)

lemma confirmCover_Inr:
  assumes "confirmCover e tripID u n cd = Inr (previous, cd')"
  shows "\<exists>v. findRow tuID (tuID u) (cdUploads cd) = Some v \<and> tuStatus v = AttachmentStatusPending \<and>
    uploadChecks (readyUpload e n (eNow e) v) = Inr () \<and>
    cdUploads cd' = updRow tuID (tuID u) (readyUpload e n (eNow e)) (cdUploads cd) \<and>
    cdCover cd' = (cdCover cd)(tripID := uploadedCover u) \<and> coverChecks (uploadedCover u) = Inr () \<and>
    previous = (if cvSource (cdCover cd tripID) = CoverSourceUploaded then cvStorageKey (cdCover cd tripID) else [])"
proof -
  obtain t c url cd1 where r: "readTrip tripID cd = Inr (t, c, url)"
    and conf: "TripCoverRepository_ConfirmUpload e (tuID u) n (eNow e) cd = Inr ((), cd1)"
    and set: "SetUploaded e tripID u (eNow e) cd1 = Inr ((), cd')"
    and p: "previous = (if cvSource c = CoverSourceUploaded then cvStorageKey c else [])"
    using assms by (auto simp: confirmCover_def sum_cases)
  have "c = cdCover cd tripID" using r by (auto simp: readTrip_def sum_cases)
  then show ?thesis
    using confirmed_Inr [OF conf] setTripCover_Inr [OF set [unfolded SetUploaded_def SetTripUploadedCover_def]] p
    by (auto simp: readyUpload_def [abs_def])
qed

lemma readUpload_found:
  assumes "readUpload u cd"
  obtains v where "findRow tuID (tuID u) (cdUploads cd) = Some v" "v \<in> set (cdUploads cd)" "tuTripID v = tuTripID u"
    "tuStorageKey v = tuStorageKey u" "tuContentType v = tuContentType u"
proof -
  obtain v where v: "findRow tuID (tuID u) (cdUploads cd) = Some v" "tuTripID v = tuTripID u"
    "tuStorageKey v = tuStorageKey u" "tuContentType v = tuContentType u"
    using assms by (auto simp: readUpload_def split: option.splits)
  then show ?thesis using findRow_key [OF v(1)] that by blast
qed

lemma failed_ok: "uploadOK v \<Longrightarrow> uploadOK (failUpload e ts v)"
  by (auto simp: uploadOK_def failUpload_def uploadChecks_def AttachmentStatus_Valid_def split: if_splits)

lemma ready_ok:
  "uploadOK v \<Longrightarrow> uploadChecks (readyUpload e n ts v) = Inr () \<Longrightarrow> 0 < sint n \<Longrightarrow> sint n \<le> MaxTripCoverSize \<Longrightarrow>
     uploadOK (readyUpload e n ts v)"
  by (simp add: uploadOK_def readyUpload_def sizeWithin_def)

lemma objectsFree_insert: "objectsFree cd {k} \<Longrightarrow> objectsFree cd K \<Longrightarrow> objectsFree cd (insert k K)"
  by (auto simp: objectsFree_def)

lemma upload_of_key:
  "coversValid cd \<Longrightarrow> v \<in> set (cdUploads cd) \<Longrightarrow> w \<in> set (cdUploads cd) \<Longrightarrow> tuStorageKey v = tuStorageKey w \<Longrightarrow> v = w"
  by (simp add: coversValid_def distinct_map inj_on_def)

lemma cover_upload:
  assumes "coversValid cd" "cvSource (cdCover cd t) = CoverSourceUploaded" "v \<in> set (cdUploads cd)"
    "tuStorageKey v = cvStorageKey (cdCover cd t)"
  shows "confirmedFor cd t v"
proof -
  obtain w where w: "confirmedFor cd t w" "cdCover cd t = uploadedCover w"
    using assms(1,2) by (auto simp: coversValid_def coverHeld_def)
  then have "v = w" using upload_of_key [OF assms(1,3)] assms(4) by (simp add: uploadedCover_def confirmedFor_def)
  then show ?thesis using w(1) by simp
qed

lemma reserved_kept:
  assumes "reserveCover lowerU e tripID userID contentType name cd = Inr (u, cd')" "coversValid cd"
  shows "coversValid cd'" "objectsFree cd K \<Longrightarrow> objectsFree cd' K"
proof -
  note u = reserveCover_Inr [OF assms(1)]
  have "coverHeld cd t \<Longrightarrow> coverHeld cd' t" for t
    using u by (fastforce simp: coverHeld_def confirmedFor_def)
  then show "coversValid cd'" using assms(2) u by (auto simp: coversValid_def uploadOK_def)
  show "objectsFree cd K \<Longrightarrow> objectsFree cd' K" using u by (fastforce simp: objectsFree_def)
qed

lemma rejected_kept:
  assumes "readUpload u cd" "coversValid cd" "rejectCover e u cd = (cd', ks)"
  shows "coversValid cd'"
    and "rejectedInTime (UploadRejected u) cd \<Longrightarrow> objectsFree cd K \<Longrightarrow> objectsFree cd' (K \<union> set ks)"
proof -
  obtain v where v: "findRow tuID (tuID u) (cdUploads cd) = Some v" "v \<in> set (cdUploads cd)" "tuTripID v = tuTripID u"
    "tuStorageKey v = tuStorageKey u" "tuContentType v = tuContentType u"
    using readUpload_found [OF assms(1)] .
  have ok: "uploadOK v" using assms(2) v(2) by (simp add: coversValid_def)
  then have eq: "cd' = (if tuStatus v = AttachmentStatusPending
      then cd\<lparr>cdUploads := updRow tuID (tuID u) (failUpload e (eNow e)) (cdUploads cd)\<rparr> else cd)" "ks = [tuStorageKey u]"
    using rejectCover_found [OF v(1)] assms(3) by (simp_all add: uploadOK_def)
  show "coversValid cd'"
    using coversValid_update [OF assms(2) v(1) _ same_upload(1) failed_ok [OF ok]] assms(2) by (simp add: eq)
  assume early: "rejectedInTime (UploadRejected u) cd" and K: "objectsFree cd K"
  have notReady: "tuStatus v \<noteq> AttachmentStatusReady" using early v(1) by (simp add: rejectedInTime_def)
  have "objectsFree cd' K" using objectsFree_update [OF assms(2) K v(1)] K by (simp add: eq)
  moreover have "objectsFree cd' {tuStorageKey u}"
  proof -
    have dist: "distinct (map tuID (cdUploads cd))" "distinct (map tuStorageKey (cdUploads cd))"
      using assms(2) by (simp_all add: coversValid_def)
    have "\<exists>w \<in> set (cdUploads cd'). tuStorageKey w = tuStorageKey u \<and> tuStatus w \<noteq> AttachmentStatusPending"
      using v set_updRow_found [OF dist(1) v(1), of "failUpload e (eNow e)"] by (auto simp: eq failUpload_def)
    moreover have "cvStorageKey (cdCover cd' t) \<noteq> tuStorageKey u" if "cvSource (cdCover cd' t) = CoverSourceUploaded" for t
    proof
      assume "cvStorageKey (cdCover cd' t) = tuStorageKey u"
      moreover have "cdCover cd' = cdCover cd" by (simp add: eq)
      ultimately have "tuStorageKey v = cvStorageKey (cdCover cd t)" "cvSource (cdCover cd t) = CoverSourceUploaded"
        using that v(4) by simp_all
      then have "confirmedFor cd t v" using cover_upload [OF assms(2) _ v(2)] by simp
      then show False using notReady by (simp add: confirmedFor_def)
    qed
    ultimately show ?thesis by (simp add: objectsFree_def)
  qed
  ultimately show "objectsFree cd' (K \<union> set ks)" by (simp add: objectsFree_insert eq(2))
qed


lemma confirmed_kept:
  assumes "readUpload u cd" "tuTripID u = tripID" "0 < sint n" "sint n \<le> MaxTripCoverSize" "coversValid cd"
    and run: "confirmCover e tripID u n cd = Inr (previous, cd')"
  shows "coversValid cd'" and "objectsFree cd K \<Longrightarrow> objectsFree cd' (K \<union> set (replacedObject previous u))"
proof -
  obtain v where v: "findRow tuID (tuID u) (cdUploads cd) = Some v" "v \<in> set (cdUploads cd)" "tuTripID v = tuTripID u"
    "tuStorageKey v = tuStorageKey u" "tuContentType v = tuContentType u"
    using readUpload_found [OF assms(1)] .
  define v' where "v' = readyUpload e n (eNow e) v"
  define cd1 where "cd1 = cd\<lparr>cdUploads := updRow tuID (tuID u) (readyUpload e n (eNow e)) (cdUploads cd)\<rparr>"
  have c: "tuStatus v = AttachmentStatusPending" "uploadChecks v' = Inr ()" "cdUploads cd' = cdUploads cd1"
    "cdCover cd' = (cdCover cd1)(tripID := uploadedCover u)" "coverChecks (uploadedCover u) = Inr ()"
    "previous = (if cvSource (cdCover cd tripID) = CoverSourceUploaded then cvStorageKey (cdCover cd tripID) else [])"
    using confirmCover_Inr [OF run] v(1) by (simp_all add: v'_def cd1_def)
  have ok: "uploadOK v" using assms(5) v(2) by (simp add: coversValid_def)
  have valid1: "coversValid cd1" unfolding cd1_def
    using coversValid_update [OF assms(5) v(1) c(1) same_upload(2) ready_ok [OF ok c(2) [unfolded v'_def] assms(3,4)]] .
  have rows: "set (cdUploads cd1) = insert v' (set (cdUploads cd) - {v})"
    unfolding cd1_def v'_def using assms(5) by (simp add: set_updRow_found [OF _ v(1)] coversValid_def)
  have v': "confirmedFor cd1 tripID v'" "uploadedCover u = uploadedCover v'" "tuStorageKey v' = tuStorageKey u"
    using assms(2) v(3,4,5) rows by (simp_all add: confirmedFor_def v'_def readyUpload_def uploadedCover_def)
  show valid: "coversValid cd'"
    using coversValid_cover [OF valid1 c(3,4,5)] v'(1,2) by blast
  assume K: "objectsFree cd K"
  have K1: "objectsFree cd1 K" unfolding cd1_def by (rule objectsFree_update [OF assms(5) K v(1) c(1)])
  have "tuStorageKey u \<notin> K"
  proof
    assume "tuStorageKey u \<in> K"
    then obtain w where "w \<in> set (cdUploads cd)" "tuStorageKey w = tuStorageKey v" "tuStatus w \<noteq> AttachmentStatusPending"
      using K v(4) unfolding objectsFree_def by metis
    then show False using upload_of_key [OF assms(5) _ v(2)] c(1) by blast
  qed
  then have K': "objectsFree cd' K"
    using objectsFree_cover [OF K1 c(3,4)] by (simp add: uploadedCover_def)
  show "objectsFree cd' (K \<union> set (replacedObject previous u))"
  proof (cases "previous \<noteq> [] \<and> previous \<noteq> tuStorageKey u")
    case True
    then have up: "cvSource (cdCover cd tripID) = CoverSourceUploaded" "previous = cvStorageKey (cdCover cd tripID)"
      using c(6) by (auto split: if_splits)
    obtain w where w: "confirmedFor cd tripID w" "tuStorageKey w = previous"
      using assms(5) up by (auto simp: coversValid_def coverHeld_def uploadedCover_def)
    have "w \<noteq> v" using w(1) c(1) by (auto simp: confirmedFor_def)
    then have inw: "w \<in> set (cdUploads cd')" "tuStatus w \<noteq> AttachmentStatusPending"
      using w(1) by (simp_all add: confirmedFor_def c(3) rows)
    have "cvStorageKey (cdCover cd' t) \<noteq> previous" if t: "cvSource (cdCover cd' t) = CoverSourceUploaded" for t
    proof
      assume p: "cvStorageKey (cdCover cd' t) = previous"
      then have "confirmedFor cd' t w" using cover_upload [OF valid t inw(1)] w(2) by simp
      then have "t = tripID" using w(1) by (simp add: confirmedFor_def)
      then show False using p True by (simp add: c(4) uploadedCover_def)
    qed
    then have "objectsFree cd' {previous}" using inw w(2) by (auto simp: objectsFree_def)
    then show ?thesis using K' True by (simp add: replacedObject_def objectsFree_insert)
  next
    case False
    then show ?thesis using K' by (auto simp: replacedObject_def)
  qed
qed

lemma chosen_kept:
  assumes "coverWrite e tripID s cd = Inr (u, cd')" "coversValid cd"
  shows "coversValid cd'" "objectsFree cd K \<Longrightarrow> objectsFree cd' K"
proof -
  obtain c where c: "coverChecks c = Inr ()" "cvSource c \<noteq> CoverSourceUploaded" "cdUploads cd' = cdUploads cd"
    "cdCover cd' = (cdCover cd)(tripID := c)"
    using coverWrite_Inr [OF assms(1)] by blast
  show "coversValid cd'" using coversValid_cover [OF assms(2) c(3,4,1)] c(2) by blast
  show "objectsFree cd K \<Longrightarrow> objectsFree cd' K" using objectsFree_cover [OF _ c(3,4)] c(2) by blast
qed

lemma commit_kept:
  assumes "coversValid cd" "coverRead c cd" "runCover lowerU e c cd = (cd', ks)"
  shows "coversValid cd'" and "rejectedInTime c cd \<Longrightarrow> objectsFree cd K \<Longrightarrow> objectsFree cd' (K \<union> set ks)"
proof -
  have "coversValid cd' \<and> (rejectedInTime c cd \<longrightarrow> objectsFree cd K \<longrightarrow> objectsFree cd' (K \<union> set ks))"
  proof (cases c)
    case (SuggestionStored s)
    then show ?thesis using assms(1,3) coversValid_same [OF storeSuggestion_kept] by (auto simp: runCover_def)
  next
    case (CoverReserved tripID userID contentType name)
    then show ?thesis using assms(1,3) reserved_kept by (auto simp: runCover_def split: sum.splits)
  next
    case (UploadRejected u)
    then show ?thesis using assms rejected_kept [of u cd e cd' ks] by (simp add: runCover_def coverRead_def)
  next
    case (UploadConfirmed tripID u n)
    then show ?thesis using assms confirmed_kept [of u cd tripID n e]
      by (auto simp: runCover_def coverRead_def split: sum.splits)
  next
    case (CoverChosen tripID s)
    then show ?thesis using assms(1,3) chosen_kept by (auto simp: runCover_def split: sum.splits)
  qed
  then show "coversValid cd'" "rejectedInTime c cd \<Longrightarrow> objectsFree cd K \<Longrightarrow> objectsFree cd' (K \<union> set ks)" by blast+
qed

lemma covered_valid: "covered lowerU okCommit cd K \<Longrightarrow> coversValid cd"
proof (induction rule: covered.induct)
  case (empty cd)
  then have "cvSource (cdCover cd t) \<in> {CoverSourceLegacy, CoverSourceNeutral} \<and> cvStorageKey (cdCover cd t) = [] \<and>
    cvImageURL (cdCover cd t) = []" for t
    by (simp add: noCoversYet_def)
  then have "coverHeld cd t" for t by (fastforce simp: coverHeld_def coverChecks_def)
  then show ?case using empty by (simp add: coversValid_def noCoversYet_def)
next
  case (elsewhere cd K db)
  then show ?case using coversValid_same(1) [of "cd\<lparr>cdPlan := db\<rparr>" cd] by simp
next
  case (commit cd K c e cd' ks K')
  then show ?case using commit_kept(1) by blast
qed

lemma covered_free: "covered lowerU rejectedInTime cd K \<Longrightarrow> objectsFree cd K"
proof (induction rule: covered.induct)
  case (empty cd)
  then show ?case by (simp add: objectsFree_def)
next
  case (elsewhere cd K db)
  then show ?case using coversValid_same(2) [of "cd\<lparr>cdPlan := db\<rparr>" cd] by simp
next
  case (commit cd K c e cd' ks K')
  then show ?case using commit_kept(2) covered_valid by blast
qed

section \<open>Requests are commits\<close>

lemma covered_commit:
  "covered lowerU okCommit cd K \<Longrightarrow> coverRead c cd \<Longrightarrow> okCommit c cd \<Longrightarrow>
     covered lowerU okCommit (fst (runCover lowerU e c cd)) (K \<union> set (snd (runCover lowerU e c cd)))"
  by (rule covered.commit) (simp_all add: prod_eq_iff)

lemma covered_stored:
  assumes "covered lowerU rejectedInTime cd K"
  shows "covered lowerU rejectedInTime (snd (storeSuggestion e s cd)) K"
  using covered_commit [OF assms, of "SuggestionStored s" e] by (simp add: coverRead_def rejectedInTime_def runCover_def)

lemma covered_suggest:
  assumes "covered lowerU rejectedInTime cd K"
  shows "covered lowerU rejectedInTime (snd (Suggest lowerU prov e q cd)) K"
  using assms covered_stored [OF assms]
  by (auto simp: Suggest_def Let_def split: sum.splits option.splits)

lemma covered_apply:
  assumes "covered lowerU rejectedInTime cd K" "cover_apply prov e tripID s cd = (r, cd', ks)"
  shows "covered lowerU rejectedInTime cd' (K \<union> set ks)"
  using assms covered_commit [OF assms(1), of "CoverChosen tripID s" e]
  by (auto simp: cover_apply_def coverRead_def rejectedInTime_def runCover_def split: sum.splits if_splits option.splits)

lemma covered_upload:
  assumes "covered lowerU rejectedInTime cd K"
    "TripCoverService_RequestUpload lowerU storage e tripID userID contentType name cd = (r, cd', ks)"
  shows "covered lowerU rejectedInTime cd' (K \<union> set ks)"
  using assms covered_commit [OF assms(1), of "CoverReserved tripID userID contentType name" e]
  by (auto simp: TripCoverService_RequestUpload_def coverRead_def rejectedInTime_def runCover_def split: sum.splits option.splits)

lemma read_upload:
  "GetUploadByID i cd = Inr u \<Longrightarrow> tuID u = i \<and> findRow tuID (tuID u) (cdUploads cd) = Some u"
  using findRow_key [of tuID i "cdUploads cd" u]
  by (auto simp: GetUploadByID_def GetTripCoverUploadByID_def firstRow_def findRow_def sum_cases split: option.splits)

lemma covered_confirm:
  assumes "covered lowerU rejectedInTime cd K"
    and run: "TripCoverService_ConfirmUpload lowerU storage e tripID userID i cd = (r, cd', ks)"
  shows "covered lowerU rejectedInTime cd' (K \<union> set ks)"
proof -
  consider "cd' = cd" "ks = []"
    | u where "GetUploadByID i cd = Inr u" "tuStatus u \<noteq> AttachmentStatusReady" "(cd', ks) = rejectCover e u cd"
    | u info where "GetUploadByID i cd = Inr u" "tuTripID u = tripID" "\<not> unacceptable lowerU u info"
      "(cd', ks) = runCover lowerU e (UploadConfirmed tripID u (fiSizeBytes info)) cd"
    using run
    by (fastforce simp: TripCoverService_ConfirmUpload_def sum_cases runCover_def replacedObject_def
        split: option.splits sum.splits if_splits)
  then show ?thesis
  proof cases
    case 1
    then show ?thesis using assms(1) by simp
  next
    case (2 u)
    then have "coverRead (UploadRejected u) cd \<and> rejectedInTime (UploadRejected u) cd"
      using read_upload [OF 2(1)] by (auto simp: coverRead_def readUpload_def rejectedInTime_def)
    then show ?thesis
      using covered_commit [OF assms(1), of "UploadRejected u" e] 2(3) [symmetric] by (simp add: runCover_def)
  next
    case (3 u info)
    then have "coverRead (UploadConfirmed tripID u (fiSizeBytes info)) cd"
      using read_upload [OF 3(1)] by (auto simp: coverRead_def readUpload_def unacceptable_def)
    then show ?thesis
      using covered_commit [OF assms(1), of "UploadConfirmed tripID u (fiSizeBytes info)" e] 3(4) [symmetric]
      by (simp add: rejectedInTime_def)
  qed
qed

lemma covered_request:
  assumes "covered lowerU rejectedInTime cd K" "serveCover lowerU prov storage e req cd = (cd', ks)"
  shows "covered lowerU rejectedInTime cd' (K \<union> set ks)"
proof (cases req)
  case (AskSuggestion q)
  then show ?thesis using assms(2) covered_suggest [OF assms(1)] by (auto simp: serveCover_def)
next
  case (ApplyCover tripID userID i)
  have "covered lowerU rejectedInTime cd' (K \<union> set ks)" if "ApplySuggestion prov e tripID userID i cd = (r, cd', ks)" for r
    using that assms(1) covered_apply by (fastforce simp: ApplySuggestion_def split: sum.splits if_splits)
  then show ?thesis using ApplyCover assms(2)
    by (cases "ApplySuggestion prov e tripID userID i cd") (auto simp: serveCover_def effectOf_def)
next
  case (AssignCover tripID userID q)
  have "covered lowerU rejectedInTime cd' (K \<union> set ks)" if "AutoAssign lowerU prov e tripID userID q cd = (r, cd', ks)" for r
    using that assms(1) covered_suggest [OF assms(1), of prov e q] covered_apply
    by (fastforce simp: AutoAssign_def split: sum.splits if_splits prod.splits)
  then show ?thesis using AssignCover assms(2) by (cases "AutoAssign lowerU prov e tripID userID q cd") (auto simp: serveCover_def effectOf_def)
next
  case (AskUpload tripID userID contentType name)
  then show ?thesis using assms(2) covered_upload [OF assms(1)]
    by (cases "TripCoverService_RequestUpload lowerU storage e tripID userID contentType name cd") (auto simp: serveCover_def effectOf_def)
next
  case (ConfirmCover tripID userID i)
  then show ?thesis using assms(2) covered_confirm [OF assms(1)]
    by (cases "TripCoverService_ConfirmUpload lowerU storage e tripID userID i cd") (auto simp: serveCover_def effectOf_def)
qed

section \<open>Properties\<close>

text \<open>C12: Whatever requests on covers interleave, an uploaded cover of a trip is the object of an upload of that trip
  that was confirmed, in one of the four image types and with a size of at most 12 MiB.\<close>

theorem uploaded_cover_confirmed:
  assumes "covered lowerU okCommit cd K" "cvSource (cdCover cd t) = CoverSourceUploaded"
  shows "\<exists>u \<in> set (cdUploads cd). tuTripID u = t \<and> tuStatus u = AttachmentStatusReady \<and>
    tuStorageKey u = cvStorageKey (cdCover cd t) \<and> tuContentType u = cvContentType (cdCover cd t) \<and>
    allowedCoverType (tuContentType u) \<and> (\<exists>n. tuSizeBytes u = Some n \<and> 0 < sint n \<and> sint n \<le> 12 * 1024 * 1024)"
proof -
  obtain u where u: "confirmedFor cd t u" "cdCover cd t = uploadedCover u" "uploadOK u"
    using covered_valid [OF assms(1)] assms(2) by (auto simp: coversValid_def coverHeld_def confirmedFor_def)
  then show ?thesis
    by (intro bexI [of _ u]) (auto simp: confirmedFor_def uploadedCover_def uploadOK_def sizeWithin_def MaxTripCoverSize_def split: option.splits)
qed

text \<open>A rejection that comes after the confirmation of its upload changes no row, and still asks the storage to delete
  the object, which is the cover of the trip.\<close>

lemma late_rejection_deletes_cover:
  assumes "covered lowerU okCommit cd K" "cvSource (cdCover cd t) = CoverSourceUploaded"
  shows "\<exists>u \<in> set (cdUploads cd). rejectCover e u cd = (cd, [cvStorageKey (cdCover cd t)])"
proof -
  have valid: "coversValid cd" by (rule covered_valid [OF assms(1)])
  then obtain u where u: "confirmedFor cd t u" "cdCover cd t = uploadedCover u" "uploadOK u"
    using assms(2) by (auto simp: coversValid_def coverHeld_def confirmedFor_def)
  have "findRow tuID (tuID u) (cdUploads cd) = Some u"
    using valid u(1) by (intro findRow_mem) (simp_all add: coversValid_def confirmedFor_def)
  then have "rejectCover e u cd = (cd, [tuStorageKey u])"
    using rejectCover_found [of u cd u e] u(1,3) by (simp add: uploadOK_def confirmedFor_def)
  then show ?thesis using u by (intro bexI [of _ u]) (simp_all add: confirmedFor_def uploadedCover_def)
qed

section \<open>A sample\<close>

definition coverStorage :: FileStorage where
  "coverStorage = \<lparr>fsPresignUpload = (\<lambda>k _ _. Inr k), fsPresignDownload = (\<lambda>k _. Inr k),
     fsStat = (\<lambda>_. Inr \<lparr>fiSizeBytes = 10, fiContentType = ''image/png''\<rparr>), fsDelete = (\<lambda>_. None)\<rparr>"

definition sampleUncovered :: CoverDB where
  "sampleUncovered = \<lparr>cdPlan = sampleDB, cdCover = (\<lambda>_. noCover), cdSuggestions = [], cdUploads = []\<rparr>"

definition sampleServe :: "ID \<Rightarrow> CoverRequest \<Rightarrow> CoverDB \<Rightarrow> CoverDB \<times> str list" where
  "sampleServe i req = serveCover (\<lambda>c. c) None (Some coverStorage) (sampleEnv\<lparr>eNewID := i\<rparr>) req"

definition sampleAsked :: CoverDB where
  "sampleAsked = fst (sampleServe 8 (AskUpload 1 2 ''image/png'' ''b'') (fst (sampleServe 7 (AskUpload 1 2 ''image/png'' ''a'') sampleUncovered)))"

definition sampleCovered :: CoverDB where
  "sampleCovered = fst (sampleServe 0 (ConfirmCover 1 2 7) sampleAsked)"

lemma sampleUncovered_none: "noCoversYet sampleUncovered"
  by (simp add: noCoversYet_def sampleUncovered_def noCover_def)

lemma sampleServe_covered:
  "covered (\<lambda>c. c) rejectedInTime cd K \<Longrightarrow> \<exists>K'. covered (\<lambda>c. c) rejectedInTime (fst (sampleServe i req cd)) K'"
  unfolding sampleServe_def by (meson covered_request surjective_pairing)

lemma sampleAsked_covered: "\<exists>K. covered (\<lambda>c. c) rejectedInTime sampleAsked K"
  unfolding sampleAsked_def using sampleServe_covered covered.empty [OF sampleUncovered_none] by blast

lemma sampleCovered_covered: "\<exists>K. covered (\<lambda>c. c) rejectedInTime sampleCovered K"
  unfolding sampleCovered_def using sampleServe_covered sampleAsked_covered by blast

lemma sampleCovered_uploaded: "cvSource (cdCover sampleCovered 1) = CoverSourceUploaded"
  by code_simp

theorem uploaded_cover_confirmed_witness:
  "\<exists>u \<in> set (cdUploads sampleCovered). tuTripID u = 1 \<and> tuStatus u = AttachmentStatusReady \<and>
     tuStorageKey u = cvStorageKey (cdCover sampleCovered 1)"
  using sampleCovered_covered uploaded_cover_confirmed [OF _ sampleCovered_uploaded] by blast

end
