(* ===== verification/CoverHandlers.thy ===== *)
theory CoverHandlers
  imports AttachmentHandlers CoverLife
begin

text \<open>The handlers of a deployment with covers (src/internal/transport/http: trip_cover_handler.go and the cover
  parts of trip_handler.go): the search of a suggestion, the upload of a cover, and the trip requests that
  choose a cover on the way. A reply names the objects the service asked the storage to delete.\<close>

section \<open>Bodies and documents\<close>

record CoverConfig =
  ckLower :: "str \<Rightarrow> str"
  ckProvider :: "CoverPhotoProvider option"
  ckStorage :: "FileStorage option"

record coverSuggestionResponse =
  csID :: str
  csSource :: str
  csURL :: str
  csPhotographerName :: str
  csPhotographerURL :: str
  csPhotoURL :: str

definition toCoverSuggestionResponse :: "(ID \<Rightarrow> str) \<Rightarrow> TripCoverSuggestion \<Rightarrow> coverSuggestionResponse" where
  "toCoverSuggestionResponse us s =
     (let out = \<lparr>csID = (if tgID s \<noteq> NilID then us (tgID s) else []), csSource = ''neutral'', csURL = [],
        csPhotographerName = [], csPhotographerURL = [], csPhotoURL = []\<rparr> in
      if tgFound s then out\<lparr>csSource := ''suggested'', csURL := tgImageURL s, csPhotographerName := tgPhotographerName s,
        csPhotographerURL := tgPhotographerURL s, csPhotoURL := tgPhotoURL s\<rparr>
      else out)"

record coverUploadRequest =
  cuContentType :: str
  cuOriginalName :: str

definition coverUploadRequest_member :: "str \<Rightarrow> raw \<Rightarrow> coverUploadRequest \<Rightarrow> decodeFailure + coverUploadRequest" where
  "coverUploadRequest_member key r b =
     (if foldName key = ''content_type'' then valueField ''content_type'' rawText (\<lambda>x. b\<lparr>cuContentType := x\<rparr>) r b
      else if foldName key = ''original_name'' then valueField ''original_name'' rawText (\<lambda>x. b\<lparr>cuOriginalName := x\<rparr>) r b
      else Inl (UnknownField key))"

record tripCoverResponse =
  vrSource :: str
  vrURL :: str
  vrPhotographerName :: str
  vrPhotographerURL :: str
  vrPhotoURL :: str

definition toTripCoverResponse :: "Cover \<Rightarrow> str \<Rightarrow> tripCoverResponse" where
  "toTripCoverResponse c url =
     (let source = (if cvSource c = [] then CoverSourceLegacy else cvSource c) in
      \<lparr>vrSource = source, vrURL = (if source = CoverSourceUploaded then url else cvImageURL c),
       vrPhotographerName = cvPhotographerName c, vrPhotographerURL = cvPhotographerURL c, vrPhotoURL = cvPhotoURL c\<rparr>)"

datatype coverBody =
    SuggestionBody coverSuggestionResponse
  | CoverUploadBody str AttachmentStatus str instant
  | CoveredTripBody tripResponse tripCoverResponse
  | CoveredTripsBody "(tripResponse \<times> tripCoverResponse) list" str bool

type_synonym coverHttpReply = "coverBody HttpResponse \<times> CoverDB \<times> str list"

definition coveredDocument :: "HttpLib \<Rightarrow> coveredTrip \<Rightarrow> tripResponse \<times> tripCoverResponse" where
  "coveredDocument l x = (case x of (t, c, url) \<Rightarrow> (toTripResponse (cdIDText (hlCodec l)) t, toTripCoverResponse c url))"

definition coveredBody :: "HttpLib \<Rightarrow> coveredTrip \<Rightarrow> coverBody" where
  "coveredBody l x = CoveredTripBody (fst (coveredDocument l x)) (snd (coveredDocument l x))"

definition resolveCover :: "CoverConfig \<Rightarrow> coveredTrip \<Rightarrow> coveredTrip" where
  "resolveCover k x = (case cover_Resolve (ckStorage k) x of Inl _ \<Rightarrow> x | Inr y \<Rightarrow> y)"

section \<open>The handlers of covers\<close>

definition TripCoverHandler_Suggest :: "CoverConfig \<Rightarrow> HttpLib \<Rightarrow> Env \<Rightarrow> HttpRequest \<Rightarrow> CoverDB \<Rightarrow> coverHttpReply" where
  "TripCoverHandler_Suggest k l e r cd = handle r cd (bindR (UserIDFrom r) (\<lambda>_.
     Inr (answer r (\<lambda>s. writeData 200 (SuggestionBody (toCoverSuggestionResponse (cdIDText (hlCodec l)) s)))
       (case Suggest (ckLower k) (ckProvider k) e (hrQuery r ''query'') cd of (res, cd') \<Rightarrow> (res, cd', [])))))"

definition TripCoverHandler_RequestUpload :: "CoverConfig \<Rightarrow> HttpLib \<Rightarrow> Env \<Rightarrow> HttpRequest \<Rightarrow> CoverDB \<Rightarrow> coverHttpReply" where
  "TripCoverHandler_RequestUpload k l e r cd = handle r cd (inTrip l r (\<lambda>userID tripID.
     bindR (decodeJSON l coverUploadRequest_member \<lparr>cuContentType = [], cuOriginalName = []\<rparr> r) (\<lambda>body.
       Inr (answer r (\<lambda>t. writeData 201 (CoverUploadBody (cdIDText (hlCodec l) (tuID (ctUpload t))) (tuStatus (ctUpload t))
           (ctUploadURL t) (ctExpiresAt t)))
         (TripCoverService_RequestUpload (ckLower k) (ckStorage k) e tripID userID (cuContentType body) (cuOriginalName body) cd)))))"

definition TripCoverHandler_ConfirmUpload :: "CoverConfig \<Rightarrow> HttpLib \<Rightarrow> Env \<Rightarrow> HttpRequest \<Rightarrow> CoverDB \<Rightarrow> coverHttpReply" where
  "TripCoverHandler_ConfirmUpload k l e r cd = handle r cd (onResource l r ''uploadID'' (\<lambda>userID tripID i.
     Inr (answer r (\<lambda>x. writeData 200 (coveredBody l x))
       (TripCoverService_ConfirmUpload (ckLower k) (ckStorage k) e tripID userID i cd))))"

section \<open>The handlers of trips with covers\<close>

definition parseCoverSuggestionID :: "HttpLib \<Rightarrow> Env \<Rightarrow> str option \<Rightarrow> CoverDB \<Rightarrow> ID res" where
  "parseCoverSuggestionID l e raw cd =
     (case raw of
        None \<Rightarrow> Inr NilID
      | Some s \<Rightarrow>
          if s = [] then Inr NilID
          else bindR (ParseID (httpUUID l) ''cover_suggestion_id'' s) (\<lambda>i. bindR (ValidateSuggestion e i cd) (\<lambda>_. Inr i)))"

text \<open>The trip is written first, by a transaction of its own; what happens to its cover cannot undo it.\<close>

definition afterTrip ::
  "HttpRequest \<Rightarrow> CoverDB \<Rightarrow> Trip outcome \<Rightarrow> (Trip \<Rightarrow> CoverDB \<Rightarrow> coverHttpReply) \<Rightarrow> coverHttpReply" where
  "afterTrip r cd x covers = (case x of (res, db, _) \<Rightarrow>
     (case res of
        Inl err \<Rightarrow> (writeProblem (writeError err r), cd\<lparr>cdPlan := db\<rparr>, [])
      | Inr t \<Rightarrow> covers t (cd\<lparr>cdPlan := db\<rparr>)))"

definition chooseCover :: "CoverConfig \<Rightarrow> Env \<Rightarrow> ID \<Rightarrow> ID \<Rightarrow> ID \<Rightarrow> str \<Rightarrow> CoverDB \<Rightarrow> coveredTrip coverReply" where
  "chooseCover k e tripID userID suggestionID name cd =
     (if suggestionID \<noteq> NilID then ApplySuggestion (ckProvider k) e tripID userID suggestionID cd
      else AutoAssign (ckLower k) (ckProvider k) e tripID userID name cd)"

definition TripHandler_Create_covered ::
  "CoverConfig \<Rightarrow> HttpLib \<Rightarrow> PeopleConfig \<Rightarrow> PeopleEnv \<Rightarrow> Env \<Rightarrow> AuthDB \<Rightarrow> HttpRequest \<Rightarrow> CoverDB \<Rightarrow> coverHttpReply" where
  "TripHandler_Create_covered k l cfg pe e accounts r cd = handle r cd (
     bindR (UserIDFrom r) (\<lambda>userID.
     bindR (decodeJSON l (tripRequest_member (cdWire (hlCodec l))) zeroTripRequest r) (\<lambda>body.
     bindR (liftE (parseCoverSuggestionID l e (tqCoverSuggestionID body) cd)) (\<lambda>suggestionID.
       Inr (afterTrip r cd (TripService_Create cfg pe (auUsers accounts) userID (tripInput body) (cdPlan cd))
         (\<lambda>t cd. answer r (\<lambda>x. writeData 201 (coveredBody l (resolveCover k x)))
            (chooseCover k e (trID t) userID suggestionID (trName t) cd)))))))"

definition TripHandler_Update_covered ::
  "CoverConfig \<Rightarrow> HttpLib \<Rightarrow> PeopleConfig \<Rightarrow> PeopleEnv \<Rightarrow> Env \<Rightarrow> HttpRequest \<Rightarrow> CoverDB \<Rightarrow> coverHttpReply" where
  "TripHandler_Update_covered k l cfg pe e r cd = handle r cd (inTrip l r (\<lambda>userID tripID.
     bindR (decodeJSON l (tripRequest_member (cdWire (hlCodec l))) zeroTripRequest r) (\<lambda>body.
     bindR (liftE (parseCoverSuggestionID l e (tqCoverSuggestionID body) cd)) (\<lambda>suggestionID.
     bindR (liftE (TripService_Get tripID userID (cdPlan cd))) (\<lambda>before.
       Inr (afterTrip r cd (TripService_Update cfg pe tripID userID (tripInput body) (tqVersion body) (cdPlan cd))
         (\<lambda>t cd. answer r (\<lambda>x. writeData 200 (coveredBody l (resolveCover k x)))
            (if cvSource (cdCover cd tripID) \<noteq> CoverSourceUploaded \<and>
                (suggestionID \<noteq> NilID \<or> TrimSpace (trName before) \<noteq> TrimSpace (trName t))
             then chooseCover k e tripID userID suggestionID (trName t) cd
             else (Inr (t, cdCover cd tripID, []), cd, [])))))))))"

definition TripHandler_List_covered :: "CoverConfig \<Rightarrow> HttpLib \<Rightarrow> PeopleConfig \<Rightarrow> HttpRequest \<Rightarrow> CoverDB \<Rightarrow> coverHttpReply" where
  "TripHandler_List_covered k l cfg r cd = handle r cd (
     bindR (UserIDFrom r) (\<lambda>userID.
     bindR (queryPage r) (\<lambda>page.
       Inr (answer r (\<lambda>p. writeData 200 (CoveredTripsBody
             (map (\<lambda>t. coveredDocument l (resolveCover k (t, cdCover cd (trID t), []))) (pgItems p)) (pgNextCursor p) (pgHasMore p)))
         (reading cd (TripService_ListForUser cfg userID page (cdPlan cd)))))))"

definition TripHandler_Get_covered :: "CoverConfig \<Rightarrow> HttpLib \<Rightarrow> HttpRequest \<Rightarrow> CoverDB \<Rightarrow> coverHttpReply" where
  "TripHandler_Get_covered k l r cd = handle r cd (inTrip l r (\<lambda>userID tripID.
     Inr (answer r (\<lambda>t. writeData 200 (coveredBody l (resolveCover k (t, cdCover cd tripID, []))))
       (reading cd (TripService_Get tripID userID (cdPlan cd))))))"

datatype CoverEndpoint =
  GetSuggestion | PostCoverUpload | PostCoverConfirm | PostCoveredTrip | PatchCoveredTrip | GetCoveredTrips | GetCoveredTrip

definition runCoverEndpoint ::
  "CoverConfig \<Rightarrow> HttpLib \<Rightarrow> PeopleConfig \<Rightarrow> PeopleEnv \<Rightarrow> Env \<Rightarrow> AuthDB \<Rightarrow> CoverEndpoint \<Rightarrow> HttpRequest \<Rightarrow> CoverDB \<Rightarrow> coverHttpReply" where
  "runCoverEndpoint k l cfg pe e accounts ep r cd = (case ep of
       GetSuggestion \<Rightarrow> TripCoverHandler_Suggest k l e r cd
     | PostCoverUpload \<Rightarrow> TripCoverHandler_RequestUpload k l e r cd
     | PostCoverConfirm \<Rightarrow> TripCoverHandler_ConfirmUpload k l e r cd
     | PostCoveredTrip \<Rightarrow> TripHandler_Create_covered k l cfg pe e accounts r cd
     | PatchCoveredTrip \<Rightarrow> TripHandler_Update_covered k l cfg pe e r cd
     | GetCoveredTrips \<Rightarrow> TripHandler_List_covered k l cfg r cd
     | GetCoveredTrip \<Rightarrow> TripHandler_Get_covered k l r cd)"

section \<open>A request is at most one request on covers\<close>

definition coverCaller :: "CoverRequest \<Rightarrow> ID option" where
  "coverCaller req = (case req of AskSuggestion _ \<Rightarrow> None | ApplyCover _ u _ \<Rightarrow> Some u | AssignCover _ u _ \<Rightarrow> Some u
     | AskUpload _ u _ _ \<Rightarrow> Some u | ConfirmCover _ u _ \<Rightarrow> Some u)"

definition calledBy :: "HttpRequest \<Rightarrow> CoverRequest \<Rightarrow> bool" where
  "calledBy r req \<longleftrightarrow> (case hrClaims r of None \<Rightarrow> False | Some c \<Rightarrow> coverCaller req = None \<or> coverCaller req = Some (clUserID c))"

definition coverEffect :: "CoverConfig \<Rightarrow> Env \<Rightarrow> HttpRequest \<Rightarrow> CoverDB \<Rightarrow> coverHttpReply \<Rightarrow> bool" where
  "coverEffect k e r cd x \<longleftrightarrow> (\<exists>db. snd x = (cd\<lparr>cdPlan := db\<rparr>, []) \<or>
     (\<exists>req. calledBy r req \<and> snd x = serveCover (ckLower k) (ckProvider k) (ckStorage k) e req (cd\<lparr>cdPlan := db\<rparr>)))"

lemma effect_none: "snd x = (cd\<lparr>cdPlan := db\<rparr>, []) \<Longrightarrow> coverEffect k e r cd x"
  unfolding coverEffect_def by blast

lemma effect_same: "snd x = (cd, []) \<Longrightarrow> coverEffect k e r cd x"
  by (rule effect_none [where db = "cdPlan cd"]) simp

lemma effect_asked:
  "calledBy r req \<Longrightarrow> snd x = serveCover (ckLower k) (ckProvider k) (ckStorage k) e req (cd\<lparr>cdPlan := db\<rparr>) \<Longrightarrow> coverEffect k e r cd x"
  unfolding coverEffect_def by blast

lemma effect_asked_now:
  "calledBy r req \<Longrightarrow> snd x = serveCover (ckLower k) (ckProvider k) (ckStorage k) e req cd \<Longrightarrow> coverEffect k e r cd x"
  by (rule effect_asked [where db = "cdPlan cd"]) simp_all

lemma effect_handle: "whenInr (coverEffect k e r cd) q \<Longrightarrow> coverEffect k e r cd (handle r cd q)"
  by (cases q) (simp_all add: handle_def effect_same whenInr_def)

lemma snd_answer: "snd (answer r ok x) = snd x"
  by (simp add: answer_def split: prod.splits)

lemma called:
  "hrClaims r = Some claims \<Longrightarrow> coverCaller req = None \<or> coverCaller req = Some (clUserID claims) \<Longrightarrow> calledBy r req"
  by (simp add: calledBy_def)

lemma chooseCover_served:
  "snd (chooseCover k e tripID u i name cd) = serveCover (ckLower k) (ckProvider k) (ckStorage k) e
     (if i \<noteq> NilID then ApplyCover tripID u i else AssignCover tripID u name) cd"
  by (simp add: chooseCover_def serveCover_def effectOf_def)

text \<open>A handler that answers with one request on covers, and one that answers without.\<close>

lemma effect_request:
  assumes "hrClaims r = Some claims"
  shows "coverEffect k e r cd (answer r ok (chooseCover k e tripID (clUserID claims) i name (cd\<lparr>cdPlan := db\<rparr>)))"
    "coverEffect k e r cd (answer r ok2 (TripCoverService_RequestUpload (ckLower k) (ckStorage k) e tripID (clUserID claims) contentType name cd))"
    "coverEffect k e r cd (answer r ok3 (TripCoverService_ConfirmUpload (ckLower k) (ckStorage k) e tripID (clUserID claims) i cd))"
    "coverEffect k e r cd (answer r ok4 (case Suggest (ckLower k) (ckProvider k) e q cd of (res, cd') \<Rightarrow> (res, cd', [])))"
proof -
  show "coverEffect k e r cd (answer r ok (chooseCover k e tripID (clUserID claims) i name (cd\<lparr>cdPlan := db\<rparr>)))"
    by (rule effect_asked [where req = "if i \<noteq> NilID then ApplyCover tripID (clUserID claims) i else AssignCover tripID (clUserID claims) name"
          and db = db])
      (simp_all add: snd_answer chooseCover_served called [OF assms] coverCaller_def)
  show "coverEffect k e r cd (answer r ok2 (TripCoverService_RequestUpload (ckLower k) (ckStorage k) e tripID (clUserID claims) contentType name cd))"
    by (rule effect_asked_now [where req = "AskUpload tripID (clUserID claims) contentType name"])
      (simp_all add: snd_answer serveCover_def effectOf_def called [OF assms] coverCaller_def)
  show "coverEffect k e r cd (answer r ok3 (TripCoverService_ConfirmUpload (ckLower k) (ckStorage k) e tripID (clUserID claims) i cd))"
    by (rule effect_asked_now [where req = "ConfirmCover tripID (clUserID claims) i"])
      (simp_all add: snd_answer serveCover_def effectOf_def called [OF assms] coverCaller_def)
  show "coverEffect k e r cd (answer r ok4 (case Suggest (ckLower k) (ckProvider k) e q cd of (res, cd') \<Rightarrow> (res, cd', [])))"
    by (rule effect_asked_now [where req = "AskSuggestion q"])
      (simp_all add: snd_answer serveCover_def called [OF assms] coverCaller_def split: prod.splits)
qed

lemma effect_answered:
  "coverEffect k e r cd (answer r ok (reading cd res))"
  "coverEffect k e r cd (answer r ok2 (res2, cd\<lparr>cdPlan := db\<rparr>, []))"
  by (auto simp: snd_answer reading_def intro: effect_same effect_none)

lemma effect_if: "coverEffect k e r cd (answer r ok x) \<Longrightarrow> coverEffect k e r cd (answer r ok y) \<Longrightarrow>
    coverEffect k e r cd (answer r ok (if b then x else y))"
  by simp

lemma effect_afterTrip:
  "(\<And>t db. coverEffect k e r cd (covers t (cd\<lparr>cdPlan := db\<rparr>))) \<Longrightarrow> coverEffect k e r cd (afterTrip r cd x covers)"
  by (cases x) (auto simp: afterTrip_def split: sum.splits intro: effect_none)

lemmas cover_intros = effect_handle whenInr_inTrip whenInr_onResource whenInr_caller whenInr_bind whenInr_Inr
  effect_afterTrip effect_if effect_request effect_answered

lemma cover_handlers:
  "coverEffect k e r cd (TripCoverHandler_Suggest k l e r cd)"
  "coverEffect k e r cd (TripCoverHandler_RequestUpload k l e r cd)"
  "coverEffect k e r cd (TripCoverHandler_ConfirmUpload k l e r cd)"
  "coverEffect k e r cd (TripHandler_Create_covered k l cfg pe e accounts r cd)"
  "coverEffect k e r cd (TripHandler_Update_covered k l cfg pe e r cd)"
  "coverEffect k e r cd (TripHandler_List_covered k l cfg r cd)"
  "coverEffect k e r cd (TripHandler_Get_covered k l r cd)"
  unfolding TripCoverHandler_Suggest_def TripCoverHandler_RequestUpload_def TripCoverHandler_ConfirmUpload_def
    TripHandler_Create_covered_def TripHandler_Update_covered_def TripHandler_List_covered_def TripHandler_Get_covered_def
  by (intro cover_intros; assumption)+

lemma cover_endpoints: "coverEffect k e r cd (runCoverEndpoint k l cfg pe e accounts ep r cd)"
  by (cases ep) (simp_all add: runCoverEndpoint_def cover_handlers)

text \<open>C11: In a deployment with covers, a request on trips or their covers changes the rest of the database at most by what
  the trip service does, and the covers at most by one request of the cover service for the caller; and the
  cover of a trip is never an object that this or an earlier request asked the storage to delete, as long
  as no upload is confirmed between its check and its rejection.\<close>

theorem cover_http_served:
  assumes "covered (ckLower k) rejectedInTime cd K" "runCoverEndpoint k l cfg pe e accounts ep r cd = (p, cd', ks)"
  shows "(\<exists>db. cd' = cd\<lparr>cdPlan := db\<rparr> \<and> ks = [] \<or>
      (\<exists>req. calledBy r req \<and> serveCover (ckLower k) (ckProvider k) (ckStorage k) e req (cd\<lparr>cdPlan := db\<rparr>) = (cd', ks))) \<and>
    (\<forall>t. cvSource (cdCover cd' t) = CoverSourceUploaded \<longrightarrow> cvStorageKey (cdCover cd' t) \<notin> K \<union> set ks)"
proof -
  have elsewhere: "covered (ckLower k) rejectedInTime (cd\<lparr>cdPlan := db\<rparr>) K" for db by (rule covered.elsewhere [OF assms(1)])
  have effect: "coverEffect k e r cd (p, cd', ks)" using cover_endpoints [of k e r cd l cfg pe accounts ep] assms(2) by simp
  then have "covered (ckLower k) rejectedInTime cd' (K \<union> set ks)"
    unfolding coverEffect_def snd_conv
  proof (elim exE disjE conjE)
    fix db assume "(cd', ks) = (cd\<lparr>cdPlan := db\<rparr>, [])"
    then show ?thesis using elsewhere [of db] by simp
  next
    fix db req assume "(cd', ks) = serveCover (ckLower k) (ckProvider k) (ckStorage k) e req (cd\<lparr>cdPlan := db\<rparr>)"
    then show ?thesis by (intro covered_request [OF elsewhere [of db]]) simp
  qed
  then have "\<forall>t. cvSource (cdCover cd' t) = CoverSourceUploaded \<longrightarrow> cvStorageKey (cdCover cd' t) \<notin> K \<union> set ks"
    using covered_free unfolding objectsFree_def by blast
  then show ?thesis using effect unfolding coverEffect_def snd_conv prod.inject by metis
qed

definition sampleCoverConfig :: CoverConfig where
  "sampleCoverConfig = \<lparr>ckLower = (\<lambda>c. c), ckProvider = None, ckStorage = Some coverStorage\<rparr>"

definition sampleCoverCall :: HttpRequest where
  "sampleCoverCall = (sampleCall ''POST'' [] RawNull)
     \<lparr>hrParam := (\<lambda>p. if p = ''tripID'' then unaryText 1 else unaryText 8), hrClaims := Some \<lparr>clUserID = 2, clSessionID = 11\<rparr>\<rparr>"

definition sampleCoverReply :: coverHttpReply where
  "sampleCoverReply = runCoverEndpoint sampleCoverConfig sampleFilesLib samplePeople (peopleEnv 6 8 ''y'') sampleEnv sampleAccounts
     PostCoverConfirm sampleCoverCall sampleCovered"

lemma sampleCoverReply_facts:
  "case sampleCoverReply of (p, cd', ks) \<Rightarrow> rsStatus p = 200 \<and> cvSource (cdCover cd' 1) = CoverSourceUploaded \<and>
     ks = [cvStorageKey (cdCover sampleCovered 1)]"
  by code_simp

theorem cover_http_served_witness:
  "\<exists>p cd' ks. sampleCoverReply = (p, cd', ks) \<and> rsStatus p = 200 \<and> ks = [cvStorageKey (cdCover sampleCovered 1)] \<and>
     cvStorageKey (cdCover cd' 1) \<notin> set ks"
proof -
  obtain K where K: "covered (ckLower sampleCoverConfig) rejectedInTime sampleCovered K"
    using sampleCovered_covered by (auto simp: sampleCoverConfig_def)
  obtain p cd' ks where x: "sampleCoverReply = (p, cd', ks)" by (metis prod_cases3)
  note f = sampleCoverReply_facts [unfolded x prod.case]
  have "cvStorageKey (cdCover cd' 1) \<notin> set ks"
    using cover_http_served [OF K x [unfolded sampleCoverReply_def]] f by blast
  then show ?thesis using x f by blast
qed

end
