(* ===== verification/Passwords.thy ===== *)
theory Passwords
  imports Credentials
begin

text \<open>Stored passwords (src/internal/security/argon2.go): the text of a hash, which carries its own parameters and
  salt, what verifying reads back of it, and what that makes of a login. The key derivation of
  \<^theory_text>\<open>golang.org/x/crypto/argon2\<close> and the random salt are parameters; base64 and the scanning of numbers
  (\<^theory_text>\<open>encoding/base64\<close>, \<^theory_text>\<open>fmt.Sscanf\<close>) are modelled as far as the code uses them.\<close>

section \<open>Base64 without padding\<close>

text \<open>The alphabet: capitals, small letters, digits, plus and slash.\<close>

definition sextet :: "nat \<Rightarrow> char" where
  "sextet n = char_of (if n < 26 then n + 65 else if n < 52 then n + 71 else if n < 62 then n - 4 else if n = 62 then 43 else 47)"

definition sextetValue :: "char \<Rightarrow> nat option" where
  "sextetValue c =
     (let b = byte c in
      if 65 \<le> b \<and> b \<le> 90 then Some (b - 65) else if 97 \<le> b \<and> b \<le> 122 then Some (b - 71)
      else if 48 \<le> b \<and> b \<le> 57 then Some (b + 4) else if b = 43 then Some 62 else if b = 47 then Some 63 else None)"

fun base64Encode :: "str \<Rightarrow> str" where
  "base64Encode [] = []"
| "base64Encode [a] = [sextet (byte a div 4), sextet (byte a mod 4 * 16)]"
| "base64Encode [a, b] =
     [sextet (byte a div 4), sextet (byte a mod 4 * 16 + byte b div 16), sextet (byte b mod 16 * 4)]"
| "base64Encode (a # b # c # rest) =
     sextet (byte a div 4) # sextet (byte a mod 4 * 16 + byte b div 16) # sextet (byte b mod 16 * 4 + byte c div 64) #
     sextet (byte c mod 64) # base64Encode rest"

text \<open>Decoding skips line ends; the bits a last group has too many are ignored, one character over is an error.\<close>

fun decodeSextets :: "nat list \<Rightarrow> str option" where
  "decodeSextets [] = Some []"
| "decodeSextets [_] = None"
| "decodeSextets [p, q] = Some [char_of (p * 4 + q div 16)]"
| "decodeSextets [p, q, r] = Some [char_of (p * 4 + q div 16), char_of (q mod 16 * 16 + r div 4)]"
| "decodeSextets (p # q # r # s # rest) = map_option (\<lambda>bs.
     char_of (p * 4 + q div 16) # char_of (q mod 16 * 16 + r div 4) # char_of (r mod 4 * 64 + s) # bs) (decodeSextets rest)"

definition base64Decode :: "str \<Rightarrow> str option" where
  "base64Decode s =
     (let vs = map sextetValue (filter (\<lambda>c. byte c \<notin> {10, 13}) s) in
      if None \<in> set vs then None else decodeSextets (map the vs))"

lemma sextet_value [simp]: "n < 64 \<Longrightarrow> sextetValue (sextet n) = Some n"
  by (auto simp: sextetValue_def sextet_def Let_def)

lemma sextet_plain: "n < 64 \<Longrightarrow> byte (sextet n) \<notin> {10, 13, 36}"
  by (auto simp: sextet_def)

lemma byte_less [simp]: "byte c < 256"
  by (cases c) (simp add: of_char_def)

fun encodeSextets :: "str \<Rightarrow> nat list" where
  "encodeSextets [] = []"
| "encodeSextets [a] = [byte a div 4, byte a mod 4 * 16]"
| "encodeSextets [a, b] = [byte a div 4, byte a mod 4 * 16 + byte b div 16, byte b mod 16 * 4]"
| "encodeSextets (a # b # c # rest) =
     byte a div 4 # (byte a mod 4 * 16 + byte b div 16) # (byte b mod 16 * 4 + byte c div 64) # byte c mod 64 # encodeSextets rest"

lemma base64Encode_sextets: "base64Encode s = map sextet (encodeSextets s)"
  by (induction s rule: base64Encode.induct) simp_all

lemma encodeSextets_less: "n \<in> set (encodeSextets s) \<Longrightarrow> n < 64"
proof (induction s rule: encodeSextets.induct)
  case (2 a)
  have "byte a div 4 < 64" "byte a mod 4 * 16 < 64" using byte_less [of a] by linarith+
  then show ?case using 2 by auto
next
  case (3 a b)
  have "byte a div 4 < 64" "byte a mod 4 * 16 + byte b div 16 < 64" "byte b mod 16 * 4 < 64"
    using byte_less [of a] byte_less [of b] by linarith+
  then show ?case using 3 by auto
next
  case (4 a b c rest)
  have "byte a div 4 < 64" "byte a mod 4 * 16 + byte b div 16 < 64" "byte b mod 16 * 4 + byte c div 64 < 64"
    using byte_less [of a] byte_less [of b] byte_less [of c] by linarith+
  then show ?case using 4 by auto
qed simp

lemma rebuilt:
  "char_of (byte a div 4 * 4 + byte a mod 4 * 16 div 16) = a"
  "char_of (byte a div 4 * 4 + (byte a mod 4 * 16 + byte b div 16) div 16) = a"
  "char_of ((byte a mod 4 * 16 + byte b div 16) mod 16 * 16 + byte b mod 16 * 4 div 4) = b"
  "char_of ((byte a mod 4 * 16 + byte b div 16) mod 16 * 16 + (byte b mod 16 * 4 + byte c div 64) div 4) = b"
  "char_of ((byte b mod 16 * 4 + byte c div 64) mod 4 * 64 + byte c mod 64) = c"
proof -
  have "byte b div 16 < 16" "byte c div 64 < 4" using byte_less [of b] byte_less [of c] by linarith+
  then have "byte a div 4 * 4 + byte a mod 4 * 16 div 16 = byte a"
    "byte a div 4 * 4 + (byte a mod 4 * 16 + byte b div 16) div 16 = byte a"
    "(byte a mod 4 * 16 + byte b div 16) mod 16 * 16 + byte b mod 16 * 4 div 4 = byte b"
    "(byte a mod 4 * 16 + byte b div 16) mod 16 * 16 + (byte b mod 16 * 4 + byte c div 64) div 4 = byte b"
    "(byte b mod 16 * 4 + byte c div 64) mod 4 * 64 + byte c mod 64 = byte c"
    by simp_all
  then show "char_of (byte a div 4 * 4 + byte a mod 4 * 16 div 16) = a"
    "char_of (byte a div 4 * 4 + (byte a mod 4 * 16 + byte b div 16) div 16) = a"
    "char_of ((byte a mod 4 * 16 + byte b div 16) mod 16 * 16 + byte b mod 16 * 4 div 4) = b"
    "char_of ((byte a mod 4 * 16 + byte b div 16) mod 16 * 16 + (byte b mod 16 * 4 + byte c div 64) div 4) = b"
    "char_of ((byte b mod 16 * 4 + byte c div 64) mod 4 * 64 + byte c mod 64) = c"
    by (simp_all only: char_of_char)
qed

lemma decodeSextets_encode: "decodeSextets (encodeSextets s) = Some s"
  by (induction s rule: encodeSextets.induct) (simp_all only: encodeSextets.simps decodeSextets.simps rebuilt option.map)

lemma base64_roundtrip: "base64Decode (base64Encode s) = Some s"
proof -
  have less: "\<forall>n \<in> set (encodeSextets s). n < 64" using encodeSextets_less by blast
  have "filter (\<lambda>c. byte c \<notin> {10, 13}) (base64Encode s) = base64Encode s"
    using less sextet_plain by (auto simp: base64Encode_sextets filter_id_conv)
  moreover have "map sextetValue (base64Encode s) = map Some (encodeSextets s)"
    using less by (simp add: base64Encode_sextets)
  ultimately show ?thesis by (simp add: base64Decode_def Let_def comp_def decodeSextets_encode image_iff)
qed

lemma base64_no_dollar: "CHR ''$'' \<notin> set (base64Encode s)"
proof
  assume "CHR ''$'' \<in> set (base64Encode s)"
  then obtain n where n: "n \<in> set (encodeSextets s)" "CHR ''$'' = sextet n" by (auto simp: base64Encode_sextets)
  have "byte (CHR ''$'') = 36" by simp
  then show False using sextet_plain [OF encodeSextets_less [OF n(1)]] n(2) by simp
qed

section \<open>Numbers in a text\<close>

fun formatNat :: "nat \<Rightarrow> str" where
  "formatNat n = (if n < 10 then [decDigit n] else formatNat (n div 10) @ [decDigit (n mod 10)])"

declare formatNat.simps [simp del]

definition digitsValue :: "str \<Rightarrow> nat" where
  "digitsValue ds = foldl (\<lambda>v c. v * 10 + (byte c - 48)) 0 ds"

lemma formatNat_digits: "formatNat n \<noteq> [] \<and> list_all isDecDigit (formatNat n) \<and> digitsValue (formatNat n) = n"
proof (induction n rule: formatNat.induct)
  case (1 n)
  have digit: "byte (decDigit k) = k + 48" if "k < 10" for k using that by (simp add: decDigit_def)
  show ?case
  proof (cases "n < 10")
    case True
    then show ?thesis by (simp add: formatNat.simps [of n] digitsValue_def digit)
  next
    case False
    then show ?thesis using 1 [OF False] digit [of "n mod 10"] by (simp add: formatNat.simps [of n] digitsValue_def)
  qed
qed

text \<open>\<^theory_text>\<open>fmt.Sscanf\<close> with literal text and \<^theory_text>\<open>%d\<close>: white space before a number is skipped, a line end is an error; a
  number has at least one digit and fits its type, a signed one may carry a sign; what follows is not read.\<close>

fun skipSegments :: "str list \<Rightarrow> str list option" where
  "skipSegments [] = Some []"
| "skipSegments (g # gs) = (if g = [CHR 0x0A] then None else if spaceSegment g then skipSegments gs else Some (g # gs))"

definition skipSpace :: "str \<Rightarrow> str option" where
  "skipSpace s = map_option concat (skipSegments (segments s))"

definition scanDigits :: "nat \<Rightarrow> str \<Rightarrow> (nat \<times> str) option" where
  "scanDigits bound s =
     (let ds = takeWhile isDecDigit s in
      if ds = [] \<or> digitsValue ds \<ge> bound then None else Some (digitsValue ds, dropWhile isDecDigit s))"

definition scanUint :: "nat \<Rightarrow> str \<Rightarrow> (nat \<times> str) option" where
  "scanUint bits s = Option.bind (skipSpace s) (scanDigits (2 ^ bits))"

definition scanInt :: "str \<Rightarrow> (int \<times> str) option" where
  "scanInt s = Option.bind (skipSpace s) (\<lambda>s.
     if s \<noteq> [] \<and> hd s = CHR ''-'' then map_option (\<lambda>(n, r). (- int n, r)) (scanDigits (2 ^ 63 + 1) (tl s))
     else if s \<noteq> [] \<and> hd s = CHR ''+'' then map_option (\<lambda>(n, r). (int n, r)) (scanDigits (2 ^ 63) (tl s))
     else map_option (\<lambda>(n, r). (int n, r)) (scanDigits (2 ^ 63) s))"

definition scanLiteral :: "str \<Rightarrow> str \<Rightarrow> str option" where
  "scanLiteral p s = (if take (length p) s = p then Some (drop (length p) s) else None)"

lemma skipSpace_digit: "isDecDigit d \<Longrightarrow> skipSpace (d # s) = Some (d # s)"
proof -
  assume d: "isDecDigit d"
  then have less: "byte d < 128" "byte d \<noteq> 10" by (simp_all add: isDecDigit_def)
  then have seg: "segments (d # s) = [d] # segments s" by (subst segments.simps) (simp add: decodeRune_ascii)
  moreover have "\<not> spaceSegment [d]"
    using d less by (auto simp: spaceSegment_def decodeRune_ascii isSpaceRune_def isDecDigit_def)
  moreover have "d \<noteq> CHR 0x0A" using less by auto
  ultimately show ?thesis using concat_segments [of "d # s"] by (simp add: skipSpace_def)
qed

lemma scanDigits_format:
  assumes "n < bound" "\<And>c r. s = c # r \<Longrightarrow> \<not> isDecDigit c"
  shows "scanDigits bound (formatNat n @ s) = Some (n, s)"
proof -
  have s: "takeWhile isDecDigit s = []" "dropWhile isDecDigit s = s" using assms(2) by (cases s; simp)+
  have "takeWhile isDecDigit (formatNat n @ s) = formatNat n" "dropWhile isDecDigit (formatNat n @ s) = s"
    using formatNat_digits [of n] s by (auto simp: list_all_iff takeWhile_append dropWhile_append takeWhile_eq_all_conv)
  then show ?thesis using formatNat_digits [of n] assms(1) by (simp add: scanDigits_def Let_def)
qed

lemma skipSpace_format: "skipSpace (formatNat n @ s) = Some (formatNat n @ s)"
  using formatNat_digits [of n] skipSpace_digit by (cases "formatNat n") auto

lemma scanUint_format:
  assumes "n < 2 ^ bits" "\<And>c r. s = c # r \<Longrightarrow> \<not> isDecDigit c"
  shows "scanUint bits (formatNat n @ s) = Some (n, s)"
  by (simp add: scanUint_def skipSpace_format scanDigits_format [OF assms])

lemma scanInt_format:
  assumes "n < 2 ^ 63" "\<And>c r. s = c # r \<Longrightarrow> \<not> isDecDigit c"
  shows "scanInt (formatNat n @ s) = Some (int n, s)"
proof -
  have "formatNat n @ s \<noteq> [] \<and> hd (formatNat n @ s) \<notin> {CHR ''-'', CHR ''+''}"
    using formatNat_digits [of n] by (cases "formatNat n") (auto simp: isDecDigit_def)
  then show ?thesis using scanDigits_format [OF assms] by (simp add: scanInt_def skipSpace_format)
qed

section \<open>The text of a hash\<close>

record Argon2Config =
  arMemoryKiB :: "32 word"
  arIterations :: "32 word"
  arParallelism :: "8 word"
  arSaltLength :: "32 word"
  arKeyLength :: "32 word"

text \<open>\<^theory_text>\<open>argon2.IDKey\<close>: password, salt, iterations, memory, parallelism, key length.\<close>

type_synonym IDKey = "str \<Rightarrow> str \<Rightarrow> 32 word \<Rightarrow> 32 word \<Rightarrow> 8 word \<Rightarrow> 32 word \<Rightarrow> str"

definition argonVersion :: nat where "argonVersion = 19"

definition errHashFormat :: error where
  "errHashFormat = ErrOther ''security: password hash is not a valid PHC string''"
definition errUnsupportedAlgo :: error where
  "errUnsupportedAlgo = ErrOther ''security: unsupported password hashing algorithm''"
definition errIncompatibleVer :: error where
  "errIncompatibleVer = ErrOther ''security: incompatible argon2 version''"
definition errEmptyPassword :: error where
  "errEmptyPassword = ErrOther ''security: refusing to hash an empty password''"

definition paramsText :: "Argon2Config \<Rightarrow> str" where
  "paramsText p = ''m='' @ formatNat (unat (arMemoryKiB p)) @ '',t='' @ formatNat (unat (arIterations p)) @ '',p='' @
     formatNat (unat (arParallelism p))"

definition encodeHash :: "Argon2Config \<Rightarrow> str \<Rightarrow> str \<Rightarrow> str" where
  "encodeHash p salt digest = ''$argon2id$v='' @ formatNat argonVersion @ ''$'' @ paramsText p @ ''$'' @ base64Encode salt @
     ''$'' @ base64Encode digest"

fun splitAt_char :: "char \<Rightarrow> str \<Rightarrow> str list" where
  "splitAt_char c [] = [[]]"
| "splitAt_char c (x # xs) =
     (if x = c then [] # splitAt_char c xs
      else (case splitAt_char c xs of [] \<Rightarrow> [[x]] | w # ws \<Rightarrow> (x # w) # ws))"

definition scanVersion :: "str \<Rightarrow> int option" where
  "scanVersion s = Option.bind (scanLiteral ''v='' s) (\<lambda>s. map_option fst (scanInt s))"

definition scanParams :: "str \<Rightarrow> (nat \<times> nat \<times> nat) option" where
  "scanParams s =
     Option.bind (scanLiteral ''m='' s) (\<lambda>s. Option.bind (scanUint 32 s) (\<lambda>(m, s).
     Option.bind (scanLiteral '',t='' s) (\<lambda>s. Option.bind (scanUint 32 s) (\<lambda>(t, s).
     Option.bind (scanLiteral '',p='' s) (\<lambda>s. map_option (\<lambda>(p, _). (m, t, p)) (scanUint 8 s))))))"

definition orFormat :: "'a option \<Rightarrow> 'a res" where
  "orFormat x = (case x of None \<Rightarrow> Inl errHashFormat | Some y \<Rightarrow> Inr y)"

definition decodeHash :: "str \<Rightarrow> (Argon2Config \<times> str \<times> str) res" where
  "decodeHash encoded =
     (case splitAt_char CHR ''$'' encoded of
        [_, algo, version, params, salt64, digest64] \<Rightarrow>
          if algo \<noteq> ''argon2id'' then Inl errUnsupportedAlgo
          else bindR (orFormat (scanVersion version)) (\<lambda>v.
            if v \<noteq> int argonVersion then Inl errIncompatibleVer
            else bindR (orFormat (scanParams params)) (\<lambda>(m, t, p).
              bindR (orFormat (base64Decode salt64)) (\<lambda>salt.
              bindR (orFormat (base64Decode digest64)) (\<lambda>digest.
                Inr (\<lparr>arMemoryKiB = of_nat m, arIterations = of_nat t, arParallelism = of_nat p,
                  arSaltLength = of_nat (length salt), arKeyLength = of_nat (length digest)\<rparr>, salt, digest)))))
      | _ \<Rightarrow> Inl errHashFormat)"

definition needsRehash :: "Argon2Config \<Rightarrow> Argon2Config \<Rightarrow> bool" where
  "needsRehash current p \<longleftrightarrow> arMemoryKiB p < arMemoryKiB current \<or> arIterations p < arIterations current \<or>
     arParallelism p < arParallelism current \<or> arKeyLength p < arKeyLength current"

definition derivedKey :: "IDKey \<Rightarrow> Argon2Config \<Rightarrow> str \<Rightarrow> str \<Rightarrow> str" where
  "derivedKey idKey p salt plaintext = idKey plaintext salt (arIterations p) (arMemoryKiB p) (arParallelism p) (arKeyLength p)"

definition Argon2Hasher_Hash :: "IDKey \<Rightarrow> Argon2Config \<Rightarrow> str \<Rightarrow> str \<Rightarrow> str res" where
  "Argon2Hasher_Hash idKey p salt plaintext =
     (if plaintext = [] then Inl errEmptyPassword else Inr (encodeHash p salt (derivedKey idKey p salt plaintext)))"

definition Argon2Hasher_Verify :: "IDKey \<Rightarrow> Argon2Config \<Rightarrow> str \<Rightarrow> str \<Rightarrow> (bool \<times> bool) res" where
  "Argon2Hasher_Verify idKey current encoded plaintext =
     bindR (decodeHash encoded) (\<lambda>(stored, salt, digest).
       if digest \<noteq> derivedKey idKey stored salt plaintext then Inr (False, False)
       else Inr (True, needsRehash current stored))"

section \<open>Reading back\<close>

lemma splitAt_char_plain: "c \<notin> set s \<Longrightarrow> splitAt_char c s = [s]"
  by (induction s) auto

lemma splitAt_char_part: "c \<notin> set p \<Longrightarrow> splitAt_char c (p @ c # s) = p # splitAt_char c s"
  by (induction p) auto

lemma format_plain: "\<not> isDecDigit c \<Longrightarrow> c \<notin> set (formatNat n)"
  using formatNat_digits [of n] by (auto simp: list_all_iff)

lemma paramsText_plain: "CHR ''$'' \<notin> set (paramsText p)"
  using format_plain [of "CHR ''$''"] by (auto simp: paramsText_def isDecDigit_def)

lemma hash_parts:
  "splitAt_char CHR ''$'' (encodeHash p salt digest) =
     [[], ''argon2id'', ''v='' @ formatNat argonVersion, paramsText p, base64Encode salt, base64Encode digest]"
proof -
  define a v where "a = ''argon2id''" and "v = ''v='' @ formatNat argonVersion"
  have "encodeHash p salt digest = [] @ CHR ''$'' # (a @ CHR ''$'' # (v @ CHR ''$'' #
      (paramsText p @ CHR ''$'' # (base64Encode salt @ CHR ''$'' # base64Encode digest))))"
    by (simp add: encodeHash_def a_def v_def)
  moreover have "CHR ''$'' \<notin> set []" "CHR ''$'' \<notin> set a" "CHR ''$'' \<notin> set v"
    using format_plain [of "CHR ''$''"] by (auto simp: isDecDigit_def a_def v_def)
  ultimately have "splitAt_char CHR ''$'' (encodeHash p salt digest) = [[], a, v, paramsText p, base64Encode salt, base64Encode digest]"
    by (simp only: splitAt_char_part [OF _] splitAt_char_plain paramsText_plain base64_no_dollar simp_thms)
  then show ?thesis by (simp only: a_def v_def)
qed

lemma scanVersion_text: "scanVersion (''v='' @ formatNat argonVersion) = Some (int argonVersion)"
  using scanInt_format [of argonVersion "[]"] by (simp add: scanVersion_def scanLiteral_def argonVersion_def)

lemma unat_bounds:
  fixes v :: "32 word" and w :: "8 word"
  shows "unat v < 2 ^ 32" "unat w < 2 ^ 8"
  using unsigned_less [of v, where ?'a = nat] unsigned_less [of w, where ?'a = nat] by simp_all

lemma scanLiteral_part: "scanLiteral p (p @ s) = Some s"
  by (simp add: scanLiteral_def)

lemma scanParams_text:
  "scanParams (paramsText p) = Some (unat (arMemoryKiB p), unat (arIterations p), unat (arParallelism p))"
proof -
  have m: "scanUint 32 (formatNat (unat (arMemoryKiB p)) @ '',t='' @ r) = Some (unat (arMemoryKiB p), '',t='' @ r)" for r
    using unat_bounds(1) [of "arMemoryKiB p"] by (intro scanUint_format) (auto simp: isDecDigit_def)
  have t: "scanUint 32 (formatNat (unat (arIterations p)) @ '',p='' @ r) = Some (unat (arIterations p), '',p='' @ r)" for r
    using unat_bounds(1) [of "arIterations p"] by (intro scanUint_format) (auto simp: isDecDigit_def)
  have q: "scanUint 8 (formatNat (unat (arParallelism p))) = Some (unat (arParallelism p), [])"
    using unat_bounds(2) [of "arParallelism p"] scanUint_format [of "unat (arParallelism p)" 8 "[]"] by simp
  show ?thesis unfolding paramsText_def scanParams_def scanLiteral_part Option.bind.simps m t q prod.case by simp
qed

lemma decode_encode:
  "decodeHash (encodeHash p salt digest) =
     Inr (p\<lparr>arSaltLength := of_nat (length salt), arKeyLength := of_nat (length digest)\<rparr>, salt, digest)"
  unfolding decodeHash_def hash_parts list.case scanVersion_text scanParams_text base64_roundtrip orFormat_def option.case bindR_simps
    prod.case
  by simp

section \<open>Passwords and logins\<close>

text \<open>\<^theory_text>\<open>argon2.IDKey\<close> returns as many bytes as it is asked for.\<close>

definition derivesKeys :: "IDKey \<Rightarrow> bool" where
  "derivesKeys idKey \<longleftrightarrow> (\<forall>pw salt t m p k. length (idKey pw salt t m p k) = unat k)"

lemma verify_encoded:
  assumes "derivesKeys idKey"
  shows "Argon2Hasher_Verify idKey q (encodeHash p salt (derivedKey idKey p salt pw)) pw' =
    Inr (if derivedKey idKey p salt pw' = derivedKey idKey p salt pw then (True, needsRehash q p) else (False, False))"
proof -
  have "of_nat (length (derivedKey idKey p salt pw)) = arKeyLength p"
    using assms by (simp add: derivesKeys_def derivedKey_def)
  then show ?thesis
    by (auto simp: Argon2Hasher_Verify_def decode_encode derivedKey_def needsRehash_def)
qed

lemma hashed_encoded: "Argon2Hasher_Hash idKey p salt pw = Inr h \<Longrightarrow> h = encodeHash p salt (derivedKey idKey p salt pw)"
  by (simp add: Argon2Hasher_Hash_def split: if_splits)

text \<open>C30: A stored hash decides a password under any later configuration: it accepts exactly the passwords with the
  same key under the parameters and the salt it carries, never fails, and asks to be replaced exactly when one of its
  parameters has been raised since.\<close>

theorem stored_hash_decides:
  assumes "derivesKeys idKey" "Argon2Hasher_Hash idKey p salt pw = Inr h"
  shows "Argon2Hasher_Verify idKey q h pw' =
    Inr (if idKey pw' salt (arIterations p) (arMemoryKiB p) (arParallelism p) (arKeyLength p) =
            idKey pw salt (arIterations p) (arMemoryKiB p) (arParallelism p) (arKeyLength p)
         then (True, arMemoryKiB p < arMemoryKiB q \<or> arIterations p < arIterations q \<or>
           arParallelism p < arParallelism q \<or> arKeyLength p < arKeyLength q)
         else (False, False))"
  using verify_encoded [OF assms(1)] hashed_encoded [OF assms(2)] by (simp add: derivedKey_def needsRehash_def)

lemma the_account:
  assumes "distinct (map uID rows)" "r \<in> set rows" "findRow uID (uID r) rows = Some r'"
  shows "r = r'"
  using findRow_key [OF assms(3)] assms(1,2) by (auto simp: distinct_map inj_on_def)

text \<open>C29: After a password reset the account decides logins by the new password: any password with another key is
  refused with no trace, and the new one opens a session, whatever is configured now.\<close>

theorem reset_decides_login:
  assumes "AuthService_ResetPassword cfg e raw pw db = (Inr (), db1, [Revoked ev])"
    and hasher: "derivesKeys idKey" "anHash e pw = Argon2Hasher_Hash idKey p salt pw" "cfVerify cfg = Argon2Hasher_Verify idKey q"
    and account: "UserRepository_GetByEmail cfg email db1 = Inr r" "uID r = reUserID ev" "distinct (map uID (auUsers db1))"
  shows "AuthService_Login cfg e2 email pw' meta db1 =
    (if derivedKey idKey p salt pw' \<noteq> derivedKey idKey p salt pw then (Inl ErrInvalidCredentials, db1, [])
     else (case openSession cfg e2 (uID r) meta (if needsRehash q p then rehashPassword cfg e2 r pw' db1 else db1) of
       (res, db2) \<Rightarrow> (bindR res (\<lambda>pair. Inr (r, pair)), db2, [])))"
proof -
  obtain hash where h: "anHash e pw = Inr hash" "resetBody cfg e raw hash db = Inr (reUserID ev, db1)"
    using assms(1) by (auto simp: ResetPassword_Inr)
  obtain r' where r': "findRow uID (reUserID ev) (auUsers db1) = Some r'" "uPasswordHash r' = hash" "uEmailVerifiedAt r' \<noteq> None"
    using resetBody_result [OF h(2)] by blast
  have "r \<in> set (auUsers db1)"
    using account(1) by (auto simp: UserRepository_GetByEmail_def Let_def find_Some_iff split: option.splits)
  then have "r' = r" using the_account [OF account(3) _ r'(1) [folded account(2)]] by simp
  then have "uPasswordHash r = encodeHash p salt (derivedKey idKey p salt pw)" "IsEmailVerified r"
    using r'(2,3) hashed_encoded h(1) hasher(2) by (auto simp: IsEmailVerified_def)
  then show ?thesis
    using verify_encoded [OF hasher(1), of q p salt pw pw'] account(1)
    by (simp add: AuthService_Login_def hasher(3) Let_def)
qed

definition sampleIDKey :: IDKey where
  "sampleIDKey pw salt t m p k = take (unat k) (pw @ salt @ replicate (unat k) CHR ''.'')"

definition sampleArgon :: Argon2Config where
  "sampleArgon = \<lparr>arMemoryKiB = 65, arIterations = 3, arParallelism = 4, arSaltLength = 2, arKeyLength = 5\<rparr>"

lemma sampleIDKey_derives: "derivesKeys sampleIDKey"
  by (auto simp: derivesKeys_def sampleIDKey_def min_def)

definition sampleStored :: str where
  "sampleStored = ''$argon2id$v=19$m=65,t=3,p=4$c2E$bmV3c2E''"

lemma sampleStored_hash: "Argon2Hasher_Hash sampleIDKey sampleArgon ''sa'' ''new'' = Inr sampleStored"
  by code_simp

theorem stored_hash_decides_witness:
  "Argon2Hasher_Verify sampleIDKey (sampleArgon\<lparr>arMemoryKiB := 66\<rparr>) sampleStored ''new'' = Inr (True, True)"
  using stored_hash_decides [OF sampleIDKey_derives sampleStored_hash, of "sampleArgon\<lparr>arMemoryKiB := 66\<rparr>" "''new''"]
  by (simp add: sampleArgon_def)

definition sampleHashing :: AuthConfig where
  "sampleHashing = sampleConfig\<lparr>cfVerify := Argon2Hasher_Verify sampleIDKey sampleArgon\<rparr>"

definition sampleHasherEnv :: AuthEnv where
  "sampleHasherEnv = (authEnvAt 10 50 ''x'')\<lparr>anHash := Argon2Hasher_Hash sampleIDKey sampleArgon ''sa''\<rparr>"

definition sampleHashedReset :: "unit authReply" where
  "sampleHashedReset = AuthService_ResetPassword sampleHashing sampleHasherEnv ''reset'' ''new password'' sampleAccount"

theorem reset_decides_login_witness:
  "fst (AuthService_Login sampleHashing (authEnvAt 20 60 ''y'') ''ann@example.com'' ''other'' \<lparr>rmUserAgent = [], rmIP = None\<rparr>
     (fst (snd sampleHashedReset))) = Inl ErrInvalidCredentials"
proof -
  have ok: "fst sampleHashedReset = Inr ()" by code_simp
  have ev: "snd (snd sampleHashedReset) = [Revoked \<lparr>reScope = RevokeScopeUser, reUserID = 1, reSessionID = NilID,
      reReason = RevokeReasonPasswordReset, reAt = 10\<rparr>]" (is "_ = [Revoked ?ev]") by code_simp
  obtain db1 where r: "sampleHashedReset = (Inr (), db1, [Revoked ?ev])" using ok ev by (metis prod.collapse)
  have "UserRepository_GetByEmail sampleHashing ''ann@example.com'' (fst (snd sampleHashedReset)) =
      Inr (hd (auUsers (fst (snd sampleHashedReset)))) \<and>
    uID (hd (auUsers (fst (snd sampleHashedReset)))) = 1 \<and> map uID (auUsers (fst (snd sampleHashedReset))) = [1]"
    by code_simp
  then have f: "UserRepository_GetByEmail sampleHashing ''ann@example.com'' db1 = Inr (hd (auUsers db1))"
    "uID (hd (auUsers db1)) = reUserID ?ev" "distinct (map uID (auUsers db1))" by (simp_all add: r)
  have h: "anHash sampleHasherEnv ''new password'' = Argon2Hasher_Hash sampleIDKey sampleArgon ''sa'' ''new password''"
    "cfVerify sampleHashing = Argon2Hasher_Verify sampleIDKey sampleArgon"
    by (simp_all add: sampleHasherEnv_def sampleHashing_def)
  have "derivedKey sampleIDKey sampleArgon ''sa'' ''other'' \<noteq> derivedKey sampleIDKey sampleArgon ''sa'' ''new password''"
    by code_simp
  then show ?thesis
    using reset_decides_login [OF r [unfolded sampleHashedReset_def] sampleIDKey_derives h f, of "authEnvAt 20 60 ''y''" "''other''"
        "\<lparr>rmUserAgent = [], rmIP = None\<rparr>"]
    by (simp add: r)
qed

end
