(* ===== verification/Startup.thy ===== *)
theory Startup
  imports Passwords Http
begin

text \<open>The configuration (src/configs/config.go): reading it from the environment and refusing to start on it. The
  environment is a map from names to texts; \<^theory_text>\<open>time.ParseDuration\<close>, which computes with floating point, is a
  parameter. A problem is its kind and the variable it names; the prose is left out.\<close>

section \<open>The configuration\<close>

abbreviation "EnvDevelopment \<equiv> ''development''"
abbreviation "EnvStaging \<equiv> ''staging''"
abbreviation "EnvProduction \<equiv> ''production''"

record LogConfig =
  lgLevel :: str
  lgFormat :: str

record HTTPConfig =
  htAddr :: str
  htReadHeaderTimeout :: int
  htReadTimeout :: int
  htWriteTimeout :: int
  htIdleTimeout :: int
  htShutdownTimeout :: int
  htDrainDelay :: int
  htProbeTimeout :: int
  htCORSAllowedOrigins :: "str list"

record DBConfig =
  dcURL :: str
  dcMaxConns :: "32 word"
  dcMinConns :: "32 word"
  dcMaxConnLifetime :: int
  dcMaxConnIdleTime :: int
  dcConnectTimeout :: int

record StorageConfig =
  scEndpoint :: str
  scAccessKey :: str
  scSecretKey :: str
  scBucket :: str
  scRegion :: str
  scUseSSL :: bool

definition StorageConfig_Enabled :: "StorageConfig \<Rightarrow> bool" where
  "StorageConfig_Enabled c \<longleftrightarrow> scEndpoint c \<noteq> []"

record AuthSettings =
  auJWTSecret :: str
  auJWTIssuer :: str
  auAccessTokenTTL :: int
  auRefreshTokenTTL :: int
  auSessionTTL :: int
  auEmailVerifyTTL :: int
  auPasswordResetTTL :: int
  auWSTicketTTL :: int
  auAutoVerifyEmail :: bool
  auAllowAutoVerifyInProduction :: bool
  auArgon2 :: Argon2Config

record SMTPConfig =
  smHost :: str
  smPort :: int
  smUsername :: str
  smPassword :: str
  smFrom :: str
  smUseTLS :: bool

record Config =
  coEnv :: str
  coLog :: LogConfig
  coHTTP :: HTTPConfig
  coDB :: DBConfig
  coRedisURL :: str
  coStorage :: StorageConfig
  coUnsplashAccessKey :: str
  coAuth :: AuthSettings
  coSMTP :: SMTPConfig
  coPublicBaseURL :: str
  coWebBaseURL :: str

definition IsProduction :: "str \<Rightarrow> bool" where
  "IsProduction e \<longleftrightarrow> e = EnvProduction"

section \<open>Reading the environment\<close>

datatype ConfigProblem = Unparseable str | Missing str | OutOfRange str | NotInProduction str

type_synonym environment = "str \<Rightarrow> str option"

definition given :: "environment \<Rightarrow> str \<Rightarrow> str option" where
  "given lk key = (case lk key of None \<Rightarrow> None | Some v \<Rightarrow> if v = [] then None else Some v)"

definition getenv :: "environment \<Rightarrow> str \<Rightarrow> str" where
  "getenv lk key = (case lk key of None \<Rightarrow> [] | Some v \<Rightarrow> v)"

definition env :: "environment \<Rightarrow> str \<Rightarrow> str \<Rightarrow> str" where
  "env lk key fallback = (case given lk key of None \<Rightarrow> fallback | Some v \<Rightarrow> v)"

text \<open>A value that is parsed, with the problem it leaves when it cannot be.\<close>

definition parsed :: "(str \<Rightarrow> 'a option) \<Rightarrow> environment \<Rightarrow> str \<Rightarrow> 'a \<Rightarrow> 'a \<times> ConfigProblem list" where
  "parsed f lk key fallback =
     (case given lk key of
        None \<Rightarrow> (fallback, [])
      | Some v \<Rightarrow> (case f v of None \<Rightarrow> (fallback, [Unparseable key]) | Some x \<Rightarrow> (x, [])))"

definition ParseBool :: "str \<Rightarrow> bool option" where
  "ParseBool s =
     (if s \<in> {''1'', ''t'', ''T'', ''true'', ''TRUE'', ''True''} then Some True
      else if s \<in> {''0'', ''f'', ''F'', ''false'', ''FALSE'', ''False''} then Some False else None)"

definition envInt :: "environment \<Rightarrow> str \<Rightarrow> int \<Rightarrow> int \<times> ConfigProblem list" where
  "envInt = parsed Atoi"

definition envBool :: "environment \<Rightarrow> str \<Rightarrow> bool \<Rightarrow> bool \<times> ConfigProblem list" where
  "envBool = parsed ParseBool"

definition envDuration :: "(str \<Rightarrow> int option) \<Rightarrow> environment \<Rightarrow> str \<Rightarrow> int \<Rightarrow> int \<times> ConfigProblem list" where
  "envDuration = parsed"

definition envList :: "environment \<Rightarrow> str \<Rightarrow> str list \<Rightarrow> str list" where
  "envList lk key fallback = (case given lk key of None \<Rightarrow> fallback
     | Some v \<Rightarrow> filter (\<lambda>t. t \<noteq> []) (map TrimSpace (splitAt_char CHR '','' v)))"

abbreviation secs :: "int \<Rightarrow> int" where
  "secs n \<equiv> n * 10 ^ 9"

definition loadHTTP :: "(str \<Rightarrow> int option) \<Rightarrow> environment \<Rightarrow> HTTPConfig \<times> ConfigProblem list" where
  "loadHTTP dur lk =
     (let rh = envDuration dur lk ''HTTP_READ_HEADER_TIMEOUT'' (secs 5); rd = envDuration dur lk ''HTTP_READ_TIMEOUT'' (secs 15);
          wr = envDuration dur lk ''HTTP_WRITE_TIMEOUT'' (secs 30); idl = envDuration dur lk ''HTTP_IDLE_TIMEOUT'' (secs 120);
          sh = envDuration dur lk ''HTTP_SHUTDOWN_TIMEOUT'' (secs 20); dr = envDuration dur lk ''HTTP_DRAIN_DELAY'' 0;
          pr = envDuration dur lk ''HTTP_PROBE_TIMEOUT'' (secs 2) in
      (\<lparr>htAddr = env lk ''HTTP_ADDR'' '':8080'', htReadHeaderTimeout = fst rh, htReadTimeout = fst rd, htWriteTimeout = fst wr,
        htIdleTimeout = fst idl, htShutdownTimeout = fst sh, htDrainDelay = fst dr, htProbeTimeout = fst pr,
        htCORSAllowedOrigins = envList lk ''CORS_ALLOWED_ORIGINS'' [''http://localhost:3000'']\<rparr>,
       snd rh @ snd rd @ snd wr @ snd idl @ snd sh @ snd dr @ snd pr))"

text \<open>The conversions from \<^theory_text>\<open>int\<close> to narrower integers truncate.\<close>

definition loadDB :: "(str \<Rightarrow> int option) \<Rightarrow> environment \<Rightarrow> DBConfig \<times> ConfigProblem list" where
  "loadDB dur lk =
     (let mx = envInt lk ''DB_MAX_CONNS'' 20; mn = envInt lk ''DB_MIN_CONNS'' 2;
          lt = envDuration dur lk ''DB_MAX_CONN_LIFETIME'' (secs 3600); it = envDuration dur lk ''DB_MAX_CONN_IDLE_TIME'' (secs 1800);
          ct = envDuration dur lk ''DB_CONNECT_TIMEOUT'' (secs 10) in
      (\<lparr>dcURL = getenv lk ''DATABASE_URL'', dcMaxConns = word_of_int (fst mx), dcMinConns = word_of_int (fst mn),
        dcMaxConnLifetime = fst lt, dcMaxConnIdleTime = fst it, dcConnectTimeout = fst ct\<rparr>,
       snd mx @ snd mn @ snd lt @ snd it @ snd ct))"

definition loadStorage :: "environment \<Rightarrow> StorageConfig \<times> ConfigProblem list" where
  "loadStorage lk =
     (let ssl = envBool lk ''STORAGE_USE_SSL'' False in
      (\<lparr>scEndpoint = getenv lk ''STORAGE_ENDPOINT'', scAccessKey = getenv lk ''STORAGE_ACCESS_KEY'',
        scSecretKey = getenv lk ''STORAGE_SECRET_KEY'', scBucket = env lk ''STORAGE_BUCKET'' ''junto-attachments'',
        scRegion = env lk ''STORAGE_REGION'' ''us-east-1'', scUseSSL = fst ssl\<rparr>, snd ssl))"

definition loadArgon2 :: "environment \<Rightarrow> Argon2Config \<times> ConfigProblem list" where
  "loadArgon2 lk =
     (let m = envInt lk ''ARGON2_MEMORY_KIB'' (64 * 1024); t = envInt lk ''ARGON2_ITERATIONS'' 3;
          p = envInt lk ''ARGON2_PARALLELISM'' 4; s = envInt lk ''ARGON2_SALT_LENGTH'' 16; k = envInt lk ''ARGON2_KEY_LENGTH'' 32 in
      (\<lparr>arMemoryKiB = word_of_int (fst m), arIterations = word_of_int (fst t), arParallelism = word_of_int (fst p),
        arSaltLength = word_of_int (fst s), arKeyLength = word_of_int (fst k)\<rparr>,
       snd m @ snd t @ snd p @ snd s @ snd k))"

definition loadAuth :: "(str \<Rightarrow> int option) \<Rightarrow> environment \<Rightarrow> AuthSettings \<times> ConfigProblem list" where
  "loadAuth dur lk =
     (let ac = envDuration dur lk ''ACCESS_TOKEN_TTL'' (secs 900); rf = envDuration dur lk ''REFRESH_TOKEN_TTL'' (secs (30 * 86400));
          se = envDuration dur lk ''SESSION_TTL'' (secs (90 * 86400)); ev = envDuration dur lk ''EMAIL_VERIFY_TTL'' (secs 86400);
          pr = envDuration dur lk ''PASSWORD_RESET_TTL'' (secs 3600); ws = envDuration dur lk ''WS_TICKET_TTL'' (secs 30);
          av = envBool lk ''AUTH_AUTO_VERIFY_EMAIL'' False; al = envBool lk ''AUTH_ALLOW_AUTO_VERIFY_IN_PRODUCTION'' False;
          ar = loadArgon2 lk in
      (\<lparr>auJWTSecret = getenv lk ''JWT_SECRET'', auJWTIssuer = env lk ''JWT_ISSUER'' ''junto'', auAccessTokenTTL = fst ac,
        auRefreshTokenTTL = fst rf, auSessionTTL = fst se, auEmailVerifyTTL = fst ev, auPasswordResetTTL = fst pr,
        auWSTicketTTL = fst ws, auAutoVerifyEmail = fst av, auAllowAutoVerifyInProduction = fst al, auArgon2 = fst ar\<rparr>,
       snd ac @ snd rf @ snd se @ snd ev @ snd pr @ snd ws @ snd av @ snd al @ snd ar))"

definition loadSMTP :: "environment \<Rightarrow> SMTPConfig \<times> ConfigProblem list" where
  "loadSMTP lk =
     (let port = envInt lk ''SMTP_PORT'' 1025; tls = envBool lk ''SMTP_USE_TLS'' False in
      (\<lparr>smHost = env lk ''SMTP_HOST'' ''localhost'', smPort = fst port, smUsername = getenv lk ''SMTP_USERNAME'',
        smPassword = getenv lk ''SMTP_PASSWORD'', smFrom = env lk ''SMTP_FROM'' ''Junto <no-reply@junto.local>'', smUseTLS = fst tls\<rparr>,
       snd port @ snd tls))"

definition loaded :: "(str \<Rightarrow> int option) \<Rightarrow> environment \<Rightarrow> Config \<times> ConfigProblem list" where
  "loaded dur lk =
     (let http = loadHTTP dur lk; db = loadDB dur lk; storage = loadStorage lk; auth = loadAuth dur lk; smtp = loadSMTP lk;
          e = env lk ''JUNTO_ENV'' EnvDevelopment;
          drained = (if IsProduction e \<and> getenv lk ''HTTP_DRAIN_DELAY'' = [] then (fst http)\<lparr>htDrainDelay := secs 8\<rparr> else fst http) in
      (\<lparr>coEnv = e, coLog = \<lparr>lgLevel = env lk ''LOG_LEVEL'' ''info'', lgFormat = env lk ''LOG_FORMAT'' ''json''\<rparr>, coHTTP = drained,
        coDB = fst db, coRedisURL = getenv lk ''REDIS_URL'', coStorage = fst storage,
        coUnsplashAccessKey = getenv lk ''UNSPLASH_ACCESS_KEY'', coAuth = fst auth, coSMTP = fst smtp,
        coPublicBaseURL = env lk ''PUBLIC_BASE_URL'' ''http://localhost:8080'',
        coWebBaseURL = env lk ''WEB_BASE_URL'' ''http://localhost:3000''\<rparr>,
       snd http @ snd db @ snd storage @ snd auth @ snd smtp))"

section \<open>Refusing to start\<close>

definition MinJWTSecretLength :: nat where "MinJWTSecretLength = 32"

definition HasPrefix :: "str \<Rightarrow> str \<Rightarrow> bool" where
  "HasPrefix s p \<longleftrightarrow> take (length p) s = p"

fun containsText :: "str \<Rightarrow> str \<Rightarrow> bool" where
  "containsText [] p = (p = [])"
| "containsText (c # s) p = (HasPrefix (c # s) p \<or> containsText s p)"

definition problemIf :: "bool \<Rightarrow> ConfigProblem \<Rightarrow> ConfigProblem list" where
  "problemIf b p = (if b then [p] else [])"

definition dbProblems :: "DBConfig \<Rightarrow> ConfigProblem list" where
  "dbProblems c =
     problemIf (dcURL c = []) (Missing ''DATABASE_URL'') @
     problemIf (sint (dcMaxConns c) < 1) (OutOfRange ''DB_MAX_CONNS'') @
     problemIf (sint (dcMinConns c) < 0 \<or> sint (dcMinConns c) > sint (dcMaxConns c)) (OutOfRange ''DB_MIN_CONNS'')"

definition argonProblems :: "Argon2Config \<Rightarrow> ConfigProblem list" where
  "argonProblems c =
     problemIf (arMemoryKiB c < 19 * 1024) (OutOfRange ''ARGON2_MEMORY_KIB'') @
     problemIf (arIterations c < 1) (OutOfRange ''ARGON2_ITERATIONS'') @
     problemIf (arParallelism c < 1) (OutOfRange ''ARGON2_PARALLELISM'') @
     problemIf (arSaltLength c < 16) (OutOfRange ''ARGON2_SALT_LENGTH'') @
     problemIf (arKeyLength c < 32) (OutOfRange ''ARGON2_KEY_LENGTH'')"

definition authProblems :: "AuthSettings \<Rightarrow> ConfigProblem list" where
  "authProblems c =
     (if auJWTSecret c = [] then [Missing ''JWT_SECRET'']
      else if length (auJWTSecret c) < MinJWTSecretLength then [OutOfRange ''JWT_SECRET''] else []) @
     problemIf (auAccessTokenTTL c \<le> 0 \<or> auAccessTokenTTL c > secs 3600) (OutOfRange ''ACCESS_TOKEN_TTL'') @
     problemIf (auRefreshTokenTTL c \<le> auAccessTokenTTL c) (OutOfRange ''REFRESH_TOKEN_TTL'') @
     problemIf (auSessionTTL c < auRefreshTokenTTL c) (OutOfRange ''SESSION_TTL'') @
     argonProblems (auArgon2 c)"

definition storageProblems :: "StorageConfig \<Rightarrow> ConfigProblem list" where
  "storageProblems c =
     (if StorageConfig_Enabled c then
        problemIf (scAccessKey c = []) (Missing ''STORAGE_ACCESS_KEY'') @
        problemIf (scSecretKey c = []) (Missing ''STORAGE_SECRET_KEY'') @
        problemIf (scBucket c = []) (Missing ''STORAGE_BUCKET'') @
        problemIf (containsText (scEndpoint c) ''://'') (OutOfRange ''STORAGE_ENDPOINT'')
      else [])"

definition originProblems :: "str \<Rightarrow> ConfigProblem list" where
  "originProblems o1 =
     problemIf (o1 = ''*'') (NotInProduction ''CORS_ALLOWED_ORIGINS'') @
     problemIf (HasPrefix o1 ''http://'') (NotInProduction ''CORS_ALLOWED_ORIGINS'')"

definition productionProblems :: "Config \<Rightarrow> ConfigProblem list" where
  "productionProblems c =
     problemIf (auAutoVerifyEmail (coAuth c) \<and> \<not> auAllowAutoVerifyInProduction (coAuth c)) (NotInProduction ''AUTH_AUTO_VERIFY_EMAIL'') @
     problemIf (auAllowAutoVerifyInProduction (coAuth c) \<and> \<not> auAutoVerifyEmail (coAuth c))
       (NotInProduction ''AUTH_ALLOW_AUTO_VERIFY_IN_PRODUCTION'') @
     problemIf (\<not> smUseTLS (coSMTP c)) (NotInProduction ''SMTP_USE_TLS'') @
     problemIf (\<not> HasPrefix (coPublicBaseURL c) ''https://'') (NotInProduction ''PUBLIC_BASE_URL'') @
     problemIf (\<not> HasPrefix (coWebBaseURL c) ''https://'') (NotInProduction ''WEB_BASE_URL'') @
     concat (map originProblems (htCORSAllowedOrigins (coHTTP c))) @
     problemIf (containsText (dcURL (coDB c)) ''sslmode=disable'') (NotInProduction ''DATABASE_URL'')"

definition Config_Validate :: "ConfigProblem list \<Rightarrow> Config \<Rightarrow> ConfigProblem list" where
  "Config_Validate parseErrors c =
     parseErrors @
     problemIf (coEnv c \<notin> {EnvDevelopment, EnvStaging, EnvProduction}) (OutOfRange ''JUNTO_ENV'') @
     dbProblems (coDB c) @ authProblems (coAuth c) @
     problemIf (lgLevel (coLog c) \<notin> {''debug'', ''info'', ''warn'', ''error''}) (OutOfRange ''LOG_LEVEL'') @
     problemIf (lgFormat (coLog c) \<notin> {''json'', ''text''}) (OutOfRange ''LOG_FORMAT'') @
     problemIf (smFrom (coSMTP c) = []) (Missing ''SMTP_FROM'') @
     problemIf (coRedisURL c \<noteq> [] \<and> \<not> HasPrefix (coRedisURL c) ''redis://'' \<and> \<not> HasPrefix (coRedisURL c) ''rediss://'') (OutOfRange ''REDIS_URL'') @
     storageProblems (coStorage c) @
     (if IsProduction (coEnv c) then productionProblems c else [])"

definition Load :: "(str \<Rightarrow> int option) \<Rightarrow> environment \<Rightarrow> ConfigProblem list + Config" where
  "Load dur lk = (case loaded dur lk of (c, errs) \<Rightarrow>
     (let problems = Config_Validate errs c in if problems \<noteq> [] then Inl problems else Inr c))"

lemma problemIf_Nil [simp]: "problemIf b p = [] \<longleftrightarrow> \<not> b"
  by (simp add: problemIf_def)

text \<open>A setting that was loaded without a problem: the value that was given, or else the default.\<close>

definition stated :: "(str \<Rightarrow> 'a option) \<Rightarrow> environment \<Rightarrow> str \<Rightarrow> 'a \<Rightarrow> 'a \<Rightarrow> bool" where
  "stated f lk key fallback x \<longleftrightarrow> (case given lk key of None \<Rightarrow> x = fallback | Some v \<Rightarrow> f v = Some x)"

lemma parsed_stated: "snd (parsed f lk key fallback) = [] \<Longrightarrow> stated f lk key fallback (fst (parsed f lk key fallback))"
  by (cases "given lk key"; cases "f (the (given lk key))") (auto simp: parsed_def stated_def)

lemma parsed_true:
  assumes "snd (parsed f lk key False) = []" "fst (parsed f lk key False)"
  shows "\<exists>v. given lk key = Some v \<and> f v = Some True"
  using assms by (cases "given lk key") (auto simp: parsed_def split: option.splits)

lemma given_stated: "getenv lk key \<noteq> [] \<Longrightarrow> lk key = Some (getenv lk key)"
  by (auto simp: getenv_def split: option.splits)

lemma Load_Inr: "Load dur lk = Inr c \<longleftrightarrow> c = fst (loaded dur lk) \<and> Config_Validate (snd (loaded dur lk)) c = []"
  by (auto simp: Load_def Let_def split: prod.splits)

lemma loaded_clean:
  "snd (loaded dur lk) = [] \<longleftrightarrow> snd (loadHTTP dur lk) = [] \<and> snd (loadDB dur lk) = [] \<and> snd (loadStorage lk) = [] \<and>
     snd (loadAuth dur lk) = [] \<and> snd (loadSMTP lk) = []"
  by (simp add: loaded_def Let_def)

lemma loaded_parts:
  "coAuth (fst (loaded dur lk)) = fst (loadAuth dur lk)" "coDB (fst (loaded dur lk)) = fst (loadDB dur lk)"
  "auJWTSecret (fst (loadAuth dur lk)) = getenv lk ''JWT_SECRET''" "dcURL (fst (loadDB dur lk)) = getenv lk ''DATABASE_URL''"
  by (simp_all add: loaded_def loadAuth_def loadDB_def Let_def)

lemma auth_parts:
  "auAccessTokenTTL (fst (loadAuth dur lk)) = fst (parsed dur lk ''ACCESS_TOKEN_TTL'' (secs 900))"
  "auRefreshTokenTTL (fst (loadAuth dur lk)) = fst (parsed dur lk ''REFRESH_TOKEN_TTL'' (secs (30 * 86400)))"
  "auSessionTTL (fst (loadAuth dur lk)) = fst (parsed dur lk ''SESSION_TTL'' (secs (90 * 86400)))"
  "auEmailVerifyTTL (fst (loadAuth dur lk)) = fst (parsed dur lk ''EMAIL_VERIFY_TTL'' (secs 86400))"
  "auPasswordResetTTL (fst (loadAuth dur lk)) = fst (parsed dur lk ''PASSWORD_RESET_TTL'' (secs 3600))"
  "auWSTicketTTL (fst (loadAuth dur lk)) = fst (parsed dur lk ''WS_TICKET_TTL'' (secs 30))"
  "auAutoVerifyEmail (fst (loadAuth dur lk)) = fst (parsed ParseBool lk ''AUTH_AUTO_VERIFY_EMAIL'' False)"
  "auAllowAutoVerifyInProduction (fst (loadAuth dur lk)) = fst (parsed ParseBool lk ''AUTH_ALLOW_AUTO_VERIFY_IN_PRODUCTION'' False)"
  by (simp_all only: loadAuth_def Let_def envDuration_def envBool_def fst_conv AuthSettings.simps)

lemma auth_clean:
  assumes "snd (loadAuth dur lk) = []"
  shows "snd (parsed dur lk ''ACCESS_TOKEN_TTL'' (secs 900)) = []" "snd (parsed dur lk ''REFRESH_TOKEN_TTL'' (secs (30 * 86400))) = []"
    "snd (parsed dur lk ''SESSION_TTL'' (secs (90 * 86400))) = []" "snd (parsed dur lk ''EMAIL_VERIFY_TTL'' (secs 86400)) = []"
    "snd (parsed dur lk ''PASSWORD_RESET_TTL'' (secs 3600)) = []" "snd (parsed dur lk ''WS_TICKET_TTL'' (secs 30)) = []"
    "snd (parsed ParseBool lk ''AUTH_AUTO_VERIFY_EMAIL'' False) = []"
    "snd (parsed ParseBool lk ''AUTH_ALLOW_AUTO_VERIFY_IN_PRODUCTION'' False) = []"
  using assms by (simp_all only: loadAuth_def Let_def envDuration_def envBool_def snd_conv append_is_Nil_conv)

lemma auth_stated:
  assumes "snd (loadAuth dur lk) = []" and c: "c = fst (loadAuth dur lk)"
  shows "stated dur lk ''ACCESS_TOKEN_TTL'' (secs 900) (auAccessTokenTTL c)"
    "stated dur lk ''REFRESH_TOKEN_TTL'' (secs (30 * 86400)) (auRefreshTokenTTL c)"
    "stated dur lk ''SESSION_TTL'' (secs (90 * 86400)) (auSessionTTL c)"
    "stated dur lk ''EMAIL_VERIFY_TTL'' (secs 86400) (auEmailVerifyTTL c)"
    "stated dur lk ''PASSWORD_RESET_TTL'' (secs 3600) (auPasswordResetTTL c)"
    "stated dur lk ''WS_TICKET_TTL'' (secs 30) (auWSTicketTTL c)"
    "stated ParseBool lk ''AUTH_AUTO_VERIFY_EMAIL'' False (auAutoVerifyEmail c)"
    "stated ParseBool lk ''AUTH_ALLOW_AUTO_VERIFY_IN_PRODUCTION'' False (auAllowAutoVerifyInProduction c)"
  unfolding c auth_parts by (rule parsed_stated, rule auth_clean [OF assms(1)])+

lemma stated_true: "stated ParseBool lk key False True \<Longrightarrow> \<exists>v. given lk key = Some v \<and> ParseBool v = Some True"
  by (simp add: stated_def split: option.splits)

lemma Validate_clean:
  assumes "Config_Validate errs c = []"
  shows "errs = []" "dbProblems (coDB c) = []" "authProblems (coAuth c) = []"
    "coEnv c = EnvProduction \<Longrightarrow> productionProblems c = []"
  using assms by (simp_all add: Config_Validate_def IsProduction_def del: not_None_eq)


definition sampleEnvironment :: environment where
  "sampleEnvironment = map_of [(''JUNTO_ENV'', ''production''), (''DATABASE_URL'', ''postgres://db''),
     (''JWT_SECRET'', ''0123456789abcdef0123456789abcdef''), (''SMTP_USE_TLS'', ''true''), (''PUBLIC_BASE_URL'', ''https://a''),
     (''WEB_BASE_URL'', ''https://b''), (''CORS_ALLOWED_ORIGINS'', '' https://b, ''), (''ACCESS_TOKEN_TTL'', ''5m''),
     (''ARGON2_PARALLELISM'', ''260'')]"

definition sampleDuration :: "str \<Rightarrow> int option" where
  "sampleDuration s = (if s = ''5m'' then Some (300 * 10 ^ 9) else None)"

lemma sample_loads:
  "case Load sampleDuration sampleEnvironment of Inl _ \<Rightarrow> False
   | Inr c \<Rightarrow> htCORSAllowedOrigins (coHTTP c) = [''https://b''] \<and> htDrainDelay (coHTTP c) = 8 * 10 ^ 9 \<and>
       unat (arParallelism (auArgon2 (coAuth c))) = 4"
  by code_simp


end
