(* ===== verification/AccessTokens.thy ===== *)
theory AccessTokens
  imports Identity
begin

text \<open>Access tokens (src/internal/security/jwt.go): the claims of a token and what is read back of them. Signing and
  the verification of a signed text, its algorithm, issuer and times are those of \<^theory_text>\<open>golang-jwt\<close>, parameters here;
  its numeric dates are whole seconds.\<close>

record JWTClaims =
  jcSubject :: str
  jcIssuer :: str
  jcIssuedAt :: "instant option"
  jcExpiresAt :: "instant option"
  jcNotBefore :: "instant option"
  jcID :: str
  jcSessionID :: str

datatype jwtFailure = JWTExpired | JWTRefused

record JWTLibrary =
  jlSign :: "str \<Rightarrow> JWTClaims \<Rightarrow> str res"
  jlParse :: "str \<Rightarrow> str \<Rightarrow> str \<Rightarrow> jwtFailure + JWTClaims"

record JWTIssuer =
  jiSecret :: str
  jiIssuer :: str
  jiTTL :: instant

definition NewNumericDate :: "instant \<Rightarrow> instant option" where
  "NewNumericDate t = Some (t div 10 ^ 9 * 10 ^ 9)"

definition issuedClaims :: "JWTIssuer \<Rightarrow> (ID \<Rightarrow> str) \<Rightarrow> ID \<Rightarrow> ID \<Rightarrow> ID \<Rightarrow> instant \<Rightarrow> JWTClaims" where
  "issuedClaims j us tokenID userID sessionID now =
     \<lparr>jcSubject = us userID, jcIssuer = jiIssuer j, jcIssuedAt = NewNumericDate now, jcExpiresAt = NewNumericDate (now + jiTTL j),
      jcNotBefore = NewNumericDate now, jcID = us tokenID, jcSessionID = us sessionID\<rparr>"

definition JWTIssuer_Issue ::
  "JWTLibrary \<Rightarrow> JWTIssuer \<Rightarrow> (ID \<Rightarrow> str) \<Rightarrow> ID \<Rightarrow> ID \<Rightarrow> ID \<Rightarrow> instant \<Rightarrow> (str \<times> instant) res" where
  "JWTIssuer_Issue lib j us tokenID userID sessionID now =
     bindR (jlSign lib (jiSecret j) (issuedClaims j us tokenID userID sessionID now)) (\<lambda>raw. Inr (raw, now + jiTTL j))"

definition JWTIssuer_Parse :: "JWTLibrary \<Rightarrow> JWTIssuer \<Rightarrow> (str \<Rightarrow> ID option) \<Rightarrow> str \<Rightarrow> Claims res" where
  "JWTIssuer_Parse lib j up raw =
     (case jlParse lib (jiSecret j) (jiIssuer j) raw of
        Inl JWTExpired \<Rightarrow> Inl ErrTokenExpired
      | Inl JWTRefused \<Rightarrow> Inl ErrTokenInvalid
      | Inr c \<Rightarrow>
          (case ParseID up ''sub'' (jcSubject c) of
             Inl _ \<Rightarrow> Inl ErrTokenInvalid
           | Inr userID \<Rightarrow>
               (case ParseID up ''sid'' (jcSessionID c) of
                  Inl _ \<Rightarrow> Inl ErrTokenInvalid
                | Inr sessionID \<Rightarrow>
                    if jcExpiresAt c = None \<or> jcIssuedAt c = None then Inl ErrTokenInvalid
                    else Inr \<lparr>clUserID = userID, clSessionID = sessionID\<rparr>)))"

text \<open>A token names the account and the session it was issued for, as long as the library verifies what it signed.\<close>

lemma issued_token_read:
  assumes "JWTIssuer_Issue lib j us tokenID userID sessionID now = Inr (raw, expiry)"
    and "\<And>c. jlSign lib (jiSecret j) c = Inr raw \<Longrightarrow> jlParse lib (jiSecret j) (jiIssuer j) raw = Inr c"
    and "\<And>i. up (us i) = Some i"
  shows "JWTIssuer_Parse lib j up raw = Inr \<lparr>clUserID = userID, clSessionID = sessionID\<rparr> \<and> expiry = now + jiTTL j"
  using assms
  by (auto simp: JWTIssuer_Issue_def JWTIssuer_Parse_def sum_cases ParseID_def issuedClaims_def NewNumericDate_def)

text \<open>Nothing but the account, the session and the refusal of the library decides what a token is read as.\<close>

lemma parsed_token:
  "JWTIssuer_Parse lib j up raw = Inr claims \<Longrightarrow>
     \<exists>c. jlParse lib (jiSecret j) (jiIssuer j) raw = Inr c \<and> up (jcSubject c) = Some (clUserID claims) \<and>
       up (jcSessionID c) = Some (clSessionID claims) \<and> jcExpiresAt c \<noteq> None"
  by (auto simp: JWTIssuer_Parse_def ParseID_def split: sum.splits jwtFailure.splits option.splits if_splits)

end
