(* ===== verification/Limiter.thy ===== *)
theory Limiter
  imports Http
begin

text \<open>The rate limiter (src/internal/middleware/ratelimit.go): a bucket per client address, its lookup, its eviction and
  the refusal. The token bucket is that of \<^theory_text>\<open>golang.org/x/time/rate\<close>, a parameter: a new bucket, whether it lets
  a request pass and what it is after, and how long until it would let one pass. The limiters of Server answer
  with what \<^theory_text>\<open>allow\<close> computes here.\<close>

record RateLimitConfig =
  rlTTL :: instant
  rlBurst :: nat
  rlPerSecond :: rat

definition AuthRateLimit :: RateLimitConfig where
  "AuthRateLimit = \<lparr>rlTTL = 15 * 60 * 10 ^ 9, rlBurst = 5, rlPerSecond = 1 / 10\<rparr>"

definition RefreshRateLimit :: RateLimitConfig where
  "RefreshRateLimit = \<lparr>rlTTL = 15 * 60 * 10 ^ 9, rlBurst = 30, rlPerSecond = 1\<rparr>"

definition GeneralRateLimit :: RateLimitConfig where
  "GeneralRateLimit = \<lparr>rlTTL = 5 * 60 * 10 ^ 9, rlBurst = 40, rlPerSecond = 20\<rparr>"

record 'l RateLibrary =
  rbNew :: "rat \<Rightarrow> nat \<Rightarrow> 'l"
  rbAllow :: "instant \<Rightarrow> 'l \<Rightarrow> bool \<times> 'l"
  rbDelay :: "instant \<Rightarrow> 'l \<Rightarrow> instant"

record 'l bucket =
  bkLimiter :: 'l
  bkLastSeen :: instant

type_synonym 'l buckets = "str \<Rightarrow> 'l bucket option"

definition limiterTTL :: "RateLimitConfig \<Rightarrow> instant" where
  "limiterTTL cfg = (if rlTTL cfg \<le> 0 then 10 * 60 * 10 ^ 9 else rlTTL cfg)"

definition evictBuckets :: "RateLimitConfig \<Rightarrow> instant \<Rightarrow> 'l buckets \<Rightarrow> 'l buckets" where
  "evictBuckets cfg now bs = (\<lambda>key. case bs key of None \<Rightarrow> None
     | Some b \<Rightarrow> if now - bkLastSeen b > limiterTTL cfg then None else Some b)"

definition limiterFor :: "'l RateLibrary \<Rightarrow> RateLimitConfig \<Rightarrow> 'l bucket option \<Rightarrow> 'l" where
  "limiterFor lib cfg b = (case b of None \<Rightarrow> rbNew lib (rlPerSecond cfg) (rlBurst cfg) | Some b \<Rightarrow> bkLimiter b)"

definition limiter_allow :: "'l RateLibrary \<Rightarrow> RateLimitConfig \<Rightarrow> str \<Rightarrow> instant \<Rightarrow> 'l buckets \<Rightarrow> (bool \<times> instant) \<times> 'l buckets" where
  "limiter_allow lib cfg key now bs =
     (case rbAllow lib now (limiterFor lib cfg (bs key)) of (ok, l) \<Rightarrow>
        ((ok, if ok then 0 else rbDelay lib now l), bs(key \<mapsto> \<lparr>bkLimiter = l, bkLastSeen = now\<rparr>)))"

definition limiterKey :: "HttpLib \<Rightarrow> HttpRequest \<Rightarrow> str" where
  "limiterKey l r = (case hlSplitHostPort l (hrRemoteAddr r) of None \<Rightarrow> hrRemoteAddr r | Some host \<Rightarrow> host)"

text \<open>The answer of the middleware: pass, or the seconds of the header \<^theory_text>\<open>Retry-After\<close>.\<close>

definition limiter_Middleware ::
  "HttpLib \<Rightarrow> 'l RateLibrary \<Rightarrow> RateLimitConfig \<Rightarrow> instant \<Rightarrow> HttpRequest \<Rightarrow> 'l buckets \<Rightarrow> int option \<times> 'l buckets" where
  "limiter_Middleware l lib cfg now r bs =
     (case limiter_allow lib cfg (limiterKey l r) now bs of
        ((True, _), bs') \<Rightarrow> (None, bs')
      | ((False, delay), bs') \<Rightarrow> (Some (max 1 (delay div 10 ^ 9)), bs'))"

section \<open>Requests and evictions over time\<close>

datatype LimiterEvent = Arrival str instant | Eviction instant

fun limiterRun :: "'l RateLibrary \<Rightarrow> RateLimitConfig \<Rightarrow> LimiterEvent list \<Rightarrow> 'l buckets \<Rightarrow> (str \<times> bool) list \<times> 'l buckets" where
  "limiterRun lib cfg [] bs = ([], bs)"
| "limiterRun lib cfg (Arrival key now # evs) bs =
     (case limiter_allow lib cfg key now bs of ((ok, _), bs') \<Rightarrow>
        (case limiterRun lib cfg evs bs' of (answers, bs'') \<Rightarrow> ((key, ok) # answers, bs'')))"
| "limiterRun lib cfg (Eviction now # evs) bs = limiterRun lib cfg evs (evictBuckets cfg now bs)"

definition concerns :: "str \<Rightarrow> LimiterEvent \<Rightarrow> bool" where
  "concerns key ev = (case ev of Arrival k _ \<Rightarrow> k = key | Eviction _ \<Rightarrow> True)"

lemma evict_cong: "bs key = bs2 key \<Longrightarrow> evictBuckets cfg now bs key = evictBuckets cfg now bs2 key"
  by (simp add: evictBuckets_def)

lemma allow_cong:
  "bs key = bs2 key \<Longrightarrow> fst (limiter_allow lib cfg key now bs) = fst (limiter_allow lib cfg key now bs2) \<and>
     snd (limiter_allow lib cfg key now bs) key = snd (limiter_allow lib cfg key now bs2) key"
  by (simp add: limiter_allow_def split: prod.splits)

lemma allow_other: "k \<noteq> key \<Longrightarrow> snd (limiter_allow lib cfg k now bs) key = bs key"
  by (simp add: limiter_allow_def split: prod.splits)

text \<open>What one client address is answered does not depend on the requests of the others.\<close>

lemma limiter_isolated:
  assumes "bs key = bs2 key"
  shows "filter (\<lambda>a. fst a = key) (fst (limiterRun lib cfg evs bs)) = fst (limiterRun lib cfg (filter (concerns key) evs) bs2) \<and>
    snd (limiterRun lib cfg evs bs) key = snd (limiterRun lib cfg (filter (concerns key) evs) bs2) key"
  using assms
proof (induction evs arbitrary: bs bs2)
  case (Cons ev evs)
  show ?case
  proof (cases ev)
    case (Eviction now)
    then show ?thesis using evict_cong [where key = key and bs = bs and ?bs2.0 = bs2, OF Cons.prems]
        Cons.IH [of "evictBuckets cfg now bs" "evictBuckets cfg now bs2"] by (simp add: concerns_def)
  next
    case (Arrival k now)
    show ?thesis
    proof (cases "k = key")
      case True
      note a = allow_cong [where key = key and bs = bs and ?bs2.0 = bs2 and lib = lib and cfg = cfg and now = now, OF Cons.prems]
      show ?thesis using a Cons.IH [of "snd (limiter_allow lib cfg key now bs)" "snd (limiter_allow lib cfg key now bs2)"]
        by (auto simp: Arrival True concerns_def split: prod.splits)
    next
      case False
      have "snd (limiter_allow lib cfg k now bs) key = bs2 key" using Cons.prems by (simp add: allow_other [OF False])
      then show ?thesis using Cons.IH [of "snd (limiter_allow lib cfg k now bs)" bs2] False
        by (auto simp: Arrival concerns_def split: prod.splits)
    qed
  qed
qed simp

text \<open>After an eviction only addresses seen within the time to live have a bucket.\<close>

lemma evicted_recent: "evictBuckets cfg now bs key = Some b \<Longrightarrow> now - bkLastSeen b \<le> limiterTTL cfg"
  by (auto simp: evictBuckets_def split: option.splits if_splits)

end
