(* ===== verification/Probes.thy ===== *)
theory Probes
  imports Prelude
begin

text \<open>The health probes (src/internal/transport/http/health_handler.go, src/cmd/api/health.go): which dependencies are
  checked, which of them count, and the three answers. What a check returns is an input; all checks run against
  one deadline, and one that does not answer in time has failed.\<close>

record Probe =
  pbName :: str
  pbCritical :: bool
  pbCheck :: bool

record componentStatus =
  csName :: str
  csStatus :: str
  csCritical :: bool

record healthResponse =
  heStatus :: str
  heVersion :: str
  heChecks :: "componentStatus list"

abbreviation "statusOK \<equiv> ''ok''"
abbreviation "statusDown \<equiv> ''down''"
abbreviation "statusDraining \<equiv> ''draining''"

text \<open>Redis is probed only when it is configured.\<close>

definition healthProbes :: "bool \<Rightarrow> bool option \<Rightarrow> Probe list" where
  "healthProbes postgres redis = \<lparr>pbName = ''postgres'', pbCritical = True, pbCheck = postgres\<rparr> #
     (case redis of None \<Rightarrow> [] | Some up \<Rightarrow> [\<lparr>pbName = ''redis'', pbCritical = False, pbCheck = up\<rparr>])"

definition runProbes :: "Probe list \<Rightarrow> componentStatus list" where
  "runProbes ps = map (\<lambda>p. \<lparr>csName = pbName p, csStatus = (if pbCheck p then statusOK else statusDown), csCritical = pbCritical p\<rparr>) ps"

definition Live :: "str \<Rightarrow> nat \<times> healthResponse" where
  "Live version = (200, \<lparr>heStatus = statusOK, heVersion = version, heChecks = []\<rparr>)"

definition Ready :: "str \<Rightarrow> bool \<Rightarrow> Probe list \<Rightarrow> nat \<times> healthResponse" where
  "Ready version draining ps =
     (if draining then (503, \<lparr>heStatus = statusDraining, heVersion = version, heChecks = []\<rparr>)
      else if list_ex (\<lambda>c. csCritical c \<and> csStatus c \<noteq> statusOK) (runProbes ps)
           then (503, \<lparr>heStatus = statusDown, heVersion = version, heChecks = []\<rparr>)
      else (200, \<lparr>heStatus = statusOK, heVersion = version, heChecks = []\<rparr>))"

text \<open>The loop of \<^theory_text>\<open>Health\<close>: it ends at the first critical failure.\<close>

fun overall :: "componentStatus list \<Rightarrow> str \<times> nat \<Rightarrow> str \<times> nat" where
  "overall [] s = s"
| "overall (c # cs) (shown, status) =
     (if csStatus c = statusOK then overall cs (shown, status)
      else if csCritical c then (statusDown, 503)
      else overall cs (if shown = statusOK then ''degraded'' else shown, status))"

definition Health :: "str \<Rightarrow> bool \<Rightarrow> Probe list \<Rightarrow> nat \<times> healthResponse" where
  "Health version draining ps =
     (case overall (runProbes ps) (if draining then (statusDraining, 503) else (statusOK, 200)) of (shown, status) \<Rightarrow>
        (status, \<lparr>heStatus = shown, heVersion = version, heChecks = runProbes ps\<rparr>))"

lemma overall_status:
  "snd (overall cs (shown, status)) = (if list_ex (\<lambda>c. csCritical c \<and> csStatus c \<noteq> statusOK) cs then 503 else status)"
  by (induction cs arbitrary: shown) auto

lemma failing_probe: "list_ex (\<lambda>c. csCritical c \<and> csStatus c \<noteq> statusOK) (runProbes ps) \<longleftrightarrow> (\<exists>p \<in> set ps. pbCritical p \<and> \<not> pbCheck p)"
  by (auto simp: list_ex_iff runProbes_def)

text \<open>Traffic is taken away exactly while draining or when a critical dependency fails, and the two views never
  disagree about it; a failing Redis changes no status.\<close>

lemma probes_status:
  "fst (Ready version draining ps) = (if draining \<or> (\<exists>p \<in> set ps. pbCritical p \<and> \<not> pbCheck p) then 503 else 200)"
  "fst (Health version draining ps) = (if draining \<or> (\<exists>p \<in> set ps. pbCritical p \<and> \<not> pbCheck p) then 503 else 200)"
proof -
  show "fst (Ready version draining ps) = (if draining \<or> (\<exists>p \<in> set ps. pbCritical p \<and> \<not> pbCheck p) then 503 else 200)"
    by (simp add: Ready_def failing_probe)
  show "fst (Health version draining ps) = (if draining \<or> (\<exists>p \<in> set ps. pbCritical p \<and> \<not> pbCheck p) then 503 else 200)"
    using overall_status [of "runProbes ps"] by (simp add: Health_def case_prod_beta failing_probe)
qed

lemma redis_degrades: "fst (Ready version draining (healthProbes postgres redis)) = (if draining \<or> \<not> postgres then 503 else 200)"
  by (cases redis) (auto simp: probes_status healthProbes_def)

end
