(* ===== verification/Spec2Isabelle.thy ===== *)
theory Spec2Isabelle
  imports Paging Sync Transports CoverHandlers Startup AccessTokens Limiter Probes
begin

text \<open>A verification development of the Junto backend, the Go module under src/: a server on which groups plan
  trips together, over HTTP and over WebSockets.

  \<^bold>\<open>The program.\<close> A trip has members with a role (owner, editor, viewer) and a plan: days, slots within days or
  in a backlog, proposals (options) for a slot with votes, comments, budget entries with splits, and attachments.
  Every write of the plan is one transaction under the row lock of the trip; it changes rows and appends
  operations, numbered without gaps, to the trip's log. The committed operations are published to a broker, which
  delivers them to the connected clients of every instance; a client folds them into a replica of the trip. Ordering
  among days and slots is by keys of a fractional index, so that a move rewrites one row. Accounts, sessions,
  invitations and covers are tables of their own, outside the log. Three ways lead in: HTTP handlers, operation
  frames on a socket (through the sync engine), and the sweep of abandoned uploads.

  \<^bold>\<open>Theories and sources.\<close> Each theory opens with what it models; file names are below src/.

  The domain (internal/domain, pkg/fracdex):
  \<^item> Prelude: Go strings as lists of bytes, results as sums, shared lemmas. GoText: the runes and spaces of
    unicode/utf8 and strings.
  \<^item> Fracdex: fracdex.go. KeyBetween and NKeysBetween and the arithmetic of their base-62 integers; their keys are
    strictly between, ascending and inside the bounds, in the byte order of Go strings (the lexicographic order of char lists).
  \<^item> Errors, Permission, Itinerary, Proposal, Ledger, Membership, Attachments: errors.go, ids.go, permission.go, slot.go,
    option.go, comment.go, budget.go, trip.go, user.go, invitation.go, auth.go, pagination.go, attachment.go. Entities as
    records, enumerations that are Go strings as strings, every Validate with its violations in order.
  \<^item> OpVocab, Payload, Replica: op.go. The vocabulary and the field masks, the wire form of each entity, Apply and Fold.
    Convergence states what the fold guarantees as the locale lww_registers and interprets it on the field steps of
    every entity.

  The database and the services (internal/repository, internal/service):
  \<^item> Store, Repositories: the tables as lists of rows in one record DB, statements as functions from a table to an
    error or a new table with the checks and references of migrations/, the mapping of database errors to domain errors.
  \<^item> OpLog, SlotService, DayService, ProposalServices, LedgerService: oplog.go, authz.go and one definition per service
    method, guards and early returns in the code's order; a reply is result, database and published operations.
  \<^item> System: all of them as one function serve on requests, and the inductive set of reachable databases. Effects: what each
    transaction body does, in one step. Steps: the same as a step relation, from which invariants are proved once.
    Placement, Editing, Versions, Isolation: what the writes promise (positions, exact edits, versions, separation of trips).
  \<^item> Identity, AuthService, Credentials: accounts, sessions, refresh and mailed tokens; requests interleave freely, each
    on values it may have read earlier.
  \<^item> TripService, MembershipService, Roster, Paging: trips, members, invitations, cursors.
  \<^item> AttachmentService, AttachmentLife, AttachmentMirror: links and two-phase uploads; their commits interleave with each
    other and with the planning services; what the log shows of them.
  \<^item> Covers, CoverLife: cover suggestions with their cache, uploads of covers and the cover columns; commits interleave.

  Synchronisation and transports (internal/syncengine, internal/pubsub, internal/transport, internal/middleware):
  \<^item> Engine, Submission: engine.go, dispatch.go. An intent is decoded into one service call, at most once.
  \<^item> Room, Delivery: room.go, gate.go, broker.go. The dispatcher repairs holes from the log; losses, repetitions, timers and
    failing reads are inputs of its steps. Mirror, Sync: the fold of the log is the database, and delivery carries it to clients.
  \<^item> Tickets, Peers, Sockets, Connections: ticket.go, ticket_redis.go, redis.go, revocation.go, protocol.go, conn.go,
    handler.go, registry.go.
  \<^item> Http, PlanningHandlers, PeopleHandlers, Server, AttachmentHandlers, CoverHandlers: request.go, response.go, the handlers
    and the route table. Surface, Transports: a request is one request of a service, and the two transports agree.

  Around them (configs, internal/security, internal/middleware, cmd/api):
  \<^item> Startup: config.go. The environment read into a configuration, every default, and the rules that refuse to start.
  \<^item> Passwords: argon2.go. The text of a password hash with base64 and number scanning, and what a login accepts after a
    reset. AccessTokens: jwt.go. Limiter: ratelimit.go. Probes: health_handler.go, health.go.

  \<^bold>\<open>How state corresponds.\<close> A row is kept as the domain entity its toDomain function returns. A transaction is a
  function from a state to an error or a new state: an error drops the state, as the rollback does. Clocks, fresh
  identifiers, and what a column stores of an instant come from a record (Env, AuthEnv, PeopleEnv), one per request.
  A request outside a transaction is the sequence of its commits; where another request may come between, the commits are
  values of a datatype and the properties are proved of every interleaving (Credentials, AttachmentLife, CoverLife). Machine
  integers keep their width where it matters: amounts and sizes are 64-bit words, versions pass through a 32-bit column.

  \<^bold>\<open>Lemma groups.\<close> Interfaces are locales, each interpreted on the definitions of the component that provides it. The
  rules of Effects and of the write lemmas (names ending in Inr) say what a successful operation did; the collections
  validate_simps and grows and the bundles served_intros, cover_intros carry the proofs over them. Invariants are proved by rule
  induction over the step relations, refinements by comparing abstractions (Mirror, AttachmentMirror, Surface).

  \<^bold>\<open>Bounds and fuel.\<close> Loops are structural or have a measure, with these exceptions, where a bound is an argument and
  a theorem says which is enough: a client that follows the cursors of a list needs at most as many pages as there are
  trips (Paging); a room is up to date after one reconcile tick for every thousand operations it is behind, a thousand
  being the page of a catch-up read in the code (Delivery). Bounds of the code are kept as numbers: 256 pending frames,
  thirty seconds for a ticket, 25 MiB for an attachment, 12 MiB for a cover.

  \<^bold>\<open>Properties.\<close> A text block that begins with C and a number precedes each. They say that the log, folded, is the
  database, attachments included; that every client converges; that what a request does is what its service does and is
  logged exactly once; that members without a capability change nothing; that trips are isolated, positions strict, ledgers
  balanced, versions spent once; that credentials are spent once and revocations reach sockets; and of the pure parts that
  keys are between and splits fair. Some show that a habit of the design is not enforced by the code: the removal of a
  failed upload breaks the fold, the coordinates of an option are aliased, a late rejection deletes a cover's object.

  \<^bold>\<open>Parameters.\<close> The key derivation of argon2, token signing, SHA-256, the grammar of mail addresses, the time-zone database, UUID and
  RFC 3339 texts, base64, case folding beyond ASCII, the parsing of durations,
  path matching of the router, token buckets, Redis, the object storage
  and the photo provider are arguments of the definitions that use them; what a property relies on is a named hypothesis.

  \<^bold>\<open>Not modelled.\<close> cmd/api/main.go and cmd/migrate (construction, signals, migrations), internal/storage,
  internal/email, internal/photos (clients of third-party services), the logging, recovery and header middleware, metrics and
  logs; the texts of JSON and of problem prose (bodies are JSON values); TimeOfDay.Resolve and Trip.Location (calendar
  arithmetic); purges that nothing calls; SQL below the meaning of each statement (indexes, plans, connection failures). A
  concurrent write of one trip waits for the row lock, so writes are single steps; Go's scheduler and memory model are not
  modelled beyond the interleavings named above. The web client under web/ is TypeScript and outside this development.\<close>

end
